(* ===== verification/Prelude.thy ===== *)
theory Prelude
  imports Complex_Main "HOL-Library.Word" "HOL-Library.AList" "HOL-Library.Sublist"
begin

unbundle bit_operations_syntax

text \<open>
  Shared vocabulary of the development: the parts of Go and its standard library that the
  modelled packages use (64-bit integers, \<open>time.Time\<close> and \<open>time.Duration\<close>, \<open>strings\<close>,
  maps, the FNV-1a hash) and the generic lemmas the component theories share.
\<close>

section \<open>Collections of rewrite rules\<close>

named_theorems go_time \<comment> \<open>clock arithmetic\<close>
named_theorems go_map \<comment> \<open>association-list maps\<close>
named_theorems frame \<comment> \<open>fields an operation does not write\<close>

section \<open>64-bit integers\<close>

text \<open>
  Go's \<open>int64\<close> (and \<open>int\<close> on the supported 64-bit targets) wraps around. Values are kept as
  mathematical integers, and \<open>wrap64\<close> is written where an operation of the source can leave
  the range.
\<close>

definition wrap64 :: "int \<Rightarrow> int" where
  "wrap64 x = (x + 2 ^ 63) mod 2 ^ 64 - 2 ^ 63"

definition int32_of :: "int \<Rightarrow> int" where
  "int32_of n = (n + 2 ^ 31) mod 2 ^ 32 - 2 ^ 31"

definition in64 :: "int \<Rightarrow> bool" where
  "in64 x \<longleftrightarrow> - (2 ^ 63) \<le> x \<and> x < 2 ^ 63"

lemma wrap64_id [simp]: "in64 x \<Longrightarrow> wrap64 x = x"
  unfolding wrap64_def in64_def by (subst mod_pos_pos_trivial) auto

lemma wrap64_in64 [simp]: "in64 (wrap64 x)"
proof -
  have "0 \<le> (x + 2 ^ 63) mod 2 ^ 64" and "(x + 2 ^ 63) mod 2 ^ 64 < (2 :: int) ^ 64"
    by (rule pos_mod_sign pos_mod_bound, simp)+
  then show ?thesis unfolding wrap64_def in64_def by simp
qed

text \<open>Division truncates towards zero.\<close>

definition go_div :: "int \<Rightarrow> int \<Rightarrow> int" where
  "go_div a b = (if (a < 0) = (b < 0) then \<bar>a\<bar> div \<bar>b\<bar> else - (\<bar>a\<bar> div \<bar>b\<bar>))"

lemma go_div_nonneg: "0 \<le> a \<Longrightarrow> 0 < b \<Longrightarrow> go_div a b = a div b"
  by (simp add: go_div_def)

text \<open>Shifting the constant 1 left: the bits that leave the word are lost.\<close>

definition shl1 :: "nat \<Rightarrow> int" where
  "shl1 n = wrap64 (2 ^ n)"

lemma in64_two_power: "n \<le> 62 \<Longrightarrow> in64 (2 ^ n)"
  unfolding in64_def
  by (auto intro: order_le_less_trans[OF power_increasing[of n 62 "2 :: int"]]
           order_trans[of _ 0])

lemma shl1_small [simp]: "n \<le> 62 \<Longrightarrow> shl1 n = 2 ^ n"
  by (simp add: shl1_def in64_two_power)

lemma shl1_big: "64 \<le> n \<Longrightarrow> shl1 n = 0"
proof -
  assume "64 \<le> n"
  then obtain m where "2 ^ n = (2 :: int) ^ 64 * m"
    using le_imp_power_dvd by blast
  then have "(2 ^ n + 2 ^ 63) mod 2 ^ 64 = ((2 ^ 63) :: int) mod 2 ^ 64"
    by (simp only: mod_mult_self4)
  then show ?thesis by (simp add: shl1_def wrap64_def)
qed

section \<open>Time\<close>

text \<open>
  A \<open>time.Time\<close> is the number of nanoseconds since 0001-01-01T00:00:00Z, so that Go's zero
  time is 0 and \<open>Before\<close>, \<open>After\<close>, \<open>Add\<close> are comparison and addition on the integers. A
  \<open>time.Duration\<close> is a number of nanoseconds. \<open>UnixNano\<close> counts from 1970 in an \<open>int64\<close> and
  wraps around outside its range, as the library's own arithmetic does; in particular
  \<open>UnixNano\<close> of the zero time is a negative number and not 0.
\<close>

type_synonym gotime = int
type_synonym duration = int

abbreviation (input) is_zero_time :: "gotime \<Rightarrow> bool" where
  "is_zero_time t \<equiv> t = 0"

definition unix_epoch :: gotime where
  "unix_epoch = 62135596800 * 1000000000"

definition unix_nano :: "gotime \<Rightarrow> int" where
  "unix_nano t = wrap64 (t - unix_epoch)"

definition time_unix :: "int \<Rightarrow> gotime" where
  "time_unix ns = ns + unix_epoch"

text \<open>\<open>Time.Sub\<close> saturates at the ends of the \<open>int64\<close> range.\<close>

definition time_sub :: "gotime \<Rightarrow> gotime \<Rightarrow> duration" where
  "time_sub t u = max (- (2 ^ 63)) (min (2 ^ 63 - 1) (t - u))"

definition nanosecond :: duration where "nanosecond = 1"
definition millisecond :: duration where "millisecond = 1000000"
definition second :: duration where "second = 1000000000"
definition minute :: duration where "minute = 60000000000"
definition hour :: duration where "hour = 3600000000000"

lemmas dur_defs [go_time] =
  nanosecond_def millisecond_def second_def minute_def hour_def

text \<open>The instants whose Unix nanoseconds fit an \<open>int64\<close> (years 1678 to 2262).\<close>

definition time_ok :: "gotime \<Rightarrow> bool" where
  "time_ok t \<longleftrightarrow> in64 (t - unix_epoch)"

lemma unix_nano_inverse [go_time, simp]: "time_ok t \<Longrightarrow> time_unix (unix_nano t) = t"
  by (simp add: time_ok_def unix_nano_def time_unix_def)

lemma time_unix_nano [go_time, simp]: "in64 ns \<Longrightarrow> unix_nano (time_unix ns) = ns"
  by (simp add: unix_nano_def time_unix_def)

lemma time_unix_less [go_time, simp]: "time_unix a < time_unix b \<longleftrightarrow> a < b"
  by (simp add: time_unix_def)

lemma time_unix_le [go_time, simp]: "time_unix a \<le> time_unix b \<longleftrightarrow> a \<le> b"
  by (simp add: time_unix_def)

lemma unix_nano_zero_time: "unix_nano 0 = - 6795364578871345152"
  by (simp add: unix_nano_def unix_epoch_def wrap64_def)

lemma unix_nano_eq_0: "time_ok t \<Longrightarrow> unix_nano t = 0 \<longleftrightarrow> t = unix_epoch"
  by (simp add: time_ok_def unix_nano_def)

lemma time_sub_nonneg [go_time]: "0 \<le> time_sub t u \<longleftrightarrow> u \<le> t"
  by (auto simp: time_sub_def)

lemma time_sub_less [go_time]: "0 < d \<Longrightarrow> d < 2 ^ 63 \<Longrightarrow> time_sub t u < d \<longleftrightarrow> t - u < d"
  by (auto simp: time_sub_def)

section \<open>Strings\<close>

text \<open>
  A Go string is a sequence of bytes, here a list of \<open>char\<close>. Case mapping and white space are
  those of the ASCII range, which covers every literal the code compares with; case mapping of
  non-ASCII letters by the Unicode tables is outside the model (such bytes are left alone).
\<close>

definition lower_char :: "char \<Rightarrow> char" where
  "lower_char c = (let n = of_char c :: nat in if 65 \<le> n \<and> n \<le> 90 then char_of (n + 32) else c)"

definition upper_char :: "char \<Rightarrow> char" where
  "upper_char c = (let n = of_char c :: nat in if 97 \<le> n \<and> n \<le> 122 then char_of (n - 32) else c)"

definition to_lower :: "string \<Rightarrow> string" where
  "to_lower s = map lower_char s"

definition is_space :: "char \<Rightarrow> bool" where
  "is_space c \<longleftrightarrow> (let n = of_char c :: nat in n = 32 \<or> (9 \<le> n \<and> n \<le> 13))"

definition trim_space :: "string \<Rightarrow> string" where
  "trim_space s = rev (dropWhile is_space (rev (dropWhile is_space s)))"

definition norm_key :: "string \<Rightarrow> string" where
  "norm_key s = to_lower (trim_space s)"

definition has_prefix :: "string \<Rightarrow> string \<Rightarrow> bool" where
  "has_prefix s p \<longleftrightarrow> take (length p) s = p"

fun contains :: "string \<Rightarrow> string \<Rightarrow> bool" where
  "contains [] p \<longleftrightarrow> p = []"
| "contains (c # cs) p \<longleftrightarrow> has_prefix (c # cs) p \<or> contains cs p"

fun index_of :: "string \<Rightarrow> string \<Rightarrow> nat option" where
  "index_of [] p = (if p = [] then Some 0 else None)"
| "index_of (c # cs) p =
     (if has_prefix (c # cs) p then Some 0 else map_option Suc (index_of cs p))"

text \<open>Decimal notation (\<open>strconv.Itoa\<close>, \<open>%d\<close>).\<close>

fun show_nat :: "nat \<Rightarrow> string" where
  "show_nat n = (if n < 10 then [char_of (48 + n)]
                 else show_nat (n div 10) @ [char_of (48 + n mod 10)])"

declare show_nat.simps [simp del]

definition show_int :: "int \<Rightarrow> string" where
  "show_int n = (if n < 0 then CHR ''-'' # show_nat (nat (- n)) else show_nat (nat n))"

lemma has_prefix_iff: "has_prefix s p \<longleftrightarrow> prefix p s"
  by (metis append_eq_conv_conj append_take_drop_id has_prefix_def prefix_def)

lemma contains_iff_sublist: "contains s p \<longleftrightarrow> sublist p s"
  by (induction s) (auto simp: has_prefix_iff sublist_Cons_right)

lemma contains_append: "contains s p \<Longrightarrow> contains (u @ s @ v) p"
  unfolding contains_iff_sublist sublist_def by (metis append_assoc)

lemma index_of_eq_None: "index_of s p = None \<longleftrightarrow> \<not> contains s p"
  by (induction s) auto

lemma lower_char_idem [simp]: "lower_char (lower_char c) = lower_char c"
  by (auto simp: lower_char_def Let_def)

lemma to_lower_idem [simp]: "to_lower (to_lower s) = to_lower s"
  by (simp add: to_lower_def)

lemma to_lower_Nil [simp]: "to_lower s = [] \<longleftrightarrow> s = []"
  by (simp add: to_lower_def)

lemma trim_space_id:
  assumes "s \<noteq> []" "\<not> is_space (hd s)" "\<not> is_space (last s)"
  shows "trim_space s = s"
proof -
  have "dropWhile is_space s = s" using assms by (cases s) simp_all
  moreover have "dropWhile is_space (rev s) = rev s" using assms by (cases s rule: rev_cases) simp_all
  ultimately show ?thesis by (simp add: trim_space_def)
qed

lemma last_of_trimmed:
  assumes "s \<noteq> []" "trim_space s = s"
  shows "\<not> is_space (last s)"
proof
  assume "is_space (last s)"
  moreover have "s = rev (dropWhile is_space (rev (dropWhile is_space s)))" using assms(2) by (simp add: trim_space_def)
  ultimately show False using assms(1) by (metis hd_dropWhile hd_rev last_rev rev_is_Nil_conv)
qed

lemma length_to_lower [simp]: "length (to_lower s) = length s"
  by (simp add: to_lower_def)

section \<open>Maps\<close>

text \<open>
  A Go map is an association list with distinct keys, in the order in which a \<open>range\<close> loop
  happens to visit it. A statement that holds for every such list holds for every iteration
  order. Reading a missing key, storing and \<open>delete\<close> are the library's operations on
  association lists.
\<close>

type_synonym ('k, 'v) gomap = "('k \<times> 'v) list"

abbreviation mget :: "('k, 'v) gomap \<Rightarrow> 'k \<Rightarrow> 'v option" where
  "mget m k \<equiv> map_of m k"

abbreviation mput :: "'k \<Rightarrow> 'v \<Rightarrow> ('k, 'v) gomap \<Rightarrow> ('k, 'v) gomap" where
  "mput \<equiv> AList.update"

abbreviation mdel :: "'k \<Rightarrow> ('k, 'v) gomap \<Rightarrow> ('k, 'v) gomap" where
  "mdel \<equiv> AList.delete"

abbreviation mkeys :: "('k, 'v) gomap \<Rightarrow> 'k list" where
  "mkeys m \<equiv> List.map fst m"

definition wf_map :: "('k, 'v) gomap \<Rightarrow> bool" where
  "wf_map m \<longleftrightarrow> distinct (mkeys m)"

text \<open>Applying a function to every value, in place, as a \<open>range\<close> loop over pointers does.\<close>

definition mmap :: "('k \<Rightarrow> 'v \<Rightarrow> 'w) \<Rightarrow> ('k, 'v) gomap \<Rightarrow> ('k, 'w) gomap" where
  "mmap f m = List.map (\<lambda>(k, v). (k, f k v)) m"

lemma mget_mput [go_map, simp]: "mget (mput k v m) = (mget m)(k \<mapsto> v)"
  by (rule update_conv')

lemma mget_mdel [go_map, simp]: "mget (mdel k m) = (mget m)(k := None)"
  by (rule delete_conv')

lemma mget_mmap [go_map, simp]: "mget (mmap f m) k = map_option (f k) (mget m k)"
  by (induction m) (auto simp: mmap_def)

lemma mkeys_mmap [go_map, simp]: "mkeys (mmap f m) = mkeys m"
  by (simp add: mmap_def case_prod_unfold o_def)

lemma wf_map_Nil [go_map, simp]: "wf_map []"
  by (simp add: wf_map_def)

lemma wf_map_mput [go_map, simp]: "wf_map m \<Longrightarrow> wf_map (mput k v m)"
  by (simp add: wf_map_def distinct_update)

lemma wf_map_mdel [go_map, simp]: "wf_map m \<Longrightarrow> wf_map (mdel k m)"
  by (simp add: wf_map_def distinct_delete)

lemma wf_map_mmap [go_map, simp]: "wf_map (mmap f m) \<longleftrightarrow> wf_map m"
  by (simp add: wf_map_def)

lemma wf_map_filter [go_map, simp]: "wf_map m \<Longrightarrow> wf_map (filter P m)"
  by (simp add: wf_map_def distinct_map_filter)

lemma keys_mput [go_map, simp]: "fst ` set (mput k v m) = insert k (fst ` set m)"
  by (induction m) auto

lemma keys_mdel [go_map, simp]: "fst ` set (mdel k m) = fst ` set m - {k}"
  by (auto simp: AList.delete_eq image_iff)

lemma card_keys: "wf_map m \<Longrightarrow> card (fst ` set m) = length m"
  using distinct_card [of "mkeys m"] by (simp add: wf_map_def)

lemma mget_in_set: "wf_map m \<Longrightarrow> mget m k = Some v \<longleftrightarrow> (k, v) \<in> set m"
  by (simp add: wf_map_def map_of_eq_Some_iff)

lemma mget_filter:
  "wf_map m \<Longrightarrow> mget (filter P m) k = (case mget m k of None \<Rightarrow> None
     | Some v \<Rightarrow> if P (k, v) then Some v else None)"
proof (induction m)
  case (Cons kv m)
  moreover have "k \<notin> set (mkeys m) \<Longrightarrow> mget (filter P m) k = None"
    by (auto simp: map_of_eq_None_iff)
  ultimately show ?case
    by (cases kv) (auto simp: wf_map_def map_of_eq_None_iff split: option.splits)
qed simp

lemma length_mput_le: "length (mput k v m) \<le> Suc (length m)"
  by (induction m) auto

lemma length_mput: "length (mput k v m) = (if k \<in> set (mkeys m) then length m else Suc (length m))"
  by (induction m) auto

section \<open>FNV-1a\<close>

text \<open>The offset basis and prime of \<open>hash/fnv\<close>, for the 64-bit and the 32-bit variant.\<close>

definition fnv64a :: "string \<Rightarrow> 64 word" where
  "fnv64a s = foldl (\<lambda>h c. (h XOR of_char c) * 1099511628211) 14695981039346656037 s"

definition fnv32a :: "string \<Rightarrow> 32 word" where
  "fnv32a s = foldl (\<lambda>h c. (h XOR of_char c) * 16777619) 2166136261 s"

end
