(* ===== verification/ErrorCategory.thy ===== *)
theory ErrorCategory
  imports Prelude
begin

text \<open>
  Classification of upstream failures (\<open>internal/provider/error_category.go\<close>,
  \<open>internal/provider/errors.go\<close>) and the error values the executors build
  (\<open>internal/runtime/executor/error_helpers.go\<close>). Every retry, fallback, suspension and
  circuit-breaker decision of the gateway is taken on an \<open>error_category\<close>.
\<close>

section \<open>Categories and the decisions they carry\<close>

datatype error_category =
    CategoryUnknown
  | CategoryUserError
  | CategoryAuthError
  | CategoryAuthRevoked
  | CategoryQuotaError
  | CategoryTransient
  | CategoryNotFound
  | CategoryClientCanceled

fun category_string :: "error_category \<Rightarrow> string" where
  "category_string CategoryUserError = ''user_error''"
| "category_string CategoryAuthError = ''auth_error''"
| "category_string CategoryAuthRevoked = ''auth_revoked''"
| "category_string CategoryQuotaError = ''quota_error''"
| "category_string CategoryTransient = ''transient''"
| "category_string CategoryNotFound = ''not_found''"
| "category_string CategoryClientCanceled = ''client_canceled''"
| "category_string CategoryUnknown = ''unknown''"

definition should_fallback :: "error_category \<Rightarrow> bool" where
  "should_fallback c \<longleftrightarrow> c = CategoryQuotaError \<or> c = CategoryTransient \<or> c = CategoryAuthError"

definition should_disable_auth :: "error_category \<Rightarrow> bool" where
  "should_disable_auth c \<longleftrightarrow> c = CategoryAuthRevoked"

definition should_suspend_auth :: "error_category \<Rightarrow> bool" where
  "should_suspend_auth c \<longleftrightarrow> c = CategoryAuthError \<or> c = CategoryQuotaError"

definition is_user_fault :: "error_category \<Rightarrow> bool" where
  "is_user_fault c \<longleftrightarrow> c = CategoryUserError \<or> c = CategoryNotFound \<or> c = CategoryClientCanceled"

lemmas decision_defs =
  should_fallback_def should_disable_auth_def should_suspend_auth_def is_user_fault_def

section \<open>Classification by HTTP status and by message\<close>

definition categorize_http_status :: "int \<Rightarrow> error_category" where
  "categorize_http_status code =
     (if code = 400 then CategoryUserError
      else if code = 401 then CategoryAuthError
      else if code = 402 \<or> code = 403 then CategoryQuotaError
      else if code = 404 then CategoryNotFound
      else if code = 429 then CategoryQuotaError
      else if code = 500 \<or> code = 502 \<or> code = 503 \<or> code = 504 then CategoryTransient
      else if 400 \<le> code \<and> code < 500 then CategoryUserError
      else if 500 \<le> code then CategoryTransient
      else CategoryUnknown)"

text \<open>
  The four message tests lower-case the message once and look for any of a list of fragments;
  the empty message matches none.
\<close>

definition mentions :: "string list \<Rightarrow> string \<Rightarrow> bool" where
  "mentions pats msg \<longleftrightarrow> msg \<noteq> [] \<and> list_ex (contains (to_lower msg)) pats"

definition is_oauth_revoked_error :: "string \<Rightarrow> bool" where
  "is_oauth_revoked_error msg = mentions
     [''invalid_grant'', ''token has been expired or revoked'', ''token revoked'',
      ''oauth_token_revoked''] msg"

definition is_user_error :: "string \<Rightarrow> bool" where
  "is_user_error msg = mentions
     [''invalid_argument'', ''invalid request'', ''malformed'', ''missing required'',
      ''invalid json'', ''please use a valid'', ''not supported'', ''must be non-empty'',
      ''cannot be empty''] msg"

definition is_quota_error :: "string \<Rightarrow> bool" where
  "is_quota_error msg = mentions
     [''resource_exhausted'', ''quota'', ''rate limit'', ''rate_limit_error'',
      ''too many requests'', ''credit balance is too low'', ''overloaded_error''] msg"

definition is_context_canceled_error :: "string \<Rightarrow> bool" where
  "is_context_canceled_error msg = mentions
     [''context canceled'', ''context deadline exceeded''] msg"

definition categorize_error :: "int \<Rightarrow> string \<Rightarrow> error_category" where
  "categorize_error code msg =
     (if is_context_canceled_error msg then CategoryClientCanceled
      else if is_oauth_revoked_error msg then CategoryAuthRevoked
      else if is_user_error msg then CategoryUserError
      else if is_quota_error msg then CategoryQuotaError
      else categorize_http_status code)"

lemmas message_defs =
  is_oauth_revoked_error_def is_user_error_def is_quota_error_def is_context_canceled_error_def

section \<open>Error values\<close>

text \<open>\<open>provider.Error\<close>; a nil pointer is \<open>None\<close> where the source allows one.\<close>

record prov_error =
  err_code :: string
  err_message :: string
  err_retryable :: bool
  err_http_status :: int
  err_category :: error_category

definition mk_error :: "string \<Rightarrow> string \<Rightarrow> prov_error" where
  "mk_error code msg = \<lparr>err_code = code, err_message = msg, err_retryable = False,
     err_http_status = 0, err_category = CategoryUnknown\<rparr>"

definition error_text :: "prov_error option \<Rightarrow> string" where
  "error_text e = (case e of None \<Rightarrow> []
     | Some e \<Rightarrow> if err_code e = [] then err_message e
               else err_code e @ '': '' @ err_message e)"

definition status_code_from_result :: "prov_error option \<Rightarrow> int" where
  "status_code_from_result e = (case e of None \<Rightarrow> 0 | Some e \<Rightarrow> err_http_status e)"

text \<open>Every copy the code takes of a stored error is built from four of its five fields.\<close>

definition copy_error :: "prov_error \<Rightarrow> prov_error" where
  "copy_error e = \<lparr>err_code = err_code e, err_message = err_message e,
     err_retryable = err_retryable e, err_http_status = err_http_status e,
     err_category = CategoryUnknown\<rparr>"

definition clone_error :: "prov_error option \<Rightarrow> prov_error option" where
  "clone_error e = map_option copy_error e"

text \<open>\<open>executor.StatusError\<close>, whose category is fixed when it is built.\<close>

record status_error =
  se_code :: int
  se_msg :: string
  se_retry_after :: "duration option"
  se_category :: error_category

definition new_status_error :: "int \<Rightarrow> string \<Rightarrow> duration option \<Rightarrow> status_error" where
  "new_status_error code msg ra = \<lparr>se_code = code, se_msg = msg, se_retry_after = ra,
     se_category = categorize_error code msg\<rparr>"

section \<open>Lemmas\<close>

lemma copy_error_idem [simp]: "copy_error (copy_error e) = copy_error e"
  by (simp add: copy_error_def)

lemma copy_error_sel [simp]:
  "err_code (copy_error e) = err_code e" "err_message (copy_error e) = err_message e"
  "err_retryable (copy_error e) = err_retryable e"
  "err_http_status (copy_error e) = err_http_status e"
  "err_category (copy_error e) = CategoryUnknown"
  by (simp_all add: copy_error_def)

lemma copy_error_eq_iff: "copy_error e = e \<longleftrightarrow> err_category e = CategoryUnknown"
  by (cases e) (auto simp: copy_error_def)

lemma clone_error_idem [simp]: "clone_error (clone_error e) = clone_error e"
  by (cases e) (simp_all add: clone_error_def)

lemma clone_error_None [simp]: "clone_error None = None"
  by (simp add: clone_error_def)

lemma clone_error_Some [simp]: "clone_error (Some e) = Some (copy_error e)"
  by (simp add: clone_error_def)

lemma mentions_to_lower [simp]: "mentions pats (to_lower msg) = mentions pats msg"
  by (simp add: mentions_def)

lemma mentions_context:
  assumes "mentions pats msg"
  shows "mentions pats (pre @ msg @ post)"
proof -
  from assms obtain p where "p \<in> set pats" "contains (to_lower msg) p" "msg \<noteq> []"
    by (auto simp: mentions_def list_ex_iff)
  moreover from this have "contains (to_lower pre @ to_lower msg @ to_lower post) p"
    by (intro contains_append)
  ultimately show ?thesis by (auto simp: mentions_def list_ex_iff to_lower_def)
qed

lemma categorize_http_status_ranges:
  "categorize_http_status code = CategoryTransient \<longleftrightarrow> 500 \<le> code"
  "categorize_http_status code = CategoryUnknown \<longleftrightarrow> code < 400"
  "categorize_http_status code = CategoryQuotaError \<longleftrightarrow> code \<in> {402, 403, 429}"
  "categorize_http_status code = CategoryAuthError \<longleftrightarrow> code = 401"
  "categorize_http_status code = CategoryNotFound \<longleftrightarrow> code = 404"
  "categorize_http_status code \<noteq> CategoryAuthRevoked"
  "categorize_http_status code \<noteq> CategoryClientCanceled"
  by (auto simp: categorize_http_status_def)

lemma categorize_error_empty [simp]: "categorize_error code [] = categorize_http_status code"
  by (simp add: categorize_error_def message_defs mentions_def)

section \<open>Properties\<close>

text \<open>
  the decisions are consistent. An error that is the client's own fault is never retried on
  another credential and never suspends or disables one; disabling and falling back exclude each
  other; a suspended credential is always one the request may fall back from; and only the
  unknown category carries no decision at all.
\<close>

theorem category_decisions_consistent:
  "\<not> (is_user_fault c \<and> (should_fallback c \<or> should_suspend_auth c \<or> should_disable_auth c))
   \<and> \<not> (should_disable_auth c \<and> should_fallback c)
   \<and> (should_suspend_auth c, should_fallback c) \<noteq> (True, False)
   \<and> (\<not> is_user_fault c \<and> \<not> should_fallback c \<and> \<not> should_disable_auth c) = (c = CategoryUnknown)"
  by (cases c) (auto simp: decision_defs)

text \<open>
  the category of a failure depends on its message only up to case, and the message takes
  precedence over the status in the documented order: whatever surrounds the tell-tale text and
  whatever the status is, a cancelled request is never blamed on the provider, and a revoked
  token is recognised unless the request was cancelled.
\<close>

theorem categorize_error_precedence:
  assumes "is_context_canceled_error m" "is_oauth_revoked_error r"
  shows "categorize_error code (pre @ m @ post) = CategoryClientCanceled
    \<and> categorize_error code (pre @ r @ post) \<in> {CategoryClientCanceled, CategoryAuthRevoked}
    \<and> categorize_error code (to_lower msg) = categorize_error code msg"
  using assms by (auto simp: categorize_error_def message_defs intro: mentions_context)

lemma categorize_error_precedence_witness:
  "categorize_error 500 (''dial: '' @ ''context canceled'' @ []) = CategoryClientCanceled"
proof -
  have "is_context_canceled_error ''context canceled''" by code_simp
  moreover have "is_oauth_revoked_error ''invalid_grant''" by code_simp
  ultimately show ?thesis
    using categorize_error_precedence [of "''context canceled''" "''invalid_grant''" 500 "''dial: ''" "[]"]
    by blast
qed

end
