(* ===== verification/Backoff.thy ===== *)
theory Backoff
  imports Prelude
begin

text \<open>
  Delays: the quota cooldown ladder of \<open>internal/provider/retry.go\<close>, the exponential backoff of
  \<open>internal/resilience/retry.go\<close> and the caps on server-supplied delays of
  \<open>internal/runtime/executor/retry_helpers.go\<close>. All products are those of a 64-bit
  \<open>time.Duration\<close>, with the wrap-around written out.
\<close>

section \<open>The quota cooldown ladder\<close>

definition quota_backoff_base :: duration where "quota_backoff_base = second"
definition quota_backoff_max :: duration where "quota_backoff_max = 30 * minute"

text \<open>
  \<open>nextQuotaCooldown\<close>; the first argument is the global switch \<open>quotaCooldownDisabled\<close>. The
  result is the cooldown and the backoff level to remember.
\<close>

definition next_quota_cooldown :: "bool \<Rightarrow> int \<Rightarrow> duration \<times> int" where
  "next_quota_cooldown disabled prev_level =
     (let lvl = (if prev_level < 0 then 0 else prev_level) in
      if disabled then (0, lvl)
      else let c = wrap64 (quota_backoff_base * shl1 (nat lvl));
               cooldown = (if c < quota_backoff_base then quota_backoff_base else c)
           in if quota_backoff_max \<le> cooldown then (quota_backoff_max, lvl)
              else (cooldown, lvl + 1))"

section \<open>Exponential backoff\<close>

definition backoff_delay :: "nat \<Rightarrow> duration \<Rightarrow> duration \<Rightarrow> duration" where
  "backoff_delay attempt base_delay max_delay =
     (let d = wrap64 (base_delay * shl1 attempt) in if max_delay < d then max_delay else d)"

definition calculate_backoff_no_jitter :: "nat \<Rightarrow> duration \<Rightarrow> duration \<Rightarrow> duration" where
  "calculate_backoff_no_jitter attempt base_delay max_delay =
     backoff_delay attempt base_delay max_delay"

text \<open>
  \<open>CalculateBackoff\<close> draws uniformly from \<open>[0, delay)\<close>: the third argument is what
  \<open>rand.Int64N\<close> returns for its bound, which the library promises to be in \<open>[0, n)\<close>. The jitter
  parameter of the source is ignored by it.
\<close>

definition calculate_backoff ::
    "nat \<Rightarrow> duration \<Rightarrow> duration \<Rightarrow> (int \<Rightarrow> int) \<Rightarrow> duration" where
  "calculate_backoff attempt base_delay max_delay rnd =
     (let delay = backoff_delay attempt base_delay max_delay
      in if delay \<le> 0 then 0 else rnd delay)"

definition rand_ok :: "(int \<Rightarrow> int) \<Rightarrow> bool" where
  "rand_ok rnd \<longleftrightarrow> (\<forall>n > 0. 0 \<le> rnd n \<and> rnd n < n)"

section \<open>Caps on server-supplied delays\<close>

definition max_quota_retry_delay :: duration where "max_quota_retry_delay = 30 * second"

definition cap_quota_delay :: "duration \<Rightarrow> duration" where
  "cap_quota_delay d = (if max_quota_retry_delay < d then max_quota_retry_delay else d)"

section \<open>Lemmas\<close>

lemmas ladder_consts = quota_backoff_base_def quota_backoff_max_def

text \<open>A scaled power of two below the bound stays inside the word.\<close>

lemma in64_scaled_power:
  assumes "n \<le> k" "0 \<le> c" "c * 2 ^ k < 2 ^ 63"
  shows "in64 (c * 2 ^ n)"
proof -
  have "c * 2 ^ n \<le> c * 2 ^ k"
    using assms by (intro mult_left_mono power_increasing) auto
  moreover have "0 \<le> c * 2 ^ n" using assms by simp
  ultimately show ?thesis using assms unfolding in64_def by linarith
qed

lemma ladder_product:
  assumes "0 \<le> l" "l \<le> 33"
  shows "wrap64 (quota_backoff_base * shl1 (nat l)) = 1000000000 * 2 ^ nat l"
proof -
  have "in64 (1000000000 * 2 ^ nat l)"
    using assms by (intro in64_scaled_power [where k = 33]) auto
  then show ?thesis using assms by (simp add: ladder_consts go_time)
qed

lemma next_quota_cooldown_low:
  assumes "0 \<le> l" "l \<le> 10"
  shows "next_quota_cooldown False l = (second * 2 ^ nat l, l + 1)"
proof -
  have "(2 :: int) ^ nat l \<le> 2 ^ 10"
    using assms by (intro power_increasing) auto
  then show ?thesis
    using assms ladder_product [of l]
    by (simp add: next_quota_cooldown_def Let_def ladder_consts go_time not_less)
qed

lemma next_quota_cooldown_top:
  assumes "11 \<le> l" "l \<le> 33"
  shows "next_quota_cooldown False l = (quota_backoff_max, l)"
proof -
  have "(2 :: int) ^ 11 \<le> 2 ^ nat l" using assms by (intro power_increasing) auto
  then show ?thesis
    using assms ladder_product [of l]
    by (simp add: next_quota_cooldown_def Let_def ladder_consts go_time)
qed

lemma next_quota_cooldown_neg: "l < 0 \<Longrightarrow> next_quota_cooldown d l = next_quota_cooldown d 0"
  by (simp add: next_quota_cooldown_def)

lemma backoff_delay_le_max: "backoff_delay n b m \<le> m"
  by (simp add: backoff_delay_def Let_def)

lemma calculate_backoff_bounds:
  "rand_ok rnd \<Longrightarrow> 0 \<le> m \<Longrightarrow> 0 \<le> calculate_backoff n b m rnd \<and> calculate_backoff n b m rnd \<le> m"
  using backoff_delay_le_max [of n b m]
  by (force simp: calculate_backoff_def Let_def rand_ok_def not_le)

lemma calculate_backoff_nonneg: "rand_ok rnd \<Longrightarrow> 0 \<le> calculate_backoff n b m rnd"
  by (auto simp: calculate_backoff_def Let_def rand_ok_def)

lemma cap_quota_delay_le: "cap_quota_delay d \<le> max_quota_retry_delay"
  by (simp add: cap_quota_delay_def)

lemma cap_quota_delay_mono: "a \<le> b \<Longrightarrow> cap_quota_delay a \<le> cap_quota_delay b"
  by (simp add: cap_quota_delay_def)

section \<open>Runs of the ladder\<close>

text \<open>The level after \<open>n\<close> quota errors in a row without a server-supplied delay.\<close>

fun ladder_level :: "nat \<Rightarrow> int \<Rightarrow> int" where
  "ladder_level 0 l = l"
| "ladder_level (Suc n) l = ladder_level n (snd (next_quota_cooldown False l))"

lemma ladder_level_step: "0 \<le> l \<Longrightarrow> l \<le> 11 \<Longrightarrow> snd (next_quota_cooldown False l) = min 11 (l + 1)"
  using next_quota_cooldown_low [of l] next_quota_cooldown_top [of l] by (cases "l \<le> 10") auto

lemma ladder_level_closed: "0 \<le> l \<Longrightarrow> l \<le> 11 \<Longrightarrow> ladder_level n l = min 11 (l + int n)"
  by (induction n arbitrary: l) (auto simp: ladder_level_step min_def)

section \<open>Properties\<close>

text \<open>
  the quota ladder. Whatever backoff level is stored (a negative or an absurdly large one
  from a persisted file included), the cooldown lies between one second and thirty minutes.
\<close>

theorem next_quota_cooldown_bounds:
  "second \<le> fst (next_quota_cooldown False l) \<and> fst (next_quota_cooldown False l) \<le> 30 * minute"
  by (auto simp: next_quota_cooldown_def Let_def ladder_consts go_time)

text \<open>
  starting from a fresh credential, the \<open>n\<close>-th quota error in a row (counting from 0) waits
  two to the power \<open>n\<close> seconds up to the eleventh and thirty minutes from then on, and the stored
  level stops growing at 11, so the shift in the code never leaves the word.
\<close>

theorem quota_ladder_run:
  "fst (next_quota_cooldown False (ladder_level n 0)) =
     (if n \<le> 10 then second * 2 ^ n else 30 * minute)
   \<and> ladder_level n 0 = min 11 (int n)"
proof (cases "n \<le> 10")
  case True
  then show ?thesis
    by (simp add: ladder_level_closed next_quota_cooldown_low min_def)
next
  case False
  then show ?thesis
    by (simp add: ladder_level_closed next_quota_cooldown_top min_def quota_backoff_max_def)
qed

text \<open>
  the jittered backoff is always a usable delay between 0 and the configured maximum, for
  every attempt number and base delay, overflow of the product included.
\<close>

theorem calculate_backoff_range:
  assumes "rand_ok rnd" "0 \<le> max_delay"
  shows "0 \<le> calculate_backoff attempt base_delay max_delay rnd
       \<and> calculate_backoff attempt base_delay max_delay rnd \<le> max_delay"
  using assms by (rule calculate_backoff_bounds)

lemma calculate_backoff_range_witness:
  "0 \<le> calculate_backoff 70 second (5 * second) (\<lambda>n. n div 2)
   \<and> calculate_backoff 70 second (5 * second) (\<lambda>n. n div 2) \<le> 5 * second"
proof (rule calculate_backoff_range)
  show "rand_ok (\<lambda>n. n div 2)" by (auto simp: rand_ok_def)
  show "0 \<le> 5 * second" by (simp add: go_time)
qed

text \<open>
  the variant without jitter loses the cap when the product overflows. With the default base
  delay of half a second it is the exponential delay capped at the maximum for attempts 0 to 34,
  but at attempt 35 the product has wrapped to a negative number, which is returned as the delay.
\<close>

theorem backoff_no_jitter_overflow:
  "(attempt \<le> 34 \<longrightarrow> calculate_backoff_no_jitter attempt (500 * millisecond) (30 * second)
      = min (500 * millisecond * 2 ^ attempt) (30 * second))
   \<and> calculate_backoff_no_jitter 35 (500 * millisecond) (30 * second) < 0"
proof
  show "calculate_backoff_no_jitter 35 (500 * millisecond) (30 * second) < 0"
    by (simp add: calculate_backoff_no_jitter_def backoff_delay_def wrap64_def go_time)
  show "attempt \<le> 34 \<longrightarrow> calculate_backoff_no_jitter attempt (500 * millisecond) (30 * second)
      = min (500 * millisecond * 2 ^ attempt) (30 * second)"
  proof
    assume a: "attempt \<le> 34"
    then have "in64 (500000000 * 2 ^ attempt)"
      by (intro in64_scaled_power [where k = 34]) auto
    with a show "calculate_backoff_no_jitter attempt (500 * millisecond) (30 * second)
      = min (500 * millisecond * 2 ^ attempt) (30 * second)"
      by (simp add: calculate_backoff_no_jitter_def backoff_delay_def Let_def go_time min_def)
  qed
qed

lemma backoff_no_jitter_overflow_witness:
  "calculate_backoff_no_jitter 3 (500 * millisecond) (30 * second) = 4 * second"
  using backoff_no_jitter_overflow [of 3] by (simp add: go_time)

end
