(* ===== verification/RetryBudget.thy ===== *)
theory RetryBudget
  imports Prelude
begin

text \<open>
  The token bucket that limits concurrent retries (\<open>RetryBudget\<close> of
  \<open>internal/resilience/retry.go\<close>). First the operations as seen by one caller, then the same
  code run by any number of goroutines, where a step is one load or one compare-and-swap of the
  shared counter.
\<close>

section \<open>The budget and its operations\<close>

record retry_budget =
  capacity :: int
  max_capacity :: int

definition new_retry_budget :: "int \<Rightarrow> retry_budget" where
  "new_retry_budget n =
     (let m = (if n \<le> 0 then 50 else n) in \<lparr>capacity = m, max_capacity = m\<rparr>)"

definition try_acquire :: "retry_budget \<Rightarrow> bool \<times> retry_budget" where
  "try_acquire rb =
     (if capacity rb \<le> 0 then (False, rb) else (True, rb\<lparr>capacity := capacity rb - 1\<rparr>))"

definition release :: "retry_budget \<Rightarrow> retry_budget" where
  "release rb =
     (if max_capacity rb \<le> capacity rb then rb else rb\<lparr>capacity := capacity rb + 1\<rparr>)"

definition budget_ok :: "retry_budget \<Rightarrow> bool" where
  "budget_ok rb \<longleftrightarrow> 0 < max_capacity rb \<and> 0 \<le> capacity rb \<and> capacity rb \<le> max_capacity rb"

lemma budget_ok_new [simp]: "budget_ok (new_retry_budget n)"
  by (simp add: budget_ok_def new_retry_budget_def Let_def)

lemma budget_ok_try_acquire [simp]: "budget_ok rb \<Longrightarrow> budget_ok (snd (try_acquire rb))"
  by (auto simp: budget_ok_def try_acquire_def)

lemma budget_ok_release [simp]: "budget_ok rb \<Longrightarrow> budget_ok (release rb)"
  by (auto simp: budget_ok_def release_def)

lemma release_after_acquire:
  "budget_ok rb \<Longrightarrow> fst (try_acquire rb) \<Longrightarrow> release (snd (try_acquire rb)) = rb"
  by (auto simp: budget_ok_def try_acquire_def release_def split: if_splits)

section \<open>The same code under concurrency\<close>

text \<open>
  Where a goroutine is: outside (\<open>Outside\<close>), at the load of \<open>TryAcquire\<close>, between that load and
  the compare-and-swap with the value it read, holding a token, at the load of \<open>Release\<close>, or
  between that load and its compare-and-swap. Only a goroutine that holds a token calls
  \<open>Release\<close>, which is how \<open>Manager.Execute\<close> uses the budget (\<open>acquiredBudget\<close>).
\<close>

datatype pc = Outside | AcqLoad | AcqCas int | Holding | RelLoad | RelCas int

record bsys =
  budget :: retry_budget
  pcs :: "nat \<Rightarrow> pc"

definition goto :: "bsys \<Rightarrow> nat \<Rightarrow> pc \<Rightarrow> bsys" where
  "goto s i p = s\<lparr>pcs := (pcs s)(i := p)\<rparr>"

definition set_cap :: "bsys \<Rightarrow> int \<Rightarrow> bsys" where
  "set_cap s c = s\<lparr>budget := (budget s)\<lparr>capacity := c\<rparr>\<rparr>"

abbreviation cap :: "bsys \<Rightarrow> int" where
  "cap s \<equiv> capacity (budget s)"

inductive bstep :: "bsys \<Rightarrow> bsys \<Rightarrow> bool" where
  call_acquire: "pcs s i = Outside \<Longrightarrow> bstep s (goto s i AcqLoad)"
| acquire_exhausted: "pcs s i = AcqLoad \<Longrightarrow> cap s \<le> 0 \<Longrightarrow> bstep s (goto s i Outside)"
| acquire_load: "pcs s i = AcqLoad \<Longrightarrow> 0 < cap s \<Longrightarrow> bstep s (goto s i (AcqCas (cap s)))"
| acquire_cas: "pcs s i = AcqCas c \<Longrightarrow> cap s = c \<Longrightarrow>
    bstep s (goto (set_cap s (c - 1)) i Holding)"
| acquire_lost: "pcs s i = AcqCas c \<Longrightarrow> cap s \<noteq> c \<Longrightarrow> bstep s (goto s i AcqLoad)"
| call_release: "pcs s i = Holding \<Longrightarrow> bstep s (goto s i RelLoad)"
| release_full: "pcs s i = RelLoad \<Longrightarrow> max_capacity (budget s) \<le> cap s \<Longrightarrow> bstep s (goto s i Outside)"
| release_load: "pcs s i = RelLoad \<Longrightarrow> cap s < max_capacity (budget s) \<Longrightarrow>
    bstep s (goto s i (RelCas (cap s)))"
| release_cas: "pcs s i = RelCas c \<Longrightarrow> cap s = c \<Longrightarrow>
    bstep s (goto (set_cap s (c + 1)) i Outside)"
| release_lost: "pcs s i = RelCas c \<Longrightarrow> cap s \<noteq> c \<Longrightarrow> bstep s (goto s i RelLoad)"

inductive_cases bstepE: "bstep s t"

definition init_sys :: "int \<Rightarrow> bsys" where
  "init_sys n = \<lparr>budget = new_retry_budget n, pcs = (\<lambda>_. Outside)\<rparr>"

inductive breachable :: "int \<Rightarrow> bsys \<Rightarrow> bool" where
  start: "breachable n (init_sys n)"
| step: "breachable n s \<Longrightarrow> bstep s t \<Longrightarrow> breachable n t"

text \<open>The goroutines that own a token: from the successful swap until it is given back.\<close>

fun owns :: "pc \<Rightarrow> bool" where
  "owns Holding = True"
| "owns RelLoad = True"
| "owns (RelCas _) = True"
| "owns _ = False"

definition owners :: "bsys \<Rightarrow> nat set" where
  "owners s = {i. owns (pcs s i)}"

definition binv :: "bsys \<Rightarrow> bool" where
  "binv s \<longleftrightarrow> finite (owners s) \<and> 0 \<le> cap s \<and> 0 < max_capacity (budget s)
     \<and> cap s + int (card (owners s)) = max_capacity (budget s)
     \<and> (\<forall>i c. pcs s i = AcqCas c \<longrightarrow> 0 < c)"

lemma goto_sel [simp]: "budget (goto s i p) = budget s" "pcs (goto s i p) = (pcs s)(i := p)"
  by (simp_all add: goto_def)

lemma set_cap_sel [simp]: "cap (set_cap s c) = c" "pcs (set_cap s c) = pcs s"
  "max_capacity (budget (set_cap s c)) = max_capacity (budget s)"
  by (simp_all add: set_cap_def)

lemma owners_goto:
  "owners (goto s i p) = (if owns p then insert i (owners s) else owners s - {i})"
  by (auto simp: owners_def)

lemma owners_set_cap [simp]: "owners (set_cap s c) = owners s"
  by (simp add: owners_def)

lemma owners_iff: "i \<in> owners s \<longleftrightarrow> owns (pcs s i)"
  by (simp add: owners_def)

lemma binv_init: "binv (init_sys n)"
  by (simp add: binv_def init_sys_def owners_def new_retry_budget_def Let_def)

text \<open>A step that leaves the counter and the ownership alone keeps the invariant.\<close>

lemma binv_goto:
  assumes "binv s" "owns p = owns (pcs s i)" "\<And>c. p = AcqCas c \<Longrightarrow> 0 < c"
  shows "binv (goto s i p)"
proof -
  have "owners (goto s i p) = owners s"
    using assms(2) by (auto simp: owners_goto owners_iff)
  with assms show ?thesis by (auto simp: binv_def)
qed

lemma binv_acquire:
  assumes "binv s" "pcs s i = AcqCas (cap s)"
  shows "binv (goto (set_cap s (cap s - 1)) i Holding)"
proof -
  have "i \<notin> owners s" using assms(2) by (simp add: owners_iff)
  then have "card (insert i (owners s)) = Suc (card (owners s))"
    using assms(1) by (simp add: binv_def)
  with assms show ?thesis by (auto simp: binv_def owners_goto)
qed

lemma binv_release:
  assumes "binv s" "pcs s i = RelCas (cap s)"
  shows "binv (goto (set_cap s (cap s + 1)) i Outside)"
proof -
  have i: "i \<in> owners s" using assms(2) by (simp add: owners_iff)
  with assms(1) have "card (owners s) = Suc (card (owners s - {i}))"
    using card.remove [of "owners s" i] by (simp add: binv_def)
  with assms show ?thesis by (auto simp: binv_def owners_goto)
qed

text \<open>An owner gives back a token that is missing from the counter, so the counter is not full.\<close>

lemma binv_owner_below_max: "binv s \<Longrightarrow> owns (pcs s i) \<Longrightarrow> cap s < max_capacity (budget s)"
proof -
  assume b: "binv s" and "owns (pcs s i)"
  then have "i \<in> owners s" by (simp add: owners_iff)
  with b have "0 < card (owners s)" by (auto simp: binv_def card_gt_0_iff)
  with b show ?thesis unfolding binv_def by linarith
qed

lemma binv_step: "bstep s t \<Longrightarrow> binv s \<Longrightarrow> binv t"
proof (induction rule: bstep.induct)
  case (release_full s i)
  then show ?case using binv_owner_below_max [of s i] by simp
qed (auto intro!: binv_goto binv_acquire binv_release)

lemma breachable_binv: "breachable n s \<Longrightarrow> binv s"
  by (induction rule: breachable.induct) (auto intro: binv_init binv_step)

lemma bstep_max: "bstep s t \<Longrightarrow> max_capacity (budget t) = max_capacity (budget s)"
  by (induction rule: bstep.induct) auto

lemma breachable_max: "breachable n s \<Longrightarrow> max_capacity (budget s) = max_capacity (new_retry_budget n)"
  by (induction rule: breachable.induct) (auto simp: init_sys_def bstep_max)

text \<open>
  Every step of the concurrent code is invisible on the budget or is one whole call of the
  sequential operation, at the instant of its compare-and-swap.
\<close>

lemma bstep_refines:
  assumes "bstep s t" "binv s"
  shows "budget t = budget s \<or> (True, budget t) = try_acquire (budget s)
       \<or> budget t = release (budget s) \<and> cap t = cap s + 1"
  using assms
proof (induction rule: bstep.induct)
  case (acquire_cas s i c)
  then have "0 < c" by (auto simp: binv_def)
  with acquire_cas show ?case by (auto simp: try_acquire_def set_cap_def goto_def)
next
  case (release_cas s i c)
  then show ?case using binv_owner_below_max [of s i]
    by (auto simp: release_def set_cap_def goto_def)
qed auto

section \<open>Properties\<close>

text \<open>
  under any interleaving of any number of goroutines the budget neither leaks nor mints
  tokens: the counter stays between 0 and the maximum, and it is the maximum minus the number of
  goroutines that own a token; so at most \<open>max\<close> retries are ever in flight.
\<close>

theorem retry_budget_conservation:
  assumes "breachable n s"
  shows "0 \<le> cap s \<and> cap s \<le> max_capacity (new_retry_budget n) \<and> finite (owners s)
       \<and> int (card (owners s)) = max_capacity (new_retry_budget n) - cap s"
  using breachable_binv [OF assms] breachable_max [OF assms] by (auto simp: binv_def)

text \<open>
  the lock-free code refines the sequential operations: each step either leaves the budget
  alone or does exactly what one successful \<open>TryAcquire\<close> or one \<open>Release\<close> does to the budget as
  it stands at that instant; a stale read never reaches the counter.
\<close>

theorem retry_budget_linearizable:
  assumes "breachable n s" "bstep s t"
  shows "budget t = budget s \<or> (True, budget t) = try_acquire (budget s)
       \<or> budget t = release (budget s) \<and> cap t = cap s + 1"
  using bstep_refines [OF assms(2) breachable_binv [OF assms(1)]] .

text \<open>A run: the only token of a budget of one is taken.\<close>

abbreviation run_loaded :: bsys where
  "run_loaded \<equiv> goto (goto (init_sys 1) 0 AcqLoad) 0 (AcqCas 1)"

abbreviation run_taken :: bsys where
  "run_taken \<equiv> goto (set_cap run_loaded (1 - 1)) 0 Holding"

lemma init_cap [simp]: "cap (init_sys 1) = 1"
  by (simp add: init_sys_def new_retry_budget_def)

lemma run_loaded_reachable: "breachable 1 run_loaded"
proof -
  let ?s1 = "goto (init_sys 1) 0 AcqLoad"
  have "bstep (init_sys 1) ?s1" by (rule bstep.call_acquire) (simp add: init_sys_def)
  moreover have "bstep ?s1 run_loaded" using bstep.acquire_load [of ?s1 0] by simp
  ultimately show ?thesis by (meson breachable.start breachable.step)
qed

lemma run_taken_step: "bstep run_loaded run_taken"
  by (rule bstep.acquire_cas) simp_all

lemma retry_budget_conservation_witness: "int (card (owners run_taken)) = 1"
  using retry_budget_conservation [OF breachable.step [OF run_loaded_reachable run_taken_step]]
  by (simp add: new_retry_budget_def)

lemma retry_budget_linearizable_witness:
  "(True, budget run_taken) = try_acquire (budget run_loaded)"
proof -
  have cap0: "cap run_taken = 0" and cap1: "cap run_loaded = 1" by simp_all
  then have "budget run_taken \<noteq> budget run_loaded" by (metis zero_neq_one)
  moreover have "cap run_taken \<noteq> cap run_loaded + 1" using cap0 cap1 by linarith
  ultimately show ?thesis
    using retry_budget_linearizable [OF run_loaded_reachable run_taken_step] by blast
qed

end
