(* ===== verification/Sharding.thy ===== *)
theory Sharding
  imports Prelude
begin

text \<open>
  Sharded maps. The auth registry, the quota manager, the sticky-session store and the provider
  statistics all spread a string-keyed map over a fixed array of shards by a hash of the key, so
  that two keys rarely contend for one lock. The definitions here are that common shape; the
  locale \<open>keyed_store\<close> is the contract their clients rely on, and \<open>sharding\<close> says that a hash
  into the array is all it takes to meet it.
\<close>

section \<open>Shards\<close>

type_synonym 'v shards = "(string, 'v) gomap list"

definition sh_empty :: "nat \<Rightarrow> 'v shards" where
  "sh_empty n = replicate n []"

definition sh_get :: "(string \<Rightarrow> nat) \<Rightarrow> 'v shards \<Rightarrow> string \<Rightarrow> 'v option" where
  "sh_get idx ss k = mget (ss ! idx k) k"

definition sh_put :: "(string \<Rightarrow> nat) \<Rightarrow> string \<Rightarrow> 'v \<Rightarrow> 'v shards \<Rightarrow> 'v shards" where
  "sh_put idx k v ss = ss[idx k := mput k v (ss ! idx k)]"

definition sh_del :: "(string \<Rightarrow> nat) \<Rightarrow> string \<Rightarrow> 'v shards \<Rightarrow> 'v shards" where
  "sh_del idx k ss = ss[idx k := mdel k (ss ! idx k)]"

text \<open>Ranging over the shards and, in each, over its entries.\<close>

definition sh_entries :: "'v shards \<Rightarrow> (string \<times> 'v) list" where
  "sh_entries ss = concat ss"

definition sh_count :: "'v shards \<Rightarrow> nat" where
  "sh_count ss = sum_list (List.map length ss)"

text \<open>Deleting, in every shard, the entries that fail a test.\<close>

definition sh_filter :: "(string \<times> 'v \<Rightarrow> bool) \<Rightarrow> 'v shards \<Rightarrow> 'v shards" where
  "sh_filter P ss = List.map (filter P) ss"

definition sh_ok :: "(string \<Rightarrow> nat) \<Rightarrow> nat \<Rightarrow> 'v shards \<Rightarrow> bool" where
  "sh_ok idx n ss \<longleftrightarrow> length ss = n \<and>
     (\<forall>i < n. wf_map (ss ! i) \<and> (\<forall>k \<in> set (mkeys (ss ! i)). idx k = i))"

section \<open>The contract of a keyed store\<close>

locale keyed_store =
  fixes empty :: "'s"
    and get :: "'s \<Rightarrow> string \<Rightarrow> 'v option"
    and put :: "string \<Rightarrow> 'v \<Rightarrow> 's \<Rightarrow> 's"
    and del :: "string \<Rightarrow> 's \<Rightarrow> 's"
    and entries :: "'s \<Rightarrow> (string \<times> 'v) list"
    and ok :: "'s \<Rightarrow> bool"
  assumes ok_empty: "ok empty"
    and ok_put: "ok s \<Longrightarrow> ok (put k v s)"
    and ok_del: "ok s \<Longrightarrow> ok (del k s)"
    and get_empty: "get empty k = None"
    and get_put: "ok s \<Longrightarrow> get (put k v s) = (get s)(k \<mapsto> v)"
    and get_del: "ok s \<Longrightarrow> get (del k s) = (get s)(k := None)"
    and wf_entries: "ok s \<Longrightarrow> wf_map (entries s)"
    and get_entries: "ok s \<Longrightarrow> mget (entries s) = get s"
begin

lemma put_put: "ok s \<Longrightarrow> get (put k v (put k w s)) = get (put k v s)"
  by (simp add: get_put ok_put)

lemma put_commute:
  "ok s \<Longrightarrow> k \<noteq> l \<Longrightarrow> get (put k v (put l w s)) = get (put l w (put k v s))"
  by (simp add: get_put ok_put fun_upd_twist)

lemma in_entries: "ok s \<Longrightarrow> (k, v) \<in> set (entries s) \<longleftrightarrow> get s k = Some v"
  using mget_in_set [OF wf_entries] by (simp add: get_entries)

lemma entries_keys: "ok s \<Longrightarrow> set (mkeys (entries s)) = dom (get s)"
  by (simp add: dom_map_of_conv_image_fst [symmetric] get_entries [symmetric])

lemma length_entries: "ok s \<Longrightarrow> length (entries s) = card (dom (get s))"
proof -
  assume s: "ok s"
  show ?thesis
    using card_keys [OF wf_entries [OF s]] entries_keys [OF s] by simp
qed

text \<open>A put adds one entry for a new key and replaces the entry of an old one.\<close>

lemma length_entries_put:
  "ok s \<Longrightarrow> length (entries (put k v s))
     = (if get s k = None then Suc (length (entries s)) else length (entries s))"
proof -
  assume s: "ok s"
  have "finite (dom (get s))"
    using entries_keys [OF s] by (metis List.finite_set)
  moreover have "dom (get (put k v s)) = insert k (dom (get s))"
    using s by (simp add: get_put)
  ultimately show ?thesis
    using s by (auto simp: length_entries ok_put domIff insert_absorb card_insert_if)
qed

end

section \<open>Hashing into the array meets it\<close>

locale sharding =
  fixes idx :: "string \<Rightarrow> nat" and n :: nat
  assumes idx_less: "idx k < n"
begin

lemma sh_ok_shard: "sh_ok idx n ss \<Longrightarrow> wf_map (ss ! idx k)"
  using idx_less by (auto simp: sh_ok_def)

lemma sh_ok_empty: "sh_ok idx n (sh_empty n)"
  by (simp add: sh_ok_def sh_empty_def)

lemma sh_ok_update:
  "sh_ok idx n ss \<Longrightarrow> wf_map m \<Longrightarrow> (\<forall>l \<in> set (mkeys m). idx l = idx k) \<Longrightarrow>
     sh_ok idx n (ss[idx k := m])"
  using idx_less [of k] by (auto simp: sh_ok_def nth_list_update)

lemma shard_keys: "sh_ok idx n ss \<Longrightarrow> l \<in> set (mkeys (ss ! idx k)) \<Longrightarrow> idx l = idx k"
  using idx_less [of k] unfolding sh_ok_def by blast

lemma sh_ok_put: "sh_ok idx n ss \<Longrightarrow> sh_ok idx n (sh_put idx k v ss)"
  unfolding sh_put_def
proof (rule sh_ok_update)
  assume ok: "sh_ok idx n ss"
  then show "wf_map (mput k v (ss ! idx k))" by (simp add: sh_ok_shard)
  show "\<forall>l \<in> set (mkeys (mput k v (ss ! idx k))). idx l = idx k"
  proof
    fix l assume "l \<in> set (mkeys (mput k v (ss ! idx k)))"
    then have "l = k \<or> l \<in> set (mkeys (ss ! idx k))" by simp
    then show "idx l = idx k" using shard_keys [OF ok] by blast
  qed
qed

lemma sh_ok_del: "sh_ok idx n ss \<Longrightarrow> sh_ok idx n (sh_del idx k ss)"
  unfolding sh_del_def
proof (rule sh_ok_update)
  assume ok: "sh_ok idx n ss"
  then show "wf_map (mdel k (ss ! idx k))" by (simp add: sh_ok_shard)
  show "\<forall>l \<in> set (mkeys (mdel k (ss ! idx k))). idx l = idx k"
  proof
    fix l assume "l \<in> set (mkeys (mdel k (ss ! idx k)))"
    then have "l \<in> set (mkeys (ss ! idx k))" by simp
    then show "idx l = idx k" by (rule shard_keys [OF ok])
  qed
qed

lemma sh_get_update:
  "sh_ok idx n ss \<Longrightarrow> sh_get idx (ss[idx k := m]) l =
     (if idx l = idx k then mget m l else sh_get idx ss l)"
  using idx_less [of k] by (auto simp: sh_get_def sh_ok_def nth_list_update)

lemma sh_ok_filter: "sh_ok idx n ss \<Longrightarrow> sh_ok idx n (sh_filter P ss)"
  by (auto simp: sh_ok_def sh_filter_def)

lemma sh_get_put: "sh_ok idx n ss \<Longrightarrow> sh_get idx (sh_put idx k v ss) = (sh_get idx ss)(k \<mapsto> v)"
  using idx_less [of k] by (auto simp: sh_get_def sh_put_def sh_ok_def nth_list_update fun_eq_iff)

lemma sh_get_del: "sh_ok idx n ss \<Longrightarrow> sh_get idx (sh_del idx k ss) = (sh_get idx ss)(k := None)"
  using idx_less [of k] by (auto simp: sh_get_def sh_del_def sh_ok_def nth_list_update fun_eq_iff)

lemma sh_get_empty: "sh_get idx (sh_empty n) k = None"
  using idx_less [of k] by (simp add: sh_get_def sh_empty_def)

lemma sh_get_filter:
  "sh_ok idx n ss \<Longrightarrow> sh_get idx (sh_filter P ss) k
     = (case sh_get idx ss k of None \<Rightarrow> None | Some v \<Rightarrow> if P (k, v) then Some v else None)"
  using idx_less [of k] sh_ok_shard [of ss k]
  by (auto simp: sh_get_def sh_filter_def sh_ok_def mget_filter)

lemma wf_concat:
  assumes "\<And>i. i < length ss \<Longrightarrow> wf_map (ss ! i) \<and> (\<forall>k \<in> set (mkeys (ss ! i)). f k = c + i)"
  shows "wf_map (concat ss)"
  using assms
proof (induction ss arbitrary: c)
  case (Cons m ss)
  have "wf_map (concat ss)"
    using Cons.prems [of "Suc _"] by (intro Cons.IH [of "Suc c"]) auto
  moreover have "wf_map m" and "\<forall>k \<in> set (mkeys m). f k = c"
    using Cons.prems [of 0] by auto
  moreover have "f k \<noteq> c" if "k \<in> set (mkeys (concat ss))" for k
  proof -
    from that obtain i where "i < length ss" "k \<in> set (mkeys (ss ! i))"
      by (force simp: in_set_conv_nth [of _ ss])
    then show ?thesis using Cons.prems [of "Suc i"] by auto
  qed
  ultimately show ?case by (auto simp: wf_map_def)
qed simp

lemma wf_sh_entries: "sh_ok idx n ss \<Longrightarrow> wf_map (sh_entries ss)"
  unfolding sh_entries_def by (rule wf_concat [where f = idx and c = 0]) (auto simp: sh_ok_def)

lemma mget_sh_entries: "sh_ok idx n ss \<Longrightarrow> mget (sh_entries ss) = sh_get idx ss"
proof
  fix k assume ok: "sh_ok idx n ss"
  have "(k, v) \<in> set (sh_entries ss) \<longleftrightarrow> (k, v) \<in> set (ss ! idx k)" for v
  proof
    assume "(k, v) \<in> set (sh_entries ss)"
    then obtain i where "i < length ss" "(k, v) \<in> set (ss ! i)"
      by (auto simp: sh_entries_def in_set_conv_nth [of _ ss])
    then show "(k, v) \<in> set (ss ! idx k)"
      using ok by (force simp: sh_ok_def)
  next
    assume "(k, v) \<in> set (ss ! idx k)"
    then show "(k, v) \<in> set (sh_entries ss)"
      using ok idx_less [of k] by (auto simp: sh_entries_def sh_ok_def)
  qed
  then show "mget (sh_entries ss) k = sh_get idx ss k"
    using mget_in_set [OF wf_sh_entries [OF ok], of k] mget_in_set [OF sh_ok_shard [OF ok, of k], of k]
    by (cases "mget (sh_entries ss) k"; cases "mget (ss ! idx k) k") (auto simp: sh_get_def)
qed

end

sublocale sharding \<subseteq> keyed_store "sh_empty n" "sh_get idx" "sh_put idx" "sh_del idx" sh_entries "sh_ok idx n"
  by unfold_locales
    (simp_all add: sh_ok_empty sh_ok_put sh_ok_del sh_get_empty sh_get_put sh_get_del
      wf_sh_entries mget_sh_entries)

context sharding
begin

lemma sh_count_card: "sh_ok idx n ss \<Longrightarrow> sh_count ss = card (dom (sh_get idx ss))"
  using length_entries [of ss] by (simp add: sh_count_def sh_entries_def length_concat)

end

end
