(* ===== verification/QuotaGroup.thy ===== *)
theory QuotaGroup
  imports Prelude
begin

text \<open>
  Quota groups (\<open>internal/provider/quota_group.go\<close>): the models of a provider that share one
  rate limit, the resolvers that name the group of a model, and the index from a group to its
  blocked state that every credential carries in its runtime slot.
\<close>

section \<open>Resolvers\<close>

type_synonym resolver = "string \<Rightarrow> string \<Rightarrow> string"

type_synonym resolvers = "(string, resolver) gomap"

definition register_quota_group_resolver :: "string \<Rightarrow> resolver option \<Rightarrow> resolvers \<Rightarrow> resolvers" where
  "register_quota_group_resolver provider r rs =
     (let p = norm_key provider in
      case r of None \<Rightarrow> rs | Some f \<Rightarrow> if p = [] then rs else mput p f rs)"

definition has_quota_grouping :: "resolvers \<Rightarrow> string \<Rightarrow> bool" where
  "has_quota_grouping rs provider \<longleftrightarrow> mget rs (to_lower provider) \<noteq> None"

definition resolve_quota_group :: "resolvers \<Rightarrow> string \<Rightarrow> string \<Rightarrow> string" where
  "resolve_quota_group rs provider model =
     (if provider = [] \<or> model = [] then []
      else case mget rs (to_lower provider) of None \<Rightarrow> [] | Some f \<Rightarrow> f (to_lower provider) model)"

definition is_delim :: "char \<Rightarrow> bool" where
  "is_delim c \<longleftrightarrow> c = CHR ''-'' \<or> c = CHR ''_'' \<or> c = CHR ''.''"

text \<open>
  The part of the lower-cased model name before its first delimiter (nothing, when the name starts
  with one), or the whole name when it has none.
\<close>

definition extract_model_family :: "string \<Rightarrow> string" where
  "extract_model_family model = takeWhile (\<lambda>c. \<not> is_delim c) (to_lower model)"

definition antigravity_resolver :: resolver where
  "antigravity_resolver provider model = extract_model_family model"

definition default_resolvers :: resolvers where
  "default_resolvers = register_quota_group_resolver ''antigravity'' (Some antigravity_resolver) []"

section \<open>The index of blocked groups\<close>

record quota_group_state =
  qg_next_retry_after :: gotime
  qg_next_recover_at :: gotime
  qg_source_model :: string

type_synonym quota_group_index = "(string, quota_group_state) gomap"

definition set_group_blocked ::
    "string \<Rightarrow> string \<Rightarrow> gotime \<Rightarrow> gotime \<Rightarrow> quota_group_index \<Rightarrow> quota_group_index" where
  "set_group_blocked grp source next_retry next_recover idx =
     (if grp = [] then idx
      else mput grp \<lparr>qg_next_retry_after = next_retry, qg_next_recover_at = next_recover,
                       qg_source_model = source\<rparr> idx)"

definition clear_group :: "string \<Rightarrow> quota_group_index \<Rightarrow> quota_group_index" where
  "clear_group grp idx = mdel grp idx"

text \<open>
  Blocked or not, until when, and the index after the lazy removal of an expired entry.
\<close>

definition is_group_blocked ::
    "string \<Rightarrow> gotime \<Rightarrow> quota_group_index \<Rightarrow> bool \<times> gotime \<times> quota_group_index" where
  "is_group_blocked grp now idx =
     (if grp = [] then (False, 0, idx)
      else case mget idx grp of
        None \<Rightarrow> (False, 0, idx)
      | Some st \<Rightarrow>
          if now < qg_next_retry_after st then
            (True,
             (if qg_next_recover_at st \<noteq> 0 \<and> now < qg_next_recover_at st
                \<and> qg_next_retry_after st < qg_next_recover_at st
              then qg_next_recover_at st else qg_next_retry_after st),
             idx)
          else
            (False, 0,
             if qg_next_recover_at st = 0 \<or> qg_next_recover_at st < now
             then mdel grp idx else idx))"

abbreviation group_verdict :: "string \<Rightarrow> gotime \<Rightarrow> quota_group_index \<Rightarrow> bool \<times> gotime" where
  "group_verdict grp now idx \<equiv>
     (fst (is_group_blocked grp now idx), fst (snd (is_group_blocked grp now idx)))"

section \<open>The runtime slot of a credential\<close>

text \<open>
  \<open>Auth.Runtime\<close> is empty, a bare index (a legacy form), provider data of some executor (an
  opaque value, named by a number), or the wrapper \<open>AuthRuntimeData\<close> around both.
\<close>

datatype runtime =
    RtNil
  | RtIndex quota_group_index
  | RtProvider nat
  | RtData "quota_group_index option" runtime

fun get_provider_data :: "runtime \<Rightarrow> runtime" where
  "get_provider_data (RtData _ d) = d"
| "get_provider_data _ = RtNil"

fun get_quota_group_index :: "runtime \<Rightarrow> quota_group_index option" where
  "get_quota_group_index RtNil = None"
| "get_quota_group_index (RtIndex idx) = Some idx"
| "get_quota_group_index (RtData q _) = q"
| "get_quota_group_index (RtProvider _) = None"

text \<open>The index, created when there is none, and the slot that now holds it.\<close>

fun get_or_create_index :: "runtime \<Rightarrow> quota_group_index \<times> runtime" where
  "get_or_create_index RtNil = ([], RtData (Some []) RtNil)"
| "get_or_create_index (RtData q d) =
     (case q of None \<Rightarrow> ([], RtData (Some []) d) | Some idx \<Rightarrow> (idx, RtData (Some idx) d))"
| "get_or_create_index r = ([], RtData (Some []) r)"

text \<open>Writing through the pointer to the index a slot holds.\<close>

fun put_quota_group_index :: "quota_group_index \<Rightarrow> runtime \<Rightarrow> runtime" where
  "put_quota_group_index idx (RtIndex _) = RtIndex idx"
| "put_quota_group_index idx (RtData (Some _) d) = RtData (Some idx) d"
| "put_quota_group_index idx r = r"

section \<open>Lemmas\<close>

lemma family_no_delim: "\<forall>c \<in> set (extract_model_family m). \<not> is_delim c"
  unfolding extract_model_family_def by (blast dest: set_takeWhileD)

lemma is_delim_code: "is_delim c \<longleftrightarrow> (of_char c :: nat) \<in> {45, 95, 46}"
  unfolding is_delim_def by (auto simp flip: of_char_eq_iff [where ?'a = nat])

lemma is_delim_lower [simp]: "is_delim (lower_char c) = is_delim c"
  by (auto simp: is_delim_code lower_char_def Let_def)

lemma get_or_create_provider_data:
  "get_quota_group_index (snd (get_or_create_index r)) = Some (fst (get_or_create_index r))"
  by (cases r rule: get_or_create_index.cases) (auto split: option.splits)

lemma put_get_index:
  "get_quota_group_index r \<noteq> None \<Longrightarrow> get_quota_group_index (put_quota_group_index idx r) = Some idx"
  by (cases "(idx, r)" rule: put_quota_group_index.cases) auto

lemma group_verdict_after_set [simp]:
  "g \<noteq> [] \<Longrightarrow> fst (is_group_blocked g now (set_group_blocked g src r c idx)) = (now < r)"
  by (simp add: is_group_blocked_def set_group_blocked_def)

lemma group_verdict_frame:
  "g \<noteq> h \<Longrightarrow> group_verdict h now (set_group_blocked g src r c idx) = group_verdict h now idx"
  by (simp add: is_group_blocked_def set_group_blocked_def split: option.splits)

lemma group_verdict_clear: "\<not> fst (is_group_blocked g now (clear_group g idx))"
  by (simp add: is_group_blocked_def clear_group_def)

lemma family_of_prefix:
  "\<forall>c \<in> set f. \<not> is_delim c \<Longrightarrow> is_delim d \<Longrightarrow> extract_model_family (f @ d # r) = to_lower f"
  by (simp add: extract_model_family_def to_lower_def takeWhile_tail)

text \<open>
  Lazy clean-up is invisible. Asking whether a group is blocked may delete an expired entry,
  and no question asked at that instant or later, about that group or any other, is answered
  differently because of it.
\<close>

theorem group_cleanup_invisible:
  assumes "now \<le> t"
  shows "group_verdict h t (snd (snd (is_group_blocked g now idx))) = group_verdict h t idx"
  using assms by (cases "g = h") (auto simp: is_group_blocked_def split: option.splits)

lemma group_cleanup_invisible_witness:
  "let idx = set_group_blocked ''claude'' ''m'' 5 6 (set_group_blocked ''gemini'' ''n'' 9 12 []) in
     snd (snd (is_group_blocked ''claude'' 7 idx)) \<noteq> idx
     \<and> group_verdict ''claude'' 8 (snd (snd (is_group_blocked ''claude'' 7 idx)))
         = group_verdict ''claude'' 8 idx
     \<and> group_verdict ''gemini'' 8 idx = (True, 12)"
  using group_cleanup_invisible [of 7 8 "''claude''" "''claude''"
      "set_group_blocked ''claude'' ''m'' 5 6 (set_group_blocked ''gemini'' ''n'' 9 12 [])"]
  by (simp add: Let_def) (simp add: is_group_blocked_def set_group_blocked_def)

text \<open>
  Under the default resolvers two Antigravity models share a rate limit exactly when their
  names agree, letter case aside, up to the first of the delimiters minus, underscore and dot; a
  provider without a resolver groups nothing.
\<close>

theorem antigravity_groups:
  assumes "\<forall>c \<in> set f. \<not> is_delim c" and "is_delim d"
    and "\<forall>c \<in> set g. \<not> is_delim c" and "is_delim e"
    and "f \<noteq> []" and "g \<noteq> []"
  shows "(resolve_quota_group default_resolvers ''Antigravity'' (f @ d # r)
            = resolve_quota_group default_resolvers ''Antigravity'' (g @ e # s)
          \<longleftrightarrow> to_lower f = to_lower g)
         \<and> resolve_quota_group default_resolvers ''Antigravity'' (f @ d # r) \<noteq> []
         \<and> resolve_quota_group default_resolvers ''claude'' (f @ d # r) = []"
proof -
  have "norm_key ''antigravity'' = ''antigravity''" "to_lower ''Antigravity'' = ''antigravity''"
       "to_lower ''claude'' = ''claude''"
    by code_simp+
  then have k: "mget default_resolvers (to_lower ''Antigravity'') = Some antigravity_resolver"
       "mget default_resolvers (to_lower ''claude'') = None"
    by (simp_all add: default_resolvers_def register_quota_group_resolver_def)
  show ?thesis
    unfolding resolve_quota_group_def k
    using assms by (simp add: antigravity_resolver_def family_of_prefix)
qed

lemma antigravity_groups_witness:
  "resolve_quota_group default_resolvers ''Antigravity'' ''Claude-opus-4''
     = resolve_quota_group default_resolvers ''Antigravity'' ''claude.sonnet''"
proof -
  have "to_lower ''Claude'' = to_lower ''claude''"
    by code_simp
  then show ?thesis
    using antigravity_groups [of "''Claude''" "CHR ''-''" "''claude''" "CHR ''.''" "''opus-4''" "''sonnet''"]
    by (simp add: is_delim_def)
qed

end
