(* ===== verification/Timestamps.thy ===== *)
theory Timestamps
  imports Prelude "HOL-Library.Monad_Syntax"
begin

text \<open>
  Reading timestamps out of decoded credential files (\<open>internal/provider/types.go\<close>, from
  \<open>expireKeys\<close> to \<open>normaliseUnix\<close>), over a model of the values a JSON decoder produces and of
  what the code uses of \<open>time.Parse\<close> and \<open>strconv.ParseInt\<close>.
\<close>

section \<open>Decoded values\<close>

text \<open>
  What a \<open>map[string]any\<close> holds. A \<open>json.Number\<close> is kept as what its accessors \<open>Int64\<close> and
  \<open>Float64\<close> return for it; \<open>VOther\<close> stands for values the code never looks into.
\<close>

datatype goval =
    VNil
  | VBool bool
  | VString string
  | VInt int
  | VFloat rat
  | VNumber "int option" "rat option"
  | VMap "(string \<times> goval) list"
  | VStrMap "(string \<times> string) list"
  | VOther nat

type_synonym metadata = "(string, goval) gomap"

text \<open>\<open>v.(string)\<close> with the comma-ok form, on an entry that may be missing.\<close>

fun as_string :: "goval option \<Rightarrow> string option" where
  "as_string (Some (VString s)) = Some s"
| "as_string _ = None"

section \<open>Calendar\<close>

definition is_leap :: "int \<Rightarrow> bool" where
  "is_leap y \<longleftrightarrow> y mod 4 = 0 \<and> (y mod 100 \<noteq> 0 \<or> y mod 400 = 0)"

definition days_in :: "int \<Rightarrow> int \<Rightarrow> int" where
  "days_in m y = (if m = 2 then (if is_leap y then 29 else 28)
                  else if m \<in> {4, 6, 9, 11} then 30 else 31)"

definition days_before_year :: "int \<Rightarrow> int" where
  "days_before_year y = 365 * (y - 1) + (y - 1) div 4 - (y - 1) div 100 + (y - 1) div 400"

definition days_before_month :: "int \<Rightarrow> int \<Rightarrow> int" where
  "days_before_month m y = sum_list (List.map (\<lambda>i. days_in i y) [1..m - 1])"

definition go_date :: "int \<Rightarrow> int \<Rightarrow> int \<Rightarrow> int \<Rightarrow> int \<Rightarrow> int \<Rightarrow> int \<Rightarrow> gotime" where
  "go_date y mo d h mi s ns =
     ((((days_before_year y + days_before_month mo y + (d - 1)) * 24 + h) * 60 + mi) * 60 + s)
       * 1000000000 + ns"

section \<open>Digits\<close>

definition is_digit :: "char \<Rightarrow> bool" where
  "is_digit c \<longleftrightarrow> (let n = of_char c :: nat in 48 \<le> n \<and> n \<le> 57)"

definition digit_val :: "char \<Rightarrow> int" where
  "digit_val c = of_char c - 48"

definition digits_val :: "string \<Rightarrow> int" where
  "digits_val s = foldl (\<lambda>a c. 10 * a + digit_val c) 0 s"

text \<open>The next one or two digits of a value (two when \<open>fixed\<close>), and what follows them.\<close>

fun getnum :: "bool \<Rightarrow> string \<Rightarrow> (int \<times> string) option" where
  "getnum fixed (a # b # s) =
     (if \<not> is_digit a then None
      else if \<not> is_digit b then (if fixed then None else Some (digit_val a, b # s))
      else Some (10 * digit_val a + digit_val b, s))"
| "getnum fixed [a] = (if is_digit a \<and> \<not> fixed then Some (digit_val a, []) else None)"
| "getnum fixed [] = None"

definition in_range :: "int \<Rightarrow> int \<Rightarrow> int \<Rightarrow> unit option" where
  "in_range lo hi n = (if lo \<le> n \<and> n \<le> hi then Some () else None)"

fun skip_char :: "char \<Rightarrow> string \<Rightarrow> string option" where
  "skip_char c (d # s) = (if d = c then Some s else None)"
| "skip_char c [] = None"

text \<open>A space of the layout stands for any run of spaces.\<close>

definition skip_space :: "string \<Rightarrow> string option" where
  "skip_space s = (if s \<noteq> [] \<and> hd s \<noteq> CHR '' '' then None
                   else Some (dropWhile (\<lambda>c. c = CHR '' '') s))"

definition parse_int64 :: "string \<Rightarrow> int option" where
  "parse_int64 s =
     (let neg = (s \<noteq> [] \<and> hd s = CHR ''-'');
          ds = (if s \<noteq> [] \<and> (hd s = CHR ''-'' \<or> hd s = CHR ''+'') then tl s else s);
          n = (if neg then - digits_val ds else digits_val ds)
      in if ds = [] \<or> \<not> list_all is_digit ds \<or> \<not> in64 n then None else Some n)"

section \<open>Layouts\<close>

definition parse_ymd :: "string \<Rightarrow> (int \<times> int \<times> int \<times> string) option" where
  "parse_ymd s = do {
     (if length s < 4 \<or> \<not> list_all is_digit (take 4 s) then None else Some ());
     s1 \<leftarrow> skip_char CHR ''-'' (drop 4 s);
     (mo, s2) \<leftarrow> getnum True s1;
     in_range 1 12 mo;
     s3 \<leftarrow> skip_char CHR ''-'' s2;
     (d, s4) \<leftarrow> getnum True s3;
     Some (digits_val (take 4 s), mo, d, s4) }"

definition parse_hm :: "string \<Rightarrow> (int \<times> int \<times> string) option" where
  "parse_hm s = do {
     (h, s1) \<leftarrow> getnum False s;
     in_range 0 23 h;
     s2 \<leftarrow> skip_char CHR '':'' s1;
     (mi, s3) \<leftarrow> getnum True s2;
     in_range 0 59 mi;
     Some (h, mi, s3) }"

text \<open>
  Seconds and a fraction the layout does not mention; its digits after the ninth are dropped.
\<close>

definition parse_sec :: "string \<Rightarrow> (int \<times> int \<times> string) option" where
  "parse_sec s = do {
     s1 \<leftarrow> skip_char CHR '':'' s;
     (sec, s2) \<leftarrow> getnum True s1;
     in_range 0 59 sec;
     (if length s2 \<ge> 2 \<and> (hd s2 = CHR ''.'' \<or> hd s2 = CHR '','') \<and> is_digit (s2 ! 1)
      then let ds = takeWhile is_digit (tl s2); d9 = take 9 ds
           in Some (sec, digits_val d9 * 10 ^ (9 - length d9), drop (length ds) (tl s2))
      else Some (sec, 0, s2)) }"

text \<open>\<open>Z\<close>, or a signed offset; the seconds east of Greenwich.\<close>

definition parse_zone :: "string \<Rightarrow> (int \<times> string) option" where
  "parse_zone s =
     (if s \<noteq> [] \<and> hd s = CHR ''Z'' then Some (0, tl s)
      else if length s < 6 \<or> s ! 3 \<noteq> CHR '':'' then None
      else do {
        (hr, _) \<leftarrow> getnum True (take 2 (drop 1 s));
        (mm, _) \<leftarrow> getnum True (take 2 (drop 4 s));
        in_range 0 24 hr;
        in_range 0 60 mm;
        let off = (hr * 60 + mm) * 60;
        (if hd s = CHR ''+'' then Some (off, drop 6 s)
         else if hd s = CHR ''-'' then Some (- off, drop 6 s) else None) })"

definition finish_date ::
    "int \<Rightarrow> int \<Rightarrow> int \<Rightarrow> int \<Rightarrow> int \<Rightarrow> int \<Rightarrow> int \<Rightarrow> int \<Rightarrow> string \<Rightarrow> gotime option" where
  "finish_date y mo d h mi s ns off rest =
     (if rest \<noteq> [] \<or> d < 1 \<or> days_in mo y < d then None
      else Some (go_date y mo d h mi s ns - off * 1000000000))"

text \<open>
  RFC 3339, which is also what the layouts with nanoseconds and with a spelled-out zone accept.
\<close>

definition parse_rfc3339 :: "string \<Rightarrow> gotime option" where
  "parse_rfc3339 s = do {
     (y, mo, d, s1) \<leftarrow> parse_ymd s;
     s2 \<leftarrow> skip_char CHR ''T'' s1;
     (h, mi, s3) \<leftarrow> parse_hm s2;
     (sec, ns, s4) \<leftarrow> parse_sec s3;
     (off, s5) \<leftarrow> parse_zone s4;
     finish_date y mo d h mi sec ns off s5 }"

definition parse_datetime :: "string \<Rightarrow> gotime option" where
  "parse_datetime s = do {
     (y, mo, d, s1) \<leftarrow> parse_ymd s;
     s2 \<leftarrow> skip_space s1;
     (h, mi, s3) \<leftarrow> parse_hm s2;
     (sec, ns, s4) \<leftarrow> parse_sec s3;
     finish_date y mo d h mi sec ns 0 s4 }"

definition parse_dateminute :: "string \<Rightarrow> gotime option" where
  "parse_dateminute s = do {
     (y, mo, d, s1) \<leftarrow> parse_ymd s;
     s2 \<leftarrow> skip_space s1;
     (h, mi, s3) \<leftarrow> parse_hm s2;
     finish_date y mo d h mi 0 0 0 s3 }"

section \<open>The program's readers\<close>

definition normalise_unix :: "int \<Rightarrow> gotime" where
  "normalise_unix raw =
     (if raw \<le> 0 then 0
      else if 1000000000000 < raw then time_unix (raw * 1000000)
      else time_unix (raw * 1000000000))"

text \<open>
  \<open>int64(f)\<close> truncates; a value outside the range becomes the smallest integer, as on amd64.
\<close>

definition float_to_int64 :: "rat \<Rightarrow> int" where
  "float_to_int64 f =
     (let n = (if 0 \<le> f then \<lfloor>f\<rfloor> else \<lceil>f\<rceil>) in if in64 n then n else - (2 ^ 63))"

fun first_some :: "('a \<Rightarrow> 'b option) \<Rightarrow> 'a list \<Rightarrow> 'b option" where
  "first_some f [] = None"
| "first_some f (x # xs) = (case f x of None \<Rightarrow> first_some f xs | Some y \<Rightarrow> Some y)"

definition parse_time_string :: "string \<Rightarrow> gotime option" where
  "parse_time_string value =
     (let s = trim_space value in
      if s = [] then None
      else case first_some (\<lambda>layout. layout s)
                  [parse_rfc3339, parse_rfc3339, parse_datetime, parse_dateminute, parse_rfc3339] of
        Some t \<Rightarrow> Some t
      | None \<Rightarrow> map_option normalise_unix (parse_int64 s))"

fun parse_time_value :: "goval \<Rightarrow> gotime option" where
  "parse_time_value (VString s) = parse_time_string s"
| "parse_time_value (VFloat f) = Some (normalise_unix (float_to_int64 f))"
| "parse_time_value (VInt n) = Some (normalise_unix n)"
| "parse_time_value (VNumber i f) =
     (case i of Some n \<Rightarrow> Some (normalise_unix n)
      | None \<Rightarrow> map_option (\<lambda>x. normalise_unix (float_to_int64 x)) f)"
| "parse_time_value _ = None"

definition expire_keys :: "string list" where
  "expire_keys = [''expired'', ''expire'', ''expires_at'', ''expiresAt'', ''expiry'', ''expires'']"

definition direct_expiration :: "metadata \<Rightarrow> gotime option" where
  "direct_expiration meta =
     first_some (\<lambda>k. case mget meta k of None \<Rightarrow> None | Some v \<Rightarrow> parse_time_value v) expire_keys"

text \<open>
  A token nested under the key token or Token is searched too, to any depth: the nesting of a
  decoded value is finite, and \<open>nesting\<close> measures it.
\<close>

fun nesting :: "goval \<Rightarrow> nat" where
  "nesting (VMap m) = Suc (sum_list (List.map (\<lambda>(_, v). nesting v) m))"
| "nesting (VStrMap _) = 1"
| "nesting _ = 0"

abbreviation meta_nesting :: "metadata \<Rightarrow> nat" where
  "meta_nesting m \<equiv> sum_list (List.map (\<lambda>(_, v). nesting v) m)"

lemma nesting_mget: "mget meta k = Some v \<Longrightarrow> nesting v \<le> meta_nesting meta"
  by (induction meta) (auto split: if_splits)

lemma nesting_strings: "meta_nesting (List.map (\<lambda>(k, s). (k, VString s)) m) = 0"
  by (induction m) auto

definition or_else :: "'a option \<Rightarrow> 'a option \<Rightarrow> 'a option" where
  "or_else a b = (case a of None \<Rightarrow> b | Some x \<Rightarrow> Some x)"

function expiration_from_map :: "metadata \<Rightarrow> gotime option" where
  "expiration_from_map meta =
     or_else (direct_expiration meta)
       (or_else
         (case mget meta ''token'' of
            Some (VMap m) \<Rightarrow> expiration_from_map m
          | Some (VStrMap m) \<Rightarrow> expiration_from_map (List.map (\<lambda>(k, s). (k, VString s)) m)
          | _ \<Rightarrow> None)
         (case mget meta ''Token'' of
            Some (VMap m) \<Rightarrow> expiration_from_map m
          | Some (VStrMap m) \<Rightarrow> expiration_from_map (List.map (\<lambda>(k, s). (k, VString s)) m)
          | _ \<Rightarrow> None))"
  by pat_completeness auto
termination
  by (relation "measure meta_nesting")
    (auto simp: nesting_strings simp del: List.map_map dest: nesting_mget)

declare expiration_from_map.simps [simp del]

section \<open>Lemmas\<close>

lemma first_some_SomeI: "x \<in> set xs \<Longrightarrow> f x \<noteq> None \<Longrightarrow> first_some f xs \<noteq> None"
  by (induction xs) (auto split: option.splits)

lemma first_some_None: "first_some f xs = None \<longleftrightarrow> (\<forall>x \<in> set xs. f x = None)"
  by (induction xs) (auto split: option.splits)

lemma direct_expiration_first:
  "direct_expiration meta = Some t \<Longrightarrow> expiration_from_map meta = Some t"
  by (subst expiration_from_map.simps) (simp add: or_else_def)

lemma expiration_from_map_Nil [simp]: "expiration_from_map [] = None"
  by (subst expiration_from_map.simps) (simp add: direct_expiration_def iffD2 [OF first_some_None] or_else_def)

lemma expiration_no_token:
  "mget meta ''token'' = None \<Longrightarrow> mget meta ''Token'' = None \<Longrightarrow>
     expiration_from_map meta = direct_expiration meta"
  by (subst expiration_from_map.simps) (simp add: or_else_def split: option.splits)

section \<open>Properties\<close>

text \<open>
  The unit heuristic of stored Unix times. For every instant from September 2001 to the year
  33658, the count of seconds and the count of milliseconds are read as that same instant.
\<close>

theorem normalise_unix_units:
  assumes "1000000000 < s" and "s \<le> 1000000000000"
  shows "normalise_unix s = time_unix (s * second) \<and> normalise_unix (s * 1000) = normalise_unix s"
  using assms by (simp add: normalise_unix_def go_time mult.commute)

lemma normalise_unix_units_witness:
  "normalise_unix 1700000000 = normalise_unix 1700000000000"
  using normalise_unix_units [of 1700000000] by simp

end
