(* ===== verification/AuthTypes.thy ===== *)
theory AuthTypes
  imports ErrorCategory QuotaGroup Timestamps
begin

text \<open>
  Credentials (\<open>internal/provider/types.go\<close>, \<open>status.go\<close>): the mutable \<open>Auth\<close> and its model
  states, copying, the process-wide index, the account a credential belongs to, and the refresh
  lead of its provider. A nil map and an empty one are told apart only for \<open>Metadata\<close>, where the
  code does; a \<open>*ModelState\<close> in a map may be nil.
\<close>

section \<open>Data\<close>

datatype status =
    StatusUnknown
  | StatusActive
  | StatusPending
  | StatusRefreshing
  | StatusError
  | StatusDisabled
  | StatusOther string

text \<open>The zero value of the type is the empty string.\<close>

abbreviation status_zero :: status where
  "status_zero \<equiv> StatusOther []"

record quota_state =
  q_exceeded :: bool
  q_reason :: string
  q_next_recover_at :: gotime
  q_backoff_level :: int

definition quota_zero :: quota_state where
  "quota_zero = \<lparr>q_exceeded = False, q_reason = [], q_next_recover_at = 0, q_backoff_level = 0\<rparr>"

record model_state =
  ms_status :: status
  ms_status_message :: string
  ms_unavailable :: bool
  ms_next_retry_after :: gotime
  ms_last_error :: "prov_error option"
  ms_quota :: quota_state
  ms_updated_at :: gotime

definition model_state_zero :: model_state where
  "model_state_zero = \<lparr>ms_status = status_zero, ms_status_message = [], ms_unavailable = False,
     ms_next_retry_after = 0, ms_last_error = None, ms_quota = quota_zero, ms_updated_at = 0\<rparr>"

text \<open>\<open>Storage\<close> is an opaque handle of another package, named by a number.\<close>

record auth =
  a_id :: string
  a_index :: int
  a_provider :: string
  a_file_name :: string
  a_storage :: "nat option"
  a_label :: string
  a_status :: status
  a_status_message :: string
  a_disabled :: bool
  a_unavailable :: bool
  a_proxy_url :: string
  a_attributes :: "(string, string) gomap"
  a_priority :: int
  a_metadata :: "metadata option"
  a_quota :: quota_state
  a_last_error :: "prov_error option"
  a_created_at :: gotime
  a_updated_at :: gotime
  a_material_version :: int
  a_last_refreshed_at :: gotime
  a_next_refresh_after :: gotime
  a_next_retry_after :: gotime
  a_model_states :: "(string, model_state option) gomap"
  a_runtime :: runtime
  a_index_assigned :: bool

definition auth_zero :: auth where
  "auth_zero = \<lparr>a_id = [], a_index = 0, a_provider = [], a_file_name = [], a_storage = None,
     a_label = [], a_status = status_zero, a_status_message = [], a_disabled = False,
     a_unavailable = False, a_proxy_url = [], a_attributes = [], a_priority = 0,
     a_metadata = None, a_quota = quota_zero, a_last_error = None, a_created_at = 0,
     a_updated_at = 0, a_material_version = 0, a_last_refreshed_at = 0,
     a_next_refresh_after = 0, a_next_retry_after = 0, a_model_states = [],
     a_runtime = RtNil, a_index_assigned = False\<rparr>"

text \<open>Reading a map that may be nil, and a string map whose missing entries read as empty.\<close>

abbreviation meta_map :: "metadata option \<Rightarrow> metadata" where
  "meta_map m \<equiv> (case m of None \<Rightarrow> [] | Some m \<Rightarrow> m)"

definition attr :: "(string, string) gomap \<Rightarrow> string \<Rightarrow> string" where
  "attr m k = (case mget m k of None \<Rightarrow> [] | Some v \<Rightarrow> v)"

section \<open>Copies\<close>

definition model_state_clone :: "model_state \<Rightarrow> model_state" where
  "model_state_clone m = m\<lparr>ms_last_error := clone_error (ms_last_error m)\<rparr>"

text \<open>\<open>Auth.Clone\<close>: fresh maps, cloned model states, and everything else shared.\<close>

definition auth_clone :: "auth \<Rightarrow> auth" where
  "auth_clone a =
     a\<lparr>a_model_states := mmap (\<lambda>_ st. map_option model_state_clone st) (a_model_states a)\<rparr>"

section \<open>The process-wide index\<close>

text \<open>The counter is a \<open>uint64\<close>; the result is the index, the credential and the counter.\<close>

definition ensure_index :: "auth \<Rightarrow> int \<Rightarrow> int \<times> auth \<times> int" where
  "ensure_index a ctr =
     (if a_index_assigned a then (a_index a, a, ctr)
      else (ctr, a\<lparr>a_index := ctr, a_index_assigned := True\<rparr>, (ctr + 1) mod 2 ^ 64))"

section \<open>The account behind a credential\<close>

definition meta_email :: "auth \<Rightarrow> string" where
  "meta_email a = (case as_string (mget (meta_map (a_metadata a)) ''email'') of
     None \<Rightarrow> [] | Some e \<Rightarrow> trim_space e)"

definition account_info :: "auth \<Rightarrow> string \<times> string" where
  "account_info a =
     (let email = meta_email a;
          key = attr (a_attributes a) ''api_key'';
          general = (if email \<noteq> [] then (''oauth'', email)
                     else if key \<noteq> [] then (''api_key'', key) else ([], []))
      in if to_lower (a_provider a) = ''gemini-cli'' \<and> email \<noteq> [] then
           (case as_string (mget (meta_map (a_metadata a)) ''project_id'') of
              Some p \<Rightarrow> if trim_space p \<noteq> [] then (''oauth'', email @ '' ('' @ trim_space p @ '')'')
                        else (''oauth'', email)
            | None \<Rightarrow> (''oauth'', email))
         else if to_lower (a_provider a) = ''iflow'' \<and> email \<noteq> [] then (''oauth'', email)
         else general)"

definition expiration_time :: "auth \<Rightarrow> gotime option" where
  "expiration_time a = expiration_from_map (meta_map (a_metadata a))"

section \<open>Refresh leads\<close>

text \<open>
  A factory returns a lead or nil; \<open>own\<close> is what a runtime value with a \<open>RefreshLead\<close> method
  returns (no runtime of the modelled packages has one).
\<close>

type_synonym refresh_leads = "(string, duration option) gomap"

definition register_refresh_lead ::
    "string \<Rightarrow> duration option option \<Rightarrow> refresh_leads \<Rightarrow> refresh_leads" where
  "register_refresh_lead provider factory fs =
     (let p = norm_key provider in
      case factory of None \<Rightarrow> fs | Some f \<Rightarrow> if p = [] then fs else mput p f fs)"

definition positive_lead :: "duration option \<Rightarrow> duration option" where
  "positive_lead l = (case l of None \<Rightarrow> None | Some d \<Rightarrow> if 0 < d then Some d else None)"

definition provider_refresh_lead ::
    "refresh_leads \<Rightarrow> string \<Rightarrow> duration option \<Rightarrow> duration option" where
  "provider_refresh_lead fs provider own =
     (case positive_lead own of
        Some d \<Rightarrow> Some d
      | None \<Rightarrow> (case mget fs (norm_key provider) of None \<Rightarrow> None | Some l \<Rightarrow> positive_lead l))"

section \<open>Lemmas\<close>

lemma model_state_clone_idem [simp]: "model_state_clone (model_state_clone m) = model_state_clone m"
  by (simp add: model_state_clone_def)

lemma auth_clone_sel [simp, frame]:
  "a_id (auth_clone a) = a_id a" "a_provider (auth_clone a) = a_provider a"
  "a_status (auth_clone a) = a_status a" "a_disabled (auth_clone a) = a_disabled a"
  "a_unavailable (auth_clone a) = a_unavailable a" "a_metadata (auth_clone a) = a_metadata a"
  "a_quota (auth_clone a) = a_quota a" "a_runtime (auth_clone a) = a_runtime a"
  "a_next_retry_after (auth_clone a) = a_next_retry_after a"
  "a_attributes (auth_clone a) = a_attributes a"
  by (simp_all add: auth_clone_def)

lemma mget_clone_states:
  "mget (a_model_states (auth_clone a)) m =
     map_option (map_option model_state_clone) (mget (a_model_states a) m)"
  by (simp add: auth_clone_def)

lemma auth_clone_idem [simp]: "auth_clone (auth_clone a) = auth_clone a"
  by (simp add: auth_clone_def mmap_def case_prod_unfold o_def option.map_comp)

section \<open>Properties\<close>

text \<open>
  Indices are handed out once. Asking a credential for its index a second time returns the
  same number and consumes none, and two credentials that are asked in turn before either has one
  get different numbers (until the 64-bit counter wraps).
\<close>

theorem ensure_index_stable:
  assumes "0 \<le> c" and "c + 1 < 2 ^ 64"
    and "\<not> a_index_assigned a" and "\<not> a_index_assigned b"
  shows "let (i, a', c1) = ensure_index a c; (j, b', c2) = ensure_index b c1 in
     i \<noteq> j \<and> ensure_index a' c2 = (i, a', c2) \<and> ensure_index b' c2 = (j, b', c2)"
  using assms by (simp add: ensure_index_def)

lemma ensure_index_stable_witness:
  "fst (ensure_index auth_zero 7) = 7
   \<and> fst (ensure_index auth_zero (snd (snd (ensure_index auth_zero 7)))) = 8"
  using ensure_index_stable [of 7 auth_zero auth_zero] by (simp add: ensure_index_def auth_zero_def)

end
