(* ===== verification/AuthState.thy ===== *)
theory AuthState
  imports AuthTypes Backoff
begin

text \<open>
  The state machine of a credential and of the models under it (\<open>internal/provider/state.go\<close>)
  and the question whether a credential may serve a model (\<open>internal/provider/selector.go\<close>,
  \<open>isAuthBlockedForModel\<close>). Loops over the model states are left-to-right folds over an
  association list; the theorems that hold for every list hold for every iteration order.
\<close>

section \<open>Model states\<close>

text \<open>
  \<open>ensureModelState\<close>: the state of the model (present, created, or nil for an empty model name)
  and the credential that now holds it.
\<close>

definition ensure_model_state :: "auth \<Rightarrow> string \<Rightarrow> model_state option \<times> auth" where
  "ensure_model_state a model =
     (if model = [] then (None, a)
      else case mget (a_model_states a) model of
        Some (Some st) \<Rightarrow> (Some st, a)
      | _ \<Rightarrow> let st = model_state_zero\<lparr>ms_status := StatusActive\<rparr> in
             (Some st, a\<lparr>a_model_states := mput model (Some st) (a_model_states a)\<rparr>))"

text \<open>Writing through the pointer to the state of a model.\<close>

definition set_model_state :: "string \<Rightarrow> model_state \<Rightarrow> auth \<Rightarrow> auth" where
  "set_model_state model st a = a\<lparr>a_model_states := mput model (Some st) (a_model_states a)\<rparr>"

definition reset_model_state :: "model_state \<Rightarrow> gotime \<Rightarrow> model_state" where
  "reset_model_state st now =
     st\<lparr>ms_unavailable := False, ms_status := StatusActive, ms_status_message := [],
        ms_next_retry_after := 0, ms_last_error := None, ms_quota := quota_zero,
        ms_updated_at := now\<rparr>"

section \<open>Aggregated availability\<close>

record agg =
  ag_all_unavailable :: bool
  ag_earliest_retry :: gotime
  ag_quota_exceeded :: bool
  ag_quota_recover :: gotime
  ag_max_level :: int

definition agg_init :: agg where
  "agg_init = \<lparr>ag_all_unavailable = True, ag_earliest_retry = 0, ag_quota_exceeded = False,
     ag_quota_recover = 0, ag_max_level = 0\<rparr>"

text \<open>One turn of the loop on a state that is not nil: the accumulator and the state left behind.\<close>

definition agg_step :: "gotime \<Rightarrow> model_state \<Rightarrow> agg \<Rightarrow> agg \<times> model_state" where
  "agg_step now st g =
     (let disabled = (ms_status st = StatusDisabled);
          retry = ms_next_retry_after st;
          waiting = (\<not> disabled \<and> ms_unavailable st \<and> retry \<noteq> 0 \<and> now < retry);
          expired = (\<not> disabled \<and> ms_unavailable st \<and> retry \<noteq> 0 \<and> \<not> now < retry);
          unavailable = (disabled \<or> (ms_unavailable st \<and> \<not> expired));
          st' = (if expired then st\<lparr>ms_unavailable := False, ms_next_retry_after := 0\<rparr> else st);
          g1 = (if waiting \<and> (ag_earliest_retry g = 0 \<or> retry < ag_earliest_retry g)
                then g\<lparr>ag_earliest_retry := retry\<rparr> else g);
          g2 = (if \<not> unavailable then g1\<lparr>ag_all_unavailable := False\<rparr> else g1);
          q = ms_quota st;
          g3 = (if q_exceeded q then
                  g2\<lparr>ag_quota_exceeded := True,
                     ag_quota_recover :=
                       (if ag_quota_recover g2 = 0
                           \<or> (q_next_recover_at q \<noteq> 0 \<and> q_next_recover_at q < ag_quota_recover g2)
                        then q_next_recover_at q else ag_quota_recover g2),
                     ag_max_level :=
                       (if ag_max_level g2 < q_backoff_level q then q_backoff_level q
                        else ag_max_level g2)\<rparr>
                else g2)
      in (g3, st'))"

fun agg_loop :: "gotime \<Rightarrow> (string, model_state option) gomap \<Rightarrow> agg \<Rightarrow>
    agg \<times> (string, model_state option) gomap" where
  "agg_loop now [] g = (g, [])"
| "agg_loop now ((k, None) # ms) g =
     (let (g', ms') = agg_loop now ms g in (g', (k, None) # ms'))"
| "agg_loop now ((k, Some st) # ms) g =
     (let (g1, st') = agg_step now st g; (g2, ms') = agg_loop now ms g1
      in (g2, (k, Some st') # ms'))"

definition update_aggregated_availability :: "auth \<Rightarrow> gotime \<Rightarrow> auth" where
  "update_aggregated_availability a now =
     (if a_model_states a = [] then a
      else let (g, ms) = agg_loop now (a_model_states a) agg_init in
        a\<lparr>a_model_states := ms,
          a_unavailable := ag_all_unavailable g,
          a_next_retry_after := (if ag_all_unavailable g then ag_earliest_retry g else 0),
          a_quota := (if ag_quota_exceeded g
                      then \<lparr>q_exceeded = True, q_reason = ''quota'',
                            q_next_recover_at = ag_quota_recover g,
                            q_backoff_level = ag_max_level g\<rparr>
                      else quota_zero)\<rparr>)"

section \<open>Errors of the models\<close>

definition state_has_error :: "gotime \<Rightarrow> model_state \<Rightarrow> bool" where
  "state_has_error now st \<longleftrightarrow>
     ms_last_error st \<noteq> None
     \<or> (ms_status st = StatusError \<and> ms_unavailable st
        \<and> (ms_next_retry_after st = 0 \<or> now < ms_next_retry_after st))"

definition has_model_error :: "auth \<Rightarrow> gotime \<Rightarrow> bool" where
  "has_model_error a now \<longleftrightarrow>
     list_ex (\<lambda>(_, st). case st of None \<Rightarrow> False | Some st \<Rightarrow> state_has_error now st)
       (a_model_states a)"

section \<open>Outcomes at the level of the credential\<close>

definition clear_auth_state_on_success :: "auth \<Rightarrow> gotime \<Rightarrow> auth" where
  "clear_auth_state_on_success a now =
     a\<lparr>a_unavailable := False, a_status := StatusActive, a_status_message := [],
       a_quota := quota_zero, a_last_error := None, a_next_retry_after := 0,
       a_updated_at := now\<rparr>"

definition failure_category :: "prov_error option \<Rightarrow> error_category" where
  "failure_category e =
     (case e of
        Some err \<Rightarrow> if err_category err \<noteq> CategoryUnknown then err_category err
                    else categorize_error (status_code_from_result e) (err_message err)
      | None \<Rightarrow> categorize_error (status_code_from_result None) [])"

text \<open>The end of a quota block: server-supplied, or the next rung of the ladder.\<close>

definition quota_next :: "bool \<Rightarrow> duration option \<Rightarrow> int \<Rightarrow> gotime \<Rightarrow> gotime \<times> int" where
  "quota_next disabled retry_after lvl now =
     (case retry_after of
        Some d \<Rightarrow> (now + d, lvl)
      | None \<Rightarrow> let (cooldown, lvl') = next_quota_cooldown disabled lvl
                in (if 0 < cooldown then now + cooldown else 0, lvl'))"

definition apply_auth_failure_state ::
    "bool \<Rightarrow> auth \<Rightarrow> prov_error option \<Rightarrow> duration option \<Rightarrow> gotime \<Rightarrow> auth" where
  "apply_auth_failure_state cooldown_off a err retry_after now =
     (let a0 = a\<lparr>a_unavailable := True, a_status := StatusError, a_updated_at := now\<rparr>;
          a1 = (case err of None \<Rightarrow> a0
                | Some e \<Rightarrow> (if err_message e \<noteq> []
                            then a0\<lparr>a_last_error := clone_error err, a_status_message := err_message e\<rparr>
                            else a0\<lparr>a_last_error := clone_error err\<rparr>))
      in case failure_category err of
           CategoryAuthRevoked \<Rightarrow>
             a1\<lparr>a_status_message := ''oauth_token_revoked'', a_disabled := True,
                a_status := StatusDisabled\<rparr>
         | CategoryAuthError \<Rightarrow>
             a1\<lparr>a_status_message := ''unauthorized'', a_next_retry_after := now + 30 * minute\<rparr>
         | CategoryQuotaError \<Rightarrow>
             (let (next, lvl) = quota_next cooldown_off retry_after (q_backoff_level (a_quota a1)) now
              in a1\<lparr>a_status_message := ''quota exhausted'',
                    a_quota := \<lparr>q_exceeded = True, q_reason = ''quota'',
                                q_next_recover_at = next, q_backoff_level = lvl\<rparr>,
                    a_next_retry_after := next\<rparr>)
         | CategoryNotFound \<Rightarrow>
             a1\<lparr>a_status_message := ''not_found'', a_next_retry_after := now + 12 * hour\<rparr>
         | CategoryTransient \<Rightarrow>
             a1\<lparr>a_status_message := ''transient upstream error'', a_next_retry_after := now + minute\<rparr>
         | CategoryUserError \<Rightarrow>
             a1\<lparr>a_status_message := ''user_request_error'', a_unavailable := False,
                a_status := StatusActive\<rparr>
         | _ \<Rightarrow> (if a_status_message a1 = [] then a1\<lparr>a_status_message := ''request failed''\<rparr>
                 else a1))"

section \<open>Quota groups\<close>

text \<open>
  The group whose members a quota event of a model concerns; none when the model name is empty,
  the provider has no resolver or the resolver puts the model in no group.
\<close>

definition affected_group :: "resolvers \<Rightarrow> auth \<Rightarrow> string \<Rightarrow> string" where
  "affected_group rs a model =
     (if model = [] \<or> \<not> has_quota_grouping rs (a_provider a) then []
      else resolve_quota_group rs (a_provider a) model)"

definition in_group :: "resolvers \<Rightarrow> auth \<Rightarrow> string \<Rightarrow> string \<Rightarrow> string \<Rightarrow> bool" where
  "in_group rs a grp source m \<longleftrightarrow> m \<noteq> source \<and> resolve_quota_group rs (a_provider a) m = grp"

definition group_exceeded :: "quota_state \<Rightarrow> gotime \<Rightarrow> gotime \<Rightarrow> model_state \<Rightarrow> model_state" where
  "group_exceeded q next_retry now st =
     st\<lparr>ms_unavailable := True, ms_next_retry_after := next_retry, ms_quota := q,
        ms_status := StatusError, ms_status_message := ''quota_group_exceeded'',
        ms_updated_at := now\<rparr>"

definition propagate_quota_to_group ::
    "resolvers \<Rightarrow> auth \<Rightarrow> string \<Rightarrow> quota_state \<Rightarrow> gotime \<Rightarrow> gotime \<Rightarrow> string list \<times> auth" where
  "propagate_quota_to_group rs a source q next_retry now =
     (let grp = affected_group rs a source in
      if grp = [] then ([], a)
      else let (idx, rt) = get_or_create_index (a_runtime a);
               idx' = set_group_blocked grp source next_retry (q_next_recover_at q) idx;
               hit = (\<lambda>m st. st \<noteq> None \<and> in_group rs a grp source m)
           in (List.map fst (filter (\<lambda>(m, st). hit m st) (a_model_states a)),
               a\<lparr>a_runtime := put_quota_group_index idx' rt,
                 a_model_states :=
                   mmap (\<lambda>m st. if hit m st then map_option (group_exceeded q next_retry now) st else st)
                     (a_model_states a)\<rparr>))"

definition group_blocked_state :: "model_state \<Rightarrow> bool" where
  "group_blocked_state st \<longleftrightarrow>
     ms_status_message st = ''quota_group_exceeded'' \<or> q_exceeded (ms_quota st)"

definition clear_quota_group_on_success ::
    "resolvers \<Rightarrow> auth \<Rightarrow> string \<Rightarrow> gotime \<Rightarrow> string list \<times> auth" where
  "clear_quota_group_on_success rs a source now =
     (let grp = affected_group rs a source in
      if grp = [] then ([], a)
      else let rt = (case get_quota_group_index (a_runtime a) of
                       None \<Rightarrow> a_runtime a
                     | Some idx \<Rightarrow> put_quota_group_index (clear_group grp idx) (a_runtime a));
               hit = (\<lambda>m st. in_group rs a grp source m \<and> (case st of
                        None \<Rightarrow> False | Some st \<Rightarrow> group_blocked_state st))
           in (List.map fst (filter (\<lambda>(m, st). hit m st) (a_model_states a)),
               a\<lparr>a_runtime := rt,
                 a_model_states :=
                   mmap (\<lambda>m st. if hit m st then map_option (\<lambda>s. reset_model_state s now) st else st)
                     (a_model_states a)\<rparr>))"

section \<open>May the credential serve the model?\<close>

datatype block_reason = blockReasonNone | blockReasonCooldown | blockReasonDisabled | blockReasonOther

text \<open>The tail both levels share: when a block that is still running is reported to end.\<close>

definition block_until :: "gotime \<Rightarrow> quota_state \<Rightarrow> gotime \<Rightarrow> gotime" where
  "block_until retry q now =
     (let next = (if q_next_recover_at q \<noteq> 0 \<and> now < q_next_recover_at q
                  then q_next_recover_at q else retry)
      in if next < now then now else next)"

definition model_state_blocked ::
    "model_state \<Rightarrow> gotime \<Rightarrow> bool \<times> block_reason \<times> gotime" where
  "model_state_blocked st now =
     (if ms_status st = StatusDisabled then (True, blockReasonDisabled, 0)
      else if ms_unavailable st \<and> ms_next_retry_after st = 0 then (True, blockReasonOther, 0)
      else if ms_unavailable st \<and> now < ms_next_retry_after st then
        (True, (if q_exceeded (ms_quota st) then blockReasonCooldown else blockReasonOther),
         block_until (ms_next_retry_after st) (ms_quota st) now)
      else (False, blockReasonNone, 0))"

text \<open>
  The verdict, and the credential after the lazy clean-up of its group index.
\<close>

definition is_auth_blocked_for_model ::
    "resolvers \<Rightarrow> auth option \<Rightarrow> string \<Rightarrow> gotime \<Rightarrow>
       (bool \<times> block_reason \<times> gotime) \<times> auth option" where
  "is_auth_blocked_for_model rs oa model now =
     (case oa of
        None \<Rightarrow> ((True, blockReasonOther, 0), oa)
      | Some a \<Rightarrow>
          if a_disabled a \<or> a_status a = StatusDisabled then ((True, blockReasonDisabled, 0), oa)
          else if model \<noteq> [] then
            (case mget (a_model_states a) model of
               Some (Some st) \<Rightarrow> (model_state_blocked st now, oa)
             | _ \<Rightarrow>
                 let grp = affected_group rs a model in
                 case get_quota_group_index (a_runtime a) of
                   None \<Rightarrow> ((False, blockReasonNone, 0), oa)
                 | Some idx \<Rightarrow>
                     if grp = [] then ((False, blockReasonNone, 0), oa)
                     else let (blocked, next, idx') = is_group_blocked grp now idx;
                              a' = a\<lparr>a_runtime := put_quota_group_index idx' (a_runtime a)\<rparr>
                          in if blocked then ((True, blockReasonCooldown, next), Some a')
                             else ((False, blockReasonNone, 0), Some a'))
          else if a_unavailable a \<and> now < a_next_retry_after a then
            ((True, (if q_exceeded (a_quota a) then blockReasonCooldown else blockReasonOther),
              block_until (a_next_retry_after a) (a_quota a) now), oa)
          else ((False, blockReasonNone, 0), oa))"

abbreviation auth_blocked :: "resolvers \<Rightarrow> auth \<Rightarrow> string \<Rightarrow> gotime \<Rightarrow> bool" where
  "auth_blocked rs a model now \<equiv> fst (fst (is_auth_blocked_for_model rs (Some a) model now))"

section \<open>What the loop over the model states computes\<close>

definition live_states :: "(string, model_state option) gomap \<Rightarrow> model_state list" where
  "live_states ms = List.map_filter snd ms"

text \<open>Unavailable at an instant, and unavailable with a known end.\<close>

definition unavailable_at :: "gotime \<Rightarrow> model_state \<Rightarrow> bool" where
  "unavailable_at now st \<longleftrightarrow> ms_status st = StatusDisabled
     \<or> (ms_unavailable st \<and> (ms_next_retry_after st = 0 \<or> now < ms_next_retry_after st))"

definition waiting_at :: "gotime \<Rightarrow> model_state \<Rightarrow> bool" where
  "waiting_at now st \<longleftrightarrow> ms_status st \<noteq> StatusDisabled \<and> ms_unavailable st
     \<and> ms_next_retry_after st \<noteq> 0 \<and> now < ms_next_retry_after st"

text \<open>The least time that is set, the zero time when none is.\<close>

definition least_set :: "gotime list \<Rightarrow> gotime" where
  "least_set ts = (let us = filter (\<lambda>t. t \<noteq> 0) ts in if us = [] then 0 else Min (set us))"

definition min_set :: "gotime \<Rightarrow> gotime \<Rightarrow> gotime" where
  "min_set t u = (if t = 0 then u else if u = 0 then t else min t u)"

lemma min_set_0 [simp]: "min_set 0 t = t" "min_set t 0 = t"
  by (simp_all add: min_set_def)

lemma min_set_assoc: "min_set (min_set t u) v = min_set t (min_set u v)"
  by (auto simp: min_set_def min_def)

lemma least_set_Nil [simp]: "least_set [] = 0"
  by (simp add: least_set_def)

lemma least_set_Cons: "least_set (t # ts) = min_set t (least_set ts)"
proof (cases "t = 0 \<or> filter (\<lambda>t. t \<noteq> 0) ts = []")
  case False
  then have "Min (set (filter (\<lambda>t. t \<noteq> 0) ts)) \<in> set (filter (\<lambda>t. t \<noteq> 0) ts)"
    by (intro Min_in) (auto simp: filter_empty_conv)
  then have "Min (set (filter (\<lambda>t. t \<noteq> 0) ts)) \<noteq> 0" by simp
  moreover have "set (filter (\<lambda>t. t \<noteq> 0) ts) \<noteq> {}" using False by (metis set_empty)
  ultimately show ?thesis
    using False by (simp add: least_set_def min_set_def Let_def Min_insert)
qed (auto simp: least_set_def min_set_def simp flip: set_filter)

lemma live_states_simps [simp]:
  "live_states [] = []" "live_states ((k, None) # ms) = live_states ms"
  "live_states ((k, Some st) # ms) = st # live_states ms"
  by (simp_all add: live_states_def map_filter_simps)

lemma in_live_states: "st \<in> set (live_states ms) \<longleftrightarrow> (\<exists>k. (k, Some st) \<in> set ms)"
  by (auto simp: live_states_def map_filter_def image_iff) force

lemma agg_step_sel:
  "ag_all_unavailable (fst (agg_step now st g)) = (ag_all_unavailable g \<and> unavailable_at now st)"
  "ag_earliest_retry (fst (agg_step now st g)) =
     (if waiting_at now st then min_set (ag_earliest_retry g) (ms_next_retry_after st)
      else ag_earliest_retry g)"
  "ag_quota_exceeded (fst (agg_step now st g)) = (ag_quota_exceeded g \<or> q_exceeded (ms_quota st))"
  "ag_quota_recover (fst (agg_step now st g)) =
     (if q_exceeded (ms_quota st) then min_set (ag_quota_recover g) (q_next_recover_at (ms_quota st))
      else ag_quota_recover g)"
  "ag_max_level (fst (agg_step now st g)) =
     (if q_exceeded (ms_quota st) then max (ag_max_level g) (q_backoff_level (ms_quota st))
      else ag_max_level g)"
  by (auto simp: agg_step_def Let_def unavailable_at_def waiting_at_def min_set_def)

definition settle_state :: "gotime \<Rightarrow> model_state \<Rightarrow> model_state" where
  "settle_state now st =
     (if ms_status st \<noteq> StatusDisabled \<and> ms_unavailable st \<and> ms_next_retry_after st \<noteq> 0
         \<and> \<not> now < ms_next_retry_after st
      then st\<lparr>ms_unavailable := False, ms_next_retry_after := 0\<rparr> else st)"

lemma agg_step_state: "snd (agg_step now st g) = settle_state now st"
  by (simp add: agg_step_def Let_def settle_state_def)

lemma agg_loop_Some:
  "agg_loop now ((k, Some st) # ms) g =
     (fst (agg_loop now ms (fst (agg_step now st g))),
      (k, Some (settle_state now st)) # snd (agg_loop now ms (fst (agg_step now st g))))"
  by (simp add: case_prod_unfold Let_def agg_step_state)

lemma agg_loop_None:
  "agg_loop now ((k, None) # ms) g = (fst (agg_loop now ms g), (k, None) # snd (agg_loop now ms g))"
  by (simp add: case_prod_unfold Let_def)

lemmas agg_loop_Cons = agg_loop_Some agg_loop_None

text \<open>The two cases of an entry, for inductions over the states.\<close>

lemma states_induct [case_names Nil nil_entry entry]:
  assumes "P []" "\<And>k ms. P ms \<Longrightarrow> P ((k, None) # ms)" "\<And>k st ms. P ms \<Longrightarrow> P ((k, Some st) # ms)"
  shows "P ms"
proof (induction ms)
  case (Cons e ms)
  then show ?case using assms(2, 3) by (cases e; cases "snd e") auto
qed (rule assms(1))

lemma agg_loop_states: "snd (agg_loop now ms g) = mmap (\<lambda>_. map_option (settle_state now)) ms"
  by (induction ms arbitrary: g rule: states_induct)
    (simp_all add: mmap_def agg_loop_Cons del: agg_loop.simps(2, 3))

lemma agg_loop_sel:
  "ag_all_unavailable (fst (agg_loop now ms g)) =
     (ag_all_unavailable g \<and> (\<forall>st \<in> set (live_states ms). unavailable_at now st))"
  "ag_earliest_retry (fst (agg_loop now ms g)) =
     min_set (ag_earliest_retry g)
       (least_set (List.map ms_next_retry_after (filter (waiting_at now) (live_states ms))))"
  "ag_quota_exceeded (fst (agg_loop now ms g)) =
     (ag_quota_exceeded g \<or> (\<exists>st \<in> set (live_states ms). q_exceeded (ms_quota st)))"
  "ag_quota_recover (fst (agg_loop now ms g)) =
     min_set (ag_quota_recover g) (least_set (List.map (\<lambda>st. q_next_recover_at (ms_quota st))
       (filter (\<lambda>st. q_exceeded (ms_quota st)) (live_states ms))))"
  by (induction ms arbitrary: g rule: states_induct)
    (simp_all add: agg_loop_Cons agg_step_sel least_set_Cons min_set_assoc del: agg_loop.simps(2, 3))

lemma Max_insert_max:
  "finite S \<Longrightarrow> Max (insert (max a b) S) = Max (insert a (insert b (S :: 'a :: linorder set)))"
  by (cases "S = {}") (simp_all add: Max_insert max.assoc)

lemma agg_loop_level:
  "ag_max_level (fst (agg_loop now ms g)) =
     Max (insert (ag_max_level g) ((\<lambda>st. q_backoff_level (ms_quota st)) `
       {st \<in> set (live_states ms). q_exceeded (ms_quota st)}))"
proof (induction ms arbitrary: g rule: states_induct)
  case (entry k st ms)
  let ?Q = "{s \<in> set (live_states ms). q_exceeded (ms_quota s)}"
  let ?S = "(\<lambda>st. q_backoff_level (ms_quota st)) ` ?Q"
  have "{s \<in> insert st (set (live_states ms)). q_exceeded (ms_quota s)} =
     (if q_exceeded (ms_quota st) then insert st ?Q else ?Q)" by auto
  moreover have "Max (insert (max a b) ?S) = Max (insert a (insert b ?S))" for a b
    by (rule Max_insert_max) simp
  ultimately show ?case
    using entry by (simp add: agg_loop_Some agg_step_sel del: agg_loop.simps(3))
qed (simp_all add: agg_loop_None del: agg_loop.simps(2))

section \<open>Lemmas on blocking\<close>

lemma model_state_blocked_iff:
  "fst (model_state_blocked st now) = unavailable_at now st"
  by (auto simp: model_state_blocked_def unavailable_at_def)

lemma unavailable_settle [simp]: "unavailable_at now (settle_state now st) = unavailable_at now st"
  by (auto simp: unavailable_at_def settle_state_def)

lemma not_blocked_reset [simp]: "\<not> unavailable_at now (reset_model_state st t)"
  by (simp add: unavailable_at_def reset_model_state_def)

lemma auth_blocked_state:
  "mget (a_model_states a) m = Some (Some st) \<Longrightarrow> m \<noteq> [] \<Longrightarrow> \<not> a_disabled a \<Longrightarrow>
     a_status a \<noteq> StatusDisabled \<Longrightarrow> auth_blocked rs a m now = unavailable_at now st"
  by (simp add: is_auth_blocked_for_model_def model_state_blocked_iff)

lemma update_aggregated_sel:
  assumes "a_model_states a \<noteq> []"
  shows "a_unavailable (update_aggregated_availability a now) =
           (\<forall>st \<in> set (live_states (a_model_states a)). unavailable_at now st)"
    and "a_model_states (update_aggregated_availability a now) =
           mmap (\<lambda>_. map_option (settle_state now)) (a_model_states a)"
  using assms
  by (simp_all add: update_aggregated_availability_def case_prod_unfold Let_def agg_loop_sel
      agg_loop_states agg_init_def)

lemma update_aggregated_frame [simp, frame]:
  "a_disabled (update_aggregated_availability a now) = a_disabled a"
  "a_status (update_aggregated_availability a now) = a_status a"
  "a_id (update_aggregated_availability a now) = a_id a"
  "a_provider (update_aggregated_availability a now) = a_provider a"
  "a_metadata (update_aggregated_availability a now) = a_metadata a"
  "a_runtime (update_aggregated_availability a now) = a_runtime a"
  by (simp_all add: update_aggregated_availability_def case_prod_unfold Let_def)

lemma index_after_propagation:
  "get_quota_group_index (put_quota_group_index i (snd (get_or_create_index r))) = Some i"
  by (simp add: put_get_index get_or_create_provider_data)

lemma index_after_put:
  "get_quota_group_index r = Some i \<Longrightarrow> get_quota_group_index (put_quota_group_index j r) = Some j"
  by (simp add: put_get_index)

lemma propagate_states:
  "affected_group rs a src \<noteq> [] \<Longrightarrow>
     mget (a_model_states (snd (propagate_quota_to_group rs a src q r now))) m =
       (case mget (a_model_states a) m of
          Some (Some st) \<Rightarrow> Some (Some (if in_group rs a (affected_group rs a src) src m
                                      then group_exceeded q r now st else st))
        | x \<Rightarrow> x)"
  by (simp add: propagate_quota_to_group_def Let_def case_prod_unfold split: option.splits)

lemma propagate_index:
  "affected_group rs a src \<noteq> [] \<Longrightarrow>
     get_quota_group_index (a_runtime (snd (propagate_quota_to_group rs a src q r now))) =
       Some (set_group_blocked (affected_group rs a src) src r (q_next_recover_at q)
         (fst (get_or_create_index (a_runtime a))))"
  by (simp add: propagate_quota_to_group_def Let_def case_prod_unfold index_after_propagation)

lemma propagate_frame [simp, frame]:
  "a_disabled (snd (propagate_quota_to_group rs a src q r now)) = a_disabled a"
  "a_status (snd (propagate_quota_to_group rs a src q r now)) = a_status a"
  "a_provider (snd (propagate_quota_to_group rs a src q r now)) = a_provider a"
  by (simp_all add: propagate_quota_to_group_def Let_def case_prod_unfold)

lemma clear_states:
  "affected_group rs a src \<noteq> [] \<Longrightarrow>
     mget (a_model_states (snd (clear_quota_group_on_success rs a src now))) m =
       (case mget (a_model_states a) m of
          Some (Some st) \<Rightarrow> Some (Some (if in_group rs a (affected_group rs a src) src m
              \<and> group_blocked_state st then reset_model_state st now else st))
        | x \<Rightarrow> x)"
  by (simp add: clear_quota_group_on_success_def Let_def split: option.splits)

lemma clear_index:
  "affected_group rs a src \<noteq> [] \<Longrightarrow>
     get_quota_group_index (a_runtime (snd (clear_quota_group_on_success rs a src now))) =
       map_option (clear_group (affected_group rs a src)) (get_quota_group_index (a_runtime a))"
  by (auto simp: clear_quota_group_on_success_def Let_def index_after_put split: option.splits)

lemma clear_frame [simp, frame]:
  "a_disabled (snd (clear_quota_group_on_success rs a src now)) = a_disabled a"
  "a_status (snd (clear_quota_group_on_success rs a src now)) = a_status a"
  "a_provider (snd (clear_quota_group_on_success rs a src now)) = a_provider a"
  by (simp_all add: clear_quota_group_on_success_def Let_def)

lemma affected_group_provider:
  "a_provider b = a_provider a \<Longrightarrow> affected_group rs b m = affected_group rs a m"
  by (simp add: affected_group_def)

lemma in_affected_group:
  "affected_group rs a m = affected_group rs a src \<Longrightarrow> affected_group rs a src \<noteq> [] \<Longrightarrow>
     m \<noteq> src \<Longrightarrow> in_group rs a (affected_group rs a src) src m"
  by (auto simp: in_group_def affected_group_def split: if_splits)

lemma auth_blocked_no_state:
  "mget (a_model_states a) m \<in> {None, Some None} \<Longrightarrow> m \<noteq> [] \<Longrightarrow> \<not> a_disabled a \<Longrightarrow>
     a_status a \<noteq> StatusDisabled \<Longrightarrow>
     auth_blocked rs a m now \<longleftrightarrow>
       (case get_quota_group_index (a_runtime a) of None \<Rightarrow> False
        | Some idx \<Rightarrow> affected_group rs a m \<noteq> [] \<and> fst (is_group_blocked (affected_group rs a m) now idx))"
  by (auto simp: is_auth_blocked_for_model_def Let_def case_prod_unfold split: option.splits)

section \<open>Properties\<close>

text \<open>
  C30: The aggregated availability of a credential is a function of the set of its model states,
  whatever order the loop visits them in: unavailable when every model is, to be retried at the
  earliest known end of a block, with a quota error when some model has one, recovering at the
  earliest known recovery and backing off at the highest level.
\<close>

theorem aggregated_availability_spec:
  assumes "a_model_states a \<noteq> []"
  shows "let sts = live_states (a_model_states a);
             quota = filter (\<lambda>st. q_exceeded (ms_quota st)) sts;
             a' = update_aggregated_availability a now
         in a_unavailable a' = (\<forall>st \<in> set sts. unavailable_at now st)
            \<and> a_next_retry_after a' =
                (if a_unavailable a'
                 then least_set (List.map ms_next_retry_after (filter (waiting_at now) sts)) else 0)
            \<and> a_quota a' =
                (if quota = [] then quota_zero
                 else \<lparr>q_exceeded = True, q_reason = ''quota'',
                       q_next_recover_at = least_set (List.map (\<lambda>st. q_next_recover_at (ms_quota st)) quota),
                       q_backoff_level = Max (insert 0 ((\<lambda>st. q_backoff_level (ms_quota st)) ` set quota))\<rparr>)"
  using assms
  by (simp add: update_aggregated_availability_def case_prod_unfold Let_def agg_loop_sel
      agg_loop_level agg_init_def filter_empty_conv)

lemma aggregated_availability_spec_witness:
  "let st = (\<lambda>t. model_state_zero\<lparr>ms_unavailable := True, ms_next_retry_after := t\<rparr>);
       a = auth_zero\<lparr>a_model_states := [(''m'', Some (st 9)), (''n'', None), (''o'', Some (st 7))]\<rparr>
   in a_unavailable (update_aggregated_availability a 5)
      \<and> a_next_retry_after (update_aggregated_availability a 5) = 7"
  using aggregated_availability_spec [of "auth_zero\<lparr>a_model_states :=
      [(''m'', Some (model_state_zero\<lparr>ms_unavailable := True, ms_next_retry_after := 9\<rparr>)), (''n'', None),
       (''o'', Some (model_state_zero\<lparr>ms_unavailable := True, ms_next_retry_after := 7\<rparr>))]\<rparr>" 5]
  by (simp add: Let_def unavailable_at_def waiting_at_def model_state_zero_def least_set_def)

text \<open>
  The aggregate agrees with the per-model check. After the aggregation at an instant, the
  credential is marked unavailable exactly when the selector would refuse it for every model it
  has a state for, and the aggregation changes the selector's answer for none of them.
\<close>

theorem aggregate_agrees_with_selector:
  assumes "wf_map (a_model_states a)" and "a_model_states a \<noteq> []"
    and "[] \<notin> set (mkeys (a_model_states a))"
    and "\<not> a_disabled a" and "a_status a \<noteq> StatusDisabled"
  shows "let a' = update_aggregated_availability a now;
             known = (\<lambda>m. \<exists>st. mget (a_model_states a) m = Some (Some st))
         in (a_unavailable a' \<longleftrightarrow> (\<forall>m. known m \<longrightarrow> auth_blocked rs a' m now))
            \<and> (\<forall>m. known m \<longrightarrow> auth_blocked rs a' m now = auth_blocked rs a m now)"
proof -
  let ?a' = "update_aggregated_availability a now"
  have ne: "m \<noteq> []" if "mget (a_model_states a) m = Some (Some st)" for m st
    using that assms(3) by (metis domI dom_map_of_conv_image_fst list.set_map)
  have b: "auth_blocked rs ?a' m now = unavailable_at now st \<and> auth_blocked rs a m now = unavailable_at now st"
    if "mget (a_model_states a) m = Some (Some st)" for m st
  proof -
    have "mget (a_model_states ?a') m = Some (Some (settle_state now st))"
      using that assms(2) by (simp add: update_aggregated_sel)
    from auth_blocked_state [OF this] auth_blocked_state [OF that] show ?thesis
      using ne [OF that] assms(4, 5) by simp
  qed
  have "a_unavailable ?a' \<longleftrightarrow>
      (\<forall>m st. mget (a_model_states a) m = Some (Some st) \<longrightarrow> unavailable_at now st)"
    using mget_in_set [OF assms(1)] by (auto simp: update_aggregated_sel assms(2) in_live_states)
  with b show ?thesis by (auto simp: Let_def)
qed

lemma aggregate_agrees_with_selector_witness:
  "let st = (\<lambda>t. model_state_zero\<lparr>ms_unavailable := True, ms_next_retry_after := t\<rparr>);
       a = auth_zero\<lparr>a_model_states := [(''m'', Some (st 9)), (''o'', Some (st 4))]\<rparr>
   in auth_blocked default_resolvers (update_aggregated_availability a 5) ''m'' 5
      = auth_blocked default_resolvers a ''m'' 5"
  using aggregate_agrees_with_selector [of "auth_zero\<lparr>a_model_states :=
      [(''m'', Some (model_state_zero\<lparr>ms_unavailable := True, ms_next_retry_after := 9\<rparr>)),
       (''o'', Some (model_state_zero\<lparr>ms_unavailable := True, ms_next_retry_after := 4\<rparr>))]\<rparr>" 5 default_resolvers]
  by (simp add: Let_def auth_zero_def wf_map_def)

text \<open>
  C4: A quota error of one model blocks its whole group. After it is propagated, every other
  model of the same quota group, seen before or not, is refused until the retry time and
  accepted from then on: the propagation overwrites whatever status and block the model had.
\<close>

theorem quota_propagation_blocks_group:
  assumes "affected_group rs a src \<noteq> []" and "affected_group rs a m = affected_group rs a src"
    and "m \<noteq> src" and "retry \<noteq> 0"
    and "\<not> a_disabled a" and "a_status a \<noteq> StatusDisabled"
  shows "auth_blocked rs (snd (propagate_quota_to_group rs a src q retry now)) m t \<longleftrightarrow> t < retry"
proof -
  let ?a' = "snd (propagate_quota_to_group rs a src q retry now)"
  have m: "m \<noteq> []" using assms(1, 2) by (auto simp: affected_group_def)
  show ?thesis
  proof (cases "\<exists>st. mget (a_model_states a) m = Some (Some st)")
    case True
    then obtain st where "mget (a_model_states a) m = Some (Some st)" by auto
    then have "mget (a_model_states ?a') m = Some (Some (group_exceeded q retry now st))"
      using assms(1) in_affected_group [OF assms(2, 1, 3)] by (simp add: propagate_states)
    then show ?thesis
      using m assms by (simp add: auth_blocked_state unavailable_at_def group_exceeded_def)
  next
    case False
    then have "mget (a_model_states ?a') m \<in> {None, Some None}"
      using assms(1) by (auto simp: propagate_states split: option.splits)
    then show ?thesis
      using m assms by (simp add: auth_blocked_no_state propagate_index
          affected_group_provider [of ?a' a])
  qed
qed

lemma quota_propagation_blocks_group_witness:
  "auth_blocked default_resolvers
     (snd (propagate_quota_to_group default_resolvers (auth_zero\<lparr>a_provider := ''antigravity''\<rparr>)
        ''claude-opus'' quota_zero 60 5)) ''claude-sonnet'' 59"
proof -
  have "affected_group default_resolvers (auth_zero\<lparr>a_provider := ''antigravity''\<rparr>) ''claude-opus'' = ''claude''"
    "affected_group default_resolvers (auth_zero\<lparr>a_provider := ''antigravity''\<rparr>) ''claude-sonnet'' = ''claude''"
    by code_simp+
  then show ?thesis
    using quota_propagation_blocks_group [of default_resolvers "auth_zero\<lparr>a_provider := ''antigravity''\<rparr>"
        "''claude-opus''" "''claude-sonnet''" 60 quota_zero 5 59]
    by (simp add: auth_zero_def)
qed

text \<open>
  A success of one model frees its group. Propagating a quota error and then clearing on the
  success of the model that caused it leaves no other model of the group blocked, and every model
  outside the group exactly as it was.
\<close>

theorem quota_success_unblocks_group:
  assumes "affected_group rs a src \<noteq> []" and "q_exceeded q"
    and "\<not> a_disabled a" and "a_status a \<noteq> StatusDisabled"
    and "m \<noteq> src" and "m \<noteq> []"
  shows "let a1 = snd (propagate_quota_to_group rs a src q retry now);
             a2 = snd (clear_quota_group_on_success rs a1 src now')
         in if affected_group rs a m = affected_group rs a src then \<not> auth_blocked rs a2 m t
            else mget (a_model_states a2) m = mget (a_model_states a) m"
proof -
  let ?a1 = "snd (propagate_quota_to_group rs a src q retry now)"
  let ?a2 = "snd (clear_quota_group_on_success rs ?a1 src now')"
  have g1: "affected_group rs ?a1 x = affected_group rs a x" for x
    by (rule affected_group_provider) simp
  have g2: "affected_group rs ?a2 x = affected_group rs a x" for x
    by (rule affected_group_provider) simp
  have i1: "in_group rs ?a1 g s x = in_group rs a g s x" for g s x by (simp add: in_group_def)
  show ?thesis
  proof (cases "affected_group rs a m = affected_group rs a src")
    case True
    have "\<not> auth_blocked rs ?a2 m t"
    proof (cases "\<exists>st. mget (a_model_states a) m = Some (Some st)")
      case True
      then obtain st where "mget (a_model_states a) m = Some (Some st)" by auto
      then have "mget (a_model_states ?a2) m =
          Some (Some (reset_model_state (group_exceeded q retry now st) now'))"
        using in_affected_group [OF \<open>affected_group rs a m = _\<close> assms(1, 5)] assms(1)
        by (simp add: clear_states propagate_states g1 i1 group_blocked_state_def group_exceeded_def)
      then show ?thesis using assms by (simp add: auth_blocked_state)
    next
      case False
      then have "mget (a_model_states ?a2) m \<in> {None, Some None}"
        using assms(1) by (auto simp: clear_states propagate_states g1 split: option.splits)
      then show ?thesis
        using True assms
        by (simp add: auth_blocked_no_state clear_index propagate_index g1 g2 group_verdict_clear)
    qed
    with True show ?thesis by (simp add: Let_def)
  next
    case False
    then have "\<not> in_group rs a (affected_group rs a src) src m"
      using assms by (auto simp: in_group_def affected_group_def split: if_splits)
    with False show ?thesis
      using assms(1) by (simp add: Let_def clear_states propagate_states g1 i1 split: option.splits)
  qed
qed

lemma quota_success_unblocks_group_witness:
  "let a = auth_zero\<lparr>a_provider := ''antigravity''\<rparr>; q = quota_zero\<lparr>q_exceeded := True\<rparr>;
       a1 = snd (propagate_quota_to_group default_resolvers a ''claude-opus'' q 60 5);
       a2 = snd (clear_quota_group_on_success default_resolvers a1 ''claude-opus'' 6)
   in \<not> auth_blocked default_resolvers a2 ''claude-sonnet'' 7"
proof -
  have "affected_group default_resolvers (auth_zero\<lparr>a_provider := ''antigravity''\<rparr>) ''claude-opus'' = ''claude''"
    "affected_group default_resolvers (auth_zero\<lparr>a_provider := ''antigravity''\<rparr>) ''claude-sonnet'' = ''claude''"
    by code_simp+
  then show ?thesis
    using quota_success_unblocks_group [of default_resolvers "auth_zero\<lparr>a_provider := ''antigravity''\<rparr>"
        "''claude-opus''" "quota_zero\<lparr>q_exceeded := True\<rparr>" "''claude-sonnet''" 60 5 6 7]
    by (simp add: auth_zero_def Let_def)
qed

text \<open>
  What a failed request does to a live credential, by the category of its error: a revoked
  token disables it for good, a quota, auth, not-found or transient error blocks it for the time
  the table gives (a quota error until the server-supplied instant when there is one) and no
  longer, and an error of the user leaves it available.
\<close>

theorem auth_failure_effect:
  assumes "\<not> a_disabled a" and "a_status a \<noteq> StatusDisabled"
  shows "let a' = apply_auth_failure_state False a err ra now;
             cat = failure_category err
         in case cat of
              CategoryAuthRevoked \<Rightarrow> auth_blocked rs a' m t
            | CategoryAuthError \<Rightarrow> auth_blocked rs a' [] t = (t < now + 30 * minute)
            | CategoryQuotaError \<Rightarrow>
                q_exceeded (a_quota a')
                \<and> auth_blocked rs a' [] t =
                    (t < now + (case ra of Some d \<Rightarrow> d
                       | None \<Rightarrow> fst (next_quota_cooldown False (q_backoff_level (a_quota a)))))
            | CategoryNotFound \<Rightarrow> auth_blocked rs a' [] t = (t < now + 12 * hour)
            | CategoryTransient \<Rightarrow> auth_blocked rs a' [] t = (t < now + minute)
            | CategoryUserError \<Rightarrow> \<not> auth_blocked rs a' [] t
            | _ \<Rightarrow> a_next_retry_after a' = a_next_retry_after a \<and> a_quota a' = a_quota a"
proof -
  have pos: "0 < fst (next_quota_cooldown False l)" for l
    by (auto simp: next_quota_cooldown_def Let_def quota_backoff_base_def quota_backoff_max_def go_time)
  show ?thesis
    using assms pos [of "q_backoff_level (a_quota a)"]
    by (cases "failure_category err"; cases err)
      (simp_all add: Let_def apply_auth_failure_state_def is_auth_blocked_for_model_def
        quota_next_def case_prod_unfold split: option.splits)
qed

lemma auth_failure_effect_witness:
  "auth_blocked default_resolvers (apply_auth_failure_state False auth_zero
      (Some ((mk_error ''x'' ''y'')\<lparr>err_category := CategoryNotFound\<rparr>)) None 10) [] 11"
  using auth_failure_effect [of auth_zero "Some ((mk_error ''x'' ''y'')\<lparr>err_category := CategoryNotFound\<rparr>)"
      None 10 default_resolvers 11]
  by (simp add: auth_zero_def failure_category_def mk_error_def Let_def go_time)

end
