(* ===== verification/Float64.thy ===== *)
theory Float64
  imports Prelude "HOL-Library.Log_Nat"
begin

text \<open>
  IEEE double arithmetic as the scores of the gateway use it. A \<open>float64\<close> is a rational; every
  operation computes exactly and then rounds to 53 significant bits, ties to even. The numbers
  that occur are far from the ends of the exponent range, so overflow, subnormals, infinities and
  NaN are left out.
\<close>

section \<open>Rounding\<close>

definition round_half_even :: "rat \<Rightarrow> int" where
  "round_half_even x =
     (let n = \<lfloor>x\<rfloor>; r = x - of_int n in
      if r < 1 / 2 then n else if 1 / 2 < r then n + 1 else if even n then n else n + 1)"

definition pow2 :: "int \<Rightarrow> rat" where
  "pow2 k = (if 0 \<le> k then 2 ^ nat k else 1 / 2 ^ nat (- k))"

text \<open>The exponent of a positive number: the greatest power of two not above it.\<close>

definition ilog2 :: "rat \<Rightarrow> int" where
  "ilog2 x = (let (n, d) = quotient_of x; k = bitlen n - bitlen d
              in if pow2 k \<le> x then k else k - 1)"

definition fl_pos :: "rat \<Rightarrow> rat" where
  "fl_pos x = (let u = pow2 (ilog2 x - 52) in of_int (round_half_even (x / u)) * u)"

definition fl :: "rat \<Rightarrow> rat" where
  "fl x = (if x = 0 then 0 else if 0 < x then fl_pos x else - fl_pos (- x))"

definition fadd :: "rat \<Rightarrow> rat \<Rightarrow> rat" where "fadd x y = fl (x + y)"
definition fsub :: "rat \<Rightarrow> rat \<Rightarrow> rat" where "fsub x y = fl (x - y)"
definition fmul :: "rat \<Rightarrow> rat \<Rightarrow> rat" where "fmul x y = fl (x * y)"
definition fdiv :: "rat \<Rightarrow> rat \<Rightarrow> rat" where "fdiv x y = fl (x / y)"
definition ffloat :: "int \<Rightarrow> rat" where "ffloat n = fl (of_int n)"

lemmas float_ops = fadd_def fsub_def fmul_def fdiv_def ffloat_def

section \<open>Powers of two\<close>

lemma pow2_powi: "pow2 k = 2 powi k"
  by (simp add: pow2_def power_int_def power_one_over inverse_eq_divide)

lemma pow2_pos [simp]: "0 < pow2 k"
  by (simp add: pow2_def)

lemma pow2_nonneg [simp]: "0 \<le> pow2 k"
  by (simp add: pow2_def)

lemma pow2_nonzero [simp]: "pow2 k \<noteq> 0"
  using pow2_pos [of k] by linarith

lemma pow2_add: "pow2 (a + b) = pow2 a * pow2 b"
  by (simp add: pow2_powi power_int_add)

lemma pow2_mono: "a \<le> b \<Longrightarrow> pow2 a \<le> pow2 b"
  by (simp add: pow2_powi power_int_increasing)

lemma pow2_less_cancel: "pow2 a < pow2 b \<Longrightarrow> a < b"
  using pow2_mono [of b a] by linarith

lemma pow2_eq_iff: "pow2 a = pow2 b \<longleftrightarrow> a = b"
  using power_int_strict_increasing [of a b "2 :: rat"] power_int_strict_increasing [of b a "2 :: rat"]
  by (cases a b rule: linorder_cases) (auto simp: pow2_powi)

lemma pow2_nat: "pow2 (int n) = 2 ^ n"
  by (simp add: pow2_def)

lemma bitlen_pow2: "0 < n \<Longrightarrow> pow2 (bitlen n - 1) \<le> of_int n \<and> (of_int n :: rat) < pow2 (bitlen n)"
proof -
  assume n: "0 < n"
  from bitlen_bounds [OF n] have b: "2 ^ nat (bitlen n - 1) \<le> n \<and> n < 2 ^ nat (bitlen n)" .
  have pos: "0 \<le> bitlen n - 1" using n bitlen_ge_iff_power [of 1 n] by simp
  from b have "(of_int (2 ^ nat (bitlen n - 1)) :: rat) \<le> of_int n"
     "(of_int n :: rat) < of_int (2 ^ nat (bitlen n))" by (simp_all only: of_int_le_iff of_int_less_iff)
  with pos show ?thesis by (simp add: pow2_def)
qed

lemma ilog2_bounds:
  assumes "0 < x"
  shows "pow2 (ilog2 x) \<le> x \<and> x < pow2 (ilog2 x + 1)"
proof -
  obtain n d where q: "quotient_of x = (n, d)" by (cases "quotient_of x")
  have d: "0 < d" using quotient_of_denom_pos [OF q] .
  have x: "x = of_int n / of_int d" using quotient_of_div [OF q] .
  have n: "0 < n" using assms d unfolding x by (simp add: zero_less_divide_iff)
  let ?k = "bitlen n - bitlen d"
  from bitlen_pow2 [OF n] bitlen_pow2 [OF d]
  have bn: "pow2 (bitlen n - 1) \<le> of_int n" "of_int n < pow2 (bitlen n)"
    and bd: "pow2 (bitlen d - 1) \<le> of_int d" "of_int d < pow2 (bitlen d)" by auto
  have "pow2 (?k - 1) * of_int d \<le> pow2 (?k - 1) * pow2 (bitlen d)"
    using bd by (intro mult_left_mono) auto
  also have "\<dots> = pow2 (bitlen n - 1)" by (simp add: pow2_add [symmetric])
  also have "\<dots> \<le> of_int n" by (rule bn)
  finally have lo: "pow2 (?k - 1) \<le> x" using d unfolding x by (simp add: field_simps)
  have "of_int n < pow2 (bitlen n)" by (rule bn)
  also have "\<dots> = pow2 (?k + 1) * pow2 (bitlen d - 1)" by (simp add: pow2_add [symmetric])
  also have "\<dots> \<le> pow2 (?k + 1) * of_int d" using bd by (intro mult_left_mono) auto
  finally have hi: "x < pow2 (?k + 1)" using d unfolding x by (simp add: field_simps)
  show ?thesis using lo hi by (simp add: ilog2_def q Let_def)
qed

lemma ilog2_mono: "0 < x \<Longrightarrow> x \<le> y \<Longrightarrow> ilog2 x \<le> ilog2 y"
  using ilog2_bounds [of x] ilog2_bounds [of y] pow2_less_cancel [of "ilog2 x" "ilog2 y + 1"] by auto

section \<open>Rounding is monotone and exact on small integers\<close>

lemma round_half_even_between: "\<lfloor>x\<rfloor> \<le> round_half_even x \<and> round_half_even x \<le> \<lfloor>x\<rfloor> + 1"
  by (simp add: round_half_even_def Let_def)

lemma round_half_even_int [simp]: "round_half_even (of_int n) = n"
  by (simp add: round_half_even_def)

lemma round_half_even_mono: "x \<le> y \<Longrightarrow> round_half_even x \<le> round_half_even y"
proof -
  assume xy: "x \<le> y"
  then have "\<lfloor>x\<rfloor> = \<lfloor>y\<rfloor> \<or> \<lfloor>x\<rfloor> + 1 \<le> \<lfloor>y\<rfloor>" using floor_mono [OF xy] by linarith
  then show ?thesis
  proof
    assume "\<lfloor>x\<rfloor> = \<lfloor>y\<rfloor>"
    with xy show ?thesis by (auto simp: round_half_even_def Let_def)
  next
    assume "\<lfloor>x\<rfloor> + 1 \<le> \<lfloor>y\<rfloor>"
    then show ?thesis using round_half_even_between [of x] round_half_even_between [of y] by linarith
  qed
qed

lemma round_half_even_ge: "of_int n \<le> x \<Longrightarrow> n \<le> round_half_even x"
  using round_half_even_mono [of "of_int n" x] by simp

lemma round_half_even_le: "x \<le> of_int n \<Longrightarrow> round_half_even x \<le> n"
  using round_half_even_mono [of x "of_int n"] by simp

lemma fl_pos_bounds:
  assumes "0 < x"
  shows "pow2 (ilog2 x) \<le> fl_pos x \<and> fl_pos x \<le> pow2 (ilog2 x + 1)"
proof -
  let ?e = "ilog2 x" and ?u = "pow2 (ilog2 x - 52)"
  have e: "pow2 ?e = of_int (2 ^ 52) * ?u" "pow2 (?e + 1) = of_int (2 ^ 53) * ?u"
    using pow2_add [of 52 "?e - 52"] pow2_add [of 53 "?e - 52"] pow2_nat [of 52] pow2_nat [of 53]
    by (simp_all add: add.commute)
  have b: "of_int (2 ^ 52) * ?u \<le> x" "x < of_int (2 ^ 53) * ?u"
    using ilog2_bounds [OF assms] unfolding e by auto
  then have "2 ^ 52 \<le> round_half_even (x / ?u)" "round_half_even (x / ?u) \<le> 2 ^ 53"
    by (intro round_half_even_ge round_half_even_le; simp add: pos_le_divide_eq pos_divide_le_eq)+
  then have "(of_int (2 ^ 52) :: rat) \<le> of_int (round_half_even (x / ?u))"
    "of_int (round_half_even (x / ?u)) \<le> (of_int (2 ^ 53) :: rat)"
    by (simp_all only: of_int_le_iff)
  then show ?thesis
    unfolding fl_pos_def Let_def e by (intro conjI mult_right_mono) auto
qed

lemma fl_pos_mono:
  assumes "0 < x" "x \<le> y"
  shows "fl_pos x \<le> fl_pos y"
proof (cases "ilog2 x = ilog2 y")
  case True
  have "x / pow2 (ilog2 y - 52) \<le> y / pow2 (ilog2 y - 52)"
    using assms by (simp add: divide_right_mono)
  then have "round_half_even (x / pow2 (ilog2 y - 52)) \<le> round_half_even (y / pow2 (ilog2 y - 52))"
    by (rule round_half_even_mono)
  then show ?thesis
    unfolding fl_pos_def Let_def True by (intro mult_right_mono) auto
next
  case False
  then have "ilog2 x + 1 \<le> ilog2 y" using ilog2_mono [OF assms] by linarith
  then have "pow2 (ilog2 x + 1) \<le> pow2 (ilog2 y)" by (rule pow2_mono)
  then show ?thesis
    using fl_pos_bounds [OF assms(1)] fl_pos_bounds [of y] assms by linarith
qed

lemma fl_pos_pos: "0 < x \<Longrightarrow> 0 < fl_pos x"
  using fl_pos_bounds [of x] pow2_pos [of "ilog2 x"] by linarith

lemma fl_0 [simp]: "fl 0 = 0"
  by (simp add: fl_def)

lemma fl_minus: "fl (- x) = - fl x"
  by (auto simp: fl_def)

lemma fl_mono: "x \<le> y \<Longrightarrow> fl x \<le> fl y"
proof -
  assume xy: "x \<le> y"
  consider "0 < x" | "x \<le> 0" "0 \<le> y" | "y < 0" using xy by linarith
  then show ?thesis
  proof cases
    case 1
    with xy show ?thesis by (simp add: fl_def fl_pos_mono)
  next
    case 2
    then have "fl x \<le> 0" "0 \<le> fl y"
      using fl_pos_pos [of "- x"] fl_pos_pos [of y] by (auto simp: fl_def)
    then show ?thesis by linarith
  next
    case 3
    with xy fl_pos_mono [of "- y" "- x"] show ?thesis by (simp add: fl_def)
  qed
qed

text \<open>A number of at most 53 significant bits is not changed.\<close>

lemma fl_exact:
  assumes "0 < m" "m \<le> 2 ^ 53"
  shows "fl (of_int m * pow2 k) = of_int m * pow2 k"
proof -
  let ?x = "of_int m * pow2 k"
  have x: "0 < ?x" using assms by simp
  have m: "(of_int m :: rat) \<le> of_int (2 ^ 53)" using assms by (simp only: of_int_le_iff)
  have "pow2 (ilog2 ?x) \<le> ?x" using ilog2_bounds [OF x] by simp
  also have "\<dots> \<le> of_int (2 ^ 53) * pow2 k" using m by (intro mult_right_mono) auto
  also have "\<dots> = pow2 (k + 53)" using pow2_add [of k 53] pow2_nat [of 53] by simp
  finally have le: "pow2 (ilog2 ?x) \<le> pow2 (k + 53)" .
  show ?thesis
  proof (cases "ilog2 ?x \<le> k + 52")
    case True
    let ?d = "k - (ilog2 ?x - 52)"
    have "?x / pow2 (ilog2 ?x - 52) = of_int m * pow2 ?d"
      using pow2_add [of ?d "ilog2 ?x - 52"] by (simp add: field_simps)
    also have "\<dots> = of_int (m * 2 ^ nat ?d)" using True by (simp add: pow2_def)
    finally have q: "?x / pow2 (ilog2 ?x - 52) = of_int (m * 2 ^ nat ?d)" .
    then have "fl_pos ?x = ?x / pow2 (ilog2 ?x - 52) * pow2 (ilog2 ?x - 52)"
      unfolding fl_pos_def Let_def q round_half_even_int by simp
    with x show ?thesis by (simp add: fl_def)
  next
    case False
    then have "pow2 (k + 53) \<le> pow2 (ilog2 ?x)" by (intro pow2_mono) simp
    with le have e: "pow2 (ilog2 ?x) = pow2 (k + 53)" by simp
    then have "ilog2 ?x = k + 53" by (simp only: pow2_eq_iff)
    moreover have "?x = pow2 (k + 53)"
    proof (rule antisym)
      show "pow2 (k + 53) \<le> ?x" using ilog2_bounds [OF x] e by simp
      show "?x \<le> pow2 (k + 53)"
        using m pow2_add [of k 53] pow2_nat [of 53] by (simp add: mult_right_mono)
    qed
    moreover have e1: "pow2 (k + 53) = of_int (2 ^ 52) * pow2 (k + 1)"
      using pow2_add [of 52 "k + 1"] pow2_nat [of 52] by (simp add: ac_simps)
    moreover have "pow2 (k + 53) / pow2 (k + 53 - 52) = of_int (2 ^ 52)"
      unfolding e1 by (simp add: add.commute)
    ultimately have "fl_pos ?x = ?x"
      unfolding fl_pos_def Let_def by (simp only: round_half_even_int) (simp add: add.commute)
    then show ?thesis using x by (simp add: fl_def)
  qed
qed

lemma fl_of_int: "\<bar>n\<bar> \<le> 2 ^ 53 \<Longrightarrow> fl (of_int n) = of_int n"
  using fl_exact [of n 0] fl_exact [of "- n" 0] fl_minus [of "of_int n"]
  by (cases "0 < n"; cases "n = 0") (auto simp: pow2_def)

lemma fl_1 [simp]: "fl 1 = 1"
  using fl_of_int [of 1] by simp

lemma fl_nonneg: "0 \<le> x \<Longrightarrow> 0 \<le> fl x"
  using fl_mono [of 0 x] by simp

lemma fl_le_1: "x \<le> 1 \<Longrightarrow> fl x \<le> 1"
  using fl_mono [of x 1] by simp

end
