(* ===== verification/AuthEntry.thy ===== *)
theory AuthEntry
  imports AuthState
begin

text \<open>
  The lock-free credential of the registry (\<open>internal/provider/auth_entry.go\<close>): immutable
  metadata and model-state snapshots behind atomic pointers, atomic counters beside them, and the
  conversions from and to \<open>Auth\<close>. An operation that reads the clock gets the reading as its last
  argument; one that reads it twice is modelled as if both readings agreed.
\<close>

section \<open>Snapshots\<close>

record auth_metadata =
  md_label :: string
  md_status :: status
  md_status_message :: string
  md_proxy_url :: string
  md_attributes :: "(string, string) gomap"
  md_metadata :: "metadata option"
  md_last_error :: "prov_error option"
  md_created_at :: gotime
  md_updated_at :: gotime
  md_material_version :: int
  md_last_refreshed_at :: gotime
  md_next_refresh_after :: gotime
  md_next_retry_after :: gotime
  md_storage :: "nat option"
  md_file_name :: string
  md_runtime :: runtime

text \<open>A map is copied when it has an entry; the copy of an empty one is nil.\<close>

definition copy_meta :: "metadata option \<Rightarrow> metadata option" where
  "copy_meta m = (if meta_map m = [] then None else m)"

definition metadata_clone :: "auth_metadata \<Rightarrow> auth_metadata" where
  "metadata_clone m = m\<lparr>md_last_error := clone_error (md_last_error m),
                        md_metadata := copy_meta (md_metadata m)\<rparr>"

definition with_status :: "status \<Rightarrow> string \<Rightarrow> auth_metadata \<Rightarrow> gotime \<Rightarrow> auth_metadata" where
  "with_status st msg m now =
     (metadata_clone m)\<lparr>md_status := st, md_status_message := msg, md_updated_at := now\<rparr>"

definition with_error :: "prov_error option \<Rightarrow> auth_metadata \<Rightarrow> gotime \<Rightarrow> auth_metadata" where
  "with_error err m now =
     (let c = metadata_clone m;
          c1 = (case err of None \<Rightarrow> c
                | Some e \<Rightarrow>
                    (let c' = c\<lparr>md_last_error := Some (copy_error e), md_status := StatusError\<rparr>
                     in if err_message e \<noteq> [] then c'\<lparr>md_status_message := err_message e\<rparr> else c'))
      in c1\<lparr>md_updated_at := now\<rparr>)"

definition with_attribute :: "string \<Rightarrow> string \<Rightarrow> auth_metadata \<Rightarrow> gotime \<Rightarrow> auth_metadata" where
  "with_attribute k v m now =
     (let c = metadata_clone m
      in c\<lparr>md_attributes := mput k v (md_attributes c), md_updated_at := now\<rparr>)"

definition with_metadata_value :: "string \<Rightarrow> goval \<Rightarrow> auth_metadata \<Rightarrow> gotime \<Rightarrow> auth_metadata" where
  "with_metadata_value k v m now =
     (let c = metadata_clone m
      in c\<lparr>md_metadata := Some (mput k v (meta_map (md_metadata c))), md_updated_at := now\<rparr>)"

definition with_refresh :: "gotime \<Rightarrow> gotime \<Rightarrow> auth_metadata \<Rightarrow> gotime \<Rightarrow> auth_metadata" where
  "with_refresh refreshed_at next_at m now =
     (metadata_clone m)\<lparr>md_last_refreshed_at := refreshed_at, md_next_refresh_after := next_at,
        md_last_error := None, md_updated_at := now\<rparr>"

definition with_retry_after :: "gotime \<Rightarrow> auth_metadata \<Rightarrow> gotime \<Rightarrow> auth_metadata" where
  "with_retry_after t m now = (metadata_clone m)\<lparr>md_next_retry_after := t, md_updated_at := now\<rparr>"

definition clear_error :: "auth_metadata \<Rightarrow> gotime \<Rightarrow> auth_metadata" where
  "clear_error m now =
     (metadata_clone m)\<lparr>md_last_error := None, md_status := StatusActive, md_status_message := [],
        md_next_retry_after := 0, md_updated_at := now\<rparr>"

text \<open>Times of a model state are kept as Unix nanoseconds, 0 meaning none.\<close>

record state_snapshot =
  ss_status :: status
  ss_status_message :: string
  ss_unavailable :: bool
  ss_next_retry_after :: int
  ss_quota_exceeded :: bool
  ss_quota_reason :: string
  ss_quota_recover :: int
  ss_backoff_level :: int
  ss_last_error :: "prov_error option"
  ss_updated_at :: int

definition snapshot_zero :: state_snapshot where
  "snapshot_zero = \<lparr>ss_status = status_zero, ss_status_message = [], ss_unavailable = False,
     ss_next_retry_after = 0, ss_quota_exceeded = False, ss_quota_reason = [],
     ss_quota_recover = 0, ss_backoff_level = 0, ss_last_error = None, ss_updated_at = 0\<rparr>"

definition snapshot_clone :: "state_snapshot \<Rightarrow> state_snapshot" where
  "snapshot_clone s = s\<lparr>ss_last_error := clone_error (ss_last_error s)\<rparr>"

text \<open>Storing a time, and reading it back; the accessors of the atomics do the same.\<close>

definition nanos_of :: "gotime \<Rightarrow> int" where
  "nanos_of t = (if t = 0 then 0 else unix_nano t)"

definition of_nanos :: "int \<Rightarrow> gotime" where
  "of_nanos ns = (if ns = 0 then 0 else time_unix ns)"

definition to_model_state :: "state_snapshot \<Rightarrow> model_state" where
  "to_model_state s =
     \<lparr>ms_status = ss_status s, ms_status_message = ss_status_message s,
      ms_unavailable = ss_unavailable s, ms_next_retry_after = of_nanos (ss_next_retry_after s),
      ms_last_error = clone_error (ss_last_error s),
      ms_quota = \<lparr>q_exceeded = ss_quota_exceeded s, q_reason = ss_quota_reason s,
                  q_next_recover_at = of_nanos (ss_quota_recover s),
                  q_backoff_level = ss_backoff_level s\<rparr>,
      ms_updated_at = time_unix (ss_updated_at s)\<rparr>"

definition snapshot_of :: "model_state \<Rightarrow> state_snapshot" where
  "snapshot_of st =
     \<lparr>ss_status = ms_status st, ss_status_message = ms_status_message st,
      ss_unavailable = ms_unavailable st, ss_next_retry_after = nanos_of (ms_next_retry_after st),
      ss_quota_exceeded = q_exceeded (ms_quota st), ss_quota_reason = q_reason (ms_quota st),
      ss_quota_recover = nanos_of (q_next_recover_at (ms_quota st)),
      ss_backoff_level = q_backoff_level (ms_quota st),
      ss_last_error = clone_error (ms_last_error st),
      ss_updated_at = nanos_of (ms_updated_at st)\<rparr>"

type_synonym snapshots = "(string, state_snapshot) gomap"

definition snapshots_clone :: "snapshots \<Rightarrow> snapshots" where
  "snapshots_clone s = mmap (\<lambda>_. snapshot_clone) s"

text \<open>\<open>Get\<close> returns the zero snapshot and false for a model it does not hold.\<close>

definition snapshots_get :: "snapshots \<Rightarrow> string \<Rightarrow> state_snapshot \<times> bool" where
  "snapshots_get s model =
     (case mget s model of None \<Rightarrow> (snapshot_zero, False) | Some x \<Rightarrow> (x, True))"

definition snapshots_with :: "string \<Rightarrow> state_snapshot \<Rightarrow> snapshots \<Rightarrow> snapshots" where
  "snapshots_with model x s = mput model x (snapshots_clone s)"

definition snapshots_without :: "string \<Rightarrow> snapshots \<Rightarrow> snapshots" where
  "snapshots_without model s = mdel model (snapshots_clone s)"

definition to_model_states :: "snapshots \<Rightarrow> (string, model_state option) gomap" where
  "to_model_states s = mmap (\<lambda>_ x. Some (to_model_state x)) s"

text \<open>The snapshot of a map of model states leaves its nil entries out.\<close>

definition snapshots_of :: "(string, model_state option) gomap \<Rightarrow> snapshots" where
  "snapshots_of ms = List.map_filter (\<lambda>(k, st). map_option (\<lambda>s. (k, snapshot_of s)) st) ms"

section \<open>Counters\<close>

record real_quota =
  rq_remaining_fraction :: rat
  rq_remaining_tokens :: int
  rq_window_reset_at :: gotime
  rq_fetched_at :: gotime

record quota_fields =
  qf_active_requests :: int
  qf_cooldown_until :: int
  qf_total_tokens_used :: int
  qf_last_exhausted_at :: int
  qf_learned_limit :: int
  qf_learned_cooldown :: int
  qf_real_quota :: "real_quota option"

definition quota_fields_zero :: quota_fields where
  "quota_fields_zero = \<lparr>qf_active_requests = 0, qf_cooldown_until = 0, qf_total_tokens_used = 0,
     qf_last_exhausted_at = 0, qf_learned_limit = 0, qf_learned_cooldown = 0, qf_real_quota = None\<rparr>"

definition get_cooldown_until :: "quota_fields \<Rightarrow> gotime" where
  "get_cooldown_until q = of_nanos (qf_cooldown_until q)"

definition set_cooldown_until :: "gotime \<Rightarrow> quota_fields \<Rightarrow> quota_fields" where
  "set_cooldown_until t q = q\<lparr>qf_cooldown_until := nanos_of t\<rparr>"

definition get_last_exhausted_at :: "quota_fields \<Rightarrow> gotime" where
  "get_last_exhausted_at q = of_nanos (qf_last_exhausted_at q)"

definition set_last_exhausted_at :: "gotime \<Rightarrow> quota_fields \<Rightarrow> quota_fields" where
  "set_last_exhausted_at t q = q\<lparr>qf_last_exhausted_at := nanos_of t\<rparr>"

record quota_snapshot =
  qs_cooldown_until :: gotime
  qs_active_requests :: int
  qs_total_tokens_used :: int
  qs_last_exhausted_at :: gotime
  qs_learned_limit :: int
  qs_learned_cooldown :: duration

definition quota_snapshot_of :: "quota_fields \<Rightarrow> quota_snapshot" where
  "quota_snapshot_of q = \<lparr>qs_cooldown_until = get_cooldown_until q,
     qs_active_requests = qf_active_requests q, qs_total_tokens_used = qf_total_tokens_used q,
     qs_last_exhausted_at = get_last_exhausted_at q, qs_learned_limit = qf_learned_limit q,
     qs_learned_cooldown = qf_learned_cooldown q\<rparr>"

record token_fields =
  tf_expires_at :: int
  tf_refresh_at :: int
  tf_refreshing :: bool

definition token_fields_zero :: token_fields where
  "token_fields_zero = \<lparr>tf_expires_at = 0, tf_refresh_at = 0, tf_refreshing = False\<rparr>"

definition get_expires_at :: "token_fields \<Rightarrow> gotime" where
  "get_expires_at t = of_nanos (tf_expires_at t)"

definition set_expires_at :: "gotime \<Rightarrow> token_fields \<Rightarrow> token_fields" where
  "set_expires_at tm t = t\<lparr>tf_expires_at := nanos_of tm\<rparr>"

definition get_refresh_at :: "token_fields \<Rightarrow> gotime" where
  "get_refresh_at t = of_nanos (tf_refresh_at t)"

definition set_refresh_at :: "gotime \<Rightarrow> token_fields \<Rightarrow> token_fields" where
  "set_refresh_at tm t = t\<lparr>tf_refresh_at := nanos_of tm\<rparr>"

definition needs_refresh :: "token_fields \<Rightarrow> gotime \<Rightarrow> bool" where
  "needs_refresh t now \<longleftrightarrow>
     (let r = get_refresh_at t in r \<noteq> 0 \<and> (r < now \<or> now = r))"

definition try_start_refresh :: "token_fields \<Rightarrow> bool \<times> token_fields" where
  "try_start_refresh t = (\<not> tf_refreshing t, t\<lparr>tf_refreshing := True\<rparr>)"

definition finish_refresh :: "token_fields \<Rightarrow> token_fields" where
  "finish_refresh t = t\<lparr>tf_refreshing := False\<rparr>"

section \<open>The entry\<close>

record auth_entry =
  e_id :: string
  e_provider :: string
  e_index :: int
  e_meta :: auth_metadata
  e_quota :: quota_fields
  e_token :: token_fields
  e_disabled :: bool
  e_unavailable :: bool
  e_states :: snapshots

definition refresh_point :: "gotime \<Rightarrow> gotime \<Rightarrow> gotime" where
  "refresh_point expiry now =
     (let r = expiry - 5 * minute in if r < now then now + 5 * second else r)"

text \<open>The immutable metadata built from a credential, in \<open>NewAuthEntry\<close> and in \<open>Update\<close>.\<close>

definition metadata_of :: "auth \<Rightarrow> auth_metadata" where
  "metadata_of a =
     \<lparr>md_label = a_label a, md_status = a_status a, md_status_message = a_status_message a,
      md_proxy_url = a_proxy_url a, md_attributes = a_attributes a,
      md_metadata = copy_meta (a_metadata a), md_last_error = clone_error (a_last_error a),
      md_created_at = a_created_at a, md_updated_at = a_updated_at a,
      md_material_version = a_material_version a, md_last_refreshed_at = a_last_refreshed_at a,
      md_next_refresh_after = a_next_refresh_after a, md_next_retry_after = a_next_retry_after a,
      md_storage = a_storage a, md_file_name = a_file_name a, md_runtime = a_runtime a\<rparr>"

definition new_auth_entry :: "auth \<Rightarrow> gotime \<Rightarrow> auth_entry" where
  "new_auth_entry a now =
     (let meta = metadata_of a;
          q1 = (if q_next_recover_at (a_quota a) \<noteq> 0
                then set_cooldown_until (q_next_recover_at (a_quota a)) quota_fields_zero
                else quota_fields_zero);
          q2 = (if a_next_retry_after a \<noteq> 0
                then set_cooldown_until (a_next_retry_after a) q1 else q1);
          tok = (case expiration_from_map (meta_map (md_metadata meta)) of
                   None \<Rightarrow> token_fields_zero
                 | Some ts \<Rightarrow> set_refresh_at (refresh_point ts now)
                               (set_expires_at ts token_fields_zero))
      in \<lparr>e_id = a_id a, e_provider = a_provider a, e_index = a_index a, e_meta = meta,
          e_quota = q2, e_token = tok, e_disabled = a_disabled a, e_unavailable = a_unavailable a,
          e_states = snapshots_of (a_model_states a)\<rparr>)"

definition to_auth :: "auth_entry \<Rightarrow> auth" where
  "to_auth e =
     (let m = e_meta e; cd = get_cooldown_until (e_quota e) in
      \<lparr>a_id = e_id e, a_index = e_index e, a_provider = e_provider e,
       a_file_name = md_file_name m, a_storage = md_storage m, a_label = md_label m,
       a_status = md_status m, a_status_message = md_status_message m,
       a_disabled = e_disabled e, a_unavailable = e_unavailable e,
       a_proxy_url = md_proxy_url m, a_attributes = md_attributes m, a_priority = 0,
       a_metadata = copy_meta (md_metadata m),
       a_quota = (if cd \<noteq> 0 then quota_zero\<lparr>q_exceeded := True, q_next_recover_at := cd\<rparr>
                  else quota_zero),
       a_last_error = clone_error (md_last_error m), a_created_at = md_created_at m,
       a_updated_at = md_updated_at m, a_material_version = md_material_version m,
       a_last_refreshed_at = md_last_refreshed_at m,
       a_next_refresh_after = md_next_refresh_after m,
       a_next_retry_after = md_next_retry_after m,
       a_model_states = to_model_states (e_states e), a_runtime = md_runtime m,
       a_index_assigned = True\<rparr>)"

definition update_metadata :: "(auth_metadata \<Rightarrow> auth_metadata) \<Rightarrow> auth_entry \<Rightarrow> auth_entry" where
  "update_metadata f e = e\<lparr>e_meta := f (e_meta e)\<rparr>"

definition update_model_state ::
    "string \<Rightarrow> (state_snapshot \<Rightarrow> state_snapshot) \<Rightarrow> auth_entry \<Rightarrow> auth_entry" where
  "update_model_state model f e =
     e\<lparr>e_states := snapshots_with model (f (fst (snapshots_get (e_states e) model))) (e_states e)\<rparr>"

definition update_all_model_states :: "(snapshots \<Rightarrow> snapshots) \<Rightarrow> auth_entry \<Rightarrow> auth_entry" where
  "update_all_model_states f e = e\<lparr>e_states := f (e_states e)\<rparr>"

definition clear_model_state :: "string \<Rightarrow> auth_entry \<Rightarrow> auth_entry" where
  "clear_model_state model e = e\<lparr>e_states := snapshots_without model (e_states e)\<rparr>"

definition entry_is_blocked_for_model ::
    "auth_entry \<Rightarrow> string \<Rightarrow> gotime \<Rightarrow> bool \<times> block_reason \<times> gotime" where
  "entry_is_blocked_for_model e model now =
     (if e_disabled e \<or> md_status (e_meta e) = StatusDisabled then (True, blockReasonDisabled, 0)
      else let (st, ok) = (if model \<noteq> [] then snapshots_get (e_states e) model
                           else (snapshot_zero, False)) in
        if ok then
          (if ss_status st = StatusDisabled then (True, blockReasonDisabled, 0)
           else if ss_unavailable st \<and> ss_next_retry_after st = 0 then (True, blockReasonOther, 0)
           else if ss_unavailable st \<and> now < time_unix (ss_next_retry_after st) then
             (True, (if ss_quota_exceeded st then blockReasonCooldown else blockReasonOther),
              (if ss_quota_recover st \<noteq> 0 \<and> now < time_unix (ss_quota_recover st)
               then time_unix (ss_quota_recover st) else time_unix (ss_next_retry_after st)))
           else (False, blockReasonNone, 0))
        else if e_unavailable e \<and> now < get_cooldown_until (e_quota e) then
          (True, blockReasonCooldown, get_cooldown_until (e_quota e))
        else (False, blockReasonNone, 0))"

definition increment_active_requests :: "auth_entry \<Rightarrow> auth_entry" where
  "increment_active_requests e =
     e\<lparr>e_quota := (e_quota e)\<lparr>qf_active_requests := wrap64 (qf_active_requests (e_quota e) + 1)\<rparr>\<rparr>"

definition decrement_active_requests :: "auth_entry \<Rightarrow> auth_entry" where
  "decrement_active_requests e =
     (if qf_active_requests (e_quota e) \<le> 0 then e
      else e\<lparr>e_quota := (e_quota e)\<lparr>qf_active_requests := qf_active_requests (e_quota e) - 1\<rparr>\<rparr>)"

definition record_token_usage :: "int \<Rightarrow> auth_entry \<Rightarrow> auth_entry" where
  "record_token_usage tokens e =
     (if 0 < tokens
      then e\<lparr>e_quota := (e_quota e)\<lparr>qf_total_tokens_used :=
             wrap64 (qf_total_tokens_used (e_quota e) + tokens)\<rparr>\<rparr> else e)"

definition set_cooldown :: "gotime \<Rightarrow> auth_entry \<Rightarrow> gotime \<Rightarrow> auth_entry" where
  "set_cooldown until e now =
     e\<lparr>e_quota := set_last_exhausted_at now (set_cooldown_until until (e_quota e)),
       e_unavailable := True\<rparr>"

definition clear_cooldown :: "auth_entry \<Rightarrow> auth_entry" where
  "clear_cooldown e = e\<lparr>e_quota := set_cooldown_until 0 (e_quota e), e_unavailable := False\<rparr>"

definition is_in_cooldown :: "auth_entry \<Rightarrow> gotime \<Rightarrow> bool" where
  "is_in_cooldown e now \<longleftrightarrow>
     (let c = get_cooldown_until (e_quota e) in c \<noteq> 0 \<and> now < c)"

section \<open>The copy-on-write loops under contention\<close>

text \<open>
  An update loads the pointer, computes a new value and swaps it in if the pointer is still the
  one it loaded. Every store installs a fresh pointer, so the swap fails exactly when another
  goroutine stored in between. The list says, attempt by attempt, what others did between the
  load and the swap: nothing, or a store of the function's value. \<open>Inl\<close> is the value after the
  swap (or after the callback declined with nil), \<open>Inr\<close> the value when the attempts ran out.
\<close>

type_synonym 'a rival = "('a \<Rightarrow> 'a) option"

abbreviation rival_store :: "'a rival \<Rightarrow> 'a \<Rightarrow> 'a" where
  "rival_store r v \<equiv> (case r of None \<Rightarrow> v | Some g \<Rightarrow> g v)"

fun cas_loop :: "nat \<Rightarrow> ('a \<Rightarrow> 'a option) \<Rightarrow> 'a \<Rightarrow> 'a rival list \<Rightarrow> ('a + 'a \<times> 'a rival list)" where
  "cas_loop 0 f v rs = Inr (v, rs)"
| "cas_loop (Suc n) f v rs =
     (case f v of
        None \<Rightarrow> Inl v
      | Some w \<Rightarrow>
          (case rs of
             [] \<Rightarrow> Inl w
           | None # _ \<Rightarrow> Inl w
           | Some g # rs' \<Rightarrow> cas_loop n f (g v) rs'))"

definition max_cas_attempts :: nat where "max_cas_attempts = 100"

text \<open>
  \<open>UpdateMetadata\<close>, \<open>UpdateModelState\<close> and \<open>UpdateAllModelStates\<close> fall back to a load and a
  plain store, which overwrites what a rival stored between them; a nil result is stored too
  (\<open>None\<close>). \<open>ClearModelState\<close> has no fallback and gives up.
\<close>

definition cow_update :: "('a \<Rightarrow> 'a option) \<Rightarrow> 'a \<Rightarrow> 'a rival list \<Rightarrow> 'a option" where
  "cow_update f v rs =
     (case cas_loop max_cas_attempts f v rs of Inl w \<Rightarrow> Some w | Inr (u, _) \<Rightarrow> f u)"

definition cow_clear :: "('a \<Rightarrow> 'a) \<Rightarrow> 'a \<Rightarrow> 'a rival list \<Rightarrow> 'a" where
  "cow_clear f v rs =
     (case cas_loop max_cas_attempts (Some \<circ> f) v rs of Inl w \<Rightarrow> w | Inr (u, _) \<Rightarrow> u)"

section \<open>Lemmas\<close>

lemma copy_meta_idem [simp]: "copy_meta (copy_meta m) = copy_meta m"
  by (simp add: copy_meta_def)

lemma meta_map_copy [simp]: "meta_map (copy_meta m) = meta_map m"
  by (auto simp: copy_meta_def split: option.splits)

lemma metadata_clone_idem [simp]: "metadata_clone (metadata_clone m) = metadata_clone m"
  by (simp add: metadata_clone_def)

lemma snapshot_clone_idem [simp]: "snapshot_clone (snapshot_clone s) = snapshot_clone s"
  by (simp add: snapshot_clone_def)

lemma of_nanos_of [go_time, simp]: "time_ok t \<Longrightarrow> t \<noteq> unix_epoch \<Longrightarrow> of_nanos (nanos_of t) = t"
  by (simp add: of_nanos_def nanos_of_def unix_nano_eq_0)

lemma nanos_of_eq_0: "time_ok t \<Longrightarrow> nanos_of t = 0 \<longleftrightarrow> t = 0 \<or> t = unix_epoch"
  by (simp add: nanos_of_def unix_nano_eq_0)

lemma get_set_cooldown [simp]:
  "time_ok t \<Longrightarrow> t \<noteq> unix_epoch \<Longrightarrow> get_cooldown_until (set_cooldown_until t q) = t"
  by (simp add: get_cooldown_until_def set_cooldown_until_def)

lemma get_set_cooldown_0 [simp]: "get_cooldown_until (set_cooldown_until 0 q) = 0"
  by (simp add: get_cooldown_until_def set_cooldown_until_def nanos_of_def of_nanos_def)

lemma quota_fields_zero_cooldown [simp]: "get_cooldown_until quota_fields_zero = 0"
  by (simp add: get_cooldown_until_def quota_fields_zero_def of_nanos_def)

lemma mget_snapshots_with [simp]:
  "mget (snapshots_with m x s) k = (if k = m then Some x else map_option snapshot_clone (mget s k))"
  by (simp add: snapshots_with_def snapshots_clone_def)

lemma mget_snapshots_without [simp]:
  "mget (snapshots_without m s) k = (if k = m then None else map_option snapshot_clone (mget s k))"
  by (simp add: snapshots_without_def snapshots_clone_def)

lemma snapshots_of_simps [simp]:
  "snapshots_of [] = []" "snapshots_of ((k, None) # ms) = snapshots_of ms"
  "snapshots_of ((k, Some st) # ms) = (k, snapshot_of st) # snapshots_of ms"
  by (simp_all add: snapshots_of_def map_filter_simps)

lemma snapshots_of_keys: "set (mkeys (snapshots_of ms)) \<subseteq> set (mkeys ms)"
  by (induction ms rule: states_induct) auto

lemma wf_snapshots_of: "wf_map ms \<Longrightarrow> wf_map (snapshots_of ms)"
  by (induction ms rule: states_induct) (use snapshots_of_keys in \<open>auto simp: wf_map_def\<close>)

lemma mget_snapshots_of:
  "wf_map ms \<Longrightarrow> mget (snapshots_of ms) m =
     (case mget ms m of Some (Some st) \<Rightarrow> Some (snapshot_of st) | _ \<Rightarrow> None)"
proof (induction ms rule: states_induct)
  case (nil_entry k ms)
  have "k \<notin> set (mkeys (snapshots_of ms))"
    using nil_entry.prems snapshots_of_keys [of ms] by (auto simp: wf_map_def)
  then have "mget (snapshots_of ms) k = None" by (simp add: map_of_eq_None_iff)
  with nil_entry show ?case by (auto simp: wf_map_def)
qed (auto simp: wf_map_def)

lemma new_auth_entry_sel [simp, frame]:
  "e_id (new_auth_entry a now) = a_id a" "e_provider (new_auth_entry a now) = a_provider a"
  "e_index (new_auth_entry a now) = a_index a" "e_disabled (new_auth_entry a now) = a_disabled a"
  "e_unavailable (new_auth_entry a now) = a_unavailable a"
  "e_states (new_auth_entry a now) = snapshots_of (a_model_states a)"
  "e_meta (new_auth_entry a now) = metadata_of a"
  by (simp_all add: new_auth_entry_def Let_def)

lemma to_auth_sel [simp, frame]:
  "a_id (to_auth e) = e_id e" "a_provider (to_auth e) = e_provider e"
  "a_index (to_auth e) = e_index e" "a_disabled (to_auth e) = e_disabled e"
  "a_unavailable (to_auth e) = e_unavailable e" "a_status (to_auth e) = md_status (e_meta e)"
  "a_metadata (to_auth e) = copy_meta (md_metadata (e_meta e))"
  "a_attributes (to_auth e) = md_attributes (e_meta e)"
  "a_model_states (to_auth e) = to_model_states (e_states e)"
  "a_runtime (to_auth e) = md_runtime (e_meta e)"
  by (simp_all add: to_auth_def Let_def)

lemma update_frame [simp, frame]:
  "e_id (update_metadata f e) = e_id e" "e_provider (update_metadata f e) = e_provider e"
  "e_disabled (update_metadata f e) = e_disabled e"
  "e_unavailable (update_metadata f e) = e_unavailable e"
  "e_states (update_metadata f e) = e_states e" "e_quota (update_metadata f e) = e_quota e"
  "e_token (update_metadata f e) = e_token e"
  "e_id (update_model_state m g e) = e_id e" "e_provider (update_model_state m g e) = e_provider e"
  "e_disabled (update_model_state m g e) = e_disabled e"
  "e_unavailable (update_model_state m g e) = e_unavailable e"
  "e_meta (update_model_state m g e) = e_meta e" "e_quota (update_model_state m g e) = e_quota e"
  "e_token (update_model_state m g e) = e_token e"
  by (simp_all add: update_metadata_def update_model_state_def)

lemma counter_frame [simp, frame]:
  "e_id (decrement_active_requests e) = e_id e" "e_id (increment_active_requests e) = e_id e"
  "e_meta (decrement_active_requests e) = e_meta e"
  "e_states (decrement_active_requests e) = e_states e"
  "e_disabled (decrement_active_requests e) = e_disabled e"
  "e_id (set_cooldown t e now) = e_id e" "e_id (clear_cooldown e) = e_id e"
  by (simp_all add: decrement_active_requests_def increment_active_requests_def set_cooldown_def
      clear_cooldown_def)

lemma cas_loop_attempts:
  "cas_loop n (\<lambda>v. Some (f v)) v rs =
     (let lost = takeWhile (\<lambda>r. r \<noteq> None) (take n rs)
      in if n \<le> length lost then Inr (fold rival_store lost v, drop n rs)
         else Inl (f (fold rival_store lost v)))"
proof (induction n arbitrary: v rs)
  case (Suc n)
  show ?case
  proof (cases rs)
    case (Cons r rs')
    then show ?thesis by (cases r) (simp_all add: Suc.IH Let_def)
  qed (simp add: Let_def)
qed simp

text \<open>
  The times a snapshot represents: none, or within the range of Unix nanoseconds and not 1970 to
  the nanosecond.
\<close>

definition opt_time_ok :: "gotime \<Rightarrow> bool" where
  "opt_time_ok t \<longleftrightarrow> t = 0 \<or> (time_ok t \<and> t \<noteq> unix_epoch)"

definition state_times_ok :: "model_state \<Rightarrow> bool" where
  "state_times_ok st \<longleftrightarrow> opt_time_ok (ms_next_retry_after st)
     \<and> opt_time_ok (q_next_recover_at (ms_quota st)) \<and> time_ok (ms_updated_at st)"

lemma of_nanos_opt [simp]: "opt_time_ok t \<Longrightarrow> of_nanos (nanos_of t) = t"
  by (auto simp: opt_time_ok_def) (simp add: nanos_of_def of_nanos_def)

lemma nanos_of_opt: "opt_time_ok t \<Longrightarrow> nanos_of t = 0 \<longleftrightarrow> t = 0"
  by (auto simp: opt_time_ok_def nanos_of_eq_0) (simp add: nanos_of_def)

lemma time_unix_nanos_of: "time_ok t \<Longrightarrow> time_unix (nanos_of t) = t"
  by (auto simp: nanos_of_def time_ok_def in64_def unix_epoch_def)

lemma time_unix_nanos_opt: "opt_time_ok t \<Longrightarrow> t \<noteq> 0 \<Longrightarrow> time_unix (nanos_of t) = t"
  by (simp add: opt_time_ok_def nanos_of_def)

lemma to_model_state_snapshot:
  "state_times_ok st \<Longrightarrow> to_model_state (snapshot_of st) = model_state_clone st"
  by (simp add: state_times_ok_def to_model_state_def snapshot_of_def model_state_clone_def
      time_unix_nanos_of)

lemma mget_roundtrip_states:
  assumes "wf_map ms" and "\<forall>st \<in> set (live_states ms). state_times_ok st"
  shows "mget (to_model_states (snapshots_of ms)) m =
     (case mget ms m of Some (Some st) \<Rightarrow> Some (Some (model_state_clone st)) | _ \<Rightarrow> None)"
proof -
  have "state_times_ok st" if "mget ms m = Some (Some st)" for st
    using map_of_SomeD [OF that] assms(2) in_live_states [of st ms] by blast
  with assms(1) show ?thesis
    by (auto simp: to_model_states_def mget_snapshots_of to_model_state_snapshot split: option.splits)
qed

section \<open>Properties\<close>

text \<open>
  The registry keeps a credential. Converting it to an entry and back preserves its identity,
  flags, attributes and metadata and every model state whose times fit (nil entries are dropped,
  copies of errors lose their category), but not its priority.
\<close>

theorem entry_roundtrip:
  assumes "wf_map (a_model_states a)"
    and "\<forall>st \<in> set (live_states (a_model_states a)). state_times_ok st"
  shows "let b = to_auth (new_auth_entry a now) in
     mget (a_model_states b) m =
       (case mget (a_model_states a) m of
          Some (Some st) \<Rightarrow> Some (Some (model_state_clone st)) | _ \<Rightarrow> None)
     \<and> (a_id b, a_provider b, a_index b, a_label b, a_file_name b, a_proxy_url b) =
       (a_id a, a_provider a, a_index a, a_label a, a_file_name a, a_proxy_url a)
     \<and> (a_status b, a_status_message b, a_disabled b, a_unavailable b, a_attributes b, a_runtime b) =
       (a_status a, a_status_message a, a_disabled a, a_unavailable a, a_attributes a, a_runtime a)
     \<and> meta_map (a_metadata b) = meta_map (a_metadata a)
     \<and> a_last_error b = clone_error (a_last_error a) \<and> a_priority b = 0"
  using assms
  by (simp add: Let_def mget_roundtrip_states metadata_of_def to_auth_def)

lemma entry_roundtrip_witness:
  "let st = model_state_zero\<lparr>ms_status := StatusError, ms_next_retry_after := time_unix 7,
              ms_updated_at := time_unix 5\<rparr>;
       a = auth_zero\<lparr>a_model_states := [(''m'', Some st), (''n'', None)], a_priority := 3\<rparr>
   in mget (a_model_states (to_auth (new_auth_entry a 0))) ''m'' = Some (Some st)
      \<and> a_priority (to_auth (new_auth_entry a 0)) = 0"
  using entry_roundtrip [of "auth_zero\<lparr>a_model_states :=
      [(''m'', Some (model_state_zero\<lparr>ms_status := StatusError, ms_next_retry_after := time_unix 7,
              ms_updated_at := time_unix 5\<rparr>)), (''n'', None)], a_priority := 3\<rparr>" 0 "''m''"]
  by (simp add: Let_def auth_zero_def wf_map_def state_times_ok_def opt_time_ok_def time_ok_def
      time_unix_def unix_epoch_def in64_def model_state_zero_def quota_zero_def model_state_clone_def)



text \<open>
  The copy-on-write loops. However many rivals store during the first hundred attempts, an
  update is applied exactly once, to what the last of them left; removing a model's state gives
  up when a hundred rivals in a row got in its way.
\<close>

theorem cow_update_applied_once:
  "let lost = takeWhile (\<lambda>r. r \<noteq> None) (take 100 rs) in
     cow_update (\<lambda>v. Some (f v)) v rs = Some (f (fold rival_store lost v))
     \<and> cow_clear f v rs =
         (if length lost = 100 then fold rival_store lost v else f (fold rival_store lost v))"
proof -
  have "length (takeWhile (\<lambda>r. r \<noteq> None) (take 100 rs)) \<le> 100"
    by (metis (no_types) length_take length_takeWhile_le min.bounded_iff order_trans min.cobounded2)
  then show ?thesis
    by (simp add: cow_update_def cow_clear_def max_cas_attempts_def comp_def cas_loop_attempts Let_def)
qed

end
