(* ===== verification/StickyStore.thy ===== *)
theory StickyStore
  imports Sharding
begin

text \<open>
  Sticky sessions (\<open>internal/provider/sticky_store.go\<close>): a sharded cache from provider and model
  to the credential last used, with a time to live of a minute and a cap on each shard. The
  operations take the reading of the clock as their argument.
\<close>

section \<open>Operations\<close>

definition num_sticky_shards :: nat where "num_sticky_shards = 16"
definition max_entries_per_shard :: nat where "max_entries_per_shard = 256"
definition sticky_ttl :: duration where "sticky_ttl = 60 * second"

record sticky_entry =
  st_auth_id :: string
  st_last_used :: gotime

type_synonym sticky_shard = "(string, sticky_entry) gomap"
type_synonym sticky_store = "sticky_entry shards"

definition sticky_index :: "string \<Rightarrow> nat" where
  "sticky_index key = unat (fnv64a key) mod num_sticky_shards"

definition new_sticky_store :: sticky_store where
  "new_sticky_store = sh_empty num_sticky_shards"

definition sticky_expired :: "gotime \<Rightarrow> sticky_entry \<Rightarrow> bool" where
  "sticky_expired now e \<longleftrightarrow> sticky_ttl \<le> time_sub now (st_last_used e)"

definition sticky_get :: "string \<Rightarrow> sticky_store \<Rightarrow> gotime \<Rightarrow> (string \<times> bool) \<times> sticky_store" where
  "sticky_get key s now =
     (case sh_get sticky_index s key of
        None \<Rightarrow> (([], False), s)
      | Some e \<Rightarrow>
          if sticky_expired now e then (([], False), s)
          else ((st_auth_id e, True), sh_put sticky_index key (e\<lparr>st_last_used := now\<rparr>) s))"

text \<open>The scan for the entry used longest ago; the empty key marks that none was seen yet.\<close>

fun oldest_from :: "sticky_shard \<Rightarrow> string \<times> gotime \<Rightarrow> string \<times> gotime" where
  "oldest_from [] best = best"
| "oldest_from ((k, e) # m) best =
     oldest_from m (if fst best = [] \<or> st_last_used e < snd best then (k, st_last_used e) else best)"

definition oldest_key :: "sticky_shard \<Rightarrow> string" where
  "oldest_key m = fst (oldest_from m ([], 0))"

lemma length_mdel_less: "k \<in> set (mkeys m) \<Longrightarrow> length (mdel k m) < length m"
  by (auto simp: AList.delete_eq intro!: length_filter_less)

text \<open>The second pass; that the key found is one of the shard's is always so.\<close>

function drop_oldest :: "sticky_shard \<Rightarrow> sticky_shard" where
  "drop_oldest m =
     (if max_entries_per_shard \<le> length m \<and> oldest_key m \<noteq> [] \<and> oldest_key m \<in> set (mkeys m)
      then drop_oldest (mdel (oldest_key m) m) else m)"
  by pat_completeness auto

termination
  by (relation "measure length") (simp_all add: length_mdel_less del: set_map)

declare drop_oldest.simps [simp del]

definition evict_oldest :: "sticky_shard \<Rightarrow> gotime \<Rightarrow> sticky_shard" where
  "evict_oldest m now = drop_oldest (filter (\<lambda>(_, e). \<not> sticky_expired now e) m)"

definition sticky_set :: "string \<Rightarrow> string \<Rightarrow> sticky_store \<Rightarrow> gotime \<Rightarrow> sticky_store" where
  "sticky_set key auth_id s now =
     (let i = sticky_index key; m = s ! i; e = \<lparr>st_auth_id = auth_id, st_last_used = now\<rparr> in
      if mget m key \<noteq> None then s[i := mput key e m]
      else let m' = (if max_entries_per_shard \<le> length m then evict_oldest m now else m)
           in s[i := mput key e m'])"

definition cleanup_expired :: "sticky_store \<Rightarrow> gotime \<Rightarrow> sticky_store" where
  "cleanup_expired s now = sh_filter (\<lambda>(_, e). \<not> sticky_expired now e) s"

definition sticky_len :: "sticky_store \<Rightarrow> nat" where
  "sticky_len s = sh_count s"

section \<open>Lemmas\<close>

interpretation sticky: sharding sticky_index num_sticky_shards
  by unfold_locales (simp add: sticky_index_def num_sticky_shards_def)

lemma sticky_expired_iff: "sticky_expired now e \<longleftrightarrow> sticky_ttl \<le> now - st_last_used e"
  by (auto simp: sticky_expired_def time_sub_def sticky_ttl_def go_time)

lemma oldest_from_keys:
  "oldest_from m b = b \<or> (\<exists>e. (fst (oldest_from m b), e) \<in> set m \<and> snd (oldest_from m b) = st_last_used e)"
  by (induction m b rule: oldest_from.induct) (auto split: if_splits)

lemma oldest_from_le:
  assumes "fst b \<noteq> []" and "[] \<notin> set (mkeys m)"
  shows "snd (oldest_from m b) \<le> snd b
     \<and> (\<forall>(k, e) \<in> set m. snd (oldest_from m b) \<le> st_last_used e) \<and> fst (oldest_from m b) \<noteq> []"
  using assms
proof (induction m b rule: oldest_from.induct)
  case (2 k e m b)
  let ?b = "if fst b = [] \<or> st_last_used e < snd b then (k, st_last_used e) else b"
  have "fst ?b \<noteq> []" "[] \<notin> set (mkeys m)" using "2.prems" by auto
  from "2.IH" [OF this] "2.prems" show ?case by (auto split: if_splits)
qed simp

text \<open>In a shard without the empty key the scan finds an entry no other is older than.\<close>

lemma oldest_key_props:
  assumes "m \<noteq> []" and "[] \<notin> set (mkeys m)"
  shows "oldest_key m \<noteq> [] \<and> (\<exists>e. (oldest_key m, e) \<in> set m
     \<and> (\<forall>(k, f) \<in> set m. st_last_used e \<le> st_last_used f))"
proof -
  obtain k e m' where m: "m = (k, e) # m'" using assms(1) by (cases m) auto
  have k: "k \<noteq> []" "[] \<notin> set (mkeys m')" using assms(2) m by auto
  let ?r = "oldest_from m' (k, st_last_used e)"
  have r: "oldest_from m ([], 0) = ?r" using m by simp
  have le: "snd ?r \<le> st_last_used e" "\<forall>(k, e) \<in> set m'. snd ?r \<le> st_last_used e" "fst ?r \<noteq> []"
    using oldest_from_le [of "(k, st_last_used e)" m'] k by auto
  have "\<exists>f. (fst ?r, f) \<in> set m \<and> snd ?r = st_last_used f"
    using oldest_from_keys [of m' "(k, st_last_used e)"] m by auto
  with le r m show ?thesis by (auto simp: oldest_key_def)
qed

lemma oldest_key_in:
  "m \<noteq> [] \<Longrightarrow> [] \<notin> set (mkeys m) \<Longrightarrow> oldest_key m \<noteq> [] \<and> oldest_key m \<in> set (mkeys m)"
  using oldest_key_props [of m] by force

lemma drop_oldest_length:
  "[] \<notin> set (mkeys m) \<Longrightarrow> length (drop_oldest m) < max_entries_per_shard"
proof (induction m rule: drop_oldest.induct)
  case (1 m)
  show ?case
  proof (cases "max_entries_per_shard \<le> length m")
    case True
    then have "m \<noteq> []" by (auto simp: max_entries_per_shard_def)
    from oldest_key_in [OF this "1.prems"] True "1.IH" "1.prems" show ?thesis
      by (subst drop_oldest.simps) auto
  qed (subst drop_oldest.simps, simp)
qed

lemma drop_oldest_subset: "set (drop_oldest m) \<subseteq> set m"
proof (induction m rule: drop_oldest.induct)
  case (1 m)
  then show ?case by (subst drop_oldest.simps) (auto simp: AList.delete_eq)
qed

lemma wf_drop_oldest: "wf_map m \<Longrightarrow> wf_map (drop_oldest m)"
proof (induction m rule: drop_oldest.induct)
  case (1 m)
  then show ?case by (subst drop_oldest.simps) auto
qed

lemma evict_oldest_subset: "set (evict_oldest m now) \<subseteq> set m"
  using drop_oldest_subset by (fastforce simp: evict_oldest_def)

lemma evict_oldest_length: "[] \<notin> set (mkeys m) \<Longrightarrow> length (evict_oldest m now) < max_entries_per_shard"
  unfolding evict_oldest_def by (rule drop_oldest_length) auto

lemma wf_evict_oldest: "wf_map m \<Longrightarrow> wf_map (evict_oldest m now)"
  by (simp add: evict_oldest_def wf_drop_oldest)

lemma drop_oldest_drops_oldest:
  assumes "wf_map m" and "[] \<notin> set (mkeys m)"
    and "(k, e) \<in> set m - set (drop_oldest m)" and "(l, f) \<in> set (drop_oldest m)"
  shows "st_last_used e \<le> st_last_used f"
  using assms
proof (induction m rule: drop_oldest.induct)
  case (1 m)
  let ?k = "oldest_key m"
  show ?case
  proof (cases "max_entries_per_shard \<le> length m \<and> ?k \<noteq> [] \<and> ?k \<in> set (mkeys m)")
    case True
    then have "m \<noteq> []" by auto
    from oldest_key_props [OF this "1.prems"(2)] obtain g where
      g: "(?k, g) \<in> set m" "\<forall>(k, f) \<in> set m. st_last_used g \<le> st_last_used f" by auto
    have d: "drop_oldest m = drop_oldest (mdel ?k m)" using True by (subst drop_oldest.simps) simp
    have f: "(l, f) \<in> set (drop_oldest (mdel ?k m))" using "1.prems"(4) d by simp
    then have "(l, f) \<in> set m"
      using drop_oldest_subset [of "mdel ?k m"] by (auto simp: AList.delete_eq)
    show ?thesis
    proof (cases "k = ?k")
      case True
      then have "e = g"
        using g(1) "1.prems"(1, 3) by (metis DiffD1 mget_in_set option.inject)
      with g(2) \<open>(l, f) \<in> set m\<close> show ?thesis by auto
    next
      case False
      then have "(k, e) \<in> set (mdel ?k m) - set (drop_oldest (mdel ?k m))"
        using "1.prems"(3) d by (auto simp: AList.delete_eq)
      with "1.prems"(1, 2) f show ?thesis by (intro "1.IH" [OF True]) auto
    qed
  next
    case False
    then have "drop_oldest m = m" by (subst drop_oldest.simps) auto
    with "1.prems"(3) show ?thesis by simp
  qed
qed

text \<open>The store as it ever is: sharded by the hash, no shard over the cap, no empty key.\<close>

definition sticky_ok :: "sticky_store \<Rightarrow> bool" where
  "sticky_ok s \<longleftrightarrow> sh_ok sticky_index num_sticky_shards s
     \<and> (\<forall>m \<in> set s. length m \<le> max_entries_per_shard \<and> [] \<notin> set (mkeys m))"

lemma sticky_okD: "sticky_ok s \<Longrightarrow> sh_ok sticky_index num_sticky_shards s"
  by (simp add: sticky_ok_def)

lemma sticky_shard:
  assumes "sticky_ok s"
  shows "s ! sticky_index k \<in> set s" "wf_map (s ! sticky_index k)"
    "length (s ! sticky_index k) \<le> max_entries_per_shard" "[] \<notin> set (mkeys (s ! sticky_index k))"
proof -
  show m: "s ! sticky_index k \<in> set s"
    using assms sticky.idx_less [of k] by (auto simp: sticky_ok_def sh_ok_def)
  then show "length (s ! sticky_index k) \<le> max_entries_per_shard" "[] \<notin> set (mkeys (s ! sticky_index k))"
    using assms by (auto simp: sticky_ok_def)
  show "wf_map (s ! sticky_index k)"
    using assms by (intro sticky.sh_ok_shard sticky_okD)
qed

lemma sticky_ok_update:
  assumes "sticky_ok s" and "wf_map m" and "set (mkeys m) \<subseteq> insert k (set (mkeys (s ! sticky_index k)))"
    and "k \<noteq> []" and "length m \<le> max_entries_per_shard"
  shows "sticky_ok (s[sticky_index k := m])"
proof -
  have "\<forall>l \<in> set (mkeys m). sticky_index l = sticky_index k"
    using assms(3) sticky.shard_keys [OF sticky_okD [OF assms(1)], of _ k] by blast
  then have "sh_ok sticky_index num_sticky_shards (s[sticky_index k := m])"
    by (intro sticky.sh_ok_update sticky_okD assms)
  moreover have "[] \<notin> set (mkeys m)"
    using assms(3, 4) sticky_shard(4) [OF assms(1), of k] by auto
  ultimately show ?thesis
    using assms(1, 5) set_update_subset_insert [of s "sticky_index k" m]
    by (fastforce simp: sticky_ok_def)
qed

definition sticky_evicted :: "string \<Rightarrow> sticky_store \<Rightarrow> gotime \<Rightarrow> sticky_shard" where
  "sticky_evicted key s now =
     (let m = s ! sticky_index key in
      if mget m key = None \<and> max_entries_per_shard \<le> length m then evict_oldest m now else m)"

lemma sticky_set_alt:
  "sticky_set key a s now = s[sticky_index key :=
     mput key \<lparr>st_auth_id = a, st_last_used = now\<rparr> (sticky_evicted key s now)]"
  by (auto simp: sticky_set_def sticky_evicted_def Let_def)

lemma sticky_evicted_subset: "set (sticky_evicted key s now) \<subseteq> set (s ! sticky_index key)"
  using evict_oldest_subset by (simp add: sticky_evicted_def Let_def)

lemma sticky_ok_set:
  assumes "sticky_ok s" and "key \<noteq> []"
  shows "sticky_ok (sticky_set key a s now)"
  unfolding sticky_set_alt
proof (rule sticky_ok_update [OF assms(1)])
  let ?m = "s ! sticky_index key" and ?v = "sticky_evicted key s now"
  show "wf_map (mput key \<lparr>st_auth_id = a, st_last_used = now\<rparr> ?v)"
    using sticky_shard(2) [OF assms(1), of key]
    by (simp add: sticky_evicted_def Let_def wf_evict_oldest)
  show "set (mkeys (mput key \<lparr>st_auth_id = a, st_last_used = now\<rparr> ?v)) \<subseteq> insert key (set (mkeys ?m))"
    using sticky_evicted_subset [of key s now] by auto
  show "length (mput key \<lparr>st_auth_id = a, st_last_used = now\<rparr> ?v) \<le> max_entries_per_shard"
    using sticky_shard(3, 4) [OF assms(1), of key] evict_oldest_length [of ?m now]
    by (auto simp: sticky_evicted_def Let_def length_mput map_of_eq_None_iff)
qed (rule assms(2))

lemma sticky_ok_get: "sticky_ok s \<Longrightarrow> sticky_ok (snd (sticky_get key s now))"
proof (cases "sh_get sticky_index s key")
  case (Some e)
  assume s: "sticky_ok s"
  let ?m = "s ! sticky_index key"
  have k: "key \<in> set (mkeys ?m)"
    using Some by (metis domI dom_map_of_conv_image_fst list.set_map sh_get_def)
  then have "key \<noteq> []" using sticky_shard(4) [OF s, of key] by metis
  with k have "sticky_ok (s[sticky_index key := mput key (e\<lparr>st_last_used := now\<rparr>) ?m])"
    using sticky_shard [OF s, of key] by (intro sticky_ok_update [OF s]) (auto simp: length_mput)
  with Some s show ?thesis by (simp add: sticky_get_def sh_put_def)
qed (simp add: sticky_get_def)

lemma sticky_ok_cleanup: "sticky_ok s \<Longrightarrow> sticky_ok (cleanup_expired s now)"
proof -
  assume s: "sticky_ok s"
  have "length (filter P m) \<le> max_entries_per_shard \<and> [] \<notin> set (mkeys (filter P m))"
    if "m \<in> set s" for m and P :: "string \<times> sticky_entry \<Rightarrow> bool"
  proof -
    have "length m \<le> max_entries_per_shard \<and> [] \<notin> set (mkeys m)"
      using that s by (simp add: sticky_ok_def)
    then show ?thesis using order_trans [OF length_filter_le [of P m], of max_entries_per_shard] by auto
  qed
  then have "\<forall>m \<in> set (cleanup_expired s now).
      length m \<le> max_entries_per_shard \<and> [] \<notin> set (mkeys m)"
    unfolding cleanup_expired_def sh_filter_def by (simp only: List.set_map) blast
  then show ?thesis
    using s unfolding sticky_ok_def cleanup_expired_def by (simp add: sticky.sh_ok_filter)
qed

lemma sticky_ok_new: "sticky_ok new_sticky_store"
  using sticky.sh_ok_empty by (auto simp: sticky_ok_def new_sticky_store_def sh_empty_def)

text \<open>What a lookup sees after a store.\<close>

lemma sh_get_sticky_set:
  assumes "sticky_ok s"
  shows "sh_get sticky_index (sticky_set key a s now) k =
     (if k = key then Some \<lparr>st_auth_id = a, st_last_used = now\<rparr>
      else if sticky_index k = sticky_index key then mget (sticky_evicted key s now) k
      else sh_get sticky_index s k)"
  using assms by (simp add: sticky_set_alt sticky.sh_get_update [OF sticky_okD])

lemma evicted_mget:
  assumes "sticky_ok s"
  shows "mget (sticky_evicted key s now) k \<in> {None, mget (s ! sticky_index key) k}"
proof (cases "mget (sticky_evicted key s now) k")
  case (Some e)
  then have "(k, e) \<in> set (s ! sticky_index key)"
    using sticky_evicted_subset [of key s now] map_of_SomeD [OF Some] by blast
  with Some sticky_shard(2) [OF assms] show ?thesis by (simp add: mget_in_set [symmetric])
qed simp

section \<open>Properties\<close>

text \<open>
  A session sticks. Looking a key up returns the credential stored for it when it was stored
  or last looked up less than a minute ago and nothing otherwise; storing another key changes the
  answer for this one only by evicting it; and no operation takes a shard over its cap.
\<close>

theorem sticky_session:
  assumes "sticky_ok s" and "key \<noteq> []" and "k \<noteq> key"
  shows "let s1 = sticky_set key a s now; found = (\<lambda>l s t. fst (sticky_get l s t)) in
     found key s1 t = (if t - now < sticky_ttl then (a, True) else ([], False))
     \<and> found k s1 t \<in> {found k s t, ([], False)}
     \<and> (t - now < sticky_ttl \<longrightarrow> t' - t < sticky_ttl \<longrightarrow>
          found key (snd (sticky_get key s1 t)) t' = (a, True))
     \<and> sticky_ok s1 \<and> sticky_ok (snd (sticky_get key s1 t)) \<and> sticky_ok (cleanup_expired s1 t)"
proof -
  let ?s1 = "sticky_set key a s now"
  let ?e = "\<lparr>st_auth_id = a, st_last_used = now\<rparr>"
  have ok: "sticky_ok ?s1" by (rule sticky_ok_set [OF assms(1, 2)])
  have g: "sh_get sticky_index ?s1 key = Some ?e"
    by (simp add: sh_get_sticky_set [OF assms(1)])
  have put: "sh_get sticky_index (sh_put sticky_index key v ?s1) = (sh_get sticky_index ?s1)(key \<mapsto> v)" for v
    by (rule sticky.sh_get_put [OF sticky_okD [OF ok]])
  have "sh_get sticky_index ?s1 k \<in> {sh_get sticky_index s k, None}"
    using assms(3) evicted_mget [OF assms(1), of key now k]
      sh_get_sticky_set [OF assms(1), of key a now k]
    by (auto simp: sh_get_def [of _ s])
  then have "fst (sticky_get k ?s1 t) \<in> {fst (sticky_get k s t), ([], False)}"
    by (auto simp: sticky_get_def split: option.splits)
  moreover have "fst (sticky_get key ?s1 t) = (if t - now < sticky_ttl then (a, True) else ([], False))"
    by (auto simp: sticky_get_def g sticky_expired_iff)
  moreover have "fst (sticky_get key (snd (sticky_get key ?s1 t)) t') = (a, True)"
    if "t - now < sticky_ttl" "t' - t < sticky_ttl"
    using that by (simp add: sticky_get_def g put sticky_expired_iff)
  ultimately show ?thesis
    using ok sticky_ok_get [OF ok] sticky_ok_cleanup [OF ok] by (simp add: Let_def)
qed

lemma sticky_session_witness:
  "fst (sticky_get ''p:m'' (sticky_set ''p:m'' ''auth-1'' new_sticky_store 5) 6) = (''auth-1'', True)"
  using sticky_session [OF sticky_ok_new, of "''p:m''" "''q:m''" "''auth-1''" 5 6 6]
  by (simp add: Let_def sticky_ttl_def go_time)

text \<open>
  Making room. Eviction leaves fewer entries than the cap, forgets only what was in the
  shard, keeps nothing expired, and whatever unexpired entry it drops was used no later than every
  entry it keeps.
\<close>

theorem eviction_drops_oldest:
  assumes "wf_map m" and "[] \<notin> set (mkeys m)"
  shows "length (evict_oldest m now) < max_entries_per_shard
     \<and> set (evict_oldest m now) \<subseteq> {(k, e) \<in> set m. \<not> sticky_expired now e}
     \<and> (\<forall>(k, e) \<in> set m - set (evict_oldest m now). \<not> sticky_expired now e \<longrightarrow>
          (\<forall>(l, f) \<in> set (evict_oldest m now). st_last_used e \<le> st_last_used f))"
proof -
  let ?n = "filter (\<lambda>(_, e). \<not> sticky_expired now e) m"
  have n: "wf_map ?n" "[] \<notin> set (mkeys ?n)" using assms by auto
  have "length (drop_oldest ?n) < max_entries_per_shard" by (rule drop_oldest_length [OF n(2)])
  moreover have "set (drop_oldest ?n) \<subseteq> {(k, e) \<in> set m. \<not> sticky_expired now e}"
    using drop_oldest_subset [of ?n] by auto
  moreover have "\<forall>(k, e) \<in> set m - set (drop_oldest ?n). \<not> sticky_expired now e \<longrightarrow>
      (\<forall>(l, f) \<in> set (drop_oldest ?n). st_last_used e \<le> st_last_used f)"
  proof (clarify)
    fix k e l f
    assume "(k, e) \<in> set m" "(k, e) \<notin> set (drop_oldest ?n)" "\<not> sticky_expired now e"
      and f: "(l, f) \<in> set (drop_oldest ?n)"
    then have "(k, e) \<in> set ?n - set (drop_oldest ?n)" by simp
    with drop_oldest_drops_oldest [OF n] f show "st_last_used e \<le> st_last_used f" by blast
  qed
  ultimately show ?thesis unfolding evict_oldest_def by blast
qed

lemma eviction_drops_oldest_witness:
  "evict_oldest [(''k'', \<lparr>st_auth_id = ''a'', st_last_used = 5\<rparr>)] (5 + sticky_ttl) = []"
proof -
  let ?m = "[(''k'', \<lparr>st_auth_id = ''a'', st_last_used = 5\<rparr>)]"
  have "set (evict_oldest ?m (5 + sticky_ttl)) \<subseteq> {(k, e) \<in> set ?m. \<not> sticky_expired (5 + sticky_ttl) e}"
    using eviction_drops_oldest [of ?m "5 + sticky_ttl"] by (simp add: wf_map_def)
  also have "\<dots> = {}" by (simp add: sticky_expired_iff)
  finally show ?thesis by (simp only: subset_empty set_empty)
qed

end
