(* ===== verification/Selector.thy ===== *)
theory Selector
  imports AuthState StickyStore Float64 "HOL-Library.List_Lexorder" "HOL-Library.Char_ord"
    "HOL-Library.Multiset"
begin

text \<open>
  The round-robin selector and the error for a model that is cooling down
  (\<open>internal/provider/selector.go\<close>). \<open>sort.Slice\<close> is a parameter constrained by what its
  documentation promises.
\<close>

section \<open>Errors of a pick\<close>

record model_cooldown =
  mc_model :: string
  mc_reset_in :: duration
  mc_provider :: string

datatype pick_error = PickError prov_error | ModelCooldown model_cooldown

definition new_model_cooldown_error :: "string \<Rightarrow> string \<Rightarrow> duration \<Rightarrow> model_cooldown" where
  "new_model_cooldown_error model provider reset_in =
     \<lparr>mc_model = model, mc_reset_in = (if reset_in < 0 then 0 else reset_in), mc_provider = provider\<rparr>"

text \<open>\<open>Duration.Seconds\<close>: whole seconds plus the fraction, in floating point.\<close>

definition duration_seconds :: "duration \<Rightarrow> rat" where
  "duration_seconds d =
     (let s = go_div d second; ns = d - s * second
      in fadd (ffloat s) (fdiv (ffloat ns) 1000000000))"

definition reset_seconds :: "model_cooldown \<Rightarrow> int" where
  "reset_seconds e =
     (let n = \<lceil>duration_seconds (mc_reset_in e)\<rceil> in if n < 0 then 0 else n)"

text \<open>The message inside the JSON body, and the duration it displays, rounded to a second.\<close>

definition cooldown_message :: "model_cooldown \<Rightarrow> string" where
  "cooldown_message e =
     (let name = (if mc_model e = [] then ''requested model'' else mc_model e);
          msg = ''All credentials for model '' @ name @ '' are cooling down''
      in if mc_provider e \<noteq> [] then msg @ '' via provider '' @ mc_provider e else msg)"

definition display_duration :: "model_cooldown \<Rightarrow> duration" where
  "display_duration e =
     (let d = mc_reset_in e in
      if 0 < d \<and> d < second then second
      else let r = d mod second in if r + r < second then d - r else d + second - r)"

definition cooldown_status_code :: "model_cooldown \<Rightarrow> int" where
  "cooldown_status_code e = 429"

definition cooldown_headers :: "model_cooldown \<Rightarrow> (string, string) gomap" where
  "cooldown_headers e =
     [(''Content-Type'', ''application/json''), (''Retry-After'', show_int (reset_seconds e))]"

section \<open>Scanning the candidates\<close>

definition earlier :: "gotime \<Rightarrow> gotime \<Rightarrow> gotime" where
  "earlier best t = (if best = 0 \<or> t < best then t else best)"

text \<open>The available candidates in order, and when the first blocked one comes back.\<close>

fun rr_scan :: "resolvers \<Rightarrow> auth option list \<Rightarrow> string \<Rightarrow> gotime \<Rightarrow> auth list \<times> gotime" where
  "rr_scan rs [] model now = ([], 0)"
| "rr_scan rs (c # cs) model now =
     (let ((blocked, reason, next), c') = is_auth_blocked_for_model rs c model now;
          (available, earliest) = rr_scan rs cs model now
      in if \<not> blocked then (the c' # available, earliest)
         else if (reason = blockReasonCooldown \<or> reason = blockReasonOther) \<and> next \<noteq> 0
         then (available, earlier earliest next)
         else (available, earliest))"

definition available_auths :: "resolvers \<Rightarrow> auth option list \<Rightarrow> string \<Rightarrow> gotime \<Rightarrow> auth list" where
  "available_auths rs cs model now = fst (rr_scan rs cs model now)"

text \<open>What a pick answers when no candidate is available.\<close>

definition none_available :: "string \<Rightarrow> string \<Rightarrow> gotime \<Rightarrow> gotime \<Rightarrow> pick_error" where
  "none_available model provider earliest now =
     (if earliest \<noteq> 0 then
        (let r = time_sub earliest now
         in ModelCooldown (new_model_cooldown_error model provider (if r < 0 then 0 else r)))
      else PickError (mk_error ''auth_unavailable'' ''no auth available''))"

section \<open>The selector\<close>

record round_robin =
  rr_cursors :: "(string, int) gomap"
  rr_sticky :: "sticky_store option"

definition round_robin_zero :: round_robin where
  "round_robin_zero = \<lparr>rr_cursors = [], rr_sticky = None\<rparr>"

definition rr_start :: "round_robin \<Rightarrow> round_robin" where
  "rr_start s = s\<lparr>rr_sticky := Some (case rr_sticky s of None \<Rightarrow> new_sticky_store | Some st \<Rightarrow> st)\<rparr>"

definition rr_key :: "string \<Rightarrow> string \<Rightarrow> string" where
  "rr_key provider model = provider @ '':'' @ model"

definition cursor :: "round_robin \<Rightarrow> string \<Rightarrow> int" where
  "cursor s key = (case mget (rr_cursors s) key of None \<Rightarrow> 0 | Some i \<Rightarrow> i)"

definition rr_rotate :: "string \<Rightarrow> auth list \<Rightarrow> round_robin \<Rightarrow> gotime \<Rightarrow> auth \<times> round_robin" where
  "rr_rotate key available s now =
     (let index = (if 1000000000 \<le> cursor s key \<or> cursor s key < 0 then 0 else cursor s key);
          selected = available ! (nat index mod length available)
      in (selected, s\<lparr>rr_cursors := mput key (index + 1) (rr_cursors s),
            rr_sticky := map_option (\<lambda>st. sticky_set key (a_id selected) st now) (rr_sticky s)\<rparr>))"

text \<open>The session's credential when it is still available, the next in turn otherwise.\<close>

definition rr_choose :: "string \<Rightarrow> bool \<Rightarrow> auth list \<Rightarrow> round_robin \<Rightarrow> gotime \<Rightarrow> auth \<times> round_robin" where
  "rr_choose key force_rotate available s now =
     (let ((sid, hit), st) = (if force_rotate then (([], False), the (rr_sticky s))
                              else sticky_get key (the (rr_sticky s)) now);
          s2 = s\<lparr>rr_sticky := Some st\<rparr>
      in case (if hit then find (\<lambda>a. a_id a = sid) available else None) of
           Some a \<Rightarrow> (a, s2)
         | None \<Rightarrow> rr_rotate key available s2 now)"

definition rr_pick ::
    "resolvers \<Rightarrow> (auth list \<Rightarrow> auth list) \<Rightarrow> string \<Rightarrow> string \<Rightarrow> bool \<Rightarrow> auth option list \<Rightarrow> round_robin
       \<Rightarrow> gotime \<Rightarrow> (pick_error + auth) \<times> round_robin" where
  "rr_pick rs srt provider model force_rotate auths s now =
     (if auths = [] then (Inl (PickError (mk_error ''auth_not_found'' ''no auth candidates'')), s)
      else
        let s1 = rr_start s;
            (found, earliest) = rr_scan rs auths model now;
            available = (if 1 < length found then srt found else found)
        in if available = [] then (Inl (none_available model provider earliest now), s1)
        else let (a, s2) = rr_choose (rr_key provider model) force_rotate available s1 now
             in (Inr a, s2))"

text \<open>A sequence of calls for one provider and model.\<close>

fun rr_run ::
    "resolvers \<Rightarrow> (auth list \<Rightarrow> auth list) \<Rightarrow> string \<Rightarrow> string \<Rightarrow> bool \<Rightarrow> (auth option list \<times> gotime) list
       \<Rightarrow> round_robin \<Rightarrow> (pick_error + auth) list" where
  "rr_run rs srt provider model fr [] s = []"
| "rr_run rs srt provider model fr ((cs, now) # calls) s =
     (let (res, s') = rr_pick rs srt provider model fr cs s now
      in res # rr_run rs srt provider model fr calls s')"

section \<open>Lemmas\<close>

text \<open>\<open>sort.Slice\<close> by identifier: the same credentials in ascending order.\<close>

definition id_sort_ok :: "(auth list \<Rightarrow> auth list) \<Rightarrow> bool" where
  "id_sort_ok srt \<longleftrightarrow> (\<forall>xs. mset (srt xs) = mset xs \<and> sorted (List.map a_id (srt xs)))"

lemma id_sort_length: "id_sort_ok srt \<Longrightarrow> length (srt xs) = length xs"
  unfolding id_sort_ok_def by (metis size_mset)

text \<open>With different identifiers there is only one such order, whatever order they came in.\<close>

lemma id_sort_unique:
  assumes "id_sort_ok srt" "mset xs = mset ys" "distinct (List.map a_id ys)"
  shows "srt xs = srt ys"
proof (rule map_sorted_distinct_set_unique [of a_id])
  have m: "mset (srt xs) = mset ys" "mset (srt ys) = mset ys"
    using assms by (simp_all add: id_sort_ok_def)
  then have s: "set (srt xs) = set ys" "set (srt ys) = set ys" by (metis set_mset_mset)+
  show "inj_on a_id (set (srt xs) \<union> set (srt ys))"
    using assms(3) s by (simp add: distinct_map)
  show "sorted (List.map a_id (srt xs))" "sorted (List.map a_id (srt ys))"
    using assms(1) by (simp_all add: id_sort_ok_def)
  show "distinct (List.map a_id (srt xs))" "distinct (List.map a_id (srt ys))"
    using m assms(3) by (metis mset_eq_imp_distinct_iff mset_map)+
  show "set (srt xs) = set (srt ys)" using s by simp
qed

lemma rr_rotate_sel:
  "fst (rr_rotate key av s now) =
     av ! (nat (if 1000000000 \<le> cursor s key \<or> cursor s key < 0 then 0 else cursor s key) mod length av)"
  by (simp add: rr_rotate_def Let_def)

lemma cursor_rotate:
  "cursor (snd (rr_rotate key av s now)) key =
     (if 1000000000 \<le> cursor s key \<or> cursor s key < 0 then 0 else cursor s key) + 1"
  by (simp add: rr_rotate_def Let_def cursor_def)

lemma cursor_frame [simp, frame]: "cursor (s\<lparr>rr_sticky := st\<rparr>) key = cursor s key"
  "cursor (rr_start s) key = cursor s key"
  by (simp_all add: cursor_def rr_start_def)

lemma rr_choose_forced:
  "rr_choose key True av s now = rr_rotate key av (s\<lparr>rr_sticky := Some (the (rr_sticky s))\<rparr>) now"
  by (simp add: rr_choose_def)

lemma rr_pick_forced:
  assumes "found = fst (rr_scan rs cs model now)" "found \<noteq> []"
    and "av = (if 1 < length found then srt found else found)" "av \<noteq> []"
  shows "rr_pick rs srt provider model True cs s now =
     apfst Inr (rr_rotate (rr_key provider model) av (rr_start s) now)"
proof -
  have "cs \<noteq> []" using assms by auto
  moreover obtain e where "rr_scan rs cs model now = (found, e)" using assms by (metis prod.collapse)
  moreover have "(rr_start s)\<lparr>rr_sticky := Some (the (rr_sticky (rr_start s)))\<rparr> = rr_start s"
    by (simp add: rr_start_def)
  ultimately show ?thesis
    using assms(4) unfolding assms(3)
    by (auto simp: rr_pick_def rr_choose_forced Let_def case_prod_unfold prod_eq_iff)
qed


lemma rotated: "length S = n \<Longrightarrow> List.map (\<lambda>i. S ! ((c + i) mod n)) [0..<n] = rotate c S"
  by (intro nth_equalityI) (simp_all add: nth_rotate)

lemma mset_rotate_same: "mset (rotate c S) = mset S"
proof -
  have "mset (drop k S @ take k S) = mset S" for k
    using append_take_drop_id [of k S] by (metis mset_append add.commute)
  then show ?thesis by (simp add: rotate_drop_take)
qed

lemma rr_run_forced:
  assumes srt: "id_sort_ok srt" and ids: "distinct (List.map a_id av)" "av \<noteq> []"
    and c: "0 \<le> cursor s (rr_key provider model)"
      "cursor s (rr_key provider model) + int (length calls) \<le> 1000000000"
    and same: "list_all (\<lambda>(cs, t). mset (available_auths rs cs model t) = mset av) calls"
  shows "rr_run rs srt provider model True calls s =
     List.map (\<lambda>i. Inr (srt av ! ((nat (cursor s (rr_key provider model)) + i) mod length av)))
       [0..<length calls]"
  using c same
proof (induction calls arbitrary: s)
  case (Cons call calls)
  let ?k = "rr_key provider model"
  obtain cs t where call: "call = (cs, t)" by (cases call)
  let ?f = "fst (rr_scan rs cs model t)"
  let ?c = "cursor s ?k"
  have m: "mset ?f = mset av" using Cons.prems(3) by (simp add: call available_auths_def)
  then have ne: "?f \<noteq> []" using ids(2) by auto
  have S: "(if 1 < length ?f then srt ?f else ?f) = srt av"
  proof (cases "1 < length ?f")
    case True
    then show ?thesis using id_sort_unique [OF srt m ids(1)] by simp
  next
    case False
    then obtain x where x: "?f = [x]" using ne by (cases ?f) auto
    moreover have "mset (srt av) = {#x#}" using m x srt by (simp add: id_sort_ok_def)
    ultimately show ?thesis by (simp add: mset_single_iff)
  qed
  have ne': "srt av \<noteq> []" using id_sort_length [OF srt, of av] ids(2) by auto
  have nn: "?c < 1000000000" "0 \<le> ?c" using Cons.prems(1, 2) by auto
  let ?s = "snd (rr_rotate ?k (srt av) (rr_start s) t)"
  have p: "rr_pick rs srt provider model True cs s t = (Inr (srt av ! (nat ?c mod length av)), ?s)"
    using rr_pick_forced [where srt = srt and av = "srt av", OF refl ne S [symmetric] ne'] nn id_sort_length [OF srt, of av]
    by (simp add: prod_eq_iff rr_rotate_sel)
  have c': "cursor ?s ?k = ?c + 1" using nn by (simp add: cursor_rotate)
  have "rr_run rs srt provider model True calls ?s =
     List.map (\<lambda>i. Inr (srt av ! ((nat (cursor ?s ?k) + i) mod length av))) [0..<length calls]"
    using Cons.prems c' by (intro Cons.IH) auto
  moreover have "nat (?c + 1) = Suc (nat ?c)" using nn by simp
  ultimately show ?case
    by (simp add: call p c' upt_conv_Cons map_Suc_upt [symmetric] del: upt_Suc)
qed simp

text \<open>After a pick that succeeded, the key is bound to the credential handed out.\<close>

definition rr_ok :: "round_robin \<Rightarrow> bool" where
  "rr_ok s \<longleftrightarrow> (case rr_sticky s of None \<Rightarrow> True | Some st \<Rightarrow> sticky_ok st)"

lemma rr_start_sticky:
  assumes "rr_ok s"
  obtains st where "rr_sticky (rr_start s) = Some st" "sticky_ok st"
  using assms sticky_ok_new by (cases "rr_sticky s") (auto simp: rr_ok_def rr_start_def)

lemma sticky_get_hit:
  "fst (sticky_get key st now) = (sid, True) \<Longrightarrow>
     snd (sticky_get key st now) = sh_put sticky_index key \<lparr>st_auth_id = sid, st_last_used = now\<rparr> st"
  by (cases "sh_get sticky_index st key"; cases "the (sh_get sticky_index st key)")
    (auto simp: sticky_get_def split: if_splits)

lemma rr_pick_binds:
  assumes "rr_ok s" "rr_pick rs srt provider model fr cs s now = (Inr a, s')"
  shows "\<exists>st. rr_sticky s' = Some st
     \<and> sh_get sticky_index st (rr_key provider model) = Some \<lparr>st_auth_id = a_id a, st_last_used = now\<rparr>"
proof -
  let ?k = "rr_key provider model"
  obtain st0 where st0: "rr_sticky (rr_start s) = Some st0" "sticky_ok st0"
    using rr_start_sticky [OF assms(1)] .
  obtain found e where sc: "rr_scan rs cs model now = (found, e)" by (metis prod.exhaust)
  let ?av = "if 1 < length found then srt found else found"
  let ?g = "if fr then (([], False), st0) else sticky_get ?k st0 now"
  obtain sid hit st where g: "?g = ((sid, hit), st)" by (metis prod.exhaust)
  have ok: "sticky_ok st"
    using g st0(2) sticky_ok_get [OF st0(2), of ?k now] by (cases fr) auto
  have cs: "cs \<noteq> []" using assms(2) by (auto simp: rr_pick_def)
  have ne: "?av \<noteq> []"
  proof
    assume "?av = []"
    then have "fst (rr_pick rs srt provider model fr cs s now) = Inl (none_available model provider e now)"
      using cs sc unfolding rr_pick_def by (simp only: if_False Let_def prod.case) simp
    with assms(2) show False by simp
  qed
  have eq: "rr_choose ?k fr ?av (rr_start s) now =
      (case (if hit then find (\<lambda>a. a_id a = sid) ?av else None) of
         Some a \<Rightarrow> (a, (rr_start s)\<lparr>rr_sticky := Some st\<rparr>)
       | None \<Rightarrow> rr_rotate ?k ?av ((rr_start s)\<lparr>rr_sticky := Some st\<rparr>) now)"
    unfolding rr_choose_def st0(1) option.sel g Let_def prod.case by (rule refl)
  have ch: "rr_choose ?k fr ?av (rr_start s) now = (a, s')"
    using assms(2) ne cs unfolding rr_pick_def sc Let_def prod.case
    by (simp only: if_False split: prod.splits) simp
  show ?thesis
  proof (cases "if hit then find (\<lambda>a. a_id a = sid) ?av else None")
    case None
    then show ?thesis
      using ch eq sh_get_sticky_set [OF ok] by (auto simp: rr_rotate_def Let_def)
  next
    case (Some b)
    then have "hit" "\<not> fr" using g by (auto split: if_splits)
    then have "fst (sticky_get ?k st0 now) = (sid, True)" "st = snd (sticky_get ?k st0 now)"
      using g by auto
    from sticky_get_hit [OF this(1)] this(2)
    have "st = sh_put sticky_index ?k \<lparr>st_auth_id = sid, st_last_used = now\<rparr> st0" by simp
    moreover have "a_id b = sid" using Some by (auto split: if_splits simp: find_Some_iff)
    moreover have "a = b" "rr_sticky s' = Some st" using ch eq Some by auto
    ultimately show ?thesis by (simp add: sticky.sh_get_put [OF sticky_okD [OF st0(2)]])
  qed
qed

section \<open>Properties\<close>

text \<open>
  The rotation is fair. When the same credentials are available to as many consecutive forced
  rotations as there are credentials, in whatever order the manager lists them each time, every
  credential is handed out exactly once.
\<close>

theorem rotation_fair:
  assumes "id_sort_ok srt" and "distinct (List.map a_id av)" and "av \<noteq> []"
    and "length calls = length av"
    and "0 \<le> cursor s (rr_key provider model)"
    and "cursor s (rr_key provider model) + int (length calls) \<le> 1000000000"
    and "list_all (\<lambda>(cs, t). mset (available_auths rs cs model t) = mset av) calls"
  shows "mset (rr_run rs srt provider model True calls s) = image_mset Inr (mset av)"
proof -
  let ?S = "srt av" and ?c = "nat (cursor s (rr_key provider model))"
  have l: "length ?S = length av" by (rule id_sort_length [OF assms(1)])
  have "rr_run rs srt provider model True calls s
      = List.map Inr (List.map (\<lambda>i. ?S ! ((?c + i) mod length av)) [0..<length av])"
    using rr_run_forced [OF assms(1, 2, 3, 5, 6, 7)] assms(4) by simp
  also have "\<dots> = List.map Inr (rotate ?c ?S)" by (simp only: rotated [OF l])
  finally show ?thesis
    using assms(1) by (simp add: mset_rotate_same id_sort_ok_def)
qed

lemma id_sort_ok_sort_key: "id_sort_ok (sort_key a_id)"
  by (simp add: id_sort_ok_def)

lemma rotation_fair_witness:
  "let a = auth_zero\<lparr>a_id := ''a''\<rparr>; b = auth_zero\<lparr>a_id := ''b''\<rparr>
   in mset (rr_run [] (sort_key a_id) ''p'' ''m'' True
        [([Some b, Some a], 7), ([Some a, Some b], 8)] round_robin_zero) = {#Inr a, Inr b#}"
  using rotation_fair [of "sort_key a_id" "[auth_zero\<lparr>a_id := ''a''\<rparr>, auth_zero\<lparr>a_id := ''b''\<rparr>]"
      "[([Some (auth_zero\<lparr>a_id := ''b''\<rparr>), Some (auth_zero\<lparr>a_id := ''a''\<rparr>)], 7),
        ([Some (auth_zero\<lparr>a_id := ''a''\<rparr>), Some (auth_zero\<lparr>a_id := ''b''\<rparr>)], 8)]"
      round_robin_zero "''p''" "''m''" "[]"]
  by (simp add: id_sort_ok_sort_key Let_def available_auths_def auth_zero_def cursor_def
      round_robin_zero_def is_auth_blocked_for_model_def add_mset_commute)


text \<open>
  A conversation stays on its credential. A pick less than a minute after a successful pick
  for the same provider and model, with rotation not forced and a credential of that identifier
  still available, hands out the same credential again, whatever the cursor says.
\<close>

theorem pick_again_within_minute:
  assumes "rr_ok s" and "rr_pick rs srt provider model fr cs s now = (Inr a, s')"
    and "id_sort_ok srt" and "t - now < sticky_ttl"
    and "a_id a \<in> set (List.map a_id (available_auths rs cs' model t))"
  shows "case fst (rr_pick rs srt provider model False cs' s' t) of
      Inl _ \<Rightarrow> False | Inr b \<Rightarrow> a_id b = a_id a"
proof -
  let ?k = "rr_key provider model"
  obtain st where st: "rr_sticky s' = Some st"
      "sh_get sticky_index st ?k = Some \<lparr>st_auth_id = a_id a, st_last_used = now\<rparr>"
    using rr_pick_binds [OF assms(1, 2)] by blast
  obtain found e where sc: "rr_scan rs cs' model t = (found, e)" by (metis prod.exhaust)
  let ?av = "if 1 < length found then srt found else found"
  have "set ?av = set found"
    using assms(3) unfolding id_sort_ok_def by (metis set_mset_mset)
  with assms(5) sc obtain b where b: "b \<in> set ?av" "a_id b = a_id a"
    by (auto simp: available_auths_def)
  then have "find (\<lambda>x. a_id x = a_id a) ?av \<noteq> None" by (auto simp: find_None_iff)
  then obtain c where c: "find (\<lambda>x. a_id x = a_id a) ?av = Some c" by blast
  have g: "sticky_get ?k st t =
      ((a_id a, True), sh_put sticky_index ?k \<lparr>st_auth_id = a_id a, st_last_used = t\<rparr> st)"
    using assms(4) by (simp add: sticky_get_def st(2) sticky_expired_iff)
  have "cs' \<noteq> []" "?av \<noteq> []" using sc b(1) by auto
  moreover have "rr_sticky (rr_start s') = Some st" by (simp add: rr_start_def st(1))
  moreover have "a_id c = a_id a" using c by (auto simp: find_Some_iff)
  ultimately show ?thesis using sc g c by (simp add: rr_pick_def rr_choose_def Let_def)
qed

lemma pick_again_within_minute_witness:
  "let cs = [Some (auth_zero\<lparr>a_id := ''a''\<rparr>)];
       s = snd (rr_pick [] (sort_key a_id) ''p'' ''m'' True cs round_robin_zero 7)
   in case fst (rr_pick [] (sort_key a_id) ''p'' ''m'' False cs s 8) of
        Inl _ \<Rightarrow> False | Inr b \<Rightarrow> a_id b = ''a''"
proof -
  let ?a = "auth_zero\<lparr>a_id := ''a''\<rparr>"
  let ?p = "rr_pick [] (sort_key a_id) ''p'' ''m'' True [Some ?a] round_robin_zero 7"
  have id: "a_id ?a = ''a''" by simp
  have av: "rr_scan [] [Some ?a] ''m'' t = ([?a], 0)" for t
    by (simp add: is_auth_blocked_for_model_def auth_zero_def)
  have "fst ?p = Inr ?a"
    by (simp add: rr_pick_def av rr_choose_forced rr_rotate_def case_prod_unfold Let_def del: rr_scan.simps)
  then have p: "?p = (Inr ?a, snd ?p)" by (simp add: prod_eq_iff)
  have "rr_ok round_robin_zero" by (simp add: rr_ok_def round_robin_zero_def)
  from pick_again_within_minute [OF this p id_sort_ok_sort_key, of 8 "[Some ?a]", unfolded id]
  show ?thesis
    by (simp add: available_auths_def av sticky_ttl_def go_time Let_def id del: rr_scan.simps)
qed

end
