(* ===== verification/ProviderStats.thy ===== *)
theory ProviderStats
  imports Sharding Float64 "HOL-Library.Multiset"
begin

text \<open>
  Success statistics of the providers (\<open>internal/provider/provider_stats.go\<close>): a sharded map from
  provider and model to counters, a score in floating point, and the order it induces on the
  providers of a request.
\<close>

section \<open>Operations\<close>

definition num_stat_shards :: nat where "num_stat_shards = 32"

record provider_metrics =
  pm_success_count :: int
  pm_failure_count :: int
  pm_total_latency_ns :: int
  pm_last_used :: int
  pm_last_success :: int

type_synonym provider_stats = "provider_metrics shards"

definition metrics_zero :: provider_metrics where
  "metrics_zero = \<lparr>pm_success_count = 0, pm_failure_count = 0, pm_total_latency_ns = 0,
     pm_last_used = 0, pm_last_success = 0\<rparr>"

definition shard_idx :: "string \<Rightarrow> nat" where
  "shard_idx key = unat (fnv32a key) mod num_stat_shards"

definition new_provider_stats :: provider_stats where
  "new_provider_stats = sh_empty num_stat_shards"

definition stats_key :: "string \<Rightarrow> string \<Rightarrow> string" where
  "stats_key provider model = provider @ '':'' @ model"

text \<open>The metrics of a key, fresh ones when there are none; the caller writes through the pointer.\<close>

definition stats_get_or_create :: "provider_stats \<Rightarrow> string \<Rightarrow> provider_metrics" where
  "stats_get_or_create ps key =
     (case sh_get shard_idx ps key of None \<Rightarrow> metrics_zero | Some m \<Rightarrow> m)"

definition record_success ::
    "string \<Rightarrow> string \<Rightarrow> duration \<Rightarrow> provider_stats \<Rightarrow> gotime \<Rightarrow> provider_stats" where
  "record_success provider model latency ps now =
     (let key = stats_key provider model; m = stats_get_or_create ps key in
      sh_put shard_idx key
        (m\<lparr>pm_success_count := wrap64 (pm_success_count m + 1),
           pm_total_latency_ns := wrap64 (pm_total_latency_ns m + latency),
           pm_last_used := unix_nano now, pm_last_success := unix_nano now\<rparr>) ps)"

definition record_failure :: "string \<Rightarrow> string \<Rightarrow> provider_stats \<Rightarrow> gotime \<Rightarrow> provider_stats" where
  "record_failure provider model ps now =
     (let key = stats_key provider model; m = stats_get_or_create ps key in
      sh_put shard_idx key
        (m\<lparr>pm_failure_count := wrap64 (pm_failure_count m + 1), pm_last_used := unix_nano now\<rparr>) ps)"

definition f_half :: rat where "f_half = 1 / 2"
definition f_tenth :: rat where "f_tenth = fl (1 / 10)"
definition f_nine_tenths :: rat where "f_nine_tenths = fl (9 / 10)"
definition recency_window :: duration where "recency_window = 5 * minute"

definition recency_bonus :: "int \<Rightarrow> gotime \<Rightarrow> rat" where
  "recency_bonus last_success now =
     (if 0 < last_success then
        (let elapsed = time_sub now (time_unix last_success) in
         if elapsed < recency_window
         then fmul f_tenth (fsub 1 (fdiv (ffloat elapsed) (of_int recency_window))) else 0)
      else 0)"

definition metrics_score :: "provider_metrics \<Rightarrow> gotime \<Rightarrow> rat" where
  "metrics_score m now =
     (let total = wrap64 (pm_success_count m + pm_failure_count m) in
      if total = 0 then f_half
      else fadd (fmul (fdiv (ffloat (pm_success_count m)) (ffloat total)) f_nine_tenths)
             (recency_bonus (pm_last_success m) now))"

definition get_score :: "provider_stats \<Rightarrow> string \<Rightarrow> string \<Rightarrow> gotime \<Rightarrow> rat" where
  "get_score ps provider model now =
     (case sh_get shard_idx ps (stats_key provider model) of
        None \<Rightarrow> f_half | Some m \<Rightarrow> metrics_score m now)"

definition get_avg_latency :: "provider_stats \<Rightarrow> string \<Rightarrow> string \<Rightarrow> duration" where
  "get_avg_latency ps provider model =
     (case sh_get shard_idx ps (stats_key provider model) of
        None \<Rightarrow> 0
      | Some m \<Rightarrow> if pm_success_count m = 0 then 0
                  else wrap64 (go_div (pm_total_latency_ns m) (pm_success_count m)))"

text \<open>The inner loop of the insertion sort: an item moves left past those scored strictly less.\<close>

fun sift_left :: "nat \<Rightarrow> (string \<times> rat) list \<Rightarrow> (string \<times> rat) list" where
  "sift_left 0 items = items"
| "sift_left (Suc j) items =
     (if snd (items ! j) < snd (items ! Suc j)
      then sift_left j (items[Suc j := items ! j, j := items ! Suc j]) else items)"

definition insertion_sort :: "(string \<times> rat) list \<Rightarrow> (string \<times> rat) list" where
  "insertion_sort items = fold sift_left [1..<length items] items"

definition sort_by_score :: "provider_stats \<Rightarrow> string list \<Rightarrow> string \<Rightarrow> gotime \<Rightarrow> string list" where
  "sort_by_score ps providers model now =
     (if length providers \<le> 1 then providers
      else let items = List.map (\<lambda>p. (p, get_score ps p model now)) providers in
        if list_all (\<lambda>(_, s). s = f_half) items then providers
        else List.map fst (insertion_sort items))"

definition stats_cleanup :: "duration \<Rightarrow> provider_stats \<Rightarrow> gotime \<Rightarrow> provider_stats \<times> nat" where
  "stats_cleanup max_age ps now =
     (let cutoff = unix_nano (now - max_age);
          ps' = sh_filter (\<lambda>(_, m). \<not> pm_last_used m < cutoff) ps
      in (ps', sh_count ps - sh_count ps'))"

record stats_line =
  sl_success :: int
  sl_failure :: int
  sl_avg_lat_ms :: int

definition stats_report :: "provider_stats \<Rightarrow> (string, stats_line) gomap" where
  "stats_report ps = mmap (\<lambda>_ m.
     \<lparr>sl_success = pm_success_count m, sl_failure = pm_failure_count m,
      sl_avg_lat_ms = go_div (go_div (pm_total_latency_ns m) (max (pm_success_count m) 1)) 1000000\<rparr>)
     (sh_entries ps)"

section \<open>The sort\<close>

text \<open>On a list split at the item, with the part before it reversed.\<close>

fun sift_rev :: "(string \<times> rat) \<Rightarrow> (string \<times> rat) list \<Rightarrow> (string \<times> rat) list" where
  "sift_rev x [] = [x]"
| "sift_rev x (y # ys) = (if snd y < snd x then y # sift_rev x ys else x # y # ys)"

lemma sift_left_rev: "sift_left (length ys) (rev ys @ x # r) = rev (sift_rev x ys) @ r"
proof (induction ys arbitrary: x r)
  case (Cons y ys)
  let ?l = "rev ys @ y # x # r"
  have "?l ! length ys = y" "?l ! Suc (length ys) = x"
    by (simp_all add: nth_append)
  moreover have "?l[Suc (length ys) := y, length ys := x] = rev ys @ x # y # r"
    by (simp add: list_update_append)
  ultimately show ?case using Cons.IH [of x "y # r"] by simp
qed simp

abbreviation descending :: "(string \<times> rat) list \<Rightarrow> bool" where
  "descending \<equiv> sorted_wrt (\<lambda>x y. snd y \<le> snd x)"

lemma set_sift_rev [simp]: "set (sift_rev x ys) = insert x (set ys)"
  by (induction ys) auto

lemma mset_sift_rev [simp]: "mset (sift_rev x ys) = add_mset x (mset ys)"
  by (induction ys) auto

lemma sift_rev_sorted:
  "sorted_wrt (\<lambda>x y. snd x \<le> snd y) ys \<Longrightarrow> sorted_wrt (\<lambda>x y. snd x \<le> snd y) (sift_rev x ys)"
  by (induction ys) (auto intro: order_trans)

lemma sift_rev_filter:
  "sorted_wrt (\<lambda>x y. snd x \<le> snd y) ys \<Longrightarrow>
     filter (\<lambda>z. snd z = k) (sift_rev x ys) = filter (\<lambda>z. snd z = k) (x # ys)"
proof (induction ys)
  case (Cons y ys)
  then show ?case by (cases "snd y < snd x") auto
qed simp

lemma insertion_prefix:
  assumes "i \<le> length items" "1 \<le> i"
  shows "\<exists>ys. fold sift_left [1..<i] items = rev ys @ drop i items
     \<and> mset ys = mset (take i items) \<and> sorted_wrt (\<lambda>x y. snd x \<le> snd y) ys
     \<and> (\<forall>k. filter (\<lambda>z. snd z = k) (rev ys) = filter (\<lambda>z. snd z = k) (take i items))"
  using assms(2, 1)
proof (induction i rule: dec_induct)
  case base
  then obtain x xs where "items = x # xs" by (cases items) auto
  then show ?case by (intro exI [of _ "[x]"]) simp
next
  case (step i)
  then obtain ys where ys: "fold sift_left [1..<i] items = rev ys @ drop i items"
    "mset ys = mset (take i items)" "sorted_wrt (\<lambda>x y. snd x \<le> snd y) ys"
    "\<And>k. filter (\<lambda>z. snd z = k) (rev ys) = filter (\<lambda>z. snd z = k) (take i items)" by auto
  have i: "i < length items" using step.prems by simp
  then have d: "drop i items = items ! i # drop (Suc i) items" by (simp add: Cons_nth_drop_Suc)
  have l: "length ys = i" using ys(2) i by (metis length_take min.absorb4 size_mset)
  have "fold sift_left [1..<Suc i] items = sift_left i (rev ys @ items ! i # drop (Suc i) items)"
    using step.hyps ys(1) d by simp
  also have "\<dots> = rev (sift_rev (items ! i) ys) @ drop (Suc i) items"
    using sift_left_rev [of ys] l by simp
  finally have f: "fold sift_left [1..<Suc i] items = \<dots>" .
  have "filter (\<lambda>z. snd z = k) (rev (sift_rev (items ! i) ys))
      = filter (\<lambda>z. snd z = k) (take (Suc i) items)" for k
    using ys(4) [of k] sift_rev_filter [OF ys(3), of k "items ! i"] i
    by (simp add: take_Suc_conv_app_nth rev_filter [symmetric])
  then show ?case
    using f ys(2) i sift_rev_sorted [OF ys(3)]
    by (intro exI [of _ "sift_rev (items ! i) ys"]) (simp add: take_Suc_conv_app_nth)
qed

lemma insertion_sort_props:
  "mset (insertion_sort items) = mset items \<and> descending (insertion_sort items)
   \<and> filter (\<lambda>z. snd z = k) (insertion_sort items) = filter (\<lambda>z. snd z = k) items"
proof (cases items)
  case (Cons x xs)
  then have "length items \<le> length items" "1 \<le> length items" by auto
  from insertion_prefix [OF this] show ?thesis
    by (auto simp: insertion_sort_def sorted_wrt_rev)
qed (simp add: insertion_sort_def)

lemma insertion_sort_stable: "insertion_sort items = sort_key (\<lambda>x. - snd x) items"
proof (rule properties_for_sort_key [symmetric])
  show "mset (insertion_sort items) = mset items" by (simp add: insertion_sort_props)
  show "filter (\<lambda>x. - snd k = - snd x) (insertion_sort items) = filter (\<lambda>x. - snd k = - snd x) items"
    for k using insertion_sort_props [of items "snd k"] by (simp add: eq_commute)
  have "descending (insertion_sort items)" using insertion_sort_props [of items] by blast
  then show "sorted (List.map (\<lambda>x. - snd x) (insertion_sort items))"
    by (simp add: sorted_map)
qed

lemma sort_key_map_fst:
  "List.map fst (sort_key (\<lambda>x. - snd x) (List.map (\<lambda>p. (p, f p)) ps)) = sort_key (\<lambda>p. - f p) ps"
proof -
  have "insort_key (\<lambda>x. - snd x) (p, f p) (List.map (\<lambda>p. (p, f p)) qs)
      = List.map (\<lambda>p. (p, f p)) (insort_key (\<lambda>p. - f p) p qs)" for p qs
    by (induction qs) auto
  then have "sort_key (\<lambda>x. - snd x) (List.map (\<lambda>p. (p, f p)) ps)
      = List.map (\<lambda>p. (p, f p)) (sort_key (\<lambda>p. - f p) ps)"
    by (induction ps) (auto simp: sort_key_def)
  then show ?thesis by (simp add: o_def)
qed

lemma sort_key_const: "(\<And>x. x \<in> set xs \<Longrightarrow> f x = c) \<Longrightarrow> sort_key f xs = xs"
  by (rule sort_key_id_if_sorted) (auto simp: sorted_map intro: sorted_wrt_mono_rel [of _ "\<lambda>_ _. True"])

section \<open>Scores\<close>

interpretation stats: sharding shard_idx num_stat_shards
  by unfold_locales (simp add: shard_idx_def num_stat_shards_def)

lemma f_consts: "0 \<le> f_tenth" "f_tenth \<le> 1" "0 \<le> f_nine_tenths" "f_nine_tenths \<le> 1"
  by (simp_all add: f_tenth_def f_nine_tenths_def fl_nonneg fl_le_1)

lemma tenths_sum: "fl (f_nine_tenths + f_tenth) = 1"
  by code_simp

lemma fl_unit: "0 \<le> x \<Longrightarrow> x \<le> 1 \<Longrightarrow> 0 \<le> fl x \<and> fl x \<le> 1"
  by (simp add: fl_nonneg fl_le_1)

text \<open>Multiplying a double by a factor in the unit interval.\<close>

lemma fl_scale_le: "0 \<le> c \<Longrightarrow> 0 \<le> x \<Longrightarrow> x \<le> 1 \<Longrightarrow> fl c = c \<Longrightarrow> 0 \<le> fl (c * x) \<and> fl (c * x) \<le> c"
  using fl_mono [of "c * x" c] fl_nonneg [of "c * x"] by (simp add: mult_left_le)

lemma tenths_fixed: "fl f_tenth = f_tenth" "fl f_nine_tenths = f_nine_tenths"
  by code_simp+

lemma recency_bonus_range:
  assumes "time_unix last_success \<le> now"
  shows "0 \<le> recency_bonus last_success now \<and> recency_bonus last_success now \<le> f_tenth"
proof (cases "0 < last_success \<and> time_sub now (time_unix last_success) < recency_window")
  case True
  let ?e = "time_sub now (time_unix last_success)"
  have e: "0 \<le> ?e" "?e < recency_window" using True assms by (simp_all add: time_sub_nonneg)
  then have "(of_int ?e :: rat) \<le> of_int recency_window" by simp
  then have "fl (of_int ?e) \<le> of_int recency_window"
    using fl_mono [of "of_int ?e" "of_int recency_window"] fl_of_int [of recency_window]
    by (simp add: recency_window_def minute_def)
  then have d: "0 \<le> fl (of_int ?e) / of_int recency_window" "fl (of_int ?e) / of_int recency_window \<le> 1"
    using e fl_nonneg [of "of_int ?e"] by (auto simp: divide_le_eq_1)
  from fl_unit [OF this] have "0 \<le> 1 - fl (fl (of_int ?e) / of_int recency_window)"
    "1 - fl (fl (of_int ?e) / of_int recency_window) \<le> 1" by auto
  from fl_unit [OF this] True show ?thesis
    using fl_scale_le [OF f_consts(1) _ _ tenths_fixed(1)]
    by (simp add: recency_bonus_def Let_def float_ops)
qed (auto simp: recency_bonus_def Let_def f_consts)

lemma metrics_score_range:
  assumes "0 \<le> pm_success_count m" "0 \<le> pm_failure_count m"
    and "pm_success_count m + pm_failure_count m < 2 ^ 63"
    and "time_unix (pm_last_success m) \<le> now"
  shows "0 \<le> metrics_score m now \<and> metrics_score m now \<le> 1"
proof -
  let ?s = "pm_success_count m" and ?t = "pm_success_count m + pm_failure_count m"
  have t: "wrap64 ?t = ?t" using assms by (simp add: in64_def)
  show ?thesis
  proof (cases "?t = 0")
    case False
    then have "0 < ?t" using assms by linarith
    moreover have "(1 :: rat) \<le> of_int ?t" using \<open>0 < ?t\<close> by linarith
    then have "1 \<le> fl (of_int ?t)" using fl_mono [of 1 "of_int ?t"] by simp
    moreover have "fl (of_int ?s) \<le> fl (of_int ?t)" using assms by (intro fl_mono) simp
    moreover have "0 \<le> fl (of_int ?s)" using assms by (intro fl_nonneg) simp
    ultimately have "0 \<le> fl (of_int ?s) / fl (of_int ?t)" "fl (of_int ?s) / fl (of_int ?t) \<le> 1"
      by (auto simp: divide_le_eq_1)
    from fl_unit [OF this] have "0 \<le> fl (f_nine_tenths * fl (fl (of_int ?s) / fl (of_int ?t)))"
      "fl (f_nine_tenths * fl (fl (of_int ?s) / fl (of_int ?t))) \<le> f_nine_tenths"
      using fl_scale_le [OF f_consts(3) _ _ tenths_fixed(2)] by blast+
    moreover note recency_bonus_range [OF assms(4)]
    ultimately show ?thesis
      using False tenths_sum t
        fl_mono [of "fl (f_nine_tenths * fl (fl (of_int ?s) / fl (of_int ?t))) + recency_bonus (pm_last_success m) now"
          "f_nine_tenths + f_tenth"]
      by (simp add: metrics_score_def Let_def float_ops mult.commute fl_nonneg)
  qed (use t in \<open>simp add: metrics_score_def f_half_def del: wrap64_id\<close>)
qed

section \<open>Properties\<close>

text \<open>
  The providers of a request are tried in descending order of score, those with equal scores
  in their configured order: the hand-written sort, with its two short cuts, is a stable sort.
\<close>

theorem sort_by_score_stable:
  "sort_by_score ps providers model now = sort_key (\<lambda>p. - get_score ps p model now) providers"
proof -
  let ?items = "List.map (\<lambda>p. (p, get_score ps p model now)) providers"
  consider "length providers \<le> 1" | "\<forall>p \<in> set providers. get_score ps p model now = f_half"
    | "\<not> length providers \<le> 1" "\<not> list_all (\<lambda>(_, s). s = f_half) ?items"
    by (auto simp: list_all_iff)
  then show ?thesis
  proof cases
    case 1
    then show ?thesis by (cases providers) (auto simp: sort_by_score_def)
  next
    case 2
    then have "sort_key (\<lambda>p. - get_score ps p model now) providers = providers"
      by (intro sort_key_const [where c = "- f_half"]) simp
    with 2 show ?thesis by (simp add: sort_by_score_def list_all_iff)
  next
    case 3
    then show ?thesis
      by (simp only: sort_by_score_def Let_def if_False insertion_sort_stable sort_key_map_fst)
  qed
qed

text \<open>
  A score is a number between 0 and 1 in floating point, rounding included, for every pair of
  counters and every clock reading not before the last success.
\<close>

theorem get_score_range:
  assumes "\<And>m. sh_get shard_idx ps (stats_key provider model) = Some m \<Longrightarrow>
      0 \<le> pm_success_count m \<and> 0 \<le> pm_failure_count m
      \<and> pm_success_count m + pm_failure_count m < 2 ^ 63
      \<and> time_unix (pm_last_success m) \<le> now"
  shows "0 \<le> get_score ps provider model now \<and> get_score ps provider model now \<le> 1"
proof (cases "sh_get shard_idx ps (stats_key provider model)")
  case (Some m)
  with assms [OF Some] metrics_score_range [of m now] show ?thesis by (simp add: get_score_def)
qed (simp add: get_score_def f_half_def)

lemma get_score_range_witness:
  "get_score (record_success ''p'' ''m'' 3 new_provider_stats (time_unix 5)) ''p'' ''m'' (time_unix 7) \<le> 1"
proof -
  have "sh_get shard_idx (record_success ''p'' ''m'' 3 new_provider_stats (time_unix 5)) (stats_key ''p'' ''m'')
      = Some \<lparr>pm_success_count = 1, pm_failure_count = 0, pm_total_latency_ns = 3, pm_last_used = 5,
              pm_last_success = 5\<rparr>"
    by (simp add: stats.get_put [OF stats.ok_empty] stats.get_empty record_success_def Let_def stats_get_or_create_def new_provider_stats_def
        metrics_zero_def in64_def)
  then show ?thesis
    using get_score_range [of "record_success ''p'' ''m'' 3 new_provider_stats (time_unix 5)" "''p''" "''m''"
        "time_unix 7"]
    by simp
qed

end
