(* ===== verification/QuotaStrategy.thy ===== *)
theory QuotaStrategy
  imports AuthEntry Float64
begin

text \<open>
  What the quota manager knows of each provider (\<open>internal/provider/quota_config.go\<close>) and the
  provider strategies (\<open>provider_strategy.go\<close>, \<open>strategy_*.go\<close>): scoring a credential, reacting to a
  quota error, counting usage. \<open>AuthQuotaState\<close> has the fields of \<open>QuotaFields\<close>, whose record is
  reused. The token buckets of \<open>golang.org/x/time/rate\<close> are a parameter: the tokens the bucket of
  a credential holds when it is asked.
\<close>

section \<open>Provider configuration\<close>

datatype quota_type = QuotaTypeRequests | QuotaTypeTokens | QuotaTypeOther int

fun quota_type_string :: "quota_type \<Rightarrow> string" where
  "quota_type_string QuotaTypeRequests = ''requests''"
| "quota_type_string QuotaTypeTokens = ''tokens''"
| "quota_type_string (QuotaTypeOther _) = ''unknown''"

record quota_config =
  qc_provider :: string
  qc_window_duration :: duration
  qc_quota_type :: quota_type
  qc_estimated_limit :: int
  qc_group_resolver :: "resolver option"
  qc_stagger_bucket :: duration
  qc_sticky_enabled :: bool
  qc_fill_first :: bool

definition default_provider_quota_configs :: "(string, quota_config) gomap" where
  "default_provider_quota_configs =
     [(''antigravity'', \<lparr>qc_provider = ''antigravity'', qc_window_duration = 5 * hour,
        qc_quota_type = QuotaTypeTokens, qc_estimated_limit = 1000000,
        qc_group_resolver = Some antigravity_resolver, qc_stagger_bucket = 30 * minute,
        qc_sticky_enabled = False, qc_fill_first = False\<rparr>),
      (''claude'', \<lparr>qc_provider = ''claude'', qc_window_duration = 5 * hour,
        qc_quota_type = QuotaTypeTokens, qc_estimated_limit = 500000,
        qc_group_resolver = None, qc_stagger_bucket = 30 * minute,
        qc_sticky_enabled = True, qc_fill_first = False\<rparr>),
      (''copilot'', \<lparr>qc_provider = ''copilot'', qc_window_duration = 24 * hour,
        qc_quota_type = QuotaTypeRequests, qc_estimated_limit = 10000,
        qc_group_resolver = None, qc_stagger_bucket = 2 * hour,
        qc_sticky_enabled = True, qc_fill_first = False\<rparr>),
      (''gemini'', \<lparr>qc_provider = ''gemini'', qc_window_duration = minute,
        qc_quota_type = QuotaTypeRequests, qc_estimated_limit = 60,
        qc_group_resolver = None, qc_stagger_bucket = 10 * second,
        qc_sticky_enabled = True, qc_fill_first = False\<rparr>)]"

definition default_fallback :: quota_config where
  "default_fallback = \<lparr>qc_provider = [], qc_window_duration = 5 * hour,
     qc_quota_type = QuotaTypeTokens, qc_estimated_limit = 500000, qc_group_resolver = None,
     qc_stagger_bucket = 30 * minute, qc_sticky_enabled = True, qc_fill_first = False\<rparr>"

definition get_provider_quota_config :: "string \<Rightarrow> quota_config" where
  "get_provider_quota_config provider =
     (case mget default_provider_quota_configs provider of
        Some c \<Rightarrow> c | None \<Rightarrow> default_fallback\<lparr>qc_provider := provider\<rparr>)"

datatype strategy =
  DefaultStrategy | AntigravityStrategy | ClaudeStrategy | CopilotStrategy | GeminiStrategy

definition get_strategy :: "string \<Rightarrow> strategy" where
  "get_strategy provider =
     (if provider = ''antigravity'' then AntigravityStrategy
      else if provider = ''claude'' then ClaudeStrategy
      else if provider = ''copilot'' then CopilotStrategy
      else if provider = ''gemini'' then GeminiStrategy else DefaultStrategy)"

section \<open>Token expiry, with its cache\<close>

type_synonym token_cache = "(string, gotime) gomap"

definition extract_access_token :: "auth \<Rightarrow> string" where
  "extract_access_token a = (case as_string (mget (meta_map (a_metadata a)) ''access_token'') of
     None \<Rightarrow> [] | Some s \<Rightarrow> s)"

fun as_int64 :: "goval option \<Rightarrow> int" where
  "as_int64 (Some (VInt n)) = n"
| "as_int64 (Some (VFloat f)) = float_to_int64 f"
| "as_int64 _ = 0"

definition parse_expires_at :: "auth \<Rightarrow> gotime" where
  "parse_expires_at a =
     (let m = meta_map (a_metadata a);
          ts = as_int64 (mget m ''timestamp'');
          expires_in = as_int64 (mget m ''expires_in'');
          from_ts = (if 0 < ts \<and> 0 < expires_in
                     then time_unix (ts * millisecond) + wrap64 (expires_in * second) else 0)
      in case as_string (mget m ''expired'') of
           None \<Rightarrow> from_ts
         | Some s \<Rightarrow> if s = [] then from_ts
                     else (case parse_rfc3339 s of Some t \<Rightarrow> t | None \<Rightarrow> from_ts))"

definition get_cached_expires_at :: "auth \<Rightarrow> token_cache \<Rightarrow> (gotime \<times> bool) \<times> token_cache" where
  "get_cached_expires_at a c =
     (if a_id a = [] then ((parse_expires_at a, parse_expires_at a \<noteq> 0), c)
      else case mget c (a_id a) of
        Some t \<Rightarrow> ((t, True), c)
      | None \<Rightarrow>
          let t = parse_expires_at a in
          if t \<noteq> 0 then ((t, True), mput (a_id a) t c) else ((0, False), c))"

definition invalidate_token_cache :: "string \<Rightarrow> token_cache \<Rightarrow> token_cache" where
  "invalidate_token_cache i c = (if i = [] then c else mdel i c)"

definition check_token_from_auth ::
    "auth \<Rightarrow> duration \<Rightarrow> token_cache \<Rightarrow> gotime \<Rightarrow> (bool \<times> bool) \<times> token_cache" where
  "check_token_from_auth a buffer c now =
     (if a_metadata a = None \<or> extract_access_token a = [] then ((False, False), c)
      else let ((expires, known), c') = get_cached_expires_at a c in
        if \<not> known then ((True, False), c')
        else ((now + buffer < expires, time_sub expires now < 5 * minute), c'))"

section \<open>Scores\<close>

definition usage_percent :: "quota_fields \<Rightarrow> int \<Rightarrow> rat" where
  "usage_percent st limit = fdiv (ffloat (qf_total_tokens_used st)) (ffloat limit)"

text \<open>The part every token-based strategy shares.\<close>

definition usage_limit :: "quota_fields \<Rightarrow> quota_config option \<Rightarrow> int" where
  "usage_limit st cfg =
     (let l = qf_learned_limit st in
      if l \<le> 0 then (case cfg of None \<Rightarrow> l | Some c \<Rightarrow> qc_estimated_limit c) else l)"

definition usage_points :: "quota_fields \<Rightarrow> quota_config option \<Rightarrow> int" where
  "usage_points st cfg =
     (let l = usage_limit st cfg in
      if 0 < l then float_to_int64 (fmul (usage_percent st l) 500) else 0)"

definition token_score :: "quota_fields option \<Rightarrow> quota_config option \<Rightarrow> int" where
  "token_score st cfg =
     (case st of None \<Rightarrow> 0
      | Some s \<Rightarrow> wrap64 (wrap64 (qf_active_requests s * 1000) + usage_points s cfg))"

definition auth_priority :: "auth \<Rightarrow> int" where
  "auth_priority a =
     (case mget (a_attributes a) ''priority'' of
        Some s \<Rightarrow> (case parse_int64 s of Some p \<Rightarrow> wrap64 (p * 10) | None \<Rightarrow> 0)
      | None \<Rightarrow> if 0 < a_priority a then wrap64 (a_priority a * 10) else 0)"

definition antigravity_score ::
    "auth \<Rightarrow> quota_fields option \<Rightarrow> quota_config option \<Rightarrow> token_cache \<Rightarrow> gotime \<Rightarrow> int \<times> token_cache" where
  "antigravity_score a st cfg c now =
     (case st of None \<Rightarrow> (0, c)
      | Some s \<Rightarrow>
          let p1 = wrap64 (auth_priority a + wrap64 (qf_active_requests s * 1000));
              load = (case qf_real_quota s of
                  Some rq \<Rightarrow>
                    if time_sub now (rq_fetched_at rq) < 5 * minute
                    then float_to_int64 (fmul (fsub 1 (rq_remaining_fraction rq)) 800)
                    else usage_points s cfg
                | None \<Rightarrow> usage_points s cfg);
              ((valid, refresh), c') = check_token_from_auth a (30 * second) c now;
              pen = (if \<not> valid then 10000 else if refresh then 500 else 0)
          in (wrap64 (wrap64 (p1 + load) + pen), c'))"

text \<open>
  Copilot and Gemini score by the tokens left in a bucket of a fixed size; \<open>avail\<close> is what
  \<open>Tokens\<close> reports for the bucket of the credential.
\<close>

definition copilot_burst :: int where "copilot_burst = 100"

definition copilot_token_interval :: "quota_config option \<Rightarrow> duration" where
  "copilot_token_interval cfg =
     (let lim = (case cfg of Some c \<Rightarrow> if 0 < qc_estimated_limit c then qc_estimated_limit c else 10000
                 | None \<Rightarrow> 10000);
          win = (case cfg of Some c \<Rightarrow> if 0 < qc_window_duration c then qc_window_duration c else 24 * hour
                 | None \<Rightarrow> 24 * hour)
      in go_div win lim)"

definition gemini_burst :: "quota_config option \<Rightarrow> int" where
  "gemini_burst cfg = (case cfg of
     Some c \<Rightarrow> if 0 < qc_estimated_limit c then qc_estimated_limit c else 60 | None \<Rightarrow> 60)"

definition bucket_score :: "auth option \<Rightarrow> quota_fields option \<Rightarrow> int \<Rightarrow> (string \<Rightarrow> rat) \<Rightarrow> int" where
  "bucket_score a st burst avail =
     (let p = (case st of None \<Rightarrow> 0 | Some s \<Rightarrow> wrap64 (qf_active_requests s * 1000)) in
      case a of None \<Rightarrow> p
      | Some a \<Rightarrow> if 0 < ffloat burst
          then wrap64 (p + float_to_int64 (fmul (fsub 1 (fdiv (avail (a_id a)) (ffloat burst))) 600))
          else p)"

definition strategy_score ::
    "strategy \<Rightarrow> (string \<Rightarrow> rat) \<Rightarrow> auth \<Rightarrow> quota_fields option \<Rightarrow> quota_config \<Rightarrow> token_cache
       \<Rightarrow> gotime \<Rightarrow> int \<times> token_cache" where
  "strategy_score s avail a st cfg c now =
     (case s of
        DefaultStrategy \<Rightarrow> (token_score st (Some cfg), c)
      | ClaudeStrategy \<Rightarrow> (token_score st (Some cfg), c)
      | AntigravityStrategy \<Rightarrow> antigravity_score a st (Some cfg) c now
      | CopilotStrategy \<Rightarrow> (bucket_score (Some a) st copilot_burst avail, c)
      | GeminiStrategy \<Rightarrow> (bucket_score (Some a) st (gemini_burst (Some cfg)) avail, c))"

section \<open>Quota errors and usage\<close>

text \<open>The compare-and-swap loop that raises the learned limit to the tokens used.\<close>

definition learn_limit :: "quota_fields \<Rightarrow> quota_fields" where
  "learn_limit st =
     (if qf_total_tokens_used st \<le> qf_learned_limit st then st
      else st\<lparr>qf_learned_limit := qf_total_tokens_used st\<rparr>)"

definition token_quota_hit :: "quota_fields \<Rightarrow> duration option \<Rightarrow> gotime \<Rightarrow> quota_fields" where
  "token_quota_hit st cooldown now =
     (let s1 = learn_limit (set_last_exhausted_at now st);
          learned = qf_learned_cooldown s1;
          s2 = (case cooldown of
                  Some d \<Rightarrow>
                    if 0 < d then (set_cooldown_until (now + d) s1)\<lparr>qf_learned_cooldown := d\<rparr>
                    else if 0 < learned then set_cooldown_until (now + learned) s1
                    else set_cooldown_until (now + 5 * hour) s1
                | None \<Rightarrow>
                    if 0 < learned then set_cooldown_until (now + learned) s1
                    else set_cooldown_until (now + 5 * hour) s1)
      in s2\<lparr>qf_total_tokens_used := 0\<rparr>)"

definition antigravity_quota_hit :: "quota_fields \<Rightarrow> duration option \<Rightarrow> gotime \<Rightarrow> quota_fields" where
  "antigravity_quota_hit st cooldown now =
     (let s1 = learn_limit (set_last_exhausted_at now st);
          reset = (case qf_real_quota s1 of
                     Some rq \<Rightarrow> if rq_window_reset_at rq \<noteq> 0 \<and> now < rq_window_reset_at rq
                                  then rq_window_reset_at rq else now + 5 * hour
                   | None \<Rightarrow> now + 5 * hour);
          until = (case cooldown of Some d \<Rightarrow> if 0 < d then now + d else reset | None \<Rightarrow> reset);
          ns = unix_nano until;
          s2 = (if ns \<le> qf_cooldown_until s1 then s1 else s1\<lparr>qf_cooldown_until := ns\<rparr>)
      in s2\<lparr>qf_total_tokens_used := 0\<rparr>)"

definition bucket_quota_hit ::
    "duration \<Rightarrow> quota_fields \<Rightarrow> duration option \<Rightarrow> gotime \<Rightarrow> quota_fields" where
  "bucket_quota_hit dflt st cooldown now =
     (let s1 = set_last_exhausted_at now st in
      case cooldown of
        Some d \<Rightarrow> if 0 < d then set_cooldown_until (now + d) s1 else set_cooldown_until (now + dflt) s1
      | None \<Rightarrow> set_cooldown_until (now + dflt) s1)"

definition on_quota_hit :: "strategy \<Rightarrow> quota_fields \<Rightarrow> duration option \<Rightarrow> gotime \<Rightarrow> quota_fields" where
  "on_quota_hit s st cooldown now =
     (case s of
        DefaultStrategy \<Rightarrow> token_quota_hit st cooldown now
      | ClaudeStrategy \<Rightarrow> token_quota_hit st cooldown now
      | AntigravityStrategy \<Rightarrow> antigravity_quota_hit st cooldown now
      | CopilotStrategy \<Rightarrow> bucket_quota_hit hour st cooldown now
      | GeminiStrategy \<Rightarrow> bucket_quota_hit minute st cooldown now)"

definition record_usage :: "strategy \<Rightarrow> quota_fields \<Rightarrow> int \<Rightarrow> quota_fields" where
  "record_usage s st tokens =
     (if s = CopilotStrategy \<or> s = GeminiStrategy \<or> \<not> 0 < tokens then st
      else st\<lparr>qf_total_tokens_used := wrap64 (qf_total_tokens_used st + tokens)\<rparr>)"

definition adaptive_poll_interval :: "rat \<Rightarrow> duration" where
  "adaptive_poll_interval remaining =
     (if remaining \<le> fl (5 / 100) then 10 * second
      else if remaining \<le> fl (20 / 100) then 30 * second else 2 * minute)"

end
