(* ===== verification/QuotaManager.thy ===== *)
theory QuotaManager
  imports QuotaStrategy Selector
begin

text \<open>
  The quota-aware selector (\<open>internal/provider/quota_manager.go\<close>, \<open>quota_sync_plugin.go\<close>): a
  sharded map of counters per credential, availability, selection by score, and the reactions to
  usage, quota errors and quota snapshots. \<open>sort.Slice\<close> and the random choice are parameters
  constrained by what their documentation promises.
\<close>

section \<open>State\<close>

definition num_quota_shards :: nat where "num_quota_shards = 32"

definition quota_index :: "string \<Rightarrow> nat" where
  "quota_index key = unat (fnv64a key) mod num_quota_shards"

record quota_manager =
  qm_states :: "quota_fields shards"
  qm_sticky :: sticky_store
  qm_token_cache :: token_cache
  qm_refreshing :: "string list"

definition new_quota_manager :: quota_manager where
  "new_quota_manager = \<lparr>qm_states = sh_empty num_quota_shards, qm_sticky = new_sticky_store,
     qm_token_cache = [], qm_refreshing = []\<rparr>"

definition get_state :: "quota_manager \<Rightarrow> string \<Rightarrow> quota_fields option" where
  "get_state qm i = sh_get quota_index (qm_states qm) i"

text \<open>\<open>getOrCreateState\<close> followed by a write through the pointer it returns.\<close>

definition state_or_new :: "quota_manager \<Rightarrow> string \<Rightarrow> quota_fields" where
  "state_or_new qm i = (case get_state qm i of None \<Rightarrow> quota_fields_zero | Some s \<Rightarrow> s)"

definition modify_state :: "string \<Rightarrow> (quota_fields \<Rightarrow> quota_fields) \<Rightarrow> quota_manager \<Rightarrow> quota_manager" where
  "modify_state i f qm =
     qm\<lparr>qm_states := sh_put quota_index i (f (state_or_new qm i)) (qm_states qm)\<rparr>"

definition increment_active :: "string \<Rightarrow> quota_manager \<Rightarrow> quota_manager" where
  "increment_active i qm =
     modify_state i (\<lambda>s. s\<lparr>qf_active_requests := wrap64 (qf_active_requests s + 1)\<rparr>) qm"

definition qm_get_state :: "quota_manager \<Rightarrow> string \<Rightarrow> quota_snapshot option" where
  "qm_get_state qm i = map_option quota_snapshot_of (get_state qm i)"

section \<open>Availability\<close>

datatype availability = availabilityUnknown | availabilityAvailable | availabilityBlocked

definition real_quota_freshness :: duration where "real_quota_freshness = 5 * minute"
definition quota_exhausted_threshold :: rat where "quota_exhausted_threshold = fl (2 / 100)"
definition quota_recovered_threshold :: rat where "quota_recovered_threshold = fl (5 / 100)"

text \<open>The status, and the credential after the lazy clean-up of its group index.\<close>

definition check_availability ::
    "resolvers \<Rightarrow> quota_fields option \<Rightarrow> auth \<Rightarrow> string \<Rightarrow> gotime \<Rightarrow> availability \<times> auth" where
  "check_availability rs st a model now =
     (let ((blocked, _, _), oa) = is_auth_blocked_for_model rs (Some a) model now;
          a' = (case oa of None \<Rightarrow> a | Some b \<Rightarrow> b);
          verdict =
            (if blocked then availabilityBlocked
             else case st of None \<Rightarrow> availabilityUnknown
             | Some s \<Rightarrow>
                 if now < get_cooldown_until s then availabilityBlocked
                 else case qf_real_quota s of None \<Rightarrow> availabilityUnknown
                 | Some rq \<Rightarrow>
                     if time_sub now (rq_fetched_at rq) < real_quota_freshness then
                       (if rq_remaining_fraction rq \<le> quota_exhausted_threshold then availabilityBlocked
                        else if quota_recovered_threshold < rq_remaining_fraction rq
                        then availabilityAvailable else availabilityUnknown)
                     else availabilityUnknown)
      in (verdict, a'))"

definition filter_available ::
    "resolvers \<Rightarrow> quota_manager \<Rightarrow> auth list \<Rightarrow> string \<Rightarrow> gotime \<Rightarrow> auth list" where
  "filter_available rs qm auths model now =
     List.map_filter (\<lambda>a.
       if a_disabled a then None
       else let (v, a') = check_availability rs (get_state qm (a_id a)) a model now
            in if v = availabilityBlocked then None else Some a') auths"

text \<open>Whole seconds of a duration, rounded as \<open>%.0f\<close> prints \<open>Duration.Seconds\<close>.\<close>

definition seconds_rounded :: "duration \<Rightarrow> int" where
  "seconds_rounded d =
     (let s = go_div d second; ns = d - s * second
      in round_half_even (fadd (ffloat s) (fdiv (ffloat ns) 1000000000)))"

definition retry_candidate :: "quota_fields option \<Rightarrow> gotime \<Rightarrow> gotime \<Rightarrow> gotime" where
  "retry_candidate st now best =
     (case st of None \<Rightarrow> best
      | Some s \<Rightarrow>
          let cd = get_cooldown_until s;
              by_cooldown = (if now < cd then earlier best cd else best)
          in case qf_real_quota s of None \<Rightarrow> by_cooldown
             | Some rq \<Rightarrow>
                 if quota_exhausted_threshold < rq_remaining_fraction rq \<and> cd < now then best
                 else if rq_window_reset_at rq \<noteq> 0 \<and> now < rq_window_reset_at rq
                 then earlier best (rq_window_reset_at rq) else by_cooldown)"

definition build_retry_error :: "quota_manager \<Rightarrow> auth list \<Rightarrow> gotime \<Rightarrow> prov_error" where
  "build_retry_error qm auths now =
     (let earliest = fold (\<lambda>a. retry_candidate (get_state qm (a_id a)) now) auths 0 in
      if earliest \<noteq> 0 then
        (mk_error ''quota_exhausted''
           (''all accounts exhausted, retry after ''
              @ show_int (seconds_rounded (time_sub earliest now)) @ ''s''))\<lparr>err_http_status := 429\<rparr>
      else mk_error ''auth_unavailable'' ''no auth available'')"

section \<open>Selection\<close>

type_synonym scored = "auth \<times> int"

text \<open>
  What the sort and the draw promise: the sort returns the same candidates in ascending order of
  score, in whatever order of equal ones; the draw is below its bound.
\<close>

definition sort_slice_ok :: "(scored list \<Rightarrow> scored list) \<Rightarrow> bool" where
  "sort_slice_ok srt \<longleftrightarrow> (\<forall>xs. mset (srt xs) = mset xs \<and> sorted (List.map snd (srt xs)))"

definition draw_ok :: "(nat \<Rightarrow> nat) \<Rightarrow> bool" where
  "draw_ok draw \<longleftrightarrow> (\<forall>n > 0. draw n < n)"

fun score_all ::
    "strategy \<Rightarrow> (string \<Rightarrow> rat) \<Rightarrow> quota_config \<Rightarrow> quota_manager \<Rightarrow> gotime \<Rightarrow> auth list \<Rightarrow> token_cache
       \<Rightarrow> scored list \<times> token_cache" where
  "score_all s avail cfg qm now [] c = ([], c)"
| "score_all s avail cfg qm now (a # as) c =
     (let (p, c1) = strategy_score s avail a (get_state qm (a_id a)) cfg c now;
          (rest, c2) = score_all s avail cfg qm now as c1
      in ((a, p) # rest, c2))"

text \<open>Groups of candidates within 100 points of the first of the group, and that group's score.\<close>

definition group_step ::
    "auth list list \<times> int \<Rightarrow> scored \<Rightarrow> auth list list \<times> int" where
  "group_step = (\<lambda>(groups, cur) (a, p).
     if groups = [] \<or> 100 < wrap64 (p - cur) then (groups @ [[a]], p)
     else (butlast groups @ [last groups @ [a]], cur))"

definition is_idle :: "quota_manager \<Rightarrow> auth \<Rightarrow> bool" where
  "is_idle qm a = (case get_state qm (a_id a) of None \<Rightarrow> True | Some s \<Rightarrow> qf_active_requests s = 0)"

definition select_with_fill_first ::
    "(scored list \<Rightarrow> scored list) \<Rightarrow> (nat \<Rightarrow> nat) \<Rightarrow> quota_manager \<Rightarrow> scored list \<Rightarrow> auth option" where
  "select_with_fill_first srt draw qm cands =
     (if cands = [] then None
      else let groups = fst (foldl group_step ([], -1) (srt cands)) in
        case find (is_idle qm) (concat groups) of
          Some a \<Rightarrow> Some a
        | None \<Rightarrow> Some (last groups ! draw (length (last groups))))"

definition select_with_round_robin ::
    "(scored list \<Rightarrow> scored list) \<Rightarrow> (nat \<Rightarrow> nat) \<Rightarrow> scored list \<Rightarrow> auth option" where
  "select_with_round_robin srt draw cands =
     (let cs = srt cands;
          top_n = (if length cs < 3 then length cs else 3);
          similar = length (filter (\<lambda>(_, p). wrap64 (p - snd (hd cs)) < 100) (take top_n cs))
      in if cs = [] then None
         else if 1 < similar then Some (fst (cs ! draw similar)) else Some (fst (cs ! 0)))"

definition select_with_strategy ::
    "(scored list \<Rightarrow> scored list) \<Rightarrow> (nat \<Rightarrow> nat) \<Rightarrow> (string \<Rightarrow> rat) \<Rightarrow> quota_manager \<Rightarrow> auth list
       \<Rightarrow> quota_config \<Rightarrow> strategy \<Rightarrow> gotime \<Rightarrow> auth option \<times> token_cache" where
  "select_with_strategy srt draw avail qm auths cfg s now =
     (let (cands, c) = score_all s avail cfg qm now auths (qm_token_cache qm)
      in (if qc_fill_first cfg then select_with_fill_first srt draw qm cands
          else select_with_round_robin srt draw cands, c))"

definition session_key :: "string \<Rightarrow> string \<Rightarrow> string" where
  "session_key provider model = provider @ '':'' @ model"

definition qm_pick ::
    "resolvers \<Rightarrow> (scored list \<Rightarrow> scored list) \<Rightarrow> (nat \<Rightarrow> nat) \<Rightarrow> (string \<Rightarrow> rat) \<Rightarrow> string \<Rightarrow> string
       \<Rightarrow> bool \<Rightarrow> auth list \<Rightarrow> quota_manager \<Rightarrow> gotime \<Rightarrow> (prov_error + auth) \<times> quota_manager" where
  "qm_pick rs srt draw avail provider model force_rotate auths qm now =
     (if auths = [] then (Inl (mk_error ''auth_not_found'' ''no auth candidates''), qm)
      else
        let cfg = get_provider_quota_config provider;
            available = filter_available rs qm auths model now;
            key = session_key provider model
        in if available = [] then (Inl (build_retry_error qm auths now), qm)
        else if length available = 1 then
          (Inr (hd available), increment_active (a_id (hd available)) qm)
        else
          let ((sid, hit), st1) = (if qc_sticky_enabled cfg \<and> \<not> force_rotate
                                   then sticky_get key (qm_sticky qm) now
                                   else (([], False), qm_sticky qm));
              qm1 = qm\<lparr>qm_sticky := st1\<rparr>
          in case (if hit then find (\<lambda>a. a_id a = sid) available else None) of
               Some a \<Rightarrow> (Inr a, increment_active (a_id a) qm1)
             | None \<Rightarrow>
                 let (sel, c) = select_with_strategy srt draw avail qm1 available cfg (get_strategy provider) now;
                     a = the sel;
                     qm2 = qm1\<lparr>qm_token_cache := c\<rparr>;
                     qm3 = (if qc_sticky_enabled cfg
                            then qm2\<lparr>qm_sticky := sticky_set key (a_id a) (qm_sticky qm2) now\<rparr> else qm2)
                 in (Inr a, increment_active (a_id a) qm3))"

section \<open>Feedback\<close>

definition record_request_start :: "string \<Rightarrow> quota_manager \<Rightarrow> quota_manager" where
  "record_request_start i qm = increment_active i qm"

definition record_request_end ::
    "string \<Rightarrow> string \<Rightarrow> int \<Rightarrow> bool \<Rightarrow> quota_manager \<Rightarrow> quota_manager" where
  "record_request_end i provider tokens failed qm =
     modify_state i (\<lambda>s.
       let s1 = (if qf_active_requests s \<le> 0 then s
                 else s\<lparr>qf_active_requests := qf_active_requests s - 1\<rparr>)
       in if failed then s1
          else let s2 = set_cooldown_until 0 s1
               in if 0 < tokens then record_usage (get_strategy provider) s2 tokens else s2) qm"

definition record_quota_hit ::
    "string \<Rightarrow> string \<Rightarrow> duration option \<Rightarrow> quota_manager \<Rightarrow> gotime \<Rightarrow> quota_manager" where
  "record_quota_hit i provider cooldown qm now =
     modify_state i (\<lambda>s. on_quota_hit (get_strategy provider) s cooldown now) qm"

text \<open>\<open>QuotaSyncPlugin.HandleUsage\<close>: the total tokens of a usage record, absent or not.\<close>

definition handle_usage ::
    "string \<Rightarrow> string \<Rightarrow> int option \<Rightarrow> bool \<Rightarrow> quota_manager \<Rightarrow> quota_manager" where
  "handle_usage i provider usage failed qm =
     record_request_end i provider (case usage of None \<Rightarrow> 0 | Some t \<Rightarrow> t) failed qm"

definition is_stale_state :: "gotime \<Rightarrow> quota_fields \<Rightarrow> bool" where
  "is_stale_state now s \<longleftrightarrow>
     qf_active_requests s = 0
     \<and> (get_cooldown_until s < now \<or> hour < time_sub now (get_cooldown_until s))
     \<and> 24 * hour < time_sub now (get_last_exhausted_at s)"

definition qm_cleanup :: "quota_manager \<Rightarrow> gotime \<Rightarrow> quota_manager" where
  "qm_cleanup qm now = qm\<lparr>qm_states := sh_filter (\<lambda>(_, s). \<not> is_stale_state now s) (qm_states qm)\<rparr>"

definition handle_quota_snapshot_update :: "real_quota \<Rightarrow> quota_fields \<Rightarrow> gotime \<Rightarrow> quota_fields" where
  "handle_quota_snapshot_update rq s now =
     (if rq_remaining_fraction rq \<le> quota_exhausted_threshold then
        (let until = (if rq_window_reset_at rq \<noteq> 0 \<and> now < rq_window_reset_at rq
                      then rq_window_reset_at rq else now + 5 * hour);
             ns = unix_nano until
         in if qf_cooldown_until s \<noteq> 0 \<and> qf_cooldown_until s < ns then s
            else set_last_exhausted_at now (s\<lparr>qf_cooldown_until := ns\<rparr>))
      else if quota_exhausted_threshold < rq_remaining_fraction rq then
        (if qf_cooldown_until s = 0 then s
         else s\<lparr>qf_cooldown_until := 0, qf_total_tokens_used := 0\<rparr>)
      else s)"

text \<open>
  A snapshot arriving from the background refresher of a credential, and the book-keeping of the
  refreshers: registering replaces a running one, for the strategies that have one.
\<close>

definition receive_snapshot :: "string \<Rightarrow> real_quota \<Rightarrow> quota_manager \<Rightarrow> gotime \<Rightarrow> quota_manager" where
  "receive_snapshot i rq qm now =
     modify_state i (\<lambda>s. handle_quota_snapshot_update rq (s\<lparr>qf_real_quota := Some rq\<rparr>) now) qm"

definition register_auth :: "auth \<Rightarrow> quota_manager \<Rightarrow> quota_manager" where
  "register_auth a qm =
     (if get_strategy (a_provider a) \<noteq> AntigravityStrategy then qm
      else modify_state (a_id a) (\<lambda>s. s)
             (qm\<lparr>qm_refreshing := List.insert (a_id a) (qm_refreshing qm)\<rparr>))"

definition unregister_auth :: "string \<Rightarrow> quota_manager \<Rightarrow> quota_manager" where
  "unregister_auth i qm = qm\<lparr>qm_refreshing := removeAll i (qm_refreshing qm)\<rparr>"

section \<open>Lemmas\<close>

interpretation quota: sharding quota_index num_quota_shards
  by unfold_locales (simp add: quota_index_def num_quota_shards_def)

definition qm_ok :: "quota_manager \<Rightarrow> bool" where
  "qm_ok qm \<longleftrightarrow> sh_ok quota_index num_quota_shards (qm_states qm) \<and> sticky_ok (qm_sticky qm)"

text \<open>The requests the manager believes to be running on a credential.\<close>

definition active :: "quota_manager \<Rightarrow> string \<Rightarrow> int" where
  "active qm i = qf_active_requests (state_or_new qm i)"

lemma qm_ok_new: "qm_ok new_quota_manager"
  by (simp add: qm_ok_def new_quota_manager_def quota.ok_empty sticky_ok_new)

lemma get_state_modify:
  "qm_ok qm \<Longrightarrow> get_state (modify_state i f qm) j =
     (if j = i then Some (f (state_or_new qm i)) else get_state qm j)"
  by (simp add: qm_ok_def get_state_def modify_state_def quota.get_put)

lemma qm_ok_modify [simp]: "qm_ok qm \<Longrightarrow> qm_ok (modify_state i f qm)"
  by (simp add: qm_ok_def modify_state_def quota.ok_put)

lemma state_or_new_modify:
  "qm_ok qm \<Longrightarrow> state_or_new (modify_state i f qm) j =
     (if j = i then f (state_or_new qm i) else state_or_new qm j)"
  by (simp add: state_or_new_def get_state_modify)

lemma active_increment:
  "qm_ok qm \<Longrightarrow> active (increment_active i qm) j =
     (if j = i then wrap64 (active qm i + 1) else active qm j)"
  by (simp add: active_def increment_active_def state_or_new_modify)

lemma state_frame [simp, frame]:
  "get_state (qm\<lparr>qm_sticky := s\<rparr>) i = get_state qm i"
  "get_state (qm\<lparr>qm_token_cache := c\<rparr>) i = get_state qm i"
  "active (qm\<lparr>qm_sticky := s\<rparr>) i = active qm i"
  "active (qm\<lparr>qm_token_cache := c\<rparr>) i = active qm i"
  by (simp_all add: get_state_def active_def state_or_new_def)

lemma blocked_frame: "map_option a_id (snd (is_auth_blocked_for_model rs (Some a) m now)) = Some (a_id a)"
proof (cases "a_disabled a \<or> a_status a = StatusDisabled \<or> m = []
    \<or> get_quota_group_index (a_runtime a) = None")
  case True
  then show ?thesis
    by (cases "mget (a_model_states a) m") (auto simp: is_auth_blocked_for_model_def split: option.splits)
next
  case False
  then show ?thesis
    by (cases "mget (a_model_states a) m"; cases "the (mget (a_model_states a) m)")
      (simp_all add: is_auth_blocked_for_model_def Let_def case_prod_unfold split: option.splits)
qed

lemma check_availability_id [simp]: "a_id (snd (check_availability rs st a m now)) = a_id a"
  using blocked_frame [of rs a m now]
  by (auto simp: check_availability_def Let_def case_prod_unfold split: option.splits)

lemma in_filter_available:
  "a \<in> set (filter_available rs qm auths m now) \<longleftrightarrow>
     (\<exists>b \<in> set auths. \<not> a_disabled b
        \<and> fst (check_availability rs (get_state qm (a_id b)) b m now) \<noteq> availabilityBlocked
        \<and> a = snd (check_availability rs (get_state qm (a_id b)) b m now))"
  by (auto simp: filter_available_def map_filter_def Let_def case_prod_unfold split: if_splits)

lemma score_all_fst [simp]: "List.map fst (fst (score_all s av cfg qm now as c)) = as"
  by (induction as arbitrary: c) (simp_all add: case_prod_unfold Let_def)

lemma group_fold:
  assumes "\<forall>g \<in> set groups. g \<noteq> []"
  shows "concat (fst (foldl group_step (groups, cur) cs)) = concat groups @ List.map fst cs
     \<and> (\<forall>g \<in> set (fst (foldl group_step (groups, cur) cs)). g \<noteq> [])"
  using assms
proof (induction cs arbitrary: groups cur)
  case (Cons c cs)
  obtain a p where c: "c = (a, p)" by (cases c)
  show ?case
  proof (cases "groups = [] \<or> 100 < wrap64 (p - cur)")
    case True
    have "\<forall>g \<in> set (groups @ [[a]]). g \<noteq> []" using Cons.prems by simp
    from Cons.IH [OF this, of p] True show ?thesis by (simp add: c group_step_def)
  next
    case False
    have "concat groups = concat (butlast groups) @ last groups"
      using False by (metis append_butlast_last_id append_Nil2 concat.simps concat_append)
    moreover have "\<forall>g \<in> set (butlast groups @ [last groups @ [a]]). g \<noteq> []"
      using Cons.prems by (auto dest: in_set_butlastD)
    from Cons.IH [OF this, of cur] have
      "concat (fst (foldl group_step (butlast groups @ [last groups @ [a]], cur) cs))
         = concat (butlast groups @ [last groups @ [a]]) @ List.map fst cs
       \<and> (\<forall>g \<in> set (fst (foldl group_step (butlast groups @ [last groups @ [a]], cur) cs)). g \<noteq> [])" .
    ultimately show ?thesis using False by (simp add: c group_step_def)
  qed
qed simp

lemma select_fill_first_in:
  assumes "sort_slice_ok srt" "draw_ok draw" "cs \<noteq> []"
  shows "\<exists>a. select_with_fill_first srt draw qm cs = Some a \<and> a \<in> fst ` set cs"
proof -
  let ?g = "fst (foldl group_step ([], -1) (srt cs))"
  have m: "set (srt cs) = set cs" "srt cs \<noteq> []"
    using assms unfolding sort_slice_ok_def by (metis set_mset_mset, metis mset_zero_iff)
  have g: "concat ?g = List.map fst (srt cs)" "\<forall>g \<in> set ?g. g \<noteq> []"
    using group_fold [of "[]" "-1" "srt cs"] by auto
  then have ne: "?g \<noteq> []" using m by auto
  then have l: "last ?g \<in> set ?g" by simp
  with g(2) assms(2) have "draw (length (last ?g)) < length (last ?g)" by (simp add: draw_ok_def)
  then have "last ?g ! draw (length (last ?g)) \<in> set (concat ?g)" using l nth_mem by fastforce
  moreover have "a \<in> set (concat ?g)" if "find (is_idle qm) (concat ?g) = Some a" for a
    using that unfolding find_Some_iff by (metis nth_mem)
  ultimately show ?thesis
    using assms(3) m g(1) by (auto simp: select_with_fill_first_def Let_def split: option.splits)
qed

lemma select_round_robin_in:
  assumes "sort_slice_ok srt" "draw_ok draw" "cs \<noteq> []"
  shows "\<exists>a. select_with_round_robin srt draw cs = Some a \<and> a \<in> fst ` set cs"
proof -
  have m: "set (srt cs) = set cs" "srt cs \<noteq> []"
    using assms unfolding sort_slice_ok_def by (metis set_mset_mset, metis mset_zero_iff)
  let ?n = "length (filter (\<lambda>(_, p). wrap64 (p - snd (hd (srt cs))) < 100)
      (take (if length (srt cs) < 3 then length (srt cs) else 3) (srt cs)))"
  have "?n \<le> length (srt cs)"
    by (rule order_trans [OF length_filter_le]) simp
  then have d: "1 < ?n \<Longrightarrow> draw ?n < length (srt cs)"
    using assms(2) by (meson draw_ok_def less_trans zero_less_one order_less_le_trans)
  have sub: "srt cs ! i \<in> set cs" if "i < length (srt cs)" for i
    using that m(1) by (metis nth_mem)
  have z: "0 < length (srt cs)" using m(2) by simp
  show ?thesis
    unfolding select_with_round_robin_def Let_def
    using m(2) imageI [OF sub [OF d], of fst] imageI [OF sub [OF z], of fst] by simp
qed

lemma select_with_strategy_in:
  assumes "sort_slice_ok srt" "draw_ok draw" "as \<noteq> []"
  shows "\<exists>a. fst (select_with_strategy srt draw av qm as cfg s now) = Some a \<and> a \<in> set as"
proof -
  let ?c = "fst (score_all s av cfg qm now as (qm_token_cache qm))"
  have "fst ` set ?c = set as" by (metis List.set_map score_all_fst)
  moreover from this have "?c \<noteq> []" using assms(3) by auto
  ultimately show ?thesis
    using select_fill_first_in [OF assms(1, 2), of ?c qm] select_round_robin_in [OF assms(1, 2), of ?c]
    by (auto simp: select_with_strategy_def case_prod_unfold Let_def)
qed

lemma cache_sticky_commute:
  "qm\<lparr>qm_token_cache := c, qm_sticky := s\<rparr> = qm\<lparr>qm_sticky := s, qm_token_cache := c\<rparr>"
  by simp

text \<open>Every way \<open>Pick\<close> ends, with the manager it leaves behind.\<close>

lemma qm_pick_cases:
  fixes rs :: resolvers and auths :: "auth list" and model :: string and now :: gotime
  assumes "qm_ok qm" "sort_slice_ok srt" "draw_ok draw"
  defines "av \<equiv> filter_available rs qm auths model now"
  obtains (error) e where "av = []" "qm_pick rs srt draw avail provider model fr auths qm now = (Inl e, qm)"
  | (picked) a st c where "a \<in> set av" "av \<noteq> []"
      "qm_pick rs srt draw avail provider model fr auths qm now =
         (Inr a, increment_active (a_id a) (qm\<lparr>qm_sticky := st, qm_token_cache := c\<rparr>))"
proof (cases "av = []")
  case True
  then show ?thesis
    using error by (cases "auths = []") (simp_all add: qm_pick_def av_def)
next
  case ne: False
  then have auths: "auths \<noteq> []" by (auto simp: av_def filter_available_def map_filter_def)
  have same: "qm = qm\<lparr>qm_sticky := qm_sticky qm, qm_token_cache := qm_token_cache qm\<rparr>" by simp
  show ?thesis
  proof (cases "length av = 1")
    case True
    then show ?thesis
      using ne auths picked [where a = "hd av" and st = "qm_sticky qm" and c = "qm_token_cache qm"] same
      by (simp add: qm_pick_def av_def [symmetric] Let_def)
  next
    case False
    let ?cfg = "get_provider_quota_config provider" and ?key = "session_key provider model"
    obtain sid hit st where g: "(if qc_sticky_enabled ?cfg \<and> \<not> fr
        then sticky_get ?key (qm_sticky qm) now else (([], False), qm_sticky qm)) = ((sid, hit), st)"
      by (metis prod.exhaust)
    let ?qm1 = "qm\<lparr>qm_sticky := st\<rparr>"
    let ?s = "select_with_strategy srt draw avail ?qm1 av ?cfg (get_strategy provider) now"
    have unf: "qm_pick rs srt draw avail provider model fr auths qm now =
        (case (if hit then find (\<lambda>a. a_id a = sid) av else None) of
           Some a \<Rightarrow> (Inr a, increment_active (a_id a) ?qm1)
         | None \<Rightarrow>
             let a = the (fst ?s); qm2 = ?qm1\<lparr>qm_token_cache := snd ?s\<rparr> in
             (Inr a, increment_active (a_id a)
               (if qc_sticky_enabled ?cfg
                then qm2\<lparr>qm_sticky := sticky_set ?key (a_id a) (qm_sticky qm2) now\<rparr> else qm2)))"
      using ne False auths
      by (simp only: qm_pick_def av_def [symmetric] Let_def g case_prod_conv case_prod_unfold fst_conv
          snd_conv if_False)
    show ?thesis
    proof (cases "if hit then find (\<lambda>a. a_id a = sid) av else None")
      case (Some a)
      then have "a \<in> set av" by (auto simp: find_Some_iff split: if_splits)
      then show ?thesis
        using ne unf Some picked [where a = a and st = st and c = "qm_token_cache qm"] by simp
    next
      case None
      obtain a where a: "fst ?s = Some a" "a \<in> set av"
        using select_with_strategy_in [OF assms(2, 3) ne] by blast
      show ?thesis
        using a ne unf None picked [where a = a and c = "snd ?s"
            and st = "if qc_sticky_enabled ?cfg then sticky_set ?key (a_id a) st now else st"]
        by (simp add: Let_def cache_sticky_commute split: if_splits)
    qed
  qed
qed

text \<open>Quota hits: whatever the strategy, the cooldown they leave reaches the server's delay.\<close>

lemma cooldown_set [simp]:
  "qf_cooldown_until (set_cooldown_until t s) = nanos_of t"
  "qf_cooldown_until (set_last_exhausted_at t s) = qf_cooldown_until s"
  "qf_cooldown_until (learn_limit s) = qf_cooldown_until s"
  by (simp_all add: set_cooldown_until_def set_last_exhausted_at_def learn_limit_def)

lemma on_quota_hit_cooldown:
  assumes "0 < d" and "unix_epoch < now" and "time_ok (now + d)"
  shows "now + d \<le> get_cooldown_until (on_quota_hit s st (Some d) now)"
proof -
  have ns: "unix_nano (now + d) = now + d - unix_epoch" "0 < unix_nano (now + d)" "now + d \<noteq> 0"
    using assms by (simp_all add: unix_nano_def time_ok_def unix_epoch_def)
  then show ?thesis
    using assms(1)
    by (cases s)
      (simp_all add: on_quota_hit_def token_quota_hit_def antigravity_quota_hit_def bucket_quota_hit_def
        Let_def get_cooldown_until_def of_nanos_def nanos_of_def time_unix_def)
qed

lemma blocked_by_cooldown:
  "t < get_cooldown_until s \<Longrightarrow> fst (check_availability rs (Some s) a m t) = availabilityBlocked"
  by (simp add: check_availability_def Let_def case_prod_unfold)

lemma cooldown_record_usage [simp]:
  "qf_cooldown_until (record_usage s st n) = qf_cooldown_until st"
  by (simp add: record_usage_def)

section \<open>Properties\<close>

text \<open>
  A credential the quota manager picks is one of the candidates, enabled, and not blocked by
  its model state, its quota group, its cooldown or a fresh quota reading; its count of running
  requests goes up by one and no other count changes. The sort and the draw may break ties as
  they like.
\<close>

theorem qm_pick_sound:
  assumes "qm_ok qm" and "sort_slice_ok srt" and "draw_ok draw"
    and "qm_pick rs srt draw avail provider model fr auths qm now = (Inr a, qm')"
  shows "(\<exists>b \<in> set auths. a_id a = a_id b \<and> \<not> a_disabled b
       \<and> fst (check_availability rs (get_state qm (a_id b)) b model now) \<noteq> availabilityBlocked)
     \<and> active qm' i = (if i = a_id a then wrap64 (active qm i + 1) else active qm i)"
  using assms(1-3)
proof (cases rule: qm_pick_cases [where rs = rs and auths = auths and model = model and now = now
      and avail = avail and provider = provider and fr = fr])
  case (picked a' st c)
  then have "a' = a" "qm' = increment_active (a_id a) (qm\<lparr>qm_sticky := st, qm_token_cache := c\<rparr>)"
    using assms(4) by auto
  moreover have "\<forall>j. active (increment_active (a_id a) (qm\<lparr>qm_sticky := st, qm_token_cache := c\<rparr>)) j
      = (if j = a_id a then wrap64 (active qm (a_id a) + 1) else active qm j)"
    using assms(1)
    by (simp add: active_def increment_active_def modify_state_def get_state_def state_or_new_def
        qm_ok_def quota.get_put)
  ultimately show ?thesis
    using picked(1) by (auto simp: in_filter_available)
qed (use assms(4) in simp)

lemma qm_pick_sound_witness:
  "let a = auth_zero\<lparr>a_id := ''x'', a_provider := ''claude''\<rparr>;
       r = qm_pick [] (sort_key snd) (\<lambda>_. 0) (\<lambda>_. 0) ''claude'' ''m'' False [a] new_quota_manager 5
   in active (snd r) ''x'' = 1"
proof -
  let ?a = "auth_zero\<lparr>a_id := ''x'', a_provider := ''claude''\<rparr>"
  have srt: "sort_slice_ok (sort_key snd)" by (simp add: sort_slice_ok_def)
  have d: "draw_ok (\<lambda>_. 0)" by (simp add: draw_ok_def)
  have g: "get_state new_quota_manager ''x'' = None" "active new_quota_manager ''x'' = 0"
    by (simp_all add: quota.get_empty get_state_def new_quota_manager_def active_def state_or_new_def quota_fields_zero_def)
  have r: "qm_pick [] (sort_key snd) (\<lambda>_. 0) (\<lambda>_. 0) ''claude'' ''m'' False [?a] new_quota_manager 5
      = (Inr ?a, increment_active ''x'' new_quota_manager)"
    using g by (simp add: qm_pick_def Let_def filter_available_def map_filter_def check_availability_def
        is_auth_blocked_for_model_def auth_zero_def)
  show ?thesis
    using qm_pick_sound [OF qm_ok_new srt d r, of "''x''"] g by (simp add: Let_def r in64_def)
qed

text \<open>
  The quota manager refuses a request exactly when every candidate is disabled or
  unavailable, and then leaves its state alone.
\<close>

theorem qm_pick_fails_iff:
  assumes "qm_ok qm" and "sort_slice_ok srt" and "draw_ok draw"
  shows "let r = qm_pick rs srt draw avail provider model fr auths qm now in
     ((\<exists>e. r = (Inl e, qm)) \<longleftrightarrow>
        (\<forall>a \<in> set auths. a_disabled a
           \<or> fst (check_availability rs (get_state qm (a_id a)) a model now) = availabilityBlocked))
     \<and> (\<forall>e. fst r = Inl e \<longrightarrow> snd r = qm)"
proof -
  have "filter_available rs qm auths model now = [] \<longleftrightarrow> (\<forall>a. a \<notin> set (filter_available rs qm auths model now))"
    by (cases "filter_available rs qm auths model now") auto
  then have nil: "filter_available rs qm auths model now = [] \<longleftrightarrow> (\<forall>a \<in> set auths. a_disabled a
      \<or> fst (check_availability rs (get_state qm (a_id a)) a model now) = availabilityBlocked)"
    by (auto simp: in_filter_available)
  show ?thesis
    using assms
    by (cases rule: qm_pick_cases [where rs = rs and auths = auths and model = model and now = now
          and avail = avail and provider = provider and fr = fr])
      (use nil in \<open>auto simp: Let_def\<close>)
qed

lemma qm_pick_fails_iff_witness:
  "fst (qm_pick [] (sort_key snd) (\<lambda>_. 0) (\<lambda>_. 0) ''claude'' ''m'' False
      [auth_zero\<lparr>a_disabled := True\<rparr>] new_quota_manager 5)
   \<in> range Inl"
proof -
  have srt: "sort_slice_ok (sort_key snd)" by (simp add: sort_slice_ok_def)
  have d: "draw_ok (\<lambda>_. 0)" by (simp add: draw_ok_def)
  have "\<exists>e. qm_pick [] (sort_key snd) (\<lambda>_. 0) (\<lambda>_. 0) ''claude'' ''m'' False
      [auth_zero\<lparr>a_disabled := True\<rparr>] new_quota_manager 5 = (Inl e, new_quota_manager)"
    using qm_pick_fails_iff [OF qm_ok_new srt d, of "[]" "\<lambda>_. 0" "''claude''" "''m''" False
        "[auth_zero\<lparr>a_disabled := True\<rparr>]" 5]
    by (simp add: Let_def)
  then show ?thesis by auto
qed

text \<open>
  A quota error takes a credential out of rotation. After a 429 with a server-supplied delay
  no strategy lets the credential be picked before the delay is over; a later successful request
  lifts the cooldown at once.
\<close>

theorem quota_hit_blocks_until:
  assumes "qm_ok qm" and "0 < d" and "unix_epoch < now" and "time_ok (now + d)" and "t < now + d"
  shows "let qm1 = record_quota_hit i provider (Some d) qm now;
             qm2 = record_request_end i provider tokens False qm1
         in fst (check_availability rs (get_state qm1 i) a model t) = availabilityBlocked
            \<and> get_cooldown_until (the (get_state qm2 i)) = 0"
proof -
  let ?s = "on_quota_hit (get_strategy provider) (state_or_new qm i) (Some d) now"
  have "get_state (record_quota_hit i provider (Some d) qm now) i = Some ?s"
    using assms(1) by (simp add: record_quota_hit_def get_state_modify)
  moreover have "t < get_cooldown_until ?s"
    using on_quota_hit_cooldown [OF assms(2-4), of "get_strategy provider" "state_or_new qm i"] assms(5)
    by linarith
  moreover have "qm_ok (record_quota_hit i provider (Some d) qm now)"
    using assms(1) by (simp add: record_quota_hit_def)
  then have "get_cooldown_until (the (get_state (record_request_end i provider tokens False
      (record_quota_hit i provider (Some d) qm now)) i)) = 0"
    by (simp add: record_request_end_def get_state_modify Let_def get_cooldown_until_def nanos_of_def
        of_nanos_def)
  ultimately show ?thesis by (simp add: Let_def blocked_by_cooldown)
qed

lemma quota_hit_blocks_until_witness:
  "fst (check_availability default_resolvers
     (get_state (record_quota_hit ''x'' ''claude'' (Some second) new_quota_manager (unix_epoch + 5)) ''x'')
     auth_zero ''m'' (unix_epoch + 6)) = availabilityBlocked"
  using quota_hit_blocks_until [OF qm_ok_new, of second "unix_epoch + 5" "unix_epoch + 6" "''x''"
      "''claude''" 0 default_resolvers auth_zero "''m''"]
  by (simp add: Let_def go_time time_ok_def in64_def)

text \<open>
  Requests are counted. Ending a request undoes the count of its start, whether it failed or
  not; a stray end leaves the count at zero, never below, and touches no other credential.
\<close>

theorem request_accounting:
  assumes "qm_ok qm" and "0 \<le> active qm i" and "active qm i < 2 ^ 63 - 1"
  shows "active (record_request_end i p n failed (record_request_start i qm)) i = active qm i
     \<and> 0 \<le> active (record_request_end i p n failed qm) i
     \<and> (j \<noteq> i \<longrightarrow> get_state (record_request_end i p n failed qm) j = get_state qm j)"
proof -
  have u: "qf_active_requests (record_usage s st n) = qf_active_requests st" for s st n
    by (simp add: record_usage_def)
  have c: "qf_active_requests (set_cooldown_until t st) = qf_active_requests st" for t st
    by (simp add: set_cooldown_until_def)
  have "in64 (active qm i + 1)" using assms by (simp add: in64_def)
  then show ?thesis
    using assms
    by (simp add: record_request_end_def record_request_start_def increment_active_def active_def
        state_or_new_modify get_state_modify Let_def u c)
qed

lemma request_accounting_witness:
  "active (record_request_end ''x'' ''claude'' 3 True (record_request_start ''x'' new_quota_manager)) ''x'' = 0"
proof -
  have "active new_quota_manager ''x'' = 0"
    by (simp add: quota.get_empty get_state_def new_quota_manager_def active_def state_or_new_def
        quota_fields_zero_def)
  then show ?thesis
    using request_accounting [OF qm_ok_new, of "''x''" "''claude''" 3 True "''y''"] by simp
qed

text \<open>
  Quota snapshots. A reading at or below two per cent leaves the credential cooling down
  until the window resets (five hours when that is unknown) or until an earlier end already set;
  every reading above it, those between two and five per cent included, ends the cooldown.
\<close>

theorem snapshot_sets_cooldown:
  assumes "unix_epoch < now" and "time_ok (now + 5 * hour)"
    and "time_ok (rq_window_reset_at rq)" and "0 \<le> qf_cooldown_until s"
  shows "let s' = handle_quota_snapshot_update rq s now;
             end_at = (if now < rq_window_reset_at rq then rq_window_reset_at rq else now + 5 * hour);
             old = get_cooldown_until s
         in get_cooldown_until s' =
              (if rq_remaining_fraction rq \<le> quota_exhausted_threshold
               then (if old = 0 then end_at else min old end_at) else 0)"
proof -
  let ?e = "if now < rq_window_reset_at rq then rq_window_reset_at rq else now + 5 * hour"
  have e: "time_ok ?e" "unix_epoch < ?e" using assms by (auto simp: hour_def)
  then have ns: "unix_nano ?e = ?e - unix_epoch" by (simp add: unix_nano_def time_ok_def)
  have w: "(if rq_window_reset_at rq \<noteq> 0 \<and> now < rq_window_reset_at rq
      then rq_window_reset_at rq else now + 5 * hour) = ?e"
    using assms(1) by (auto simp: unix_epoch_def)
  have old: "get_cooldown_until s = 0 \<longleftrightarrow> qf_cooldown_until s = 0"
    "qf_cooldown_until s \<noteq> 0 \<Longrightarrow> get_cooldown_until s = qf_cooldown_until s + unix_epoch"
    using assms(4) by (auto simp: get_cooldown_until_def of_nanos_def time_unix_def unix_epoch_def)
  show ?thesis
    unfolding handle_quota_snapshot_update_def w Let_def ns
    using e old
    by (auto simp: get_cooldown_until_def of_nanos_def time_unix_def min_def set_last_exhausted_at_def)
qed

lemma snapshot_sets_cooldown_witness:
  "get_cooldown_until (handle_quota_snapshot_update
     \<lparr>rq_remaining_fraction = 3 / 100, rq_remaining_tokens = 9, rq_window_reset_at = unix_epoch + 9,
      rq_fetched_at = unix_epoch + 4\<rparr>
     (quota_fields_zero\<lparr>qf_cooldown_until := 77\<rparr>) (unix_epoch + 5)) = 0"
proof -
  have "\<not> (3 / 100 \<le> quota_exhausted_threshold)" by code_simp
  then show ?thesis
    using snapshot_sets_cooldown [of "unix_epoch + 5"
      "\<lparr>rq_remaining_fraction = 3 / 100, rq_remaining_tokens = 9, rq_window_reset_at = unix_epoch + 9,
        rq_fetched_at = unix_epoch + 4\<rparr>" "quota_fields_zero\<lparr>qf_cooldown_until := 77\<rparr>"]
    by (simp add: Let_def time_ok_def in64_def hour_def)
qed

end
