(* ===== verification/RefreshHeap.thy ===== *)
theory RefreshHeap
  imports Prelude "HOL-Library.Multiset"
begin

text \<open>
  The refresh queue of the registry (\<open>internal/provider/auth_registry.go\<close>, \<open>refreshHeap\<close> and the
  functions that schedule refreshes) over the binary heap of \<open>container/heap\<close>. Entries are
  objects in a store, shared by the heap, which writes their position into them, and by the map
  from credentials to entries, which \<open>heap.Remove\<close> trusts for that position.
\<close>

section \<open>Objects and the heap interface\<close>

record refresh_entry =
  rh_auth_id :: string
  rh_refresh_at :: gotime
  rh_index :: int

text \<open>Addresses below \<open>rf_next\<close> are in use; the heap and the map hold addresses.\<close>

record refresher =
  rf_objs :: "nat \<Rightarrow> refresh_entry"
  rf_next :: nat
  rf_heap :: "nat list"
  rf_entries :: "(string, nat) gomap"

definition refresher_init :: refresher where
  "refresher_init = \<lparr>rf_objs = (\<lambda>_. \<lparr>rh_auth_id = [], rh_refresh_at = 0, rh_index = 0\<rparr>),
     rf_next = 0, rf_heap = [], rf_entries = []\<rparr>"

definition set_index :: "nat \<Rightarrow> int \<Rightarrow> refresher \<Rightarrow> refresher" where
  "set_index p i r = r\<lparr>rf_objs := (rf_objs r)(p := (rf_objs r p)\<lparr>rh_index := i\<rparr>)\<rparr>"

definition rh_len :: "refresher \<Rightarrow> nat" where
  "rh_len r = length (rf_heap r)"

definition rh_less :: "refresher \<Rightarrow> nat \<Rightarrow> nat \<Rightarrow> bool" where
  "rh_less r i j \<longleftrightarrow>
     rh_refresh_at (rf_objs r (rf_heap r ! i)) < rh_refresh_at (rf_objs r (rf_heap r ! j))"

definition rh_swap :: "nat \<Rightarrow> nat \<Rightarrow> refresher \<Rightarrow> refresher" where
  "rh_swap i j r =
     (let a = rf_heap r ! i; b = rf_heap r ! j;
          r1 = r\<lparr>rf_heap := (rf_heap r)[i := b, j := a]\<rparr>
      in set_index (rf_heap r1 ! j) (int j) (set_index (rf_heap r1 ! i) (int i) r1))"

definition rh_push :: "nat \<Rightarrow> refresher \<Rightarrow> refresher" where
  "rh_push p r =
     (let n = rh_len r; r1 = set_index p (int n) r in r1\<lparr>rf_heap := rf_heap r1 @ [p]\<rparr>)"

definition rh_pop :: "refresher \<Rightarrow> nat \<times> refresher" where
  "rh_pop r =
     (let p = last (rf_heap r); r1 = set_index p (-1) r
      in (p, r1\<lparr>rf_heap := butlast (rf_heap r1)\<rparr>))"

section \<open>\<open>container/heap\<close>\<close>

function heap_up :: "nat \<Rightarrow> refresher \<Rightarrow> refresher" where
  "heap_up j r =
     (let i = (j - 1) div 2 in
      if i = j \<or> \<not> rh_less r j i then r else heap_up i (rh_swap i j r))"
  by pat_completeness auto
termination
  by (relation "measure fst") auto

text \<open>The result says whether the element moved; \<open>start\<close> is where it began.\<close>

definition smaller_child :: "refresher \<Rightarrow> nat \<Rightarrow> nat \<Rightarrow> nat" where
  "smaller_child r i n =
     (let j1 = 2 * i + 1 in if j1 + 1 < n \<and> rh_less r (j1 + 1) j1 then j1 + 1 else j1)"

lemma smaller_child_bounds: "i < smaller_child r i n" "\<not> n \<le> 2 * i + 1 \<Longrightarrow> smaller_child r i n < n"
  by (auto simp: smaller_child_def Let_def)

function heap_down_from :: "nat \<Rightarrow> nat \<Rightarrow> nat \<Rightarrow> refresher \<Rightarrow> bool \<times> refresher" where
  "heap_down_from start i n r =
     (if n \<le> 2 * i + 1 then (start < i, r)
      else let j = smaller_child r i n in
        if \<not> rh_less r j i then (start < i, r)
        else heap_down_from start j n (rh_swap i j r))"
  by pat_completeness auto
termination
  using smaller_child_bounds
  by (relation "measure (\<lambda>(_, i, n, _). n - i)") (auto intro!: diff_less_mono2 simp: less_le_trans)

declare heap_up.simps [simp del] heap_down_from.simps [simp del]

definition heap_down :: "nat \<Rightarrow> nat \<Rightarrow> refresher \<Rightarrow> bool \<times> refresher" where
  "heap_down i n r = heap_down_from i i n r"

definition heap_push :: "nat \<Rightarrow> refresher \<Rightarrow> refresher" where
  "heap_push p r = (let r1 = rh_push p r in heap_up (rh_len r1 - 1) r1)"

definition heap_pop :: "refresher \<Rightarrow> nat \<times> refresher" where
  "heap_pop r = (let n = rh_len r - 1 in rh_pop (snd (heap_down 0 n (rh_swap 0 n r))))"

definition heap_remove :: "nat \<Rightarrow> refresher \<Rightarrow> nat \<times> refresher" where
  "heap_remove i r =
     (let n = rh_len r - 1;
          r1 = (if n \<noteq> i then
                  (let (moved, r2) = heap_down i n (rh_swap i n r)
                   in if moved then r2 else heap_up i r2)
                else r)
      in rh_pop r1)"

section \<open>Scheduling\<close>

text \<open>
  The index read from an object in the map is a position of the heap, never the -1 of an entry
  that left it (\<open>rf_ok\<close> below), so \<open>nat\<close> loses nothing.
\<close>

definition schedule_refresh :: "string \<Rightarrow> gotime \<Rightarrow> refresher \<Rightarrow> refresher" where
  "schedule_refresh auth_id t r =
     (let r1 = (case mget (rf_entries r) auth_id of
                  None \<Rightarrow> r
                | Some p \<Rightarrow> snd (heap_remove (nat (rh_index (rf_objs r p))) r));
          p = rf_next r1;
          r2 = r1\<lparr>rf_objs := (rf_objs r1)(p := \<lparr>rh_auth_id = auth_id, rh_refresh_at = t, rh_index = 0\<rparr>),
                  rf_next := Suc p, rf_entries := mput auth_id p (rf_entries r1)\<rparr>
      in heap_push p r2)"

definition unschedule_refresh :: "string \<Rightarrow> refresher \<Rightarrow> refresher" where
  "unschedule_refresh auth_id r =
     (case mget (rf_entries r) auth_id of
        None \<Rightarrow> r
      | Some p \<Rightarrow>
          (let r1 = snd (heap_remove (nat (rh_index (rf_objs r p))) r)
           in r1\<lparr>rf_entries := mdel auth_id (rf_entries r1)\<rparr>))"

text \<open>\<open>processNextRefresh\<close>: the credential to refresh, if any is scheduled.\<close>

definition process_next_refresh :: "refresher \<Rightarrow> string option \<times> refresher" where
  "process_next_refresh r =
     (if rh_len r = 0 then (None, r)
      else let (p, r1) = heap_pop r; i = rh_auth_id (rf_objs r1 p)
           in (Some i, r1\<lparr>rf_entries := mdel i (rf_entries r1)\<rparr>))"

text \<open>What the loop waits for: the first time, the zero time when nothing is scheduled.\<close>

definition next_refresh_time :: "refresher \<Rightarrow> gotime" where
  "next_refresh_time r = (if rh_len r = 0 then 0 else rh_refresh_at (rf_objs r (rf_heap r ! 0)))"

definition refresh_wait :: "refresher \<Rightarrow> gotime \<Rightarrow> duration" where
  "refresh_wait r now =
     (let t = next_refresh_time r in
      if t = 0 then hour else let w = time_sub t now in if w < 0 then 0 else w)"

section \<open>Swapping\<close>

definition key :: "refresher \<Rightarrow> nat \<Rightarrow> gotime" where
  "key r i = rh_refresh_at (rf_objs r (rf_heap r ! i))"

definition parent :: "nat \<Rightarrow> nat" where
  "parent k = (k - 1) div 2"

text \<open>What no heap operation changes, and the back-pointers every one keeps.\<close>

definition same_content :: "refresher \<Rightarrow> refresher \<Rightarrow> bool" where
  "same_content r r' \<longleftrightarrow> mset (rf_heap r') = mset (rf_heap r)
     \<and> (\<forall>p. rh_auth_id (rf_objs r' p) = rh_auth_id (rf_objs r p)
          \<and> rh_refresh_at (rf_objs r' p) = rh_refresh_at (rf_objs r p))
     \<and> rf_next r' = rf_next r \<and> rf_entries r' = rf_entries r"

definition index_ok :: "refresher \<Rightarrow> bool" where
  "index_ok r \<longleftrightarrow> distinct (rf_heap r)
     \<and> (\<forall>i < length (rf_heap r). rh_index (rf_objs r (rf_heap r ! i)) = int i)"

definition ordered :: "refresher \<Rightarrow> nat \<Rightarrow> bool" where
  "ordered r n \<longleftrightarrow> (\<forall>k < n. 0 < k \<longrightarrow> key r (parent k) \<le> key r k)"

lemma same_content_refl [simp]: "same_content r r"
  by (simp add: same_content_def)

lemma same_content_trans: "same_content r s \<Longrightarrow> same_content s t \<Longrightarrow> same_content r t"
  by (simp add: same_content_def)

lemma same_content_length: "same_content r s \<Longrightarrow> length (rf_heap s) = length (rf_heap r)"
  unfolding same_content_def by (metis size_mset)

lemma rh_less_key: "rh_less r i j \<longleftrightarrow> key r i < key r j"
  by (simp add: rh_less_def key_def)

lemma swap_heap [simp]: "rf_heap (rh_swap i j r) = (rf_heap r)[i := rf_heap r ! j, j := rf_heap r ! i]"
  by (simp add: rh_swap_def set_index_def Let_def)

lemma swap_data [simp]:
  "rh_auth_id (rf_objs (rh_swap i j r) p) = rh_auth_id (rf_objs r p)"
  "rh_refresh_at (rf_objs (rh_swap i j r) p) = rh_refresh_at (rf_objs r p)"
  by (simp_all add: rh_swap_def set_index_def Let_def)

lemma swap_same: "i < length (rf_heap r) \<Longrightarrow> j < length (rf_heap r) \<Longrightarrow> same_content r (rh_swap i j r)"
  by (simp add: same_content_def mset_swap) (simp add: rh_swap_def set_index_def Let_def)

lemma swap_key:
  "i < length (rf_heap r) \<Longrightarrow> j < length (rf_heap r) \<Longrightarrow>
     key (rh_swap i j r) k = key r (if k = i then j else if k = j then i else k)"
  by (simp add: key_def nth_list_update)

lemma swap_index_ok:
  assumes "index_ok r" "i < length (rf_heap r)" "j < length (rf_heap r)"
  shows "index_ok (rh_swap i j r)"
proof -
  let ?h = "(rf_heap r)[i := rf_heap r ! j, j := rf_heap r ! i]"
  have d: "distinct ?h" using assms by (simp add: index_ok_def)
  have h: "?h ! i = rf_heap r ! j" "?h ! j = rf_heap r ! i"
    using assms by (simp_all add: nth_list_update)
  have ij: "rf_heap r ! i = rf_heap r ! j \<Longrightarrow> i = j"
    using assms by (simp add: index_ok_def nth_eq_iff_index_eq)
  have "rh_index (rf_objs (rh_swap i j r) (?h ! k)) = int k" if k: "k < length (rf_heap r)" for k
  proof (cases "k = i \<or> k = j")
    case True
    show ?thesis
    proof (cases "i = j")
      case True
      then show ?thesis using \<open>k = i \<or> k = j\<close> assms
        by (simp add: rh_swap_def set_index_def Let_def)
    next
      case False
      then have "rf_heap r ! i \<noteq> rf_heap r ! j" using ij by blast
      then show ?thesis using \<open>k = i \<or> k = j\<close> h False
        by (elim disjE) (simp_all add: rh_swap_def set_index_def Let_def)
    qed
  next
    case False
    then have "?h ! k \<noteq> ?h ! i" "?h ! k \<noteq> ?h ! j"
      unfolding h using k assms by (simp_all add: nth_eq_iff_index_eq index_ok_def)
    moreover have "?h ! k = rf_heap r ! k" using False by simp
    ultimately show ?thesis
      using assms k by (simp add: rh_swap_def set_index_def Let_def index_ok_def)
  qed
  with d show ?thesis by (simp add: index_ok_def)
qed

section \<open>The heap algorithms\<close>

text \<open>The part of the heap a run on the first \<open>n\<close> positions leaves alone, and the rest.\<close>

definition keeps :: "nat \<Rightarrow> refresher \<Rightarrow> refresher \<Rightarrow> bool" where
  "keeps n r r' \<longleftrightarrow> same_content r r' \<and> (index_ok r \<longrightarrow> index_ok r')
     \<and> (\<forall>k \<ge> n. rf_heap r' ! k = rf_heap r ! k)"

lemma keeps_refl [simp]: "keeps n r r"
  by (simp add: keeps_def)

lemma keeps_trans: "keeps n r s \<Longrightarrow> keeps n s t \<Longrightarrow> keeps n r t"
  unfolding keeps_def by (auto intro: same_content_trans)

lemma keeps_swap: "i < n \<Longrightarrow> j < n \<Longrightarrow> n \<le> length (rf_heap r) \<Longrightarrow> keeps n r (rh_swap i j r)"
  by (auto simp: keeps_def swap_same swap_index_ok)

lemma keeps_length: "keeps n r s \<Longrightarrow> length (rf_heap s) = length (rf_heap r)"
  by (simp add: keeps_def same_content_length)

lemma parent_less: "0 < k \<Longrightarrow> parent k < k"
  by (simp add: parent_def)

text \<open>Going up: all edges are in order but the one above \<open>j\<close>.\<close>

lemma heap_up_ordered:
  assumes "j < n" "n \<le> length (rf_heap r)"
    and "\<forall>k < n. 0 < k \<longrightarrow> k \<noteq> j \<longrightarrow> key r (parent k) \<le> key r k"
    and "\<forall>k < n. 0 < k \<longrightarrow> parent k = j \<longrightarrow> 0 < j \<longrightarrow> key r (parent j) \<le> key r k"
  shows "ordered (heap_up j r) n \<and> keeps n r (heap_up j r)"
  using assms
proof (induction j r rule: heap_up.induct)
  case (1 j r)
  let ?i = "parent j"
  show ?case
  proof (cases "?i = j \<or> \<not> rh_less r j ?i")
    case True
    then have "heap_up j r = r" by (subst heap_up.simps) (simp add: parent_def)
    moreover have "key r ?i \<le> key r j" using True by (auto simp: rh_less_key)
    then have "ordered r n" using "1.prems"(3) by (auto simp: ordered_def)
    ultimately show ?thesis by simp
  next
    case False
    have j: "0 < j" "?i < j" "?i < n" using False "1.prems"(1) by (auto simp: parent_def)
    let ?r = "rh_swap ?i j r"
    have eq: "heap_up j r = heap_up ?i ?r" using False by (subst heap_up.simps) (simp add: parent_def Let_def)
    have less: "key r j < key r ?i" using False by (simp add: rh_less_key)
    have k: "key ?r k = key r (if k = ?i then j else if k = j then ?i else k)" for k
      using j "1.prems"(1, 2) by (intro swap_key) auto
    have e1: "\<forall>k < n. 0 < k \<longrightarrow> k \<noteq> ?i \<longrightarrow> key ?r (parent k) \<le> key ?r k"
    proof (intro allI impI)
      fix x assume x: "x < n" "0 < x" "x \<noteq> ?i"
      consider "x = j" | "x \<noteq> j" "parent x = j" | "x \<noteq> j" "parent x = ?i"
        | "x \<noteq> j" "parent x \<noteq> j" "parent x \<noteq> ?i" by blast
      then show "key ?r (parent x) \<le> key ?r x"
      proof cases
        case 1
        then show ?thesis using less j by (simp add: k)
      next
        case 2
        then show ?thesis using x "1.prems"(4) j by (simp add: k)
      next
        case 3
        then have "key r ?i \<le> key r x" using x "1.prems"(3) by metis
        with 3 x less show ?thesis by (simp add: k)
      next
        case 4
        then show ?thesis using x "1.prems"(3) by (simp add: k)
      qed
    qed
    have e2: "\<forall>k < n. 0 < k \<longrightarrow> parent k = ?i \<longrightarrow> 0 < ?i \<longrightarrow> key ?r (parent ?i) \<le> key ?r k"
    proof (intro allI impI)
      fix x assume x: "x < n" "0 < x" "parent x = ?i" "0 < ?i"
      have pi: "parent ?i \<noteq> ?i" "parent ?i \<noteq> j" "x \<noteq> ?i"
        using parent_less [OF x(4)] parent_less [OF x(2)] j x(3) by auto
      have up: "key r (parent ?i) \<le> key r ?i" using "1.prems"(3) x(4) j by auto
      moreover have "x \<noteq> j \<Longrightarrow> key r ?i \<le> key r x" using "1.prems"(3) x by metis
      ultimately show "key ?r (parent ?i) \<le> key ?r x" using pi by (auto simp: k intro: order_trans)
    qed
    have "ordered (heap_up ?i ?r) n \<and> keeps n ?r (heap_up ?i ?r)"
      using False j "1.prems"(2) e1 e2 "1.IH" [OF refl] by (simp add: parent_def)
    moreover have "keeps n r ?r" using j "1.prems" by (intro keeps_swap) auto
    ultimately show ?thesis unfolding eq by (auto intro: keeps_trans)
  qed
qed

text \<open>
  Going down from \<open>i\<close>: all edges are in order but those below \<open>i\<close>, and what is above \<open>i\<close> is
  below nothing under it.
\<close>

lemma parent_eq: "0 < k \<Longrightarrow> parent k = i \<longleftrightarrow> k = 2 * i + 1 \<or> k = 2 * i + 2"
  unfolding parent_def by presburger

lemma heap_down_ordered:
  assumes "i < n \<or> n = 0" "n \<le> length (rf_heap r)"
    and "\<forall>k < n. 0 < k \<longrightarrow> parent k \<noteq> i \<longrightarrow> key r (parent k) \<le> key r k"
    and "\<forall>k < n. 0 < k \<longrightarrow> parent k = i \<longrightarrow> 0 < i \<longrightarrow> key r (parent i) \<le> key r k"
  shows "ordered (snd (heap_down_from start i n r)) n \<and> keeps n r (snd (heap_down_from start i n r))"
  using assms
proof (induction start i n r rule: heap_down_from.induct)
  case (1 start i n r)
  let ?j = "smaller_child r i n"
  have sc: "?j = 2 * i + 1 \<or> ?j = 2 * i + 2" by (auto simp: smaller_child_def Let_def)
  have least: "key r ?j \<le> key r k" if "k < n" "0 < k" "parent k = i" for k
    using that parent_eq [OF that(2), of i] by (auto simp: smaller_child_def Let_def rh_less_key)
  show ?case
  proof (cases "n \<le> 2 * i + 1 \<or> \<not> rh_less r ?j i")
    case True
    then have eq: "heap_down_from start i n r = (start < i, r)"
      by (subst heap_down_from.simps) (auto simp: Let_def)
    have "key r i \<le> key r k" if "k < n" "0 < k" "parent k = i" for k
      using that True parent_eq [OF that(2), of i] least [OF that] by (auto simp: rh_less_key)
    then have "ordered r n" using "1.prems"(3) by (auto simp: ordered_def)
    with eq show ?thesis by simp
  next
    case False
    then have j: "?j < n" "i < ?j" "parent ?j = i" "i < n" "key r ?j < key r i"
      using smaller_child_bounds(1) [of i r n] smaller_child_bounds(2) [of n i r] sc by (auto simp: rh_less_key parent_def)
    let ?r = "rh_swap i ?j r"
    have eq: "heap_down_from start i n r = heap_down_from start ?j n ?r"
      using False by (subst heap_down_from.simps) (simp add: Let_def)
    have k: "key ?r k = key r (if k = i then ?j else if k = ?j then i else k)" for k
      using j "1.prems"(2) by (intro swap_key) linarith+
    have ki: "key ?r i = key r ?j" and kj: "key ?r ?j = key r i"
      and ko: "x \<noteq> i \<Longrightarrow> x \<noteq> ?j \<Longrightarrow> key ?r x = key r x" for x
      using j(2) by (auto simp: k)
    have e1: "\<forall>k < n. 0 < k \<longrightarrow> parent k \<noteq> ?j \<longrightarrow> key ?r (parent k) \<le> key ?r k"
    proof (intro allI impI)
      fix x assume x: "x < n" "0 < x" "parent x \<noteq> ?j"
      consider "x = ?j" | "x = i" | "x \<noteq> ?j" "x \<noteq> i" "parent x = i"
        | "x \<noteq> ?j" "x \<noteq> i" "parent x \<noteq> i" by blast
      then show "key ?r (parent x) \<le> key ?r x"
      proof cases
        case 1
        then have "parent x = i" using j(3) by simp
        with 1 j(5) show ?thesis by (simp only: ki kj less_imp_le)
      next
        case 2
        then have i: "0 < i" and p: "parent x \<noteq> i" using x(2) parent_less [OF x(2)] by auto
        have "0 < ?j" using j(2) by linarith
        then have "key r (parent i) \<le> key r ?j" using "1.prems"(4) j(1, 3) i by blast
        then show ?thesis using ko [OF p x(3)] ki 2 by simp
      next
        case 3
        then show ?thesis using least [OF x(1, 2)] ko [of x] ki by simp
      next
        case 4
        then show ?thesis using x "1.prems"(3) ko [of x] ko [of "parent x"] by simp
      qed
    qed
    have e2: "\<forall>k < n. 0 < k \<longrightarrow> parent k = ?j \<longrightarrow> 0 < ?j \<longrightarrow> key ?r (parent ?j) \<le> key ?r k"
    proof (intro allI impI)
      fix x assume x: "x < n" "0 < x" "parent x = ?j" "0 < ?j"
      have ne: "x \<noteq> ?j" "x \<noteq> i" "?j \<noteq> i" using parent_less [OF x(2)] x(3) j(2) by linarith+
      have "parent x \<noteq> i" using x(3) ne(3) by simp
      then have "key r (parent x) \<le> key r x" using "1.prems"(3) x(1, 2) by blast
      then show "key ?r (parent ?j) \<le> key ?r x" using ko [OF ne(2, 1)] ki j(3) x(3) by simp
    qed
    have "ordered (snd (heap_down_from start ?j n ?r)) n
        \<and> keeps n ?r (snd (heap_down_from start ?j n ?r))"
      using False j(1) "1.prems"(2) e1 e2 "1.IH" [OF _ refl] by simp
    moreover have "keeps n r ?r" using j "1.prems" by (intro keeps_swap) auto
    ultimately show ?thesis unfolding eq by (auto intro: keeps_trans)
  qed
qed

text \<open>
  Repairing one position, in either direction, as \<open>heap.Remove\<close> does after it has put the last
  element into the hole.
\<close>

definition heap_fix :: "nat \<Rightarrow> nat \<Rightarrow> refresher \<Rightarrow> refresher" where
  "heap_fix i n r = (let (moved, r2) = heap_down i n r in if moved then r2 else heap_up i r2)"

lemma heap_fix_ordered:
  assumes "i < n" "n \<le> length (rf_heap r)"
    and edges: "\<forall>k < n. 0 < k \<longrightarrow> parent k \<noteq> i \<longrightarrow> k \<noteq> i \<longrightarrow> key r (parent k) \<le> key r k"
    and skip: "\<forall>k < n. 0 < k \<longrightarrow> parent k = i \<longrightarrow> 0 < i \<longrightarrow> key r (parent i) \<le> key r k"
  shows "ordered (heap_fix i n r) n \<and> keeps n r (heap_fix i n r)"
proof (cases "0 < i \<and> key r i < key r (parent i)")
  case True
  have "key r i \<le> key r k" if "k < n" "0 < k" "parent k = i" for k
    using skip that True by fastforce
  then have "\<not> rh_less r (smaller_child r i n) i" if "\<not> n \<le> 2 * i + 1"
    using smaller_child_bounds(2) [OF that, of r] smaller_child_bounds(1) [of i r n]
    by (auto simp: rh_less_key smaller_child_def Let_def parent_def not_less split: if_splits)
  then have "heap_down i n r = (False, r)"
    unfolding heap_down_def by (subst heap_down_from.simps) (auto simp: Let_def)
  moreover have "ordered (heap_up i r) n \<and> keeps n r (heap_up i r)"
  proof (rule heap_up_ordered [OF assms(1, 2)])
    show "\<forall>k < n. 0 < k \<longrightarrow> k \<noteq> i \<longrightarrow> key r (parent k) \<le> key r k"
      using edges \<open>\<And>k. k < n \<Longrightarrow> 0 < k \<Longrightarrow> parent k = i \<Longrightarrow> key r i \<le> key r k\<close> by metis
  qed (rule skip)
  ultimately show ?thesis by (simp add: heap_fix_def)
next
  case False
  then have "\<forall>k < n. 0 < k \<longrightarrow> parent k \<noteq> i \<longrightarrow> key r (parent k) \<le> key r k"
    using edges by (metis not_less)
  from heap_down_ordered [OF _ assms(2) this skip, of i] assms(1)
  have d: "ordered (snd (heap_down i n r)) n" "keeps n r (snd (heap_down i n r))"
    by (auto simp: heap_down_def)
  let ?r = "snd (heap_down i n r)"
  have "ordered (heap_up i ?r) n \<and> keeps n ?r (heap_up i ?r)"
  proof (rule heap_up_ordered [OF assms(1)])
    show "n \<le> length (rf_heap ?r)" using assms(2) keeps_length [OF d(2)] by simp
    show "\<forall>k < n. 0 < k \<longrightarrow> k \<noteq> i \<longrightarrow> key ?r (parent k) \<le> key ?r k"
      using d(1) by (simp add: ordered_def)
    show "\<forall>k < n. 0 < k \<longrightarrow> parent k = i \<longrightarrow> 0 < i \<longrightarrow> key ?r (parent i) \<le> key ?r k"
    proof (intro allI impI)
      fix k assume k: "k < n" "0 < k" "parent k = i" "0 < i"
      have "key ?r (parent i) \<le> key ?r i" using d(1) k(4) assms(1) by (simp add: ordered_def)
      also have "\<dots> \<le> key ?r k" using d(1) k by (metis ordered_def)
      finally show "key ?r (parent i) \<le> key ?r k" .
    qed
  qed
  with d show ?thesis by (auto simp: heap_fix_def case_prod_unfold Let_def intro: keeps_trans)
qed

section \<open>The invariant, and the abstract schedule\<close>

definition rf_ok :: "refresher \<Rightarrow> bool" where
  "rf_ok r \<longleftrightarrow> index_ok r \<and> ordered r (length (rf_heap r)) \<and> wf_map (rf_entries r)
     \<and> (\<forall>p \<in> set (rf_heap r). p < rf_next r)
     \<and> (\<forall>i p. mget (rf_entries r) i = Some p \<longleftrightarrow> p \<in> set (rf_heap r) \<and> rh_auth_id (rf_objs r p) = i)"

text \<open>When the refresh of a credential is due, if one is scheduled.\<close>

definition schedule :: "refresher \<Rightarrow> string \<Rightarrow> gotime option" where
  "schedule r i = map_option (\<lambda>p. rh_refresh_at (rf_objs r p)) (mget (rf_entries r) i)"

lemma rf_ok_init: "rf_ok refresher_init"
  by (simp add: rf_ok_def refresher_init_def index_ok_def ordered_def)

lemma ordered_root:
  assumes "ordered r n" "k < n"
  shows "key r 0 \<le> key r k"
  using assms(2)
proof (induction k rule: less_induct)
  case (less k)
  show ?case
  proof (cases "k = 0")
    case False
    then have "parent k < k" by (simp add: parent_less)
    moreover have "key r (parent k) \<le> key r k" using assms(1) less.prems False by (simp add: ordered_def)
    ultimately show ?thesis using less.IH [of "parent k"] less.prems by simp
  qed simp
qed

text \<open>A well-indexed, ordered heap on all its positions.\<close>

definition heap_ok :: "refresher \<Rightarrow> bool" where
  "heap_ok r \<longleftrightarrow> index_ok r \<and> ordered r (length (rf_heap r))"

definition same_data :: "refresher \<Rightarrow> refresher \<Rightarrow> bool" where
  "same_data r r' \<longleftrightarrow> (\<forall>p. rh_auth_id (rf_objs r' p) = rh_auth_id (rf_objs r p)
       \<and> rh_refresh_at (rf_objs r' p) = rh_refresh_at (rf_objs r p))
     \<and> rf_next r' = rf_next r \<and> rf_entries r' = rf_entries r"

lemma heap_push_ok:
  assumes "heap_ok r" "p \<notin> set (rf_heap r)"
  shows "heap_ok (heap_push p r) \<and> mset (rf_heap (heap_push p r)) = add_mset p (mset (rf_heap r))
     \<and> same_data r (heap_push p r)"
proof -
  let ?n = "length (rf_heap r)" and ?r = "rh_push p r"
  have h: "rf_heap ?r = rf_heap r @ [p]" by (simp add: rh_push_def set_index_def Let_def)
  have sd: "same_data r ?r" by (simp add: same_data_def rh_push_def set_index_def Let_def)
  have ix: "index_ok ?r"
    using assms by (auto simp: heap_ok_def index_ok_def h nth_append rh_push_def set_index_def Let_def
        rh_len_def less_Suc_eq)
  have k: "key ?r k = key r k" if "k < ?n" for k
    using that sd by (simp add: key_def h nth_append same_data_def)
  have "ordered (heap_up ?n ?r) (Suc ?n) \<and> keeps (Suc ?n) ?r (heap_up ?n ?r)"
  proof (rule heap_up_ordered)
    show "\<forall>k < Suc ?n. 0 < k \<longrightarrow> k \<noteq> ?n \<longrightarrow> key ?r (parent k) \<le> key ?r k"
      using assms(1) k parent_less by (auto simp: heap_ok_def ordered_def less_Suc_eq) (metis less_trans)
    show "\<forall>k < Suc ?n. 0 < k \<longrightarrow> parent k = ?n \<longrightarrow> 0 < ?n \<longrightarrow> key ?r (parent ?n) \<le> key ?r k"
      using parent_less by (metis less_Suc_eq less_asym less_irrefl)
  qed (simp_all add: h)
  moreover from this have "length (rf_heap (heap_up ?n ?r)) = Suc ?n"
    using keeps_length [of "Suc ?n" ?r "heap_up ?n ?r"] h by simp
  ultimately show ?thesis
    using ix sd h unfolding heap_push_def Let_def
    by (auto simp: rh_len_def keeps_def heap_ok_def same_content_def same_data_def)
qed

lemma fst_rh_pop: "fst (rh_pop r) = last (rf_heap r)"
  by (simp add: rh_pop_def Let_def)

lemma rh_pop_ok:
  assumes "index_ok r" "ordered r (length (rf_heap r) - 1)" "rf_heap r \<noteq> []"
  shows "fst (rh_pop r) = last (rf_heap r) \<and> heap_ok (snd (rh_pop r))
     \<and> rf_heap (snd (rh_pop r)) = butlast (rf_heap r) \<and> same_data r (snd (rh_pop r))"
proof -
  let ?r = "snd (rh_pop r)"
  have h: "rf_heap ?r = butlast (rf_heap r)" by (simp add: rh_pop_def set_index_def Let_def)
  have sd: "same_data r ?r" by (simp add: same_data_def rh_pop_def set_index_def Let_def)
  have nl: "butlast (rf_heap r) ! k \<noteq> last (rf_heap r)" if "k < length (rf_heap r) - 1" for k
  proof -
    have "distinct (butlast (rf_heap r) @ [last (rf_heap r)])" using assms by (simp add: index_ok_def)
    then have "last (rf_heap r) \<notin> set (butlast (rf_heap r))" by simp
    moreover have "butlast (rf_heap r) ! k \<in> set (butlast (rf_heap r))"
      using that by (intro nth_mem) simp
    ultimately show ?thesis by metis
  qed
  have obj: "rf_objs ?r p = rf_objs r p" if "p \<noteq> last (rf_heap r)" for p
    using that by (simp add: rh_pop_def set_index_def Let_def)
  have "index_ok ?r"
    unfolding index_ok_def h
  proof (intro conjI allI impI)
    show "distinct (butlast (rf_heap r))" using assms(1) by (simp add: index_ok_def distinct_butlast)
    fix k assume "k < length (butlast (rf_heap r))"
    then have k: "k < length (rf_heap r) - 1" by simp
    then have "butlast (rf_heap r) ! k = rf_heap r ! k" by (simp add: nth_butlast)
    then show "rh_index (rf_objs ?r (butlast (rf_heap r) ! k)) = int k"
      using obj [OF nl [OF k]] assms(1) k by (simp add: index_ok_def)
  qed
  moreover have "ordered ?r (length (rf_heap ?r))"
  proof -
    have "key ?r k = key r k" if "k < length (rf_heap r) - 1" for k
      using that sd by (simp add: key_def h nth_butlast same_data_def)
    moreover have "k < n \<Longrightarrow> 0 < k \<Longrightarrow> parent k < n" for k n :: nat
      using parent_less [of k] by simp
    ultimately show ?thesis using assms(2) by (simp add: ordered_def h)
  qed
  ultimately show ?thesis using h sd by (simp add: heap_ok_def fst_rh_pop)
qed

text \<open>Removing the element at a position: it comes out, the rest stays.\<close>

lemma drop_last_ok:
  assumes r: "heap_ok r" "i < length (rf_heap r)"
    and s: "keeps (length (rf_heap r) - 1) (rh_swap i (length (rf_heap r) - 1) r) s"
      "ordered s (length (rf_heap r) - 1)"
  shows "fst (rh_pop s) = rf_heap r ! i \<and> heap_ok (snd (rh_pop s)) \<and> same_data r (snd (rh_pop s))
     \<and> mset (rf_heap r) = add_mset (rf_heap r ! i) (mset (rf_heap (snd (rh_pop s))))"
proof -
  let ?n = "length (rf_heap r) - 1"
  have n: "?n < length (rf_heap r)" using r(2) by simp
  have sw: "same_content r (rh_swap i ?n r)" by (rule swap_same [OF r(2) n])
  then have sc: "same_content r s" using s(1) by (auto simp: keeps_def intro: same_content_trans)
  then have len: "length (rf_heap s) = length (rf_heap r)" by (rule same_content_length)
  have ix: "index_ok s" using s(1) swap_index_ok [OF _ r(2) n] r(1) by (simp add: keeps_def heap_ok_def)
  have ne: "rf_heap s \<noteq> []" using len r(2) by auto
  have "last (rf_heap s) = rf_heap s ! ?n" using ne len by (simp add: last_conv_nth)
  also have "\<dots> = rf_heap r ! i" using s(1) r(2) n by (simp add: keeps_def nth_list_update)
  finally have l: "last (rf_heap s) = rf_heap r ! i" .
  have "rf_heap s = butlast (rf_heap s) @ [rf_heap r ! i]" using ne l by (metis append_butlast_last_id)
  then have "mset (rf_heap s) = add_mset (rf_heap r ! i) (mset (butlast (rf_heap s)))"
    by (metis mset.simps(2) mset_append union_code mset_single_iff_right add_mset_add_single mset.simps(1))
  then show ?thesis
    using rh_pop_ok [OF ix] s(2) ne len l sc by (auto simp: same_content_def same_data_def)
qed

lemma heap_remove_ok:
  assumes "heap_ok r" "i < length (rf_heap r)"
  shows "fst (heap_remove i r) = rf_heap r ! i \<and> heap_ok (snd (heap_remove i r))
     \<and> same_data r (snd (heap_remove i r))
     \<and> mset (rf_heap r) = add_mset (rf_heap r ! i) (mset (rf_heap (snd (heap_remove i r))))"
proof -
  let ?n = "length (rf_heap r) - 1"
  let ?r = "rh_swap i ?n r"
  have n: "?n < length (rf_heap r)" using assms(2) by simp
  have ord: "ordered r (length (rf_heap r))" using assms(1) by (simp add: heap_ok_def)
  show ?thesis
  proof (cases "?n = i")
    case True
    have "keeps ?n ?r r"
    proof -
      have ix: "index_ok r" "index_ok ?r"
        using assms(1) swap_index_ok [OF _ assms(2) n] by (simp_all add: heap_ok_def)
      moreover have "same_content ?r r"
        using swap_same [OF assms(2) n] by (simp add: same_content_def)
      ultimately show ?thesis using True by (simp add: keeps_def)
    qed
    moreover have "ordered r ?n" using ord by (simp add: ordered_def)
    ultimately show ?thesis
      using drop_last_ok [OF assms, of r] True by (simp add: heap_remove_def rh_len_def Let_def)
  next
    case False
    then have i: "i < ?n" using assms(2) by linarith
    have k: "key ?r k = key r k" if "k < ?n" "k \<noteq> i" for k
      using that swap_key [OF assms(2) n, of k] by simp
    have "ordered (heap_fix i ?n ?r) ?n \<and> keeps ?n ?r (heap_fix i ?n ?r)"
    proof (rule heap_fix_ordered [OF i])
      show "\<forall>k < ?n. 0 < k \<longrightarrow> parent k \<noteq> i \<longrightarrow> k \<noteq> i \<longrightarrow> key ?r (parent k) \<le> key ?r k"
      proof (intro allI impI)
        fix x assume x: "x < ?n" "0 < x" "parent x \<noteq> i" "x \<noteq> i"
        have "key r (parent x) \<le> key r x" using ord x(1, 2) by (simp add: ordered_def)
        then show "key ?r (parent x) \<le> key ?r x"
          using k [of x] k [of "parent x"] x parent_less [OF x(2)] by simp
      qed
      show "\<forall>k < ?n. 0 < k \<longrightarrow> parent k = i \<longrightarrow> 0 < i \<longrightarrow> key ?r (parent i) \<le> key ?r k"
      proof (intro allI impI)
        fix x assume x: "x < ?n" "0 < x" "parent x = i" "0 < i"
        have "key r (parent i) \<le> key r i" "key r i \<le> key r x"
          using ord x i by (auto simp: ordered_def)
        moreover have "x \<noteq> i" "parent i \<noteq> i" "parent i < ?n"
          using parent_less [OF x(2)] parent_less [OF x(4)] x(3) i by linarith+
        ultimately show "key ?r (parent i) \<le> key ?r x"
          using k [of x] k [of "parent i"] x(1) by simp
      qed
    qed simp
    moreover have "heap_remove i r = rh_pop (heap_fix i ?n ?r)"
      using False by (simp add: heap_remove_def heap_fix_def rh_len_def Let_def)
    ultimately show ?thesis using drop_last_ok [OF assms] by simp
  qed
qed

lemma heap_pop_ok:
  assumes "heap_ok r" "rf_heap r \<noteq> []"
  shows "fst (heap_pop r) = rf_heap r ! 0 \<and> heap_ok (snd (heap_pop r)) \<and> same_data r (snd (heap_pop r))
     \<and> mset (rf_heap r) = add_mset (rf_heap r ! 0) (mset (rf_heap (snd (heap_pop r))))"
proof -
  let ?n = "length (rf_heap r) - 1"
  let ?r = "rh_swap 0 ?n r"
  have z: "0 < length (rf_heap r)" "?n < length (rf_heap r)" using assms(2) by auto
  have k: "key ?r k = key r k" if "k < ?n" "k \<noteq> 0" for k
    using that swap_key [OF z, of k] by simp
  have "ordered (snd (heap_down_from 0 0 ?n ?r)) ?n \<and> keeps ?n ?r (snd (heap_down_from 0 0 ?n ?r))"
  proof (rule heap_down_ordered)
    show "\<forall>k < ?n. 0 < k \<longrightarrow> parent k \<noteq> 0 \<longrightarrow> key ?r (parent k) \<le> key ?r k"
    proof (intro allI impI)
      fix x assume x: "x < ?n" "0 < x" "parent x \<noteq> 0"
      have "key r (parent x) \<le> key r x" using assms(1) x by (simp add: heap_ok_def ordered_def)
      then show "key ?r (parent x) \<le> key ?r x"
        using k [of x] k [of "parent x"] x parent_less [OF x(2)] by simp
    qed
  qed auto
  then show ?thesis
    using drop_last_ok [OF assms(1) z(1)] by (simp add: heap_pop_def heap_down_def rh_len_def Let_def)
qed

text \<open>The invariant while the entry of one credential is out of the heap.\<close>

definition rf_upto :: "string \<Rightarrow> refresher \<Rightarrow> bool" where
  "rf_upto i r \<longleftrightarrow> heap_ok r \<and> wf_map (rf_entries r)
     \<and> (\<forall>p \<in> set (rf_heap r). p < rf_next r \<and> rh_auth_id (rf_objs r p) \<noteq> i)
     \<and> (\<forall>j p. j \<noteq> i \<longrightarrow>
          (mget (rf_entries r) j = Some p \<longleftrightarrow> p \<in> set (rf_heap r) \<and> rh_auth_id (rf_objs r p) = j))"

lemma rf_ok_heap_ok: "rf_ok r \<Longrightarrow> heap_ok r"
  by (simp add: rf_ok_def heap_ok_def)

lemma rf_upto_none: "rf_ok r \<Longrightarrow> mget (rf_entries r) i = None \<Longrightarrow> rf_upto i r"
  by (auto simp: rf_ok_def rf_upto_def heap_ok_def) (metis option.distinct(1))

lemma rf_upto_removed:
  assumes "rf_ok r" "p \<in> set (rf_heap r)" "rh_auth_id (rf_objs r p) = i"
    and "heap_ok r'" "same_data r r'" "mset (rf_heap r) = add_mset p (mset (rf_heap r'))"
  shows "rf_upto i r'"
proof -
  have "distinct (rf_heap r)" using assms(1) by (simp add: rf_ok_def index_ok_def)
  then have "distinct (p # rf_heap r')"
    using assms(6) by (metis mset.simps(2) mset_eq_imp_distinct_iff)
  moreover have "set (rf_heap r) = insert p (set (rf_heap r'))"
    using assms(6) by (metis set_mset_add_mset_insert set_mset_mset)
  ultimately have h: "q \<in> set (rf_heap r') \<longleftrightarrow> q \<in> set (rf_heap r) \<and> q \<noteq> p" for q by auto
  have e: "mget (rf_entries r) j = Some q \<longleftrightarrow> q \<in> set (rf_heap r) \<and> rh_auth_id (rf_objs r q) = j" for j q
    using assms(1) by (simp add: rf_ok_def)
  have "q = p" if "q \<in> set (rf_heap r)" "rh_auth_id (rf_objs r q) = i" for q
    using e [of i q] e [of i p] that assms(2, 3) by simp
  note u = this
  have d: "rf_next r' = rf_next r" "rf_entries r' = rf_entries r"
    "\<And>q. rh_auth_id (rf_objs r' q) = rh_auth_id (rf_objs r q)"
    using assms(5) by (simp_all add: same_data_def)
  have w: "wf_map (rf_entries r)" "\<forall>q \<in> set (rf_heap r). q < rf_next r"
    using assms(1) by (simp_all add: rf_ok_def)
  have "\<forall>q \<in> set (rf_heap r'). q < rf_next r' \<and> rh_auth_id (rf_objs r' q) \<noteq> i"
    using w(2) u h d by metis
  moreover have "mget (rf_entries r') j = Some q \<longleftrightarrow>
      q \<in> set (rf_heap r') \<and> rh_auth_id (rf_objs r' q) = j" if "j \<noteq> i" for j q
    unfolding d e h using that assms(3) by auto
  ultimately show ?thesis using assms(4) w(1) d(2) by (simp add: rf_upto_def)
qed

lemma removed_by_index:
  assumes "rf_ok r" "mget (rf_entries r) i = Some p"
  defines "r' \<equiv> snd (heap_remove (nat (rh_index (rf_objs r p))) r)"
  shows "rf_upto i r' \<and> same_data r r'"
proof -
  have p: "p \<in> set (rf_heap r)" "rh_auth_id (rf_objs r p) = i" using assms by (simp_all add: rf_ok_def)
  then obtain k where k: "k < length (rf_heap r)" "rf_heap r ! k = p" by (auto simp: in_set_conv_nth)
  then have "nat (rh_index (rf_objs r p)) = k" using assms(1) by (auto simp: rf_ok_def index_ok_def)
  with heap_remove_ok [OF rf_ok_heap_ok [OF assms(1)] k(1)] k(2)
  have "heap_ok r'" "same_data r r'" "mset (rf_heap r) = add_mset p (mset (rf_heap r'))"
    by (simp_all add: r'_def)
  with rf_upto_removed [OF assms(1) p] show ?thesis by simp
qed

lemma rf_ok_drop:
  assumes "rf_upto i r"
  shows "rf_ok (r\<lparr>rf_entries := mdel i (rf_entries r)\<rparr>)
     \<and> (\<forall>j. schedule (r\<lparr>rf_entries := mdel i (rf_entries r)\<rparr>) j = (if j = i then None else schedule r j))"
  using assms
  by (auto simp: rf_upto_def rf_ok_def heap_ok_def schedule_def index_ok_def ordered_def key_def)

lemma rf_ok_add:
  fixes i :: string and r :: refresher and t :: gotime
  assumes "rf_upto i r"
  defines "r1 \<equiv> r\<lparr>rf_objs := (rf_objs r)(rf_next r := \<lparr>rh_auth_id = i, rh_refresh_at = t, rh_index = 0\<rparr>),
      rf_next := Suc (rf_next r), rf_entries := mput i (rf_next r) (rf_entries r)\<rparr>"
  shows "rf_ok (heap_push (rf_next r) r1)
     \<and> (\<forall>j. schedule (heap_push (rf_next r) r1) j = (if j = i then Some t else schedule r j))"
proof -
  let ?p = "rf_next r" and ?r = "heap_push (rf_next r) r1"
  have old: "q \<in> set (rf_heap r) \<Longrightarrow> q < ?p" for q using assms(1) by (simp add: rf_upto_def)
  then have obj: "q \<in> set (rf_heap r) \<Longrightarrow> rf_objs r1 q = rf_objs r q" for q
    by (auto simp: r1_def)
  have heap: "rf_heap r1 = rf_heap r" by (simp add: r1_def)
  have k: "n < length (rf_heap r) \<Longrightarrow> key r1 n = key r n" for n
    using obj [of "rf_heap r ! n"] by (simp add: key_def heap)
  have "heap_ok r1"
    using assms(1) obj k parent_less unfolding heap_ok_def rf_upto_def index_ok_def ordered_def heap
    by (metis less_trans nth_mem)
  moreover have "?p \<notin> set (rf_heap r1)" using old by (auto simp: heap)
  ultimately have r: "heap_ok ?r" "mset (rf_heap ?r) = add_mset ?p (mset (rf_heap r))" "same_data r1 ?r"
    using heap_push_ok [of r1 ?p] by (simp_all add: heap)
  have s: "set (rf_heap ?r) = insert ?p (set (rf_heap r))"
    using r(2) by (metis set_mset_add_mset_insert set_mset_mset)
  have d: "rh_auth_id (rf_objs ?r q) = (if q = ?p then i else rh_auth_id (rf_objs r q))"
    "rh_refresh_at (rf_objs ?r q) = (if q = ?p then t else rh_refresh_at (rf_objs r q))" for q
    using r(3) by (simp_all add: same_data_def r1_def)
  have e: "rf_entries ?r = mput i ?p (rf_entries r)" "rf_next ?r = Suc ?p"
    using r(3) by (simp_all add: same_data_def r1_def)
  have "rf_ok ?r"
    using assms(1) r(1) s d e old by (auto simp: rf_ok_def rf_upto_def heap_ok_def less_Suc_eq)
  moreover have "schedule ?r j = (if j = i then Some t else schedule r j)" for j
  proof (cases "j = i \<or> mget (rf_entries r) j = None")
    case False
    then obtain q where q: "mget (rf_entries r) j = Some q" by auto
    then have "q \<in> set (rf_heap r)" using False assms(1) by (simp add: rf_upto_def)
    then have "q \<noteq> ?p" using old by blast
    then show ?thesis using False q by (simp add: schedule_def e d)
  qed (auto simp: schedule_def e d)
  ultimately show ?thesis by blast
qed

lemma schedule_same_data: "same_data r r' \<Longrightarrow> schedule r' j = schedule r j"
  by (simp add: schedule_def same_data_def)

lemma schedule_refresh_ok:
  assumes "rf_ok r"
  shows "rf_ok (schedule_refresh i t r) \<and> schedule (schedule_refresh i t r) = (schedule r)(i \<mapsto> t)"
proof (cases "mget (rf_entries r) i")
  case None
  with rf_ok_add [OF rf_upto_none [OF assms None], of t] show ?thesis
    by (auto simp: schedule_refresh_def Let_def)
next
  case (Some p)
  let ?r = "snd (heap_remove (nat (rh_index (rf_objs r p))) r)"
  have "rf_upto i ?r" "same_data r ?r" using removed_by_index [OF assms Some] by auto
  with rf_ok_add [of i ?r t] Some show ?thesis
    by (auto simp: schedule_refresh_def Let_def schedule_same_data)
qed

lemma unschedule_refresh_ok:
  assumes "rf_ok r"
  shows "rf_ok (unschedule_refresh i r) \<and> schedule (unschedule_refresh i r) = (schedule r)(i := None)"
proof (cases "mget (rf_entries r) i")
  case None
  with assms show ?thesis by (auto simp: unschedule_refresh_def schedule_def)
next
  case (Some p)
  let ?r = "snd (heap_remove (nat (rh_index (rf_objs r p))) r)"
  have "rf_upto i ?r" "same_data r ?r" using removed_by_index [OF assms Some] by auto
  with rf_ok_drop [of i ?r] Some show ?thesis
    by (auto simp: unschedule_refresh_def Let_def schedule_same_data)
qed


lemma schedule_heap:
  assumes "rf_ok r"
  shows "schedule r j = Some u \<longleftrightarrow>
    (\<exists>p \<in> set (rf_heap r). rh_auth_id (rf_objs r p) = j \<and> rh_refresh_at (rf_objs r p) = u)"
  using assms by (auto simp: rf_ok_def schedule_def)

lemma schedule_empty: "rf_ok r \<Longrightarrow> rf_heap r = [] \<Longrightarrow> schedule r j = None"
  using schedule_heap [of r j] by (cases "schedule r j") auto

lemma root_earliest:
  assumes "rf_ok r" "schedule r j = Some u"
  shows "rf_heap r \<noteq> [] \<and> key r 0 \<le> u"
proof -
  obtain p where p: "p \<in> set (rf_heap r)" "rh_refresh_at (rf_objs r p) = u"
    using schedule_heap [OF assms(1)] assms(2) by blast
  then obtain k where "k < length (rf_heap r)" "rf_heap r ! k = p" by (auto simp: in_set_conv_nth)
  then show ?thesis
    using ordered_root [of r "length (rf_heap r)" k] assms(1) p(2) by (auto simp: rf_ok_def key_def)
qed

lemma process_next_refresh_ok:
  assumes "rf_ok r" "rf_heap r \<noteq> []"
  defines "i \<equiv> rh_auth_id (rf_objs r (rf_heap r ! 0))" and "r' \<equiv> snd (process_next_refresh r)"
  shows "fst (process_next_refresh r) = Some i \<and> schedule r i = Some (key r 0)
     \<and> rf_ok r' \<and> schedule r' = (schedule r)(i := None)"
proof -
  let ?r = "snd (heap_pop r)"
  have h: "fst (heap_pop r) = rf_heap r ! 0" "heap_ok ?r" "same_data r ?r"
    "mset (rf_heap r) = add_mset (rf_heap r ! 0) (mset (rf_heap ?r))"
    using heap_pop_ok [OF rf_ok_heap_ok [OF assms(1)] assms(2)] by auto
  have p: "rf_heap r ! 0 \<in> set (rf_heap r)" using assms(2) by simp
  have i: "rh_auth_id (rf_objs ?r (rf_heap r ! 0)) = i" using h(3) by (simp add: same_data_def i_def)
  have up: "rf_upto i ?r"
    using rf_upto_removed [OF assms(1) p _ h(2-4)] by (simp add: i_def)
  have e: "process_next_refresh r = (Some i, ?r\<lparr>rf_entries := mdel i (rf_entries ?r)\<rparr>)"
    using assms(2) h(1) i by (simp add: process_next_refresh_def rh_len_def Let_def case_prod_unfold)
  have "schedule r i = Some (key r 0)"
    using schedule_heap [OF assms(1)] p by (auto simp: i_def key_def)
  with rf_ok_drop [OF up] show ?thesis
    by (auto simp: e r'_def schedule_same_data [OF h(3)])
qed

section \<open>Every history of the queue\<close>

datatype refresh_op = Schedule string gotime | Unschedule string | Process

fun refresh_step :: "refresh_op \<Rightarrow> refresher \<Rightarrow> refresher" where
  "refresh_step (Schedule i t) r = schedule_refresh i t r"
| "refresh_step (Unschedule i) r = unschedule_refresh i r"
| "refresh_step Process r = snd (process_next_refresh r)"

definition refresh_run :: "refresh_op list \<Rightarrow> refresher" where
  "refresh_run ops = fold refresh_step ops refresher_init"

text \<open>The specification: a finite map from credentials to due times.\<close>

fun schedule_step :: "refresh_op \<Rightarrow> (string \<Rightarrow> gotime option) \<Rightarrow> (string \<Rightarrow> gotime option) \<Rightarrow> bool" where
  "schedule_step (Schedule i t) m m' \<longleftrightarrow> m' = m(i \<mapsto> t)"
| "schedule_step (Unschedule i) m m' \<longleftrightarrow> m' = m(i := None)"
| "schedule_step Process m m' \<longleftrightarrow>
     (if m = Map.empty then m' = m
      else \<exists>i t. m i = Some t \<and> (\<forall>j u. m j = Some u \<longrightarrow> t \<le> u) \<and> m' = m(i := None))"

lemma process_empty: "rf_heap r = [] \<Longrightarrow> process_next_refresh r = (None, r)"
  by (simp add: process_next_refresh_def rh_len_def)

lemma refresh_step_ok:
  assumes "rf_ok r"
  shows "rf_ok (refresh_step op r) \<and> schedule_step op (schedule r) (schedule (refresh_step op r))"
proof (cases op)
  case Process
  show ?thesis
  proof (cases "rf_heap r = []")
    case True
    have "schedule r = Map.empty" using schedule_empty [OF assms True] by auto
    then show ?thesis using Process assms process_empty [OF True] by simp
  next
    case False
    note p = process_next_refresh_ok [OF assms False]
    then have "schedule r \<noteq> Map.empty" by auto
    moreover have "\<forall>j u. schedule r j = Some u \<longrightarrow> key r 0 \<le> u"
      using root_earliest [OF assms] by blast
    ultimately show ?thesis using p Process by (simp only: refresh_step.simps schedule_step.simps if_False) blast
  qed
qed (use schedule_refresh_ok [OF assms] unschedule_refresh_ok [OF assms] in auto)

lemma refresh_run_snoc: "refresh_run (ops @ [op]) = refresh_step op (refresh_run ops)"
  by (simp add: refresh_run_def)

lemma refresh_run_ok: "rf_ok (refresh_run ops)"
  by (induction ops rule: rev_induct)
    (use rf_ok_init refresh_step_ok in \<open>auto simp: refresh_run_snoc refresh_run_def\<close>)

text \<open>
  C9: the heap with its back-pointers refines a finite map from credentials to due times: after
  any sequence of scheduling, unscheduling and processing, each further operation acts on the
  schedule as the specification says (processing drops a credential that is due first), and every
  entry of the heap stores the position where it is, which is what \<open>heap.Remove\<close> relies on.
\<close>
theorem refresh_queue_refines_schedule:
  "schedule_step op (schedule (refresh_run ops)) (schedule (refresh_run (ops @ [op])))
   \<and> list_all (\<lambda>k. rh_index (rf_objs (refresh_run ops) (rf_heap (refresh_run ops) ! k)) = int k)
       [0..<length (rf_heap (refresh_run ops))]"
  using refresh_step_ok [OF refresh_run_ok] refresh_run_ok [of ops]
  by (simp add: refresh_run_snoc rf_ok_def index_ok_def list_all_iff)

text \<open>
  \<open>processNextRefresh\<close> hands out the credential whose refresh is due first, takes it off the
  schedule and leaves the others, and the loop waits exactly until that time (not at all when it
  has passed); with nothing scheduled nothing is handed out.
\<close>
theorem process_next_earliest:
  assumes "schedule (refresh_run ops) j = Some u"
  shows "case process_next_refresh (refresh_run ops) of
      (None, _) \<Rightarrow> False
    | (Some i, r) \<Rightarrow> (\<exists>t \<le> u. schedule (refresh_run ops) i = Some t
          \<and> next_refresh_time (refresh_run ops) = t
          \<and> schedule r = (schedule (refresh_run ops))(i := None))"
proof -
  let ?r = "refresh_run ops"
  note ok = refresh_run_ok [of ops]
  have ne: "rf_heap ?r \<noteq> []" "key ?r 0 \<le> u" using root_earliest [OF ok assms] by auto
  note p = process_next_refresh_ok [OF ok ne(1)]
  have "next_refresh_time ?r = key ?r 0" using ne(1) by (simp add: next_refresh_time_def rh_len_def key_def)
  then show ?thesis using p ne(2) by (auto split: prod.splits option.splits)
qed

lemma process_next_earliest_witness:
  "case process_next_refresh (refresh_run [Schedule ''a'' 50, Schedule ''b'' 20, Schedule ''b'' 70]) of
      (None, _) \<Rightarrow> False
    | (Some i, r) \<Rightarrow> (\<exists>t \<le> 70. schedule (refresh_run [Schedule ''a'' 50, Schedule ''b'' 20, Schedule ''b'' 70]) i = Some t
          \<and> next_refresh_time (refresh_run [Schedule ''a'' 50, Schedule ''b'' 20, Schedule ''b'' 70]) = t
          \<and> schedule r = (schedule (refresh_run [Schedule ''a'' 50, Schedule ''b'' 20, Schedule ''b'' 70]))(i := None))"
  by (rule process_next_earliest [of _ "''b''"]) code_simp

end
