(* ===== verification/AuthRegistry.thy ===== *)
theory AuthRegistry
  imports AuthEntry RefreshHeap QuotaManager
begin

text \<open>
  The credential registry (\<open>internal/provider/auth_registry.go\<close>): credentials in a sharded map,
  their refresh schedule, the queue of credentials to save, the reaction to the outcome of a
  request, and the choice of a credential. An operation takes the reading of the clock as its
  last argument; the calls it makes to the hook and to the store are recorded in order in a log.
\<close>

section \<open>State\<close>

record exec_result =
  x_auth_id :: string
  x_provider :: string
  x_model :: string
  x_success :: bool
  x_retry_after :: "duration option"
  x_error :: "prov_error option"

datatype event =
    OnAuthRegistered auth
  | OnAuthUpdated auth
  | OnResult exec_result
  | StoreSave auth
  | StoreDelete string

record auth_registry =
  r_shards :: "auth_entry shards"
  r_refresher :: refresher
  r_has_store :: bool
  r_persist_queue :: "string list"
  r_persist_batch :: "string list"
  r_index_counter :: int
  r_quota_manager :: "quota_manager option"
  r_log :: "event list"

definition num_auth_shards :: nat where "num_auth_shards = 32"
definition persist_queue_size :: nat where "persist_queue_size = 256"

definition new_auth_registry :: "bool \<Rightarrow> quota_manager option \<Rightarrow> auth_registry" where
  "new_auth_registry has_store qm =
     \<lparr>r_shards = sh_empty num_auth_shards, r_refresher = refresher_init, r_has_store = has_store,
      r_persist_queue = [], r_persist_batch = [], r_index_counter = 0, r_quota_manager = qm,
      r_log = []\<rparr>"

definition emit :: "event \<Rightarrow> auth_registry \<Rightarrow> auth_registry" where
  "emit ev r = r\<lparr>r_log := r_log r @ [ev]\<rparr>"

definition shard_index :: "string \<Rightarrow> nat" where
  "shard_index i = unat (fnv64a i) mod num_auth_shards"

definition lookup_entry :: "auth_registry \<Rightarrow> string \<Rightarrow> auth_entry option" where
  "lookup_entry r i = sh_get shard_index (r_shards r) i"

text \<open>Storing an entry, and a write through the pointer to a stored one.\<close>

definition put_entry :: "auth_entry \<Rightarrow> auth_registry \<Rightarrow> auth_registry" where
  "put_entry e r = r\<lparr>r_shards := sh_put shard_index (e_id e) e (r_shards r)\<rparr>"

definition next_index :: "auth_registry \<Rightarrow> int \<times> auth_registry" where
  "next_index r = (r_index_counter r, r\<lparr>r_index_counter := (r_index_counter r + 1) mod 2 ^ 64\<rparr>)"

definition get_entry :: "auth_registry \<Rightarrow> string \<Rightarrow> auth_entry option" where
  "get_entry r i = (if i = [] then None else lookup_entry r i)"

definition reg_get :: "auth_registry \<Rightarrow> string \<Rightarrow> auth option" where
  "reg_get r i = map_option to_auth (get_entry r i)"

definition reg_get_by_id :: "auth_registry \<Rightarrow> string \<Rightarrow> auth option \<times> bool" where
  "reg_get_by_id r i = (reg_get r i, reg_get r i \<noteq> None)"

definition reg_list :: "auth_registry \<Rightarrow> auth list" where
  "reg_list r = List.map (\<lambda>(_, e). to_auth e) (sh_entries (r_shards r))"

definition list_entries :: "auth_registry \<Rightarrow> auth_entry list" where
  "list_entries r = List.map snd (sh_entries (r_shards r))"

definition list_by_provider :: "auth_registry \<Rightarrow> string \<Rightarrow> auth_entry list" where
  "list_by_provider r p = filter (\<lambda>e. e_provider e = p) (List.map snd (sh_entries (r_shards r)))"

definition reg_count :: "auth_registry \<Rightarrow> nat" where
  "reg_count r = sh_count (r_shards r)"

section \<open>Refresh and persistence queues\<close>

definition schedule_refresh_if_needed :: "auth_entry \<Rightarrow> auth_registry \<Rightarrow> gotime \<Rightarrow> auth_registry" where
  "schedule_refresh_if_needed e r now =
     (case md_metadata (e_meta e) of
        None \<Rightarrow> r
      | Some m \<Rightarrow>
          if mget m ''access_token'' = None \<or> mget m ''refresh_token'' = None then r
          else
            let due = get_refresh_at (e_token e); exp = get_expires_at (e_token e) in
            if due \<noteq> 0 then r\<lparr>r_refresher := schedule_refresh (e_id e) due (r_refresher r)\<rparr>
            else if exp = 0 then r
            else let due' = refresh_point exp now;
                     r1 = put_entry (e\<lparr>e_token := set_refresh_at due' (e_token e)\<rparr>) r
                 in r1\<lparr>r_refresher := schedule_refresh (e_id e) due' (r_refresher r1)\<rparr>)"

text \<open>The queue drops an identifier when it is full.\<close>

definition mark_dirty :: "string \<Rightarrow> auth_registry \<Rightarrow> auth_registry" where
  "mark_dirty i r =
     (if length (r_persist_queue r) < persist_queue_size
      then r\<lparr>r_persist_queue := r_persist_queue r @ [i]\<rparr> else r)"

text \<open>One round of \<open>persistLoop\<close> that receives from the queue.\<close>

definition persist_receive :: "auth_registry \<Rightarrow> auth_registry" where
  "persist_receive r =
     (case r_persist_queue r of
        [] \<Rightarrow> r
      | i # q \<Rightarrow> r\<lparr>r_persist_queue := q, r_persist_batch := List.insert i (r_persist_batch r)\<rparr>)"

definition flush_entry :: "string \<Rightarrow> auth_registry \<Rightarrow> auth_registry" where
  "flush_entry i r =
     (case get_entry r i of
        None \<Rightarrow> r
      | Some e \<Rightarrow>
          if attr (md_attributes (e_meta e)) ''runtime_only'' = ''true'' then r
          else if md_metadata (e_meta e) = None then r
          else emit (StoreSave (to_auth e)) r)"

definition flush_pending :: "auth_registry \<Rightarrow> auth_registry" where
  "flush_pending r =
     (if \<not> r_has_store r then r
      else fold flush_entry (r_persist_batch r) (r\<lparr>r_persist_batch := []\<rparr>))"

section \<open>Registration\<close>

text \<open>
  \<open>Register\<close> and \<open>Update\<close> of a credential that is not nil: what they return, the caller's object
  (which \<open>Register\<close> gives an identifier and an index), and the registry. A nil credential changes
  nothing. \<open>new_id\<close> is the identifier drawn when there is none.
\<close>

definition register_new :: "auth \<Rightarrow> auth_registry \<Rightarrow> gotime \<Rightarrow> auth \<times> auth \<times> auth_registry" where
  "register_new a r now =
     (let (idx, r1) = next_index r;
          a1 = a\<lparr>a_index := idx\<rparr>;
          e = new_auth_entry a1 now;
          r2 = mark_dirty (a_id a) (schedule_refresh_if_needed e (put_entry e r1) now);
          res = to_auth e
      in (res, a1, emit (OnAuthRegistered res) r2))"

definition updated_metadata :: "auth \<Rightarrow> auth_metadata \<Rightarrow> gotime \<Rightarrow> auth_metadata" where
  "updated_metadata a old now = (metadata_of a)\<lparr>md_created_at := md_created_at old, md_updated_at := now\<rparr>"

definition updated_entry :: "auth \<Rightarrow> auth_entry \<Rightarrow> gotime \<Rightarrow> auth_entry" where
  "updated_entry a e now =
     (let e1 = update_metadata (\<lambda>old. updated_metadata a old now) e;
          e2 = e1\<lparr>e_disabled := a_disabled a, e_unavailable := a_unavailable a\<rparr>
      in if a_model_states a \<noteq> []
         then update_all_model_states (\<lambda>_. snapshots_of (a_model_states a)) e2 else e2)"

definition update_existing ::
    "auth \<Rightarrow> auth_entry \<Rightarrow> auth_registry \<Rightarrow> gotime \<Rightarrow> auth \<times> auth \<times> auth_registry" where
  "update_existing a e r now =
     (let e' = updated_entry a e now;
          r1 = mark_dirty (a_id a) (schedule_refresh_if_needed e' (put_entry e' r) now);
          res = to_auth e'
      in (res, a, emit (OnAuthUpdated res) r1))"

definition reg_register ::
    "string \<Rightarrow> auth \<Rightarrow> auth_registry \<Rightarrow> gotime \<Rightarrow> auth \<times> auth \<times> auth_registry" where
  "reg_register new_id a r now =
     (let a1 = (if a_id a = [] then a\<lparr>a_id := new_id\<rparr> else a)
      in case lookup_entry r (a_id a1) of
           Some e \<Rightarrow> update_existing a1 e r now
         | None \<Rightarrow> register_new a1 r now)"

definition reg_update :: "auth \<Rightarrow> auth_registry \<Rightarrow> gotime \<Rightarrow> auth option \<times> auth \<times> auth_registry" where
  "reg_update a r now =
     (if a_id a = [] then (None, a, r)
      else apfst Some
        (case lookup_entry r (a_id a) of
           Some e \<Rightarrow> update_existing a e r now
         | None \<Rightarrow> register_new a r now))"

definition reg_delete :: "string \<Rightarrow> auth_registry \<Rightarrow> auth_registry" where
  "reg_delete i r =
     (if i = [] then r
      else let r1 = r\<lparr>r_shards := sh_del shard_index i (r_shards r),
                      r_refresher := unschedule_refresh i (r_refresher r)\<rparr>
           in if r_has_store r then emit (StoreDelete i) r1 else r1)"

text \<open>\<open>Load\<close>: what the store's \<open>List\<close> returned, an error or the saved credentials.\<close>

definition load_one :: "auth option \<Rightarrow> gotime \<Rightarrow> auth_registry \<Rightarrow> auth_registry" where
  "load_one oa now r =
     (case oa of
        None \<Rightarrow> r
      | Some a \<Rightarrow>
          if a_id a = [] then r
          else let (idx, r1) = next_index r; e = new_auth_entry (a\<lparr>a_index := idx\<rparr>) now
               in schedule_refresh_if_needed e (put_entry e r1) now)"

definition reg_load :: "(string + auth option list) \<Rightarrow> auth_registry \<Rightarrow> gotime \<Rightarrow> auth_registry" where
  "reg_load items r now =
     (if \<not> r_has_store r then r
      else case items of Inl _ \<Rightarrow> r | Inr as \<Rightarrow> fold (\<lambda>oa. load_one oa now) as r)"

section \<open>Refreshing\<close>

definition reg_process_next :: "auth_registry \<Rightarrow> string option \<times> auth_registry" where
  "reg_process_next r =
     (let (i, q) = process_next_refresh (r_refresher r) in (i, r\<lparr>r_refresher := q\<rparr>))"

definition refreshed_metadata :: "auth \<Rightarrow> auth_metadata \<Rightarrow> gotime \<Rightarrow> auth_metadata" where
  "refreshed_metadata u old now =
     (let c = metadata_clone old
      in c\<lparr>md_metadata := Some (fold (\<lambda>(k, v). mput k v) (meta_map (a_metadata u)) (meta_map (md_metadata c))),
           md_last_refreshed_at := now, md_last_error := None, md_updated_at := now\<rparr>)"

text \<open>
  The executor's answers to up to three attempts: an error, or a credential that may be nil. The
  clock is read when the last attempt has returned. An entry that is being refreshed is left
  alone; the flag is down again when the refresh is over.
\<close>

definition refresh_outcome :: "(string + auth option) list \<Rightarrow> auth option" where
  "refresh_outcome answers =
     List.fold (\<lambda>ans acc. case acc of Some u \<Rightarrow> Some u
                 | None \<Rightarrow> (case ans of Inl _ \<Rightarrow> None | Inr u \<Rightarrow> u)) (take 3 answers) None"

definition apply_refresh :: "auth \<Rightarrow> auth_entry \<Rightarrow> auth_registry \<Rightarrow> gotime \<Rightarrow> auth_registry" where
  "apply_refresh u e r now =
     (let i = e_id e;
          e1 = update_metadata (\<lambda>old. refreshed_metadata u old now) e;
          (e2, r1) =
            (case expiration_from_map (meta_map (a_metadata u)) of
               None \<Rightarrow> (e1, r)
             | Some ts \<Rightarrow>
                 (let due = refresh_point ts now
                  in (e1\<lparr>e_token := set_refresh_at due (set_expires_at ts (e_token e1))\<rparr>,
                      r\<lparr>r_refresher := schedule_refresh i due (r_refresher r)\<rparr>)))
      in emit (OnAuthUpdated (to_auth e2)) (mark_dirty i (put_entry e2 r1)))"

definition do_refresh ::
    "bool \<Rightarrow> (string + auth option) list \<Rightarrow> string \<Rightarrow> auth_registry \<Rightarrow> gotime \<Rightarrow> auth_registry" where
  "do_refresh has_executor answers i r now =
     (case get_entry r i of
        None \<Rightarrow> r
      | Some e \<Rightarrow>
          if \<not> fst (try_start_refresh (e_token e)) \<or> \<not> has_executor then r
          else case refresh_outcome answers of
            Some u \<Rightarrow> apply_refresh u e r now
          | None \<Rightarrow> r\<lparr>r_refresher := schedule_refresh i (now + minute) (r_refresher r)\<rparr>)"

section \<open>Outcomes\<close>

definition unavailable :: "bool \<Rightarrow> auth_entry \<Rightarrow> auth_entry" where
  "unavailable b e = e\<lparr>e_unavailable := b\<rparr>"

definition on_success :: "exec_result \<Rightarrow> auth_entry \<Rightarrow> gotime \<Rightarrow> auth_entry" where
  "on_success x e now =
     (if x_model x = [] then
        clear_cooldown (unavailable False (update_metadata (\<lambda>old. clear_error old now) e))
      else
        let e1 = update_model_state (x_model x)
                   (\<lambda>_. snapshot_zero\<lparr>ss_status := StatusActive, ss_updated_at := unix_nano now\<rparr>) e;
            e2 = update_metadata (\<lambda>old. (metadata_clone old)\<lparr>md_last_error := None,
                   md_status_message := [], md_status := StatusActive, md_updated_at := now\<rparr>) e1
        in unavailable False e2)"

definition handle_success_result :: "exec_result \<Rightarrow> auth_entry \<Rightarrow> auth_registry \<Rightarrow> gotime \<Rightarrow> auth_registry" where
  "handle_success_result x e r now =
     (let r1 = put_entry (on_success x e now) r
      in if x_model x = [] then
           r1\<lparr>r_quota_manager := map_option (record_request_end (e_id e) (e_provider e) 0 False)
                                  (r_quota_manager r1)\<rparr>
         else r1)"

text \<open>What a status other than quota costs a model, in nanoseconds.\<close>

definition failure_pause :: "int \<Rightarrow> duration" where
  "failure_pause code =
     (if code = 401 then 30 * minute
      else if code \<in> {402, 403} then 30 * minute
      else if code = 404 then 12 * hour
      else if code \<in> {408, 500, 502, 503, 504} then minute
      else 30 * second)"

definition with_result_error :: "exec_result \<Rightarrow> auth_metadata \<Rightarrow> auth_metadata" where
  "with_result_error x m =
     (case x_error x of
        None \<Rightarrow> m
      | Some err \<Rightarrow> m\<lparr>md_last_error := Some (copy_error err), md_status_message := err_message err\<rparr>)"

definition failed_snapshot ::
    "bool \<Rightarrow> exec_result \<Rightarrow> state_snapshot \<Rightarrow> gotime \<Rightarrow> state_snapshot" where
  "failed_snapshot no_cooldown x old now =
     (let s = (snapshot_clone old)\<lparr>ss_unavailable := True, ss_status := StatusError,
                ss_updated_at := unix_nano now\<rparr>;
          s1 = (case x_error x of None \<Rightarrow> s
                | Some err \<Rightarrow> s\<lparr>ss_last_error := Some (copy_error err),
                               ss_status_message := err_message err\<rparr>);
          code = status_code_from_result (x_error x)
      in if code = 429 then
           (let (next, s2) =
              (case x_retry_after x of
                 Some d \<Rightarrow> (now + d, s1)
               | None \<Rightarrow>
                   let (cooldown, lvl) = next_quota_cooldown no_cooldown (ss_backoff_level old)
                   in (if 0 < cooldown then now + cooldown else 0, s1\<lparr>ss_backoff_level := lvl\<rparr>))
            in s2\<lparr>ss_next_retry_after := unix_nano next, ss_quota_exceeded := True,
                  ss_quota_reason := ''quota'', ss_quota_recover := unix_nano next\<rparr>)
         else s1\<lparr>ss_next_retry_after := unix_nano (now + failure_pause code)\<rparr>)"

definition model_failure :: "bool \<Rightarrow> exec_result \<Rightarrow> auth_entry \<Rightarrow> gotime \<Rightarrow> auth_entry" where
  "model_failure no_cooldown x e now =
     (let code = status_code_from_result (x_error x);
          msg = (case x_error x of None \<Rightarrow> [] | Some err \<Rightarrow> err_message err);
          cat = categorize_error code msg
      in if cat = CategoryUserError \<or> cat = CategoryClientCanceled then e
         else update_metadata
                (\<lambda>old. with_result_error x ((metadata_clone old)\<lparr>md_status := StatusError, md_updated_at := now\<rparr>))
                (update_model_state (x_model x) (\<lambda>old. failed_snapshot no_cooldown x old now) e))"

definition result_category :: "exec_result \<Rightarrow> error_category" where
  "result_category x =
     (case x_error x of
        None \<Rightarrow> CategoryUnknown
      | Some err \<Rightarrow> if err_category err \<noteq> CategoryUnknown then err_category err
                    else categorize_error (err_http_status err) (err_message err))"

text \<open>The end of a quota cooldown for a credential as a whole.\<close>

definition auth_cooldown :: "bool \<Rightarrow> exec_result \<Rightarrow> duration" where
  "auth_cooldown no_cooldown x =
     (case x_retry_after x of Some d \<Rightarrow> d | None \<Rightarrow> fst (next_quota_cooldown no_cooldown 0))"

definition auth_failure_metadata ::
    "bool \<Rightarrow> exec_result \<Rightarrow> auth_metadata \<Rightarrow> gotime \<Rightarrow> auth_metadata" where
  "auth_failure_metadata no_cooldown x old now =
     (let m = with_result_error x ((metadata_clone old)\<lparr>md_status := StatusError, md_updated_at := now\<rparr>)
      in case result_category x of
           CategoryAuthRevoked \<Rightarrow>
             m\<lparr>md_status_message := ''oauth_token_revoked'', md_status := StatusDisabled\<rparr>
         | CategoryAuthError \<Rightarrow>
             m\<lparr>md_status_message := ''unauthorized'', md_next_retry_after := now + 30 * minute\<rparr>
         | CategoryQuotaError \<Rightarrow>
             m\<lparr>md_status_message := ''quota exhausted'',
               md_next_retry_after :=
                 (if x_retry_after x = None \<and> \<not> 0 < auth_cooldown no_cooldown x then 0
                  else now + auth_cooldown no_cooldown x)\<rparr>
         | CategoryNotFound \<Rightarrow>
             m\<lparr>md_status_message := ''not_found'', md_next_retry_after := now + 12 * hour\<rparr>
         | CategoryTransient \<Rightarrow>
             m\<lparr>md_status_message := ''transient upstream error'', md_next_retry_after := now + minute\<rparr>
         | CategoryUserError \<Rightarrow>
             m\<lparr>md_status_message := ''user_request_error'', md_status := StatusActive\<rparr>
         | _ \<Rightarrow> if md_status_message m = [] then m\<lparr>md_status_message := ''request failed''\<rparr> else m)"

definition apply_auth_level_failure :: "bool \<Rightarrow> exec_result \<Rightarrow> auth_entry \<Rightarrow> gotime \<Rightarrow> auth_entry" where
  "apply_auth_level_failure no_cooldown x e now =
     (let cat = result_category x;
          e1 = update_metadata (\<lambda>old. auth_failure_metadata no_cooldown x old now) (unavailable True e);
          e2 = (if cat = CategoryAuthRevoked then e1\<lparr>e_disabled := True\<rparr> else e1)
      in if cat = CategoryQuotaError then set_cooldown (now + auth_cooldown no_cooldown x) e2 now else e2)"

definition on_failure :: "bool \<Rightarrow> exec_result \<Rightarrow> auth_entry \<Rightarrow> gotime \<Rightarrow> auth_entry" where
  "on_failure no_cooldown x e now =
     (if x_model x = [] then apply_auth_level_failure no_cooldown x e now
      else model_failure no_cooldown x e now)"

definition reg_mark_result :: "bool \<Rightarrow> exec_result \<Rightarrow> auth_registry \<Rightarrow> gotime \<Rightarrow> auth_registry" where
  "reg_mark_result no_cooldown x r now =
     (if x_auth_id x = [] then r
      else case get_entry r (x_auth_id x) of
        None \<Rightarrow> r
      | Some e \<Rightarrow>
          let r1 = (if x_success x then handle_success_result x e r now
                    else put_entry (on_failure no_cooldown x (decrement_active_requests e) now) r)
          in emit (OnResult x) (mark_dirty (x_auth_id x) r1))"

section \<open>Choosing a credential\<close>

text \<open>
  A candidate is skipped for good, skipped until a time (0 when the code keeps none), or taken.
  \<open>earlier\<close> collects the first time.
\<close>

datatype verdict = Skip | SkipUntil gotime | Take

definition entry_verdict :: "auth_entry \<Rightarrow> string \<Rightarrow> gotime \<Rightarrow> verdict" where
  "entry_verdict e model now =
     (if e_disabled e then Skip
      else if is_in_cooldown e now then SkipUntil (get_cooldown_until (e_quota e))
      else let (blocked, reason, retry_at) = entry_is_blocked_for_model e model now in
        if blocked then
          (if (reason = blockReasonCooldown \<or> reason = blockReasonOther) \<and> retry_at \<noteq> 0
           then SkipUntil retry_at else Skip)
        else Take)"

fun pick_scan :: "auth_entry list \<Rightarrow> string \<Rightarrow> gotime \<Rightarrow> auth_entry list \<Rightarrow> gotime \<Rightarrow> auth_entry list \<times> gotime" where
  "pick_scan [] model now available earliest = (available, earliest)"
| "pick_scan (e # es) model now available earliest =
     (case entry_verdict e model now of
        Skip \<Rightarrow> pick_scan es model now available earliest
      | SkipUntil t \<Rightarrow> pick_scan es model now available (earlier earliest t)
      | Take \<Rightarrow> pick_scan es model now (available @ [e]) earliest)"

definition active_requests :: "auth_entry \<Rightarrow> int" where
  "active_requests e = qf_active_requests (e_quota e)"

text \<open>The first entry with fewer requests than any before it; none when all are at the maximum.\<close>

fun least_active :: "auth_entry list \<Rightarrow> int \<Rightarrow> auth_entry option \<Rightarrow> auth_entry option" where
  "least_active [] m sel = sel"
| "least_active (e # es) m sel =
     (if active_requests e < m then least_active es (active_requests e) (Some e)
      else least_active es m sel)"

text \<open>\<open>Pick\<close>: an error, or the entry chosen; the caller's registry counts the request on it.\<close>

definition pick_entry ::
    "string \<Rightarrow> string \<Rightarrow> auth_entry list \<Rightarrow> gotime \<Rightarrow> pick_error + auth_entry" where
  "pick_entry provider model es now =
     (if es = [] then Inl (PickError (mk_error ''auth_not_found'' ''no auth candidates''))
      else let (available, earliest) = pick_scan es model now [] 0 in
        case available of
          [] \<Rightarrow> Inl (none_available model provider earliest now)
        | [e] \<Rightarrow> Inr e
        | e # _ \<Rightarrow> Inr (case least_active available (2 ^ 63 - 1) None of None \<Rightarrow> e | Some s \<Rightarrow> s))"

definition reg_pick ::
    "string \<Rightarrow> string \<Rightarrow> auth_entry list \<Rightarrow> auth_registry \<Rightarrow> gotime
       \<Rightarrow> (pick_error + auth_entry) \<times> auth_registry" where
  "reg_pick provider model es r now =
     (case pick_entry provider model es now of
        Inl err \<Rightarrow> (Inl err, r)
      | Inr e \<Rightarrow> let e' = increment_active_requests e in (Inr e', put_entry e' r))"

definition pick_auth ::
    "string \<Rightarrow> string \<Rightarrow> auth option list \<Rightarrow> auth_registry \<Rightarrow> gotime
       \<Rightarrow> (pick_error + auth) \<times> auth_registry" where
  "pick_auth provider model auths r now =
     (let es = List.map_filter (\<lambda>oa. case oa of None \<Rightarrow> None | Some a \<Rightarrow> get_entry r (a_id a)) auths
      in case reg_pick provider model es r now of
           (Inl err, r') \<Rightarrow> (Inl err, r')
         | (Inr e, r') \<Rightarrow> (Inr (to_auth e), r'))"

definition pick_from_ids ::
    "string \<Rightarrow> string \<Rightarrow> string list \<Rightarrow> auth_registry \<Rightarrow> gotime
       \<Rightarrow> (pick_error + auth_entry) \<times> auth_registry" where
  "pick_from_ids provider model ids r now =
     reg_pick provider model
       (List.map_filter (\<lambda>i. case get_entry r i of None \<Rightarrow> None
          | Some e \<Rightarrow> if e_provider e = provider then Some e else None) ids) r now"

section \<open>Lemmas\<close>

interpretation reg: sharding shard_index num_auth_shards
  by unfold_locales (simp add: shard_index_def num_auth_shards_def)

definition reg_ok :: "auth_registry \<Rightarrow> bool" where
  "reg_ok r \<longleftrightarrow> sh_ok shard_index num_auth_shards (r_shards r) \<and> rf_ok (r_refresher r)
     \<and> (\<forall>i e. lookup_entry r i = Some e \<longrightarrow> e_id e = i)"

lemma reg_okD:
  "reg_ok r \<Longrightarrow> sh_ok shard_index num_auth_shards (r_shards r)"
  "reg_ok r \<Longrightarrow> rf_ok (r_refresher r)"
  "reg_ok r \<Longrightarrow> lookup_entry r i = Some e \<Longrightarrow> e_id e = i"
  by (simp_all add: reg_ok_def)

lemma lookup_entry_eq: "lookup_entry r = sh_get shard_index (r_shards r)"
  by (simp add: fun_eq_iff lookup_entry_def)

lemma reg_ok_new: "reg_ok (new_auth_registry has_store qm)"
  by (simp add: reg_ok_def new_auth_registry_def reg.ok_empty rf_ok_init lookup_entry_def reg.get_empty)

lemma lookup_put:
  "reg_ok r \<Longrightarrow> lookup_entry (put_entry e r) = (lookup_entry r)(e_id e \<mapsto> e)"
  by (simp add: lookup_entry_def put_entry_def reg.get_put reg_okD fun_eq_iff)

lemma reg_ok_put [simp]: "reg_ok r \<Longrightarrow> reg_ok (put_entry e r)"
  using lookup_put [of r e] by (auto simp: reg_ok_def put_entry_def reg.ok_put)

lemma registry_frame [simp, frame]:
  "lookup_entry (emit ev r) = lookup_entry r" "lookup_entry (mark_dirty i r) = lookup_entry r"
  "lookup_entry (r\<lparr>r_refresher := q\<rparr>) = lookup_entry r"
  "lookup_entry (r\<lparr>r_index_counter := n\<rparr>) = lookup_entry r"
  "lookup_entry (r\<lparr>r_quota_manager := qm\<rparr>) = lookup_entry r"
  "lookup_entry (snd (next_index r)) = lookup_entry r"
  "r_refresher (emit ev r) = r_refresher r" "r_refresher (mark_dirty i r) = r_refresher r"
  "r_refresher (put_entry e r) = r_refresher r" "r_refresher (snd (next_index r)) = r_refresher r"
  "r_shards (emit ev r) = r_shards r" "r_shards (mark_dirty i r) = r_shards r"
  by (simp_all add: fun_eq_iff lookup_entry_def emit_def mark_dirty_def next_index_def put_entry_def)

lemma reg_ok_frame [simp]:
  "reg_ok (emit ev r) \<longleftrightarrow> reg_ok r" "reg_ok (mark_dirty i r) \<longleftrightarrow> reg_ok r"
  "reg_ok (snd (next_index r)) \<longleftrightarrow> reg_ok r"
  "reg_ok (r\<lparr>r_quota_manager := qm\<rparr>) \<longleftrightarrow> reg_ok r"
  by (simp_all add: reg_ok_def) (simp_all add: emit_def mark_dirty_def next_index_def)

lemma reg_ok_schedule [simp]:
  "reg_ok r \<Longrightarrow> reg_ok (r\<lparr>r_refresher := schedule_refresh i t q\<rparr>) \<longleftrightarrow> rf_ok (schedule_refresh i t q)"
  by (simp add: reg_ok_def)

text \<open>Scheduling writes at most the refresh time of the entry it is given.\<close>

lemma schedule_if_needed_cases:
  fixes e :: auth_entry and r :: auth_registry and now :: gotime
  obtains (no) "schedule_refresh_if_needed e r now = r"
  | (old) t where "t = get_refresh_at (e_token e)" "t \<noteq> 0"
      "schedule_refresh_if_needed e r now = r\<lparr>r_refresher := schedule_refresh (e_id e) t (r_refresher r)\<rparr>"
  | (fresh) t where "get_refresh_at (e_token e) = 0" "get_expires_at (e_token e) \<noteq> 0"
      "t = refresh_point (get_expires_at (e_token e)) now"
      "schedule_refresh_if_needed e r now =
         (put_entry (e\<lparr>e_token := set_refresh_at t (e_token e)\<rparr>) r)
           \<lparr>r_refresher := schedule_refresh (e_id e) t (r_refresher r)\<rparr>"
proof (cases "md_metadata (e_meta e) = None
    \<or> mget (the (md_metadata (e_meta e))) ''access_token'' = None
    \<or> mget (the (md_metadata (e_meta e))) ''refresh_token'' = None")
  case True
  then show ?thesis by (intro no) (auto simp: schedule_refresh_if_needed_def split: option.splits)
next
  case False
  then obtain m y z where m: "md_metadata (e_meta e) = Some m"
    "mget m ''access_token'' = Some y" "mget m ''refresh_token'' = Some z" by auto
  show ?thesis
  proof (cases "get_refresh_at (e_token e) = 0")
    case False
    then show ?thesis using m by (intro old [OF refl]) (simp_all add: schedule_refresh_if_needed_def Let_def)
  next
    case z: True
    show ?thesis
    proof (cases "get_expires_at (e_token e) = 0")
      case True
      then show ?thesis using z m by (intro no) (simp add: schedule_refresh_if_needed_def Let_def)
    next
      case False
      then show ?thesis using z m
        by (intro fresh [OF z False refl]) (simp add: schedule_refresh_if_needed_def Let_def)
    qed
  qed
qed

lemma schedule_if_needed_ok:
  assumes "reg_ok r"
  shows "reg_ok (schedule_refresh_if_needed e r now)
     \<and> (\<forall>i. i \<noteq> e_id e \<longrightarrow> lookup_entry (schedule_refresh_if_needed e r now) i = lookup_entry r i)
     \<and> (lookup_entry r (e_id e) = Some e \<longrightarrow>
          map_option to_auth (lookup_entry (schedule_refresh_if_needed e r now) (e_id e)) = Some (to_auth e))
     \<and> (\<forall>i. i \<noteq> e_id e \<longrightarrow> schedule (r_refresher (schedule_refresh_if_needed e r now)) i = schedule (r_refresher r) i)"
proof (cases rule: schedule_if_needed_cases [of e r now])
  case no
  then show ?thesis using assms by simp
next
  case (old t)
  then show ?thesis
    using assms schedule_refresh_ok [OF reg_okD(2) [OF assms], of "e_id e" t] by simp
next
  case (fresh t)
  have "to_auth (e\<lparr>e_token := tok\<rparr>) = to_auth e" for tok by (simp add: to_auth_def)
  then show ?thesis
    using assms fresh(4) schedule_refresh_ok [OF reg_okD(2) [OF assms], of "e_id e" t]
    by (simp add: lookup_put)
qed

lemma get_entry_ne: "i \<noteq> [] \<Longrightarrow> get_entry r i = lookup_entry r i"
  by (simp add: get_entry_def)

lemma updated_entry_sel [simp]: "e_id (updated_entry a e now) = e_id e"
  "e_token (updated_entry a e now) = e_token e"
  by (simp_all add: updated_entry_def Let_def update_all_model_states_def update_metadata_def)

text \<open>What registering and updating a credential with an identifier have in common.\<close>

definition stores :: "auth_registry \<Rightarrow> string \<Rightarrow> auth \<Rightarrow> auth_registry \<Rightarrow> bool" where
  "stores r i res r' \<longleftrightarrow> reg_ok r' \<and> a_id res = i
     \<and> map_option to_auth (lookup_entry r' i) = Some res
     \<and> (\<forall>j. j \<noteq> i \<longrightarrow> lookup_entry r' j = lookup_entry r j
          \<and> schedule (r_refresher r') j = schedule (r_refresher r) j)"

lemma put_and_schedule_stores:
  assumes "reg_ok r"
  shows "stores r (e_id e) (to_auth e)
     (emit ev (mark_dirty i (schedule_refresh_if_needed e (put_entry e r) now)))"
  using schedule_if_needed_ok [OF reg_ok_put [OF assms], of e e now]
  by (simp add: stores_def lookup_put [OF assms])

lemma register_new_stores:
  assumes "reg_ok r"
  shows "stores r (a_id a) (fst (register_new a r now)) (snd (snd (register_new a r now)))"
  using put_and_schedule_stores [of "snd (next_index r)"
      "new_auth_entry (a\<lparr>a_index := fst (next_index r)\<rparr>) now"] assms
  by (simp add: register_new_def case_prod_unfold Let_def stores_def)

lemma update_existing_stores:
  assumes "reg_ok r" "lookup_entry r (a_id a) = Some e"
  shows "stores r (a_id a) (fst (update_existing a e r now)) (snd (snd (update_existing a e r now)))"
  using put_and_schedule_stores [OF assms(1), of "updated_entry a e now"] reg_okD(3) [OF assms]
  by (simp add: update_existing_def Let_def)

lemma register_stores:
  assumes "reg_ok r" "a_id a \<noteq> []"
  shows "stores r (a_id a) (fst (reg_register nid a r now)) (snd (snd (reg_register nid a r now)))"
  using assms register_new_stores [OF assms(1), of a now] update_existing_stores [OF assms(1), of a]
  by (simp add: reg_register_def split: option.split)

lemma dom_lookup_count: "reg_ok r \<Longrightarrow> reg_count r = card (dom (lookup_entry r))"
  by (simp add: reg_count_def reg.sh_count_card reg_okD lookup_entry_eq)

lemma finite_lookup: "reg_ok r \<Longrightarrow> finite (dom (lookup_entry r))"
  using reg.entries_keys [OF reg_okD(1)] unfolding lookup_entry_def by (metis List.finite_set)

lemma stores_count:
  assumes "reg_ok r" "stores r i res r'"
  shows "reg_count r' = (if lookup_entry r i = None then Suc (reg_count r) else reg_count r)"
proof -
  have "lookup_entry r' i \<noteq> None" using assms(2) by (auto simp: stores_def)
  then have "dom (lookup_entry r') = insert i (dom (lookup_entry r))"
    using assms(2) by (auto simp: stores_def dom_def) metis
  then show ?thesis
    using assms finite_lookup [OF assms(1)]
    by (auto simp: dom_lookup_count stores_def card_insert_if domIff)
qed

lemma delete_ok:
  assumes "reg_ok r" "i \<noteq> []"
  shows "reg_ok (reg_delete i r) \<and> lookup_entry (reg_delete i r) = (lookup_entry r)(i := None)
     \<and> schedule (r_refresher (reg_delete i r)) = (schedule (r_refresher r))(i := None)"
proof -
  let ?r = "r\<lparr>r_shards := sh_del shard_index i (r_shards r), r_refresher := unschedule_refresh i (r_refresher r)\<rparr>"
  have l: "lookup_entry ?r = (lookup_entry r)(i := None)"
    by (simp add: lookup_entry_def reg.get_del reg_okD [OF assms(1)] fun_eq_iff)
  have u: "rf_ok (unschedule_refresh i (r_refresher r))"
    "schedule (unschedule_refresh i (r_refresher r)) = (schedule (r_refresher r))(i := None)"
    using unschedule_refresh_ok [OF reg_okD(2) [OF assms(1)], of i] by simp_all
  have "reg_ok ?r"
    using assms(1) u(1) l by (auto simp: reg_ok_def reg.ok_del)
  with l u(2) assms(2) show ?thesis by (simp add: reg_delete_def Let_def)
qed

section \<open>Lemmas on picking\<close>

definition eligible :: "auth_entry list \<Rightarrow> string \<Rightarrow> gotime \<Rightarrow> auth_entry list" where
  "eligible es model now = filter (\<lambda>e. entry_verdict e model now = Take) es"

definition scan_earliest :: "string \<Rightarrow> gotime \<Rightarrow> auth_entry \<Rightarrow> gotime \<Rightarrow> gotime" where
  "scan_earliest model now e t =
     (case entry_verdict e model now of SkipUntil u \<Rightarrow> earlier t u | _ \<Rightarrow> t)"

lemma pick_scan_eq:
  "pick_scan es model now av t = (av @ eligible es model now, fold (scan_earliest model now) es t)"
  by (induction es arbitrary: av t) (simp_all add: eligible_def scan_earliest_def split: verdict.split)

text \<open>The waiting times the scan collects, and their minimum.\<close>

definition wait_times :: "auth_entry list \<Rightarrow> string \<Rightarrow> gotime \<Rightarrow> gotime set" where
  "wait_times es model now = {t. \<exists>e \<in> set es. entry_verdict e model now = SkipUntil t}"

lemma skip_until_nonzero: "entry_verdict e model now = SkipUntil t \<Longrightarrow> t \<noteq> 0"
  by (auto simp: entry_verdict_def is_in_cooldown_def Let_def split: prod.splits if_splits)

lemma wait_times_Cons:
  "wait_times (e # es) model now =
     (case entry_verdict e model now of SkipUntil t \<Rightarrow> insert t (wait_times es model now)
      | _ \<Rightarrow> wait_times es model now)"
  by (auto simp: wait_times_def split: verdict.splits)

lemma scan_earliest_fold:
  fixes es :: "auth_entry list" and t now :: gotime and model :: string
  defines "t' \<equiv> fold (scan_earliest model now) es t"
  shows "(t' = 0 \<longleftrightarrow> t = 0 \<and> wait_times es model now = {})
     \<and> (t' \<noteq> 0 \<longrightarrow> t' \<in> wait_times es model now \<union> {t} \<and> (\<forall>u \<in> wait_times es model now. t' \<le> u)
          \<and> (t \<noteq> 0 \<longrightarrow> t' \<le> t))"
  unfolding t'_def
proof (induction es arbitrary: t)
  case (Cons e es)
  show ?case
  proof (cases "entry_verdict e model now")
    case (SkipUntil u)
    note nz = skip_until_nonzero [OF SkipUntil]
    have f: "fold (scan_earliest model now) (e # es) t = fold (scan_earliest model now) es (earlier t u)"
      and w: "wait_times (e # es) model now = insert u (wait_times es model now)"
      using SkipUntil by (simp_all add: scan_earliest_def wait_times_Cons)
    show ?thesis
    proof (cases "t = 0 \<or> u < t")
      case True
      then have "earlier t u = u" by (auto simp: earlier_def)
      with Cons.IH [of u] nz True show ?thesis unfolding f w by auto
    next
      case False
      then have "earlier t u = t" by (auto simp: earlier_def)
      with Cons.IH [of t] False show ?thesis unfolding f w by auto
    qed
  qed (use Cons.IH in \<open>simp_all add: wait_times_Cons scan_earliest_def\<close>)
qed (simp add: wait_times_def)

text \<open>What the loop keeps: the selection is of minimal load, below the initial bound.\<close>

lemma least_active_spec:
  assumes "least_active es m sel = Some s"
  shows "(s \<in> set es \<and> active_requests s < m \<and> (\<forall>e \<in> set es. active_requests s \<le> active_requests e))
     \<or> (sel = Some s \<and> (\<forall>e \<in> set es. m \<le> active_requests e))"
  using assms
proof (induction es arbitrary: m sel)
  case (Cons e es)
  show ?case
  proof (cases "active_requests e < m")
    case True
    with Cons.prems have "least_active es (active_requests e) (Some e) = Some s" by simp
    from Cons.IH [OF this] show ?thesis
    proof (elim disjE conjE)
      assume "s \<in> set es" "active_requests s < active_requests e"
        "\<forall>e \<in> set es. active_requests s \<le> active_requests e"
      then show ?thesis using True by simp
    next
      assume "Some e = Some s" "\<forall>x \<in> set es. active_requests e \<le> active_requests x"
      then show ?thesis using True by simp
    qed
  next
    case False
    with Cons.prems have "least_active es m sel = Some s" by simp
    from Cons.IH [OF this] show ?thesis
    proof (elim disjE conjE)
      assume "s \<in> set es" "active_requests s < m" "\<forall>e \<in> set es. active_requests s \<le> active_requests e"
      then show ?thesis using False by simp
    next
      assume "sel = Some s" "\<forall>e \<in> set es. m \<le> active_requests e"
      then show ?thesis using False by simp
    qed
  qed
qed simp

lemma least_active_none: "least_active es m None = None \<Longrightarrow> \<forall>e \<in> set es. m \<le> active_requests e"
proof (induction es)
  case (Cons e es)
  have "least_active es n (Some x) \<noteq> None" for n x by (induction es arbitrary: n x) auto
  then have "\<not> active_requests e < m" using Cons.prems by (metis least_active.simps(2))
  with Cons show ?case by auto
qed simp

lemma chosen_least:
  assumes "(case av of [] \<Rightarrow> Inl err | [x] \<Rightarrow> Inr x
      | x # _ \<Rightarrow> Inr (case least_active av (2 ^ 63 - 1) None of None \<Rightarrow> x | Some s \<Rightarrow> s)) = Inr e"
    and "\<forall>x \<in> set av. active_requests x < 2 ^ 63"
  shows "e \<in> set av \<and> (\<forall>x \<in> set av. active_requests e \<le> active_requests x)"
proof (cases "least_active av (2 ^ 63 - 1) None")
  case None
  have "\<forall>x \<in> set av. active_requests x = 2 ^ 63 - 1"
    using least_active_none [OF None] assms(2) by force
  moreover have "e = hd av" "av \<noteq> []"
    using assms(1) unfolding None by (auto split: list.splits)
  ultimately show ?thesis by simp
next
  case (Some s)
  have s: "s \<in> set av \<and> (\<forall>x \<in> set av. active_requests s \<le> active_requests x)"
    using least_active_spec [OF Some] by auto
  show ?thesis
  proof (cases "tl av = []")
    case True
    then show ?thesis using assms(1) by (cases av) auto
  next
    case False
    then have "e = s" using assms(1) unfolding Some by (auto split: list.splits)
    with s show ?thesis by simp
  qed
qed

lemma pick_entry_eq:
  assumes "es \<noteq> []"
  shows "pick_entry provider model es now =
     (case eligible es model now of
        [] \<Rightarrow> Inl (none_available model provider (fold (scan_earliest model now) es 0) now)
      | [x] \<Rightarrow> Inr x
      | x # _ \<Rightarrow> Inr (case least_active (eligible es model now) (2 ^ 63 - 1) None of
                       None \<Rightarrow> x | Some s \<Rightarrow> s))"
  using assms by (simp only: pick_entry_def pick_scan_eq Let_def prod.case if_False append_Nil)

lemma pick_entry_least:
  assumes "pick_entry provider model es now = Inr e" "\<forall>x \<in> set es. active_requests x < 2 ^ 63"
  shows "e \<in> set (eligible es model now)
     \<and> (\<forall>x \<in> set (eligible es model now). active_requests e \<le> active_requests x)"
proof -
  have "es \<noteq> []" using assms(1) by (auto simp: pick_entry_def)
  moreover have "\<forall>x \<in> set (eligible es model now). active_requests x < 2 ^ 63"
    using assms(2) by (simp add: eligible_def)
  ultimately show ?thesis
    using chosen_least [OF assms(1) [unfolded pick_entry_eq [OF \<open>es \<noteq> []\<close>]]] by simp
qed

lemma pick_entry_error:
  assumes "es \<noteq> []"
  shows "pick_entry provider model es now = Inl err \<longleftrightarrow> eligible es model now = []
     \<and> err = none_available model provider (fold (scan_earliest model now) es 0) now"
  unfolding pick_entry_eq [OF assms] by (auto split: list.splits)


section \<open>Properties\<close>

text \<open>
  The registry is a store of credentials. Registering one under its identifier makes it
  readable as it was returned, counts it once and leaves every other credential and its refresh
  schedule as they were; deleting it takes it out of the map and off the schedule.
\<close>

theorem registry_is_a_store:
  assumes "reg_ok r" and "a_id a \<noteq> []" and "j \<noteq> a_id a"
  shows "let (res, _, r') = reg_register new_id a r now; r'' = reg_delete (a_id a) r' in
     reg_get r' (a_id a) = Some res \<and> reg_get r' j = reg_get r j
     \<and> reg_count r' = (if reg_get r (a_id a) = None then Suc (reg_count r) else reg_count r)
     \<and> schedule (r_refresher r') j = schedule (r_refresher r) j
     \<and> reg_get r'' (a_id a) = None \<and> schedule (r_refresher r'') (a_id a) = None
     \<and> reg_get r'' j = reg_get r j \<and> reg_ok r' \<and> reg_ok r''"
proof -
  let ?p = "reg_register new_id a r now"
  let ?r = "snd (snd ?p)"
  note st = register_stores [OF assms(1, 2), of new_id now]
  have ok: "reg_ok ?r" using st by (simp add: stores_def)
  note d = delete_ok [OF ok assms(2)] and c = stores_count [OF assms(1) st]
  have "get_entry ?r j = get_entry r j" using st assms(3) by (simp add: get_entry_def stores_def)
  with st d c ok assms(2, 3) show ?thesis
    by (simp add: case_prod_unfold Let_def reg_get_def get_entry_def stores_def)
qed

lemma registry_is_a_store_witness:
  "let (res, _, r') = reg_register ''u'' (auth_zero\<lparr>a_id := ''a''\<rparr>) (new_auth_registry True None) 9
   in reg_get r' ''a'' = Some res \<and> reg_get r' ''b'' = None \<and> reg_count r' = 1"
proof -
  have "reg_get (new_auth_registry True None) i = None" for i
    by (simp add: reg_get_def get_entry_def lookup_entry_def new_auth_registry_def reg.get_empty)
  moreover have "reg_count (new_auth_registry True None) = 0"
    by (simp add: reg_count_def sh_count_def new_auth_registry_def sh_empty_def)
  moreover have "a_id (auth_zero\<lparr>a_id := ''a''\<rparr>) = ''a''" by simp
  ultimately show ?thesis
    using registry_is_a_store [OF reg_ok_new, of "auth_zero\<lparr>a_id := ''a''\<rparr>" "''b''" "''u''" True None 9]
    by (simp add: case_prod_unfold Let_def)
qed

text \<open>
  C1: \<open>Pick\<close> hands out a credential that is enabled, not cooling down and not blocked for the
  model, with the fewest running requests among those, and counts the request on it and on no
  other. When it fails every candidate is out, and the error is a cooldown error exactly when one
  of them comes back, carrying the time until the first does.
\<close>

theorem pick_least_loaded:
  assumes "reg_ok r" and "es \<noteq> []"
    and "\<forall>x \<in> set es. lookup_entry r (e_id x) = Some x \<and> active_requests x < 2 ^ 63 - 1
          \<and> in64 (active_requests x)"
  shows "case reg_pick provider model es r now of
      (Inr e, r') \<Rightarrow> \<exists>x \<in> set es. entry_verdict x model now = Take
         \<and> (\<forall>y \<in> set es. entry_verdict y model now = Take \<longrightarrow> active_requests x \<le> active_requests y)
         \<and> lookup_entry r' = (lookup_entry r)(e_id x \<mapsto> e) \<and> active_requests e = active_requests x + 1
    | (Inl err, r') \<Rightarrow> r' = r \<and> (\<forall>y \<in> set es. entry_verdict y model now \<noteq> Take)
         \<and> (case err of
              PickError _ \<Rightarrow> wait_times es model now = {}
            | ModelCooldown mc \<Rightarrow> \<exists>t \<in> wait_times es model now. (\<forall>u \<in> wait_times es model now. t \<le> u)
                \<and> mc_reset_in mc = max 0 (time_sub t now))"
proof (cases "pick_entry provider model es now")
  case (Inl err)
  then have e: "eligible es model now = []"
      "err = none_available model provider (fold (scan_earliest model now) es 0) now"
    using pick_entry_error [OF assms(2)] by auto
  let ?t = "fold (scan_earliest model now) es 0"
  have "\<forall>y \<in> set es. entry_verdict y model now \<noteq> Take" using e(1) by (auto simp: eligible_def filter_empty_conv)
  moreover have "case err of
              PickError _ \<Rightarrow> wait_times es model now = {}
            | ModelCooldown mc \<Rightarrow> \<exists>t \<in> wait_times es model now. (\<forall>u \<in> wait_times es model now. t \<le> u)
                \<and> mc_reset_in mc = max 0 (time_sub t now)"
  proof (cases "?t = 0")
    case True
    then show ?thesis using scan_earliest_fold [of model now es 0] e(2) by (simp add: none_available_def)
  next
    case False
    have "?t \<in> wait_times es model now" "\<forall>u \<in> wait_times es model now. ?t \<le> u"
      using scan_earliest_fold [of model now es 0] False by auto
    moreover have "err = ModelCooldown (new_model_cooldown_error model provider (max 0 (time_sub ?t now)))"
      using e(2) False by (auto simp: none_available_def Let_def max_def)
    ultimately show ?thesis by (auto simp: new_model_cooldown_error_def)
  qed
  ultimately show ?thesis using Inl by (simp add: reg_pick_def)
next
  case (Inr x)
  have b: "\<forall>x \<in> set es. active_requests x < 2 ^ 63" using assms(3) by force
  note l = pick_entry_least [OF Inr b]
  then have x: "x \<in> set es" "entry_verdict x model now = Take" by (auto simp: eligible_def)
  have w: "wrap64 (active_requests x + 1) = active_requests x + 1"
    using assms(3) x(1) by (intro wrap64_id) (force simp: in64_def)
  have "active_requests (increment_active_requests x) = active_requests x + 1"
    using w by (simp add: active_requests_def increment_active_requests_def)
  moreover have "lookup_entry (put_entry (increment_active_requests x) r)
      = (lookup_entry r)(e_id x \<mapsto> increment_active_requests x)"
    using assms(1) by (simp add: lookup_put)
  ultimately show ?thesis
    using Inr x l by (simp add: reg_pick_def Let_def eligible_def) blast
qed


text \<open>The registry with one credential that the witnesses use.\<close>

definition sample_entry :: auth_entry where
  "sample_entry = new_auth_entry (auth_zero\<lparr>a_id := ''a''\<rparr>) 0"

definition sample_registry :: auth_registry where
  "sample_registry = put_entry sample_entry (new_auth_registry True None)"

lemma sample_registry_ok [simp]: "reg_ok sample_registry"
  by (simp add: sample_registry_def reg_ok_new)

lemma sample_entry_sel [simp]:
  "e_id sample_entry = ''a''" "e_disabled sample_entry = False" "e_unavailable sample_entry = False"
  "e_states sample_entry = []" "md_status (e_meta sample_entry) = status_zero"
  by (simp_all add: sample_entry_def auth_zero_def metadata_of_def snapshots_of_def map_filter_def)

lemma sample_entry_quota [simp]: "e_quota sample_entry = quota_fields_zero"
  by (simp add: sample_entry_def new_auth_entry_def auth_zero_def quota_zero_def Let_def)

lemma sample_entry_idle [simp]: "\<not> tf_refreshing (e_token sample_entry)"
  by code_simp

lemma lookup_sample [simp]:
  "lookup_entry sample_registry i = (if i = ''a'' then Some sample_entry else None)"
  by (simp add: sample_registry_def lookup_put [OF reg_ok_new])
    (simp add: lookup_entry_def new_auth_registry_def reg.get_empty)

lemma pick_least_loaded_witness:
  "case reg_pick ''p'' ''m'' [sample_entry] sample_registry 9 of
     (Inr e, r') \<Rightarrow> lookup_entry r' ''a'' = Some e \<and> active_requests e = 1
   | (Inl err, r') \<Rightarrow> entry_verdict sample_entry ''m'' 9 \<noteq> Take"
  using pick_least_loaded [where r = sample_registry and es = "[sample_entry]" and provider = "''p''"
      and model = "''m''" and now = 9]
  by (auto simp: active_requests_def quota_fields_zero_def in64_def split: sum.splits prod.splits)

section \<open>Properties of outcomes\<close>

text \<open>How long a failed request keeps a model out, from the level its quota errors have reached.\<close>

definition model_pause :: "bool \<Rightarrow> exec_result \<Rightarrow> int \<Rightarrow> duration" where
  "model_pause no_cooldown x lvl =
     (let code = status_code_from_result (x_error x) in
      if code = 429 then (case x_retry_after x of Some d \<Rightarrow> d | None \<Rightarrow> fst (next_quota_cooldown no_cooldown lvl))
      else failure_pause code)"

definition model_level :: "auth_entry \<Rightarrow> string \<Rightarrow> int" where
  "model_level e m = ss_backoff_level (fst (snapshots_get (e_states e) m))"

definition failure_text :: "exec_result \<Rightarrow> string" where
  "failure_text x = (case x_error x of None \<Rightarrow> [] | Some err \<Rightarrow> err_message err)"

lemma snapshots_get_with:
  "snapshots_get (snapshots_with m s ss) k =
     (if k = m then (s, True) else apfst (\<lambda>x. if mget ss k = None then x else snapshot_clone x) (snapshots_get ss k))"
  by (auto simp: snapshots_get_def snapshots_with_def snapshots_clone_def split: option.splits)

lemma failed_snapshot_sel:
  assumes "0 < model_pause nc x (ss_backoff_level old)"
  shows "ss_status (failed_snapshot nc x old now) = StatusError"
    "ss_unavailable (failed_snapshot nc x old now)"
    "ss_next_retry_after (failed_snapshot nc x old now)
       = unix_nano (now + model_pause nc x (ss_backoff_level old))"
proof -
  have "ss_status (failed_snapshot nc x old now) = StatusError \<and> ss_unavailable (failed_snapshot nc x old now)
      \<and> ss_next_retry_after (failed_snapshot nc x old now)
       = unix_nano (now + model_pause nc x (ss_backoff_level old))"
    using assms unfolding failed_snapshot_def model_pause_def Let_def case_prod_unfold
    by (cases "status_code_from_result (x_error x) = 429"; cases "x_retry_after x"; cases "x_error x")
      simp_all
  then show "ss_status (failed_snapshot nc x old now) = StatusError"
    "ss_unavailable (failed_snapshot nc x old now)"
    "ss_next_retry_after (failed_snapshot nc x old now)
       = unix_nano (now + model_pause nc x (ss_backoff_level old))" by simp_all
qed

text \<open>
  C10: A request that failed upstream takes its model out of the credential for as long as the
  status says: until the provider's hint or the next step of the quota ladder after a 429, for the
  pause of its status otherwise, and not an instant longer. Other models of the credential are
  answered as before.
\<close>

theorem model_failure_blocks_model:
  assumes "x_model x \<noteq> []" and "k \<noteq> x_model x"
    and "categorize_error (status_code_from_result (x_error x)) (failure_text x)
           \<notin> {CategoryUserError, CategoryClientCanceled}"
    and "\<not> e_disabled e" and "md_status (e_meta e) \<noteq> StatusDisabled"
    and "0 < model_pause nc x (model_level e (x_model x))"
    and "time_ok (now + model_pause nc x (model_level e (x_model x)))"
    and "now + model_pause nc x (model_level e (x_model x)) \<noteq> unix_epoch"
  shows "let e' = on_failure nc x e now in
     (fst (entry_is_blocked_for_model e' (x_model x) t)
        \<longleftrightarrow> t < now + model_pause nc x (model_level e (x_model x)))
     \<and> entry_is_blocked_for_model e' k t = entry_is_blocked_for_model e k t"
proof -
  let ?old = "fst (snapshots_get (e_states e) (x_model x))"
  let ?s = "failed_snapshot nc x ?old now" and ?e = "on_failure nc x e now"
  have f: "?e = update_metadata
      (\<lambda>old. with_result_error x ((metadata_clone old)\<lparr>md_status := StatusError, md_updated_at := now\<rparr>))
      (update_model_state (x_model x) (\<lambda>old. failed_snapshot nc x old now) e)"
    using assms(1, 3) by (simp add: on_failure_def model_failure_def Let_def failure_text_def)
  have st: "e_states ?e = snapshots_with (x_model x) ?s (e_states e)"
    by (simp add: f) (simp add: update_model_state_def)
  have md: "md_status (e_meta ?e) = StatusError"
    by (simp add: f) (simp add: update_metadata_def with_result_error_def split: option.split)
  have fr: "e_disabled ?e = e_disabled e" "e_unavailable ?e = e_unavailable e" "e_quota ?e = e_quota e"
    by (simp_all add: f)
  have p: "ss_status ?s = StatusError" "ss_unavailable ?s"
    "ss_next_retry_after ?s = unix_nano (now + model_pause nc x (model_level e (x_model x)))"
    using failed_snapshot_sel [of nc x ?old now] assms(6) by (simp_all add: model_level_def)
  have "ss_next_retry_after ?s \<noteq> 0"
    using assms(7, 8) by (simp add: p(3) unix_nano_eq_0)
  then have "fst (entry_is_blocked_for_model ?e (x_model x) t)
      \<longleftrightarrow> t < now + model_pause nc x (model_level e (x_model x))"
    using assms(1, 4) p unix_nano_inverse [OF assms(7)]
    by (simp add: entry_is_blocked_for_model_def md fr st snapshots_get_with)
  moreover have "entry_is_blocked_for_model ?e k t = entry_is_blocked_for_model e k t"
    using assms(2, 5)
    by (cases "mget (e_states e) k")
      (simp_all add: entry_is_blocked_for_model_def md fr st snapshots_get_with snapshots_get_def
        snapshot_clone_def)
  ultimately show ?thesis by (simp add: Let_def)
qed


definition sample_failure :: "string \<Rightarrow> int \<Rightarrow> duration option \<Rightarrow> exec_result" where
  "sample_failure model code hint =
     \<lparr>x_auth_id = ''a'', x_provider = ''p'', x_model = model, x_success = False,
      x_retry_after = hint, x_error = Some ((mk_error [] ''x'')\<lparr>err_http_status := code\<rparr>)\<rparr>"

lemma sample_failure_sel [simp]:
  "x_auth_id (sample_failure m c h) = ''a''" "x_model (sample_failure m c h) = m"
  "x_success (sample_failure m c h) = False" "x_retry_after (sample_failure m c h) = h"
  "status_code_from_result (x_error (sample_failure m c h)) = c"
  "failure_text (sample_failure m c h) = ''x''"
  by (simp_all add: sample_failure_def status_code_from_result_def failure_text_def mk_error_def)

lemma sample_failure_category:
  "categorize_error 429 ''x'' = CategoryQuotaError" "categorize_error 401 ''x'' = CategoryAuthError"
  by code_simp+

lemma sample_failure_result [simp]:
  "result_category (sample_failure m c h) = categorize_error c ''x''"
  by (simp add: result_category_def sample_failure_def mk_error_def)

lemma model_failure_blocks_model_witness:
  "let e' = on_failure False (sample_failure ''m'' 429 (Some (5 * second))) sample_entry (time_unix 100) in
     fst (entry_is_blocked_for_model e' ''m'' (time_unix 4000000000))
     \<and> \<not> fst (entry_is_blocked_for_model e' ''m'' (time_unix 5000000100))"
proof -
  let ?x = "sample_failure ''m'' 429 (Some (5 * second))"
  have p: "model_pause False ?x lvl = 5 * second" for lvl by (simp add: model_pause_def)
  have "time_ok (time_unix 100 + 5 * second)" "time_unix 100 + 5 * second \<noteq> unix_epoch"
    by (simp_all add: time_ok_def time_unix_def in64_def go_time)
  from model_failure_blocks_model [of ?x "''k''" sample_entry False "time_unix 100", unfolded p, OF _ _ _ _ _ _ this]
  show ?thesis by (simp add: Let_def sample_failure_category go_time time_unix_def)
qed

text \<open>
  A failure that names no model is meant for the whole credential, but only revocation and
  quota errors keep it from serving: an authentication error, a transient one or an unknown one
  records its cause (and, for authentication, a time half an hour ahead that nothing reads) and
  leaves every model without a state of its own available at once.
\<close>

theorem auth_level_failure_effect:
  assumes "x_model x = []" and "mget (e_states e) m = None"
    and "\<not> e_disabled e" and "md_status (e_meta e) \<noteq> StatusDisabled"
    and "get_cooldown_until (e_quota e) = 0" and "0 < t"
    and "time_ok (now + auth_cooldown nc x)" and "now + auth_cooldown nc x \<notin> {0, unix_epoch}"
  shows "let e' = on_failure nc x e now in
     (fst (entry_is_blocked_for_model e' m t) \<longleftrightarrow>
        (case result_category x of
           CategoryAuthRevoked \<Rightarrow> True
         | CategoryQuotaError \<Rightarrow> t < now + auth_cooldown nc x
         | _ \<Rightarrow> False))
     \<and> e_unavailable e'
     \<and> (result_category x = CategoryAuthError \<longrightarrow> md_next_retry_after (e_meta e') = now + 30 * minute)"
proof -
  let ?e = "on_failure nc x e now" and ?m = "auth_failure_metadata nc x (e_meta e) now"
  have md: "e_meta ?e = ?m" and st: "e_states ?e = e_states e" and un: "e_unavailable ?e"
    using assms(1)
    by (simp_all add: on_failure_def apply_auth_level_failure_def Let_def set_cooldown_def unavailable_def
        update_metadata_def)
  have di: "e_disabled ?e \<longleftrightarrow> result_category x = CategoryAuthRevoked"
    using assms(1, 3)
    by (simp add: on_failure_def apply_auth_level_failure_def Let_def set_cooldown_def unavailable_def
        update_metadata_def)
  have cd: "get_cooldown_until (e_quota ?e)
      = (if result_category x = CategoryQuotaError then now + auth_cooldown nc x else 0)"
    using assms(1, 5, 7, 8)
    by (simp add: on_failure_def apply_auth_level_failure_def Let_def set_cooldown_def unavailable_def
        update_metadata_def get_cooldown_until_def set_last_exhausted_at_def)
  have ms: "md_status ?m = StatusDisabled \<longleftrightarrow> result_category x = CategoryAuthRevoked"
    by (cases "result_category x")
      (auto simp: auth_failure_metadata_def with_result_error_def Let_def split: option.splits)
  have nr: "result_category x = CategoryAuthError \<Longrightarrow> md_next_retry_after ?m = now + 30 * minute"
    by (simp add: auth_failure_metadata_def Let_def)
  have "fst (entry_is_blocked_for_model ?e m t) \<longleftrightarrow>
      result_category x = CategoryAuthRevoked
      \<or> t < (if result_category x = CategoryQuotaError then now + auth_cooldown nc x else 0)"
    using assms(2) by (simp add: entry_is_blocked_for_model_def md st un di cd ms snapshots_get_def)
  then show ?thesis
    using un nr assms(6) by (cases "result_category x") (simp_all add: Let_def md)
qed

lemma auth_level_failure_effect_witness:
  "let e' = on_failure False (sample_failure [] 401 None) sample_entry (time_unix 100) in
     \<not> fst (entry_is_blocked_for_model e' ''m'' (time_unix 200)) \<and> e_unavailable e'
     \<and> md_next_retry_after (e_meta e') = time_unix 100 + 30 * minute"
proof -
  let ?x = "sample_failure [] 401 None"
  have c: "auth_cooldown False ?x = second"
    by (simp add: auth_cooldown_def next_quota_cooldown_low)
  have "time_ok (time_unix 100 + second)" "time_unix 100 + second \<notin> {0, unix_epoch}"
    by (simp_all add: time_ok_def time_unix_def in64_def go_time unix_epoch_def)
  from auth_level_failure_effect [of ?x sample_entry "''m''" "time_unix 200" "time_unix 100" False,
      unfolded c, OF _ _ _ _ _ _ this]
  show ?thesis
    by (simp add: Let_def sample_failure_category time_unix_def unix_epoch_def get_cooldown_until_def
        quota_fields_zero_def of_nanos_def)
qed

text \<open>
  C3: The count of running requests only comes back down on failure. Whatever credential was
  picked, reporting a failed outcome restores the count it had before the pick, while reporting a
  success leaves the request counted for good.
\<close>

theorem success_keeps_request_counted:
  assumes "reg_ok r" and "i \<noteq> []" and "lookup_entry r i = Some e" and "x_auth_id x = i"
    and "0 \<le> active_requests e" and "active_requests e < 2 ^ 63 - 1"
    and "reg_pick provider model [e] r now = (Inr e1, r1)"
  shows "map_option active_requests (lookup_entry (reg_mark_result nc x r1 t) i)
     = Some (if x_success x then active_requests e + 1 else active_requests e)"
proof -
  have id: "e_id e = i" using assms(1, 3) by (rule reg_okD(3))
  have "pick_entry provider model [e] now = Inr e"
    using assms(7) by (auto simp: reg_pick_def pick_entry_eq eligible_def split: sum.splits if_splits)
  then have r1: "e1 = increment_active_requests e" "r1 = put_entry e1 r"
    using assms(7) by (auto simp: reg_pick_def Let_def)
  have w: "wrap64 (active_requests e + 1) = active_requests e + 1"
    using assms(5, 6) by (intro wrap64_id) (simp add: in64_def)
  then have a1: "active_requests e1 = active_requests e + 1" "e_id e1 = i"
    using id by (simp_all add: r1 active_requests_def increment_active_requests_def)
  have ok: "reg_ok r1" using assms(1) by (simp add: r1(2))
  have l1: "get_entry r1 i = Some e1"
    using a1(2) assms(1, 2) by (simp add: get_entry_def r1(2) lookup_put)
  have suc: "active_requests (on_success x e1 t) = active_requests e1" "e_id (on_success x e1 t) = i"
    using a1(2) by (simp_all add: on_success_def active_requests_def unavailable_def clear_cooldown_def
        update_metadata_def update_model_state_def set_cooldown_until_def Let_def)
  have dec: "active_requests (decrement_active_requests e1) = active_requests e"
      "e_id (decrement_active_requests e1) = i"
    using a1 assms(5) by (simp_all add: active_requests_def decrement_active_requests_def)
  have fal: "active_requests (on_failure nc x e' t) = active_requests e'" "e_id (on_failure nc x e' t) = e_id e'" for e'
    by (simp_all add: on_failure_def apply_auth_level_failure_def model_failure_def active_requests_def
        set_cooldown_def unavailable_def set_cooldown_until_def set_last_exhausted_at_def Let_def)
  show ?thesis
    using l1 suc dec fal a1 ok assms(2, 4)
    by (simp add: reg_mark_result_def handle_success_result_def Let_def lookup_put)
qed


lemma success_keeps_request_counted_witness:
  "let r1 = snd (reg_pick ''p'' ''m'' [sample_entry] sample_registry 9);
       x = (sample_failure ''m'' 0 None)\<lparr>x_success := True, x_error := None\<rparr>
   in map_option active_requests (lookup_entry (reg_mark_result False x r1 10) ''a'') = Some 1"
proof -
  let ?x = "(sample_failure ''m'' 0 None)\<lparr>x_success := True, x_error := None\<rparr>"
  let ?e = "increment_active_requests sample_entry"
  have "entry_verdict sample_entry ''m'' 9 = Take"
    by (simp add: entry_verdict_def is_in_cooldown_def entry_is_blocked_for_model_def quota_fields_zero_def
        get_cooldown_until_def of_nanos_def snapshots_get_def)
  then have p: "reg_pick ''p'' ''m'' [sample_entry] sample_registry 9 = (Inr ?e, put_entry ?e sample_registry)"
    by (simp add: reg_pick_def pick_entry_eq eligible_def Let_def)
  show ?thesis
    using success_keeps_request_counted [OF sample_registry_ok _ _ _ _ _ p, of "''a''" ?x False 10]
    by (simp add: p active_requests_def quota_fields_zero_def Let_def)
qed


section \<open>Properties of refreshing and saving\<close>

lemma mget_fold_mput:
  "wf_map us \<Longrightarrow> mget (fold (\<lambda>(k, v). mput k v) us m) k =
     (case mget us k of None \<Rightarrow> mget m k | Some v \<Rightarrow> Some v)"
proof (induction us arbitrary: m)
  case (Cons kv us)
  then have "wf_map us" "fst kv \<notin> set (mkeys us)" by (simp_all add: wf_map_def)
  then have "mget us (fst kv) = None" by (simp add: map_of_eq_None_iff)
  with Cons.IH [OF \<open>wf_map us\<close>, of "mput (fst kv) (snd kv) m"] show ?case
    by (cases kv) (auto split: option.splits)
qed simp

lemma apply_refresh_eq:
  "apply_refresh u e r now =
     (let at_time = refresh_point (the (expiration_from_map (meta_map (a_metadata u)))) now;
          known = (expiration_from_map (meta_map (a_metadata u)) \<noteq> None);
          e1 = update_metadata (\<lambda>old. refreshed_metadata u old now) e;
          e2 = (if known then e1\<lparr>e_token := set_refresh_at at_time
                  (set_expires_at (the (expiration_from_map (meta_map (a_metadata u)))) (e_token e1))\<rparr> else e1);
          r1 = (if known then r\<lparr>r_refresher := schedule_refresh (e_id e) at_time (r_refresher r)\<rparr> else r)
      in emit (OnAuthUpdated (to_auth e2)) (mark_dirty (e_id e) (put_entry e2 r1)))"
  by (simp add: apply_refresh_def Let_def split: option.split)

text \<open>
  A refresh never loses a credential's place unless its expiry is unknown. After three failed
  attempts it is due again in a minute and the credential is untouched; after a success the new
  metadata are merged over the old, key by key, and it is due five minutes before the new expiry,
  or in five seconds when that has passed, so never in the past.
\<close>

theorem refresh_reschedules:
  assumes "reg_ok r" and "get_entry r i = Some e" and "\<not> tf_refreshing (e_token e)"
    and "\<forall>u. refresh_outcome answers = Some u \<longrightarrow> wf_map (meta_map (a_metadata u))"
  shows "let r' = do_refresh True answers i r now in
     case refresh_outcome answers of
       None \<Rightarrow> schedule (r_refresher r') i = Some (now + minute) \<and> lookup_entry r' = lookup_entry r
     | Some u \<Rightarrow>
         (case expiration_from_map (meta_map (a_metadata u)) of
            None \<Rightarrow> schedule (r_refresher r') i = schedule (r_refresher r) i
          | Some ts \<Rightarrow> schedule (r_refresher r') i
              = Some (if ts - 5 * minute < now then now + 5 * second else ts - 5 * minute))
         \<and> (\<exists>e'. lookup_entry r' i = Some e' \<and> (\<forall>k. mget (meta_map (md_metadata (e_meta e'))) k =
              (case mget (meta_map (a_metadata u)) k of
                 None \<Rightarrow> mget (meta_map (md_metadata (e_meta e))) k | Some v \<Rightarrow> Some v)))"
proof -
  have l: "lookup_entry r i = Some e" "i \<noteq> []" using assms(2) by (auto simp: get_entry_def split: if_splits)
  then have id: "e_id e = i" using assms(1) by (metis reg_okD(3))
  note sch = schedule_refresh_ok [OF reg_okD(2) [OF assms(1)], of i]
  show ?thesis
  proof (cases "refresh_outcome answers")
    case None
    then show ?thesis
      using assms(2, 3) sch [of "now + minute"] by (simp add: do_refresh_def try_start_refresh_def)
  next
    case (Some u)
    let ?e1 = "update_metadata (\<lambda>old. refreshed_metadata u old now) e"
    have d: "do_refresh True answers i r now = apply_refresh u e r now"
      using assms(2, 3) Some by (simp add: do_refresh_def try_start_refresh_def)
    have m: "mget (meta_map (md_metadata (e_meta ?e1))) k =
        (case mget (meta_map (a_metadata u)) k of
           None \<Rightarrow> mget (meta_map (md_metadata (e_meta e))) k | Some v \<Rightarrow> Some v)" for k
      using mget_fold_mput [of "meta_map (a_metadata u)"] assms(4) Some
      by (simp add: update_metadata_def refreshed_metadata_def Let_def metadata_clone_def)
    have ok: "reg_ok (r\<lparr>r_refresher := schedule_refresh i t (r_refresher r)\<rparr>)" for t
      using assms(1) sch [of t] by simp
    show ?thesis
    proof (cases "expiration_from_map (meta_map (a_metadata u))")
      case None
      have "lookup_entry (apply_refresh u e r now) i = Some ?e1"
        using assms(1) id by (simp add: apply_refresh_eq None Let_def lookup_put)
      moreover have "r_refresher (apply_refresh u e r now) = r_refresher r"
        by (simp add: apply_refresh_eq None Let_def)
      ultimately show ?thesis using m by (simp add: Some None d)
    next
      case (Some ts)
      let ?e2 = "?e1\<lparr>e_token := set_refresh_at (refresh_point ts now) (set_expires_at ts (e_token ?e1))\<rparr>"
      have "lookup_entry (apply_refresh u e r now) i = Some ?e2"
        using id by (simp add: apply_refresh_eq Some Let_def lookup_put [OF ok])
      moreover have "schedule (r_refresher (apply_refresh u e r now)) i = Some (refresh_point ts now)"
        using id sch by (simp add: apply_refresh_eq Some Let_def)
      ultimately show ?thesis
        using m by (simp add: \<open>refresh_outcome answers = Some u\<close> Some d refresh_point_def Let_def)
    qed
  qed
qed

lemma refresh_reschedules_witness:
  "schedule (r_refresher (do_refresh True [Inl ''timeout'', Inr None] ''a'' sample_registry 9)) ''a''
     = Some (9 + minute)"
  using refresh_reschedules [where r = sample_registry and i = "''a''" and e = sample_entry
      and answers = "[Inl ''timeout'', Inr None]" and now = 9]
  by (simp add: get_entry_def refresh_outcome_def Let_def)

text \<open>
  Updating a credential does not move its refresh. Whatever expiry the new metadata carry,
  the credential stays scheduled at the refresh time computed when it was first registered or last
  refreshed.
\<close>

theorem update_keeps_refresh_time:
  assumes "reg_ok r" and "a_id a \<noteq> []" and "lookup_entry r (a_id a) = Some e"
    and "get_refresh_at (e_token e) = t" and "t \<noteq> 0"
    and "a_metadata a = Some m" and "mget m ''access_token'' \<noteq> None" and "mget m ''refresh_token'' \<noteq> None"
  shows "let r' = snd (snd (reg_update a r now)) in
     schedule (r_refresher r') (a_id a) = Some t
     \<and> map_option (\<lambda>e. e_token e) (lookup_entry r' (a_id a)) = Some (e_token e)"
proof -
  let ?e = "updated_entry a e now"
  have id: "e_id e = a_id a" using assms(1, 3) by (rule reg_okD(3))
  obtain y z where yz: "mget m ''access_token'' = Some y" "mget m ''refresh_token'' = Some z"
    using assms(7, 8) by auto
  have "md_metadata (e_meta ?e) = Some m"
    using assms(6) yz(1) by (auto simp: updated_entry_def updated_metadata_def metadata_of_def update_metadata_def
        copy_meta_def update_all_model_states_def Let_def)
  then have "schedule_refresh_if_needed ?e (put_entry ?e r) now
      = (put_entry ?e r)\<lparr>r_refresher := schedule_refresh (e_id e) t (r_refresher r)\<rparr>"
    using assms(4, 5) yz by (simp add: schedule_refresh_if_needed_def Let_def)
  then show ?thesis
    using assms(1-3) id schedule_refresh_ok [OF reg_okD(2) [OF assms(1)], of "a_id a" t]
    by (simp add: reg_update_def update_existing_def Let_def lookup_put)
qed

lemma receive_all:
  "set (r_persist_batch ((persist_receive ^^ n) r)) = set (take n (r_persist_queue r)) \<union> set (r_persist_batch r)
   \<and> r_persist_queue ((persist_receive ^^ n) r) = drop n (r_persist_queue r)
   \<and> r_has_store ((persist_receive ^^ n) r) = r_has_store r
   \<and> r_shards ((persist_receive ^^ n) r) = r_shards r"
proof (induction n arbitrary: r)
  case (Suc n)
  have f: "(persist_receive ^^ Suc n) r = (persist_receive ^^ n) (persist_receive r)"
    by (simp only: funpow_Suc_right o_apply)
  show ?case
  proof (cases "r_persist_queue r")
    case Nil
    then have "persist_receive r = r" by (simp add: persist_receive_def)
    with Suc.IH [of r] Nil show ?thesis unfolding f by simp
  next
    case (Cons i q)
    then have "persist_receive r
        = r\<lparr>r_persist_queue := q, r_persist_batch := List.insert i (r_persist_batch r)\<rparr>"
      by (simp add: persist_receive_def)
    with Suc.IH [of "persist_receive r"] Cons show ?thesis unfolding f by simp
  qed
qed simp

lemma flush_entry_keeps:
  "set (r_log r) \<subseteq> set (r_log (flush_entry j r))" "r_shards (flush_entry j r) = r_shards r"
  by (auto simp: flush_entry_def emit_def split: option.splits)

lemma flush_log_mono: "set (r_log r) \<subseteq> set (r_log (fold flush_entry b r))"
proof (induction b arbitrary: r)
  case (Cons j b)
  show ?case using flush_entry_keeps(1) [of r j] Cons.IH [of "flush_entry j r"] by auto
qed simp

lemma flush_fold:
  assumes "get_entry r i = Some e" "i \<in> set batch"
    and "attr (md_attributes (e_meta e)) ''runtime_only'' \<noteq> ''true''" "md_metadata (e_meta e) \<noteq> None"
  shows "StoreSave (to_auth e) \<in> set (r_log (fold flush_entry batch r))"
proof -
  from assms(1, 2) show ?thesis
  proof (induction batch arbitrary: r)
    case (Cons j batch)
    have g: "get_entry (flush_entry j r) i = Some e"
      using Cons.prems(1) flush_entry_keeps(2) [of j r]
      by (simp add: get_entry_def lookup_entry_def split: if_splits)
    show ?case
    proof (cases "j = i")
      case True
      then have "StoreSave (to_auth e) \<in> set (r_log (flush_entry j r))"
        using Cons.prems(1) assms(3, 4) by (auto simp: flush_entry_def emit_def)
      then show ?thesis using flush_log_mono [of "flush_entry j r" batch] by auto
    next
      case False
      then show ?thesis using Cons.IH [OF g] Cons.prems(2) by simp
    qed
  qed simp
qed


text \<open>
  A credential marked dirty is saved. When the queue has room, draining it and flushing saves
  the credential as it is then, unless it lives at run time only or has no metadata.
\<close>

theorem dirty_is_saved:
  assumes "r_has_store r" and "length (r_persist_queue r) < persist_queue_size"
    and "get_entry r i = Some e" and "md_metadata (e_meta e) \<noteq> None"
    and "attr (md_attributes (e_meta e)) ''runtime_only'' \<noteq> ''true''"
    and "length (r_persist_queue r) < n"
  shows "StoreSave (to_auth e) \<in> set (r_log (flush_pending ((persist_receive ^^ n) (mark_dirty i r))))"
proof -
  let ?r = "mark_dirty i r" and ?s = "(persist_receive ^^ n) (mark_dirty i r)"
  have q: "r_persist_queue ?r = r_persist_queue r @ [i]" "r_has_store ?r"
    using assms(1, 2) by (simp_all add: mark_dirty_def)
  then have "i \<in> set (take n (r_persist_queue ?r))" using assms(6) by simp
  with receive_all [of n ?r] have b: "i \<in> set (r_persist_batch ?s)" "r_has_store ?s" "r_shards ?s = r_shards r"
    using q(2) by auto
  have "get_entry (?s\<lparr>r_persist_batch := []\<rparr>) i = Some e"
    using assms(3) b(3) by (simp add: get_entry_def lookup_entry_def split: if_splits)
  from flush_fold [OF this b(1) assms(5, 4)] b(2) show ?thesis by (simp add: flush_pending_def)
qed

lemma dirty_is_saved_witness:
  "let e = update_metadata (\<lambda>m. m\<lparr>md_metadata := Some [(''k'', VBool True)]\<rparr>) sample_entry
   in StoreSave (to_auth e) \<in> set (r_log (flush_pending ((persist_receive ^^ 1)
        (mark_dirty ''a'' (put_entry e sample_registry)))))"
proof -
  let ?e = "update_metadata (\<lambda>m. m\<lparr>md_metadata := Some [(''k'', VBool True)]\<rparr>) sample_entry"
  have "get_entry (put_entry ?e sample_registry) ''a'' = Some ?e"
    by (simp add: get_entry_def lookup_put)
  from dirty_is_saved [OF _ _ this, of 1] show ?thesis
    by (simp add: Let_def put_entry_def sample_registry_def new_auth_registry_def persist_queue_size_def
        update_metadata_def sample_entry_def auth_zero_def metadata_of_def attr_def)
qed

lemma update_keeps_refresh_time_witness:
  "let e = sample_entry\<lparr>e_token := \<lparr>tf_expires_at = 900, tf_refresh_at = 600, tf_refreshing = False\<rparr>\<rparr>;
       a = auth_zero\<lparr>a_id := ''a'', a_metadata := Some
             [(''access_token'', VString ''t''), (''refresh_token'', VString ''s''),
              (''expires_at'', VInt 9000000000)]\<rparr>;
       r' = snd (snd (reg_update a (put_entry e sample_registry) 7))
   in schedule (r_refresher r') ''a'' = Some (time_unix 600)"
proof -
  let ?e = "sample_entry\<lparr>e_token := \<lparr>tf_expires_at = 900, tf_refresh_at = 600, tf_refreshing = False\<rparr>\<rparr>"
  let ?a = "auth_zero\<lparr>a_id := ''a'', a_metadata := Some
             [(''access_token'', VString ''t''), (''refresh_token'', VString ''s''),
              (''expires_at'', VInt 9000000000)]\<rparr>"
  have "reg_ok (put_entry ?e sample_registry)" "lookup_entry (put_entry ?e sample_registry) (a_id ?a) = Some ?e"
    by (simp_all add: lookup_put)
  moreover have "time_unix 600 \<noteq> 0" by (simp add: time_unix_def unix_epoch_def)
  ultimately show ?thesis
    using update_keeps_refresh_time [of "put_entry ?e sample_registry" ?a ?e "time_unix 600" _ 7]
    by (simp add: get_refresh_at_def of_nanos_def Let_def)
qed

end
