(* ===== verification/ModelRegistry.thy ===== *)
theory ModelRegistry
  imports Prelude "HOL-Library.Multiset"
begin

text \<open>
  The registry of models (\<open>internal/registry/state.go\<close>, \<open>model_registration.go\<close>,
  \<open>model_suspension.go\<close>, \<open>model_indexing.go\<close>, \<open>model_registry.go\<close>): which client of which
  provider serves which model, how many do, and which of them are out of quota or suspended.
  Writers clone the whole state, change the clone and swap it in, so an operation is a function
  from states to states; with values in place of pointers the deep copies are the identity. A nil
  map reads and deletes like an empty one and is made before it is written, so the two are not
  told apart.
\<close>

section \<open>Data\<close>

record thinking_support =
  th_min :: int
  th_max :: int
  th_zero_allowed :: bool
  th_dynamic_allowed :: bool
  th_default_level :: string
  th_budgets :: "int \<times> int \<times> int \<times> int"

record model_info =
  mi_id :: string
  mi_object :: string
  mi_created :: int
  mi_owned_by :: string
  mi_type :: string
  mi_canonical_id :: string
  mi_display_name :: string
  mi_name :: string
  mi_version :: string
  mi_description :: string
  mi_input_token_limit :: int
  mi_output_token_limit :: int
  mi_generation_methods :: "string list"
  mi_context_length :: int
  mi_max_completion_tokens :: int
  mi_supported_parameters :: "string list"
  mi_thinking :: "thinking_support option"
  mi_priority :: int
  mi_upstream_name :: string
  mi_hidden :: bool

record model_registration =
  rg_info :: "model_info option"
  rg_count :: int
  rg_last_updated :: gotime
  rg_quota_exceeded :: "(string, gotime option) gomap"
  rg_providers :: "(string, int) gomap"
  rg_suspended :: "(string, string) gomap"

record provider_model_mapping =
  pm_provider :: string
  pm_model_id :: string
  pm_priority :: int

record registry_state =
  rs_models :: "(string, model_registration) gomap"
  rs_client_models :: "(string, string list) gomap"
  rs_client_providers :: "(string, string) gomap"
  rs_canonical_index :: "(string, provider_model_mapping list) gomap"
  rs_model_id_index :: "(string, string list) gomap"
  rs_show_prefixes :: bool

definition new_registry_state :: registry_state where
  "new_registry_state = \<lparr>rs_models = [], rs_client_models = [], rs_client_providers = [],
     rs_canonical_index = [], rs_model_id_index = [], rs_show_prefixes = False\<rparr>"

definition set_show_provider_prefixes :: "bool \<Rightarrow> registry_state \<Rightarrow> registry_state" where
  "set_show_provider_prefixes b s = s\<lparr>rs_show_prefixes := b\<rparr>"

text \<open>A missing entry of a map of lists, of strings and of counters.\<close>

abbreviation mlist :: "('k, 'v list) gomap \<Rightarrow> 'k \<Rightarrow> 'v list" where
  "mlist m k \<equiv> (case mget m k of None \<Rightarrow> [] | Some l \<Rightarrow> l)"

abbreviation mint :: "('k, int) gomap \<Rightarrow> 'k \<Rightarrow> int" where
  "mint m k \<equiv> (case mget m k of None \<Rightarrow> 0 | Some n \<Rightarrow> n)"

abbreviation mstr :: "('k, string) gomap \<Rightarrow> 'k \<Rightarrow> string" where
  "mstr m k \<equiv> (case mget m k of None \<Rightarrow> [] | Some t \<Rightarrow> t)"

definition provider_model_key :: "string \<Rightarrow> string \<Rightarrow> string" where
  "provider_model_key provider model_id =
     (if provider \<noteq> [] then provider @ '':'' @ model_id else model_id)"

section \<open>The indices\<close>

definition mapping_key :: "provider_model_mapping \<Rightarrow> string" where
  "mapping_key m = pm_provider m @ '':'' @ pm_model_id m"

definition live :: "registry_state \<Rightarrow> string \<Rightarrow> bool" where
  "live s key \<longleftrightarrow> (case mget (rs_models s) key of None \<Rightarrow> False | Some r \<Rightarrow> 0 < rg_count r)"

text \<open>\<open>findModelRegistration\<close>: the key of the registration it returns.\<close>

definition find_model_registration :: "registry_state \<Rightarrow> string \<Rightarrow> string option" where
  "find_model_registration s model_id =
     (case find (\<lambda>m. live s (mapping_key m)) (mlist (rs_canonical_index s) model_id) of
        Some m \<Rightarrow> Some (mapping_key m)
      | None \<Rightarrow>
          if mget (rs_models s) model_id \<noteq> None then Some model_id
          else find (live s) (mlist (rs_model_id_index s) model_id))"

definition find_colon_index :: "string \<Rightarrow> int" where
  "find_colon_index s = (case index_of s '':'' of None \<Rightarrow> -1 | Some i \<Rightarrow> int i)"

definition get_model_providers_internal :: "registry_state \<Rightarrow> string \<Rightarrow> string list" where
  "get_model_providers_internal s model_id =
     (case mget (rs_models s) model_id of
        None \<Rightarrow> []
      | Some r \<Rightarrow> if 0 < rg_count r
          then List.map fst (filter (\<lambda>(_, n). 0 < n) (rg_providers r)) else [])
     @ List.map_filter
         (\<lambda>key. if live s key \<and> 0 < find_colon_index key
                then Some (take (nat (find_colon_index key)) key) else None)
         (mlist (rs_model_id_index s) model_id)"

text \<open>Removal puts the last element into the hole.\<close>

fun swap_remove :: "('a \<Rightarrow> bool) \<Rightarrow> 'a list \<Rightarrow> 'a list" where
  "swap_remove P [] = []"
| "swap_remove P (x # xs) =
     (if P x then (if xs = [] then [] else last xs # butlast xs) else x # swap_remove P xs)"

text \<open>Storing a list that has become empty deletes its entry.\<close>

definition store_list :: "'k \<Rightarrow> 'v list \<Rightarrow> ('k, 'v list) gomap \<Rightarrow> ('k, 'v list) gomap" where
  "store_list k xs m = (if xs = [] then mdel k m else mput k xs m)"

definition add_to_model_id_index :: "string \<Rightarrow> string \<Rightarrow> registry_state \<Rightarrow> registry_state" where
  "add_to_model_id_index model_id key s =
     (let keys = mlist (rs_model_id_index s) model_id in
      if model_id = [] \<or> key = [] \<or> key \<in> set keys then s
      else s\<lparr>rs_model_id_index := mput model_id (keys @ [key]) (rs_model_id_index s)\<rparr>)"

definition remove_from_model_id_index :: "string \<Rightarrow> string \<Rightarrow> registry_state \<Rightarrow> registry_state" where
  "remove_from_model_id_index model_id key s =
     (let keys = mlist (rs_model_id_index s) model_id in
      if model_id = [] \<or> key = [] \<or> key \<notin> set keys then s
      else s\<lparr>rs_model_id_index :=
               store_list model_id (swap_remove (\<lambda>k. k = key) keys) (rs_model_id_index s)\<rparr>)"

definition is_mapping :: "string \<Rightarrow> string \<Rightarrow> provider_model_mapping \<Rightarrow> bool" where
  "is_mapping provider model_id m \<longleftrightarrow> pm_provider m = provider \<and> pm_model_id m = model_id"

definition add_to_canonical_index ::
    "string \<Rightarrow> string \<Rightarrow> string \<Rightarrow> int \<Rightarrow> registry_state \<Rightarrow> registry_state" where
  "add_to_canonical_index canonical provider model_id priority s =
     (let ms = mlist (rs_canonical_index s) canonical in
      if canonical = [] \<or> provider = [] \<or> model_id = [] \<or> list_ex (is_mapping provider model_id) ms
      then s
      else s\<lparr>rs_canonical_index := mput canonical
               (ms @ [\<lparr>pm_provider = provider, pm_model_id = model_id, pm_priority = priority\<rparr>])
               (rs_canonical_index s)\<rparr>)"

definition remove_from_canonical_index ::
    "string \<Rightarrow> string \<Rightarrow> string \<Rightarrow> registry_state \<Rightarrow> registry_state" where
  "remove_from_canonical_index canonical provider model_id s =
     (let ms = mlist (rs_canonical_index s) canonical in
      if canonical = [] \<or> provider = [] \<or> \<not> list_ex (is_mapping provider model_id) ms then s
      else s\<lparr>rs_canonical_index :=
               store_list canonical (swap_remove (is_mapping provider model_id) ms)
                 (rs_canonical_index s)\<rparr>)"

definition get_providers_with_model_id ::
    "registry_state \<Rightarrow> string \<Rightarrow> provider_model_mapping list" where
  "get_providers_with_model_id s model_id =
     (let found = filter (\<lambda>m. live s (mapping_key m)) (mlist (rs_canonical_index s) model_id)
      in if found \<noteq> [] then found
         else List.map (\<lambda>p. \<lparr>pm_provider = p, pm_model_id = model_id, pm_priority = 0\<rparr>)
                (get_model_providers_internal s model_id))"

definition get_model_id_for_provider :: "registry_state \<Rightarrow> string \<Rightarrow> string \<Rightarrow> string" where
  "get_model_id_for_provider s model_id provider =
     (case find (\<lambda>m. pm_provider m = provider) (mlist (rs_canonical_index s) model_id) of
        Some m \<Rightarrow> pm_model_id m | None \<Rightarrow> model_id)"

text \<open>\<open>srt\<close> is \<open>sort.Slice\<close> by ascending priority.\<close>

definition get_model_providers ::
    "((string \<times> int) list \<Rightarrow> (string \<times> int) list) \<Rightarrow> registry_state \<Rightarrow> string \<Rightarrow> string list" where
  "get_model_providers srt s model_id =
     (let found = filter (\<lambda>m. live s (mapping_key m)) (mlist (rs_canonical_index s) model_id)
      in if found \<noteq> []
         then List.map fst (srt (List.map (\<lambda>m. (pm_provider m,
                if pm_priority m = 0 then 1 else pm_priority m)) found))
         else get_model_providers_internal s model_id)"

section \<open>Registering models\<close>

definition modify_registration ::
    "string \<Rightarrow> (model_registration \<Rightarrow> model_registration) \<Rightarrow> registry_state \<Rightarrow> registry_state" where
  "modify_registration key f s =
     (case mget (rs_models s) key of
        None \<Rightarrow> s | Some r \<Rightarrow> s\<lparr>rs_models := mput key (f r) (rs_models s)\<rparr>)"

definition canonical_of :: "model_info \<Rightarrow> string \<Rightarrow> string" where
  "canonical_of info model_id = (if mi_canonical_id info = [] then model_id else mi_canonical_id info)"

definition add_model_registration ::
    "string \<Rightarrow> string \<Rightarrow> model_info option \<Rightarrow> gotime \<Rightarrow> registry_state \<Rightarrow> registry_state" where
  "add_model_registration model_id provider model now s =
     (case model of
        None \<Rightarrow> s
      | Some info \<Rightarrow>
          if model_id = [] then s
          else let key = provider_model_key provider model_id in
            case mget (rs_models s) key of
              Some r \<Rightarrow>
                s\<lparr>rs_models := mput key (r\<lparr>rg_count := rg_count r + 1, rg_last_updated := now,
                     rg_info := Some info,
                     rg_providers := (if provider \<noteq> []
                       then mput provider (mint (rg_providers r) provider + 1) (rg_providers r)
                       else rg_providers r)\<rparr>) (rs_models s)\<rparr>
            | None \<Rightarrow>
                let s1 = s\<lparr>rs_models := mput key
                      \<lparr>rg_info = Some info, rg_count = 1, rg_last_updated = now, rg_quota_exceeded = [],
                       rg_providers = (if provider \<noteq> [] then [(provider, 1)] else []),
                       rg_suspended = []\<rparr> (rs_models s)\<rparr>;
                    s2 = (if provider \<noteq> [] then add_to_model_id_index model_id key s1 else s1)
                in add_to_canonical_index (canonical_of info model_id) provider model_id
                     (if mi_priority info = 0 then 1 else mi_priority info) s2)"

text \<open>One registration less of a provider's count, which is dropped when it was the last.\<close>

definition drop_provider :: "string \<Rightarrow> (string, int) gomap \<Rightarrow> (string, int) gomap" where
  "drop_provider p m =
     (case mget m p of None \<Rightarrow> m | Some n \<Rightarrow> if n \<le> 1 then mdel p m else mput p (n - 1) m)"

definition forget_client :: "string \<Rightarrow> model_registration \<Rightarrow> model_registration" where
  "forget_client client r = r\<lparr>rg_quota_exceeded := mdel client (rg_quota_exceeded r),
     rg_suspended := mdel client (rg_suspended r)\<rparr>"

definition remove_model_registration ::
    "string \<Rightarrow> string \<Rightarrow> string \<Rightarrow> gotime \<Rightarrow> registry_state \<Rightarrow> registry_state" where
  "remove_model_registration client model_id provider now s =
     (let key = provider_model_key provider model_id in
      case mget (rs_models s) key of
        None \<Rightarrow> s
      | Some r \<Rightarrow>
          let n = (if rg_count r - 1 < 0 then 0 else rg_count r - 1);
              r' = (forget_client client r)\<lparr>rg_count := n, rg_last_updated := now,
                     rg_providers := (if provider \<noteq> [] then drop_provider provider (rg_providers r)
                                      else rg_providers r)\<rparr>;
              s1 = s\<lparr>rs_models := mput key r' (rs_models s)\<rparr>
          in if n \<le> 0 then
               (let s2 = (case rg_info r' of None \<Rightarrow> s1
                          | Some info \<Rightarrow> remove_from_canonical_index (canonical_of info model_id) provider model_id s1);
                    s3 = (if provider \<noteq> [] then remove_from_model_id_index model_id key s2 else s2)
                in s3\<lparr>rs_models := mdel key (rs_models s3)\<rparr>)
             else s1)"

definition unregister_model ::
    "string \<Rightarrow> string option \<Rightarrow> gotime \<Rightarrow> string \<Rightarrow> registry_state \<Rightarrow> registry_state" where
  "unregister_model client provider now model_id s =
     (let p = (case provider of None \<Rightarrow> [] | Some p \<Rightarrow> p); key = provider_model_key p model_id in
      case mget (rs_models s) key of
        None \<Rightarrow> s
      | Some r \<Rightarrow>
          let r' = (forget_client client r)\<lparr>rg_count := rg_count r - 1, rg_last_updated := now,
                     rg_providers := (if provider \<noteq> None then drop_provider p (rg_providers r)
                                      else rg_providers r)\<rparr>;
              s1 = s\<lparr>rs_models := mput key r' (rs_models s)\<rparr>
          in if rg_count r' \<le> 0 then
               (let s2 = (case rg_info r' of None \<Rightarrow> s1
                          | Some info \<Rightarrow> remove_from_canonical_index (canonical_of info (mi_id info)) p (mi_id info) s1);
                    s3 = (if p \<noteq> [] then remove_from_model_id_index model_id key s2 else s2)
                in s3\<lparr>rs_models := mdel key (rs_models s3)\<rparr>)
             else s1)"

definition unregister_client_internal :: "string \<Rightarrow> gotime \<Rightarrow> registry_state \<Rightarrow> registry_state" where
  "unregister_client_internal client now s =
     (let provider = mget (rs_client_providers s) client in
      case mget (rs_client_models s) client of
        None \<Rightarrow> s\<lparr>rs_client_providers := mdel client (rs_client_providers s)\<rparr>
      | Some ids \<Rightarrow>
          let s1 = fold (unregister_model client provider now) ids s
          in s1\<lparr>rs_client_models := mdel client (rs_client_models s1),
                rs_client_providers := mdel client (rs_client_providers s1)\<rparr>)"

definition unregister_client :: "string \<Rightarrow> gotime \<Rightarrow> registry_state \<Rightarrow> registry_state" where
  "unregister_client client now s = unregister_client_internal client now s"

section \<open>Registering a client\<close>

text \<open>
  The models a client brings: nil and nameless ones are skipped, the first of several with one
  identifier is kept, and the number of occurrences counts. \<open>ord n\<close> is the order in which the
  \<open>n\<close>-th \<open>range\<close> loop over a map happens to visit its keys.
\<close>

definition valid_models :: "model_info option list \<Rightarrow> model_info list" where
  "valid_models ms = List.map_filter (\<lambda>om. case om of None \<Rightarrow> None
     | Some m \<Rightarrow> if mi_id m = [] then None else Some m) ms"

definition first_occurrences :: "'a list \<Rightarrow> 'a list" where
  "first_occurrences xs = rev (remdups (rev xs))"

definition model_named :: "model_info list \<Rightarrow> string \<Rightarrow> model_info option" where
  "model_named ms i = find (\<lambda>m. mi_id m = i) ms"

definition set_client_provider :: "string \<Rightarrow> string \<Rightarrow> registry_state \<Rightarrow> registry_state" where
  "set_client_provider client provider s =
     s\<lparr>rs_client_providers := (if provider \<noteq> [] then mput client provider (rs_client_providers s)
                               else mdel client (rs_client_providers s))\<rparr>"

definition move_provider_count :: "string \<Rightarrow> nat \<Rightarrow> model_registration \<Rightarrow> model_registration" where
  "move_provider_count old n r =
     (case mget (rg_providers r) old of
        None \<Rightarrow> r
      | Some c \<Rightarrow> r\<lparr>rg_providers := (if c \<le> int n then mdel old (rg_providers r)
                                      else mput old (c - int n) (rg_providers r))\<rparr>)"

definition refresh_registration ::
    "string \<Rightarrow> model_info option \<Rightarrow> gotime \<Rightarrow> string \<Rightarrow> nat \<Rightarrow> model_registration \<Rightarrow> model_registration" where
  "refresh_registration client info now provider overlap r =
     (forget_client client r)\<lparr>rg_info := info, rg_last_updated := now,
        rg_providers := (if 0 < overlap then mput provider (mint (rg_providers r) provider + int overlap) (rg_providers r)
                         else rg_providers r)\<rparr>"

definition reconcile_client ::
    "(nat \<Rightarrow> string list \<Rightarrow> string list) \<Rightarrow> string \<Rightarrow> string \<Rightarrow> model_info list \<Rightarrow> string list \<Rightarrow> string
       \<Rightarrow> gotime \<Rightarrow> registry_state \<Rightarrow> registry_state" where
  "reconcile_client ord client provider ms old_ids old_provider now s =
     (let ids = List.map mi_id ms; unique = first_occurrences ids;
          old_n = count_list old_ids; new_n = count_list ids;
          old_keys = (\<lambda>n. ord n (first_occurrences old_ids)); new_keys = (\<lambda>n. ord n unique);
          changed = (old_provider \<noteq> provider);
          removed = filter (\<lambda>i. new_n i = 0) (old_keys 0);
          drop = remove_model_registration client;
          s1 = (if changed \<and> old_provider \<noteq> []
                then fold (\<lambda>i s. if old_n i = 0 then s
                       else modify_registration i (move_provider_count old_provider (min (old_n i) (new_n i))) s)
                     (new_keys 1) s
                else s);
          s2 = fold (\<lambda>i s. (drop i old_provider now ^^ old_n i) s) removed s1;
          s3 = fold (\<lambda>i s. if new_n i = 0 \<or> old_n i \<le> new_n i then s
                 else (drop i old_provider now ^^ (old_n i - new_n i)) s) (old_keys 2) s2;
          s4 = fold (\<lambda>i s. if new_n i \<le> old_n i then s
                 else (add_model_registration i provider (model_named ms i) now ^^ (new_n i - old_n i)) s)
                 (new_keys 3) s3;
          s5 = fold (\<lambda>i s. modify_registration i
                   (refresh_registration client (model_named ms i) now provider
                      (if changed \<and> provider \<noteq> [] \<and> old_n i \<noteq> 0 then min (old_n i) (new_n i) else 0)) s)
                 unique s4
      in set_client_provider client provider
           (s5\<lparr>rs_client_models := mput client ids (rs_client_models s5)\<rparr>))"

definition register_client ::
    "(nat \<Rightarrow> string list \<Rightarrow> string list) \<Rightarrow> string \<Rightarrow> string \<Rightarrow> model_info option list \<Rightarrow> gotime
       \<Rightarrow> registry_state \<Rightarrow> registry_state" where
  "register_client ord client client_provider models now s =
     (let provider = to_lower client_provider; ms = valid_models models; ids = List.map mi_id ms in
      if ms = [] then
        (let s1 = unregister_client_internal client now s
         in s1\<lparr>rs_client_models := mdel client (rs_client_models s1),
               rs_client_providers := mdel client (rs_client_providers s1)\<rparr>)
      else case mget (rs_client_models s) client of
        None \<Rightarrow>
          let s1 = fold (\<lambda>i. add_model_registration i provider (model_named ms i) now) ids s
          in set_client_provider client provider
               (s1\<lparr>rs_client_models := mput client ids (rs_client_models s1)\<rparr>)
      | Some old_ids \<Rightarrow>
          reconcile_client ord client provider ms old_ids (mstr (rs_client_providers s) client) now s)"

section \<open>Quota and suspension\<close>

definition set_model_quota_exceeded :: "string \<Rightarrow> string \<Rightarrow> gotime \<Rightarrow> registry_state \<Rightarrow> registry_state" where
  "set_model_quota_exceeded client model_id now s =
     (case find_model_registration s model_id of
        None \<Rightarrow> s
      | Some key \<Rightarrow> modify_registration key
          (\<lambda>r. r\<lparr>rg_quota_exceeded := mput client (Some now) (rg_quota_exceeded r)\<rparr>) s)"

definition clear_model_quota_exceeded :: "string \<Rightarrow> string \<Rightarrow> registry_state \<Rightarrow> registry_state" where
  "clear_model_quota_exceeded client model_id s =
     (case find_model_registration s model_id of
        None \<Rightarrow> s
      | Some key \<Rightarrow> modify_registration key
          (\<lambda>r. r\<lparr>rg_quota_exceeded := mdel client (rg_quota_exceeded r)\<rparr>) s)"

definition suspend_client_model :: "string \<Rightarrow> string \<Rightarrow> string \<Rightarrow> gotime \<Rightarrow> registry_state \<Rightarrow> registry_state" where
  "suspend_client_model client model_id reason now s =
     (if client = [] \<or> model_id = [] then s
      else case find_model_registration s model_id of
        None \<Rightarrow> s
      | Some key \<Rightarrow> modify_registration key
          (\<lambda>r. if mget (rg_suspended r) client \<noteq> None then r
               else r\<lparr>rg_suspended := mput client reason (rg_suspended r), rg_last_updated := now\<rparr>) s)"

definition resume_client_model :: "string \<Rightarrow> string \<Rightarrow> gotime \<Rightarrow> registry_state \<Rightarrow> registry_state" where
  "resume_client_model client model_id now s =
     (if client = [] \<or> model_id = [] then s
      else case find_model_registration s model_id of
        None \<Rightarrow> s
      | Some key \<Rightarrow> modify_registration key
          (\<lambda>r. if mget (rg_suspended r) client = None then r
               else r\<lparr>rg_suspended := mdel client (rg_suspended r), rg_last_updated := now\<rparr>) s)"

definition quota_window :: duration where "quota_window = 5 * minute"

definition cleanup_expired_quotas :: "gotime \<Rightarrow> registry_state \<Rightarrow> registry_state" where
  "cleanup_expired_quotas now s =
     s\<lparr>rs_models := mmap (\<lambda>_ r. r\<lparr>rg_quota_exceeded :=
          filter (\<lambda>(_, t). case t of None \<Rightarrow> True | Some t \<Rightarrow> time_sub now t < quota_window)
            (rg_quota_exceeded r)\<rparr>) (rs_models s)\<rparr>"

text \<open>A model identifier without the \<open>[Provider] \<close> prefix that listings may add.\<close>

definition normalize_model_id :: "string \<Rightarrow> string" where
  "normalize_model_id model_id =
     (let m = trim_space model_id in
      if has_prefix m ''['' then
        (case index_of m ''] '' of Some i \<Rightarrow> trim_space (drop (i + 2) m) | None \<Rightarrow> m)
      else m)"

definition equal_fold :: "string \<Rightarrow> string \<Rightarrow> bool" where
  "equal_fold s t \<longleftrightarrow> to_lower s = to_lower t"

definition client_supports_model :: "registry_state \<Rightarrow> string \<Rightarrow> string \<Rightarrow> bool" where
  "client_supports_model s client model_id =
     (let c = trim_space client; m = trim_space model_id in
      c \<noteq> [] \<and> m \<noteq> []
      \<and> list_ex (\<lambda>i. equal_fold (trim_space i) (normalize_model_id m)) (mlist (rs_client_models s) c))"

section \<open>Lemmas\<close>

lemma index_frame [simp, frame]:
  "rs_models (add_to_model_id_index i k s) = rs_models s"
  "rs_models (remove_from_model_id_index i k s) = rs_models s"
  "rs_models (add_to_canonical_index c p i n s) = rs_models s"
  "rs_models (remove_from_canonical_index c p i s) = rs_models s"
  "rs_client_models (add_to_model_id_index i k s) = rs_client_models s"
  "rs_client_models (remove_from_model_id_index i k s) = rs_client_models s"
  "rs_client_models (add_to_canonical_index c p i n s) = rs_client_models s"
  "rs_client_models (remove_from_canonical_index c p i s) = rs_client_models s"
  "rs_client_providers (add_to_model_id_index i k s) = rs_client_providers s"
  "rs_client_providers (remove_from_model_id_index i k s) = rs_client_providers s"
  "rs_client_providers (add_to_canonical_index c p i n s) = rs_client_providers s"
  "rs_client_providers (remove_from_canonical_index c p i s) = rs_client_providers s"
  by (simp_all add: add_to_model_id_index_def remove_from_model_id_index_def
      add_to_canonical_index_def remove_from_canonical_index_def Let_def)

text \<open>How many registrations a key has, and what the clients' lists say it should have.\<close>

definition count_in :: "(string, model_registration) gomap \<Rightarrow> string \<Rightarrow> int" where
  "count_in m key = (case mget m key of None \<Rightarrow> 0 | Some r \<Rightarrow> rg_count r)"

abbreviation registered :: "registry_state \<Rightarrow> string \<Rightarrow> int" where
  "registered s \<equiv> count_in (rs_models s)"

definition live_in :: "(string, model_registration) gomap \<Rightarrow> bool" where
  "live_in m \<longleftrightarrow> (\<forall>key r. mget m key = Some r \<longrightarrow> 0 < rg_count r)"

abbreviation all_live :: "registry_state \<Rightarrow> bool" where
  "all_live s \<equiv> live_in (rs_models s)"

lemma count_in_mput [simp]: "count_in (mput k r m) = (count_in m)(k := rg_count r)"
  by (simp add: count_in_def fun_eq_iff)

lemma count_in_mdel [simp]: "count_in (mdel k m) = (count_in m)(k := 0)"
  by (simp add: count_in_def fun_eq_iff)

lemma live_in_mput [simp]: "live_in m \<Longrightarrow> 0 < rg_count r \<Longrightarrow> live_in (mput k r m)"
  by (simp add: live_in_def)

lemma live_in_mdel [simp]: "live_in m \<Longrightarrow> live_in (mdel k m)"
  by (simp add: live_in_def)

lemma mdel_mput_same [simp]: "mdel k (mput k r m) = mdel k m"
  by (induction m) auto

lemma count_in_nonneg: "live_in m \<Longrightarrow> 0 \<le> count_in m k"
  by (auto simp: live_in_def count_in_def less_imp_le split: option.split)

lemma count_in_pos: "live_in m \<Longrightarrow> 0 < count_in m k \<longleftrightarrow> mget m k \<noteq> None"
  by (auto simp: live_in_def count_in_def split: option.split)

definition client_key :: "registry_state \<Rightarrow> string \<Rightarrow> string \<Rightarrow> string" where
  "client_key s c i = provider_model_key (mstr (rs_client_providers s) c) i"

definition same_clients :: "registry_state \<Rightarrow> registry_state \<Rightarrow> bool" where
  "same_clients s t \<longleftrightarrow> rs_client_models t = rs_client_models s
     \<and> rs_client_providers t = rs_client_providers s"

text \<open>A step that changes the count of one key and no client, keeping the rest in order.\<close>

definition shifts :: "registry_state \<Rightarrow> string \<Rightarrow> int \<Rightarrow> registry_state \<Rightarrow> bool" where
  "shifts s key d t \<longleftrightarrow> all_live t \<and> same_clients s t
     \<and> registered t = (registered s)(key := registered s key + d)"

lemma same_clients_refl [simp]: "same_clients s s"
  by (simp add: same_clients_def)

lemma same_clients_trans: "same_clients s t \<Longrightarrow> same_clients t u \<Longrightarrow> same_clients s u"
  by (simp add: same_clients_def)

lemma shifts_refl [simp]: "all_live s \<Longrightarrow> shifts s key 0 s"
  by (simp add: shifts_def)

lemma shifts_trans: "shifts s key d t \<Longrightarrow> shifts t key e u \<Longrightarrow> shifts s key (d + e) u"
  by (auto simp: shifts_def intro: same_clients_trans)

lemma add_shifts:
  assumes "all_live s" "i \<noteq> []"
  shows "shifts s (provider_model_key p i) 1 (add_model_registration i p (Some info) now s)"
proof (cases "mget (rs_models s) (provider_model_key p i)")
  case None
  then show ?thesis using assms
    by (simp add: shifts_def add_model_registration_def same_clients_def Let_def count_in_def [of "rs_models s"])
next
  case (Some r)
  then have "0 < rg_count r" using assms(1) by (auto simp: live_in_def)
  with Some assms show ?thesis
    by (simp add: shifts_def add_model_registration_def same_clients_def Let_def count_in_def [of "rs_models s"])
qed

lemma forget_client_sel [simp]:
  "rg_count (forget_client c r) = rg_count r" "rg_info (forget_client c r) = rg_info r"
  "rg_providers (forget_client c r) = rg_providers r"
  by (simp_all add: forget_client_def)

lemma remove_shifts:
  assumes "all_live s" "1 \<le> registered s (provider_model_key p i)"
  shows "shifts s (provider_model_key p i) (-1) (remove_model_registration c i p now s)"
proof -
  obtain r where r: "mget (rs_models s) (provider_model_key p i) = Some r"
    using assms(2) by (auto simp: count_in_def split: option.splits)
  then have "0 < rg_count r" using assms(1) by (auto simp: live_in_def)
  with r assms(1) show ?thesis
    by (cases "rg_count r = 1"; cases "rg_info r")
      (auto simp: shifts_def remove_model_registration_def same_clients_def Let_def count_in_def [of "rs_models s"])
qed

lemma unregister_shifts:
  assumes "all_live s" "1 \<le> registered s (provider_model_key (case p of None \<Rightarrow> [] | Some q \<Rightarrow> q) i)"
  shows "shifts s (provider_model_key (case p of None \<Rightarrow> [] | Some q \<Rightarrow> q) i) (-1) (unregister_model c p now i s)"
proof -
  let ?k = "provider_model_key (case p of None \<Rightarrow> [] | Some q \<Rightarrow> q) i"
  obtain r where r: "mget (rs_models s) ?k = Some r"
    using assms(2) by (auto simp: count_in_def split: option.splits)
  then have "0 < rg_count r" using assms(1) by (auto simp: live_in_def)
  with r assms(1) show ?thesis
    unfolding unregister_model_def
    by (cases "rg_count r = 1"; cases "rg_info r")
      (simp_all add: shifts_def same_clients_def Let_def count_in_def [of "rs_models s"])
qed


text \<open>Repeating a step, and folding one over different keys.\<close>

lemma funpow_shifts:
  assumes "\<And>s. all_live s \<Longrightarrow> 0 \<le> registered s key + d \<Longrightarrow> shifts s key d (f s)"
    and "all_live s" "d \<le> 0 \<longrightarrow> 0 \<le> registered s key + int n * d"
  shows "shifts s key (int n * d) ((f ^^ n) s)"
  using assms(2, 3)
proof (induction n arbitrary: s)
  case (Suc n)
  have "0 \<le> registered s key" using count_in_nonneg [OF Suc.prems(1)] .
  moreover have "d \<le> 0 \<longrightarrow> int (Suc n) * d \<le> d" 
    using mult_nonpos_nonneg [of d "int n"] by (simp add: algebra_simps)
  ultimately have s: "shifts s key d (f s)" using Suc.prems by (intro assms(1)) linarith+
  then have l: "all_live (f s)" "registered (f s) key = registered s key + d" by (simp_all add: shifts_def)
  have "d \<le> 0 \<longrightarrow> 0 \<le> registered (f s) key + int n * d"
    using Suc.prems(2) by (simp add: l(2) algebra_simps)
  from shifts_trans [OF s Suc.IH [OF l(1) this]] show ?case
    by (simp add: funpow_swap1 algebra_simps)
qed simp

text \<open>\<open>folds K d xs s t\<close>: the count of \<open>K i\<close> moved by \<open>d i\<close> for every \<open>i\<close> of the list.\<close>

definition folds :: "('a \<Rightarrow> string) \<Rightarrow> ('a \<Rightarrow> int) \<Rightarrow> 'a list \<Rightarrow> registry_state \<Rightarrow> registry_state \<Rightarrow> bool" where
  "folds K d xs s t \<longleftrightarrow> all_live t \<and> same_clients s t
     \<and> (\<forall>i \<in> set xs. registered t (K i) = registered s (K i) + d i)
     \<and> (\<forall>key. key \<notin> K ` set xs \<longrightarrow> registered t key = registered s key)"

lemma fold_shifts:
  assumes step: "\<And>i s. i \<in> set xs \<Longrightarrow> all_live s \<Longrightarrow> 0 \<le> registered s (K i) + d i \<Longrightarrow> shifts s (K i) (d i) (f i s)"
    and "distinct xs" "inj K" "all_live s" "\<forall>i \<in> set xs. 0 \<le> registered s (K i) + d i"
  shows "folds K d xs s (fold f xs s)"
  using assms(1, 2, 4, 5)
proof (induction xs arbitrary: s)
  case (Cons x xs)
  have x: "shifts s (K x) (d x) (f x s)" using Cons.prems by simp
  then have l: "all_live (f x s)" by (simp add: shifts_def)
  have neq: "K i \<noteq> K x" if "i \<in> set xs" for i
    using that Cons.prems(2) assms(3) by (auto dest: injD)
  then have "\<forall>i \<in> set xs. 0 \<le> registered (f x s) (K i) + d i"
    using x Cons.prems(4) by (simp add: shifts_def)
  then have "folds K d xs (f x s) (fold f xs (f x s))"
    using Cons.prems l by (intro Cons.IH) simp_all
  moreover have "K x \<notin> K ` set xs"
  proof
    assume "K x \<in> K ` set xs"
    then obtain i where "i \<in> set xs" "K i = K x" by (metis imageE)
    with neq show False by blast
  qed
  ultimately show ?case
    using x neq unfolding folds_def shifts_def
    by (auto intro: same_clients_trans)
qed (simp add: folds_def)

lemma inj_provider_model_key: "inj (provider_model_key p)"
  by (auto simp: provider_model_key_def inj_def)


lemma folds_at:
  "inj K \<Longrightarrow> folds K d xs s t \<Longrightarrow> registered t (K i) = registered s (K i) + (if i \<in> set xs then d i else 0)"
  unfolding folds_def by (auto dest: injD)

text \<open>The invariant: every key is registered as often as the clients' lists mention it.\<close>

definition share :: "registry_state \<Rightarrow> string \<Rightarrow> string \<Rightarrow> nat" where
  "share s c key = count_list (List.map (client_key s c) (mlist (rs_client_models s) c)) key"

definition tally :: "registry_state \<Rightarrow> string \<Rightarrow> nat" where
  "tally s key = (\<Sum>c \<in> set (mkeys (rs_client_models s)). share s c key)"

definition counts_ok :: "registry_state \<Rightarrow> bool" where
  "counts_ok s \<longleftrightarrow> all_live s \<and> (\<forall>key. registered s key = int (tally s key))
     \<and> (\<forall>c. [] \<notin> set (mlist (rs_client_models s) c))"

lemma share_unknown: "c \<notin> set (mkeys (rs_client_models s)) \<Longrightarrow> share s c key = 0"
  by (simp add: share_def map_of_eq_None_iff [THEN iffD2])

lemma share_le_tally: "share s c key \<le> tally s key"
proof (cases "c \<in> set (mkeys (rs_client_models s))")
  case True
  then show ?thesis unfolding tally_def by (intro member_le_sum) auto
qed (use share_unknown in simp)

text \<open>When only one client changes, the tally changes by its share.\<close>

lemma tally_change:
  assumes "\<forall>d. d \<noteq> c \<longrightarrow> mget (rs_client_models t) d = mget (rs_client_models s) d
      \<and> mget (rs_client_providers t) d = mget (rs_client_providers s) d"
  shows "tally t key + share s c key = tally s key + share t c key"
proof -
  let ?D = "\<lambda>u. set (mkeys (rs_client_models u))"
  have dom: "d \<in> ?D u \<longleftrightarrow> mget (rs_client_models u) d \<noteq> None" for d u
    by (metis map_of_eq_None_iff set_map)
  have same: "?D t - {c} = ?D s - {c}" using assms by (auto simp: dom simp del: set_map)
  have sh: "d \<noteq> c \<Longrightarrow> share t d key = share s d key" for d
    using assms by (simp add: share_def client_key_def [abs_def])
  have split: "tally u key = (\<Sum>d \<in> ?D u - {c}. share u d key) + share u c key" for u
  proof (cases "c \<in> ?D u")
    case True
    then show ?thesis unfolding tally_def by (subst sum.remove [of _ c]) simp_all
  next
    case False
    then show ?thesis unfolding tally_def using share_unknown [OF False] by simp
  qed
  have "(\<Sum>d \<in> ?D t - {c}. share t d key) = (\<Sum>d \<in> ?D s - {c}. share s d key)"
    unfolding same by (intro sum.cong) (simp_all add: sh)
  then show ?thesis by (simp add: split)
qed

lemma fold_add_counts:
  assumes "all_live s" "\<forall>i \<in> set ids. i \<noteq> [] \<and> named i \<noteq> None"
  shows "all_live (fold (\<lambda>i. add_model_registration i p (named i) now) ids s)
     \<and> same_clients s (fold (\<lambda>i. add_model_registration i p (named i) now) ids s)
     \<and> (\<forall>key. registered (fold (\<lambda>i. add_model_registration i p (named i) now) ids s) key
          = registered s key + int (count_list (List.map (provider_model_key p) ids) key))"
  using assms
proof (induction ids arbitrary: s)
  case (Cons i ids)
  then obtain info where "named i = Some info" by auto
  then have st: "shifts s (provider_model_key p i) 1 (add_model_registration i p (named i) now s)"
    using add_shifts [of s i p info now] Cons.prems by simp
  then have "all_live (add_model_registration i p (named i) now s)" by (simp add: shifts_def)
  from Cons.IH [OF this] Cons.prems(2) st show ?case
    by (auto simp: shifts_def intro: same_clients_trans)
qed simp

lemma fold_unregister_counts:
  fixes p :: "string option"
  defines "K \<equiv> provider_model_key (case p of None \<Rightarrow> [] | Some q \<Rightarrow> q)"
  assumes "all_live s" "\<forall>key. int (count_list (List.map K ids) key) \<le> registered s key"
  shows "all_live (fold (unregister_model c p now) ids s)
     \<and> same_clients s (fold (unregister_model c p now) ids s)
     \<and> (\<forall>key. registered (fold (unregister_model c p now) ids s) key
          = registered s key - int (count_list (List.map K ids) key))"
  using assms(2, 3)
proof (induction ids arbitrary: s)
  case (Cons i ids)
  have "1 \<le> registered s (K i)" using spec [OF Cons.prems(2), of "K i"] by simp
  then have st: "shifts s (K i) (-1) (unregister_model c p now i s)"
    using unregister_shifts [OF Cons.prems(1)] by (simp add: K_def)
  then have l: "all_live (unregister_model c p now i s)"
    "registered (unregister_model c p now i s) = (registered s)(K i := registered s (K i) - 1)"
    by (simp_all add: shifts_def)
  have "\<forall>key. int (count_list (List.map K ids) key) \<le> registered (unregister_model c p now i s) key"
  proof
    fix key
    show "int (count_list (List.map K ids) key) \<le> registered (unregister_model c p now i s) key"
      using spec [OF Cons.prems(2), of key] by (simp add: l(2) split: if_splits)
  qed
  from Cons.IH [OF l(1) this] st show ?case
    by (auto simp: shifts_def intro: same_clients_trans)
qed simp


text \<open>Changing registrations without touching their counts.\<close>

definition same_counts :: "registry_state \<Rightarrow> registry_state \<Rightarrow> bool" where
  "same_counts s t \<longleftrightarrow> registered t = registered s \<and> (all_live s \<longrightarrow> all_live t) \<and> same_clients s t"

lemma same_counts_refl [simp]: "same_counts s s"
  by (simp add: same_counts_def)

lemma same_counts_trans: "same_counts s t \<Longrightarrow> same_counts t u \<Longrightarrow> same_counts s u"
  by (auto simp: same_counts_def intro: same_clients_trans)

lemma same_counts_modify: "(\<And>r. rg_count (f r) = rg_count r) \<Longrightarrow> same_counts s (modify_registration key f s)"
  by (auto simp: same_counts_def modify_registration_def same_clients_def fun_eq_iff live_in_def count_in_def
      split: option.splits)

lemma same_counts_fold: "(\<And>i s. same_counts s (f i s)) \<Longrightarrow> same_counts s (fold f xs s)"
  by (induction xs arbitrary: s) (auto intro: same_counts_trans)

lemma counts_ok_same: "counts_ok s \<Longrightarrow> same_counts s t \<Longrightarrow> counts_ok t"
  by (simp add: counts_ok_def same_counts_def same_clients_def tally_def share_def client_key_def [abs_def])

lemma same_counts_marks:
  "same_counts s (set_model_quota_exceeded c i now s)" "same_counts s (clear_model_quota_exceeded c i s)"
  "same_counts s (suspend_client_model c i reason now s)" "same_counts s (resume_client_model c i now s)"
  by (auto simp: set_model_quota_exceeded_def clear_model_quota_exceeded_def suspend_client_model_def
      resume_client_model_def intro!: same_counts_modify split: option.split)

lemma same_counts_cleanup: "same_counts s (cleanup_expired_quotas now s)"
  by (auto simp: same_counts_def same_clients_def cleanup_expired_quotas_def fun_eq_iff live_in_def count_in_def
      split: option.split)

lemma same_counts_prefixes: "same_counts s (set_show_provider_prefixes b s)"
  by (simp add: same_counts_def same_clients_def set_show_provider_prefixes_def)

text \<open>The models of a list have distinct, non-empty names.\<close>

lemma distinct_first_occurrences [simp]: "distinct (first_occurrences xs)"
  by (simp add: first_occurrences_def)

lemma set_first_occurrences [simp]: "set (first_occurrences xs) = set xs"
  by (simp add: first_occurrences_def)

lemma valid_models_named: "[] \<notin> mi_id ` set (valid_models ms)"
  by (induction ms) (auto simp: valid_models_def List.map_filter_simps split: option.splits)

lemma model_named_some: "i \<in> mi_id ` set ms \<Longrightarrow> model_named ms i \<noteq> None"
  by (auto simp: model_named_def find_None_iff)

lemma count_list_map: "inj K \<Longrightarrow> count_list (List.map K xs) (K i) = count_list xs i"
  by (induction xs) (auto dest: injD)

lemma count_list_other: "key \<notin> range K \<Longrightarrow> count_list (List.map K xs) key = 0"
  by (induction xs) auto

text \<open>A range loop that visits every key once, changing the count of one key per round.\<close>

definition some_order :: "(nat \<Rightarrow> string list \<Rightarrow> string list) \<Rightarrow> bool" where
  "some_order ord \<longleftrightarrow> (\<forall>n xs. mset (ord n xs) = mset xs)"

lemma some_orderD:
  assumes "some_order ord"
  shows "set (ord n xs) = set xs" "distinct (ord n xs) = distinct xs"
  using assms mset_eq_setD mset_eq_imp_distinct_iff unfolding some_order_def by blast+

lemma removals_shift:
  assumes "all_live s" "int n \<le> registered s (provider_model_key p i)"
  shows "shifts s (provider_model_key p i) (- int n) ((remove_model_registration c i p now ^^ n) s)"
proof -
  have "shifts s (provider_model_key p i) (int n * (-1)) ((remove_model_registration c i p now ^^ n) s)"
    by (rule funpow_shifts) (use assms remove_shifts in simp_all)
  then show ?thesis by simp
qed

lemma additions_shift:
  assumes "all_live s" "i \<noteq> []" "named = Some info"
  shows "shifts s (provider_model_key p i) (int n) ((add_model_registration i p named now ^^ n) s)"
proof -
  have "shifts s (provider_model_key p i) (int n * 1) ((add_model_registration i p named now ^^ n) s)"
    by (rule funpow_shifts) (use assms add_shifts in simp_all)
  then show ?thesis by simp
qed

text \<open>Re-registering under the same provider moves every count by the difference of the lists.\<close>

lemma reconcile_counts:
  fixes now :: gotime and c :: string
  assumes ord: "some_order ord" and live: "all_live s"
    and old: "\<forall>i. int (count_list old_ids i) \<le> registered s (provider_model_key p i)"
    and names: "[] \<notin> mi_id ` set ms"
  defines "t \<equiv> reconcile_client ord c p ms old_ids p now s" and "ids \<equiv> List.map mi_id ms"
  shows "all_live t \<and> (\<forall>key. registered t key = registered s key
       + int (count_list (List.map (provider_model_key p) ids) key)
       - int (count_list (List.map (provider_model_key p) old_ids) key))
     \<and> rs_client_models t = mput c ids (rs_client_models s)
     \<and> rs_client_providers t = (if p \<noteq> [] then mput c p (rs_client_providers s) else mdel c (rs_client_providers s))"
proof -
  let ?K = "provider_model_key p" let ?o = "count_list old_ids" let ?n = "count_list ids"
  let ?drop = "\<lambda>i. remove_model_registration c i p now"
  define r1 where "r1 = filter (\<lambda>i. ?n i = 0) (ord 0 (first_occurrences old_ids))"
  define r2 where "r2 = ord 2 (first_occurrences old_ids)"
  define r3 where "r3 = ord 3 (first_occurrences ids)"
  define s2 where "s2 = fold (\<lambda>i. ?drop i ^^ ?o i) r1 s"
  define s3 where "s3 = fold (\<lambda>i s. if ?n i = 0 \<or> ?o i \<le> ?n i then s else (?drop i ^^ (?o i - ?n i)) s) r2 s2"
  define s4 where "s4 = fold (\<lambda>i s. if ?n i \<le> ?o i then s
      else (add_model_registration i p (model_named ms i) now ^^ (?n i - ?o i)) s) r3 s3"
  define s5 where "s5 = fold (\<lambda>i. modify_registration i (refresh_registration c (model_named ms i) now p 0))
      (first_occurrences ids) s4"
  note inj = inj_provider_model_key [of p]
  have t: "t = set_client_provider c p (s5\<lparr>rs_client_models := mput c ids (rs_client_models s5)\<rparr>)"
    unfolding t_def reconcile_client_def Let_def s5_def s4_def s3_def s2_def r1_def r2_def r3_def ids_def
    by simp
  have sets: "set r1 = {i \<in> set old_ids. ?n i = 0}" "set r2 = set old_ids" "set r3 = set ids"
    "distinct r1" "distinct r2" "distinct r3"
    by (simp_all add: r1_def r2_def r3_def some_orderD [OF ord])
  have f2: "folds ?K (\<lambda>i. - int (?o i)) r1 s s2"
    unfolding s2_def by (rule fold_shifts) (use removals_shift sets inj live old in simp_all)
  have at2: "registered s2 (?K i) = registered s (?K i) - (if ?n i = 0 then int (?o i) else 0)" for i
    using folds_at [OF inj f2, of i] by (simp add: sets count_notin)
  have f3: "folds ?K (\<lambda>i. if ?n i = 0 \<or> ?o i \<le> ?n i then 0 else int (?n i) - int (?o i)) r2 s2 s3"
    unfolding s3_def
  proof (rule fold_shifts)
    show "\<forall>i\<in>set r2. 0 \<le> registered s2 (?K i) + (if ?n i = 0 \<or> ?o i \<le> ?n i then 0 else int (?n i) - int (?o i))"
    proof
      fix i
      have "int (?o i) \<le> registered s (?K i)" using old by blast
      then show "0 \<le> registered s2 (?K i) + (if ?n i = 0 \<or> ?o i \<le> ?n i then 0 else int (?n i) - int (?o i))"
        by (auto simp: at2)
    qed
    fix i u assume "all_live u"
      and "0 \<le> registered u (?K i) + (if ?n i = 0 \<or> ?o i \<le> ?n i then 0 else int (?n i) - int (?o i))"
    then show "shifts u (?K i) (if ?n i = 0 \<or> ?o i \<le> ?n i then 0 else int (?n i) - int (?o i))
        (if ?n i = 0 \<or> ?o i \<le> ?n i then u else (?drop i ^^ (?o i - ?n i)) u)"
      using removals_shift [of u "?o i - ?n i" p i c now] by (auto simp: of_nat_diff split: if_splits)
  qed (use sets inj f2 in \<open>simp_all add: folds_def\<close>)
  have at3: "registered s3 (?K i) = registered s (?K i) - (if ?o i \<le> ?n i then 0 else int (?o i) - int (?n i))" for i
    using folds_at [OF inj f3, of i] by (auto simp: sets at2 count_notin)
  have f4: "folds ?K (\<lambda>i. if ?n i \<le> ?o i then 0 else int (?n i) - int (?o i)) r3 s3 s4"
    unfolding s4_def
  proof (rule fold_shifts)
    fix i u assume i: "i \<in> set r3" and u: "all_live u"
    from i have "i \<in> mi_id ` set ms" by (simp add: sets ids_def)
    then have "i \<noteq> []" "model_named ms i \<noteq> None"
      using names model_named_some [of i ms] by metis+
    then show "shifts u (?K i) (if ?n i \<le> ?o i then 0 else int (?n i) - int (?o i))
        (if ?n i \<le> ?o i then u else (add_model_registration i p (model_named ms i) now ^^ (?n i - ?o i)) u)"
      using additions_shift [OF u, of i "model_named ms i" _ p "?n i - ?o i" now] u by (auto simp: of_nat_diff)
  qed (use sets inj f3 count_in_nonneg [of "rs_models s3"] in \<open>auto simp: folds_def\<close>)
  have at4: "registered s4 (?K i) = registered s (?K i) + int (?n i) - int (?o i)" for i
    using folds_at [OF inj f4, of i] by (auto simp: sets at3 count_notin)
  have off: "registered s4 key = registered s key" if "key \<notin> range ?K" for key
  proof -
    have "key \<notin> ?K ` A" for A using that by blast
    then show ?thesis using f2 f3 f4 by (simp add: folds_def)
  qed
  have s45: "same_counts s4 s5"
    unfolding s5_def by (intro same_counts_fold same_counts_modify) (simp add: refresh_registration_def)
  have "same_clients s s5"
    using f2 f3 f4 s45 by (auto simp: folds_def same_counts_def intro: same_clients_trans)
  moreover have "registered s5 key = registered s key + int (count_list (List.map ?K ids) key)
      - int (count_list (List.map ?K old_ids) key)" for key
  proof (cases "key \<in> range ?K")
    case True
    then show ?thesis using s45 by (auto simp: same_counts_def at4 count_list_map [OF inj])
  next
    case False
    then show ?thesis using s45 by (simp add: same_counts_def off count_list_other)
  qed
  moreover have "all_live s5" using f4 s45 by (simp add: folds_def same_counts_def)
  ultimately show ?thesis by (simp add: t set_client_provider_def same_clients_def)
qed


text \<open>The invariant survives when the counts follow the one client that changes.\<close>

lemma counts_ok_change:
  assumes "counts_ok s" "all_live t"
    and others: "\<forall>d. d \<noteq> c \<longrightarrow> mget (rs_client_models t) d = mget (rs_client_models s) d
      \<and> mget (rs_client_providers t) d = mget (rs_client_providers s) d"
    and "\<And>key. registered t key = registered s key - int (share s c key) + int (share t c key)"
    and "[] \<notin> set (mlist (rs_client_models t) c)"
  shows "counts_ok t"
proof -
  have "registered t key = int (tally t key)" for key
    using assms(1, 4) tally_change [OF others, of key] unfolding counts_ok_def by (smt (verit) of_nat_add)
  moreover have "[] \<notin> set (mlist (rs_client_models t) d)" for d
    using assms(1, 3, 5) unfolding counts_ok_def by (cases "d = c") auto
  ultimately show ?thesis using assms(2) by (simp add: counts_ok_def)
qed

lemma client_key_option:
  "provider_model_key (case mget (rs_client_providers s) c of None \<Rightarrow> [] | Some q \<Rightarrow> q) = client_key s c"
  by (simp add: client_key_def [abs_def])

lemma share_registered: "counts_ok s \<Longrightarrow> int (share s c key) \<le> registered s key"
  using share_le_tally [of s c key] by (simp add: counts_ok_def)

lemma unregister_counts:
  assumes ok: "counts_ok s"
  shows "counts_ok (unregister_client_internal c now s)"
    "mget (rs_client_models (unregister_client_internal c now s)) c = None"
    "mget (rs_client_providers (unregister_client_internal c now s)) c = None"
proof -
  let ?t = "unregister_client_internal c now s"
  have "counts_ok ?t \<and> mget (rs_client_models ?t) c = None \<and> mget (rs_client_providers ?t) c = None"
  proof (cases "mget (rs_client_models s) c")
    case None
    then show ?thesis using ok
      by (intro conjI counts_ok_change [OF ok, of _ c])
        (simp_all add: unregister_client_internal_def counts_ok_def share_def)
  next
    case (Some ids)
    let ?u = "fold (unregister_model c (mget (rs_client_providers s) c) now) ids s"
    have sh: "share s c key = count_list (List.map (client_key s c) ids) key" for key
      using Some by (simp add: share_def)
    have u: "all_live ?u" "same_clients s ?u"
      "\<forall>key. registered ?u key = registered s key - int (share s c key)"
      using fold_unregister_counts [of s "mget (rs_client_providers s) c" ids c now] ok
        share_registered [OF ok, of c] unfolding client_key_option sh counts_ok_def by blast+
    have t: "?t = ?u\<lparr>rs_client_models := mdel c (rs_client_models s), rs_client_providers := mdel c (rs_client_providers s)\<rparr>"
      using Some u(2) by (simp add: unregister_client_internal_def Let_def same_clients_def)
    then show ?thesis
      by (intro conjI counts_ok_change [OF ok, of _ c]) (use u in \<open>simp_all add: share_def\<close>)
  qed
  then show "counts_ok ?t" "mget (rs_client_models ?t) c = None" "mget (rs_client_providers ?t) c = None"
    by simp_all
qed

lemma provider_of_set_client:
  "mget (rs_client_providers (set_client_provider c p s)) c = (if p = [] then None else Some p)"
  "d \<noteq> c \<Longrightarrow> mget (rs_client_providers (set_client_provider c p s)) d = mget (rs_client_providers s) d"
  "rs_client_models (set_client_provider c p s) = rs_client_models s"
  "rs_models (set_client_provider c p s) = rs_models s"
  by (simp_all add: set_client_provider_def)

lemma register_counts:
  assumes ok: "counts_ok s" and ord: "some_order ord"
    and same: "mget (rs_client_models s) c = None \<or> mstr (rs_client_providers s) c = to_lower provider"
  shows "counts_ok (register_client ord c provider models now s)"
proof -
  define p where "p = to_lower provider"
  define ms where "ms = valid_models models"
  define ids where "ids = List.map mi_id ms"
  have names: "[] \<notin> mi_id ` set ms" by (simp add: ms_def valid_models_named)
  have names': "[] \<notin> set ids" using names by (simp add: ids_def)
  have live: "all_live s" using ok by (simp add: counts_ok_def)
  let ?t = "register_client ord c provider models now s"
  show ?thesis
  proof (cases "ms = []")
    case True
    then have "?t = unregister_client_internal c now s"
      using unregister_counts(2,3) [OF ok, of c now]
      by (simp add: register_client_def Let_def ms_def [symmetric] delete_idem map_of_eq_None_iff)
    then show ?thesis using unregister_counts(1) [OF ok] by simp
  next
    case False
    show ?thesis
    proof (cases "mget (rs_client_models s) c")
      case None
      let ?u = "fold (\<lambda>i. add_model_registration i p (model_named ms i) now) ids s"
      have "\<forall>i\<in>set ids. i \<noteq> [] \<and> model_named ms i \<noteq> None"
        using names' model_named_some [of _ ms] unfolding ids_def set_map by metis
      note u = fold_add_counts [OF live this, of p now]
      have t: "?t = set_client_provider c p (?u\<lparr>rs_client_models := mput c ids (rs_client_models s)\<rparr>)"
        using None False u
        by (simp add: register_client_def Let_def ms_def [symmetric] p_def [symmetric] ids_def [symmetric] same_clients_def)
      have "client_key ?t c = provider_model_key p"
        by (simp add: t client_key_def [abs_def] provider_of_set_client)
      then have "share ?t c key = count_list (List.map (provider_model_key p) ids) key" for key
        by (simp add: share_def) (simp add: t provider_of_set_client)
      then show ?thesis
        by (intro counts_ok_change [OF ok, of _ c])
          (use u None names' in \<open>simp_all add: share_def [of s] t provider_of_set_client same_clients_def\<close>)
    next
      case (Some old)
      then have p: "mstr (rs_client_providers s) c = p" using same by (simp add: p_def)
      have key: "client_key s c = provider_model_key p" by (simp add: client_key_def [abs_def] p)
      then have sh: "share s c key = count_list (List.map (provider_model_key p) old) key" for key
        using Some by (simp add: share_def)
      have "int (count_list old i) \<le> registered s (provider_model_key p i)" for i
        using share_registered [OF ok, of c "provider_model_key p i"]
        by (simp add: sh count_list_map [OF inj_provider_model_key])
      then have old: "\<forall>i. int (count_list old i) \<le> registered s (provider_model_key p i)" by blast
      note r = reconcile_counts [OF ord live old names, of c now, folded ids_def]
      have t: "?t = reconcile_client ord c p ms old p now s"
        using Some False p
        by (simp add: register_client_def Let_def ms_def [symmetric] p_def [symmetric])
      have pt: "mstr (rs_client_providers ?t) c = p" using r by (simp add: t)
      then have "share ?t c key = count_list (List.map (provider_model_key p) ids) key" for key
        using r by (simp add: share_def client_key_def [abs_def]) (simp add: t)
      then show ?thesis
        by (intro counts_ok_change [OF ok, of _ c]) (use r names' in \<open>simp_all add: sh t\<close>)
    qed
  qed
qed

section \<open>Histories\<close>

text \<open>
  The states reached by the registry's operations, when a client that is already registered
  registers again under the provider it had.
\<close>

inductive registry_history :: "registry_state \<Rightarrow> bool" where
  start: "registry_history new_registry_state"
| register: "registry_history s \<Longrightarrow> some_order ord
    \<Longrightarrow> mget (rs_client_models s) c = None \<or> mstr (rs_client_providers s) c = to_lower p
    \<Longrightarrow> registry_history (register_client ord c p models now s)"
| unregister: "registry_history s \<Longrightarrow> registry_history (unregister_client c now s)"
| quota: "registry_history s \<Longrightarrow> registry_history (set_model_quota_exceeded c i now s)"
| clear: "registry_history s \<Longrightarrow> registry_history (clear_model_quota_exceeded c i s)"
| suspend: "registry_history s \<Longrightarrow> registry_history (suspend_client_model c i reason now s)"
| resume: "registry_history s \<Longrightarrow> registry_history (resume_client_model c i now s)"
| cleanup: "registry_history s \<Longrightarrow> registry_history (cleanup_expired_quotas now s)"
| prefixes: "registry_history s \<Longrightarrow> registry_history (set_show_provider_prefixes b s)"

lemma history_counts_ok: "registry_history s \<Longrightarrow> counts_ok s"
proof (induction rule: registry_history.induct)
  case start
  show ?case by (simp add: counts_ok_def new_registry_state_def live_in_def count_in_def tally_def)
next
  case (register s ord c p models now)
  then show ?case by (intro register_counts)
next
  case (unregister s c now)
  then show ?case unfolding unregister_client_def by (intro unregister_counts(1))
qed (auto intro: counts_ok_same [OF _ same_counts_marks(1)] counts_ok_same [OF _ same_counts_marks(2)]
    counts_ok_same [OF _ same_counts_marks(3)] counts_ok_same [OF _ same_counts_marks(4)]
    counts_ok_same [OF _ same_counts_cleanup] counts_ok_same [OF _ same_counts_prefixes])

lemma provider_model_key_eq [simp]: "provider_model_key p i = provider_model_key q i \<longleftrightarrow> p = q"
  by (auto simp: provider_model_key_def)

lemma share_pos: "0 < share s c key \<longleftrightarrow> key \<in> client_key s c ` set (mlist (rs_client_models s) c)"
  by (simp add: share_def count_list_0_iff flip: neq0_conv)

lemma tally_pos: "0 < tally s key \<longleftrightarrow> (\<exists>c. key \<in> client_key s c ` set (mlist (rs_client_models s) c))"
proof
  assume "0 < tally s key"
  then obtain c where "0 < share s c key"
    unfolding tally_def by (metis gr0I sum.neutral)
  then show "\<exists>c. key \<in> client_key s c ` set (mlist (rs_client_models s) c)" using share_pos by blast
next
  assume "\<exists>c. key \<in> client_key s c ` set (mlist (rs_client_models s) c)"
  then obtain c where "0 < share s c key" using share_pos by blast
  then show "0 < tally s key" using share_le_tally [of s c key] by simp
qed

text \<open>The clients' lists change for the client at hand only.\<close>

lemma same_clients_steps:
  "same_clients s (add_model_registration i p m now s)"
  "same_clients s (unregister_model c q now i s)"
  "same_clients s (modify_registration key f s)"
  by (simp_all add: same_clients_def add_model_registration_def unregister_model_def modify_registration_def
      Let_def split: option.split)

lemma same_clients_fold: "(\<And>i s. same_clients s (f i s)) \<Longrightarrow> same_clients s (fold f xs s)"
  by (induction xs arbitrary: s) (auto intro: same_clients_trans)

lemma unregister_clients:
  "mget (rs_client_models (unregister_client_internal c now s)) = (mget (rs_client_models s))(c := None)"
  "mget (rs_client_providers (unregister_client_internal c now s)) = (mget (rs_client_providers s))(c := None)"
proof -
  have f: "same_clients s (fold (unregister_model c q now) ids s)" for ids q
    by (intro same_clients_fold same_clients_steps)
  show "mget (rs_client_models (unregister_client_internal c now s)) = (mget (rs_client_models s))(c := None)"
    "mget (rs_client_providers (unregister_client_internal c now s)) = (mget (rs_client_providers s))(c := None)"
    using f by (auto simp: unregister_client_internal_def Let_def same_clients_def fun_eq_iff split: option.split)
qed

lemma register_fresh_clients:
  assumes "mget (rs_client_models s) c = None" "d \<noteq> c"
  shows "mget (rs_client_models (register_client ord c p models now s)) d = mget (rs_client_models s) d
    \<and> mget (rs_client_providers (register_client ord c p models now s)) d = mget (rs_client_providers s) d"
proof -
  have "same_clients s (fold (\<lambda>i. add_model_registration i q (named i) now) ids s)" for q named ids
    by (intro same_clients_fold same_clients_steps)
  then show ?thesis using assms
    by (simp add: register_client_def Let_def unregister_clients set_client_provider_def same_clients_def)
qed

lemma unregister_model_other:
  assumes "provider_model_key (case q of None \<Rightarrow> [] | Some p \<Rightarrow> p) i \<noteq> key"
  shows "mget (rs_models (unregister_model c q now i s)) key = mget (rs_models s) key"
  using assms unfolding unregister_model_def
  by (cases "mget (rs_models s) (provider_model_key (case q of None \<Rightarrow> [] | Some p \<Rightarrow> p) i)")
    (auto simp: Let_def split: option.split)

lemma unregister_internal_other:
  assumes "\<forall>i \<in> set (mlist (rs_client_models s) c). client_key s c i \<noteq> key"
  shows "mget (rs_models (unregister_client_internal c now s)) key = mget (rs_models s) key"
proof -
  have "mget (rs_models (fold (unregister_model c (mget (rs_client_providers s) c) now) ids u)) key
      = mget (rs_models u) key" if "\<forall>i \<in> set ids. client_key s c i \<noteq> key" for ids u
    using that
    by (induction ids arbitrary: u) (simp_all add: unregister_model_other client_key_option)
  then show ?thesis using assms
    by (simp add: unregister_client_internal_def Let_def split: option.splits)
qed

text \<open>Registering the same single model again.\<close>

lemma first_occurrences_single [simp]: "first_occurrences [x] = [x]"
  by (simp add: first_occurrences_def)

lemma some_order_single:
  assumes "some_order ord"
  shows "ord n [x] = [x]"
proof -
  have "mset (ord n [x]) = {#x#}" using assms by (simp add: some_order_def)
  then show ?thesis
    using mset_eq_length [of "ord n [x]" "[x]"] by (cases "ord n [x]") simp_all
qed

lemma reconcile_single:
  assumes "some_order ord"
  obtains u where "same_counts s u"
    "reconcile_client ord c q [m] [mi_id m] p now s
       = set_client_provider c q (u\<lparr>rs_client_models := mput c [mi_id m] (rs_client_models u)\<rparr>)"
proof
  let ?b = "p \<noteq> q \<and> p \<noteq> []" let ?x = "if ?b then modify_registration (mi_id m) (move_provider_count p 1) s else s"
  let ?u = "modify_registration (mi_id m) (refresh_registration c (Some m) now q (if p \<noteq> q \<and> q \<noteq> [] then 1 else 0)) ?x"
  have "same_counts s ?x"
    by (auto intro!: same_counts_modify simp: move_provider_count_def split: option.split)
  then show "same_counts s ?u"
    by (rule same_counts_trans) (simp add: same_counts_modify refresh_registration_def)
  show "reconcile_client ord c q [m] [mi_id m] p now s
       = set_client_provider c q (?u\<lparr>rs_client_models := mput c [mi_id m] (rs_client_models ?u)\<rparr>)"
    by (simp add: reconcile_client_def Let_def some_order_single [OF assms] model_named_def)
qed

section \<open>Properties\<close>

text \<open>
  As long as no client changes its provider, the number of registrations of a model under a
  provider is the number of times the registered clients list it, and the registry holds exactly
  the models that some client lists.
\<close>

theorem counts_follow_clients:
  assumes "registry_history s"
  shows "registered s key = (\<Sum>c \<in> set (mkeys (rs_client_models s)).
      int (count_list (List.map (client_key s c) (mlist (rs_client_models s) c)) key))
    \<and> (mget (rs_models s) key \<noteq> None
      \<longleftrightarrow> (\<exists>c. key \<in> client_key s c ` set (mlist (rs_client_models s) c)))"
proof -
  have ok: "counts_ok s" using history_counts_ok [OF assms] .
  then have n: "registered s key = int (tally s key)" by (simp add: counts_ok_def)
  moreover have "0 < registered s key \<longleftrightarrow> mget (rs_models s) key \<noteq> None"
    using ok by (intro count_in_pos) (simp add: counts_ok_def)
  ultimately have "mget (rs_models s) key \<noteq> None
      \<longleftrightarrow> (\<exists>c. key \<in> client_key s c ` set (mlist (rs_client_models s) c))"
    unfolding tally_pos [symmetric] by simp
  then show ?thesis using n unfolding tally_def share_def of_nat_sum by blast
qed

definition sample_model :: "string \<Rightarrow> model_info" where
  "sample_model i = \<lparr>mi_id = i, mi_object = [], mi_created = 0, mi_owned_by = [], mi_type = [],
     mi_canonical_id = [], mi_display_name = [], mi_name = [], mi_version = [], mi_description = [],
     mi_input_token_limit = 0, mi_output_token_limit = 0, mi_generation_methods = [],
     mi_context_length = 0, mi_max_completion_tokens = 0, mi_supported_parameters = [],
     mi_thinking = None, mi_priority = 0, mi_upstream_name = [], mi_hidden = False\<rparr>"

text \<open>Two clients of different providers that offer the same model.\<close>

definition sample_models :: registry_state where
  "sample_models = register_client (\<lambda>_ xs. xs) ''c2'' ''claude'' [Some (sample_model ''m'')] 20
     (register_client (\<lambda>_ xs. xs) ''c1'' ''gemini'' [Some (sample_model ''m''), Some (sample_model ''n'')] 10
       new_registry_state)"

lemma sample_history: "registry_history sample_models"
  unfolding sample_models_def
proof (intro registry_history.register)
  show "registry_history new_registry_state" by (rule registry_history.start)
  show "some_order (\<lambda>_ xs. xs)" by (simp add: some_order_def)
  show "some_order (\<lambda>_ xs. xs)" by (simp add: some_order_def)
  show "mget (rs_client_models new_registry_state) ''c1'' = None
    \<or> mstr (rs_client_providers new_registry_state) ''c1'' = to_lower ''gemini''"
    by (simp add: new_registry_state_def)
  show "mget (rs_client_models (register_client (\<lambda>_ xs. xs) ''c1'' ''gemini''
      [Some (sample_model ''m''), Some (sample_model ''n'')] 10 new_registry_state)) ''c2'' = None
    \<or> mstr (rs_client_providers (register_client (\<lambda>_ xs. xs) ''c1'' ''gemini''
      [Some (sample_model ''m''), Some (sample_model ''n'')] 10 new_registry_state)) ''c2'' = to_lower ''claude''"
    by code_simp
qed

text \<open>A model of a sample history is registered once under each provider.\<close>

theorem counts_follow_clients_witness:
  "registered sample_models ''gemini:m'' = 1 \<and> mget (rs_models sample_models) ''claude:m'' \<noteq> None"
proof -
  have "(\<Sum>c \<in> set (mkeys (rs_client_models sample_models)).
      int (count_list (List.map (client_key sample_models c) (mlist (rs_client_models sample_models) c)) ''gemini:m'')) = 1"
    by code_simp
  moreover have "''claude:m'' \<in> client_key sample_models ''c2'' ` set (mlist (rs_client_models sample_models) ''c2'')"
    by code_simp
  ultimately show ?thesis
    using counts_follow_clients [OF sample_history, of "''gemini:m''"]
      counts_follow_clients [OF sample_history, of "''claude:m''"] by auto
qed

text \<open>
  Registering a new client and unregistering it leaves every registration count as it was, the
  other clients' included, and the client unknown.
\<close>

theorem register_then_unregister:
  fixes models :: "model_info option list" and p :: string and now later :: gotime
  assumes "registry_history s" "some_order ord" "mget (rs_client_models s) c = None"
  defines "t \<equiv> unregister_client c later (register_client ord c p models now s)"
  shows "registered t = registered s
    \<and> mget (rs_client_models t) = mget (rs_client_models s)
    \<and> mget (rs_client_providers t) = (mget (rs_client_providers s))(c := None)"
proof -
  let ?u = "register_client ord c p models now s"
  have "counts_ok ?u" using assms by (intro register_counts history_counts_ok) simp_all
  then have "counts_ok t" unfolding t_def unregister_client_def by (rule unregister_counts(1))
  have cl: "mget (rs_client_models t) = mget (rs_client_models s)"
    "mget (rs_client_providers t) = (mget (rs_client_providers s))(c := None)"
    using register_fresh_clients [OF assms(3)] assms(3)
    by (auto simp: t_def unregister_client_def unregister_clients fun_eq_iff)
  have "tally t key = tally s key" for key
    using tally_change [of c t s key] cl assms(3) by (simp add: share_def)
  then show ?thesis
    using \<open>counts_ok t\<close> history_counts_ok [OF assms(1)] cl by (simp add: counts_ok_def fun_eq_iff)
qed

theorem register_then_unregister_witness:
  "registered (unregister_client ''c3'' 9 (register_client (\<lambda>_ xs. xs) ''c3'' ''gemini''
      [Some (sample_model ''m'')] 8 sample_models)) ''gemini:m'' = registered sample_models ''gemini:m''"
proof -
  have "mget (rs_client_models sample_models) ''c3'' = None" by code_simp
  then show ?thesis
    using register_then_unregister [OF sample_history, of "\<lambda>_ xs. xs" "''c3''" 9 "''gemini''"
        "[Some (sample_model ''m'')]" 8] by (simp add: some_order_def)
qed

text \<open>
  A client that registers its model again under another provider leaves the old registration
  behind: after the client is gone the model is still counted once under the old provider, and a
  registration of another client under the new provider has been taken off in its place.
\<close>

theorem provider_change_leaks:
  fixes t1 t2 t3 :: gotime
  assumes "registry_history s" "some_order ord" "mget (rs_client_models s) c = None"
    and "mi_id m \<noteq> []" "to_lower p \<noteq> to_lower q"
  defines "t \<equiv> unregister_client c t3 (register_client ord c q [Some m] t2 (register_client ord c p [Some m] t1 s))"
  shows "mget (rs_client_models t) c = None
    \<and> registered t (provider_model_key (to_lower p) (mi_id m))
        = registered s (provider_model_key (to_lower p) (mi_id m)) + 1
    \<and> registered t (provider_model_key (to_lower q) (mi_id m))
        = max 0 (registered s (provider_model_key (to_lower q) (mi_id m)) - 1)"
proof -
  let ?P = "to_lower p" let ?Q = "to_lower q" let ?K = "\<lambda>p. provider_model_key p (mi_id m)"
  have vm: "valid_models [Some m] = [m]" using assms(4) by (simp add: valid_models_def List.map_filter_simps)
  define a where "a = add_model_registration (mi_id m) ?P (Some m) t1 s"
  define s1 where "s1 = register_client ord c p [Some m] t1 s"
  define s2 where "s2 = register_client ord c q [Some m] t2 s1"
  have live: "all_live s" using history_counts_ok [OF assms(1)] by (simp add: counts_ok_def)
  have a: "shifts s (?K ?P) 1 a" unfolding a_def using live assms(4) by (rule add_shifts)
  have s1: "s1 = set_client_provider c ?P (a\<lparr>rs_client_models := mput c [mi_id m] (rs_client_models a)\<rparr>)"
    using assms(3) by (simp add: s1_def a_def register_client_def vm Let_def model_named_def)
  have old: "mstr (rs_client_providers s1) c = ?P"
    unfolding s1 provider_of_set_client by (simp add: to_lower_def)
  obtain u where u: "same_counts s1 u"
    "s2 = set_client_provider c ?Q (u\<lparr>rs_client_models := mput c [mi_id m] (rs_client_models u)\<rparr>)"
  proof (rule reconcile_single [OF assms(2)])
    fix u assume "same_counts s1 u" "reconcile_client ord c ?Q [m] [mi_id m] ?P t2 s1
       = set_client_provider c ?Q (u\<lparr>rs_client_models := mput c [mi_id m] (rs_client_models u)\<rparr>)"
    moreover have "mget (rs_client_models s1) c = Some [mi_id m]" by (simp add: s1 provider_of_set_client)
    ultimately show thesis
      using old by (intro that [of u]) (simp_all add: s2_def register_client_def vm Let_def)
  qed
  have live2: "all_live s2" and reg2: "registered s2 = (registered s)(?K ?P := registered s (?K ?P) + 1)"
    using u a by (simp_all add: provider_of_set_client s1 same_counts_def shifts_def)
  have cl: "mget (rs_client_models s2) c = Some [mi_id m]"
    "(case mget (rs_client_providers s2) c of None \<Rightarrow> [] | Some r \<Rightarrow> r) = ?Q"
    by (simp_all add: to_lower_def u(2) provider_of_set_client)
  define v where "v = unregister_model c (mget (rs_client_providers s2) c) t3 (mi_id m) s2"
  have t: "rs_models t = rs_models v" "mget (rs_client_models t) c = None"
    using cl by (simp_all add: t_def unregister_client_def unregister_client_internal_def Let_def
        v_def s2_def s1_def)
  have "registered v = (registered s2)(?K ?Q := max 0 (registered s2 (?K ?Q) - 1))"
  proof (cases "mget (rs_models s2) (?K ?Q)")
    case None
    then show ?thesis
      unfolding v_def unregister_model_def cl(2) by (simp add: fun_eq_iff count_in_def Let_def)
  next
    case (Some r)
    then have "1 \<le> registered s2 (?K ?Q)" using live2 by (auto simp: live_in_def count_in_def dest: spec2)
    then show ?thesis
      using unregister_shifts [OF live2, of "mget (rs_client_providers s2) c" "mi_id m" c t3]
      unfolding cl(2) v_def shifts_def by simp
  qed
  then show ?thesis using assms(5) by (simp add: t reg2)
qed

theorem provider_change_leaks_witness:
  "registered (unregister_client ''c3'' 30 (register_client (\<lambda>_ xs. xs) ''c3'' ''claude'' [Some (sample_model ''m'')] 20
     (register_client (\<lambda>_ xs. xs) ''c3'' ''gemini'' [Some (sample_model ''m'')] 10 sample_models))) ''gemini:m'' = 2"
proof -
  have "mget (rs_client_models sample_models) ''c3'' = None"
    "registered sample_models (provider_model_key (to_lower ''gemini'') (mi_id (sample_model ''m''))) = 1"
    "provider_model_key (to_lower ''gemini'') (mi_id (sample_model ''m'')) = ''gemini:m''"
    "to_lower ''gemini'' \<noteq> to_lower ''claude''" "mi_id (sample_model ''m'') \<noteq> []"
    by code_simp+
  then show ?thesis
    using provider_change_leaks [OF sample_history, of "\<lambda>_ xs. xs" "''c3''" "sample_model ''m''"
        "''gemini''" "''claude''" 30 20 10] by (simp add: some_order_def)
qed

text \<open>
  A suspension is recorded on the first live registration found for the model, whoever's it is.
  When that is another provider's, unregistering the suspended client does not take it back.
\<close>

theorem suspension_outlives_client:
  fixes now later :: gotime and reason :: string
  assumes "find_model_registration s i = Some key" "mget (rs_models s) key = Some r"
    and "c \<noteq> []" "i \<noteq> []" "mget (rg_suspended r) c = None"
    and "\<forall>j \<in> set (mlist (rs_client_models s) c). client_key s c j \<noteq> key"
  defines "t \<equiv> unregister_client c later (suspend_client_model c i reason now s)"
  shows "mget (rs_client_models t) c = None
    \<and> mget (rs_models t) key = Some (r\<lparr>rg_suspended := mput c reason (rg_suspended r), rg_last_updated := now\<rparr>)"
proof -
  let ?u = "suspend_client_model c i reason now s"
  have u: "mget (rs_models ?u) key = Some (r\<lparr>rg_suspended := mput c reason (rg_suspended r), rg_last_updated := now\<rparr>)"
    using assms by (simp add: suspend_client_model_def modify_registration_def)
  have "same_clients s ?u" using same_counts_marks(3) by (simp add: same_counts_def)
  then have "\<forall>j \<in> set (mlist (rs_client_models ?u) c). client_key ?u c j \<noteq> key"
    using assms(6) by (simp add: same_clients_def client_key_def)
  from unregister_internal_other [OF this] u show ?thesis
    by (simp add: t_def unregister_client_def unregister_clients)
qed

theorem suspension_outlives_client_witness:
  "\<exists>r. mget (rs_models (unregister_client ''c2'' 40 (suspend_client_model ''c2'' ''m'' ''quota'' 30 sample_models)))
     ''gemini:m'' = Some r \<and> mget (rg_suspended r) ''c2'' = Some ''quota''"
proof -
  obtain r where "mget (rs_models sample_models) ''gemini:m'' = Some r"
    "mget (rg_suspended r) ''c2'' = None"
  proof -
    have "map_option (\<lambda>r. mget (rg_suspended r) ''c2'' = None) (mget (rs_models sample_models) ''gemini:m'') = Some True"
      by code_simp
    then show ?thesis using that by auto
  qed
  moreover have "find_model_registration sample_models ''m'' = Some ''gemini:m''"
    "\<forall>j \<in> set (mlist (rs_client_models sample_models) ''c2''). client_key sample_models ''c2'' j \<noteq> ''gemini:m''"
    by code_simp+
  ultimately show ?thesis
    using suspension_outlives_client [of sample_models "''m''" "''gemini:m''" r "''c2''" 40 "''quota''" 30] by simp
qed

end
