(* ===== verification/ModelCatalog.thy ===== *)
theory ModelCatalog
  imports ModelRegistry
begin

text \<open>
  What the registry answers about models (\<open>internal/registry/model_query.go\<close>,
  \<open>model_prefix.go\<close>): the listing an API handler shows, how many clients can serve a model, the
  providers at work, and the provider prefixes of model names. \<open>range\<close> loops over maps follow the
  order of the association lists, which is arbitrary; \<open>srt\<close> stands for \<open>sort.Slice\<close>, which promises
  a permutation (sorted by the comparison when that is a weak order).
\<close>

section \<open>Provider prefixes\<close>

definition upper_first :: "string \<Rightarrow> string" where
  "upper_first s = (case s of [] \<Rightarrow> [] | c # cs \<Rightarrow> upper_char c # cs)"

definition provider_names :: "(string, string) gomap" where
  "provider_names = [(''gemini-cli'', ''Gemini CLI''), (''gemini'', ''Gemini''), (''vertex'', ''Vertex AI''),
     (''aistudio'', ''AI Studio''), (''claude'', ''Claude''), (''codex'', ''Codex''), (''qwen'', ''Qwen''),
     (''iflow'', ''iFlow''), (''cline'', ''Cline''), (''kiro'', ''Kiro''), (''antigravity'', ''Antigravity''),
     (''openai'', ''OpenAI''), (''anthropic'', ''Anthropic''), (''google'', ''Google'')]"

definition providers_by_name :: "(string, string) gomap" where
  "providers_by_name = [(''Gemini CLI'', ''gemini-cli''), (''Gemini'', ''gemini''), (''Vertex AI'', ''vertex''),
     (''AI Studio'', ''aistudio''), (''Antigravity'', ''antigravity''), (''Claude'', ''claude''),
     (''Codex'', ''codex''), (''Qwen'', ''qwen''), (''iFlow'', ''iflow''), (''Cline'', ''cline''),
     (''Kiro'', ''kiro''), (''OpenAI'', ''openai''), (''Anthropic'', ''anthropic''), (''Google'', ''google'')]"

definition format_provider_prefix :: "bool \<Rightarrow> string \<Rightarrow> string" where
  "format_provider_prefix show_prefixes model_type =
     (if \<not> show_prefixes \<or> model_type = [] then []
      else let t = to_lower (trim_space model_type) in
        case mget provider_names t of
          Some name \<Rightarrow> ''['' @ name @ ''] ''
        | None \<Rightarrow> if t \<noteq> [] then ''['' @ upper_first t @ ''] '' else [])"

definition extract_provider_from_prefixed_id :: "string \<Rightarrow> string" where
  "extract_provider_from_prefixed_id model_id =
     (let m = trim_space model_id in
      if has_prefix m ''['' then
        (case index_of m ''] '' of
           Some i \<Rightarrow> mstr providers_by_name (trim_space (take (i - 1) (drop 1 m)))
         | None \<Rightarrow> [])
      else [])"

section \<open>Listing entries\<close>

datatype field = FStr string | FInt int | FStrs "string list"

type_synonym model_map = "(string, field) gomap"

definition set_str :: "string \<Rightarrow> string \<Rightarrow> model_map \<Rightarrow> model_map" where
  "set_str k v m = (if v \<noteq> [] then mput k (FStr v) m else m)"

definition set_pos :: "string \<Rightarrow> int \<Rightarrow> model_map \<Rightarrow> model_map" where
  "set_pos k n m = (if 0 < n then mput k (FInt n) m else m)"

definition set_strs :: "string \<Rightarrow> string list \<Rightarrow> model_map \<Rightarrow> model_map" where
  "set_strs k l m = (if l \<noteq> [] then mput k (FStrs l) m else m)"

definition convert_model_to_map :: "registry_state \<Rightarrow> model_info \<Rightarrow> string \<Rightarrow> model_map" where
  "convert_model_to_map s model handler =
     (let prefix = format_provider_prefix (rs_show_prefixes s) (mi_type model);
          base = [(''id'', FStr (prefix @ mi_id model)), (''object'', FStr ''model''),
                  (''owned_by'', FStr (mi_owned_by model))];
          common = set_str ''display_name'' (mi_display_name model) (set_str ''type'' (mi_type model)
                     (set_pos ''created'' (mi_created model) base))
      in if handler = ''openai'' then
           set_strs ''supported_parameters'' (mi_supported_parameters model)
             (set_pos ''max_completion_tokens'' (mi_max_completion_tokens model)
               (set_pos ''context_length'' (mi_context_length model)
                 (set_str ''description'' (mi_description model)
                   (set_str ''version'' (mi_version model) common))))
         else if handler = ''claude'' then common
         else if handler = ''gemini'' then
           (let name = (if has_prefix (mi_id model) ''models/'' then mi_id model else ''models/'' @ mi_id model)
            in set_strs ''supportedGenerationMethods'' (mi_generation_methods model)
                 (set_pos ''outputTokenLimit'' (mi_output_token_limit model)
                   (set_pos ''inputTokenLimit'' (mi_input_token_limit model)
                     (set_str ''description'' (mi_description model)
                       (set_str ''displayName'' (mi_display_name model)
                         (set_str ''version'' (mi_version model) [(''name'', FStr (prefix @ name))]))))))
         else
           (let m = set_str ''type'' (mi_type model) (set_str ''owned_by'' (mi_owned_by model)
                      [(''id'', FStr (prefix @ mi_id model)), (''object'', FStr ''model'')])
            in if mi_created model \<noteq> 0 then mput ''created'' (FInt (mi_created model)) m else m))"

section \<open>Available clients\<close>

definition expired_clients :: "gotime \<Rightarrow> model_registration \<Rightarrow> int" where
  "expired_clients now r = int (length (filter
     (\<lambda>(_, t). case t of None \<Rightarrow> False | Some t \<Rightarrow> time_sub now t < quota_window) (rg_quota_exceeded r)))"

definition cooldown_suspended :: "model_registration \<Rightarrow> int" where
  "cooldown_suspended r = int (length (filter (\<lambda>(_, reason). equal_fold reason ''quota'') (rg_suspended r)))"

definition other_suspended :: "model_registration \<Rightarrow> int" where
  "other_suspended r = int (length (filter (\<lambda>(_, reason). \<not> equal_fold reason ''quota'') (rg_suspended r)))"

definition effective_clients :: "gotime \<Rightarrow> model_registration \<Rightarrow> int" where
  "effective_clients now r =
     (let n = rg_count r - expired_clients now r - other_suspended r in if n < 0 then 0 else n)"

definition registration_available :: "gotime \<Rightarrow> model_registration \<Rightarrow> bool" where
  "registration_available now r \<longleftrightarrow> 0 < effective_clients now r
     \<or> (0 < rg_count r \<and> (0 < expired_clients now r \<or> 0 < cooldown_suspended r) \<and> other_suspended r = 0)"

record model_aggregate =
  ag_info :: model_info
  ag_clients :: int
  ag_providers :: "(string, int) gomap"
  ag_available :: bool

definition add_providers :: "(string, int) gomap \<Rightarrow> model_aggregate \<Rightarrow> model_aggregate" where
  "add_providers ps a =
     a\<lparr>ag_providers := fold (\<lambda>(p, n) m. mput p (mint m p + n) m) ps (ag_providers a)\<rparr>"

text \<open>One round of the loop over the registrations.\<close>

definition aggregate_step ::
    "gotime \<Rightarrow> model_registration \<Rightarrow> (string, model_aggregate) gomap \<Rightarrow> (string, model_aggregate) gomap" where
  "aggregate_step now r aggs =
     (case rg_info r of
        None \<Rightarrow> aggs
      | Some info \<Rightarrow>
          if mi_id info = [] then aggs
          else let n = effective_clients now r; avail = registration_available now r;
                   a = (case mget aggs (mi_id info) of
                          None \<Rightarrow> \<lparr>ag_info = info, ag_clients = n, ag_providers = [], ag_available = avail\<rparr>
                        | Some a \<Rightarrow>
                            if ag_clients a < n
                            then a\<lparr>ag_info := info, ag_clients := n, ag_available := ag_available a \<or> avail\<rparr>
                            else if avail \<and> \<not> ag_available a then a\<lparr>ag_available := True\<rparr>
                            else a)
               in mput (mi_id info) (add_providers (rg_providers r) a) aggs)"

definition listing_of :: "registry_state \<Rightarrow> string \<Rightarrow> model_aggregate \<Rightarrow> model_map list" where
  "listing_of s handler a =
     (if \<not> ag_available a then []
      else if rs_show_prefixes s \<and> ag_providers a \<noteq> []
      then List.map (\<lambda>p. convert_model_to_map s ((ag_info a)\<lparr>mi_type := p\<rparr>) handler) (mkeys (ag_providers a))
      else [convert_model_to_map s (ag_info a) handler])"

definition get_available_models ::
    "(model_map list \<Rightarrow> model_map list) \<Rightarrow> registry_state \<Rightarrow> string \<Rightarrow> gotime \<Rightarrow> model_map list" where
  "get_available_models srt s handler now =
     srt (concat (List.map (listing_of s handler)
       (List.map snd (fold (aggregate_step now) (List.map snd (rs_models s)) []))))"

definition get_model_count :: "registry_state \<Rightarrow> string \<Rightarrow> gotime \<Rightarrow> int" where
  "get_model_count s model_id now =
     (case find_model_registration s model_id of
        None \<Rightarrow> 0
      | Some key \<Rightarrow>
          (case mget (rs_models s) key of
             None \<Rightarrow> 0
           | Some r \<Rightarrow>
               let n = rg_count r - expired_clients now r - int (length (rg_suspended r))
               in if n < 0 then 0 else n))"

definition get_model_info :: "registry_state \<Rightarrow> string \<Rightarrow> model_info option" where
  "get_model_info s model_id =
     (case find_model_registration s model_id of
        None \<Rightarrow> None
      | Some key \<Rightarrow> (case mget (rs_models s) key of None \<Rightarrow> None | Some r \<Rightarrow> rg_info r))"

definition get_available_providers :: "registry_state \<Rightarrow> string list" where
  "get_available_providers s =
     remdups (concat (List.map (\<lambda>(_, r). if rg_count r = 0 then []
        else List.map fst (filter (\<lambda>(_, n). 0 < n) (rg_providers r))) (rs_models s)))"

text \<open>\<open>srt2\<close> is the second sort, by falling creation time. \<open>Inl\<close> is the error.\<close>

definition get_first_available_model ::
    "(model_map list \<Rightarrow> model_map list) \<Rightarrow> (model_map list \<Rightarrow> model_map list) \<Rightarrow> registry_state \<Rightarrow> string
       \<Rightarrow> gotime \<Rightarrow> string + string" where
  "get_first_available_model srt srt2 s handler now =
     (let models = get_available_models srt s handler now in
      if models = [] then Inl (''no models available for handler type: '' @ handler)
      else case find (\<lambda>m. case mget m ''id'' of Some (FStr i) \<Rightarrow> 0 < get_model_count s i now | _ \<Rightarrow> False)
             (srt2 models) of
          Some m \<Rightarrow> (case mget m ''id'' of Some (FStr i) \<Rightarrow> Inr i | _ \<Rightarrow> Inr [])
        | None \<Rightarrow> Inl (''no available clients for any model in handler type: '' @ handler))"

section \<open>Lemmas\<close>

text \<open>What an aggregate says of its identifier.\<close>

definition offers :: "gotime \<Rightarrow> string \<Rightarrow> model_registration \<Rightarrow> bool" where
  "offers now i r \<longleftrightarrow> i \<noteq> [] \<and> map_option mi_id (rg_info r) = Some i \<and> registration_available now r"

definition available_in :: "(string, model_aggregate) gomap \<Rightarrow> string \<Rightarrow> bool" where
  "available_in aggs i \<longleftrightarrow> (\<exists>a. mget aggs i = Some a \<and> ag_available a)"

definition aggs_ok :: "(string, model_aggregate) gomap \<Rightarrow> bool" where
  "aggs_ok aggs \<longleftrightarrow> wf_map aggs \<and> (\<forall>i a. mget aggs i = Some a \<longrightarrow> mi_id (ag_info a) = i)"

lemma add_providers_sel [simp]:
  "ag_info (add_providers ps a) = ag_info a" "ag_available (add_providers ps a) = ag_available a"
  by (simp_all add: add_providers_def)

lemma aggregate_step_ok:
  assumes "aggs_ok aggs"
  shows "aggs_ok (aggregate_step now r aggs)"
    "available_in (aggregate_step now r aggs) i \<longleftrightarrow> available_in aggs i \<or> offers now i r"
  using assms
  by (auto simp: aggs_ok_def aggregate_step_def available_in_def offers_def Let_def split: option.splits)

lemma aggregate_fold_ok:
  "aggs_ok aggs \<Longrightarrow> aggs_ok (fold (aggregate_step now) rs aggs)
     \<and> (available_in (fold (aggregate_step now) rs aggs) i
         \<longleftrightarrow> available_in aggs i \<or> (\<exists>r \<in> set rs. offers now i r))"
proof (induction rs arbitrary: aggs)
  case (Cons r rs)
  then show ?case using aggregate_step_ok [OF Cons.prems, of now r] by auto
qed simp

text \<open>The identifier of a listing entry.\<close>

lemma set_fields [simp]:
  "k \<noteq> j \<Longrightarrow> mget (set_str j v m) k = mget m k" "k \<noteq> j \<Longrightarrow> mget (set_pos j n m) k = mget m k"
  "k \<noteq> j \<Longrightarrow> mget (set_strs j l m) k = mget m k"
  by (simp_all add: set_str_def set_pos_def set_strs_def)

lemma entry_id:
  "mget (convert_model_to_map s model handler) ''id'' = (if handler = ''gemini'' then None
     else Some (FStr (format_provider_prefix (rs_show_prefixes s) (mi_type model) @ mi_id model)))"
  by (simp add: convert_model_to_map_def Let_def)

lemma no_prefix [simp]: "format_provider_prefix False t = []"
  by (simp add: format_provider_prefix_def)

lemma expired_nonneg [simp]: "0 \<le> expired_clients now r"
  by (simp add: expired_clients_def)

text \<open>White space and the closing bracket of a prefix.\<close>

lemma trim_space_prepend:
  "i \<noteq> [] \<Longrightarrow> trim_space i = i \<Longrightarrow> \<not> is_space c \<Longrightarrow> trim_space (c # xs @ i) = c # xs @ i"
  using last_of_trimmed [of i] by (intro trim_space_id) simp_all

lemma index_of_bracket:
  "CHR '']'' \<notin> set pre \<Longrightarrow> index_of (pre @ CHR '']'' # CHR '' '' # i) ''] '' = Some (length pre)"
  by (induction pre) (auto simp: has_prefix_def)

lemma prefix_parts:
  assumes "p \<in> set (mkeys provider_names)"
  obtains name where "format_provider_prefix True p = ''['' @ name @ ''] ''" "CHR '']'' \<notin> set name"
    "trim_space name = name" "mstr providers_by_name name = p"
proof -
  have "list_all (\<lambda>(p, name). format_provider_prefix True p = ''['' @ name @ ''] '' \<and> CHR '']'' \<notin> set name
      \<and> trim_space name = name \<and> mstr providers_by_name name = p) provider_names"
    by code_simp
  then show ?thesis using assms that by (auto simp: list_all_iff)
qed

section \<open>Properties\<close>

text \<open>
  Without prefixes a model is listed exactly when some registration under its name is available:
  it has a client that is neither out of quota nor suspended, or all its unavailable clients are
  only cooling down. The order in which maps are visited does not matter.
\<close>

theorem listed_iff_available:
  assumes "\<forall>xs. set (srt xs) = set xs" "\<not> rs_show_prefixes s" "handler \<noteq> ''gemini''"
  shows "(\<exists>e \<in> set (get_available_models srt s handler now). mget e ''id'' = Some (FStr i))
    \<longleftrightarrow> (\<exists>r \<in> set (List.map snd (rs_models s)). \<exists>info. rg_info r = Some info \<and> mi_id info = i \<and> i \<noteq> []
           \<and> registration_available now r)"
proof -
  let ?aggs = "fold (aggregate_step now) (List.map snd (rs_models s)) []"
  have "aggs_ok []" by (simp add: aggs_ok_def)
  note fold = aggregate_fold_ok [OF this, of now "List.map snd (rs_models s)"]
  then have ok: "aggs_ok ?aggs" by blast
  have "(\<exists>e \<in> set (get_available_models srt s handler now). mget e ''id'' = Some (FStr i))
      \<longleftrightarrow> (\<exists>a \<in> snd ` set ?aggs. ag_available a \<and> mi_id (ag_info a) = i)"
    using assms by (auto simp: get_available_models_def listing_of_def entry_id)
  also have "\<dots> \<longleftrightarrow> available_in ?aggs i"
  proof
    assume "\<exists>a \<in> snd ` set ?aggs. ag_available a \<and> mi_id (ag_info a) = i"
    then obtain k a where "(k, a) \<in> set ?aggs" and a: "ag_available a" "mi_id (ag_info a) = i" by auto
    then have "mget ?aggs k = Some a" using ok by (simp add: aggs_ok_def mget_in_set)
    then show "available_in ?aggs i" using ok a by (auto simp: aggs_ok_def available_in_def)
  next
    assume "available_in ?aggs i"
    then obtain a where a: "mget ?aggs i = Some a" "ag_available a" by (auto simp: available_in_def)
    then have "(i, a) \<in> set ?aggs" using map_of_SomeD by fast
    then show "\<exists>a \<in> snd ` set ?aggs. ag_available a \<and> mi_id (ag_info a) = i"
      using a ok by (force simp: aggs_ok_def)
  qed
  also have "\<dots> \<longleftrightarrow> (\<exists>r \<in> set (List.map snd (rs_models s)). offers now i r)"
    using fold by (simp add: available_in_def)
  finally show ?thesis by (auto simp: offers_def)
qed

theorem listed_iff_available_witness:
  "\<exists>e \<in> set (get_available_models (\<lambda>xs. xs) sample_models ''openai'' 25). mget e ''id'' = Some (FStr ''n'')"
proof -
  have "\<not> rs_show_prefixes sample_models" by code_simp
  moreover have "\<exists>r \<in> set (List.map snd (rs_models sample_models)).
      map_option mi_id (rg_info r) = Some ''n'' \<and> registration_available 25 r"
    by code_simp
  ultimately show ?thesis
    using listed_iff_available [of "\<lambda>xs. xs" sample_models "''openai''" 25 "''n''"] by auto
qed

text \<open>
  For the Gemini API no first model is ever found: its listing entries carry a \<open>name\<close> and no \<open>id\<close>,
  which is the field the search reads.
\<close>

theorem no_first_gemini_model:
  assumes "\<forall>xs. set (srt xs) = set xs" "\<forall>xs. set (srt2 xs) = set xs"
  shows "\<exists>msg. get_first_available_model srt srt2 s ''gemini'' now = Inl msg"
proof -
  have "mget e ''id'' = None" if "e \<in> set (srt2 (get_available_models srt s ''gemini'' now))" for e
    using that assms by (auto simp: get_available_models_def listing_of_def entry_id split: if_splits)
  then have "find (\<lambda>m. case mget m ''id'' of Some (FStr i) \<Rightarrow> 0 < get_model_count s i now | _ \<Rightarrow> False)
      (srt2 (get_available_models srt s ''gemini'' now)) = None"
    by (auto simp: find_None_iff)
  then show ?thesis by (simp add: get_first_available_model_def Let_def)
qed

theorem no_first_gemini_model_witness:
  "get_first_available_model (\<lambda>xs. xs) (\<lambda>xs. xs) sample_models ''gemini'' 25
     = Inl ''no available clients for any model in handler type: gemini''"
proof -
  have "\<exists>msg. get_first_available_model (\<lambda>xs. xs) (\<lambda>xs. xs) sample_models ''gemini'' 25 = Inl msg"
    by (rule no_first_gemini_model) simp_all
  moreover have "get_available_models (\<lambda>xs. xs) sample_models ''gemini'' 25 \<noteq> []" by code_simp
  ultimately show ?thesis
    by (auto simp: get_first_available_model_def Let_def split: option.splits field.splits if_splits)
qed

text \<open>
  The prefix put before a model's name is taken off again by the normalisation, and the provider
  is read back from it, for every provider the code knows by name.
\<close>

theorem prefix_roundtrip:
  assumes "p \<in> set (mkeys provider_names)" "i \<noteq> []" "trim_space i = i"
  shows "normalize_model_id (format_provider_prefix True p @ i) = i
    \<and> extract_provider_from_prefixed_id (format_provider_prefix True p @ i) = p"
proof -
  obtain name where n: "format_provider_prefix True p = ''['' @ name @ ''] ''" "CHR '']'' \<notin> set name"
    "trim_space name = name" "mstr providers_by_name name = p"
    using prefix_parts [OF assms(1)] .
  let ?m = "CHR ''['' # name @ CHR '']'' # CHR '' '' # i"
  have m: "format_provider_prefix True p @ i = ?m" by (simp add: n(1))
  have "\<not> is_space CHR ''[''" by code_simp
  then have trim: "trim_space ?m = ?m"
    using trim_space_prepend [OF assms(2,3), of "CHR ''[''" "name @ ''] ''"] by simp
  have idx: "index_of ?m ''] '' = Some (Suc (length name))"
    using index_of_bracket [of "CHR ''['' # name" i] n(2) by simp
  have pre: "has_prefix ?m ''[''" by (simp add: has_prefix_def)
  show ?thesis
    using idx pre trim n(3,4) assms(3)
    by (simp add: m normalize_model_id_def extract_provider_from_prefixed_id_def Let_def)
qed

theorem prefix_roundtrip_witness:
  "normalize_model_id ''[Gemini CLI] gemini-2.5-pro'' = ''gemini-2.5-pro''"
proof -
  have "''gemini-cli'' \<in> set (mkeys provider_names)" "trim_space ''gemini-2.5-pro'' = ''gemini-2.5-pro''"
    "format_provider_prefix True ''gemini-cli'' = ''[Gemini CLI] ''"
    by code_simp+
  then show ?thesis using prefix_roundtrip [of "''gemini-cli''" "''gemini-2.5-pro''"] by simp
qed

text \<open>
  The number of clients that can serve a model is never negative and never more than the clients
  registered for it.
\<close>

theorem model_count_range:
  "0 \<le> get_model_count s i now
    \<and> (case find_model_registration s i of None \<Rightarrow> get_model_count s i now = 0
       | Some key \<Rightarrow> get_model_count s i now \<le> max 0 (registered s key))"
proof -
  have "n - e - int l \<le> max 0 n" if "0 \<le> e" for n e :: int and l :: nat using that by linarith
  note le = this [OF expired_nonneg]
  show ?thesis
    by (auto simp: get_model_count_def count_in_def Let_def le split: option.split)
qed

end
