(* ===== verification/Durations.thy ===== *)
theory Durations
  imports AuthTypes Float64 "HOL-Library.Monad_Syntax"
begin

text \<open>
  Reading a refresh interval from configuration (\<open>internal/provider/duration.go\<close>): numbers of
  seconds of every kind, and strings in Go's duration notation or as a decimal number of seconds.
  \<open>time.ParseDuration\<close> is translated from its documentation and source, with its \<open>uint64\<close>
  accumulator; \<open>strconv.ParseFloat\<close> is modelled on decimal notation (an infinity, a NaN or a
  hexadecimal number is taken for a syntax error).
\<close>

section \<open>time.ParseDuration\<close>

definition is_digit_or_dot :: "char \<Rightarrow> bool" where
  "is_digit_or_dot c \<longleftrightarrow> c = CHR ''.'' \<or> is_digit c"

text \<open>\<open>leadingInt\<close>, with the number read so far; \<open>None\<close> is an overflow.\<close>

fun leading_int :: "int \<Rightarrow> string \<Rightarrow> (int \<times> string) option" where
  "leading_int x [] = Some (x, [])"
| "leading_int x (c # s) =
     (if \<not> is_digit c then Some (x, c # s)
      else if 2 ^ 63 div 10 < x then None
      else let y = x * 10 + digit_val c in if 2 ^ 63 < y then None else leading_int y s)"

text \<open>\<open>leadingFraction\<close>: digits that no longer fit are dropped.\<close>

fun leading_fraction :: "bool \<Rightarrow> int \<Rightarrow> rat \<Rightarrow> string \<Rightarrow> int \<times> rat \<times> string" where
  "leading_fraction ovf x scale [] = (x, scale, [])"
| "leading_fraction ovf x scale (c # s) =
     (if \<not> is_digit c then (x, scale, c # s)
      else if ovf \<or> (2 ^ 63 - 1) div 10 < x then leading_fraction True x scale s
      else let y = x * 10 + digit_val c in
        if 2 ^ 63 < y then leading_fraction True x scale s
        else leading_fraction False y (scale * 10) s)"

definition duration_unit :: "string \<Rightarrow> int option" where
  "duration_unit u = map_of [(''ns'', nanosecond), (''us'', 1000),
     (CHR 0xC2 # CHR 0xB5 # ''s'', 1000), (CHR 0xCE # CHR 0xBC # ''s'', 1000),
     (''ms'', millisecond), (''s'', second), (''m'', minute), (''h'', hour)] u"

text \<open>One number with its unit: its length in nanoseconds and the rest of the string.\<close>

definition duration_component :: "string \<Rightarrow> (int \<times> string) option" where
  "duration_component s = do {
     (if s = [] \<or> \<not> is_digit_or_dot (hd s) then None else Some ());
     (v, s1) \<leftarrow> leading_int 0 s;
     (f, scale, s2, post) \<leftarrow>
       Some (if s1 \<noteq> [] \<and> hd s1 = CHR ''.'' then
               (let (f, scale, s2) = leading_fraction False 0 1 (tl s1)
                in (f, scale, s2, length s2 \<noteq> length (tl s1)))
             else (0, 1, s1, False));
     (if length s1 = length s \<and> \<not> post then None else Some ());
     let u = takeWhile (\<lambda>c. \<not> is_digit_or_dot c) s2;
     unit \<leftarrow> (if u = [] then None else duration_unit u);
     (if 2 ^ 63 div unit < v then None else Some ());
     let w = v * unit + (if 0 < f then float_to_int64 (fmul (ffloat f) (fdiv (of_int unit) scale)) else 0);
     (if 0 < f \<and> 2 ^ 63 < w then None else Some (w, dropWhile (\<lambda>c. \<not> is_digit_or_dot c) s2))
   }"

lemma leading_int_length: "leading_int x s = Some (y, t) \<Longrightarrow> length t \<le> length s"
  by (induction x s rule: leading_int.induct) (auto simp: Let_def split: if_splits)

lemma leading_fraction_length: "leading_fraction b x c s = (y, d, t) \<Longrightarrow> length t \<le> length s"
  by (induction b x c s rule: leading_fraction.induct) (auto simp: Let_def split: if_splits)

lemma duration_component_shrinks: "duration_component s = Some (v, t) \<Longrightarrow> length t < length s"
proof -
  have drop: "takeWhile P u \<noteq> [] \<Longrightarrow> length (dropWhile P u) < length u" for P and u :: string
    by (cases u) (auto simp: le_imp_less_Suc length_dropWhile_le split: if_splits)
  assume "duration_component s = Some (v, t)"
  then show ?thesis
    by (auto simp: duration_component_def bind_eq_Some_conv Let_def split: if_splits prod.splits
        dest!: leading_int_length leading_fraction_length drop)
qed

function duration_loop :: "int \<Rightarrow> string \<Rightarrow> int option" where
  "duration_loop d s =
     (if s = [] then Some d
      else case duration_component s of
        None \<Rightarrow> None
      | Some (v, t) \<Rightarrow>
          let e = (d + v) mod 2 ^ 64 in if 2 ^ 63 < e then None else duration_loop e t)"
  by pat_completeness auto
termination
  by (relation "measure (\<lambda>(d, s). length s)") (auto dest: duration_component_shrinks)

declare duration_loop.simps [simp del]

definition parse_duration :: "string \<Rightarrow> duration option" where
  "parse_duration raw =
     (let signed = (raw \<noteq> [] \<and> (hd raw = CHR ''-'' \<or> hd raw = CHR ''+''));
          neg = (raw \<noteq> [] \<and> hd raw = CHR ''-'');
          s = (if signed then tl raw else raw)
      in if s = ''0'' then Some 0
         else if s = [] then None
         else case duration_loop 0 s of
           None \<Rightarrow> None
         | Some d \<Rightarrow> if neg then Some (wrap64 (- d)) else if 2 ^ 63 - 1 < d then None else Some d)"

section \<open>strconv.ParseFloat on decimal notation\<close>

definition parse_exponent :: "string \<Rightarrow> int option" where
  "parse_exponent s =
     (if s = [] then Some 0
      else if hd s \<noteq> CHR ''e'' \<and> hd s \<noteq> CHR ''E'' then None
      else let t = tl s;
               ds = (if t \<noteq> [] \<and> (hd t = CHR ''+'' \<or> hd t = CHR ''-'') then tl t else t);
               n = digits_val ds
           in if ds = [] \<or> \<not> list_all is_digit ds then None
              else Some (if hd t = CHR ''-'' then - n else n))"

definition parse_decimal :: "string \<Rightarrow> rat option" where
  "parse_decimal raw =
     (let neg = (raw \<noteq> [] \<and> hd raw = CHR ''-'');
          s = (if raw \<noteq> [] \<and> (hd raw = CHR ''-'' \<or> hd raw = CHR ''+'') then tl raw else raw);
          whole = takeWhile is_digit s; s1 = dropWhile is_digit s;
          frac = (if s1 \<noteq> [] \<and> hd s1 = CHR ''.'' then takeWhile is_digit (tl s1) else []);
          s2 = (if s1 \<noteq> [] \<and> hd s1 = CHR ''.'' then dropWhile is_digit (tl s1) else s1)
      in if whole = [] \<and> frac = [] then None
         else case parse_exponent s2 of
           None \<Rightarrow> None
         | Some e \<Rightarrow>
             let x = fl (of_int (digits_val (whole @ frac)) * 10 powi (e - int (length frac)))
             in if 2 ^ 1024 \<le> x then None else Some (if neg then - x else x))"

section \<open>duration.go\<close>

definition int_seconds :: "int \<Rightarrow> duration" where
  "int_seconds n = (if n \<le> 0 then 0 else wrap64 (n * second))"

definition float_seconds :: "rat \<Rightarrow> duration" where
  "float_seconds f = (if f \<le> 0 then 0 else float_to_int64 (fmul f (of_int second)))"

definition parse_duration_string :: "string \<Rightarrow> duration" where
  "parse_duration_string raw =
     (let s = trim_space raw;
          as_seconds = (case parse_decimal s of Some f \<Rightarrow> float_seconds f | None \<Rightarrow> 0)
      in if s = [] then 0
         else case parse_duration s of
           Some d \<Rightarrow> if 0 < d then d else as_seconds
         | None \<Rightarrow> as_seconds)"

text \<open>Every integer kind is a \<open>VInt\<close>; the product wraps.\<close>

fun parse_duration_value :: "goval \<Rightarrow> duration" where
  "parse_duration_value (VInt n) = int_seconds n"
| "parse_duration_value (VFloat f) = float_seconds f"
| "parse_duration_value (VNumber i f) =
     (case i of Some n \<Rightarrow> int_seconds n
      | None \<Rightarrow> (case f of Some x \<Rightarrow> float_seconds x | None \<Rightarrow> 0))"
| "parse_duration_value (VString s) = parse_duration_string s"
| "parse_duration_value _ = 0"

section \<open>Lemmas\<close>

abbreviation read_digits :: "int \<Rightarrow> string \<Rightarrow> int" where
  "read_digits \<equiv> foldl (\<lambda>a c. 10 * a + digit_val c)"

lemma digit_val_nat: "digit_val c = int (of_char c) - 48"
  by (simp add: digit_val_def of_nat_of_char)

lemma digit_val_nonneg: "is_digit c \<Longrightarrow> 0 \<le> digit_val c \<and> digit_val c \<le> 9"
  unfolding is_digit_def digit_val_nat Let_def by linarith

lemma read_digits_ge: "0 \<le> x \<Longrightarrow> list_all is_digit s \<Longrightarrow> x \<le> read_digits x s"
proof (induction s arbitrary: x)
  case (Cons c s)
  then have "10 * x + digit_val c \<le> read_digits (10 * x + digit_val c) s"
    using digit_val_nonneg [of c] by simp
  moreover have "x \<le> 10 * x + digit_val c" using Cons.prems digit_val_nonneg [of c] by simp
  ultimately show ?case by simp
qed simp

lemma leading_int_digits:
  "0 \<le> x \<Longrightarrow> list_all is_digit s \<Longrightarrow> read_digits x s \<le> 2 ^ 63
     \<Longrightarrow> leading_int x (s @ t) = leading_int (read_digits x s) t"
proof (induction s arbitrary: x)
  case (Cons c s)
  let ?y = "10 * x + digit_val c"
  have c: "is_digit c" "0 \<le> digit_val c" using Cons.prems digit_val_nonneg [of c] by simp_all
  then have y: "0 \<le> ?y" "?y \<le> 2 ^ 63"
    using Cons.prems read_digits_ge [of ?y s] by simp_all
  then have "x \<le> 2 ^ 63 div 10" using c by simp
  with y c Cons show ?case by (simp add: mult.commute Let_def)
qed simp

lemma show_nat_digits: "list_all is_digit (show_nat n) \<and> show_nat n \<noteq> [] \<and> read_digits 0 (show_nat n) = int n"
proof (induction n rule: show_nat.induct)
  case (1 n)
  have d: "is_digit (char_of (48 + m)) \<and> digit_val (char_of (48 + m)) = int m" if "m < 10" for m :: nat
  proof -
    have "of_char (char_of (48 + m) :: char) = 48 + m" using that by simp
    then show ?thesis using that by (simp add: is_digit_def digit_val_nat)
  qed
  show ?case
  proof (cases "n < 10")
    case True
    then show ?thesis using d [OF True] by (simp add: show_nat.simps [of n])
  next
    case False
    then show ?thesis using 1 [OF False] d [of "n mod 10"]
      by (simp add: show_nat.simps [of n] zdiv_int zmod_int)
  qed
qed

definition interval_units :: "(string \<times> int) list" where
  "interval_units = [(''ns'', nanosecond), (''us'', 1000), (''ms'', millisecond), (''s'', second),
     (''m'', minute), (''h'', hour)]"

lemma interval_unit:
  assumes "(u, unit) \<in> set interval_units"
  shows "u \<noteq> []" "list_all (\<lambda>c. \<not> is_digit_or_dot c) u" "\<not> is_space (last u)"
    "duration_unit u = Some unit" "0 < unit"
proof -
  have "list_all (\<lambda>(u, unit). u \<noteq> [] \<and> list_all (\<lambda>c. \<not> is_digit_or_dot c) u \<and> \<not> is_space (last u)
      \<and> duration_unit u = Some unit \<and> 0 < unit) interval_units"
    by code_simp
  then show "u \<noteq> []" "list_all (\<lambda>c. \<not> is_digit_or_dot c) u" "\<not> is_space (last u)"
    "duration_unit u = Some unit" "0 < unit"
    using assms by (auto simp: list_all_iff)
qed

lemma digit_not_space: "is_digit c \<Longrightarrow> \<not> is_space c"
  by (auto simp: is_digit_def is_space_def Let_def)

lemma digit_not_sign: "is_digit c \<Longrightarrow> c \<noteq> CHR ''-'' \<and> c \<noteq> CHR ''+''"
  by (auto simp: is_digit_def)

lemma hd_show_nat: "is_digit (hd (show_nat n))"
  using show_nat_digits [of n] by (cases "show_nat n") simp_all

lemma show_nat_eq_zero: "show_nat n = ''0'' \<longleftrightarrow> n = 0"
proof
  assume "show_nat n = ''0''"
  then show "n = 0" using show_nat_digits [of n] by (simp add: digit_val_def)
next
  have "char_of (48 :: nat) = CHR ''0''" by code_simp
  then show "n = 0 \<Longrightarrow> show_nat n = ''0''" by (simp add: show_nat.simps [of 0])
qed

lemma take_drop_all:
  "list_all P s \<Longrightarrow> takeWhile P s = s" "list_all P s \<Longrightarrow> dropWhile P s = []"
  by (simp_all add: list_all_iff takeWhile_eq_all_conv dropWhile_eq_Nil_conv)

text \<open>A number of at most 19 digits and its unit, read as one component.\<close>

lemma component_of_digits:
  assumes u: "(u, unit) \<in> set interval_units" and b: "int n * unit < 2 ^ 63"
  shows "duration_component (show_nat n @ u) = Some (int n * unit, [])"
proof -
  note d = show_nat_digits [of n] and iu = interval_unit [OF u]
  have "int n * 1 \<le> int n * unit" using iu(5) by (intro mult_left_mono) simp_all
  then have "int n \<le> 2 ^ 63" using b by simp
  then have "leading_int 0 (show_nat n @ u) = leading_int (int n) u"
    using leading_int_digits [of 0 "show_nat n" u] d by simp
  moreover have hu: "\<not> is_digit (hd u)" "hd u \<noteq> CHR ''.''"
    using iu(1,2) by (cases u; auto simp: is_digit_or_dot_def)+
  ultimately have l: "leading_int 0 (show_nat n @ u) = Some (int n, u)"
    using iu(1) by (cases u) simp_all
  have "int n \<le> 2 ^ 63 div unit" using b iu(5) zdiv_mono1 [of "int n * unit" "2 ^ 63" unit] by simp
  then show ?thesis
    using l hu iu d hd_show_nat [of n]
    by (simp add: duration_component_def take_drop_all is_digit_or_dot_def [of "hd _"])
qed

section \<open>Properties\<close>

text \<open>
  A refresh interval written as a number and one of Go's units is read as that many units, and a
  bare number as seconds.
\<close>

theorem interval_notation:
  assumes "0 < n"
  shows "(\<forall>(u, unit) \<in> set interval_units. int n * unit < 2 ^ 63
        \<longrightarrow> parse_duration_string (show_nat n @ u) = int n * unit)
    \<and> (n \<le> 9007199 \<longrightarrow> parse_duration_string (show_nat n) = int n * second)"
proof (intro conjI ballI impI)
  note d = show_nat_digits [of n]
  have hd: "hd (show_nat n @ u) = hd (show_nat n)" for u using d by simp
  have nosign: "hd (show_nat n @ u) \<noteq> CHR ''-''" "hd (show_nat n @ u) \<noteq> CHR ''+''" for u
    using digit_not_sign [OF hd_show_nat] by (simp_all add: hd)
  have nospace: "\<not> is_space (hd (show_nat n @ u))" for u
    using digit_not_space [OF hd_show_nat] by (simp add: hd)
  show "case e of (u, unit) \<Rightarrow> int n * unit < 2 ^ 63
      \<longrightarrow> parse_duration_string (show_nat n @ u) = int n * unit" if "e \<in> set interval_units" for e
  proof (cases e, clarify)
    fix u unit assume e: "e = (u, unit)" and b: "int n * unit < 2 ^ 63"
    with that have u: "(u, unit) \<in> set interval_units" by simp
    note iu = interval_unit [OF u]
    have tr: "trim_space (show_nat n @ u) = show_nat n @ u"
      using nospace [of u] iu(1,3) d by (intro trim_space_id) simp_all
    have ne: "show_nat n @ u \<noteq> ''0''" using iu(1) d by (cases "show_nat n"; cases u) auto
    have "duration_loop 0 (show_nat n @ u) = Some (int n * unit)"
      using component_of_digits [OF u b] b iu(5) d by (subst duration_loop.simps) (simp add: duration_loop.simps)
    then have "parse_duration (show_nat n @ u) = Some (int n * unit)"
      using nosign [of u] ne b d by (simp add: parse_duration_def)
    then show "parse_duration_string (show_nat n @ u) = int n * unit"
      using tr assms iu(5) d by (simp add: parse_duration_string_def)
  qed
  assume n: "n \<le> 9007199"
  have l: "last (show_nat n) \<in> set (show_nat n)" using d by simp
  then have "is_digit (last (show_nat n))" using d by (simp add: list_all_iff)
  then have tr: "trim_space (show_nat n) = show_nat n"
    using nospace [of "[]"] d digit_not_space by (intro trim_space_id) simp_all
  have "leading_int 0 (show_nat n) = Some (int n, [])"
    using leading_int_digits [of 0 "show_nat n" "[]"] d n by simp
  then have "duration_component (show_nat n) = None" by (simp add: duration_component_def)
  then have "parse_duration (show_nat n) = None"
    using nosign [of "[]"] d assms by (simp add: parse_duration_def show_nat_eq_zero duration_loop.simps)
  moreover have "parse_decimal (show_nat n) = Some (of_int (int n))"
  proof -
    have "int n \<le> 9007199" using n by linarith
    then have i: "int n \<le> 2 ^ 53" by simp
    then have "(of_int (int n) :: rat) \<le> of_int (2 ^ 53)" by (simp only: of_int_le_iff)
    also have "\<dots> < 2 ^ 1024" by simp
    finally have "\<not> 2 ^ 1024 \<le> (of_int (int n) :: rat)" by simp
    moreover have "fl (of_int (int n)) = of_int (int n)" using i by (intro fl_of_int) simp
    ultimately show ?thesis
      using nosign [of "[]"] d
      by (simp add: parse_decimal_def parse_exponent_def take_drop_all digits_val_def Let_def)
  qed
  moreover have "float_seconds (of_int (int n)) = int n * second"
  proof -
    have m: "(of_int (int n) * of_int second :: rat) = of_int (int n * second)" by (simp only: of_int_mult)
    have "fl (of_int (int n * second)) = of_int (int n * second)"
      using n by (intro fl_of_int) (simp add: second_def)
    moreover have "float_to_int64 (of_int k) = k" if "0 \<le> k" "k < 2 ^ 63" for k
      using that by (simp add: float_to_int64_def in64_def)
    moreover have "0 \<le> int n * second" "int n * second < 2 ^ 63" using n by (simp_all add: second_def)
    ultimately have "float_to_int64 (fl (of_int (int n * second))) = int n * second" by metis
    then show ?thesis
      using assms unfolding float_seconds_def fmul_def m by simp
  qed
  ultimately show "parse_duration_string (show_nat n) = int n * second"
    using tr d by (simp add: parse_duration_string_def)
qed

theorem interval_notation_witness:
  "parse_duration_string ''90m'' = 90 * minute \<and> parse_duration_string ''3600'' = 3600 * second"
proof -
  have "(''m'', minute) \<in> set interval_units" "show_nat 90 = ''90''" "show_nat 3600 = ''3600''"
    "90 * minute < 2 ^ 63"
    by code_simp+
  then show ?thesis using interval_notation [of 90] interval_notation [of 3600] by fastforce
qed

end
