(* ===== verification/RefreshPolicy.thy ===== *)
theory RefreshPolicy
  imports Durations
begin

text \<open>
  When a credential is refreshed (\<open>internal/provider/refresh.go\<close>): the lead before expiry, the
  preferred interval and the last refresh read from its data, the decision, the time the loop
  sleeps for. \<open>leads\<close> is the table of \<open>RegisterRefreshLeadProvider\<close>; \<open>evaluator\<close> is the
  \<open>ShouldRefresh\<close> method of the runtime value, when it has one (none of the modelled packages
  defines one, nor a \<open>RefreshLead\<close> method).
\<close>

definition refresh_check_interval :: duration where "refresh_check_interval = 2 * minute"
definition refresh_pending_backoff :: duration where "refresh_pending_backoff = minute"
definition refresh_failure_backoff :: duration where "refresh_failure_backoff = 5 * minute"
definition default_refresh_lead :: duration where "default_refresh_lead = 10 * minute"

definition calculate_refresh_lead :: "gotime \<Rightarrow> gotime \<Rightarrow> duration" where
  "calculate_refresh_lead last_refresh expiry =
     (if last_refresh = 0 \<or> \<not> last_refresh < expiry then default_refresh_lead
      else let lead = float_to_int64 (fmul (ffloat (time_sub expiry last_refresh)) (1 / 4))
           in if default_refresh_lead < lead then lead else default_refresh_lead)"

section \<open>Reading intervals and times\<close>

text \<open>The first of the keys whose value is a positive duration.\<close>

definition duration_from_metadata :: "metadata \<Rightarrow> string list \<Rightarrow> duration" where
  "duration_from_metadata meta keys =
     (case first_some (\<lambda>k. case mget meta k of None \<Rightarrow> None
             | Some v \<Rightarrow> if 0 < parse_duration_value v then Some (parse_duration_value v) else None) keys of
        None \<Rightarrow> 0 | Some d \<Rightarrow> d)"

definition duration_from_attributes :: "(string, string) gomap \<Rightarrow> string list \<Rightarrow> duration" where
  "duration_from_attributes attrs keys =
     (case first_some (\<lambda>k. case mget attrs k of None \<Rightarrow> None
             | Some v \<Rightarrow> if 0 < parse_duration_string v then Some (parse_duration_string v) else None) keys of
        None \<Rightarrow> 0 | Some d \<Rightarrow> d)"

definition interval_keys :: "string list" where
  "interval_keys = [''refresh_interval_seconds'', ''refreshIntervalSeconds'', ''refresh_interval'', ''refreshInterval'']"

definition auth_preferred_interval :: "auth \<Rightarrow> duration" where
  "auth_preferred_interval a =
     (let d = duration_from_metadata (meta_map (a_metadata a)) interval_keys in
      if 0 < d then d
      else let d' = duration_from_attributes (a_attributes a) interval_keys in
        if 0 < d' then d' else 0)"

definition last_refresh_keys :: "string list" where
  "last_refresh_keys = [''last_refresh'', ''lastRefresh'', ''last_refreshed_at'', ''lastRefreshedAt'']"

definition lookup_metadata_time :: "metadata \<Rightarrow> string list \<Rightarrow> gotime option" where
  "lookup_metadata_time meta keys =
     first_some (\<lambda>k. case mget meta k of None \<Rightarrow> None | Some v \<Rightarrow> parse_time_value v) keys"

definition auth_last_refresh_timestamp :: "auth \<Rightarrow> gotime option" where
  "auth_last_refresh_timestamp a =
     (case lookup_metadata_time (meta_map (a_metadata a)) last_refresh_keys of
        Some ts \<Rightarrow> Some ts
      | None \<Rightarrow> first_some (\<lambda>k. let v = trim_space (attr (a_attributes a) k) in
                  if v \<noteq> [] then parse_time_value (VString v) else None) last_refresh_keys)"

definition last_refresh_of :: "auth \<Rightarrow> gotime" where
  "last_refresh_of a =
     (if a_last_refreshed_at a = 0
      then (case auth_last_refresh_timestamp a of Some ts \<Rightarrow> ts | None \<Rightarrow> 0)
      else a_last_refreshed_at a)"

definition expiry_of :: "auth \<Rightarrow> gotime" where
  "expiry_of a = (case expiration_time a of None \<Rightarrow> 0 | Some t \<Rightarrow> t)"

definition refresh_lead :: "refresh_leads \<Rightarrow> auth \<Rightarrow> duration" where
  "refresh_lead leads a =
     (case provider_refresh_lead leads (to_lower (a_provider a)) None of
        Some d \<Rightarrow> d | None \<Rightarrow> calculate_refresh_lead (last_refresh_of a) (expiry_of a))"

section \<open>Decisions\<close>

definition get_next_refresh_time :: "refresh_leads \<Rightarrow> auth \<Rightarrow> gotime \<Rightarrow> gotime" where
  "get_next_refresh_time leads a now =
     (if a_disabled a then 0
      else if a_next_refresh_after a \<noteq> 0 \<and> now < a_next_refresh_after a then a_next_refresh_after a
      else if expiry_of a = 0 then 0
      else let lead = refresh_lead leads a in
        if lead \<le> 0 then 0
        else if expiry_of a - lead < now then now else expiry_of a - lead)"

text \<open>\<open>clock\<close> is the reading of the clock in \<open>time.Until\<close>, at or after \<open>now\<close>.\<close>

definition should_refresh ::
    "refresh_leads \<Rightarrow> (gotime \<Rightarrow> auth \<Rightarrow> bool) option \<Rightarrow> auth \<Rightarrow> gotime \<Rightarrow> gotime \<Rightarrow> bool" where
  "should_refresh leads evaluator a now clock =
     (if a_disabled a then False
      else if a_next_refresh_after a \<noteq> 0 \<and> now < a_next_refresh_after a then False
      else case evaluator of
        Some f \<Rightarrow> f now a
      | None \<Rightarrow>
          let last_refresh = last_refresh_of a; expiry = expiry_of a;
              interval = auth_preferred_interval a
          in if 0 < interval then
               (if expiry \<noteq> 0 \<and> (\<not> now < expiry \<or> time_sub expiry now \<le> interval) then True
                else if last_refresh = 0 then True
                else interval \<le> time_sub now last_refresh)
             else let lead = refresh_lead leads a in
               if lead \<le> 0 then (if expiry \<noteq> 0 then expiry < now else False)
               else if expiry \<noteq> 0 then time_sub expiry clock \<le> lead
               else if last_refresh \<noteq> 0 then lead \<le> time_sub now last_refresh
               else True)"

text \<open>How long \<open>StartAutoRefresh\<close>'s loop sleeps after a round.\<close>

definition loop_interval :: "duration \<Rightarrow> duration" where
  "loop_interval interval = (if interval \<le> 0 then refresh_check_interval else interval)"

definition sleep_duration :: "duration \<Rightarrow> gotime \<Rightarrow> gotime \<Rightarrow> duration" where
  "sleep_duration interval next_refresh now =
     (let until = time_sub next_refresh now;
          d = (if next_refresh \<noteq> 0 \<and> 0 < until \<and> until < interval then until else interval)
      in d + 5 * second)"

section \<open>Lemmas\<close>

lemma quarter_lead_bounds:
  assumes "0 \<le> life" "life < 2 ^ 63"
  shows "0 \<le> float_to_int64 (fmul (ffloat life) (1 / 4)) \<and> float_to_int64 (fmul (ffloat life) (1 / 4)) \<le> 2 ^ 61"
proof -
  have p: "fl (2 ^ n) = 2 ^ n" for n using fl_exact [of 1 "int n"] by (simp add: pow2_nat)
  have "fl (of_int life) \<le> fl (2 ^ 63)"
    using assms(2) by (intro fl_mono) (simp add: less_imp_le of_int_le_iff [symmetric, where 'a = rat, of life "2 ^ 63"])
  then have "fl (of_int life) * (1 / 4) \<le> 2 ^ 61" using p [of 63] by simp
  then have "fl (fl (of_int life) * (1 / 4)) \<le> 2 ^ 61" using fl_mono [of _ "2 ^ 61"] p [of 61] by metis
  moreover have "0 \<le> fl (fl (of_int life) * (1 / 4))" using assms(1) by (intro fl_nonneg) (simp add: fl_nonneg)
  ultimately have "0 \<le> \<lfloor>fl (fl (of_int life) * (1 / 4))\<rfloor> \<and> \<lfloor>fl (fl (of_int life) * (1 / 4))\<rfloor> \<le> 2 ^ 61"
    by (simp add: floor_le_iff)
  then show ?thesis
    using \<open>0 \<le> fl (fl (of_int life) * (1 / 4))\<close> by (simp add: fmul_def ffloat_def float_to_int64_def in64_def Let_def)
qed

lemma quarter_lead_exact:
  assumes "0 < life" "life \<le> 2 ^ 53"
  shows "float_to_int64 (fmul (ffloat life) (1 / 4)) = life div 4"
proof -
  have q: "pow2 (- 2) = 1 / 4" by (simp add: pow2_def)
  have "fl (of_int life * (1 / 4)) = of_int life * (1 / 4)" using fl_exact [OF assms, of "- 2"] unfolding q .
  moreover have "fl (of_int life) = of_int life" using assms by (intro fl_of_int) simp
  ultimately have f: "fmul (ffloat life) (1 / 4) = of_int life / 4" by (simp add: fmul_def ffloat_def)
  have "\<lfloor>of_int life / (4 :: rat)\<rfloor> = life div 4" using floor_divide_of_int_eq [of life 4] by simp
  moreover have "0 \<le> life div 4" "life div 4 \<le> 2 ^ 53" using assms by linarith+
  ultimately show ?thesis using assms unfolding float_to_int64_def f by (simp add: in64_def Let_def)
qed

lemma refresh_lead_range:
  "default_refresh_lead \<le> calculate_refresh_lead l e \<and> calculate_refresh_lead l e \<le> 2 ^ 61
    \<and> (l \<noteq> 0 \<and> l < e \<and> e - l \<le> 2 ^ 53 \<longrightarrow>
         calculate_refresh_lead l e = max default_refresh_lead ((e - l) div 4))"
proof -
  have "0 \<le> time_sub e l \<and> time_sub e l < 2 ^ 63" if "l < e" using that by (simp add: time_sub_def)
  then have b: "float_to_int64 (fmul (ffloat (time_sub e l)) (1 / 4)) \<le> 2 ^ 61" if "l < e"
    using quarter_lead_bounds [of "time_sub e l"] that by blast
  have "float_to_int64 (fmul (ffloat (time_sub e l)) (1 / 4)) = (e - l) div 4" if "l < e" "e - l \<le> 2 ^ 53"
    using quarter_lead_exact [of "e - l"] that by (simp add: time_sub_def)
  then show ?thesis
    using b by (auto simp: calculate_refresh_lead_def Let_def default_refresh_lead_def minute_def)
qed

lemma refresh_lead_pos: "0 < refresh_lead leads a"
proof -
  have "0 < default_refresh_lead" by (simp add: default_refresh_lead_def minute_def)
  then have "0 < calculate_refresh_lead l e" for l e using refresh_lead_range [of l e] by linarith
  then show ?thesis
    by (auto simp: refresh_lead_def provider_refresh_lead_def positive_lead_def split: option.splits if_splits)
qed

section \<open>Properties\<close>

text \<open>
  A token is refreshed with a quarter of its life left, but at least ten minutes before it expires
  (lives up to 104 days, where the floating-point product is exact); the lead never overflows.
\<close>

theorem refresh_lead_spec:
  "default_refresh_lead \<le> calculate_refresh_lead l e \<and> calculate_refresh_lead l e \<le> 2 ^ 61
    \<and> (l \<noteq> 0 \<and> l < e \<and> e - l \<le> 2 ^ 53 \<longrightarrow>
         calculate_refresh_lead l e = max default_refresh_lead ((e - l) div 4))"
  by (rule refresh_lead_range)

theorem refresh_lead_spec_witness:
  "calculate_refresh_lead (time_unix 0) (time_unix (8 * hour)) = 2 * hour"
proof -
  have "time_unix 0 \<noteq> 0 \<and> time_unix 0 < time_unix (8 * hour) \<and> time_unix (8 * hour) - time_unix 0 \<le> 2 ^ 53"
    "max default_refresh_lead ((time_unix (8 * hour) - time_unix 0) div 4) = 2 * hour"
    by code_simp+
  then show ?thesis using refresh_lead_spec [of "time_unix 0" "time_unix (8 * hour)"] by simp
qed

text \<open>
  For a token with an expiry and no interval of its own, the time the loop waits for is the time
  at which the decision turns true: a refresh is due exactly when the next refresh time is now,
  and otherwise that time is still to come and before the expiry.
\<close>

theorem refresh_time_agrees:
  assumes "\<not> a_disabled a" "a_next_refresh_after a \<le> now" "auth_preferred_interval a = 0"
    and "expiry_of a \<noteq> 0" "refresh_lead leads a < 2 ^ 63 - 1"
  shows "if should_refresh leads None a now now then get_next_refresh_time leads a now = now
    else now < get_next_refresh_time leads a now \<and> get_next_refresh_time leads a now < expiry_of a"
proof -
  let ?lead = "refresh_lead leads a"
  have pos: "0 < ?lead"
    using refresh_lead_pos .
  have "time_sub (expiry_of a) now \<le> ?lead \<longleftrightarrow> expiry_of a - now \<le> ?lead"
    using pos assms(5) by (auto simp: time_sub_def)
  then show ?thesis
    using assms(1-4) pos by (auto simp: should_refresh_def get_next_refresh_time_def Let_def)
qed

definition sample_token :: auth where
  "sample_token = auth_zero\<lparr>a_provider := ''claude'', a_last_refreshed_at := time_unix (1700000000 * second),
     a_metadata := Some [(''expired'', VInt 1700003600)]\<rparr>"

theorem refresh_time_agrees_witness:
  "should_refresh [] None sample_token (time_unix (1700002700 * second)) (time_unix (1700002700 * second))"
proof -
  let ?t = "time_unix (1700002700 * second)"
  have "\<not> a_disabled sample_token" "a_next_refresh_after sample_token \<le> ?t"
    "auth_preferred_interval sample_token = 0" "expiry_of sample_token \<noteq> 0"
    "refresh_lead [] sample_token < 2 ^ 63 - 1" "get_next_refresh_time [] sample_token ?t = ?t"
    by code_simp+
  then show ?thesis using refresh_time_agrees [of sample_token ?t "[]"] by (auto split: if_splits)
qed

end
