(* ===== verification/Manager.thy ===== *)
theory Manager
  imports AuthRegistry ModelRegistry ProviderStats RetryBudget RefreshPolicy
begin

text \<open>
  The manager of credentials (\<open>internal/provider/manager.go\<close>): it owns a map of credentials of
  its own besides the registry of entries, the executors, the retry settings and the budget, and
  routes results. \<open>NewManager\<close> always makes a registry, so \<open>MarkResult\<close> takes the registry's path;
  the older path on the manager's own map is modelled too. The quota manager, when it is the
  selector, is the registry's (the two share a pointer). Executors are external and named by
  numbers; what they answer is an argument. Calls to the hook and the store are events of the
  registry's log.
\<close>

record manager =
  m_executors :: "(string, nat) gomap"
  m_auths :: "(string, auth) gomap"
  m_index_counter :: int
  m_has_store :: bool
  m_stats :: provider_stats
  m_request_retry :: int
  m_max_retry_interval :: duration
  m_budget :: retry_budget
  m_registry :: auth_registry
  m_models :: registry_state

definition new_manager :: "bool \<Rightarrow> quota_manager option \<Rightarrow> int \<Rightarrow> registry_state \<Rightarrow> manager" where
  "new_manager has_store qm ctr models =
     \<lparr>m_executors = [], m_auths = [], m_index_counter = ctr, m_has_store = has_store,
      m_stats = new_provider_stats, m_request_retry = 0, m_max_retry_interval = 0,
      m_budget = new_retry_budget 100, m_registry = new_auth_registry has_store qm, m_models = models\<rparr>"

definition m_emit :: "event \<Rightarrow> manager \<Rightarrow> manager" where
  "m_emit ev m = m\<lparr>m_registry := emit ev (m_registry m)\<rparr>"

section \<open>Configuration\<close>

text \<open>\<open>int32(retry)\<close> keeps the low 32 bits.\<close>

definition set_retry_config :: "int \<Rightarrow> duration \<Rightarrow> manager \<Rightarrow> manager" where
  "set_retry_config retry interval m =
     (let r = (if retry < 0 then 0 else retry); w = r mod 2 ^ 32 in
      m\<lparr>m_request_retry := (if w < 2 ^ 31 then w else w - 2 ^ 32),
        m_max_retry_interval := (if interval < 0 then 0 else interval)\<rparr>)"

definition set_store :: "bool \<Rightarrow> manager \<Rightarrow> manager" where
  "set_store has_store m = m\<lparr>m_has_store := has_store\<rparr>"

definition register_executor :: "string \<Rightarrow> nat option \<Rightarrow> manager \<Rightarrow> manager" where
  "register_executor identifier executor m =
     (case executor of None \<Rightarrow> m | Some x \<Rightarrow> m\<lparr>m_executors := mput identifier x (m_executors m)\<rparr>)"

definition unregister_executor :: "string \<Rightarrow> manager \<Rightarrow> manager" where
  "unregister_executor provider m =
     (let p = norm_key provider in
      if p = [] then m else m\<lparr>m_executors := mdel p (m_executors m)\<rparr>)"

definition executor_for :: "manager \<Rightarrow> string \<Rightarrow> nat option" where
  "executor_for m provider = mget (m_executors m) provider"

section \<open>Credentials\<close>

definition persist :: "auth \<Rightarrow> manager \<Rightarrow> manager" where
  "persist a m =
     (if \<not> m_has_store m then m
      else if norm_key (attr (a_attributes a) ''runtime_only'') = ''true'' then m
      else if a_metadata a = None then m
      else m_emit (StoreSave a) m)"

definition keep_auth :: "auth \<Rightarrow> manager \<Rightarrow> manager" where
  "keep_auth a m = m\<lparr>m_auths := mput (a_id a) (auth_clone a) (m_auths m)\<rparr>"

definition mgr_register :: "string \<Rightarrow> auth \<Rightarrow> manager \<Rightarrow> gotime \<Rightarrow> auth \<times> manager" where
  "mgr_register uuid a m now =
     (let (idx, a1, ctr) = ensure_index a (m_index_counter m);
          a2 = (if a_id a1 = [] then a1\<lparr>a_id := uuid\<rparr> else a1);
          m1 = keep_auth a2 (m\<lparr>m_index_counter := ctr\<rparr>);
          (res, a3, r) = reg_register uuid a2 (m_registry m1) now;
          m2 = persist a3 (m1\<lparr>m_registry := r\<rparr>)
      in (auth_clone a3, m_emit (OnAuthRegistered (auth_clone a3)) m2))"

definition mgr_update :: "auth \<Rightarrow> manager \<Rightarrow> gotime \<Rightarrow> auth option \<times> manager" where
  "mgr_update a m now =
     (if a_id a = [] then (None, m)
      else let a1 = (case mget (m_auths m) (a_id a) of
                       Some old \<Rightarrow> if \<not> a_index_assigned a \<and> a_index a = 0
                                   then a\<lparr>a_index := a_index old, a_index_assigned := a_index_assigned old\<rparr>
                                   else a
                     | None \<Rightarrow> a);
               (idx, a2, ctr) = ensure_index a1 (m_index_counter m);
               m1 = keep_auth a2 (m\<lparr>m_index_counter := ctr\<rparr>);
               (res, a3, r) = reg_update a2 (m_registry m1) now;
               m2 = persist a3 (m1\<lparr>m_registry := r\<rparr>)
           in (Some (auth_clone a3), m_emit (OnAuthUpdated (auth_clone a3)) m2))"

text \<open>
  \<open>Load\<close>: \<open>items\<close> is what \<open>List\<close> answers the manager, \<open>again\<close> what it answers the registry right
  after. The registry numbers entries itself.
\<close>

definition load_auth :: "auth option \<Rightarrow> manager \<Rightarrow> manager" where
  "load_auth oa m =
     (case oa of
        None \<Rightarrow> m
      | Some a \<Rightarrow>
          if a_id a = [] then m
          else let (idx, a1, ctr) = ensure_index a (m_index_counter m)
               in keep_auth a1 (m\<lparr>m_index_counter := ctr\<rparr>))"

definition mgr_load ::
    "(string + auth option list) \<Rightarrow> (string + auth option list) \<Rightarrow> manager \<Rightarrow> gotime \<Rightarrow> string option \<times> manager" where
  "mgr_load items again m now =
     (if \<not> m_has_store m then (None, m)
      else case items of
        Inl err \<Rightarrow> (Some err, m)
      | Inr as \<Rightarrow>
          let m1 = fold load_auth as (m\<lparr>m_auths := []\<rparr>)
          in (None, m1\<lparr>m_registry := reg_load again (m_registry m1) now\<rparr>))"

definition mgr_list :: "manager \<Rightarrow> auth list" where
  "mgr_list m = List.map (\<lambda>(_, a). auth_clone a) (m_auths m)"

definition mgr_get_by_id :: "manager \<Rightarrow> string \<Rightarrow> auth option" where
  "mgr_get_by_id m i = (if i = [] then None else map_option auth_clone (mget (m_auths m) i))"

definition get_auth_entry :: "manager \<Rightarrow> string \<Rightarrow> auth_entry option" where
  "get_auth_entry m i = get_entry (m_registry m) i"

section \<open>Results\<close>

definition is_quota_result :: "exec_result \<Rightarrow> bool" where
  "is_quota_result x \<longleftrightarrow> (case x_error x of None \<Rightarrow> False | Some e \<Rightarrow> err_http_status e = 429)"

definition note_quota_hit :: "exec_result \<Rightarrow> manager \<Rightarrow> gotime \<Rightarrow> manager" where
  "note_quota_hit x m now =
     (if is_quota_result x
      then m\<lparr>m_registry := (m_registry m)\<lparr>r_quota_manager := map_option
             (\<lambda>qm. record_quota_hit (x_auth_id x) (x_provider x) (x_retry_after x) qm now)
             (r_quota_manager (m_registry m))\<rparr>\<rparr>
      else m)"

definition mgr_mark_result :: "bool \<Rightarrow> exec_result \<Rightarrow> manager \<Rightarrow> gotime \<Rightarrow> manager" where
  "mgr_mark_result no_cooldown x m now =
     (if x_auth_id x = [] then m
      else note_quota_hit x (m\<lparr>m_registry := reg_mark_result no_cooldown x (m_registry m) now\<rparr>) now)"

text \<open>
  The older path, on the manager's own credential and the model registry. A success returns the
  models of the group that were freed, a failure the models that were blocked along.
\<close>

definition sync_success :: "resolvers \<Rightarrow> exec_result \<Rightarrow> auth \<Rightarrow> gotime \<Rightarrow> string list \<times> auth" where
  "sync_success rs x a now =
     (if x_model x = [] then ([], clear_auth_state_on_success a now)
      else let (st, a1) = ensure_model_state a (x_model x);
               a2 = (case st of None \<Rightarrow> a1 | Some st \<Rightarrow> set_model_state (x_model x) (reset_model_state st now) a1);
               (cleared, a3) = clear_quota_group_on_success rs a2 (x_model x) now;
               a4 = update_aggregated_availability a3 now;
               a5 = (if has_model_error a4 now then a4
                     else a4\<lparr>a_last_error := None, a_status_message := [], a_status := StatusActive\<rparr>)
           in (cleared, a5\<lparr>a_updated_at := now\<rparr>))"

definition result_message :: "exec_result \<Rightarrow> string" where
  "result_message x = (case x_error x of None \<Rightarrow> [] | Some e \<Rightarrow> err_message e)"

definition is_client_side :: "exec_result \<Rightarrow> bool" where
  "is_client_side x \<longleftrightarrow>
     (let cat = categorize_error (status_code_from_result (x_error x)) (result_message x)
      in cat = CategoryUserError \<or> cat = CategoryClientCanceled)"

definition sync_failed_state :: "exec_result \<Rightarrow> model_state \<Rightarrow> gotime \<Rightarrow> model_state" where
  "sync_failed_state x st now =
     (let s = (if is_client_side x then st else st\<lparr>ms_unavailable := True, ms_status := StatusError\<rparr>);
          s1 = s\<lparr>ms_updated_at := now\<rparr>
      in if x_error x \<noteq> None \<and> \<not> is_client_side x
         then s1\<lparr>ms_last_error := clone_error (x_error x), ms_status_message := result_message x\<rparr>
         else s1)"

text \<open>The reason a model is suspended for, when it is.\<close>

definition suspend_reason :: "int \<Rightarrow> string option" where
  "suspend_reason code =
     (if code = 401 then Some ''unauthorized''
      else if code \<in> {402, 403} then Some ''payment_required''
      else if code = 404 then Some ''not_found''
      else if code = 429 then Some ''quota''
      else None)"

definition sync_failure ::
    "resolvers \<Rightarrow> bool \<Rightarrow> exec_result \<Rightarrow> auth \<Rightarrow> gotime \<Rightarrow> string list \<times> auth" where
  "sync_failure rs no_cooldown x a now =
     (if x_model x = [] then
        ([], apply_auth_failure_state no_cooldown a (x_error x) (x_retry_after x) now)
      else let (st, a1) = ensure_model_state a (x_model x);
               code = status_code_from_result (x_error x);
               st1 = sync_failed_state x (case st of None \<Rightarrow> model_state_zero | Some st \<Rightarrow> st) now;
               a2 = (if x_error x \<noteq> None \<and> \<not> is_client_side x
                     then a1\<lparr>a_last_error := clone_error (x_error x), a_status_message := result_message x\<rparr>
                     else a1);
               (affected, a3) =
                 (if code = 429 then
                    (let (next, lvl) = quota_next no_cooldown (x_retry_after x) (q_backoff_level (ms_quota st1)) now;
                         q = \<lparr>q_exceeded = True, q_reason = ''quota'', q_next_recover_at = next, q_backoff_level = lvl\<rparr>
                     in propagate_quota_to_group rs
                          (set_model_state (x_model x) (st1\<lparr>ms_next_retry_after := next, ms_quota := q\<rparr>) a2)
                          (x_model x) q next now)
                  else ([], set_model_state (x_model x)
                              (st1\<lparr>ms_next_retry_after := now + failure_pause code\<rparr>) a2));
               a4 = (if is_client_side x then a3 else a3\<lparr>a_status := StatusError\<rparr>)
           in (affected, update_aggregated_availability (a4\<lparr>a_updated_at := now\<rparr>) now))"

definition sync_registry :: "exec_result \<Rightarrow> string list \<Rightarrow> bool \<Rightarrow> registry_state \<Rightarrow> gotime \<Rightarrow> registry_state" where
  "sync_registry x touched known s now =
     (let i = x_auth_id x; model = x_model x; code = status_code_from_result (x_error x) in
      if \<not> known \<or> model = [] then s
      else if x_success x then
        (let s1 = fold (\<lambda>c s. resume_client_model i c now (clear_model_quota_exceeded i c s)) touched s
         in resume_client_model i model now (clear_model_quota_exceeded i model s1))
      else
        (let s1 = fold (\<lambda>c s. suspend_client_model i c ''quota_group'' now (set_model_quota_exceeded i c now s)) touched s;
             s2 = (if code = 429 then set_model_quota_exceeded i model now s1 else s1)
         in case suspend_reason code of
              None \<Rightarrow> s2 | Some reason \<Rightarrow> suspend_client_model i model reason now s2))"

definition mark_result_sync ::
    "resolvers \<Rightarrow> bool \<Rightarrow> exec_result \<Rightarrow> manager \<Rightarrow> gotime \<Rightarrow> manager" where
  "mark_result_sync rs no_cooldown x m now =
     (if x_auth_id x = [] then m
      else let (touched, m1) =
                 (case mget (m_auths m) (x_auth_id x) of
                    None \<Rightarrow> ([], m)
                  | Some a \<Rightarrow>
                      let (touched, a') = (if x_success x then sync_success rs x a now
                                           else sync_failure rs no_cooldown x a now)
                      in (touched, persist a' (m\<lparr>m_auths := mput (x_auth_id x) a' (m_auths m)\<rparr>)));
               m2 = m1\<lparr>m_models := sync_registry x touched (mget (m_auths m) (x_auth_id x) \<noteq> None)
                                     (m_models m1) now\<rparr>
           in m_emit (OnResult x) (note_quota_hit x m2 now))"

section \<open>Choosing a credential\<close>

definition trim_model :: "string \<Rightarrow> string" where
  "trim_model model =
     (if model \<noteq> [] \<and> (hd model = CHR '' '' \<or> last model = CHR '' '') then trim_space model else model)"

definition serves :: "manager \<Rightarrow> string \<Rightarrow> string \<Rightarrow> bool" where
  "serves m i k \<longleftrightarrow> k = [] \<or> client_supports_model (m_models m) i k"

definition not_found :: "string \<Rightarrow> pick_error" where
  "not_found msg = PickError (mk_error ''auth_not_found'' msg)"

text \<open>
  \<open>pickNext\<close>, used only without a registry. \<open>selector\<close> answers an error or a credential that may
  be nil.
\<close>

definition pick_candidates :: "manager \<Rightarrow> string \<Rightarrow> string \<Rightarrow> string list \<Rightarrow> auth list" where
  "pick_candidates m provider model tried =
     filter (\<lambda>a. a_provider a = provider \<and> \<not> a_disabled a \<and> a_id a \<notin> set tried
               \<and> serves m (a_id a) (trim_model model)) (List.map snd (m_auths m))"

definition pick_next ::
    "(string \<Rightarrow> string \<Rightarrow> auth list \<Rightarrow> pick_error + auth option) \<Rightarrow> string \<Rightarrow> string \<Rightarrow> string list \<Rightarrow> manager
       \<Rightarrow> (pick_error + auth) \<times> manager" where
  "pick_next selector provider model tried m =
     (if executor_for m provider = None
      then (Inl (PickError (mk_error ''executor_not_found'' ''executor not registered'')), m)
      else let cs = pick_candidates m provider model tried in
        if cs = [] then (Inl (not_found ''no auth available''), m)
        else case selector provider model (List.map auth_clone cs) of
          Inl err \<Rightarrow> (Inl err, m)
        | Inr None \<Rightarrow> (Inl (not_found ''selector returned no auth''), m)
        | Inr (Some a) \<Rightarrow>
            (if a_index_assigned a then (Inr a, m)
             else case mget (m_auths m) (a_id a) of
               Some cur \<Rightarrow>
                 if a_index_assigned cur then (Inr a, m)
                 else let (idx, cur', ctr) = ensure_index cur (m_index_counter m)
                      in (Inr (auth_clone cur'),
                          m\<lparr>m_auths := mput (a_id a) cur' (m_auths m), m_index_counter := ctr\<rparr>)
             | None \<Rightarrow> (Inr a, m)))"

definition entry_candidates :: "manager \<Rightarrow> string \<Rightarrow> string \<Rightarrow> string list \<Rightarrow> auth_entry list" where
  "entry_candidates m provider model tried =
     filter (\<lambda>e. \<not> e_disabled e \<and> e_id e \<notin> set tried \<and> serves m (e_id e) (trim_model model))
       (list_by_provider (m_registry m) provider)"

definition pick_next_from_registry ::
    "string \<Rightarrow> string \<Rightarrow> string list \<Rightarrow> manager \<Rightarrow> gotime \<Rightarrow> (pick_error + auth) \<times> manager" where
  "pick_next_from_registry provider model tried m now =
     (if executor_for m provider = None
      then (Inl (PickError (mk_error ''executor_not_found'' ''executor not registered'')), m)
      else let es = entry_candidates m provider model tried in
        if es = [] then (Inl (not_found ''no auth available''), m)
        else case reg_pick provider model es (m_registry m) now of
          (Inl err, r) \<Rightarrow> (Inl err, m\<lparr>m_registry := r\<rparr>)
        | (Inr e, r) \<Rightarrow> (Inr (to_auth e), m\<lparr>m_registry := r\<rparr>))"

section \<open>Refreshing\<close>

definition mark_refresh_pending :: "string \<Rightarrow> manager \<Rightarrow> gotime \<Rightarrow> bool \<times> manager" where
  "mark_refresh_pending i m now =
     (case mget (m_auths m) i of
        None \<Rightarrow> (False, m)
      | Some a \<Rightarrow>
          if a_disabled a \<or> (a_next_refresh_after a \<noteq> 0 \<and> now < a_next_refresh_after a) then (False, m)
          else (True, m\<lparr>m_auths := mput i (a\<lparr>a_next_refresh_after := now + refresh_pending_backoff\<rparr>)
                                     (m_auths m)\<rparr>))"

text \<open>
  The end of \<open>refreshAuth\<close>: \<open>a\<close> is the credential when the executor was called, \<open>answer\<close> its error
  or the credential it returned, which may be nil.
\<close>

definition complete_refresh ::
    "string \<Rightarrow> auth \<Rightarrow> (string + auth option) \<Rightarrow> manager \<Rightarrow> gotime \<Rightarrow> manager" where
  "complete_refresh i a answer m now =
     (case answer of
        Inl msg \<Rightarrow>
          (case mget (m_auths m) i of
             None \<Rightarrow> m
           | Some cur \<Rightarrow>
               if a_updated_at cur \<noteq> a_updated_at a then m
               else if is_oauth_revoked_error msg then
                 (let cur' = cur\<lparr>a_disabled := True, a_status := StatusDisabled,
                               a_status_message := ''oauth_token_revoked: '' @ msg,
                               a_last_error := Some (mk_error [] msg), a_updated_at := now\<rparr>
                  in snd (mgr_update cur' (m\<lparr>m_auths := mput i cur' (m_auths m)\<rparr>) now))
               else m\<lparr>m_auths := mput i (cur\<lparr>a_next_refresh_after := now + refresh_failure_backoff,
                            a_last_error := Some (mk_error [] msg)\<rparr>) (m_auths m)\<rparr>)
      | Inr u \<Rightarrow>
          let u1 = (case u of None \<Rightarrow> auth_clone a | Some u \<Rightarrow> u);
              u2 = (if a_runtime u1 = RtNil then u1\<lparr>a_runtime := a_runtime a\<rparr> else u1)
          in snd (mgr_update (u2\<lparr>a_last_refreshed_at := now, a_next_refresh_after := 0,
                               a_last_error := None, a_updated_at := now\<rparr>) m now))"

definition refresh_auth :: "(auth \<Rightarrow> string + auth option) \<Rightarrow> string \<Rightarrow> manager \<Rightarrow> gotime \<Rightarrow> manager" where
  "refresh_auth executor i m now =
     (case mget (m_auths m) i of
        None \<Rightarrow> m
      | Some a \<Rightarrow>
          if executor_for m (a_provider a) = None then m
          else complete_refresh i a (executor (auth_clone a)) m now)"

text \<open>
  A round of \<open>checkRefreshes\<close> over the registry's credentials: which refreshes it starts with the
  permits the semaphore has left, and when the next is due (0 when none is).
\<close>

record refresh_round =
  ck_next :: gotime
  ck_started :: "string list"
  ck_permits :: nat
  ck_manager :: manager

definition check_one ::
    "refresh_leads \<Rightarrow> (gotime \<Rightarrow> auth \<Rightarrow> bool) option \<Rightarrow> gotime \<Rightarrow> auth \<Rightarrow> refresh_round \<Rightarrow> refresh_round" where
  "check_one leads evaluator now a c =
     (if fst (account_info a) = ''api_key'' then c
      else let t = get_next_refresh_time leads a now;
               c1 = (if t \<noteq> 0 \<and> (ck_next c = 0 \<or> t < ck_next c) then c\<lparr>ck_next := t\<rparr> else c)
           in if \<not> should_refresh leads evaluator a now now then c1
              else if executor_for (ck_manager c1) (a_provider a) = None then c1
              else let (pending, m) = mark_refresh_pending (a_id a) (ck_manager c1) now;
                       c2 = c1\<lparr>ck_manager := m\<rparr>
                   in if pending \<and> 0 < ck_permits c2
                      then c2\<lparr>ck_started := ck_started c2 @ [a_id a], ck_permits := ck_permits c2 - 1\<rparr>
                      else c2)"

definition check_refreshes ::
    "refresh_leads \<Rightarrow> (gotime \<Rightarrow> auth \<Rightarrow> bool) option \<Rightarrow> nat \<Rightarrow> manager \<Rightarrow> gotime \<Rightarrow> refresh_round" where
  "check_refreshes leads evaluator permits m now =
     fold (check_one leads evaluator now) (reg_list (m_registry m))
       \<lparr>ck_next = 0, ck_started = [], ck_permits = permits, ck_manager = m\<rparr>"

section \<open>Lemmas\<close>

lemma m_emit_sel [simp]:
  "m_auths (m_emit ev m) = m_auths m" "m_registry (m_emit ev m) = emit ev (m_registry m)"
  "m_executors (m_emit ev m) = m_executors m" "m_budget (m_emit ev m) = m_budget m"
  "m_stats (m_emit ev m) = m_stats m" "m_models (m_emit ev m) = m_models m"
  by (simp_all add: m_emit_def)

lemma persist_sel [simp]:
  "m_auths (persist a m) = m_auths m" "lookup_entry (m_registry (persist a m)) = lookup_entry (m_registry m)"
  "r_shards (m_registry (persist a m)) = r_shards (m_registry m)"
  "reg_ok (m_registry (persist a m)) = reg_ok (m_registry m)" "m_executors (persist a m) = m_executors m"
  by (simp_all add: persist_def)

lemma keep_auth_sel [simp]:
  "m_auths (keep_auth a m) = mput (a_id a) (auth_clone a) (m_auths m)"
  "m_registry (keep_auth a m) = m_registry m" "m_executors (keep_auth a m) = m_executors m"
  by (simp_all add: keep_auth_def)

lemma ensure_index_sel:
  "a_id (fst (snd (ensure_index a n))) = a_id a"
  "a_disabled (fst (snd (ensure_index a n))) = a_disabled a"
  "a_status (fst (snd (ensure_index a n))) = a_status a"
  by (simp_all add: ensure_index_def)

text \<open>The registry's entry of an updated credential is as enabled as the credential.\<close>

lemma update_result_disabled:
  "a_id a \<noteq> [] \<Longrightarrow> (\<exists>res. fst (reg_update a r now) = Some res \<and> a_disabled res = a_disabled a)"
  by (auto simp: reg_update_def update_existing_def register_new_def Let_def case_prod_unfold
      updated_entry_def update_all_model_states_def new_auth_entry_def split: option.split)

lemma update_stores:
  assumes "reg_ok r" "a_id a \<noteq> []"
  shows "\<exists>res. fst (reg_update a r now) = Some res \<and> stores r (a_id a) res (snd (snd (reg_update a r now)))"
  using assms register_new_stores [OF assms(1), of a now] update_existing_stores [OF assms(1), of a]
  by (auto simp: reg_update_def split: option.split)

lemma mgr_update_effect:
  assumes "reg_ok (m_registry m)" "a_id a \<noteq> []"
  shows "(\<exists>b. mget (m_auths (snd (mgr_update a m now))) = (mget (m_auths m))(a_id a \<mapsto> b)
      \<and> a_disabled b = a_disabled a \<and> a_status b = a_status a)
    \<and> reg_ok (m_registry (snd (mgr_update a m now)))
    \<and> (\<exists>e. lookup_entry (m_registry (snd (mgr_update a m now))) (a_id a) = Some e \<and> e_disabled e = a_disabled a)"
proof -
  define a1 where "a1 = (case mget (m_auths m) (a_id a) of
      Some old \<Rightarrow> if \<not> a_index_assigned a \<and> a_index a = 0
                  then a\<lparr>a_index := a_index old, a_index_assigned := a_index_assigned old\<rparr> else a
    | None \<Rightarrow> a)"
  define a2 where "a2 = fst (snd (ensure_index a1 (m_index_counter m)))"
  have a2: "a_id a2 = a_id a" "a_disabled a2 = a_disabled a" "a_status a2 = a_status a"
    unfolding a2_def ensure_index_sel by (simp_all add: a1_def split: option.split)
  let ?r = "snd (snd (reg_update a2 (m_registry m) now))"
  obtain res where res: "fst (reg_update a2 (m_registry m) now) = Some res" "stores (m_registry m) (a_id a) res ?r"
    using update_stores [OF assms(1), of a2 now] assms(2) a2(1) by auto
  moreover have "a_disabled res = a_disabled a"
    using update_result_disabled [of a2 "m_registry m" now] assms(2) a2 res(1) by auto
  ultimately have r: "reg_ok ?r" "\<exists>e. lookup_entry ?r (a_id a) = Some e \<and> e_disabled e = a_disabled a"
    by (auto simp: stores_def)
  have eq: "mgr_update a m now = (let (idx, a2, ctr) = ensure_index a1 (m_index_counter m);
               m1 = keep_auth a2 (m\<lparr>m_index_counter := ctr\<rparr>);
               (res, a3, r) = reg_update a2 (m_registry m1) now;
               m2 = persist a3 (m1\<lparr>m_registry := r\<rparr>)
           in (Some (auth_clone a3), m_emit (OnAuthUpdated (auth_clone a3)) m2))"
    using assms(2) by (simp only: mgr_update_def a1_def if_False Let_def)
  have "m_registry (snd (mgr_update a m now))
      = emit (OnAuthUpdated (auth_clone (fst (snd (reg_update a2 (m_registry m) now)))))
          (m_registry (persist (fst (snd (reg_update a2 (m_registry m) now)))
            (keep_auth a2 (m\<lparr>m_index_counter := snd (snd (ensure_index a1 (m_index_counter m)))\<rparr>)\<lparr>m_registry := ?r\<rparr>)))"
    and "m_auths (snd (mgr_update a m now)) = mput (a_id a) (auth_clone a2) (m_auths m)"
    unfolding eq by (simp_all add: case_prod_unfold Let_def a2_def [symmetric] a2)
  then show ?thesis
    using r a2 by (auto intro!: exI [of _ "auth_clone a2"])
qed

text \<open>An entry that is disabled is no candidate.\<close>

lemma entries_lookup: "reg_ok r \<Longrightarrow> e \<in> set (list_by_provider r p) \<Longrightarrow> lookup_entry r (e_id e) = Some e"
proof -
  assume r: "reg_ok r" and "e \<in> set (list_by_provider r p)"
  then obtain k where k: "(k, e) \<in> set (sh_entries (r_shards r))" by (auto simp: list_by_provider_def)
  then have "sh_get shard_index (r_shards r) k = Some e"
    using reg.in_entries [OF reg_okD(1) [OF r]] by simp
  then show ?thesis using reg_okD(3) [OF r] by (simp add: lookup_entry_eq)
qed

lemma disabled_no_candidate:
  "reg_ok (m_registry m) \<Longrightarrow> lookup_entry (m_registry m) i = Some e \<Longrightarrow> e_disabled e
     \<Longrightarrow> i \<notin> e_id ` set (entry_candidates m provider model tried)"
  using entries_lookup [of "m_registry m"] by (auto simp: entry_candidates_def)

text \<open>What a round of the refresh check keeps.\<close>

definition round_ok :: "nat \<Rightarrow> gotime \<Rightarrow> refresh_round \<Rightarrow> bool" where
  "round_ok permits now c \<longleftrightarrow> length (ck_started c) + ck_permits c = permits \<and> distinct (ck_started c)
     \<and> (\<forall>i \<in> set (ck_started c). \<exists>a. mget (m_auths (ck_manager c)) i = Some a \<and> \<not> a_disabled a
          \<and> a_next_refresh_after a = now + refresh_pending_backoff)"

lemma pending_marks:
  assumes "mark_refresh_pending i m now = (b, m')"
  shows "if b then \<exists>a. mget (m_auths m) i = Some a \<and> \<not> a_disabled a
           \<and> \<not> (a_next_refresh_after a \<noteq> 0 \<and> now < a_next_refresh_after a)
           \<and> mget (m_auths m') = (mget (m_auths m))(i \<mapsto> a\<lparr>a_next_refresh_after := now + refresh_pending_backoff\<rparr>)
         else m' = m"
  using assms by (auto simp: mark_refresh_pending_def split: option.splits if_splits)

lemma check_one_ok:
  assumes "round_ok permits now c" "0 < now"
  shows "round_ok permits now (check_one leads evaluator now a c)"
proof -
  obtain b m' where p: "mark_refresh_pending (a_id a) (ck_manager c) now = (b, m')" by fastforce
  note marks = pending_marks [OF p]
  have held: "a_id a \<notin> set (ck_started c)" if b
  proof
    assume "a_id a \<in> set (ck_started c)"
    then obtain x where "mget (m_auths (ck_manager c)) (a_id a) = Some x"
      "a_next_refresh_after x = now + refresh_pending_backoff"
      using assms(1) unfolding round_ok_def by blast
    moreover have "now < now + refresh_pending_backoff" by (simp add: refresh_pending_backoff_def minute_def)
    ultimately show False using marks that assms(2) by auto
  qed
  define next' where "next' = (let t = get_next_refresh_time leads a now in
     if t \<noteq> 0 \<and> (ck_next c = 0 \<or> t < ck_next c) then t else ck_next c)"
  have cases: "check_one leads evaluator now a c \<in>
      {c, c\<lparr>ck_next := next'\<rparr>, c\<lparr>ck_next := next', ck_manager := m'\<rparr>}
      \<or> (b \<and> 0 < ck_permits c \<and> check_one leads evaluator now a c = c\<lparr>ck_next := next', ck_manager := m',
            ck_started := ck_started c @ [a_id a], ck_permits := ck_permits c - 1\<rparr>)"
    using p by (auto simp: check_one_def Let_def next'_def)
  have plain: "round_ok permits now (c\<lparr>ck_next := next'\<rparr>)" using assms(1) by (simp add: round_ok_def)
  have marked: "round_ok permits now (c\<lparr>ck_next := next', ck_manager := m'\<rparr>)"
    using assms(1) marks held by (cases b) (auto simp: round_ok_def)
  have "round_ok permits now (c\<lparr>ck_next := next', ck_manager := m',
      ck_started := ck_started c @ [a_id a], ck_permits := ck_permits c - 1\<rparr>)" if "b" "0 < ck_permits c"
    using assms(1) marks held that by (auto simp: round_ok_def)
  with cases plain marked assms(1) show ?thesis by auto
qed

lemma check_refreshes_ok: "0 < now \<Longrightarrow> round_ok permits now (check_refreshes leads evaluator permits m now)"
proof -
  assume now: "0 < now"
  have "round_ok permits now c \<Longrightarrow> round_ok permits now (fold (check_one leads evaluator now) as c)" for as c
    by (induction as arbitrary: c) (auto intro: check_one_ok [OF _ now])
  then show ?thesis by (simp add: check_refreshes_def round_ok_def)
qed

text \<open>A credential on hold is not started, and stays on hold.\<close>

definition on_hold :: "string \<Rightarrow> gotime \<Rightarrow> manager \<Rightarrow> bool" where
  "on_hold i now m \<longleftrightarrow> (\<exists>a. mget (m_auths m) i = Some a \<and> a_next_refresh_after a \<noteq> 0 \<and> now < a_next_refresh_after a)"

lemma check_one_hold:
  assumes "on_hold i now (ck_manager c)" "i \<notin> set (ck_started c)" "0 < now"
  shows "on_hold i now (ck_manager (check_one leads evaluator now a c))
     \<and> i \<notin> set (ck_started (check_one leads evaluator now a c))"
proof -
  obtain b m' where p: "mark_refresh_pending (a_id a) (ck_manager c) now = (b, m')" by fastforce
  have "b \<Longrightarrow> a_id a \<noteq> i" using pending_marks [OF p] assms(1) by (auto simp: on_hold_def)
  moreover have "on_hold i now m'" using pending_marks [OF p] assms(1,3)
    by (cases b) (auto simp: on_hold_def refresh_pending_backoff_def minute_def)
  ultimately show ?thesis using assms p by (auto simp: check_one_def Let_def)
qed

lemma check_refreshes_hold:
  assumes "on_hold i now m" "0 < now"
  shows "i \<notin> set (ck_started (check_refreshes leads evaluator permits m now))"
proof -
  have "on_hold i now (ck_manager c) \<Longrightarrow> i \<notin> set (ck_started c) \<Longrightarrow>
      i \<notin> set (ck_started (fold (check_one leads evaluator now) as c))" for as c
    by (induction as arbitrary: c) (auto dest: check_one_hold [OF _ _ assms(2)])
  then show ?thesis using assms(1) by (simp add: check_refreshes_def)
qed

lemma schedule_log [simp]: "r_log (schedule_refresh_if_needed e r now) = r_log r"
  by (auto simp: schedule_refresh_if_needed_def Let_def put_entry_def split: option.split)

lemma register_new_log: "register_new a r now = (res, a', r') \<Longrightarrow> r_log r' = r_log r @ [OnAuthRegistered res]"
  by (auto simp: register_new_def Let_def case_prod_unfold emit_def mark_dirty_def put_entry_def next_index_def)

text \<open>A manager with one credential, whose token has expired.\<close>

definition sample_credential :: auth where
  "sample_credential = auth_zero\<lparr>a_id := ''x'', a_provider := ''claude'', a_status := StatusActive,
     a_metadata := Some [(''email'', VString ''me''), (''expired'', VInt 1700000000)]\<rparr>"

definition sample_time :: gotime where
  "sample_time = time_unix (1700000100 * second)"

definition empty_manager :: manager where
  "empty_manager = register_executor ''claude'' (Some 1) (new_manager True None 0 new_registry_state)"

definition sample_stored :: auth_entry where
  "sample_stored = new_auth_entry sample_credential sample_time"

definition sample_manager :: manager where
  "sample_manager = empty_manager\<lparr>m_auths := [(''x'', sample_credential)],
     m_registry := put_entry sample_stored (new_auth_registry True None)\<rparr>"

lemma sample_manager_ok: "reg_ok (m_registry sample_manager)"
  by (simp add: sample_manager_def reg_ok_new)

lemma sample_manager_list: "reg_list (m_registry sample_manager) = [to_auth sample_stored]"
proof -
  have one: "i < n \<Longrightarrow> concat ((replicate n [])[i := [z]]) = [z]" for i n and z :: "string \<times> auth_entry"
    by (induction n arbitrary: i) (auto split: nat.split)
  have "shard_index k < num_auth_shards" for k by (simp add: shard_index_def num_auth_shards_def)
  then show ?thesis
    by (simp add: sample_manager_def reg_list_def put_entry_def new_auth_registry_def sh_put_def sh_entries_def
        sh_empty_def one)
qed

lemma sample_round:
  "check_refreshes [] None n sample_manager now = check_one [] None now (to_auth sample_stored)
     \<lparr>ck_next = 0, ck_started = [], ck_permits = n, ck_manager = sample_manager\<rparr>"
  by (simp add: check_refreshes_def sample_manager_list)

lemma sample_manager_sel:
  "m_auths sample_manager = [(''x'', sample_credential)]" "m_executors sample_manager = [(''claude'', 1)]"
  by (simp_all add: sample_manager_def empty_manager_def register_executor_def new_manager_def)

lemma sample_due:
  "account_info (to_auth sample_stored) = (''oauth'', ''me'')"
  "should_refresh [] None (to_auth sample_stored) sample_time sample_time"
  "e_id sample_stored = ''x''" "e_provider sample_stored = ''claude''"
  "\<not> a_disabled sample_credential" "a_next_refresh_after sample_credential = 0"
  by code_simp+

lemma sample_started: "ck_started (check_refreshes [] None 1 sample_manager sample_time) = [''x'']"
  by (simp add: sample_round check_one_def Let_def sample_due executor_for_def mark_refresh_pending_def
      sample_manager_sel)

section \<open>Properties\<close>

text \<open>
  A round of the refresh check starts no more refreshes than there are permits and none twice; a
  round within the next minute starts none of them again, while they may still be running.
\<close>

theorem refreshes_do_not_overlap:
  fixes m :: manager and leads :: refresh_leads and evaluator :: "(gotime \<Rightarrow> auth \<Rightarrow> bool) option" and permits :: nat
  assumes "0 < now" "now \<le> later" "later < now + minute"
  defines "c \<equiv> check_refreshes leads evaluator permits m now"
  shows "length (ck_started c) \<le> permits \<and> distinct (ck_started c)
    \<and> set (ck_started (check_refreshes leads evaluator permits' (ck_manager c) later)) \<inter> set (ck_started c) = {}"
proof -
  have ok: "round_ok permits now c" unfolding c_def using assms(1) by (rule check_refreshes_ok)
  have "on_hold i later (ck_manager c)" if "i \<in> set (ck_started c)" for i
    using ok that assms(1-3) unfolding round_ok_def on_hold_def refresh_pending_backoff_def by fastforce
  then have "\<forall>i \<in> set (ck_started c). i \<notin> set (ck_started (check_refreshes leads evaluator permits' (ck_manager c) later))"
    using check_refreshes_hold assms(1,2) by simp
  then show ?thesis using ok by (auto simp: round_ok_def)
qed

theorem refreshes_do_not_overlap_witness:
  "ck_started (check_refreshes [] None 1 sample_manager sample_time) = [''x'']
    \<and> ''x'' \<notin> set (ck_started (check_refreshes [] None 1
         (ck_manager (check_refreshes [] None 1 sample_manager sample_time)) (sample_time + 30 * second)))"
proof -
  note sample_started
  moreover have "0 < sample_time" "sample_time \<le> sample_time + 30 * second"
    "sample_time + 30 * second < sample_time + minute"
    by code_simp+
  ultimately show ?thesis
    using refreshes_do_not_overlap [of sample_time "sample_time + 30 * second" "[]" None 1 sample_manager 1] by auto
qed

text \<open>
  C11: When the provider says that a token was revoked, the refresh disables the credential, in the
  manager's map and in the registry, and no request is given it any more. Any other failure only
  puts the next refresh off by five minutes.
\<close>

theorem refresh_failure_effect:
  fixes now :: gotime
  assumes "reg_ok (m_registry m)" "mget (m_auths m) i = Some a" "a_id a = i" "i \<noteq> []"
    and "executor_for m (a_provider a) \<noteq> None" "executor (auth_clone a) = Inl msg"
  defines "m' \<equiv> refresh_auth executor i m now"
  shows "if is_oauth_revoked_error msg
    then (\<exists>b. mget (m_auths m') i = Some b \<and> a_disabled b \<and> a_status b = StatusDisabled)
       \<and> i \<notin> e_id ` set (entry_candidates m' provider model tried)
    else mget (m_auths m') i = Some (a\<lparr>a_next_refresh_after := now + 5 * minute, a_last_error := Some (mk_error [] msg)\<rparr>)
       \<and> m_registry m' = m_registry m"
proof (cases "is_oauth_revoked_error msg")
  case True
  let ?c = "a\<lparr>a_disabled := True, a_status := StatusDisabled, a_status_message := ''oauth_token_revoked: '' @ msg,
               a_last_error := Some (mk_error [] msg), a_updated_at := now\<rparr>"
  let ?m = "m\<lparr>m_auths := mput i ?c (m_auths m)\<rparr>"
  have m': "m' = snd (mgr_update ?c ?m now)"
    unfolding m'_def refresh_auth_def complete_refresh_def Let_def using assms(2-6) True by auto
  have eff: "\<exists>b. mget (m_auths m') = (mget (m_auths ?m))(i \<mapsto> b) \<and> a_disabled b \<and> a_status b = StatusDisabled"
    "reg_ok (m_registry m')" "\<exists>e. lookup_entry (m_registry m') i = Some e \<and> e_disabled e"
    unfolding m' using mgr_update_effect [of ?m ?c now] assms(1,3,4) by auto
  then have "i \<notin> e_id ` set (entry_candidates m' provider model tried)"
    using disabled_no_candidate by blast
  with eff True show ?thesis by auto
next
  case False
  then show ?thesis
    unfolding m'_def refresh_auth_def complete_refresh_def refresh_failure_backoff_def
    using assms(2-6) by auto
qed

theorem refresh_failure_effect_witness:
  "''x'' \<notin> e_id ` set (entry_candidates
     (refresh_auth (\<lambda>_. Inl ''invalid_grant'') ''x'' sample_manager sample_time) ''claude'' ''m'' [])"
proof -
  have "mget (m_auths sample_manager) ''x'' = Some sample_credential" "a_id sample_credential = ''x''"
    "executor_for sample_manager (a_provider sample_credential) \<noteq> None"
    by (simp_all add: sample_manager_sel executor_for_def sample_credential_def)
  moreover have "is_oauth_revoked_error ''invalid_grant''" by code_simp
  ultimately show ?thesis
    using refresh_failure_effect [OF sample_manager_ok, of "''x''" sample_credential "\<lambda>_. Inl ''invalid_grant''"
        "''invalid_grant''" sample_time "''claude''" "''m''" "[]"] by simp
qed

text \<open>
  A new credential is announced to the hook twice, once by the registry and once by the manager,
  and saved to the store in between.
\<close>

theorem new_credential_announced_twice:
  assumes "a_id a \<noteq> []" "lookup_entry (m_registry m) (a_id a) = None" "m_has_store m"
    and "a_metadata a \<noteq> None" "norm_key (attr (a_attributes a) ''runtime_only'') \<noteq> ''true''"
  shows "\<exists>res saved. r_log (m_registry (snd (mgr_register uuid a m now)))
      = r_log (m_registry m) @ [OnAuthRegistered res, StoreSave saved, OnAuthRegistered (auth_clone saved)]"
proof -
  define a2 where "a2 = fst (snd (ensure_index a (m_index_counter m)))"
  have a2: "a_id a2 = a_id a" "a_metadata a2 = a_metadata a" "a_attributes a2 = a_attributes a"
    by (simp_all add: a2_def ensure_index_def)
  let ?r = "m_registry m"
  have r: "reg_register uuid a2 ?r now = register_new a2 ?r now"
    using assms(1,2) by (simp add: reg_register_def a2)
  obtain res a3 r' where n: "register_new a2 ?r now = (res, a3, r')" using prod_cases3 by blast
  have log: "r_log r' = r_log ?r @ [OnAuthRegistered res]"
    using register_new_log [OF n] .
  have "a3 = a2\<lparr>a_index := fst (next_index ?r)\<rparr>"
    using n by (auto simp: register_new_def case_prod_unfold Let_def)
  then have "a_metadata a3 \<noteq> None" "norm_key (attr (a_attributes a3) ''runtime_only'') \<noteq> ''true''"
    using assms(4,5) a2 by simp_all
  moreover have "mgr_register uuid a m now = (auth_clone a3, m_emit (OnAuthRegistered (auth_clone a3))
      (persist a3 (keep_auth a2 (m\<lparr>m_index_counter := snd (snd (ensure_index a (m_index_counter m)))\<rparr>)
         \<lparr>m_registry := r'\<rparr>)))"
    using assms(1) r n a2 by (simp add: mgr_register_def case_prod_unfold Let_def a2_def [symmetric])
  ultimately show ?thesis
    using assms(3) log
    by (intro exI [of _ res] exI [of _ a3]) (simp add: persist_def keep_auth_def, simp add: emit_def)
qed

theorem new_credential_announced_twice_witness:
  "length (r_log (m_registry (snd (mgr_register ''y'' sample_credential empty_manager sample_time)))) = 3"
proof -
  have "lookup_entry (m_registry empty_manager) (a_id sample_credential) = None" "m_has_store empty_manager"
    "r_log (m_registry empty_manager) = []"
    by (simp_all add: empty_manager_def register_executor_def new_manager_def new_auth_registry_def
        lookup_entry_def reg.get_empty)
  moreover have "a_id sample_credential \<noteq> []" "a_metadata sample_credential \<noteq> None"
    "norm_key (attr (a_attributes sample_credential) ''runtime_only'') \<noteq> ''true''"
    by code_simp+
  ultimately show ?thesis
    using new_credential_announced_twice [of sample_credential empty_manager "''y''" sample_time] by force
qed

end
