(* ===== verification/Execution.thy ===== *)
theory Execution
  imports Manager
begin

text \<open>
  Running a request (\<open>internal/provider/execution.go\<close>, \<open>retry.go\<close>, \<open>provider_selection.go\<close> and
  \<open>Execute\<close>, \<open>ExecuteCount\<close>, \<open>ExecuteStream\<close> of \<open>manager.go\<close>): the providers in order of their
  scores, for each provider its credentials one after the other until one answers, and all of it
  again within the retry budget. The executors and the circuit breakers are outside: what a call
  answers and whether a breaker is open are arguments. The loop over the credentials is a partial
  function, so that it ends is a theorem.
\<close>

section \<open>Errors of an execution\<close>

text \<open>
  What the manager reads of an error: its text, whether it wraps a cancellation, the code of a
  wrapped \<open>*Error\<close>, the status, category and retry hint it or what it wraps offers, and the
  category it offers itself.
\<close>

record exec_error =
  er_text :: string
  er_canceled :: bool
  er_code :: "string option"
  er_status :: "int option"
  er_category :: "error_category option"
  er_own_category :: "error_category option"
  er_retry_after :: "duration option"

definition of_prov_error :: "prov_error \<Rightarrow> exec_error" where
  "of_prov_error e = \<lparr>er_text = error_text (Some e), er_canceled = False, er_code = Some (err_code e),
     er_status = Some (err_http_status e), er_category = Some (err_category e),
     er_own_category = Some (err_category e), er_retry_after = None\<rparr>"

text \<open>\<open>body\<close> is the JSON text of a cooldown error.\<close>

definition of_pick_error :: "(model_cooldown \<Rightarrow> string) \<Rightarrow> pick_error \<Rightarrow> exec_error" where
  "of_pick_error body p =
     (case p of
        PickError e \<Rightarrow> of_prov_error e
      | ModelCooldown c \<Rightarrow>
          \<lparr>er_text = body c, er_canceled = False, er_code = None, er_status = Some (cooldown_status_code c),
           er_category = None, er_own_category = None, er_retry_after = None\<rparr>)"

definition status_code_from_error :: "exec_error \<Rightarrow> int" where
  "status_code_from_error e = (case er_status e of None \<Rightarrow> 0 | Some s \<Rightarrow> s)"

definition category_from_error :: "exec_error \<Rightarrow> error_category" where
  "category_from_error e =
     (case er_own_category e of
        Some c \<Rightarrow> c
      | None \<Rightarrow> categorize_error (status_code_from_error e) (er_text e))"

definition retry_after_from_error :: "exec_error \<Rightarrow> duration option" where
  "retry_after_from_error e = er_retry_after e"

text \<open>What a circuit breaker takes for a success.\<close>

definition default_is_successful :: "exec_error option \<Rightarrow> bool" where
  "default_is_successful e =
     (case e of
        None \<Rightarrow> True
      | Some e \<Rightarrow> (case er_own_category e of
                    Some c \<Rightarrow> is_user_fault c
                  | None \<Rightarrow> is_user_fault (categorize_error 0 (er_text e))))"

section \<open>Choosing providers\<close>

fun normalize_from :: "string list \<Rightarrow> string list \<Rightarrow> string list" where
  "normalize_from seen [] = []"
| "normalize_from seen (x # xs) =
     (let p = norm_key x in
      if p = [] \<or> p \<in> set seen then normalize_from seen xs else p # normalize_from (p # seen) xs)"

definition normalize_providers :: "string list \<Rightarrow> string list" where
  "normalize_providers providers = normalize_from [] providers"

definition select_providers ::
    "(string \<Rightarrow> bool) \<Rightarrow> string \<Rightarrow> string list \<Rightarrow> manager \<Rightarrow> gotime \<Rightarrow> string list" where
  "select_providers breaker_open model providers m now =
     (if length providers \<le> 1 then providers
      else let available = filter (\<lambda>p. \<not> breaker_open p) providers in
        if available = [] then providers else sort_by_score (m_stats m) available model now)"

definition record_provider_result ::
    "string \<Rightarrow> string \<Rightarrow> bool \<Rightarrow> duration \<Rightarrow> manager \<Rightarrow> gotime \<Rightarrow> manager" where
  "record_provider_result provider model success latency m now =
     m\<lparr>m_stats := (if success then record_success provider model latency (m_stats m) now
                   else record_failure provider model (m_stats m) now)\<rparr>"

section \<open>Is there a credential to wait for?\<close>

text \<open>
  The credentials of the manager's own map that a retry could use. Asking whether one is blocked
  may clean up its group index, so the map is handed on.
\<close>

definition wait_candidate :: "manager \<Rightarrow> string list \<Rightarrow> string \<Rightarrow> auth \<Rightarrow> bool" where
  "wait_candidate m providers model a \<longleftrightarrow> \<not> a_disabled a
     \<and> norm_key (a_provider a) \<in> set (filter (\<lambda>p. p \<noteq> []) (List.map norm_key providers))
     \<and> serves m (a_id a) (trim_space model)"

fun available_scan ::
    "resolvers \<Rightarrow> (auth \<Rightarrow> bool) \<Rightarrow> string \<Rightarrow> gotime \<Rightarrow> (string, auth) gomap \<Rightarrow> bool \<times> (string, auth) gomap" where
  "available_scan rs P model now [] = (False, [])"
| "available_scan rs P model now ((i, a) # as) =
     (if \<not> P a then apsnd ((#) (i, a)) (available_scan rs P model now as)
      else let ((blocked, _, _), a') = is_auth_blocked_for_model rs (Some a) model now;
               entry = (i, case a' of None \<Rightarrow> a | Some b \<Rightarrow> b)
           in if \<not> blocked then (True, entry # as)
              else apsnd ((#) entry) (available_scan rs P model now as))"

definition has_available_auth ::
    "resolvers \<Rightarrow> string list \<Rightarrow> string \<Rightarrow> manager \<Rightarrow> gotime \<Rightarrow> bool \<times> manager" where
  "has_available_auth rs providers model m now =
     (if providers = [] then (False, m)
      else let (found, as) = available_scan rs (wait_candidate m providers model) model now (m_auths m)
           in (found, m\<lparr>m_auths := as\<rparr>))"

fun wait_scan ::
    "resolvers \<Rightarrow> (auth \<Rightarrow> bool) \<Rightarrow> string \<Rightarrow> gotime \<Rightarrow> duration option \<Rightarrow> (string, auth) gomap
       \<Rightarrow> duration option \<times> (string, auth) gomap" where
  "wait_scan rs P model now best [] = (best, [])"
| "wait_scan rs P model now best ((i, a) # as) =
     (if \<not> P a then apsnd ((#) (i, a)) (wait_scan rs P model now best as)
      else let ((blocked, reason, next), a') = is_auth_blocked_for_model rs (Some a) model now;
               entry = (i, case a' of None \<Rightarrow> a | Some b \<Rightarrow> b);
               wait = time_sub next now;
               best' = (if \<not> blocked \<or> next = 0 \<or> reason = blockReasonDisabled \<or> wait < 0 then best
                        else case best of None \<Rightarrow> Some wait
                          | Some w \<Rightarrow> if wait < w then Some wait else Some w)
           in apsnd ((#) entry) (wait_scan rs P model now best' as))"

definition closest_cooldown_wait ::
    "resolvers \<Rightarrow> string list \<Rightarrow> string \<Rightarrow> manager \<Rightarrow> gotime \<Rightarrow> duration option \<times> manager" where
  "closest_cooldown_wait rs providers model m now =
     (if providers = [] then (None, m)
      else let (w, as) = wait_scan rs (wait_candidate m providers model) model now None (m_auths m)
           in (w, m\<lparr>m_auths := as\<rparr>))"

definition should_retry_after_error ::
    "resolvers \<Rightarrow> exec_error \<Rightarrow> nat \<Rightarrow> nat \<Rightarrow> string list \<Rightarrow> string \<Rightarrow> manager \<Rightarrow> gotime \<Rightarrow> gotime \<Rightarrow> bool \<times> manager" where
  "should_retry_after_error rs e attempt max_attempts providers model m now now' =
     (if max_attempts \<le> attempt + 1 \<or> \<not> should_fallback (category_from_error e)
         \<or> status_code_from_error e = 200
      then (False, m)
      else let (found, m1) = has_available_auth rs providers model m now in
        if found then (True, m1)
        else let (w, m2) = closest_cooldown_wait rs providers model m1 now' in (w \<noteq> None, m2))"

text \<open>
  \<open>waitForAvailableAuth\<close>: \<open>ticks\<close> are the instants its ticker fires at before the context ends;
  \<open>True\<close> when it returns without an error.
\<close>

fun poll_available ::
    "resolvers \<Rightarrow> string list \<Rightarrow> string \<Rightarrow> gotime \<Rightarrow> gotime list \<Rightarrow> manager \<Rightarrow> bool \<times> manager" where
  "poll_available rs providers model deadline [] m = (False, m)"
| "poll_available rs providers model deadline (t # ticks) m =
     (let (found, m1) = has_available_auth rs providers model m t in
      if found then (True, m1)
      else if deadline < t then (False, m1)
      else poll_available rs providers model deadline ticks m1)"

definition wait_for_available_auth ::
    "resolvers \<Rightarrow> string list \<Rightarrow> string \<Rightarrow> duration \<Rightarrow> gotime list \<Rightarrow> manager \<Rightarrow> gotime \<Rightarrow> bool \<times> manager" where
  "wait_for_available_auth rs providers model max_wait ticks m now =
     (if max_wait \<le> 0 then (True, m)
      else let (found, m1) = has_available_auth rs providers model m now in
        if found then (True, m1)
        else poll_available rs providers model (now + max_wait) ticks m1)"

section \<open>One provider\<close>

definition success_result :: "auth \<Rightarrow> string \<Rightarrow> string \<Rightarrow> exec_result" where
  "success_result a provider model = \<lparr>x_auth_id = a_id a, x_provider = provider, x_model = model,
     x_success = True, x_retry_after = None, x_error = None\<rparr>"

definition failure_result :: "auth \<Rightarrow> string \<Rightarrow> string \<Rightarrow> exec_error \<Rightarrow> exec_result" where
  "failure_result a provider model e = \<lparr>x_auth_id = a_id a, x_provider = provider, x_model = model,
     x_success = False, x_retry_after = retry_after_from_error e,
     x_error = Some ((mk_error [] (er_text e))
       \<lparr>err_http_status := status_code_from_error e,
        err_category := (case er_category e of None \<Rightarrow> CategoryUnknown | Some c \<Rightarrow> c)\<rparr>)\<rparr>"

text \<open>
  What stays fixed while a request runs: whether quota cooldowns are switched off, the text of
  cooldown errors, the clock (its reading at the pick and at the result of the \<open>n\<close>-th credential
  tried), the executor of a credential (through the circuit breaker).
\<close>

record 'r exec_env =
  n_no_cooldown :: bool
  n_body :: "model_cooldown \<Rightarrow> string"
  n_clock :: "nat \<Rightarrow> gotime"
  n_exec :: "auth \<Rightarrow> exec_error + 'r"

text \<open>
  The loop over the credentials that \<open>executeWithProvider\<close>, \<open>executeCountWithProvider\<close> and
  \<open>executeStreamWithProvider\<close> share: the answer, the credentials tried, in order, and the manager.
  \<open>finish\<close> is what the caller does with a success.
\<close>

partial_function (option) credential_loop ::
    "'r exec_env \<Rightarrow> (auth \<Rightarrow> 'r \<Rightarrow> gotime \<Rightarrow> manager \<Rightarrow> 's \<times> manager) \<Rightarrow> string \<Rightarrow> string \<Rightarrow> string list
       \<Rightarrow> exec_error option \<Rightarrow> manager \<Rightarrow> ((exec_error + 's) \<times> string list \<times> manager) option" where
  "credential_loop n finish provider model tried last_err m =
     (case pick_next_from_registry provider model tried m (n_clock n (2 * length tried)) of
        (Inl err, m1) \<Rightarrow>
          Some (Inl (case last_err of Some e \<Rightarrow> e | None \<Rightarrow> of_pick_error (n_body n) err), tried, m1)
      | (Inr a, m1) \<Rightarrow>
          (case n_exec n a of
             Inr resp \<Rightarrow>
               (case finish a resp (n_clock n (2 * length tried + 1)) m1 of
                  (res, m2) \<Rightarrow> Some (Inr res, tried @ [a_id a], m2))
           | Inl e \<Rightarrow>
               if er_canceled e then Some (Inl e, tried @ [a_id a], m1)
               else if er_code e = Some ''token_not_ready''
               then credential_loop n finish provider model (tried @ [a_id a]) last_err m1
               else credential_loop n finish provider model (tried @ [a_id a]) (Some e)
                      (mgr_mark_result (n_no_cooldown n) (failure_result a provider model e) m1
                        (n_clock n (2 * length tried + 1)))))"

text \<open>A response is recorded as a success.\<close>

definition respond :: "bool \<Rightarrow> string \<Rightarrow> string \<Rightarrow> auth \<Rightarrow> 'r \<Rightarrow> gotime \<Rightarrow> manager \<Rightarrow> 'r \<times> manager" where
  "respond no_cooldown provider model a resp now m =
     (resp, mgr_mark_result no_cooldown (success_result a provider model) m now)"

definition try_credentials ::
    "'r exec_env \<Rightarrow> string \<Rightarrow> string \<Rightarrow> manager \<Rightarrow> ((exec_error + 'r) \<times> string list \<times> manager) option" where
  "try_credentials n provider model m =
     credential_loop n (respond (n_no_cooldown n) provider model) provider model [] None m"

definition execute_with_provider ::
    "'r exec_env \<Rightarrow> (string \<Rightarrow> bool) \<Rightarrow> string \<Rightarrow> string \<Rightarrow> manager
       \<Rightarrow> ((exec_error + 'r) \<times> string list \<times> manager) option" where
  "execute_with_provider n breaker_open provider model m =
     (if provider = [] then
        Some (Inl (of_prov_error (mk_error ''provider_not_found'' ''provider identifier is empty'')), [], m)
      else if breaker_open provider then
        Some (Inl (of_prov_error (mk_error ''circuit_open'' ''provider circuit breaker is open'')), [], m)
      else try_credentials n provider (get_model_id_for_provider (m_models m) model provider) m)"

section \<open>All providers, again and again\<close>

text \<open>
  One round over the providers, with the last provider called. \<open>run\<close> is the call for a provider.
\<close>

fun providers_loop ::
    "(string \<Rightarrow> manager \<Rightarrow> ((exec_error + 'r) \<times> string list \<times> manager) option) \<Rightarrow> string list
       \<Rightarrow> exec_error option \<Rightarrow> string \<Rightarrow> manager \<Rightarrow> ((exec_error + 'r) \<times> string \<times> manager) option" where
  "providers_loop run [] last_err last_provider m =
     Some (Inl (case last_err of Some e \<Rightarrow> e
                | None \<Rightarrow> of_prov_error (mk_error ''auth_not_found'' ''no auth available'')), last_provider, m)"
| "providers_loop run (p # ps) last_err last_provider m =
     (case run p m of
        None \<Rightarrow> None
      | Some (Inr resp, _, m1) \<Rightarrow> Some (Inr resp, p, m1)
      | Some (Inl e, _, m1) \<Rightarrow> providers_loop run ps (Some e) p m1)"

definition execute_providers_once ::
    "(string \<Rightarrow> manager \<Rightarrow> ((exec_error + 'r) \<times> string list \<times> manager) option) \<Rightarrow> string list
       \<Rightarrow> string \<Rightarrow> manager \<Rightarrow> ((exec_error + 'r) \<times> string \<times> manager) option" where
  "execute_providers_once run ps last_provider m =
     (if ps = [] then
        Some (Inl (of_prov_error (mk_error ''provider_not_found'' ''no provider supplied'')), last_provider, m)
      else providers_loop run ps None last_provider m)"

text \<open>
  The environment of each attempt: its executors and clock, its breakers, its start and end, the
  readings of the clock in the retry decision, and the ticks while it waits.
\<close>

record 'r attempt_env =
  v_env :: "string \<Rightarrow> 'r exec_env"
  v_breaker_open :: "string \<Rightarrow> bool"
  v_start :: gotime
  v_end :: gotime
  v_decide :: gotime
  v_decide' :: gotime
  v_wait :: gotime
  v_ticks :: "gotime list"

text \<open>\<open>Execute\<close> and \<open>ExecuteCount\<close> record how the last provider called did; streams do so themselves.\<close>

definition note_attempt :: "bool \<Rightarrow> 'r attempt_env \<Rightarrow> string \<Rightarrow> string \<Rightarrow> bool \<Rightarrow> manager \<Rightarrow> manager" where
  "note_attempt stats v p model success m =
     (if stats then record_provider_result p model success (time_sub (v_end v) (v_start v)) m (v_end v) else m)"

text \<open>
  The attempts still to make, of \<open>n\<close> in all. The budget is asked from the second
  attempt on, and given back when the attempt is over.
\<close>

fun attempts_loop ::
    "resolvers \<Rightarrow> (nat \<Rightarrow> 'r attempt_env) \<Rightarrow> ('r attempt_env \<Rightarrow> string \<Rightarrow> manager
         \<Rightarrow> ((exec_error + 's) \<times> string list \<times> manager) option) \<Rightarrow> bool \<Rightarrow> string list \<Rightarrow> string
       \<Rightarrow> duration \<Rightarrow> nat \<Rightarrow> nat \<Rightarrow> exec_error option \<Rightarrow> string \<Rightarrow> manager
       \<Rightarrow> ((exec_error + 's) \<times> nat \<times> manager) option" where
  "attempts_loop rs env run stats ps model max_wait n 0 last_err last_provider m =
     Some (Inl (case last_err of Some e \<Rightarrow> e
                | None \<Rightarrow> of_prov_error (mk_error ''auth_not_found'' ''no auth available'')), 0, m)"
| "attempts_loop rs env run stats ps model max_wait n (Suc left) last_err last_provider m =
     (let k = n - Suc left; v = env k;
          (acquired, b) = (if k = 0 then (True, m_budget m) else try_acquire (m_budget m));
          m1 = m\<lparr>m_budget := b\<rparr>;
          give_back = (\<lambda>m :: manager. if k = 0 then m else m\<lparr>m_budget := release (m_budget m)\<rparr>)
      in if \<not> acquired then
           Some (Inl (case last_err of Some e \<Rightarrow> e
                      | None \<Rightarrow> of_prov_error (mk_error ''auth_not_found'' ''no auth available'')), 0, m1)
         else case execute_providers_once (run v) ps last_provider m1 of
           None \<Rightarrow> None
         | Some (Inr resp, p, m2) \<Rightarrow>
             Some (Inr resp, 1, give_back (note_attempt stats v p model True m2))
         | Some (Inl e, p, m2) \<Rightarrow>
             (let m3 = give_back (note_attempt stats v p model False m2);
                  (again, m4) = should_retry_after_error rs e k n ps model m3 (v_decide v) (v_decide' v)
              in if \<not> again then Some (Inl e, 1, m4)
                 else let (ok, m5) = wait_for_available_auth rs ps model max_wait (v_ticks v) m4 (v_wait v)
                      in if \<not> ok then Some (Inl e, 1, m5)
                         else map_option (\<lambda>(r, c, m). (r, Suc c, m))
                                (attempts_loop rs env run stats ps model max_wait n left (Some e) p m5)))"

text \<open>
  The answer, the attempts made, the manager. \<open>ExecuteCount\<close> differs in the executor's method only,
  which is an argument.
\<close>

definition run_attempts ::
    "resolvers \<Rightarrow> (nat \<Rightarrow> 'r attempt_env) \<Rightarrow> ('r attempt_env \<Rightarrow> string \<Rightarrow> manager
         \<Rightarrow> ((exec_error + 's) \<times> string list \<times> manager) option) \<Rightarrow> bool \<Rightarrow> string list \<Rightarrow> string \<Rightarrow> manager
       \<Rightarrow> gotime \<Rightarrow> ((exec_error + 's) \<times> nat \<times> manager) option" where
  "run_attempts rs env run stats providers model m now =
     (let ps = normalize_providers providers in
      if ps = [] then
        Some (Inl (of_prov_error (mk_error ''provider_not_found'' ''no provider supplied'')), 0, m)
      else let selected = select_providers (v_breaker_open (env 0)) model ps m now;
               attempts = nat (m_request_retry m + 1);
               n = (if attempts < 1 then 1 else attempts)
           in attempts_loop rs env run stats selected model (m_max_retry_interval m) n n None [] m)"

definition execute ::
    "resolvers \<Rightarrow> (nat \<Rightarrow> 'r attempt_env) \<Rightarrow> string list \<Rightarrow> string \<Rightarrow> manager \<Rightarrow> gotime
       \<Rightarrow> ((exec_error + 'r) \<times> nat \<times> manager) option" where
  "execute rs env providers model m now =
     run_attempts rs env (\<lambda>v p. execute_with_provider (v_env v p) (v_breaker_open v) p model) True
       providers model m now"

section \<open>Streams\<close>

text \<open>
  \<open>executeStreamWithProvider\<close> hands out the first stream that opens, with a copy of its
  credential, and leaves the result to the relay.
\<close>

definition hand_out :: "auth \<Rightarrow> 'r \<Rightarrow> gotime \<Rightarrow> manager \<Rightarrow> (auth \<times> 'r) \<times> manager" where
  "hand_out a stream now m = ((auth_clone a, stream), m)"

definition open_stream ::
    "'r exec_env \<Rightarrow> string \<Rightarrow> string \<Rightarrow> manager
       \<Rightarrow> ((exec_error + auth \<times> 'r) \<times> string list \<times> manager) option" where
  "open_stream n provider model m = credential_loop n hand_out provider model [] None m"

text \<open>\<open>breaker_allows\<close> is the answer of the streaming breaker's \<open>Allow\<close>.\<close>

definition execute_stream_with_provider ::
    "'r exec_env \<Rightarrow> (string \<Rightarrow> bool) \<Rightarrow> string \<Rightarrow> string \<Rightarrow> manager
       \<Rightarrow> ((exec_error + auth \<times> 'r) \<times> string list \<times> manager) option" where
  "execute_stream_with_provider n breaker_allows provider model m =
     (if provider = [] then
        Some (Inl (of_prov_error (mk_error ''provider_not_found'' ''provider identifier is empty'')), [], m)
      else if \<not> breaker_allows provider then
        Some (Inl (of_prov_error (mk_error ''circuit_open'' ''provider circuit breaker is open'')), [], m)
      else open_stream n provider (get_model_id_for_provider (m_models m) model provider) m)"

definition execute_stream ::
    "resolvers \<Rightarrow> (nat \<Rightarrow> 'r attempt_env) \<Rightarrow> (string \<Rightarrow> bool) \<Rightarrow> string list \<Rightarrow> string \<Rightarrow> manager \<Rightarrow> gotime
       \<Rightarrow> ((exec_error + auth \<times> 'r) \<times> nat \<times> manager) option" where
  "execute_stream rs env breaker_allows providers model m now =
     run_attempts rs env (\<lambda>v p. execute_stream_with_provider (v_env v p) breaker_allows p model) False
       providers model m now"

text \<open>
  The relay goroutine sees the context end, the stream close, or a chunk, which it passes on unless
  the context ends while it waits for the reader (\<open>False\<close>).
\<close>

datatype 'c relay_event = CtxDone | Closed | Chunk 'c "exec_error option" bool

text \<open>The chunks passed on, what the breaker is told (\<open>None\<close> while the relay runs), the manager.\<close>

fun relay ::
    "bool \<Rightarrow> auth \<Rightarrow> string \<Rightarrow> string \<Rightarrow> gotime \<Rightarrow> (gotime \<times> 'c relay_event) list \<Rightarrow> bool \<Rightarrow> 'c list \<Rightarrow> manager
       \<Rightarrow> 'c list \<times> bool option \<times> manager" where
  "relay nc a provider model start [] failed out m = (out, None, m)"
| "relay nc a provider model start ((t, CtxDone) # evs) failed out m =
     (out, Some (\<not> failed), record_provider_result provider model (\<not> failed) (time_sub t start) m t)"
| "relay nc a provider model start ((t, Closed) # evs) failed out m =
     (let m1 = (if failed then m else mgr_mark_result nc (success_result a provider model) m t)
      in (out, Some (\<not> failed), record_provider_result provider model (\<not> failed) (time_sub t start) m1 t))"
| "relay nc a provider model start ((t, Chunk c err sent) # evs) failed out m =
     (case (if failed then None else err) of
        None \<Rightarrow>
          if sent then relay nc a provider model start evs failed (out @ [c]) m
          else (out, Some (\<not> failed), record_provider_result provider model (\<not> failed) (time_sub t start) m t)
      | Some e \<Rightarrow>
          if er_canceled e
          then (out, Some True, record_provider_result provider model True (time_sub t start) m t)
          else let m1 = mgr_mark_result nc (failure_result a provider model e) m t in
            if sent then relay nc a provider model start evs True (out @ [c]) m1
            else (out, Some False, record_provider_result provider model False (time_sub t start) m1 t))"

section \<open>Lemmas\<close>

text \<open>What running requests on a provider leaves alone: all but the registry's entries and queues.\<close>

definition request_frame :: "manager \<Rightarrow> manager \<Rightarrow> bool" where
  "request_frame m m' \<longleftrightarrow> m_auths m' = m_auths m \<and> m_budget m' = m_budget m \<and> m_models m' = m_models m
     \<and> m_executors m' = m_executors m \<and> m_stats m' = m_stats m \<and> m_has_store m' = m_has_store m
     \<and> reg_ok (m_registry m') \<and> dom (lookup_entry (m_registry m')) = dom (lookup_entry (m_registry m))"

lemma frame_refl: "reg_ok (m_registry m) \<Longrightarrow> request_frame m m"
  by (simp add: request_frame_def)

lemma frame_trans: "request_frame a b \<Longrightarrow> request_frame b c \<Longrightarrow> request_frame a c"
  by (simp add: request_frame_def)

lemma frame_ok: "request_frame m m' \<Longrightarrow> reg_ok (m_registry m')"
  by (simp add: request_frame_def)

lemma e_id_results [simp]:
  "e_id (on_success x e now) = e_id e" "e_id (on_failure b x e now) = e_id e"
  "e_id (decrement_active_requests e) = e_id e" "e_id (increment_active_requests e) = e_id e"
  by (simp_all add: on_success_def on_failure_def model_failure_def apply_auth_level_failure_def Let_def
      unavailable_def clear_cooldown_def set_cooldown_def update_metadata_def update_model_state_def
      decrement_active_requests_def increment_active_requests_def)

lemma mark_result_registry:
  assumes "reg_ok r"
  shows "reg_ok (reg_mark_result b x r now) \<and> dom (lookup_entry (reg_mark_result b x r now)) = dom (lookup_entry r)"
proof (cases "get_entry r (x_auth_id x)")
  case (Some e)
  then have "x_auth_id x \<noteq> []" and l: "lookup_entry r (x_auth_id x) = Some e"
    by (auto simp: get_entry_def split: if_splits)
  moreover have "e_id e = x_auth_id x" using reg_okD(3) [OF assms l] .
  ultimately show ?thesis using assms Some
    by (auto simp: reg_mark_result_def handle_success_result_def Let_def lookup_put dom_def)
qed (use assms in \<open>simp add: reg_mark_result_def\<close>)

lemma mark_result_frame:
  "reg_ok (m_registry m) \<Longrightarrow> request_frame m (mgr_mark_result b x m now)"
  using mark_result_registry [of "m_registry m" b x now]
  by (simp add: request_frame_def mgr_mark_result_def note_quota_hit_def)

lemma pick_entry_in: "pick_entry provider model es now = Inr e \<Longrightarrow> e \<in> set es"
proof -
  assume p: "pick_entry provider model es now = Inr e"
  let ?av = "eligible es model now"
  have "least_active av n sel = Some s \<Longrightarrow> s \<in> set av \<or> sel = Some s" for av n sel s
    using least_active_spec by fastforce
  then have "e \<in> set ?av"
    using p by (fastforce simp: pick_entry_def pick_scan_eq split: list.splits option.splits if_splits)
  then show ?thesis by (simp add: eligible_def)
qed

lemma pick_next_effect:
  assumes "reg_ok (m_registry m)" "pick_next_from_registry provider model tried m now = (Inr a, m1)"
  shows "request_frame m m1 \<and> a_id a \<in> dom (lookup_entry (m_registry m)) \<and> a_id a \<notin> set tried
    \<and> a_provider a = provider \<and> serves m (a_id a) (trim_model model)"
proof -
  obtain e where e: "pick_entry provider model (entry_candidates m provider model tried) now = Inr e"
    and a: "a = to_auth (increment_active_requests e)"
    and m1: "m1 = m\<lparr>m_registry := put_entry (increment_active_requests e) (m_registry m)\<rparr>"
    using assms(2)
    by (auto simp: pick_next_from_registry_def reg_pick_def Let_def split: if_splits sum.splits)
  have c: "e \<in> set (entry_candidates m provider model tried)" using pick_entry_in [OF e] .
  then have l: "lookup_entry (m_registry m) (e_id e) = Some e"
    using entries_lookup [OF assms(1)] by (auto simp: entry_candidates_def)
  have "e_provider (increment_active_requests e) = e_provider e"
    by (simp add: increment_active_requests_def)
  moreover have "dom ((lookup_entry (m_registry m))(e_id e \<mapsto> y)) = dom (lookup_entry (m_registry m))" for y
    using l by auto
  ultimately show ?thesis
    using c l assms(1) by (auto simp: a m1 request_frame_def lookup_put entry_candidates_def list_by_provider_def)
qed

lemma pick_next_error:
  "pick_next_from_registry provider model tried m now = (Inl err, m1) \<Longrightarrow> m1 = m"
  by (auto simp: pick_next_from_registry_def reg_pick_def Let_def split: if_splits sum.splits)

text \<open>The loop over the credentials ends, by the number of those not tried yet.\<close>

lemma credential_loop_ends:
  assumes fin: "\<And>a resp now m. reg_ok (m_registry m) \<Longrightarrow> request_frame m (snd (finish a resp now m))"
    and "reg_ok (m_registry m)" "distinct tried" "set tried \<subseteq> dom (lookup_entry (m_registry m))"
  shows "\<exists>res tried' m'. credential_loop n finish provider model tried last_err m = Some (res, tried', m')
    \<and> request_frame m m' \<and> distinct tried' \<and> prefix tried tried' \<and> set tried' \<subseteq> dom (lookup_entry (m_registry m))"
  using assms(2-4)
proof (induction "card (dom (lookup_entry (m_registry m)) - set tried)" arbitrary: tried last_err m rule: less_induct)
  case less
  let ?D = "\<lambda>m. dom (lookup_entry (m_registry m))"
  let ?now = "n_clock n (2 * length tried)" let ?later = "n_clock n (2 * length tried + 1)"
  obtain r m1 where p: "pick_next_from_registry provider model tried m ?now = (r, m1)" by fastforce
  show ?case
  proof (cases r)
    case (Inl err)
    then show ?thesis
      using less.prems pick_next_error [OF p [unfolded Inl]] p
      by (subst credential_loop.simps) (auto simp: frame_refl)
  next
    case (Inr a)
    note eff = pick_next_effect [OF less.prems(1) p [unfolded Inr]]
    then have k: "request_frame m m1" and a: "a_id a \<in> ?D m" "a_id a \<notin> set tried" by simp_all
    note ok1 = frame_ok [OF k]
    let ?tried = "tried @ [a_id a]"
    have t: "distinct ?tried" "set ?tried \<subseteq> ?D m" using a less.prems by simp_all
    have rec: "\<exists>res tried' m'. credential_loop n finish provider model ?tried last_err' m2 = Some (res, tried', m')
        \<and> request_frame m m' \<and> distinct tried' \<and> prefix tried tried' \<and> set tried' \<subseteq> ?D m"
      if k2: "request_frame m m2" for last_err' m2
    proof -
      have d: "?D m2 = ?D m" using k2 by (simp add: request_frame_def)
      have "?D m2 - set ?tried \<subset> ?D m - set tried" using a unfolding d by auto
      then have "card (?D m2 - set ?tried) < card (?D m - set tried)"
        using finite_lookup [OF less.prems(1)] by (intro psubset_card_mono) auto
      from less.hyps [OF this frame_ok [OF k2] t(1), of last_err'] t(2) show ?thesis
        unfolding d using frame_trans [OF k2] append_prefixD by fastforce
    qed
    note mk = frame_trans [OF k mark_result_frame [OF ok1]]
    show ?thesis
    proof (cases "n_exec n a")
      case res: (Inr resp)
      obtain z m2 where z: "finish a resp ?later m1 = (z, m2)" by fastforce
      then have "request_frame m1 m2" using fin [OF ok1, of a resp ?later] by simp
      then show ?thesis using p Inr res z t frame_trans [OF k]
        by (subst credential_loop.simps) simp
    next
      case (Inl e)
      then show ?thesis using p Inr k t rec [OF k] rec [OF mk]
        by (subst credential_loop.simps) simp
    qed
  qed
qed

lemma respond_frame: "reg_ok (m_registry m) \<Longrightarrow> request_frame m (snd (respond b provider model a resp now m))"
  by (simp add: respond_def mark_result_frame)

lemma hand_out_frame: "reg_ok (m_registry m) \<Longrightarrow> request_frame m (snd (hand_out a stream now m))"
  by (simp add: hand_out_def frame_refl)

lemma execute_with_provider_ends:
  assumes "reg_ok (m_registry m)"
  shows "\<exists>res tried m'. execute_with_provider n open_breaker provider model m = Some (res, tried, m')
    \<and> request_frame m m' \<and> distinct tried \<and> set tried \<subseteq> dom (lookup_entry (m_registry m))"
  using assms credential_loop_ends [OF respond_frame assms, where tried = "[]" and n = n and provider = provider
      and model = "get_model_id_for_provider (m_models m) model provider" and last_err = None]
  by (auto simp: execute_with_provider_def try_credentials_def frame_refl)

lemma execute_stream_with_provider_ends:
  assumes "reg_ok (m_registry m)"
  shows "\<exists>res tried m'. execute_stream_with_provider n breaker_allows provider model m = Some (res, tried, m')
    \<and> request_frame m m' \<and> distinct tried \<and> set tried \<subseteq> dom (lookup_entry (m_registry m))"
  using assms credential_loop_ends [OF hand_out_frame assms, where tried = "[]" and n = n and provider = provider
      and model = "get_model_id_for_provider (m_models m) model provider" and last_err = None]
  by (auto simp: execute_stream_with_provider_def open_stream_def frame_refl)

lemma providers_loop_ends:
  assumes "\<And>p m. reg_ok (m_registry m) \<Longrightarrow> \<exists>res tried m'. run p m = Some (res, tried, m') \<and> request_frame m m'"
    and "reg_ok (m_registry m)"
  shows "\<exists>res p m'. providers_loop run ps last_err last_provider m = Some (res, p, m') \<and> request_frame m m'"
  using assms(2)
proof (induction ps arbitrary: last_err last_provider m)
  case (Cons p ps)
  obtain res tried m1 where r: "run p m = Some (res, tried, m1)" and f: "request_frame m m1"
    using assms(1) [OF Cons.prems] by blast
  show ?case
  proof (cases res)
    case (Inl e)
    from Cons.IH [OF frame_ok [OF f], of "Some e" p] obtain res' q m' where
      "providers_loop run ps (Some e) p m1 = Some (res', q, m')" "request_frame m1 m'" by blast
    then show ?thesis using r Inl frame_trans [OF f] by simp
  qed (use r f in simp)
qed (simp add: frame_refl)

text \<open>A call of a provider that ends with the rest of the manager untouched.\<close>

definition ends :: "(string \<Rightarrow> manager \<Rightarrow> ((exec_error + 'r) \<times> string list \<times> manager) option) \<Rightarrow> bool" where
  "ends run \<longleftrightarrow> (\<forall>p m. reg_ok (m_registry m) \<longrightarrow>
     (\<exists>res tried m'. run p m = Some (res, tried, m') \<and> request_frame m m'))"

lemma execute_ends: "ends (\<lambda>p. execute_with_provider (env p) open_breaker p model)"
  using execute_with_provider_ends unfolding ends_def by blast

lemma stream_ends: "ends (\<lambda>p. execute_stream_with_provider (env p) breaker_allows p model)"
  using execute_stream_with_provider_ends unfolding ends_def by blast

lemma round_ends:
  assumes "ends run" "reg_ok (m_registry m)"
  shows "\<exists>res q m'. execute_providers_once run ps last_provider m = Some (res, q, m') \<and> request_frame m m'"
  using providers_loop_ends [of run m ps] assms
  by (auto simp: ends_def execute_providers_once_def frame_refl)

text \<open>Deciding and waiting touch the manager's credentials only.\<close>

definition waits :: "manager \<Rightarrow> manager \<Rightarrow> bool" where
  "waits m m' \<longleftrightarrow> m_budget m' = m_budget m \<and> m_registry m' = m_registry m"

lemma waits_refl [simp]: "waits m m"
  by (simp add: waits_def)

lemma waits_trans: "waits a b \<Longrightarrow> waits b c \<Longrightarrow> waits a c"
  by (simp add: waits_def)

lemma waits_scans [simp]:
  "waits m (snd (has_available_auth rs ps model m now))"
  "waits m (snd (closest_cooldown_wait rs ps model m now))"
  by (simp_all add: waits_def has_available_auth_def closest_cooldown_wait_def split: prod.split)

lemma waits_poll: "waits m (snd (poll_available rs ps model deadline ticks m))"
proof (induction ticks arbitrary: m)
  case (Cons t ticks)
  obtain b m1 where h: "has_available_auth rs ps model m t = (b, m1)" by fastforce
  then have "waits m m1" using waits_scans(1) [of m rs ps model t] by simp
  with Cons.IH [of m1] show ?case using h by (auto intro: waits_trans)
qed (simp add: waits_def)

lemma waits_decisions:
  "waits m (snd (should_retry_after_error rs e k n ps model m now now'))"
  "waits m (snd (wait_for_available_auth rs ps model max_wait ticks m now))"
proof -
  obtain b m1 where h: "has_available_auth rs ps model m now = (b, m1)" by fastforce
  then have m1: "waits m m1" using waits_scans(1) [of m rs ps model now] by simp
  obtain w m2 where c: "closest_cooldown_wait rs ps model m1 now' = (w, m2)" by fastforce
  then have "waits m1 m2" using waits_scans(2) [of m1 rs ps model now'] by simp
  with m1 show "waits m (snd (should_retry_after_error rs e k n ps model m now now'))"
    using h c by (auto simp: should_retry_after_error_def intro: waits_trans)
  show "waits m (snd (wait_for_available_auth rs ps model max_wait ticks m now))"
    using h m1 waits_poll [of m1] by (auto simp: wait_for_available_auth_def intro: waits_trans)
qed

lemma acquire_release:
  "budget_ok b \<Longrightarrow> try_acquire b = (True, b') \<Longrightarrow> release b' = b"
  by (auto simp: try_acquire_def release_def budget_ok_def split: if_splits)

lemma try_acquire_False: "try_acquire b = (False, b') \<Longrightarrow> b' = b"
  by (auto simp: try_acquire_def split: if_splits)

lemma attempts_loop_ends:
  assumes run: "\<And>v. ends (run v)" and "reg_ok (m_registry m)" "budget_ok (m_budget m)"
  shows "\<exists>res c m'. attempts_loop rs env run stats ps model max_wait n left last_err last_provider m = Some (res, c, m')
    \<and> c \<le> left \<and> m_budget m' = m_budget m \<and> reg_ok (m_registry m')
    \<and> dom (lookup_entry (m_registry m')) = dom (lookup_entry (m_registry m))"
  using assms(2, 3)
proof (induction left arbitrary: last_err last_provider m)
  case (Suc left)
  let ?k = "n - Suc left" let ?v = "env ?k"
  obtain acquired b where ab: "(if ?k = 0 then (True, m_budget m) else try_acquire (m_budget m)) = (acquired, b)"
    by fastforce
  let ?m1 = "m\<lparr>m_budget := b\<rparr>"
  let ?gb = "\<lambda>m :: manager. if ?k = 0 then m else m\<lparr>m_budget := release (m_budget m)\<rparr>"
  show ?case
  proof (cases acquired)
    case False
    then have "b = m_budget m" using ab by (auto dest: try_acquire_False split: if_splits)
    then show ?thesis using False ab Suc.prems by (simp add: Let_def)
  next
    case acq: True
    obtain res p m2 where r: "execute_providers_once (run ?v) ps last_provider ?m1 = Some (res, p, m2)"
      and f: "request_frame ?m1 m2"
      using round_ends [OF run [of ?v], of ?m1 ps last_provider] Suc.prems by auto
    have given: "m_budget (?gb (note_attempt stats ?v p model s m2)) = m_budget m
        \<and> m_registry (?gb (note_attempt stats ?v p model s m2)) = m_registry m2" for s
      using f ab acq acquire_release [OF Suc.prems(2), of b]
      by (auto simp: note_attempt_def record_provider_result_def request_frame_def split: if_splits)
    have reg2: "reg_ok (m_registry m2)" "dom (lookup_entry (m_registry m2)) = dom (lookup_entry (m_registry m))"
      using f by (simp_all add: request_frame_def)
    show ?thesis
    proof (cases res)
      case (Inr resp)
      then show ?thesis using r ab acq given reg2 by (simp add: Let_def)
    next
      case (Inl e)
      let ?m3 = "?gb (note_attempt stats ?v p model False m2)"
      obtain again m4 where s: "should_retry_after_error rs e ?k n ps model ?m3 (v_decide ?v) (v_decide' ?v) = (again, m4)"
        by fastforce
      obtain ok m5 where w: "wait_for_available_auth rs ps model max_wait (v_ticks ?v) m4 (v_wait ?v) = (ok, m5)"
        by fastforce
      have m4: "waits ?m3 m4" using waits_decisions(1) [of ?m3 rs e ?k n ps model "v_decide ?v" "v_decide' ?v"] s by simp
      have "waits m4 m5" using waits_decisions(2) [of m4 rs ps model max_wait "v_ticks ?v" "v_wait ?v"] w by simp
      with m4 have m5: "waits ?m3 m5" by (rule waits_trans)
      have b5: "m_budget m5 = m_budget m" "m_registry m5 = m_registry m2"
        and b4: "m_budget m4 = m_budget m" "m_registry m4 = m_registry m2"
        using m4 m5 given by (simp_all add: waits_def)
      have "\<exists>res c m'. attempts_loop rs env run stats ps model max_wait n left (Some e) p m5 = Some (res, c, m')
          \<and> c \<le> left \<and> m_budget m' = m_budget m \<and> reg_ok (m_registry m')
          \<and> dom (lookup_entry (m_registry m')) = dom (lookup_entry (m_registry m))"
        using Suc.IH [of m5 "Some e" p] b5 reg2 Suc.prems(2) by simp
      then show ?thesis using r ab acq s w Inl b4 b5 reg2 by (auto simp: Let_def)
    qed
  qed
qed simp

text \<open>Normalised names.\<close>

lemma normalize_from_spec:
  "set (normalize_from seen xs) = norm_key ` set xs - ({[]} \<union> set seen)
     \<and> distinct (normalize_from seen xs)"
  by (induction xs arbitrary: seen) (auto simp: Let_def)

lemma trim_twice: "trim_space (trim_space s) = trim_space s"
proof (cases "trim_space s = []")
  case False
  let ?d = "dropWhile is_space s"
  have t: "trim_space s = rev (dropWhile is_space (rev ?d))" by (simp add: trim_space_def)
  have "rev (dropWhile is_space (rev ?d)) \<noteq> []" using False t by simp
  then have "\<not> is_space (last (trim_space s))"
    unfolding t by (simp add: last_rev hd_dropWhile)
  moreover have "\<not> is_space (hd (trim_space s))"
  proof -
    obtain u where "?d = trim_space s @ u" unfolding t
      by (metis rev_append rev_rev_ident takeWhile_dropWhile_id)
    then have "hd (trim_space s) = hd ?d" using False by simp
    moreover have "?d \<noteq> []" using False by (cases ?d) (simp_all add: trim_space_def)
    ultimately show ?thesis using hd_dropWhile [of is_space s] by metis
  qed
  ultimately show ?thesis using False by (intro trim_space_id)
next
  case True
  then show ?thesis unfolding True by (simp add: trim_space_def)
qed

lemma is_space_lower: "is_space (lower_char c) = is_space c"
  by (auto simp: lower_char_def is_space_def Let_def)

lemma trim_lower: "trim_space (to_lower s) = to_lower (trim_space s)"
  by (simp add: trim_space_def to_lower_def dropWhile_map o_def is_space_lower rev_map)

lemma norm_key_idem [simp]: "norm_key (norm_key s) = norm_key s"
  by (simp add: norm_key_def trim_lower trim_twice)

lemma normalize_fixed:
  "(\<forall>x \<in> set xs. norm_key x = x \<and> x \<noteq> []) \<Longrightarrow> distinct xs \<Longrightarrow> set xs \<inter> set seen = {}
     \<Longrightarrow> normalize_from seen xs = xs"
  by (induction xs arbitrary: seen) (auto simp: Let_def)

lemma mset_sort_by_score: "mset (sort_by_score s ps model now) = mset ps"
proof -
  have "mset (List.map fst (insertion_sort items)) = mset (List.map fst items)" for items
    by (simp only: mset_map conjunct1 [OF insertion_sort_props])
  then show ?thesis
    by (simp add: sort_by_score_def Let_def o_def image_mset.compositionality)
qed

section \<open>Properties\<close>

text \<open>
  C8: A provider tries each of its credentials at most once and then answers: the loop ends on every
  consistent registry, whatever the executors answer.
\<close>

theorem credentials_tried_once:
  assumes "reg_ok (m_registry m)"
  shows "\<exists>res tried m'. execute_with_provider n open_breaker provider model m = Some (res, tried, m')
    \<and> distinct tried \<and> length tried \<le> reg_count (m_registry m)"
proof -
  obtain res tried m' where r: "execute_with_provider n open_breaker provider model m = Some (res, tried, m')"
    and d: "distinct tried" and s: "set tried \<subseteq> dom (lookup_entry (m_registry m))"
    using execute_with_provider_ends [OF assms] by blast
  have "length tried \<le> reg_count (m_registry m)"
    using card_mono [OF finite_lookup [OF assms] s] distinct_card [OF d] by (simp add: dom_lookup_count [OF assms])
  with r d show ?thesis by blast
qed

definition sample_env :: "auth \<Rightarrow> exec_error + string" where
  "sample_env a = Inl (of_prov_error (mk_error ''bad'' ''down''))"

definition sample_exec :: "string exec_env" where
  "sample_exec = \<lparr>n_no_cooldown = False, n_body = cooldown_message, n_clock = (\<lambda>k. sample_time + int k),
     n_exec = sample_env\<rparr>"

theorem credentials_tried_once_witness:
  "\<exists>res tried m'. execute_with_provider sample_exec (\<lambda>_. False) ''claude'' ''m'' sample_manager = Some (res, tried, m')
    \<and> distinct tried \<and> length tried \<le> reg_count (m_registry sample_manager)"
  by (rule credentials_tried_once [OF sample_manager_ok])

text \<open>
  C2: A request ends, after at most as many attempts as the settings allow, and has then given back
  all it took of the retry budget, however it ended.
\<close>

theorem execute_ends_within_budget:
  assumes "reg_ok (m_registry m)" "budget_ok (m_budget m)"
  shows "\<exists>res c m'. execute rs env providers model m now = Some (res, c, m')
    \<and> c \<le> max 1 (nat (m_request_retry m + 1)) \<and> m_budget m' = m_budget m \<and> reg_ok (m_registry m')"
proof (cases "normalize_providers providers = []")
  case True
  then show ?thesis using assms by (simp add: execute_def run_attempts_def)
next
  case False
  let ?n = "if nat (m_request_retry m + 1) < 1 then 1 else nat (m_request_retry m + 1)"
  obtain res c m' where "execute rs env providers model m now = Some (res, c, m')" "c \<le> ?n"
    "m_budget m' = m_budget m" "reg_ok (m_registry m')"
    using attempts_loop_ends [where run = "\<lambda>v p. execute_with_provider (v_env v p) (v_breaker_open v) p model",
        OF execute_ends assms, where rs = rs and env = env and stats = True and model = model
        and ps = "select_providers (v_breaker_open (env 0)) model (normalize_providers providers) m now"
        and max_wait = "m_max_retry_interval m" and left = ?n and n = ?n and last_err = None and last_provider = "[]"] False
    by (auto simp: execute_def run_attempts_def Let_def)
  then show ?thesis by (auto simp: max_def split: if_splits)
qed

definition sample_attempt :: "nat \<Rightarrow> string attempt_env" where
  "sample_attempt k = \<lparr>v_env = (\<lambda>_. sample_exec), v_breaker_open = (\<lambda>_. False), v_start = sample_time,
     v_end = sample_time + 1, v_decide = sample_time + 2, v_decide' = sample_time + 3, v_wait = sample_time + 4,
     v_ticks = []\<rparr>"

theorem execute_ends_within_budget_witness:
  "\<exists>res c m'. execute default_resolvers sample_attempt [''claude''] ''m'' sample_manager sample_time = Some (res, c, m')
    \<and> c \<le> 1 \<and> m_budget m' = m_budget sample_manager"
proof -
  have "budget_ok (m_budget sample_manager)" "max 1 (nat (m_request_retry sample_manager + 1)) = 1"
    by (simp_all add: sample_manager_def empty_manager_def register_executor_def new_manager_def)
  then show ?thesis
    using execute_ends_within_budget [OF sample_manager_ok, of default_resolvers sample_attempt "[''claude'']"
        "''m''" sample_time] by auto
qed

text \<open>
  What a result does to the registry never reaches the map the retry decision reads: whether a
  credential is available, and for how long the others are blocked, is the same after any number
  of failures as before.
\<close>

theorem retry_sees_no_results:
  "let m' = fold (\<lambda>(x, now) m. mgr_mark_result no_cooldown x m now) xs m in
     fst (has_available_auth rs ps model m' t) = fst (has_available_auth rs ps model m t)
    \<and> fst (closest_cooldown_wait rs ps model m' t) = fst (closest_cooldown_wait rs ps model m t)"
proof -
  let ?m' = "fold (\<lambda>(x, now) m. mgr_mark_result no_cooldown x m now) xs m"
  have one: "m_auths (mgr_mark_result no_cooldown x u now) = m_auths u
      \<and> m_models (mgr_mark_result no_cooldown x u now) = m_models u" for x u now
    by (simp add: mgr_mark_result_def note_quota_hit_def)
  have "m_auths ?m' = m_auths m \<and> m_models ?m' = m_models m"
    by (induction xs arbitrary: m) (simp_all add: one case_prod_unfold)
  then have "m_auths ?m' = m_auths m" "wait_candidate ?m' ps model = wait_candidate m ps model"
    by (simp_all add: fun_eq_iff wait_candidate_def serves_def)
  then show ?thesis by (simp add: Let_def has_available_auth_def closest_cooldown_wait_def split: prod.split)
qed

text \<open>
  An error of the gateway's own type without a category is never a reason to try again, whatever
  its status, a 429 included; nor is a user's fault, a revoked token or the last attempt.
\<close>

theorem unclassified_error_not_retried:
  assumes "err_category p = CategoryUnknown \<or> is_user_fault (err_category p) \<or> should_disable_auth (err_category p)
    \<or> n \<le> k + 1"
  shows "should_retry_after_error rs (of_prov_error p) k n ps model m now now' = (False, m)"
  using assms
  by (auto simp: should_retry_after_error_def category_from_error_def of_prov_error_def should_fallback_def
      is_user_fault_def should_disable_auth_def)

theorem unclassified_error_not_retried_witness:
  "should_retry_after_error default_resolvers (of_prov_error ((mk_error [] ''slow down'')\<lparr>err_http_status := 429\<rparr>))
     0 5 [''claude''] ''m'' sample_manager sample_time sample_time = (False, sample_manager)"
  by (rule unclassified_error_not_retried) (simp add: mk_error_def)

text \<open>
  Normalising the providers of a request keeps each name once, trimmed and in lower case, and is
  idempotent; choosing among them drops exactly those whose breaker is open, unless all are, and
  never leaves a request without a provider.
\<close>

theorem providers_normalised_and_selected:
  "set (normalize_providers xs) = norm_key ` set xs - {[]} \<and> distinct (normalize_providers xs)
    \<and> normalize_providers (normalize_providers xs) = normalize_providers xs
    \<and> mset (select_providers br model ps m now)
        = mset (if length ps \<le> 1 \<or> (\<forall>p \<in> set ps. br p) then ps else filter (\<lambda>p. \<not> br p) ps)
    \<and> (ps \<noteq> [] \<longrightarrow> select_providers br model ps m now \<noteq> [])"
proof -
  note spec = normalize_from_spec [of "[]" xs, folded normalize_providers_def]
  have "normalize_providers (normalize_providers xs) = normalize_providers xs"
    using spec unfolding normalize_providers_def [of "normalize_providers xs"]
    by (intro normalize_fixed) auto
  moreover have sel: "mset (select_providers br model ps m now)
      = mset (if length ps \<le> 1 \<or> (\<forall>p \<in> set ps. br p) then ps else filter (\<lambda>p. \<not> br p) ps)"
    by (simp add: select_providers_def Let_def mset_sort_by_score filter_empty_conv)
  moreover have "select_providers br model ps m now \<noteq> []" if "ps \<noteq> []"
  proof
    assume "select_providers br model ps m now = []"
    then have "mset (if length ps \<le> 1 \<or> (\<forall>p \<in> set ps. br p) then ps else filter (\<lambda>p. \<not> br p) ps) = {#}"
      using sel by simp
    then show False using that by (auto simp: filter_empty_conv split: if_splits)
  qed
  ultimately show ?thesis using spec by auto
qed

theorem providers_normalised_and_selected_witness:
  "select_providers (\<lambda>p. p = ''a'') ''m'' [''a'', ''b''] sample_manager sample_time = [''b'']"
proof -
  have "mset (select_providers (\<lambda>p. p = ''a'') ''m'' [''a'', ''b''] sample_manager sample_time) = {#''b''#}"
    using providers_normalised_and_selected [of "[]" "\<lambda>p. p = ''a''" "''m''" "[''a'', ''b'']" sample_manager sample_time]
    by simp
  then show ?thesis by simp
qed

text \<open>The chunks of a stream, and what the relay does with them.\<close>

definition chunks_of :: "(gotime \<times> 'c relay_event) list \<Rightarrow> 'c list" where
  "chunks_of evs = List.map_filter (\<lambda>(_, ev). case ev of Chunk c _ _ \<Rightarrow> Some c | _ \<Rightarrow> None) evs"

lemma relay_after_failure:
  "relay nc a provider model start evs True out m = (out', Some b, m') \<Longrightarrow>
     \<not> b \<and> m_registry m' = m_registry m \<and> (\<exists>pre. prefix pre (chunks_of evs) \<and> out' = out @ pre)"
proof (induction evs arbitrary: out)
  case (Cons ev evs)
  show ?case
  proof (cases ev)
    case (Pair t e)
    show ?thesis
    proof (cases e)
      case (Chunk c err sent)
      show ?thesis
      proof (cases sent)
        case True
        then have "relay nc a provider model start evs True (out @ [c]) m = (out', Some b, m')"
          using Cons.prems Pair Chunk by simp
        from Cons.IH [OF this] obtain pre where "prefix pre (chunks_of evs)" "out' = out @ c # pre"
          "\<not> b" "m_registry m' = m_registry m" by auto
        then show ?thesis using Pair Chunk
          by (auto simp: chunks_of_def List.map_filter_simps intro!: exI [of _ "c # pre"])
      qed (use Cons.prems Pair Chunk in \<open>auto simp: record_provider_result_def\<close>)
    qed (use Cons.prems Pair in \<open>auto simp: record_provider_result_def\<close>)
  qed
qed simp

lemma relay_outcome:
  assumes "relay nc a provider model start evs False out m = (out', Some b, m')"
  shows "(\<exists>pre. prefix pre (chunks_of evs) \<and> out' = out @ pre)
     \<and> (b \<and> m_registry m' = m_registry m
        \<or> (\<exists>x t. x_auth_id x = a_id a \<and> x_success x = b \<and> m_registry m' = m_registry (mgr_mark_result nc x m t)))"
  using assms
proof (induction evs arbitrary: out)
  case (Cons ev evs)
  show ?case
  proof (cases ev)
    case (Pair t e)
    show ?thesis
    proof (cases e)
      case Closed
      then have "b" "out' = out" "m_registry m' = m_registry (mgr_mark_result nc (success_result a provider model) m t)"
        using Cons.prems Pair by (auto simp: record_provider_result_def Let_def)
      moreover have "x_auth_id (success_result a provider model) = a_id a" "x_success (success_result a provider model)"
        by (simp_all add: success_result_def)
      ultimately show ?thesis by auto
    next
      case (Chunk c err sent)
      have shift: "(\<exists>pre. prefix pre (chunks_of evs) \<and> out' = (out @ [c]) @ pre)
          \<Longrightarrow> (\<exists>pre. prefix pre (chunks_of (ev # evs)) \<and> out' = out @ pre)"
      proof -
        assume "\<exists>pre. prefix pre (chunks_of evs) \<and> out' = (out @ [c]) @ pre"
        then obtain pre where "prefix pre (chunks_of evs)" "out' = out @ c # pre" by auto
        then show ?thesis using Pair Chunk
          by (intro exI [of _ "c # pre"]) (simp add: chunks_of_def List.map_filter_simps)
      qed
      show ?thesis
      proof (cases err)
        case None
        show ?thesis
        proof (cases sent)
          case True
          then have "relay nc a provider model start evs False (out @ [c]) m = (out', Some b, m')"
            using Cons.prems Pair Chunk None by simp
          from Cons.IH [OF this] shift show ?thesis by blast
        qed (use Cons.prems Pair Chunk None in \<open>auto simp: record_provider_result_def\<close>)
      next
        case (Some e')
        let ?x = "failure_result a provider model e'" let ?m1 = "mgr_mark_result nc ?x m t"
        have x: "x_auth_id ?x = a_id a" "\<not> x_success ?x" by (simp_all add: failure_result_def)
        show ?thesis
        proof (cases "er_canceled e'")
          case False
          show ?thesis
          proof (cases sent)
            case True
            then have "relay nc a provider model start evs True (out @ [c]) ?m1 = (out', Some b, m')"
              using Cons.prems Pair Chunk Some False by simp
            from relay_after_failure [OF this] shift x show ?thesis by blast
          next
            case False
            then have "\<not> b" "out' = out" "m_registry m' = m_registry ?m1"
              using Cons.prems Pair Chunk Some \<open>\<not> er_canceled e'\<close> by (auto simp: record_provider_result_def Let_def)
            then show ?thesis using x by auto
          qed
        qed (use Cons.prems Pair Chunk Some in \<open>auto simp: record_provider_result_def\<close>)
      qed
    qed (use Cons.prems Pair in \<open>auto simp: record_provider_result_def\<close>)
  qed
qed simp

text \<open>
  A stream is reported once: the breaker is told of a success exactly when no chunk failed, what
  was passed on is the beginning of the stream, and one result is recorded for the credential that
  agrees with what the breaker hears. Only a stream that is broken off by the caller before
  anything failed records nothing, so that the request its pick counted stays counted.
\<close>

theorem stream_reported_once:
  assumes "relay nc a provider model start evs False [] m = (out, Some b, m')"
  shows "prefix out (chunks_of evs)
     \<and> (b \<and> m_registry m' = m_registry m
        \<or> (\<exists>x t. x_auth_id x = a_id a \<and> x_success x = b \<and> m_registry m' = m_registry (mgr_mark_result nc x m t)))"
  using relay_outcome [OF assms] by auto

theorem stream_reported_once_witness:
  "prefix [1] (chunks_of [(5, Chunk (1 :: nat) None True), (6, CtxDone)])"
  using stream_reported_once [of False sample_credential "''claude''" "''m''" 4
      "[(5, Chunk (1 :: nat) None True), (6, CtxDone)]" sample_manager "[1]" True] by simp

end
