(* ===== verification/JsonValue.thy ===== *)
theory JsonValue
  imports Prelude
begin

text \<open>
  JSON values as \<open>json.Unmarshal\<close> leaves them in a Go \<open>any\<close>: \<open>nil\<close>, \<open>bool\<close>, \<open>float64\<close>,
  \<open>string\<close>, \<open>[]any\<close> and \<open>map[string]any\<close>. The translator works on such values. An object is an
  association list in the order in which a \<open>range\<close> loop visits it.
\<close>

datatype jval =
    JNull
  | JBool bool
  | JNum rat
  | JStr string
  | JArr "jval list"
  | JObj "(string \<times> jval) list"

type_synonym jobj = "(string, jval) gomap"

fun is_obj :: "jval \<Rightarrow> bool" where
  "is_obj (JObj m) = True"
| "is_obj _ = False"

text \<open>The keys of every object in a value are distinct, as in a Go map.\<close>

fun wf_json :: "jval \<Rightarrow> bool" and wf_items :: "jval list \<Rightarrow> bool" and wf_fields :: "jobj \<Rightarrow> bool" where
  "wf_json (JArr xs) = wf_items xs"
| "wf_json (JObj m) \<longleftrightarrow> wf_map m \<and> wf_fields m"
| "wf_json _ = True"
| "wf_items [] = True"
| "wf_items (x # xs) \<longleftrightarrow> wf_json x \<and> wf_items xs"
| "wf_fields [] = True"
| "wf_fields ((k, v) # m) \<longleftrightarrow> wf_json v \<and> wf_fields m"

lemma wf_items_iff: "wf_items xs \<longleftrightarrow> (\<forall>x \<in> set xs. wf_json x)"
  by (induction xs) auto

lemma wf_fields_iff: "wf_fields m \<longleftrightarrow> (\<forall>(k, v) \<in> set m. wf_json v)"
  by (induction m) auto

end
