(* ===== verification/PayloadSpec.thy ===== *)
theory PayloadSpec
  imports JsonValue
begin

text \<open>
  The whitelists of provider payloads and the sanitiser that enforces them
  (\<open>internal/translator/ir/payload_spec.go\<close> and \<open>payload_validator.go\<close>). A sanitised value is
  \<open>None\<close> where the code returns \<open>nil\<close>; the entries of the report are returned in order, and the
  report is \<open>Changed\<close> when there is one. Decoding and encoding JSON belong to a library and are
  arguments.
\<close>

section \<open>Specifications\<close>

datatype field_type = FTString | FTNumber | FTBoolean | FTObject | FTArray | FTAny

datatype field_spec = FieldSpec
  (fs_type: field_type) (fs_required: bool) (fs_nullable: bool)
  (fs_children: "(string \<times> field_spec) list option") (fs_items: "field_spec option")

type_synonym field_specs = "(string, field_spec) gomap"

record payload_spec =
  ps_name :: string
  ps_fields :: field_specs

definition is_allowed :: "payload_spec option \<Rightarrow> string \<Rightarrow> bool" where
  "is_allowed s name = (case s of None \<Rightarrow> False | Some s \<Rightarrow> mget (ps_fields s) name \<noteq> None)"

definition get_field_spec :: "payload_spec option \<Rightarrow> string \<Rightarrow> field_spec option" where
  "get_field_spec s name = (case s of None \<Rightarrow> None | Some s \<Rightarrow> mget (ps_fields s) name)"

definition string_field :: "bool \<Rightarrow> field_spec" where
  "string_field required = FieldSpec FTString required False None None"

definition number_field :: "bool \<Rightarrow> field_spec" where
  "number_field required = FieldSpec FTNumber required False None None"

definition bool_field :: "bool \<Rightarrow> field_spec" where
  "bool_field required = FieldSpec FTBoolean required False None None"

definition object_field :: "bool \<Rightarrow> field_specs option \<Rightarrow> field_spec" where
  "object_field required children = FieldSpec FTObject required False children None"

definition array_field :: "bool \<Rightarrow> field_spec option \<Rightarrow> field_spec" where
  "array_field required items = FieldSpec FTArray required False None items"

definition any_field :: "bool \<Rightarrow> field_spec" where
  "any_field required = FieldSpec FTAny required False None None"

definition gemini_contents_part_spec :: field_specs where
  "gemini_contents_part_spec =
     [(''text'', string_field False),
      (''thought'', bool_field False),
      (''thoughtSignature'', string_field False),
      (''inlineData'', object_field False (Some
         [(''mimeType'', string_field True), (''data'', string_field True)])),
      (''fileData'', object_field False (Some
         [(''mimeType'', string_field False), (''fileUri'', string_field True)])),
      (''functionCall'', object_field False (Some
         [(''name'', string_field True), (''args'', any_field False), (''id'', string_field False)])),
      (''functionResponse'', object_field False (Some
         [(''name'', string_field True), (''id'', string_field False), (''response'', any_field False)])),
      (''executableCode'', object_field False (Some
         [(''language'', string_field False), (''code'', string_field True)])),
      (''codeExecutionResult'', object_field False (Some
         [(''outcome'', string_field True), (''output'', string_field False)]))]"

definition gemini_contents_spec :: field_spec where
  "gemini_contents_spec = array_field True (Some (object_field False (Some
     [(''role'', string_field True),
      (''parts'', array_field True (Some (object_field False (Some gemini_contents_part_spec)))),
      (''cacheControl'', object_field False (Some
         [(''type'', string_field True), (''ttl'', number_field False)]))])))"

definition gemini_generation_config_spec :: field_specs where
  "gemini_generation_config_spec =
     [(''temperature'', number_field False),
      (''topP'', number_field False),
      (''topK'', number_field False),
      (''maxOutputTokens'', number_field False),
      (''candidateCount'', number_field False),
      (''stopSequences'', array_field False (Some (string_field False))),
      (''presencePenalty'', number_field False),
      (''frequencyPenalty'', number_field False),
      (''responseMimeType'', string_field False),
      (''responseJsonSchema'', any_field False),
      (''responseLogprobs'', bool_field False),
      (''logprobs'', number_field False),
      (''seed'', number_field False),
      (''responseModalities'', array_field False (Some (string_field False))),
      (''thinkingConfig'', object_field False (Some
         [(''thinkingBudget'', number_field False), (''includeThoughts'', bool_field False),
          (''thinkingLevel'', string_field False)])),
      (''imageConfig'', object_field False (Some
         [(''aspectRatio'', string_field False), (''imageSize'', string_field False)]))]"

definition gemini_safety_settings_spec :: field_spec where
  "gemini_safety_settings_spec = object_field False (Some
     [(''category'', string_field True), (''threshold'', string_field True)])"

definition gemini_function_declaration_spec :: field_specs where
  "gemini_function_declaration_spec =
     [(''name'', string_field True), (''description'', string_field False),
      (''parameters'', any_field False), (''parametersJsonSchema'', any_field False)]"

definition gemini_tools_spec :: field_spec where
  "gemini_tools_spec = array_field False (Some (object_field False (Some
     [(''functionDeclarations'',
        array_field False (Some (object_field False (Some gemini_function_declaration_spec)))),
      (''googleSearch'', any_field False),
      (''googleSearchRetrieval'', object_field False (Some
         [(''dynamicRetrievalConfig'', object_field False (Some
            [(''mode'', string_field False), (''dynamicThreshold'', number_field False)]))])),
      (''codeExecution'', any_field False),
      (''urlContext'', any_field False),
      (''fileSearch'', any_field False)])))"

definition gemini_tool_config_spec :: field_specs where
  "gemini_tool_config_spec =
     [(''functionCallingConfig'', object_field False (Some
        [(''mode'', string_field False),
         (''allowedFunctionNames'', array_field False (Some (string_field False))),
         (''streamFunctionCallArguments'', bool_field False)]))]"

definition gemini_system_instruction_spec :: field_specs where
  "gemini_system_instruction_spec =
     [(''role'', string_field False),
      (''parts'', array_field False (Some (object_field False (Some [(''text'', string_field False)]))))]"

definition vertex_gemini_request_spec :: payload_spec where
  "vertex_gemini_request_spec = \<lparr>ps_name = ''VertexGeminiRequest'', ps_fields =
     [(''contents'', gemini_contents_spec),
      (''systemInstruction'', object_field False (Some gemini_system_instruction_spec)),
      (''generationConfig'', object_field False (Some gemini_generation_config_spec)),
      (''safetySettings'', array_field False (Some gemini_safety_settings_spec)),
      (''tools'', gemini_tools_spec),
      (''toolConfig'', object_field False (Some gemini_tool_config_spec)),
      (''cachedContent'', string_field False),
      (''labels'', any_field False),
      (''session_id'', string_field False)]\<rparr>"

definition claude_generation_config_spec :: field_specs where
  "claude_generation_config_spec =
     [(''temperature'', number_field False),
      (''topP'', number_field False),
      (''topK'', number_field False),
      (''maxOutputTokens'', number_field False),
      (''stopSequences'', array_field False (Some (string_field False))),
      (''thinkingConfig'', object_field False (Some
         [(''thinkingBudget'', number_field False), (''includeThoughts'', bool_field False)]))]"

definition claude_tools_spec :: field_spec where
  "claude_tools_spec = array_field False (Some (object_field False (Some
     [(''functionDeclarations'', array_field False (Some (object_field False (Some
        [(''name'', string_field True), (''description'', string_field False),
         (''parameters'', any_field False)]))))])))"

definition vertex_claude_request_spec :: payload_spec where
  "vertex_claude_request_spec = \<lparr>ps_name = ''VertexClaudeRequest'', ps_fields =
     [(''contents'', gemini_contents_spec),
      (''systemInstruction'', object_field False (Some gemini_system_instruction_spec)),
      (''generationConfig'', object_field False (Some claude_generation_config_spec)),
      (''tools'', claude_tools_spec),
      (''session_id'', string_field False)]\<rparr>"

definition antigravity_wrapper_spec :: payload_spec where
  "antigravity_wrapper_spec = \<lparr>ps_name = ''AntigravityWrapper'', ps_fields =
     [(''model'', string_field True),
      (''userAgent'', string_field False),
      (''project'', string_field False),
      (''requestId'', string_field False),
      (''requestType'', string_field False),
      (''request'', object_field True None)]\<rparr>"

text \<open>
  \<open>IsClaudeModel\<close> compares byte by byte: equal, or 32 less, or 32 more, in the arithmetic of
  bytes.
\<close>

definition claude_byte :: "char \<Rightarrow> char \<Rightarrow> bool" where
  "claude_byte p c \<longleftrightarrow> (let x = (of_char c :: 8 word); y = of_char p in x = y \<or> x = y - 32 \<or> x = y + 32)"

definition claude_match :: "string \<Rightarrow> string \<Rightarrow> bool" where
  "claude_match p s \<longleftrightarrow> list_all2 claude_byte p (take (length p) s)"

definition is_claude_model :: "string \<Rightarrow> bool" where
  "is_claude_model name \<longleftrightarrow>
     (\<exists>p \<in> set [''claude'', ''anthropic'']. \<exists>i \<in> set [0..<Suc (length name) - length p]. claude_match p (drop i name))"

definition get_request_spec_for_model :: "string \<Rightarrow> payload_spec" where
  "get_request_spec_for_model name =
     (if is_claude_model name then vertex_claude_request_spec else vertex_gemini_request_spec)"

section \<open>The sanitiser\<close>

datatype validation_action = ActionRemoved | ActionNullified | ActionFixed

record validation_entry =
  ve_path :: string
  ve_action :: validation_action
  ve_reason :: string

record validation_report =
  vr_spec_name :: string
  vr_entries :: "validation_entry list"
  vr_changed :: bool

definition add_entry :: "string \<Rightarrow> validation_action \<Rightarrow> string \<Rightarrow> validation_report \<Rightarrow> validation_report" where
  "add_entry path action reason r = r\<lparr>vr_entries := vr_entries r
     @ [\<lparr>ve_path = path, ve_action = action, ve_reason = reason\<rparr>], vr_changed := True\<rparr>"

definition field_path :: "string \<Rightarrow> string \<Rightarrow> string" where
  "field_path path k = (if path \<noteq> [] then path @ ''.'' @ k else k)"

fun itoa_digits :: "nat \<Rightarrow> string \<Rightarrow> string" where
  "itoa_digits i ds = (if i = 0 then ds else itoa_digits (i div 10) (char_of (48 + i mod 10) # ds))"

declare itoa_digits.simps [simp del]

definition itoa :: "nat \<Rightarrow> string" where
  "itoa i = (if i < 10 then [char_of (48 + i)] else itoa_digits i [])"

definition item_path :: "string \<Rightarrow> nat \<Rightarrow> string" where
  "item_path path i = path @ ''['' @ itoa i @ '']''"

definition is_undefined :: "string \<Rightarrow> bool" where
  "is_undefined s \<longleftrightarrow> s = ''[undefined]'' \<or> s = ''undefined''"

fun sanitize_any_value :: "string \<Rightarrow> jval \<Rightarrow> validation_report \<Rightarrow> jval option \<times> validation_report"
  and sanitize_any_object :: "string \<Rightarrow> jobj \<Rightarrow> validation_report \<Rightarrow> jobj \<times> validation_report"
  and sanitize_any_array :: "string \<Rightarrow> nat \<Rightarrow> jval list \<Rightarrow> validation_report \<Rightarrow> jval list \<times> validation_report" where
  "sanitize_any_value path (JObj m) r = apfst (Some o JObj) (sanitize_any_object path m r)"
| "sanitize_any_value path (JArr xs) r = apfst (Some o JArr) (sanitize_any_array path 0 xs r)"
| "sanitize_any_value path (JStr s) r =
     (if is_undefined s then (None, add_entry path ActionRemoved ''undefined value'' r) else (Some (JStr s), r))"
| "sanitize_any_value path JNull r = (None, r)"
| "sanitize_any_value path v r = (Some v, r)"
| "sanitize_any_object path [] r = ([], r)"
| "sanitize_any_object path ((k, v) # m) r =
     (if v = JNull
      then sanitize_any_object path m
             (add_entry (field_path path k) ActionRemoved ''null value in untyped object'' r)
      else let (s, r1) = sanitize_any_value (field_path path k) v r;
               (rest, r2) = sanitize_any_object path m r1
           in ((case s of None \<Rightarrow> rest | Some v' \<Rightarrow> (k, v') # rest), r2))"
| "sanitize_any_array path i [] r = ([], r)"
| "sanitize_any_array path i (x # xs) r =
     (if x = JNull then sanitize_any_array path (Suc i) xs r
      else let (s, r1) = sanitize_any_value (item_path path i) x r;
               (rest, r2) = sanitize_any_array path (Suc i) xs r1
           in ((case s of None \<Rightarrow> rest | Some x' \<Rightarrow> x' # rest), r2))"

definition removed :: "string \<Rightarrow> string \<Rightarrow> validation_report \<Rightarrow> jval option \<times> validation_report" where
  "removed path reason r = (None, add_entry path ActionRemoved reason r)"

fun sanitize_value :: "field_spec \<Rightarrow> string \<Rightarrow> jval \<Rightarrow> validation_report \<Rightarrow> jval option \<times> validation_report"
  and sanitize_object :: "field_specs \<Rightarrow> string \<Rightarrow> jobj \<Rightarrow> validation_report \<Rightarrow> jobj \<times> validation_report"
  and sanitize_array :: "field_spec option \<Rightarrow> string \<Rightarrow> nat \<Rightarrow> jval list \<Rightarrow> validation_report \<Rightarrow> jval list \<times> validation_report" where
  "sanitize_value spec path v r =
     (if v = JNull then (None, r)
      else case fs_type spec of
        FTAny \<Rightarrow> sanitize_any_value path v r
      | FTObject \<Rightarrow>
          (case v of
             JObj m \<Rightarrow>
               (case fs_children spec of
                  Some cs \<Rightarrow> apfst (Some o JObj) (sanitize_object cs path m r)
                | None \<Rightarrow> sanitize_any_value path v r)
           | _ \<Rightarrow> removed path ''expected object'' r)
      | FTArray \<Rightarrow>
          (case v of
             JArr xs \<Rightarrow> apfst (Some o JArr) (sanitize_array (fs_items spec) path 0 xs r)
           | _ \<Rightarrow> removed path ''expected array'' r)
      | FTString \<Rightarrow> (case v of JStr s \<Rightarrow> (Some v, r) | _ \<Rightarrow> removed path ''expected string'' r)
      | FTNumber \<Rightarrow> (case v of JNum x \<Rightarrow> (Some v, r) | _ \<Rightarrow> removed path ''expected number'' r)
      | FTBoolean \<Rightarrow> (case v of JBool b \<Rightarrow> (Some v, r) | _ \<Rightarrow> removed path ''expected boolean'' r))"
| "sanitize_object allowed path [] r = ([], r)"
| "sanitize_object allowed path ((k, v) # m) r =
     (case mget allowed k of
        None \<Rightarrow>
          sanitize_object allowed path m (add_entry (field_path path k) ActionRemoved ''not in whitelist'' r)
      | Some spec \<Rightarrow>
          if v = JNull then
            (if fs_nullable spec then apfst ((#) (k, JNull)) (sanitize_object allowed path m r)
             else sanitize_object allowed path m
                    (add_entry (field_path path k) ActionRemoved ''null not allowed'' r))
          else let (s, r1) = sanitize_value spec (field_path path k) v r;
                   (rest, r2) = sanitize_object allowed path m r1
               in ((case s of None \<Rightarrow> rest | Some v' \<Rightarrow> (k, v') # rest), r2))"
| "sanitize_array items path i [] r = ([], r)"
| "sanitize_array items path i (x # xs) r =
     (if x = JNull then sanitize_array items path (Suc i) xs r
      else let (s, r1) = (case items of
                            Some spec \<Rightarrow> sanitize_value spec (item_path path i) x r
                          | None \<Rightarrow> sanitize_any_value (item_path path i) x r);
               (rest, r2) = sanitize_array items path (Suc i) xs r1
           in ((case s of None \<Rightarrow> rest | Some x' \<Rightarrow> x' # rest), r2))"

section \<open>The entry points\<close>

definition new_report :: "string \<Rightarrow> validation_report" where
  "new_report name = \<lparr>vr_spec_name = name, vr_entries = [], vr_changed = False\<rparr>"

text \<open>
  \<open>unmarshal\<close> and \<open>marshal\<close> are \<open>json.Unmarshal\<close> into a map and \<open>json.Marshal\<close>; \<open>None\<close> is an
  error. A payload is its bytes.
\<close>

definition validate_and_sanitize_payload ::
    "(string \<Rightarrow> jobj option) \<Rightarrow> (jobj \<Rightarrow> string option) \<Rightarrow> string \<Rightarrow> payload_spec option \<Rightarrow> string \<times> validation_report" where
  "validate_and_sanitize_payload unmarshal marshal payload spec =
     (case spec of
        None \<Rightarrow> (payload, new_report ''none'')
      | Some s \<Rightarrow>
          if payload = [] then (payload, new_report ''none'')
          else case unmarshal payload of
            None \<Rightarrow> (payload, new_report (ps_name s))
          | Some data \<Rightarrow>
              let (cleaned, r) = sanitize_object (ps_fields s) [] data (new_report (ps_name s)) in
              if \<not> vr_changed r then (payload, r)
              else case marshal cleaned of None \<Rightarrow> (payload, r) | Some bytes \<Rightarrow> (bytes, r))"

definition sanitize_envelope :: "string \<Rightarrow> jobj \<Rightarrow> jobj \<times> validation_report" where
  "sanitize_envelope model data =
     (let (w, r) = sanitize_object (ps_fields antigravity_wrapper_spec) [] data (new_report ''antigravity'') in
      case mget w ''request'' of
        Some (JObj req) \<Rightarrow>
          let (q, r') = sanitize_object (ps_fields (get_request_spec_for_model model)) ''request'' req r
          in (mput ''request'' (JObj q) w, r')
      | _ \<Rightarrow> (w, r))"

definition validate_antigravity_payload ::
    "(string \<Rightarrow> jobj option) \<Rightarrow> (jobj \<Rightarrow> string option) \<Rightarrow> string \<Rightarrow> string \<Rightarrow> string \<times> validation_report" where
  "validate_antigravity_payload unmarshal marshal payload model =
     (case unmarshal payload of
        None \<Rightarrow> (payload, new_report ''antigravity'')
      | Some data \<Rightarrow>
          let (cleaned, r) = sanitize_envelope model data in
          if \<not> vr_changed r then (payload, r)
          else case marshal cleaned of None \<Rightarrow> (payload, r) | Some bytes \<Rightarrow> (bytes, r))"

section \<open>What a sanitised value looks like\<close>

text \<open>An untyped value without nulls and without the text of an undefined value.\<close>

fun clean_any :: "jval \<Rightarrow> bool" and clean_items :: "jval list \<Rightarrow> bool" and clean_fields :: "jobj \<Rightarrow> bool" where
  "clean_any JNull = False"
| "clean_any (JStr s) \<longleftrightarrow> \<not> is_undefined s"
| "clean_any (JArr xs) \<longleftrightarrow> clean_items xs"
| "clean_any (JObj m) \<longleftrightarrow> clean_fields m"
| "clean_any _ = True"
| "clean_items [] = True"
| "clean_items (x # xs) \<longleftrightarrow> clean_any x \<and> clean_items xs"
| "clean_fields [] = True"
| "clean_fields ((k, v) # m) \<longleftrightarrow> clean_any v \<and> clean_fields m"

fun conforms :: "field_spec \<Rightarrow> jval \<Rightarrow> bool" and conforms_fields :: "field_specs \<Rightarrow> jobj \<Rightarrow> bool"
  and conforms_items :: "field_spec option \<Rightarrow> jval list \<Rightarrow> bool" where
  "conforms spec v \<longleftrightarrow> v \<noteq> JNull \<and>
     (case fs_type spec of
        FTAny \<Rightarrow> clean_any v
      | FTObject \<Rightarrow>
          (case v of
             JObj m \<Rightarrow> (case fs_children spec of Some cs \<Rightarrow> conforms_fields cs m | None \<Rightarrow> clean_any v)
           | _ \<Rightarrow> False)
      | FTArray \<Rightarrow> (case v of JArr xs \<Rightarrow> conforms_items (fs_items spec) xs | _ \<Rightarrow> False)
      | FTString \<Rightarrow> (case v of JStr _ \<Rightarrow> True | _ \<Rightarrow> False)
      | FTNumber \<Rightarrow> (case v of JNum _ \<Rightarrow> True | _ \<Rightarrow> False)
      | FTBoolean \<Rightarrow> (case v of JBool _ \<Rightarrow> True | _ \<Rightarrow> False))"
| "conforms_fields allowed [] = True"
| "conforms_fields allowed ((k, v) # m) \<longleftrightarrow>
     (case mget allowed k of
        None \<Rightarrow> False
      | Some spec \<Rightarrow> if v = JNull then fs_nullable spec else conforms spec v) \<and> conforms_fields allowed m"
| "conforms_items items [] = True"
| "conforms_items items (x # xs) \<longleftrightarrow>
     (case items of Some spec \<Rightarrow> conforms spec x | None \<Rightarrow> clean_any x) \<and> conforms_items items xs"

text \<open>A value without the nulls in its arrays.\<close>

fun drop_nulls :: "jval \<Rightarrow> jval" and drop_null_items :: "jval list \<Rightarrow> jval list"
  and drop_null_fields :: "jobj \<Rightarrow> jobj" where
  "drop_nulls (JArr xs) = JArr (drop_null_items xs)"
| "drop_nulls (JObj m) = JObj (drop_null_fields m)"
| "drop_nulls v = v"
| "drop_null_items [] = []"
| "drop_null_items (x # xs) = (if x = JNull then drop_null_items xs else drop_nulls x # drop_null_items xs)"
| "drop_null_fields [] = []"
| "drop_null_fields ((k, v) # m) = (k, drop_nulls v) # drop_null_fields m"

lemma drop_nulls_JNull [simp]: "drop_nulls v = JNull \<longleftrightarrow> v = JNull"
  by (cases v) simp_all

lemma add_entry_changed [simp]: "vr_changed (add_entry p a s r)"
  by (simp add: add_entry_def)

section \<open>Lemmas\<close>

lemma any_result_clean:
  "fst (sanitize_any_value p v r) = Some w \<Longrightarrow> clean_any w"
  "clean_fields (fst (sanitize_any_object p m r))"
  "clean_items (fst (sanitize_any_array p i xs r))"
  by (induction p v r and p m r and p i xs r arbitrary: w
      rule: sanitize_any_value_sanitize_any_object_sanitize_any_array.induct)
    (auto simp: Let_def split: if_splits option.splits prod.splits)

lemma result_not_null:
  "fst (sanitize_any_value p v r) \<noteq> Some JNull" "fst (sanitize_value spec p v r) \<noteq> Some JNull"
proof -
  show any: "fst (sanitize_any_value p v r) \<noteq> Some JNull" for p v r by (cases v) (auto split: if_splits)
  show "fst (sanitize_value spec p v r) \<noteq> Some JNull"
    by (auto simp: any removed_def split: field_type.splits jval.splits option.splits)
qed

text \<open>Structural induction on a value, its items and its fields.\<close>

lemmas json_induct = drop_nulls_drop_null_items_drop_null_fields.induct

lemma result_conforms:
  "\<forall>spec p r w. fst (sanitize_value spec p v r) = Some w \<longrightarrow> conforms spec w"
  "\<forall>items p i r. conforms_items items (fst (sanitize_array items p i xs r))"
  "\<forall>allowed p r. conforms_fields allowed (fst (sanitize_object allowed p m r))"
proof (induction v and xs and m rule: json_induct)
  case (7 k v m)
  then show ?case
    using result_not_null(2)
    by (auto simp: Let_def case_prod_unfold simp del: sanitize_value.simps conforms.simps split: option.splits)
next
  case (5 x xs)
  then show ?case
    using any_result_clean(1)
    by (auto simp: Let_def case_prod_unfold simp del: sanitize_value.simps conforms.simps split: option.splits)
qed (auto simp: removed_def any_result_clean dest: any_result_clean(1) split: if_splits field_type.splits option.splits)

lemma any_report_grows:
  "vr_changed r \<Longrightarrow> vr_changed (snd (sanitize_any_value p v r))"
  "vr_changed r \<Longrightarrow> vr_changed (snd (sanitize_any_array p i xs r))"
  "vr_changed r \<Longrightarrow> vr_changed (snd (sanitize_any_object p m r))"
  by (induction v and xs and m arbitrary: p r and p i r and p r rule: json_induct)
    (simp_all add: Let_def case_prod_unfold)

lemma report_grows:
  "\<forall>spec p r. vr_changed r \<longrightarrow> vr_changed (snd (sanitize_value spec p v r))"
  "\<forall>items p i r. vr_changed r \<longrightarrow> vr_changed (snd (sanitize_array items p i xs r))"
  "\<forall>allowed p r. vr_changed r \<longrightarrow> vr_changed (snd (sanitize_object allowed p m r))"
proof (induction v and xs and m rule: json_induct)
  case (7 k v m)
  then show ?case
    by (auto simp: Let_def case_prod_unfold simp del: sanitize_value.simps split: option.splits)
next
  case (5 x xs)
  then show ?case
    using any_report_grows(1)
    by (auto simp: Let_def case_prod_unfold simp del: sanitize_value.simps split: option.splits)
qed (auto simp: removed_def any_report_grows split: if_splits field_type.splits option.splits)

text \<open>An untouched report: the value is the original without the nulls of its arrays.\<close>

lemma any_kept:
  "\<forall>p r. \<not> vr_changed r \<longrightarrow> v \<noteq> JNull \<longrightarrow> (if clean_any (drop_nulls v)
     then sanitize_any_value p v r = (Some (drop_nulls v), r) else vr_changed (snd (sanitize_any_value p v r)))"
  "\<forall>p i r. \<not> vr_changed r \<longrightarrow> (if clean_items (drop_null_items xs)
     then sanitize_any_array p i xs r = (drop_null_items xs, r) else vr_changed (snd (sanitize_any_array p i xs r)))"
  "\<forall>p r. \<not> vr_changed r \<longrightarrow> (if clean_fields (drop_null_fields m)
     then sanitize_any_object p m r = (drop_null_fields m, r) else vr_changed (snd (sanitize_any_object p m r)))"
proof (induction v and xs and m rule: json_induct)
  case (7 k v m)
  show ?case
    using 7 any_report_grows(3)
    by (cases "v = JNull"; cases "clean_any (drop_nulls v)") (auto simp: Let_def case_prod_unfold)
next
  case (5 x xs)
  show ?case
    using 5 any_report_grows(2)
    by (cases "x = JNull"; cases "clean_any (drop_nulls x)") (auto simp: Let_def case_prod_unfold)
qed auto

lemma value_kept:
  "\<forall>spec p r. \<not> vr_changed r \<longrightarrow> v \<noteq> JNull \<longrightarrow> (if conforms spec (drop_nulls v)
     then sanitize_value spec p v r = (Some (drop_nulls v), r) else vr_changed (snd (sanitize_value spec p v r)))"
  "\<forall>items p i r. \<not> vr_changed r \<longrightarrow> (if conforms_items items (drop_null_items xs)
     then sanitize_array items p i xs r = (drop_null_items xs, r) else vr_changed (snd (sanitize_array items p i xs r)))"
  "\<forall>allowed p r. \<not> vr_changed r \<longrightarrow> (if conforms_fields allowed (drop_null_fields m)
     then sanitize_object allowed p m r = (drop_null_fields m, r) else vr_changed (snd (sanitize_object allowed p m r)))"
proof (induction v and xs and m rule: json_induct)
  case (7 k v m)
  show ?case
  proof (intro allI impI)
    fix allowed p and r :: validation_report assume r: "\<not> vr_changed r"
    show "if conforms_fields allowed (drop_null_fields ((k, v) # m))
      then sanitize_object allowed p ((k, v) # m) r = (drop_null_fields ((k, v) # m), r)
      else vr_changed (snd (sanitize_object allowed p ((k, v) # m) r))"
    proof (cases "mget allowed k")
      case None
      then show ?thesis using report_grows(3) by simp
    next
      case (Some spec)
      then show ?thesis
        using 7 r report_grows(3)
        by (cases "v = JNull"; cases "conforms spec (drop_nulls v)")
          (auto simp: Let_def case_prod_unfold simp del: sanitize_value.simps conforms.simps)
    qed
  qed
next
  case (5 x xs)
  show ?case
  proof (intro allI impI)
    fix items p i and r :: validation_report assume r: "\<not> vr_changed r"
    show "if conforms_items items (drop_null_items (x # xs))
      then sanitize_array items p i (x # xs) r = (drop_null_items (x # xs), r)
      else vr_changed (snd (sanitize_array items p i (x # xs) r))"
      using 5 r report_grows(2) any_kept(1) [of x]
      by (cases "x = JNull"; cases items; cases "clean_any (drop_nulls x)"; cases "conforms (the items) (drop_nulls x)")
        (auto simp: Let_def case_prod_unfold simp del: sanitize_value.simps conforms.simps)
  qed
next
  case (1 xs)
  then show ?case using any_kept(1) [of "JArr xs"]
    by (auto simp: removed_def split: field_type.splits option.splits)
next
  case (2 m)
  then show ?case using any_kept(1) [of "JObj m"]
    by (auto simp: removed_def split: field_type.splits option.splits)
qed (auto simp: removed_def split: field_type.splits)

lemma clean_no_nulls:
  "clean_any v \<Longrightarrow> drop_nulls v = v" "clean_items xs \<Longrightarrow> drop_null_items xs = xs"
  "clean_fields m \<Longrightarrow> drop_null_fields m = m"
  by (induction v and xs and m rule: json_induct) auto

lemma conforming_no_nulls:
  "\<forall>spec. conforms spec v \<longrightarrow> drop_nulls v = v" "\<forall>items. conforms_items items xs \<longrightarrow> drop_null_items xs = xs"
  "\<forall>allowed. conforms_fields allowed m \<longrightarrow> drop_null_fields m = m"
proof (induction v and xs and m rule: json_induct)
  case (7 k v m)
  then show ?case by (auto simp del: conforms.simps split: option.splits if_splits)
next
  case (5 x xs)
  then show ?case by (auto simp: clean_no_nulls simp del: conforms.simps split: option.splits) (simp_all add: conforms.simps)
qed (auto simp: clean_no_nulls split: field_type.split_asm option.split_asm)

text \<open>Sanitising by a specification keeps a clean value clean.\<close>

lemma clean_kept:
  "\<forall>spec p r w. clean_any v \<longrightarrow> fst (sanitize_value spec p v r) = Some w \<longrightarrow> clean_any w"
  "\<forall>items p i r. clean_items xs \<longrightarrow> clean_items (fst (sanitize_array items p i xs r))"
  "\<forall>allowed p r. clean_fields m \<longrightarrow> clean_fields (fst (sanitize_object allowed p m r))"
proof (induction v and xs and m rule: json_induct)
  case (7 k v m)
  then show ?case by (auto simp: Let_def case_prod_unfold simp del: sanitize_value.simps split: option.splits)
next
  case (5 x xs)
  then show ?case using any_result_clean(1)
    by (auto simp: Let_def case_prod_unfold simp del: sanitize_value.simps split: option.splits)
qed (auto simp: removed_def any_result_clean dest: any_result_clean(1) split: if_splits field_type.splits option.splits)

lemma object_kept:
  assumes "\<not> vr_changed r"
  shows "if conforms_fields allowed (drop_null_fields m) then sanitize_object allowed p m r = (drop_null_fields m, r)
    else vr_changed (snd (sanitize_object allowed p m r))"
  using value_kept(3) assms by blast

lemma new_report_unchanged [simp]: "\<not> vr_changed (new_report name)"
  by (simp add: new_report_def)

text \<open>The letters of a pattern are matched without regard to case, as far as ASCII goes.\<close>

definition is_ascii :: "string \<Rightarrow> bool" where
  "is_ascii s \<longleftrightarrow> (\<forall>c \<in> set s. (of_char c :: nat) < 128)"

lemma claude_byte_iff:
  assumes "(of_char c :: nat) < 128" "97 \<le> (of_char p :: nat)" "(of_char p :: nat) \<le> 122"
  shows "claude_byte p c \<longleftrightarrow> lower_char c = p"
proof -
  define n where "n = (of_char c :: nat)"
  define k where "k = (of_char p :: nat)"
  have w: "(of_char c :: 8 word) = word_of_nat n" "(of_char p :: 8 word) = word_of_nat k"
    by (simp_all add: n_def k_def of_nat_of_char)
  have r: "n < 128" "97 \<le> k" "k \<le> 122" using assms by (simp_all add: n_def k_def)
  have u: "unat (word_of_nat n :: 8 word) = n" "unat (word_of_nat k :: 8 word) = k"
    using r by (simp_all add: unat_of_nat)
  have "(32 :: 8 word) \<le> word_of_nat k" using r by (simp add: word_le_nat_alt u(2))
  then have minus: "unat ((word_of_nat k :: 8 word) - 32) = k - 32"
    by (simp add: unat_sub u(2))
  have plus: "unat ((word_of_nat k :: 8 word) + 32) = k + 32"
    using r unat_add_lem [of "word_of_nat k :: 8 word" 32] by (simp add: u(2))
  have "claude_byte p c \<longleftrightarrow> n = k \<or> n = k - 32 \<or> n = k + 32"
    unfolding claude_byte_def Let_def w word_unat_eq_iff u minus plus ..
  also have "\<dots> \<longleftrightarrow> lower_char c = p"
  proof -
    have "(of_char (lower_char c) :: nat) = (if 65 \<le> n \<and> n \<le> 90 then n + 32 else n)"
      using r(1) by (simp add: lower_char_def Let_def n_def [symmetric])
    moreover have "lower_char c = p \<longleftrightarrow> (of_char (lower_char c) :: nat) = k"
      by (simp add: k_def)
    ultimately show ?thesis using r by auto
  qed
  finally show ?thesis .
qed

lemma claude_match_iff:
  assumes "is_ascii s" "\<forall>c \<in> set p. 97 \<le> (of_char c :: nat) \<and> (of_char c :: nat) \<le> 122"
  shows "claude_match p s \<longleftrightarrow> has_prefix (to_lower s) p"
  using assms
proof (induction p arbitrary: s)
  case Nil
  then show ?case by (simp add: claude_match_def has_prefix_def)
next
  case (Cons q p)
  show ?case
  proof (cases s)
    case Nil
    then show ?thesis by (simp add: claude_match_def has_prefix_def to_lower_def)
  next
    case (Cons c t)
    then have "claude_match p t \<longleftrightarrow> has_prefix (to_lower t) p" "claude_byte q c \<longleftrightarrow> lower_char c = q"
      using Cons.IH [of t] Cons.prems claude_byte_iff [of c q] by (simp_all add: is_ascii_def)
    then show ?thesis using Cons by (auto simp: claude_match_def has_prefix_def to_lower_def)
  qed
qed

lemma contains_iff_drop: "p \<noteq> [] \<Longrightarrow> contains s p \<longleftrightarrow> (\<exists>i < Suc (length s) - length p. has_prefix (drop i s) p)"
proof (induction s)
  case Nil
  then show ?case by (cases p) simp_all
next
  case (Cons c s)
  show ?case
  proof
    assume "contains (c # s) p"
    then consider "has_prefix (c # s) p" | "contains s p" by auto
    then show "\<exists>i < Suc (length (c # s)) - length p. has_prefix (drop i (c # s)) p"
    proof cases
      case 1
      then have "length p \<le> length (c # s)" by (metis has_prefix_def length_take min.cobounded1)
      with 1 show ?thesis by (intro exI [of _ 0]) simp
    next
      case 2
      then obtain i where "i < Suc (length s) - length p" "has_prefix (drop i s) p" using Cons by auto
      then show ?thesis by (intro exI [of _ "Suc i"]) simp
    qed
  next
    assume "\<exists>i < Suc (length (c # s)) - length p. has_prefix (drop i (c # s)) p"
    then obtain i where i: "i < Suc (length (c # s)) - length p" "has_prefix (drop i (c # s)) p" by blast
    show "contains (c # s) p"
    proof (cases i)
      case 0
      then show ?thesis using i by simp
    next
      case (Suc j)
      then show ?thesis using i Cons by auto
    qed
  qed
qed

section \<open>Properties\<close>

text \<open>
  What the sanitiser makes of an object conforms to the specification: every key is on the
  whitelist, every value has its type, and no null or undefined value is left. Sanitising the
  result again changes and reports nothing.
\<close>

theorem sanitised_conforms:
  assumes "\<not> vr_changed r'"
  shows "conforms_fields allowed (fst (sanitize_object allowed p m r))
    \<and> sanitize_object allowed q (fst (sanitize_object allowed p m r)) r' = (fst (sanitize_object allowed p m r), r')"
proof -
  have c: "conforms_fields allowed (fst (sanitize_object allowed p m r))" using result_conforms(3) by blast
  then show ?thesis using conforming_no_nulls(3) object_kept [OF assms] by metis
qed

definition sample_request :: jobj where
  "sample_request =
     [(''contents'', JArr [JNull, JObj [(''role'', JStr ''user''), (''parts'', JArr [JObj [(''text'', JStr ''hi'')]])]]),
      (''labels'', JObj [(''team'', JStr ''a''), (''env'', JNull)]),
      (''safetySettings'', JArr [])]"

theorem sanitised_conforms_witness:
  "conforms_fields (ps_fields vertex_claude_request_spec)
     (fst (sanitize_object (ps_fields vertex_claude_request_spec) [] sample_request (new_report [])))
   \<and> mget (fst (sanitize_object (ps_fields vertex_claude_request_spec) [] sample_request (new_report []))) ''labels'' = None"
proof (rule conjI)
  show "conforms_fields (ps_fields vertex_claude_request_spec)
     (fst (sanitize_object (ps_fields vertex_claude_request_spec) [] sample_request (new_report [])))"
    using sanitised_conforms [OF new_report_unchanged] by (rule conjunct1)
  show "mget (fst (sanitize_object (ps_fields vertex_claude_request_spec) [] sample_request (new_report []))) ''labels'' = None"
    by code_simp
qed

text \<open>
  A payload is sent as it came exactly when its object, without the nulls in its arrays, conforms;
  such nulls are not reported, so they are sent along. Otherwise a conforming object is sent, or
  the payload as it came if that cannot be encoded.
\<close>

theorem payload_untouched_iff:
  fixes marshal :: "jobj \<Rightarrow> string option" and s :: payload_spec
  assumes "payload \<noteq> []" "unmarshal payload = Some data"
  defines "out \<equiv> validate_and_sanitize_payload unmarshal marshal payload (Some s)"
  shows "(vr_changed (snd out) \<longleftrightarrow> \<not> conforms_fields (ps_fields s) (drop_null_fields data))
    \<and> (fst out = payload
       \<or> (\<exists>clean. conforms_fields (ps_fields s) clean \<and> marshal clean = Some (fst out) \<and> vr_changed (snd out)))"
proof -
  obtain clean r where s: "sanitize_object (ps_fields s) [] data (new_report (ps_name s)) = (clean, r)"
    using prod.exhaust by blast
  have c: "conforms_fields (ps_fields s) clean" using result_conforms(3) s by (metis fst_conv)
  have "vr_changed r \<longleftrightarrow> \<not> conforms_fields (ps_fields s) (drop_null_fields data)"
    using object_kept [OF new_report_unchanged, of "ps_fields s" data "[]" "ps_name s"] s by (auto split: if_splits)
  then show ?thesis
    using assms(1,2) s c unfolding out_def validate_and_sanitize_payload_def by (auto split: option.splits)
qed

text \<open>A null in the contents is sent along, in a payload with nothing else to remove.\<close>

theorem payload_untouched_iff_witness:
  "\<not> vr_changed (snd (validate_and_sanitize_payload (\<lambda>_. Some [(''contents'', JArr [JNull])]) (\<lambda>_. Some ''{}'')
     ''{contents: [null]}'' (Some vertex_gemini_request_spec)))"
proof -
  have "conforms_fields (ps_fields vertex_gemini_request_spec) (drop_null_fields [(''contents'', JArr [JNull])])"
    by code_simp
  then show ?thesis
    using payload_untouched_iff [of "''{contents: [null]}''" "\<lambda>_. Some [(''contents'', JArr [JNull])]"
        "[(''contents'', JArr [JNull])]" "\<lambda>_. Some ''{}''" vertex_gemini_request_spec] by simp
qed

lemma conforms_mput:
  assumes "conforms_fields allowed m" "mget allowed k = Some spec" "conforms spec v" "v \<noteq> JNull"
  shows "conforms_fields allowed (mput k v m)"
  using assms by (induction m) (auto simp del: conforms.simps split: option.splits)

lemma sanitized_fields:
  "conforms_fields allowed m \<Longrightarrow> (k, v) \<in> set m \<Longrightarrow> v \<noteq> JNull \<Longrightarrow> \<exists>spec. mget allowed k = Some spec \<and> conforms spec v"
  by (induction m) (auto simp del: conforms.simps split: option.splits)



text \<open>
  The byte-wise comparison of \<open>IsClaudeModel\<close> finds the two words in an ASCII name exactly when
  the lower-case name contains one of them.
\<close>

theorem is_claude_model_ascii:
  assumes "is_ascii name"
  shows "is_claude_model name \<longleftrightarrow> contains (to_lower name) ''claude'' \<or> contains (to_lower name) ''anthropic''"
proof -
  have "claude_match p (drop i name) \<longleftrightarrow> has_prefix (drop i (to_lower name)) p" if "p \<in> set [''claude'', ''anthropic'']" for p i
  proof -
    have "is_ascii (drop i name)" using assms by (auto simp: is_ascii_def dest: in_set_dropD)
    moreover have "\<forall>c \<in> set p. 97 \<le> (of_char c :: nat) \<and> (of_char c :: nat) \<le> 122"
      using that by (auto simp: of_char_def)
    ultimately show ?thesis using claude_match_iff by (simp add: to_lower_def drop_map)
  qed
  then have "is_claude_model name \<longleftrightarrow> (\<exists>p \<in> set [''claude'', ''anthropic'']. \<exists>i < Suc (length (to_lower name)) - length p.
      has_prefix (drop i (to_lower name)) p)"
    unfolding is_claude_model_def set_upt atLeastLessThan_iff Bex_def length_to_lower by blast
  also have "\<dots> \<longleftrightarrow> (\<exists>p \<in> set [''claude'', ''anthropic'']. contains (to_lower name) p)"
    by (intro bex_cong refl) (auto simp: contains_iff_drop)
  finally show ?thesis by simp
qed

theorem is_claude_model_ascii_witness: "is_claude_model ''Anthropic/Opus''"
proof -
  have "is_ascii ''Anthropic/Opus''" "contains (to_lower ''Anthropic/Opus'') ''anthropic''" by code_simp+
  then show ?thesis using is_claude_model_ascii by blast
qed

end
