(* ===== verification/SchemaClean.thy ===== *)
theory SchemaClean
  imports JsonValue
begin

text \<open>
  Cleaning of tool schemas for providers that accept a part of JSON Schema only, and the caches in
  front of it (\<open>internal/translator/ir/util.go\<close>). The code changes the schema in place and
  returns it; here the cleaned schema is the result. The recursion goes where the code's does:
  into the values of \<open>properties\<close> and \<open>patternProperties\<close>, into \<open>items\<close> (an object or an
  array), \<open>prefixItems\<close>, and the objects under \<open>additionalProperties\<close>, \<open>propertyNames\<close> and
  \<open>contains\<close>. A cache is a map from a hash of the schema to the schema stored for it.
\<close>

section \<open>Keywords\<close>

definition gemini_unsupported_fields :: "string list" where
  "gemini_unsupported_fields =
     [''$ref'', ''$defs'', ''definitions'', ''$id'', ''$anchor'', ''$dynamicRef'', ''$dynamicAnchor'',
      ''$schema'', ''$vocabulary'', ''$comment'',
      ''exclusiveMinimum'', ''exclusiveMaximum'', ''minimum'', ''maximum'', ''multipleOf'',
      ''minLength'', ''maxLength'', ''pattern'',
      ''minItems'', ''maxItems'', ''uniqueItems'', ''minContains'', ''maxContains'',
      ''minProperties'', ''maxProperties'',
      ''if'', ''then'', ''else'', ''dependentSchemas'', ''dependentRequired'',
      ''unevaluatedItems'', ''unevaluatedProperties'',
      ''contentEncoding'', ''contentMediaType'', ''contentSchema'',
      ''dependencies'',
      ''allOf'', ''anyOf'', ''oneOf'', ''not'']"

definition claude_unsupported_fields :: "string list" where
  "claude_unsupported_fields =
     [''anyOf'', ''oneOf'', ''allOf'', ''not'',
      ''any_of'', ''one_of'', ''all_of'',
      ''$ref'', ''$defs'', ''definitions'', ''$id'', ''$anchor'', ''$dynamicRef'', ''$dynamicAnchor'',
      ''$schema'', ''$vocabulary'', ''$comment'',
      ''if'', ''then'', ''else'', ''dependentSchemas'', ''dependentRequired'',
      ''unevaluatedItems'', ''unevaluatedProperties'',
      ''contentEncoding'', ''contentMediaType'', ''contentSchema'',
      ''dependencies'',
      ''minItems'', ''maxItems'', ''uniqueItems'', ''minContains'', ''maxContains'',
      ''minLength'', ''maxLength'', ''pattern'', ''format'',
      ''minimum'', ''maximum'', ''exclusiveMinimum'', ''exclusiveMaximum'', ''multipleOf'',
      ''minProperties'', ''maxProperties'',
      ''default'']"

text \<open>How the recursion goes on below a keyword.\<close>

datatype keyword = KType | KProps | KItems | KPrefix | KSchema | KPlain

definition keyword_of :: "string \<Rightarrow> keyword" where
  "keyword_of k =
     (if k = ''type'' then KType
      else if k \<in> {''properties'', ''patternProperties''} then KProps
      else if k = ''items'' then KItems
      else if k = ''prefixItems'' then KPrefix
      else if k \<in> {''additionalProperties'', ''propertyNames'', ''contains''} then KSchema
      else KPlain)"

section \<open>Cleaning\<close>

definition clean_json_schema :: "jobj \<Rightarrow> jobj" where
  "clean_json_schema m =
     mdel ''additionalProperties'' (mdel ''$schema'' (mdel ''input_examples'' (mdel ''strict'' m)))"

text \<open>The type of a schema is put into lower case when it is a string.\<close>

definition lower_type :: "jval \<Rightarrow> jval" where
  "lower_type v = (case v of JStr s \<Rightarrow> JStr (to_lower s) | _ \<Rightarrow> v)"

text \<open>
  The two recursive cleaners differ in the keywords they delete (\<open>bad\<close>) and in what they do to
  each schema besides (\<open>f\<close>).
\<close>

fun clean_schema :: "string list \<Rightarrow> (jobj \<Rightarrow> jobj) \<Rightarrow> jval \<Rightarrow> jval"
  and clean_entries :: "string list \<Rightarrow> (jobj \<Rightarrow> jobj) \<Rightarrow> jobj \<Rightarrow> jobj"
  and clean_items :: "string list \<Rightarrow> (jobj \<Rightarrow> jobj) \<Rightarrow> jval list \<Rightarrow> jval list"
  and clean_props :: "string list \<Rightarrow> (jobj \<Rightarrow> jobj) \<Rightarrow> jobj \<Rightarrow> jobj" where
  "clean_schema bad f (JObj m) = JObj (f (clean_entries bad f m))"
| "clean_schema bad f v = v"
| "clean_entries bad f [] = []"
| "clean_entries bad f ((k, v) # m) =
     (if k \<in> set bad then clean_entries bad f m
      else (k, case keyword_of k of
                 KType \<Rightarrow> lower_type v
               | KProps \<Rightarrow> (case v of JObj ps \<Rightarrow> JObj (clean_props bad f ps) | _ \<Rightarrow> v)
               | KItems \<Rightarrow> (case v of JArr xs \<Rightarrow> JArr (clean_items bad f xs) | _ \<Rightarrow> clean_schema bad f v)
               | KPrefix \<Rightarrow> (case v of JArr xs \<Rightarrow> JArr (clean_items bad f xs) | _ \<Rightarrow> v)
               | KSchema \<Rightarrow> clean_schema bad f v
               | KPlain \<Rightarrow> v) # clean_entries bad f m)"
| "clean_items bad f [] = []"
| "clean_items bad f (x # xs) = clean_schema bad f x # clean_items bad f xs"
| "clean_props bad f [] = []"
| "clean_props bad f ((k, v) # m) = (k, clean_schema bad f v) # clean_props bad f m"

definition clean_schema_for_gemini :: "jobj \<Rightarrow> jobj" where
  "clean_schema_for_gemini m = clean_entries gemini_unsupported_fields (\<lambda>m. m) m"

text \<open>
  For Claude a constant becomes an enumeration of one value. The code does so before it cleans a
  schema; the order makes no difference (\<open>const_to_enum_first\<close>), and done last the recursion is
  on parts of its argument.
\<close>

definition const_to_enum :: "jobj \<Rightarrow> jobj" where
  "const_to_enum m =
     (case mget m ''const'' of None \<Rightarrow> m | Some c \<Rightarrow> mdel ''const'' (mput ''enum'' (JArr [c]) m))"

definition clean_schema_for_claude :: "jobj \<Rightarrow> jobj" where
  "clean_schema_for_claude m = const_to_enum (clean_entries claude_unsupported_fields const_to_enum m)"

section \<open>The caches\<close>

definition schema_hasher :: "jobj \<Rightarrow> string" where
  "schema_hasher m =
     (case mget m ''type'' of Some (JStr t) \<Rightarrow> t | _ \<Rightarrow> [])
     @ (case mget m ''properties'' of Some (JObj ps) \<Rightarrow> concat (mkeys ps) | _ \<Rightarrow> [])"

type_synonym schema_cache = "(string, jobj) gomap"

definition through_cache :: "(jobj \<Rightarrow> jobj) \<Rightarrow> jobj option \<Rightarrow> schema_cache \<Rightarrow> jobj option \<times> schema_cache" where
  "through_cache clean schema cache =
     (case schema of
        None \<Rightarrow> (None, cache)
      | Some m \<Rightarrow>
          let h = schema_hasher m in
          (case (if h = [] then None else mget cache h) of
             Some c \<Rightarrow> (Some c, cache)
           | None \<Rightarrow> let s = clean m in (Some s, if h = [] then cache else mput h s cache)))"

definition clean_json_schema_for_gemini :: "jobj option \<Rightarrow> schema_cache \<Rightarrow> jobj option \<times> schema_cache" where
  "clean_json_schema_for_gemini = through_cache (\<lambda>m. clean_schema_for_gemini (clean_json_schema m))"

definition json_schema_draft :: string where
  "json_schema_draft = ''https://json-schema.org/draft/2020-12/schema''"

definition clean_json_schema_for_claude :: "jobj option \<Rightarrow> schema_cache \<Rightarrow> jobj option \<times> schema_cache" where
  "clean_json_schema_for_claude = through_cache (\<lambda>m. mput ''$schema'' (JStr json_schema_draft)
     (mput ''additionalProperties'' (JBool False) (clean_schema_for_claude (clean_json_schema m))))"

section \<open>Tools for Claude through Antigravity\<close>

record tool_definition =
  td_name :: string
  td_description :: string
  td_parameters :: "jobj option"

definition clean_for_antigravity :: "jobj \<Rightarrow> jobj" where
  "clean_for_antigravity m = mdel ''$schema'' (mput ''additionalProperties'' (JBool False)
     (clean_schema_for_claude (clean_json_schema m)))"

text \<open>
  \<open>CleanToolsForAntigravityClaude\<close> writes the result into the request,
  \<open>CleanedToolsForAntigravityClaude\<close> returns it; both work on deep copies.
\<close>

definition cleaned_tools_for_antigravity_claude ::
    "tool_definition list \<Rightarrow> jobj option \<Rightarrow> tool_definition list \<times> jobj option" where
  "cleaned_tools_for_antigravity_claude tools response_schema =
     (List.map (\<lambda>t. t\<lparr>td_parameters := map_option clean_for_antigravity (td_parameters t)\<rparr>) tools,
      map_option clean_for_antigravity response_schema)"

section \<open>Clean schemas\<close>

text \<open>
  No schema that the recursion reaches has a forbidden keyword, and types are in lower case.
\<close>

fun schema_ok :: "string list \<Rightarrow> jval \<Rightarrow> bool" and fields_ok :: "string list \<Rightarrow> jobj \<Rightarrow> bool"
  and items_ok :: "string list \<Rightarrow> jval list \<Rightarrow> bool" and props_ok :: "string list \<Rightarrow> jobj \<Rightarrow> bool" where
  "schema_ok forbidden (JObj m) \<longleftrightarrow> fst ` set m \<inter> set forbidden = {} \<and> fields_ok forbidden m"
| "schema_ok forbidden v = True"
| "fields_ok forbidden [] = True"
| "fields_ok forbidden ((k, v) # m) \<longleftrightarrow>
     (case keyword_of k of
        KType \<Rightarrow> lower_type v = v
      | KProps \<Rightarrow> (case v of JObj ps \<Rightarrow> props_ok forbidden ps | _ \<Rightarrow> True)
      | KItems \<Rightarrow> (case v of JArr xs \<Rightarrow> items_ok forbidden xs | _ \<Rightarrow> schema_ok forbidden v)
      | KPrefix \<Rightarrow> (case v of JArr xs \<Rightarrow> items_ok forbidden xs | _ \<Rightarrow> True)
      | KSchema \<Rightarrow> schema_ok forbidden v
      | KPlain \<Rightarrow> True) \<and> fields_ok forbidden m"
| "items_ok forbidden [] = True"
| "items_ok forbidden (x # xs) \<longleftrightarrow> schema_ok forbidden x \<and> items_ok forbidden xs"
| "props_ok forbidden [] = True"
| "props_ok forbidden ((k, v) # m) \<longleftrightarrow> schema_ok forbidden v \<and> props_ok forbidden m"

text \<open>The places the recursion visits; its induction rule is the one the proofs below use.\<close>

fun visited :: "jval \<Rightarrow> nat" and visited_fields :: "jobj \<Rightarrow> nat"
  and visited_items :: "jval list \<Rightarrow> nat" and visited_props :: "jobj \<Rightarrow> nat" where
  "visited (JObj m) = Suc (visited_fields m)"
| "visited v = 0"
| "visited_fields [] = 0"
| "visited_fields ((k, v) # m) =
     (case v of JObj ps \<Rightarrow> visited v + visited_props ps | JArr xs \<Rightarrow> visited_items xs | _ \<Rightarrow> 0) + visited_fields m"
| "visited_items [] = 0"
| "visited_items (x # xs) = visited x + visited_items xs"
| "visited_props [] = 0"
| "visited_props ((k, v) # m) = visited v + visited_props m"

lemmas schema_induct = visited_visited_fields_visited_items_visited_props.induct

lemma lower_type_idem [simp]: "lower_type (lower_type v) = lower_type v"
  by (simp add: lower_type_def split: jval.split)

lemma clean_entries_keys: "fst ` set (clean_entries bad f m) = fst ` set m - set bad"
proof (induction m)
  case (Cons e m)
  then show ?case by (cases e; cases "fst e \<in> set bad") (simp_all, blast, blast?)
qed simp

text \<open>The contract of what a cleaner does to each schema after it deleted the bad keywords.\<close>

locale cleaner =
  fixes bad :: "string list" and f :: "jobj \<Rightarrow> jobj" and forbidden :: "string list"
  assumes f_fields: "fields_ok forbidden m \<Longrightarrow> fields_ok forbidden (f m)"
    and f_keys: "fst ` set m \<inter> set bad = {} \<Longrightarrow> fst ` set (f m) \<inter> set forbidden = {}"
    and f_same: "fst ` set m \<inter> set forbidden = {} \<Longrightarrow> f m = m"
    and bad_forbidden: "set bad \<subseteq> set forbidden"
begin

lemma cleaned_ok:
  "schema_ok forbidden (clean_schema bad f v)" "fields_ok forbidden (clean_entries bad f m)"
  "items_ok forbidden (clean_items bad f xs)" "props_ok forbidden (clean_props bad f ps)"
proof (induction v and m and xs and ps rule: schema_induct)
  case (1 m)
  then show ?case using f_fields [OF 1] f_keys [of "clean_entries bad f m"] by (auto simp: clean_entries_keys)
next
  case (4 k v m)
  then show ?case by (cases "keyword_of k"; cases v) simp_all
qed simp_all

lemma cleaned_same:
  "schema_ok forbidden v \<Longrightarrow> clean_schema bad f v = v"
  "fields_ok forbidden m \<Longrightarrow> fst ` set m \<inter> set forbidden = {} \<Longrightarrow> clean_entries bad f m = m"
  "items_ok forbidden xs \<Longrightarrow> clean_items bad f xs = xs" "props_ok forbidden ps \<Longrightarrow> clean_props bad f ps = ps"
proof (induction v and m and xs and ps rule: schema_induct)
  case (1 m)
  then show ?case using f_same by auto
next
  case (4 k v m)
  then show ?case using bad_forbidden by (cases "keyword_of k"; cases v) auto
qed auto

end

interpretation gemini: cleaner gemini_unsupported_fields "\<lambda>m. m" gemini_unsupported_fields
  by unfold_locales simp_all

lemma fields_ok_mdel: "fields_ok b m \<Longrightarrow> fields_ok b (mdel k m)"
  by (induction m) (auto simp: AList.delete_eq)

lemma fields_ok_mput: "fields_ok b m \<Longrightarrow> keyword_of k = KPlain \<Longrightarrow> fields_ok b (mput k v m)"
proof (induction m)
  case (Cons e m)
  then show ?case by (cases e; cases "fst e = k") simp_all
qed simp

lemma plain_enum: "keyword_of ''enum'' = KPlain"
  by (simp add: keyword_of_def)

lemma const_to_enum_keys: "fst ` set (const_to_enum m) \<subseteq> insert ''enum'' (fst ` set m) - {''const''}"
  by (auto simp: const_to_enum_def map_of_eq_None_iff split: option.split)

interpretation claude: cleaner claude_unsupported_fields const_to_enum "''const'' # claude_unsupported_fields"
proof
  show "fields_ok (''const'' # claude_unsupported_fields) (const_to_enum m)"
    if "fields_ok (''const'' # claude_unsupported_fields) m" for m
    using that by (simp add: const_to_enum_def fields_ok_mdel fields_ok_mput plain_enum split: option.split)
  have enum: "''enum'' \<notin> set claude_unsupported_fields" by (simp add: claude_unsupported_fields_def)
  show "fst ` set (const_to_enum m) \<inter> set (''const'' # claude_unsupported_fields) = {}"
    if d: "fst ` set m \<inter> set claude_unsupported_fields = {}" for m
  proof (rule equals0I)
    fix x assume x: "x \<in> fst ` set (const_to_enum m) \<inter> set (''const'' # claude_unsupported_fields)"
    then have "x \<in> insert ''enum'' (fst ` set m)" "x \<noteq> ''const''"
      using const_to_enum_keys by blast+
    then show False using x d enum by (metis IntD2 IntI empty_iff insertE list.set(2))
  qed
  show "const_to_enum m = m" if "fst ` set m \<inter> set (''const'' # claude_unsupported_fields) = {}" for m
  proof -
    have "mget m ''const'' = None" using that by (auto simp: map_of_eq_None_iff)
    then show ?thesis by (simp add: const_to_enum_def)
  qed
qed auto

lemma clean_entries_plain:
  assumes "keyword_of k = KPlain"
  shows "mget (clean_entries bad f m) k = (if k \<in> set bad then None else mget m k)"
proof (induction m)
  case (Cons e m)
  then show ?case using assms by (cases e; cases "fst e \<in> set bad"; cases "fst e = k") auto
qed simp

lemma clean_entries_props:
  assumes "keyword_of k = KProps" "k \<notin> set bad" "mget m k = Some (JObj ps)"
  shows "mget (clean_entries bad f m) k = Some (JObj (clean_props bad f ps))"
  using assms(3)
proof (induction m)
  case (Cons e m)
  then show ?case using assms(1,2) by (cases e; cases "fst e \<in> set bad"; cases "fst e = k") auto
qed simp

lemma clean_props_keys: "mkeys (clean_props bad f ps) = mkeys ps"
  by (induction ps) auto

lemma mget_const_to_enum:
  "k \<notin> {''const'', ''enum''} \<Longrightarrow> mget (const_to_enum m) k = mget m k"
  by (auto simp: const_to_enum_def split: option.split)

text \<open>Doing the constants first, as the code does, gives the same schema.\<close>

lemma const_to_enum_first:
  "clean_entries claude_unsupported_fields g (const_to_enum m) = const_to_enum (clean_entries claude_unsupported_fields g m)"
proof -
  let ?C = "clean_entries claude_unsupported_fields g"
  have k: "keyword_of ''const'' = KPlain" "''const'' \<notin> set claude_unsupported_fields"
    "keyword_of ''enum'' = KPlain" "''enum'' \<notin> set claude_unsupported_fields"
    by (simp_all add: keyword_of_def claude_unsupported_fields_def)
  have del: "?C (mdel ''const'' m) = mdel ''const'' (?C m)" for m
  proof (induction m)
    case (Cons e m)
    then show ?case using k by (cases e; cases "fst e \<in> set claude_unsupported_fields"; cases "fst e = ''const''") auto
  qed simp
  have put: "?C (mput ''enum'' v m) = mput ''enum'' v (?C m)" for m v
  proof (induction m)
    case Nil
    then show ?case using k by simp
  next
    case (Cons e m)
    then show ?case using k by (cases e; cases "fst e \<in> set claude_unsupported_fields"; cases "fst e = ''enum''") auto
  qed
  show ?thesis
    unfolding const_to_enum_def by (simp add: clean_entries_plain k del put split: option.split)
qed

section \<open>Properties\<close>

text \<open>
  A schema cleaned for Gemini has none of the unsupported keywords, at any depth the recursion
  reaches, and its types are in lower case; cleaning it again changes nothing. A parameter keeps
  its name whatever it is called, and every supported keyword that the recursion does not enter
  keeps its value.
\<close>

theorem schema_for_gemini_spec:
  "schema_ok gemini_unsupported_fields (JObj (clean_schema_for_gemini m))
    \<and> clean_schema_for_gemini (clean_schema_for_gemini m) = clean_schema_for_gemini m
    \<and> (mget m ''properties'' = Some (JObj ps) \<longrightarrow>
         (\<exists>ps'. mget (clean_schema_for_gemini m) ''properties'' = Some (JObj ps') \<and> mkeys ps' = mkeys ps))
    \<and> (keyword_of k = KPlain \<and> k \<notin> set gemini_unsupported_fields \<longrightarrow> mget (clean_schema_for_gemini m) k = mget m k)"
proof -
  have ok: "schema_ok gemini_unsupported_fields (JObj (clean_schema_for_gemini m))"
    using gemini.cleaned_ok(1) [of "JObj m"] by (simp add: clean_schema_for_gemini_def)
  then have "clean_schema_for_gemini (clean_schema_for_gemini m) = clean_schema_for_gemini m"
    using gemini.cleaned_same(1) [of "JObj (clean_schema_for_gemini m)"] by (simp add: clean_schema_for_gemini_def)
  moreover have k: "keyword_of ''properties'' = KProps" "''properties'' \<notin> set gemini_unsupported_fields"
    by (simp_all add: keyword_of_def gemini_unsupported_fields_def)
  have "\<exists>ps'. mget (clean_schema_for_gemini m) ''properties'' = Some (JObj ps') \<and> mkeys ps' = mkeys ps"
    if "mget m ''properties'' = Some (JObj ps)"
    using clean_entries_props [OF k that] clean_props_keys unfolding clean_schema_for_gemini_def by simp
  moreover have "mget (clean_schema_for_gemini m) k = mget m k"
    if "keyword_of k = KPlain" "k \<notin> set gemini_unsupported_fields"
    using clean_entries_plain [OF that(1)] that(2) unfolding clean_schema_for_gemini_def by simp
  ultimately show ?thesis using ok by blast
qed

definition sample_schema :: jobj where
  "sample_schema =
     [(''type'', JStr ''OBJECT''),
      (''properties'', JObj [(''pattern'', JObj [(''type'', JStr ''STRING''), (''minLength'', JNum 1), (''const'', JStr ''x'')])]),
      (''required'', JArr [JStr ''pattern'']),
      (''minProperties'', JNum 1)]"

theorem schema_for_gemini_spec_witness:
  "mget (clean_schema_for_gemini sample_schema) ''required'' = Some (JArr [JStr ''pattern''])
    \<and> (\<exists>ps. mget (clean_schema_for_gemini sample_schema) ''properties'' = Some (JObj ps) \<and> mkeys ps = [''pattern''])"
proof -
  have "mget sample_schema ''properties'' = Some (JObj [(''pattern'', JObj [(''type'', JStr ''STRING''), (''minLength'', JNum 1), (''const'', JStr ''x'')])])"
    "keyword_of ''required'' = KPlain \<and> ''required'' \<notin> set gemini_unsupported_fields"
    "mget sample_schema ''required'' = Some (JArr [JStr ''pattern''])"
    by (simp_all add: sample_schema_def keyword_of_def gemini_unsupported_fields_def)
  then show ?thesis
    using schema_for_gemini_spec [of sample_schema "[(''pattern'', JObj [(''type'', JStr ''STRING''), (''minLength'', JNum 1), (''const'', JStr ''x'')])]"
        "''required''"] by simp
qed

text \<open>
  A schema cleaned for Claude likewise has none of its unsupported keywords, and no constant
  either: a constant has become an enumeration of that one value.
\<close>

theorem schema_for_claude_spec:
  "schema_ok (''const'' # claude_unsupported_fields) (JObj (clean_schema_for_claude m))
    \<and> clean_schema_for_claude (clean_schema_for_claude m) = clean_schema_for_claude m
    \<and> (mget m ''const'' = Some c \<longrightarrow> mget (clean_schema_for_claude m) ''enum'' = Some (JArr [c]))
    \<and> (mget m ''properties'' = Some (JObj ps) \<longrightarrow>
         (\<exists>ps'. mget (clean_schema_for_claude m) ''properties'' = Some (JObj ps') \<and> mkeys ps' = mkeys ps))"
proof -
  have ok: "schema_ok (''const'' # claude_unsupported_fields) (JObj (clean_schema_for_claude m))"
    using claude.cleaned_ok(1) [of "JObj m"] by (simp add: clean_schema_for_claude_def)
  then have same: "clean_schema_for_claude (clean_schema_for_claude m) = clean_schema_for_claude m"
    using claude.cleaned_same(1) [of "JObj (clean_schema_for_claude m)"] by (simp add: clean_schema_for_claude_def)
  have k: "keyword_of ''const'' = KPlain" "''const'' \<notin> set claude_unsupported_fields"
    "keyword_of ''properties'' = KProps" "''properties'' \<notin> set claude_unsupported_fields"
    by (simp_all add: keyword_of_def claude_unsupported_fields_def)
  have "mget (clean_schema_for_claude m) ''enum'' = Some (JArr [c])" if "mget m ''const'' = Some c"
    using that k clean_entries_plain [OF k(1), of claude_unsupported_fields const_to_enum m]
    unfolding clean_schema_for_claude_def by (simp add: const_to_enum_def [of "clean_entries _ _ _"])
  moreover have "\<exists>ps'. mget (clean_schema_for_claude m) ''properties'' = Some (JObj ps') \<and> mkeys ps' = mkeys ps"
    if "mget m ''properties'' = Some (JObj ps)"
    using clean_entries_props [OF k(3,4) that] clean_props_keys
    unfolding clean_schema_for_claude_def by (simp add: mget_const_to_enum)
  ultimately show ?thesis using ok same by blast
qed

theorem schema_for_claude_spec_witness:
  "mget (clean_schema_for_claude [(''const'', JStr ''x'')]) ''enum'' = Some (JArr [JStr ''x''])"
  using schema_for_claude_spec [of "[(''const'', JStr ''x'')]" "JStr ''x''"] by simp


definition number_tool :: jobj where
  "number_tool = [(''type'', JStr ''object''), (''properties'', JObj [(''id'', JObj [(''type'', JStr ''integer'')])])]"

definition string_tool :: jobj where
  "string_tool = [(''type'', JStr ''object''), (''properties'', JObj [(''id'', JObj [(''type'', JStr ''string'')])])]"


end
