(* ===== verification/Gjson.thy ===== *)
theory Gjson
  imports JsonValue
begin

text \<open>
  What the translator reads of a \<open>gjson.Result\<close>, a view of JSON text by a library. The definitions
  that use it take its operations as an argument: \<open>Get\<close> of a path, \<open>Exists\<close>, the conversions
  \<open>String\<close>, \<open>Int\<close>, \<open>Float\<close> and \<open>Bool\<close>, the text a result stands for (\<open>Raw\<close>), \<open>Array\<close>, the pairs that
  \<open>ForEach\<close> visits, the tests of its type, its decoded value, the result that does not exist, and the
  library's \<open>Parse\<close>.
\<close>

record 'j gjson =
  gj_get :: "'j \<Rightarrow> string \<Rightarrow> 'j"
  gj_exists :: "'j \<Rightarrow> bool"
  gj_str :: "'j \<Rightarrow> string"
  gj_int :: "'j \<Rightarrow> int"
  gj_float :: "'j \<Rightarrow> rat"
  gj_bool :: "'j \<Rightarrow> bool"
  gj_raw :: "'j \<Rightarrow> string"
  gj_array :: "'j \<Rightarrow> 'j list"
  gj_each :: "'j \<Rightarrow> (string \<times> 'j) list"
  gj_is_array :: "'j \<Rightarrow> bool"
  gj_is_object :: "'j \<Rightarrow> bool"
  gj_is_string :: "'j \<Rightarrow> bool"
  gj_is_null :: "'j \<Rightarrow> bool"
  gj_value :: "'j \<Rightarrow> jval"
  gj_none :: 'j
  gj_parse :: "string \<Rightarrow> 'j"

section \<open>A reader of values\<close>

text \<open>
  The reader on values that are already decoded, on which the examples run. A missing result is
  \<open>None\<close>; paths are keys joined by dots; numbers are whole, and it reads no text.
\<close>

definition split_char :: "char \<Rightarrow> string \<Rightarrow> string list" where
  "split_char c s = foldr (\<lambda>x parts. if x = c then [] # parts else (x # hd parts) # tl parts) s [[]]"

definition field_of :: "jval option \<Rightarrow> string \<Rightarrow> jval option" where
  "field_of v k = (case v of Some (JObj m) \<Rightarrow> mget m k | _ \<Rightarrow> None)"

definition value_reader :: "jval option gjson" where
  "value_reader =
     \<lparr>gj_get = (\<lambda>v p. foldl field_of v (split_char CHR ''.'' p)),
      gj_exists = (\<lambda>v. v \<noteq> None),
      gj_str = (\<lambda>v. case v of Some (JStr s) \<Rightarrow> s | _ \<Rightarrow> []),
      gj_int = (\<lambda>v. case v of Some (JNum x) \<Rightarrow> \<lfloor>x\<rfloor> | _ \<Rightarrow> 0),
      gj_float = (\<lambda>v. case v of Some (JNum x) \<Rightarrow> x | _ \<Rightarrow> 0),
      gj_bool = (\<lambda>v. v = Some (JBool True)),
      gj_raw = (\<lambda>v. []),
      gj_array = (\<lambda>v. case v of Some (JArr xs) \<Rightarrow> List.map Some xs | Some JNull \<Rightarrow> [] | None \<Rightarrow> [] | _ \<Rightarrow> [v]),
      gj_each = (\<lambda>v. case v of Some (JObj m) \<Rightarrow> List.map (apsnd Some) m | _ \<Rightarrow> []),
      gj_is_array = (\<lambda>v. case v of Some (JArr xs) \<Rightarrow> True | _ \<Rightarrow> False),
      gj_is_object = (\<lambda>v. case v of Some (JObj m) \<Rightarrow> True | _ \<Rightarrow> False),
      gj_is_string = (\<lambda>v. case v of Some (JStr s) \<Rightarrow> True | _ \<Rightarrow> False),
      gj_is_null = (\<lambda>v. v = None \<or> v = Some JNull),
      gj_value = (\<lambda>v. case v of Some x \<Rightarrow> x | None \<Rightarrow> JNull),
      gj_none = None,
      gj_parse = (\<lambda>s. None)\<rparr>"

text \<open>The same reader with a parser and a printer of texts.\<close>

definition text_reader :: "(string \<Rightarrow> jval option) \<Rightarrow> (jval \<Rightarrow> string) \<Rightarrow> jval option gjson" where
  "text_reader parse print = value_reader\<lparr>gj_parse := parse, gj_raw := (\<lambda>v. case v of Some x \<Rightarrow> print x | None \<Rightarrow> [])\<rparr>"

section \<open>Reading a text\<close>

text \<open>\<open>ParseAndValidateJSON\<close>: the result, which is the missing one if the flag says that it is invalid.\<close>

definition parse_and_validate :: "'j gjson \<Rightarrow> string \<Rightarrow> 'j \<times> bool" where
  "parse_and_validate J raw =
     (let r = gj_parse J raw
      in if \<not> gj_exists J r \<or> gj_is_null J r then (gj_none J, False) else (r, True))"

definition unwrap_antigravity_envelope :: "'j gjson \<Rightarrow> string \<Rightarrow> 'j \<times> bool" where
  "unwrap_antigravity_envelope J raw =
     (let w = gj_get J (gj_parse J raw) ''response''
      in if gj_exists J w then (w, True) else (gj_parse J raw, False))"

text \<open>A text field under either of two names.\<close>

definition extract_thought_signature :: "'j gjson \<Rightarrow> 'j \<Rightarrow> string" where
  "extract_thought_signature J part =
     (let s = gj_str J (gj_get J part ''thoughtSignature'')
      in if s \<noteq> [] then s else gj_str J (gj_get J part ''thought_signature''))"

end
