(* ===== verification/ToolSchema.thy ===== *)
theory ToolSchema
  imports Gjson
begin

text \<open>
  Repair of tool calls whose arguments a model named otherwise than the client's schema
  (\<open>internal/translator/ir/tool_schema.go\<close>, with the tables of \<open>tool_config.go\<close>). A context maps
  the name of a tool to the names and types of its parameters.
\<close>

section \<open>Tables\<close>

definition parameter_synonyms :: "(string, string list) gomap" where
  "parameter_synonyms =
     [(''path'', [''target_file'', ''file_path'', ''filename'', ''target_directory'']),
      (''paths'', [''target_file'', ''file_path'', ''path'', ''filename'']),
      (''target_file'', [''file_path'', ''path'', ''filename'']),
      (''file_path'', [''target_file'', ''path'', ''filename'']),
      (''filename'', [''target_file'', ''file_path'', ''path'']),
      (''target_directory'', [''path'', ''directory'', ''dir_path'', ''dir'']),
      (''directory'', [''target_directory'', ''path'', ''dir_path'', ''dir'']),
      (''content'', [''contents'', ''code'', ''text'', ''body'']),
      (''contents'', [''content'', ''code'', ''text'', ''body'']),
      (''code'', [''content'', ''contents'', ''text'']),
      (''text'', [''content'', ''contents'', ''code'']),
      (''body'', [''content'', ''contents'']),
      (''background'', [''is_background'']),
      (''is_background'', [''background'']),
      (''command'', [''cmd'', ''shell_command'', ''script'']),
      (''cmd'', [''command'', ''shell_command'']),
      (''shell_command'', [''command'', ''cmd'']),
      (''old_string'', [''old_text'', ''search'', ''find'', ''pattern'']),
      (''new_string'', [''new_text'', ''replace'', ''replacement'']),
      (''old_text'', [''old_string'', ''search'', ''find'']),
      (''new_text'', [''new_string'', ''replace'', ''replacement'']),
      (''search'', [''old_string'', ''old_text'', ''find'', ''pattern'']),
      (''replace'', [''new_string'', ''new_text'', ''replacement'']),
      (''replacement'', [''new_string'', ''new_text'', ''replace''])]"

definition tool_defaults :: "(string, jobj) gomap" where
  "tool_defaults = [(''run_terminal_cmd'', [(''is_background'', JBool False)])]"

section \<open>Names\<close>

definition snake_to_camel :: "string \<Rightarrow> string" where
  "snake_to_camel s =
     (let parts = split_char CHR ''_'' s in
      if length parts \<le> 1 then s
      else hd parts @ concat (List.map (\<lambda>p. case p of [] \<Rightarrow> [] | c # r \<Rightarrow> upper_char c # r) (tl parts)))"

definition is_upper :: "char \<Rightarrow> bool" where
  "is_upper c \<longleftrightarrow> (let n = of_char c :: nat in 65 \<le> n \<and> n \<le> 90)"

fun mark_humps :: "bool \<Rightarrow> string \<Rightarrow> string" where
  "mark_humps inside [] = []"
| "mark_humps inside (c # s) = (if inside \<and> is_upper c then [CHR ''_'', c] else [c]) @ mark_humps True s"

definition camel_to_snake :: "string \<Rightarrow> string" where
  "camel_to_snake s = to_lower (mark_humps False s)"

type_synonym param_types = "(string, string) gomap"

definition in_schema :: "param_types \<Rightarrow> string \<Rightarrow> bool" where
  "in_schema types k \<longleftrightarrow> mget types k \<noteq> None"

fun first_candidate :: "param_types \<Rightarrow> string list \<Rightarrow> string option" where
  "first_candidate types [] = None"
| "first_candidate types (c # cs) =
     (if in_schema types c then Some c
      else if in_schema types (snake_to_camel c) then Some (snake_to_camel c)
      else if in_schema types (camel_to_snake c) then Some (camel_to_snake c)
      else first_candidate types cs)"

text \<open>\<open>None\<close> is the empty string, \<open>no match\<close>.\<close>

definition find_best_match :: "string \<Rightarrow> param_types \<Rightarrow> string option" where
  "find_best_match k types =
     (if in_schema types (camel_to_snake k) then Some (camel_to_snake k)
      else if in_schema types (snake_to_camel k) then Some (snake_to_camel k)
      else case mget parameter_synonyms (to_lower k) of
        None \<Rightarrow> None
      | Some cs \<Rightarrow> first_candidate types cs)"

section \<open>Arguments\<close>

definition new_key :: "param_types \<Rightarrow> string \<Rightarrow> string" where
  "new_key types k =
     (if in_schema types k then k
      else case find_best_match k types of Some k' \<Rightarrow> if k' = [] then k else k' | None \<Rightarrow> k)"

definition key_changes :: "param_types \<Rightarrow> string \<Rightarrow> bool" where
  "key_changes types k \<longleftrightarrow> \<not> in_schema types k
     \<and> (case find_best_match k types of Some k' \<Rightarrow> k' \<noteq> [] | None \<Rightarrow> False)"

definition expected_type :: "param_types \<Rightarrow> string \<Rightarrow> string" where
  "expected_type types k = (case mget types k of None \<Rightarrow> [] | Some t \<Rightarrow> t)"

text \<open>An array where the schema expects a scalar is replaced by its first element.\<close>

definition first_element :: "string \<Rightarrow> jval list \<Rightarrow> jval option" where
  "first_element t xs =
     (case xs of
        [] \<Rightarrow> None
      | x # _ \<Rightarrow>
          if t = ''string'' then (case x of JStr _ \<Rightarrow> Some x | _ \<Rightarrow> None)
          else if t = ''integer'' \<or> t = ''number'' then Some x
          else None)"

text \<open>
  \<open>normalizeMapRecursive\<close> visits the entries in the order of the map: \<open>acc\<close> are the entries written
  so far and the flag says whether anything changed so far. An array is looked into only as long
  as nothing has.
\<close>

fun normalize_entries :: "param_types \<Rightarrow> jobj \<Rightarrow> jobj \<Rightarrow> bool \<Rightarrow> jobj \<times> bool"
  and normalize_array :: "param_types \<Rightarrow> jval list \<Rightarrow> jval list \<times> bool" where
  "normalize_entries types [] acc changed = (acc, changed)"
| "normalize_entries types ((k, v) # m) acc changed =
     (let k' = new_key types k; c1 = (changed \<or> key_changes types k);
          (v', c2) =
            (case v of
               JObj o1 \<Rightarrow>
                 (let (n, c) = normalize_entries types o1 [] False in if c then (JObj n, True) else (v, c1))
             | JArr xs \<Rightarrow>
                 (let (v1, c2) = (case first_element (expected_type types k') xs of
                                    Some x \<Rightarrow> (x, True) | None \<Rightarrow> (v, c1))
                  in if c2 then (v1, c2)
                     else let (ys, c) = normalize_array types xs in if c then (JArr ys, True) else (v1, c2))
             | _ \<Rightarrow> (v, c1))
      in normalize_entries types m (mput k' v' acc) c2)"
| "normalize_array types [] = ([], False)"
| "normalize_array types (x # xs) =
     (let (x', c) =
            (case x of
               JObj m \<Rightarrow> (let (n, c) = normalize_entries types m [] False in if c then (JObj n, True) else (x, False))
             | JArr ys \<Rightarrow> (let (n, c) = normalize_array types ys in if c then (JArr n, True) else (x, False))
             | _ \<Rightarrow> (x, False));
          (rest, c') = normalize_array types xs
      in (x' # rest, c \<or> c'))"

definition normalize_map :: "param_types \<Rightarrow> jobj \<Rightarrow> jobj \<times> bool" where
  "normalize_map types args = normalize_entries types args [] False"

definition add_missing_defaults :: "string \<Rightarrow> jobj \<Rightarrow> param_types \<Rightarrow> jobj \<times> bool" where
  "add_missing_defaults tool args types =
     (case mget tool_defaults tool of
        None \<Rightarrow> (args, False)
      | Some ds \<Rightarrow> fold (\<lambda>(p, d) (a, c). if in_schema types p \<and> mget a p = None then (mput p d a, True) else (a, c))
                    ds (args, False))"

type_synonym tool_context = "(string, param_types) gomap"

text \<open>\<open>unmarshal\<close> and \<open>marshal\<close> are the JSON library's; the context may be nil.\<close>

definition normalize_tool_call_args ::
    "(string \<Rightarrow> jobj option) \<Rightarrow> (jobj \<Rightarrow> string option) \<Rightarrow> tool_context option \<Rightarrow> string \<Rightarrow> string \<Rightarrow> string" where
  "normalize_tool_call_args unmarshal marshal ctx tool args =
     (case ctx of
        None \<Rightarrow> args
      | Some tools \<Rightarrow>
          if args = [] \<or> args = ''{}'' then args
          else case mget tools tool of
            None \<Rightarrow> args
          | Some types \<Rightarrow>
              if types = [] then args
              else case unmarshal args of
                None \<Rightarrow> args
              | Some actual \<Rightarrow>
                  let (n, c) = normalize_map types actual;
                      (n', c') = add_missing_defaults tool n types
                  in if \<not> (c \<or> c') then args
                     else case marshal n' of None \<Rightarrow> args | Some s \<Rightarrow> s)"

section \<open>Contexts\<close>

definition param_type_of :: "'j gjson \<Rightarrow> 'j \<Rightarrow> string" where
  "param_type_of J v = (let t = gj_str J (gj_get J v ''type'') in if t = [] then ''string'' else t)"

definition params_at :: "'j gjson \<Rightarrow> 'j \<Rightarrow> string \<Rightarrow> param_types" where
  "params_at J t path = fold (\<lambda>(k, v). mput k (param_type_of J v)) (gj_each J (gj_get J t path)) []"

definition json_schema_path :: "'j gjson \<Rightarrow> 'j \<Rightarrow> string" where
  "json_schema_path J t =
     (if gj_exists J (gj_get J t ''parametersJsonSchema.properties'') then ''parametersJsonSchema.properties''
      else ''parameters.properties'')"

definition add_tool :: "'j gjson \<Rightarrow> 'j \<Rightarrow> tool_context \<Rightarrow> tool_context" where
  "add_tool J t ctx =
     (let fname = gj_str J (gj_get J t ''function.name'');
          name = (if fname \<noteq> [] then fname else gj_str J (gj_get J t ''name''));
          path = (if fname \<noteq> [] then ''function.parameters.properties'' else json_schema_path J t);
          ctx1 = (if name \<noteq> [] then mput name (params_at J t path) ctx else ctx);
          decls = gj_get J t ''functionDeclarations''
      in if gj_is_array J decls
         then fold (\<lambda>fd c. let n = gj_str J (gj_get J fd ''name'') in
                      if n = [] then c else mput n (params_at J fd (json_schema_path J fd)) c)
                (gj_array J decls) ctx1
         else ctx1)"

definition new_tool_schema_context :: "'j gjson \<Rightarrow> 'j list \<Rightarrow> tool_context option" where
  "new_tool_schema_context J tools = (if tools = [] then None else Some (fold (add_tool J) tools []))"

section \<open>Lemmas\<close>

text \<open>
  Arguments that need no repair: no key has a better name, no array stands for a scalar, and so on
  inside.
\<close>

fun fits :: "param_types \<Rightarrow> jobj \<Rightarrow> bool" and fits_items :: "param_types \<Rightarrow> jval list \<Rightarrow> bool" where
  "fits types [] = True"
| "fits types ((k, v) # m) \<longleftrightarrow> \<not> key_changes types k \<and>
     (case v of
        JObj o1 \<Rightarrow> fits types o1
      | JArr xs \<Rightarrow> first_element (expected_type types (new_key types k)) xs = None \<and> fits_items types xs
      | _ \<Rightarrow> True) \<and> fits types m"
| "fits_items types [] = True"
| "fits_items types (x # xs) \<longleftrightarrow>
     (case x of JObj m \<Rightarrow> fits types m | JArr ys \<Rightarrow> fits_items types ys | _ \<Rightarrow> True) \<and> fits_items types xs"

lemma changed_iff:
  "snd (normalize_entries types m acc changed) \<longleftrightarrow> changed \<or> \<not> fits types m"
  "snd (normalize_array types xs) \<longleftrightarrow> \<not> fits_items types xs"
proof (induction types m and types xs arbitrary: acc changed rule: fits_fits_items.induct)
  case (2 types k v m)
  then show ?case by (cases v) (auto simp: Let_def split_beta split: option.split)
next
  case (4 types x xs)
  then show ?case by (cases x) (auto simp: Let_def split_beta)
qed simp_all

lemma best_match_in_schema: "find_best_match k types = Some k' \<Longrightarrow> in_schema types k'"
proof -
  have "first_candidate types cs = Some c \<Longrightarrow> in_schema types c" for cs c
    by (induction cs) (auto split: if_splits)
  then show "find_best_match k types = Some k' \<Longrightarrow> in_schema types k'"
    by (auto simp: find_best_match_def split: if_splits option.splits)
qed

lemma new_key_settled: "\<not> key_changes types (new_key types k)"
  using best_match_in_schema [of k types] by (auto simp: new_key_def key_changes_def split: option.splits)

text \<open>The value an entry is written with.\<close>

definition scalar :: "jval \<Rightarrow> bool" where
  "scalar v \<longleftrightarrow> (case v of JObj _ \<Rightarrow> False | JArr _ \<Rightarrow> False | _ \<Rightarrow> True)"

lemma normalize_step:
  "\<exists>v' c. normalize_entries types ((k, v) # m) acc changed = normalize_entries types m (mput (new_key types k) v' acc) c
     \<and> (scalar v \<longrightarrow> v' = v)"
  by (cases v; simp add: Let_def split_beta scalar_def; blast)

lemma normalize_entries_keys:
  "fst ` set (fst (normalize_entries types m acc changed)) = fst ` set acc \<union> new_key types ` fst ` set m"
proof (induction m arbitrary: acc changed)
  case (Cons e m)
  obtain k v where e: "e = (k, v)" by (cases e)
  obtain v' c where "normalize_entries types (e # m) acc changed = normalize_entries types m (mput (new_key types k) v' acc) c"
    using normalize_step e by blast
  then show ?case using Cons e by auto
qed simp

lemma normalize_entries_frame:
  "k' \<notin> new_key types ` fst ` set m \<Longrightarrow> mget (fst (normalize_entries types m acc changed)) k' = mget acc k'"
proof (induction m arbitrary: acc changed)
  case (Cons e m)
  obtain k v where e: "e = (k, v)" by (cases e)
  obtain v' c where "normalize_entries types (e # m) acc changed = normalize_entries types m (mput (new_key types k) v' acc) c"
    using normalize_step e by blast
  then show ?case using Cons e by auto
qed simp

lemma normalize_entries_value:
  assumes "wf_map m" "inj_on (new_key types) (fst ` set m)" "mget m k = Some v" "scalar v"
  shows "mget (fst (normalize_entries types m acc changed)) (new_key types k) = Some v"
  using assms(1-3)
proof (induction m arbitrary: acc changed)
  case (Cons e m)
  obtain k1 v1 where e: "e = (k1, v1)" by (cases e)
  obtain v' c where s: "normalize_entries types (e # m) acc changed = normalize_entries types m (mput (new_key types k1) v' acc) c"
    "scalar v1 \<longrightarrow> v' = v1"
    using normalize_step e by blast
  show ?case
  proof (cases "k = k1")
    case True
    then have "v1 = v" using Cons.prems(3) e by simp
    moreover have "new_key types k1 \<notin> new_key types ` fst ` set m"
      using Cons.prems(1,2) e by (auto simp: wf_map_def inj_on_def)
    ultimately show ?thesis using s True assms(4) normalize_entries_frame by simp
  next
    case False
    then show ?thesis using Cons e s by (auto simp: wf_map_def)
  qed
qed simp

section \<open>Names\<close>

lemma split_char_Cons: "split_char c s \<noteq> []"
  by (induction s) (auto simp: split_char_def)

lemma split_char_simps:
  "split_char c [] = [[]]"
  "split_char c (x # s) = (if x = c then [] # split_char c s else (x # hd (split_char c s)) # tl (split_char c s))"
  by (simp_all add: split_char_def)

definition is_lower :: "char \<Rightarrow> bool" where
  "is_lower c \<longleftrightarrow> (let n = of_char c :: nat in 97 \<le> n \<and> n \<le> 122)"

text \<open>Lower-case letters and digits in words that begin with a letter, joined by underscores.\<close>

fun snake_case :: "string \<Rightarrow> bool" where
  "snake_case [] = True"
| "snake_case [c] \<longleftrightarrow> \<not> is_upper c \<and> c \<noteq> CHR ''_''"
| "snake_case (c # d # s) \<longleftrightarrow> \<not> is_upper c \<and> (c = CHR ''_'' \<longrightarrow> is_lower d) \<and> snake_case (d # s)"

lemma snake_case_tail: "snake_case (c # s) \<Longrightarrow> snake_case s"
  by (cases s) simp_all

text \<open>Dropping the underscores in one pass.\<close>

fun camelize :: "bool \<Rightarrow> string \<Rightarrow> string" where
  "camelize up [] = []"
| "camelize up (c # s) =
     (if c = CHR ''_'' then camelize True s else (if up then upper_char c else c) # camelize False s)"

lemma camelize_split:
  "camelize False s = hd (split_char CHR ''_'' s)
     @ concat (List.map (\<lambda>p. case p of [] \<Rightarrow> [] | c # r \<Rightarrow> upper_char c # r) (tl (split_char CHR ''_'' s)))"
  "camelize True s = concat (List.map (\<lambda>p. case p of [] \<Rightarrow> [] | c # r \<Rightarrow> upper_char c # r) (split_char CHR ''_'' s))"
proof (induction s)
  case (Cons c s)
  {
    case 1
    show ?case using Cons by (simp add: split_char_simps)
  next
    case 2
    show ?case using Cons split_char_Cons [of "CHR ''_''" s]
      by (cases "split_char CHR ''_'' s") (simp_all add: split_char_simps)
  }
qed (simp_all add: split_char_simps)

lemma snake_to_camel_camelize: "snake_to_camel s = camelize False s"
proof (cases "length (split_char CHR ''_'' s) \<le> 1")
  case True
  then obtain p where p: "split_char CHR ''_'' s = [p]"
    using split_char_Cons [of "CHR ''_''" s] by (cases "split_char CHR ''_'' s") auto
  have "CHR ''_'' \<notin> set s \<and> p = s" using p
  proof (induction s arbitrary: p)
    case (Cons c s)
    then show ?case using split_char_Cons [of "CHR ''_''" s]
      by (cases "split_char CHR ''_'' s") (auto simp: split_char_simps split: if_splits)
  qed (simp add: split_char_simps)
  then show ?thesis using p by (simp add: snake_to_camel_def camelize_split(1))
next
  case False
  then show ?thesis by (simp add: snake_to_camel_def camelize_split(1) Let_def)
qed

lemma lower_not_upper: "\<not> is_upper c \<Longrightarrow> lower_char c = c"
  by (auto simp: is_upper_def lower_char_def Let_def)

lemma upper_of_lower:
  assumes "is_lower c"
  shows "is_upper (upper_char c) \<and> lower_char (upper_char c) = c \<and> c \<noteq> CHR ''_''"
proof -
  define n where "n = (of_char c :: nat)"
  have n: "97 \<le> n" "n \<le> 122" using assms by (simp_all add: is_lower_def n_def Let_def)
  have up: "upper_char c = char_of (n - 32)" using n by (simp add: upper_char_def n_def Let_def)
  have code: "(of_char (upper_char c) :: nat) = n - 32" using n by (simp add: up)
  have "lower_char (upper_char c) = char_of n"
  proof -
    have "65 \<le> n - 32 \<and> n - 32 \<le> 90" "n - 32 + 32 = n" using n by linarith+
    then show ?thesis unfolding lower_char_def Let_def code by simp
  qed
  moreover have "char_of n = c" by (simp add: n_def)
  moreover have "is_upper (upper_char c)" unfolding is_upper_def Let_def code using n by linarith
  moreover have "c \<noteq> CHR ''_''"
  proof
    assume "c = CHR ''_''"
    then have "n = 95" by (simp add: n_def)
    then show False using n by simp
  qed
  ultimately show ?thesis by simp
qed

lemma humps_of_camelize:
  "snake_case s \<Longrightarrow> to_lower (mark_humps True (camelize False s)) = s"
proof (induction s rule: length_induct)
  case (1 s)
  show ?case
  proof (cases s)
    case (Cons c t)
    show ?thesis
    proof (cases "c = CHR ''_''")
      case False
      moreover have "to_lower (mark_humps True (camelize False t)) = t"
        using 1 Cons snake_case_tail by auto
      moreover have "\<not> is_upper c" using 1 Cons by (cases t) auto
      ultimately show ?thesis using Cons by (simp add: to_lower_def lower_not_upper)
    next
      case True
      then obtain d u where t: "t = d # u" and d: "is_lower d" and u: "snake_case u"
        using 1(2) Cons snake_case_tail by (cases t) auto
      have "to_lower (mark_humps True (camelize False u)) = u" using 1(1) u Cons t by auto
      moreover have "lower_char CHR ''_'' = CHR ''_''" by code_simp
      ultimately show ?thesis using Cons t True upper_of_lower [OF d] by (simp add: to_lower_def)
    qed
  qed (simp add: to_lower_def)
qed

section \<open>Properties\<close>

text \<open>
  Arguments are passed on byte for byte exactly as long as nothing in them needs repair and no
  default is missing; otherwise they are encoded anew, if that succeeds.
\<close>

theorem arguments_untouched:
  assumes "mget tools tool = Some types" "types \<noteq> []" "unmarshal args = Some m" "args \<noteq> []" "args \<noteq> ''{}''"
  shows "normalize_tool_call_args unmarshal marshal (Some tools) tool args =
    (if fits types m \<and> \<not> snd (add_missing_defaults tool (fst (normalize_map types m)) types) then args
     else case marshal (fst (add_missing_defaults tool (fst (normalize_map types m)) types)) of
       None \<Rightarrow> args | Some s \<Rightarrow> s)"
  using assms changed_iff(1) [of types m "[]" False]
  by (auto simp: normalize_tool_call_args_def Let_def split_beta normalize_map_def)

definition edit_tool :: param_types where
  "edit_tool = [(''target_file'', ''string''), (''edits'', ''array'')]"

theorem arguments_untouched_witness:
  "normalize_tool_call_args (\<lambda>_. Some [(''target_file'', JStr ''a.go'')]) (\<lambda>_. Some ''new'')
     (Some [(''edit'', edit_tool)]) ''edit'' ''{ target_file : a.go }'' = ''{ target_file : a.go }''"
proof -
  have "fits edit_tool [(''target_file'', JStr ''a.go'')]"
    "\<not> snd (add_missing_defaults ''edit'' (fst (normalize_map edit_tool [(''target_file'', JStr ''a.go'')])) edit_tool)"
    "mget [(''edit'', edit_tool)] ''edit'' = Some edit_tool" "edit_tool \<noteq> []"
    by code_simp+
  then show ?thesis
    using arguments_untouched [of "[(''edit'', edit_tool)]" "''edit''" edit_tool
        "\<lambda>_. Some [(''target_file'', JStr ''a.go'')]" "''{ target_file : a.go }''" "[(''target_file'', JStr ''a.go'')]"] by simp
qed

text \<open>
  After the repair no argument has a name that the schema offers a better one for. The names are
  the repaired ones of the arguments, and as long as no two of them coincide, a scalar is found
  under its repaired name.
\<close>

theorem repaired_arguments:
  assumes "wf_map m" "inj_on (new_key types) (fst ` set m)" "mget m k = Some v" "scalar v"
  defines "n \<equiv> fst (normalize_map types m)"
  shows "fst ` set n = new_key types ` fst ` set m \<and> (\<forall>k' \<in> fst ` set n. \<not> key_changes types k')
    \<and> mget n (new_key types k) = Some v"
  using normalize_entries_keys [of types m "[]" False] normalize_entries_value [OF assms(1-4), of "[]" False] new_key_settled
  unfolding n_def normalize_map_def by auto

theorem repaired_arguments_witness:
  "mget (fst (normalize_map edit_tool [(''path'', JStr ''a.go''), (''edits'', JArr [])])) ''target_file'' = Some (JStr ''a.go'')"
proof -
  have k: "new_key edit_tool ''path'' = ''target_file''" "new_key edit_tool ''edits'' = ''edits''" by code_simp+
  then have "inj_on (new_key edit_tool) (fst ` set [(''path'', JStr ''a.go''), (''edits'', JArr [])])" by simp
  then show ?thesis
    using repaired_arguments [of "[(''path'', JStr ''a.go''), (''edits'', JArr [])]" edit_tool "''path''" "JStr ''a.go''"] k
    by (simp add: wf_map_def scalar_def)
qed

text \<open>
  C38: The repair depends on the order in which the map is visited. An argument under a wrong name and
  one under the right name are written to the same place, and the later one stays. An array is
  repaired inside only when no argument before it was.
\<close>

theorem repair_depends_on_order:
  assumes "key_changes types k" "new_key types k = k'" "\<not> key_changes types a" "a \<noteq> k'"
    and "scalar v" "scalar w" "first_element (expected_type types a) xs = None" "\<not> fits_items types xs"
  shows "fst (normalize_map types [(k, v), (k', w)]) = [(k', w)]
    \<and> fst (normalize_map types [(k', w), (k, v)]) = [(k', v)]
    \<and> mget (fst (normalize_map types [(k, v), (a, JArr xs)])) a = Some (JArr xs)
    \<and> mget (fst (normalize_map types [(a, JArr xs), (k, v)])) a = Some (JArr (fst (normalize_array types xs)))"
proof -
  have a: "new_key types a = a" using assms(3) by (auto simp: new_key_def key_changes_def split: option.splits)
  have k': "new_key types k' = k'"
    using new_key_settled [of types k] assms(2) by (auto simp: new_key_def key_changes_def split: option.splits)
  have xs: "snd (normalize_array types xs)" using changed_iff(2) assms(8) by blast
  note sc = assms(5,6)
  show ?thesis
    using assms(1-4,7) a k' xs sc
    by (cases v; cases w) (simp_all add: normalize_map_def Let_def split_beta scalar_def)
qed

theorem repair_depends_on_order_witness:
  "fst (normalize_map edit_tool [(''path'', JStr ''a''), (''target_file'', JStr ''b'')]) = [(''target_file'', JStr ''b'')]
    \<and> fst (normalize_map edit_tool [(''target_file'', JStr ''b''), (''path'', JStr ''a'')]) = [(''target_file'', JStr ''a'')]"
proof -
  have "key_changes edit_tool ''path''" "new_key edit_tool ''path'' = ''target_file''" "\<not> key_changes edit_tool ''edits''"
    "first_element (expected_type edit_tool ''edits'') [JObj [(''path'', JStr ''c'')]] = None"
    "\<not> fits_items edit_tool [JObj [(''path'', JStr ''c'')]]"
    by code_simp+
  then show ?thesis
    using repair_depends_on_order [of edit_tool "''path''" "''target_file''" "''edits''" "JStr ''a''" "JStr ''b''"
        "[JObj [(''path'', JStr ''c'')]]"] by (simp add: scalar_def)
qed

text \<open>A name in snake case survives the conversion to camel case and back.\<close>

theorem snake_camel_roundtrip:
  assumes "snake_case s" "s \<noteq> []" "hd s \<noteq> CHR ''_''"
  shows "camel_to_snake (snake_to_camel s) = s"
proof (cases s)
  case (Cons c t)
  moreover have "\<not> is_upper c" using assms(1) Cons by (cases t) auto
  ultimately show ?thesis
    using humps_of_camelize [OF snake_case_tail, of c t] assms
    by (simp add: camel_to_snake_def snake_to_camel_camelize to_lower_def lower_not_upper)
qed (use assms in simp)

theorem snake_camel_roundtrip_witness:
  "camel_to_snake (snake_to_camel ''target_file'') = ''target_file''"
proof -
  have "snake_case ''target_file''" by code_simp
  then show ?thesis using snake_camel_roundtrip [of "''target_file''"] by simp
qed

end
