(* ===== verification/Vocabulary.thy ===== *)
theory Vocabulary
  imports Prelude
begin

text \<open>
  The words the formats use for the same thing: thinking budgets, levels and efforts
  (\<open>internal/translator/ir/thinking.go\<close>), finish reasons, roles, identifiers of tool calls and of
  messages (\<open>util.go\<close>). Random bytes are an argument.
\<close>

section \<open>Models\<close>

definition normalize_model :: "string \<Rightarrow> string" where
  "normalize_model model = to_lower model"

definition is_gemini3 :: "string \<Rightarrow> bool" where
  "is_gemini3 model \<longleftrightarrow> has_prefix (to_lower model) ''gemini-3''"

definition is_gemini3_flash :: "string \<Rightarrow> bool" where
  "is_gemini3_flash model \<longleftrightarrow> has_prefix (to_lower model) ''gemini-3'' \<and> contains (to_lower model) ''flash''"

definition is_claude :: "string \<Rightarrow> bool" where
  "is_claude model \<longleftrightarrow> contains (to_lower model) ''claude''"

definition is_thinking_model :: "string \<Rightarrow> bool" where
  "is_thinking_model model \<longleftrightarrow> contains (to_lower model) ''thinking''"

definition model_may_have_thinking :: "string \<Rightarrow> bool" where
  "model_may_have_thinking model \<longleftrightarrow>
     (let l = to_lower model in
      contains l ''2.5'' \<or> has_prefix l ''gemini-3'' \<or> contains l ''thinking'' \<or> contains l ''claude'')"

section \<open>Thinking\<close>

datatype thinking_level =
    ThinkingLevelUnspecified | ThinkingLevelMinimal | ThinkingLevelLow | ThinkingLevelMedium
  | ThinkingLevelHigh | ThinkingLevelOff

definition effort_to_budget :: "string \<Rightarrow> int \<times> bool" where
  "effort_to_budget effort =
     (let e = to_lower effort in
      if e = ''none'' then (0, False)
      else if e = ''minimal'' then (128, True)
      else if e = ''low'' then (1024, True)
      else if e = ''medium'' then (8192, True)
      else if e = ''high'' then (32768, True)
      else if e = ''xhigh'' then (65536, True)
      else (-1, True))"

definition budget_to_effort :: "int \<Rightarrow> string \<Rightarrow> string" where
  "budget_to_effort budget default_for_zero =
     (if budget \<le> 0 then default_for_zero
      else if budget \<le> 1024 then ''low''
      else if budget \<le> 8192 then ''medium''
      else ''high'')"

definition default_thinking_level :: "string \<Rightarrow> thinking_level" where
  "default_thinking_level model = (if is_gemini3_flash model then ThinkingLevelHigh else ThinkingLevelHigh)"

definition effort_to_thinking_level :: "string \<Rightarrow> string \<Rightarrow> thinking_level" where
  "effort_to_thinking_level model effort =
     (let e = to_lower effort in
      if e \<in> {''none'', ''minimal''} then (if is_gemini3_flash model then ThinkingLevelMinimal else ThinkingLevelLow)
      else if e = ''low'' then ThinkingLevelLow
      else if e \<in> {''medium'', ''high'', ''xhigh''} then ThinkingLevelHigh
      else default_thinking_level model)"

definition budget_to_thinking_level :: "string \<Rightarrow> int \<Rightarrow> thinking_level" where
  "budget_to_thinking_level model budget =
     (if budget \<le> 128 then (if is_gemini3_flash model then ThinkingLevelMinimal else ThinkingLevelLow)
      else if budget \<le> 1024 then ThinkingLevelLow
      else if budget \<le> 8192 then (if is_gemini3_flash model then ThinkingLevelMedium else ThinkingLevelHigh)
      else ThinkingLevelHigh)"

fun thinking_level_to_budget :: "thinking_level \<Rightarrow> int" where
  "thinking_level_to_budget ThinkingLevelMinimal = 128"
| "thinking_level_to_budget ThinkingLevelLow = 1024"
| "thinking_level_to_budget ThinkingLevelMedium = 8192"
| "thinking_level_to_budget ThinkingLevelHigh = 32768"
| "thinking_level_to_budget _ = 8192"

definition is_valid_thought_signature :: "string \<Rightarrow> bool" where
  "is_valid_thought_signature ts \<longleftrightarrow> ts \<noteq> [] \<and> ts \<notin> {''[undefined]'', ''undefined'', ''null'', ''[null]''}"

section \<open>Finish reasons and roles\<close>

text \<open>A \<open>FinishReason\<close> is a string; \<open>FinishReasonOther\<close> is any that has no constant.\<close>

datatype finish_reason =
    FinishReasonStop | FinishReasonMaxTokens | FinishReasonToolCalls | FinishReasonContentFilter
  | FinishReasonStopSequence | FinishReasonError | FinishReasonUnknown | FinishReasonBlocklist
  | FinishReasonProhibitedContent | FinishReasonSPII | FinishReasonImageSafety | FinishReasonRecitation
  | FinishReasonOther string

definition to_upper :: "string \<Rightarrow> string" where
  "to_upper s = List.map upper_char s"

definition map_gemini_finish_reason :: "string \<Rightarrow> finish_reason" where
  "map_gemini_finish_reason s =
     (let r = to_upper s in
      if r \<in> {''STOP'', ''FINISH_REASON_UNSPECIFIED'', ''UNKNOWN''} then FinishReasonStop
      else if r \<in> {''MAX_TOKENS'', ''LENGTH''} then FinishReasonMaxTokens
      else if r \<in> {''TOOL_CALLS'', ''FUNCTION_CALL''} then FinishReasonToolCalls
      else if r = ''SAFETY'' then FinishReasonContentFilter
      else if r = ''RECITATION'' then FinishReasonRecitation
      else if r = ''BLOCKLIST'' then FinishReasonBlocklist
      else if r = ''PROHIBITED_CONTENT'' then FinishReasonProhibitedContent
      else if r = ''SPII'' then FinishReasonSPII
      else if r = ''IMAGE_SAFETY'' then FinishReasonImageSafety
      else if r = ''OTHER'' then FinishReasonContentFilter
      else if r = ''MALFORMED_FUNCTION_CALL'' then FinishReasonToolCalls
      else FinishReasonUnknown)"

definition map_claude_finish_reason :: "string \<Rightarrow> finish_reason" where
  "map_claude_finish_reason r =
     (if r = ''end_turn'' then FinishReasonStop
      else if r = ''stop_sequence'' then FinishReasonStopSequence
      else if r = ''max_tokens'' then FinishReasonMaxTokens
      else if r = ''tool_use'' then FinishReasonToolCalls
      else FinishReasonUnknown)"

definition map_openai_finish_reason :: "string \<Rightarrow> finish_reason" where
  "map_openai_finish_reason r =
     (if r = ''stop'' then FinishReasonStop
      else if r = ''length'' then FinishReasonMaxTokens
      else if r \<in> {''tool_calls'', ''function_call''} then FinishReasonToolCalls
      else if r = ''content_filter'' then FinishReasonContentFilter
      else FinishReasonUnknown)"

definition content_filtered :: "finish_reason set" where
  "content_filtered = {FinishReasonContentFilter, FinishReasonBlocklist, FinishReasonProhibitedContent,
     FinishReasonSPII, FinishReasonImageSafety, FinishReasonRecitation}"

definition map_finish_reason_to_openai :: "finish_reason \<Rightarrow> string" where
  "map_finish_reason_to_openai r =
     (if r \<in> {FinishReasonStop, FinishReasonStopSequence} then ''stop''
      else if r = FinishReasonMaxTokens then ''length''
      else if r = FinishReasonToolCalls then ''tool_calls''
      else if r \<in> content_filtered then ''content_filter''
      else if r = FinishReasonError then ''error''
      else ''stop'')"

definition map_finish_reason_to_claude :: "finish_reason \<Rightarrow> string" where
  "map_finish_reason_to_claude r =
     (if r = FinishReasonStop then ''end_turn''
      else if r = FinishReasonMaxTokens then ''max_tokens''
      else if r = FinishReasonToolCalls then ''tool_use''
      else if r = FinishReasonStopSequence then ''stop_sequence''
      else if r \<in> content_filtered then ''end_turn''
      else ''end_turn'')"

datatype role = RoleUser | RoleAssistant | RoleSystem | RoleTool

definition map_standard_role :: "string \<Rightarrow> role" where
  "map_standard_role r =
     (if r \<in> {''system'', ''developer''} then RoleSystem
      else if r = ''assistant'' then RoleAssistant
      else if r = ''tool'' then RoleTool
      else RoleUser)"

section \<open>Identifiers\<close>

text \<open>\<open>strings.Replace\<close> of the first occurrence, which is the prefix that was tested.\<close>

definition replace_prefix :: "string \<Rightarrow> string \<Rightarrow> string \<Rightarrow> string" where
  "replace_prefix p q s = (if has_prefix s p then q @ drop (length p) s else s)"

definition from_kiro_tool_id :: "string \<Rightarrow> string" where
  "from_kiro_tool_id = replace_prefix ''tooluse_'' ''call_''"

definition from_claude_tool_id :: "string \<Rightarrow> string" where
  "from_claude_tool_id = replace_prefix ''toolu_'' ''call_''"

definition to_kiro_tool_id :: "string \<Rightarrow> string" where
  "to_kiro_tool_id = replace_prefix ''call_'' ''tooluse_''"

definition to_claude_tool_id :: "string \<Rightarrow> string" where
  "to_claude_tool_id i =
     (if take 6 i = ''toolu_'' then i
      else if take 5 i = ''call_'' then ''toolu_'' @ drop 5 i
      else ''toolu_'' @ i)"

definition id_charset :: string where
  "id_charset = ''ABCDEFGHIJKLMNOPQRSTUVWXYZabcdefghijklmnopqrstuvwxyz0123456789''"

definition generate_alphanumeric :: "8 word list \<Rightarrow> string" where
  "generate_alphanumeric bs = List.map (\<lambda>b. id_charset ! (unat b mod length id_charset)) bs"

definition gen_tool_call_id :: "8 word list \<Rightarrow> string" where
  "gen_tool_call_id bs = ''call_'' @ generate_alphanumeric (take 24 bs)"

definition gen_claude_tool_call_id :: "8 word list \<Rightarrow> string" where
  "gen_claude_tool_call_id bs = ''toolu_'' @ generate_alphanumeric (take 20 bs)"

definition hex_chars :: string where
  "hex_chars = ''0123456789abcdef''"

definition hex_encode :: "8 word list \<Rightarrow> string" where
  "hex_encode bs = concat (List.map (\<lambda>v. [hex_chars ! unat (drop_bit 4 v), hex_chars ! unat (v AND 15)]) bs)"

text \<open>\<open>bs\<close> are the sixteen random bytes.\<close>

definition generate_uuid :: "8 word list \<Rightarrow> string" where
  "generate_uuid bs =
     (let b = (bs[6 := (bs ! 6 AND 15) OR 64])[8 := (bs ! 8 AND 63) OR 128] in
      hex_encode (take 4 b) @ ''-'' @ hex_encode (take 2 (drop 4 b)) @ ''-'' @ hex_encode (take 2 (drop 6 b))
        @ ''-'' @ hex_encode (take 2 (drop 8 b)) @ ''-'' @ hex_encode (drop 10 b))"

section \<open>Lemmas\<close>

lemma replace_prefix_back: "has_prefix s p \<Longrightarrow> replace_prefix q p (replace_prefix p q s) = s"
  by (simp add: replace_prefix_def has_prefix_def) (metis append_take_drop_id)

lemma all_bytes:
  assumes "\<forall>n \<in> set [0..<256]. P (word_of_nat n :: 8 word)"
  shows "P b"
proof -
  have "unat b \<in> set [0..<256]" using unsigned_less [of b] by simp
  then have "P (word_of_nat (unat b))" by (rule bspec [OF assms])
  then show ?thesis by simp
qed

text \<open>The version and variant digits, for every byte.\<close>

lemma version_digit: "hex_chars ! unat (drop_bit 4 ((b AND 15) OR 64 :: 8 word)) = CHR ''4''"
  by (rule all_bytes) code_simp

lemma variant_digit: "hex_chars ! unat (drop_bit 4 ((b AND 63) OR 128 :: 8 word)) \<in> set ''89ab''"
  by (rule all_bytes) code_simp

lemma length_hex_encode [simp]: "length (hex_encode bs) = 2 * length bs"
  by (induction bs) (simp_all add: hex_encode_def)

text \<open>Tool identifiers of Kiro are recovered from the standard form.\<close>

lemma kiro_tool_id_roundtrip:
  "has_prefix i ''tooluse_'' \<Longrightarrow> to_kiro_tool_id (from_kiro_tool_id i) = i"
  "has_prefix i ''call_'' \<Longrightarrow> from_kiro_tool_id (to_kiro_tool_id i) = i"
  by (simp_all add: to_kiro_tool_id_def from_kiro_tool_id_def replace_prefix_back)

lemma generated_ids_valid:
  "c \<in> set (generate_alphanumeric bs) \<Longrightarrow> c \<in> set id_charset"
proof -
  have "length id_charset = 62" by (simp add: id_charset_def)
  then show "c \<in> set (generate_alphanumeric bs) \<Longrightarrow> c \<in> set id_charset"
    by (auto simp: generate_alphanumeric_def intro!: nth_mem)
qed

section \<open>Properties\<close>

text \<open>
  A finish reason that is sent to a client and read back is sent the same way again, except that
  an error becomes a stop on its way through OpenAI's format. Claude's format keeps apart exactly
  the four reasons it has words for; a filtered answer looks like a complete one.
\<close>

theorem finish_reasons_stable:
  "(map_finish_reason_to_openai (map_openai_finish_reason (map_finish_reason_to_openai r))
       = map_finish_reason_to_openai r \<longleftrightarrow> r \<noteq> FinishReasonError)
   \<and> map_finish_reason_to_claude (map_claude_finish_reason (map_finish_reason_to_claude r))
       = map_finish_reason_to_claude r
   \<and> (map_claude_finish_reason (map_finish_reason_to_claude r) = r \<longleftrightarrow>
       r \<in> {FinishReasonStop, FinishReasonMaxTokens, FinishReasonToolCalls, FinishReasonStopSequence})"
  by (cases r) (simp_all add: map_finish_reason_to_openai_def map_openai_finish_reason_def
      map_finish_reason_to_claude_def map_claude_finish_reason_def content_filtered_def)

text \<open>
  A thinking level survives the conversion to a budget on the models that have all four. An effort
  becomes the level of its budget, except the medium effort on those models: directly it is high,
  by way of its budget medium.
\<close>

theorem thinking_conversions_agree:
  assumes "is_gemini3_flash model" "l \<in> {ThinkingLevelMinimal, ThinkingLevelLow, ThinkingLevelMedium, ThinkingLevelHigh}"
    and "to_lower e \<in> {''none'', ''minimal'', ''low'', ''medium'', ''high'', ''xhigh''}"
  shows "budget_to_thinking_level model (thinking_level_to_budget l) = l
    \<and> (effort_to_thinking_level model e = budget_to_thinking_level model (fst (effort_to_budget e))
         \<longleftrightarrow> to_lower e \<noteq> ''medium'')"
  using assms
  by (auto simp: budget_to_thinking_level_def effort_to_thinking_level_def effort_to_budget_def Let_def)

theorem thinking_conversions_agree_witness:
  "effort_to_thinking_level ''gemini-3-flash'' ''medium''
    \<noteq> budget_to_thinking_level ''gemini-3-flash'' (fst (effort_to_budget ''medium''))"
proof -
  have "is_gemini3_flash ''gemini-3-flash''" "to_lower ''medium'' = ''medium''" by code_simp+
  then show ?thesis using thinking_conversions_agree [of "''gemini-3-flash''" ThinkingLevelLow "''medium''"] by simp
qed

text \<open>
  An identifier made of sixteen random bytes has the shape of a version 4 UUID: thirty-six
  characters with four dashes, the version digit and one of the four variant digits.
\<close>

theorem uuid_shape:
  assumes "length bs = 16"
  defines "u \<equiv> generate_uuid bs"
  shows "length u = 36 \<and> u ! 8 = CHR ''-'' \<and> u ! 13 = CHR ''-'' \<and> u ! 18 = CHR ''-'' \<and> u ! 23 = CHR ''-''
    \<and> u ! 14 = CHR ''4'' \<and> u ! 19 \<in> set ''89ab''"
proof -
  obtain b0 b1 b2 b3 b4 b5 b6 b7 b8 b9 b10 b11 b12 b13 b14 b15 where
    "bs = [b0, b1, b2, b3, b4, b5, b6, b7, b8, b9, b10, b11, b12, b13, b14, b15]"
    using assms(1) by (auto simp: length_Suc_conv eval_nat_numeral)
  then show ?thesis
    using version_digit [of b6] variant_digit [of b8]
    by (simp add: u_def generate_uuid_def hex_encode_def eval_nat_numeral)
qed

theorem uuid_shape_witness: "generate_uuid (replicate 16 255) ! 14 = CHR ''4''"
  using uuid_shape [of "replicate 16 255"] by simp

end
