(* ===== verification/MalformedCall.thy ===== *)
theory MalformedCall
  imports Prelude
begin

text \<open>
  Recovery of a function call from the text of a \<open>MALFORMED_FUNCTION_CALL\<close> finish message, such as
  \<open>Malformed function call: call:default_api:run{path:"src",count:3}\<close>
  (\<open>internal/translator/ir/util.go\<close>). \<open>standardize\<close> is the lenient JSON parser of a library;
  where it fails the code quotes the keys itself.
\<close>

section \<open>Finding the call\<close>

text \<open>\<open>strings.LastIndex\<close>.\<close>

fun last_index_of :: "string \<Rightarrow> string \<Rightarrow> nat option" where
  "last_index_of [] p = (if p = [] then Some 0 else None)"
| "last_index_of (c # cs) p =
     (case last_index_of cs p of
        Some i \<Rightarrow> Some (Suc i)
      | None \<Rightarrow> if has_prefix (c # cs) p then Some 0 else None)"

definition call_start :: "string \<Rightarrow> nat option" where
  "call_start msg =
     (case index_of msg '': call:'' of
        Some i \<Rightarrow> Some (i + 2)
      | None \<Rightarrow> if has_prefix msg ''call:'' then Some 0 else last_index_of msg ''call:'')"

text \<open>The length of the text up to the brace that closes the first one.\<close>

fun close_brace :: "int \<Rightarrow> string \<Rightarrow> nat option" where
  "close_brace depth [] = None"
| "close_brace depth (c # s) =
     (if c = CHR ''{'' then map_option Suc (close_brace (depth + 1) s)
      else if c = CHR ''}''
      then (if depth - 1 = 0 then Some 1 else map_option Suc (close_brace (depth - 1) s))
      else map_option Suc (close_brace depth s))"

section \<open>Quoting keys\<close>

definition key_end :: "char \<Rightarrow> bool" where
  "key_end c \<longleftrightarrow> c = CHR '':'' \<or> c = CHR '' ''"

definition blank :: "char \<Rightarrow> bool" where
  "blank c \<longleftrightarrow> c = CHR '' '' \<or> c = CHR 0x09 \<or> c = CHR 0x0A"

text \<open>
  What the code writes after an opening brace or a comma: the quoted key, if one follows, and the
  text it goes on with.
\<close>

definition quote_key :: "string \<Rightarrow> string \<times> string" where
  "quote_key rest =
     (let s = dropWhile blank rest; k = takeWhile (\<lambda>c. \<not> key_end c) s; after = dropWhile (\<lambda>c. \<not> key_end c) s
      in if s \<noteq> [] \<and> hd s \<noteq> CHR 0x22 \<and> hd s \<noteq> CHR ''}'' \<and> after \<noteq> [] \<and> k \<noteq> []
         then (CHR 0x22 # k @ [CHR 0x22], after) else ([], s))"

lemma quote_key_shorter: "length (snd (quote_key s)) \<le> length s"
proof -
  have "length (dropWhile P (dropWhile Q s)) \<le> length s" for P Q :: "char \<Rightarrow> bool"
    by (meson length_dropWhile_le order_trans)
  then show ?thesis by (auto simp: quote_key_def Let_def length_dropWhile_le)
qed

function quote_keys :: "bool \<Rightarrow> bool \<Rightarrow> string \<Rightarrow> string" where
  "quote_keys in_string escaped [] = []"
| "quote_keys in_string escaped (c # s) =
     (if escaped then c # quote_keys in_string False s
      else if c = CHR 0x5C \<and> in_string then c # quote_keys in_string True s
      else if c = CHR 0x22 then c # quote_keys (\<not> in_string) False s
      else if in_string then c # quote_keys in_string False s
      else if c = CHR ''{'' \<or> c = CHR '',''
      then c # fst (quote_key s) @ quote_keys in_string False (snd (quote_key s))
      else c # quote_keys in_string False s)"
  by pat_completeness auto
termination
  by (relation "measure (\<lambda>(_, _, s). length s)") (auto simp: le_imp_less_Suc quote_key_shorter)

definition convert_malformed_args_fallback :: "string \<Rightarrow> string" where
  "convert_malformed_args_fallback args = quote_keys False False args"

definition convert_malformed_args :: "(string \<Rightarrow> string option) \<Rightarrow> string \<Rightarrow> string" where
  "convert_malformed_args standardize args =
     (if args = ''{}'' \<or> args = [] then ''{}''
      else case standardize args of Some s \<Rightarrow> s | None \<Rightarrow> convert_malformed_args_fallback args)"

definition parse_malformed_function_call ::
    "(string \<Rightarrow> string option) \<Rightarrow> string \<Rightarrow> (string \<times> string) option" where
  "parse_malformed_function_call standardize msg =
     (case call_start msg of
        None \<Rightarrow> None
      | Some i \<Rightarrow>
          let rest = drop 5 (drop i msg) in
          (case index_of rest '':'' of
             None \<Rightarrow> None
           | Some j \<Rightarrow>
               let rest = drop (j + 1) rest in
               (case index_of rest ''{'' of
                  None \<Rightarrow> None
                | Some b \<Rightarrow>
                    let args = drop b rest in
                    (case close_brace 0 args of
                       None \<Rightarrow> None
                     | Some e \<Rightarrow> Some (take b rest, convert_malformed_args standardize (take e args))))))"

section \<open>Lemmas\<close>

lemma index_of_append_char:
  "c \<notin> set xs \<Longrightarrow> index_of (xs @ c # ys) [c] = Some (length xs)"
  by (induction xs) (auto simp: has_prefix_def)

lemma index_of_colon: "CHR '':'' \<notin> set xs \<Longrightarrow> index_of (xs @ CHR '':'' # ys) '':'' = Some (length xs)"
  by (rule index_of_append_char)

text \<open>How many braces of a text are left open.\<close>

fun depth_of :: "string \<Rightarrow> int" where
  "depth_of [] = 0"
| "depth_of (c # s) = (if c = CHR ''{'' then 1 else if c = CHR ''}'' then - 1 else 0) + depth_of s"

definition balanced :: "string \<Rightarrow> bool" where
  "balanced s \<longleftrightarrow> depth_of s = 0 \<and> list_all (\<lambda>k. 0 \<le> depth_of (take k s)) [0 ..< Suc (length s)]"

lemma balanced_prefix: "balanced s \<Longrightarrow> k \<le> length s \<Longrightarrow> 0 \<le> depth_of (take k s)"
  by (auto simp: balanced_def list_all_iff)

lemma close_brace_append:
  "0 < d \<Longrightarrow> (\<forall>k \<le> length s. 0 < d + depth_of (take k s))
   \<Longrightarrow> close_brace d (s @ t) = map_option ((+) (length s)) (close_brace (d + depth_of s) t)"
proof (induction s arbitrary: d)
  case (Cons c s)
  let ?e = "d + depth_of [c]"
  have later: "\<forall>k \<le> length s. 0 < ?e + depth_of (take k s)"
    using Cons.prems(2) by (metis Suc_le_mono add.assoc add.right_neutral depth_of.simps list.size(4) take_Suc_Cons add.commute plus_1_eq_Suc)
  then have "0 < ?e" by (metis add.right_neutral depth_of.simps(1) le0 take_0)
  from Cons.IH[OF this later] \<open>0 < ?e\<close> show ?case
    by (auto simp: option.map_comp o_def add.assoc split: if_splits)
qed (simp add: option.map_ident_strong)

lemma close_brace_balanced:
  assumes "balanced s"
  shows "close_brace 0 (CHR ''{'' # s @ CHR ''}'' # t) = Some (length s + 2)"
proof -
  have "close_brace 1 (s @ CHR ''}'' # t) = Some (length s + 1)"
    using assms balanced_prefix[OF assms] by (subst close_brace_append) (auto simp: balanced_def add_pos_nonneg)
  then show ?thesis by simp
qed

subsection \<open>Arguments as they are written\<close>

text \<open>
  Arguments without arrays: a number or word, a text, or an object. \<open>written q\<close> writes the keys
  bare or, if \<open>q\<close>, in quotes.
\<close>

datatype arg = Plain string | Text string | Obj "(string \<times> arg) list"

fun string_body :: "string \<Rightarrow> bool" where
  "string_body [] = True"
| "string_body [c] = (c \<noteq> CHR 0x22 \<and> c \<noteq> CHR 0x5C)"
| "string_body (c # d # s) =
     (if c = CHR 0x5C then string_body s else c \<noteq> CHR 0x22 \<and> string_body (d # s))"

definition plain_key :: "string \<Rightarrow> bool" where
  "plain_key k \<longleftrightarrow> k \<noteq> [] \<and> list_all (\<lambda>c. \<not> key_end c \<and> \<not> blank c \<and> c \<noteq> CHR 0x22 \<and> c \<noteq> CHR ''}'') k"

definition written_key :: "bool \<Rightarrow> string \<Rightarrow> string" where
  "written_key q k = (if q then CHR 0x22 # k @ [CHR 0x22] else k)"

fun separated :: "string list \<Rightarrow> string" where
  "separated [] = []"
| "separated [s] = s"
| "separated (s # ss) = s @ CHR '','' # separated ss"

primrec written :: "bool \<Rightarrow> arg \<Rightarrow> string" where
  "written q (Plain s) = s"
| "written q (Text s) = CHR 0x22 # s @ [CHR 0x22]"
| "written q (Obj kvs) =
     CHR ''{'' # separated (map (\<lambda>(k, w). written_key q k @ CHR '':'' # w) (map (map_prod id (written q)) kvs)) @ [CHR ''}'']"

primrec well_formed :: "arg \<Rightarrow> bool" where
  "well_formed (Plain s) = list_all (\<lambda>c. c \<noteq> CHR 0x22 \<and> c \<noteq> CHR ''{'' \<and> c \<noteq> CHR '','') s"
| "well_formed (Text s) = string_body s"
| "well_formed (Obj kvs) =
     list_all (\<lambda>(k, w). plain_key k \<and> string_body k \<and> w) (map (map_prod id well_formed) kvs)"

lemma quote_keys_plain:
  "list_all (\<lambda>c. c \<noteq> CHR 0x22 \<and> c \<noteq> CHR ''{'' \<and> c \<noteq> CHR '','') s
   \<Longrightarrow> quote_keys False False (s @ t) = s @ quote_keys False False t"
  by (induction s) auto

lemma quote_keys_string:
  "string_body s \<Longrightarrow> quote_keys True False (s @ CHR 0x22 # t) = s @ CHR 0x22 # quote_keys False False t"
  by (induction s rule: string_body.induct) (auto split: if_splits)

lemma quote_key_bare:
  assumes "plain_key k"
  shows "quote_key (k @ CHR '':'' # t) = (CHR 0x22 # k @ [CHR 0x22], CHR '':'' # t)"
proof -
  obtain c cs where k: "k = c # cs" using assms by (cases k) (auto simp: plain_key_def)
  have all: "\<forall>x \<in> set k. \<not> key_end x" and "\<not> blank c" "c \<noteq> CHR 0x22" "c \<noteq> CHR ''}''"
    using assms by (auto simp: plain_key_def list_all_iff k)
  moreover have "key_end CHR '':''" by (simp add: key_end_def)
  ultimately show ?thesis
    by (simp add: quote_key_def Let_def k takeWhile_append2 dropWhile_append2)
qed

lemma quote_key_quoted: "quote_key (CHR 0x22 # t) = ([], CHR 0x22 # t)"
  and quote_key_closed: "quote_key (CHR ''}'' # t) = ([], CHR ''}'' # t)"
  by (simp_all add: quote_key_def blank_def)

definition after_separator :: "string \<Rightarrow> string" where
  "after_separator s = fst (quote_key s) @ quote_keys False False (snd (quote_key s))"

lemma quote_keys_separator:
  "quote_keys False False (CHR ''{'' # s) = CHR ''{'' # after_separator s"
  "quote_keys False False (CHR '','' # s) = CHR '','' # after_separator s"
  by (simp_all add: after_separator_def)

lemma after_separator_key:
  assumes "plain_key k" "string_body k"
  shows "after_separator (written_key q k @ CHR '':'' # t) = written_key True k @ CHR '':'' # quote_keys False False t"
proof (cases q)
  case True
  then show ?thesis
    using quote_keys_string[OF assms(2)] by (simp add: after_separator_def written_key_def quote_key_quoted)
next
  case False
  then show ?thesis
    using quote_key_bare[OF assms(1)] by (simp add: after_separator_def written_key_def)
qed

abbreviation written_entries :: "bool \<Rightarrow> (string \<times> arg) list \<Rightarrow> string" where
  "written_entries q kvs \<equiv> separated (map (\<lambda>(k, w). written_key q k @ CHR '':'' # w) (map (map_prod id (written q)) kvs))"

lemma quote_keys_entries:
  assumes "\<And>k x t. (k, x) \<in> set kvs \<Longrightarrow> quote_keys False False (written q x @ t) = written True x @ quote_keys False False t"
    and "\<forall>(k, x) \<in> set kvs. plain_key k \<and> string_body k"
  shows "after_separator (written_entries q kvs @ CHR ''}'' # t) = written_entries True kvs @ CHR ''}'' # quote_keys False False t"
  using assms
proof (induction kvs rule: induct_list012)
  case 1
  then show ?case by (simp add: after_separator_def quote_key_closed)
next
  case (2 p)
  then show ?case by (cases p) (simp add: after_separator_key)
next
  case (3 p r kvs)
  obtain k x where p: "p = (k, x)" by (cases p)
  have here: "quote_keys False False (written q x @ u) = written True x @ quote_keys False False u" for u
    using "3.prems"(1)[of k x u] by (simp add: p)
  have rest: "after_separator (written_entries q (r # kvs) @ CHR ''}'' # t) = written_entries True (r # kvs) @ CHR ''}'' # quote_keys False False t"
    using "3.prems" by (intro "3.IH"(2)) auto
  have "plain_key k" "string_body k" using "3.prems"(2) by (auto simp: p)
  then show ?case
    using rest by (simp add: p id_def after_separator_key here quote_keys_separator(2) del: quote_keys.simps(2))
qed

lemma quote_keys_written:
  "well_formed x \<Longrightarrow> quote_keys False False (written q x @ t) = written True x @ quote_keys False False t"
proof (induction x arbitrary: t)
  case (Plain s)
  then show ?case by (simp add: quote_keys_plain)
next
  case (Text s)
  then show ?case using quote_keys_string[of s t] by simp
next
  case (Obj kvs)
  have good: "\<forall>(k, x) \<in> set kvs. plain_key k \<and> string_body k \<and> well_formed x"
    using Obj.prems by (auto simp: list_all_iff)
  have "after_separator (written_entries q kvs @ CHR ''}'' # t) = written_entries True kvs @ CHR ''}'' # quote_keys False False t"
  proof (rule quote_keys_entries)
    show "quote_keys False False (written q x @ u) = written True x @ quote_keys False False u"
      if "(k, x) \<in> set kvs" for k x u
      using that Obj.IH[of "(k, x)" x] good by auto
  qed (use good in auto)
  then show ?case by (simp add: quote_keys_separator(1) del: quote_keys.simps(2))
qed

lemma separated_Nil: "separated ss = [] \<longleftrightarrow> ss = [] \<or> ss = [[]]"
  by (cases ss rule: separated.cases) auto

lemma convert_args:
  "convert_malformed_args f s = (if s = ''{}'' \<or> s = [] then ''{}''
     else case f s of Some u \<Rightarrow> u | None \<Rightarrow> quote_keys False False s)"
  by (simp add: convert_malformed_args_def convert_malformed_args_fallback_def split: option.splits)

lemma index_of_call:
  assumes "CHR '':'' \<notin> set pre"
  shows "index_of (pre @ '': call:'' @ t) '': call:'' = Some (length pre)"
  using assms by (induction pre) (auto simp: has_prefix_def)

section \<open>Properties\<close>

text \<open>
  C37: A message that names the call after its introduction, as in
  \<open>Malformed function call: call:default_api:run{...}\<close>, gives back the function's name and the
  converted text of its arguments, from the opening brace to the brace that closes it, whatever
  follows. The braces are counted in texts too, so the arguments must be balanced as they are written.
\<close>

theorem malformed_call_recovered:
  assumes "CHR '':'' \<notin> set intro_text" "CHR '':'' \<notin> set api" "CHR ''{'' \<notin> set name" "balanced args"
  shows "parse_malformed_function_call standardize
           (intro_text @ '': call:'' @ api @ '':'' @ name @ ''{'' @ args @ ''}'' @ trailing)
         = Some (name, convert_malformed_args standardize (''{'' @ args @ ''}''))"
proof -
  let ?rest = "name @ CHR ''{'' # args @ CHR ''}'' # trailing"
  have "call_start (intro_text @ '': call:'' @ api @ CHR '':'' # ?rest) = Some (length intro_text + 2)"
    using index_of_call[OF assms(1)] by (simp add: call_start_def)
  moreover have "index_of (api @ CHR '':'' # ?rest) '':'' = Some (length api)"
    by (rule index_of_append_char[OF assms(2)])
  moreover have "index_of ?rest ''{'' = Some (length name)"
    by (rule index_of_append_char[OF assms(3)])
  moreover have "close_brace 0 (CHR ''{'' # args @ CHR ''}'' # trailing) = Some (length args + 2)"
    by (rule close_brace_balanced[OF assms(4)])
  ultimately show ?thesis
    by (simp add: parse_malformed_function_call_def Let_def del: index_of.simps close_brace.simps)
qed

theorem malformed_call_recovered_witness:
  "parse_malformed_function_call (\<lambda>_. None)
     ''Malformed function call: call:default_api:run{p:{n:1},m:2}, retry''
   = Some (''run'', convert_malformed_args (\<lambda>_. None) ''{p:{n:1},m:2}'')"
proof -
  have "balanced ''p:{n:1},m:2''" by code_simp
  with malformed_call_recovered[of "''Malformed function call''" "''default_api''" "''run''" "''p:{n:1},m:2''" "\<lambda>_. None" "'', retry''"]
  show ?thesis by (simp del: index_of.simps)
qed

text \<open>
  Where the lenient parser gives up, the fallback puts the bare keys of arguments without
  arrays in quotes, at every depth and with texts left alone, and keys that are quoted already stay
  as they are.
\<close>

theorem bare_keys_quoted:
  assumes "well_formed (Obj kvs)" "standardize (written q (Obj kvs)) = None"
  shows "convert_malformed_args standardize (written q (Obj kvs)) = written True (Obj kvs)"
proof (cases "written q (Obj kvs) = ''{}''")
  case True
  then have "kvs = []" by (cases kvs) (auto simp: separated_Nil)
  then show ?thesis by (simp add: convert_malformed_args_def)
next
  case False
  then show ?thesis
    using assms(2) quote_keys_written[OF assms(1), of q "[]"]
    by (simp add: convert_args del: quote_keys.simps(2))
qed

theorem bare_keys_quoted_witness:
  "convert_malformed_args (\<lambda>_. None) (''{p:'' @ CHR 0x22 # ''src,a'' @ CHR 0x22 # '',n:{m:1}}'')
   = CHR ''{'' # CHR 0x22 # ''p'' @ CHR 0x22 # '':'' @ CHR 0x22 # ''src,a'' @ CHR 0x22 # '','' @ CHR 0x22 # ''n''
     @ CHR 0x22 # '':{'' @ CHR 0x22 # ''m'' @ CHR 0x22 # '':1}}''"
proof -
  let ?kvs = "[(''p'', Text ''src,a''), (''n'', Obj [(''m'', Plain ''1'')])]"
  have "well_formed (Obj ?kvs)" by code_simp
  moreover have "written False (Obj ?kvs) = ''{p:'' @ CHR 0x22 # ''src,a'' @ CHR 0x22 # '',n:{m:1}}''" by code_simp
  moreover have "written True (Obj ?kvs) = CHR ''{'' # CHR 0x22 # ''p'' @ CHR 0x22 # '':'' @ CHR 0x22 # ''src,a''
      @ CHR 0x22 # '','' @ CHR 0x22 # ''n'' @ CHR 0x22 # '':{'' @ CHR 0x22 # ''m'' @ CHR 0x22 # '':1}}''" by code_simp
  ultimately show ?thesis
    using bare_keys_quoted[of ?kvs "\<lambda>_. None" False] by (simp only: simp_thms)
qed

text \<open>
  The fallback does not know arrays: it takes what follows the comma in an array for a key, up
  to the next colon, so the key after the array and its bracket end up inside one text.
\<close>

theorem second_element_taken_for_key:
  assumes "plain_key l" "string_body l" "well_formed (Plain a)" "plain_key x" "plain_key k" "well_formed (Plain v)"
    "standardize (''{'' @ l @ '':['' @ a @ '','' @ x @ ''],'' @ k @ '':'' @ v @ ''}'') = None"
  shows "convert_malformed_args standardize (''{'' @ l @ '':['' @ a @ '','' @ x @ ''],'' @ k @ '':'' @ v @ ''}'')
         = CHR ''{'' # CHR 0x22 # l @ CHR 0x22 # '':['' @ a @ '','' @ CHR 0x22 # x @ ''],'' @ k @ CHR 0x22 # '':'' @ v @ ''}''"
proof -
  let ?key = "x @ '']'' @ '','' @ k"
  have key: "plain_key ?key" using assms(4,5) by (simp add: plain_key_def key_end_def blank_def)
  have "after_separator (?key @ CHR '':'' # v @ ''}'') = CHR 0x22 # ?key @ CHR 0x22 # CHR '':'' # v @ ''}''"
    using quote_key_bare[OF key] quote_keys_plain[of v "''}''"] assms(6) by (simp add: after_separator_def)
  then have "quote_keys False False (CHR ''['' # a @ CHR '','' # ?key @ CHR '':'' # v @ ''}'')
      = CHR ''['' # a @ CHR '','' # CHR 0x22 # ?key @ CHR 0x22 # CHR '':'' # v @ ''}''"
    using quote_keys_plain[of "CHR ''['' # a"] assms(3) by (simp add: quote_keys_separator(2) del: quote_keys.simps(2))
  then show ?thesis
    using after_separator_key[OF assms(1,2), of False] assms(7)
    by (simp add: convert_args written_key_def quote_keys_separator(1) del: quote_keys.simps(2))
qed

theorem second_element_taken_for_key_witness:
  "convert_malformed_args (\<lambda>_. None) ''{l:[1,2],k:3}''
   = ''{'' @ CHR 0x22 # ''l'' @ CHR 0x22 # '':[1,'' @ CHR 0x22 # ''2],k'' @ CHR 0x22 # '':3}''"
proof -
  have "plain_key ''l''" "string_body ''l''" "well_formed (Plain ''1'')" "plain_key ''2''" "plain_key ''k''"
    "well_formed (Plain ''3'')" by code_simp+
  from second_element_taken_for_key[OF this, of "\<lambda>_. None"] show ?thesis by simp
qed

end
