(* ===== verification/Ir.thy ===== *)
theory Ir
  imports SchemaClean Vocabulary Gjson
begin

text \<open>
  The format that requests, answers and stream events of all providers are translated through
  (\<open>internal/translator/ir/types.go\<close>). A pointer is an option, an \<open>error\<close> its message, a value of
  type \<open>any\<close> a JSON value; a Go string, also one of bytes, is a string and its zero value the empty
  one. The record for a new event has the zero value in every field.
\<close>

section \<open>Events of a stream\<close>

datatype event_type =
    EventTypeStreamMeta | EventTypeToken | EventTypeReasoning | EventTypeReasoningSummary
  | EventTypeToolCall | EventTypeToolCallDelta | EventTypeImage | EventTypeAudio
  | EventTypeCodeExecution | EventTypeError | EventTypeFinish

record stream_meta =
  sm_message_id :: string
  sm_model :: string
  sm_input_tokens :: int
  sm_cache_tokens :: int

record prompt_tokens_details =
  pd_cached :: int
  pd_audio :: int

record completion_tokens_details =
  cd_reasoning :: int
  cd_audio :: int
  cd_accepted :: int
  cd_rejected :: int

record usage =
  us_prompt :: int
  us_completion :: int
  us_total :: int
  us_thoughts :: int
  us_cached :: int
  us_audio :: int
  us_accepted :: int
  us_rejected :: int
  us_cache_creation :: int
  us_cache_read :: int
  us_tool_use_prompt :: int
  us_prompt_details :: "prompt_tokens_details option"
  us_completion_details :: "completion_tokens_details option"

definition no_usage :: usage where
  "no_usage = \<lparr>us_prompt = 0, us_completion = 0, us_total = 0, us_thoughts = 0, us_cached = 0, us_audio = 0,
     us_accepted = 0, us_rejected = 0, us_cache_creation = 0, us_cache_read = 0, us_tool_use_prompt = 0,
     us_prompt_details = None, us_completion_details = None\<rparr>"

record tool_call =
  tc_id :: string
  tc_name :: string
  tc_args :: string
  tc_partial_args :: string
  tc_signature :: string

definition call_of :: "string \<Rightarrow> string \<Rightarrow> string \<Rightarrow> tool_call" where
  "call_of i n args = \<lparr>tc_id = i, tc_name = n, tc_args = args, tc_partial_args = [], tc_signature = []\<rparr>"

record image_part =
  im_mime_type :: string
  im_data :: string
  im_url :: string
  im_file_id :: string
  im_detail :: string

definition no_image :: image_part where
  "no_image = \<lparr>im_mime_type = [], im_data = [], im_url = [], im_file_id = [], im_detail = []\<rparr>"

record file_part =
  fp_file_id :: string
  fp_file_url :: string
  fp_filename :: string
  fp_file_data :: string
  fp_mime_type :: string

record audio_part =
  au_data :: string
  au_file_uri :: string
  au_format :: string
  au_mime_type :: string
  au_transcript :: string
  au_id :: string
  au_expires_at :: int

definition no_audio :: audio_part where
  "no_audio = \<lparr>au_data = [], au_file_uri = [], au_format = [], au_mime_type = [], au_transcript = [], au_id = [],
     au_expires_at = 0\<rparr>"

record video_part =
  vp_data :: string
  vp_file_uri :: string
  vp_mime_type :: string
  vp_duration :: rat

record code_execution_part =
  ce_language :: string
  ce_code :: string
  ce_outcome :: string
  ce_output :: string

text \<open>What a search grounded an answer in.\<close>

record web_grounding =
  wg_uri :: string
  wg_title :: string
  wg_domain :: string

record grounding_chunk =
  gc_web :: "web_grounding option"
  gc_retrieved :: "(string \<times> string) option"

record grounding_segment =
  gs_start_index :: int
  gs_end_index :: int
  gs_part_index :: int
  gs_text :: string

record grounding_support =
  gu_segment :: "grounding_segment option"
  gu_chunk_indices :: "int list"
  gu_scores :: "rat list"

record citation =
  ct_start_index :: int
  ct_end_index :: int
  ct_uri :: string
  ct_title :: string
  ct_license :: string
  ct_publication_date :: string

record grounding_metadata =
  gm_search_entry :: "string option"
  gm_chunks :: "grounding_chunk list"
  gm_supports :: "grounding_support list"
  gm_web_queries :: "string list"
  gm_retrieval_queries :: "string list"
  gm_retrieval_score :: "rat option"
  gm_citations :: "citation list option"

record safety_rating =
  sf_category :: string
  sf_probability :: string
  sf_blocked :: bool
  sf_severity :: string

record prompt_feedback =
  pf_block_reason :: string
  pf_safety_ratings :: "safety_rating list"

record openai_meta =
  om_response_id :: string
  om_create_time :: int
  om_native_finish_reason :: string
  om_thoughts :: int
  om_logprobs :: "jval option"
  om_grounding :: "grounding_metadata option"
  om_prompt_feedback :: "prompt_feedback option"
  om_service_tier :: string

record unified_event =
  ev_type :: event_type
  ev_content :: string
  ev_reasoning :: string
  ev_reasoning_summary :: string
  ev_signature :: string
  ev_tool_call :: "tool_call option"
  ev_tool_call_index :: int
  ev_image :: "image_part option"
  ev_audio :: "audio_part option"
  ev_code_execution :: "code_execution_part option"
  ev_grounding :: "grounding_metadata option"
  ev_stream_meta :: "stream_meta option"
  ev_error :: "string option"
  ev_usage :: "usage option"
  ev_finish_reason :: "finish_reason option"
  ev_refusal :: string
  ev_logprobs :: "jval option"
  ev_content_filter :: "jval option"
  ev_system_fingerprint :: string
  ev_redacted_data :: string

definition new_event :: "event_type \<Rightarrow> unified_event" where
  "new_event t = \<lparr>ev_type = t, ev_content = [], ev_reasoning = [], ev_reasoning_summary = [], ev_signature = [],
     ev_tool_call = None, ev_tool_call_index = 0, ev_image = None, ev_audio = None, ev_code_execution = None,
     ev_grounding = None, ev_stream_meta = None, ev_error = None, ev_usage = None, ev_finish_reason = None,
     ev_refusal = [], ev_logprobs = None, ev_content_filter = None, ev_system_fingerprint = [],
     ev_redacted_data = []\<rparr>"

definition error_message :: "unified_event \<Rightarrow> string" where
  "error_message e = (case ev_error e of Some msg \<Rightarrow> msg | None \<Rightarrow> ''unknown error'')"

section \<open>Messages\<close>

datatype content_type =
    ContentTypeText | ContentTypeReasoning | ContentTypeImage | ContentTypeFile | ContentTypeAudio
  | ContentTypeVideo | ContentTypeToolResult | ContentTypeExecutableCode | ContentTypeCodeResult
  | ContentTypeRedactedThinking

record tool_result_part =
  tr_call_id :: string
  tr_result :: string
  tr_is_error :: bool
  tr_images :: "image_part list"
  tr_files :: "file_part list"

record text_citation =
  ci_type :: string
  ci_document_index :: int
  ci_start_char_index :: int
  ci_end_char_index :: int
  ci_url :: string
  ci_title :: string
  ci_file_id :: string
  ci_cited_text :: string
  ci_document_title :: string
  ci_start_page_number :: int
  ci_end_page_number :: int
  ci_start_block_index :: int
  ci_end_block_index :: int
  ci_encrypted_index :: string
  ci_search_result_index :: int
  ci_source :: string

record content_part =
  cp_type :: content_type
  cp_text :: string
  cp_reasoning :: string
  cp_signature :: string
  cp_image :: "image_part option"
  cp_file :: "file_part option"
  cp_audio :: "audio_part option"
  cp_video :: "video_part option"
  cp_tool_result :: "tool_result_part option"
  cp_code_execution :: "code_execution_part option"
  cp_redacted_data :: string
  cp_citations :: "text_citation list"

definition new_part :: "content_type \<Rightarrow> content_part" where
  "new_part t = \<lparr>cp_type = t, cp_text = [], cp_reasoning = [], cp_signature = [], cp_image = None, cp_file = None,
     cp_audio = None, cp_video = None, cp_tool_result = None, cp_code_execution = None, cp_redacted_data = [],
     cp_citations = []\<rparr>"

definition text_part :: "string \<Rightarrow> content_part" where
  "text_part s = (new_part ContentTypeText)\<lparr>cp_text := s\<rparr>"

record cache_control =
  cc_type :: string
  cc_ttl :: "int option"

record message =
  msg_role :: role
  msg_content :: "content_part list"
  msg_tool_calls :: "tool_call list"
  msg_cache_control :: "cache_control option"
  msg_refusal :: string

definition new_message :: "role \<Rightarrow> message" where
  "new_message r = \<lparr>msg_role = r, msg_content = [], msg_tool_calls = [], msg_cache_control = None, msg_refusal = []\<rparr>"

text \<open>One of several answers to a request.\<close>

record candidate_result =
  ca_index :: int
  ca_messages :: "message list"
  ca_finish_reason :: "finish_reason option"
  ca_logprobs :: "jval option"
  ca_grounding :: "grounding_metadata option"
  ca_safety_ratings :: "safety_rating list"

section \<open>Requests\<close>

record thinking_config =
  th_include_thoughts :: bool
  th_budget :: "int option"
  th_level :: string
  th_summary :: string
  th_effort :: string

definition no_thinking :: thinking_config where
  "no_thinking = \<lparr>th_include_thoughts = False, th_budget = None, th_level = [], th_summary = [], th_effort = []\<rparr>"

record safety_setting =
  sa_category :: string
  sa_threshold :: string

record image_config =
  ic_aspect_ratio :: string
  ic_image_size :: string

record audio_config =
  ac_voice :: string
  ac_format :: string

record mcp_server =
  mcp_type :: string
  mcp_url :: string
  mcp_name :: string
  mcp_token :: string
  mcp_configuration :: "jobj option"

record prediction_config =
  pr_type :: string
  pr_content :: string

record function_calling_config =
  fc_mode :: string
  fc_allowed :: "string list"
  fc_stream_arguments :: bool

record chat_request =
  rq_model :: string
  rq_messages :: "message list"
  rq_tools :: "tool_definition list"
  rq_temperature :: "rat option"
  rq_top_p :: "rat option"
  rq_top_k :: "int option"
  rq_max_tokens :: "int option"
  rq_stop_sequences :: "string list"
  rq_frequency_penalty :: "rat option"
  rq_presence_penalty :: "rat option"
  rq_logprobs :: "bool option"
  rq_top_logprobs :: "int option"
  rq_candidate_count :: "int option"
  rq_thinking :: "thinking_config option"
  rq_safety_settings :: "safety_setting list"
  rq_image_config :: "image_config option"
  rq_audio_config :: "audio_config option"
  rq_mcp_servers :: "mcp_server list"
  rq_modality :: "string list"
  rq_metadata :: jobj
  rq_service_tier :: string
  rq_instructions :: string
  rq_previous_response_id :: string
  rq_prompt_id :: string
  rq_prompt_version :: string
  rq_prompt_variables :: "jobj option"
  rq_prompt_cache_key :: string
  rq_store :: "bool option"
  rq_parallel_tool_calls :: "bool option"
  rq_tool_choice :: string
  rq_tool_choice_function :: string
  rq_allowed_tools :: "string list"
  rq_response_schema :: "jobj option"
  rq_response_schema_name :: string
  rq_response_schema_strict :: bool
  rq_function_calling :: "function_calling_config option"
  rq_prediction :: "prediction_config option"
  rq_stream_options :: "bool option"

definition new_request :: "string \<Rightarrow> chat_request" where
  "new_request m = \<lparr>rq_model = m, rq_messages = [], rq_tools = [], rq_temperature = None, rq_top_p = None,
     rq_top_k = None, rq_max_tokens = None, rq_stop_sequences = [], rq_frequency_penalty = None,
     rq_presence_penalty = None, rq_logprobs = None, rq_top_logprobs = None, rq_candidate_count = None,
     rq_thinking = None, rq_safety_settings = [], rq_image_config = None, rq_audio_config = None,
     rq_mcp_servers = [], rq_modality = [], rq_metadata = [], rq_service_tier = [], rq_instructions = [],
     rq_previous_response_id = [], rq_prompt_id = [], rq_prompt_version = [], rq_prompt_variables = None,
     rq_prompt_cache_key = [], rq_store = None, rq_parallel_tool_calls = None, rq_tool_choice = [],
     rq_tool_choice_function = [], rq_allowed_tools = [], rq_response_schema = None,
     rq_response_schema_name = [], rq_response_schema_strict = False, rq_function_calling = None,
     rq_prediction = None, rq_stream_options = None\<rparr>"

end
