(* ===== verification/ClaudeParser.thy ===== *)
theory ClaudeParser
  imports Ir
begin

text \<open>
  The parser of Claude's event stream (\<open>internal/translator/ir/claude_builder.go\<close>,
  \<open>ParseClaudeChunkWithState\<close> in \<open>to_ir/claude.go\<close>). The code returns pointers to events and keeps one of
  them, which a later chunk may change. The model has a store of events: an event is referred to
  by its position, and an operation takes the store and returns it.
\<close>

section \<open>State\<close>

type_synonym event_store = "unified_event list"

record claude_parser =
  cl_tool_names :: "(int, string) gomap"
  cl_tool_ids :: "(int, string) gomap"
  cl_tool_args :: "(int, string) gomap"
  cl_thinking_signature :: string
  cl_block_types :: "(int, string) gomap"
  cl_pending :: "nat option"

definition new_claude_parser :: claude_parser where
  "new_claude_parser = \<lparr>cl_tool_names = [], cl_tool_ids = [], cl_tool_args = [], cl_thinking_signature = [],
     cl_block_types = [], cl_pending = None\<rparr>"

definition buffer_thinking_event :: "nat \<Rightarrow> claude_parser \<Rightarrow> nat option \<times> claude_parser" where
  "buffer_thinking_event e s = (cl_pending s, s\<lparr>cl_pending := Some e\<rparr>)"

definition attach_signature ::
    "string \<Rightarrow> claude_parser \<Rightarrow> event_store \<Rightarrow> nat option \<times> claude_parser \<times> event_store" where
  "attach_signature sig s h =
     (case cl_pending s of
        None \<Rightarrow> (None, s, h)
      | Some e \<Rightarrow> (Some e, s\<lparr>cl_pending := None\<rparr>, h[e := (h ! e)\<lparr>ev_signature := sig\<rparr>]))"

definition has_pending_event :: "claude_parser \<Rightarrow> bool" where
  "has_pending_event s \<longleftrightarrow> cl_pending s \<noteq> None"

definition parser_flush_pending :: "claude_parser \<Rightarrow> nat option \<times> claude_parser" where
  "parser_flush_pending s = (cl_pending s, s\<lparr>cl_pending := None\<rparr>)"

definition parser_finalize :: "claude_parser \<Rightarrow> nat option \<times> claude_parser" where
  "parser_finalize s = parser_flush_pending s"

section \<open>Parts of the stream\<close>

definition parse_claude_usage :: "'j gjson \<Rightarrow> 'j \<Rightarrow> usage option" where
  "parse_claude_usage J u =
     (if \<not> gj_exists J u then None
      else
        let input = gj_int J (gj_get J u ''input_tokens'');
            outp = gj_int J (gj_get J u ''output_tokens'');
            creation = gj_get J u ''cache_creation_input_tokens'';
            cached = gj_get J u ''cache_read_input_tokens'';
            r = no_usage\<lparr>us_prompt := input, us_completion := outp, us_total := input + outp,
                  us_cache_creation := (if gj_exists J creation then gj_int J creation else 0),
                  us_cache_read := (if gj_exists J cached then gj_int J cached else 0)\<rparr>
        in Some (if 0 < us_cache_read r
                 then r\<lparr>us_prompt_details := Some \<lparr>pd_cached = us_cache_read r, pd_audio = 0\<rparr>\<rparr> else r))"

definition extract_sse_data :: "string \<Rightarrow> string" where
  "extract_sse_data raw =
     (if 6 < length raw \<and> take 5 raw = ''data:''
      then if raw ! 5 = CHR '' '' then trim_space (drop 6 raw) else trim_space (drop 5 raw)
      else trim_space raw)"

text \<open>What a chunk gives: the events to hand out, the parser and the store.\<close>

type_synonym parsed_chunk = "nat list \<times> claude_parser option \<times> event_store"

definition hand_on :: "nat option \<Rightarrow> unified_event \<Rightarrow> claude_parser option \<Rightarrow> event_store \<Rightarrow> parsed_chunk" where
  "hand_on pending e s h = ((case pending of None \<Rightarrow> [] | Some p \<Rightarrow> [p]) @ [length h], s, h @ [e])"

definition flush_option :: "claude_parser option \<Rightarrow> nat option \<times> claude_parser option" where
  "flush_option s = (case s of None \<Rightarrow> (None, None) | Some p \<Rightarrow> apsnd Some (parser_flush_pending p))"

definition parse_claude_stream_delta ::
    "'j gjson \<Rightarrow> 'j \<Rightarrow> claude_parser option \<Rightarrow> event_store \<Rightarrow> parsed_chunk" where
  "parse_claude_stream_delta J parsed s h =
     (let delta = gj_get J parsed ''delta''; t = gj_str J (gj_get J delta ''type'');
          (pending, flushed) = flush_option s
      in if t = ''text_delta'' then
           let text = gj_str J (gj_get J delta ''text'') in
           if text = [] then ([], s, h)
           else hand_on pending ((new_event EventTypeToken)\<lparr>ev_content := text\<rparr>) flushed h
         else if t = ''thinking_delta'' then
           let thinking = gj_str J (gj_get J delta ''thinking'') in
           if thinking = [] then ([], s, h)
           else hand_on pending ((new_event EventTypeReasoning)\<lparr>ev_reasoning := thinking\<rparr>)
                  (map_option (snd \<circ> buffer_thinking_event (length h)) flushed) h
         else if t = ''signature_delta'' then
           let sig = gj_str J (gj_get J delta ''signature'') in
           (case s of
              Some p \<Rightarrow> if sig = [] then ([], s, h)
                else let (_, p', h') = attach_signature sig p h in ([], Some p', h')
            | None \<Rightarrow> ([], None, h))
         else if t = ''redacted_thinking_delta'' then
           let data = gj_str J (gj_get J delta ''data'') in
           if data = [] then ([], s, h)
           else hand_on pending ((new_event EventTypeReasoning)\<lparr>ev_redacted_data := data\<rparr>) flushed h
         else if t = ''input_json_delta'' then
           (case s of
              None \<Rightarrow> ([], None, h)
            | Some p \<Rightarrow>
                let idx = gj_int J (gj_get J parsed ''index''); pj = gj_get J delta ''partial_json'';
                    old = (case mget (cl_tool_args p) idx of None \<Rightarrow> [] | Some a \<Rightarrow> a);
                    args = old @ (if gj_exists J pj then gj_str J pj else [])
                in ([], Some (p\<lparr>cl_tool_args := mput idx args (cl_tool_args p)\<rparr>), h))
         else ([], s, h))"

definition parse_content_block_start :: "'j gjson \<Rightarrow> 'j \<Rightarrow> claude_parser option \<Rightarrow> claude_parser option" where
  "parse_content_block_start J parsed s =
     map_option (\<lambda>p.
       let cb = gj_get J parsed ''content_block''; idx = gj_int J (gj_get J parsed ''index'');
           t = gj_str J (gj_get J cb ''type'');
           p = p\<lparr>cl_block_types := mput idx t (cl_block_types p)\<rparr>
       in if t = ''tool_use''
          then p\<lparr>cl_tool_names := mput idx (gj_str J (gj_get J cb ''name'')) (cl_tool_names p),
                 cl_tool_ids := mput idx (gj_str J (gj_get J cb ''id'')) (cl_tool_ids p)\<rparr>
          else if t = ''thinking'' \<and> gj_str J (gj_get J cb ''signature'') \<noteq> []
          then p\<lparr>cl_thinking_signature := gj_str J (gj_get J cb ''signature'')\<rparr>
          else p) s"

definition text_at :: "(int, string) gomap \<Rightarrow> int \<Rightarrow> string" where
  "text_at m i = (case mget m i of None \<Rightarrow> [] | Some s \<Rightarrow> s)"

definition parse_content_block_stop ::
    "'j gjson \<Rightarrow> 'j \<Rightarrow> claude_parser option \<Rightarrow> event_store \<Rightarrow> parsed_chunk" where
  "parse_content_block_stop J parsed s h =
     (case s of
        None \<Rightarrow> ([], None, h)
      | Some p \<Rightarrow>
          let idx = gj_int J (gj_get J parsed ''index'');
              name = text_at (cl_tool_names p) idx; i = text_at (cl_tool_ids p) idx
          in if name = [] \<and> i = []
             then ([], Some (p\<lparr>cl_thinking_signature :=
                       (if text_at (cl_block_types p) idx = ''thinking'' then [] else cl_thinking_signature p),
                     cl_block_types := mdel idx (cl_block_types p)\<rparr>), h)
             else
               let (pending, p) = parser_flush_pending p;
                   written = trim_space (text_at (cl_tool_args p) idx);
                   args = (if written = [] then ''{}'' else written);
                   p = p\<lparr>cl_tool_names := mdel idx (cl_tool_names p), cl_tool_ids := mdel idx (cl_tool_ids p),
                         cl_tool_args := mdel idx (cl_tool_args p), cl_block_types := mdel idx (cl_block_types p)\<rparr>
               in hand_on pending ((new_event EventTypeToolCall)\<lparr>ev_tool_call := Some (call_of i name args)\<rparr>) (Some p) h)"

definition parse_message_delta :: "'j gjson \<Rightarrow> 'j \<Rightarrow> unified_event" where
  "parse_message_delta J parsed =
     (let delta = gj_get J parsed ''delta''; sr = gj_get J delta ''stop_reason'';
          reason = (if gj_exists J delta \<and> gj_exists J sr then map_claude_finish_reason (gj_str J sr)
                    else FinishReasonUnknown);
          u = gj_get J parsed ''usage''
      in (new_event EventTypeFinish)\<lparr>ev_usage := (if gj_exists J u then parse_claude_usage J u else None),
           ev_finish_reason := Some reason\<rparr>)"

definition parse_claude_chunk ::
    "'j gjson \<Rightarrow> string \<Rightarrow> claude_parser option \<Rightarrow> event_store \<Rightarrow> parsed_chunk" where
  "parse_claude_chunk J raw s h =
     (let data = extract_sse_data raw in
      if data = [] then ([], s, h)
      else
        let parsed = fst (parse_and_validate J data); t = gj_str J (gj_get J parsed ''type'') in
        if t = ''content_block_start'' then ([], parse_content_block_start J parsed s, h)
        else if t = ''content_block_delta'' then parse_claude_stream_delta J parsed s h
        else if t = ''content_block_stop'' then parse_content_block_stop J parsed s h
        else if t = ''message_delta'' then hand_on None (parse_message_delta J parsed) s h
        else if t = ''message_stop''
        then hand_on None ((new_event EventTypeFinish)\<lparr>ev_finish_reason := Some FinishReasonStop\<rparr>) s h
        else if t = ''error''
        then hand_on None ((new_event EventTypeError)\<lparr>ev_error := Some (gj_str J (gj_get J parsed ''error.message''))\<rparr>) s h
        else ([], s, h))"

text \<open>The events that the lines of a stream hand out, each as it is at that moment.\<close>

fun parse_claude_lines ::
    "'j gjson \<Rightarrow> string list \<Rightarrow> claude_parser option \<Rightarrow> event_store \<Rightarrow> unified_event list \<times> claude_parser option \<times> event_store" where
  "parse_claude_lines J [] s h = ([], s, h)"
| "parse_claude_lines J (l # ls) s h =
     (let (es, s, h) = parse_claude_chunk J l s h; (rest, s', h') = parse_claude_lines J ls s h
      in (List.map (\<lambda>e. h ! e) es @ rest, s', h'))"

section \<open>Lines\<close>

text \<open>A line with an event of a type, and one with a delta of a kind.\<close>

definition typed_line :: "'j gjson \<Rightarrow> string \<Rightarrow> string \<Rightarrow> bool" where
  "typed_line J l t \<longleftrightarrow> extract_sse_data l \<noteq> []
     \<and> gj_str J (gj_get J (fst (parse_and_validate J (extract_sse_data l))) ''type'') = t"

definition line_value :: "'j gjson \<Rightarrow> string \<Rightarrow> 'j" where
  "line_value J l = fst (parse_and_validate J (extract_sse_data l))"

definition delta_line :: "'j gjson \<Rightarrow> string \<Rightarrow> string \<Rightarrow> string \<Rightarrow> string \<Rightarrow> bool" where
  "delta_line J l k f x \<longleftrightarrow> typed_line J l ''content_block_delta''
     \<and> gj_str J (gj_get J (gj_get J (line_value J l) ''delta'') ''type'') = k
     \<and> gj_str J (gj_get J (gj_get J (line_value J l) ''delta'') f) = x \<and> x \<noteq> []"

definition tool_start_line :: "'j gjson \<Rightarrow> string \<Rightarrow> int \<Rightarrow> string \<Rightarrow> string \<Rightarrow> bool" where
  "tool_start_line J l idx i name \<longleftrightarrow> typed_line J l ''content_block_start''
     \<and> gj_int J (gj_get J (line_value J l) ''index'') = idx
     \<and> gj_str J (gj_get J (gj_get J (line_value J l) ''content_block'') ''type'') = ''tool_use''
     \<and> gj_str J (gj_get J (gj_get J (line_value J l) ''content_block'') ''name'') = name
     \<and> gj_str J (gj_get J (gj_get J (line_value J l) ''content_block'') ''id'') = i"

definition arguments_line :: "'j gjson \<Rightarrow> string \<Rightarrow> int \<Rightarrow> string \<Rightarrow> bool" where
  "arguments_line J l idx x \<longleftrightarrow> delta_line J l ''input_json_delta'' ''partial_json'' x
     \<and> gj_exists J (gj_get J (gj_get J (line_value J l) ''delta'') ''partial_json'')
     \<and> gj_int J (gj_get J (line_value J l) ''index'') = idx"

definition stop_line :: "'j gjson \<Rightarrow> string \<Rightarrow> int \<Rightarrow> bool" where
  "stop_line J l idx \<longleftrightarrow> typed_line J l ''content_block_stop'' \<and> gj_int J (gj_get J (line_value J l) ''index'') = idx"

lemma parse_lines_append:
  "parse_claude_lines J (xs @ ys) s h =
     (let (a, s, h) = parse_claude_lines J xs s h; (b, s, h) = parse_claude_lines J ys s h in (a @ b, s, h))"
  by (induction xs arbitrary: s h) (simp_all add: Let_def split_beta)

definition thought :: "string \<Rightarrow> unified_event" where
  "thought x = (new_event EventTypeReasoning)\<lparr>ev_reasoning := x\<rparr>"

definition token_event :: "string \<Rightarrow> unified_event" where
  "token_event x = (new_event EventTypeToken)\<lparr>ev_content := x\<rparr>"

definition held :: "claude_parser \<Rightarrow> event_store \<Rightarrow> unified_event list" where
  "held p h = (case cl_pending p of None \<Rightarrow> [] | Some e \<Rightarrow> [h ! e])"

definition store_ok :: "claude_parser \<Rightarrow> event_store \<Rightarrow> bool" where
  "store_ok p h \<longleftrightarrow> (case cl_pending p of None \<Rightarrow> True | Some e \<Rightarrow> e < length h)"

lemma thinking_line_step:
  assumes "delta_line J l ''thinking_delta'' ''thinking'' x" "store_ok p h"
  shows "\<exists>q. parse_claude_chunk J l (Some p) h =
      ((case cl_pending p of None \<Rightarrow> [] | Some e \<Rightarrow> [e]) @ [length h], Some q, h @ [thought x])
    \<and> cl_pending q = Some (length h)"
  using assms
  by (auto simp: delta_line_def typed_line_def line_value_def parse_claude_chunk_def parse_claude_stream_delta_def hand_on_def
      flush_option_def parser_flush_pending_def buffer_thinking_event_def thought_def Let_def split: option.splits)

lemma text_line_step:
  assumes "delta_line J l ''text_delta'' ''text'' x" "store_ok p h"
  shows "\<exists>q. parse_claude_chunk J l (Some p) h =
      ((case cl_pending p of None \<Rightarrow> [] | Some e \<Rightarrow> [e]) @ [length h], Some q, h @ [token_event x])
    \<and> cl_pending q = None"
  using assms
  by (auto simp: delta_line_def typed_line_def line_value_def parse_claude_chunk_def parse_claude_stream_delta_def hand_on_def
      flush_option_def parser_flush_pending_def token_event_def Let_def split: option.splits)

lemma thinking_lines:
  assumes "list_all2 (\<lambda>l x. delta_line J l ''thinking_delta'' ''thinking'' x) ls xs"
    "delta_line J l ''text_delta'' ''text'' y" "store_ok p h"
  shows "fst (parse_claude_lines J (ls @ [l]) (Some p) h)
    = held p h @ concat (List.map (\<lambda>x. [thought x, thought x]) xs) @ [token_event y]"
  using assms
proof (induction arbitrary: p h rule: list_all2_induct)
  case Nil
  then show ?case using text_line_step[OF Nil(1,2)]
    by (auto simp: held_def store_ok_def nth_append split: option.splits)
next
  case (Cons l1 ls x xs)
  obtain q where q: "parse_claude_chunk J l1 (Some p) h =
      ((case cl_pending p of None \<Rightarrow> [] | Some e \<Rightarrow> [e]) @ [length h], Some q, h @ [thought x])"
    "cl_pending q = Some (length h)" using thinking_line_step[OF Cons.hyps(1) Cons.prems(2)] by blast
  then have "store_ok q (h @ [thought x])" "held q (h @ [thought x]) = [thought x]"
    by (simp_all add: store_ok_def held_def)
  then show ?case using Cons.IH[of q "h @ [thought x]"] Cons.prems q
    by (auto simp: Let_def split_beta held_def store_ok_def nth_append split: option.splits)
qed

text \<open>The event that is held back is in the store and has no signature.\<close>

definition no_signature_held :: "claude_parser \<Rightarrow> event_store \<Rightarrow> bool" where
  "no_signature_held p h \<longleftrightarrow> (\<forall>e. cl_pending p = Some e \<longrightarrow> e < length h \<and> ev_signature (h ! e) = [])"

definition clean_chunk :: "parsed_chunk \<Rightarrow> bool" where
  "clean_chunk r \<longleftrightarrow> (\<exists>es q h'. r = (es, Some q, h') \<and> no_signature_held q h' \<and> list_all (\<lambda>e. ev_signature (h' ! e) = []) es)"

lemma clean_chunk_if: "(b \<Longrightarrow> clean_chunk x) \<Longrightarrow> (\<not> b \<Longrightarrow> clean_chunk y) \<Longrightarrow> clean_chunk (if b then x else y)"
  by simp

lemma clean_chunkI: "no_signature_held q h' \<Longrightarrow> list_all (\<lambda>e. ev_signature (h' ! e) = []) es \<Longrightarrow> clean_chunk (es, Some q, h')"
  by (auto simp: clean_chunk_def)

lemma no_signature_heldE:
  assumes "no_signature_held p h"
  obtains "cl_pending p = None" | e where "cl_pending p = Some e" "e < length h" "ev_signature (h ! e) = []"
  using assms by (cases "cl_pending p") (auto simp: no_signature_held_def)

lemma hand_on_unsigned:
  assumes "no_signature_held p h" "ev_signature ev = []" "cl_pending q = None \<or> cl_pending q = Some (length h)"
  shows "clean_chunk (hand_on (cl_pending p) ev (Some q) h)"
  using assms(1) by (rule no_signature_heldE)
    (use assms(2,3) in \<open>auto simp: hand_on_def no_signature_held_def nth_append intro!: clean_chunkI\<close>)

lemma hand_on_other:
  assumes "no_signature_held p h" "ev_signature ev = []"
  shows "clean_chunk (hand_on None ev (Some p) h)"
  using assms by (auto simp: hand_on_def no_signature_held_def nth_append intro!: clean_chunkI)

lemma attach_unsigned:
  assumes "no_signature_held p h"
  shows "clean_chunk ([], Some (fst (snd (attach_signature sig p h))), snd (snd (attach_signature sig p h)))"
  using assms by (auto simp: attach_signature_def no_signature_held_def intro!: clean_chunkI split: option.splits)

lemma new_event_unsigned: "ev_signature (new_event t) = []"
  by (simp add: new_event_def)

lemma parse_delta_unsigned:
  assumes "no_signature_held p h"
  shows "clean_chunk (parse_claude_stream_delta J v (Some p) h)"
proof -
  have flush: "clean_chunk (hand_on (cl_pending p) ev (Some (p\<lparr>cl_pending := c\<rparr>)) h)"
    if "ev_signature ev = []" "c = None \<or> c = Some (length h)" for ev c
    using hand_on_unsigned[OF assms that(1)] that(2) by simp
  have stay: "clean_chunk ([], Some p, h)" using assms by (auto intro!: clean_chunkI)
  have tool: "clean_chunk ([], Some (p\<lparr>cl_tool_args := m\<rparr>), h)" for m
    using assms by (auto simp: no_signature_held_def intro!: clean_chunkI)
  show ?thesis
    unfolding parse_claude_stream_delta_def flush_option_def parser_flush_pending_def Let_def
    using stay tool flush attach_unsigned[OF assms]
    by (simp add: buffer_thinking_event_def new_event_unsigned split_beta) 
qed

lemma parse_stop_unsigned:
  assumes "no_signature_held p h"
  shows "clean_chunk (parse_content_block_stop J v (Some p) h)"
proof -
  have "clean_chunk ([], Some (p\<lparr>cl_thinking_signature := x, cl_block_types := b\<rparr>), h)" for x b
    using assms by (auto simp: no_signature_held_def intro!: clean_chunkI)
  then show ?thesis
    unfolding parse_content_block_stop_def parser_flush_pending_def Let_def option.case prod.case
    by (intro clean_chunk_if hand_on_unsigned[OF assms]) (simp_all add: new_event_unsigned)
qed

lemma parse_chunk_unsigned:
  assumes "no_signature_held p h"
  shows "clean_chunk (parse_claude_chunk J l (Some p) h)"
proof -
  have "clean_chunk ([], parse_content_block_start J v (Some p), h)" for v
    using assms by (auto simp: parse_content_block_start_def Let_def no_signature_held_def intro!: clean_chunkI)
  moreover have "clean_chunk ([], Some p, h)" using assms by (auto intro!: clean_chunkI)
  ultimately show ?thesis
    unfolding parse_claude_chunk_def Let_def
    by (intro clean_chunk_if parse_delta_unsigned parse_stop_unsigned hand_on_other assms)
      (simp_all add: new_event_unsigned parse_message_delta_def Let_def)
qed

lemma parse_lines_unsigned:
  "no_signature_held p h \<Longrightarrow> list_all (\<lambda>ev. ev_signature ev = []) (fst (parse_claude_lines J ls (Some p) h))"
proof (induction ls arbitrary: p h)
  case (Cons l ls)
  obtain es q h' where "parse_claude_chunk J l (Some p) h = (es, Some q, h')" "no_signature_held q h'"
    "list_all (\<lambda>e. ev_signature (h' ! e) = []) es" using parse_chunk_unsigned[OF Cons.prems] unfolding clean_chunk_def by blast
  then show ?case using Cons.IH[of q h'] by (auto simp: Let_def split_beta list_all_iff)
qed simp

section \<open>Calls of tools\<close>

lemma arguments_step:
  assumes "arguments_line J l idx x"
  shows "parse_claude_chunk J l (Some p) h =
    ([], Some (p\<lparr>cl_tool_args := mput idx (text_at (cl_tool_args p) idx @ x) (cl_tool_args p)\<rparr>), h)"
  using assms by (auto simp: arguments_line_def delta_line_def typed_line_def line_value_def parse_claude_chunk_def
      parse_claude_stream_delta_def flush_option_def text_at_def Let_def split_beta split: option.splits)

lemma arguments_lines:
  assumes "list_all2 (\<lambda>l x. arguments_line J l idx x) ls xs" "cl_pending p = None"
  shows "\<exists>q. parse_claude_lines J ls (Some p) h = ([], Some q, h) \<and> cl_pending q = None
    \<and> text_at (cl_tool_args q) idx = text_at (cl_tool_args p) idx @ concat xs
    \<and> cl_tool_names q = cl_tool_names p \<and> cl_tool_ids q = cl_tool_ids p
    \<and> (\<forall>k. k \<noteq> idx \<longrightarrow> mget (cl_tool_args q) k = mget (cl_tool_args p) k)"
  using assms
proof (induction arbitrary: p rule: list_all2_induct)
  case (Cons l ls x xs)
  let ?p = "p\<lparr>cl_tool_args := mput idx (text_at (cl_tool_args p) idx @ x) (cl_tool_args p)\<rparr>"
  show ?case
    using Cons.IH[of ?p] Cons.prems arguments_step[OF Cons.hyps(1), of p h] by (auto simp: text_at_def)
qed simp

section \<open>Properties\<close>

text \<open>Lines for the examples, which stand for the JSON of a delta and of the blocks of a call.\<close>

definition delta_value :: "string \<Rightarrow> string \<Rightarrow> string \<Rightarrow> jval" where
  "delta_value k f x = JObj [(''type'', JStr ''content_block_delta''), (''index'', JNum 0),
     (''delta'', JObj [(''type'', JStr k), (f, JStr x)])]"

definition example_reader :: "jval option gjson" where
  "example_reader = text_reader (map_of
     [(''ab'', delta_value ''thinking_delta'' ''thinking'' ''why''), (''cd'', delta_value ''text_delta'' ''text'' ''so''),
      (''ef'', JObj [(''type'', JStr ''content_block_start''), (''index'', JNum 0),
         (''content_block'', JObj [(''type'', JStr ''tool_use''), (''name'', JStr ''ls''), (''id'', JStr ''t1'')])]),
      (''gh'', delta_value ''input_json_delta'' ''partial_json'' ''{''),
      (''ij'', delta_value ''input_json_delta'' ''partial_json'' ''}''),
      (''kl'', JObj [(''type'', JStr ''content_block_stop''), (''index'', JNum 0)])]) (\<lambda>_. [])"

lemmas line_kinds = delta_line_def typed_line_def line_value_def tool_start_line_def arguments_line_def stop_line_def



text \<open>
  No event is ever handed out with a signature: it is attached to a thought that was handed out
  before, and lost for whoever translated it.
\<close>

theorem signatures_lost:
  "list_all (\<lambda>ev. ev_signature ev = []) (fst (parse_claude_lines J ls (Some new_claude_parser) h))"
  by (rule parse_lines_unsigned) (simp add: no_signature_held_def new_claude_parser_def)

text \<open>
  C31: A call of a tool is put together from its start, the pieces of its arguments and the stop of
  its block, and handed out once with all of them; then the parser forgets the block.
\<close>

theorem tool_call_assembled:
  assumes "tool_start_line J l1 idx i name" "i \<noteq> [] \<or> name \<noteq> []" "list_all2 (\<lambda>l x. arguments_line J l idx x) ls xs"
    and "stop_line J l2 idx" "cl_pending p = None" "mget (cl_tool_args p) idx = None"
  defines "args \<equiv> trim_space (concat xs)"
  defines "call \<equiv> (new_event EventTypeToolCall)\<lparr>ev_tool_call := Some (call_of i name (if args = [] then ''{}'' else args))\<rparr>"
  shows "\<exists>q. parse_claude_lines J (l1 # ls @ [l2]) (Some p) h = ([call], Some q, h @ [call])
    \<and> cl_pending q = None \<and> mget (cl_tool_names q) idx = None \<and> mget (cl_tool_ids q) idx = None \<and> mget (cl_tool_args q) idx = None"
proof -
  let ?p = "p\<lparr>cl_block_types := mput idx ''tool_use'' (cl_block_types p),
    cl_tool_names := mput idx name (cl_tool_names p), cl_tool_ids := mput idx i (cl_tool_ids p)\<rparr>"
  have start: "parse_claude_chunk J l1 (Some p) h = ([], Some ?p, h)"
    using assms(1) by (auto simp: tool_start_line_def typed_line_def line_value_def parse_claude_chunk_def
        parse_content_block_start_def Let_def)
  obtain q where q: "parse_claude_lines J ls (Some ?p) h = ([], Some q, h)" "cl_pending q = None"
    "text_at (cl_tool_args q) idx = concat xs" "cl_tool_names q = mput idx name (cl_tool_names p)"
    "cl_tool_ids q = mput idx i (cl_tool_ids p)"
    using arguments_lines[OF assms(3), of ?p h] assms(5,6) by (auto simp: text_at_def)
  have "text_at (cl_tool_names q) idx = name" "text_at (cl_tool_ids q) idx = i" by (simp_all add: q text_at_def)
  then have "\<exists>r. parse_claude_chunk J l2 (Some q) h = ([length h], Some r, h @ [call]) \<and> cl_pending r = None
      \<and> mget (cl_tool_names r) idx = None \<and> mget (cl_tool_ids r) idx = None \<and> mget (cl_tool_args r) idx = None"
    using assms(2,4) q(2,3)
    by (auto simp: stop_line_def typed_line_def line_value_def parse_claude_chunk_def parse_content_block_stop_def
        parser_flush_pending_def hand_on_def args_def call_def Let_def)
  then show ?thesis using start q(1) by (auto simp: Let_def parse_lines_append)
qed

theorem tool_call_assembled_witness:
  "\<exists>q. parse_claude_lines example_reader (''ef'' # [''gh'', ''ij''] @ [''kl'']) (Some new_claude_parser) []
    = ([(new_event EventTypeToolCall)\<lparr>ev_tool_call := Some (call_of ''t1'' ''ls'' ''{}'')\<rparr>], Some q,
       [(new_event EventTypeToolCall)\<lparr>ev_tool_call := Some (call_of ''t1'' ''ls'' ''{}'')\<rparr>])"
proof -
  have "tool_start_line example_reader ''ef'' 0 ''t1'' ''ls''"
    "list_all2 (\<lambda>l x. arguments_line example_reader l 0 x) [''gh'', ''ij''] [''{'', ''}'']"
    "stop_line example_reader ''kl'' 0" "cl_pending new_claude_parser = None" "mget (cl_tool_args new_claude_parser) 0 = None"
    unfolding line_kinds by code_simp+
  note facts = this
  have args: "trim_space (concat [''{'', ''}'']) = ''{}''" by code_simp
  show ?thesis using tool_call_assembled[OF facts(1) _ facts(2-5), of "[]"] unfolding args by auto
qed

end
