(* ===== verification/Sse.thy ===== *)
theory Sse
  imports Gjson
begin

text \<open>
  Server-sent events as text (\<open>internal/translator/ir/sse_fast.go\<close>, the two writers of \<open>pools.go\<close>). The JSON
  encoder is a library's and an argument. The structs come from pools; a builder takes the one it
  was given, so that what an earlier use left in it is part of the model.
\<close>

section \<open>Framing\<close>

definition build_sse_chunk :: "string \<Rightarrow> string" where
  "build_sse_chunk data = ''data: '' @ data @ [CHR 0x0A, CHR 0x0A]"

definition build_sse_event :: "string \<Rightarrow> string \<Rightarrow> string" where
  "build_sse_event event data = ''event: '' @ event @ CHR 0x0A # ''data: '' @ data @ [CHR 0x0A, CHR 0x0A]"

definition format_responses_sse_bytes :: "string \<Rightarrow> string \<Rightarrow> string" where
  "format_responses_sse_bytes event data = ''event: '' @ event @ CHR 0x0A # ''data: '' @ data @ [CHR 0x0A, CHR 0x0A]"

text \<open>An event with its data, before it is written.\<close>

type_synonym sse = "string \<times> jval"

definition render :: "(jval \<Rightarrow> string) \<Rightarrow> sse \<Rightarrow> string" where
  "render marshal e = build_sse_event (fst e) (marshal (snd e))"

section \<open>Templates\<close>

definition is_simple_ascii :: "string \<Rightarrow> bool" where
  "is_simple_ascii s =
     list_all (\<lambda>c. let n = of_char c :: nat in \<not> (n < 0x20 \<or> c = CHR 0x5C \<or> c = CHR 0x22 \<or> 0x80 \<le> n)) s"

definition escape_simple_ascii :: "string \<Rightarrow> string" where
  "escape_simple_ascii s = CHR 0x22 # s @ [CHR 0x22]"

definition openai_text_template :: "string \<Rightarrow> string \<Rightarrow> int \<Rightarrow> string \<Rightarrow> string" where
  "openai_text_template i model created content =
     ''data: {\"id\":\"'' @ i @ ''\",\"object\":\"chat.completion.chunk\",\"created\":'' @ show_int created
     @ '',\"model\":\"'' @ model @ ''\",\"choices\":[{\"index\":0,\"delta\":{\"role\":\"assistant\",\"content\":''
     @ content @ ''}}]}'' @ [CHR 0x0A, CHR 0x0A]"

definition claude_text_template :: "int \<Rightarrow> string \<Rightarrow> string" where
  "claude_text_template index text =
     ''event: content_block_delta'' @ CHR 0x0A # ''data: {\"type\":\"content_block_delta\",\"index\":'' @ show_int index
     @ '',\"delta\":{\"type\":\"text_delta\",\"text\":'' @ text @ ''}}'' @ [CHR 0x0A, CHR 0x0A]"

section \<open>Structs for OpenAI\<close>

abbreviation jint :: "int \<Rightarrow> jval" where
  "jint i \<equiv> JNum (of_int i)"

text \<open>A field of type string that is left out when it is empty.\<close>

definition str_unless_empty :: "string \<Rightarrow> string \<Rightarrow> jobj" where
  "str_unless_empty k s = (if s = [] then [] else [(k, JStr s)])"

record text_choice =
  xc_index :: int
  xc_role :: string
  xc_content :: string

record openai_text_delta =
  xd_id :: string
  xd_object :: string
  xd_created :: int
  xd_model :: string
  xd_choices :: "text_choice list"

definition new_text_delta :: openai_text_delta where
  "new_text_delta = \<lparr>xd_id = [], xd_object = ''chat.completion.chunk'', xd_created = 0, xd_model = [],
     xd_choices = [\<lparr>xc_index = 0, xc_role = [], xc_content = []\<rparr>]\<rparr>"

definition put_text_delta :: "openai_text_delta \<Rightarrow> openai_text_delta" where
  "put_text_delta d = d\<lparr>xd_id := [], xd_model := [], xd_created := 0,
     xd_choices := (case xd_choices d of [] \<Rightarrow> [] | c # cs \<Rightarrow> c\<lparr>xc_index := 0, xc_role := [], xc_content := []\<rparr> # cs)\<rparr>"

definition text_choice_json :: "text_choice \<Rightarrow> jval" where
  "text_choice_json c = JObj [(''index'', jint (xc_index c)),
     (''delta'', JObj (str_unless_empty ''role'' (xc_role c) @ str_unless_empty ''content'' (xc_content c)))]"

definition text_delta_json :: "openai_text_delta \<Rightarrow> jval" where
  "text_delta_json d = JObj [(''id'', JStr (xd_id d)), (''object'', JStr (xd_object d)), (''created'', jint (xd_created d)),
     (''model'', JStr (xd_model d)), (''choices'', JArr (List.map text_choice_json (xd_choices d)))]"

definition fill_text_delta :: "string \<Rightarrow> string \<Rightarrow> int \<Rightarrow> string \<Rightarrow> openai_text_delta \<Rightarrow> openai_text_delta" where
  "fill_text_delta i model created content d = d\<lparr>xd_id := i, xd_model := model, xd_created := created,
     xd_choices := (xd_choices d)[0 := (xd_choices d ! 0)\<lparr>xc_role := ''assistant'', xc_content := content\<rparr>]\<rparr>"

definition build_openai_text_delta_sse ::
    "(jval \<Rightarrow> string) \<Rightarrow> openai_text_delta \<Rightarrow> string \<Rightarrow> string \<Rightarrow> int \<Rightarrow> string \<Rightarrow> string" where
  "build_openai_text_delta_sse marshal d i model created content =
     (if is_simple_ascii content then openai_text_template i model created (escape_simple_ascii content)
      else build_sse_chunk (marshal (text_delta_json (fill_text_delta i model created content d))))"

record reasoning_choice =
  rc_index :: int
  rc_role :: string
  rc_reasoning :: "(string \<times> string) option"

record openai_reasoning_delta =
  rd_id :: string
  rd_object :: string
  rd_created :: int
  rd_model :: string
  rd_choices :: "reasoning_choice list"

definition new_reasoning_delta :: openai_reasoning_delta where
  "new_reasoning_delta = \<lparr>rd_id = [], rd_object = ''chat.completion.chunk'', rd_created = 0, rd_model = [],
     rd_choices = [\<lparr>rc_index = 0, rc_role = [], rc_reasoning = None\<rparr>]\<rparr>"

text \<open>\<open>Get\<close> makes the block for the reasoning; \<open>Put\<close> leaves it there, empty.\<close>

definition get_reasoning_delta :: "openai_reasoning_delta \<Rightarrow> openai_reasoning_delta" where
  "get_reasoning_delta d =
     (let c = rd_choices d ! 0 in
      if rc_reasoning c = None then d\<lparr>rd_choices := (rd_choices d)[0 := c\<lparr>rc_reasoning := Some ([], [])\<rparr>]\<rparr> else d)"

definition put_reasoning_delta :: "openai_reasoning_delta \<Rightarrow> openai_reasoning_delta" where
  "put_reasoning_delta d = d\<lparr>rd_id := [], rd_model := [], rd_created := 0,
     rd_choices := (case rd_choices d of [] \<Rightarrow> []
       | c # cs \<Rightarrow> c\<lparr>rc_index := 0, rc_role := [], rc_reasoning := map_option (\<lambda>_. ([], [])) (rc_reasoning c)\<rparr> # cs)\<rparr>"

definition reasoning_choice_json :: "reasoning_choice \<Rightarrow> jval" where
  "reasoning_choice_json c = JObj [(''index'', jint (rc_index c)),
     (''delta'', JObj (str_unless_empty ''role'' (rc_role c)
        @ (case rc_reasoning c of None \<Rightarrow> []
           | Some (r, s) \<Rightarrow> [(''reasoning'', JObj (str_unless_empty ''content'' r @ str_unless_empty ''signature'' s))])))]"

definition reasoning_delta_json :: "openai_reasoning_delta \<Rightarrow> jval" where
  "reasoning_delta_json d = JObj [(''id'', JStr (rd_id d)), (''object'', JStr (rd_object d)), (''created'', jint (rd_created d)),
     (''model'', JStr (rd_model d)), (''choices'', JArr (List.map reasoning_choice_json (rd_choices d)))]"

definition fill_reasoning_delta ::
    "string \<Rightarrow> string \<Rightarrow> int \<Rightarrow> string \<Rightarrow> string \<Rightarrow> openai_reasoning_delta \<Rightarrow> openai_reasoning_delta" where
  "fill_reasoning_delta i model created reasoning signature d = d\<lparr>rd_id := i, rd_model := model, rd_created := created,
     rd_choices := (rd_choices d)[0 := (rd_choices d ! 0)\<lparr>rc_role := ''assistant'', rc_reasoning := Some (reasoning, signature)\<rparr>]\<rparr>"

definition build_openai_reasoning_delta_sse ::
    "(jval \<Rightarrow> string) \<Rightarrow> openai_reasoning_delta \<Rightarrow> string \<Rightarrow> string \<Rightarrow> int \<Rightarrow> string \<Rightarrow> string \<Rightarrow> string" where
  "build_openai_reasoning_delta_sse marshal d i model created reasoning signature =
     build_sse_chunk (marshal (reasoning_delta_json
       (fill_reasoning_delta i model created reasoning signature (get_reasoning_delta d))))"

record tool_call_entry =
  te_index :: int
  te_id :: string
  te_type :: string
  te_name :: string
  te_arguments :: string
  te_signature :: string

record tool_call_choice =
  kc_index :: int
  kc_role :: string
  kc_tool_calls :: "tool_call_entry list"

record openai_tool_call_delta =
  kd_id :: string
  kd_object :: string
  kd_created :: int
  kd_model :: string
  kd_choices :: "tool_call_choice list"

definition new_tool_call_delta :: openai_tool_call_delta where
  "new_tool_call_delta = \<lparr>kd_id = [], kd_object = ''chat.completion.chunk'', kd_created = 0, kd_model = [],
     kd_choices = [\<lparr>kc_index = 0, kc_role = [], kc_tool_calls = []\<rparr>]\<rparr>"

definition put_tool_call_delta :: "openai_tool_call_delta \<Rightarrow> openai_tool_call_delta" where
  "put_tool_call_delta d = d\<lparr>kd_id := [], kd_model := [], kd_created := 0,
     kd_choices := (case kd_choices d of [] \<Rightarrow> []
       | c # cs \<Rightarrow> c\<lparr>kc_index := 0, kc_role := [], kc_tool_calls := []\<rparr> # cs)\<rparr>"

text \<open>The function is always there; the extra content is when there is a signature.\<close>

definition tool_call_entry_json :: "tool_call_entry \<Rightarrow> jval" where
  "tool_call_entry_json e = JObj ([(''index'', jint (te_index e))] @ str_unless_empty ''id'' (te_id e)
     @ str_unless_empty ''type'' (te_type e)
     @ [(''function'', JObj (str_unless_empty ''name'' (te_name e) @ str_unless_empty ''arguments'' (te_arguments e)))]
     @ (if te_signature e = [] then []
        else [(''extra_content'', JObj [(''google'', JObj [(''thought_signature'', JStr (te_signature e))])])]))"

definition tool_call_choice_json :: "tool_call_choice \<Rightarrow> jval" where
  "tool_call_choice_json c = JObj [(''index'', jint (kc_index c)),
     (''delta'', JObj (str_unless_empty ''role'' (kc_role c)
        @ (if kc_tool_calls c = [] then [] else [(''tool_calls'', JArr (List.map tool_call_entry_json (kc_tool_calls c)))])))]"

definition tool_call_delta_json :: "openai_tool_call_delta \<Rightarrow> jval" where
  "tool_call_delta_json d = JObj [(''id'', JStr (kd_id d)), (''object'', JStr (kd_object d)), (''created'', jint (kd_created d)),
     (''model'', JStr (kd_model d)), (''choices'', JArr (List.map tool_call_choice_json (kd_choices d)))]"

definition fill_tool_call_delta ::
    "string \<Rightarrow> string \<Rightarrow> int \<Rightarrow> string \<Rightarrow> tool_call_entry \<Rightarrow> openai_tool_call_delta \<Rightarrow> openai_tool_call_delta" where
  "fill_tool_call_delta i model created role_text e d = d\<lparr>kd_id := i, kd_model := model, kd_created := created,
     kd_choices := (kd_choices d)[0 := (kd_choices d ! 0)\<lparr>
        kc_role := (if role_text = [] then kc_role (kd_choices d ! 0) else role_text),
        kc_tool_calls := kc_tool_calls (kd_choices d ! 0) @ [e]\<rparr>]\<rparr>"

definition build_openai_tool_call_delta_sse ::
    "(jval \<Rightarrow> string) \<Rightarrow> openai_tool_call_delta \<Rightarrow> string \<Rightarrow> string \<Rightarrow> int \<Rightarrow> int \<Rightarrow> string \<Rightarrow> string \<Rightarrow> string \<Rightarrow> string \<Rightarrow> string" where
  "build_openai_tool_call_delta_sse marshal d i model created idx call_id name args signature =
     build_sse_chunk (marshal (tool_call_delta_json (fill_tool_call_delta i model created ''assistant''
       \<lparr>te_index = idx, te_id = call_id, te_type = ''function'', te_name = name, te_arguments = args, te_signature = signature\<rparr> d)))"

definition build_openai_tool_call_args_delta_sse ::
    "(jval \<Rightarrow> string) \<Rightarrow> openai_tool_call_delta \<Rightarrow> string \<Rightarrow> string \<Rightarrow> int \<Rightarrow> int \<Rightarrow> string \<Rightarrow> string" where
  "build_openai_tool_call_args_delta_sse marshal d i model created idx args =
     build_sse_chunk (marshal (tool_call_delta_json (fill_tool_call_delta i model created []
       \<lparr>te_index = idx, te_id = [], te_type = [], te_name = [], te_arguments = args, te_signature = []\<rparr> d)))"

section \<open>Structs for Claude\<close>

record claude_delta =
  ld_type :: string
  ld_index :: int
  ld_delta_type :: string
  ld_text :: string

text \<open>
  The deltas of a text, of thinking and of the arguments of a tool differ in the name of the field
  for the text; thinking leaves it out when it is empty.
\<close>

definition new_claude_delta :: "string \<Rightarrow> claude_delta" where
  "new_claude_delta t = \<lparr>ld_type = ''content_block_delta'', ld_index = 0, ld_delta_type = t, ld_text = []\<rparr>"

definition put_claude_delta :: "claude_delta \<Rightarrow> claude_delta" where
  "put_claude_delta d = d\<lparr>ld_index := 0, ld_text := []\<rparr>"

definition claude_delta_json :: "jobj \<Rightarrow> claude_delta \<Rightarrow> jval" where
  "claude_delta_json field d = JObj [(''type'', JStr (ld_type d)), (''index'', jint (ld_index d)),
     (''delta'', JObj ((''type'', JStr (ld_delta_type d)) # field))]"

definition build_claude_text_delta_sse :: "(jval \<Rightarrow> string) \<Rightarrow> claude_delta \<Rightarrow> int \<Rightarrow> string \<Rightarrow> string" where
  "build_claude_text_delta_sse marshal d index text =
     (if is_simple_ascii text then claude_text_template index (escape_simple_ascii text)
      else build_sse_event ''content_block_delta''
             (marshal (claude_delta_json [(''text'', JStr text)] (d\<lparr>ld_index := index, ld_text := text\<rparr>))))"

definition build_claude_thinking_delta_sse :: "(jval \<Rightarrow> string) \<Rightarrow> claude_delta \<Rightarrow> int \<Rightarrow> string \<Rightarrow> string" where
  "build_claude_thinking_delta_sse marshal d index thinking =
     build_sse_event ''content_block_delta''
       (marshal (claude_delta_json (str_unless_empty ''thinking'' thinking) (d\<lparr>ld_index := index, ld_text := thinking\<rparr>)))"

definition build_claude_tool_call_input_delta_sse :: "(jval \<Rightarrow> string) \<Rightarrow> claude_delta \<Rightarrow> int \<Rightarrow> string \<Rightarrow> string" where
  "build_claude_tool_call_input_delta_sse marshal d index args =
     build_sse_event ''content_block_delta''
       (marshal (claude_delta_json [(''partial_json'', JStr args)] (d\<lparr>ld_index := index, ld_text := args\<rparr>)))"

record claude_block_stop =
  lb_type :: string
  lb_index :: int

definition new_claude_block_stop :: claude_block_stop where
  "new_claude_block_stop = \<lparr>lb_type = ''content_block_stop'', lb_index = 0\<rparr>"

definition put_claude_block_stop :: "claude_block_stop \<Rightarrow> claude_block_stop" where
  "put_claude_block_stop d = d\<lparr>lb_index := 0\<rparr>"

definition build_claude_content_block_stop_sse :: "(jval \<Rightarrow> string) \<Rightarrow> claude_block_stop \<Rightarrow> int \<Rightarrow> string" where
  "build_claude_content_block_stop_sse marshal d index =
     build_sse_event ''content_block_stop''
       (marshal (let d = d\<lparr>lb_index := index\<rparr> in JObj [(''type'', JStr (lb_type d)), (''index'', jint (lb_index d))]))"

record claude_tool_start =
  lt_type :: string
  lt_index :: int
  lt_block_type :: string
  lt_id :: string
  lt_name :: string
  lt_input :: jobj

definition new_claude_tool_start :: claude_tool_start where
  "new_claude_tool_start = \<lparr>lt_type = ''content_block_start'', lt_index = 0, lt_block_type = ''tool_use'', lt_id = [],
     lt_name = [], lt_input = []\<rparr>"

definition put_claude_tool_start :: "claude_tool_start \<Rightarrow> claude_tool_start" where
  "put_claude_tool_start d = d\<lparr>lt_index := 0, lt_id := [], lt_name := []\<rparr>"

definition claude_tool_start_json :: "claude_tool_start \<Rightarrow> jval" where
  "claude_tool_start_json d = JObj [(''type'', JStr (lt_type d)), (''index'', jint (lt_index d)),
     (''content_block'', JObj [(''type'', JStr (lt_block_type d)), (''id'', JStr (lt_id d)), (''name'', JStr (lt_name d)),
        (''input'', JObj (lt_input d))])]"

definition build_claude_tool_call_block_start_sse ::
    "(jval \<Rightarrow> string) \<Rightarrow> claude_tool_start \<Rightarrow> int \<Rightarrow> string \<Rightarrow> string \<Rightarrow> string" where
  "build_claude_tool_call_block_start_sse marshal d index tool_id name =
     build_sse_event ''content_block_start''
       (marshal (claude_tool_start_json (d\<lparr>lt_index := index, lt_id := tool_id, lt_name := name\<rparr>)))"

section \<open>An encoder\<close>

text \<open>
  What the builders rely on in the JSON encoder: objects and arrays are written in order without
  blanks, whole numbers in decimal, and a text without special characters in quotes.
\<close>

fun commas :: "string list \<Rightarrow> string" where
  "commas [] = []"
| "commas [s] = s"
| "commas (s # t # ss) = s @ CHR '','' # commas (t # ss)"

locale json_encoder =
  fixes marshal :: "jval \<Rightarrow> string"
  assumes encode_object: "marshal (JObj m) = CHR ''{'' # commas (List.map (\<lambda>(k, v). marshal (JStr k) @ CHR '':'' # marshal v) m) @ ''}''"
    and encode_array: "marshal (JArr xs) = CHR ''['' # commas (List.map marshal xs) @ '']''"
    and encode_int: "marshal (jint i) = show_int i"
    and encode_text: "is_simple_ascii s \<Longrightarrow> marshal (JStr s) = escape_simple_ascii s"

text \<open>A printer that writes whole numbers only and escapes control characters by their number.\<close>

definition hex_digit :: "nat \<Rightarrow> char" where
  "hex_digit n = ''0123456789abcdef'' ! (n mod 16)"

definition escape_char :: "char \<Rightarrow> string" where
  "escape_char c =
     (let n = of_char c :: nat in
      if c = CHR 0x22 \<or> c = CHR 0x5C then [CHR 0x5C, c]
      else if n < 0x20 then CHR 0x5C # ''u00'' @ [hex_digit (n div 16), hex_digit n] else [c])"

fun print_json :: "jval \<Rightarrow> string" and print_items :: "jval list \<Rightarrow> string list" and print_fields :: "jobj \<Rightarrow> string list" where
  "print_json JNull = ''null''"
| "print_json (JBool b) = (if b then ''true'' else ''false'')"
| "print_json (JNum x) = show_int \<lfloor>x\<rfloor>"
| "print_json (JStr s) = CHR 0x22 # concat (List.map escape_char s) @ [CHR 0x22]"
| "print_json (JArr xs) = CHR ''['' # commas (print_items xs) @ '']''"
| "print_json (JObj m) = CHR ''{'' # commas (print_fields m) @ ''}''"
| "print_items [] = []"
| "print_items (x # xs) = print_json x # print_items xs"
| "print_fields [] = []"
| "print_fields ((k, v) # m) = (print_json (JStr k) @ CHR '':'' # print_json v) # print_fields m"

lemma print_items_map: "print_items xs = List.map print_json xs"
  by (induction xs) auto

lemma print_fields_map: "print_fields m = List.map (\<lambda>(k, v). print_json (JStr k) @ CHR '':'' # print_json v) m"
  by (induction m) auto

lemma escape_simple: "is_simple_ascii s \<Longrightarrow> concat (List.map escape_char s) = s"
  by (induction s) (auto simp: is_simple_ascii_def escape_char_def Let_def)

interpretation printer: json_encoder print_json
  by unfold_locales
    (simp_all add: print_items_map print_fields_map escape_simple escape_simple_ascii_def del: print_json.simps(4),
     simp add: escape_simple escape_simple_ascii_def)

section \<open>Pools\<close>

text \<open>
  The structs that can come out of a pool: the constructor makes one, and one that was taken,
  filled and put is there again.
\<close>

inductive pooled :: "'a \<Rightarrow> ('a \<Rightarrow> 'a) \<Rightarrow> ('a \<Rightarrow> 'a) \<Rightarrow> ('b \<Rightarrow> 'a \<Rightarrow> 'a) \<Rightarrow> 'a \<Rightarrow> bool"
  for make get put fill where
  made: "pooled make get put fill make"
| used: "pooled make get put fill d \<Longrightarrow> pooled make get put fill (put (fill x (get d)))"

locale struct_pool =
  fixes make :: 'a and get put :: "'a \<Rightarrow> 'a" and fill :: "'b \<Rightarrow> 'a \<Rightarrow> 'a"
  assumes reset: "get (put (fill x (get make))) = get make"
begin

lemma taken_is_new: "pooled make get put fill d \<Longrightarrow> get d = get make"
  by (induction rule: pooled.induct) (simp_all add: reset)

end

interpretation text_pool: struct_pool new_text_delta "\<lambda>d. d" put_text_delta
    "\<lambda>(i, model, created, content). fill_text_delta i model created content"
  by unfold_locales (auto simp: new_text_delta_def put_text_delta_def fill_text_delta_def)

interpretation reasoning_pool: struct_pool new_reasoning_delta get_reasoning_delta put_reasoning_delta
    "\<lambda>(i, model, created, r, s). fill_reasoning_delta i model created r s"
  by unfold_locales
    (auto simp: new_reasoning_delta_def put_reasoning_delta_def fill_reasoning_delta_def get_reasoning_delta_def Let_def)

interpretation tool_call_pool: struct_pool new_tool_call_delta "\<lambda>d. d" put_tool_call_delta
    "\<lambda>(i, model, created, r, e). fill_tool_call_delta i model created r e"
  by unfold_locales (auto simp: new_tool_call_delta_def put_tool_call_delta_def fill_tool_call_delta_def)

interpretation claude_delta_pool: struct_pool "new_claude_delta t" "\<lambda>d. d" put_claude_delta
    "\<lambda>(i, s) d. d\<lparr>ld_index := i, ld_text := s\<rparr>" for t
  by unfold_locales (auto simp: new_claude_delta_def put_claude_delta_def)

interpretation block_stop_pool: struct_pool new_claude_block_stop "\<lambda>d. d" put_claude_block_stop
    "\<lambda>i d. d\<lparr>lb_index := i\<rparr>"
  by unfold_locales (auto simp: new_claude_block_stop_def put_claude_block_stop_def)

interpretation tool_start_pool: struct_pool new_claude_tool_start "\<lambda>d. d" put_claude_tool_start
    "\<lambda>(i, t, n) d. d\<lparr>lt_index := i, lt_id := t, lt_name := n\<rparr>"
  by unfold_locales (auto simp: new_claude_tool_start_def put_claude_tool_start_def)

section \<open>Properties\<close>

lemma simple_words:
  "is_simple_ascii ''id''" "is_simple_ascii ''object''" "is_simple_ascii ''chat.completion.chunk''" "is_simple_ascii ''created''"
  "is_simple_ascii ''model''" "is_simple_ascii ''choices''" "is_simple_ascii ''index''" "is_simple_ascii ''delta''"
  "is_simple_ascii ''role''" "is_simple_ascii ''assistant''" "is_simple_ascii ''content''" "is_simple_ascii ''type''"
  "is_simple_ascii ''content_block_delta''" "is_simple_ascii ''text_delta''" "is_simple_ascii ''text''"
  by code_simp+

lemma show_int_zero: "show_int 0 = ''0''"
  by code_simp

text \<open>
  C35: The templates for text deltas write what the encoder would. The identifier and the model are
  copied as they are, so they must not need escaping, and an empty content is left out by the
  encoder only. The struct may be any that the pool hands out.
\<close>

theorem text_delta_fast_path:
  assumes "json_encoder marshal" "is_simple_ascii i" "is_simple_ascii model" "content \<noteq> []"
    and "pooled new_text_delta (\<lambda>d. d) put_text_delta (\<lambda>(i, model, created, content). fill_text_delta i model created content) d"
    and "pooled (new_claude_delta ''text_delta'') (\<lambda>d. d) put_claude_delta (\<lambda>(i, s) d. d\<lparr>ld_index := i, ld_text := s\<rparr>) c"
  shows "build_openai_text_delta_sse marshal d i model created content =
      build_sse_chunk (marshal (text_delta_json (fill_text_delta i model created content new_text_delta)))
    \<and> build_claude_text_delta_sse marshal c index text =
      render marshal (''content_block_delta'', JObj [(''type'', JStr ''content_block_delta''), (''index'', jint index),
        (''delta'', JObj [(''type'', JStr ''text_delta''), (''text'', JStr text)])])"
proof -
  note enc = json_encoder.encode_object[OF assms(1)] json_encoder.encode_array[OF assms(1)]
    json_encoder.encode_int[OF assms(1)] json_encoder.encode_text[OF assms(1)]
  have zero: "marshal (JNum 0) = ''0''" using enc(3)[of 0] by (simp add: show_int_zero)
  have d: "d = new_text_delta" and c: "c = new_claude_delta ''text_delta''"
    using text_pool.taken_is_new[OF assms(5)] claude_delta_pool.taken_is_new[OF assms(6)] by simp_all
  have "build_openai_text_delta_sse marshal d i model created content =
      build_sse_chunk (marshal (text_delta_json (fill_text_delta i model created content new_text_delta)))"
    using assms(2-4)
    by (cases "is_simple_ascii content")
      (simp_all add: d build_openai_text_delta_sse_def openai_text_template_def build_sse_chunk_def text_delta_json_def
        fill_text_delta_def new_text_delta_def text_choice_json_def str_unless_empty_def enc zero simple_words escape_simple_ascii_def)
  moreover have "build_claude_text_delta_sse marshal c index text =
      render marshal (''content_block_delta'', JObj [(''type'', JStr ''content_block_delta''), (''index'', jint index),
        (''delta'', JObj [(''type'', JStr ''text_delta''), (''text'', JStr text)])])"
    by (cases "is_simple_ascii text")
      (simp_all add: c build_claude_text_delta_sse_def claude_text_template_def build_sse_event_def render_def
        claude_delta_json_def new_claude_delta_def enc simple_words escape_simple_ascii_def)
  ultimately show ?thesis by simp
qed

theorem text_delta_fast_path_witness:
  "build_openai_text_delta_sse print_json
      (put_text_delta (fill_text_delta ''x'' ''y'' 1 ''z'' new_text_delta)) ''c1'' ''gpt'' 7 ''hi''
    = build_sse_chunk (print_json (text_delta_json (fill_text_delta ''c1'' ''gpt'' 7 ''hi'' new_text_delta)))"
proof -
  let ?fill = "\<lambda>(i, model, created, content). fill_text_delta i model created content"
  have "pooled new_text_delta (\<lambda>d. d) put_text_delta ?fill (put_text_delta (?fill (''x'', ''y'', 1, ''z'') new_text_delta))"
    by (rule pooled.used [OF pooled.made])
  then have d: "pooled new_text_delta (\<lambda>d. d) put_text_delta ?fill (put_text_delta (fill_text_delta ''x'' ''y'' 1 ''z'' new_text_delta))"
    by simp
  have "is_simple_ascii ''c1''" "is_simple_ascii ''gpt''" by code_simp+
  from text_delta_fast_path[OF printer.json_encoder_axioms this _ d pooled.made, of "''hi''"] show ?thesis by simp
qed

end
