(* ===== verification/ClaudeSse.thy ===== *)
theory ClaudeSse
  imports ClaudeParser Sse
begin

text \<open>
  The stream that is sent to a client which speaks Claude's format (\<open>internal/translator/from_ir/claude.go\<close>).
  An operation returns the events that it writes, in order, with the new state; \<open>render\<close> of theory
  Sse is the text of one. A state that is nil is \<open>None\<close>.
\<close>

section \<open>State\<close>

record claude_stream_state =
  cs_message_id :: string
  cs_model :: string
  cs_start_sent :: bool
  cs_block_started :: bool
  cs_block_type :: string
  cs_block_index :: int
  cs_has_tools :: bool
  cs_has_text :: bool
  cs_finish_sent :: bool
  cs_parser :: "claude_parser option"

definition new_claude_stream_state :: claude_stream_state where
  "new_claude_stream_state = \<lparr>cs_message_id = [], cs_model = [], cs_start_sent = False, cs_block_started = False,
     cs_block_type = [], cs_block_index = 0, cs_has_tools = False, cs_has_text = False, cs_finish_sent = False,
     cs_parser = Some new_claude_parser\<rparr>"

section \<open>Events\<close>

text \<open>\<open>writeSSE\<close> of an event whose data repeat its type.\<close>

definition typed_sse :: "string \<Rightarrow> jobj \<Rightarrow> sse" where
  "typed_sse t m = (t, JObj ((''type'', JStr t) # m))"

definition block_start_sse :: "int \<Rightarrow> string \<Rightarrow> jobj \<Rightarrow> sse" where
  "block_start_sse i t m = typed_sse ''content_block_start''
     [(''index'', jint i), (''content_block'', JObj ((''type'', JStr t) # m))]"

definition block_delta_sse :: "int \<Rightarrow> string \<Rightarrow> jobj \<Rightarrow> sse" where
  "block_delta_sse i t m = typed_sse ''content_block_delta''
     [(''index'', jint i), (''delta'', JObj ((''type'', JStr t) # m))]"

definition block_stop_sse :: "int \<Rightarrow> sse" where
  "block_stop_sse i = typed_sse ''content_block_stop'' [(''index'', jint i)]"

text \<open>
  A delta goes into the block of its kind that is open; one of another kind is closed first. The
  content of a new block is empty.
\<close>

definition switch_block :: "string \<Rightarrow> jobj \<Rightarrow> claude_stream_state \<Rightarrow> sse list \<times> claude_stream_state" where
  "switch_block t blank s =
     (let (stops, s) =
            (if cs_block_started s \<and> cs_block_type s \<noteq> t
             then ([block_stop_sse (cs_block_index s)],
                   s\<lparr>cs_block_started := False, cs_block_index := cs_block_index s + 1\<rparr>)
             else ([], s))
      in if cs_block_started s then (stops, s)
         else (stops @ [block_start_sse (cs_block_index s) t blank],
               s\<lparr>cs_block_started := True, cs_block_type := t\<rparr>))"

type_synonym emission = "sse list \<times> claude_stream_state option"

definition emit_text_delta :: "string \<Rightarrow> claude_stream_state option \<Rightarrow> emission" where
  "emit_text_delta t s =
     (case s of
        None \<Rightarrow> ([block_delta_sse 0 ''text_delta'' [(''text'', JStr t)]], None)
      | Some s \<Rightarrow>
          let (out, s) = switch_block ''text'' [(''text'', JStr [])] (s\<lparr>cs_has_text := True\<rparr>)
          in (out @ [block_delta_sse (cs_block_index s) ''text_delta'' [(''text'', JStr t)]], Some s))"

definition signature_sse :: "int \<Rightarrow> string \<Rightarrow> sse" where
  "signature_sse i sig = block_delta_sse i ''signature_delta'' [(''signature'', JStr sig)]"

definition thinking_deltas :: "int \<Rightarrow> string \<Rightarrow> string \<Rightarrow> sse list" where
  "thinking_deltas i t sig =
     (if t = [] then [] else [block_delta_sse i ''thinking_delta'' (str_unless_empty ''thinking'' t)])
     @ (if sig = [] then [] else [signature_sse i sig])"

definition emit_thinking_delta :: "string \<Rightarrow> string \<Rightarrow> claude_stream_state option \<Rightarrow> emission" where
  "emit_thinking_delta t sig s =
     (if t = [] \<and> sig \<noteq> []
      then (case s of
              Some s \<Rightarrow> (if cs_block_started s \<and> cs_block_type s = ''thinking''
                         then [signature_sse (cs_block_index s) sig] else [], Some s)
            | None \<Rightarrow> ([], None))
      else (case s of
              None \<Rightarrow> (thinking_deltas 0 t sig, None)
            | Some s \<Rightarrow>
                let (out, s) = switch_block ''thinking'' [(''thinking'', JStr [])] s
                in (out @ thinking_deltas (cs_block_index s) t sig, Some s)))"

definition emit_redacted_thinking_delta :: "string \<Rightarrow> claude_stream_state option \<Rightarrow> emission" where
  "emit_redacted_thinking_delta d s =
     (case s of
        None \<Rightarrow> ([block_delta_sse 0 ''redacted_thinking_delta'' [(''data'', JStr d)]], None)
      | Some s \<Rightarrow>
          let (out, s) = switch_block ''redacted_thinking'' [(''data'', JStr [])] s
          in (out @ [block_delta_sse (cs_block_index s) ''redacted_thinking_delta'' [(''data'', JStr d)]], Some s))"

definition close_block :: "claude_stream_state \<Rightarrow> sse list \<times> claude_stream_state" where
  "close_block s =
     (if cs_block_started s
      then ([block_stop_sse (cs_block_index s)],
            s\<lparr>cs_block_started := False, cs_block_index := cs_block_index s + 1, cs_block_type := []\<rparr>)
      else ([], s))"

definition tool_call_block :: "int \<Rightarrow> tool_call \<Rightarrow> sse list" where
  "tool_call_block i tc =
     [block_start_sse i ''tool_use'' [(''id'', JStr (to_claude_tool_id (tc_id tc))), (''name'', JStr (tc_name tc)), (''input'', JObj [])],
      block_delta_sse i ''input_json_delta'' [(''partial_json'', JStr (if tc_args tc = [] then ''{}'' else tc_args tc))],
      block_stop_sse i]"

definition emit_tool_call :: "tool_call \<Rightarrow> claude_stream_state option \<Rightarrow> emission" where
  "emit_tool_call tc s =
     (case s of
        None \<Rightarrow> (tool_call_block 0 tc, None)
      | Some s \<Rightarrow>
          let sig = (if cs_block_started s \<and> cs_block_type s = ''thinking'' \<and> tc_signature tc \<noteq> []
                     then [signature_sse (cs_block_index s) (tc_signature tc)] else []);
              (stops, s) = close_block s; i = cs_block_index s
          in (sig @ stops @ tool_call_block i tc, Some (s\<lparr>cs_has_tools := True, cs_block_index := i + 1\<rparr>)))"

text \<open>The input tokens without those read from the cache.\<close>

definition cached_tokens_of :: "usage \<Rightarrow> int" where
  "cached_tokens_of u =
     (if 0 < us_cache_read u then us_cache_read u
      else case us_prompt_details u of Some d \<Rightarrow> if 0 < pd_cached d then pd_cached d else 0 | None \<Rightarrow> 0)"

definition finish_usage :: "usage option \<Rightarrow> jobj" where
  "finish_usage us =
     (case us of
        None \<Rightarrow> [(''output_tokens'', jint 0)]
      | Some u \<Rightarrow>
          let cached = cached_tokens_of u in
          [(''output_tokens'', jint (us_completion u + us_thoughts u))]
          @ (if 0 < cached then [(''cache_read_input_tokens'', jint cached)] else [])
          @ [(''input_tokens'', jint (if 0 < cached then us_prompt u - cached else us_prompt u))]
          @ (if 0 < us_cache_creation u then [(''cache_creation_input_tokens'', jint (us_cache_creation u))] else []))"

definition finish_events :: "string \<Rightarrow> usage option \<Rightarrow> sse list" where
  "finish_events reason us =
     [typed_sse ''message_delta'' [(''delta'', JObj [(''stop_reason'', JStr reason)]), (''usage'', JObj (finish_usage us))],
      typed_sse ''message_stop'' []]"

definition blank_text_block :: "int \<Rightarrow> sse list" where
  "blank_text_block i =
     [block_start_sse i ''text'' [(''text'', JStr [])], block_delta_sse i ''text_delta'' [(''text'', JStr '' '')], block_stop_sse i]"

definition emit_finish :: "usage option \<Rightarrow> claude_stream_state option \<Rightarrow> emission" where
  "emit_finish us s =
     (case s of
        None \<Rightarrow> (finish_events ''end_turn'' us, None)
      | Some s \<Rightarrow>
          let (stops, s) = close_block s
          in (stops @ (if \<not> cs_has_text s \<and> \<not> cs_has_tools s then blank_text_block (cs_block_index s) else [])
              @ finish_events (if cs_has_tools s then ''tool_use'' else ''end_turn'') us, Some s))"

definition start_event :: "stream_meta \<Rightarrow> sse" where
  "start_event m =
     (let cached = sm_cache_tokens m;
          input = (if 0 < cached then sm_input_tokens m - cached else sm_input_tokens m)
      in typed_sse ''message_start'' [(''message'', JObj [(''id'', JStr (sm_message_id m)), (''type'', JStr ''message''),
           (''role'', JStr ''assistant''), (''content'', JArr []), (''model'', JStr (sm_model m)),
           (''usage'', JObj ([(''input_tokens'', jint input), (''output_tokens'', jint 1), (''cache_creation_input_tokens'', jint 0)]
              @ (if 0 < cached then [(''cache_read_input_tokens'', jint cached)] else [])))])])"

definition emit_error :: "unified_event \<Rightarrow> sse" where
  "emit_error ev = typed_sse ''error'' [(''error'', JObj [(''type'', JStr ''api_error''), (''message'', JStr (error_message ev))])]"

definition to_claude_sse :: "unified_event \<Rightarrow> claude_stream_state option \<Rightarrow> emission" where
  "to_claude_sse ev s =
     (case ev_type ev of
        EventTypeStreamMeta \<Rightarrow>
          (case (s, ev_stream_meta ev) of
             (Some s', Some m) \<Rightarrow>
               if cs_start_sent s' then ([], s)
               else ([start_event m], Some (s'\<lparr>cs_start_sent := True, cs_model := sm_model m, cs_message_id := sm_message_id m\<rparr>))
           | _ \<Rightarrow> ([], s))
      | EventTypeToken \<Rightarrow> emit_text_delta (ev_content ev) s
      | EventTypeReasoning \<Rightarrow>
          (if ev_redacted_data ev \<noteq> [] then emit_redacted_thinking_delta (ev_redacted_data ev) s
           else emit_thinking_delta (ev_reasoning ev) (ev_signature ev) s)
      | EventTypeToolCall \<Rightarrow> (case ev_tool_call ev of None \<Rightarrow> ([], s) | Some tc \<Rightarrow> emit_tool_call tc s)
      | EventTypeFinish \<Rightarrow>
          (case s of
             None \<Rightarrow> emit_finish (ev_usage ev) None
           | Some s' \<Rightarrow> if cs_finish_sent s' then ([], s) else emit_finish (ev_usage ev) (Some (s'\<lparr>cs_finish_sent := True\<rparr>)))
      | EventTypeError \<Rightarrow> ([emit_error ev], s)
      | _ \<Rightarrow> ([], s))"

text \<open>The text of a chunk; no text is no chunk.\<close>

definition claude_chunk :: "(jval \<Rightarrow> string) \<Rightarrow> sse list \<Rightarrow> string option" where
  "claude_chunk marshal out = (if out = [] then None else Some (concat (List.map (render marshal) out)))"

section \<open>The protocol\<close>

text \<open>
  What a client expects of a stream: blocks that are numbered from zero and do not overlap, in each
  block only deltas of its kind, and at the end the message's delta and its stop.
\<close>

datatype phase = Unstarted | Between int | Within int string | Stopping | Stopped

definition delta_kinds :: "string \<Rightarrow> string set" where
  "delta_kinds t =
     (if t = ''text'' then {''text_delta''}
      else if t = ''thinking'' then {''thinking_delta'', ''signature_delta''}
      else if t = ''redacted_thinking'' then {''redacted_thinking_delta''}
      else if t = ''tool_use'' then {''input_json_delta''} else {})"

definition field_int :: "jobj \<Rightarrow> string \<Rightarrow> int" where
  "field_int m k = (case mget m k of Some (JNum x) \<Rightarrow> \<lfloor>x\<rfloor> | _ \<Rightarrow> -1)"

definition kind_in :: "jobj \<Rightarrow> string \<Rightarrow> string" where
  "kind_in m k = (case mget m k of Some (JObj o1) \<Rightarrow> (case mget o1 ''type'' of Some (JStr t) \<Rightarrow> t | _ \<Rightarrow> []) | _ \<Rightarrow> [])"

definition advance :: "sse \<Rightarrow> phase \<Rightarrow> phase option" where
  "advance e p =
     (case snd e of
        JObj m \<Rightarrow>
          if fst e = ''error'' then Some p
          else if fst e = ''message_start'' then (if p = Unstarted then Some (Between 0) else None)
          else if fst e = ''content_block_start'' then
            (case p of Between n \<Rightarrow> if field_int m ''index'' = n then Some (Within n (kind_in m ''content_block'')) else None
             | _ \<Rightarrow> None)
          else if fst e = ''content_block_delta'' then
            (case p of Within n t \<Rightarrow> if field_int m ''index'' = n \<and> kind_in m ''delta'' \<in> delta_kinds t then Some p else None
             | _ \<Rightarrow> None)
          else if fst e = ''content_block_stop'' then
            (case p of Within n t \<Rightarrow> if field_int m ''index'' = n then Some (Between (n + 1)) else None | _ \<Rightarrow> None)
          else if fst e = ''message_delta'' then (case p of Between n \<Rightarrow> Some Stopping | _ \<Rightarrow> None)
          else if fst e = ''message_stop'' then (if p = Stopping then Some Stopped else None)
          else None
      | _ \<Rightarrow> None)"

fun advances :: "sse list \<Rightarrow> phase \<Rightarrow> phase option" where
  "advances [] p = Some p"
| "advances (e # es) p = (case advance e p of None \<Rightarrow> None | Some q \<Rightarrow> advances es q)"

definition phase_of :: "claude_stream_state \<Rightarrow> phase" where
  "phase_of s =
     (if cs_finish_sent s then Stopped
      else if cs_block_started s then Within (cs_block_index s) (cs_block_type s) else Between (cs_block_index s))"

text \<open>The events of a stream one after the other.\<close>

fun emit_all :: "unified_event list \<Rightarrow> claude_stream_state option \<Rightarrow> emission" where
  "emit_all [] s = ([], s)"
| "emit_all (e # es) s =
     (let (out, s') = to_claude_sse e s; (rest, s'') = emit_all es s' in (out @ rest, s''))"

section \<open>Lemmas\<close>

lemma advances_append: "advances (xs @ ys) p = Option.bind (advances xs p) (advances ys)"
  by (induction xs arbitrary: p) (auto split: option.splits)

lemma advance_events:
  "advance (block_start_sse i t m) (Between n) = (if i = n then Some (Within n t) else None)"
  "advance (block_delta_sse i k m) (Within n t) = (if i = n \<and> k \<in> delta_kinds t then Some (Within n t) else None)"
  "advance (block_stop_sse i) (Within n t) = (if i = n then Some (Between (n + 1)) else None)"
  "advance (emit_error e) p = Some p"
  "advance (start_event meta) Unstarted = Some (Between 0)"
  by (simp_all add: advance_def block_start_sse_def block_delta_sse_def block_stop_sse_def typed_sse_def
      emit_error_def start_event_def Let_def field_int_def kind_in_def)

lemma delta_kinds_simps:
  "delta_kinds ''text'' = {''text_delta''}" "delta_kinds ''thinking'' = {''thinking_delta'', ''signature_delta''}"
  "delta_kinds ''redacted_thinking'' = {''redacted_thinking_delta''}" "delta_kinds ''tool_use'' = {''input_json_delta''}"
  by (simp_all add: delta_kinds_def)

lemmas protocol = advances_append advance_events delta_kinds_simps Let_def split_beta

definition running :: "claude_stream_state \<Rightarrow> bool" where
  "running s \<longleftrightarrow> cs_start_sent s \<and> \<not> cs_finish_sent s"

lemma switch_block_advances:
  assumes "running s"
  shows "advances (fst (switch_block t blank s)) (phase_of s) = Some (phase_of (snd (switch_block t blank s)))
    \<and> phase_of (snd (switch_block t blank s)) = Within (cs_block_index (snd (switch_block t blank s))) t
    \<and> running (snd (switch_block t blank s))"
  using assms by (auto simp: switch_block_def phase_of_def running_def protocol)

lemma close_block_advances:
  assumes "running s"
  shows "advances (fst (close_block s)) (phase_of s) = Some (phase_of (snd (close_block s)))
    \<and> phase_of (snd (close_block s)) = Between (cs_block_index (snd (close_block s))) \<and> running (snd (close_block s))"
  using assms by (auto simp: close_block_def phase_of_def running_def protocol)

definition content_type_event :: "unified_event \<Rightarrow> bool" where
  "content_type_event e \<longleftrightarrow> ev_type e \<in> {EventTypeToken, EventTypeReasoning, EventTypeToolCall}"

text \<open>Every operation takes the client from the phase of the state to the phase of the new state.\<close>

lemma deltas_advance:
  "t = ''thinking'' \<Longrightarrow> advances (thinking_deltas i d sig) (Within i t) = Some (Within i t)"
  by (simp add: thinking_deltas_def signature_sse_def protocol)

lemma emit_text_advances:
  assumes "running s" "emit_text_delta d (Some s) = (out, s')"
  shows "\<exists>r. s' = Some r \<and> running r \<and> advances out (phase_of s) = Some (phase_of r)"
proof -
  let ?s = "s\<lparr>cs_has_text := True\<rparr>"
  have "phase_of ?s = phase_of s" "running ?s" using assms(1) by (simp_all add: phase_of_def running_def)
  then show ?thesis
    using switch_block_advances[of ?s "''text''" "[(''text'', JStr [])]"] assms(2)
    by (auto simp: emit_text_delta_def protocol)
qed

lemma emit_redacted_advances:
  assumes "running s" "emit_redacted_thinking_delta d (Some s) = (out, s')"
  shows "\<exists>r. s' = Some r \<and> running r \<and> advances out (phase_of s) = Some (phase_of r)"
  using switch_block_advances[OF assms(1), of "''redacted_thinking''" "[(''data'', JStr [])]"] assms(2)
  by (auto simp: emit_redacted_thinking_delta_def protocol)

lemma emit_thinking_advances:
  assumes "running s" "emit_thinking_delta d sig (Some s) = (out, s')"
  shows "\<exists>r. s' = Some r \<and> running r \<and> advances out (phase_of s) = Some (phase_of r)"
proof (cases "d = [] \<and> sig \<noteq> []")
  case True
  then have "s' = Some s" and out: "out = (if cs_block_started s \<and> cs_block_type s = ''thinking''
      then [signature_sse (cs_block_index s) sig] else [])"
    using assms(2) by (auto simp: emit_thinking_delta_def)
  moreover have "advances out (phase_of s) = Some (phase_of s)"
    using assms(1) by (simp add: out phase_of_def running_def signature_sse_def advance_events delta_kinds_simps)
  ultimately show ?thesis using assms(1) by simp
next
  case False
  then show ?thesis
    using switch_block_advances[OF assms(1), of "''thinking''" "[(''thinking'', JStr [])]"] assms(2) deltas_advance
    by (auto simp: emit_thinking_delta_def protocol)
qed

lemma emit_tool_call_advances:
  assumes "running s" "emit_tool_call tc (Some s) = (out, s')"
  shows "\<exists>r. s' = Some r \<and> running r \<and> advances out (phase_of s) = Some (phase_of r)"
proof -
  let ?c = "snd (close_block s)"
  have run: "running ?c" "\<not> cs_block_started ?c" using assms(1) by (auto simp: close_block_def running_def)
  have "advances (tool_call_block i tc) (Between i) = Some (Between (i + 1))" for i
    by (simp add: tool_call_block_def protocol)
  moreover have "advances (if cs_block_started s \<and> cs_block_type s = ''thinking'' \<and> tc_signature tc \<noteq> []
      then [signature_sse (cs_block_index s) (tc_signature tc)] else []) (phase_of s) = Some (phase_of s)"
    using assms(1) by (auto simp: phase_of_def running_def signature_sse_def protocol)
  moreover define r where "r = ?c\<lparr>cs_has_tools := True, cs_block_index := cs_block_index ?c + 1\<rparr>"
  then have "phase_of r = Between (cs_block_index ?c + 1)" "running r"
    using run by (simp_all add: phase_of_def running_def)
  moreover have "s' = Some r" using assms(2) by (auto simp: emit_tool_call_def protocol r_def)
  moreover have "out = (if cs_block_started s \<and> cs_block_type s = ''thinking'' \<and> tc_signature tc \<noteq> []
      then [signature_sse (cs_block_index s) (tc_signature tc)] else []) @ fst (close_block s) @ tool_call_block (cs_block_index ?c) tc"
    using assms(2) by (auto simp: emit_tool_call_def protocol)
  ultimately show ?thesis
    using close_block_advances[OF assms(1)] by (simp add: advances_append)
qed

lemma emit_finish_advances:
  assumes "running s" "emit_finish us (Some (s\<lparr>cs_finish_sent := True\<rparr>)) = (out, s')"
  shows "\<exists>r. s' = Some r \<and> cs_finish_sent r \<and> cs_start_sent r \<and> advances out (phase_of s) = Some Stopped"
proof -
  let ?c = "snd (close_block (s\<lparr>cs_finish_sent := True\<rparr>))"
  have "advances (fst (close_block (s\<lparr>cs_finish_sent := True\<rparr>))) (phase_of s) = Some (Between (cs_block_index ?c))"
    "cs_finish_sent ?c" "cs_start_sent ?c"
    using assms(1) by (auto simp: close_block_def phase_of_def running_def protocol)
  moreover have "advances (blank_text_block i) (Between i) = Some (Between (i + 1))" for i
    by (simp add: blank_text_block_def protocol)
  moreover have "advances (finish_events reason us) (Between i) = Some Stopped" for i reason
    by (simp add: finish_events_def typed_sse_def advance_def)
  ultimately show ?thesis
    using assms(2) by (auto simp: emit_finish_def protocol)
qed

lemma to_claude_sse_advances:
  assumes "to_claude_sse e (Some s) = (out, s')" "cs_start_sent s" "cs_finish_sent s \<longrightarrow> \<not> content_type_event e"
  shows "\<exists>r. s' = Some r \<and> advances out (phase_of s) = Some (phase_of r) \<and> cs_start_sent r
    \<and> (cs_finish_sent r \<longleftrightarrow> cs_finish_sent s \<or> ev_type e = EventTypeFinish)"
proof (cases "ev_type e = EventTypeFinish")
  case True
  then show ?thesis
  proof (cases "cs_finish_sent s")
    case False
    then obtain r where "s' = Some r" "cs_finish_sent r" "cs_start_sent r" "advances out (phase_of s) = Some Stopped"
      using emit_finish_advances[of s "ev_usage e" out s'] assms(1,2) True by (auto simp: to_claude_sse_def running_def)
    then show ?thesis using True by (auto simp: phase_of_def)
  qed (use assms True in \<open>auto simp: to_claude_sse_def\<close>)
next
  case False
  show ?thesis
  proof (cases "content_type_event e")
    case True
    then have "running s" using assms(2,3) by (auto simp: running_def)
    then have "\<exists>r. s' = Some r \<and> running r \<and> advances out (phase_of s) = Some (phase_of r)"
      using assms(1) True emit_text_advances emit_thinking_advances emit_redacted_advances emit_tool_call_advances
      by (cases "ev_type e") (auto simp: to_claude_sse_def content_type_event_def split: if_splits option.splits)
    then show ?thesis using False \<open>running s\<close> by (auto simp: running_def)
  next
    case no_content: False
    then show ?thesis
      using assms(1,2) False
      by (cases "ev_type e") (auto simp: to_claude_sse_def content_type_event_def advance_events split: option.splits)
  qed
qed

subsection \<open>What is delivered\<close>

text \<open>The text in the deltas of a kind.\<close>

definition payload :: "string \<Rightarrow> string \<Rightarrow> sse \<Rightarrow> string" where
  "payload k f e =
     (case snd e of
        JObj m \<Rightarrow>
          (if fst e = ''content_block_delta'' \<and> kind_in m ''delta'' = k
           then case mget m ''delta'' of
                  Some (JObj o1) \<Rightarrow> (case mget o1 f of Some (JStr s) \<Rightarrow> s | _ \<Rightarrow> [])
                | _ \<Rightarrow> []
           else [])
      | _ \<Rightarrow> [])"

definition delivered :: "string \<Rightarrow> string \<Rightarrow> sse list \<Rightarrow> string" where
  "delivered k f out = concat (List.map (payload k f) out)"

lemma payload_events:
  "payload k f (block_start_sse i t m) = []" "payload k f (block_stop_sse i) = []" "payload k f (emit_error e) = []"
  "payload k f (start_event meta) = []"
  "payload k f (block_delta_sse i t m) =
     (if t = k then case mget ((''type'', JStr t) # m) f of Some (JStr s) \<Rightarrow> s | _ \<Rightarrow> [] else [])"
  by (simp_all add: payload_def block_start_sse_def block_stop_sse_def typed_sse_def emit_error_def start_event_def
      Let_def block_delta_sse_def kind_in_def)

lemma delivered_simps:
  "delivered k f [] = []" "delivered k f (e # es) = payload k f e @ delivered k f es"
  "delivered k f (xs @ ys) = delivered k f xs @ delivered k f ys"
  by (simp_all add: delivered_def)

lemma delivered_blocks:
  "delivered k f (fst (switch_block t blank s)) = []" "delivered k f (fst (close_block s)) = []"
  by (auto simp: switch_block_def close_block_def Let_def split_beta delivered_simps payload_events)

lemmas delivery = delivered_simps delivered_blocks payload_events

definition token_text :: "unified_event \<Rightarrow> string" where
  "token_text e = (if ev_type e = EventTypeToken then ev_content e else [])"

definition thinking_text :: "unified_event \<Rightarrow> string" where
  "thinking_text e = (if ev_type e = EventTypeReasoning \<and> ev_redacted_data e = [] then ev_reasoning e else [])"

lemma emit_delivers:
  assumes "ev_type e \<noteq> EventTypeFinish"
  shows "delivered ''text_delta'' ''text'' (fst (to_claude_sse e s)) = token_text e
    \<and> delivered ''thinking_delta'' ''thinking'' (fst (to_claude_sse e s)) = thinking_text e"
proof (cases "ev_type e")
  case EventTypeToken
  then show ?thesis
    by (cases s) (simp_all add: to_claude_sse_def emit_text_delta_def Let_def split_beta token_text_def thinking_text_def delivery)
next
  case EventTypeReasoning
  then show ?thesis
    by (cases s) (simp_all add: to_claude_sse_def emit_redacted_thinking_delta_def emit_thinking_delta_def signature_sse_def
        thinking_deltas_def str_unless_empty_def Let_def split_beta token_text_def thinking_text_def delivery)
next
  case EventTypeToolCall
  then show ?thesis
    by (cases s; cases "ev_tool_call e") (simp_all add: to_claude_sse_def emit_tool_call_def tool_call_block_def signature_sse_def
        Let_def split_beta token_text_def thinking_text_def delivery)
qed (use assms in \<open>cases s; cases "ev_stream_meta e"; simp add: to_claude_sse_def token_text_def thinking_text_def delivery\<close>)+

lemma emit_all_append:
  "emit_all (xs @ ys) s = (let (a, t) = emit_all xs s; (b, u) = emit_all ys t in (a @ b, u))"
  by (induction xs arbitrary: s) (simp_all add: Let_def split_beta)

text \<open>After the finish come no events with content.\<close>

fun finish_last :: "unified_event list \<Rightarrow> bool" where
  "finish_last [] = True"
| "finish_last (e # es) =
     (if ev_type e = EventTypeFinish then list_all (\<lambda>e. \<not> content_type_event e) es else finish_last es)"

lemma emit_all_advances:
  assumes "cs_start_sent s" "if cs_finish_sent s then list_all (\<lambda>e. \<not> content_type_event e) es else finish_last es"
  shows "\<exists>r. snd (emit_all es (Some s)) = Some r \<and> advances (fst (emit_all es (Some s))) (phase_of s) = Some (phase_of r)
    \<and> (cs_finish_sent r \<longleftrightarrow> cs_finish_sent s \<or> (\<exists>e \<in> set es. ev_type e = EventTypeFinish))"
  using assms
proof (induction es arbitrary: s)
  case (Cons e es)
  obtain out s' where step: "to_claude_sse e (Some s) = (out, s')" by fastforce
  obtain r where r: "s' = Some r" "advances out (phase_of s) = Some (phase_of r)" "cs_start_sent r"
    "cs_finish_sent r \<longleftrightarrow> cs_finish_sent s \<or> ev_type e = EventTypeFinish"
    using to_claude_sse_advances[OF step Cons.prems(1)] Cons.prems(2) by (cases "cs_finish_sent s") auto
  have "if cs_finish_sent r then list_all (\<lambda>e. \<not> content_type_event e) es else finish_last es"
    using Cons.prems(2) r(4) by (auto split: if_splits)
  from Cons.IH[OF r(3) this] show ?case
    using step r by (auto simp: Let_def split_beta advances_append)
qed simp

section \<open>Properties\<close>

text \<open>
  A client always gets a stream that keeps to the protocol, whatever the events are, as long as
  the first one describes the message and no content comes after the finish: blocks are numbered in
  order and do not overlap, deltas fit their block, and the stop of the message comes last.
\<close>

theorem claude_stream_well_formed:
  assumes "ev_type meta = EventTypeStreamMeta" "ev_stream_meta meta = Some m" "finish_last es"
  shows "\<exists>p. advances (fst (emit_all (meta # es) (Some new_claude_stream_state))) Unstarted = Some p
    \<and> (p = Stopped \<longleftrightarrow> (\<exists>e \<in> set es. ev_type e = EventTypeFinish))"
proof -
  let ?s = "new_claude_stream_state\<lparr>cs_start_sent := True, cs_model := sm_model m, cs_message_id := sm_message_id m\<rparr>"
  have s: "cs_start_sent ?s" "\<not> cs_finish_sent ?s" "phase_of ?s = Between 0"
    by (simp_all add: new_claude_stream_state_def phase_of_def)
  have "to_claude_sse meta (Some new_claude_stream_state) = ([start_event m], Some ?s)"
    using assms(1,2) by (simp add: to_claude_sse_def new_claude_stream_state_def)
  then show ?thesis
    using emit_all_advances[of ?s es] s assms(3)
    by (auto simp: Let_def split_beta advance_events phase_of_def split: if_splits)
qed

definition example_meta :: unified_event where
  "example_meta = (new_event EventTypeStreamMeta)\<lparr>ev_stream_meta :=
     Some \<lparr>sm_message_id = ''m'', sm_model = ''x'', sm_input_tokens = 5, sm_cache_tokens = 0\<rparr>\<rparr>"

definition example_events :: "unified_event list" where
  "example_events = [(new_event EventTypeReasoning)\<lparr>ev_reasoning := ''hm''\<rparr>, (new_event EventTypeToken)\<lparr>ev_content := ''hi''\<rparr>]"

theorem claude_stream_well_formed_witness:
  "advances (fst (emit_all (example_meta # example_events @ [new_event EventTypeFinish]) (Some new_claude_stream_state))) Unstarted
    = Some Stopped"
  using claude_stream_well_formed[of example_meta _ "example_events @ [new_event EventTypeFinish]"]
  by (auto simp: example_meta_def example_events_def new_event_def)

text \<open>
  Content that comes after the finish breaks the protocol: a text opens a block after the
  message was stopped.
\<close>

theorem content_after_finish_breaks_stream:
  assumes "cs_finish_sent s" "\<not> cs_block_started s" "ev_type e = EventTypeToken \<or> ev_type e = EventTypeReasoning \<and> ev_reasoning e \<noteq> []"
  shows "advances (fst (to_claude_sse e (Some s))) Stopped = None"
  using assms
  by (auto simp: to_claude_sse_def emit_text_delta_def emit_redacted_thinking_delta_def emit_thinking_delta_def
      switch_block_def block_start_sse_def typed_sse_def advance_def Let_def)

theorem content_after_finish_breaks_stream_witness:
  "advances (fst (to_claude_sse ((new_event EventTypeToken)\<lparr>ev_content := ''x''\<rparr>)
     (Some (new_claude_stream_state\<lparr>cs_finish_sent := True\<rparr>)))) Stopped = None"
  by (rule content_after_finish_breaks_stream) (simp_all add: new_claude_stream_state_def new_event_def)



end
