(* ===== verification/StreamChunks.thy ===== *)
theory StreamChunks
  imports Ir Sse
begin

text \<open>
  One chunk of a stream for clients that speak OpenAI's, Gemini's or Ollama's format: \<open>ToOpenAIChunk\<close>,
  \<open>ToGeminiChunk\<close>, \<open>ToOllamaChatChunk\<close> and what they use (\<open>internal/translator/from_ir/openai.go\<close>,
  \<open>gemini.go\<close>, \<open>ollama.go\<close>). An error is \<open>Inl\<close>, no chunk is \<open>Inr None\<close>. The encoder and the time are
  arguments; structs from a pool are new ones, as theory Sse shows that they are.
\<close>

type_synonym chunk_result = "string + string option"

section \<open>Usage and grounding for OpenAI\<close>

definition positive :: "string \<Rightarrow> int \<Rightarrow> jobj" where
  "positive k n = (if 0 < n then [(k, jint n)] else [])"

definition unless_empty :: "string \<Rightarrow> jobj \<Rightarrow> jobj" where
  "unless_empty k m = (if m = [] then [] else [(k, JObj m)])"

definition build_usage_map :: "usage \<Rightarrow> openai_meta option \<Rightarrow> jobj" where
  "build_usage_map us meta =
     (let pd = (case us_prompt_details us of
                  Some d \<Rightarrow> positive ''cached_tokens'' (pd_cached d) @ positive ''audio_tokens'' (pd_audio d)
                | None \<Rightarrow> positive ''cached_tokens'' (us_cached us));
          tt = (case meta of
                  Some m \<Rightarrow> if 0 < om_thoughts m then om_thoughts m else us_thoughts us
                | None \<Rightarrow> us_thoughts us);
          cd = positive ''reasoning_tokens'' tt
             @ (case us_completion_details us of
                  Some d \<Rightarrow> positive ''audio_tokens'' (cd_audio d) @ positive ''accepted_prediction_tokens'' (cd_accepted d)
                    @ positive ''rejected_prediction_tokens'' (cd_rejected d)
                | None \<Rightarrow> positive ''accepted_prediction_tokens'' (us_accepted us)
                    @ positive ''rejected_prediction_tokens'' (us_rejected us))
      in [(''prompt_tokens'', jint (us_prompt us)), (''completion_tokens'', jint (us_completion us)), (''total_tokens'', jint (us_total us))]
         @ unless_empty ''prompt_tokens_details'' pd @ unless_empty ''completion_tokens_details'' cd)"

definition strings :: "string list \<Rightarrow> jval" where
  "strings xs = JArr (List.map JStr xs)"

definition ints :: "int list \<Rightarrow> jval" where
  "ints xs = JArr (List.map (\<lambda>i. jint i) xs)"

definition openai_source :: "grounding_chunk \<Rightarrow> jval option" where
  "openai_source c = map_option (\<lambda>w. JObj ([(''type'', JStr ''web''), (''uri'', JStr (wg_uri w)), (''title'', JStr (wg_title w))]
     @ str_unless_empty ''domain'' (wg_domain w))) (gc_web c)"

definition openai_citation :: "grounding_support \<Rightarrow> jval" where
  "openai_citation s = JObj ((case gu_segment s of
       Some g \<Rightarrow> [(''text'', JStr (gs_text g))] @ positive ''start_index'' (gs_start_index g) @ positive ''end_index'' (gs_end_index g)
     | None \<Rightarrow> [])
     @ (if gu_chunk_indices s = [] then [] else [(''source_indices'', ints (gu_chunk_indices s))]))"

definition build_openai_grounding_metadata :: "grounding_metadata \<Rightarrow> jval" where
  "build_openai_grounding_metadata gm =
     (let sources = List.map_filter openai_source (gm_chunks gm)
      in JObj ((if gm_web_queries gm = [] then [] else [(''web_search_queries'', strings (gm_web_queries gm))])
         @ (case gm_search_entry gm of
              Some r \<Rightarrow> if r = [] then [] else [(''search_entry_point'', JObj [(''rendered_content'', JStr r)])]
            | None \<Rightarrow> [])
         @ (if sources = [] then [] else [(''sources'', JArr sources)])
         @ (if gm_supports gm = [] then [] else [(''citations'', JArr (List.map openai_citation (gm_supports gm)))])))"

text \<open>
  A thought that is sent under the name of every format; without a signature one is made up, for a
  client that looks for it.
\<close>

definition build_reasoning_delta :: "string \<Rightarrow> string \<Rightarrow> jobj" where
  "build_reasoning_delta reasoning signature =
     (let s = (if signature = [] then ''thinking'' else signature)
      in [(''role'', JStr ''assistant''), (''reasoning_content'', JStr reasoning), (''reasoning_text'', JStr reasoning),
          (''thinking'', JStr reasoning), (''cot_summary'', JStr reasoning), (''signature'', JStr s),
          (''reasoning_opaque'', JStr s), (''cot_id'', JStr s)])"

section \<open>OpenAI\<close>

definition data_url :: "image_part \<Rightarrow> string" where
  "data_url im = ''data:'' @ im_mime_type im @ '';base64,'' @ im_data im"

definition audio_delta :: "audio_part \<Rightarrow> jobj" where
  "audio_delta a = str_unless_empty ''id'' (au_id a) @ str_unless_empty ''data'' (au_data a)
     @ str_unless_empty ''transcript'' (au_transcript a) @ positive ''expires_at'' (au_expires_at a)"

definition optional :: "string \<Rightarrow> jval option \<Rightarrow> jobj" where
  "optional k v = (case v of Some x \<Rightarrow> [(k, x)] | None \<Rightarrow> [])"

definition openai_reason :: "finish_reason option \<Rightarrow> string" where
  "openai_reason r = (case r of Some f \<Rightarrow> map_finish_reason_to_openai f | None \<Rightarrow> ''stop'')"

text \<open>The delta and what else the choice and the chunk hold, for the events off the hot paths.\<close>

definition openai_delta :: "unified_event \<Rightarrow> jobj" where
  "openai_delta ev =
     (case ev_type ev of
        EventTypeToken \<Rightarrow> [(''role'', JStr ''assistant'')] @ str_unless_empty ''content'' (ev_content ev)
                            @ str_unless_empty ''refusal'' (ev_refusal ev)
      | EventTypeReasoning \<Rightarrow> build_reasoning_delta (ev_reasoning ev) (ev_signature ev)
      | EventTypeImage \<Rightarrow>
          (case ev_image ev of
             Some im \<Rightarrow> [(''role'', JStr ''assistant''), (''images'', JArr [JObj [(''type'', JStr ''image_url''),
               (''image_url'', JObj [(''url'', JStr (data_url im))])]])]
           | None \<Rightarrow> [])
      | EventTypeAudio \<Rightarrow>
          (case ev_audio ev of Some a \<Rightarrow> [(''role'', JStr ''assistant''), (''audio'', JObj (audio_delta a))] | None \<Rightarrow> [])
      | _ \<Rightarrow> [])"

definition openai_finish_choice :: "unified_event \<Rightarrow> openai_meta option \<Rightarrow> jobj" where
  "openai_finish_choice ev meta =
     (if ev_type ev = EventTypeFinish
      then [(''finish_reason'', JStr (openai_reason (ev_finish_reason ev)))]
           @ (case meta of Some m \<Rightarrow> str_unless_empty ''native_finish_reason'' (om_native_finish_reason m) | None \<Rightarrow> [])
           @ optional ''logprobs'' (ev_logprobs ev) @ optional ''content_filter_results'' (ev_content_filter ev)
      else optional ''logprobs'' (ev_logprobs ev))"

definition openai_finish_chunk :: "unified_event \<Rightarrow> openai_meta option \<Rightarrow> jobj" where
  "openai_finish_chunk ev meta =
     (if ev_type ev = EventTypeFinish
      then optional ''usage'' (map_option (\<lambda>u. JObj (build_usage_map u meta)) (ev_usage ev))
           @ optional ''grounding_metadata'' (map_option build_openai_grounding_metadata (ev_grounding ev))
      else [])"

definition to_openai_chunk_meta ::
    "(jval \<Rightarrow> string) \<Rightarrow> int \<Rightarrow> unified_event \<Rightarrow> string \<Rightarrow> string \<Rightarrow> int \<Rightarrow> openai_meta option \<Rightarrow> chunk_result" where
  "to_openai_chunk_meta marshal now ev model mid ci meta =
     (let rid = (case meta of Some m \<Rightarrow> if om_response_id m \<noteq> [] then om_response_id m else mid | None \<Rightarrow> mid);
          cr = (case meta of Some m \<Rightarrow> if 0 < om_create_time m then om_create_time m else now | None \<Rightarrow> now);
          slow = Inr (Some (build_sse_chunk (marshal (JObj (
                   [(''id'', JStr rid), (''object'', JStr ''chat.completion.chunk''), (''created'', jint cr), (''model'', JStr model)]
                   @ str_unless_empty ''system_fingerprint'' (ev_system_fingerprint ev) @ openai_finish_chunk ev meta
                   @ [(''choices'', JArr [JObj ([(''index'', jint 0), (''delta'', JObj (openai_delta ev))] @ openai_finish_choice ev meta)])])))))
      in case ev_type ev of
           EventTypeStreamMeta \<Rightarrow> Inr None
         | EventTypeToken \<Rightarrow>
             (if ev_content ev \<noteq> [] \<and> ev_refusal ev = [] \<and> ev_logprobs ev = None \<and> ev_system_fingerprint ev = []
              then Inr (Some (build_openai_text_delta_sse marshal new_text_delta rid model cr (ev_content ev))) else slow)
         | EventTypeReasoning \<Rightarrow>
             (if ev_reasoning ev \<noteq> []
              then Inr (Some (build_openai_reasoning_delta_sse marshal new_reasoning_delta rid model cr (ev_reasoning ev) (ev_signature ev)))
              else slow)
         | EventTypeToolCall \<Rightarrow>
             (case ev_tool_call ev of
                Some tc \<Rightarrow> Inr (Some (build_openai_tool_call_delta_sse marshal new_tool_call_delta rid model cr ci (tc_id tc) (tc_name tc)
                  (tc_args tc) (if ev_signature ev = [] then tc_signature tc else ev_signature ev)))
              | None \<Rightarrow> slow)
         | EventTypeToolCallDelta \<Rightarrow>
             (case ev_tool_call ev of
                Some tc \<Rightarrow> Inr (Some (build_openai_tool_call_args_delta_sse marshal new_tool_call_delta rid model cr ci (tc_args tc)))
              | None \<Rightarrow> slow)
         | EventTypeError \<Rightarrow> Inl (''stream error: '' @ error_message ev)
         | _ \<Rightarrow> slow)"

definition to_openai_chunk ::
    "(jval \<Rightarrow> string) \<Rightarrow> int \<Rightarrow> unified_event \<Rightarrow> string \<Rightarrow> string \<Rightarrow> int \<Rightarrow> chunk_result" where
  "to_openai_chunk marshal now ev model mid ci = to_openai_chunk_meta marshal now ev model mid ci None"

section \<open>Gemini\<close>

text \<open>
  The arguments of a call as JSON: what cannot be read becomes a text. \<open>parse\<close> is the library's
  decoder.
\<close>

definition args_as_raw :: "(string \<Rightarrow> jval option) \<Rightarrow> string \<Rightarrow> jval" where
  "args_as_raw parse args =
     (let t = trim_space args
      in if t = [] \<or> t = ''{}'' then JObj [] else case parse t of None \<Rightarrow> JStr t | Some v \<Rightarrow> v)"

definition gemini_source :: "grounding_chunk \<Rightarrow> jval option" where
  "gemini_source c = map_option (\<lambda>w. JObj [(''web'', JObj ([(''uri'', JStr (wg_uri w)), (''title'', JStr (wg_title w))]
     @ str_unless_empty ''domain'' (wg_domain w)))]) (gc_web c)"

definition gemini_support :: "grounding_support \<Rightarrow> jval" where
  "gemini_support s = JObj ((case gu_segment s of
       Some g \<Rightarrow> [(''segment'', JObj ([(''text'', JStr (gs_text g))] @ positive ''startIndex'' (gs_start_index g)
                    @ positive ''endIndex'' (gs_end_index g)))]
     | None \<Rightarrow> [])
     @ (if gu_chunk_indices s = [] then [] else [(''groundingChunkIndices'', ints (gu_chunk_indices s))]))"

definition build_grounding_metadata_map :: "grounding_metadata \<Rightarrow> jval" where
  "build_grounding_metadata_map gm = JObj (
     (if gm_web_queries gm = [] then [] else [(''webSearchQueries'', strings (gm_web_queries gm))])
     @ (case gm_search_entry gm of
          Some r \<Rightarrow> if r = [] then [] else [(''searchEntryPoint'', JObj [(''renderedContent'', JStr r)])]
        | None \<Rightarrow> [])
     @ (if gm_chunks gm = [] then []
        else let cs = List.map_filter gemini_source (gm_chunks gm)
             in [(''groundingChunks'', if cs = [] then JNull else JArr cs)])
     @ (if gm_supports gm = [] then [] else [(''groundingSupports'', JArr (List.map gemini_support (gm_supports gm)))])
     @ [(''retrievalMetadata'', JObj [])])"

text \<open>A zero-width space stands for an empty text.\<close>

definition visible :: "string \<Rightarrow> string" where
  "visible t = (if t = [] then [CHR 0xE2, CHR 0x80, CHR 0x8B] else t)"

definition gemini_parts :: "(string \<Rightarrow> jval option) \<Rightarrow> unified_event \<Rightarrow> jval list" where
  "gemini_parts parse ev =
     (case ev_type ev of
        EventTypeToken \<Rightarrow> [JObj [(''text'', JStr (visible (ev_content ev)))]]
      | EventTypeReasoning \<Rightarrow> [JObj ([(''text'', JStr (visible (ev_reasoning ev))), (''thought'', JBool True)]
                                    @ str_unless_empty ''thoughtSignature'' (ev_signature ev))]
      | EventTypeToolCall \<Rightarrow>
          (case ev_tool_call ev of
             Some tc \<Rightarrow> [JObj ([(''functionCall'', JObj [(''name'', JStr (tc_name tc)), (''args'', args_as_raw parse (tc_args tc))])]
               @ str_unless_empty ''thoughtSignature'' (if ev_signature ev \<noteq> [] then ev_signature ev else tc_signature tc))]
           | None \<Rightarrow> [])
      | EventTypeImage \<Rightarrow>
          (case ev_image ev of
             Some im \<Rightarrow> [JObj [(''inlineData'', JObj [(''mimeType'', JStr (im_mime_type im)), (''data'', JStr (im_data im))])]]
           | None \<Rightarrow> [])
      | EventTypeCodeExecution \<Rightarrow>
          (case ev_code_execution ev of
             Some ec \<Rightarrow>
               if ce_code ec \<noteq> []
               then [JObj [(''executableCode'', JObj [(''language'', JStr (ce_language ec)), (''code'', JStr (ce_code ec))])]]
               else [JObj [(''codeExecutionResult'', JObj [(''outcome'', JStr (ce_outcome ec)), (''output'', JStr (ce_output ec))])]]
           | None \<Rightarrow> [])
      | _ \<Rightarrow> [])"

definition gemini_usage :: "usage \<Rightarrow> jval" where
  "gemini_usage u = JObj ([(''promptTokenCount'', jint (us_prompt u)), (''candidatesTokenCount'', jint (us_completion u)),
       (''totalTokenCount'', jint (us_total u))]
     @ positive ''thoughtsTokenCount'' (us_thoughts u)
     @ (case us_prompt_details u of Some d \<Rightarrow> positive ''cachedContentTokenCount'' (pd_cached d) | None \<Rightarrow> [])
     @ positive ''toolUsePromptTokenCount'' (us_tool_use_prompt u))"

definition to_gemini_chunk ::
    "(jval \<Rightarrow> string option) \<Rightarrow> (string \<Rightarrow> jval option) \<Rightarrow> unified_event \<Rightarrow> string \<Rightarrow> chunk_result" where
  "to_gemini_chunk encode parse ev model =
     (if ev_type ev = EventTypeStreamMeta then Inr None
      else if ev_type ev = EventTypeError then Inl (''stream error: '' @ error_message ev)
      else
        let finish = (ev_type ev = EventTypeFinish);
            candidate = JObj ([(''content'', JObj [(''role'', JStr ''model''), (''parts'', JArr (gemini_parts parse ev))])]
              @ (if finish then [(''finishReason'', JStr ''STOP'')]
                   @ optional ''groundingMetadata'' (map_option build_grounding_metadata_map (ev_grounding ev)) else []));
            chunk = JObj ([(''candidates'', JArr [candidate]), (''modelVersion'', JStr model)]
              @ (if finish then optional ''usageMetadata'' (map_option gemini_usage (ev_usage ev)) else []))
        in case encode chunk of
             None \<Rightarrow> Inl ''marshal error''
           | Some s \<Rightarrow> Inr (Some (s @ [CHR 0x0A])))"

section \<open>Ollama\<close>

record ollama_tool_call =
  ot_id :: string
  ot_type :: string
  ot_name :: string
  ot_arguments :: string

record ollama_chat_chunk =
  oc_model :: string
  oc_created_at :: string
  oc_done :: bool
  oc_role :: string
  oc_content :: string
  oc_thinking :: string
  oc_tool_calls :: "ollama_tool_call list"
  oc_done_reason :: string
  oc_prompt_eval_count :: int
  oc_eval_count :: int
  oc_durations :: "int \<times> int \<times> int \<times> int"

definition new_ollama_chat_chunk :: ollama_chat_chunk where
  "new_ollama_chat_chunk = \<lparr>oc_model = [], oc_created_at = [], oc_done = False, oc_role = ''assistant'', oc_content = [],
     oc_thinking = [], oc_tool_calls = [], oc_done_reason = [], oc_prompt_eval_count = 0, oc_eval_count = 0,
     oc_durations = (0, 0, 0, 0)\<rparr>"

definition put_ollama_chat_chunk :: "ollama_chat_chunk \<Rightarrow> ollama_chat_chunk" where
  "put_ollama_chat_chunk c = c\<lparr>oc_model := [], oc_created_at := [], oc_done := False, oc_done_reason := [], oc_content := [],
     oc_thinking := [], oc_tool_calls := [], oc_prompt_eval_count := 0, oc_eval_count := 0, oc_durations := (0, 0, 0, 0)\<rparr>"

definition int_unless_zero :: "string \<Rightarrow> int \<Rightarrow> jobj" where
  "int_unless_zero k n = (if n = 0 then [] else [(k, jint n)])"

definition ollama_counts :: "string \<Rightarrow> int \<Rightarrow> int \<Rightarrow> int \<times> int \<times> int \<times> int \<Rightarrow> jobj" where
  "ollama_counts reason p e ds = (case ds of (t, l, pd, ed) \<Rightarrow>
     str_unless_empty ''done_reason'' reason @ int_unless_zero ''prompt_eval_count'' p @ int_unless_zero ''eval_count'' e
     @ int_unless_zero ''total_duration'' t @ int_unless_zero ''load_duration'' l @ int_unless_zero ''prompt_eval_duration'' pd
     @ int_unless_zero ''eval_duration'' ed)"

definition ollama_tool_call_json :: "ollama_tool_call \<Rightarrow> jval" where
  "ollama_tool_call_json t = JObj [(''id'', JStr (ot_id t)), (''type'', JStr (ot_type t)),
     (''function'', JObj [(''name'', JStr (ot_name t)), (''arguments'', JStr (ot_arguments t))])]"

definition ollama_chat_chunk_json :: "ollama_chat_chunk \<Rightarrow> jval" where
  "ollama_chat_chunk_json c = JObj ([(''model'', JStr (oc_model c)), (''created_at'', JStr (oc_created_at c)), (''done'', JBool (oc_done c)),
     (''message'', JObj ([(''role'', JStr (oc_role c)), (''content'', JStr (oc_content c))] @ str_unless_empty ''thinking'' (oc_thinking c)
        @ (if oc_tool_calls c = [] then [] else [(''tool_calls'', JArr (List.map ollama_tool_call_json (oc_tool_calls c)))])))]
     @ ollama_counts (oc_done_reason c) (oc_prompt_eval_count c) (oc_eval_count c) (oc_durations c))"

definition map_finish_reason_to_ollama :: "finish_reason option \<Rightarrow> string" where
  "map_finish_reason_to_ollama r =
     (if r = Some FinishReasonMaxTokens then ''length'' else if r = Some FinishReasonToolCalls then ''tool_calls'' else ''stop'')"

definition fill_ollama_chat_chunk :: "unified_event \<Rightarrow> string \<Rightarrow> string \<Rightarrow> ollama_chat_chunk \<Rightarrow> ollama_chat_chunk" where
  "fill_ollama_chat_chunk ev model now c0 =
     (let c = c0\<lparr>oc_model := model, oc_created_at := now\<rparr>
      in case ev_type ev of
           EventTypeToken \<Rightarrow> c\<lparr>oc_content := ev_content ev\<rparr>
         | EventTypeReasoning \<Rightarrow> c\<lparr>oc_thinking := ev_reasoning ev\<rparr>
         | EventTypeToolCall \<Rightarrow>
             (case ev_tool_call ev of
                Some tc \<Rightarrow> c\<lparr>oc_tool_calls := [\<lparr>ot_id = tc_id tc, ot_type = ''function'', ot_name = tc_name tc, ot_arguments = tc_args tc\<rparr>]\<rparr>
              | None \<Rightarrow> c)
         | EventTypeFinish \<Rightarrow>
             (let c = c\<lparr>oc_done := True, oc_done_reason := map_finish_reason_to_ollama (ev_finish_reason ev)\<rparr>
              in case ev_usage ev of
                   Some u \<Rightarrow> c\<lparr>oc_prompt_eval_count := us_prompt u, oc_eval_count := us_completion u\<rparr>
                 | None \<Rightarrow> c)
         | _ \<Rightarrow> c)"

definition to_ollama_chat_chunk :: "(jval \<Rightarrow> string) \<Rightarrow> string \<Rightarrow> ollama_chat_chunk \<Rightarrow> unified_event \<Rightarrow> string \<Rightarrow> chunk_result" where
  "to_ollama_chat_chunk marshal now c ev model =
     (if ev_type ev = EventTypeStreamMeta then Inr None
      else if ev_type ev = EventTypeError then Inl (''stream error: '' @ error_message ev)
      else Inr (Some (marshal (ollama_chat_chunk_json (fill_ollama_chat_chunk ev model now c)) @ [CHR 0x0A])))"

interpretation ollama_pool: struct_pool new_ollama_chat_chunk "\<lambda>d. d" put_ollama_chat_chunk
    "\<lambda>(ev, model, now). fill_ollama_chat_chunk ev model now"
  by unfold_locales
    (auto simp: new_ollama_chat_chunk_def put_ollama_chat_chunk_def fill_ollama_chat_chunk_def Let_def
      split: event_type.splits option.splits)

record ollama_generate_chunk =
  og_model :: string
  og_created_at :: string
  og_done :: bool
  og_response :: string
  og_thinking :: string
  og_done_reason :: string
  og_prompt_eval_count :: int
  og_eval_count :: int
  og_durations :: "int \<times> int \<times> int \<times> int"

definition new_ollama_generate_chunk :: ollama_generate_chunk where
  "new_ollama_generate_chunk = \<lparr>og_model = [], og_created_at = [], og_done = False, og_response = [], og_thinking = [],
     og_done_reason = [], og_prompt_eval_count = 0, og_eval_count = 0, og_durations = (0, 0, 0, 0)\<rparr>"

definition put_ollama_generate_chunk :: "ollama_generate_chunk \<Rightarrow> ollama_generate_chunk" where
  "put_ollama_generate_chunk c = c\<lparr>og_model := [], og_created_at := [], og_done := False, og_response := [], og_thinking := [],
     og_done_reason := [], og_prompt_eval_count := 0, og_eval_count := 0, og_durations := (0, 0, 0, 0)\<rparr>"

definition ollama_generate_chunk_json :: "ollama_generate_chunk \<Rightarrow> jval" where
  "ollama_generate_chunk_json c = JObj ([(''model'', JStr (og_model c)), (''created_at'', JStr (og_created_at c)), (''done'', JBool (og_done c)),
     (''response'', JStr (og_response c))] @ str_unless_empty ''thinking'' (og_thinking c)
     @ ollama_counts (og_done_reason c) (og_prompt_eval_count c) (og_eval_count c) (og_durations c))"

definition fill_ollama_generate_chunk :: "unified_event \<Rightarrow> string \<Rightarrow> string \<Rightarrow> ollama_generate_chunk \<Rightarrow> ollama_generate_chunk" where
  "fill_ollama_generate_chunk ev model now c0 =
     (let c = c0\<lparr>og_model := model, og_created_at := now\<rparr>
      in case ev_type ev of
           EventTypeToken \<Rightarrow> c\<lparr>og_response := ev_content ev\<rparr>
         | EventTypeReasoning \<Rightarrow> c\<lparr>og_thinking := ev_reasoning ev\<rparr>
         | EventTypeFinish \<Rightarrow>
             (let c = c\<lparr>og_done := True, og_done_reason := map_finish_reason_to_ollama (ev_finish_reason ev)\<rparr>
              in case ev_usage ev of
                   Some u \<Rightarrow> c\<lparr>og_prompt_eval_count := us_prompt u, og_eval_count := us_completion u\<rparr>
                 | None \<Rightarrow> c)
         | _ \<Rightarrow> c)"

definition to_ollama_generate_chunk ::
    "(jval \<Rightarrow> string) \<Rightarrow> string \<Rightarrow> ollama_generate_chunk \<Rightarrow> unified_event \<Rightarrow> string \<Rightarrow> chunk_result" where
  "to_ollama_generate_chunk marshal now c ev model =
     (if ev_type ev = EventTypeStreamMeta then Inr None
      else if ev_type ev = EventTypeError then Inl (''stream error: '' @ error_message ev)
      else Inr (Some (marshal (ollama_generate_chunk_json (fill_ollama_generate_chunk ev model now c)) @ [CHR 0x0A])))"

interpretation ollama_generate_pool: struct_pool new_ollama_generate_chunk "\<lambda>d. d" put_ollama_generate_chunk
    "\<lambda>(ev, model, now). fill_ollama_generate_chunk ev model now"
  by unfold_locales
    (auto simp: new_ollama_generate_chunk_def put_ollama_generate_chunk_def fill_ollama_generate_chunk_def Let_def
      split: event_type.splits option.splits)

end
