(* ===== verification/StreamTranslator.thy ===== *)
theory StreamTranslator
  imports ClaudeSse StreamChunks
begin

text \<open>
  The translation of a stream from events to the chunks that a client reads
  (\<open>internal/runtime/executor/stream/translator.go\<close>, \<open>buffer.go\<close>, the line processor of
  \<open>providers/claude.go\<close>). Events are referred to by their position in a store, as in theory
  ClaudeParser, because the translator changes the event that ends a stream.
\<close>

section \<open>Buffers of chunks\<close>

text \<open>\<open>PassthroughBuffer\<close>: the flag says that the finish went through. A nil chunk is \<open>None\<close>.\<close>

definition passthrough_process :: "string option \<Rightarrow> bool \<Rightarrow> bool \<Rightarrow> string list \<times> bool" where
  "passthrough_process chunk is_finish finished =
     (if finished then ([], True)
      else (case chunk of Some c \<Rightarrow> [c] | None \<Rightarrow> [], is_finish))"

text \<open>\<open>DelayOneBuffer\<close> keeps the last chunk, so that the finish can be merged into it.\<close>

record 'e delay_one =
  do_pending :: string
  do_pending_finish :: "'e option"
  do_finished :: bool

definition new_delay_one :: "'e delay_one" where
  "new_delay_one = \<lparr>do_pending = [], do_pending_finish = None, do_finished = False\<rparr>"

definition delay_one_process ::
    "(string \<Rightarrow> 'e \<Rightarrow> string option) \<Rightarrow> string option \<Rightarrow> 'e option \<Rightarrow> 'e delay_one \<Rightarrow> string list \<times> 'e delay_one" where
  "delay_one_process merge chunk finish d =
     (if do_finished d then ([], d)
      else case finish of
        Some f \<Rightarrow>
          if do_pending d \<noteq> []
          then (case merge (do_pending d) f of Some m \<Rightarrow> [m] | None \<Rightarrow> [],
                d\<lparr>do_pending := [], do_pending_finish := None, do_finished := True\<rparr>)
          else ([], d\<lparr>do_pending_finish := Some f, do_finished := True\<rparr>)
      | None \<Rightarrow>
          (case chunk of
             Some c \<Rightarrow> (if do_pending d \<noteq> [] then [do_pending d] else [], d\<lparr>do_pending := c\<rparr>)
           | None \<Rightarrow> ([], d)))"

definition delay_one_flush :: "(string \<Rightarrow> 'e \<Rightarrow> string option) \<Rightarrow> 'e delay_one \<Rightarrow> string list \<times> 'e delay_one" where
  "delay_one_flush merge d =
     (if do_finished d \<or> do_pending d = [] then ([], d)
      else case do_pending_finish d of
        Some f \<Rightarrow> ([case merge (do_pending d) f of Some m \<Rightarrow> m | None \<Rightarrow> do_pending d],
                   d\<lparr>do_pending := [], do_pending_finish := None, do_finished := True\<rparr>)
      | None \<Rightarrow> ([do_pending d], d\<lparr>do_pending := []\<rparr>))"

definition map_finish_reason_to_gemini :: "finish_reason option \<Rightarrow> string" where
  "map_finish_reason_to_gemini r =
     (case r of
        Some FinishReasonMaxTokens \<Rightarrow> ''MAX_TOKENS''
      | Some FinishReasonContentFilter \<Rightarrow> ''SAFETY''
      | Some FinishReasonRecitation \<Rightarrow> ''RECITATION''
      | Some FinishReasonBlocklist \<Rightarrow> ''BLOCKLIST''
      | Some FinishReasonProhibitedContent \<Rightarrow> ''PROHIBITED_CONTENT''
      | Some FinishReasonSPII \<Rightarrow> ''SPII''
      | _ \<Rightarrow> ''STOP'')"

text \<open>\<open>set_field\<close> is the library's \<open>sjson.SetBytes\<close>.\<close>

definition merge_usage :: "usage \<Rightarrow> jval" where
  "merge_usage u = JObj ([(''promptTokenCount'', jint (us_prompt u)), (''candidatesTokenCount'', jint (us_completion u)),
       (''totalTokenCount'', jint (us_total u))]
     @ positive ''thoughtsTokenCount'' (us_thoughts u)
     @ (case us_prompt_details u of Some d \<Rightarrow> positive ''cachedContentTokenCount'' (pd_cached d) | None \<Rightarrow> []))"

definition merge_gemini_finish_chunk ::
    "(string \<Rightarrow> string \<Rightarrow> jval \<Rightarrow> string option) \<Rightarrow> string \<Rightarrow> unified_event \<Rightarrow> string option" where
  "merge_gemini_finish_chunk set_field chunk ev =
     (let c = (if chunk \<noteq> [] \<and> last chunk = CHR 0x0A then butlast chunk else chunk)
      in case set_field c ''candidates.0.finishReason'' (JStr (map_finish_reason_to_gemini (ev_finish_reason ev))) of
           None \<Rightarrow> None
         | Some r \<Rightarrow>
             (case ev_usage ev of
                None \<Rightarrow> Some (r @ [CHR 0x0A])
              | Some u \<Rightarrow> map_option (\<lambda>r. r @ [CHR 0x0A]) (set_field r ''usageMetadata'' (merge_usage u))))"

section \<open>The translator\<close>

text \<open>\<open>GeminiStreamParserState\<close> (\<open>ir/gemini_state.go\<close>).\<close>

record gemini_parser =
  gp_pending :: "nat option"
  gp_input_tokens :: int
  gp_cache_tokens :: int

definition new_gemini_parser :: gemini_parser where
  "new_gemini_parser = \<lparr>gp_pending = None, gp_input_tokens = 0, gp_cache_tokens = 0\<rparr>"

record stream_translator =
  st_to :: string
  st_model :: string
  st_message_id :: string
  st_claude :: claude_stream_state
  st_gemini :: gemini_parser
  st_tool_call_index :: int
  st_has_tool_calls :: bool
  st_finish_sent :: bool
  st_reasoning_chars :: int
  st_meta_sent :: bool
  st_buffer_finished :: bool

definition new_stream_translator :: "string \<Rightarrow> string \<Rightarrow> string \<Rightarrow> stream_translator" where
  "new_stream_translator to model mid = \<lparr>st_to = to, st_model = model, st_message_id = mid, st_claude = new_claude_stream_state,
     st_gemini = new_gemini_parser, st_tool_call_index = 0, st_has_tool_calls = False, st_finish_sent = False,
     st_reasoning_chars = 0, st_meta_sent = False, st_buffer_finished = False\<rparr>"

text \<open>The encoder, which may fail, the decoder and the clock.\<close>

record codec =
  co_encode :: "jval \<Rightarrow> string option"
  co_decode :: "string \<Rightarrow> jval option"
  co_unix :: int
  co_time :: string

definition co_marshal :: "codec \<Rightarrow> jval \<Rightarrow> string" where
  "co_marshal c v = (case co_encode c v of Some s \<Rightarrow> s | None \<Rightarrow> [])"

definition convert_event :: "codec \<Rightarrow> unified_event \<Rightarrow> stream_translator \<Rightarrow> chunk_result \<times> stream_translator" where
  "convert_event C ev t =
     (if st_to t = ''openai'' \<or> st_to t = ''cline'' then
        let n = st_tool_call_index t;
            idx = (if ev_type ev = EventTypeToolCall then n
                   else if ev_type ev = EventTypeToolCallDelta \<and> 0 < n then n - 1 else 0);
            t' = (if ev_type ev = EventTypeToolCall then t\<lparr>st_tool_call_index := n + 1\<rparr> else t)
        in (to_openai_chunk (co_marshal C) (co_unix C) ev (st_model t) (st_message_id t) idx, t')
      else if st_to t = ''claude'' then
        let (out, s) = to_claude_sse ev (Some (st_claude t))
        in (Inr (claude_chunk (co_marshal C) out), t\<lparr>st_claude := (case s of Some s \<Rightarrow> s | None \<Rightarrow> st_claude t)\<rparr>)
      else if st_to t = ''gemini'' \<or> st_to t = ''gemini-cli''
      then (to_gemini_chunk (co_encode C) (co_decode C) ev (st_model t), t)
      else if st_to t = ''ollama''
      then (to_ollama_chat_chunk (co_marshal C) (co_time C) new_ollama_chat_chunk ev (st_model t), t)
      else (Inr None, t))"

definition convert_and_buffer ::
    "codec \<Rightarrow> unified_event \<Rightarrow> stream_translator \<Rightarrow> (string + string list) \<times> stream_translator" where
  "convert_and_buffer C ev t =
     (case convert_event C ev t of
        (Inl e, t) \<Rightarrow> (Inl e, t)
      | (Inr chunk, t) \<Rightarrow>
          if chunk \<noteq> None \<or> ev_type ev = EventTypeFinish
          then let (out, b) = passthrough_process chunk (ev_type ev = EventTypeFinish) (st_buffer_finished t)
               in (Inr out, t\<lparr>st_buffer_finished := b\<rparr>)
          else (Inr [], t))"

definition estimate_reasoning_tokens :: "stream_translator \<Rightarrow> int" where
  "estimate_reasoning_tokens t = int32_of (st_reasoning_chars t div 3)"

text \<open>The event that ends the stream, as the translator changes it.\<close>

definition finish_event_for :: "stream_translator \<Rightarrow> unified_event \<Rightarrow> unified_event" where
  "finish_event_for t ev =
     (let ev = (if st_has_tool_calls t then ev\<lparr>ev_finish_reason := Some FinishReasonToolCalls\<rparr> else ev);
          u = (case ev_usage ev of Some u \<Rightarrow> u | None \<Rightarrow> no_usage)
      in if st_reasoning_chars t \<le> 0 then ev
         else ev\<lparr>ev_usage := Some (if us_thoughts u = 0 then u\<lparr>us_thoughts := estimate_reasoning_tokens t\<rparr> else u)\<rparr>)"

text \<open>The flag says whether the event is skipped.\<close>

definition preprocess :: "unified_event \<Rightarrow> stream_translator \<Rightarrow> bool \<times> unified_event \<times> stream_translator" where
  "preprocess ev t0 =
     (let t = t0\<lparr>st_has_tool_calls := st_has_tool_calls t0 \<or> ev_type ev = EventTypeToolCall,
            st_reasoning_chars := st_reasoning_chars t0
              + (if ev_type ev = EventTypeReasoning then int (length (ev_reasoning ev))
                 else if ev_type ev = EventTypeReasoningSummary then int (length (ev_reasoning_summary ev)) else 0)\<rparr>
      in if ev_type ev \<noteq> EventTypeFinish then (False, ev, t)
         else if st_finish_sent t then (True, ev, t)
         else (False, finish_event_for t ev, t\<lparr>st_finish_sent := True\<rparr>))"

text \<open>The events one after the other, with the store; an error ends the loop.\<close>

fun translate_events ::
    "codec \<Rightarrow> nat list \<Rightarrow> event_store \<Rightarrow> stream_translator \<Rightarrow> string list \<Rightarrow> (string + string list) \<times> event_store \<times> stream_translator" where
  "translate_events C [] h t acc = (Inr acc, h, t)"
| "translate_events C (e # es) h t acc =
     (let (skip, ev, t) = preprocess (h ! e) t; h = h[e := ev]
      in if skip then translate_events C es h t acc
         else case convert_and_buffer C ev t of
           (Inl err, t) \<Rightarrow> (Inl err, h, t)
         | (Inr out, t) \<Rightarrow> translate_events C es h t (acc @ out))"

definition extract_usage_from_events :: "unified_event list \<Rightarrow> usage option" where
  "extract_usage_from_events evs = fold (\<lambda>e u. if ev_usage e = None then u else ev_usage e) evs None"

definition meta_event :: "stream_translator \<Rightarrow> unified_event" where
  "meta_event t =
     (let known = 0 < gp_input_tokens (st_gemini t)
      in (new_event EventTypeStreamMeta)\<lparr>ev_stream_meta := Some \<lparr>sm_message_id = st_message_id t, sm_model = st_model t,
           sm_input_tokens = (if known then gp_input_tokens (st_gemini t) else 0),
           sm_cache_tokens = (if known then gp_cache_tokens (st_gemini t) else 0)\<rparr>\<rparr>)"

text \<open>The chunks with the usage of the events, or an error.\<close>

definition translate ::
    "codec \<Rightarrow> nat list \<Rightarrow> event_store \<Rightarrow> stream_translator \<Rightarrow> (string + string list \<times> usage option) \<times> event_store \<times> stream_translator" where
  "translate C es h t =
     (let (first, t) = (if st_meta_sent t \<or> es = [] then (Inr None, t)
                        else convert_event C (meta_event t) (t\<lparr>st_meta_sent := True\<rparr>))
      in case first of
           Inl err \<Rightarrow> (Inl err, h, t)
         | Inr chunk \<Rightarrow>
             (case translate_events C es h t (case chunk of Some c \<Rightarrow> [c] | None \<Rightarrow> []) of
                (Inl err, h, t) \<Rightarrow> (Inl err, h, t)
              | (Inr out, h, t) \<Rightarrow> (Inr (out, extract_usage_from_events (List.map (\<lambda>e. h ! e) es)), h, t)))"

definition finalize_parser :: "stream_translator \<Rightarrow> nat option \<times> stream_translator" where
  "finalize_parser t =
     (case cs_parser (st_claude t) of
        None \<Rightarrow> (None, t)
      | Some p \<Rightarrow> let (e, p) = parser_finalize p in (e, t\<lparr>st_claude := (st_claude t)\<lparr>cs_parser := Some p\<rparr>\<rparr>))"

definition translator_flush :: "codec \<Rightarrow> event_store \<Rightarrow> stream_translator \<Rightarrow> (string + string list) \<times> stream_translator" where
  "translator_flush C h t =
     (let (e, t) = finalize_parser t;
          (r, t) = (case e of None \<Rightarrow> (Inr [], t) | Some e \<Rightarrow> convert_and_buffer C (h ! e) t)
      in case r of
           Inl err \<Rightarrow> (Inl err, t)
         | Inr out \<Rightarrow> (Inr out, t\<lparr>st_gemini := (st_gemini t)\<lparr>gp_pending := None\<rparr>\<rparr>))"

section \<open>Lines of Claude's stream\<close>

definition claude_process_line ::
    "codec \<Rightarrow> 'j gjson \<Rightarrow> string \<Rightarrow> event_store \<Rightarrow> stream_translator
     \<Rightarrow> (string + string list \<times> usage option) \<times> event_store \<times> stream_translator" where
  "claude_process_line C J line h t =
     (let (es, p, h) = parse_claude_chunk J line (cs_parser (st_claude t)) h;
          t = t\<lparr>st_claude := (st_claude t)\<lparr>cs_parser := p\<rparr>\<rparr>
      in if es = [] then (Inr ([], None), h, t) else translate C es h t)"

text \<open>
  The lines of a stream and its end, when the lines are read one after the other. The chunks of all
  lines are put together.
\<close>

fun claude_process_lines ::
    "codec \<Rightarrow> 'j gjson \<Rightarrow> string list \<Rightarrow> event_store \<Rightarrow> stream_translator \<Rightarrow> (string + string list) \<times> event_store \<times> stream_translator" where
  "claude_process_lines C J [] h t =
     (case translator_flush C h t of (r, t) \<Rightarrow> (r, h, t))"
| "claude_process_lines C J (l # ls) h t =
     (case claude_process_line C J l h t of
        (Inl err, h, t) \<Rightarrow> (Inl err, h, t)
      | (Inr (out, _), h, t) \<Rightarrow>
          (case claude_process_lines C J ls h t of
             (Inr rest, h, t) \<Rightarrow> (Inr (out @ rest), h, t)
           | (Inl err, h, t) \<Rightarrow> (Inl err, h, t)))"

section \<open>Lemmas\<close>

definition texts_of :: "codec \<Rightarrow> sse list \<Rightarrow> string" where
  "texts_of C out = concat (List.map (render (co_marshal C)) out)"

lemma texts_of_append: "texts_of C (a @ b) = texts_of C a @ texts_of C b"
  and texts_of_Cons: "texts_of C (e # a) = texts_of C [e] @ texts_of C a"
  by (simp_all add: texts_of_def)

text \<open>
  What is known of the translator for a client of Claude's format that has been sent \<open>out\<close>: before
  the first event it is new, and then the client's phase is that of the state until the finish.
\<close>

definition client_in_step :: "sse list \<Rightarrow> stream_translator \<Rightarrow> bool" where
  "client_in_step out t \<longleftrightarrow> st_to t = ''claude''
     \<and> (if st_meta_sent t
        then cs_start_sent (st_claude t)
          \<and> (if st_buffer_finished t then advances out Unstarted = Some Stopped
             else \<not> cs_finish_sent (st_claude t) \<and> advances out Unstarted = Some (phase_of (st_claude t)))
        else out = [] \<and> \<not> cs_start_sent (st_claude t) \<and> phase_of (st_claude t) = Between 0 \<and> \<not> cs_finish_sent (st_claude t)
          \<and> \<not> st_buffer_finished t)"

lemma preprocess_keeps:
  "preprocess ev t = (skip, ev', t') \<Longrightarrow>
     st_to t' = st_to t \<and> st_meta_sent t' = st_meta_sent t \<and> st_claude t' = st_claude t
     \<and> st_buffer_finished t' = st_buffer_finished t \<and> ev_type ev' = ev_type ev"
  by (auto simp: preprocess_def finish_event_for_def Let_def split: if_splits)

lemma to_claude_sse_some: "\<exists>out r. to_claude_sse e (Some s) = (out, Some r) \<and> (cs_start_sent s \<longrightarrow> cs_start_sent r)"
  by (cases "ev_type e") (auto simp: to_claude_sse_def emit_text_delta_def emit_redacted_thinking_delta_def emit_thinking_delta_def
      emit_tool_call_def emit_finish_def switch_block_def close_block_def Let_def split_beta split: option.splits)

lemma convert_and_buffer_in_step:
  assumes "client_in_step out t" "st_meta_sent t"
  shows "\<exists>new t'. convert_and_buffer C ev t = (Inr new, t') \<and> st_meta_sent t'
    \<and> (\<exists>more. concat new = texts_of C more \<and> client_in_step (out @ more) t')"
proof -
  obtain o1 r where step: "to_claude_sse ev (Some (st_claude t)) = (o1, Some r)"
    and started: "cs_start_sent (st_claude t) \<longrightarrow> cs_start_sent r" using to_claude_sse_some by blast
  have claude: "st_to t = ''claude''" "cs_start_sent (st_claude t)" using assms by (auto simp: client_in_step_def)
  let ?t = "t\<lparr>st_claude := r\<rparr>"
  have conv: "convert_event C ev t = (Inr (claude_chunk (co_marshal C) o1), ?t)"
    using step claude(1) by (simp add: convert_event_def)
  show ?thesis
  proof (cases "st_buffer_finished t")
    case True
    then have "client_in_step (out @ []) ?t" using assms started claude(2) by (auto simp: client_in_step_def)
    moreover have "convert_and_buffer C ev t = (Inr [], ?t\<lparr>st_buffer_finished := True\<rparr>) \<or> convert_and_buffer C ev t = (Inr [], ?t)"
      using conv True by (auto simp: convert_and_buffer_def passthrough_process_def)
    moreover have "?t\<lparr>st_buffer_finished := True\<rparr> = ?t" using True by simp
    ultimately show ?thesis using assms(2) by (auto simp: texts_of_def intro!: exI[of _ "[]"])
  next
    case False
    then have run: "\<not> cs_finish_sent (st_claude t)" "advances out Unstarted = Some (phase_of (st_claude t))"
      using assms by (auto simp: client_in_step_def)
    obtain adv: "advances o1 (phase_of (st_claude t)) = Some (phase_of r)"
      and fin: "cs_finish_sent r \<longleftrightarrow> ev_type ev = EventTypeFinish"
      using to_claude_sse_advances[OF step claude(2)] run(1) by auto
    let ?b = "ev_type ev = EventTypeFinish"
    let ?new = "case claude_chunk (co_marshal C) o1 of Some c \<Rightarrow> [c] | None \<Rightarrow> []"
    have "convert_and_buffer C ev t = (Inr ?new, ?t\<lparr>st_buffer_finished := ?b\<rparr>)"
      using conv False by (auto simp: convert_and_buffer_def passthrough_process_def split: option.splits)
    moreover have "concat ?new = texts_of C o1" by (simp add: claude_chunk_def texts_of_def)
    moreover have "client_in_step (out @ o1) (?t\<lparr>st_buffer_finished := ?b\<rparr>)"
      using assms(2) claude started run adv fin by (auto simp: client_in_step_def advances_append phase_of_def)
    ultimately show ?thesis using assms(2) by fastforce
  qed
qed

lemma translate_events_in_step:
  assumes "client_in_step out t" "st_meta_sent t"
  shows "\<exists>new h' t'. translate_events C es h t acc = (Inr (acc @ new), h', t') \<and> st_meta_sent t'
    \<and> (\<exists>more. concat new = texts_of C more \<and> client_in_step (out @ more) t')"
  using assms
proof (induction es arbitrary: h t acc out)
  case Nil
  then show ?case by (auto simp: texts_of_def intro!: exI[of _ "[]"])
next
  case (Cons e es)
  obtain skip ev u where pre: "preprocess (h ! e) t = (skip, ev, u)" by (cases "preprocess (h ! e) t")
  have u: "client_in_step out u" "st_meta_sent u"
    using Cons.prems preprocess_keeps[OF pre] by (auto simp: client_in_step_def)
  show ?case
  proof (cases skip)
    case True
    then show ?thesis using Cons.IH[OF u] pre by simp
  next
    case False
    obtain new v more where v: "convert_and_buffer C ev u = (Inr new, v)" "st_meta_sent v" "concat new = texts_of C more"
      "client_in_step (out @ more) v" using convert_and_buffer_in_step[OF u] by blast
    obtain new' h' t' more' where "translate_events C es (h[e := ev]) v (acc @ new) = (Inr ((acc @ new) @ new'), h', t')"
      "st_meta_sent t'" "concat new' = texts_of C more'" "client_in_step ((out @ more) @ more') t'"
      using Cons.IH[OF v(4,2)] by blast
    then show ?thesis using pre v False
      by (auto simp: texts_of_append intro!: exI[of _ "new @ new'"] exI[of _ "more @ more'"])
  qed
qed

lemma translate_in_step:
  assumes "client_in_step out t" "es \<noteq> []"
  shows "\<exists>new u h' t'. translate C es h t = (Inr (new, u), h', t') \<and> st_meta_sent t'
    \<and> (\<exists>more. concat new = texts_of C more \<and> client_in_step (out @ more) t')"
proof (cases "st_meta_sent t")
  case True
  then obtain new h' t' more where "translate_events C es h t ([] @ []) = (Inr ([] @ new), h', t')" "st_meta_sent t'"
    "concat new = texts_of C more" "client_in_step (out @ more) t'"
    using translate_events_in_step[OF assms(1) True] by (metis append_Nil)
  then show ?thesis using True by (auto simp: translate_def)
next
  case False
  let ?m = "meta_event t"
  let ?s = "(st_claude t)\<lparr>cs_start_sent := True, cs_model := st_model t, cs_message_id := st_message_id t\<rparr>"
  have new: "out = []" "\<not> cs_start_sent (st_claude t)" "phase_of (st_claude t) = Between 0" "\<not> cs_finish_sent (st_claude t)"
    "\<not> st_buffer_finished t" "st_to t = ''claude''" using assms(1) False by (auto simp: client_in_step_def)
  obtain meta where m: "ev_stream_meta ?m = Some meta" "ev_type ?m = EventTypeStreamMeta" "sm_model meta = st_model t"
    "sm_message_id meta = st_message_id t"
    by (simp add: meta_event_def new_event_def Let_def)
  let ?t = "t\<lparr>st_meta_sent := True, st_claude := ?s\<rparr>"
  have first: "convert_event C ?m (t\<lparr>st_meta_sent := True\<rparr>) = (Inr (Some (texts_of C [start_event meta])), ?t)"
    using new m by (simp add: convert_event_def to_claude_sse_def claude_chunk_def texts_of_def)
  have "client_in_step [start_event meta] ?t"
    using new by (auto simp: client_in_step_def phase_of_def advance_events split: if_splits)
  then obtain rest h' t' more where "translate_events C es h ?t [texts_of C [start_event meta]] = (Inr ([texts_of C [start_event meta]] @ rest), h', t')"
    "st_meta_sent t'" "concat rest = texts_of C more" "client_in_step ([start_event meta] @ more) t'"
    using translate_events_in_step[of "[start_event meta]" ?t C es h "[texts_of C [start_event meta]]"] by auto
  then show ?thesis using False assms(2) first new(1)
    by (auto simp: translate_def texts_of_Cons[of C _ more] intro!: exI[of _ "start_event meta # more"])
qed

lemma emitter_keeps_parser:
  "to_claude_sse e (Some s) = (out, Some r) \<Longrightarrow> cs_parser r = cs_parser s"
  by (cases "ev_type e") (auto simp: to_claude_sse_def emit_text_delta_def emit_redacted_thinking_delta_def emit_thinking_delta_def
      emit_tool_call_def emit_finish_def switch_block_def close_block_def Let_def split_beta split: option.splits if_splits)

lemma convert_keeps_parser: "cs_parser (st_claude (snd (convert_event C ev t))) = cs_parser (st_claude t)"
proof -
  obtain o1 r where "to_claude_sse ev (Some (st_claude t)) = (o1, Some r)" using to_claude_sse_some by blast
  then show ?thesis using emitter_keeps_parser by (auto simp: convert_event_def Let_def)
qed

lemma convert_and_buffer_keeps_parser:
  "cs_parser (st_claude (snd (convert_and_buffer C ev t))) = cs_parser (st_claude t)"
  using convert_keeps_parser[of C ev t]
  by (cases "convert_event C ev t") (auto simp: convert_and_buffer_def Let_def split_beta split: sum.splits)

lemma translate_events_keeps_parser:
  "cs_parser (st_claude (snd (snd (translate_events C es h t acc)))) = cs_parser (st_claude t)"
proof (induction es arbitrary: h t acc)
  case (Cons e es)
  obtain skip ev u where pre: "preprocess (h ! e) t = (skip, ev, u)" by (cases "preprocess (h ! e) t")
  have "st_claude u = st_claude t" using preprocess_keeps[OF pre] by simp
  then show ?case using Cons.IH pre convert_and_buffer_keeps_parser[of C ev u]
    by (cases "convert_and_buffer C ev u") (auto simp: Let_def split: sum.splits)
qed simp

lemma translate_keeps_parser: "cs_parser (st_claude (snd (snd (translate C es h t)))) = cs_parser (st_claude t)"
proof -
  obtain first u where f: "(if st_meta_sent t \<or> es = [] then (Inr None, t)
      else convert_event C (meta_event t) (t\<lparr>st_meta_sent := True\<rparr>)) = (first, u)" by (metis surj_pair)
  then have "cs_parser (st_claude u) = cs_parser (st_claude t)"
    using convert_keeps_parser[of C "meta_event t" "t\<lparr>st_meta_sent := True\<rparr>"] by (auto split: if_splits)
  then show ?thesis
    using translate_events_keeps_parser[of C es h u] f
    by (cases first) (auto simp: translate_def Let_def split_beta split: sum.splits)
qed

lemma parse_without_events:
  assumes "parse_claude_chunk J l (Some p) h = ([], s', h')" "cl_pending p = None"
  shows "\<exists>q. s' = Some q \<and> cl_pending q = None"
  using assms
  by (auto simp: parse_claude_chunk_def parse_content_block_start_def parse_claude_stream_delta_def
      parse_content_block_stop_def hand_on_def flush_option_def parser_flush_pending_def attach_signature_def
      Let_def split_beta split: if_splits option.splits)

text \<open>A thought is held back only after something was sent.\<close>

definition parser_in_step :: "stream_translator \<Rightarrow> bool" where
  "parser_in_step t \<longleftrightarrow> st_meta_sent t \<or> (\<exists>p. cs_parser (st_claude t) = Some p \<and> cl_pending p = None)"

lemma client_in_step_parser:
  "client_in_step out (t\<lparr>st_claude := (st_claude t)\<lparr>cs_parser := p\<rparr>\<rparr>) = client_in_step out t"
  by (simp add: client_in_step_def phase_of_def)

lemma claude_process_line_in_step:
  assumes "client_in_step out t" "parser_in_step t"
  shows "\<exists>new u h' t'. claude_process_line C J l h t = (Inr (new, u), h', t') \<and> parser_in_step t'
    \<and> (\<exists>more. concat new = texts_of C more \<and> client_in_step (out @ more) t')"
proof -
  obtain es p h1 where parsed: "parse_claude_chunk J l (cs_parser (st_claude t)) h = (es, p, h1)" by (metis surj_pair)
  let ?t = "t\<lparr>st_claude := (st_claude t)\<lparr>cs_parser := p\<rparr>\<rparr>"
  have step: "client_in_step out ?t" using assms(1) by (simp add: client_in_step_parser)
  show ?thesis
  proof (cases "es = []")
    case True
    then have "parser_in_step ?t"
      using assms(2) parsed parse_without_events[of J l _ h p h1] by (fastforce simp: parser_in_step_def)
    then show ?thesis using parsed True step
      by (auto simp: claude_process_line_def texts_of_def intro!: exI[of _ "[]"])
  next
    case False
    then show ?thesis using translate_in_step[OF step False, of C h1] parsed
      by (fastforce simp: claude_process_line_def parser_in_step_def)
  qed
qed

lemma translator_flush_in_step:
  assumes "client_in_step out t" "parser_in_step t"
  shows "\<exists>new t'. translator_flush C h t = (Inr new, t') \<and> (\<exists>more. concat new = texts_of C more \<and> client_in_step (out @ more) t')"
proof -
  obtain e u where fin: "finalize_parser t = (e, u)" by (cases "finalize_parser t")
  have u: "client_in_step out u" "st_meta_sent u = st_meta_sent t"
    using fin assms(1) by (auto simp: finalize_parser_def client_in_step_parser Let_def split_beta split: option.splits)
  have gem: "client_in_step out (v\<lparr>st_gemini := g\<rparr>) = client_in_step out v" for v g out
    by (simp add: client_in_step_def)
  show ?thesis
  proof (cases e)
    case None
    then show ?thesis using fin u gem
      by (auto simp: translator_flush_def texts_of_def intro!: exI[of _ "[]"])
  next
    case (Some r)
    then have "st_meta_sent u"
      using fin assms(2) u(2)
      by (auto simp: parser_in_step_def finalize_parser_def parser_finalize_def parser_flush_pending_def Let_def split: option.splits)
    then show ?thesis
      using convert_and_buffer_in_step[OF u(1), of C "h ! r"] fin Some gem
      by (auto simp: translator_flush_def)
  qed
qed

lemma claude_process_lines_in_step:
  assumes "client_in_step out t" "parser_in_step t"
  shows "\<exists>new h' t'. claude_process_lines C J ls h t = (Inr new, h', t')
    \<and> (\<exists>more. concat new = texts_of C more \<and> client_in_step (out @ more) t')"
  using assms
proof (induction ls arbitrary: h t out)
  case Nil
  then show ?case using translator_flush_in_step[OF Nil, of C h] by fastforce
next
  case (Cons l ls)
  obtain new u h1 t1 more where l: "claude_process_line C J l h t = (Inr (new, u), h1, t1)" "parser_in_step t1"
    "concat new = texts_of C more" "client_in_step (out @ more) t1"
    using claude_process_line_in_step[OF Cons.prems] by blast
  obtain new' h' t' more' where "claude_process_lines C J ls h1 t1 = (Inr new', h', t')" "concat new' = texts_of C more'"
    "client_in_step ((out @ more) @ more') t'"
    using Cons.IH[OF l(4,2)] by blast
  then show ?case using l by (auto simp: texts_of_append intro!: exI[of _ "more @ more'"])
qed

section \<open>Properties\<close>

text \<open>A codec for the examples, which can encode texts only.\<close>

definition example_codec :: codec where
  "example_codec = \<lparr>co_encode = (\<lambda>v. case v of JStr s \<Rightarrow> Some s | _ \<Rightarrow> Some ''{}''), co_decode = (\<lambda>s. None),
     co_unix = 0, co_time = []\<rparr>"


text \<open>
  After the finish nothing more is sent, in any format, unless an event cannot be converted.
  What comes later is lost to the client, also the usage that OpenAI sends in a chunk of its own
  after the one with the reason.
\<close>

theorem nothing_after_finish:
  assumes "st_buffer_finished t" "st_meta_sent t" "translate C es h t = (Inr (chunks, u), h', t')"
  shows "chunks = []"
proof -
  have buffered: "convert_and_buffer C ev v = (Inr out, w) \<Longrightarrow> st_buffer_finished v \<Longrightarrow> out = [] \<and> st_buffer_finished w" for ev v out w
  proof -
    assume cb: "convert_and_buffer C ev v = (Inr out, w)" and fin: "st_buffer_finished v"
    obtain r x where conv: "convert_event C ev v = (r, x)" by fastforce
    then have "st_buffer_finished x = st_buffer_finished v" by (auto simp: convert_event_def Let_def split_beta split: if_splits)
    then show "out = [] \<and> st_buffer_finished w"
      using cb conv fin by (auto simp: convert_and_buffer_def passthrough_process_def split: sum.splits if_splits)
  qed
  have "translate_events C es h t acc = (Inr out, h'', t'') \<Longrightarrow> st_buffer_finished t \<Longrightarrow> out = acc" for out h'' t'' acc h t
  proof (induction es arbitrary: h t acc)
    case (Cons e es)
    obtain skip ev v where pre: "preprocess (h ! e) t = (skip, ev, v)" by (cases "preprocess (h ! e) t")
    then have "st_buffer_finished v" using preprocess_keeps[OF pre] Cons.prems(2) by simp
    obtain r x where cb: "convert_and_buffer C ev v = (r, x)" by fastforce
    show ?case
    proof (cases skip)
      case True
      then show ?thesis using Cons.IH[of "h[e := ev]" v acc] Cons.prems(1) pre \<open>st_buffer_finished v\<close> by (simp add: Let_def)
    next
      case False
      then obtain o1 where "r = Inr o1" using Cons.prems(1) pre cb by (cases r) (auto simp: Let_def)
      then show ?thesis
        using Cons.IH[of "h[e := ev]" x acc] Cons.prems(1) pre cb False buffered[of ev v o1 x] \<open>st_buffer_finished v\<close>
        by (simp add: Let_def)
    qed
  qed simp
  then show ?thesis using assms by (auto simp: translate_def split: sum.splits prod.splits)
qed

theorem nothing_after_finish_witness:
  "fst (translate example_codec [0] [token_event ''x'']
     ((new_stream_translator ''claude'' ''m'' ''id'')\<lparr>st_meta_sent := True, st_buffer_finished := True\<rparr>)) = Inr ([], None)"
proof -
  let ?t = "(new_stream_translator ''claude'' ''m'' ''id'')\<lparr>st_meta_sent := True, st_buffer_finished := True\<rparr>"
  have sent: "st_buffer_finished ?t" "st_meta_sent ?t" by simp_all
  have "case translate example_codec [0] [token_event ''x''] ?t of (Inr (c, u), _, _) \<Rightarrow> u = None | _ \<Rightarrow> False"
    by code_simp
  moreover obtain r h t where "translate example_codec [0] [token_event ''x''] ?t = (r, h, t)" by (rule prod_cases3)
  ultimately obtain c where "translate example_codec [0] [token_event ''x''] ?t = (Inr (c, None), h, t)"
    by (cases r) auto
  then show ?thesis using nothing_after_finish[OF sent] by fastforce
qed

text \<open>
  The reason why an answer ended does not reach a streaming client of Claude's or Gemini's
  format: whatever it was, a limit on tokens or a filter of content, the events and the chunk are
  the same.
\<close>

theorem finish_reason_not_sent:
  "to_claude_sse (ev\<lparr>ev_finish_reason := r\<rparr>) s = to_claude_sse ev s
   \<and> to_gemini_chunk encode decode (ev\<lparr>ev_finish_reason := r\<rparr>) model = to_gemini_chunk encode decode ev model"
proof -
  have "gemini_parts decode (ev\<lparr>ev_finish_reason := r\<rparr>) = gemini_parts decode ev"
    by (cases "ev_type ev") (auto simp: gemini_parts_def split: option.splits)
  then show ?thesis
    by (cases "ev_type ev") (simp_all add: to_claude_sse_def to_gemini_chunk_def emit_error_def error_message_def Let_def
        split: option.split)
qed

text \<open>
  Claude counts the tokens read from its cache apart from the input tokens. On the way through
  the gateway they are taken off the input tokens once more.
\<close>

theorem cached_tokens_taken_off_again:
  assumes "gj_exists J u" "gj_int J (gj_get J u ''input_tokens'') = n"
    and "gj_exists J (gj_get J u ''cache_read_input_tokens'')" "gj_int J (gj_get J u ''cache_read_input_tokens'') = c" "0 < c"
  shows "mget (finish_usage (parse_claude_usage J u)) ''input_tokens'' = Some (jint (n - c))
    \<and> mget (finish_usage (parse_claude_usage J u)) ''cache_read_input_tokens'' = Some (jint c)"
  using assms by (simp add: parse_claude_usage_def finish_usage_def cached_tokens_of_def Let_def)

theorem cached_tokens_taken_off_again_witness:
  "mget (finish_usage (parse_claude_usage value_reader
      (Some (JObj [(''input_tokens'', JNum 3), (''cache_read_input_tokens'', JNum 10)])))) ''input_tokens'' = Some (jint (-7))"
proof -
  let ?u = "Some (JObj [(''input_tokens'', JNum 3), (''cache_read_input_tokens'', JNum 10)])"
  have "gj_exists value_reader ?u" "gj_int value_reader (gj_get value_reader ?u ''input_tokens'') = 3"
    "gj_exists value_reader (gj_get value_reader ?u ''cache_read_input_tokens'')"
    "gj_int value_reader (gj_get value_reader ?u ''cache_read_input_tokens'') = 10" by code_simp+
  then show ?thesis using cached_tokens_taken_off_again[of value_reader ?u 3 10] by simp
qed

end
