(* ===== verification/Messages.thy ===== *)
theory Messages
  imports StreamChunks
begin

text \<open>
  What requests and answers of all formats are put together from: the texts and thoughts of a
  message, calls of tools and their results (\<open>internal/translator/ir/message_builder.go\<close>), and the
  builder of answers (\<open>response_builder.go\<close>). Identifiers that the code draws at random come from an
  argument.
\<close>

section \<open>Texts and thoughts\<close>

text \<open>The parts that are not empty. A redacted thought counts, but it has no text.\<close>

definition text_parts :: "message \<Rightarrow> string list" where
  "text_parts m = List.map_filter (\<lambda>p. if cp_type p = ContentTypeText \<and> cp_text p \<noteq> [] then Some (cp_text p) else None) (msg_content m)"

definition reasoning_parts :: "message \<Rightarrow> string list" where
  "reasoning_parts m = List.map_filter (\<lambda>p.
     if cp_type p = ContentTypeReasoning \<and> cp_reasoning p \<noteq> [] then Some (cp_reasoning p)
     else if cp_type p = ContentTypeRedactedThinking \<and> cp_redacted_data p \<noteq> [] then Some [] else None) (msg_content m)"

definition last_nonempty :: "string list \<Rightarrow> string" where
  "last_nonempty ss = fold (\<lambda>s r. if s = [] then r else s) ss []"

definition combine_text_and_reasoning :: "message \<Rightarrow> string \<times> string" where
  "combine_text_and_reasoning m =
     (let ts = text_parts m; rs = reasoning_parts m; t = length ts; r = length rs
      in if t \<le> 1 \<and> r \<le> 1
         then (if t = 1 then last_nonempty ts else [], if r = 1 then last_nonempty rs else [])
         else (if 1 < t then concat ts else if t = 1 then last_nonempty ts else [],
               if 1 < r then concat rs else if r = 1 then last_nonempty rs else []))"

definition combine_text_parts :: "message \<Rightarrow> string" where
  "combine_text_parts m = (case text_parts m of [] \<Rightarrow> [] | [t] \<Rightarrow> t | ts \<Rightarrow> concat ts)"

definition combine_reasoning_parts :: "message \<Rightarrow> string" where
  "combine_reasoning_parts m = (case reasoning_parts m of [] \<Rightarrow> [] | [r] \<Rightarrow> r | rs \<Rightarrow> concat rs)"

definition get_first_reasoning_signature :: "message \<Rightarrow> string" where
  "get_first_reasoning_signature m =
     (case filter (\<lambda>p. cp_type p = ContentTypeReasoning \<and> cp_signature p \<noteq> []) (msg_content m) of
        [] \<Rightarrow> [] | p # _ \<Rightarrow> cp_signature p)"

definition has_thinking_parts :: "message \<Rightarrow> bool" where
  "has_thinking_parts m \<longleftrightarrow> list_ex (\<lambda>p.
     cp_type p = ContentTypeReasoning \<and> (cp_reasoning p \<noteq> [] \<or> cp_signature p \<noteq> [])
     \<or> cp_type p = ContentTypeRedactedThinking \<and> cp_redacted_data p \<noteq> []) (msg_content m)"

section \<open>Calls of tools and their results\<close>

definition result_of :: "content_part \<Rightarrow> tool_result_part option" where
  "result_of p = (if cp_type p = ContentTypeToolResult then cp_tool_result p else None)"

definition build_tool_call_map :: "message list \<Rightarrow> (string, string) gomap" where
  "build_tool_call_map ms =
     fold (\<lambda>m names. if msg_role m = RoleAssistant
                     then fold (\<lambda>tc. mput (tc_id tc) (tc_name tc)) (msg_tool_calls m) names else names) ms []"

definition build_tool_results_map :: "message list \<Rightarrow> (string, tool_result_part) gomap" where
  "build_tool_results_map ms =
     fold (\<lambda>m results. if msg_role m = RoleTool \<or> msg_role m = RoleUser
                       then fold (\<lambda>r. mput (tr_call_id r) r) (List.map_filter result_of (msg_content m)) results
                       else results) ms []"

text \<open>
  Both maps in one pass. A call without an identifier, or with its name for one, gets a new one;
  a result that names a function is matched with the first open call of it. The identifiers of the
  messages themselves change.
\<close>

record tool_maps =
  tm_next :: nat
  tm_names :: "(string, string) gomap"
  tm_queues :: "(string, string list) gomap"
  tm_results :: "(string, tool_result_part) gomap"

definition new_tool_maps :: tool_maps where
  "new_tool_maps = \<lparr>tm_next = 0, tm_names = [], tm_queues = [], tm_results = []\<rparr>"

definition queue_of :: "tool_maps \<Rightarrow> string \<Rightarrow> string list" where
  "queue_of s n = (case mget (tm_queues s) n of Some q \<Rightarrow> q | None \<Rightarrow> [])"

fun assign_ids :: "(nat \<Rightarrow> string) \<Rightarrow> tool_call list \<Rightarrow> tool_maps \<Rightarrow> tool_call list \<times> tool_maps" where
  "assign_ids gen [] s = ([], s)"
| "assign_ids gen (tc # tcs) s =
     (let (tc, s) = (if tc_id tc = [] \<or> tc_id tc = tc_name tc
                     then (tc\<lparr>tc_id := gen (tm_next s)\<rparr>, s\<lparr>tm_next := Suc (tm_next s)\<rparr>) else (tc, s));
          s = s\<lparr>tm_names := mput (tc_id tc) (tc_name tc) (tm_names s),
                tm_queues := mput (tc_name tc) (queue_of s (tc_name tc) @ [tc_id tc]) (tm_queues s)\<rparr>;
          (tcs, s) = assign_ids gen tcs s
      in (tc # tcs, s))"

fun match_results :: "content_part list \<Rightarrow> tool_maps \<Rightarrow> content_part list \<times> tool_maps" where
  "match_results [] s = ([], s)"
| "match_results (p # ps) s =
     (case result_of p of
        None \<Rightarrow> let (ps, s) = match_results ps s in (p # ps, s)
      | Some r \<Rightarrow>
          let (r, s) = (case queue_of s (tr_call_id r) of
                          [] \<Rightarrow> (r, s)
                        | i # q \<Rightarrow> (r\<lparr>tr_call_id := i\<rparr>, s\<lparr>tm_queues := mput (tr_call_id r) q (tm_queues s)\<rparr>));
              s = s\<lparr>tm_results := mput (tr_call_id r) r (tm_results s)\<rparr>;
              (ps, s) = match_results ps s
          in (p\<lparr>cp_tool_result := Some r\<rparr> # ps, s))"

definition tool_maps_message :: "(nat \<Rightarrow> string) \<Rightarrow> message \<Rightarrow> tool_maps \<Rightarrow> message \<times> tool_maps" where
  "tool_maps_message gen m s =
     (case msg_role m of
        RoleAssistant \<Rightarrow> let (tcs, s) = assign_ids gen (msg_tool_calls m) s in (m\<lparr>msg_tool_calls := tcs\<rparr>, s)
      | RoleSystem \<Rightarrow> (m, s)
      | _ \<Rightarrow> let (ps, s) = match_results (msg_content m) s in (m\<lparr>msg_content := ps\<rparr>, s))"

fun tool_maps_messages :: "(nat \<Rightarrow> string) \<Rightarrow> message list \<Rightarrow> tool_maps \<Rightarrow> message list \<times> tool_maps" where
  "tool_maps_messages gen [] s = ([], s)"
| "tool_maps_messages gen (m # ms) s =
     (let (m, s) = tool_maps_message gen m s; (ms, s) = tool_maps_messages gen ms s in (m # ms, s))"

definition build_tool_maps ::
    "(nat \<Rightarrow> string) \<Rightarrow> message list \<Rightarrow> message list \<times> (string, string) gomap \<times> (string, tool_result_part) gomap" where
  "build_tool_maps gen ms = (let (ms, s) = tool_maps_messages gen ms new_tool_maps in (ms, tm_names s, tm_results s))"

definition parse_openai_style_tool_calls :: "'j gjson \<Rightarrow> 'j list \<Rightarrow> tool_call list" where
  "parse_openai_style_tool_calls J tcs =
     List.map_filter (\<lambda>tc. if gj_str J (gj_get J tc ''type'') = ''function''
       then Some (call_of (gj_str J (gj_get J tc ''id'')) (gj_str J (gj_get J tc ''function.name''))
              (gj_str J (gj_get J tc ''function.arguments''))) else None) tcs"

section \<open>Thoughts under the names of every format\<close>

fun first_text :: "'j gjson \<Rightarrow> 'j \<Rightarrow> string list \<Rightarrow> string" where
  "first_text J d [] = []"
| "first_text J d (k # ks) =
     (let v = gj_get J d k in if gj_exists J v \<and> gj_str J v \<noteq> [] then gj_str J v else first_text J d ks)"

text \<open>The text and the signature.\<close>

definition reasoning_detail :: "'j gjson \<Rightarrow> 'j \<Rightarrow> string \<times> string \<Rightarrow> string \<times> string" where
  "reasoning_detail J detail rf =
     (let summary = gj_str J (gj_get J detail ''summary''); format = gj_str J (gj_get J detail ''format'')
      in if gj_str J (gj_get J detail ''type'') = ''reasoning.summary'' \<and> summary \<noteq> []
         then (summary, if format \<noteq> [] then format else snd rf) else rf)"

definition parse_reasoning_from_json :: "'j gjson \<Rightarrow> 'j \<Rightarrow> string \<times> string" where
  "parse_reasoning_from_json J d =
     (let rf = (first_text J d [''reasoning_content'', ''reasoning_text'', ''thinking'', ''cot_summary''], []);
          rd = gj_get J d ''reasoning_details'';
          (text, sig) = (if gj_exists J rd \<and> gj_is_array J rd then fold (reasoning_detail J) (gj_array J rd) rf else rf)
      in (text, if sig = [] then first_text J d [''reasoning_opaque'', ''signature'', ''cot_id''] else sig))"

definition mput_all :: "jobj \<Rightarrow> jobj \<Rightarrow> jobj" where
  "mput_all kvs m = fold (\<lambda>(k, v). mput k v) kvs m"

text \<open>A nil slice is written as null.\<close>

definition json_slice :: "jval list \<Rightarrow> jval" where
  "json_slice xs = (if xs = [] then JNull else JArr xs)"

definition add_reasoning_to_message :: "string \<Rightarrow> string \<Rightarrow> jobj \<Rightarrow> jobj" where
  "add_reasoning_to_message reasoning sig m =
     (if reasoning = [] then m
      else mput_all
        ([(''reasoning_content'', JStr reasoning), (''reasoning_text'', JStr reasoning), (''thinking'', JStr reasoning),
          (''cot_summary'', JStr reasoning),
          (''reasoning_details'', JArr [JObj [(''type'', JStr ''reasoning.summary''), (''summary'', JStr reasoning),
             (''format'', JStr ''xai-responses-v1''), (''index'', jint 0)]])]
         @ (if sig = [] then []
            else [(''reasoning_opaque'', JStr sig), (''signature'', JStr sig), (''cot_id'', JStr sig)])) m)"

section \<open>Lemmas\<close>

lemma map_filter_simps:
  "List.map_filter f [] = []"
  "List.map_filter f (x # xs) = (case f x of None \<Rightarrow> List.map_filter f xs | Some y \<Rightarrow> y # List.map_filter f xs)"
  by (simp_all add: List.map_filter_def split: option.splits)

lemma last_nonempty_single: "last_nonempty [s] = s"
  by (simp add: last_nonempty_def)

lemma length_one: "length xs = Suc 0 \<longleftrightarrow> (\<exists>x. xs = [x])"
  by (cases xs) auto

text \<open>The open calls of a name and the identifiers that were assigned.\<close>

lemma assign_ids_legacy:
  assumes "list_all (\<lambda>tc. tc_name tc = n \<and> (tc_id tc = [] \<or> tc_id tc = n)) tcs"
  shows "\<exists>s'. assign_ids gen tcs s = (map2 (\<lambda>tc i. tc\<lparr>tc_id := gen i\<rparr>) tcs [tm_next s ..< tm_next s + length tcs], s')
    \<and> queue_of s' n = queue_of s n @ List.map gen [tm_next s ..< tm_next s + length tcs]
    \<and> tm_next s' = tm_next s + length tcs \<and> tm_results s' = tm_results s"
  using assms
proof (induction tcs arbitrary: s)
  case (Cons tc tcs)
  let ?tc = "tc\<lparr>tc_id := gen (tm_next s)\<rparr>"
  let ?s = "s\<lparr>tm_next := Suc (tm_next s), tm_names := mput (gen (tm_next s)) n (tm_names s),
    tm_queues := mput n (queue_of s n @ [gen (tm_next s)]) (tm_queues s)\<rparr>"
  have "tc_name tc = n" "tc_id tc = [] \<or> tc_id tc = tc_name tc" using Cons.prems by auto
  then have step: "assign_ids gen (tc # tcs) s = (let (r, t) = assign_ids gen tcs ?s in (?tc # r, t))"
    by (auto simp: queue_of_def Let_def)
  have q: "queue_of ?s n = queue_of s n @ [gen (tm_next s)]" by (simp add: queue_of_def)
  obtain s' where "assign_ids gen tcs ?s = (map2 (\<lambda>tc i. tc\<lparr>tc_id := gen i\<rparr>) tcs [Suc (tm_next s) ..< Suc (tm_next s) + length tcs], s')"
    "queue_of s' n = queue_of ?s n @ List.map gen [Suc (tm_next s) ..< Suc (tm_next s) + length tcs]"
    "tm_next s' = Suc (tm_next s) + length tcs" "tm_results s' = tm_results s"
    using Cons.IH[of ?s] Cons.prems by auto
  moreover have "[tm_next s ..< tm_next s + length (tc # tcs)] = tm_next s # [Suc (tm_next s) ..< Suc (tm_next s) + length tcs]"
    using upt_conv_Cons[of "tm_next s" "tm_next s + length (tc # tcs)"] by (simp del: upt_Suc)
  ultimately show ?case unfolding step q by (simp del: upt_Suc)
qed simp

lemma match_results_legacy:
  assumes "list_all (\<lambda>p. \<exists>r. result_of p = Some r \<and> tr_call_id r = n) ps" "queue_of s n = ids @ rest" "length ids = length ps"
    and "distinct ids"
  shows "\<exists>ps' s'. match_results ps s = (ps', s')
    \<and> ps' = map2 (\<lambda>p i. p\<lparr>cp_tool_result := map_option (\<lambda>r. r\<lparr>tr_call_id := i\<rparr>) (cp_tool_result p)\<rparr>) ps ids
    \<and> (\<forall>i. i \<notin> set ids \<longrightarrow> mget (tm_results s') i = mget (tm_results s) i)
    \<and> list_all2 (\<lambda>i p. mget (tm_results s') i = cp_tool_result p) ids ps'"
  using assms
proof (induction ps arbitrary: s ids)
  case (Cons p ps)
  obtain i ids' where ids: "ids = i # ids'" using Cons.prems(3) by (cases ids) auto
  obtain r where r: "result_of p = Some r" "tr_call_id r = n" using Cons.prems(1) by auto
  then have p: "cp_tool_result p = Some r" by (auto simp: result_of_def split: if_splits)
  let ?r = "r\<lparr>tr_call_id := i\<rparr>"
  let ?s = "s\<lparr>tm_queues := mput n (ids' @ rest) (tm_queues s), tm_results := mput i ?r (tm_results s)\<rparr>"
  have q: "queue_of s n = i # ids' @ rest" "queue_of ?s n = ids' @ rest" using Cons.prems(2) ids by (simp_all add: queue_of_def)
  then obtain ps' s' where step: "match_results ps ?s = (ps', s')"
    "ps' = map2 (\<lambda>p i. p\<lparr>cp_tool_result := map_option (\<lambda>r. r\<lparr>tr_call_id := i\<rparr>) (cp_tool_result p)\<rparr>) ps ids'"
    "\<forall>j. j \<notin> set ids' \<longrightarrow> mget (tm_results s') j = mget (tm_results ?s) j"
    "list_all2 (\<lambda>i p. mget (tm_results s') i = cp_tool_result p) ids' ps'"
    using Cons.IH[of ?s ids'] Cons.prems ids by auto
  have "match_results (p # ps) s = (p\<lparr>cp_tool_result := Some ?r\<rparr> # ps', s')"
    using r q step(1) by (simp add: Let_def)
  moreover have "i \<notin> set ids'" using Cons.prems(4) ids by simp
  ultimately show ?case using step ids p by auto
qed simp

section \<open>Properties\<close>

text \<open>
  The one-pass reader of a message, with its shortcuts for a single part, gives the texts of all
  text parts and of all thoughts in order, as the two separate readers do.
\<close>

theorem combined_in_order:
  "combine_text_and_reasoning m = (concat (text_parts m), concat (reasoning_parts m))
   \<and> combine_text_parts m = concat (text_parts m) \<and> combine_reasoning_parts m = concat (reasoning_parts m)"
proof -
  have single: "length xs \<le> 1 \<Longrightarrow> (if length xs = 1 then last_nonempty xs else []) = concat xs" for xs :: "string list"
    by (cases xs) (auto simp: last_nonempty_single)
  have long: "(if 1 < length xs then concat xs else if length xs = 1 then last_nonempty xs else []) = concat xs" for xs :: "string list"
    using single[of xs] by (cases "1 < length xs") auto
  show ?thesis
    unfolding combine_text_and_reasoning_def combine_text_parts_def combine_reasoning_parts_def Let_def
    using single long by (auto split: list.splits)
qed

text \<open>
  Calls and results of a client that gives no identifiers: the results that name a function are
  matched with its calls first come, first served, each gets the identifier made for its call, and
  the map of results finds it there.
\<close>

theorem legacy_results_matched_in_order:
  assumes "list_all (\<lambda>tc. tc_name tc = n \<and> (tc_id tc = [] \<or> tc_id tc = n)) tcs"
    and "list_all (\<lambda>p. \<exists>r. result_of p = Some r \<and> tr_call_id r = n) ps" "length ps \<le> length tcs" "inj gen"
  defines "call \<equiv> (new_message RoleAssistant)\<lparr>msg_tool_calls := tcs\<rparr>"
  defines "answer \<equiv> (new_message RoleTool)\<lparr>msg_content := ps\<rparr>"
  shows "\<exists>call' answer' names results. build_tool_maps gen [call, answer] = ([call', answer'], names, results)
    \<and> List.map tc_id (msg_tool_calls call') = List.map gen [0..<length tcs]
    \<and> msg_content answer' = map2 (\<lambda>p i. p\<lparr>cp_tool_result := map_option (\<lambda>r. r\<lparr>tr_call_id := gen i\<rparr>) (cp_tool_result p)\<rparr>) ps [0..<length ps]
    \<and> list_all2 (\<lambda>i p. mget results (gen i) = cp_tool_result p) [0..<length ps] (msg_content answer')"
proof -
  let ?m = "length ps" and ?k = "length tcs"
  obtain s where s: "assign_ids gen tcs new_tool_maps = (map2 (\<lambda>tc i. tc\<lparr>tc_id := gen i\<rparr>) tcs [0..<?k], s)"
    "queue_of s n = List.map gen [0..<?k]"
    using assign_ids_legacy[OF assms(1), of gen new_tool_maps] by (auto simp: new_tool_maps_def queue_of_def)
  have split: "List.map gen [0..<?k] = List.map gen [0..<?m] @ List.map gen [?m..<?k]"
    using assms(3) by (metis le0 map_append upt_add_eq_append le_add_diff_inverse)
  have "distinct (List.map gen [0..<?m])" using assms(4) by (simp add: distinct_map inj_on_def)
  then obtain ps' t where t: "match_results ps s = (ps', t)"
    "ps' = map2 (\<lambda>p i. p\<lparr>cp_tool_result := map_option (\<lambda>r. r\<lparr>tr_call_id := i\<rparr>) (cp_tool_result p)\<rparr>) ps (List.map gen [0..<?m])"
    "list_all2 (\<lambda>i p. mget (tm_results t) i = cp_tool_result p) (List.map gen [0..<?m]) ps'"
    using match_results_legacy[OF assms(2), of s "List.map gen [0..<?m]"] s(2) split by auto
  have "tool_maps_messages gen [call, answer] new_tool_maps =
      ([call\<lparr>msg_tool_calls := map2 (\<lambda>tc i. tc\<lparr>tc_id := gen i\<rparr>) tcs [0..<?k]\<rparr>, answer\<lparr>msg_content := ps'\<rparr>], t)"
    using s(1) t(1) by (simp add: tool_maps_message_def call_def answer_def new_message_def Let_def)
  moreover have "List.map tc_id (map2 (\<lambda>tc i. tc\<lparr>tc_id := gen i\<rparr>) tcs [0..<?k]) = List.map gen [0..<?k]"
    by (rule nth_equalityI) simp_all
  ultimately show ?thesis using t(2,3) by (simp add: build_tool_maps_def list_all2_map1 zip_map2 comp_def case_prod_beta)
qed

definition example_result :: "string \<Rightarrow> content_part" where
  "example_result x = (new_part ContentTypeToolResult)\<lparr>cp_tool_result :=
     Some \<lparr>tr_call_id = ''ls'', tr_result = x, tr_is_error = False, tr_images = [], tr_files = []\<rparr>\<rparr>"

theorem legacy_results_matched_in_order_witness:
  "\<exists>call' answer' names results.
     build_tool_maps (\<lambda>i. replicate i CHR ''x'') [(new_message RoleAssistant)\<lparr>msg_tool_calls := [call_of [] ''ls'' ''{}'', call_of ''ls'' ''ls'' ''{}'']\<rparr>,
       (new_message RoleTool)\<lparr>msg_content := [example_result ''a'', example_result ''b'']\<rparr>] = ([call', answer'], names, results)
     \<and> List.map tc_id (msg_tool_calls call') = [[], ''x'']"
proof -
  let ?tcs = "[call_of [] ''ls'' ''{}'', call_of ''ls'' ''ls'' ''{}'']" and ?ps = "[example_result ''a'', example_result ''b'']"
  have "list_all (\<lambda>tc. tc_name tc = ''ls'' \<and> (tc_id tc = [] \<or> tc_id tc = ''ls'')) ?tcs"
    "list_all (\<lambda>p. \<exists>r. result_of p = Some r \<and> tr_call_id r = ''ls'') ?ps" "length ?ps \<le> length ?tcs"
    "inj (\<lambda>i. replicate i CHR ''x'')"
    by (simp_all add: call_of_def result_of_def example_result_def new_part_def inj_def)
  from legacy_results_matched_in_order[OF this] show ?thesis by (auto simp: upt_rec)
qed

end
