(* ===== verification/ResponseBuilder.thy ===== *)
theory ResponseBuilder
  imports Messages
begin

text \<open>
  The builder of answers (\<open>internal/translator/ir/response_builder.go\<close>): from the last message of an answer,
  or one of a request, to the parts that Claude and Gemini know and the calls that OpenAI knows.
\<close>

section \<open>The builder\<close>

record response_builder =
  rb_messages :: "message list"
  rb_usage :: "usage option"
  rb_model :: string
  rb_thinking :: bool

definition last_message :: "response_builder \<Rightarrow> message option" where
  "last_message b = (if rb_messages b = [] then None else Some (last (rb_messages b)))"

definition has_content :: "response_builder \<Rightarrow> bool" where
  "has_content b = (case last_message b of None \<Rightarrow> False | Some m \<Rightarrow> msg_content m \<noteq> [] \<or> msg_tool_calls m \<noteq> [])"

definition text_content :: "response_builder \<Rightarrow> string" where
  "text_content b = (case last_message b of None \<Rightarrow> [] | Some m \<Rightarrow> combine_text_parts m)"

definition reasoning_content :: "response_builder \<Rightarrow> string" where
  "reasoning_content b = (case last_message b of None \<Rightarrow> [] | Some m \<Rightarrow> combine_reasoning_parts m)"

definition builder_tool_calls :: "response_builder \<Rightarrow> tool_call list" where
  "builder_tool_calls b = (case last_message b of None \<Rightarrow> [] | Some m \<Rightarrow> msg_tool_calls m)"

definition has_tool_calls :: "response_builder \<Rightarrow> bool" where
  "has_tool_calls b \<longleftrightarrow> builder_tool_calls b \<noteq> []"

definition determine_finish_reason :: "response_builder \<Rightarrow> string" where
  "determine_finish_reason b = (if builder_tool_calls b \<noteq> [] then ''tool_calls'' else ''stop'')"

definition google_signature :: "string \<Rightarrow> jobj" where
  "google_signature sig =
     (if sig = [] then [] else [(''extra_content'', JObj [(''google'', JObj [(''thought_signature'', JStr sig)])])])"

definition openai_tool_call :: "tool_call \<Rightarrow> jval" where
  "openai_tool_call tc = JObj ([(''id'', JStr (tc_id tc)), (''type'', JStr ''function''),
     (''function'', JObj [(''name'', JStr (tc_name tc)), (''arguments'', JStr (tc_args tc))])] @ google_signature (tc_signature tc))"

definition build_openai_tool_calls :: "response_builder \<Rightarrow> jval list" where
  "build_openai_tool_calls b = List.map openai_tool_call (builder_tool_calls b)"

section \<open>Parts for Gemini\<close>

definition gemini_part :: "content_part \<Rightarrow> jval option" where
  "gemini_part p =
     (case cp_type p of
        ContentTypeReasoning \<Rightarrow>
          if cp_reasoning p = [] then None
          else Some (JObj ([(''text'', JStr (cp_reasoning p)), (''thought'', JBool True)]
                 @ str_unless_empty ''thoughtSignature'' (cp_signature p)))
      | ContentTypeText \<Rightarrow>
          if cp_text p = [] then None
          else Some (JObj ([(''text'', JStr (cp_text p))] @ str_unless_empty ''thoughtSignature'' (cp_signature p)))
      | ContentTypeImage \<Rightarrow>
          (case cp_image p of
             Some im \<Rightarrow> if im_data im = [] then None
               else Some (JObj [(''inlineData'', JObj [(''mimeType'', JStr (im_mime_type im)), (''data'', JStr (im_data im))])])
           | None \<Rightarrow> None)
      | ContentTypeExecutableCode \<Rightarrow>
          (case cp_code_execution p of
             Some c \<Rightarrow> if ce_code c = [] then None
               else Some (JObj [(''executableCode'', JObj [(''language'', JStr (ce_language c)), (''code'', JStr (ce_code c))])])
           | None \<Rightarrow> None)
      | ContentTypeCodeResult \<Rightarrow>
          map_option (\<lambda>c. JObj [(''codeExecutionResult'', JObj [(''outcome'', JStr (ce_outcome c)), (''output'', JStr (ce_output c))])])
            (cp_code_execution p)
      | _ \<Rightarrow> None)"

definition gemini_call_part :: "(string \<Rightarrow> jval option) \<Rightarrow> tool_call \<Rightarrow> jval" where
  "gemini_call_part decode tc = JObj ([(''functionCall'', JObj [(''name'', JStr (tc_name tc)), (''args'', args_as_raw decode (tc_args tc))])]
     @ str_unless_empty ''thoughtSignature'' (tc_signature tc))"

definition build_gemini_content_parts :: "(string \<Rightarrow> jval option) \<Rightarrow> response_builder \<Rightarrow> jval list" where
  "build_gemini_content_parts decode b =
     (case last_message b of
        None \<Rightarrow> []
      | Some m \<Rightarrow> List.map_filter gemini_part (msg_content m) @ List.map (gemini_call_part decode) (msg_tool_calls m))"

section \<open>Parts for Claude\<close>

definition citation_json :: "text_citation \<Rightarrow> jval" where
  "citation_json c =
     (let t = ci_type c in JObj ((''type'', JStr t) #
       (if t = ''char_location'' then [(''document_index'', jint (ci_document_index c)), (''start_char_index'', jint (ci_start_char_index c)),
          (''end_char_index'', jint (ci_end_char_index c))]
        else if t = ''page_location'' then [(''document_index'', jint (ci_document_index c)),
          (''start_page_number'', jint (ci_start_page_number c)), (''end_page_number'', jint (ci_end_page_number c))]
        else if t = ''content_block_location'' then [(''document_index'', jint (ci_document_index c)),
          (''start_block_index'', jint (ci_start_block_index c)), (''end_block_index'', jint (ci_end_block_index c))]
        else if t = ''web_search_result_location'' then str_unless_empty ''encrypted_index'' (ci_encrypted_index c)
        else if t = ''search_result_location'' then [(''search_result_index'', jint (ci_search_result_index c)),
          (''start_block_index'', jint (ci_start_block_index c)), (''end_block_index'', jint (ci_end_block_index c))]
        else [])
       @ str_unless_empty ''url'' (ci_url c) @ str_unless_empty ''title'' (ci_title c) @ str_unless_empty ''file_id'' (ci_file_id c)
       @ str_unless_empty ''cited_text'' (ci_cited_text c) @ str_unless_empty ''document_title'' (ci_document_title c)
       @ str_unless_empty ''source'' (ci_source c)))"

definition base64_source :: "string \<Rightarrow> string \<Rightarrow> jobj" where
  "base64_source mime data = [(''type'', JStr ''base64''), (''media_type'', JStr mime), (''data'', JStr data)]"

definition url_source :: "string \<Rightarrow> jobj" where
  "url_source u = [(''type'', JStr ''url''), (''url'', JStr u)]"

definition file_source :: "string \<Rightarrow> jobj" where
  "file_source i = [(''type'', JStr ''file''), (''file_id'', JStr i)]"

definition image_source :: "image_part \<Rightarrow> jobj" where
  "image_source im =
     (if im_data im \<noteq> [] then base64_source (im_mime_type im) (im_data im)
      else if im_url im \<noteq> [] then url_source (im_url im)
      else if im_file_id im \<noteq> [] then file_source (im_file_id im) else [])"

definition image_block :: "image_part \<Rightarrow> jval option" where
  "image_block im =
     (if image_source im = [] then None else Some (JObj [(''type'', JStr ''image''), (''source'', JObj (image_source im))]))"

text \<open>The type of the data of a file, of which the first argument says what to send without one.\<close>

definition document_source :: "(string \<Rightarrow> jobj) \<Rightarrow> file_part \<Rightarrow> jobj" where
  "document_source media f =
     (if fp_file_data f \<noteq> [] then [(''type'', JStr ''base64''), (''data'', JStr (fp_file_data f))] @ media (fp_mime_type f)
      else if fp_file_url f \<noteq> [] then url_source (fp_file_url f)
      else if fp_file_id f \<noteq> [] then file_source (fp_file_id f) else [])"

definition document_block :: "(string \<Rightarrow> jobj) \<Rightarrow> file_part \<Rightarrow> jval option" where
  "document_block media f =
     (let s = document_source media f
      in if s = [] then None
         else Some (JObj ([(''type'', JStr ''document'')] @ str_unless_empty ''title'' (fp_filename f) @ [(''source'', JObj s)])))"

definition pdf_by_default :: "string \<Rightarrow> jobj" where
  "pdf_by_default mime = [(''media_type'', JStr (if mime = [] then ''application/pdf'' else mime))]"

definition text_block :: "string \<Rightarrow> jval" where
  "text_block t = JObj [(''type'', JStr ''text''), (''text'', JStr t)]"

definition tool_result_block :: "tool_result_part \<Rightarrow> jval" where
  "tool_result_block r = JObj ([(''type'', JStr ''tool_result''), (''tool_use_id'', JStr (tr_call_id r))]
     @ (if tr_is_error r then [(''is_error'', JBool True)] else [])
     @ [(''content'',
         if tr_images r \<noteq> [] \<or> tr_files r \<noteq> []
         then json_slice ((if tr_result r = [] then [] else [text_block (tr_result r)])
                @ List.map_filter image_block (tr_images r)
                @ List.map_filter (document_block (str_unless_empty ''media_type'')) (tr_files r))
         else JStr (tr_result r))])"

definition claude_part :: "bool \<Rightarrow> content_part \<Rightarrow> jval option" where
  "claude_part thinking p =
     (case cp_type p of
        ContentTypeReasoning \<Rightarrow>
          if \<not> thinking \<or> \<not> is_valid_thought_signature (cp_signature p) \<or> cp_reasoning p = [] then None
          else Some (JObj [(''type'', JStr ''thinking''), (''thinking'', JStr (cp_reasoning p)), (''signature'', JStr (cp_signature p))])
      | ContentTypeRedactedThinking \<Rightarrow>
          if \<not> thinking \<or> cp_redacted_data p = [] then None
          else Some (JObj [(''type'', JStr ''redacted_thinking''), (''data'', JStr (cp_redacted_data p))])
      | ContentTypeText \<Rightarrow>
          if cp_text p = [] then None
          else Some (JObj ([(''type'', JStr ''text''), (''text'', JStr (cp_text p))]
                 @ (if cp_citations p = [] then [] else [(''citations'', JArr (List.map citation_json (cp_citations p)))])))
      | ContentTypeImage \<Rightarrow> Option.bind (cp_image p) image_block
      | ContentTypeFile \<Rightarrow> Option.bind (cp_file p) (document_block pdf_by_default)
      | ContentTypeToolResult \<Rightarrow> map_option tool_result_block (cp_tool_result p)
      | _ \<Rightarrow> None)"

definition tool_use_block :: "(string \<Rightarrow> jval option) \<Rightarrow> tool_call \<Rightarrow> jval" where
  "tool_use_block decode tc = JObj [(''type'', JStr ''tool_use''), (''id'', JStr (to_claude_tool_id (tc_id tc))),
     (''name'', JStr (tc_name tc)), (''input'', args_as_raw decode (tc_args tc))]"

definition not_thinking :: "content_part \<Rightarrow> bool" where
  "not_thinking p \<longleftrightarrow> cp_type p \<in> {ContentTypeText, ContentTypeImage, ContentTypeFile, ContentTypeToolResult}"

definition build_claude_content_parts :: "(string \<Rightarrow> jval option) \<Rightarrow> message \<Rightarrow> bool \<Rightarrow> bool \<Rightarrow> jval list" where
  "build_claude_content_parts decode m include_calls thinking =
     List.map_filter (claude_part thinking) (msg_content m)
     @ (if include_calls then List.map (tool_use_block decode) (msg_tool_calls m) else [])
     @ (if has_thinking_parts m \<and> \<not> list_ex not_thinking (msg_content m) \<and> msg_tool_calls m = [] then [text_block '' ''] else [])"

definition apology :: string where
  "apology = ''I apologize, but I encountered an issue generating a response. Please try again.''"

definition builder_claude_parts :: "(string \<Rightarrow> jval option) \<Rightarrow> response_builder \<Rightarrow> jval list" where
  "builder_claude_parts decode b =
     (case last_message b of
        None \<Rightarrow> []
      | Some m \<Rightarrow>
          let parts = build_claude_content_parts decode m True (rb_thinking b)
          in if parts = [] then [text_block apology] else parts)"

section \<open>Usage\<close>

definition builder_usage_map :: "response_builder \<Rightarrow> jobj option" where
  "builder_usage_map b = map_option (\<lambda>u.
     [(''prompt_tokens'', jint (us_prompt u)), (''completion_tokens'', jint (us_completion u)), (''total_tokens'', jint (us_total u))]
     @ unless_empty ''prompt_tokens_details''
         (case us_prompt_details u of None \<Rightarrow> []
          | Some d \<Rightarrow> positive ''cached_tokens'' (pd_cached d) @ positive ''audio_tokens'' (pd_audio d))
     @ unless_empty ''completion_tokens_details''
         (case us_completion_details u of None \<Rightarrow> []
          | Some d \<Rightarrow> positive ''reasoning_tokens'' (cd_reasoning d) @ positive ''audio_tokens'' (cd_audio d)
              @ positive ''accepted_prediction_tokens'' (cd_accepted d) @ positive ''rejected_prediction_tokens'' (cd_rejected d)))
     (rb_usage b)"

end
