(* ===== verification/CommonParams.thy ===== *)
theory CommonParams
  imports Ir
begin

text \<open>
  The parameters that the formats of requests share (\<open>internal/translator/ir/common_params.go\<close>). A
  parameter is read under the first of its names that is there.
\<close>

fun first_existing :: "'j gjson \<Rightarrow> 'j \<Rightarrow> string list \<Rightarrow> 'j option" where
  "first_existing J doc [] = None"
| "first_existing J doc (k # ks) =
     (let v = gj_get J doc k in if gj_exists J v then Some v else first_existing J doc ks)"

definition keys_or :: "string list \<Rightarrow> string list \<Rightarrow> string list" where
  "keys_or ks defaults = (if ks = [] then defaults else ks)"

definition extract_temperature :: "'j gjson \<Rightarrow> 'j \<Rightarrow> string list \<Rightarrow> rat option" where
  "extract_temperature J doc ks = map_option (gj_float J) (first_existing J doc (keys_or ks [''temperature'']))"

definition extract_top_p :: "'j gjson \<Rightarrow> 'j \<Rightarrow> string list \<Rightarrow> rat option" where
  "extract_top_p J doc ks = map_option (gj_float J) (first_existing J doc (keys_or ks [''top_p'', ''topP'']))"

definition extract_top_k :: "'j gjson \<Rightarrow> 'j \<Rightarrow> string list \<Rightarrow> int option" where
  "extract_top_k J doc ks = map_option (gj_int J) (first_existing J doc (keys_or ks [''top_k'', ''topK'']))"

definition extract_max_tokens :: "'j gjson \<Rightarrow> 'j \<Rightarrow> string list \<Rightarrow> int option" where
  "extract_max_tokens J doc ks = map_option (gj_int J) (first_existing J doc
     (keys_or ks [''max_tokens'', ''max_output_tokens'', ''max_completion_tokens'', ''maxOutputTokens'']))"

text \<open>An array ends the search, also an empty one; an empty text does not.\<close>

fun stop_sequences_at :: "'j gjson \<Rightarrow> 'j \<Rightarrow> string list \<Rightarrow> string list" where
  "stop_sequences_at J doc [] = []"
| "stop_sequences_at J doc (k # ks) =
     (let v = gj_get J doc k in
      if gj_exists J v \<and> gj_is_array J v then List.map (gj_str J) (gj_array J v)
      else if gj_exists J v \<and> gj_str J v \<noteq> [] then [gj_str J v]
      else stop_sequences_at J doc ks)"

definition extract_stop_sequences :: "'j gjson \<Rightarrow> 'j \<Rightarrow> string list \<Rightarrow> string list" where
  "extract_stop_sequences J doc ks = stop_sequences_at J doc (keys_or ks [''stop'', ''stop_sequences'', ''stopSequences''])"

definition extract_frequency_penalty :: "'j gjson \<Rightarrow> 'j \<Rightarrow> rat option" where
  "extract_frequency_penalty J doc = map_option (gj_float J) (first_existing J doc [''frequency_penalty''])"

definition extract_presence_penalty :: "'j gjson \<Rightarrow> 'j \<Rightarrow> rat option" where
  "extract_presence_penalty J doc = map_option (gj_float J) (first_existing J doc [''presence_penalty''])"

definition extract_logprobs :: "'j gjson \<Rightarrow> 'j \<Rightarrow> bool option" where
  "extract_logprobs J doc = map_option (gj_bool J) (first_existing J doc [''logprobs''])"

definition extract_top_logprobs :: "'j gjson \<Rightarrow> 'j \<Rightarrow> int option" where
  "extract_top_logprobs J doc = map_option (gj_int J) (first_existing J doc [''top_logprobs''])"

definition extract_candidate_count :: "'j gjson \<Rightarrow> 'j \<Rightarrow> int option" where
  "extract_candidate_count J doc = map_option (gj_int J) (first_existing J doc [''n''])"

definition apply_common_params :: "'j gjson \<Rightarrow> 'j \<Rightarrow> chat_request \<Rightarrow> chat_request" where
  "apply_common_params J doc req = req\<lparr>rq_temperature := extract_temperature J doc [], rq_top_p := extract_top_p J doc [],
     rq_top_k := extract_top_k J doc [], rq_max_tokens := extract_max_tokens J doc [],
     rq_stop_sequences := extract_stop_sequences J doc []\<rparr>"

definition apply_openai_extended_params :: "'j gjson \<Rightarrow> 'j \<Rightarrow> chat_request \<Rightarrow> chat_request" where
  "apply_openai_extended_params J doc req = req\<lparr>rq_frequency_penalty := extract_frequency_penalty J doc,
     rq_presence_penalty := extract_presence_penalty J doc, rq_logprobs := extract_logprobs J doc,
     rq_top_logprobs := extract_top_logprobs J doc, rq_candidate_count := extract_candidate_count J doc\<rparr>"

end
