(* ===== verification/ClaudeRequest.thy ===== *)
theory ClaudeRequest
  imports ResponseBuilder CommonParams ClaudeSse
begin

text \<open>
  Requests and answers in Claude's format, read (\<open>internal/translator/to_ir/claude.go\<close>,
  \<open>ParseClaudeContentBlock\<close> of \<open>ir/claude_builder.go\<close>) and written (\<open>from_ir/claude.go\<close>). The JSON reader,
  decoder and encoder are arguments.
\<close>

section \<open>Blocks of an answer\<close>

fun join :: "string \<Rightarrow> string list \<Rightarrow> string" where
  "join sep [] = []"
| "join sep [s] = s"
| "join sep (s # t # ss) = s @ sep @ join sep (t # ss)"

definition block_type :: "'j gjson \<Rightarrow> 'j \<Rightarrow> string" where
  "block_type J b = gj_str J (gj_get J b ''type'')"

definition parse_citation :: "'j gjson \<Rightarrow> 'j \<Rightarrow> text_citation" where
  "parse_citation J c =
     \<lparr>ci_type = gj_str J (gj_get J c ''type''), ci_document_index = gj_int J (gj_get J c ''document_index''),
      ci_start_char_index = gj_int J (gj_get J c ''start_char_index''), ci_end_char_index = gj_int J (gj_get J c ''end_char_index''),
      ci_url = gj_str J (gj_get J c ''url''), ci_title = gj_str J (gj_get J c ''title''), ci_file_id = gj_str J (gj_get J c ''file_id''),
      ci_cited_text = gj_str J (gj_get J c ''cited_text''), ci_document_title = gj_str J (gj_get J c ''document_title''),
      ci_start_page_number = gj_int J (gj_get J c ''start_page_number''), ci_end_page_number = gj_int J (gj_get J c ''end_page_number''),
      ci_start_block_index = gj_int J (gj_get J c ''start_block_index''), ci_end_block_index = gj_int J (gj_get J c ''end_block_index''),
      ci_encrypted_index = gj_str J (gj_get J c ''encrypted_index''), ci_search_result_index = gj_int J (gj_get J c ''search_result_index''),
      ci_source = gj_str J (gj_get J c ''source'')\<rparr>"

text \<open>The arguments of a call as they are written, and the result of one.\<close>

definition block_call :: "'j gjson \<Rightarrow> 'j \<Rightarrow> tool_call" where
  "block_call J b =
     (let args = gj_raw J (gj_get J b ''input'')
      in call_of (gj_str J (gj_get J b ''id'')) (gj_str J (gj_get J b ''name'')) (if args = [] then ''{}'' else args))"

definition texts_in :: "'j gjson \<Rightarrow> 'j list \<Rightarrow> string" where
  "texts_in J bs = join [CHR 0x0A] (List.map (\<lambda>p. gj_str J (gj_get J p ''text'')) (filter (\<lambda>p. block_type J p = ''text'') bs))"

definition block_result_text :: "'j gjson \<Rightarrow> 'j \<Rightarrow> string" where
  "block_result_text J c =
     (if gj_is_string J c then gj_str J c else if gj_is_array J c then texts_in J (gj_array J c) else gj_raw J c)"

definition block_result :: "'j gjson \<Rightarrow> 'j \<Rightarrow> content_part" where
  "block_result J b = (new_part ContentTypeToolResult)\<lparr>cp_tool_result :=
     Some \<lparr>tr_call_id = gj_str J (gj_get J b ''tool_use_id''), tr_result = block_result_text J (gj_get J b ''content''),
           tr_is_error = gj_bool J (gj_get J b ''is_error''), tr_images = [], tr_files = []\<rparr>\<rparr>"

definition add_part :: "content_part \<Rightarrow> message \<Rightarrow> message" where
  "add_part p m = m\<lparr>msg_content := msg_content m @ [p]\<rparr>"

definition add_call :: "tool_call \<Rightarrow> message \<Rightarrow> message" where
  "add_call c m = m\<lparr>msg_tool_calls := msg_tool_calls m @ [c]\<rparr>"

definition parse_claude_content_block :: "'j gjson \<Rightarrow> 'j \<Rightarrow> message \<Rightarrow> message" where
  "parse_claude_content_block J b m =
     (let t = block_type J b in
      if t = ''text'' then
        let s = gj_str J (gj_get J b ''text''); cs = gj_get J b ''citations'' in
        if s = [] then m
        else add_part ((text_part s)\<lparr>cp_citations :=
               (if gj_exists J cs \<and> gj_is_array J cs then List.map (parse_citation J) (gj_array J cs) else [])\<rparr>) m
      else if t = ''thinking'' then
        let s = gj_str J (gj_get J b ''thinking'') in
        if s = [] then m
        else add_part ((new_part ContentTypeReasoning)\<lparr>cp_reasoning := s, cp_signature := gj_str J (gj_get J b ''signature'')\<rparr>) m
      else if t = ''image'' then
        let src = gj_get J b ''source'' in
        if gj_exists J src \<and> block_type J src = ''base64''
        then add_part ((new_part ContentTypeImage)\<lparr>cp_image := Some (no_image\<lparr>im_mime_type := gj_str J (gj_get J src ''media_type''),
               im_data := gj_str J (gj_get J src ''data'')\<rparr>)\<rparr>) m
        else m
      else if t \<in> {''tool_use'', ''mcp_tool_use'', ''server_tool_use''} then add_call (block_call J b) m
      else if t \<in> {''tool_result'', ''mcp_tool_result'', ''web_search_tool_result''} then add_part (block_result J b) m
      else if t = ''redacted_thinking'' then
        let d = gj_str J (gj_get J b ''data'') in
        if d = [] then m else add_part ((new_part ContentTypeRedactedThinking)\<lparr>cp_redacted_data := d\<rparr>) m
      else m)"

definition parse_claude_response :: "'j gjson \<Rightarrow> string \<Rightarrow> string + message list \<times> usage option" where
  "parse_claude_response J raw =
     (case parse_and_validate J raw of
        (doc, valid) \<Rightarrow>
          if \<not> valid then Inl ''invalid json''
          else
            let u = gj_get J doc ''usage''; us = (if gj_exists J u then parse_claude_usage J u else None); c = gj_get J doc ''content''
            in if \<not> gj_is_array J c then Inr ([], us)
               else
                 let m = fold (parse_claude_content_block J) (gj_array J c) (new_message RoleAssistant)
                 in Inr (if msg_content m \<noteq> [] \<or> msg_tool_calls m \<noteq> [] then [m] else [], us))"

text \<open>The provider's own reader, which takes content that is no array for a single block.\<close>

definition provider_parse_response :: "'j gjson \<Rightarrow> string \<Rightarrow> string + message list \<times> usage option" where
  "provider_parse_response J raw =
     (case parse_and_validate J raw of
        (doc, valid) \<Rightarrow>
          if \<not> valid then Inl ''invalid json''
          else
            let m = fold (parse_claude_content_block J) (gj_array J (gj_get J doc ''content'')) (new_message RoleAssistant);
                us = parse_claude_usage J (gj_get J doc ''usage'')
            in Inr (if msg_content m = [] \<and> msg_tool_calls m = [] then [] else [m], us))"

section \<open>Messages of a request\<close>

definition source_image :: "'j gjson \<Rightarrow> 'j \<Rightarrow> image_part" where
  "source_image J src =
     (let t = block_type J src in
      if t = ''base64'' then no_image\<lparr>im_mime_type := gj_str J (gj_get J src ''media_type''), im_data := gj_str J (gj_get J src ''data'')\<rparr>
      else if t = ''url'' then no_image\<lparr>im_url := gj_str J (gj_get J src ''url'')\<rparr>
      else if t = ''file'' then no_image\<lparr>im_file_id := gj_str J (gj_get J src ''file_id'')\<rparr>
      else no_image)"

definition source_file :: "'j gjson \<Rightarrow> string \<Rightarrow> 'j \<Rightarrow> file_part" where
  "source_file J title src =
     (let t = block_type J src;
          f = \<lparr>fp_file_id = [], fp_file_url = [], fp_filename = title, fp_file_data = [],
               fp_mime_type = gj_str J (gj_get J src ''media_type'')\<rparr>
      in if t = ''base64'' then f\<lparr>fp_file_data := gj_str J (gj_get J src ''data'')\<rparr>
         else if t = ''url'' then f\<lparr>fp_file_url := gj_str J (gj_get J src ''url'')\<rparr>
         else if t = ''file'' then f\<lparr>fp_file_id := gj_str J (gj_get J src ''file_id'')\<rparr>
         else f)"

text \<open>What a tool answers: texts, and images and documents with every reference their source has.\<close>

definition result_image :: "'j gjson \<Rightarrow> 'j \<Rightarrow> image_part option" where
  "result_image J p =
     (let s = gj_get J p ''source'' in
      if block_type J p = ''image'' \<and> gj_exists J s
      then Some (no_image\<lparr>im_mime_type := gj_str J (gj_get J s ''media_type''), im_data := gj_str J (gj_get J s ''data''),
             im_url := gj_str J (gj_get J s ''url''), im_file_id := gj_str J (gj_get J s ''file_id'')\<rparr>)
      else None)"

definition result_file :: "'j gjson \<Rightarrow> 'j \<Rightarrow> file_part option" where
  "result_file J p =
     (let s = gj_get J p ''source'' in
      if block_type J p = ''document'' \<and> gj_exists J s
      then Some \<lparr>fp_file_id = gj_str J (gj_get J s ''file_id''), fp_file_url = gj_str J (gj_get J s ''url''),
             fp_filename = gj_str J (gj_get J p ''title''), fp_file_data = gj_str J (gj_get J s ''data''),
             fp_mime_type = gj_str J (gj_get J s ''media_type'')\<rparr>
      else None)"

definition request_result :: "'j gjson \<Rightarrow> 'j \<Rightarrow> tool_result_part" where
  "request_result J b =
     (let c = gj_get J b ''content'';
          r = \<lparr>tr_call_id = gj_str J (gj_get J b ''tool_use_id''), tr_result = [],
               tr_is_error = gj_bool J (gj_get J b ''is_error''), tr_images = [], tr_files = []\<rparr>
      in if gj_is_string J c then r\<lparr>tr_result := gj_str J c\<rparr>
         else if gj_is_array J c
         then r\<lparr>tr_result := texts_in J (gj_array J c), tr_images := List.map_filter (result_image J) (gj_array J c),
                tr_files := List.map_filter (result_file J) (gj_array J c)\<rparr>
         else r\<lparr>tr_result := gj_raw J c\<rparr>)"

definition request_block :: "'j gjson \<Rightarrow> 'j \<Rightarrow> message \<Rightarrow> message" where
  "request_block J b m =
     (let t = block_type J b in
      if t = ''text'' then add_part (text_part (gj_str J (gj_get J b ''text''))) m
      else if t = ''thinking'' \<or> t = ''reasoning''
      then add_part ((new_part ContentTypeReasoning)\<lparr>cp_reasoning := gj_str J (gj_get J b (if t = ''reasoning'' then ''text'' else ''thinking'')),
             cp_signature := gj_str J (gj_get J b ''signature'')\<rparr>) m
      else if t = ''redacted_thinking''
      then add_part ((new_part ContentTypeRedactedThinking)\<lparr>cp_redacted_data := gj_str J (gj_get J b ''data'')\<rparr>) m
      else if t = ''image'' then
        (if gj_exists J (gj_get J b ''source'')
         then add_part ((new_part ContentTypeImage)\<lparr>cp_image := Some (source_image J (gj_get J b ''source''))\<rparr>) m else m)
      else if t = ''document'' then
        (if gj_exists J (gj_get J b ''source'')
         then add_part ((new_part ContentTypeFile)\<lparr>cp_file :=
                Some (source_file J (gj_str J (gj_get J b ''title'')) (gj_get J b ''source''))\<rparr>) m else m)
      else if t \<in> {''tool_use'', ''mcp_tool_use'', ''server_tool_use''} then add_call (block_call J b) m
      else if t \<in> {''tool_result'', ''mcp_tool_result'', ''web_search_tool_result''}
      then add_part ((new_part ContentTypeToolResult)\<lparr>cp_tool_result := Some (request_result J b)\<rparr>) m
      else m)"

text \<open>A message of a user that holds results of tools only is one of the role for tools.\<close>

definition tool_role :: "message \<Rightarrow> message" where
  "tool_role m =
     (if msg_role m = RoleUser \<and> msg_content m \<noteq> [] \<and> list_all (\<lambda>p. cp_type p = ContentTypeToolResult) (msg_content m)
      then m\<lparr>msg_role := RoleTool\<rparr> else m)"

definition parse_cache_control :: "'j gjson \<Rightarrow> 'j \<Rightarrow> cache_control option" where
  "parse_cache_control J m =
     (let cc = gj_get J m ''cache_control''; ttl = gj_get J cc ''ttl''
      in if gj_is_object J cc
         then Some \<lparr>cc_type = block_type J cc, cc_ttl = (if gj_exists J ttl then Some (gj_int J ttl) else None)\<rparr> else None)"

definition parse_claude_message :: "'j gjson \<Rightarrow> 'j \<Rightarrow> message" where
  "parse_claude_message J m =
     (let msg = (new_message (if gj_str J (gj_get J m ''role'') = ''assistant'' then RoleAssistant else RoleUser))
                  \<lparr>msg_cache_control := parse_cache_control J m\<rparr>;
          content = gj_get J m ''content''
      in tool_role (if gj_is_string J content then add_part (text_part (gj_str J content)) msg
                    else fold (request_block J) (gj_array J content) msg))"

section \<open>Requests\<close>

text \<open>Names of the metadata for tools that a provider has built in.\<close>

definition meta_google_search :: string where "meta_google_search = ''google_search''"
definition meta_claude_computer :: string where "meta_claude_computer = ''claude:computer''"
definition meta_claude_bash :: string where "meta_claude_bash = ''claude:bash''"
definition meta_claude_text_editor :: string where "meta_claude_text_editor = ''claude:text_editor''"
definition meta_openai_user :: string where "meta_openai_user = ''openai:user''"

fun replace_all :: "string \<Rightarrow> string \<Rightarrow> string \<Rightarrow> string" where
  "replace_all p q [] = []"
| "replace_all p q (c # s) =
     (if p \<noteq> [] \<and> has_prefix (c # s) p then q @ replace_all p q (drop (length p - 1) s) else c # replace_all p q s)"

definition drop_url_format :: "string \<Rightarrow> string" where
  "drop_url_format = replace_all ''\"url\":{\"type\":\"string\",\"format\":\"uri\",'' ''\"url\":{\"type\":\"string\",''"

definition decode_object :: "(string \<Rightarrow> jval option) \<Rightarrow> string \<Rightarrow> jobj option" where
  "decode_object decode s = (case decode s of Some (JObj m) \<Rightarrow> Some m | _ \<Rightarrow> None)"

definition int_field :: "'j gjson \<Rightarrow> 'j \<Rightarrow> string \<Rightarrow> jobj" where
  "int_field J t k = (let v = gj_get J t k in if gj_exists J v then [(k, jint (gj_int J v))] else [])"

definition builtin_tool :: "'j gjson \<Rightarrow> 'j \<Rightarrow> (string \<times> jobj) option" where
  "builtin_tool J t =
     (let ty = block_type J t; original = [(''_original_type'', JStr ty)] in
      if gj_exists J (gj_get J t ''input_schema'') then None
      else if has_prefix ty ''web_search_'' then Some (meta_google_search, original @ int_field J t ''max_uses'')
      else if has_prefix ty ''computer_''
      then Some (meta_claude_computer, original @ int_field J t ''display_width_px'' @ int_field J t ''display_height_px''
                   @ int_field J t ''display_number'')
      else if has_prefix ty ''bash_'' then Some (meta_claude_bash, original)
      else if has_prefix ty ''text_editor_'' then Some (meta_claude_text_editor, original)
      else None)"

definition parse_claude_tool :: "'j gjson \<Rightarrow> (string \<Rightarrow> jval option) \<Rightarrow> 'j \<Rightarrow> tool_definition" where
  "parse_claude_tool J decode t =
     (let schema = gj_get J t ''input_schema'';
          params = (if gj_exists J schema then map_option clean_json_schema (decode_object decode (gj_raw J schema)) else None)
      in \<lparr>td_name = gj_str J (gj_get J t ''name''), td_description = gj_str J (gj_get J t ''description''),
          td_parameters = Some (case params of Some m \<Rightarrow> m | None \<Rightarrow> [])\<rparr>)"

definition add_claude_tool :: "'j gjson \<Rightarrow> (string \<Rightarrow> jval option) \<Rightarrow> 'j \<Rightarrow> chat_request \<Rightarrow> chat_request" where
  "add_claude_tool J decode t req =
     (case builtin_tool J t of
        Some (k, conf) \<Rightarrow> req\<lparr>rq_metadata := mput k (JObj conf) (rq_metadata req)\<rparr>
      | None \<Rightarrow> req\<lparr>rq_tools := rq_tools req @ [parse_claude_tool J decode t]\<rparr>)"

definition parse_mcp_server :: "'j gjson \<Rightarrow> (string \<Rightarrow> jval option) \<Rightarrow> 'j \<Rightarrow> mcp_server" where
  "parse_mcp_server J decode srv =
     \<lparr>mcp_type = block_type J srv, mcp_url = gj_str J (gj_get J srv ''url''), mcp_name = gj_str J (gj_get J srv ''name''),
      mcp_token = gj_str J (gj_get J srv ''authorization_token''),
      mcp_configuration = (let cfg = gj_get J srv ''tool_configuration''
         in if gj_is_object J cfg then decode_object decode (gj_raw J cfg) else None)\<rparr>"

definition parse_claude_thinking :: "'j gjson \<Rightarrow> 'j \<Rightarrow> thinking_config option" where
  "parse_claude_thinking J th =
     (if \<not> gj_is_object J th then None
      else if block_type J th = ''enabled'' then
        let b = int32_of (gj_int J (gj_get J th ''budget_tokens''))
        in Some (no_thinking\<lparr>th_include_thoughts := True,
             th_budget := Some (if b = 0 then int32_of (gj_int J (gj_get J th ''budgetTokens'')) else b)\<rparr>)
      else if block_type J th = ''disabled'' then Some (no_thinking\<lparr>th_budget := Some 0\<rparr>)
      else None)"

definition parallel_calls :: "'j gjson \<Rightarrow> 'j \<Rightarrow> chat_request \<Rightarrow> chat_request" where
  "parallel_calls J tc req =
     (let v = gj_get J tc ''disable_parallel_tool_use''
      in if gj_exists J v then req\<lparr>rq_parallel_tool_calls := Some (\<not> gj_bool J v)\<rparr> else req)"

definition parse_claude_tool_choice :: "'j gjson \<Rightarrow> 'j \<Rightarrow> chat_request \<Rightarrow> chat_request" where
  "parse_claude_tool_choice J tc req =
     (if \<not> gj_exists J tc then req
      else if gj_is_object J tc then
        let t = block_type J tc in
        if t = ''auto'' then req\<lparr>rq_tool_choice := ''auto''\<rparr>
        else if t = ''any'' then parallel_calls J tc (req\<lparr>rq_tool_choice := ''required''\<rparr>)
        else if t = ''tool''
        then parallel_calls J tc (req\<lparr>rq_tool_choice := ''function'', rq_tool_choice_function := gj_str J (gj_get J tc ''name'')\<rparr>)
        else if t = ''none'' then req\<lparr>rq_tool_choice := ''none''\<rparr>
        else req
      else req\<lparr>rq_tool_choice := (if gj_str J tc = ''any'' then ''required'' else gj_str J tc)\<rparr>)"

definition parse_claude_system :: "'j gjson \<Rightarrow> 'j \<Rightarrow> message list" where
  "parse_claude_system J sys =
     (let text = (if gj_is_string J sys then gj_str J sys else texts_in J (gj_array J sys))
      in if gj_exists J sys \<and> text \<noteq> [] then [(new_message RoleSystem)\<lparr>msg_content := [text_part text]\<rparr>] else [])"

definition parse_claude_request :: "'j gjson \<Rightarrow> (string \<Rightarrow> jval option) \<Rightarrow> string \<Rightarrow> string + chat_request" where
  "parse_claude_request J decode raw =
     (case parse_and_validate J (drop_url_format raw) of
        (doc, valid) \<Rightarrow>
          if \<not> valid then Inl ''invalid json''
          else
            let req = (new_request (gj_str J (gj_get J doc ''model'')))
                  \<lparr>rq_max_tokens := extract_max_tokens J doc [''max_tokens''], rq_temperature := extract_temperature J doc [],
                   rq_top_p := extract_top_p J doc [], rq_top_k := extract_top_k J doc [],
                   rq_stop_sequences := extract_stop_sequences J doc [''stop_sequences''],
                   rq_messages := parse_claude_system J (gj_get J doc ''system'')
                     @ List.map (parse_claude_message J) (gj_array J (gj_get J doc ''messages''))\<rparr>;
                req = fold (add_claude_tool J decode) (gj_array J (gj_get J doc ''tools'')) req;
                req = req\<lparr>rq_mcp_servers := List.map (parse_mcp_server J decode) (gj_array J (gj_get J doc ''mcp_servers'')),
                          rq_thinking := parse_claude_thinking J (gj_get J doc ''thinking'')\<rparr>;
                req = parse_claude_tool_choice J (gj_get J doc ''tool_choice'') req;
                meta = gj_get J doc ''metadata'';
                given = (if gj_is_object J meta then (case decode_object decode (gj_raw J meta) of Some m \<Rightarrow> m | None \<Rightarrow> []) else [])
            in Inr (req\<lparr>rq_metadata := mput_all given (rq_metadata req)\<rparr>))"

section \<open>Writing a request\<close>

definition cache_control_json :: "cache_control \<Rightarrow> jval" where
  "cache_control_json cc = JObj ([(''type'', JStr (cc_type cc))] @ optional ''ttl'' (map_option (\<lambda>n. jint n) (cc_ttl cc)))"

definition with_cache_control :: "bool \<Rightarrow> message \<Rightarrow> jobj" where
  "with_cache_control allowed m =
     (if allowed then optional ''cache_control'' (map_option cache_control_json (msg_cache_control m)) else [])"

text \<open>The role for tools sends a document with its title, also an empty one, and with its type as it is.\<close>

definition titled_document :: "file_part \<Rightarrow> jval option" where
  "titled_document f =
     (let s = document_source (\<lambda>mime. [(''media_type'', JStr mime)]) f
      in if s = [] then None
         else Some (JObj [(''type'', JStr ''document''), (''title'', JStr (fp_filename f)), (''source'', JObj s)]))"

definition role_tool_block :: "tool_result_part \<Rightarrow> jval" where
  "role_tool_block r = JObj ([(''type'', JStr ''tool_result''), (''tool_use_id'', JStr (tr_call_id r))]
     @ (if tr_is_error r then [(''is_error'', JBool True)] else [])
     @ [(''content'',
         if tr_images r \<noteq> [] \<or> tr_files r \<noteq> []
         then json_slice ((if tr_result r = [] then [] else [text_block (tr_result r)])
                @ List.map_filter image_block (tr_images r) @ List.map_filter titled_document (tr_files r))
         else JStr (tr_result r))])"

definition role_content :: "string \<Rightarrow> jval list \<Rightarrow> jobj" where
  "role_content r ps = [(''role'', JStr r), (''content'', JArr ps)]"

definition claude_message_json :: "(string \<Rightarrow> jval option) \<Rightarrow> bool \<Rightarrow> message \<Rightarrow> jval option" where
  "claude_message_json decode thinking m =
     (case msg_role m of
        RoleSystem \<Rightarrow> None
      | RoleUser \<Rightarrow>
          let ps = build_claude_content_parts decode m False False
          in if ps = [] then None else Some (JObj (role_content ''user'' ps @ with_cache_control True m))
      | RoleAssistant \<Rightarrow>
          let ps = build_claude_content_parts decode m (msg_tool_calls m \<noteq> []) thinking
          in if ps = [] then None
             else Some (JObj (role_content ''assistant'' ps @ with_cache_control (\<not> has_thinking_parts m) m))
      | RoleTool \<Rightarrow>
          let rs = List.map role_tool_block (List.map_filter result_of (msg_content m))
          in if rs = [] then None else Some (JObj (role_content ''user'' rs)))"

text \<open>Of several system messages the last one that is not empty is sent.\<close>

definition system_text :: "message list \<Rightarrow> string option" where
  "system_text ms = fold (\<lambda>m s. if msg_role m = RoleSystem \<and> combine_text_parts m \<noteq> [] then Some (combine_text_parts m) else s) ms None"

definition thinking_enabled :: "chat_request \<Rightarrow> bool" where
  "thinking_enabled req =
     (case rq_thinking req of
        None \<Rightarrow> False
      | Some th \<Rightarrow> th_include_thoughts th \<and> (case th_budget th of Some b \<Rightarrow> b \<noteq> 0 | None \<Rightarrow> False))"

definition claude_thinking_json :: "chat_request \<Rightarrow> jobj" where
  "claude_thinking_json req =
     (case rq_thinking req of
        None \<Rightarrow> []
      | Some th \<Rightarrow>
          let b = (case th_budget th of Some b \<Rightarrow> b | None \<Rightarrow> 0) in
          if thinking_enabled req
          then [(''thinking'', JObj [(''type'', JStr ''enabled''), (''budget_tokens'', jint b)])]
          else if b = 0 \<and> \<not> th_include_thoughts th then [(''thinking'', JObj [(''type'', JStr ''disabled'')])] else [])"

definition blank_schema :: jval where
  "blank_schema = JObj [(''type'', JStr ''object''), (''properties'', JObj []), (''additionalProperties'', JBool False),
     (''$schema'', JStr json_schema_draft)]"

fun claude_tools :: "tool_definition list \<Rightarrow> schema_cache \<Rightarrow> jval list \<times> schema_cache" where
  "claude_tools [] cache = ([], cache)"
| "claude_tools (t # ts) cache =
     (let (ps, cache) = clean_json_schema_for_claude (td_parameters t) cache; (rest, cache) = claude_tools ts cache
      in (JObj [(''name'', JStr (td_name t)), (''description'', JStr (td_description t)),
            (''input_schema'', case ps of Some m \<Rightarrow> JObj m | None \<Rightarrow> blank_schema)] # rest, cache))"

definition builtin_names :: "(string, string) gomap" where
  "builtin_names = [(meta_google_search, ''web_search''), (meta_claude_computer, ''computer''), (meta_claude_bash, ''bash''),
     (meta_claude_text_editor, ''str_replace_editor'')]"

definition builtin_tool_json :: "string \<Rightarrow> jval \<Rightarrow> jval" where
  "builtin_tool_json name v =
     (let dated = [(''name'', JStr name), (''type'', JStr (name @ ''_20241022''))] in
      case v of
        JObj cfg \<Rightarrow>
          JObj (mput_all (mdel ''_original_type'' cfg)
            (case mget cfg ''_original_type'' of
               Some (JStr ot) \<Rightarrow> if ot \<noteq> [] then [(''name'', JStr name), (''type'', JStr ot)] else dated
             | _ \<Rightarrow> dated))
      | _ \<Rightarrow> JObj dated)"

text \<open>\<open>names\<close> is the order in which the loop visits the map of the built-in tools.\<close>

definition builtin_tools :: "(string, string) gomap \<Rightarrow> jobj \<Rightarrow> jval list" where
  "builtin_tools names meta = List.map_filter (\<lambda>(k, name). map_option (builtin_tool_json name) (mget meta k)) names"

definition claude_tool_choice :: "chat_request \<Rightarrow> jobj" where
  "claude_tool_choice req =
     (let c = rq_tool_choice req;
          tc = (if c = ''function'' then [(''type'', JStr ''tool''), (''name'', JStr (rq_tool_choice_function req))]
                else if c = ''required'' \<or> c = ''any'' then [(''type'', JStr ''any'')]
                else if c = ''auto'' then [(''type'', JStr ''auto'')] else [])
      in if tc = [] then []
         else [(''tool_choice'', JObj (tc @ (if rq_parallel_tool_calls req = Some False
                                            then [(''disable_parallel_tool_use'', JBool True)] else [])))])"

definition mcp_server_json :: "mcp_server \<Rightarrow> jval" where
  "mcp_server_json s = JObj ([(''type'', JStr (mcp_type s)), (''url'', JStr (mcp_url s)), (''name'', JStr (mcp_name s))]
     @ str_unless_empty ''authorization_token'' (mcp_token s)
     @ optional ''tool_configuration'' (map_option JObj (mcp_configuration s)))"

definition claude_user :: "jobj \<Rightarrow> string" where
  "claude_user meta = (case mget meta meta_openai_user of Some (JStr u) \<Rightarrow> if u \<noteq> [] then u else ''llm-mux-user'' | _ \<Rightarrow> ''llm-mux-user'')"

definition claude_metadata :: "jobj \<Rightarrow> jobj" where
  "claude_metadata meta =
     mput_all (filter (\<lambda>(k, v). k \<notin> set (mkeys builtin_names)) meta) [(''user_id'', JStr (claude_user meta))]"

definition convert_claude_request ::
    "(string \<Rightarrow> jval option) \<Rightarrow> (string, string) gomap \<Rightarrow> chat_request \<Rightarrow> schema_cache \<Rightarrow> jval \<times> schema_cache" where
  "convert_claude_request decode names req cache =
     (let (tools, cache) = claude_tools (rq_tools req) cache;
          tools = (if rq_tool_choice req = ''none'' then [] else tools @ builtin_tools names (rq_metadata req))
      in (JObj ([(''model'', JStr (rq_model req)), (''max_tokens'', jint (case rq_max_tokens req of Some n \<Rightarrow> n | None \<Rightarrow> 32000)),
             (''metadata'', JObj (claude_metadata (rq_metadata req))),
             (''messages'', json_slice (List.map_filter (claude_message_json decode (thinking_enabled req)) (rq_messages req)))]
           @ optional ''temperature'' (map_option JNum (rq_temperature req)) @ optional ''top_p'' (map_option JNum (rq_top_p req))
           @ optional ''top_k'' (map_option (\<lambda>n. jint n) (rq_top_k req))
           @ (if rq_stop_sequences req = [] then [] else [(''stop_sequences'', strings (rq_stop_sequences req))])
           @ claude_thinking_json req @ optional ''system'' (map_option JStr (system_text (rq_messages req)))
           @ (if tools = [] then [] else (''tools'', JArr tools) # claude_tool_choice req)
           @ (if rq_mcp_servers req = [] then [] else [(''mcp_servers'', JArr (List.map mcp_server_json (rq_mcp_servers req)))])),
         cache))"

section \<open>Writing an answer\<close>

definition claude_usage_json :: "usage \<Rightarrow> jobj" where
  "claude_usage_json u =
     (let cached = cached_tokens_of u in
      [(''input_tokens'', jint (if 0 < cached then us_prompt u - cached else us_prompt u)), (''output_tokens'', jint (us_completion u))]
      @ positive ''cache_creation_input_tokens'' (us_cache_creation u) @ positive ''cache_read_input_tokens'' cached)"

definition to_claude_response ::
    "(string \<Rightarrow> jval option) \<Rightarrow> message list \<Rightarrow> usage option \<Rightarrow> string \<Rightarrow> string \<Rightarrow> jval" where
  "to_claude_response decode ms us model mid =
     (let b = \<lparr>rb_messages = ms, rb_usage = us, rb_model = model, rb_thinking = False\<rparr>
      in JObj ([(''id'', JStr mid), (''type'', JStr ''message''), (''role'', JStr ''assistant''),
             (''content'', JArr (builder_claude_parts decode b)), (''model'', JStr model),
             (''stop_reason'', JStr (if has_tool_calls b then ''tool_use'' else ''end_turn''))]
           @ optional ''usage'' (map_option (\<lambda>u. JObj (claude_usage_json u)) us)))"

section \<open>Lemmas\<close>

text \<open>The reader of texts on objects whose keys have no dot.\<close>

lemma split_char_none: "c \<notin> set s \<Longrightarrow> split_char c s = [s]"
  by (induction s) (auto simp: split_char_def)

lemma text_reader_get: "CHR ''.'' \<notin> set k \<Longrightarrow> gj_get (text_reader parse print) (Some (JObj m)) k = mget m k"
  by (simp add: text_reader_def value_reader_def split_char_none field_of_def)

lemma text_reader_simps:
  "gj_str (text_reader parse print) (Some (JStr s)) = s"
  "gj_str (text_reader parse print) None = []"
  "gj_int (text_reader parse print) (Some (JNum n)) = \<lfloor>n\<rfloor>"
  "gj_bool (text_reader parse print) (Some (JBool b)) = b"
  "gj_bool (text_reader parse print) None = False"
  "gj_exists (text_reader parse print) v \<longleftrightarrow> v \<noteq> None"
  "gj_raw (text_reader parse print) (Some x) = print x"
  "gj_array (text_reader parse print) (Some (JArr xs)) = List.map Some xs"
  "gj_is_array (text_reader parse print) (Some (JArr xs))"
  "gj_is_string (text_reader parse print) (Some (JStr s))"
  "\<not> gj_is_string (text_reader parse print) (Some (JArr xs))"
  "gj_is_object (text_reader parse print) (Some (JObj m))"
  "\<not> gj_is_object (text_reader parse print) None"
  by (simp_all add: text_reader_def value_reader_def)

lemmas reading = text_reader_get text_reader_simps block_type_def

section \<open>Messages that pass unchanged\<close>

text \<open>
  A part with all that Claude's format keeps of it: a text without citations, a thought with a
  signature, an image as data, the text of a result.
\<close>

definition kept_part :: "bool \<Rightarrow> content_part \<Rightarrow> bool" where
  "kept_part thinking p \<longleftrightarrow>
     (case cp_type p of
        ContentTypeText \<Rightarrow> cp_text p \<noteq> [] \<and> p = text_part (cp_text p)
      | ContentTypeReasoning \<Rightarrow> thinking \<and> cp_reasoning p \<noteq> [] \<and> is_valid_thought_signature (cp_signature p)
          \<and> p = (new_part ContentTypeReasoning)\<lparr>cp_reasoning := cp_reasoning p, cp_signature := cp_signature p\<rparr>
      | ContentTypeRedactedThinking \<Rightarrow> thinking \<and> cp_redacted_data p \<noteq> []
          \<and> p = (new_part ContentTypeRedactedThinking)\<lparr>cp_redacted_data := cp_redacted_data p\<rparr>
      | ContentTypeImage \<Rightarrow> (case cp_image p of
            Some im \<Rightarrow> im_data im \<noteq> [] \<and> im = no_image\<lparr>im_mime_type := im_mime_type im, im_data := im_data im\<rparr>
              \<and> p = (new_part ContentTypeImage)\<lparr>cp_image := Some im\<rparr>
          | None \<Rightarrow> False)
      | ContentTypeToolResult \<Rightarrow> (case cp_tool_result p of
            Some r \<Rightarrow> tr_images r = [] \<and> tr_files r = [] \<and> p = (new_part ContentTypeToolResult)\<lparr>cp_tool_result := Some r\<rparr>
          | None \<Rightarrow> False)
      | _ \<Rightarrow> False)"

definition kept_call :: "(string \<Rightarrow> jval option) \<Rightarrow> (jval \<Rightarrow> string) \<Rightarrow> tool_call \<Rightarrow> bool" where
  "kept_call decode print tc \<longleftrightarrow> has_prefix (tc_id tc) ''toolu_'' \<and> tc_args tc \<noteq> []
     \<and> print (args_as_raw decode (tc_args tc)) = tc_args tc \<and> tc = call_of (tc_id tc) (tc_name tc) (tc_args tc)"

definition kept_message :: "(string \<Rightarrow> jval option) \<Rightarrow> (jval \<Rightarrow> string) \<Rightarrow> bool \<Rightarrow> message \<Rightarrow> bool" where
  "kept_message decode print thinking m \<longleftrightarrow> msg_refusal m = [] \<and>
     (case msg_role m of
        RoleUser \<Rightarrow> msg_tool_calls m = [] \<and> list_all (kept_part False) (msg_content m)
          \<and> list_ex (\<lambda>p. cp_type p \<noteq> ContentTypeToolResult) (msg_content m)
      | RoleAssistant \<Rightarrow> list_all (kept_part thinking) (msg_content m) \<and> list_all (kept_call decode print) (msg_tool_calls m)
          \<and> (list_ex not_thinking (msg_content m) \<or> msg_tool_calls m \<noteq> [])
          \<and> (\<not> has_thinking_parts m \<or> msg_cache_control m = None)
      | RoleTool \<Rightarrow> msg_tool_calls m = [] \<and> msg_content m \<noteq> [] \<and> msg_cache_control m = None
          \<and> list_all (\<lambda>p. kept_part False p \<and> cp_type p = ContentTypeToolResult) (msg_content m)
      | RoleSystem \<Rightarrow> False)"

lemma kept_part_read:
  assumes "kept_part thinking p"
  shows "case claude_part thinking p of Some v \<Rightarrow> request_block (text_reader parse print) (Some v) m = add_part p m | None \<Rightarrow> False"
proof (cases "cp_type p")
  case ContentTypeText
  have p: "p = text_part (cp_text p)" and ne: "cp_text p \<noteq> []" using assms ContentTypeText by (simp_all add: kept_part_def)
  have "cp_citations p = []" by (subst p) (simp add: text_part_def new_part_def)
  then show ?thesis using p ne ContentTypeText by (simp add: claude_part_def request_block_def reading)
next
  case ContentTypeToolResult
  then obtain r where r: "cp_tool_result p = Some r" "tr_images r = []" "tr_files r = []"
    "p = (new_part ContentTypeToolResult)\<lparr>cp_tool_result := Some r\<rparr>"
    using assms by (auto simp: kept_part_def split: option.splits)
  obtain i x e where "r = \<lparr>tr_call_id = i, tr_result = x, tr_is_error = e, tr_images = [], tr_files = []\<rparr>"
    using r(2,3) by (cases r) auto
  then show ?thesis using r ContentTypeToolResult
    by (auto simp: claude_part_def request_block_def request_result_def tool_result_block_def reading Let_def)
next
  case ContentTypeImage
  then obtain im where im: "cp_image p = Some im" "im_data im \<noteq> []" "im = no_image\<lparr>im_mime_type := im_mime_type im, im_data := im_data im\<rparr>"
    "p = (new_part ContentTypeImage)\<lparr>cp_image := Some im\<rparr>"
    using assms by (auto simp: kept_part_def split: option.splits)
  then have "claude_part thinking p = Some (JObj [(''type'', JStr ''image''), (''source'', JObj (base64_source (im_mime_type im) (im_data im)))])"
    using ContentTypeImage by (simp add: claude_part_def image_block_def image_source_def base64_source_def)
  moreover have "source_image (text_reader parse print) (Some (JObj (base64_source (im_mime_type im) (im_data im)))) = im"
    by (subst (3) im(3)) (simp add: source_image_def base64_source_def reading)
  ultimately show ?thesis using im(4) by (simp add: request_block_def reading)
qed (use assms in \<open>auto simp: kept_part_def claude_part_def request_block_def reading split: option.splits\<close>)


lemma kept_parts_read:
  "list_all (kept_part thinking) ps \<Longrightarrow>
   fold (request_block (text_reader parse print)) (List.map Some (List.map_filter (claude_part thinking) ps)) m
     = m\<lparr>msg_content := msg_content m @ ps\<rparr>"
proof (induction ps arbitrary: m)
  case (Cons p ps)
  obtain v where "claude_part thinking p = Some v" "\<And>m. request_block (text_reader parse print) (Some v) m = add_part p m"
    using kept_part_read[of thinking p parse print] Cons.prems by (cases "claude_part thinking p") auto
  then show ?case using Cons by (simp add: map_filter_simps add_part_def)
qed (simp add: map_filter_simps)

lemma kept_call_read:
  assumes "kept_call decode print tc"
  shows "request_block (text_reader parse print) (Some (tool_use_block decode tc)) m = add_call tc m"
proof -
  have "take 6 (tc_id tc) = ''toolu_''" using assms by (auto simp: kept_call_def has_prefix_iff prefix_def)
  then have "to_claude_tool_id (tc_id tc) = tc_id tc" by (simp add: to_claude_tool_id_def)
  then show ?thesis using assms by (simp add: kept_call_def request_block_def tool_use_block_def block_call_def reading)
qed

lemma kept_calls_read:
  "list_all (kept_call decode print) tcs \<Longrightarrow>
   fold (request_block (text_reader parse print)) (List.map Some (List.map (tool_use_block decode) tcs)) m
     = m\<lparr>msg_tool_calls := msg_tool_calls m @ tcs\<rparr>"
  by (induction tcs arbitrary: m) (simp_all add: kept_call_read add_call_def)

lemma cache_control_read:
  assumes "gj_get (text_reader parse print) (Some v) ''cache_control'' = map_option cache_control_json cc"
  shows "parse_cache_control (text_reader parse print) (Some v) = cc"
proof (cases cc)
  case None
  then show ?thesis using assms by (simp add: parse_cache_control_def reading)
next
  case (Some c)
  then show ?thesis using assms
    by (cases c; cases "cc_ttl c") (simp_all add: parse_cache_control_def cache_control_json_def optional_def reading)
qed

lemma tool_role_result: "kept_part thinking p \<Longrightarrow> cp_type p = ContentTypeToolResult \<Longrightarrow> \<exists>r. result_of p = Some r \<and> tr_images r = [] \<and> tr_files r = []"
  by (auto simp: kept_part_def result_of_def split: option.splits)

text \<open>A result that is sent by the role for tools is the block that a user sends.\<close>

lemma role_tool_block_plain: "tr_images r = [] \<Longrightarrow> tr_files r = [] \<Longrightarrow> role_tool_block r = tool_result_block r"
  by (simp add: role_tool_block_def tool_result_block_def)

lemma role_tool_blocks:
  "list_all (\<lambda>p. kept_part thinking p \<and> cp_type p = ContentTypeToolResult) ps \<Longrightarrow>
   List.map role_tool_block (List.map_filter result_of ps) = List.map_filter (claude_part thinking) ps"
proof (induction ps)
  case (Cons p ps)
  obtain r where "result_of p = Some r" "tr_images r = []" "tr_files r = []" using tool_role_result Cons.prems by fastforce
  then show ?case using Cons
    by (auto simp: map_filter_simps role_tool_block_plain claude_part_def result_of_def split: if_splits)
qed (simp add: map_filter_simps)

lemma no_tool_role: "list_ex (\<lambda>p. cp_type p \<noteq> ContentTypeToolResult) (msg_content m) \<Longrightarrow> tool_role m = m"
  by (auto simp: tool_role_def list_all_iff list_ex_iff)

lemma kept_not_thinking: "kept_part False p \<Longrightarrow> not_thinking p"
  by (auto simp: kept_part_def not_thinking_def split: content_type.splits)

lemma message_fields:
  "msg_role (new_message r) = r" "msg_content (new_message r) = []" "msg_tool_calls (new_message r) = []"
  by (simp_all add: new_message_def)


text \<open>What is read of a role, its blocks and the cache control behind them.\<close>

lemma read_message:
  assumes "parts = List.map_filter (claude_part thinking) (msg_content m) @ List.map (tool_use_block decode) (msg_tool_calls m)"
    and "list_all (kept_part thinking) (msg_content m)" "list_all (kept_call decode print) (msg_tool_calls m)"
    and "r = ''assistant'' \<or> r = ''user''" "mget rest ''cache_control'' = map_option cache_control_json (msg_cache_control m)"
    and "msg_refusal m = []"
  shows "parse_claude_message (text_reader parse print) (Some (JObj (role_content r parts @ rest))) =
    tool_role (m\<lparr>msg_role := (if r = ''assistant'' then RoleAssistant else RoleUser)\<rparr>)"
proof -
  let ?J = "text_reader parse print" and ?v = "JObj (role_content r parts @ rest)"
  let ?start = "(new_message (if r = ''assistant'' then RoleAssistant else RoleUser))\<lparr>msg_cache_control := msg_cache_control m\<rparr>"
  have cc: "parse_cache_control ?J (Some ?v) = msg_cache_control m"
    by (rule cache_control_read) (use assms(5) in \<open>simp add: reading role_content_def\<close>)
  have start: "msg_content ?start = []" "msg_tool_calls ?start = []" by (simp_all add: new_message_def)
  have "fold (request_block ?J) (List.map Some parts) ?start
      = ?start\<lparr>msg_content := msg_content m, msg_tool_calls := msg_tool_calls m\<rparr>"
    unfolding assms(1) map_append fold_append comp_apply
    using kept_parts_read[OF assms(2), of parse print ?start] kept_calls_read[OF assms(3), of parse] start by simp
  also have "\<dots> = m\<lparr>msg_role := (if r = ''assistant'' then RoleAssistant else RoleUser)\<rparr>"
    using assms(6) by (cases m) (simp add: new_message_def)
  finally show ?thesis
    using cc by (simp add: parse_claude_message_def role_content_def reading Let_def)
qed

lemma kept_parts_empty: "list_all (kept_part thinking) ps \<Longrightarrow> List.map_filter (claude_part thinking) ps = [] \<longleftrightarrow> ps = []"
  using kept_part_read[of thinking "hd ps"] by (cases ps) (auto simp: map_filter_simps split: option.splits)

lemma same_role: "msg_role m = r \<Longrightarrow> m\<lparr>msg_role := r\<rparr> = m"
  by (cases m) simp

lemma with_cache_control_get: "mget (with_cache_control allowed m) ''cache_control''
    = (if allowed then map_option cache_control_json (msg_cache_control m) else None)"
  by (simp add: with_cache_control_def optional_def split: option.splits)

section \<open>Properties\<close>



definition example_message :: message where
  "example_message = (new_message RoleAssistant)\<lparr>
     msg_content := [(new_part ContentTypeReasoning)\<lparr>cp_reasoning := ''hm'', cp_signature := ''s''\<rparr>, text_part ''so''],
     msg_tool_calls := [call_of ''toolu_1'' ''ls'' ''{}'']\<rparr>"


definition sent_field :: "jval \<Rightarrow> string \<Rightarrow> jval option" where
  "sent_field v k = (case v of JObj m \<Rightarrow> mget m k | _ \<Rightarrow> None)"

text \<open>
  C34: The identifier of a call is sent with Claude's prefix put before it, the one of its result as
  it is. They name the same call only if the identifier had the prefix already, which those of
  clients of other formats do not.
\<close>

theorem result_misses_its_call:
  assumes "tr_call_id r = tc_id tc"
  shows "sent_field (role_tool_block r) ''tool_use_id'' = sent_field (tool_use_block decode tc) ''id'' \<longleftrightarrow> has_prefix (tc_id tc) ''toolu_''"
proof -
  have "to_claude_tool_id i = i \<longleftrightarrow> take 6 i = ''toolu_''" for i
    by (auto simp: to_claude_tool_id_def dest!: arg_cong[of _ i length])
  moreover have "take 6 i = ''toolu_'' \<longleftrightarrow> has_prefix i ''toolu_''" for i
    by (simp add: has_prefix_def eval_nat_numeral)
  ultimately show ?thesis
    using assms by (simp add: sent_field_def role_tool_block_def tool_use_block_def) metis
qed

theorem result_misses_its_call_witness:
  "sent_field (role_tool_block \<lparr>tr_call_id = ''call_1'', tr_result = ''ok'', tr_is_error = False, tr_images = [], tr_files = []\<rparr>) ''tool_use_id''
    \<noteq> sent_field (tool_use_block (\<lambda>s. None) (call_of ''call_1'' ''ls'' ''{}'')) ''id''"
proof -
  let ?r = "\<lparr>tr_call_id = ''call_1'', tr_result = ''ok'', tr_is_error = False, tr_images = [], tr_files = []\<rparr>"
  have "tr_call_id ?r = tc_id (call_of ''call_1'' ''ls'' ''{}'')" "\<not> has_prefix (tc_id (call_of ''call_1'' ''ls'' ''{}'')) ''toolu_''"
    by code_simp+
  then show ?thesis using result_misses_its_call[of ?r "call_of ''call_1'' ''ls'' ''{}''" "\<lambda>s. None"] by simp
qed

lemma claude_part_no_thought: "claude_part False p = Some v \<Longrightarrow> sent_field v ''type'' \<notin> {Some (JStr ''thinking''), Some (JStr ''redacted_thinking'')}"
  by (cases "cp_type p") (auto simp: claude_part_def sent_field_def image_block_def document_block_def tool_result_block_def Let_def
      split: if_splits option.splits Option.bind_splits)

text \<open>
  An answer that is not streamed never shows a Claude client the thoughts of the model, but it
  is never empty when there is a message.
\<close>

theorem answers_hold_no_thoughts:
  "case to_claude_response decode ms us model mid of
     JObj m \<Rightarrow> (case mget m ''content'' of
        Some (JArr parts) \<Rightarrow> list_all (\<lambda>v. sent_field v ''type'' \<notin> {Some (JStr ''thinking''), Some (JStr ''redacted_thinking'')}) parts
          \<and> (parts = [] \<longleftrightarrow> ms = [])
      | _ \<Rightarrow> False)
   | _ \<Rightarrow> False"
proof -
  have "list_all (\<lambda>v. sent_field v ''type'' \<notin> {Some (JStr ''thinking''), Some (JStr ''redacted_thinking'')})
      (List.map_filter (claude_part False) ps)" for ps
    using claude_part_no_thought by (induction ps) (auto simp: map_filter_simps split: option.splits)
  then show ?thesis
    by (auto simp: to_claude_response_def builder_claude_parts_def build_claude_content_parts_def last_message_def Let_def
        text_block_def tool_use_block_def sent_field_def list_all_iff)
qed

text \<open>
  The output tokens of the same usage differ between an answer and a stream as soon as the model
  thought: only the stream adds the tokens for thinking.
\<close>

theorem output_tokens_agree_iff:
  "mget (finish_usage (Some u)) ''output_tokens'' = mget (claude_usage_json u) ''output_tokens'' \<longleftrightarrow> us_thoughts u = 0"
  by (simp add: finish_usage_def claude_usage_json_def Let_def)

end
