(* ===== verification/ContentParts.thy ===== *)
theory ContentParts
  imports ResponseBuilder
begin

text \<open>
  The parts of messages for Gemini and for Claude behind Vertex (\<open>internal/translator/from_ir/parts\<close>), and the
  merging of consecutive contents of one role (\<open>ir/content_coalescer.go\<close>). The two places that merge share
  the locale \<open>coalescing\<close>.
\<close>

section \<open>Parts\<close>

definition inline_data :: "string \<Rightarrow> string \<Rightarrow> jval" where
  "inline_data mime data = JObj [(''inlineData'', JObj [(''mimeType'', JStr mime), (''data'', JStr data)])]"

definition file_data :: "string \<Rightarrow> string \<Rightarrow> jval" where
  "file_data mime uri = JObj [(''fileData'', JObj [(''mimeType'', JStr mime), (''fileUri'', JStr uri)])]"

definition build_text_part :: "string \<Rightarrow> jval" where
  "build_text_part t = JObj [(''text'', JStr t)]"

definition valid_signature_field :: "string \<Rightarrow> jobj" where
  "valid_signature_field sig = (if is_valid_thought_signature sig then [(''thoughtSignature'', JStr sig)] else [])"

definition build_thought_part :: "string \<Rightarrow> string \<Rightarrow> jval" where
  "build_thought_part t sig = JObj ([(''text'', JStr t), (''thought'', JBool True)] @ valid_signature_field sig)"

definition build_image_part :: "image_part option \<Rightarrow> jval option" where
  "build_image_part im =
     (case im of
        None \<Rightarrow> None
      | Some i \<Rightarrow>
          if im_data i \<noteq> [] then Some (inline_data (im_mime_type i) (im_data i))
          else if has_prefix (im_url i) ''files/'' \<or> has_prefix (im_url i) ''gs://''
          then Some (file_data (im_mime_type i) (im_url i)) else None)"

definition build_audio_part :: "audio_part option \<Rightarrow> jval option" where
  "build_audio_part au =
     (case au of
        None \<Rightarrow> None
      | Some a \<Rightarrow>
          if au_file_uri a \<noteq> [] then Some (file_data (au_mime_type a) (au_file_uri a))
          else if au_data a \<noteq> [] then Some (inline_data (au_mime_type a) (au_data a)) else None)"

definition build_video_part :: "video_part option \<Rightarrow> jval option" where
  "build_video_part vp =
     (case vp of
        None \<Rightarrow> None
      | Some v \<Rightarrow>
          if vp_data v \<noteq> [] then Some (inline_data (vp_mime_type v) (vp_data v))
          else if vp_file_uri v \<noteq> [] then Some (file_data (vp_mime_type v) (vp_file_uri v)) else None)"

definition dummy_thought_signature :: string where
  "dummy_thought_signature = ''c2tpcF90aG91Z2h0X3NpZ25hdHVyZV92YWxpZGF0b3I=''"

definition call_signature :: "bool \<Rightarrow> string \<Rightarrow> jobj" where
  "call_signature g3 sig =
     (if is_valid_thought_signature sig then [(''thoughtSignature'', JStr sig)]
      else if g3 then [(''thoughtSignature'', JStr dummy_thought_signature)] else [])"

definition build_function_call :: "string \<Rightarrow> string \<Rightarrow> jval \<Rightarrow> string \<Rightarrow> bool \<Rightarrow> jval" where
  "build_function_call name i args sig g3 =
     JObj ((''functionCall'', JObj [(''name'', JStr name), (''args'', args), (''id'', JStr i)]) # call_signature g3 sig)"

definition build_function_response :: "string \<Rightarrow> string \<Rightarrow> jval \<Rightarrow> jval" where
  "build_function_response name i response =
     JObj [(''functionResponse'', JObj [(''name'', JStr name), (''id'', JStr i), (''response'', response)])]"

definition build_user_part :: "content_part \<Rightarrow> jval option" where
  "build_user_part p =
     (case cp_type p of
        ContentTypeText \<Rightarrow> if cp_text p = [] then None else Some (build_text_part (cp_text p))
      | ContentTypeImage \<Rightarrow> build_image_part (cp_image p)
      | ContentTypeAudio \<Rightarrow> build_audio_part (cp_audio p)
      | ContentTypeVideo \<Rightarrow> build_video_part (cp_video p)
      | _ \<Rightarrow> None)"

definition build_user_parts :: "content_part list \<Rightarrow> jval list" where
  "build_user_parts ps = List.map_filter build_user_part ps"

section \<open>Merging\<close>

text \<open>Contents are pairs of a role and parts.\<close>

type_synonym contents = "(string \<times> jval list) list"

definition flat :: "(string \<times> 'p list) list \<Rightarrow> (string \<times> 'p) list" where
  "flat cs = concat (List.map (\<lambda>(r, ps). List.map (Pair r) ps) cs)"

lemma flat_simps [simp]: "flat [] = []" "flat ((r, ps) # cs) = List.map (Pair r) ps @ flat cs"
  by (simp_all add: flat_def)

fun alternating :: "(string \<times> 'p list) list \<Rightarrow> bool" where
  "alternating [] = True"
| "alternating [(r, ps)] \<longleftrightarrow> ps \<noteq> []"
| "alternating ((r, ps) # (q, qs) # cs) \<longleftrightarrow> ps \<noteq> [] \<and> r \<noteq> q \<and> alternating ((q, qs) # cs)"

text \<open>
  What the clients rely on: nothing is lost or reordered, and the roles alternate. What else comes with the parts,
  the tag \<open>t\<close>, has no influence on that.
\<close>

locale coalescing =
  fixes ok :: "'s \<Rightarrow> bool" and view :: "'s \<Rightarrow> (string \<times> 'p list) list"
    and emit :: "'t \<Rightarrow> string \<Rightarrow> 'p list \<Rightarrow> 's \<Rightarrow> 's"
  assumes emit_ok: "ok s \<Longrightarrow> ok (emit t r ps s)"
    and emit_flat: "ok s \<Longrightarrow> flat (view (emit t r ps s)) = flat (view s) @ List.map (Pair r) ps"
    and ok_alternating: "ok s \<Longrightarrow> alternating (view s)"
begin

lemma emit_all_ok: "ok s \<Longrightarrow> ok (fold (\<lambda>(t, r, ps). emit t r ps) xs s)"
  by (induction xs arbitrary: s) (auto simp: emit_ok)

lemma emit_all_flat: "ok s \<Longrightarrow> flat (view (fold (\<lambda>(t, r, ps). emit t r ps) xs s)) = flat (view s) @ flat (List.map snd xs)"
proof (induction xs arbitrary: s)
  case (Cons x xs)
  obtain t r ps where x: "x = (t, r, ps)" by (cases x)
  show ?case using Cons.IH [OF emit_ok [OF Cons.prems, of t r ps]] by (simp add: x emit_flat [OF Cons.prems])
qed simp

lemma emit_all_alternating: "ok s \<Longrightarrow> alternating (view (fold (\<lambda>(t, r, ps). emit t r ps) xs s))"
  using emit_all_ok ok_alternating by blast

end

lemma flat_append: "flat (xs @ ys) = flat xs @ flat ys"
  by (simp add: flat_def)

lemma alternating_snoc:
  "alternating (cs @ [(r, ps)]) \<longleftrightarrow> alternating cs \<and> ps \<noteq> [] \<and> (cs = [] \<or> fst (last cs) \<noteq> r)"
  by (induction cs rule: alternating.induct) auto

text \<open>More parts for the last content.\<close>

definition extend_last :: "'p list \<Rightarrow> (string \<times> 'p list) list \<Rightarrow> (string \<times> 'p list) list" where
  "extend_last ps cs = butlast cs @ [(fst (last cs), snd (last cs) @ ps)]"

lemma extend_last_flat:
  assumes "cs \<noteq> []" "fst (last cs) = r"
  shows "flat (extend_last ps cs) = flat cs @ List.map (Pair r) ps"
proof -
  have "flat cs = flat (butlast cs @ [last cs])" using assms(1) by simp
  then show ?thesis using assms(2) by (cases "last cs") (simp add: extend_last_def flat_def)
qed

lemma extend_last_alternating:
  assumes "cs \<noteq> []" "alternating cs"
  shows "alternating (extend_last ps cs)"
proof -
  obtain r qs where "last cs = (r, qs)" by fastforce
  then have "cs = butlast cs @ [(r, qs)]" using assms(1) by (metis append_butlast_last_id)
  then show ?thesis using assms(2) \<open>last cs = (r, qs)\<close> by (metis alternating_snoc append_is_Nil_conv extend_last_def fst_conv snd_conv)
qed

lemma last_extend_last: "cs \<noteq> [] \<Longrightarrow> fst (last (extend_last ps cs)) = fst (last cs)" "extend_last ps cs \<noteq> []"
  by (simp_all add: extend_last_def)

section \<open>The coalescer of Gemini's contents\<close>

record coalescer =
  co_contents :: contents
  co_last_role :: string

definition new_coalescer :: coalescer where
  "new_coalescer = \<lparr>co_contents = [], co_last_role = []\<rparr>"

definition put_coalescer :: "coalescer \<Rightarrow> coalescer" where
  "put_coalescer c = c\<lparr>co_contents := [], co_last_role := []\<rparr>"

definition coalescer_emit :: "string \<Rightarrow> jval list \<Rightarrow> coalescer \<Rightarrow> coalescer" where
  "coalescer_emit r ps c =
     (if ps = [] then c
      else if r = co_last_role c \<and> co_contents c \<noteq> [] then c\<lparr>co_contents := extend_last ps (co_contents c)\<rparr>
      else c\<lparr>co_contents := co_contents c @ [(r, ps)], co_last_role := r\<rparr>)"

definition content_json :: "string \<times> jval list \<Rightarrow> jval" where
  "content_json c = JObj [(''role'', JStr (fst c)), (''parts'', JArr (snd c))]"

definition coalescer_build :: "coalescer \<Rightarrow> jval list" where
  "coalescer_build c = List.map content_json (co_contents c)"

definition coalescer_ok :: "coalescer \<Rightarrow> bool" where
  "coalescer_ok c \<longleftrightarrow> alternating (co_contents c) \<and> (co_contents c \<noteq> [] \<longrightarrow> co_last_role c = fst (last (co_contents c)))"

lemma coalescer_emit_flat:
  assumes "coalescer_ok c"
  shows "flat (co_contents (coalescer_emit r ps c)) = flat (co_contents c) @ List.map (Pair r) ps"
proof (cases "r = co_last_role c \<and> co_contents c \<noteq> []")
  case True
  then show ?thesis using assms by (simp add: coalescer_ok_def coalescer_emit_def extend_last_flat)
next
  case False
  show ?thesis
  proof (cases "ps = []")
    case ps: False
    have "coalescer_emit r ps c = c\<lparr>co_contents := co_contents c @ [(r, ps)], co_last_role := r\<rparr>"
      using False ps by (auto simp: coalescer_emit_def)
    then show ?thesis by (simp add: flat_append)
  qed (simp add: coalescer_emit_def)
qed

lemma coalescer_emit_ok:
  assumes "coalescer_ok c"
  shows "coalescer_ok (coalescer_emit r ps c)"
proof (cases "ps = []")
  case ps: False
  show ?thesis
  proof (cases "r = co_last_role c \<and> co_contents c \<noteq> []")
    case True
    then show ?thesis using assms ps
      by (simp add: coalescer_ok_def coalescer_emit_def extend_last_alternating last_extend_last)
  next
    case False
    have "coalescer_emit r ps c = c\<lparr>co_contents := co_contents c @ [(r, ps)], co_last_role := r\<rparr>"
      using False ps by (auto simp: coalescer_emit_def)
    moreover have "co_contents c = [] \<or> fst (last (co_contents c)) \<noteq> r" using False assms
      by (metis coalescer_ok_def)
    ultimately show ?thesis using assms ps by (simp add: coalescer_ok_def alternating_snoc)
  qed
qed (use assms in \<open>simp add: coalescer_emit_def\<close>)

interpretation gemini_contents: coalescing coalescer_ok co_contents "\<lambda>t :: unit. coalescer_emit"
  by unfold_locales (simp_all add: coalescer_emit_ok coalescer_emit_flat, simp add: coalescer_ok_def)

end
