(* ===== verification/VertexRequest.thy ===== *)
theory VertexRequest
  imports ClaudeRequest ContentParts
begin

text \<open>
  Requests for Claude models behind Vertex, in Gemini's format (\<open>from_ir/claude_vertex.go\<close>): the contents, merged
  by role, with every call of a tool followed by its result, the generation config and the tools.
\<close>

section \<open>Messages with merged parts\<close>

record coalesced_msg =
  cm_role :: string
  cm_parts :: "jval list"
  cm_cache :: "cache_control option"

definition replace_some :: "'a option \<Rightarrow> 'a option \<Rightarrow> 'a option" where
  "replace_some new old = (if new \<noteq> None then new else old)"

definition coalesce_message :: "string \<Rightarrow> jval list \<Rightarrow> cache_control option \<Rightarrow> coalesced_msg list \<Rightarrow> coalesced_msg list" where
  "coalesce_message r ps cc ms =
     (if ms \<noteq> [] \<and> cm_role (last ms) = r
      then butlast ms @ [(last ms)\<lparr>cm_parts := cm_parts (last ms) @ ps, cm_cache := replace_some cc (cm_cache (last ms))\<rparr>]
      else ms @ [\<lparr>cm_role = r, cm_parts = ps, cm_cache = cc\<rparr>])"

definition append_or_coalesce :: "string \<Rightarrow> jval \<Rightarrow> cache_control option \<Rightarrow> coalesced_msg list \<Rightarrow> coalesced_msg list" where
  "append_or_coalesce r p cc ms =
     (if ms \<noteq> [] \<and> cm_role (last ms) = r
      then butlast ms @ [(last ms)\<lparr>cm_parts := cm_parts (last ms) @ [p], cm_cache := replace_some cc (cm_cache (last ms))\<rparr>]
      else ms @ [\<lparr>cm_role = r, cm_parts = [p], cm_cache = cc\<rparr>])"

definition messages_view :: "coalesced_msg list \<Rightarrow> (string \<times> jval list) list" where
  "messages_view ms = List.map (\<lambda>m. (cm_role m, cm_parts m)) ms"

section \<open>Calls and their results\<close>

definition part_field :: "jval \<Rightarrow> string \<Rightarrow> jval option" where
  "part_field p k = (case p of JObj m \<Rightarrow> mget m k | _ \<Rightarrow> None)"

definition part_id :: "string \<Rightarrow> jval \<Rightarrow> string option" where
  "part_id k p =
     (case part_field p k of
        Some (JObj f) \<Rightarrow> (case mget f ''id'' of Some (JStr i) \<Rightarrow> if i \<noteq> [] then Some i else None | _ \<Rightarrow> None)
      | _ \<Rightarrow> None)"

definition response_id :: "jval \<Rightarrow> string option" where
  "response_id p = part_id ''functionResponse'' p"

definition call_id :: "jval \<Rightarrow> string option" where
  "call_id p = part_id ''functionCall'' p"

definition has_response :: "jval \<Rightarrow> bool" where
  "has_response p = (part_field p ''functionResponse'' \<noteq> None)"

definition has_call :: "jval \<Rightarrow> bool" where
  "has_call p = (case part_field p ''functionCall'' of Some (JObj f) \<Rightarrow> True | _ \<Rightarrow> False)"

definition tool_responses :: "coalesced_msg list \<Rightarrow> (string, jval) gomap" where
  "tool_responses ms =
     fold (\<lambda>p rs. case response_id p of Some i \<Rightarrow> mput i p rs | None \<Rightarrow> rs) (concat (List.map cm_parts ms)) []"

type_synonym pairing = "coalesced_msg list \<times> string list"

definition pair_step ::
    "(string, jval) gomap \<Rightarrow> string \<times> jval \<times> cache_control option \<Rightarrow> pairing \<Rightarrow> pairing" where
  "pair_step rs f st =
     (case f of (r, p, cc) \<Rightarrow> case st of (result, used) \<Rightarrow>
        if has_response p then (result, used)
        else if has_call p
        then let result = append_or_coalesce ''model'' p cc result in
             (case call_id p of
                None \<Rightarrow> (result, used)
              | Some i \<Rightarrow>
                  (case mget rs i of
                     None \<Rightarrow> (result, used)
                   | Some q \<Rightarrow> if i \<in> set used then (result, used)
                       else (append_or_coalesce ''user'' q None result, i # used)))
        else (append_or_coalesce r p cc result, used))"

definition flat_parts :: "coalesced_msg list \<Rightarrow> (string \<times> jval \<times> cache_control option) list" where
  "flat_parts ms = concat (List.map (\<lambda>m. List.map (\<lambda>p. (cm_role m, p, cm_cache m)) (cm_parts m)) ms)"

definition validate_coalesced_tool_pairs :: "coalesced_msg list \<Rightarrow> coalesced_msg list" where
  "validate_coalesced_tool_pairs ms =
     (let rs = tool_responses ms in
      if rs = [] then ms
      else filter (\<lambda>m. cm_parts m \<noteq> []) (fst (fold (pair_step rs) (flat_parts ms) ([], []))))"

section \<open>Contents\<close>

definition result_object :: "tool_result_part \<Rightarrow> jval" where
  "result_object r = JObj [(if tr_is_error r then ''error'' else ''content'', JStr (tr_result r))]"

definition vertex_result_part :: "(string, string) gomap \<Rightarrow> tool_result_part \<Rightarrow> jval" where
  "vertex_result_part names r =
     (let name = (case mget names (tr_call_id r) of Some n \<Rightarrow> n | None \<Rightarrow> []) in
      build_function_response (if name = [] then tr_call_id r else name) (to_claude_tool_id (tr_call_id r)) (result_object r))"

definition build_claude_tool_result_parts :: "message \<Rightarrow> (string, string) gomap \<Rightarrow> jval list" where
  "build_claude_tool_result_parts m names = List.map (vertex_result_part names) (List.map_filter result_of (msg_content m))"

definition vertex_part :: "content_part \<Rightarrow> jval option" where
  "vertex_part p =
     (case cp_type p of
        ContentTypeReasoning \<Rightarrow> if cp_reasoning p = [] then None else Some (build_thought_part (cp_reasoning p) (cp_signature p))
      | ContentTypeRedactedThinking \<Rightarrow> if cp_redacted_data p = [] then None else Some (JObj [(''data'', JStr (cp_redacted_data p))])
      | ContentTypeText \<Rightarrow> if cp_text p = [] then None else Some (build_text_part (cp_text p))
      | _ \<Rightarrow> None)"

text \<open>\<open>fresh\<close> gives the identifiers that are generated for the calls of a message that have none.\<close>

definition vertex_call_part :: "(string \<Rightarrow> jval option) \<Rightarrow> string \<Rightarrow> tool_call \<Rightarrow> jval" where
  "vertex_call_part decode fresh tc =
     build_function_call (tc_name tc) (to_claude_tool_id (if tc_id tc = [] then fresh else tc_id tc)) (args_as_raw decode (tc_args tc))
       (tc_signature tc) False"

definition build_claude_assistant_parts :: "(string \<Rightarrow> jval option) \<Rightarrow> (nat \<Rightarrow> string) \<Rightarrow> message \<Rightarrow> jval list" where
  "build_claude_assistant_parts decode fresh m =
     List.map_filter vertex_part (msg_content m)
     @ List.map (\<lambda>(i, tc). vertex_call_part decode (fresh i) tc) (enumerate 0 (msg_tool_calls m))"

definition vertex_role_parts ::
    "(string \<Rightarrow> jval option) \<Rightarrow> (nat \<Rightarrow> string) \<Rightarrow> (string, string) gomap \<Rightarrow> message \<Rightarrow> string \<times> jval list" where
  "vertex_role_parts decode fresh names m =
     (case msg_role m of
        RoleUser \<Rightarrow> (''user'', build_user_parts (msg_content m) @ build_claude_tool_result_parts m names)
      | RoleAssistant \<Rightarrow> (''model'', build_claude_assistant_parts decode fresh m)
      | RoleTool \<Rightarrow> (''user'', build_claude_tool_result_parts m names)
      | RoleSystem \<Rightarrow> ([], []))"

definition add_vertex_message ::
    "(string \<Rightarrow> jval option) \<Rightarrow> (string, string) gomap \<Rightarrow> (nat \<Rightarrow> string) \<times> message \<Rightarrow> coalesced_msg list \<Rightarrow> coalesced_msg list" where
  "add_vertex_message decode names fm ms =
     (case fm of (fresh, m) \<Rightarrow>
        if msg_role m = RoleSystem then ms
        else case vertex_role_parts decode fresh names m of (r, ps) \<Rightarrow>
          if ps = [] then ms else coalesce_message r ps (msg_cache_control m) ms)"

text \<open>A part of thinking, for which Vertex takes no cache control.\<close>

definition is_thinking_part :: "jval \<Rightarrow> bool" where
  "is_thinking_part p \<longleftrightarrow> part_field p ''thought'' = Some (JBool True) \<or> part_field p ''thoughtSignature'' \<noteq> None
     \<or> (part_field p ''data'' \<noteq> None \<and> part_field p ''text'' = None)"

definition vertex_has_thinking :: "jval list \<Rightarrow> bool" where
  "vertex_has_thinking ps = list_ex is_thinking_part ps"

definition vertex_content :: "coalesced_msg \<Rightarrow> jval" where
  "vertex_content m = JObj ([(''role'', JStr (cm_role m)), (''parts'', JArr (cm_parts m))]
     @ (if vertex_has_thinking (cm_parts m) then [] else optional ''cacheControl'' (map_option cache_control_json (cm_cache m))))"

text \<open>The call to \<open>BuildToolMaps\<close> gives the calls in the request their identifiers first.\<close>

definition merged_messages ::
    "(string \<Rightarrow> jval option) \<Rightarrow> (nat \<Rightarrow> string) \<Rightarrow> (nat \<Rightarrow> nat \<Rightarrow> string) \<Rightarrow> message list \<Rightarrow> coalesced_msg list" where
  "merged_messages decode gen fresh ms =
     (case build_tool_maps gen ms of (ms, names, _) \<Rightarrow>
        fold (add_vertex_message decode names) (List.map (\<lambda>(i, m). (fresh i, m)) (enumerate 0 ms)) [])"

definition build_claude_contents ::
    "(string \<Rightarrow> jval option) \<Rightarrow> (nat \<Rightarrow> string) \<Rightarrow> (nat \<Rightarrow> nat \<Rightarrow> string) \<Rightarrow> message list \<Rightarrow> jval" where
  "build_claude_contents decode gen fresh ms =
     (let cs = merged_messages decode gen fresh ms
      in if cs = [] then JNull else JArr (List.map vertex_content (validate_coalesced_tool_pairs cs)))"

section \<open>The request\<close>

definition build_claude_generation_config :: "chat_request \<Rightarrow> jobj" where
  "build_claude_generation_config req =
     optional ''temperature'' (map_option JNum (rq_temperature req))
     @ optional ''topP'' (map_option JNum (rq_top_p req))
     @ optional ''topK'' (map_option (\<lambda>n. jint n) (rq_top_k req))
     @ (case rq_max_tokens req of Some n \<Rightarrow> positive ''maxOutputTokens'' n | None \<Rightarrow> [])
     @ (if rq_stop_sequences req = [] then [] else [(''stopSequences'', JArr (List.map JStr (rq_stop_sequences req)))])
     @ (case rq_thinking req of
          Some th \<Rightarrow>
            if th_include_thoughts th
            then [(''thinkingConfig'', JObj ((''includeThoughts'', JBool True)
                    # (case th_budget th of Some b \<Rightarrow> positive ''thinkingBudget'' b | None \<Rightarrow> [])))]
            else []
        | None \<Rightarrow> [])"

definition blank_parameters :: jval where
  "blank_parameters = JObj [(''type'', JStr ''object''), (''properties'', JObj [])]"

definition function_declaration :: "tool_definition \<Rightarrow> jval \<Rightarrow> jval" where
  "function_declaration t params =
     JObj [(''name'', JStr (td_name t)), (''description'', JStr (td_description t)), (''parameters'', params)]"

definition function_declarations :: "jval list \<Rightarrow> jval" where
  "function_declarations fs = JObj [(''functionDeclarations'', json_slice fs)]"

definition cleaned_parameters :: "tool_definition \<Rightarrow> jval" where
  "cleaned_parameters t =
     (case td_parameters t of
        Some ps \<Rightarrow> JObj (mdel ''$schema'' (mput ''additionalProperties'' (JBool False) (clean_json_schema ps)))
      | None \<Rightarrow> blank_parameters)"

definition build_cleaned_claude_tools :: "tool_definition list \<Rightarrow> jval" where
  "build_cleaned_claude_tools ts = function_declarations (List.map (\<lambda>t. function_declaration t (cleaned_parameters t)) ts)"

text \<open>The first system message that is not empty is the instruction.\<close>

definition vertex_system :: "message list \<Rightarrow> jobj" where
  "vertex_system ms =
     (case List.find (\<lambda>m. msg_role m = RoleSystem \<and> combine_text_parts m \<noteq> []) ms of
        Some m \<Rightarrow> [(''systemInstruction'', JObj [(''role'', JStr ''user''), (''parts'', JArr [build_text_part (combine_text_parts m)])])]
      | None \<Rightarrow> [])"

definition build_claude_vertex_request ::
    "(string \<Rightarrow> jval option) \<Rightarrow> (nat \<Rightarrow> string) \<Rightarrow> (nat \<Rightarrow> nat \<Rightarrow> string) \<Rightarrow> chat_request \<Rightarrow> jobj" where
  "build_claude_vertex_request decode gen fresh req =
     (case cleaned_tools_for_antigravity_claude (rq_tools req) (rq_response_schema req) of (tools, schema) \<Rightarrow>
        [(''contents'', build_claude_contents decode gen fresh (rq_messages req))]
        @ vertex_system (rq_messages req)
        @ unless_empty ''generationConfig'' (build_claude_generation_config req)
        @ (if tools = [] then [] else [(''tools'', JArr [build_cleaned_claude_tools tools])])
        @ optional ''responseSchema'' (map_option JObj schema))"

definition vertex_envelope :: "string \<Rightarrow> jval \<Rightarrow> jval" where
  "vertex_envelope model request = JObj [(''project'', JStr []), (''model'', JStr model), (''request'', request)]"

definition to_vertex_claude_request ::
    "(string \<Rightarrow> jval option) \<Rightarrow> (nat \<Rightarrow> string) \<Rightarrow> (nat \<Rightarrow> nat \<Rightarrow> string) \<Rightarrow> chat_request \<Rightarrow> jval" where
  "to_vertex_claude_request decode gen fresh req =
     vertex_envelope (rq_model req) (JObj (build_claude_vertex_request decode gen fresh req))"


section \<open>Merging keeps everything in order\<close>

definition emit_message :: "cache_control option \<Rightarrow> string \<Rightarrow> jval list \<Rightarrow> coalesced_msg list \<Rightarrow> coalesced_msg list" where
  "emit_message cc r ps ms = (if ps = [] then ms else coalesce_message r ps cc ms)"

lemma append_or_coalesce_emit: "append_or_coalesce r p cc ms = emit_message cc r [p] ms"
  by (simp add: append_or_coalesce_def emit_message_def coalesce_message_def)

lemma messages_view_simps [simp]:
  "messages_view [] = []" "messages_view (m # ms) = (cm_role m, cm_parts m) # messages_view ms"
  "messages_view (ms @ ms') = messages_view ms @ messages_view ms'" "messages_view ms = [] \<longleftrightarrow> ms = []"
  by (simp_all add: messages_view_def)

lemma last_messages_view: "ms \<noteq> [] \<Longrightarrow> last (messages_view ms) = (cm_role (last ms), cm_parts (last ms))"
  by (simp add: messages_view_def last_map)

lemma messages_view_butlast: "messages_view (butlast ms) = butlast (messages_view ms)"
  by (simp add: messages_view_def map_butlast)

lemma emit_message_view:
  "messages_view (emit_message cc r ps ms) =
     (if ps = [] then messages_view ms
      else if ms \<noteq> [] \<and> fst (last (messages_view ms)) = r then extend_last ps (messages_view ms)
      else messages_view ms @ [(r, ps)])"
  by (cases "ms = []")
    (simp_all add: emit_message_def coalesce_message_def extend_last_def last_messages_view messages_view_butlast)

definition merged :: "coalesced_msg list \<Rightarrow> bool" where
  "merged ms = alternating (messages_view ms)"

lemma emit_message_merged: "merged ms \<Longrightarrow> merged (emit_message cc r ps ms)"
  unfolding merged_def emit_message_view
  by (cases "ps = []"; cases "ms \<noteq> [] \<and> fst (last (messages_view ms)) = r")
    (auto simp: extend_last_alternating alternating_snoc)

lemma emit_message_flat: "flat (messages_view (emit_message cc r ps ms)) = flat (messages_view ms) @ List.map (Pair r) ps"
  unfolding emit_message_view by (auto simp: extend_last_flat flat_append)

interpretation vertex_contents: coalescing merged messages_view emit_message
  by unfold_locales (simp_all add: emit_message_merged emit_message_flat, simp add: merged_def)


lemma add_vertex_message_emit:
  "add_vertex_message decode names (fresh, m) ms =
     (case vertex_role_parts decode fresh names m of (r, ps) \<Rightarrow> emit_message (msg_cache_control m) r ps ms)"
  by (cases "msg_role m") (simp_all add: add_vertex_message_def emit_message_def vertex_role_parts_def)

lemma fold_vertex_messages:
  "fold (add_vertex_message decode names) fms ms =
     fold (\<lambda>(t, r, ps). emit_message t r ps)
       (List.map (\<lambda>(fresh, m). (msg_cache_control m, vertex_role_parts decode fresh names m)) fms) ms"
  by (induction fms arbitrary: ms) (auto simp: add_vertex_message_emit split: prod.splits)

lemma merged_Nil: "merged []"
  by (simp add: merged_def)

lemma merged_messages_merged: "merged (merged_messages decode gen fresh ms)"
  unfolding merged_messages_def fold_vertex_messages
  by (simp add: vertex_contents.emit_all_ok merged_Nil split: prod.split)

section \<open>Every result behind its call\<close>

text \<open>The specification: results are dropped where they stand and put behind the first call that has their identifier.\<close>

fun paired :: "(string, jval) gomap \<Rightarrow> string list \<Rightarrow> (string \<times> jval) list \<Rightarrow> (string \<times> jval) list" where
  "paired rs used [] = []"
| "paired rs used ((r, p) # xs) =
     (if has_response p then paired rs used xs
      else if has_call p
      then (''model'', p) #
        (case Option.bind (call_id p) (\<lambda>i. if i \<in> set used then None else map_option (Pair i) (mget rs i)) of
           None \<Rightarrow> paired rs used xs
         | Some (i, q) \<Rightarrow> (''user'', q) # paired rs (i # used) xs)
      else (r, p) # paired rs used xs)"

lemma pair_steps:
  assumes "merged ms"
  shows "merged (fst (fold (pair_step rs) fs (ms, used)))
    \<and> flat (messages_view (fst (fold (pair_step rs) fs (ms, used))))
      = flat (messages_view ms) @ paired rs used (List.map (\<lambda>(r, p, cc). (r, p)) fs)"
  using assms
proof (induction fs arbitrary: ms used)
  case (Cons f fs)
  obtain r p cc where f: "f = (r, p, cc)" by (cases f)
  define c where "c = Option.bind (call_id p) (\<lambda>i. if i \<in> set used then None else map_option (Pair i) (mget rs i))"
  define st where "st = (if has_response p then (ms, used)
      else if has_call p then (case c of
          None \<Rightarrow> (emit_message cc ''model'' [p] ms, used)
        | Some (i, q) \<Rightarrow> (emit_message None ''user'' [q] (emit_message cc ''model'' [p] ms), i # used))
      else (emit_message cc r [p] ms, used))"
  have st: "pair_step rs f (ms, used) = st"
    by (auto simp: pair_step_def f st_def c_def append_or_coalesce_emit Let_def split: option.split)
  have m: "merged (fst st)" using Cons.prems by (simp add: st_def emit_message_merged split: option.split)
  have p: "flat (messages_view ms) @ paired rs used ((r, p) # xs) = flat (messages_view (fst st)) @ paired rs (snd st) xs" for xs
    by (simp add: st_def c_def [symmetric] emit_message_flat split: option.split)
  from Cons.IH [OF m, of "snd st"] show ?case by (simp add: f st [unfolded f] p del: paired.simps)
qed simp

lemma flat_parts_view: "List.map (\<lambda>(r, p, cc). (r, p)) (flat_parts ms) = flat (messages_view ms)"
  by (induction ms) (simp_all add: flat_parts_def)

lemma alternating_nonempty: "alternating cs \<Longrightarrow> c \<in> set cs \<Longrightarrow> snd c \<noteq> []"
  by (induction cs rule: alternating.induct) auto

lemma merged_nonempty: "merged ms \<Longrightarrow> filter (\<lambda>m. cm_parts m \<noteq> []) ms = ms"
  using alternating_nonempty [of "messages_view ms"] by (force simp: merged_def messages_view_def filter_id_conv)

lemma validate_refines:
  assumes "tool_responses ms \<noteq> []"
  shows "merged (validate_coalesced_tool_pairs ms)
    \<and> flat (messages_view (validate_coalesced_tool_pairs ms)) = paired (tool_responses ms) [] (flat (messages_view ms))"
  using assms pair_steps [OF merged_Nil, of "tool_responses ms" "flat_parts ms" "[]"]
  by (simp add: validate_coalesced_tool_pairs_def Let_def merged_nonempty flat_parts_view)


text \<open>The stored results are the parts that answer the identifiers.\<close>

lemma part_id_field: "part_id k p = Some i \<Longrightarrow> part_field p k \<noteq> None"
  by (auto simp: part_id_def split: option.splits)

lemma response_is_response: "response_id p = Some i \<Longrightarrow> has_response p"
  by (simp add: response_id_def has_response_def part_id_field)

lemma call_is_call: "call_id p = Some i \<Longrightarrow> has_call p"
  by (auto simp: call_id_def part_id_def has_call_def split: option.splits jval.splits)

definition responses_in :: "(string, jval) gomap \<Rightarrow> bool" where
  "responses_in rs \<longleftrightarrow> (\<forall>i q. mget rs i = Some q \<longrightarrow> response_id q = Some i)"

lemma responses_in_fold:
  assumes "responses_in rs"
  shows "responses_in (fold (\<lambda>p rs. case response_id p of Some i \<Rightarrow> mput i p rs | None \<Rightarrow> rs) ps rs)"
  using assms
proof (induction ps arbitrary: rs)
  case (Cons p ps)
  have "responses_in (case response_id p of Some i \<Rightarrow> mput i p rs | None \<Rightarrow> rs)"
    using Cons.prems by (auto simp: responses_in_def split: option.split)
  then show ?case using Cons.IH by simp
qed simp

lemma tool_responses_in: "responses_in (tool_responses ms)"
  unfolding tool_responses_def by (rule responses_in_fold) (simp add: responses_in_def)

text \<open>A call counts as one of the model wherever it stands.\<close>

definition of_model :: "string \<times> jval \<Rightarrow> string \<times> jval" where
  "of_model x = (if has_call (snd x) then (''model'', snd x) else x)"

definition answer :: "(string, jval) gomap \<Rightarrow> string list \<Rightarrow> jval \<Rightarrow> (string \<times> jval) option" where
  "answer rs used p = Option.bind (call_id p) (\<lambda>i. if i \<in> set used then None else map_option (Pair i) (mget rs i))"

lemma answer_Some: "answer rs used p = Some (i, q) \<longleftrightarrow> call_id p = Some i \<and> i \<notin> set used \<and> mget rs i = Some q"
  by (auto simp: answer_def bind_eq_Some_conv)

lemma paired_Cons:
  "paired rs used ((r, p) # xs) =
     (if has_response p then paired rs used xs
      else case (if has_call p then answer rs used p else None) of
             None \<Rightarrow> of_model (r, p) # paired rs used xs
           | Some (i, q) \<Rightarrow> of_model (r, p) # (''user'', q) # paired rs (i # used) xs)"
  by (auto simp: answer_def of_model_def split: option.split)

lemmas paired_simps = paired.simps(1) paired_Cons

lemma snd_of_model [simp]: "snd (of_model x) = snd x"
  by (simp add: of_model_def)

lemma paired_keeps:
  assumes "responses_in rs"
  shows "filter (\<lambda>x. \<not> has_response (snd x)) (paired rs used xs) =
     List.map of_model (filter (\<lambda>x. \<not> has_response (snd x)) xs)"
proof (induction xs arbitrary: used)
  case (Cons x xs)
  obtain r p where x: "x = (r, p)" by fastforce
  have "mget rs i = Some q \<Longrightarrow> has_response q" for i q
    using assms by (auto simp: responses_in_def response_is_response)
  then show ?case using Cons.IH
    by (auto simp: x paired_Cons answer_Some simp del: paired.simps split: option.split)
qed simp

lemma paired_response_behind_call:
  assumes "responses_in rs" "paired rs used xs = us @ (r, q) # vs" "has_response q"
  shows "\<exists>us' c i. us = us' @ [(''model'', c)] \<and> call_id c = Some i \<and> response_id q = Some i \<and> r = ''user''"
  using assms(2)
proof (induction xs arbitrary: used us)
  case (Cons x xs)
  obtain s p where x: "x = (s, p)" by fastforce
  show ?case
  proof (cases "has_response p")
    case True
    then show ?thesis using Cons by (simp add: x)
  next
    case False
    define a where "a = (if has_call p then answer rs used p else None)"
    show ?thesis
    proof (cases a)
      case None
      then have "of_model x # paired rs used xs = us @ (r, q) # vs"
        using Cons.prems False by (simp add: x paired_Cons a_def del: paired.simps)
      moreover have "of_model x \<noteq> (r, q)" using False assms(3) by (auto simp: of_model_def x)
      ultimately obtain us2 where "us = of_model x # us2" "paired rs used xs = us2 @ (r, q) # vs"
        by (cases us) auto
      with Cons.IH show ?thesis by fastforce
    next
      case (Some iq)
      obtain i q' where iq: "iq = (i, q')" by fastforce
      have c: "has_call p" "call_id p = Some i" "response_id q' = Some i"
        using Some assms(1) by (auto simp: a_def iq answer_Some responses_in_def split: if_splits)
      have e: "(''model'', p) # (''user'', q') # paired rs (i # used) xs = us @ (r, q) # vs"
        using Cons.prems False Some c(1) by (simp add: x paired_Cons a_def iq of_model_def del: paired.simps)
      have "q \<noteq> p" using False assms(3) by auto
      then obtain us2 where us: "us = (''model'', p) # us2" "(''user'', q') # paired rs (i # used) xs = us2 @ (r, q) # vs"
        using e by (cases us) auto
      show ?thesis
      proof (cases us2)
        case Nil
        then show ?thesis using us c by auto
      next
        case (Cons y us3)
        then have "paired rs (i # used) xs = us3 @ (r, q) # vs" using us by simp
        with Cons.IH show ?thesis using us Cons by fastforce
      qed
    qed
  qed
qed simp


lemma paired_call_answered:
  assumes "responses_in rs" "paired rs used xs = us @ (r, c) # vs" "\<not> has_response c" "call_id c = Some i"
    "mget rs i = Some q" "i \<notin> set used" "\<forall>x \<in> set us. \<not> has_response (snd x) \<longrightarrow> call_id (snd x) \<noteq> Some i"
  shows "\<exists>vs'. vs = (''user'', q) # vs'"
  using assms(2,6,7)
proof (induction xs arbitrary: used us)
  case (Cons x xs)
  obtain s p where x: "x = (s, p)" by fastforce
  show ?case
  proof (cases "has_response p")
    case True
    then show ?thesis using Cons by (simp add: x)
  next
    case False
    define a where "a = (if has_call p then answer rs used p else None)"
    show ?thesis
    proof (cases a)
      case None
      then have e: "of_model x # paired rs used xs = us @ (r, c) # vs"
        using Cons.prems False by (simp add: x paired_Cons a_def del: paired.simps)
      have "p \<noteq> c" using None assms(4,5) Cons.prems(2) call_is_call [OF assms(4)] by (auto simp: a_def answer_def)
      then obtain us2 where "us = of_model x # us2" "paired rs used xs = us2 @ (r, c) # vs"
        using e by (cases us) (auto simp: of_model_def x split: if_splits)
      then show ?thesis using Cons.IH Cons.prems by auto
    next
      case (Some jq)
      obtain j q' where jq: "jq = (j, q')" by fastforce
      have c: "has_call p" "call_id p = Some j" "mget rs j = Some q'" "has_response q'"
        using Some assms(1) by (auto simp: a_def jq answer_Some responses_in_def response_is_response split: if_splits)
      have e: "(''model'', p) # (''user'', q') # paired rs (j # used) xs = us @ (r, c) # vs"
        using Cons.prems False Some c(1) by (simp add: x paired_Cons a_def jq of_model_def del: paired.simps)
      show ?thesis
      proof (cases us)
        case Nil
        then show ?thesis using e c assms(4,5) by auto
      next
        case us: (Cons y us2)
        then have y: "y = (''model'', p)" and e2: "(''user'', q') # paired rs (j # used) xs = us2 @ (r, c) # vs" using e by auto
        have "j \<noteq> i" using Cons.prems(3) us y False c(2) by auto
        obtain us3 where "us2 = (''user'', q') # us3" "paired rs (j # used) xs = us3 @ (r, c) # vs"
          using e2 c(4) assms(3) by (cases us2) auto
        then show ?thesis using Cons.IH [of "j # used" us3] Cons.prems us \<open>j \<noteq> i\<close> by auto
      qed
    qed
  qed
qed simp

section \<open>What Vertex is sent\<close>

definition sent_parts :: "coalesced_msg list \<Rightarrow> (string \<times> jval) list" where
  "sent_parts ms = flat (messages_view (validate_coalesced_tool_pairs ms))"

text \<open>
  C15: In a request with results of tools the roles of the contents alternate; every part but the results is sent, in
  its order, calls as the model's; every result that is sent stands behind the call that has its identifier, as the
  user's; and the first call with an identifier for which there is a result has that result behind it.
\<close>

theorem vertex_results_follow_calls:
  assumes "ms' = merged_messages decode gen fresh ms" "rs = tool_responses ms'" "rs \<noteq> []"
  shows "alternating (messages_view (validate_coalesced_tool_pairs ms'))
    \<and> filter (\<lambda>x. \<not> has_response (snd x)) (sent_parts ms')
      = List.map of_model (filter (\<lambda>x. \<not> has_response (snd x)) (flat (messages_view ms')))
    \<and> (\<forall>us r q vs. sent_parts ms' = us @ (r, q) # vs \<and> has_response q \<longrightarrow>
        (\<exists>us' c i. us = us' @ [(''model'', c)] \<and> call_id c = Some i \<and> response_id q = Some i \<and> r = ''user''))
    \<and> (\<forall>us r c vs i q. sent_parts ms' = us @ (r, c) # vs \<and> \<not> has_response c \<and> call_id c = Some i \<and> mget rs i = Some q
        \<and> (\<forall>x \<in> set us. \<not> has_response (snd x) \<longrightarrow> call_id (snd x) \<noteq> Some i) \<longrightarrow> (\<exists>vs'. vs = (''user'', q) # vs'))"
proof -
  have p: "sent_parts ms' = paired rs [] (flat (messages_view ms'))"
    and m: "alternating (messages_view (validate_coalesced_tool_pairs ms'))"
    using validate_refines [of ms'] assms by (auto simp: sent_parts_def merged_def)
  have rs: "responses_in rs" using assms(2) by (simp add: tool_responses_in)
  show ?thesis unfolding p
    using m paired_keeps [OF rs] paired_response_behind_call [OF rs] paired_call_answered [OF rs]
    by (metis (no_types, lifting) empty_iff empty_set)
qed

definition tool_chat :: "message list" where
  "tool_chat =
     [(new_message RoleUser)\<lparr>msg_content := [text_part ''hi'']\<rparr>,
      (new_message RoleAssistant)\<lparr>msg_tool_calls := [call_of ''call_1'' ''ls'' [], call_of ''call_2'' ''pwd'' []]\<rparr>,
      (new_message RoleTool)\<lparr>msg_content :=
        [(new_part ContentTypeToolResult)\<lparr>cp_tool_result := Some \<lparr>tr_call_id = ''call_2'', tr_result = ''/'', tr_is_error = False,
            tr_images = [], tr_files = []\<rparr>\<rparr>,
         (new_part ContentTypeToolResult)\<lparr>cp_tool_result := Some \<lparr>tr_call_id = ''call_1'', tr_result = ''a'', tr_is_error = False,
            tr_images = [], tr_files = []\<rparr>\<rparr>]\<rparr>]"

definition tool_chat_merged :: "coalesced_msg list" where
  "tool_chat_merged = merged_messages (\<lambda>s. None) (\<lambda>n. ''x'') (\<lambda>n k. ''y'') tool_chat"

lemma tool_chat_responses: "tool_responses tool_chat_merged \<noteq> []"
  by code_simp

lemma vertex_results_follow_calls_witness:
  "alternating (messages_view (validate_coalesced_tool_pairs tool_chat_merged))
    \<and> length (filter (\<lambda>x. \<not> has_response (snd x)) (sent_parts tool_chat_merged)) = 3"
proof -
  have "length (filter (\<lambda>x. \<not> has_response (snd x)) (flat (messages_view tool_chat_merged))) = 3" by code_simp
  then show ?thesis
    using vertex_results_follow_calls [OF tool_chat_merged_def refl tool_chat_responses] by simp
qed

lemma tool_chat_sent:
  "List.map (\<lambda>m. (cm_role m, List.map (\<lambda>p. (call_id p, response_id p)) (cm_parts m))) (validate_coalesced_tool_pairs tool_chat_merged)
   = [(''user'', [(None, None)]), (''model'', [(Some ''toolu_1'', None)]), (''user'', [(None, Some ''toolu_1'')]),
      (''model'', [(Some ''toolu_2'', None)]), (''user'', [(None, Some ''toolu_2'')])]"
  by code_simp


text \<open>A result whose call is not among the messages is dropped, and with it a message that holds nothing else.\<close>

lemma orphan_result_dropped:
  "build_claude_contents (\<lambda>s. None) (\<lambda>n. ''x'') (\<lambda>n k. ''y'') (drop 2 tool_chat) = JArr []"
  by code_simp

text \<open>Thoughts and cache control never come together.\<close>

lemma no_cache_control_on_thoughts:
  "vertex_content m = JObj c \<Longrightarrow> mget c ''cacheControl'' \<noteq> None \<Longrightarrow> list_all (\<lambda>p. \<not> is_thinking_part p) (cm_parts m)"
  by (auto simp: vertex_content_def vertex_has_thinking_def list_ex_iff list_all_iff split: if_splits)

end
