(* ===== verification/Thinking.thy ===== *)
theory Thinking
  imports ModelCatalog Ir MalformedCall Timestamps
begin

text \<open>
  Thinking as the name of a model asks for it (\<open>internal/util/thinking.go\<close>, \<open>gemini_thinking.go\<close>) and as the
  executors put it into requests (\<open>runtime/executor/providers/thinking.go\<close>). What the model registry knows of a model
  is its theory's \<open>get_model_info\<close>. The library that edits JSON text is an argument.
\<close>

section \<open>Budgets from the registry\<close>

definition default_thinking_budget :: int where
  "default_thinking_budget = 1024"

text \<open>Budgets for the levels low, medium, high and max.\<close>

type_synonym budgets = "int \<times> int \<times> int \<times> int"

definition default_thinking_budgets :: budgets where
  "default_thinking_budgets = (1024, 8192, 24576, 32768)"

definition model_supports_thinking :: "registry_state \<Rightarrow> string \<Rightarrow> bool" where
  "model_supports_thinking s model =
     (if model = [] then False
      else case get_model_info s model of Some i \<Rightarrow> mi_thinking i \<noteq> None | None \<Rightarrow> False)"

definition get_model_thinking_min :: "registry_state \<Rightarrow> string \<Rightarrow> int" where
  "get_model_thinking_min s model =
     (if model = [] then 0
      else case Option.bind (get_model_info s model) mi_thinking of Some t \<Rightarrow> th_min t | None \<Rightarrow> 0)"

definition get_default_thinking_budget :: "registry_state \<Rightarrow> string \<Rightarrow> int" where
  "get_default_thinking_budget s model =
     (let n = get_model_thinking_min s model in if 0 < n then n else default_thinking_budget)"

definition get_auto_applied_thinking_config :: "registry_state \<Rightarrow> string \<Rightarrow> int \<times> bool \<times> bool" where
  "get_auto_applied_thinking_config s model =
     (if model_supports_thinking s model then (get_default_thinking_budget s model, True, True) else (0, False, False))"

definition has_suffix :: "string \<Rightarrow> string \<Rightarrow> bool" where
  "has_suffix s p \<longleftrightarrow> has_prefix (rev s) (rev p)"

definition parse_thinking_suffix :: "string \<Rightarrow> string \<times> bool" where
  "parse_thinking_suffix name =
     (if has_suffix name ''-thinking-max'' then (''max'', True)
      else if has_suffix name ''-thinking-high'' then (''high'', True)
      else if has_suffix name ''-thinking-medium'' then (''medium'', True)
      else if has_suffix name ''-thinking-low'' then (''low'', True)
      else if has_suffix name ''-thinking'' then (''max'', True)
      else ([], False))"

definition level_budgets :: "thinking_support \<Rightarrow> budgets" where
  "level_budgets t = (if th_budgets t = (0, 0, 0, 0) then default_thinking_budgets else th_budgets t)"

definition level_budget :: "budgets \<Rightarrow> string \<Rightarrow> int \<Rightarrow> int" where
  "level_budget bs level other =
     (case bs of (low, medium, high, mx) \<Rightarrow>
        if level = ''low'' then low else if level = ''medium'' then medium
        else if level = ''high'' then high else if level = ''max'' then mx else other)"

definition wanted_budget :: "thinking_support \<Rightarrow> string \<Rightarrow> int \<Rightarrow> int" where
  "wanted_budget t suffix_level user_budget =
     (if 0 < user_budget then user_budget
      else if suffix_level \<noteq> [] then level_budget (level_budgets t) suffix_level 0
      else if th_default_level t \<noteq> [] then level_budget (level_budgets t) (th_default_level t) (th_min t)
      else th_min t)"

definition clamp_budget :: "thinking_support \<Rightarrow> int \<Rightarrow> int" where
  "clamp_budget t b =
     (let b = (if b < th_min t \<and> 0 < th_min t then th_min t else b)
      in if th_max t < b \<and> 0 < th_max t then th_max t else b)"

definition get_thinking_budget :: "registry_state \<Rightarrow> string \<Rightarrow> string \<Rightarrow> int \<Rightarrow> int \<times> bool" where
  "get_thinking_budget s model suffix_level user_budget =
     (case Option.bind (get_model_info s model) mi_thinking of
        None \<Rightarrow> (0, False)
      | Some t \<Rightarrow> let b = clamp_budget t (wanted_budget t suffix_level user_budget) in (b, 0 < b))"

section \<open>Suffixes of Gemini models\<close>

definition drop_end :: "nat \<Rightarrow> string \<Rightarrow> string" where
  "drop_end n s = take (length s - n) s"

type_synonym gemini_suffix = "string \<times> int option \<times> bool option \<times> bool"

definition parse_gemini_thinking_suffix :: "string \<Rightarrow> gemini_suffix" where
  "parse_gemini_thinking_suffix model =
     (let lower = to_lower model; unmatched = (model, None, None, False) in
      if model = [] \<or> \<not> has_prefix lower ''gemini-'' then unmatched
      else if has_suffix lower ''-nothinking''
      then (drop_end (length ''-nothinking'') model, Some (if has_prefix lower ''gemini-2.5-pro'' then 128 else 0), Some False, True)
      else if has_suffix lower ''-reasoning'' then (drop_end (length ''-reasoning'') model, Some (- 1), Some True, True)
      else case last_index_of lower ''-thinking-'' of
          None \<Rightarrow> unmatched
        | Some idx \<Rightarrow>
            let digits = takeWhile is_digit (drop (idx + length ''-thinking-'') model) in
            if digits = [] then unmatched
            else case parse_int64 digits of
                None \<Rightarrow> unmatched
              | Some n \<Rightarrow> (take idx model, Some n, None, True))"

text \<open>A value of a metadata map, with its dynamic type. A \<open>json.Number\<close> is a text.\<close>

datatype meta_value =
    GoInt int | GoInt32 int | GoInt64 int | GoFloat rat | GoNumber string | GoBool bool | GoString string | GoOther

definition thinking_budget_key :: string where "thinking_budget_key = ''gemini_thinking_budget''"
definition include_thoughts_key :: string where "include_thoughts_key = ''gemini_include_thoughts''"
definition original_model_key :: string where "original_model_key = ''gemini_original_model''"

definition normalize_gemini_thinking_model :: "string \<Rightarrow> string \<times> (string, meta_value) gomap" where
  "normalize_gemini_thinking_model name =
     (case parse_gemini_thinking_suffix name of
        (base, budget, incl, matched) \<Rightarrow>
          if \<not> matched then (base, [])
          else (base, [(original_model_key, GoString name)]
                  @ (case budget of Some n \<Rightarrow> [(thinking_budget_key, GoInt n)] | None \<Rightarrow> [])
                  @ (case incl of Some b \<Rightarrow> [(include_thoughts_key, GoBool b)] | None \<Rightarrow> [])))"

definition float_to_int :: "rat \<Rightarrow> int" where
  "float_to_int x = (if 0 \<le> x then \<lfloor>x\<rfloor> else \<lceil>x\<rceil>)"

fun to_int :: "meta_value \<Rightarrow> int option" where
  "to_int (GoInt n) = Some n"
| "to_int (GoInt32 n) = Some n"
| "to_int (GoInt64 n) = Some n"
| "to_int (GoFloat x) = Some (float_to_int x)"
| "to_int (GoNumber s) = parse_int64 s"
| "to_int _ = None"

definition parse_bool :: "string \<Rightarrow> bool option" where
  "parse_bool s =
     (if s \<in> {''1'', ''t'', ''T'', ''TRUE'', ''true'', ''True''} then Some True
      else if s \<in> {''0'', ''f'', ''F'', ''FALSE'', ''false'', ''False''} then Some False else None)"

text \<open>
  In the case for several integer types the value keeps its interface type, and the comparison is with a zero of type
  \<open>int\<close>, from which a value of another type differs.
\<close>

fun to_bool :: "meta_value \<Rightarrow> bool option" where
  "to_bool (GoBool b) = Some b"
| "to_bool (GoString s) = parse_bool s"
| "to_bool (GoInt n) = Some (n \<noteq> 0)"
| "to_bool (GoInt32 n) = Some True"
| "to_bool (GoInt64 n) = Some True"
| "to_bool (GoFloat x) = Some (x \<noteq> 0)"
| "to_bool (GoNumber s) = map_option (\<lambda>n. n \<noteq> 0) (parse_int64 s)"
| "to_bool _ = None"

definition gemini_thinking_from_metadata :: "(string, meta_value) gomap \<Rightarrow> int option \<times> bool option \<times> bool" where
  "gemini_thinking_from_metadata meta =
     (let budget = Option.bind (mget meta thinking_budget_key) to_int;
          incl = Option.bind (mget meta include_thoughts_key) to_bool
      in (budget, incl, budget \<noteq> None \<or> incl \<noteq> None))"

section \<open>Editing a body\<close>

text \<open>
  A body of bytes and the libraries on it: \<open>gjson.GetBytes\<close>, \<open>sjson.SetBytes\<close> and \<open>sjson.DeleteBytes\<close>, with the body
  they return and whether there was no error, and the test for an empty body.
\<close>

record ('b, 'j) body_editor =
  be_get :: "'b \<Rightarrow> string \<Rightarrow> 'j"
  be_set :: "'b \<Rightarrow> string \<Rightarrow> jval \<Rightarrow> 'b \<times> bool"
  be_del :: "'b \<Rightarrow> string \<Rightarrow> 'b \<times> bool"
  be_empty :: "'b \<Rightarrow> bool"

definition set_if_ok :: "('b, 'j) body_editor \<Rightarrow> 'b \<Rightarrow> string \<Rightarrow> jval \<Rightarrow> 'b" where
  "set_if_ok E body path v = (case be_set E body path v of (body', ok) \<Rightarrow> if ok then body' else body)"

definition apply_gemini_thinking_config :: "('b, 'j) body_editor \<Rightarrow> 'b \<Rightarrow> int option \<Rightarrow> bool option \<Rightarrow> 'b" where
  "apply_gemini_thinking_config E body budget incl =
     (let body = (case budget of
                    Some n \<Rightarrow> set_if_ok E body ''generationConfig.thinkingConfig.thinkingBudget'' (JNum (of_int n))
                  | None \<Rightarrow> body)
      in case incl of
           Some b \<Rightarrow> set_if_ok E body ''generationConfig.thinkingConfig.include_thoughts'' (JBool b)
         | None \<Rightarrow> body)"

definition strip_thinking_config_if_unsupported :: "('b, 'j) body_editor \<Rightarrow> registry_state \<Rightarrow> string \<Rightarrow> 'b \<Rightarrow> 'b" where
  "strip_thinking_config_if_unsupported E s model body =
     (if model_supports_thinking s model \<or> be_empty E body then body
      else let body = fst (be_del E body ''request.generationConfig.thinkingConfig'')
           in fst (be_del E body ''generationConfig.thinkingConfig''))"

text \<open>How the Gemini executor applies thinking to a translated body, in a request and in a stream.\<close>

definition gemini_body_thinking ::
    "('b, 'j) body_editor \<Rightarrow> registry_state \<Rightarrow> string \<Rightarrow> (string, meta_value) gomap \<Rightarrow> 'b \<Rightarrow> 'b" where
  "gemini_body_thinking E s model meta body =
     (case gemini_thinking_from_metadata meta of
        (budget, incl, matched) \<Rightarrow>
          let body = (if matched \<and> model_supports_thinking s model then apply_gemini_thinking_config E body budget incl
                      else case get_thinking_budget s model [] 0 of
                          (b, True) \<Rightarrow> apply_gemini_thinking_config E body (Some b) (Some True)
                        | (b, False) \<Rightarrow> body)
          in strip_thinking_config_if_unsupported E s model body)"

section \<open>Claude\<close>

record claude_thinking =
  ct_enabled :: bool
  ct_budget_tokens :: int

definition parse_claude_thinking_from_model :: "registry_state \<Rightarrow> string \<Rightarrow> claude_thinking option" where
  "parse_claude_thinking_from_model s name =
     (case parse_thinking_suffix name of
        (level, False) \<Rightarrow> None
      | (level, True) \<Rightarrow>
          let b = fst (get_thinking_budget s name level 0)
          in if b \<le> 0 then None else Some \<lparr>ct_enabled = True, ct_budget_tokens = b\<rparr>)"

definition apply_to_claude :: "'j gjson \<Rightarrow> ('b, 'j) body_editor \<Rightarrow> claude_thinking option \<Rightarrow> 'b \<Rightarrow> 'b" where
  "apply_to_claude J E t body =
     (case t of
        None \<Rightarrow> body
      | Some t \<Rightarrow>
          if \<not> ct_enabled t \<or> gj_exists J (be_get E body ''thinking'') then body
          else let body = fst (be_set E body ''thinking.type'' (JStr ''enabled''))
               in fst (be_set E body ''thinking.budget_tokens'' (JNum (of_int (ct_budget_tokens t)))))"

definition max_completion_tokens :: "registry_state \<Rightarrow> string \<Rightarrow> int" where
  "max_completion_tokens s model = (case get_model_info s model of Some i \<Rightarrow> mi_max_completion_tokens i | None \<Rightarrow> 0)"

definition required_max_tokens :: "registry_state \<Rightarrow> string \<Rightarrow> int \<Rightarrow> int" where
  "required_max_tokens s model budget =
     (if 0 < max_completion_tokens s model then max_completion_tokens s model else wrap64 (budget + 4000))"

definition ensure_claude_max_tokens ::
    "'j gjson \<Rightarrow> ('b, 'j) body_editor \<Rightarrow> registry_state \<Rightarrow> string \<Rightarrow> 'b \<Rightarrow> 'b" where
  "ensure_claude_max_tokens J E s model body =
     (let budget = gj_int J (be_get E body ''thinking.budget_tokens'') in
      if gj_str J (be_get E body ''thinking.type'') \<noteq> ''enabled'' \<or> budget \<le> 0 then body
      else let need = required_max_tokens s model budget in
        if gj_int J (be_get E body ''max_tokens'') < need then fst (be_set E body ''max_tokens'' (JNum (of_int need))) else body)"

definition apply_thinking_to_ir :: "registry_state \<Rightarrow> string \<Rightarrow> chat_request \<Rightarrow> chat_request" where
  "apply_thinking_to_ir s model req =
     (if (case rq_thinking req of Some th \<Rightarrow> th_include_thoughts th | None \<Rightarrow> False) then req
      else case parse_claude_thinking_from_model s model of
          None \<Rightarrow> req
        | Some cfg \<Rightarrow>
            let req = req\<lparr>rq_thinking := Some (no_thinking\<lparr>th_include_thoughts := True, th_budget := Some (int32_of (ct_budget_tokens cfg))\<rparr>)\<rparr>;
                need = required_max_tokens s model (ct_budget_tokens cfg)
            in case rq_max_tokens req of
                 Some n \<Rightarrow> if n < need then req\<lparr>rq_max_tokens := Some need\<rparr> else req
               | None \<Rightarrow> req\<lparr>rq_max_tokens := Some need\<rparr>)"


section \<open>An editor of values\<close>

text \<open>The editor on values that are already decoded, on which the examples run; paths are keys joined by dots.\<close>

fun set_path :: "string list \<Rightarrow> jval \<Rightarrow> jval \<Rightarrow> jval" where
  "set_path [] v x = v"
| "set_path (k # ks) v (JObj m) = JObj (mput k (set_path ks v (case mget m k of Some x \<Rightarrow> x | None \<Rightarrow> JObj [])) m)"
| "set_path (k # ks) v x = JObj [(k, set_path ks v (JObj []))]"

fun del_path :: "string list \<Rightarrow> jval \<Rightarrow> jval" where
  "del_path [k] (JObj m) = JObj (mdel k m)"
| "del_path (k # ks) (JObj m) = (case mget m k of Some x \<Rightarrow> JObj (mput k (del_path ks x) m) | None \<Rightarrow> JObj m)"
| "del_path ks x = x"

definition value_editor :: "(jval, jval option) body_editor" where
  "value_editor =
     \<lparr>be_get = (\<lambda>b p. gj_get value_reader (Some b) p),
      be_set = (\<lambda>b p v. (set_path (split_char CHR ''.'' p) v b, True)),
      be_del = (\<lambda>b p. (del_path (split_char CHR ''.'' p) b, True)),
      be_empty = (\<lambda>b. False)\<rparr>"

lemma field_of_simps [simp]:
  "field_of None k = None" "field_of (Some (JObj m)) k = mget m k" "field_of (Some JNull) k = None"
  "field_of (Some (JBool b)) k = None" "field_of (Some (JNum x)) k = None" "field_of (Some (JStr s)) k = None"
  "field_of (Some (JArr xs)) k = None"
  by (simp_all add: field_of_def)

lemma get_set_path: "foldl field_of (Some (set_path ks v x)) ks = Some v"
proof (induction ks arbitrary: x)
  case (Cons k ks)
  then show ?case by (cases x) simp_all
qed simp

lemma foldl_field_None [simp]: "foldl field_of None ks = None"
  by (induction ks) simp_all

lemma get_set_other:
  "c \<noteq> d \<Longrightarrow> foldl field_of (Some (set_path (ks @ [c]) v x)) (ks @ [d]) = foldl field_of (Some x) (ks @ [d])"
proof (induction ks arbitrary: x)
  case Nil
  then show ?case by (cases x) simp_all
next
  case (Cons k ks)
  have e: "foldl field_of (Some (JObj [])) (ks @ [d]) = None" by (cases ks) simp_all
  show ?case
  proof (cases x)
    case (JObj m)
    then show ?thesis using Cons e by (cases "mget m k") (simp_all del: foldl_append)
  qed (use Cons e in \<open>simp_all del: foldl_append\<close>)
qed

section \<open>Budgets stay within what the model allows\<close>

definition thinking_range :: "registry_state \<Rightarrow> string \<Rightarrow> int \<Rightarrow> int \<Rightarrow> bool" where
  "thinking_range s model lo hi \<longleftrightarrow> 0 < lo \<and> lo \<le> hi
     \<and> (case Option.bind (get_model_info s model) mi_thinking of Some t \<Rightarrow> th_min t = lo \<and> th_max t = hi | None \<Rightarrow> False)"

lemma clamp_budget_range:
  "0 < th_min t \<Longrightarrow> th_min t \<le> th_max t \<Longrightarrow> th_min t \<le> clamp_budget t b \<and> clamp_budget t b \<le> th_max t"
  by (simp add: clamp_budget_def Let_def)

lemma clamp_budget_id: "th_min t \<le> b \<Longrightarrow> b \<le> th_max t \<Longrightarrow> clamp_budget t b = b"
  by (simp add: clamp_budget_def Let_def)

lemma thinking_range_budget:
  assumes "thinking_range s model lo hi"
  obtains t where "th_min t = lo" "th_max t = hi"
    "get_thinking_budget s model l u = (clamp_budget t (wanted_budget t l u), 0 < clamp_budget t (wanted_budget t l u))"
  using assms by (auto simp: thinking_range_def get_thinking_budget_def Let_def split: option.splits)


text \<open>A registry with one model.\<close>

definition one_model :: "string \<Rightarrow> int \<Rightarrow> thinking_support \<Rightarrow> registry_state" where
  "one_model name mct t =
     (let i = \<lparr>mi_id = name, mi_object = [], mi_created = 0, mi_owned_by = [], mi_type = [], mi_canonical_id = [],
        mi_display_name = [], mi_name = [], mi_version = [], mi_description = [], mi_input_token_limit = 0,
        mi_output_token_limit = 0, mi_generation_methods = [], mi_context_length = 0, mi_max_completion_tokens = mct,
        mi_supported_parameters = [], mi_thinking = Some t, mi_priority = 0, mi_upstream_name = [], mi_hidden = False\<rparr>
      in register_client (\<lambda>_ xs. xs) ''c'' ''claude'' [Some i] 1 new_registry_state)"


definition thinking_model :: string where
  "thinking_model = ''claude-opus-thinking-high''"

definition thinking_registry :: registry_state where
  "thinking_registry = one_model thinking_model 64000
     \<lparr>th_min = 1024, th_max = 32000, th_zero_allowed = False, th_dynamic_allowed = False, th_default_level = ''high'',
      th_budgets = (0, 0, 0, 0)\<rparr>"

lemma thinking_registry_range: "thinking_range thinking_registry thinking_model 1024 32000"
  by code_simp


section \<open>Room for the answer\<close>

lemma int32_of_id: "- (2 ^ 31) \<le> n \<Longrightarrow> n < 2 ^ 31 \<Longrightarrow> int32_of n = n"
  by (simp add: int32_of_def)

lemma parse_claude_thinking:
  assumes "thinking_range s model lo hi" "snd (parse_thinking_suffix model)"
  obtains b where "parse_claude_thinking_from_model s model = Some \<lparr>ct_enabled = True, ct_budget_tokens = b\<rparr>" "lo \<le> b" "b \<le> hi"
proof -
  obtain l where l: "parse_thinking_suffix model = (l, True)" using assms(2) by (cases "parse_thinking_suffix model") auto
  obtain t where t: "th_min t = lo" "th_max t = hi"
    "get_thinking_budget s model l 0 = (clamp_budget t (wanted_budget t l 0), 0 < clamp_budget t (wanted_budget t l 0))"
    using thinking_range_budget [OF assms(1)] .
  have "0 < lo" "lo \<le> hi" using assms(1) by (auto simp: thinking_range_def)
  then have r: "lo \<le> clamp_budget t (wanted_budget t l 0)" "clamp_budget t (wanted_budget t l 0) \<le> hi"
    using clamp_budget_range [of t "wanted_budget t l 0"] t by auto
  show ?thesis
    by (rule that [OF _ r]) (use r \<open>0 < lo\<close> in \<open>simp add: parse_claude_thinking_from_model_def l t(3) Let_def\<close>)
qed



text \<open>With an editor that reads back what it wrote, a body with thinking has at least the tokens required.\<close>

lemma ensured_max_tokens:
  assumes "\<And>n. gj_int J (be_get E (fst (be_set E body ''max_tokens'' (JNum (of_int n)))) ''max_tokens'') = n"
    "gj_str J (be_get E body ''thinking.type'') = ''enabled''" "0 < gj_int J (be_get E body ''thinking.budget_tokens'')"
  shows "required_max_tokens s model (gj_int J (be_get E body ''thinking.budget_tokens''))
    \<le> gj_int J (be_get E (ensure_claude_max_tokens J E s model body) ''max_tokens'')"
  using assms by (simp add: ensure_claude_max_tokens_def Let_def)

section \<open>Thinking in metadata\<close>

text \<open>The suffix of a Gemini model, carried as metadata, is read back as it was parsed.\<close>

theorem thinking_suffix_roundtrip:
  "gemini_thinking_from_metadata (snd (normalize_gemini_thinking_model name)) =
     (case parse_gemini_thinking_suffix name of (base, budget, incl, matched) \<Rightarrow>
        if matched then (budget, incl, True) else (None, None, False))"
proof -
  obtain base budget incl matched where p: "parse_gemini_thinking_suffix name = (base, budget, incl, matched)"
    by (cases "parse_gemini_thinking_suffix name")
  have "matched \<Longrightarrow> budget \<noteq> None"
    using p by (auto simp: parse_gemini_thinking_suffix_def Let_def split: if_splits option.splits) metis+
  then show ?thesis
    by (cases budget; cases incl)
      (auto simp: normalize_gemini_thinking_model_def p gemini_thinking_from_metadata_def thinking_budget_key_def
        include_thoughts_key_def original_model_key_def)
qed

lemma suffix_examples:
  "parse_gemini_thinking_suffix ''gemini-2.5-pro-nothinking'' = (''gemini-2.5-pro'', Some 128, Some False, True)"
  "parse_gemini_thinking_suffix ''gemini-2.5-flash-thinking-8192'' = (''gemini-2.5-flash'', Some 8192, None, True)"
  by code_simp+

text \<open>What follows the number is dropped from the name.\<close>

lemma text_after_number_dropped:
  "parse_gemini_thinking_suffix ''gemini-2.5-flash-thinking-8192-preview'' = (''gemini-2.5-flash'', Some 8192, None, True)"
  by code_simp

text \<open>A zero of type \<open>int64\<close> or \<open>int32\<close> counts as true, one of type \<open>int\<close> as false.\<close>

lemma zero_is_true: "to_bool (GoInt64 0) = Some True" "to_bool (GoInt32 0) = Some True" "to_bool (GoInt 0) = Some False"
  by simp_all

text \<open>
  The executor replaces the budget for thinking that the translated request has, unless the name of the model set
  it, by the registry's.
\<close>

theorem budget_of_request_replaced:
  assumes "thinking_range s model lo hi" "model \<noteq> []" "meta = []"
    "\<And>b n. gj_int J (be_get E (set_if_ok E b ''generationConfig.thinkingConfig.thinkingBudget'' (JNum (of_int n)))
       ''generationConfig.thinkingConfig.thinkingBudget'') = n"
    "\<And>b v. be_get E (set_if_ok E b ''generationConfig.thinkingConfig.include_thoughts'' v)
       ''generationConfig.thinkingConfig.thinkingBudget'' = be_get E b ''generationConfig.thinkingConfig.thinkingBudget''"
  shows "gj_int J (be_get E (gemini_body_thinking E s model meta body) ''generationConfig.thinkingConfig.thinkingBudget'')
    = fst (get_thinking_budget s model [] 0)"
proof -
  obtain t where t: "th_min t = lo" "th_max t = hi"
    "get_thinking_budget s model [] 0 = (clamp_budget t (wanted_budget t [] 0), 0 < clamp_budget t (wanted_budget t [] 0))"
    using thinking_range_budget [OF assms(1)] .
  have "0 < lo" "lo \<le> hi" using assms(1) by (auto simp: thinking_range_def)
  then have "0 < clamp_budget t (wanted_budget t [] 0)" using clamp_budget_range [of t "wanted_budget t [] 0"] t by auto
  moreover have "model_supports_thinking s model"
    using assms(1,2) by (auto simp: thinking_range_def model_supports_thinking_def bind_eq_Some_conv split: option.splits)
  ultimately show ?thesis
    using t(3) assms(3-)
    by (simp add: gemini_body_thinking_def gemini_thinking_from_metadata_def apply_gemini_thinking_config_def
        strip_thinking_config_if_unsupported_def)
qed


lemma split_thinking_paths:
  "split_char CHR ''.'' ''generationConfig.thinkingConfig.thinkingBudget'' = [''generationConfig'', ''thinkingConfig''] @ [''thinkingBudget'']"
  "split_char CHR ''.'' ''generationConfig.thinkingConfig.include_thoughts'' = [''generationConfig'', ''thinkingConfig''] @ [''include_thoughts'']"
  by code_simp+

lemma budget_of_request_replaced_witness:
  "gj_int value_reader (be_get value_editor (gemini_body_thinking value_editor thinking_registry thinking_model []
       (JObj [(''generationConfig'', JObj [(''thinkingConfig'', JObj [(''thinkingBudget'', JNum 2000)])])]))
     ''generationConfig.thinkingConfig.thinkingBudget'') = 24576"
proof -
  have "fst (get_thinking_budget thinking_registry thinking_model [] 0) = 24576" by code_simp
  moreover have "gj_int value_reader (be_get value_editor (gemini_body_thinking value_editor thinking_registry thinking_model []
       (JObj [(''generationConfig'', JObj [(''thinkingConfig'', JObj [(''thinkingBudget'', JNum 2000)])])]))
     ''generationConfig.thinkingConfig.thinkingBudget'') = fst (get_thinking_budget thinking_registry thinking_model [] 0)"
  proof (rule budget_of_request_replaced [OF thinking_registry_range])
    show "thinking_model \<noteq> []" by code_simp
    show "gj_int value_reader (be_get value_editor (set_if_ok value_editor b ''generationConfig.thinkingConfig.thinkingBudget''
        (JNum (of_int n))) ''generationConfig.thinkingConfig.thinkingBudget'') = n" for b n
      by (simp only: value_editor_def value_reader_def set_if_ok_def split_thinking_paths body_editor.simps gjson.simps prod.case
          get_set_path if_True option.case jval.case floor_of_int)
    show "be_get value_editor (set_if_ok value_editor b ''generationConfig.thinkingConfig.include_thoughts'' v)
        ''generationConfig.thinkingConfig.thinkingBudget''
      = be_get value_editor b ''generationConfig.thinkingConfig.thinkingBudget''" for b v
      by (simp only: value_editor_def value_reader_def set_if_ok_def split_thinking_paths body_editor.simps gjson.simps prod.case
          if_True) (rule get_set_other, simp)
  qed simp
  ultimately show ?thesis by simp
qed

end
