(* ===== verification/GeminiRequest.thy ===== *)
theory GeminiRequest
  imports VertexRequest Thinking PayloadSpec
begin

text \<open>
  Requests and answers in Gemini's format (\<open>from_ir/gemini.go\<close>), and the envelope that Vertex takes them in
  (\<open>VertexEnvelopeProvider\<close> of \<open>claude_vertex.go\<close>). The decoder of JSON, the state of the model registry, generated
  identifiers and the white picture that stands in for a missing one are arguments.
\<close>

section \<open>Contents\<close>

definition extract_system_text :: "message \<Rightarrow> string" where
  "extract_system_text m =
     (case List.find (\<lambda>p. cp_type p = ContentTypeText) (msg_content m) of Some p \<Rightarrow> cp_text p | None \<Rightarrow> [])"

definition gemini_assistant_part :: "content_part \<Rightarrow> jval option" where
  "gemini_assistant_part p =
     (if cp_type p = ContentTypeReasoning \<and> cp_reasoning p \<noteq> []
      then Some (JObj ([(''text'', JStr (cp_reasoning p)), (''thought'', JBool True)] @ valid_signature_field (cp_signature p)))
      else if cp_type p = ContentTypeText \<and> cp_text p \<noteq> []
      then Some (JObj ([(''text'', JStr (cp_text p))] @ valid_signature_field (cp_signature p)))
      else None)"

definition result_image_part :: "image_part \<Rightarrow> jval option" where
  "result_image_part i =
     (if im_data i \<noteq> [] then Some (inline_data (im_mime_type i) (im_data i))
      else if im_url i \<noteq> [] then Some (file_data (im_mime_type i) (im_url i)) else None)"

text \<open>What the tool returned as an object, or under a key if it is none.\<close>

definition build_function_response_object :: "'j gjson \<Rightarrow> (string \<Rightarrow> jval option) \<Rightarrow> string \<Rightarrow> bool \<Rightarrow> jval" where
  "build_function_response_object J decode res is_error =
     (if res = [] then (if is_error then JObj [(''error'', JStr ''Tool execution failed'')] else JObj [(''content'', JStr [])])
      else if is_error then JObj [(''error'', JStr res)]
      else
        let text = JObj [(''content'', JStr res)] in
        if gj_is_object J (gj_parse J res) \<or> gj_is_array J (gj_parse J res)
        then (case decode res of
                None \<Rightarrow> text
              | Some (JArr xs) \<Rightarrow> JObj [(''result'', JArr xs)]
              | Some v \<Rightarrow> v)
        else text)"

definition gemini_response_parts ::
    "'j gjson \<Rightarrow> (string \<Rightarrow> jval option) \<Rightarrow> (string, string) gomap \<Rightarrow> (string, tool_result_part) gomap \<Rightarrow> string \<Rightarrow> jval list" where
  "gemini_response_parts J decode names results i =
     (case (mget names i, mget results i) of
        (Some name, Some r) \<Rightarrow>
          build_function_response name i (build_function_response_object J decode (tr_result r) (tr_is_error r))
          # List.map_filter result_image_part (tr_images r)
      | _ \<Rightarrow> [])"

definition gemini_call_id :: "string \<Rightarrow> tool_call \<Rightarrow> string" where
  "gemini_call_id fresh tc = (if tc_id tc = [] then fresh else tc_id tc)"

definition build_assistant_and_tool_parts ::
    "'j gjson \<Rightarrow> (string \<Rightarrow> jval option) \<Rightarrow> (nat \<Rightarrow> string) \<Rightarrow> (string, string) gomap \<Rightarrow> (string, tool_result_part) gomap
      \<Rightarrow> string \<Rightarrow> message \<Rightarrow> jval list \<times> jval list" where
  "build_assistant_and_tool_parts J decode fresh names results model m =
     (let calls = List.map (\<lambda>(i, tc). (gemini_call_id (fresh i) tc, tc)) (enumerate 0 (msg_tool_calls m)) in
      (List.map_filter gemini_assistant_part (msg_content m)
       @ List.map (\<lambda>(i, tc). build_function_call (tc_name tc) i (args_as_raw decode (tc_args tc)) (tc_signature tc) (is_gemini3 model)) calls,
       concat (List.map (\<lambda>(i, tc). gemini_response_parts J decode names results i) calls)))"

definition gemini_emissions ::
    "'j gjson \<Rightarrow> (string \<Rightarrow> jval option) \<Rightarrow> (nat \<Rightarrow> string) \<Rightarrow> (string, string) gomap \<Rightarrow> (string, tool_result_part) gomap
      \<Rightarrow> string \<Rightarrow> message \<Rightarrow> (string \<times> jval list) list" where
  "gemini_emissions J decode fresh names results model m =
     (case msg_role m of
        RoleUser \<Rightarrow> [(''user'', build_user_parts (msg_content m))]
      | RoleAssistant \<Rightarrow>
          (case build_assistant_and_tool_parts J decode fresh names results model m of
             (ps, rs) \<Rightarrow> [(''model'', ps), (''user'', rs)])
      | _ \<Rightarrow> [])"

definition emit_contents :: "(string \<times> jval list) list \<Rightarrow> coalescer \<Rightarrow> coalescer" where
  "emit_contents es c = fold (\<lambda>(r, ps). coalescer_emit r ps) es c"

definition gemini_contents_of ::
    "'j gjson \<Rightarrow> (string \<Rightarrow> jval option) \<Rightarrow> (nat \<Rightarrow> string) \<Rightarrow> (nat \<Rightarrow> nat \<Rightarrow> string) \<Rightarrow> string \<Rightarrow> message list \<Rightarrow> contents" where
  "gemini_contents_of J decode gen fresh model ms =
     (case build_tool_maps gen ms of (ms, names, results) \<Rightarrow>
        co_contents (fold (\<lambda>(i, m). emit_contents (gemini_emissions J decode (fresh i) names results model m)) (enumerate 0 ms) new_coalescer))"

text \<open>The last system message whose first text is not empty is the instruction.\<close>

definition gemini_system :: "message list \<Rightarrow> jobj" where
  "gemini_system ms =
     fold (\<lambda>m sys. if msg_role m = RoleSystem \<and> extract_system_text m \<noteq> []
       then [(''systemInstruction'', JObj [(''role'', JStr ''user''), (''parts'', JArr [build_text_part (extract_system_text m)])])]
       else sys) ms []"

section \<open>Generation config\<close>

definition default_thinking_budget_tokens :: int where "default_thinking_budget_tokens = 16000"
definition default_max_output_tokens :: int where "default_max_output_tokens = 8192"

fun level_name :: "thinking_level \<Rightarrow> string" where
  "level_name ThinkingLevelUnspecified = ''THINKING_LEVEL_UNSPECIFIED''"
| "level_name ThinkingLevelMinimal = ''MINIMAL''"
| "level_name ThinkingLevelLow = ''LOW''"
| "level_name ThinkingLevelMedium = ''MEDIUM''"
| "level_name ThinkingLevelHigh = ''HIGH''"
| "level_name ThinkingLevelOff = ''OFF''"

definition gemini3_level :: "chat_request \<Rightarrow> thinking_level" where
  "gemini3_level req =
     (case rq_thinking req of
        None \<Rightarrow> default_thinking_level (rq_model req)
      | Some th \<Rightarrow>
          if th_effort th \<noteq> [] then effort_to_thinking_level (rq_model req) (th_effort th)
          else case th_budget th of
              Some b \<Rightarrow> budget_to_thinking_level (rq_model req) b
            | None \<Rightarrow> default_thinking_level (rq_model req))"

definition apply_gemini3_thinking_config :: "chat_request \<Rightarrow> bool \<Rightarrow> jobj" where
  "apply_gemini3_thinking_config req incl =
     [(''thinkingConfig'', JObj [(''includeThoughts'', JBool incl), (''thinkingLevel'', JStr (level_name (gemini3_level req)))])]"

definition meta_force_disable_thinking :: string where
  "meta_force_disable_thinking = ''_force_disable_thinking''"

definition apply_thinking_config :: "registry_state \<Rightarrow> chat_request \<Rightarrow> bool \<Rightarrow> jobj" where
  "apply_thinking_config s req g3 =
     (if mget (rq_metadata req) meta_force_disable_thinking = Some (JBool True) then []
      else case get_auto_applied_thinking_config s (rq_model req) of
          (budget, incl, auto) \<Rightarrow>
            if rq_thinking req = None \<and> \<not> auto then []
            else
              let eb = (case rq_thinking req of Some th \<Rightarrow> (case th_budget th of Some b \<Rightarrow> b | None \<Rightarrow> budget) | None \<Rightarrow> budget);
                  ei = (case rq_thinking req of Some th \<Rightarrow> th_include_thoughts th | None \<Rightarrow> incl);
                  eb = (if eb \<le> 0 then default_thinking_budget_tokens else eb)
              in if g3 then apply_gemini3_thinking_config req ei
                 else [(''thinkingConfig'', JObj [(''thinkingBudget'', jint eb), (''includeThoughts'', JBool ei)])])"

definition preview_model :: string where
  "preview_model = ''gemini-2.5-flash-image-preview''"

definition aspect_ratio :: "chat_request \<Rightarrow> string" where
  "aspect_ratio req = (case rq_image_config req of Some ic \<Rightarrow> ic_aspect_ratio ic | None \<Rightarrow> [])"

definition image_size :: "chat_request \<Rightarrow> string" where
  "image_size req = (case rq_image_config req of Some ic \<Rightarrow> ic_image_size ic | None \<Rightarrow> [])"

definition strings_unless_empty :: "string \<Rightarrow> string list \<Rightarrow> jobj" where
  "strings_unless_empty k xs = (if xs = [] then [] else [(k, strings xs)])"

definition gemini_generation_config :: "registry_state \<Rightarrow> chat_request \<Rightarrow> jobj" where
  "gemini_generation_config s req =
     optional ''temperature'' (map_option JNum (rq_temperature req))
     @ optional ''topP'' (map_option JNum (rq_top_p req))
     @ optional ''topK'' (map_option (\<lambda>n. jint n) (rq_top_k req))
     @ [(''maxOutputTokens'', jint (case rq_max_tokens req of Some n \<Rightarrow> if 0 < n then n else default_max_output_tokens
                                    | None \<Rightarrow> default_max_output_tokens))]
     @ strings_unless_empty ''stopSequences'' (rq_stop_sequences req)
     @ optional ''frequencyPenalty'' (map_option JNum (rq_frequency_penalty req))
     @ optional ''presencePenalty'' (map_option JNum (rq_presence_penalty req))
     @ (if rq_logprobs req = Some True
        then [(''responseLogprobs'', JBool True)] @ optional ''logprobs'' (map_option (\<lambda>n. jint n) (rq_top_logprobs req)) else [])
     @ (case rq_candidate_count req of Some n \<Rightarrow> if 1 < n then [(''candidateCount'', jint n)] else [] | None \<Rightarrow> [])
     @ apply_thinking_config s req (is_gemini3 (rq_model req))
     @ strings_unless_empty ''responseModalities'' (rq_modality req)
     @ (if aspect_ratio req \<noteq> [] \<and> rq_model req \<noteq> preview_model
        then [(''imageConfig'', JObj [(''aspectRatio'', JStr (aspect_ratio req)), (''imageSize'', JStr (image_size req))])] else [])
     @ (case rq_response_schema req of
          Some m \<Rightarrow> [(''responseMimeType'', JStr ''application/json''), (''responseJsonSchema'', JObj m)]
        | None \<Rightarrow> [])"

definition tool_config :: "jobj \<Rightarrow> jobj" where
  "tool_config fc = [(''toolConfig'', JObj [(''functionCallingConfig'', JObj fc)])]"

definition requested_tool_config :: "chat_request \<Rightarrow> jobj" where
  "requested_tool_config req =
     (case rq_function_calling req of
        None \<Rightarrow> []
      | Some f \<Rightarrow>
          let fc = str_unless_empty ''mode'' (fc_mode f) @ strings_unless_empty ''allowedFunctionNames'' (fc_allowed f)
                @ (if fc_stream_arguments f then [(''streamFunctionCallArguments'', JBool True)] else [])
          in if fc = [] then [] else tool_config fc)"

section \<open>Tools\<close>

definition gemini_builtins :: "(string, string) gomap" where
  "gemini_builtins = [(meta_google_search, ''googleSearch''), (''google_search_retrieval'', ''googleSearchRetrieval''),
     (''code_execution'', ''codeExecution''), (''url_context'', ''urlContext''), (''file_search'', ''fileSearch'')]"

definition foreign_options :: "string list" where
  "foreign_options = [''_original_type'', ''max_uses'', ''container'', ''vector_store'', ''max_num_results'', ''ranking_options'']"

definition gemini_builtin :: "jval \<Rightarrow> jval" where
  "gemini_builtin v = (case v of JObj m \<Rightarrow> JObj (filter (\<lambda>(k, x). k \<notin> set foreign_options) m) | _ \<Rightarrow> v)"

definition gemini_builtin_tools :: "jobj \<Rightarrow> bool \<Rightarrow> jobj" where
  "gemini_builtin_tools meta has_functions =
     List.map_filter (\<lambda>(k, name).
       if has_functions \<and> k \<in> {meta_google_search, ''google_search_retrieval''} then None
       else map_option (\<lambda>v. (name, gemini_builtin v)) (mget meta k)) gemini_builtins"

definition complete_parameters :: "jobj \<Rightarrow> jobj" where
  "complete_parameters m =
     (let m = (case mget m ''type'' of
                 Some (JStr t) \<Rightarrow> if t = [] \<or> t = ''None'' then mput ''type'' (JStr ''object'') m else m
               | _ \<Rightarrow> mput ''type'' (JStr ''object'') m)
      in case mget m ''properties'' of
           None \<Rightarrow> mput ''properties'' (JObj []) m
         | Some JNull \<Rightarrow> mput ''properties'' (JObj []) m
         | _ \<Rightarrow> m)"

text \<open>The parameters that come from the cache are completed in place, and so is the entry of the cache.\<close>

definition gemini_parameters :: "jobj option \<Rightarrow> schema_cache \<Rightarrow> jval \<times> schema_cache" where
  "gemini_parameters ps cache =
     (case (ps, clean_json_schema_for_gemini ps cache) of
        (Some s, Some m, cache) \<Rightarrow>
          let m = complete_parameters m
          in (JObj m, if schema_hasher s = [] then cache else mput (schema_hasher s) m cache)
      | (_, _, cache) \<Rightarrow> (blank_parameters, cache))"

fun gemini_functions :: "tool_definition list \<Rightarrow> schema_cache \<Rightarrow> jval list \<times> schema_cache" where
  "gemini_functions [] cache = ([], cache)"
| "gemini_functions (t # ts) cache =
     (let (ps, cache) = gemini_parameters (td_parameters t) cache; (fs, cache) = gemini_functions ts cache
      in (function_declaration t ps # fs, cache))"

definition chosen_tool_config :: "chat_request \<Rightarrow> jobj" where
  "chosen_tool_config req =
     (let c = rq_tool_choice req;
          (mode, allowed) = (if c = ''none'' then (''NONE'', [])
            else if c \<in> {''required'', ''any''} then (''ANY'', [])
            else if c = ''validated'' then (''VALIDATED'', [])
            else if c = ''function'' \<and> rq_tool_choice_function req \<noteq> [] then (''ANY'', [rq_tool_choice_function req])
            else (''AUTO'', []))
      in tool_config ([(''mode'', JStr mode)] @ strings_unless_empty ''allowedFunctionNames'' allowed))"

definition gemini_tools :: "chat_request \<Rightarrow> schema_cache \<Rightarrow> jobj \<times> schema_cache" where
  "gemini_tools req cache =
     (let (fs, cache) = gemini_functions (rq_tools req) cache;
          tn = gemini_builtin_tools (rq_metadata req) (rq_tools req \<noteq> []) @ (if rq_tools req = [] then [] else [(''functionDeclarations'', JArr fs)])
      in (if tn = [] then [] else [(''tools'', JArr [JObj tn])], cache))"

text \<open>The choice of a tool replaces the config that the request asks for.\<close>

definition gemini_tool_config :: "chat_request \<Rightarrow> jobj" where
  "gemini_tool_config req = (if rq_tools req = [] then requested_tool_config req else chosen_tool_config req)"

section \<open>The request\<close>

definition default_gemini_safety_settings :: "safety_setting list" where
  "default_gemini_safety_settings =
     List.map (\<lambda>(c, t). \<lparr>sa_category = c, sa_threshold = t\<rparr>)
       [(''HARM_CATEGORY_HARASSMENT'', ''OFF''), (''HARM_CATEGORY_HATE_SPEECH'', ''OFF''),
        (''HARM_CATEGORY_SEXUALLY_EXPLICIT'', ''OFF''), (''HARM_CATEGORY_DANGEROUS_CONTENT'', ''OFF''),
        (''HARM_CATEGORY_CIVIC_INTEGRITY'', ''BLOCK_NONE'')]"

definition apply_safety_settings :: "chat_request \<Rightarrow> jval" where
  "apply_safety_settings req =
     JArr (List.map (\<lambda>s. JObj [(''category'', JStr (sa_category s)), (''threshold'', JStr (sa_threshold s))])
       (if rq_safety_settings req \<noteq> [] then rq_safety_settings req else default_gemini_safety_settings))"

definition picture_instruction :: string where
  "picture_instruction = ''Based on the following requirements, create an image within the uploaded picture. The new content *MUST* completely cover the entire area of the original picture, maintaining its exact proportions, and *NO* blank areas should appear.''"

definition has_picture :: "contents \<Rightarrow> bool" where
  "has_picture cs = list_ex (\<lambda>(r, ps). list_ex (\<lambda>p. part_field p ''inlineData'' \<noteq> None) ps) cs"

text \<open>\<open>white\<close> is the picture of the ratio, if it could be made.\<close>

definition fix_image_aspect_ratio_for_preview :: "string option \<Rightarrow> contents \<Rightarrow> jobj \<Rightarrow> contents \<times> jobj" where
  "fix_image_aspect_ratio_for_preview white cs gc =
     (case (cs, white) of
        ((r, ps) # cs', Some img) \<Rightarrow>
          if has_picture cs then (cs, gc)
          else ((r, [build_text_part picture_instruction,
                     JObj [(''inlineData'', JObj [(''mime_type'', JStr ''image/png''), (''data'', JStr img)])]] @ ps) # cs',
                mdel ''imageConfig'' (mput ''responseModalities'' (strings [''IMAGE'', ''TEXT'']) gc))
      | _ \<Rightarrow> (cs, gc))"

definition convert_gemini_request ::
    "'j gjson \<Rightarrow> (string \<Rightarrow> jval option) \<Rightarrow> registry_state \<Rightarrow> (string \<Rightarrow> string option) \<Rightarrow> (nat \<Rightarrow> string) \<Rightarrow> (nat \<Rightarrow> nat \<Rightarrow> string)
      \<Rightarrow> chat_request \<Rightarrow> schema_cache \<Rightarrow> jobj \<times> schema_cache" where
  "convert_gemini_request J decode s white gen fresh req cache =
     (let cs = gemini_contents_of J decode gen fresh (rq_model req) (rq_messages req);
          gc = gemini_generation_config s req;
          (tools, cache) = gemini_tools req cache;
          (cs, gc) = (if rq_model req = preview_model \<and> aspect_ratio req \<noteq> []
                      then fix_image_aspect_ratio_for_preview (white (aspect_ratio req)) cs gc else (cs, gc))
      in ([(''contents'', JArr (List.map content_json cs))]
          @ gemini_system (rq_messages req)
          @ [(''generationConfig'', JObj gc)]
          @ tools @ gemini_tool_config req
          @ [(''safetySettings'', apply_safety_settings req)]
          @ optional ''cachedContent'' (mget (rq_metadata req) ''gemini:cachedContent'')
          @ optional ''labels'' (mget (rq_metadata req) ''gemini:labels''), cache))"

definition convert_vertex_request ::
    "'j gjson \<Rightarrow> (string \<Rightarrow> jval option) \<Rightarrow> registry_state \<Rightarrow> (string \<Rightarrow> string option) \<Rightarrow> (nat \<Rightarrow> string) \<Rightarrow> (nat \<Rightarrow> nat \<Rightarrow> string)
      \<Rightarrow> chat_request \<Rightarrow> schema_cache \<Rightarrow> jval \<times> schema_cache" where
  "convert_vertex_request J decode s white gen fresh req cache =
     (if is_claude_model (rq_model req) then (to_vertex_claude_request decode gen fresh req, cache)
      else case convert_gemini_request J decode s white gen fresh req cache of
          (m, cache) \<Rightarrow> (vertex_envelope (rq_model req) (JObj m), cache))"

section \<open>The answer\<close>

definition to_gemini_response_meta ::
    "(string \<Rightarrow> jval option) \<Rightarrow> message list \<Rightarrow> usage option \<Rightarrow> string \<Rightarrow> openai_meta option \<Rightarrow> jval" where
  "to_gemini_response_meta decode ms us model meta =
     (let b = \<lparr>rb_messages = ms, rb_usage = us, rb_model = model, rb_thinking = False\<rparr>;
          candidate = JObj ([(''content'', JObj [(''role'', JStr ''model''), (''parts'', JArr (build_gemini_content_parts decode b))]),
              (''finishReason'', JStr ''STOP'')]
            @ optional ''groundingMetadata'' (map_option build_grounding_metadata_map (Option.bind meta om_grounding)))
      in JObj ([(''candidates'', JArr (if has_content b then [candidate] else [])), (''modelVersion'', JStr model)]
           @ optional ''usageMetadata'' (map_option gemini_usage us)))"

definition to_gemini_response :: "(string \<Rightarrow> jval option) \<Rightarrow> message list \<Rightarrow> usage option \<Rightarrow> string \<Rightarrow> jval" where
  "to_gemini_response decode ms us model = to_gemini_response_meta decode ms us model None"


section \<open>Contents stay in order\<close>

lemma emit_contents_tagged: "emit_contents es c = fold (\<lambda>(t :: unit, r, ps). coalescer_emit r ps) (List.map (Pair ()) es) c"
  by (induction es arbitrary: c) (auto simp: emit_contents_def)

lemma emit_contents_append: "emit_contents (es @ es') c = emit_contents es' (emit_contents es c)"
  by (simp add: emit_contents_def)

lemma fold_emit_contents: "fold (\<lambda>x. emit_contents (f x)) xs c = emit_contents (concat (List.map f xs)) c"
proof (induction xs arbitrary: c)
  case (Cons x xs)
  then show ?case by (simp add: emit_contents_append)
qed (simp add: emit_contents_def)

lemma new_coalescer_ok: "coalescer_ok new_coalescer"
  by (simp add: coalescer_ok_def new_coalescer_def)

lemma emit_contents_flat:
  "flat (co_contents (emit_contents es new_coalescer)) = flat es \<and> alternating (co_contents (emit_contents es new_coalescer))"
  unfolding emit_contents_tagged
  using gemini_contents.emit_all_flat [OF new_coalescer_ok] gemini_contents.emit_all_alternating [OF new_coalescer_ok]
  by (simp add: new_coalescer_def comp_def)

definition all_emissions ::
    "'j gjson \<Rightarrow> (string \<Rightarrow> jval option) \<Rightarrow> (nat \<Rightarrow> string) \<Rightarrow> (nat \<Rightarrow> nat \<Rightarrow> string) \<Rightarrow> string \<Rightarrow> message list \<Rightarrow> contents" where
  "all_emissions J decode gen fresh model ms =
     (case build_tool_maps gen ms of (ms, names, results) \<Rightarrow>
        concat (List.map (\<lambda>(i, m). gemini_emissions J decode (fresh i) names results model m) (enumerate 0 ms)))"


section \<open>What every request has\<close>

lemma positive_output_tokens:
  "\<exists>n. mget (gemini_generation_config s req) ''maxOutputTokens'' = Some (jint n) \<and> 0 < n"
  by (auto simp: gemini_generation_config_def optional_def default_max_output_tokens_def map_add_def split: option.split)

text \<open>Parameters of functions are an object with properties.\<close>

definition object_schema :: "jval \<Rightarrow> bool" where
  "object_schema v \<longleftrightarrow> (case v of
      JObj m \<Rightarrow> (\<exists>t. mget m ''type'' = Some (JStr t) \<and> t \<noteq> [] \<and> t \<noteq> ''None'') \<and> mget m ''properties'' \<notin> {None, Some JNull}
    | _ \<Rightarrow> False)"

lemma complete_parameters_object: "object_schema (JObj (complete_parameters m))"
  by (auto simp: object_schema_def complete_parameters_def Let_def split: option.splits jval.splits)


lemma blank_parameters_object: "object_schema blank_parameters"
  by (simp add: object_schema_def blank_parameters_def)

lemma gemini_parameters_object: "object_schema (fst (gemini_parameters ps cache))"
  by (auto simp: gemini_parameters_def complete_parameters_object blank_parameters_object Let_def split: option.split prod.split)

text \<open>Every function is declared to Gemini with an object for parameters, also one that comes from the cache.\<close>

theorem functions_declared_with_objects:
  "list_all (\<lambda>f. case part_field f ''parameters'' of Some v \<Rightarrow> object_schema v | None \<Rightarrow> False) (fst (gemini_functions ts cache))"
proof (induction ts arbitrary: cache)
  case (Cons t ts)
  obtain ps cache' where p: "gemini_parameters (td_parameters t) cache = (ps, cache')"
    by (cases "gemini_parameters (td_parameters t) cache")
  have "object_schema ps" using gemini_parameters_object [of "td_parameters t" cache] by (simp add: p)
  then show ?case using Cons [of cache']
    by (auto simp: p function_declaration_def part_field_def split: prod.split)
qed simp

lemma calling_config_unused:
  "aspect_ratio (req\<lparr>rq_function_calling := f\<rparr>) = aspect_ratio req"
  "gemini_generation_config s (req\<lparr>rq_function_calling := f\<rparr>) = gemini_generation_config s req"
  "gemini_tools (req\<lparr>rq_function_calling := f\<rparr>) cache = gemini_tools req cache"
  "chosen_tool_config (req\<lparr>rq_function_calling := f\<rparr>) = chosen_tool_config req"
  "apply_safety_settings (req\<lparr>rq_function_calling := f\<rparr>) = apply_safety_settings req"
  unfolding gemini_generation_config_def apply_thinking_config_def apply_gemini3_thinking_config_def gemini3_level_def
    aspect_ratio_def image_size_def gemini_tools_def chosen_tool_config_def apply_safety_settings_def
  by (cases req; simp only: chat_request.simps)+

text \<open>
  With tools in the request the config for calling functions that it asks for is not sent; the choice of a tool
  takes its place.
\<close>

theorem function_calling_config_lost:
  assumes "rq_tools req \<noteq> []"
  shows "convert_gemini_request J decode s white gen fresh (req\<lparr>rq_function_calling := f\<rparr>) cache
    = convert_gemini_request J decode s white gen fresh req cache"
  using assms by (simp add: convert_gemini_request_def calling_config_unused gemini_tool_config_def cong: if_cong)

definition tool_request :: chat_request where
  "tool_request = (new_request ''gemini-2.5-pro'')\<lparr>rq_tools := [\<lparr>td_name = ''ls'', td_description = [], td_parameters = None\<rparr>]\<rparr>"

lemma function_calling_config_lost_witness:
  "mget (fst (convert_gemini_request value_reader (\<lambda>s. None) new_registry_state (\<lambda>r. None) (\<lambda>n. ''x'') (\<lambda>n k. ''y'')
      (tool_request\<lparr>rq_function_calling := Some \<lparr>fc_mode = ''ANY'', fc_allowed = [''ls''], fc_stream_arguments = True\<rparr>\<rparr>) [])) ''toolConfig''
    = Some (JObj [(''functionCallingConfig'', JObj [(''mode'', JStr ''AUTO'')])])"
proof -
  have t: "rq_tools tool_request \<noteq> []" by (simp add: tool_request_def)
  show ?thesis unfolding function_calling_config_lost [OF t] by code_simp
qed

section \<open>Results stand behind their calls\<close>

lemma part_id_build:
  "call_id (build_function_call n i args sig g) = (if i = [] then None else Some i)"
  "response_id (build_function_response n i r) = (if i = [] then None else Some i)"
  by (simp_all add: call_id_def response_id_def part_id_def part_field_def build_function_call_def build_function_response_def)

lemma no_call_id: "gemini_assistant_part p = Some v \<Longrightarrow> call_id v = None"
  by (auto simp: gemini_assistant_part_def call_id_def part_id_def part_field_def valid_signature_field_def split: if_splits)

lemma no_response_id: "result_image_part i = Some v \<Longrightarrow> response_id v = None"
  by (auto simp: result_image_part_def response_id_def part_id_def part_field_def inline_data_def file_data_def split: if_splits)

lemma map_filter_none: "(\<And>x v. f x = Some v \<Longrightarrow> g v = None) \<Longrightarrow> List.map_filter g (List.map_filter f xs) = []"
  by (induction xs) (auto simp: map_filter_simps split: option.split)

definition answerable :: "(string, string) gomap \<Rightarrow> (string, tool_result_part) gomap \<Rightarrow> string \<Rightarrow> bool" where
  "answerable names results i \<longleftrightarrow> mget names i \<noteq> None \<and> mget results i \<noteq> None"

lemma response_ids:
  assumes "i \<noteq> []"
  shows "List.map_filter response_id (gemini_response_parts J decode names results i) = (if answerable names results i then [i] else [])"
  using assms map_filter_none [of result_image_part response_id, OF no_response_id]
  by (auto simp: gemini_response_parts_def answerable_def map_filter_simps part_id_build split: option.split)

lemma map_filter_append: "List.map_filter f (xs @ ys) = List.map_filter f xs @ List.map_filter f ys"
  by (simp add: List.map_filter_def)

lemma call_ids:
  "\<forall>x \<in> set calls. fst x \<noteq> [] \<Longrightarrow>
    List.map_filter call_id (List.map (\<lambda>(i, tc). build_function_call (n tc) i (a tc) (g tc) b) calls) = List.map fst calls"
  by (induction calls) (auto simp: map_filter_simps part_id_build)

lemma answer_ids:
  "\<forall>x \<in> set calls. fst x \<noteq> [] \<Longrightarrow>
    List.map_filter response_id (concat (List.map (\<lambda>(i, tc). gemini_response_parts J decode names results i) calls))
      = filter (answerable names results) (List.map fst calls)"
  by (induction calls) (auto simp: map_filter_append response_ids map_filter_simps)

text \<open>
  The results sent behind a message of the model belong, in their order, to those of its calls that have a result
  among the messages.
\<close>

theorem gemini_results_answer_calls:
  assumes "\<And>i. fresh i \<noteq> []" "build_assistant_and_tool_parts J decode fresh names results model m = (ps, rs)"
  shows "List.map_filter response_id rs = filter (answerable names results) (List.map_filter call_id ps)"
proof -
  define calls where "calls = List.map (\<lambda>(i, tc). (gemini_call_id (fresh i) tc, tc)) (enumerate 0 (msg_tool_calls m))"
  have c: "\<forall>x \<in> set calls. fst x \<noteq> []" using assms(1) by (auto simp: calls_def gemini_call_id_def split: if_splits)
  have "List.map_filter call_id (List.map_filter gemini_assistant_part (msg_content m)) = []"
    by (rule map_filter_none) (rule no_call_id)
  then have p: "List.map_filter call_id ps = List.map fst calls"
    using assms(2) call_ids [OF c, of tc_name "\<lambda>tc. args_as_raw decode (tc_args tc)" tc_signature "is_gemini3 model"]
    by (auto simp: build_assistant_and_tool_parts_def Let_def calls_def [symmetric] map_filter_append)
  have "List.map_filter response_id rs = filter (answerable names results) (List.map fst calls)"
    using assms(2) answer_ids [OF c] by (auto simp: build_assistant_and_tool_parts_def Let_def calls_def [symmetric])
  then show ?thesis by (simp add: p)
qed

lemma gemini_results_answer_calls_witness:
  "let f = build_assistant_and_tool_parts value_reader (\<lambda>s. None) (\<lambda>n. ''y'') [(''call_1'', ''ls''), (''call_2'', ''pwd'')]
        [(''call_2'', \<lparr>tr_call_id = ''call_2'', tr_result = ''/'', tr_is_error = False, tr_images = [], tr_files = []\<rparr>)]
        ''gemini-2.5-pro'' (tool_chat ! 1)
   in List.map_filter response_id (snd f) = [''call_2'']"
proof -
  define f where "f = build_assistant_and_tool_parts value_reader (\<lambda>s. None) (\<lambda>n. ''y'') [(''call_1'', ''ls''), (''call_2'', ''pwd'')]
        [(''call_2'', \<lparr>tr_call_id = ''call_2'', tr_result = ''/'', tr_is_error = False, tr_images = [], tr_files = []\<rparr>)]
        ''gemini-2.5-pro'' (tool_chat ! 1)"
  have e: "List.map_filter call_id (fst f) = [''call_1'', ''call_2'']" unfolding f_def by code_simp
  have "List.map_filter response_id (snd f) = filter (answerable [(''call_1'', ''ls''), (''call_2'', ''pwd'')]
        [(''call_2'', \<lparr>tr_call_id = ''call_2'', tr_result = ''/'', tr_is_error = False, tr_images = [], tr_files = []\<rparr>)])
      (List.map_filter call_id (fst f))"
    by (rule gemini_results_answer_calls) (simp_all add: f_def)
  also have "\<dots> = [''call_2'']" unfolding e by (simp add: answerable_def)
  finally show ?thesis by (simp add: f_def)
qed

end
