(* ===== verification/TextSanitize.thy ===== *)
theory TextSanitize
  imports Prelude
begin

text \<open>
  \<open>SanitizeText\<close> of \<open>internal/translator/ir/util.go\<close>, which makes a result of a tool fit for JSON: it drops bytes that are
  not UTF-8 and control characters. A string is a list of bytes; runes are the library's.
\<close>

section \<open>Runes\<close>

definition byte_in :: "nat \<Rightarrow> nat \<Rightarrow> char \<Rightarrow> bool" where
  "byte_in lo hi c \<longleftrightarrow> (let n = of_char c :: nat in lo \<le> n \<and> n \<le> hi)"

text \<open>The bytes that may follow the first one of a rune, each with its range.\<close>

definition rune_tail :: "char \<Rightarrow> (nat \<times> nat) list option" where
  "rune_tail c =
     (let n = of_char c :: nat; any = (0x80, 0xBF) in
      if n < 0x80 then Some []
      else if 0xC2 \<le> n \<and> n \<le> 0xDF then Some [any]
      else if n = 0xE0 then Some [(0xA0, 0xBF), any]
      else if n = 0xED then Some [(0x80, 0x9F), any]
      else if 0xE1 \<le> n \<and> n \<le> 0xEF then Some [any, any]
      else if n = 0xF0 then Some [(0x90, 0xBF), any, any]
      else if 0xF1 \<le> n \<and> n \<le> 0xF3 then Some [any, any, any]
      else if n = 0xF4 then Some [(0x80, 0x8F), any, any]
      else None)"

fun tail_fits :: "(nat \<times> nat) list \<Rightarrow> string \<Rightarrow> bool" where
  "tail_fits [] s = True"
| "tail_fits ((lo, hi) # rs) (c # s) \<longleftrightarrow> byte_in lo hi c \<and> tail_fits rs s"
| "tail_fits (r # rs) [] = False"

text \<open>The size of the first rune, unless the first byte is an encoding error.\<close>

definition rune_size :: "string \<Rightarrow> nat option" where
  "rune_size s =
     (case s of
        [] \<Rightarrow> None
      | c # cs \<Rightarrow> (case rune_tail c of Some rs \<Rightarrow> if tail_fits rs cs then Some (Suc (length rs)) else None | None \<Rightarrow> None))"

lemma tail_fits_length: "tail_fits rs s \<Longrightarrow> length rs \<le> length s"
  by (induction rs s rule: tail_fits.induct) auto

lemma tail_fits_take: "length rs \<le> n \<Longrightarrow> tail_fits rs (take n s @ t) \<longleftrightarrow> tail_fits rs (take n s @ u)" if "n \<le> length s"
  using that
proof (induction rs s arbitrary: n rule: tail_fits.induct)
  case (2 lo hi rs c s)
  then show ?case by (cases n) auto
next
  case (3 r rs)
  then show ?case by (cases n) auto
qed simp

lemma rune_size_pos: "rune_size s = Some n \<Longrightarrow> 0 < n \<and> n \<le> length s"
  by (auto simp: rune_size_def dest: tail_fits_length split: list.splits option.splits if_splits)

lemma rune_size_prefix:
  assumes "rune_size s = Some n"
  shows "rune_size (take n s @ t) = Some n"
proof -
  obtain c cs rs where s: "s = c # cs" "rune_tail c = Some rs" "tail_fits rs cs" "n = Suc (length rs)"
    using assms by (auto simp: rune_size_def split: list.splits option.splits if_splits)
  have l: "length rs \<le> length cs" using s(3) by (rule tail_fits_length)
  have "tail_fits rs (take (length rs) cs @ drop (length rs) cs)" using s(3) by simp
  then have "tail_fits rs (take (length rs) cs @ t)" using tail_fits_take [OF l order.refl] by blast
  then show ?thesis using s by (simp add: rune_size_def)
qed

section \<open>Cleaning\<close>

definition control_char :: "char \<Rightarrow> bool" where
  "control_char c \<longleftrightarrow> (let n = of_char c :: nat in n < 0x20 \<and> n \<notin> {9, 10, 13})"

function sanitize_loop :: "string \<Rightarrow> string" where
  "sanitize_loop s =
     (if s = [] then []
      else case rune_size s of
          None \<Rightarrow> sanitize_loop (drop 1 s)
        | Some n \<Rightarrow> (if control_char (hd s) then [] else take n s) @ sanitize_loop (drop n s))"
  by auto
termination
  by (relation "measure length") (auto dest: rune_size_pos)

declare sanitize_loop.simps [simp del]

function valid_utf8 :: "string \<Rightarrow> bool" where
  "valid_utf8 s = (if s = [] then True else case rune_size s of None \<Rightarrow> False | Some n \<Rightarrow> valid_utf8 (drop n s))"
  by auto
termination
  by (relation "measure length") (auto dest: rune_size_pos)

declare valid_utf8.simps [simp del]

text \<open>The test walks over the runes; bytes of an encoding error read as the replacement character.\<close>

definition has_problematic_chars :: "string \<Rightarrow> bool" where
  "has_problematic_chars s = list_ex control_char s"

definition sanitize_text :: "string \<Rightarrow> string" where
  "sanitize_text s = (if s = [] \<or> (valid_utf8 s \<and> \<not> has_problematic_chars s) then s else sanitize_loop s)"

section \<open>Clean texts\<close>

lemma control_char_first: "control_char c \<Longrightarrow> rune_size (c # s) = Some 1"
  by (auto simp: control_char_def rune_size_def rune_tail_def Let_def)

lemma tail_bytes: "rune_tail c = Some rs \<Longrightarrow> \<forall>(lo, hi) \<in> set rs. 0x80 \<le> lo"
  by (auto simp: rune_tail_def Let_def split: if_splits)

lemma tail_no_control: "tail_fits rs s \<Longrightarrow> \<forall>(lo, hi) \<in> set rs. 0x80 \<le> lo \<Longrightarrow> \<not> list_ex control_char (take (length rs) s)"
  by (induction rs s rule: tail_fits.induct) (auto simp: byte_in_def control_char_def Let_def)

lemma rune_no_control:
  assumes "rune_size s = Some n" "\<not> control_char (hd s)"
  shows "\<not> list_ex control_char (take n s)"
proof -
  obtain c cs rs where s: "s = c # cs" "rune_tail c = Some rs" "tail_fits rs cs" "n = Suc (length rs)"
    using assms by (auto simp: rune_size_def split: list.splits option.splits if_splits)
  then show ?thesis using tail_no_control [OF s(3) tail_bytes [OF s(2)]] assms(2) by simp
qed

lemma valid_utf8_rune: "rune_size s = Some n \<Longrightarrow> valid_utf8 (take n s @ t) = valid_utf8 t"
  using rune_size_prefix [of s n t] rune_size_pos [of s n] by (subst valid_utf8.simps) (auto simp: min_def)

lemma sanitize_loop_clean: "valid_utf8 (sanitize_loop s) \<and> \<not> list_ex control_char (sanitize_loop s)"
proof (induction s rule: sanitize_loop.induct)
  case (1 s)
  show ?case
  proof (cases "rune_size s")
    case None
    then show ?thesis using 1(1) by (subst (1 2) sanitize_loop.simps) (auto simp: valid_utf8.simps [of "[]"])
  next
    case (Some n)
    then have "s \<noteq> []" using rune_size_pos by fastforce
    then show ?thesis using 1(2) [OF _ Some] rune_no_control [OF Some] Some
      by (subst (1 2) sanitize_loop.simps) (auto simp: valid_utf8_rune [OF Some])
  qed
qed

lemma sanitize_loop_id: "valid_utf8 s \<Longrightarrow> \<not> list_ex control_char s \<Longrightarrow> sanitize_loop s = s"
proof (induction s rule: sanitize_loop.induct)
  case (1 s)
  show ?case
  proof (cases "s = []")
    case False
    then obtain n where n: "rune_size s = Some n" "valid_utf8 (drop n s)"
      using 1(3) by (subst (asm) valid_utf8.simps) (auto split: option.splits)
    have "\<not> control_char (hd s)" "\<not> list_ex control_char (drop n s)"
      using 1(4) False by (auto simp: list_ex_iff dest: in_set_dropD hd_in_set)
    then show ?thesis using 1(2) [OF False n(1)] n False by (subst sanitize_loop.simps) simp
  qed (simp add: sanitize_loop.simps)
qed

text \<open>
  A sanitised text is UTF-8 without control characters, a text that was so before is unchanged, and the shortcut
  for such texts agrees with the loop.
\<close>

theorem sanitized_text_clean:
  "valid_utf8 (sanitize_text s) \<and> \<not> has_problematic_chars (sanitize_text s)
    \<and> sanitize_text s = sanitize_loop s \<and> sanitize_text (sanitize_text s) = sanitize_text s"
proof -
  have e: "sanitize_text t = sanitize_loop t" for t
    by (cases "t = []") (auto simp: sanitize_text_def has_problematic_chars_def sanitize_loop_id sanitize_loop.simps [of "[]"])
  show ?thesis using sanitize_loop_clean [of s] sanitize_loop_id [of "sanitize_loop s"] unfolding e has_problematic_chars_def by auto
qed

end
