(* ===== verification/OpenaiParse.thy ===== *)
theory OpenaiParse
  imports CommonParams ClaudeRequest TextSanitize MalformedCall
begin

text \<open>
  What is read of OpenAI's formats (\<open>to_ir/openai.go\<close>): requests and answers of both of its interfaces, chat
  completions and responses, and the events of a stream. The reader and decoder of JSON and the table of MIME types by
  extension are arguments.
\<close>

section \<open>Usage\<close>

definition detail_int :: "'j gjson \<Rightarrow> 'j \<Rightarrow> string \<Rightarrow> int" where
  "detail_int J d k = (let v = gj_get J d k in if gj_exists J v then gj_int J v else 0)"

text \<open>The first step reads the names of the responses interface, then those of chat completions.\<close>

definition responses_details :: "'j gjson \<Rightarrow> 'j \<Rightarrow> usage \<Rightarrow> usage" where
  "responses_details J u us =
     (let cached = gj_get J u ''input_tokens_details.cached_tokens''; cached' = gj_get J u ''prompt_tokens_details.cached_tokens'';
          us = (if gj_exists J cached
                then us\<lparr>us_cached := gj_int J cached, us_prompt_details := Some \<lparr>pd_cached = gj_int J cached, pd_audio = 0\<rparr>\<rparr>
                else if gj_exists J cached' then us\<lparr>us_cached := gj_int J cached'\<rparr> else us);
          rt = gj_get J u ''output_tokens_details.reasoning_tokens''; rt' = gj_get J u ''completion_tokens_details.reasoning_tokens''
      in if gj_exists J rt
         then us\<lparr>us_thoughts := int32_of (gj_int J rt),
                us_completion_details := Some \<lparr>cd_reasoning = gj_int J rt, cd_audio = 0, cd_accepted = 0, cd_rejected = 0\<rparr>\<rparr>
         else if gj_exists J rt' then us\<lparr>us_thoughts := int32_of (gj_int J rt')\<rparr> else us)"

definition chat_prompt_details :: "'j gjson \<Rightarrow> 'j \<Rightarrow> usage \<Rightarrow> usage" where
  "chat_prompt_details J u us =
     (let d = gj_get J u ''prompt_tokens_details'';
          p = \<lparr>pd_cached = detail_int J d ''cached_tokens'', pd_audio = detail_int J d ''audio_tokens''\<rparr>
      in if gj_exists J d \<and> (0 < pd_cached p \<or> 0 < pd_audio p) then us\<lparr>us_prompt_details := Some p\<rparr> else us)"

definition chat_completion_details :: "'j gjson \<Rightarrow> 'j \<Rightarrow> usage \<Rightarrow> usage" where
  "chat_completion_details J u us =
     (let d = gj_get J u ''completion_tokens_details'';
          c = \<lparr>cd_reasoning = detail_int J d ''reasoning_tokens'', cd_audio = detail_int J d ''audio_tokens'',
               cd_accepted = detail_int J d ''accepted_prediction_tokens'', cd_rejected = detail_int J d ''rejected_prediction_tokens''\<rparr>
      in if gj_exists J d \<and> (0 < cd_reasoning c \<or> 0 < cd_audio c \<or> 0 < cd_accepted c \<or> 0 < cd_rejected c)
         then us\<lparr>us_completion_details := Some c\<rparr> else us)"

definition parse_openai_usage :: "'j gjson \<Rightarrow> 'j \<Rightarrow> usage option" where
  "parse_openai_usage J u =
     (if \<not> gj_exists J u then None
      else
        let p = wrap64 (gj_int J (gj_get J u ''prompt_tokens'') + gj_int J (gj_get J u ''input_tokens''));
            c = wrap64 (gj_int J (gj_get J u ''completion_tokens'') + gj_int J (gj_get J u ''output_tokens''));
            t = gj_int J (gj_get J u ''total_tokens'');
            us = no_usage\<lparr>us_prompt := p, us_completion := c, us_total := (if t = 0 then wrap64 (p + c) else t)\<rparr>
        in Some (chat_completion_details J u (chat_prompt_details J u (responses_details J u us))))"

section \<open>Parts\<close>

text \<open>What stands before and after the first comma.\<close>

definition split_at :: "string \<Rightarrow> string \<Rightarrow> (string \<times> string) option" where
  "split_at sep s = map_option (\<lambda>i. (take i s, drop (i + length sep) s)) (index_of s sep)"

definition data_mime :: "string \<Rightarrow> string" where
  "data_mime head = (case index_of head '';'' of Some i \<Rightarrow> if 5 < i then drop 5 (take i head) else ''image/jpeg'' | None \<Rightarrow> ''image/jpeg'')"

definition parse_data_uri :: "string \<Rightarrow> image_part option" where
  "parse_data_uri url =
     (if \<not> has_prefix url ''data:'' then None
      else map_option (\<lambda>(head, data). no_image\<lparr>im_mime_type := data_mime head, im_data := data\<rparr>) (split_at '','' url))"

text \<open>Of the parts of an array only the first text counts.\<close>

definition extract_content_string :: "'j gjson \<Rightarrow> 'j \<Rightarrow> string" where
  "extract_content_string J c =
     (if gj_is_string J c then gj_str J c
      else case List.find (\<lambda>i. gj_str J (gj_get J i ''type'') = ''text'') (gj_array J c) of
          Some i \<Rightarrow> gj_str J (gj_get J i ''text'')
        | None \<Rightarrow> gj_raw J c)"

definition openai_result :: "string \<Rightarrow> string \<Rightarrow> content_part" where
  "openai_result i text = (new_part ContentTypeToolResult)\<lparr>cp_tool_result :=
     Some \<lparr>tr_call_id = i, tr_result = text, tr_is_error = False, tr_images = [], tr_files = []\<rparr>\<rparr>"

definition reasoning_content_part :: "string \<Rightarrow> string \<Rightarrow> content_part" where
  "reasoning_content_part text sig = (new_part ContentTypeReasoning)\<lparr>cp_reasoning := text, cp_signature := sig\<rparr>"

definition image_content :: "image_part \<Rightarrow> content_part" where
  "image_content im = (new_part ContentTypeImage)\<lparr>cp_image := Some im\<rparr>"

definition audio_of :: "'j gjson \<Rightarrow> 'j \<Rightarrow> audio_part" where
  "audio_of J v = no_audio\<lparr>au_id := gj_str J (gj_get J v ''id''), au_data := gj_str J (gj_get J v ''data''),
     au_transcript := gj_str J (gj_get J v ''transcript''), au_expires_at := gj_int J (gj_get J v ''expires_at'')\<rparr>"

definition extension :: "string \<Rightarrow> string" where
  "extension fn = (case last_index_of fn ''.'' of Some i \<Rightarrow> drop (i + 1) fn | None \<Rightarrow> [])"

definition openai_file :: "'j gjson \<Rightarrow> (string \<Rightarrow> string) \<Rightarrow> 'j \<Rightarrow> content_part option" where
  "openai_file J mime item =
     (let fn = gj_str J (gj_get J item ''file.filename''); fd = gj_str J (gj_get J item ''file.file_data'');
          fid = gj_str J (gj_get J item ''file.file_id''); fu = gj_str J (gj_get J item ''file.url''); mt = mime (extension fn)
      in if fn = [] \<and> fd = [] \<and> fid = [] \<and> fu = [] then None
         else if has_prefix mt ''image/'' \<and> fd \<noteq> [] then Some (image_content (no_image\<lparr>im_mime_type := mt, im_data := fd\<rparr>))
         else Some ((new_part ContentTypeFile)\<lparr>cp_file := Some \<lparr>fp_file_id = fid, fp_file_url = fu, fp_filename = fn, fp_file_data = fd,
                fp_mime_type = mt\<rparr>\<rparr>))"

definition openai_image_url :: "'j gjson \<Rightarrow> 'j \<Rightarrow> content_part option" where
  "openai_image_url J item =
     (let u = gj_str J (gj_get J item ''image_url.url''); detail = gj_str J (gj_get J item ''image_url.detail'') in
      case parse_data_uri u of
        Some im \<Rightarrow> Some (image_content (im\<lparr>im_detail := detail\<rparr>))
      | None \<Rightarrow> if u \<noteq> [] then Some (image_content (no_image\<lparr>im_url := u, im_detail := detail\<rparr>)) else None)"

text \<open>A part that is no call and no result.\<close>

definition openai_plain_part :: "'j gjson \<Rightarrow> (string \<Rightarrow> string) \<Rightarrow> 'j \<Rightarrow> content_part option" where
  "openai_plain_part J mime item =
     (let t = gj_str J (gj_get J item ''type''); field = (\<lambda>k. gj_str J (gj_get J item k)) in
      if t = ''text'' then (if field ''text'' \<noteq> [] then Some (text_part (field ''text'')) else None)
      else if t \<in> {''thinking'', ''reasoning''}
      then let v = field (if t = ''reasoning'' then ''text'' else ''thinking'')
           in if v \<noteq> [] then Some (reasoning_content_part v (field ''signature'')) else None
      else if t = ''redacted_thinking'' then Some ((new_part ContentTypeRedactedThinking)\<lparr>cp_redacted_data := field ''data''\<rparr>)
      else if t = ''image_url'' then openai_image_url J item
      else if t = ''image''
      then let mt = field ''source.media_type''; d = field ''source.data''
           in if d \<noteq> [] then Some (image_content (no_image\<lparr>im_mime_type := (if mt = [] then ''image/png'' else mt), im_data := d\<rparr>)) else None
      else if t = ''input_audio''
      then let v = gj_get J item ''input_audio''
           in if gj_exists J v then Some ((new_part ContentTypeAudio)\<lparr>cp_audio := Some (no_audio
                \<lparr>au_data := gj_str J (gj_get J v ''data''), au_format := gj_str J (gj_get J v ''format'')\<rparr>)\<rparr>) else None
      else if t = ''file'' then openai_file J mime item
      else None)"

definition parse_openai_content_part :: "'j gjson \<Rightarrow> (string \<Rightarrow> string) \<Rightarrow> 'j \<Rightarrow> message \<Rightarrow> message" where
  "parse_openai_content_part J mime item m =
     (let t = gj_str J (gj_get J item ''type'') in
      if t = ''tool_use''
      then let args = gj_raw J (gj_get J item ''input'')
           in add_call (call_of (gj_str J (gj_get J item ''id'')) (gj_str J (gj_get J item ''name'')) (if args = [] then ''{}'' else args)) m
      else if t = ''tool_result''
      then add_part (openai_result (gj_str J (gj_get J item ''tool_use_id'')) (sanitize_text (extract_content_string J (gj_get J item ''content''))))
             (m\<lparr>msg_role := RoleTool\<rparr>)
      else case openai_plain_part J mime item of Some p \<Rightarrow> add_part p m | None \<Rightarrow> m)"

section \<open>Messages\<close>

definition add_reasoning :: "string \<times> string \<Rightarrow> message \<Rightarrow> message" where
  "add_reasoning rf m = (if fst rf \<noteq> [] then add_part (reasoning_content_part (fst rf) (snd rf)) m else m)"

definition openai_call :: "'j gjson \<Rightarrow> 'j \<Rightarrow> tool_call option" where
  "openai_call J tc =
     (if gj_str J (gj_get J tc ''type'') \<noteq> ''function'' then None
      else Some ((call_of (gj_str J (gj_get J tc ''id'')) (gj_str J (gj_get J tc ''function.name'')) (gj_str J (gj_get J tc ''function.arguments'')))
             \<lparr>tc_signature := gj_str J (gj_get J tc ''extra_content.google.thought_signature'')\<rparr>))"

definition openai_result_message :: "'j gjson \<Rightarrow> 'j \<Rightarrow> message \<Rightarrow> message" where
  "openai_result_message J m msg =
     (let i = gj_str J (gj_get J m ''tool_call_id''); i = (if i = [] then gj_str J (gj_get J m ''tool_use_id'') else i)
      in add_part (openai_result i (sanitize_text (extract_content_string J (gj_get J m ''content'')))) msg)"

definition parse_openai_message :: "'j gjson \<Rightarrow> (string \<Rightarrow> string) \<Rightarrow> 'j \<Rightarrow> message" where
  "parse_openai_message J mime m =
     (let role = gj_str J (gj_get J m ''role''); c = gj_get J m ''content'';
          msg = (new_message (map_standard_role role))\<lparr>msg_cache_control := parse_cache_control J m\<rparr>;
          msg = (if role = ''assistant'' then add_reasoning (parse_reasoning_from_json J m) msg else msg);
          msg = (if gj_is_string J c \<and> role \<noteq> ''tool'' then add_part (text_part (gj_str J c)) msg
                 else fold (parse_openai_content_part J mime) (gj_array J c) msg);
          msg = (if role = ''assistant''
                 then msg\<lparr>msg_tool_calls := msg_tool_calls msg @ List.map_filter (openai_call J) (gj_array J (gj_get J m ''tool_calls''))\<rparr>
                 else msg)
      in if role = ''tool'' then openai_result_message J m msg else msg)"

section \<open>The responses interface\<close>

definition file_with_data :: "string \<Rightarrow> string \<times> string" where
  "file_with_data d =
     (if \<not> has_prefix d ''data:'' then (d, [])
      else case index_of d '';'' of
          None \<Rightarrow> (d, [])
        | Some s \<Rightarrow> if s \<le> 5 then (d, [])
            else (case index_of d '','' of Some c \<Rightarrow> if 0 < c then drop (c + 1) d else d | None \<Rightarrow> d, drop 5 (take s d)))"

definition parse_responses_content_part :: "'j gjson \<Rightarrow> 'j \<Rightarrow> content_part option" where
  "parse_responses_content_part J p =
     (let t = gj_str J (gj_get J p ''type''); field = (\<lambda>k. gj_str J (gj_get J p k)) in
      if t \<in> {''input_text'', ''output_text'', ''text''} then (if field ''text'' \<noteq> [] then Some (text_part (field ''text'')) else None)
      else if t = ''input_image''
      then let v = field ''image_url.url'' in
           if v \<noteq> []
           then Some (if has_prefix v ''data:'' then (new_part ContentTypeImage)\<lparr>cp_image := parse_data_uri v\<rparr>
                      else image_content (no_image\<lparr>im_url := v\<rparr>))
           else if field ''file_id'' \<noteq> [] then Some (image_content (no_image\<lparr>im_data := field ''file_id''\<rparr>)) else None
      else if t = ''input_file''
      then case file_with_data (field ''file_data'') of (data, mt) \<Rightarrow>
             if field ''file_id'' = [] \<and> field ''file_url'' = [] \<and> data = [] then None
             else Some ((new_part ContentTypeFile)\<lparr>cp_file := Some \<lparr>fp_file_id = field ''file_id'', fp_file_url = field ''file_url'',
                    fp_filename = field ''filename'', fp_file_data = data, fp_mime_type = mt\<rparr>\<rparr>)
      else None)"

definition responses_call :: "'j gjson \<Rightarrow> 'j \<Rightarrow> message" where
  "responses_call J item = (new_message RoleAssistant)\<lparr>msg_tool_calls :=
     [call_of (gj_str J (gj_get J item ''call_id'')) (gj_str J (gj_get J item ''name'')) (gj_str J (gj_get J item ''arguments''))]\<rparr>"

definition parse_responses_input_item :: "'j gjson \<Rightarrow> 'j \<Rightarrow> message option" where
  "parse_responses_input_item J item =
     (let t = gj_str J (gj_get J item ''type''); t = (if t = [] \<and> gj_exists J (gj_get J item ''role'') then ''message'' else t) in
      if t = ''message''
      then let c = gj_get J item ''content'' in
           Some ((new_message (map_standard_role (gj_str J (gj_get J item ''role''))))\<lparr>msg_content :=
             (if gj_is_string J c then [text_part (gj_str J c)] else List.map_filter (parse_responses_content_part J) (gj_array J c))\<rparr>)
      else if t = ''function_call'' then Some (responses_call J item)
      else if t = ''function_call_output''
      then Some ((new_message RoleTool)\<lparr>msg_content := [openai_result (gj_str J (gj_get J item ''call_id'')) (gj_str J (gj_get J item ''output''))]\<rparr>)
      else None)"

definition text_message :: "role \<Rightarrow> string \<Rightarrow> message" where
  "text_message r s = (new_message r)\<lparr>msg_content := [text_part s]\<rparr>"

definition value_object :: "jval \<Rightarrow> jobj option" where
  "value_object v = (case v of JObj m \<Rightarrow> Some m | _ \<Rightarrow> None)"

definition parse_responses_api_fields :: "'j gjson \<Rightarrow> 'j \<Rightarrow> chat_request \<Rightarrow> chat_request" where
  "parse_responses_api_fields J doc req =
     (let ins = gj_str J (gj_get J doc ''instructions''); input = gj_get J doc ''input''; p = gj_get J doc ''prompt'';
          st = gj_get J doc ''store'';
          msgs = (if ins \<noteq> [] then [text_message RoleSystem ins] else [])
            @ (if gj_is_string J input then [text_message RoleUser (gj_str J input)]
               else List.map_filter (parse_responses_input_item J) (gj_array J input));
          req = req\<lparr>rq_instructions := (if ins \<noteq> [] then ins else rq_instructions req), rq_messages := rq_messages req @ msgs,
                  rq_previous_response_id := gj_str J (gj_get J doc ''previous_response_id'')\<rparr>;
          req = (if gj_is_object J p
                 then req\<lparr>rq_prompt_id := gj_str J (gj_get J p ''id''), rq_prompt_version := gj_str J (gj_get J p ''version''),
                        rq_prompt_variables := (if gj_is_object J (gj_get J p ''variables'')
                          then value_object (gj_value J (gj_get J p ''variables'')) else rq_prompt_variables req)\<rparr>
                 else req)
      in req\<lparr>rq_prompt_cache_key := gj_str J (gj_get J doc ''prompt_cache_key''),
             rq_store := (if gj_exists J st then Some (gj_bool J st) else rq_store req)\<rparr>)"


section \<open>Requests\<close>

definition object_option :: "'j gjson \<Rightarrow> (string \<Rightarrow> jval option) \<Rightarrow> 'j \<Rightarrow> string \<Rightarrow> jobj" where
  "object_option J decode t k =
     (let v = gj_get J t k in if gj_is_object J v then optional k (decode (gj_raw J v)) else [])"

definition builtin_of_openai :: "'j gjson \<Rightarrow> (string \<Rightarrow> jval option) \<Rightarrow> 'j \<Rightarrow> (string \<times> jobj) option" where
  "builtin_of_openai J decode t =
     (let ty = gj_str J (gj_get J t ''type''); size = gj_get J t ''search_context_size''; n = gj_get J t ''max_num_results'' in
      if gj_exists J (gj_get J t ''function'') then None
      else if has_prefix ty ''web_search''
      then Some (meta_google_search, (if gj_exists J size then [(''search_context_size'', JStr (gj_str J size))] else [])
                   @ object_option J decode t ''user_location'')
      else if ty = ''code_interpreter'' then Some (''code_execution'', object_option J decode t ''container'')
      else if ty = ''file_search''
      then Some (''file_search'', object_option J decode t ''vector_store''
                   @ (if gj_exists J n then [(''max_num_results'', jint (gj_int J n))] else [])
                   @ object_option J decode t ''ranking_options'')
      else None)"

definition typed_parameters :: "jobj \<Rightarrow> jobj" where
  "typed_parameters m =
     (case mget m ''type'' of
        Some (JStr t) \<Rightarrow> if t = [] \<or> t = ''None'' then mput ''type'' (JStr ''object'') m else m
      | _ \<Rightarrow> mput ''type'' (JStr ''object'') m)"

definition parse_openai_tool :: "'j gjson \<Rightarrow> (string \<Rightarrow> jval option) \<Rightarrow> 'j \<Rightarrow> tool_definition option" where
  "parse_openai_tool J decode t =
     (let fn = gj_get J t ''function'';
          (n, d, pr) =
            (if gj_str J (gj_get J t ''type'') = ''function''
             then (gj_str J (gj_get J fn ''name''), gj_str J (gj_get J fn ''description''), gj_get J fn ''parameters'')
             else if gj_exists J (gj_get J t ''name'')
             then (gj_str J (gj_get J t ''name''), gj_str J (gj_get J t ''description''), gj_get J t ''input_schema'')
             else ([], [], gj_none J))
      in if n = [] then None
         else Some \<lparr>td_name = n, td_description = d,
                td_parameters = Some (case (if gj_is_object J pr then decode_object decode (gj_raw J pr) else None) of
                    Some m \<Rightarrow> typed_parameters (clean_json_schema m)
                  | None \<Rightarrow> [(''type'', JStr ''object''), (''properties'', JObj [])])\<rparr>)"

definition add_openai_tool :: "'j gjson \<Rightarrow> (string \<Rightarrow> jval option) \<Rightarrow> 'j \<Rightarrow> chat_request \<Rightarrow> chat_request" where
  "add_openai_tool J decode t req =
     (case builtin_of_openai J decode t of
        Some (k, conf) \<Rightarrow> req\<lparr>rq_metadata := mput k (JObj conf) (rq_metadata req)\<rparr>
      | None \<Rightarrow> (case parse_openai_tool J decode t of Some d \<Rightarrow> req\<lparr>rq_tools := rq_tools req @ [d]\<rparr> | None \<Rightarrow> req))"

definition with_effort :: "string \<Rightarrow> thinking_config \<Rightarrow> thinking_config" where
  "with_effort e th = (case effort_to_budget e of (b, incl) \<Rightarrow>
     th\<lparr>th_effort := e, th_budget := Some (int32_of b), th_include_thoughts := incl\<rparr>)"

definition google_thinking :: "'j gjson \<Rightarrow> 'j \<Rightarrow> thinking_config \<Rightarrow> thinking_config" where
  "google_thinking J v th =
     th\<lparr>th_budget := (case first_existing J v [''thinkingBudget'', ''thinking_budget''] of
           Some b \<Rightarrow> Some (int32_of (gj_int J b)) | None \<Rightarrow> th_budget th),
        th_include_thoughts := (case first_existing J v [''includeThoughts'', ''include_thoughts''] of
           Some i \<Rightarrow> gj_bool J i | None \<Rightarrow> th_include_thoughts th)\<rparr>"

definition or_new :: "thinking_config option \<Rightarrow> thinking_config" where
  "or_new tc = (case tc of Some th \<Rightarrow> th | None \<Rightarrow> no_thinking)"

definition parse_thinking_config :: "'j gjson \<Rightarrow> 'j \<Rightarrow> thinking_config option" where
  "parse_thinking_config J doc =
     (let re = gj_get J doc ''reasoning_effort''; r = gj_get J doc ''reasoning''; e = gj_get J r ''effort''; s = gj_get J r ''summary'';
          g = gj_get J doc ''extra_body.google.thinking_config'';
          tc = (if gj_exists J re then Some (with_effort (gj_str J re) no_thinking) else None);
          tc = (if gj_is_object J r
                then let th = or_new tc;
                         th = (if gj_exists J e then with_effort (gj_str J e) th else th)
                     in Some (if gj_exists J s then th\<lparr>th_summary := gj_str J s\<rparr> else th)
                else tc)
      in if gj_is_object J g then Some (google_thinking J g (or_new tc)) else tc)"

definition parse_response_format :: "'j gjson \<Rightarrow> (string \<Rightarrow> jval option) \<Rightarrow> 'j \<Rightarrow> chat_request \<Rightarrow> chat_request" where
  "parse_response_format J decode rf req =
     (if \<not> gj_exists J rf then req
      else if gj_str J (gj_get J rf ''type'') = ''json_schema''
      then let v = gj_get J rf ''json_schema.schema'' in
           req\<lparr>rq_response_schema_name := gj_str J (gj_get J rf ''json_schema.name''),
               rq_response_schema := (case (if gj_is_object J v then decode_object decode (gj_raw J v) else None) of
                   Some m \<Rightarrow> Some m | None \<Rightarrow> rq_response_schema req),
               rq_response_schema_strict := gj_bool J (gj_get J rf ''json_schema.strict'')\<rparr>
      else if gj_str J (gj_get J rf ''type'') = ''json_object''
      then req\<lparr>rq_metadata := mput ''ollama_format'' (JStr ''json'') (rq_metadata req)\<rparr>
      else req)"

definition parse_openai_metadata :: "'j gjson \<Rightarrow> (string \<Rightarrow> jval option) \<Rightarrow> 'j \<Rightarrow> jobj \<Rightarrow> jobj" where
  "parse_openai_metadata J decode doc meta =
     (let lb = gj_get J doc ''logit_bias''; seed = gj_get J doc ''seed''; user = gj_str J (gj_get J doc ''user'');
          meta = (case (if gj_is_object J lb then decode (gj_raw J lb) else None) of Some v \<Rightarrow> mput ''openai:logit_bias'' v meta | None \<Rightarrow> meta);
          meta = (if gj_exists J seed then mput ''openai:seed'' (jint (gj_int J seed)) meta else meta)
      in if user \<noteq> [] then mput meta_openai_user (JStr user) meta else meta)"

definition parse_openai_tool_choice :: "'j gjson \<Rightarrow> 'j \<Rightarrow> chat_request \<Rightarrow> chat_request" where
  "parse_openai_tool_choice J v req =
     (if \<not> gj_exists J v then req
      else if \<not> gj_is_object J v then req\<lparr>rq_tool_choice := gj_str J v\<rparr>
      else let t = gj_str J (gj_get J v ''type''); name = gj_get J v ''function.name'' in
        if t = ''function'' \<or> (t = [] \<and> gj_exists J name)
        then req\<lparr>rq_tool_choice := ''function'', rq_tool_choice_function := gj_str J name,
                rq_allowed_tools := rq_allowed_tools req @ List.map (gj_str J) (gj_array J (gj_get J v ''allowed_tools''))\<rparr>
        else req\<lparr>rq_tool_choice := t\<rparr>)"

definition parse_openai_options :: "'j gjson \<Rightarrow> 'j \<Rightarrow> chat_request \<Rightarrow> chat_request" where
  "parse_openai_options J doc req =
     (let ptc = gj_get J doc ''parallel_tool_calls''; ic = gj_get J doc ''image_config''; au = gj_get J doc ''audio'';
          pr = gj_get J doc ''prediction''; so = gj_get J doc ''stream_options''; st = gj_str J (gj_get J doc ''service_tier'')
      in req\<lparr>rq_parallel_tool_calls := (if gj_exists J ptc then Some (gj_bool J ptc) else rq_parallel_tool_calls req),
             rq_modality := rq_modality req @ List.map (\<lambda>m. to_upper (gj_str J m)) (gj_array J (gj_get J doc ''modalities'')),
             rq_image_config := (if gj_is_object J ic then Some \<lparr>ic_aspect_ratio = gj_str J (gj_get J ic ''aspect_ratio''),
                ic_image_size = gj_str J (gj_get J ic ''image_size'')\<rparr> else rq_image_config req),
             rq_audio_config := (if gj_is_object J au then Some \<lparr>ac_voice = gj_str J (gj_get J au ''voice''),
                ac_format = gj_str J (gj_get J au ''format'')\<rparr> else rq_audio_config req),
             rq_prediction := (if gj_is_object J pr \<and> gj_str J (gj_get J pr ''type'') = ''content''
                then Some \<lparr>pr_type = ''content'', pr_content = gj_str J (gj_get J pr ''content'')\<rparr> else rq_prediction req),
             rq_stream_options := (if gj_is_object J so then Some (gj_bool J (gj_get J so ''include_usage'')) else rq_stream_options req),
             rq_service_tier := (if st \<noteq> [] then st else rq_service_tier req),
             rq_thinking := parse_thinking_config J doc\<rparr>)"

definition parse_openai_request ::
    "'j gjson \<Rightarrow> (string \<Rightarrow> jval option) \<Rightarrow> (string \<Rightarrow> string) \<Rightarrow> string \<Rightarrow> string + chat_request" where
  "parse_openai_request J decode mime raw =
     (case parse_and_validate J raw of
        (doc, valid) \<Rightarrow>
          if \<not> valid then Inl ''invalid json''
          else
            let req = apply_openai_extended_params J doc (apply_common_params J doc (new_request (gj_str J (gj_get J doc ''model''))));
                ms = gj_get J doc ''messages'';
                req = (if gj_exists J (gj_get J doc ''input'') \<and> \<not> gj_exists J ms then parse_responses_api_fields J doc req
                       else req\<lparr>rq_messages := List.map (parse_openai_message J mime) (gj_array J ms)\<rparr>);
                req = fold (add_openai_tool J decode) (gj_array J (gj_get J doc ''tools'')) req;
                req = parse_openai_options J doc req;
                req = parse_response_format J decode (gj_get J doc ''response_format'') req;
                req = req\<lparr>rq_metadata := parse_openai_metadata J decode doc (rq_metadata req)\<rparr>
            in Inr (parse_openai_tool_choice J (gj_get J doc ''tool_choice'') req))"

section \<open>Answers\<close>

definition parse_choice_message :: "'j gjson \<Rightarrow> 'j \<Rightarrow> message" where
  "parse_choice_message J m =
     (let text = gj_str J (gj_get J m ''content''); au = gj_get J m ''audio'';
          msg = add_reasoning (parse_reasoning_from_json J m) (new_message RoleAssistant);
          msg = (if text \<noteq> [] then add_part (text_part text) msg else msg);
          msg = (if gj_is_object J au then add_part ((new_part ContentTypeAudio)\<lparr>cp_audio := Some (audio_of J au)\<rparr>) msg else msg)
      in msg\<lparr>msg_tool_calls := parse_openai_style_tool_calls J (gj_array J (gj_get J m ''tool_calls'')),
             msg_refusal := gj_str J (gj_get J m ''refusal'')\<rparr>)"

definition parse_responses_output_item :: "'j gjson \<Rightarrow> 'j \<Rightarrow> message option" where
  "parse_responses_output_item J item =
     (let t = gj_str J (gj_get J item ''type''); ty = (\<lambda>x. gj_str J (gj_get J x ''type'')); txt = (\<lambda>x. gj_str J (gj_get J x ''text'')) in
      if t = ''message''
      then let m = (new_message RoleAssistant)\<lparr>msg_refusal := gj_str J (gj_get J item ''refusal''),
                 msg_content := List.map (\<lambda>c. text_part (txt c)) (filter (\<lambda>c. ty c = ''output_text'') (gj_array J (gj_get J item ''content'')))\<rparr>
           in if msg_content m \<noteq> [] \<or> msg_refusal m \<noteq> [] then Some m else None
      else if t = ''reasoning''
      then let m = (new_message RoleAssistant)\<lparr>msg_content :=
                 List.map (\<lambda>s. reasoning_content_part (txt s) []) (filter (\<lambda>s. ty s = ''summary_text'') (gj_array J (gj_get J item ''summary'')))\<rparr>
           in if msg_content m \<noteq> [] then Some m else None
      else if t = ''function_call'' then Some (responses_call J item)
      else None)"

definition parse_responses_api_output :: "'j gjson \<Rightarrow> 'j \<Rightarrow> message list" where
  "parse_responses_api_output J output = List.map_filter (parse_responses_output_item J) (gj_array J output)"

definition parse_openai_response :: "'j gjson \<Rightarrow> string \<Rightarrow> string + message list \<times> usage option" where
  "parse_openai_response J raw =
     (case parse_and_validate J raw of
        (doc, valid) \<Rightarrow>
          if \<not> valid then Inl ''invalid json''
          else
            let us = parse_openai_usage J (gj_get J doc ''usage''); out = gj_get J doc ''output''; m = gj_get J doc ''choices.0.message'';
                msg = parse_choice_message J m
            in if gj_is_array J out then Inr (parse_responses_api_output J out, us)
               else if \<not> gj_exists J m \<or> (msg_content msg = [] \<and> msg_tool_calls msg = [] \<and> msg_refusal msg = []) then Inr ([], us)
               else Inr ([msg], us))"

section \<open>Events of a stream\<close>

definition tool_call_event :: "event_type \<Rightarrow> tool_call \<Rightarrow> int \<Rightarrow> unified_event" where
  "tool_call_event t tc i = (new_event t)\<lparr>ev_tool_call := Some tc, ev_tool_call_index := i\<rparr>"

definition parse_responses_stream_event :: "'j gjson \<Rightarrow> string \<Rightarrow> 'j \<Rightarrow> unified_event list" where
  "parse_responses_stream_event J et doc =
     (let field = (\<lambda>k. gj_str J (gj_get J doc k)); delta = field ''delta''; i = gj_int J (gj_get J doc ''output_index'') in
      if et = ''response.output_text.delta'' then (if delta \<noteq> [] then [(new_event EventTypeToken)\<lparr>ev_content := delta\<rparr>] else [])
      else if et = ''response.reasoning_summary_text.delta''
      then (if field ''text'' \<noteq> [] then [(new_event EventTypeReasoningSummary)\<lparr>ev_reasoning_summary := field ''text''\<rparr>] else [])
      else if et = ''response.function_call_arguments.delta''
      then [tool_call_event EventTypeToolCallDelta (call_of (field ''item_id'') [] delta) i]
      else if et = ''response.function_call_arguments.done''
      then [tool_call_event EventTypeToolCall (call_of (field ''item_id'') (field ''name'') (field ''arguments'')) i]
      else if et = ''response.web_search_call.in_progress''
      then [tool_call_event EventTypeToolCall (call_of (field ''item_id'') ''web_search'' ''{}'') 0]
      else if et = ''response.refusal.delta'' then (if delta \<noteq> [] then [(new_event EventTypeToken)\<lparr>ev_refusal := delta\<rparr>] else [])
      else if et = ''response.audio_transcript.delta''
      then (if delta \<noteq> [] then [(new_event EventTypeAudio)\<lparr>ev_audio := Some (no_audio\<lparr>au_transcript := delta\<rparr>)\<rparr>] else [])
      else if et = ''response.completed''
      then [(new_event EventTypeFinish)\<lparr>ev_finish_reason := Some FinishReasonStop,
              ev_usage := parse_openai_usage J (gj_get J doc ''response.usage'')\<rparr>]
      else if et = ''error''
      then [(new_event EventTypeError)\<lparr>ev_finish_reason := Some FinishReasonError,
              ev_error := Some (if field ''error.message'' = [] then ''unknown error'' else field ''error.message'')\<rparr>]
      else [])"

definition chat_delta_events :: "'j gjson \<Rightarrow> 'j \<Rightarrow> unified_event list" where
  "chat_delta_events J d =
     (let content = gj_str J (gj_get J d ''content''); refusal = gj_str J (gj_get J d ''refusal''); au = gj_get J d ''audio'';
          rf = parse_reasoning_from_json J d in
      (if content \<noteq> [] then [(new_event EventTypeToken)\<lparr>ev_content := content\<rparr>] else [])
      @ (if refusal \<noteq> [] then [(new_event EventTypeToken)\<lparr>ev_refusal := refusal\<rparr>] else [])
      @ (if gj_is_object J au then [(new_event EventTypeAudio)\<lparr>ev_audio := Some (audio_of J au)\<rparr>] else [])
      @ (if fst rf \<noteq> [] then [(new_event EventTypeReasoning)\<lparr>ev_reasoning := fst rf, ev_signature := snd rf\<rparr>] else [])
      @ List.map (\<lambda>tc. tool_call_event EventTypeToolCall (call_of (gj_str J (gj_get J tc ''id'')) (gj_str J (gj_get J tc ''function.name''))
            (gj_str J (gj_get J tc ''function.arguments''))) (gj_int J (gj_get J tc ''index''))) (gj_array J (gj_get J d ''tool_calls'')))"

definition value_if_there :: "'j gjson \<Rightarrow> 'j \<Rightarrow> jval option" where
  "value_if_there J v = (if gj_exists J v then Some (gj_value J v) else None)"

definition chat_choice_events :: "'j gjson \<Rightarrow> 'j \<Rightarrow> 'j \<Rightarrow> unified_event list" where
  "chat_choice_events J doc choice =
     (let evs = chat_delta_events J (gj_get J choice ''delta''); fr = gj_str J (gj_get J choice ''finish_reason'');
          fp = gj_str J (gj_get J doc ''system_fingerprint''); lp = value_if_there J (gj_get J choice ''logprobs'')
      in if fr \<noteq> []
         then evs @ [(new_event EventTypeFinish)\<lparr>ev_finish_reason := Some (map_openai_finish_reason fr), ev_system_fingerprint := fp,
                       ev_logprobs := lp, ev_content_filter := value_if_there J (gj_get J choice ''content_filter_results'')\<rparr>]
         else case evs of [] \<Rightarrow> [] | e # es \<Rightarrow> e\<lparr>ev_system_fingerprint := fp, ev_logprobs := lp\<rparr> # es)"

text \<open>The name of the event, from its line, and the data.\<close>

definition split_sse :: "string \<Rightarrow> string \<times> string" where
  "split_sse raw =
     (let (et, data) = (if has_prefix raw ''event:''
            then (case index_of raw [CHR 0x0A] of
                    Some i \<Rightarrow> if 0 < i then (trim_space (drop 6 (take i raw)), trim_space (drop (i + 1) raw)) else ([], raw)
                  | None \<Rightarrow> ([], raw))
            else ([], raw))
      in (et, if has_prefix data ''data:'' then trim_space (drop 5 data) else data))"

definition parse_openai_chunk :: "'j gjson \<Rightarrow> string \<Rightarrow> unified_event list" where
  "parse_openai_chunk J raw =
     (let raw = trim_space raw; (et, data) = split_sse raw in
      if raw = [] \<or> data = [] then []
      else if data = ''[DONE]'' then [(new_event EventTypeFinish)\<lparr>ev_finish_reason := Some FinishReasonStop\<rparr>]
      else
        let doc = gj_parse J data; et = (if et = [] then gj_str J (gj_get J doc ''type'') else et);
            choice = gj_get J doc ''choices.0''; u = gj_get J doc ''usage''
        in if has_prefix et ''response.'' then parse_responses_stream_event J et doc
           else if \<not> gj_exists J choice
           then (if gj_exists J u then [(new_event EventTypeFinish)\<lparr>ev_usage := parse_openai_usage J u,
                                          ev_system_fingerprint := gj_str J (gj_get J doc ''system_fingerprint'')\<rparr>] else [])
           else chat_choice_events J doc choice)"

section \<open>Properties\<close>

lemma list_all_ifI: "(b \<Longrightarrow> list_all P xs) \<Longrightarrow> (\<not> b \<Longrightarrow> list_all P ys) \<Longrightarrow> list_all P (if b then xs else ys)"
  by simp

lemma chat_delta_no_error: "list_all (\<lambda>e. ev_type e \<noteq> EventTypeError) (chat_delta_events J d)"
  by (auto simp: chat_delta_events_def Let_def list_all_iff tool_call_event_def new_event_def)

lemma chat_choice_no_error: "list_all (\<lambda>e. ev_type e \<noteq> EventTypeError) (chat_choice_events J doc choice)"
  using chat_delta_no_error[of J "gj_get J choice ''delta''"]
  by (auto simp: chat_choice_events_def Let_def new_event_def split: list.split)

lemma responses_stream_no_error:
  "has_prefix et ''response.'' \<Longrightarrow> list_all (\<lambda>e. ev_type e \<noteq> EventTypeError) (parse_responses_stream_event J et doc)"
  unfolding parse_responses_stream_event_def Let_def
  by (intro list_all_ifI) (simp_all add: tool_call_event_def new_event_def has_prefix_def)

text \<open>
  No chunk of a stream is read as an error: the event of the responses interface that reports one is not among
  those that reach the code for it.
\<close>

theorem stream_errors_dropped: "list_all (\<lambda>e. ev_type e \<noteq> EventTypeError) (parse_openai_chunk J raw)"
proof (cases "split_sse (trim_space raw)")
  case (Pair et data)
  have finish: "list_all (\<lambda>e. ev_type e \<noteq> EventTypeError) [(new_event EventTypeFinish)\<lparr>ev_usage := u, ev_system_fingerprint := f, ev_finish_reason := r\<rparr>]"
    "list_all (\<lambda>e. ev_type e \<noteq> EventTypeError) [(new_event EventTypeFinish)\<lparr>ev_finish_reason := r\<rparr>]"
    "list_all (\<lambda>e. ev_type e \<noteq> EventTypeError) [(new_event EventTypeFinish)\<lparr>ev_usage := u, ev_system_fingerprint := f\<rparr>]" for u f r
    by (simp_all add: new_event_def)
  show ?thesis
    unfolding parse_openai_chunk_def Let_def Pair prod.case
    by (intro list_all_ifI finish chat_choice_no_error responses_stream_no_error) simp_all
qed

text \<open>Of the parts of a result only the first text is read.\<close>

lemma later_texts_of_result_lost:
  assumes "\<not> gj_is_string J c" "gj_array J c = i # is" "gj_str J (gj_get J i ''type'') = ''text''"
  shows "extract_content_string J c = gj_str J (gj_get J i ''text'')"
  using assms by (simp add: extract_content_string_def)

lemma details_keep_counts:
  "us_prompt (responses_details J u us) = us_prompt us" "us_prompt (chat_prompt_details J u us) = us_prompt us"
  "us_prompt (chat_completion_details J u us) = us_prompt us"
  "us_completion (responses_details J u us) = us_completion us" "us_completion (chat_prompt_details J u us) = us_completion us"
  "us_completion (chat_completion_details J u us) = us_completion us"
  "us_total (responses_details J u us) = us_total us" "us_total (chat_prompt_details J u us) = us_total us"
  "us_total (chat_completion_details J u us) = us_total us"
  by (simp_all add: responses_details_def chat_prompt_details_def chat_completion_details_def Let_def)

text \<open>The total of a usage that names none is the sum of its parts.\<close>

lemma openai_total_is_sum:
  assumes "gj_exists J u" "gj_int J (gj_get J u ''total_tokens'') = 0"
  shows "\<exists>us. parse_openai_usage J u = Some us \<and> us_total us = wrap64 (us_prompt us + us_completion us)"
  using assms by (simp add: parse_openai_usage_def Let_def details_keep_counts)

end
