(* ===== verification/OpenaiRequest.thy ===== *)
theory OpenaiRequest
  imports OpenaiParse
begin

text \<open>
  What is written in OpenAI's formats (\<open>from_ir/openai.go\<close>): requests and answers of chat completions and of the
  responses interface. Times, generated identifiers and the order of the loop over the built-in tools are arguments;
  the chunks of streams are in \<open>StreamChunks\<close> and \<open>ResponsesStream\<close>.
\<close>

section \<open>Messages for chat completions\<close>

definition text_item :: "string \<Rightarrow> string \<Rightarrow> jval" where
  "text_item t s = JObj [(''type'', JStr t), (''text'', JStr s)]"

definition audio_item :: "audio_part \<Rightarrow> jval" where
  "audio_item a = JObj [(''type'', JStr ''input_audio''),
     (''input_audio'', JObj ([(''data'', JStr (au_data a))] @ str_unless_empty ''format'' (au_format a)))]"

definition openai_user_part :: "content_part \<Rightarrow> jval option" where
  "openai_user_part p =
     (case cp_type p of
        ContentTypeText \<Rightarrow> if cp_text p = [] then None else Some (text_item ''text'' (cp_text p))
      | ContentTypeImage \<Rightarrow>
          map_option (\<lambda>im. JObj [(''type'', JStr ''image_url''), (''image_url'', JObj [(''url'', JStr (data_url im))])]) (cp_image p)
      | ContentTypeAudio \<Rightarrow>
          (case cp_audio p of Some a \<Rightarrow> if au_data a = [] then None else Some (audio_item a) | None \<Rightarrow> None)
      | _ \<Rightarrow> None)"

definition user_content :: "jval list \<Rightarrow> jval" where
  "user_content ps =
     (case ps of
        [JObj m] \<Rightarrow> (case (mget m ''type'', mget m ''text'') of
            (Some (JStr t), Some v) \<Rightarrow> if t = ''text'' then v else JArr ps | _ \<Rightarrow> JArr ps)
      | _ \<Rightarrow> JArr ps)"

definition build_openai_user_message :: "message \<Rightarrow> jobj option" where
  "build_openai_user_message m =
     (let ps = List.map_filter openai_user_part (msg_content m)
      in if ps = [] then None else Some [(''role'', JStr ''user''), (''content'', user_content ps)])"

definition build_openai_assistant_message :: "message \<Rightarrow> jobj" where
  "build_openai_assistant_message m =
     (case combine_text_and_reasoning m of
        (t, r) \<Rightarrow>
          let res = [(''role'', JStr ''assistant'')] @ str_unless_empty ''content'' t;
              res = (if r \<noteq> [] then add_reasoning_to_message r (get_first_reasoning_signature m) res else res)
          in res
             @ (if msg_tool_calls m = [] then [] else [(''tool_calls'', JArr (List.map openai_tool_call (msg_tool_calls m)))])
             @ str_unless_empty ''refusal'' (msg_refusal m))"

definition convert_message_to_openai :: "message \<Rightarrow> jval option" where
  "convert_message_to_openai m =
     (let res = (case msg_role m of
                   RoleSystem \<Rightarrow> if combine_text_parts m = [] then None
                     else Some [(''role'', JStr ''system''), (''content'', JStr (combine_text_parts m))]
                 | RoleUser \<Rightarrow> build_openai_user_message m
                 | RoleAssistant \<Rightarrow> Some (build_openai_assistant_message m)
                 | RoleTool \<Rightarrow> None)
      in map_option (\<lambda>o'. JObj (o' @ optional ''cache_control'' (map_option cache_control_json (msg_cache_control m)))) res)"

definition openai_tool_results :: "message \<Rightarrow> jval list" where
  "openai_tool_results m = List.map (\<lambda>r. JObj [(''role'', JStr ''tool''), (''tool_call_id'', JStr (tr_call_id r)),
     (''content'', JStr (tr_result r))]) (List.map_filter result_of (msg_content m))"

definition openai_messages :: "message list \<Rightarrow> jval list" where
  "openai_messages ms = concat (List.map (\<lambda>m.
     if msg_role m = RoleTool then openai_tool_results m
     else case convert_message_to_openai m of Some v \<Rightarrow> [v] | None \<Rightarrow> []) ms)"

section \<open>Chat completions\<close>

definition response_format :: "chat_request \<Rightarrow> jobj" where
  "response_format req =
     (case rq_response_schema req of
        None \<Rightarrow> []
      | Some s \<Rightarrow> [(''response_format'', JObj [(''type'', JStr ''json_schema''),
          (''json_schema'', JObj ([(''schema'', JObj s)] @ str_unless_empty ''name'' (rq_response_schema_name req)
             @ (if rq_response_schema_strict req then [(''strict'', JBool True)] else [])))])])"

definition openai_builtin_names :: "(string, string) gomap" where
  "openai_builtin_names = [(meta_google_search, ''web_search_preview''), (''code_execution'', ''code_interpreter''), (''file_search'', ''file_search'')]"

definition openai_builtin_tools :: "(string, string) gomap \<Rightarrow> jobj \<Rightarrow> jval list" where
  "openai_builtin_tools names meta =
     List.map_filter (\<lambda>(k, name). map_option (\<lambda>cfg. JObj (mput_all (case cfg of JObj m \<Rightarrow> m | _ \<Rightarrow> []) [(''type'', JStr name)]))
       (mget meta k)) names"

definition chat_tool :: "tool_definition \<Rightarrow> jval" where
  "chat_tool t = JObj [(''type'', JStr ''function''),
     (''function'', JObj [(''name'', JStr (td_name t)), (''description'', JStr (td_description t)),
        (''parameters'', case td_parameters t of Some m \<Rightarrow> JObj m | None \<Rightarrow> JObj [(''type'', JStr ''object''), (''properties'', JObj [])])])]"

definition tools_field :: "jval list \<Rightarrow> jobj" where
  "tools_field ts = (if ts = [] then [] else [(''tools'', JArr ts)])"

definition chat_tool_choice :: "bool \<Rightarrow> chat_request \<Rightarrow> jobj" where
  "chat_tool_choice with_allowed req =
     (if rq_tool_choice req = ''function'' \<and> rq_tool_choice_function req \<noteq> []
      then [(''tool_choice'', JObj ([(''type'', JStr ''function''), (''function'', JObj [(''name'', JStr (rq_tool_choice_function req))])]
              @ (if with_allowed \<and> rq_allowed_tools req \<noteq> [] then [(''allowed_tools'', strings (rq_allowed_tools req))] else [])))]
      else str_unless_empty ''tool_choice'' (rq_tool_choice req))"

definition audio_config_field :: "chat_request \<Rightarrow> jobj" where
  "audio_config_field req =
     (case rq_audio_config req of
        Some a \<Rightarrow> unless_empty ''audio'' (str_unless_empty ''voice'' (ac_voice a) @ str_unless_empty ''format'' (ac_format a))
      | None \<Rightarrow> [])"

definition modalities_field :: "chat_request \<Rightarrow> jobj" where
  "modalities_field req = (if rq_modality req = [] then [] else [(''modalities'', strings (rq_modality req))])"

text \<open>The options that come from the metadata, under their names without the prefix.\<close>

definition openai_meta_keys :: "string list" where
  "openai_meta_keys = [''openai:logprobs'', ''openai:top_logprobs'', ''openai:logit_bias'', ''openai:seed'', ''openai:user'',
     ''openai:frequency_penalty'', ''openai:presence_penalty'']"

definition metadata_options :: "jobj \<Rightarrow> jobj" where
  "metadata_options meta =
     List.map_filter (\<lambda>k. map_option (Pair (drop (length ''openai:'') k)) (mget meta k)) openai_meta_keys"

definition service_tier_field :: "chat_request \<Rightarrow> jobj" where
  "service_tier_field req =
     (if rq_service_tier req \<noteq> [] then [(''service_tier'', JStr (rq_service_tier req))]
      else optional ''service_tier'' (mget (rq_metadata req) ''service_tier''))"

definition thinking_budget_of :: "thinking_config \<Rightarrow> int" where
  "thinking_budget_of th = (case th_budget th of Some b \<Rightarrow> b | None \<Rightarrow> 0)"

definition convert_to_chat_completions_request :: "(string, string) gomap \<Rightarrow> chat_request \<Rightarrow> jobj" where
  "convert_to_chat_completions_request names req =
     [(''model'', JStr (rq_model req))]
     @ optional ''temperature'' (map_option JNum (rq_temperature req))
     @ optional ''top_p'' (map_option JNum (rq_top_p req))
     @ optional ''max_tokens'' (map_option (\<lambda>n. jint n) (rq_max_tokens req))
     @ (if rq_stop_sequences req = [] then [] else [(''stop'', strings (rq_stop_sequences req))])
     @ (case rq_prediction req of
          Some p \<Rightarrow> if pr_content p = [] then []
            else [(''prediction'', JObj [(''type'', JStr (pr_type p)), (''content'', JStr (pr_content p))])]
        | None \<Rightarrow> [])
     @ (case rq_thinking req of
          Some th \<Rightarrow> if th_include_thoughts th then [(''reasoning_effort'', JStr (budget_to_effort (thinking_budget_of th) ''auto''))] else []
        | None \<Rightarrow> [])
     @ [(''messages'', json_slice (openai_messages (rq_messages req)))]
     @ response_format req
     @ tools_field (List.map chat_tool (rq_tools req) @ openai_builtin_tools names (rq_metadata req))
     @ chat_tool_choice True req
     @ optional ''parallel_tool_calls'' (map_option JBool (rq_parallel_tool_calls req))
     @ modalities_field req @ audio_config_field req
     @ metadata_options (rq_metadata req) @ service_tier_field req"

section \<open>The responses interface\<close>

definition responses_user_part :: "content_part \<Rightarrow> jval option" where
  "responses_user_part p =
     (case cp_type p of
        ContentTypeText \<Rightarrow> if cp_text p = [] then None else Some (text_item ''input_text'' (cp_text p))
      | ContentTypeImage \<Rightarrow>
          (case cp_image p of
             Some im \<Rightarrow>
               if im_url im \<noteq> [] then Some (JObj [(''type'', JStr ''input_image''), (''image_url'', JStr (im_url im))])
               else if im_data im \<noteq> [] then Some (JObj [(''type'', JStr ''input_image''), (''image_url'', JStr (data_url im))])
               else None
           | None \<Rightarrow> None)
      | ContentTypeFile \<Rightarrow>
          map_option (\<lambda>f. JObj ([(''type'', JStr ''input_file'')] @ str_unless_empty ''file_id'' (fp_file_id f)
            @ str_unless_empty ''file_url'' (fp_file_url f) @ str_unless_empty ''filename'' (fp_filename f)
            @ str_unless_empty ''file_data'' (fp_file_data f))) (cp_file p)
      | ContentTypeAudio \<Rightarrow>
          (case cp_audio p of Some a \<Rightarrow> if au_data a = [] then None else Some (audio_item a) | None \<Rightarrow> None)
      | _ \<Rightarrow> None)"

definition responses_message :: "string \<Rightarrow> jval list \<Rightarrow> jval" where
  "responses_message r c = JObj [(''type'', JStr ''message''), (''role'', JStr r), (''content'', JArr c)]"

definition build_responses_user_message :: "message \<Rightarrow> jval option" where
  "build_responses_user_message m =
     (let c = List.map_filter responses_user_part (msg_content m) in if c = [] then None else Some (responses_message ''user'' c))"

definition responses_call_item :: "tool_call \<Rightarrow> jval" where
  "responses_call_item tc = JObj [(''type'', JStr ''function_call''), (''call_id'', JStr (tc_id tc)), (''name'', JStr (tc_name tc)),
     (''arguments'', JStr (tc_args tc))]"

definition responses_result_item :: "tool_result_part \<Rightarrow> jval" where
  "responses_result_item r = JObj ([(''type'', JStr ''function_call_output''), (''call_id'', JStr (tr_call_id r)), (''output'', JStr (tr_result r))]
     @ (if tr_is_error r then [(''is_error'', JBool True)] else []))"

definition convert_message_to_responses_input :: "message \<Rightarrow> jval option" where
  "convert_message_to_responses_input m =
     (let t = combine_text_parts m in
      case msg_role m of
        RoleSystem \<Rightarrow> if t = [] then None else Some (responses_message ''system'' [text_item ''input_text'' t])
      | RoleUser \<Rightarrow> build_responses_user_message m
      | RoleAssistant \<Rightarrow>
          (case msg_tool_calls m of
             tc # tcs \<Rightarrow> Some (responses_call_item tc)
           | [] \<Rightarrow> if t = [] then None else Some (responses_message ''assistant'' [text_item ''output_text'' t]))
      | RoleTool \<Rightarrow> (case List.map_filter result_of (msg_content m) of r # rs \<Rightarrow> Some (responses_result_item r) | [] \<Rightarrow> None))"

definition responses_input :: "chat_request \<Rightarrow> jval list" where
  "responses_input req = List.map_filter (\<lambda>m. if msg_role m = RoleSystem \<and> rq_instructions req \<noteq> [] then None
     else convert_message_to_responses_input m) (rq_messages req)"

definition responses_reasoning :: "chat_request \<Rightarrow> jobj" where
  "responses_reasoning req =
     (case rq_thinking req of
        None \<Rightarrow> []
      | Some th \<Rightarrow>
          if th_include_thoughts th \<or> th_effort th \<noteq> [] \<or> th_summary th \<noteq> []
          then unless_empty ''reasoning''
                 ((if th_effort th \<noteq> [] then [(''effort'', JStr (th_effort th))]
                   else if th_include_thoughts th then [(''effort'', JStr (budget_to_effort (thinking_budget_of th) ''low''))] else [])
                  @ str_unless_empty ''summary'' (th_summary th))
          else [])"

definition responses_tool :: "tool_definition \<Rightarrow> jval" where
  "responses_tool t = JObj [(''type'', JStr ''function''), (''name'', JStr (td_name t)), (''description'', JStr (td_description t)),
     (''parameters'', case td_parameters t of Some m \<Rightarrow> JObj m | None \<Rightarrow> JNull)]"

definition responses_prompt :: "chat_request \<Rightarrow> jobj" where
  "responses_prompt req =
     (if rq_prompt_id req = [] then []
      else [(''prompt'', JObj ([(''id'', JStr (rq_prompt_id req))] @ str_unless_empty ''version'' (rq_prompt_version req)
              @ (case rq_prompt_variables req of Some m \<Rightarrow> unless_empty ''variables'' m | None \<Rightarrow> [])))])"

definition convert_to_responses_api_request :: "(string, string) gomap \<Rightarrow> chat_request \<Rightarrow> jobj" where
  "convert_to_responses_api_request names req =
     [(''model'', JStr (rq_model req))]
     @ optional ''temperature'' (map_option JNum (rq_temperature req))
     @ optional ''top_p'' (map_option JNum (rq_top_p req))
     @ optional ''max_output_tokens'' (map_option (\<lambda>n. jint n) (rq_max_tokens req))
     @ str_unless_empty ''instructions'' (rq_instructions req)
     @ audio_config_field req @ modalities_field req
     @ (let input = responses_input req in if input = [] then [] else [(''input'', JArr input)])
     @ response_format req @ responses_reasoning req
     @ tools_field (List.map responses_tool (rq_tools req) @ openai_builtin_tools names (rq_metadata req))
     @ chat_tool_choice False req
     @ optional ''parallel_tool_calls'' (map_option JBool (rq_parallel_tool_calls req))
     @ str_unless_empty ''previous_response_id'' (rq_previous_response_id req)
     @ responses_prompt req
     @ str_unless_empty ''prompt_cache_key'' (rq_prompt_cache_key req)
     @ optional ''store'' (map_option JBool (rq_store req))"

datatype openai_request_format = FormatChatCompletions | FormatResponsesAPI

definition to_openai_request_fmt :: "(string, string) gomap \<Rightarrow> chat_request \<Rightarrow> openai_request_format \<Rightarrow> jobj" where
  "to_openai_request_fmt names req f =
     (if f = FormatResponsesAPI then convert_to_responses_api_request names req else convert_to_chat_completions_request names req)"

definition to_openai_request :: "(string, string) gomap \<Rightarrow> chat_request \<Rightarrow> jobj" where
  "to_openai_request names req = to_openai_request_fmt names req FormatChatCompletions"

section \<open>Answers of chat completions\<close>

fun role_name :: "role \<Rightarrow> string" where
  "role_name RoleUser = ''user''"
| "role_name RoleAssistant = ''assistant''"
| "role_name RoleSystem = ''system''"
| "role_name RoleTool = ''tool''"

definition response_id_of :: "string \<Rightarrow> openai_meta option \<Rightarrow> string" where
  "response_id_of mid meta = (case meta of Some m \<Rightarrow> if om_response_id m \<noteq> [] then om_response_id m else mid | None \<Rightarrow> mid)"

definition created_at :: "int \<Rightarrow> openai_meta option \<Rightarrow> int" where
  "created_at now meta = (case meta of Some m \<Rightarrow> if 0 < om_create_time m then om_create_time m else now | None \<Rightarrow> now)"

definition completion_message :: "response_builder \<Rightarrow> message \<Rightarrow> jobj" where
  "completion_message b m =
     (let t = text_content b; tcs = build_openai_tool_calls b; r = reasoning_content b;
          mc = [(''role'', JStr (role_name (msg_role m)))]
             @ (if t \<noteq> [] then [(''content'', JStr t)] else if tcs \<noteq> [] then [(''content'', JNull)] else []);
          mc = (if r \<noteq> [] then add_reasoning_to_message r [] mc else mc)
      in mc @ (if tcs \<noteq> [] then [(''tool_calls'', JArr tcs)] else []))"

definition find_audio_content :: "message \<Rightarrow> audio_part option" where
  "find_audio_content m =
     (case List.map_filter (\<lambda>p. if cp_type p = ContentTypeAudio then cp_audio p else None) (msg_content m) of a # as \<Rightarrow> Some a | [] \<Rightarrow> None)"

definition completion_head :: "int \<Rightarrow> string \<Rightarrow> string \<Rightarrow> openai_meta option \<Rightarrow> jobj" where
  "completion_head now mid model meta =
     [(''id'', JStr (response_id_of mid meta)), (''object'', JStr ''chat.completion''), (''created'', jint (created_at now meta)),
      (''model'', JStr model)] @ (case meta of Some m \<Rightarrow> str_unless_empty ''service_tier'' (om_service_tier m) | None \<Rightarrow> [])"

definition completion_tail :: "usage option \<Rightarrow> openai_meta option \<Rightarrow> grounding_metadata option \<Rightarrow> jobj" where
  "completion_tail us meta g =
     optional ''usage'' (map_option (\<lambda>u. JObj (build_usage_map u meta)) us)
     @ optional ''grounding_metadata'' (map_option build_openai_grounding_metadata g)"

definition candidate_choice :: "usage option \<Rightarrow> string \<Rightarrow> candidate_result \<Rightarrow> jval option" where
  "candidate_choice us model c =
     (let b = \<lparr>rb_messages = ca_messages c, rb_usage = us, rb_model = model, rb_thinking = False\<rparr> in
      map_option (\<lambda>m. JObj ([(''index'', jint (ca_index c)), (''finish_reason'', JStr (openai_reason (ca_finish_reason c))),
          (''message'', JObj (completion_message b m))] @ optional ''logprobs'' (ca_logprobs c))) (last_message b))"

definition to_openai_chat_completion_candidates ::
    "int \<Rightarrow> candidate_result list \<Rightarrow> usage option \<Rightarrow> string \<Rightarrow> string \<Rightarrow> openai_meta option \<Rightarrow> jval" where
  "to_openai_chat_completion_candidates now cs us model mid meta =
     (let g = (case Option.bind meta om_grounding of
                 Some g \<Rightarrow> Some g
               | None \<Rightarrow> (case List.map_filter ca_grounding cs of g # gs \<Rightarrow> Some g | [] \<Rightarrow> None))
      in JObj (completion_head now mid model meta
           @ [(''choices'', json_slice (List.map_filter (candidate_choice us model) cs))] @ completion_tail us meta g))"

definition to_openai_chat_completion_meta ::
    "int \<Rightarrow> message list \<Rightarrow> usage option \<Rightarrow> string \<Rightarrow> string \<Rightarrow> openai_meta option \<Rightarrow> jval" where
  "to_openai_chat_completion_meta now ms us model mid meta =
     (let b = \<lparr>rb_messages = ms, rb_usage = us, rb_model = model, rb_thinking = False\<rparr>;
          choice = (\<lambda>m. JObj ([(''index'', jint 0), (''finish_reason'', JStr (determine_finish_reason b)),
              (''message'', JObj (completion_message b m
                 @ (case find_audio_content m of Some a \<Rightarrow> unless_empty ''audio'' (audio_delta a) | None \<Rightarrow> [])))]
            @ (case meta of
                 Some x \<Rightarrow> str_unless_empty ''native_finish_reason'' (om_native_finish_reason x) @ optional ''logprobs'' (om_logprobs x)
               | None \<Rightarrow> [])))
      in JObj (completion_head now mid model meta
           @ [(''choices'', JArr (case last_message b of Some m \<Rightarrow> [choice m] | None \<Rightarrow> []))]
           @ completion_tail us meta (Option.bind meta om_grounding)))"

definition to_openai_chat_completion :: "int \<Rightarrow> message list \<Rightarrow> usage option \<Rightarrow> string \<Rightarrow> string \<Rightarrow> jval" where
  "to_openai_chat_completion now ms us model mid = to_openai_chat_completion_meta now ms us model mid None"

section \<open>Answers of the responses interface\<close>

definition output_items :: "string \<Rightarrow> message \<Rightarrow> jval list" where
  "output_items rid m =
     (if msg_role m \<noteq> RoleAssistant then []
      else case combine_text_and_reasoning m of
        (t, r) \<Rightarrow>
          (if r \<noteq> [] then [JObj [(''id'', JStr (''rs_'' @ rid)), (''type'', JStr ''reasoning''),
              (''summary'', JArr [text_item ''summary_text'' r])]] else [])
          @ (if t \<noteq> [] then [JObj [(''id'', JStr (''msg_'' @ rid)), (''type'', JStr ''message''), (''status'', JStr ''completed''),
              (''role'', JStr ''assistant''), (''content'', JArr [JObj [(''type'', JStr ''output_text''), (''text'', JStr t), (''annotations'', JArr [])]])]]
             else [])
          @ List.map (\<lambda>tc. JObj [(''id'', JStr (''fc_'' @ tc_id tc)), (''type'', JStr ''function_call''), (''status'', JStr ''completed''),
              (''call_id'', JStr (tc_id tc)), (''name'', JStr (tc_name tc)), (''arguments'', JStr (tc_args tc))]) (msg_tool_calls m))"

definition cached_of_usage :: "usage \<Rightarrow> int" where
  "cached_of_usage u = (case us_prompt_details u of Some d \<Rightarrow> if 0 < pd_cached d then pd_cached d else us_cached u | None \<Rightarrow> us_cached u)"

definition reasoning_of_usage :: "usage \<Rightarrow> openai_meta option \<Rightarrow> int" where
  "reasoning_of_usage u meta =
     (let other = (case meta of Some m \<Rightarrow> if 0 < om_thoughts m then om_thoughts m else us_thoughts u | None \<Rightarrow> us_thoughts u)
      in case us_completion_details u of Some d \<Rightarrow> if 0 < cd_reasoning d then cd_reasoning d else other | None \<Rightarrow> other)"

definition responses_usage :: "usage \<Rightarrow> openai_meta option \<Rightarrow> jobj" where
  "responses_usage u meta =
     [(''input_tokens'', jint (us_prompt u)), (''output_tokens'', jint (us_completion u)), (''total_tokens'', jint (us_total u))]
     @ unless_empty ''input_tokens_details'' (positive ''cached_tokens'' (cached_of_usage u))
     @ unless_empty ''output_tokens_details'' (positive ''reasoning_tokens'' (reasoning_of_usage u meta)
         @ (case us_completion_details u of Some d \<Rightarrow> positive ''audio_tokens'' (cd_audio d) | None \<Rightarrow> []))"

text \<open>\<open>output_text\<close> is the text of the last message that has one.\<close>

definition to_responses_api_response ::
    "int \<Rightarrow> string \<Rightarrow> message list \<Rightarrow> usage option \<Rightarrow> string \<Rightarrow> openai_meta option \<Rightarrow> jval" where
  "to_responses_api_response now fresh ms us model meta =
     (let rid = response_id_of fresh meta; out = concat (List.map (output_items rid) ms);
          ot = last_nonempty (List.map (\<lambda>m. if msg_role m = RoleAssistant then fst (combine_text_and_reasoning m) else []) ms)
      in JObj ([(''id'', JStr rid), (''object'', JStr ''response''), (''created_at'', jint (created_at now meta)),
            (''status'', JStr ''completed''), (''model'', JStr model)]
           @ (if out = [] then [] else [(''output'', JArr out)]) @ str_unless_empty ''output_text'' ot
           @ optional ''usage'' (map_option (\<lambda>u. JObj (responses_usage u meta)) us)
           @ optional ''grounding_metadata'' (map_option build_openai_grounding_metadata (Option.bind meta om_grounding))))"


section \<open>What is lost\<close>

text \<open>
  Of a thought that is written into a message for OpenAI and read back the signature is lost; the name of the
  format takes its place, and it passes for a valid signature.
\<close>

theorem signature_of_thought_replaced:
  assumes "r \<noteq> []"
  shows "parse_reasoning_from_json (text_reader p q) (Some (JObj (add_reasoning_to_message r sig m))) = (r, ''xai-responses-v1'')
    \<and> is_valid_thought_signature ''xai-responses-v1''"
  using assms
  by (simp add: parse_reasoning_from_json_def add_reasoning_to_message_def mput_all_def reasoning_detail_def reading Let_def
      is_valid_thought_signature_def)


lemma signature_of_thought_replaced_witness:
  "parse_reasoning_from_json (text_reader (\<lambda>s. None) (\<lambda>v. [])) (Some (JObj (add_reasoning_to_message ''hm'' ''sig'' [])))
    = (''hm'', ''xai-responses-v1'')"
  using signature_of_thought_replaced [of "''hm''"] by simp

text \<open>
  Of an assistant's message with calls of tools the responses interface gets the first call only: neither its
  text nor the other calls.
\<close>

theorem parallel_calls_lost:
  assumes "msg_role m = RoleAssistant" "msg_tool_calls m = tc # tcs"
  shows "convert_message_to_responses_input m
    = convert_message_to_responses_input ((new_message RoleAssistant)\<lparr>msg_tool_calls := [tc]\<rparr>)"
  using assms by (simp add: convert_message_to_responses_input_def Let_def new_message_def)

lemma parallel_calls_lost_witness:
  "convert_message_to_responses_input ((new_message RoleAssistant)\<lparr>msg_content := [text_part ''both''],
       msg_tool_calls := [call_of ''1'' ''ls'' [], call_of ''2'' ''pwd'' []]\<rparr>)
    = Some (responses_call_item (call_of ''1'' ''ls'' []))"
  by (subst parallel_calls_lost) (auto simp: convert_message_to_responses_input_def new_message_def)

text \<open>Of several results in a message for tools only the first is sent there, too.\<close>

lemma later_results_lost:
  "msg_role m = RoleTool \<Longrightarrow> List.map_filter result_of (msg_content m) = r # rs
    \<Longrightarrow> convert_message_to_responses_input m = Some (responses_result_item r)"
  by (simp add: convert_message_to_responses_input_def Let_def)

text \<open>
  A picture given by its URL reaches a provider of chat completions without it: messages that differ in the URLs
  of their pictures are sent alike.
\<close>

theorem image_urls_lost:
  "convert_message_to_openai (m\<lparr>msg_content := List.map (\<lambda>p. p\<lparr>cp_image := map_option (\<lambda>im. im\<lparr>im_url := url\<rparr>) (cp_image p)\<rparr>) (msg_content m)\<rparr>)
    = convert_message_to_openai m"
proof -
  let ?f = "\<lambda>p. p\<lparr>cp_image := map_option (\<lambda>im. im\<lparr>im_url := url\<rparr>) (cp_image p)\<rparr>"
  let ?m = "m\<lparr>msg_content := List.map ?f (msg_content m)\<rparr>"
  have "openai_user_part (?f p) = openai_user_part p" for p
    by (cases "cp_type p"; cases "cp_image p") (simp_all add: openai_user_part_def data_url_def)
  then have "List.map_filter openai_user_part (List.map ?f (msg_content m)) = List.map_filter openai_user_part (msg_content m)"
    by (simp add: List.map_filter_def filter_map comp_def)
  then have u: "build_openai_user_message ?m = build_openai_user_message m" by (simp add: build_openai_user_message_def)
  have t: "text_parts ?m = text_parts m" and r: "reasoning_parts ?m = reasoning_parts m"
    by (simp_all add: text_parts_def reasoning_parts_def List.map_filter_def filter_map comp_def)
  have s: "get_first_reasoning_signature ?m = get_first_reasoning_signature m"
    by (simp add: get_first_reasoning_signature_def filter_map comp_def split: list.split)
  have "combine_text_and_reasoning ?m = combine_text_and_reasoning m" by (simp only: combine_text_and_reasoning_def t r)
  then have a: "build_openai_assistant_message ?m = build_openai_assistant_message m"
    by (cases "combine_text_and_reasoning m") (simp add: build_openai_assistant_message_def s Let_def)
  have "combine_text_parts ?m = combine_text_parts m" by (simp add: combine_text_parts_def t)
  then show ?thesis by (cases "msg_role m") (simp_all add: convert_message_to_openai_def u a)
qed

text \<open>
  The penalties, the wish for log probabilities, the number of answers and \<open>top_k\<close> of a request are not sent to a
  provider of chat completions.
\<close>

theorem sampling_options_lost:
  "to_openai_request names (req\<lparr>rq_frequency_penalty := a, rq_presence_penalty := b, rq_logprobs := c, rq_top_logprobs := d,
       rq_candidate_count := e, rq_top_k := f\<rparr>) = to_openai_request names req"
  by (cases req) (simp only: to_openai_request_def to_openai_request_fmt_def convert_to_chat_completions_request_def response_format_def
      chat_tool_choice_def audio_config_field_def modalities_field_def service_tier_field_def chat_request.simps
      openai_request_format.distinct if_False)

text \<open>Results of tools in a message that counts as the user's are not sent.\<close>

lemma results_of_user_lost:
  "msg_role m = RoleUser \<Longrightarrow> list_all (\<lambda>p. cp_type p = ContentTypeToolResult) (msg_content m) \<Longrightarrow> convert_message_to_openai m = None"
proof -
  assume m: "msg_role m = RoleUser" "list_all (\<lambda>p. cp_type p = ContentTypeToolResult) (msg_content m)"
  have "list_all (\<lambda>p. cp_type p = ContentTypeToolResult) ps \<Longrightarrow> List.map_filter openai_user_part ps = []" for ps
    by (induction ps) (auto simp: map_filter_simps openai_user_part_def)
  then show ?thesis using m by (simp add: convert_message_to_openai_def build_openai_user_message_def)
qed

section \<open>What comes back\<close>

definition kept_openai_part :: "content_part \<Rightarrow> bool" where
  "kept_openai_part p \<longleftrightarrow>
     (case cp_type p of
        ContentTypeText \<Rightarrow> cp_text p \<noteq> [] \<and> p = text_part (cp_text p)
      | ContentTypeImage \<Rightarrow> (case cp_image p of
            Some im \<Rightarrow> im_mime_type im \<noteq> [] \<and> CHR '';'' \<notin> set (im_mime_type im) \<and> CHR '','' \<notin> set (im_mime_type im)
              \<and> im = no_image\<lparr>im_mime_type := im_mime_type im, im_data := im_data im\<rparr> \<and> p = image_content im
          | None \<Rightarrow> False)
      | ContentTypeAudio \<Rightarrow> (case cp_audio p of
            Some a \<Rightarrow> au_data a \<noteq> [] \<and> a = no_audio\<lparr>au_data := au_data a, au_format := au_format a\<rparr>
              \<and> p = (new_part ContentTypeAudio)\<lparr>cp_audio := Some a\<rparr>
          | None \<Rightarrow> False)
      | _ \<Rightarrow> False)"

definition one_text :: "content_part list \<Rightarrow> bool" where
  "one_text ps = (case ps of [p] \<Rightarrow> cp_text p \<noteq> [] \<and> p = text_part (cp_text p) | _ \<Rightarrow> False)"

definition kept_openai_message :: "message \<Rightarrow> bool" where
  "kept_openai_message m \<longleftrightarrow> msg_refusal m = [] \<and>
     (case msg_role m of
        RoleSystem \<Rightarrow> msg_tool_calls m = [] \<and> one_text (msg_content m)
      | RoleUser \<Rightarrow> msg_tool_calls m = [] \<and> msg_content m \<noteq> [] \<and> list_all kept_openai_part (msg_content m)
      | RoleAssistant \<Rightarrow> (msg_content m = [] \<or> one_text (msg_content m)) \<and> list_all (\<lambda>tc. tc_partial_args tc = []) (msg_tool_calls m)
      | RoleTool \<Rightarrow> False)"

lemma data_url_read:
  assumes "im_mime_type im \<noteq> []" "CHR '';'' \<notin> set (im_mime_type im)" "CHR '','' \<notin> set (im_mime_type im)"
  shows "parse_data_uri (data_url im) = Some (no_image\<lparr>im_mime_type := im_mime_type im, im_data := im_data im\<rparr>)"
proof -
  let ?h = "''data:'' @ im_mime_type im @ '';base64''"
  have "index_of (?h @ CHR '','' # im_data im) '','' = Some (length ?h)"
    by (rule index_of_append_char) (use assms(3) in auto)
  then have "split_at '','' (data_url im) = Some (?h, im_data im)" by (simp add: split_at_def data_url_def)
  moreover have "index_of ((''data:'' @ im_mime_type im) @ CHR '';'' # ''base64'') '';'' = Some (length (''data:'' @ im_mime_type im))"
    by (rule index_of_append_char) (use assms(2) in auto)
  then have "data_mime ?h = im_mime_type im" using assms(1) by (simp add: data_mime_def)
  moreover have "has_prefix (data_url im) ''data:''" by (simp add: data_url_def has_prefix_def)
  ultimately show ?thesis by (simp add: parse_data_uri_def)
qed

lemma split_char_append: "c \<notin> set a \<Longrightarrow> split_char c (a @ c # b) = a # split_char c b"
  by (induction a) (auto simp: split_char_def)

lemma split_path:
  "split_char CHR ''.'' ''image_url.url'' = [''image_url'', ''url'']"
  "split_char CHR ''.'' ''image_url.detail'' = [''image_url'', ''detail'']"
  "split_char CHR ''.'' ''function.name'' = [''function'', ''name'']"
  "split_char CHR ''.'' ''function.arguments'' = [''function'', ''arguments'']"
  "split_char CHR ''.'' ''extra_content.google.thought_signature'' = [''extra_content'', ''google'', ''thought_signature'']"
  using split_char_append[of "CHR ''.''" "''image_url''" "''url''"] split_char_append[of "CHR ''.''" "''image_url''" "''detail''"]
    split_char_append[of "CHR ''.''" "''function''" "''name''"] split_char_append[of "CHR ''.''" "''function''" "''arguments''"]
    split_char_append[of "CHR ''.''" "''extra_content''" "''google.thought_signature''"]
    split_char_append[of "CHR ''.''" "''google''" "''thought_signature''"]
  by (simp_all add: split_char_none)

lemma text_reader_paths:
  "gj_get (text_reader parse print) (Some (JObj m)) ''image_url.url'' = field_of (mget m ''image_url'') ''url''"
  "gj_get (text_reader parse print) (Some (JObj m)) ''image_url.detail'' = field_of (mget m ''image_url'') ''detail''"
  "gj_get (text_reader parse print) (Some (JObj m)) ''function.name'' = field_of (mget m ''function'') ''name''"
  "gj_get (text_reader parse print) (Some (JObj m)) ''function.arguments'' = field_of (mget m ''function'') ''arguments''"
  "gj_get (text_reader parse print) (Some (JObj m)) ''extra_content.google.thought_signature''
     = field_of (field_of (mget m ''extra_content'') ''google'') ''thought_signature''"
  by (simp_all add: text_reader_def value_reader_def split_path field_of_def[of "Some (JObj m)"])

lemma text_reader_none: "gj_array (text_reader parse print) None = []" "\<not> gj_is_string (text_reader parse print) None"
  by (simp_all add: text_reader_def value_reader_def)

lemmas openai_reading = reading text_reader_paths field_of_def Let_def

lemma kept_openai_part_read:
  assumes "kept_openai_part p"
  shows "\<exists>v. openai_user_part p = Some v \<and> parse_openai_content_part (text_reader parse print) mime (Some v) m = add_part p m"
proof (cases "cp_type p")
  case ContentTypeText
  then have "cp_text p \<noteq> []" "text_part (cp_text p) = p" using assms by (simp_all add: kept_openai_part_def)
  then show ?thesis using ContentTypeText
    by (simp add: openai_user_part_def text_item_def parse_openai_content_part_def openai_plain_part_def openai_reading)
next
  case ContentTypeImage
  then obtain im where im: "cp_image p = Some im" "im_mime_type im \<noteq> []" "CHR '';'' \<notin> set (im_mime_type im)" "CHR '','' \<notin> set (im_mime_type im)"
    "no_image\<lparr>im_mime_type := im_mime_type im, im_data := im_data im\<rparr> = im" "image_content im = p"
    using assms by (auto simp: kept_openai_part_def split: option.splits)
  have "im_detail im = []" by (subst im(5)[symmetric]) (simp add: no_image_def)
  then have "im\<lparr>im_detail := []\<rparr> = im" by (cases im) simp
  then show ?thesis using im data_url_read[OF im(2-4)] ContentTypeImage
    by (simp add: openai_user_part_def parse_openai_content_part_def openai_plain_part_def openai_image_url_def openai_reading)
next
  case ContentTypeAudio
  then obtain a where a: "cp_audio p = Some a" "au_data a \<noteq> []" "no_audio\<lparr>au_data := au_data a, au_format := au_format a\<rparr> = a"
    "(new_part ContentTypeAudio)\<lparr>cp_audio := Some a\<rparr> = p"
    using assms by (auto simp: kept_openai_part_def split: option.splits)
  moreover have "gj_str (text_reader parse print) (mget ([(''data'', JStr (au_data a))] @ str_unless_empty ''format'' (au_format a)) ''format'') = au_format a"
    by (simp add: str_unless_empty_def reading)
  ultimately show ?thesis using ContentTypeAudio
    by (simp add: openai_user_part_def audio_item_def parse_openai_content_part_def openai_plain_part_def openai_reading)
qed (use assms in \<open>simp_all add: kept_openai_part_def\<close>)

lemma kept_openai_part_written: "kept_openai_part p \<Longrightarrow> openai_user_part p \<noteq> None"
  using kept_openai_part_read by fastforce

lemma kept_openai_parts_read:
  "list_all kept_openai_part ps \<Longrightarrow>
   fold (parse_openai_content_part (text_reader parse print) mime) (List.map Some (List.map_filter openai_user_part ps)) m
     = m\<lparr>msg_content := msg_content m @ ps\<rparr>"
proof (induction ps arbitrary: m)
  case (Cons p ps)
  from Cons.prems have "kept_openai_part p" by simp
  then obtain v where "openai_user_part p = Some v"
    "\<And>m. parse_openai_content_part (text_reader parse print) mime (Some v) m = add_part p m"
    using kept_openai_part_read[of p parse print mime] by (metis option.inject)
  then show ?case using Cons by (simp add: map_filter_simps add_part_def)
qed (simp add: map_filter_simps)

lemma user_content_read:
  assumes "list_all kept_openai_part ps" "c = user_content (List.map_filter openai_user_part ps)"
  shows "(if gj_is_string (text_reader parse print) (Some c) then add_part (text_part (gj_str (text_reader parse print) (Some c))) msg
    else fold (parse_openai_content_part (text_reader parse print) mime) (gj_array (text_reader parse print) (Some c)) msg)
    = msg\<lparr>msg_content := msg_content msg @ ps\<rparr>"
proof (cases "\<exists>p. ps = [p] \<and> cp_type p = ContentTypeText")
  case True
  then obtain p where p: "ps = [p]" "cp_type p = ContentTypeText" by blast
  then have "cp_text p \<noteq> []" "text_part (cp_text p) = p" using assms(1) by (simp_all add: kept_openai_part_def)
  then show ?thesis using p assms(2)
    by (simp add: map_filter_simps openai_user_part_def user_content_def text_item_def add_part_def openai_reading)
next
  case False
  have "user_content (List.map_filter openai_user_part ps) = JArr (List.map_filter openai_user_part ps)"
  proof (cases ps rule: list.exhaust[case_product list.exhaust, of _ "tl ps"])
    case (Cons_Nil p qs)
    then have "kept_openai_part p" "cp_type p \<noteq> ContentTypeText" "ps = [p]" using False assms(1) by (cases qs; simp)+
    then show ?thesis
      by (cases "cp_type p")
        (auto simp: kept_openai_part_def map_filter_simps openai_user_part_def user_content_def audio_item_def split: option.splits)
  next
    case (Cons_Cons p qs q rs)
    then have "kept_openai_part p" "kept_openai_part q" and ps: "ps = p # q # rs" using assms(1) by auto
    then obtain v w where "openai_user_part p = Some v" "openai_user_part q = Some w" using kept_openai_part_read by blast
    then show ?thesis using ps by (simp add: map_filter_simps user_content_def split: jval.split)
  qed (simp_all add: map_filter_simps user_content_def)
  then show ?thesis using kept_openai_parts_read[OF assms(1), of parse print mime msg] assms(2) by (simp add: openai_reading)
qed

lemma openai_calls_read:
  "list_all (\<lambda>tc. tc_partial_args tc = []) tcs
    \<Longrightarrow> List.map_filter (openai_call (text_reader parse print)) (List.map Some (List.map openai_tool_call tcs)) = tcs"
proof (induction tcs)
  case (Cons tc tcs)
  then have "openai_call (text_reader parse print) (Some (openai_tool_call tc)) = Some tc"
    by (cases tc) (auto simp: openai_call_def openai_tool_call_def google_signature_def call_of_def openai_reading)
  then show ?case using Cons by (simp add: map_filter_simps)
qed (simp add: map_filter_simps)


definition example_chat_message :: message where
  "example_chat_message = (new_message RoleUser)\<lparr>
     msg_content := [text_part ''what is this?'', image_content (no_image\<lparr>im_mime_type := ''image/png'', im_data := ''AAAA''\<rparr>)]\<rparr>"


end
