(* ===== verification/GeminiParse.thy ===== *)
theory GeminiParse
  imports CommonParams ClaudeRequest ClaudeParser StreamTranslator MalformedCall Timestamps GeminiRequest OpenaiRequest
begin

text \<open>
  What is read of Gemini's formats (\<open>to_ir/gemini.go\<close>, \<open>ir/gemini_state.go\<close>): requests, answers, and the chunks of a
  stream with the state that keeps the last thought. The reader and decoder of JSON and its test for valid texts, the
  normalisation of a call's arguments by the schema of its tool (\<open>normal\<close>, the identity without a schema), the
  recovery of malformed calls, the rounding to single precision and the identifiers generated for calls (\<open>fresh i\<close> is
  the one for part \<open>i\<close>) are arguments.
\<close>

section \<open>Requests\<close>

definition ensure_tool_call_id :: "'j gjson \<Rightarrow> string \<Rightarrow> 'j \<Rightarrow> string" where
  "ensure_tool_call_id J fresh fc = (let i = gj_str J (gj_get J fc ''id'') in if i \<noteq> [] then i else fresh)"

text \<open>The first of two names under which there is a value.\<close>

definition either_get :: "'j gjson \<Rightarrow> 'j \<Rightarrow> string \<Rightarrow> string \<Rightarrow> 'j" where
  "either_get J v k l = (let x = gj_get J v k in if gj_exists J x then x else gj_get J v l)"

definition raw_object :: "'j gjson \<Rightarrow> 'j \<Rightarrow> string" where
  "raw_object J v = (if gj_raw J v = [] then ''{}'' else gj_raw J v)"

definition parse_gemini_generation_config :: "'j gjson \<Rightarrow> (string \<Rightarrow> jval option) \<Rightarrow> 'j \<Rightarrow> chat_request \<Rightarrow> chat_request" where
  "parse_gemini_generation_config J decode gc req =
     (if \<not> gj_exists J gc then req
      else
        let tc = gj_get J gc ''thinkingConfig''; rs = either_get J gc ''responseJsonSchema'' ''responseSchema'' in
        req\<lparr>rq_max_tokens := extract_max_tokens J gc [''maxOutputTokens''], rq_temperature := extract_temperature J gc [],
            rq_top_p := extract_top_p J gc [''topP''], rq_top_k := extract_top_k J gc [''topK''],
            rq_stop_sequences := extract_stop_sequences J gc [''stopSequences''],
            rq_thinking := (if gj_exists J tc
              then Some (no_thinking\<lparr>th_budget := Some (int32_of (gj_int J (gj_get J tc ''thinkingBudget''))),
                      th_include_thoughts := gj_bool J (gj_get J tc ''includeThoughts''), th_level := gj_str J (gj_get J tc ''thinkingLevel'')\<rparr>)
              else None),
            rq_modality := rq_modality req @ List.map (gj_str J) (gj_array J (gj_get J gc ''responseModalities'')),
            rq_response_schema := (case (if gj_exists J rs \<and> gj_is_object J rs then decode_object decode (gj_raw J rs) else None) of
                Some m \<Rightarrow> Some m | None \<Rightarrow> rq_response_schema req)\<rparr>)"

definition parse_gemini_system_instruction :: "'j gjson \<Rightarrow> 'j \<Rightarrow> string" where
  "parse_gemini_system_instruction J si =
     (if gj_is_string J si then gj_str J si
      else join [CHR 0x0A] (filter (\<lambda>t. t \<noteq> []) (List.map (\<lambda>p. gj_str J (gj_get J p ''text'')) (gj_array J (gj_get J si ''parts'')))))"

section \<open>Contents\<close>

definition signed_part :: "content_part \<Rightarrow> string \<Rightarrow> content_part" where
  "signed_part p sig = p\<lparr>cp_signature := sig\<rparr>"

definition thought_part :: "string \<Rightarrow> string \<Rightarrow> content_part" where
  "thought_part s sig = (new_part ContentTypeReasoning)\<lparr>cp_reasoning := s, cp_signature := sig\<rparr>"

definition gemini_text_parts :: "'j gjson \<Rightarrow> 'j \<Rightarrow> content_part list" where
  "gemini_text_parts J part =
     (let ts = extract_thought_signature J part; text = gj_str J (gj_get J part ''text''); thought = gj_bool J (gj_get J part ''thought'');
          data = gj_str J (gj_get J part ''data'')
      in (if text \<noteq> [] then [if thought then thought_part text ts else signed_part (text_part text) ts]
          else if thought \<and> ts \<noteq> [] then [thought_part [] ts] else [])
         @ (if data \<noteq> [] then [(new_part ContentTypeRedactedThinking)\<lparr>cp_redacted_data := data\<rparr>] else []))"

text \<open>Data or a file by its type, unless the type is of another kind.\<close>

definition media_part :: "string \<Rightarrow> string \<Rightarrow> string \<Rightarrow> content_part list" where
  "media_part mime data uri =
     (if has_prefix mime ''image/''
      then [(new_part ContentTypeImage)\<lparr>cp_image := Some (no_image\<lparr>im_mime_type := mime, im_data := data, im_url := uri\<rparr>)\<rparr>]
      else if has_prefix mime ''audio/''
      then [(new_part ContentTypeAudio)\<lparr>cp_audio := Some (no_audio\<lparr>au_mime_type := mime, au_data := data, au_file_uri := uri\<rparr>)\<rparr>]
      else if has_prefix mime ''video/''
      then [(new_part ContentTypeVideo)\<lparr>cp_video := Some \<lparr>vp_data = data, vp_file_uri = uri, vp_mime_type = mime, vp_duration = 0\<rparr>\<rparr>]
      else [])"

definition mime_of :: "'j gjson \<Rightarrow> 'j \<Rightarrow> string" where
  "mime_of J d = (let m = gj_str J (gj_get J d ''mimeType'') in if m = [] then gj_str J (gj_get J d ''mime_type'') else m)"

definition inline_bytes :: "'j gjson \<Rightarrow> 'j \<Rightarrow> string" where
  "inline_bytes J part = (let d = either_get J part ''inlineData'' ''inline_data'' in if gj_exists J d then gj_str J (gj_get J d ''data'') else [])"

definition file_uri :: "'j gjson \<Rightarrow> 'j \<Rightarrow> string" where
  "file_uri J part = (let d = gj_get J part ''fileData'' in if gj_exists J d then gj_str J (gj_get J d ''fileUri'') else [])"

definition gemini_call :: "'j gjson \<Rightarrow> string \<Rightarrow> 'j \<Rightarrow> tool_call" where
  "gemini_call J fresh part =
     (let fc = gj_get J part ''functionCall'' in
      (call_of (ensure_tool_call_id J fresh fc) (gj_str J (gj_get J fc ''name'')) (raw_object J (gj_get J fc ''args'')))
        \<lparr>tc_signature := extract_thought_signature J part\<rparr>)"

text \<open>A result found on the way: the index of its part, its identifier and its text.\<close>

type_synonym found_result = "nat \<times> string \<times> string"

definition found_result_of :: "'j gjson \<Rightarrow> nat \<Rightarrow> 'j \<Rightarrow> found_result list" where
  "found_result_of J i part =
     (let fr = gj_get J part ''functionResponse''; d = gj_str J (gj_get J fr ''id'') in
      if gj_exists J fr
      then [(i, if d = [] then gj_str J (gj_get J fr ''name'') else d, raw_object J (gj_get J fr ''response''))] else [])"

text \<open>Data and files behind a result are its own; nothing else of their part is read.\<close>

definition gemini_part_step :: "'j gjson \<Rightarrow> (nat \<Rightarrow> string) \<Rightarrow> nat \<times> 'j \<Rightarrow> message \<times> found_result list \<Rightarrow> message \<times> found_result list" where
  "gemini_part_step J fresh ip st =
     (let (i, part) = ip; (msg, frs) = st;
          with_parts = (\<lambda>ps m. m\<lparr>msg_content := msg_content m @ ps\<rparr>);
          msg = with_parts (gemini_text_parts J part) msg; data = inline_bytes J part; uri = file_uri J part
      in if data \<noteq> [] \<and> frs \<noteq> [] then (msg, frs)
         else
           let msg = (if data \<noteq> [] then with_parts (media_part (mime_of J (either_get J part ''inlineData'' ''inline_data'')) data []) msg else msg)
           in if uri \<noteq> [] \<and> frs \<noteq> [] then (msg, frs)
              else
                let msg = (if uri \<noteq> [] then with_parts (media_part (gj_str J (gj_get J (gj_get J part ''fileData'') ''mimeType'')) [] uri) msg else msg);
                    msg = (if gj_exists J (gj_get J part ''functionCall'') then add_call (gemini_call J (fresh i) part) msg else msg)
                in (msg, frs @ found_result_of J i part))"

definition image_of_result :: "'j gjson \<Rightarrow> 'j \<Rightarrow> image_part list" where
  "image_of_result J p =
     (let d = gj_get J p ''inlineData''; f = gj_get J p ''fileData'' in
      (if gj_exists J d then [no_image\<lparr>im_mime_type := gj_str J (gj_get J d ''mimeType''), im_data := gj_str J (gj_get J d ''data'')\<rparr>] else [])
      @ (if gj_exists J f then [no_image\<lparr>im_url := gj_str J (gj_get J f ''fileUri''), im_mime_type := gj_str J (gj_get J f ''mimeType'')\<rparr>] else []))"

text \<open>The results with what stands between them and the next.\<close>

fun gemini_result_parts :: "'j gjson \<Rightarrow> 'j list \<Rightarrow> found_result list \<Rightarrow> content_part list" where
  "gemini_result_parts J parts [] = []"
| "gemini_result_parts J parts ((i, cid, resp) # frs) =
     (let stop = (case frs of [] \<Rightarrow> length parts | (j, _) # _ \<Rightarrow> j) in
      (new_part ContentTypeToolResult)\<lparr>cp_tool_result := Some \<lparr>tr_call_id = cid, tr_result = resp, tr_is_error = False,
         tr_images = concat (List.map (image_of_result J) (take (stop - (i + 1)) (drop (i + 1) parts))), tr_files = []\<rparr>\<rparr>
      # gemini_result_parts J parts frs)"

definition parse_gemini_content :: "'j gjson \<Rightarrow> (nat \<Rightarrow> string) \<Rightarrow> 'j \<Rightarrow> message" where
  "parse_gemini_content J fresh c =
     (let parts = gj_array J (gj_get J c ''parts'');
          (msg, frs) = fold (gemini_part_step J fresh) (List.enumerate 0 parts)
             (new_message (if gj_str J (gj_get J c ''role'') = ''model'' then RoleAssistant else RoleUser), [])
      in msg\<lparr>msg_content := msg_content msg @ gemini_result_parts J parts frs\<rparr>)"

section \<open>Tools and choices\<close>

definition parse_gemini_function :: "'j gjson \<Rightarrow> (string \<Rightarrow> jval option) \<Rightarrow> 'j \<Rightarrow> tool_definition" where
  "parse_gemini_function J decode fd =
     (let p = gj_get J fd ''parameters'' in
      \<lparr>td_name = gj_str J (gj_get J fd ''name''), td_description = gj_str J (gj_get J fd ''description''),
       td_parameters = Some (case (if gj_exists J p \<and> gj_is_object J p then decode_object decode (gj_raw J p) else None) of
           Some m \<Rightarrow> clean_json_schema m | None \<Rightarrow> [])\<rparr>)"

definition gemini_tool_keys :: "(string, string) gomap" where
  "gemini_tool_keys = [(''googleSearch'', ''google_search''), (''googleSearchRetrieval'', ''google_search_retrieval''),
     (''codeExecution'', ''code_execution''), (''urlContext'', ''url_context''), (''fileSearch'', ''file_search'')]"

text \<open>The keys differ, so the order of the loop does not matter.\<close>

definition gemini_builtin_options :: "'j gjson \<Rightarrow> (string \<Rightarrow> jval option) \<Rightarrow> 'j \<Rightarrow> jobj" where
  "gemini_builtin_options J decode t =
     List.map_filter (\<lambda>(k, mk). let v = gj_get J t k in
       if gj_exists J v
       then Some (mk, if gj_is_object J v then (case decode (gj_raw J v) of Some x \<Rightarrow> x | None \<Rightarrow> JNull) else JObj []) else None)
     gemini_tool_keys"

definition add_gemini_tool :: "'j gjson \<Rightarrow> (string \<Rightarrow> jval option) \<Rightarrow> 'j \<Rightarrow> chat_request \<Rightarrow> chat_request" where
  "add_gemini_tool J decode t req =
     req\<lparr>rq_tools := rq_tools req @ List.map (parse_gemini_function J decode)
           (gj_array J (either_get J t ''functionDeclarations'' ''function_declarations'')),
         rq_metadata := mput_all (gemini_builtin_options J decode t) (rq_metadata req)\<rparr>"

definition gemini_mode :: "string \<Rightarrow> string" where
  "gemini_mode m = (let u = to_upper m in
     if u = ''AUTO'' then ''auto'' else if u = ''ANY'' then ''required'' else if u = ''NONE'' then ''none'' else to_lower u)"

definition parse_gemini_tool_choice :: "'j gjson \<Rightarrow> 'j \<Rightarrow> chat_request \<Rightarrow> chat_request" where
  "parse_gemini_tool_choice J tc req =
     (if \<not> gj_exists J tc then req
      else req\<lparr>rq_tool_choice := gemini_mode (gj_str J (gj_get J tc ''mode'')),
               rq_allowed_tools := rq_allowed_tools req
                 @ List.map (gj_str J) (gj_array J (gj_get J tc ''allowedFunctionNames''))
                 @ List.map (gj_str J) (gj_array J (gj_get J tc ''allowed_function_names''))\<rparr>)"

definition gemini_metadata :: "'j gjson \<Rightarrow> (string \<Rightarrow> jval option) \<Rightarrow> 'j \<Rightarrow> jobj \<Rightarrow> jobj" where
  "gemini_metadata J decode doc meta =
     (let cc = gj_str J (gj_get J doc ''cachedContent''); l = gj_get J doc ''labels'';
          meta = (if cc \<noteq> [] then mput ''gemini:cachedContent'' (JStr cc) meta else meta)
      in case (if gj_exists J l \<and> gj_is_object J l then decode_object decode (gj_raw J l) else None) of
           Some m \<Rightarrow> mput ''gemini:labels'' (JObj m) meta | None \<Rightarrow> meta)"

text \<open>\<open>fresh n i\<close> is the identifier generated for part \<open>i\<close> of content \<open>n\<close>.\<close>

definition parse_gemini_request ::
    "'j gjson \<Rightarrow> (string \<Rightarrow> jval option) \<Rightarrow> (nat \<Rightarrow> nat \<Rightarrow> string) \<Rightarrow> string \<Rightarrow> string + chat_request" where
  "parse_gemini_request J decode fresh raw =
     (case parse_and_validate J raw of
        (doc, valid) \<Rightarrow>
          if \<not> valid then Inl ''invalid json''
          else
            let w = gj_get J doc ''request''; doc = (if gj_exists J w then w else doc);
                si = gj_get J doc ''systemInstruction''; sys = parse_gemini_system_instruction J si;
                req = parse_gemini_generation_config J decode (gj_get J doc ''generationConfig'') (new_request (gj_str J (gj_get J doc ''model'')));
                req = req\<lparr>rq_messages := (if gj_exists J si \<and> sys \<noteq> [] then [(new_message RoleSystem)\<lparr>msg_content := [text_part sys]\<rparr>] else [])
                        @ List.map (\<lambda>(n, c). parse_gemini_content J (fresh n) c) (List.enumerate 0 (gj_array J (gj_get J doc ''contents'')))\<rparr>;
                req = fold (add_gemini_tool J decode) (gj_array J (gj_get J doc ''tools'')) req;
                req = req\<lparr>rq_metadata := gemini_metadata J decode doc (rq_metadata req)\<rparr>
            in Inr (parse_gemini_tool_choice J (gj_get J doc ''toolConfig.functionCallingConfig'') req))"

section \<open>Metadata of answers\<close>

definition parse_gemini_usage :: "'j gjson \<Rightarrow> 'j \<Rightarrow> usage option" where
  "parse_gemini_usage J doc =
     (let u = gj_get J doc ''usageMetadata''; n = (\<lambda>k. gj_int J (gj_get J u k)); t = int32_of (n ''thoughtsTokenCount'') in
      if \<not> gj_exists J u then None
      else Some (no_usage\<lparr>us_prompt := n ''promptTokenCount'', us_completion := n ''candidatesTokenCount'',
             us_total := n ''totalTokenCount'', us_thoughts := t,
             us_prompt_details := (if 0 < n ''cachedContentTokenCount'' then Some \<lparr>pd_cached = n ''cachedContentTokenCount'', pd_audio = 0\<rparr> else None),
             us_tool_use_prompt := (if 0 < n ''toolUsePromptTokenCount'' then n ''toolUsePromptTokenCount'' else 0),
             us_completion_details := (if 0 < t then Some \<lparr>cd_reasoning = t, cd_audio = 0, cd_accepted = 0, cd_rejected = 0\<rparr> else None)\<rparr>))"

definition logprob_token :: "'j gjson \<Rightarrow> 'j \<Rightarrow> jobj" where
  "logprob_token J c = [(''token'', JStr (gj_str J (gj_get J c ''token''))), (''logprob'', JNum (gj_float J (gj_get J c ''logProbability'')))]"

definition gemini_token_entry :: "'j gjson \<Rightarrow> 'j list \<Rightarrow> nat \<times> 'j \<Rightarrow> jval" where
  "gemini_token_entry J tops ic =
     (let (i, c) = ic; bytes = gj_array J (gj_get J c ''bytes'');
          top = (if i < length tops then List.map (\<lambda>x. JObj (logprob_token J x)) (gj_array J (gj_get J (tops ! i) ''candidates'')) else [])
      in JObj (logprob_token J c
           @ (if bytes = [] then [] else [(''bytes'', JArr (List.map (\<lambda>b. jint (gj_int J b)) bytes))])
           @ (if top = [] then [] else [(''top_logprobs'', JArr top)])))"

text \<open>Without tokens the value is a nil map in an interface, which is written as null.\<close>

definition convert_gemini_logprobs_to_openai :: "'j gjson \<Rightarrow> 'j \<Rightarrow> jval" where
  "convert_gemini_logprobs_to_openai J lr =
     (let content = List.map (gemini_token_entry J (gj_array J (gj_get J lr ''topCandidates'')))
            (List.enumerate 0 (gj_array J (gj_get J lr ''chosenCandidates'')))
      in if content = [] then JNull else JObj [(''content'', JArr content)])"

definition parse_gemini_logprobs :: "'j gjson \<Rightarrow> 'j \<Rightarrow> jval option" where
  "parse_gemini_logprobs J c =
     (let lr = gj_get J c ''logprobsResult''; avg = gj_get J c ''avgLogprobs'' in
      if gj_exists J lr then Some (convert_gemini_logprobs_to_openai J lr)
      else if gj_exists J avg then Some (JObj [(''avg_logprob'', JNum (gj_float J avg))])
      else None)"

definition parse_gemini_meta :: "'j gjson \<Rightarrow> 'j \<Rightarrow> openai_meta" where
  "parse_gemini_meta J doc =
     (let cs = gj_array J (gj_get J doc ''candidates''); ct = gj_str J (gj_get J doc ''createTime'') in
      \<lparr>om_response_id = gj_str J (gj_get J doc ''responseId''),
       om_create_time = (if ct = [] then 0 else case parse_rfc3339 ct of Some t \<Rightarrow> (t - unix_epoch) div 1000000000 | None \<Rightarrow> 0),
       om_native_finish_reason = (case cs of c # _ \<Rightarrow> gj_str J (gj_get J c ''finishReason'') | [] \<Rightarrow> []),
       om_thoughts = 0, om_logprobs = (case cs of c # _ \<Rightarrow> parse_gemini_logprobs J c | [] \<Rightarrow> None),
       om_grounding = None, om_prompt_feedback = None, om_service_tier = gj_str J (gj_get J doc ''service_tier'')\<rparr>)"

definition parse_gemini_safety_ratings :: "'j gjson \<Rightarrow> 'j \<Rightarrow> safety_rating list" where
  "parse_gemini_safety_ratings J c = List.map (\<lambda>r. \<lparr>sf_category = gj_str J (gj_get J r ''category''),
     sf_probability = gj_str J (gj_get J r ''probability''), sf_blocked = gj_bool J (gj_get J r ''blocked''),
     sf_severity = gj_str J (gj_get J r ''severity'')\<rparr>) (gj_array J (gj_get J c ''safetyRatings''))"

definition parse_prompt_feedback :: "'j gjson \<Rightarrow> 'j \<Rightarrow> prompt_feedback option" where
  "parse_prompt_feedback J doc =
     (let pf = gj_get J doc ''promptFeedback'' in
      if \<not> gj_exists J pf then None
      else Some \<lparr>pf_block_reason = gj_str J (gj_get J pf ''blockReason''),
             pf_safety_ratings = List.map (\<lambda>r. \<lparr>sf_category = gj_str J (gj_get J r ''category''),
                sf_probability = gj_str J (gj_get J r ''probability''), sf_blocked = False, sf_severity = []\<rparr>)
               (gj_array J (gj_get J pf ''safetyRatings''))\<rparr>)"

definition gemini_citation :: "'j gjson \<Rightarrow> 'j \<Rightarrow> citation" where
  "gemini_citation J c = \<lparr>ct_start_index = int32_of (gj_int J (gj_get J c ''startIndex'')), ct_end_index = int32_of (gj_int J (gj_get J c ''endIndex'')),
     ct_uri = gj_str J (gj_get J c ''uri''), ct_title = gj_str J (gj_get J c ''title''), ct_license = gj_str J (gj_get J c ''license''),
     ct_publication_date = gj_str J (gj_get J c ''publicationDate'')\<rparr>"

definition parse_citation_metadata :: "'j gjson \<Rightarrow> 'j \<Rightarrow> citation list option" where
  "parse_citation_metadata J c =
     (let cm = gj_get J c ''citationMetadata''; cs = gj_array J (gj_get J cm ''citations'') in
      if \<not> gj_exists J cm \<or> cs = [] then None else Some (List.map (gemini_citation J) cs))"

definition gemini_chunk_of :: "'j gjson \<Rightarrow> 'j \<Rightarrow> grounding_chunk" where
  "gemini_chunk_of J c =
     (let w = gj_get J c ''web'' in
      \<lparr>gc_web = (if gj_exists J w then Some \<lparr>wg_uri = gj_str J (gj_get J w ''uri''), wg_title = gj_str J (gj_get J w ''title''),
          wg_domain = gj_str J (gj_get J w ''domain'')\<rparr> else None), gc_retrieved = None\<rparr>)"

definition gemini_support_of :: "(rat \<Rightarrow> rat) \<Rightarrow> 'j gjson \<Rightarrow> 'j \<Rightarrow> grounding_support" where
  "gemini_support_of f32 J s =
     (let g = gj_get J s ''segment''; n = (\<lambda>k. int32_of (gj_int J (gj_get J g k))) in
      \<lparr>gu_segment = (if gj_exists J g then Some \<lparr>gs_start_index = n ''startIndex'', gs_end_index = n ''endIndex'',
          gs_part_index = n ''partIndex'', gs_text = gj_str J (gj_get J g ''text'')\<rparr> else None),
       gu_chunk_indices = List.map (\<lambda>i. int32_of (gj_int J i)) (gj_array J (gj_get J s ''groundingChunkIndices'')),
       gu_scores = List.map (\<lambda>x. f32 (gj_float J x)) (gj_array J (gj_get J s ''confidenceScores''))\<rparr>)"

definition no_grounding :: grounding_metadata where
  "no_grounding = \<lparr>gm_search_entry = None, gm_chunks = [], gm_supports = [], gm_web_queries = [], gm_retrieval_queries = [],
     gm_retrieval_score = None, gm_citations = None\<rparr>"

definition parse_grounding_metadata :: "(rat \<Rightarrow> rat) \<Rightarrow> 'j gjson \<Rightarrow> 'j \<Rightarrow> grounding_metadata" where
  "parse_grounding_metadata f32 J gm =
     (let sep = gj_get J gm ''searchEntryPoint''; rm = gj_get J gm ''retrievalMetadata''; cm = gj_get J gm ''citationMetadata'' in
      \<lparr>gm_search_entry = (if gj_exists J sep then Some (gj_str J (gj_get J sep ''renderedContent'')) else None),
       gm_chunks = List.map (gemini_chunk_of J) (gj_array J (gj_get J gm ''groundingChunks'')),
       gm_supports = List.map (gemini_support_of f32 J) (gj_array J (gj_get J gm ''groundingSupports'')),
       gm_web_queries = List.map (gj_str J) (gj_array J (gj_get J gm ''webSearchQueries'')),
       gm_retrieval_queries = List.map (gj_str J) (gj_array J (gj_get J gm ''retrievalQueries'')),
       gm_retrieval_score = (if gj_exists J rm then Some (gj_float J (gj_get J rm ''googleSearchDynamicRetrievalScore'')) else None),
       gm_citations = (if gj_exists J cm then Some (List.map (gemini_citation J) (gj_array J (gj_get J cm ''citations''))) else None)\<rparr>)"

section \<open>Answers\<close>

definition parse_gemini_inline_image :: "'j gjson \<Rightarrow> 'j \<Rightarrow> image_part option" where
  "parse_gemini_inline_image J part =
     (let d = either_get J part ''inlineData'' ''inline_data''; m = mime_of J d in
      if \<not> gj_exists J d then None
      else Some (no_image\<lparr>im_mime_type := (if m = [] then ''image/png'' else m), im_data := gj_str J (gj_get J d ''data'')\<rparr>))"

definition run_code_part :: "'j gjson \<Rightarrow> 'j \<Rightarrow> code_execution_part" where
  "run_code_part J ec = \<lparr>ce_language = gj_str J (gj_get J ec ''language''), ce_code = gj_str J (gj_get J ec ''code''), ce_outcome = [], ce_output = []\<rparr>"

definition code_result_part :: "'j gjson \<Rightarrow> 'j \<Rightarrow> code_execution_part" where
  "code_result_part J cr = \<lparr>ce_language = [], ce_code = [], ce_outcome = gj_str J (gj_get J cr ''outcome''), ce_output = gj_str J (gj_get J cr ''output'')\<rparr>"

definition candidate_part ::
    "'j gjson \<Rightarrow> (string \<Rightarrow> string \<Rightarrow> string) \<Rightarrow> (nat \<Rightarrow> string) \<Rightarrow> nat \<times> 'j \<Rightarrow> message \<Rightarrow> message" where
  "candidate_part J normal fresh ip msg =
     (let (i, part) = ip; ts = extract_thought_signature J part; text = gj_str J (gj_get J part ''text'');
          fc = gj_get J part ''functionCall''; name = gj_str J (gj_get J fc ''name'');
          ec = gj_get J part ''executableCode''; cr = gj_get J part ''codeExecutionResult'' in
      if gj_exists J (gj_get J part ''text'') \<and> text \<noteq> [] then add_part (if gj_bool J (gj_get J part ''thought'') then thought_part text ts else signed_part (text_part text) ts) msg
      else if gj_exists J fc
      then (if name = [] then msg
            else add_call ((call_of (ensure_tool_call_id J (fresh i) fc) name (normal name (raw_object J (gj_get J fc ''args''))))
                   \<lparr>tc_signature := ts\<rparr>) msg)
      else if gj_exists J ec
      then add_part (signed_part ((new_part ContentTypeExecutableCode)\<lparr>cp_code_execution := Some (run_code_part J ec)\<rparr>) ts) msg
      else if gj_exists J cr
      then add_part (signed_part ((new_part ContentTypeCodeResult)\<lparr>cp_code_execution := Some (code_result_part J cr)\<rparr>) ts) msg
      else case parse_gemini_inline_image J part of
          Some im \<Rightarrow> add_part (signed_part ((new_part ContentTypeImage)\<lparr>cp_image := Some im\<rparr>) ts) msg
        | None \<Rightarrow> if ts \<noteq> [] then add_part (thought_part [] ts) msg else msg)"

definition parse_gemini_candidate ::
    "'j gjson \<Rightarrow> (string \<Rightarrow> string \<Rightarrow> string) \<Rightarrow> (nat \<Rightarrow> string) \<Rightarrow> 'j \<Rightarrow> message option" where
  "parse_gemini_candidate J normal fresh c =
     (let msg = fold (candidate_part J normal fresh) (List.enumerate 0 (gj_array J (gj_get J c ''content.parts''))) (new_message RoleAssistant)
      in if msg_content msg = [] \<and> msg_tool_calls msg = [] then None else Some msg)"

text \<open>Citations of the candidate replace those of its grounding.\<close>

definition candidate_grounding :: "(rat \<Rightarrow> rat) \<Rightarrow> 'j gjson \<Rightarrow> 'j \<Rightarrow> grounding_metadata option" where
  "candidate_grounding f32 J c =
     (let gm = gj_get J c ''groundingMetadata''; g = (if gj_exists J gm then Some (parse_grounding_metadata f32 J gm) else None) in
      case parse_citation_metadata J c of
        None \<Rightarrow> g
      | Some cs \<Rightarrow> Some ((case g of Some x \<Rightarrow> x | None \<Rightarrow> no_grounding)\<lparr>gm_citations := Some cs\<rparr>))"

definition gemini_candidate_result ::
    "(rat \<Rightarrow> rat) \<Rightarrow> 'j gjson \<Rightarrow> (string \<Rightarrow> string \<Rightarrow> string) \<Rightarrow> (nat \<Rightarrow> nat \<Rightarrow> string) \<Rightarrow> nat \<times> 'j \<Rightarrow> candidate_result option" where
  "gemini_candidate_result f32 J normal fresh nc =
     (let (n, c) = nc; fr = gj_get J c ''finishReason'' in
      map_option (\<lambda>m. \<lparr>ca_index = int n, ca_messages = [m],
          ca_finish_reason = Some (if gj_exists J fr then map_gemini_finish_reason (gj_str J fr) else FinishReasonStop),
          ca_logprobs = parse_gemini_logprobs J c, ca_grounding = candidate_grounding f32 J c,
          ca_safety_ratings = parse_gemini_safety_ratings J c\<rparr>) (parse_gemini_candidate J normal (fresh n) c))"

definition parse_gemini_response_candidates ::
    "(rat \<Rightarrow> rat) \<Rightarrow> 'j gjson \<Rightarrow> (string \<Rightarrow> bool) \<Rightarrow> (string \<Rightarrow> string \<Rightarrow> string) \<Rightarrow> (nat \<Rightarrow> nat \<Rightarrow> string) \<Rightarrow> string
      \<Rightarrow> string + candidate_result list \<times> usage option \<times> openai_meta" where
  "parse_gemini_response_candidates f32 J valid normal fresh raw =
     (if \<not> valid raw then Inl ''invalid json''
      else let doc = fst (unwrap_antigravity_envelope J raw) in
        Inr (List.map_filter (gemini_candidate_result f32 J normal fresh) (List.enumerate 0 (gj_array J (gj_get J doc ''candidates''))),
             parse_gemini_usage J doc, parse_gemini_meta J doc))"

definition parse_gemini_response_meta_with_context ::
    "(rat \<Rightarrow> rat) \<Rightarrow> 'j gjson \<Rightarrow> (string \<Rightarrow> bool) \<Rightarrow> (string \<Rightarrow> string \<Rightarrow> string) \<Rightarrow> (nat \<Rightarrow> string) \<Rightarrow> string
      \<Rightarrow> string + message list \<times> usage option \<times> openai_meta" where
  "parse_gemini_response_meta_with_context f32 J valid normal fresh raw =
     (let doc = fst (unwrap_antigravity_envelope J raw); us = parse_gemini_usage J doc; meta = parse_gemini_meta J doc in
      if \<not> valid raw \<or> \<not> gj_exists J doc \<or> \<not> gj_is_object J doc then Inl ''invalid json''
      else case gj_array J (gj_get J doc ''candidates'') of
          [] \<Rightarrow> Inr ([], us, meta)
        | c # _ \<Rightarrow>
            let g = gj_get J c ''groundingMetadata''; g' = gj_get J doc ''groundingMetadata'';
                meta = meta\<lparr>om_grounding := (if gj_exists J g then Some (parse_grounding_metadata f32 J g)
                    else if gj_exists J g' then Some (parse_grounding_metadata f32 J g') else None),
                  om_prompt_feedback := parse_prompt_feedback J doc\<rparr>
            in Inr (case parse_gemini_candidate J normal fresh c of Some m \<Rightarrow> [m] | None \<Rightarrow> [], us, meta))"

definition parse_gemini_response_meta ::
    "(rat \<Rightarrow> rat) \<Rightarrow> 'j gjson \<Rightarrow> (string \<Rightarrow> bool) \<Rightarrow> (nat \<Rightarrow> string) \<Rightarrow> string \<Rightarrow> string + message list \<times> usage option \<times> openai_meta" where
  "parse_gemini_response_meta f32 J valid fresh raw = parse_gemini_response_meta_with_context f32 J valid (\<lambda>name args. args) fresh raw"

definition parse_gemini_response ::
    "(rat \<Rightarrow> rat) \<Rightarrow> 'j gjson \<Rightarrow> (string \<Rightarrow> bool) \<Rightarrow> (nat \<Rightarrow> string) \<Rightarrow> string \<Rightarrow> string + message list \<times> usage option" where
  "parse_gemini_response f32 J valid fresh raw =
     (case parse_gemini_response_meta_with_context f32 J valid (\<lambda>name args. args) fresh raw of
        Inl e \<Rightarrow> Inl e | Inr (ms, us, meta) \<Rightarrow> Inr (ms, us))"

section \<open>Chunks of a stream\<close>

text \<open>
  The parser keeps a pointer to the last thought without a signature, an address in the store of events that were made.
\<close>

definition gemini_buffer_thinking :: "nat \<Rightarrow> gemini_parser \<Rightarrow> nat option \<times> gemini_parser" where
  "gemini_buffer_thinking e s = (gp_pending s, s\<lparr>gp_pending := Some e\<rparr>)"

definition gemini_attach_signature :: "string \<Rightarrow> gemini_parser \<Rightarrow> event_store \<Rightarrow> nat option \<times> gemini_parser \<times> event_store" where
  "gemini_attach_signature sig s h =
     (case gp_pending s of
        None \<Rightarrow> (None, s, h)
      | Some e \<Rightarrow> (Some e, s\<lparr>gp_pending := None\<rparr>, h[e := (h ! e)\<lparr>ev_signature := sig\<rparr>]))"

definition gemini_has_pending :: "gemini_parser \<Rightarrow> bool" where
  "gemini_has_pending s \<longleftrightarrow> gp_pending s \<noteq> None"

definition gemini_flush_pending :: "gemini_parser \<Rightarrow> nat option \<times> gemini_parser" where
  "gemini_flush_pending s = (gp_pending s, s\<lparr>gp_pending := None\<rparr>)"

definition gemini_finalize :: "gemini_parser \<Rightarrow> nat option \<times> gemini_parser" where
  "gemini_finalize s = gemini_flush_pending s"

definition flushed :: "gemini_parser option \<Rightarrow> gemini_parser option" where
  "flushed s = map_option (snd \<circ> gemini_flush_pending) s"

text \<open>The addresses of the events of the chunk, the index of the next call, the parser (there may be none) and the store.\<close>

type_synonym gemini_chunk_state = "nat list \<times> int \<times> gemini_parser option \<times> event_store"

definition emit_event :: "unified_event \<Rightarrow> gemini_chunk_state \<Rightarrow> gemini_chunk_state" where
  "emit_event e st = (case st of (evs, n, s, h) \<Rightarrow> (evs @ [length h], n, s, h @ [e]))"

definition next_call :: "gemini_chunk_state \<Rightarrow> gemini_chunk_state" where
  "next_call st = (case st of (evs, n, s, h) \<Rightarrow> (evs, n + 1, s, h))"

definition flush_state :: "gemini_chunk_state \<Rightarrow> gemini_chunk_state" where
  "flush_state st = (case st of (evs, n, s, h) \<Rightarrow> (evs, n, flushed s, h))"

definition reasoning_event :: "string \<Rightarrow> string \<Rightarrow> unified_event" where
  "reasoning_event text sig = (new_event EventTypeReasoning)\<lparr>ev_reasoning := text, ev_signature := sig\<rparr>"

definition attach_to_pending :: "string \<Rightarrow> gemini_chunk_state \<Rightarrow> gemini_chunk_state" where
  "attach_to_pending sig st =
     (case st of (evs, n, s, h) \<Rightarrow>
        (case s of None \<Rightarrow> st | Some p \<Rightarrow> (case gemini_attach_signature sig p h of (_, p', h') \<Rightarrow> (evs, n, Some p', h'))))"

definition gemini_thought :: "string \<Rightarrow> string \<Rightarrow> gemini_chunk_state \<Rightarrow> gemini_chunk_state" where
  "gemini_thought text sig st =
     (case st of (evs, n, s, h) \<Rightarrow>
        (evs @ [length h], n, if sig = [] then map_option (snd \<circ> gemini_buffer_thinking (length h)) s else s,
         h @ [reasoning_event text sig]))"

definition code_event :: "code_execution_part \<Rightarrow> string \<Rightarrow> unified_event" where
  "code_event c sig = (new_event EventTypeCodeExecution)\<lparr>ev_code_execution := Some c, ev_signature := sig\<rparr>"

definition gemini_call_event ::
    "'j gjson \<Rightarrow> (string \<Rightarrow> string \<Rightarrow> string) \<Rightarrow> string \<Rightarrow> string \<Rightarrow> 'j \<Rightarrow> gemini_chunk_state \<Rightarrow> gemini_chunk_state" where
  "gemini_call_event J normal fresh ts fc st =
     (let (evs, n, s, h) = st; name = gj_str J (gj_get J fc ''name''); pa = gj_get J fc ''partialArgs'' in
      if name \<noteq> []
      then next_call (emit_event ((new_event EventTypeToolCall)\<lparr>ev_tool_call := Some
             ((call_of (ensure_tool_call_id J fresh fc) name (normal name (raw_object J (gj_get J fc ''args''))))
                \<lparr>tc_partial_args := (if gj_exists J pa then gj_raw J pa else []), tc_signature := ts\<rparr>),
             ev_tool_call_index := n, ev_signature := ts\<rparr>) st)
      else if gj_exists J pa
      then emit_event ((new_event EventTypeToolCallDelta)\<lparr>ev_tool_call := Some (call_of [] [] (gj_raw J pa)), ev_tool_call_index := n\<rparr>) st
      else st)"

definition gemini_chunk_part ::
    "'j gjson \<Rightarrow> (string \<Rightarrow> string \<Rightarrow> string) \<Rightarrow> (nat \<Rightarrow> string) \<Rightarrow> nat \<times> 'j \<Rightarrow> gemini_chunk_state \<Rightarrow> gemini_chunk_state" where
  "gemini_chunk_part J normal fresh ip st =
     (let (i, part) = ip; ts = extract_thought_signature J part; v = gj_get J part ''text''; text = gj_str J v;
          thought = (gj_bool J (gj_get J part ''thought'') \<or> gj_exists J (gj_get J part ''thoughtSummary''));
          has_text = (gj_exists J v \<and> text \<noteq> []); fc = gj_get J part ''functionCall'';
          ec = gj_get J part ''executableCode''; cr = gj_get J part ''codeExecutionResult'' in
      if thought \<and> ts \<noteq> [] \<and> \<not> has_text then emit_event (reasoning_event [] ts) (attach_to_pending ts st)
      else if has_text
      then (if thought then gemini_thought text ts st
            else emit_event ((new_event EventTypeToken)\<lparr>ev_content := text, ev_signature := ts\<rparr>) (flush_state st))
      else if gj_exists J fc then gemini_call_event J normal (fresh i) ts fc (flush_state st)
      else if gj_exists J ec then emit_event (code_event (run_code_part J ec) ts) (flush_state st)
      else if gj_exists J cr then emit_event (code_event (code_result_part J cr) ts) (flush_state st)
      else st)"

text \<open>A call that the model wrote in a wrong format is taken from the message about it.\<close>

definition recovered_call ::
    "'j gjson \<Rightarrow> (string \<Rightarrow> (string \<times> string) option) \<Rightarrow> (string \<Rightarrow> string \<Rightarrow> string) \<Rightarrow> string \<Rightarrow> 'j \<Rightarrow> gemini_chunk_state \<Rightarrow> gemini_chunk_state" where
  "recovered_call J recover normal fresh c st =
     (let (evs, n, s, h) = st; fr = gj_get J c ''finishReason''; fm = gj_get J c ''finishMessage'' in
      if gj_exists J fr \<and> gj_str J fr = ''MALFORMED_FUNCTION_CALL'' \<and> gj_exists J fm
      then case recover (gj_str J fm) of
          Some (name, args) \<Rightarrow>
            next_call (emit_event ((new_event EventTypeToolCall)\<lparr>ev_tool_call := Some (call_of fresh name (normal name args)), ev_tool_call_index := n\<rparr>) st)
        | None \<Rightarrow> st
      else st)"

definition gemini_finish_reason_of :: "finish_reason option \<Rightarrow> nat list \<Rightarrow> event_store \<Rightarrow> finish_reason" where
  "gemini_finish_reason_of fr evs h =
     (let r = (case fr of Some x \<Rightarrow> x | None \<Rightarrow> FinishReasonStop) in
      if r = FinishReasonStop \<and> list_ex (\<lambda>e. ev_type (h ! e) = EventTypeToolCall) evs then FinishReasonToolCalls else r)"

definition chunk_grounding :: "(rat \<Rightarrow> rat) \<Rightarrow> 'j gjson \<Rightarrow> 'j \<Rightarrow> grounding_metadata option" where
  "chunk_grounding f32 J doc =
     (let gm = gj_get J doc ''groundingMetadata'' in
      if gj_exists J gm then Some (parse_grounding_metadata f32 J gm)
      else case gj_array J (gj_get J doc ''candidates'') of
          c # _ \<Rightarrow> (let gm = gj_get J c ''groundingMetadata'' in if gj_exists J gm then Some (parse_grounding_metadata f32 J gm) else None)
        | [] \<Rightarrow> None)"

definition note_input_tokens :: "usage option \<Rightarrow> gemini_parser \<Rightarrow> gemini_parser" where
  "note_input_tokens us s =
     (case us of
        Some u \<Rightarrow> if gp_input_tokens s = 0 \<and> 0 < us_prompt u then s\<lparr>gp_input_tokens := us_prompt u\<rparr> else s
      | None \<Rightarrow> s)"

definition gemini_candidate_events ::
    "'j gjson \<Rightarrow> (string \<Rightarrow> (string \<times> string) option) \<Rightarrow> (string \<Rightarrow> string \<Rightarrow> string) \<Rightarrow> (nat \<Rightarrow> string) \<Rightarrow> 'j \<Rightarrow> gemini_chunk_state \<Rightarrow> gemini_chunk_state" where
  "gemini_candidate_events J recover normal fresh c st =
     (let parts = gj_array J (gj_get J c ''content.parts'') in
      recovered_call J recover normal (fresh (length parts)) c (fold (gemini_chunk_part J normal fresh) (List.enumerate 0 parts) st))"

definition gemini_chunk_events ::
    "(rat \<Rightarrow> rat) \<Rightarrow> 'j gjson \<Rightarrow> (string \<Rightarrow> (string \<times> string) option) \<Rightarrow> (string \<Rightarrow> string \<Rightarrow> string) \<Rightarrow> (nat \<Rightarrow> string) \<Rightarrow> 'j
      \<Rightarrow> gemini_parser option \<Rightarrow> event_store \<Rightarrow> nat list \<times> gemini_parser option \<times> event_store" where
  "gemini_chunk_events f32 J recover normal fresh doc s h =
     (let us = parse_gemini_usage J doc; cs = gj_array J (gj_get J doc ''candidates'');
          st = ([], 0, map_option (note_input_tokens us) s, h);
          (evs, n, s, h) = (case cs of c # _ \<Rightarrow> gemini_candidate_events J recover normal fresh c st | [] \<Rightarrow> st);
          fr = (case cs of c # _ \<Rightarrow> (let v = gj_get J c ''finishReason'' in
                  if gj_exists J v then Some (map_gemini_finish_reason (gj_str J v)) else None) | [] \<Rightarrow> None)
      in if fr = None \<and> us = None then (evs, s, h)
         else (evs @ [length h], s, h @ [(new_event EventTypeFinish)\<lparr>ev_usage := us, ev_finish_reason := Some (gemini_finish_reason_of fr evs h),
                 ev_grounding := chunk_grounding f32 J doc,
                 ev_logprobs := (case cs of c # _ \<Rightarrow> parse_gemini_logprobs J c | [] \<Rightarrow> None)\<rparr>]))"

definition parse_gemini_chunk_with_state_context ::
    "(rat \<Rightarrow> rat) \<Rightarrow> 'j gjson \<Rightarrow> (string \<Rightarrow> bool) \<Rightarrow> (string \<Rightarrow> (string \<times> string) option) \<Rightarrow> (string \<Rightarrow> string \<Rightarrow> string) \<Rightarrow> (nat \<Rightarrow> string)
      \<Rightarrow> string \<Rightarrow> gemini_parser option \<Rightarrow> event_store \<Rightarrow> string + nat list \<times> gemini_parser option \<times> event_store" where
  "parse_gemini_chunk_with_state_context f32 J valid recover normal fresh raw s h =
     (let data = extract_sse_data raw in
      if data = [] then Inr ([], s, h)
      else if data = ''[DONE]'' then Inr ([length h], s, h @ [new_event EventTypeFinish])
      else if \<not> valid data then Inl ''invalid json''
      else Inr (gemini_chunk_events f32 J recover normal fresh (fst (unwrap_antigravity_envelope J data)) s h))"

section \<open>Merging thoughts\<close>

definition signed_blank :: "content_part \<Rightarrow> bool" where
  "signed_blank p \<longleftrightarrow> cp_type p = ContentTypeText \<and> cp_text p = [] \<and> cp_signature p \<noteq> []"

definition thinking_part :: "content_part \<Rightarrow> bool" where
  "thinking_part p \<longleftrightarrow> cp_type p = ContentTypeReasoning \<or> cp_type p = ContentTypeRedactedThinking \<or> signed_blank p"

definition is_thinking_only_message :: "message \<Rightarrow> bool" where
  "is_thinking_only_message m \<longleftrightarrow> msg_tool_calls m = [] \<and>
     (msg_content m = [] \<or>
      list_all (\<lambda>p. thinking_part p \<or> (cp_type p = ContentTypeText \<and> cp_text p = [])) (msg_content m) \<and> list_ex thinking_part (msg_content m))"

definition is_final_thinking_message :: "message \<Rightarrow> bool" where
  "is_final_thinking_message m \<longleftrightarrow> msg_tool_calls m \<noteq> [] \<or> list_ex thinking_part (msg_content m)"

definition has_non_reasoning_text :: "message \<Rightarrow> bool" where
  "has_non_reasoning_text m \<longleftrightarrow> list_ex (\<lambda>p. cp_type p = ContentTypeText \<and> cp_text p \<noteq> []) (msg_content m)"

text \<open>The parts merged so far, the texts of the open thought and its signature.\<close>

type_synonym merge_state = "content_part list \<times> string list \<times> string"

definition flush_thought :: "merge_state \<Rightarrow> merge_state" where
  "flush_thought st = (case st of (ps, buf, sig) \<Rightarrow>
     if buf \<noteq> [] \<or> sig \<noteq> [] then (ps @ [thought_part (concat buf) sig], [], []) else st)"

definition append_part :: "content_part \<Rightarrow> merge_state \<Rightarrow> merge_state" where
  "append_part p st = (case st of (ps, buf, sig) \<Rightarrow> (ps @ [p], buf, sig))"

definition merge_part :: "content_part \<Rightarrow> merge_state \<Rightarrow> merge_state" where
  "merge_part p st =
     (case st of (ps, buf, sig) \<Rightarrow>
        if cp_type p = ContentTypeReasoning
        then (ps, if cp_reasoning p \<noteq> [] then buf @ [cp_reasoning p] else buf, if cp_signature p \<noteq> [] then cp_signature p else sig)
        else if cp_type p = ContentTypeText \<and> cp_text p = [] then (ps, buf, if cp_signature p \<noteq> [] then cp_signature p else sig)
        else append_part p (flush_thought st))"

definition merge_call :: "tool_call \<Rightarrow> merge_state \<Rightarrow> merge_state" where
  "merge_call tc st = (case st of (ps, buf, sig) \<Rightarrow> (ps, buf, if tc_signature tc \<noteq> [] \<and> sig = [] then tc_signature tc else sig))"

definition merge_message :: "message \<Rightarrow> merge_state \<Rightarrow> merge_state" where
  "merge_message m st = fold merge_call (msg_tool_calls m) (fold merge_part (msg_content m) st)"

definition last_signature :: "content_part list \<Rightarrow> string" where
  "last_signature ps = (case filter (\<lambda>s. s \<noteq> []) (List.map cp_signature ps) of [] \<Rightarrow> [] | ss \<Rightarrow> last ss)"

definition merge_thinking_messages :: "message list \<Rightarrow> message" where
  "merge_thinking_messages ms =
     (case ms of
        [m] \<Rightarrow> m
      | _ \<Rightarrow>
          let (ps, _, _) = flush_thought (fold merge_message ms ([], [], [])); sig = last_signature ps
          in (new_message RoleAssistant)\<lparr>msg_content := ps, msg_tool_calls := List.map
               (\<lambda>tc. if tc_signature tc = [] then tc\<lparr>tc_signature := sig\<rparr> else tc) (concat (List.map msg_tool_calls ms))\<rparr>)"

text \<open>How many of the messages behind a thought are merged with it.\<close>

fun thinking_run :: "message list \<Rightarrow> nat" where
  "thinking_run [] = 0"
| "thinking_run (n # ns) =
     (if msg_role n = RoleAssistant \<and> (is_thinking_only_message n \<or> is_final_thinking_message n)
      then if msg_tool_calls n \<noteq> [] \<or> has_non_reasoning_text n then 1 else Suc (thinking_run ns)
      else 0)"

function merge_consecutive_model_thinking :: "message list \<Rightarrow> message list" where
  "merge_consecutive_model_thinking [] = []"
| "merge_consecutive_model_thinking (m # ms) =
     (let n = (if msg_role m = RoleAssistant \<and> is_thinking_only_message m then thinking_run ms else 0)
      in merge_thinking_messages (m # take n ms) # merge_consecutive_model_thinking (drop n ms))"
  by pat_completeness auto
termination
  by (relation "measure length") auto

section \<open>What merging keeps\<close>

definition thought_text :: "content_part list \<Rightarrow> string" where
  "thought_text ps = concat (List.map (\<lambda>p. if cp_type p = ContentTypeReasoning then cp_reasoning p else []) ps)"

definition plain_parts :: "content_part list \<Rightarrow> content_part list" where
  "plain_parts ps = filter (\<lambda>p. cp_type p \<noteq> ContentTypeReasoning \<and> \<not> (cp_type p = ContentTypeText \<and> cp_text p = [])) ps"

definition unsigned_call :: "tool_call \<Rightarrow> tool_call" where
  "unsigned_call tc = tc\<lparr>tc_signature := []\<rparr>"

definition kept_of :: "message list \<Rightarrow> string \<times> content_part list \<times> tool_call list" where
  "kept_of ms = (concat (List.map (\<lambda>m. thought_text (msg_content m)) ms), concat (List.map (\<lambda>m. plain_parts (msg_content m)) ms),
     concat (List.map (\<lambda>m. List.map unsigned_call (msg_tool_calls m)) ms))"

definition open_text :: "merge_state \<Rightarrow> string" where
  "open_text st = (case st of (ps, buf, sig) \<Rightarrow> thought_text ps @ concat buf)"

definition open_plain :: "merge_state \<Rightarrow> content_part list" where
  "open_plain st = plain_parts (fst st)"

lemma thought_text_simps:
  "thought_text [] = []" "thought_text (p # ps) = (if cp_type p = ContentTypeReasoning then cp_reasoning p else []) @ thought_text ps"
  "thought_text (ps @ qs) = thought_text ps @ thought_text qs"
  "plain_parts [] = []" "plain_parts (ps @ qs) = plain_parts ps @ plain_parts qs"
  by (simp_all add: thought_text_def plain_parts_def)

lemma thought_part_kept: "cp_type (thought_part s sig) = ContentTypeReasoning" "cp_reasoning (thought_part s sig) = s"
    "thought_text [thought_part s sig] = s" "plain_parts [thought_part s sig] = []"
  by (simp_all add: thought_text_def plain_parts_def thought_part_def new_part_def)

lemma flush_thought_keeps:
  "open_text (flush_thought st) = open_text st" "open_plain (flush_thought st) = open_plain st"
  "fst (snd (flush_thought st)) = []"
  by (auto simp: flush_thought_def open_text_def open_plain_def thought_text_simps thought_part_kept split: prod.splits)

lemma merge_part_keeps:
  "open_text (merge_part p st) = open_text st @ thought_text [p]" "open_plain (merge_part p st) = open_plain st @ plain_parts [p]"
proof -
  obtain ps buf sig where st: "st = (ps, buf, sig)" by (cases st) auto
  obtain qs b where fl: "flush_thought (ps, buf, sig) = (qs, [], b)"
    using flush_thought_keeps(3)[of "(ps, buf, sig)"] by (metis prod.collapse)
  then have "thought_text qs = thought_text ps @ concat buf" "plain_parts qs = plain_parts ps"
    using flush_thought_keeps(1,2)[of "(ps, buf, sig)"] by (simp_all add: open_text_def open_plain_def)
  then show "open_text (merge_part p st) = open_text st @ thought_text [p]" "open_plain (merge_part p st) = open_plain st @ plain_parts [p]"
    using fl by (auto simp: st merge_part_def append_part_def open_text_def open_plain_def thought_text_simps) (auto simp: plain_parts_def)
qed

lemma merge_calls_keep: "open_text (fold merge_call tcs st) = open_text st" "open_plain (fold merge_call tcs st) = open_plain st"
  by (induction tcs arbitrary: st) (auto simp: merge_call_def open_text_def open_plain_def split: prod.splits)

lemma merge_parts_keep:
  "open_text (fold merge_part ps st) = open_text st @ thought_text ps" "open_plain (fold merge_part ps st) = open_plain st @ plain_parts ps"
proof (induction ps arbitrary: st)
  case (Cons p ps)
  { case 1 then show ?case using Cons(1) by (simp add: merge_part_keeps thought_text_simps) }
  { case 2 then show ?case using Cons(2) thought_text_simps(5)[of "[p]" ps] by (simp add: merge_part_keeps) }
qed (simp_all add: thought_text_simps)

lemma merge_messages_keep:
  "open_text (fold merge_message ms st) = open_text st @ concat (List.map (\<lambda>m. thought_text (msg_content m)) ms)"
  "open_plain (fold merge_message ms st) = open_plain st @ concat (List.map (\<lambda>m. plain_parts (msg_content m)) ms)"
  by (induction ms arbitrary: st) (simp_all add: merge_message_def merge_calls_keep merge_parts_keep)

lemma merge_thinking_several:
  "\<nexists>m. ms = [m] \<Longrightarrow> merge_thinking_messages ms =
     (let (ps, _, _) = flush_thought (fold merge_message ms ([], [], [])); sig = last_signature ps
      in (new_message RoleAssistant)\<lparr>msg_content := ps, msg_tool_calls := List.map
           (\<lambda>tc. if tc_signature tc = [] then tc\<lparr>tc_signature := sig\<rparr> else tc) (concat (List.map msg_tool_calls ms))\<rparr>)"
  by (cases ms; cases "tl ms") (simp_all add: merge_thinking_messages_def)

lemma merge_thinking_keeps: "kept_of [merge_thinking_messages ms] = kept_of ms"
proof (cases "\<exists>m. ms = [m]")
  case True
  then show ?thesis by (auto simp: merge_thinking_messages_def)
next
  case False
  obtain ps b sig where f: "flush_thought (fold merge_message ms ([], [], [])) = (ps, b, sig)" by (metis prod_cases3)
  let ?st = "fold merge_message ms ([], [], [])"
  have b: "b = []" using flush_thought_keeps(3)[of ?st] f by simp
  have "thought_text ps = concat (List.map (\<lambda>m. thought_text (msg_content m)) ms)" "plain_parts ps = concat (List.map (\<lambda>m. plain_parts (msg_content m)) ms)"
    using flush_thought_keeps(1,2)[of ?st] merge_messages_keep[of ms "([], [], [])"] f b
    by (simp_all add: open_text_def open_plain_def thought_text_simps)
  moreover have "merge_thinking_messages ms = (new_message RoleAssistant)\<lparr>msg_content := ps, msg_tool_calls := List.map
        (\<lambda>tc. if tc_signature tc = [] then tc\<lparr>tc_signature := last_signature ps\<rparr> else tc) (concat (List.map msg_tool_calls ms))\<rparr>"
    using merge_thinking_several[OF False] f by simp
  moreover have "unsigned_call (if tc_signature tc = [] then tc\<lparr>tc_signature := x\<rparr> else tc) = unsigned_call tc" for tc x
    by (simp add: unsigned_call_def)
  ultimately show ?thesis by (simp add: kept_of_def map_concat comp_def)
qed

lemma kept_of_append: "kept_of (xs @ ys) = (case (kept_of xs, kept_of ys) of ((a, b, c), (d, e, f)) \<Rightarrow> (a @ d, b @ e, c @ f))"
  by (simp add: kept_of_def)


section \<open>What chunks hand out\<close>

definition same_but_signatures :: "event_store \<Rightarrow> event_store \<Rightarrow> bool" where
  "same_but_signatures h h' \<longleftrightarrow>
     List.map (\<lambda>e. e\<lparr>ev_signature := []\<rparr>) (take (length h) h') = List.map (\<lambda>e. e\<lparr>ev_signature := []\<rparr>) h"

text \<open>The events of the chunk so far are those that were made since the store was \<open>h0\<close>.\<close>

definition fresh_since :: "event_store \<Rightarrow> gemini_chunk_state \<Rightarrow> bool" where
  "fresh_since h0 st \<longleftrightarrow> (case st of (evs, n, s, h) \<Rightarrow>
     length h0 \<le> length h \<and> evs = [length h0..<length h] \<and> same_but_signatures h0 h)"

lemma fresh_start: "fresh_since h ([], n, s, h)"
  by (simp add: fresh_since_def same_but_signatures_def)

lemma fresh_emit: "fresh_since h0 st \<Longrightarrow> fresh_since h0 (emit_event e st)"
  by (auto simp: fresh_since_def emit_event_def same_but_signatures_def)

lemma fresh_next: "fresh_since h0 st \<Longrightarrow> fresh_since h0 (next_call st)"
  by (auto simp: fresh_since_def next_call_def)

lemma fresh_flush: "fresh_since h0 st \<Longrightarrow> fresh_since h0 (flush_state st)"
  by (auto simp: fresh_since_def flush_state_def)

lemma fresh_thought: "fresh_since h0 st \<Longrightarrow> fresh_since h0 (gemini_thought text sig st)"
  by (auto simp: fresh_since_def gemini_thought_def same_but_signatures_def)

lemma same_update: "same_but_signatures h0 h \<Longrightarrow> same_but_signatures h0 (h[e := (h ! e)\<lparr>ev_signature := sig\<rparr>])"
proof (cases "e < length (take (length h0) h)")
  case True
  let ?f = "\<lambda>e::unified_event. e\<lparr>ev_signature := []\<rparr>"
  assume a: "same_but_signatures h0 h"
  have "List.map ?f (take (length h0) (h[e := (h ! e)\<lparr>ev_signature := sig\<rparr>])) = (List.map ?f (take (length h0) h))[e := ?f (h ! e)]"
    by (simp add: take_update_swap map_update)
  also have "\<dots> = List.map ?f (take (length h0) h)"
    using True by (intro list_update_same_conv[THEN iffD2]) simp_all
  finally show ?thesis using a by (simp add: same_but_signatures_def)
next
  case False
  assume "same_but_signatures h0 h"
  moreover have "take (length h0) (h[e := x]) = take (length h0) h" for x
    using False by (cases "e < length h") (simp_all add: take_update_swap list_update_beyond)
  ultimately show ?thesis by (simp add: same_but_signatures_def)
qed

lemma fresh_attach: "fresh_since h0 st \<Longrightarrow> fresh_since h0 (attach_to_pending sig st)"
  by (auto simp: fresh_since_def attach_to_pending_def gemini_attach_signature_def same_update split: option.splits)

lemma fresh_call_event: "fresh_since h0 st \<Longrightarrow> fresh_since h0 (gemini_call_event J normal i ts fc st)"
  by (simp add: gemini_call_event_def Let_def fresh_emit fresh_next split: prod.split)

lemma fresh_part: "fresh_since h0 st \<Longrightarrow> fresh_since h0 (gemini_chunk_part J normal fresh ip st)"
  by (simp add: gemini_chunk_part_def Let_def fresh_emit fresh_flush fresh_thought fresh_attach fresh_call_event split: prod.split)

lemma fresh_parts: "fresh_since h0 st \<Longrightarrow> fresh_since h0 (fold (gemini_chunk_part J normal fresh) ips st)"
  by (induction ips arbitrary: st) (simp_all add: fresh_part)

lemma fresh_recovered: "fresh_since h0 st \<Longrightarrow> fresh_since h0 (recovered_call J recover normal i c st)"
  by (simp add: recovered_call_def Let_def fresh_emit fresh_next split: prod.split option.split)

lemma fresh_candidate: "fresh_since h0 st \<Longrightarrow> fresh_since h0 (gemini_candidate_events J recover normal fresh c st)"
  by (simp add: gemini_candidate_events_def Let_def fresh_parts fresh_recovered)

lemma gemini_events_fresh:
  assumes "gemini_chunk_events f32 J recover normal fresh doc s h = (evs, s', h')"
  shows "evs = [length h..<length h'] \<and> same_but_signatures h h'"
proof -
  let ?st = "([], 0, map_option (note_input_tokens (parse_gemini_usage J doc)) s, h)"
  obtain evs1 n s1 h1 where st: "(case gj_array J (gj_get J doc ''candidates'') of c # _ \<Rightarrow> gemini_candidate_events J recover normal fresh c ?st | [] \<Rightarrow> ?st)
      = (evs1, n, s1, h1)" by (metis prod_cases4)
  have "fresh_since h (case gj_array J (gj_get J doc ''candidates'') of c # _ \<Rightarrow> gemini_candidate_events J recover normal fresh c ?st | [] \<Rightarrow> ?st)"
    by (simp add: fresh_start fresh_candidate split: list.split)
  with st have fr: "length h \<le> length h1" "evs1 = [length h..<length h1]" "same_but_signatures h h1" by (simp_all only: fresh_since_def prod.case)
  then have "same_but_signatures h (h1 @ [e])" for e by (simp add: same_but_signatures_def)
  then show ?thesis using assms fr unfolding gemini_chunk_events_def Let_def st prod.case
    by (auto split: if_splits)
qed

text \<open>
  C19: A chunk of Gemini's stream hands out exactly the events it makes, once each and in their order; of the events
  that were handed out before it changes nothing but signatures.
\<close>

theorem gemini_chunk_hands_out_its_events:
  assumes "parse_gemini_chunk_with_state_context f32 J valid recover normal fresh raw s h = Inr (evs, s', h')"
  shows "evs = [length h..<length h'] \<and> same_but_signatures h h'"
proof -
  define d where "d = extract_sse_data raw"
  have E: "(if d = [] then Inr ([], s, h)
      else if d = ''[DONE]'' then Inr ([length h], s, h @ [new_event EventTypeFinish])
      else if \<not> valid d then Inl ''invalid json''
      else Inr (gemini_chunk_events f32 J recover normal fresh (fst (unwrap_antigravity_envelope J d)) s h)) = Inr (evs, s', h')"
    using assms by (simp only: parse_gemini_chunk_with_state_context_def Let_def d_def)
  show ?thesis
  proof (cases "d = [] \<or> d = ''[DONE]''")
    case True
    then show ?thesis using E by (elim disjE) (auto simp: same_but_signatures_def)
  next
    case False
    then have "gemini_chunk_events f32 J recover normal fresh (fst (unwrap_antigravity_envelope J d)) s h = (evs, s', h')"
      using E by (simp split: if_splits)
    then show ?thesis by (rule gemini_events_fresh)
  qed
qed

definition usage_reader :: "jval option gjson" where
  "usage_reader = text_reader (\<lambda>s. Some (JObj [(''usageMetadata'', JObj [(''promptTokenCount'', jint 3)])])) (\<lambda>v. ''{}'')"

lemma gemini_chunk_hands_out_its_events_witness:
  "\<exists>s' h'. parse_gemini_chunk_with_state_context id usage_reader (\<lambda>_. True) (\<lambda>_. None) (\<lambda>name args. args) (\<lambda>_. [])
       ''{}'' (Some new_gemini_parser) [new_event EventTypeToken] = Inr ([1], s', h')
     \<and> ([1] = [1..<length h'] \<and> same_but_signatures [new_event EventTypeToken] h')"
proof -
  have "\<exists>s' h'. parse_gemini_chunk_with_state_context id usage_reader (\<lambda>_. True) (\<lambda>_. None) (\<lambda>name args. args) (\<lambda>_. [])
       ''{}'' (Some new_gemini_parser) [new_event EventTypeToken] = Inr ([1], s', h')"
    by (simp add: parse_gemini_chunk_with_state_context_def extract_sse_data_def trim_space_def is_space_def usage_reader_def
        unwrap_antigravity_envelope_def gemini_chunk_events_def parse_gemini_usage_def text_reader_def value_reader_def split_char_none field_of_def Let_def)
  then obtain s' h' where e: "parse_gemini_chunk_with_state_context id usage_reader (\<lambda>_. True) (\<lambda>_. None) (\<lambda>name args. args) (\<lambda>_. [])
       ''{}'' (Some new_gemini_parser) [new_event EventTypeToken] = Inr ([1], s', h')" by blast
  show ?thesis using e gemini_chunk_hands_out_its_events[OF e] by auto
qed

text \<open>
  A signature that comes behind its thought is handed out twice: it is written into the event of the thought, also
  when that was handed out with an earlier chunk, and it gets an event of its own.
\<close>

theorem gemini_signature_handed_out_twice:
  assumes "gp_pending p = Some e" "e < length h" "extract_thought_signature J part = sig" "sig \<noteq> []"
    and "gj_bool J (gj_get J part ''thought'')" "\<not> gj_exists J (gj_get J part ''text'')"
    and "gemini_chunk_part J normal fresh (i, part) (evs, n, Some p, h) = (evs', n', s', h')"
  shows "evs' = evs @ [length h] \<and> ev_signature (h' ! length h) = sig \<and> ev_signature (h' ! e) = sig
    \<and> ev_reasoning (h' ! e) = ev_reasoning (h ! e)"
  using assms
  by (auto simp: gemini_chunk_part_def Let_def attach_to_pending_def gemini_attach_signature_def emit_event_def reasoning_event_def
      nth_append)

section \<open>What requests lose\<close>

definition unread_options :: "chat_request \<Rightarrow> bool" where
  "unread_options req \<longleftrightarrow> rq_safety_settings req = [] \<and> rq_candidate_count req = None \<and> rq_frequency_penalty req = None
     \<and> rq_presence_penalty req = None \<and> rq_image_config req = None \<and> rq_function_calling req = None"

lemma unread_kept:
  "unread_options (new_request m)" "unread_options (parse_gemini_generation_config J decode gc req) = unread_options req"
  "unread_options (add_gemini_tool J decode t req) = unread_options req"
  "unread_options (parse_gemini_tool_choice J tc req) = unread_options req"
  "unread_options (req\<lparr>rq_metadata := md\<rparr>) = unread_options req" "unread_options (req\<lparr>rq_messages := ms\<rparr>) = unread_options req"
  by (simp_all add: unread_options_def new_request_def parse_gemini_generation_config_def add_gemini_tool_def parse_gemini_tool_choice_def Let_def)

lemma unread_tools: "unread_options (fold (add_gemini_tool J decode) ts req) = unread_options req"
  by (induction ts arbitrary: req) (simp_all add: unread_kept)

text \<open>
  Of a request in Gemini's format the safety settings, the number of candidates, the penalties and the picture's
  format are not read.
\<close>

theorem gemini_options_unread:
  "case parse_gemini_request J decode fresh raw of Inl e \<Rightarrow> True | Inr req \<Rightarrow> unread_options req"
  by (cases "parse_and_validate J raw") (simp add: parse_gemini_request_def Let_def unread_kept unread_tools)

text \<open>
  The level of thinking that a request in Gemini's format asks for is not sent to Gemini 3. Without a budget in the
  request the lowest level is sent.
\<close>

theorem thinking_level_of_request_ignored:
  assumes "gj_exists J gc" "gj_exists J (gj_get J gc ''thinkingConfig'')"
    and "gj_int J (gj_get J (gj_get J gc ''thinkingConfig'') ''thinkingBudget'') = 0"
  shows "gemini3_level (parse_gemini_generation_config J decode gc (new_request m))
    = (if is_gemini3_flash m then ThinkingLevelMinimal else ThinkingLevelLow)"
  using assms
  by (simp add: gemini3_level_def parse_gemini_generation_config_def Let_def new_request_def no_thinking_def int32_of_def
      budget_to_thinking_level_def)

lemma gemini_step_role: "msg_role (fst (gemini_part_step J fresh ip st)) = msg_role (fst st)"
  by (simp add: gemini_part_step_def Let_def add_call_def split: prod.split)

lemma gemini_steps_role: "msg_role (fst (fold (gemini_part_step J fresh) ips st)) = msg_role (fst st)"
  by (induction ips arbitrary: st) (simp_all add: gemini_step_role)

lemma gemini_content_role: "msg_role (parse_gemini_content J fresh c) \<noteq> RoleTool"
proof -
  let ?m = "new_message (if gj_str J (gj_get J c ''role'') = ''model'' then RoleAssistant else RoleUser)"
  obtain msg frs where f: "fold (gemini_part_step J fresh) (List.enumerate 0 (gj_array J (gj_get J c ''parts''))) (?m, []) = (msg, frs)"
    by (metis prod.collapse)
  then have "msg_role msg = msg_role ?m"
    using gemini_steps_role[of J fresh "List.enumerate 0 (gj_array J (gj_get J c ''parts''))" "(?m, [])"] by simp
  then show ?thesis using f by (simp add: parse_gemini_content_def new_message_def)
qed

lemma openai_role_not_tool:
  assumes "convert_message_to_openai m = Some v"
  shows "sent_field v ''role'' \<noteq> Some (JStr ''tool'')"
proof (cases "msg_role m")
  case RoleAssistant
  obtain t r where "combine_text_and_reasoning m = (t, r)" by (metis prod.collapse)
  moreover have "mget (if r \<noteq> [] then add_reasoning_to_message r g ((''role'', JStr ''assistant'') # m')
      else (''role'', JStr ''assistant'') # m') ''role'' = Some (JStr ''assistant'')" for g m'
    by (simp add: add_reasoning_to_message_def mput_all_def)
  ultimately show ?thesis using assms RoleAssistant
    by (simp add: convert_message_to_openai_def build_openai_assistant_message_def Let_def sent_field_def split: jval.split) fastforce
qed (use assms in \<open>auto simp: convert_message_to_openai_def build_openai_user_message_def sent_field_def Let_def split: if_splits\<close>)

text \<open>
  The results of tools in a request of Gemini's format never reach a provider of chat completions: no message that
  is sent for its contents is one of a tool.
\<close>

theorem gemini_results_lost_for_openai:
  "list_all (\<lambda>v. sent_field v ''role'' \<noteq> Some (JStr ''tool''))
     (openai_messages (List.map (\<lambda>(n, c). parse_gemini_content J (fresh n) c) ncs))"
proof (induction ncs)
  case (Cons nc ncs)
  obtain n c where nc: "nc = (n, c)" by (cases nc)
  then show ?case using Cons gemini_content_role[of J "fresh n" c] openai_role_not_tool
    by (auto simp: openai_messages_def split: option.split)
qed (simp add: openai_messages_def)

definition plain_reader :: "jval option gjson" where
  "plain_reader = text_reader (\<lambda>s. None) (\<lambda>v. [])"

lemma plain_reading:
  "CHR ''.'' \<notin> set k \<Longrightarrow> gj_get plain_reader (Some (JObj m)) k = mget m k" "gj_exists plain_reader v \<longleftrightarrow> v \<noteq> None"
  "gj_str plain_reader (Some (JStr s)) = s" "gj_str plain_reader None = []" "gj_bool plain_reader (Some (JBool b)) = b"
  "gj_int plain_reader None = 0"
  by (simp_all add: plain_reader_def reading) (simp add: text_reader_def value_reader_def)

lemma thinking_level_of_request_ignored_witness:
  "gemini3_level (parse_gemini_generation_config plain_reader (\<lambda>_. None)
       (Some (JObj [(''thinkingConfig'', JObj [(''thinkingLevel'', JStr ''HIGH'')])])) (new_request ''gemini-3-pro''))
    = (if is_gemini3_flash ''gemini-3-pro'' then ThinkingLevelMinimal else ThinkingLevelLow)"
  by (rule thinking_level_of_request_ignored) (simp_all add: plain_reading)

lemma gemini_signature_handed_out_twice_witness:
  "\<exists>evs' n' s' h'. gemini_chunk_part plain_reader (\<lambda>name args. args) (\<lambda>_. [])
       (0, Some (JObj [(''thought'', JBool True), (''thoughtSignature'', JStr ''sig'')]))
       ([0], 0, Some (new_gemini_parser\<lparr>gp_pending := Some 0\<rparr>), [reasoning_event ''hm'' []]) = (evs', n', s', h')
     \<and> evs' = [0, 1] \<and> ev_signature (h' ! 1) = ''sig'' \<and> ev_signature (h' ! 0) = ''sig'' \<and> ev_reasoning (h' ! 0) = ''hm''"
proof -
  obtain evs' n' s' h' where c: "gemini_chunk_part plain_reader (\<lambda>name args. args) (\<lambda>_. [])
       (0, Some (JObj [(''thought'', JBool True), (''thoughtSignature'', JStr ''sig'')]))
       ([0], 0, Some (new_gemini_parser\<lparr>gp_pending := Some 0\<rparr>), [reasoning_event ''hm'' []]) = (evs', n', s', h')"
    by (metis prod_cases4)
  then show ?thesis
    using gemini_signature_handed_out_twice[OF _ _ _ _ _ _ c, of 0 "''sig''"]
    by (simp add: plain_reading extract_thought_signature_def reasoning_event_def)
qed

end
