(* ===== verification/ResponsesStream.thy ===== *)
theory ResponsesStream
  imports OpenaiRequest
begin

text \<open>
  The stream of the responses interface: the structs of its events with their pools (\<open>ir/sse_fast.go\<close>) and the state
  machine that writes them (\<open>ResponsesStreamState\<close>, \<open>ToResponsesAPIChunk\<close> in \<open>from_ir/openai.go\<close>). An event is its
  name and the value of its data. A builder takes the struct that the pool gave it.
\<close>

section \<open>Structs\<close>

record responses_delta =
  wd_type :: string
  wd_seq :: int
  wd_item_id :: string
  wd_output_index :: int
  wd_content_index :: int
  wd_delta :: string

definition new_responses_delta :: "string \<Rightarrow> responses_delta" where
  "new_responses_delta t = \<lparr>wd_type = t, wd_seq = 0, wd_item_id = [], wd_output_index = 0, wd_content_index = 0, wd_delta = []\<rparr>"

definition put_responses_delta :: "responses_delta \<Rightarrow> responses_delta" where
  "put_responses_delta d = d\<lparr>wd_seq := 0, wd_item_id := [], wd_output_index := 0, wd_content_index := 0, wd_delta := []\<rparr>"

definition responses_delta_json :: "responses_delta \<Rightarrow> jval" where
  "responses_delta_json d = JObj [(''type'', JStr (wd_type d)), (''sequence_number'', jint (wd_seq d)), (''item_id'', JStr (wd_item_id d)),
     (''output_index'', jint (wd_output_index d)), (''content_index'', jint (wd_content_index d)), (''delta'', JStr (wd_delta d))]"

definition responses_text_delta_sse :: "responses_delta \<Rightarrow> int \<Rightarrow> string \<Rightarrow> string \<Rightarrow> sse" where
  "responses_text_delta_sse d n item delta = (''response.output_text.delta'',
     responses_delta_json (d\<lparr>wd_seq := n, wd_item_id := item, wd_delta := delta\<rparr>))"

definition responses_reasoning_delta_sse :: "responses_delta \<Rightarrow> int \<Rightarrow> string \<Rightarrow> string \<Rightarrow> sse" where
  "responses_reasoning_delta_sse d n item delta = (''response.reasoning_summary_text.delta'',
     responses_delta_json (d\<lparr>wd_seq := n, wd_item_id := item, wd_delta := delta\<rparr>))"

record responses_response_event =
  we_type :: string
  we_seq :: int
  we_id :: string
  we_object :: string
  we_created :: int
  we_status :: string

definition new_response_event :: responses_response_event where
  "new_response_event = \<lparr>we_type = [], we_seq = 0, we_id = [], we_object = ''response'', we_created = 0, we_status = []\<rparr>"

definition put_response_event :: "responses_response_event \<Rightarrow> responses_response_event" where
  "put_response_event d = d\<lparr>we_type := [], we_seq := 0, we_id := [], we_created := 0, we_status := []\<rparr>"

definition response_event_json :: "responses_response_event \<Rightarrow> jval" where
  "response_event_json d = JObj [(''type'', JStr (we_type d)), (''sequence_number'', jint (we_seq d)),
     (''response'', JObj [(''id'', JStr (we_id d)), (''object'', JStr (we_object d)), (''created_at'', jint (we_created d)),
        (''status'', JStr (we_status d))])]"

definition responses_response_event_sse :: "responses_response_event \<Rightarrow> string \<Rightarrow> int \<Rightarrow> string \<Rightarrow> int \<Rightarrow> string \<Rightarrow> sse" where
  "responses_response_event_sse d t n rid created status = (t, response_event_json
     (d\<lparr>we_type := t, we_seq := n, we_id := rid, we_created := created, we_status := status\<rparr>))"

text \<open>The events that open and close an item; only the closing one has the item's identifier.\<close>

record responses_item_event =
  wi_type :: string
  wi_seq :: int
  wi_item_id :: string
  wi_output_index :: int
  wi_item :: jval

definition new_item_event :: "string \<Rightarrow> responses_item_event" where
  "new_item_event t = \<lparr>wi_type = t, wi_seq = 0, wi_item_id = [], wi_output_index = 0, wi_item = JNull\<rparr>"

definition put_item_event :: "responses_item_event \<Rightarrow> responses_item_event" where
  "put_item_event d = d\<lparr>wi_seq := 0, wi_item_id := [], wi_output_index := 0, wi_item := JNull\<rparr>"

definition item_added_json :: "responses_item_event \<Rightarrow> jval" where
  "item_added_json d = JObj [(''type'', JStr (wi_type d)), (''sequence_number'', jint (wi_seq d)),
     (''output_index'', jint (wi_output_index d)), (''item'', wi_item d)]"

definition item_done_json :: "responses_item_event \<Rightarrow> jval" where
  "item_done_json d = JObj ([(''type'', JStr (wi_type d)), (''sequence_number'', jint (wi_seq d))] @ str_unless_empty ''item_id'' (wi_item_id d)
     @ [(''output_index'', jint (wi_output_index d)), (''item'', wi_item d)])"

definition message_item :: "string \<Rightarrow> string \<Rightarrow> jval list \<Rightarrow> jval" where
  "message_item i status content = JObj [(''id'', JStr i), (''type'', JStr ''message''), (''status'', JStr status),
     (''role'', JStr ''assistant''), (''content'', JArr content)]"

definition reasoning_item :: "string \<Rightarrow> string \<Rightarrow> jval list \<Rightarrow> jval" where
  "reasoning_item i status summary = JObj [(''id'', JStr i), (''type'', JStr ''reasoning''), (''status'', JStr status), (''summary'', JArr summary)]"

definition function_call_item :: "string \<Rightarrow> string \<Rightarrow> string \<Rightarrow> string \<Rightarrow> string \<Rightarrow> jval" where
  "function_call_item i status call name args = JObj [(''id'', JStr i), (''type'', JStr ''function_call''), (''status'', JStr status),
     (''call_id'', JStr call), (''name'', JStr name), (''arguments'', JStr args)]"

definition item_added :: "responses_item_event \<Rightarrow> int \<Rightarrow> int \<Rightarrow> jval \<Rightarrow> sse" where
  "item_added d n i item = (''response.output_item.added'', item_added_json (d\<lparr>wi_seq := n, wi_output_index := i, wi_item := item\<rparr>))"

definition item_added_message_sse :: "responses_item_event \<Rightarrow> int \<Rightarrow> int \<Rightarrow> string \<Rightarrow> string \<Rightarrow> sse" where
  "item_added_message_sse d n i item status = item_added d n i (message_item item status [])"

definition item_added_reasoning_sse :: "responses_item_event \<Rightarrow> int \<Rightarrow> int \<Rightarrow> string \<Rightarrow> string \<Rightarrow> sse" where
  "item_added_reasoning_sse d n i item status = item_added d n i (reasoning_item item status [])"

definition item_added_function_call_sse :: "responses_item_event \<Rightarrow> int \<Rightarrow> int \<Rightarrow> string \<Rightarrow> string \<Rightarrow> string \<Rightarrow> string \<Rightarrow> sse" where
  "item_added_function_call_sse d n i item call name status = item_added d n i (function_call_item item status call name [])"

definition item_done_function_call_sse :: "responses_item_event \<Rightarrow> int \<Rightarrow> string \<Rightarrow> int \<Rightarrow> string \<Rightarrow> string \<Rightarrow> string \<Rightarrow> sse" where
  "item_done_function_call_sse d n item i call name args = (''response.output_item.done'', item_done_json
     (d\<lparr>wi_seq := n, wi_item_id := item, wi_output_index := i, wi_item := function_call_item item ''completed'' call name args\<rparr>))"

definition item_done_message_sse :: "responses_item_event \<Rightarrow> int \<Rightarrow> int \<Rightarrow> string \<Rightarrow> string \<Rightarrow> sse" where
  "item_done_message_sse d n i item text = (''response.output_item.done'', item_done_json
     (d\<lparr>wi_seq := n, wi_output_index := i, wi_item := message_item item ''completed'' [text_item ''output_text'' text]\<rparr>))"

definition item_done_reasoning_sse :: "responses_item_event \<Rightarrow> int \<Rightarrow> int \<Rightarrow> string \<Rightarrow> string \<Rightarrow> sse" where
  "item_done_reasoning_sse d n i item text = (''response.output_item.done'', item_done_json
     (d\<lparr>wi_seq := n, wi_output_index := i, wi_item := reasoning_item item ''completed'' [text_item ''summary_text'' text]\<rparr>))"

record responses_part_event =
  wp_type :: string
  wp_seq :: int
  wp_item_id :: string
  wp_output_index :: int
  wp_content_index :: int
  wp_part_type :: string
  wp_text :: string

definition new_part_event :: "string \<Rightarrow> responses_part_event" where
  "new_part_event t = \<lparr>wp_type = t, wp_seq = 0, wp_item_id = [], wp_output_index = 0, wp_content_index = 0, wp_part_type = ''output_text'', wp_text = []\<rparr>"

definition put_part_event :: "responses_part_event \<Rightarrow> responses_part_event" where
  "put_part_event d = d\<lparr>wp_seq := 0, wp_item_id := [], wp_output_index := 0, wp_content_index := 0, wp_text := []\<rparr>"

definition part_event_json :: "responses_part_event \<Rightarrow> jval" where
  "part_event_json d = JObj [(''type'', JStr (wp_type d)), (''sequence_number'', jint (wp_seq d)), (''item_id'', JStr (wp_item_id d)),
     (''output_index'', jint (wp_output_index d)), (''content_index'', jint (wp_content_index d)), (''part'', text_item (wp_part_type d) (wp_text d))]"

definition part_added_sse :: "responses_part_event \<Rightarrow> int \<Rightarrow> string \<Rightarrow> int \<Rightarrow> int \<Rightarrow> sse" where
  "part_added_sse d n item i j = (''response.content_part.added'', part_event_json
     (d\<lparr>wp_seq := n, wp_item_id := item, wp_output_index := i, wp_content_index := j, wp_text := []\<rparr>))"

definition part_done_sse :: "responses_part_event \<Rightarrow> int \<Rightarrow> string \<Rightarrow> int \<Rightarrow> int \<Rightarrow> string \<Rightarrow> sse" where
  "part_done_sse d n item i j text = (''response.content_part.done'', part_event_json
     (d\<lparr>wp_seq := n, wp_item_id := item, wp_output_index := i, wp_content_index := j, wp_text := text\<rparr>))"

record responses_args_delta =
  wf_type :: string
  wf_seq :: int
  wf_item_id :: string
  wf_output_index :: int
  wf_delta :: string

definition new_args_delta :: responses_args_delta where
  "new_args_delta = \<lparr>wf_type = ''response.function_call_arguments.delta'', wf_seq = 0, wf_item_id = [], wf_output_index = 0, wf_delta = []\<rparr>"

definition put_args_delta :: "responses_args_delta \<Rightarrow> responses_args_delta" where
  "put_args_delta d = d\<lparr>wf_seq := 0, wf_item_id := [], wf_output_index := 0, wf_delta := []\<rparr>"

definition args_delta_sse :: "responses_args_delta \<Rightarrow> int \<Rightarrow> string \<Rightarrow> int \<Rightarrow> string \<Rightarrow> sse" where
  "args_delta_sse d n item i delta =
     (let d = d\<lparr>wf_seq := n, wf_item_id := item, wf_output_index := i, wf_delta := delta\<rparr> in
      (''response.function_call_arguments.delta'', JObj [(''type'', JStr (wf_type d)), (''sequence_number'', jint (wf_seq d)),
         (''item_id'', JStr (wf_item_id d)), (''output_index'', jint (wf_output_index d)), (''delta'', JStr (wf_delta d))]))"

record responses_done_usage =
  wu_input :: int
  wu_output :: int
  wu_total :: int
  wu_cached :: "int option"
  wu_reasoning :: "int option"

definition done_usage_json :: "responses_done_usage \<Rightarrow> jval" where
  "done_usage_json u = JObj ([(''input_tokens'', jint (wu_input u)), (''output_tokens'', jint (wu_output u)), (''total_tokens'', jint (wu_total u))]
     @ optional ''input_tokens_details'' (map_option (\<lambda>n. JObj [(''cached_tokens'', jint n)]) (wu_cached u))
     @ optional ''output_tokens_details'' (map_option (\<lambda>n. JObj [(''reasoning_tokens'', jint n)]) (wu_reasoning u)))"

record responses_done_event =
  wn_type :: string
  wn_seq :: int
  wn_id :: string
  wn_object :: string
  wn_created :: int
  wn_status :: string
  wn_usage :: "responses_done_usage option"

definition new_done_event :: responses_done_event where
  "new_done_event = \<lparr>wn_type = ''response.done'', wn_seq = 0, wn_id = [], wn_object = ''response'', wn_created = 0,
     wn_status = ''completed'', wn_usage = None\<rparr>"

definition put_done_event :: "responses_done_event \<Rightarrow> responses_done_event" where
  "put_done_event d = d\<lparr>wn_seq := 0, wn_id := [], wn_created := 0, wn_usage := None\<rparr>"

definition responses_done_sse :: "responses_done_event \<Rightarrow> int \<Rightarrow> string \<Rightarrow> int \<Rightarrow> responses_done_usage option \<Rightarrow> sse" where
  "responses_done_sse d n rid created us =
     (let d = d\<lparr>wn_seq := n, wn_id := rid, wn_created := created, wn_usage := us\<rparr> in
      (''response.done'', JObj [(''type'', JStr (wn_type d)), (''sequence_number'', jint (wn_seq d)),
         (''response'', JObj ([(''id'', JStr (wn_id d)), (''object'', JStr (wn_object d)), (''created_at'', jint (wn_created d)),
            (''status'', JStr (wn_status d))] @ optional ''usage'' (map_option done_usage_json (wn_usage d))))]))"

text \<open>What a struct holds when it is put back is what a new one holds, whatever it was used for.\<close>

lemma responses_pools_clean:
  "wd_type d = t \<Longrightarrow> put_responses_delta d = new_responses_delta t"
  "we_object e = ''response'' \<Longrightarrow> put_response_event e = new_response_event"
  "wi_type i = t \<Longrightarrow> put_item_event i = new_item_event t"
  "wp_type p = t \<Longrightarrow> wp_part_type p = ''output_text'' \<Longrightarrow> put_part_event p = new_part_event t"
  "wf_type a = ''response.function_call_arguments.delta'' \<Longrightarrow> put_args_delta a = new_args_delta"
  "wn_type f = ''response.done'' \<Longrightarrow> wn_object f = ''response'' \<Longrightarrow> wn_status f = ''completed'' \<Longrightarrow> put_done_event f = new_done_event"
  by (cases d, cases e, cases i, cases p, cases a, cases f,
    simp add: put_responses_delta_def new_responses_delta_def put_response_event_def new_response_event_def put_item_event_def
      new_item_event_def put_part_event_def new_part_event_def put_args_delta_def new_args_delta_def put_done_event_def new_done_event_def)+

section \<open>The state machine\<close>

record responses_stream =
  rs_seq :: int
  rs_response_id :: string
  rs_created :: int
  rs_started :: bool
  rs_reasoning_id :: string
  rs_msg_id :: string
  rs_text :: string
  rs_reasoning :: string
  rs_call_ids :: "(int, string) gomap"
  rs_call_names :: "(int, string) gomap"
  rs_call_args :: "(int, string) gomap"

definition new_responses_stream :: responses_stream where
  "new_responses_stream = \<lparr>rs_seq = 0, rs_response_id = [], rs_created = 0, rs_started = False, rs_reasoning_id = [], rs_msg_id = [],
     rs_text = [], rs_reasoning = [], rs_call_ids = [], rs_call_names = [], rs_call_args = []\<rparr>"

text \<open>The next sequence number is drawn for every event.\<close>

definition write_event :: "(int \<Rightarrow> responses_stream \<Rightarrow> sse) \<Rightarrow> sse list \<times> responses_stream \<Rightarrow> sse list \<times> responses_stream" where
  "write_event f st = (case st of (out, s) \<Rightarrow> let s = s\<lparr>rs_seq := rs_seq s + 1\<rparr> in (out @ [f (rs_seq s) s], s))"

definition added_struct :: responses_item_event where "added_struct = new_item_event ''response.output_item.added''"
definition done_struct :: responses_item_event where "done_struct = new_item_event ''response.output_item.done''"

text \<open>\<open>fresh\<close> is made of the reading of the clock, whose seconds are \<open>now\<close>.\<close>

definition start_response :: "string \<Rightarrow> int \<Rightarrow> responses_stream \<Rightarrow> sse list \<times> responses_stream" where
  "start_response fresh now s =
     (let s = (if rs_response_id s = [] then s\<lparr>rs_response_id := fresh, rs_created := now\<rparr> else s);
          event = (\<lambda>t n s. responses_response_event_sse new_response_event t n (rs_response_id s) (rs_created s) ''in_progress'') in
      if rs_started s then ([], s)
      else apsnd (\<lambda>s. s\<lparr>rs_started := True\<rparr>) (write_event (event ''response.in_progress'') (write_event (event ''response.created'') ([], s))))"

definition on_text :: "string \<Rightarrow> sse list \<times> responses_stream \<Rightarrow> sse list \<times> responses_stream" where
  "on_text t st =
     (case st of (out, s) \<Rightarrow>
      let st = (if rs_msg_id s = []
                then write_event (\<lambda>n s. part_added_sse (new_part_event ''response.content_part.added'') n (rs_msg_id s) 0 0)
                       (write_event (\<lambda>n s. item_added_message_sse added_struct n 0 (rs_msg_id s) ''in_progress'')
                         (out, s\<lparr>rs_msg_id := ''msg_'' @ rs_response_id s\<rparr>))
                else st)
      in write_event (\<lambda>n s. responses_text_delta_sse (new_responses_delta ''response.output_text.delta'') n (rs_msg_id s) t)
           (apsnd (\<lambda>s. s\<lparr>rs_text := rs_text s @ t\<rparr>) st))"

definition on_reasoning :: "string \<Rightarrow> sse list \<times> responses_stream \<Rightarrow> sse list \<times> responses_stream" where
  "on_reasoning t st =
     (case st of (out, s) \<Rightarrow>
      let st = (if rs_reasoning_id s = []
                then write_event (\<lambda>n s. item_added_reasoning_sse added_struct n 0 (rs_reasoning_id s) ''in_progress'')
                       (out, s\<lparr>rs_reasoning_id := ''rs_'' @ rs_response_id s\<rparr>)
                else st)
      in write_event (\<lambda>n s. responses_reasoning_delta_sse (new_responses_delta ''response.reasoning_summary_text.delta'') n (rs_reasoning_id s) t)
           (apsnd (\<lambda>s. s\<lparr>rs_reasoning := rs_reasoning s @ t\<rparr>) st))"

definition call_item_id :: "int \<Rightarrow> responses_stream \<Rightarrow> string" where
  "call_item_id i s = (case mget (rs_call_ids s) i of Some x \<Rightarrow> x | None \<Rightarrow> [])"

definition open_call :: "int \<Rightarrow> tool_call \<Rightarrow> string \<Rightarrow> sse list \<times> responses_stream \<Rightarrow> sse list \<times> responses_stream" where
  "open_call i tc name st =
     (case st of (out, s) \<Rightarrow>
        if mget (rs_call_ids s) i \<noteq> None then st
        else write_event (\<lambda>n s. item_added_function_call_sse added_struct n i (call_item_id i s) (tc_id tc) name ''in_progress'')
               (out, s\<lparr>rs_call_ids := mput i (''fc_'' @ tc_id tc) (rs_call_ids s)\<rparr>))"

definition write_args :: "int \<Rightarrow> string \<Rightarrow> sse list \<times> responses_stream \<Rightarrow> sse list \<times> responses_stream" where
  "write_args i args st = write_event (\<lambda>n s. args_delta_sse new_args_delta n (call_item_id i s) i args) st"

definition on_call :: "int \<Rightarrow> tool_call \<Rightarrow> sse list \<times> responses_stream \<Rightarrow> sse list \<times> responses_stream" where
  "on_call i tc st =
     (let named = (\<lambda>s. if mget (rs_call_ids s) i = None then s\<lparr>rs_call_names := mput i (tc_name tc) (rs_call_names s)\<rparr> else s);
          st = open_call i tc (tc_name tc) (apsnd named st);
          st = (if tc_args tc \<noteq> [] then write_args i (tc_args tc) st else st)
      in write_event (\<lambda>n s. item_done_function_call_sse done_struct n (call_item_id i s) i (tc_id tc) (tc_name tc) (tc_args tc)) st)"

definition on_call_delta :: "int \<Rightarrow> tool_call \<Rightarrow> sse list \<times> responses_stream \<Rightarrow> sse list \<times> responses_stream" where
  "on_call_delta i tc st =
     (let grow = (\<lambda>s. s\<lparr>rs_call_args := mput i ((case mget (rs_call_args s) i of Some a \<Rightarrow> a | None \<Rightarrow> []) @ tc_args tc) (rs_call_args s)\<rparr>)
      in write_args i (tc_args tc) (apsnd grow (open_call i tc [] st)))"

definition done_usage_of :: "usage \<Rightarrow> responses_done_usage" where
  "done_usage_of u =
     (let ct = cached_of_usage u; rt = reasoning_of_usage u None in
      \<lparr>wu_input = us_prompt u, wu_output = us_completion u, wu_total = us_total u,
       wu_cached = (if 0 < ct then Some ct else None), wu_reasoning = (if 0 < rt then Some rt else None)\<rparr>)"

definition on_finish :: "usage option \<Rightarrow> sse list \<times> responses_stream \<Rightarrow> sse list \<times> responses_stream" where
  "on_finish us st =
     (case st of (out, s) \<Rightarrow>
      let t = rs_text s; r = rs_reasoning s;
          st = (if rs_msg_id s \<noteq> []
                then write_event (\<lambda>n s. item_done_message_sse done_struct n 0 (rs_msg_id s) t)
                       (write_event (\<lambda>n s. part_done_sse (new_part_event ''response.content_part.done'') n (rs_msg_id s) 0 0 t) st)
                else st);
          st = (if rs_reasoning_id s \<noteq> [] then write_event (\<lambda>n s. item_done_reasoning_sse done_struct n 0 (rs_reasoning_id s) r) st else st)
      in write_event (\<lambda>n s. responses_done_sse new_done_event n (rs_response_id s) (rs_created s) (map_option done_usage_of us)) st)"

text \<open>\<open>None\<close> is the panic on an event for a call that has none.\<close>

definition to_responses_api_chunk :: "string \<Rightarrow> int \<Rightarrow> unified_event \<Rightarrow> responses_stream \<Rightarrow> (sse list \<times> responses_stream) option" where
  "to_responses_api_chunk fresh now ev s =
     (if ev_type ev = EventTypeStreamMeta then Some ([], s)
      else let st = start_response fresh now s in
        case ev_type ev of
          EventTypeToken \<Rightarrow> Some (on_text (ev_content ev) st)
        | EventTypeReasoning \<Rightarrow> Some (on_reasoning (ev_reasoning ev) st)
        | EventTypeReasoningSummary \<Rightarrow> Some (on_reasoning (ev_reasoning_summary ev) st)
        | EventTypeToolCall \<Rightarrow> map_option (\<lambda>tc. on_call (ev_tool_call_index ev) tc st) (ev_tool_call ev)
        | EventTypeToolCallDelta \<Rightarrow> map_option (\<lambda>tc. on_call_delta (ev_tool_call_index ev) tc st) (ev_tool_call ev)
        | EventTypeFinish \<Rightarrow> Some (on_finish (ev_usage ev) st)
        | _ \<Rightarrow> Some st)"

text \<open>A stream: the events with the clock, and all that is written.\<close>

fun responses_run :: "(string \<times> int \<times> unified_event) list \<Rightarrow> responses_stream \<Rightarrow> (sse list \<times> responses_stream) option" where
  "responses_run [] s = Some ([], s)"
| "responses_run ((fresh, now, ev) # evs) s =
     (case to_responses_api_chunk fresh now ev s of
        None \<Rightarrow> None
      | Some (out, s') \<Rightarrow> map_option (apfst ((@) out)) (responses_run evs s'))"

section \<open>Sequence numbers\<close>

definition event_field :: "string \<Rightarrow> sse \<Rightarrow> jval option" where
  "event_field k e = (case snd e of JObj m \<Rightarrow> mget m k | _ \<Rightarrow> None)"

definition sequence_number :: "sse \<Rightarrow> jval option" where
  "sequence_number e = event_field ''sequence_number'' e"

lemmas event_defs = responses_text_delta_sse_def responses_reasoning_delta_sse_def responses_delta_json_def responses_response_event_sse_def
  response_event_json_def item_added_def item_added_json_def item_done_json_def item_added_message_sse_def item_added_reasoning_sse_def
  item_added_function_call_sse_def item_done_function_call_sse_def item_done_message_sse_def item_done_reasoning_sse_def
  part_event_json_def part_added_sse_def part_done_sse_def args_delta_sse_def responses_done_sse_def

definition numbered :: "int \<Rightarrow> sse list \<times> responses_stream \<Rightarrow> bool" where
  "numbered k st \<longleftrightarrow> (case st of (out, s) \<Rightarrow>
     k \<le> rs_seq s \<and> List.map sequence_number out = List.map (\<lambda>i. Some (jint i)) [k + 1..rs_seq s])"

lemma numbered_start: "rs_seq s = k \<Longrightarrow> numbered k ([], s)"
  by (simp add: numbered_def)

lemma numbered_write: "numbered k st \<Longrightarrow> (\<And>n s. sequence_number (f n s) = Some (jint n)) \<Longrightarrow> numbered k (write_event f st)"
  by (auto simp: numbered_def write_event_def Let_def upto_rec2)

lemma numbered_state: "numbered k (out, s) \<Longrightarrow> rs_seq s' = rs_seq s \<Longrightarrow> numbered k (out, s')"
  by (simp add: numbered_def)

lemma numbered_apsnd: "numbered k st \<Longrightarrow> (\<And>s. rs_seq (g s) = rs_seq s) \<Longrightarrow> numbered k (apsnd g st)"
  by (cases st) (simp add: numbered_def)

lemma event_numbers:
  "sequence_number (responses_text_delta_sse d n item t) = Some (jint n)"
  "sequence_number (responses_reasoning_delta_sse d n item t) = Some (jint n)"
  "sequence_number (responses_response_event_sse e t n rid created status) = Some (jint n)"
  "sequence_number (item_added_message_sse ie n i item status) = Some (jint n)"
  "sequence_number (item_added_reasoning_sse ie n i item status) = Some (jint n)"
  "sequence_number (item_added_function_call_sse ie n i item call name status) = Some (jint n)"
  "sequence_number (item_done_function_call_sse ie n item i call name args) = Some (jint n)"
  "sequence_number (item_done_message_sse ie n i item t) = Some (jint n)"
  "sequence_number (item_done_reasoning_sse ie n i item t) = Some (jint n)"
  "sequence_number (part_added_sse p n item i j) = Some (jint n)"
  "sequence_number (part_done_sse p n item i j t) = Some (jint n)"
  "sequence_number (args_delta_sse a n item i t) = Some (jint n)"
  "sequence_number (responses_done_sse f n rid created us) = Some (jint n)"
  by (simp_all add: event_defs sequence_number_def event_field_def Let_def)

lemma numbered_response: "numbered (rs_seq s) (start_response fresh now s)"
  by (auto simp: start_response_def Let_def event_numbers intro!: numbered_start numbered_write numbered_apsnd)

lemma numbered_text: "numbered k st \<Longrightarrow> numbered k (on_text t st)"
  by (cases st) (auto simp: on_text_def Let_def event_numbers intro!: numbered_write numbered_apsnd intro: numbered_state)

lemma numbered_reasoning: "numbered k st \<Longrightarrow> numbered k (on_reasoning t st)"
  by (cases st) (auto simp: on_reasoning_def Let_def event_numbers intro!: numbered_write numbered_apsnd intro: numbered_state)

lemma numbered_open: "numbered k st \<Longrightarrow> numbered k (open_call i tc name st)"
  by (cases st) (auto simp: open_call_def event_numbers intro!: numbered_write intro: numbered_state)

lemma numbered_args: "numbered k st \<Longrightarrow> numbered k (write_args i args st)"
  by (auto simp: write_args_def event_numbers intro!: numbered_write)

lemma numbered_call: "numbered k st \<Longrightarrow> numbered k (on_call i tc st)"
  by (auto simp: on_call_def Let_def event_numbers intro!: numbered_write numbered_args numbered_open numbered_apsnd)

lemma numbered_call_delta: "numbered k st \<Longrightarrow> numbered k (on_call_delta i tc st)"
  by (auto simp: on_call_delta_def Let_def event_numbers intro!: numbered_args numbered_open numbered_apsnd)

lemma numbered_finish: "numbered k st \<Longrightarrow> numbered k (on_finish us st)"
  by (cases st) (auto simp: on_finish_def Let_def event_numbers intro!: numbered_write)

lemma numbered_chunk:
  "to_responses_api_chunk fresh now ev s = Some st \<Longrightarrow> numbered (rs_seq s) st"
  by (auto simp: to_responses_api_chunk_def Let_def numbered_start numbered_response
      intro!: numbered_text numbered_reasoning numbered_call numbered_call_delta numbered_finish
      split: if_splits event_type.splits)

lemma numbered_run: "responses_run evs s = Some st \<Longrightarrow> numbered (rs_seq s) st"
proof (induction evs arbitrary: s st)
  case (Cons e evs)
  obtain fresh now ev where e: "e = (fresh, now, ev)" by (cases e)
  then obtain out s' where c: "to_responses_api_chunk fresh now ev s = Some (out, s')" and r: "map_option (apfst ((@) out)) (responses_run evs s') = Some st"
    using Cons.prems by (auto split: option.splits)
  then obtain out' s'' where r: "responses_run evs s' = Some (out', s'')" "st = (out @ out', s'')" by (auto simp: map_option_case split: option.splits)
  have "numbered (rs_seq s) (out, s')" "numbered (rs_seq s') (out', s'')" using numbered_chunk[OF c] Cons.IH[OF r(1)] by auto
  then have n: "rs_seq s \<le> rs_seq s'" "rs_seq s' \<le> rs_seq s''"
    "List.map sequence_number out = List.map (\<lambda>i. Some (jint i)) [rs_seq s + 1..rs_seq s']"
    "List.map sequence_number out' = List.map (\<lambda>i. Some (jint i)) [rs_seq s' + 1..rs_seq s'']" by (simp_all add: numbered_def)
  have "[rs_seq s + 1..rs_seq s''] = [rs_seq s + 1..rs_seq s'] @ [rs_seq s' + 1..rs_seq s'']"
  proof (cases "rs_seq s = rs_seq s'")
    case False
    then show ?thesis using n(1,2) by (intro upto_split2) linarith+
  qed simp
  then show ?case using n by (simp add: numbered_def r(2))
qed (simp add: numbered_start)

text \<open>
  C20: The events of a stream of the responses interface are numbered from 1 without gaps, however the events of the
  provider are mixed.
\<close>

theorem responses_events_numbered:
  assumes "responses_run evs new_responses_stream = Some (out, s)"
  shows "List.map sequence_number out = List.map (\<lambda>i. Some (jint i)) [1..int (length out)]"
proof -
  have n: "List.map sequence_number out = List.map (\<lambda>i. Some (jint i)) [1..rs_seq s]" "0 \<le> rs_seq s"
    using numbered_run[OF assms] by (simp_all add: numbered_def new_responses_stream_def)
  then have "length out = length [1..rs_seq s]" by (metis length_map)
  then show ?thesis using n by simp
qed

section \<open>What is written\<close>

definition text_delta_of :: "sse \<Rightarrow> string" where
  "text_delta_of e = (if fst e = ''response.output_text.delta'' then (case event_field ''delta'' e of Some (JStr t) \<Rightarrow> t | _ \<Rightarrow> []) else [])"

definition arguments_of :: "int \<Rightarrow> sse \<Rightarrow> string" where
  "arguments_of i e = (if fst e = ''response.function_call_arguments.delta'' \<and> event_field ''output_index'' e = Some (jint i)
     then (case event_field ''delta'' e of Some (JStr t) \<Rightarrow> t | _ \<Rightarrow> []) else [])"

definition gathered :: "(sse \<Rightarrow> 'a list) \<Rightarrow> sse list \<Rightarrow> 'a list" where
  "gathered f out = concat (List.map f out)"

lemma gathered_write: "(\<And>n s. f (g n s) = a) \<Longrightarrow> gathered f (fst (write_event g st)) = gathered f (fst st) @ a"
  by (simp add: gathered_def write_event_def Let_def split: prod.split)

lemma gathered_append: "gathered f (xs @ ys) = gathered f xs @ gathered f ys"
  by (simp add: gathered_def)

lemma gathered_nil: "gathered f [] = []"
  by (simp add: gathered_def)

lemma text_deltas:
  "text_delta_of (responses_text_delta_sse d n item t) = t" "text_delta_of (responses_reasoning_delta_sse d n item t) = []"
  "text_delta_of (item_added_message_sse ie n i item status) = []" "text_delta_of (item_added_reasoning_sse ie n i item status) = []"
  "text_delta_of (item_added_function_call_sse ie n i item call name status) = []"
  "text_delta_of (item_done_function_call_sse ie n item i call name args) = []"
  "text_delta_of (item_done_message_sse ie n i item t) = []" "text_delta_of (item_done_reasoning_sse ie n i item t) = []"
  "text_delta_of (part_added_sse p n item i j) = []" "text_delta_of (part_done_sse p n item i j t) = []"
  "text_delta_of (args_delta_sse a n item i t) = []" "text_delta_of (responses_done_sse f n rid created us) = []"
  by (simp_all add: event_defs text_delta_of_def event_field_def Let_def)

lemma arguments_deltas:
  "arguments_of k (args_delta_sse a n item i t) = (if i = k then t else [])"
  "arguments_of k (responses_text_delta_sse d n item t) = []" "arguments_of k (responses_reasoning_delta_sse d n item t) = []"
  "arguments_of k (item_added_message_sse ie n i item status) = []" "arguments_of k (item_added_reasoning_sse ie n i item status) = []"
  "arguments_of k (item_added_function_call_sse ie n i item call name status) = []"
  "arguments_of k (item_done_function_call_sse ie n item i call name args) = []"
  "arguments_of k (item_done_message_sse ie n i item t) = []" "arguments_of k (item_done_reasoning_sse ie n i item t) = []"
  "arguments_of k (part_added_sse p n item i j) = []" "arguments_of k (part_done_sse p n item i j t) = []"
  "arguments_of k (responses_done_sse f n rid created us) = []"
  by (simp_all add: event_defs arguments_of_def event_field_def Let_def)

text \<open>An event whose name is one of the two at the start.\<close>

lemma start_written:
  "gathered text_delta_of (fst (start_response fresh now s)) = []" "gathered (arguments_of k) (fst (start_response fresh now s)) = []"
  by (simp_all add: start_response_def Let_def write_event_def gathered_def text_delta_of_def arguments_of_def responses_response_event_sse_def)

definition text_written_by :: "unified_event \<Rightarrow> string" where
  "text_written_by ev = (if ev_type ev = EventTypeToken then ev_content ev else [])"

definition arguments_written_by :: "int \<Rightarrow> unified_event \<Rightarrow> string" where
  "arguments_written_by k ev =
     (if ev_type ev \<in> {EventTypeToolCall, EventTypeToolCallDelta} \<and> ev_tool_call_index ev = k
      then (case ev_tool_call ev of Some tc \<Rightarrow> tc_args tc | None \<Rightarrow> []) else [])"

lemmas observing = text_deltas arguments_deltas gathered_append start_written

lemma fst_apsnd: "fst (apsnd f st) = fst st"
  by (cases st) simp

lemma text_steps:
  "gathered text_delta_of (fst (on_text t st)) = gathered text_delta_of (fst st) @ t"
  "gathered text_delta_of (fst (on_reasoning t st)) = gathered text_delta_of (fst st)"
  "gathered text_delta_of (fst (on_call i tc st)) = gathered text_delta_of (fst st)"
  "gathered text_delta_of (fst (on_call_delta i tc st)) = gathered text_delta_of (fst st)"
  "gathered text_delta_of (fst (on_finish us st)) = gathered text_delta_of (fst st)"
  by (cases st; simp add: on_text_def on_reasoning_def on_call_def on_call_delta_def on_finish_def open_call_def write_args_def Let_def
      write_event_def gathered_def observing)+

lemma arguments_steps:
  "gathered (arguments_of k) (fst (on_text t st)) = gathered (arguments_of k) (fst st)"
  "gathered (arguments_of k) (fst (on_reasoning t st)) = gathered (arguments_of k) (fst st)"
  "gathered (arguments_of k) (fst (on_call i tc st)) = gathered (arguments_of k) (fst st) @ (if i = k then tc_args tc else [])"
  "gathered (arguments_of k) (fst (on_call_delta i tc st)) = gathered (arguments_of k) (fst st) @ (if i = k then tc_args tc else [])"
  "gathered (arguments_of k) (fst (on_finish us st)) = gathered (arguments_of k) (fst st)"
  by (cases st; simp add: on_text_def on_reasoning_def on_call_def on_call_delta_def on_finish_def open_call_def write_args_def Let_def
      write_event_def gathered_def observing)+

lemma chunk_written:
  assumes "to_responses_api_chunk fresh now ev s = Some st"
  shows "gathered text_delta_of (fst st) = text_written_by ev" "gathered (arguments_of k) (fst st) = arguments_written_by k ev"
proof -
  have a: "if ev_type ev = EventTypeStreamMeta then st = ([], s)
    else case ev_type ev of
        EventTypeToken \<Rightarrow> st = on_text (ev_content ev) (start_response fresh now s)
      | EventTypeReasoning \<Rightarrow> st = on_reasoning (ev_reasoning ev) (start_response fresh now s)
      | EventTypeReasoningSummary \<Rightarrow> st = on_reasoning (ev_reasoning_summary ev) (start_response fresh now s)
      | EventTypeToolCall \<Rightarrow> (\<exists>tc. ev_tool_call ev = Some tc \<and> st = on_call (ev_tool_call_index ev) tc (start_response fresh now s))
      | EventTypeToolCallDelta \<Rightarrow> (\<exists>tc. ev_tool_call ev = Some tc \<and> st = on_call_delta (ev_tool_call_index ev) tc (start_response fresh now s))
      | EventTypeFinish \<Rightarrow> st = on_finish (ev_usage ev) (start_response fresh now s)
      | _ \<Rightarrow> st = start_response fresh now s"
    using assms unfolding to_responses_api_chunk_def Let_def by (cases "ev_type ev") auto
  show "gathered text_delta_of (fst st) = text_written_by ev"
    using a by (cases "ev_type ev") (auto simp: text_written_by_def text_steps start_written gathered_nil)
  show "gathered (arguments_of k) (fst st) = arguments_written_by k ev"
    using a by (cases "ev_type ev") (auto simp: arguments_written_by_def arguments_steps start_written gathered_nil)
qed

lemma run_written:
  "responses_run evs s = Some (out, s') \<Longrightarrow> gathered text_delta_of out = concat (List.map (\<lambda>(_, _, ev). text_written_by ev) evs)
     \<and> gathered (arguments_of k) out = concat (List.map (\<lambda>(_, _, ev). arguments_written_by k ev) evs)"
proof (induction evs arbitrary: s out s')
  case (Cons e evs)
  obtain fresh now ev where e: "e = (fresh, now, ev)" by (cases e)
  then obtain o1 s1 where c: "to_responses_api_chunk fresh now ev s = Some (o1, s1)" and r: "map_option (apfst ((@) o1)) (responses_run evs s1) = Some (out, s')"
    using Cons.prems by (auto split: option.splits)
  then obtain o2 where r: "responses_run evs s1 = Some (o2, s')" "out = o1 @ o2" by (auto simp: map_option_case split: option.splits)
  then show ?case using chunk_written(1)[OF c] chunk_written(2)[OF c, of k] Cons.IH[OF r(1)] e by (simp add: gathered_append)
qed (simp add: gathered_nil)

text \<open>Only an event for a call that has none stops a stream.\<close>

lemma run_returns:
  "list_all (\<lambda>(_, _, ev). ev_type ev \<in> {EventTypeToolCall, EventTypeToolCallDelta} \<longrightarrow> ev_tool_call ev \<noteq> None) evs
    \<Longrightarrow> \<exists>out s'. responses_run evs s = Some (out, s')"
proof (induction evs arbitrary: s)
  case (Cons e evs)
  obtain fresh now ev where e: "e = (fresh, now, ev)" by (cases e)
  have "\<exists>st. to_responses_api_chunk fresh now ev s = Some st"
    using Cons.prems e by (cases "ev_type ev") (auto simp: to_responses_api_chunk_def Let_def)
  then obtain o1 s1 where "to_responses_api_chunk fresh now ev s = Some (o1, s1)" by auto
  moreover obtain o2 s2 where "responses_run evs s1 = Some (o2, s2)" using Cons by fastforce
  ultimately show ?case using e by simp
qed simp

text \<open>
  The deltas of a call's arguments add up to the arguments of all events for that call: those of the deltas, and
  then those of the complete call once more.
\<close>

theorem responses_arguments_written_twice:
  assumes "responses_run evs s = Some (out, s')"
  shows "gathered (arguments_of k) out = concat (List.map (\<lambda>(_, _, ev). arguments_written_by k ev) evs)"
  using run_written[OF assms] by blast

lemma responses_arguments_written_twice_witness:
  "\<exists>out s'. responses_run
       [(''resp_1'', 1, tool_call_event EventTypeToolCallDelta (call_of ''a'' [] ''{}'') 0),
        (''resp_1'', 1, tool_call_event EventTypeToolCall (call_of ''a'' ''ls'' ''{}'') 0)] new_responses_stream = Some (out, s')
     \<and> gathered (arguments_of 0) out = ''{}{}''"
proof -
  obtain out s' where r: "responses_run
       [(''resp_1'', 1, tool_call_event EventTypeToolCallDelta (call_of ''a'' [] ''{}'') 0),
        (''resp_1'', 1, tool_call_event EventTypeToolCall (call_of ''a'' ''ls'' ''{}'') 0)] new_responses_stream = Some (out, s')"
    using run_returns[of "[(''resp_1'', 1, tool_call_event EventTypeToolCallDelta (call_of ''a'' [] ''{}'') 0),
        (''resp_1'', 1, tool_call_event EventTypeToolCall (call_of ''a'' ''ls'' ''{}'') 0)]" new_responses_stream]
    by (auto simp: tool_call_event_def)
  show ?thesis using r responses_arguments_written_twice[OF r, of 0]
    by (simp add: arguments_written_by_def tool_call_event_def new_event_def call_of_def)
qed

definition two_events :: "(string \<times> int \<times> unified_event) list" where
  "two_events = [(''resp_1'', 1, (new_event EventTypeToken)\<lparr>ev_content := ''hi''\<rparr>), (''resp_1'', 1, (new_event EventTypeToken)\<lparr>ev_content := ''!''\<rparr>)]"

lemma two_events_run: "\<exists>out s. responses_run two_events new_responses_stream = Some (out, s)"
  by (rule run_returns) (simp add: two_events_def new_event_def)

lemma responses_events_numbered_witness:
  "\<exists>out s. responses_run two_events new_responses_stream = Some (out, s)
     \<and> List.map sequence_number out = List.map (\<lambda>i. Some (jint i)) [1..int (length out)]"
  using two_events_run responses_events_numbered by blast

section \<open>The end of a message\<close>

definition buffered :: "sse list \<times> responses_stream \<Rightarrow> string \<times> bool" where
  "buffered st = (rs_text (snd st), rs_msg_id (snd st) \<noteq> [])"

lemma buffered_write: "buffered (write_event f st) = buffered st"
  by (simp add: buffered_def write_event_def Let_def split: prod.split)

lemma buffered_steps:
  "buffered (start_response fresh now s) = buffered ([], s)"
  "buffered (on_text t st) = (fst (buffered st) @ t, True)"
  "buffered (on_reasoning t st) = buffered st" "buffered (on_call i tc st) = buffered st"
  "buffered (on_call_delta i tc st) = buffered st" "buffered (on_finish us st) = buffered st"
proof -
  show "buffered (start_response fresh now s) = buffered ([], s)"
    by (simp add: start_response_def Let_def write_event_def buffered_def)
  show "buffered (on_text t st) = (fst (buffered st) @ t, True)" "buffered (on_reasoning t st) = buffered st"
    "buffered (on_call i tc st) = buffered st" "buffered (on_call_delta i tc st) = buffered st" "buffered (on_finish us st) = buffered st"
    by (cases st; simp add: on_text_def on_reasoning_def on_call_def on_call_delta_def on_finish_def open_call_def write_args_def Let_def
      write_event_def buffered_def)+
qed

lemma chunk_buffered:
  assumes "to_responses_api_chunk fresh now ev s = Some st"
  shows "buffered st = (rs_text s @ text_written_by ev, rs_msg_id s \<noteq> [] \<or> ev_type ev = EventTypeToken)"
  using assms by (cases "ev_type ev") (auto simp: to_responses_api_chunk_def Let_def text_written_by_def buffered_steps buffered_def[of "([], s)"]
    buffered_def[of "([], _)"])

lemma run_buffered:
  "responses_run evs s = Some (out, s') \<Longrightarrow> rs_text s' = rs_text s @ concat (List.map (\<lambda>(_, _, ev). text_written_by ev) evs)"
proof (induction evs arbitrary: s out s')
  case (Cons e evs)
  obtain fresh now ev where e: "e = (fresh, now, ev)" by (cases e)
  then obtain o1 s1 where c: "to_responses_api_chunk fresh now ev s = Some (o1, s1)" and r: "map_option (apfst ((@) o1)) (responses_run evs s1) = Some (out, s')"
    using Cons.prems by (auto split: option.splits)
  then obtain o2 where "responses_run evs s1 = Some (o2, s')" by (auto simp: map_option_case split: option.splits)
  then show ?case using chunk_buffered[OF c] Cons.IH e by (simp add: buffered_def)
qed simp

lemma finish_closes_message:
  assumes "rs_msg_id s \<noteq> []"
  shows "\<exists>n. part_done_sse (new_part_event ''response.content_part.done'') n (rs_msg_id s) 0 0 (rs_text s) \<in> set (fst (on_finish us (out, s)))"
  using assms by (auto simp: on_finish_def Let_def write_event_def)

text \<open>
  When the provider ends its answer, the message is closed with the text that its deltas add up to.
\<close>

theorem responses_done_text:
  assumes "responses_run evs new_responses_stream = Some (out, s)" "rs_msg_id s \<noteq> []" "ev_type fin = EventTypeFinish"
    and "to_responses_api_chunk fresh now fin s = Some (out', s')"
  shows "\<exists>e \<in> set out'. fst e = ''response.content_part.done''
    \<and> event_field ''part'' e = Some (text_item ''output_text'' (gathered text_delta_of out))"
proof -
  obtain o1 s1 where st: "start_response fresh now s = (o1, s1)" by (metis prod.exhaust)
  have "rs_msg_id s1 = rs_msg_id s \<and> rs_text s1 = rs_text s"
    using st by (auto simp: start_response_def Let_def write_event_def split: if_splits)
  moreover have "rs_text s = gathered text_delta_of out"
    using run_buffered[OF assms(1)] run_written[OF assms(1)] by (simp add: new_responses_stream_def)
  moreover have "out' = fst (on_finish (ev_usage fin) (o1, s1))" using assms(3,4) st by (simp add: to_responses_api_chunk_def)
  ultimately obtain n where "part_done_sse (new_part_event ''response.content_part.done'') n (rs_msg_id s) 0 0 (gathered text_delta_of out) \<in> set out'"
    using finish_closes_message[of s1] assms(2) by fastforce
  moreover have "event_field ''part'' (part_done_sse (new_part_event t) n i 0 0 x) = Some (text_item ''output_text'' x)" for t n i x
    by (simp add: event_defs event_field_def new_part_event_def)
  ultimately show ?thesis by (force simp: part_done_sse_def)
qed

section \<open>Read back\<close>

definition read_back :: "sse \<Rightarrow> unified_event list" where
  "read_back e = parse_responses_stream_event (text_reader (\<lambda>s. None) (\<lambda>v. [])) (fst e) (Some (snd e))"

definition text_or_arguments :: "sse \<Rightarrow> bool" where
  "text_or_arguments e \<longleftrightarrow> list_all (\<lambda>ev. ev_type ev = EventTypeToken \<or> ev_type ev = EventTypeToolCallDelta) (read_back e)"

lemma readings:
  "text_or_arguments (responses_text_delta_sse d n item t)"
  "text_or_arguments (responses_reasoning_delta_sse d n item t)"
  "text_or_arguments (item_added_message_sse ie n i item status)"
  "text_or_arguments (item_added_reasoning_sse ie n i item status)"
  "text_or_arguments (item_added_function_call_sse ie n i item call name status)"
  "text_or_arguments (item_done_function_call_sse ie n item i call name args)"
  "text_or_arguments (item_done_message_sse ie n i item t)"
  "text_or_arguments (item_done_reasoning_sse ie n i item t)"
  "text_or_arguments (part_added_sse p n item i j)"
  "text_or_arguments (part_done_sse p n item i j t)"
  "text_or_arguments (args_delta_sse a n item i t)"
  "text_or_arguments (responses_done_sse f n rid created us)"
  "text_or_arguments (responses_response_event_sse e ''response.created'' n rid created status)"
  "text_or_arguments (responses_response_event_sse e ''response.in_progress'' n rid created status)"
  unfolding event_defs Let_def text_or_arguments_def read_back_def parse_responses_stream_event_def fst_conv snd_conv
  by (simp_all add: reading tool_call_event_def new_event_def)

lemma readings_steps:
  "list_all text_or_arguments (fst (start_response fresh now s))"
  "list_all text_or_arguments (fst st) \<Longrightarrow> list_all text_or_arguments (fst (on_text t st))"
  "list_all text_or_arguments (fst st) \<Longrightarrow> list_all text_or_arguments (fst (on_reasoning t st))"
  "list_all text_or_arguments (fst st) \<Longrightarrow> list_all text_or_arguments (fst (on_call i tc st))"
  "list_all text_or_arguments (fst st) \<Longrightarrow> list_all text_or_arguments (fst (on_call_delta i tc st))"
  "list_all text_or_arguments (fst st) \<Longrightarrow> list_all text_or_arguments (fst (on_finish us st))"
proof -
  show "list_all text_or_arguments (fst (start_response fresh now s))"
    by (simp add: start_response_def Let_def write_event_def readings)
  show "list_all text_or_arguments (fst st) \<Longrightarrow> list_all text_or_arguments (fst (on_text t st))"
    "list_all text_or_arguments (fst st) \<Longrightarrow> list_all text_or_arguments (fst (on_reasoning t st))"
    "list_all text_or_arguments (fst st) \<Longrightarrow> list_all text_or_arguments (fst (on_call i tc st))"
    "list_all text_or_arguments (fst st) \<Longrightarrow> list_all text_or_arguments (fst (on_call_delta i tc st))"
    "list_all text_or_arguments (fst st) \<Longrightarrow> list_all text_or_arguments (fst (on_finish us st))"
    by (cases st; simp add: on_text_def on_reasoning_def on_call_def on_call_delta_def on_finish_def open_call_def write_args_def Let_def
      write_event_def readings)+
qed

lemma chunk_readings: "to_responses_api_chunk fresh now ev s = Some st \<Longrightarrow> list_all text_or_arguments (fst st)"
  by (cases "ev_type ev") (auto simp: to_responses_api_chunk_def Let_def intro!: readings_steps(2-) readings_steps(1))

text \<open>
  Of a stream of the responses interface that the gateway wrote the gateway's own parser reads the texts and the
  deltas of calls, and nothing else: neither its reasoning nor its end nor the name of a call.
\<close>

theorem responses_stream_not_read_back:
  "case responses_run evs s of None \<Rightarrow> True | Some (out, s') \<Rightarrow> list_all text_or_arguments out"
proof (induction evs arbitrary: s)
  case (Cons e evs)
  obtain fresh now ev where e: "e = (fresh, now, ev)" by (cases e)
  show ?case
  proof (cases "to_responses_api_chunk fresh now ev s")
    case (Some st)
    then show ?thesis using chunk_readings[OF Some] Cons.IH[of "snd st"] e by (cases st) (auto split: option.splits)
  qed (simp add: e)
qed simp

lemma responses_done_text_witness:
  "\<exists>out s out' s'. responses_run two_events new_responses_stream = Some (out, s)
     \<and> to_responses_api_chunk ''resp_1'' 1 (new_event EventTypeFinish) s = Some (out', s')
     \<and> (\<exists>e \<in> set out'. fst e = ''response.content_part.done''
          \<and> event_field ''part'' e = Some (text_item ''output_text'' (gathered text_delta_of out)))"
proof -
  obtain out s where r: "responses_run two_events new_responses_stream = Some (out, s)" using two_events_run by blast
  then obtain a b where c2: "to_responses_api_chunk ''resp_1'' 1 ((new_event EventTypeToken)\<lparr>ev_content := ''!''\<rparr>) b = Some (a, s)"
    by (auto simp: two_events_def map_option_case split: option.splits)
  have "rs_msg_id s \<noteq> []"
    using chunk_buffered[OF c2] by (simp add: buffered_def new_event_def)
  moreover have fin: "ev_type (new_event EventTypeFinish) = EventTypeFinish" by (simp add: new_event_def)
  moreover obtain out' s' where c: "to_responses_api_chunk ''resp_1'' 1 (new_event EventTypeFinish) s = Some (out', s')"
    using fin by (simp add: to_responses_api_chunk_def Let_def) (metis prod.exhaust)
  ultimately show ?thesis using r responses_done_text[OF r _ fin c] by blast
qed

end
