(* ===== verification/YamlMerge.thy ===== *)
theory YamlMerge
  imports Prelude
begin

text \<open>
  Writing the settings back into the file they were read from (\<open>config/config.go\<close>): the tree of
  the new settings is merged into the tree of the file, so that the comments and the order of the
  file survive.

  A node is a value of the YAML library's \<open>Node\<close> with the fields the code touches or copies. The
  trees come from the library's parser, which makes no nil nodes; the nil checks of the code have
  no counterpart. Nodes are mutated in place, here the merged node is returned. An alias keeps a
  copy of the node it points to, which only \<open>nodesStructurallyEqual\<close> looks at.
\<close>

section \<open>Nodes\<close>

datatype ykind = NoKind | DocumentNode | SequenceNode | MappingNode | ScalarNode | AliasNode

datatype ystyle = PlainStyle | FlowStyle | OtherStyle nat

datatype ynode = YNode (y_kind: ykind) (y_style: ystyle) (y_tag: string) (y_value: string)
  (y_anchor: string) (y_alias: "ynode option") (y_content: "ynode list") (y_comments: "string list")

definition y_scalar :: "string \<Rightarrow> ynode" where
  "y_scalar v = YNode ScalarNode PlainStyle ''!!str'' v [] None [] []"

definition with_content :: "ynode \<Rightarrow> ynode list \<Rightarrow> ynode" where
  "with_content n c = (case n of YNode k st t v a al _ cm \<Rightarrow> YNode k st t v a al c cm)"

definition as_collection :: "ykind \<Rightarrow> string \<Rightarrow> ynode \<Rightarrow> ynode" where
  "as_collection k t n = (case n of YNode _ st _ v a al c cm \<Rightarrow> YNode k st t v a al c cm)"

definition as_scalar :: "ykind \<Rightarrow> string \<Rightarrow> string \<Rightarrow> ynode \<Rightarrow> ynode" where
  "as_scalar k t v n = (case n of YNode _ st _ _ a al c cm \<Rightarrow> YNode k st t v a al c cm)"

primrec deep_copy :: "ynode \<Rightarrow> ynode" where
  "deep_copy (YNode k st t v a al c cm) = YNode k st t v a al (map deep_copy c) cm"

definition copy_shallow :: "ynode \<Rightarrow> ynode \<Rightarrow> ynode" where
  "copy_shallow d s = with_content (as_scalar (y_kind s) (y_tag s) (y_value s) d)
     (map deep_copy (y_content s))"

section \<open>Keys of a mapping\<close>

text \<open>The content of a mapping alternates keys and values.\<close>

fun find_key :: "ynode list \<Rightarrow> string \<Rightarrow> nat option" where
  "find_key (k # v # r) key =
     (if y_value k = key then Some 0 else map_option (\<lambda>i. i + 2) (find_key r key))"
| "find_key _ key = None"

definition find_map_key_index :: "ynode \<Rightarrow> string \<Rightarrow> nat option" where
  "find_map_key_index m key = (if y_kind m \<noteq> MappingNode then None else find_key (y_content m) key)"

fun remove_pair :: "ynode list \<Rightarrow> string \<Rightarrow> ynode list" where
  "remove_pair (k # v # r) key = (if y_value k = key then r else k # v # remove_pair r key)"
| "remove_pair c key = c"

definition remove_map_key :: "ynode \<Rightarrow> string \<Rightarrow> ynode" where
  "remove_map_key m key =
     (if y_kind m \<noteq> MappingNode \<or> key = [] then m
      else with_content m (remove_pair (y_content m) key))"

fun key_set :: "ynode list \<Rightarrow> string list" where
  "key_set (k # v # r) = (let key = trim_space (y_value k) in
     if key = [] then key_set r else key # key_set r)"
| "key_set _ = []"

fun keep_keys :: "string list \<Rightarrow> ynode list \<Rightarrow> ynode list" where
  "keep_keys ks (k # v # r) =
     (if trim_space (y_value k) \<in> set ks then k # v # keep_keys ks r else keep_keys ks r)"
| "keep_keys ks c = c"

definition prune_missing_map_keys :: "ynode \<Rightarrow> ynode \<Rightarrow> ynode" where
  "prune_missing_map_keys d s =
     (if y_kind d \<noteq> MappingNode \<or> y_kind s \<noteq> MappingNode then d
      else with_content d (keep_keys (key_set (y_content s)) (y_content d)))"

definition prune_mapping_to_generated_keys :: "ynode \<Rightarrow> ynode \<Rightarrow> string \<Rightarrow> ynode" where
  "prune_mapping_to_generated_keys d s key =
     (if key = [] \<or> y_kind d \<noteq> MappingNode \<or> y_kind s \<noteq> MappingNode then d
      else case find_map_key_index d key of
          None \<Rightarrow> d
        | Some di \<Rightarrow>
            (case find_map_key_index s key of
               None \<Rightarrow> remove_map_key d key
             | Some si \<Rightarrow>
                 (let sv = y_content s ! (si + 1); dv = y_content d ! (di + 1) in
                  with_content d ((y_content d)[di + 1 :=
                    (if y_kind sv \<noteq> MappingNode \<or> y_kind dv \<noteq> MappingNode then deep_copy sv
                     else prune_missing_map_keys dv sv)]))))"

section \<open>Elements of a sequence\<close>

fun scalar_under :: "string \<Rightarrow> ynode list \<Rightarrow> string" where
  "scalar_under key (k # v # r) =
     (if y_kind v = ScalarNode \<and> norm_key (y_value k) = key then trim_space (y_value v)
      else scalar_under key r)"
| "scalar_under key _ = []"

definition mapping_scalar_value :: "ynode \<Rightarrow> string \<Rightarrow> string" where
  "mapping_scalar_value n key =
     (if y_kind n \<noteq> MappingNode then []
      else scalar_under (to_lower key) (y_content n))"

definition identity_keys :: "string list" where
  "identity_keys = [''id'', ''name'', ''alias'', ''api-key'', ''api_key'', ''apikey'', ''key'',
     ''provider'', ''model'']"

fun first_scalar :: "ynode list \<Rightarrow> string" where
  "first_scalar (k # v # r) =
     (if y_kind v = ScalarNode \<and> trim_space (y_value v) \<noteq> []
      then norm_key (y_value k) @ ''='' @ trim_space (y_value v)
      else first_scalar r)"
| "first_scalar _ = []"

fun known_identity :: "ynode \<Rightarrow> string list \<Rightarrow> string option" where
  "known_identity n [] = None"
| "known_identity n (k # ks) = (let v = mapping_scalar_value n k in
     if v \<noteq> [] then Some (k @ ''='' @ v) else known_identity n ks)"

definition sequence_element_identity :: "ynode \<Rightarrow> string" where
  "sequence_element_identity n =
     (if y_kind n \<noteq> MappingNode then []
      else case known_identity n identity_keys of
        Some i \<Rightarrow> i | None \<Rightarrow> first_scalar (y_content n))"

fun nodes_equal :: "ynode \<Rightarrow> ynode \<Rightarrow> bool"
  and pairs_equal :: "ynode list \<Rightarrow> ynode list \<Rightarrow> bool"
  and items_equal :: "ynode list \<Rightarrow> ynode list \<Rightarrow> bool" where
  "nodes_equal (YNode k _ _ v _ al c _) b =
     (if k \<noteq> y_kind b then False
      else case k of
          MappingNode \<Rightarrow> length c = length (y_content b) \<and> pairs_equal c (y_content b)
        | SequenceNode \<Rightarrow> length c = length (y_content b) \<and> items_equal c (y_content b)
        | AliasNode \<Rightarrow> (case (al, y_alias b) of
              (Some x, Some y) \<Rightarrow> nodes_equal x y | (None, None) \<Rightarrow> True | _ \<Rightarrow> False)
        | _ \<Rightarrow> trim_space v = trim_space (y_value b))"
| "pairs_equal (k # v # r) (k' # v' # r') =
     (nodes_equal k k' \<and> nodes_equal v v' \<and> pairs_equal r r')"
| "pairs_equal _ _ = True"
| "items_equal (x # r) (y # r') = (nodes_equal x y \<and> items_equal r r')"
| "items_equal _ _ = True"

fun first_free :: "(ynode \<Rightarrow> bool) \<Rightarrow> ynode list \<Rightarrow> bool list \<Rightarrow> nat option" where
  "first_free P (n # ns) (u # us) =
     (if \<not> u \<and> P n then Some 0 else map_option Suc (first_free P ns us))"
| "first_free P _ _ = None"

definition match_sequence_element :: "ynode list \<Rightarrow> bool list \<Rightarrow> ynode \<Rightarrow> nat option" where
  "match_sequence_element original used target =
     (case (case y_kind target of
          MappingNode \<Rightarrow> (let i = sequence_element_identity target in
            if i \<noteq> [] then first_free (\<lambda>n. y_kind n = MappingNode \<and> sequence_element_identity n = i)
              original used
            else None)
        | ScalarNode \<Rightarrow> (let v = trim_space (y_value target) in
            if v \<noteq> [] then first_free (\<lambda>n. y_kind n = ScalarNode \<and> trim_space (y_value n) = v)
              original used
            else None)
        | _ \<Rightarrow> None) of
        Some i \<Rightarrow> Some i
      | None \<Rightarrow> first_free (\<lambda>n. nodes_equal n target) original used)"

primrec ordered_matches :: "ynode list \<Rightarrow> bool list \<Rightarrow> ynode list \<Rightarrow> ynode option list" where
  "ordered_matches original used [] = []"
| "ordered_matches original used (t # ts) =
     (case match_sequence_element original used t of
        Some i \<Rightarrow> Some (original ! i) # ordered_matches original (used[i := True]) ts
      | None \<Rightarrow> None # ordered_matches original used ts)"

definition reorder_sequence :: "ynode list \<Rightarrow> ynode list \<Rightarrow> ynode option list" where
  "reorder_sequence d s =
     (if d = [] \<or> s = [] then map Some d
      else ordered_matches d (replicate (length d) False) s)"

section \<open>Merging\<close>

definition is_empty_collection :: "ynode \<Rightarrow> bool" where
  "is_empty_collection n = (case y_kind n of
     SequenceNode \<Rightarrow> y_content n = [] | ScalarNode \<Rightarrow> y_tag n = ''!!null'' | _ \<Rightarrow> False)"

definition skip_empty_collection :: "string \<Rightarrow> ynode \<Rightarrow> bool" where
  "skip_empty_collection key n =
     (key \<in> set [''generative-language-api-key'', ''gemini-api-key'', ''vertex-api-key'',
        ''claude-api-key'', ''codex-api-key'', ''openai-compatibility'']
      \<and> is_empty_collection n)"

function (sequential) merge_node :: "ynode \<Rightarrow> ynode \<Rightarrow> ynode"
  and merge_pairs :: "ynode list \<Rightarrow> ynode list \<Rightarrow> ynode list"
  and merge_items :: "ynode option list \<Rightarrow> ynode list \<Rightarrow> ynode list" where
  "merge_node d (YNode k st t v a al c cm) = (case k of
       MappingNode \<Rightarrow>
         (let d' = (if y_kind d \<noteq> MappingNode then copy_shallow d (YNode k st t v a al c cm) else d)
          in with_content d' (merge_pairs (y_content d') c))
     | SequenceNode \<Rightarrow>
         (if y_kind d = ScalarNode \<and> y_tag d = ''!!null'' \<and> c = [] then d
          else let d' = (if y_kind d \<noteq> SequenceNode
                         then with_content (as_collection SequenceNode ''!!seq'' d) [] else d)
            in with_content d' (merge_items (reorder_sequence (y_content d') c) c))
     | ScalarNode \<Rightarrow> as_scalar k t v d
     | AliasNode \<Rightarrow> as_scalar k t v d
     | NoKind \<Rightarrow> d
     | DocumentNode \<Rightarrow> copy_shallow d (YNode k st t v a al c cm))"
| "merge_pairs d (sk # sv # r) =
     merge_pairs (case find_key d (y_value sk) of
         Some i \<Rightarrow> d[i + 1 := merge_node (d ! (i + 1)) sv]
       | None \<Rightarrow> if skip_empty_collection (y_value sk) sv then d
                 else d @ [deep_copy sk, deep_copy sv]) r"
| "merge_pairs d _ = d"
| "merge_items (x # ds) (s # ss) = (case x of
       None \<Rightarrow> deep_copy s
     | Some d \<Rightarrow> (let m = merge_node d s in
         if y_kind m = MappingNode \<and> y_kind s = MappingNode then prune_missing_map_keys m s else m))
     # merge_items ds ss"
| "merge_items [] ss = map deep_copy ss"
| "merge_items ds [] = []"
  by pat_completeness auto
termination by size_change

definition merge_mapping :: "ynode \<Rightarrow> ynode \<Rightarrow> ynode" where
  "merge_mapping d s =
     (if y_kind d \<noteq> MappingNode \<or> y_kind s \<noteq> MappingNode then copy_shallow d s
      else with_content d (merge_pairs (y_content d) (y_content s)))"


section \<open>Styles, comments and nested scalars\<close>

primrec normalize_styles :: "ynode \<Rightarrow> ynode" where
  "normalize_styles (YNode k st t v a al c cm) =
     (let c' = map normalize_styles c in
      case k of
        MappingNode \<Rightarrow> YNode k PlainStyle t v a al c' cm
      | SequenceNode \<Rightarrow> YNode k (if c = [] then FlowStyle else PlainStyle) t v a al c' cm
      | _ \<Rightarrow> YNode k st t v a al c cm)"

primrec split_newlines :: "string \<Rightarrow> string list" where
  "split_newlines [] = [[]]"
| "split_newlines (c # cs) =
     (if c = CHR ''\<newline>'' then [] # split_newlines cs
      else (c # hd (split_newlines cs)) # tl (split_newlines cs))"

fun join_newlines :: "string list \<Rightarrow> string" where
  "join_newlines [] = []"
| "join_newlines [l] = l"
| "join_newlines (l # ls) = l @ CHR ''\<newline>'' # join_newlines ls"

definition is_blank :: "char \<Rightarrow> bool" where
  "is_blank c = (c = CHR '' '' \<or> c = CHR 0x09)"

definition dedent_comment :: "string \<Rightarrow> string" where
  "dedent_comment line =
     (let t = dropWhile is_blank line in
      if t = [] \<or> hd t \<noteq> CHR ''#'' then line else t)"

definition normalize_comment_indentation :: "string \<Rightarrow> string" where
  "normalize_comment_indentation data = join_newlines (map dedent_comment (split_newlines data))"

text \<open>The write-back: \<open>original\<close> and \<open>generated\<close> are the documents that the library reads from the
  file and from the settings it has printed; \<open>print\<close> is the library's encoder.\<close>

definition root_mapping :: "ynode \<Rightarrow> ynode option" where
  "root_mapping doc = (case y_content doc of
     r # _ \<Rightarrow> if y_kind doc = DocumentNode \<and> y_kind r = MappingNode then Some r else None
   | [] \<Rightarrow> None)"

definition merge_settings :: "ynode \<Rightarrow> ynode \<Rightarrow> ynode" where
  "merge_settings original generated =
     normalize_styles (merge_mapping
       (prune_mapping_to_generated_keys original generated ''oauth-excluded-models'') generated)"

definition save_config :: "(ynode \<Rightarrow> string option) \<Rightarrow> ynode option \<Rightarrow> ynode option \<Rightarrow> string option" where
  "save_config print original generated =
     (case (original, generated) of
        (Some od, Some gd) \<Rightarrow>
          (case (root_mapping od, root_mapping gd) of
             (Some r, Some g) \<Rightarrow>
               map_option normalize_comment_indentation
                 (print (with_content od ((y_content od)[0 := merge_settings r g])))
           | _ \<Rightarrow> None)
      | _ \<Rightarrow> None)"

definition get_or_create_map_value :: "ynode \<Rightarrow> string \<Rightarrow> ynode \<times> nat" where
  "get_or_create_map_value m key =
     (let m' = (if y_kind m \<noteq> MappingNode
                then with_content (as_collection MappingNode ''!!map'' m) [] else m)
      in case find_key (y_content m') key of
          Some i \<Rightarrow> (m', i + 1)
        | None \<Rightarrow> (with_content m' (y_content m' @ [y_scalar key, y_scalar []]),
                    length (y_content m') + 1))"

primrec set_nested_scalar :: "string list \<Rightarrow> string \<Rightarrow> ynode \<Rightarrow> ynode" where
  "set_nested_scalar [] value n = n"
| "set_nested_scalar (key # path) value n =
     (case get_or_create_map_value n key of (m, i) \<Rightarrow>
        (let v = y_content m ! i;
             v' = (if path = [] then as_scalar ScalarNode ''!!str'' value v
                   else set_nested_scalar path value
                     (if y_kind v \<noteq> MappingNode then as_collection MappingNode ''!!map'' v else v))
         in with_content m ((y_content m)[i := v'])))"

section \<open>What the settings read\<close>

fun pairs_of :: "'a list \<Rightarrow> ('a \<times> 'a) list" where
  "pairs_of (k # v # r) = (k, v) # pairs_of r"
| "pairs_of _ = []"

definition value_under :: "ynode list \<Rightarrow> string \<Rightarrow> ynode option" where
  "value_under c key = map_option (\<lambda>i. c ! (i + 1)) (find_key c key)"

lemma value_under_simps [simp]:
  "value_under (k # v # r) key = (if y_value k = key then Some v else value_under r key)"
  "value_under [x] key = None" "value_under [] key = None"
  by (auto simp: value_under_def option.map_comp o_def)

lemma find_key_bound: "find_key c key = Some i \<Longrightarrow> i + 1 < length c \<and> y_value (c ! i) = key"
  by (induction c key arbitrary: i rule: find_key.induct) (auto split: if_splits)

lemma find_key_even: "find_key c key = Some i \<Longrightarrow> even i"
  by (induction c key arbitrary: i rule: find_key.induct) (auto split: if_splits)


lemma value_under_map_of: "value_under c key = map_of (map (\<lambda>(k, v). (y_value k, v)) (pairs_of c)) key"
  by (induction c rule: pairs_of.induct) auto

definition keys_of :: "ynode list \<Rightarrow> string list" where
  "keys_of c = map (\<lambda>p. y_value (fst p)) (pairs_of c)"

lemma keys_of_simps [simp]:
  "keys_of (k # v # r) = y_value k # keys_of r" "keys_of [x] = []" "keys_of [] = []"
  by (simp_all add: keys_of_def)

lemma value_under_None: "value_under c key = None \<longleftrightarrow> key \<notin> set (keys_of c)"
  by (induction c rule: pairs_of.induct) auto

lemma find_key_None: "find_key c key = None \<longleftrightarrow> value_under c key = None"
  by (simp add: value_under_def)

lemma value_under_pair:
  "distinct (keys_of c) \<Longrightarrow> (k, v) \<in> set (pairs_of c) \<Longrightarrow> value_under c (y_value k) = Some v"
  by (induction c rule: pairs_of.induct) (force simp: keys_of_def)+

lemma pairs_of_append: "even (length c) \<Longrightarrow> pairs_of (c @ [k, v]) = pairs_of c @ [(k, v)]"
  by (induction c rule: pairs_of.induct) auto

lemma keys_of_append: "even (length c) \<Longrightarrow> keys_of (c @ [k, v]) = keys_of c @ [y_value k]"
  by (simp add: keys_of_def pairs_of_append)

lemma value_under_append:
  "even (length c) \<Longrightarrow> value_under (c @ [k, v]) key =
     (if value_under c key = None \<and> y_value k = key then Some v else value_under c key)"
  by (induction c rule: pairs_of.induct) auto

lemma update_value:
  assumes "find_key c key = Some i"
  shows "value_under (c[Suc i := x]) key' = (if key' = key then Some x else value_under c key')"
    and "map fst (pairs_of (c[Suc i := x])) = map fst (pairs_of c)"
  using assms by (induction c key arbitrary: i rule: find_key.induct) (auto split: if_splits)

lemma keys_of_fst: "keys_of c = map y_value (map fst (pairs_of c))"
  by (simp add: keys_of_def)

lemma keys_of_update: "find_key c key = Some i \<Longrightarrow> keys_of (c[Suc i := x]) = keys_of c"
  unfolding keys_of_fst by (simp add: update_value)

lemma value_in_content: "value_under c key = Some v \<Longrightarrow> v \<in> set c"
  by (induction c rule: pairs_of.induct) (auto split: if_splits)

fun even_maps :: "ynode \<Rightarrow> bool" where
  "even_maps (YNode k _ _ _ _ _ c _) =
     ((if k = MappingNode then even (length c) else True) \<and> list_all even_maps c)"

fun clean_settings :: "ynode \<Rightarrow> bool" where
  "clean_settings (YNode k _ _ _ _ _ c _) =
     ((k = MappingNode \<and> even (length c) \<and> distinct (keys_of c)
         \<and> list_all (\<lambda>key. trim_space key \<noteq> []) (keys_of c)
       \<or> k = SequenceNode \<or> k = ScalarNode)
      \<and> list_all clean_settings c)"

fun reads_as :: "ynode \<Rightarrow> ynode \<Rightarrow> bool"
  and reads_pairs :: "ynode list \<Rightarrow> ynode list \<Rightarrow> bool"
  and reads_items :: "ynode list \<Rightarrow> ynode list \<Rightarrow> bool" where
  "reads_as d (YNode k _ t v _ _ c _) = (case k of
       MappingNode \<Rightarrow> y_kind d = MappingNode \<and> reads_pairs (y_content d) c
     | SequenceNode \<Rightarrow>
         (c = [] \<and> y_kind d = ScalarNode \<and> y_tag d = ''!!null'')
         \<or> (y_kind d = SequenceNode \<and> reads_items (y_content d) c)
     | ScalarNode \<Rightarrow> y_kind d = ScalarNode \<and> y_tag d = t \<and> y_value d = v
     | _ \<Rightarrow> False)"
| "reads_pairs d (k # v # r) =
     ((case value_under d (y_value k) of
         Some w \<Rightarrow> reads_as w v | None \<Rightarrow> skip_empty_collection (y_value k) v)
      \<and> reads_pairs d r)"
| "reads_pairs d _ = True"
| "reads_items (d # ds) (s # ss) = (reads_as d s \<and> reads_items ds ss)"
| "reads_items ds ss = (ds = [] \<and> ss = [])"

lemma reads_pairs_iff:
  "reads_pairs d c \<longleftrightarrow> (\<forall>(k, v) \<in> set (pairs_of c).
     (case value_under d (y_value k) of
        Some w \<Rightarrow> reads_as w v | None \<Rightarrow> skip_empty_collection (y_value k) v))"
  by (induction c rule: pairs_of.induct) auto

lemma reads_items_iff: "reads_items d s \<longleftrightarrow> list_all2 reads_as d s"
  by (induction d s rule: list_induct2') auto

lemma deep_copy_id [simp]: "deep_copy n = n"
  by (induction n) (simp add: map_idI)

lemma deep_copy_list [simp]: "map deep_copy c = c"
  by (simp add: map_idI)

lemma pairs_in_content: "(k, v) \<in> set (pairs_of c) \<Longrightarrow> k \<in> set c \<and> v \<in> set c"
  by (induction c rule: pairs_of.induct) auto

lemma reads_as_refl: "clean_settings s \<Longrightarrow> reads_as s s"
proof (induction s)
  case (YNode k st t v a al c cm)
  show ?case
  proof (cases k)
    case MappingNode
    have "(a, b) \<in> set (pairs_of c) \<Longrightarrow> reads_as b b" for a b
      using YNode MappingNode pairs_in_content [of a b c] by (simp add: list_all_iff)
    then have "reads_pairs c c"
      unfolding reads_pairs_iff using YNode(3) MappingNode by (auto simp: value_under_pair)
    then show ?thesis using MappingNode by simp
  next
    case SequenceNode
    then show ?thesis using YNode
      by (auto simp: reads_items_iff list_all2_same list_all_iff)
  qed (use YNode in auto)
qed

lemma prune_reads:
  assumes "reads_as m s" "clean_settings s"
  shows "reads_as (prune_missing_map_keys m s) s"
proof (cases "y_kind m = MappingNode \<and> y_kind s = MappingNode")
  case True
  obtain k st t v a al c cm where s: "s = YNode k st t v a al c cm" by (cases s)
  have keep: "trim_space key \<in> set ks \<Longrightarrow> value_under (keep_keys ks d) key = value_under d key" for key ks d
    by (induction ks d rule: keep_keys.induct) auto
  have "key \<in> set (keys_of c) \<Longrightarrow> trim_space key \<noteq> [] \<Longrightarrow> trim_space key \<in> set (key_set c)" for key c
    by (induction c rule: key_set.induct) (auto simp: Let_def)
  then have in_set: "(k, v) \<in> set (pairs_of c) \<Longrightarrow> trim_space (y_value k) \<in> set (key_set c)" for k v
    using assms(2) True s by (force simp: keys_of_def list_all_iff)
  have "reads_pairs (keep_keys (key_set c) (y_content m)) c"
    using assms(1) s True in_set by (fastforce simp: reads_pairs_iff keep)
  then show ?thesis using True s
    by (cases m) (simp add: prune_missing_map_keys_def with_content_def)
qed (use assms in \<open>auto simp: prune_missing_map_keys_def\<close>)


section \<open>A merge writes the settings\<close>

lemma even_maps_content: "even_maps n \<Longrightarrow> y_kind n = MappingNode \<Longrightarrow> even (length (y_content n))"
  "even_maps n \<Longrightarrow> x \<in> set (y_content n) \<Longrightarrow> even_maps x"
  by (cases n, simp add: list_all_iff)+

lemma even_maps_clean: "clean_settings n \<Longrightarrow> even_maps n"
  by (induction n) (auto simp: list_all_iff)

lemma with_content_simps [simp]:
  "y_content (with_content n c) = c" "y_kind (with_content n c) = y_kind n"
  "y_comments (with_content n c) = y_comments n" "y_tag (with_content n c) = y_tag n"
  by (cases n, simp add: with_content_def)+

lemma as_collection_simps [simp]:
  "y_content (as_collection k t n) = y_content n" "y_kind (as_collection k t n) = k"
  "y_comments (as_collection k t n) = y_comments n"
  by (cases n, simp add: as_collection_def)+

lemma as_scalar_simps [simp]:
  "y_content (as_scalar k t v n) = y_content n" "y_kind (as_scalar k t v n) = k"
  "y_comments (as_scalar k t v n) = y_comments n" "y_tag (as_scalar k t v n) = t"
  "y_value (as_scalar k t v n) = v"
  by (cases n, simp add: as_scalar_def)+

lemma copy_shallow_simps [simp]:
  "y_content (copy_shallow d s) = y_content s" "y_kind (copy_shallow d s) = y_kind s"
  "y_comments (copy_shallow d s) = y_comments d"
  by (simp_all add: copy_shallow_def map_idI)

lemma even_maps_with:
  "even_maps (with_content n c) \<longleftrightarrow>
     (y_kind n = MappingNode \<longrightarrow> even (length c)) \<and> list_all even_maps c"
  by (cases n) (simp add: with_content_def)

lemma even_maps_as_scalar: "k \<noteq> MappingNode \<Longrightarrow> even_maps d \<Longrightarrow> even_maps (as_scalar k t v d)"
  by (cases d) (simp add: as_scalar_def)

lemma keep_keys_even: "even (length (keep_keys ks c)) = even (length c)"
  by (induction ks c rule: keep_keys.induct) auto

lemma keep_keys_set: "set (keep_keys ks c) \<subseteq> set c"
  by (induction ks c rule: keep_keys.induct) auto

lemma even_maps_prune: "even_maps m \<Longrightarrow> even_maps (prune_missing_map_keys m s)"
  using keep_keys_set even_maps_content
  by (fastforce simp: prune_missing_map_keys_def even_maps_with keep_keys_even list_all_iff)

definition clean_pairs :: "ynode list \<Rightarrow> bool" where
  "clean_pairs c \<longleftrightarrow> even (length c) \<and> distinct (keys_of c) \<and> list_all clean_settings c"

lemma clean_pairs_simps [simp]:
  "clean_pairs (k # v # r) \<longleftrightarrow> y_value k \<notin> set (keys_of r) \<and> clean_settings k \<and> clean_settings v
     \<and> clean_pairs r"
  "\<not> clean_pairs [x]" "clean_pairs []"
  by (auto simp: clean_pairs_def)

definition even_pairs :: "ynode list \<Rightarrow> bool" where
  "even_pairs c \<longleftrightarrow> even (length c) \<and> list_all even_maps c"

lemma ordered_matches_from:
  "Some n \<in> set (ordered_matches d used s) \<Longrightarrow> length used = length d \<Longrightarrow> n \<in> set d"
proof (induction s arbitrary: used)
  case (Cons t ts)
  have bound: "first_free P d used = Some i \<Longrightarrow> i < length d" for P i
    by (induction P d used arbitrary: i rule: first_free.induct) (auto split: if_splits)
  have "match_sequence_element d used t = Some i \<Longrightarrow> i < length d" for i
    by (auto simp: match_sequence_element_def Let_def split: option.splits ykind.splits if_splits
        intro: bound)
  then show ?case using Cons by (auto split: option.splits)
qed simp

lemma reorder_from: "Some n \<in> set (reorder_sequence d s) \<Longrightarrow> n \<in> set d"
  by (auto simp: reorder_sequence_def dest: ordered_matches_from split: if_splits)


lemma merge_pairs_step:
  assumes d: "even_pairs d" and sk: "clean_settings sk" and sv: "clean_settings sv"
    and rec: "\<And>i. find_key d (y_value sk) = Some i \<Longrightarrow> even_maps (d ! (i + 1)) \<Longrightarrow>
      reads_as (merge_node (d ! (i + 1)) sv) sv \<and> even_maps (merge_node (d ! (i + 1)) sv)"
    and d': "d' = (case find_key d (y_value sk) of
         Some i \<Rightarrow> d[i + 1 := merge_node (d ! (i + 1)) sv]
       | None \<Rightarrow> if skip_empty_collection (y_value sk) sv then d
                 else d @ [deep_copy sk, deep_copy sv])"
  shows "even_pairs d'"
    and "case value_under d' (y_value sk) of
           Some w \<Rightarrow> reads_as w sv | None \<Rightarrow> skip_empty_collection (y_value sk) sv"
    and "key \<noteq> y_value sk \<Longrightarrow> value_under d' key = value_under d key"
proof -
  have "even_pairs d' \<and> (case value_under d' (y_value sk) of
      Some w \<Rightarrow> reads_as w sv | None \<Rightarrow> skip_empty_collection (y_value sk) sv)
    \<and> (key \<noteq> y_value sk \<longrightarrow> value_under d' key = value_under d key)"
  proof (cases "find_key d (y_value sk)")
    case None
    moreover from None have "value_under d (y_value sk) = None" by (simp add: find_key_None)
    ultimately show ?thesis using d sk sv
      by (auto simp: d' even_pairs_def value_under_append even_maps_clean reads_as_refl)
  next
    case (Some i)
    then have "d ! Suc i \<in> set d" using find_key_bound by fastforce
    then have w: "reads_as (merge_node (d ! Suc i) sv) sv" "even_maps (merge_node (d ! Suc i) sv)"
      using d rec [OF Some] by (auto simp: even_pairs_def list_all_iff)
    then have "even_pairs d'"
      using d Some by (auto simp: d' even_pairs_def list_all_iff dest: subsetD [OF set_update_subset_insert])
    then show ?thesis using Some w by (simp add: d' update_value)
  qed
  then show "even_pairs d'"
    "case value_under d' (y_value sk) of
       Some w \<Rightarrow> reads_as w sv | None \<Rightarrow> skip_empty_collection (y_value sk) sv"
    "key \<noteq> y_value sk \<Longrightarrow> value_under d' key = value_under d key" by blast+
qed

lemma merge_writes:
  "clean_settings s \<Longrightarrow> even_maps d \<Longrightarrow> reads_as (merge_node d s) s \<and> even_maps (merge_node d s)"
  "clean_pairs sc \<Longrightarrow> even_pairs dc \<Longrightarrow> even_pairs (merge_pairs dc sc) \<and> reads_pairs (merge_pairs dc sc) sc
     \<and> (\<forall>key. key \<notin> set (keys_of sc) \<longrightarrow> value_under (merge_pairs dc sc) key = value_under dc key)"
  "list_all clean_settings ss \<Longrightarrow> (\<And>n. Some n \<in> set ds \<Longrightarrow> even_maps n) \<Longrightarrow>
     list_all2 reads_as (merge_items ds ss) ss \<and> list_all even_maps (merge_items ds ss)"
proof (induction d s and dc sc and ds ss rule: merge_node_merge_pairs_merge_items.induct)
  case (1 d k st t v a al c cm)
  let ?s = "YNode k st t v a al c cm"
  show ?case
  proof (cases k)
    case MappingNode
    let ?d = "if y_kind d \<noteq> MappingNode then copy_shallow d ?s else d"
    have c: "clean_pairs c" using 1(3) MappingNode by (auto simp: clean_pairs_def)
    have "even_pairs (y_content ?d)"
      using 1(4) c even_maps_clean by (auto simp: even_pairs_def clean_pairs_def list_all_iff even_maps_content)
    from 1(2) [OF MappingNode refl c this] MappingNode
    show ?thesis by (auto simp: even_pairs_def even_maps_with Let_def)
  next
    case SequenceNode
    let ?d = "if y_kind d \<noteq> SequenceNode then with_content (as_collection SequenceNode ''!!seq'' d) [] else d"
    have "Some n \<in> set (reorder_sequence (y_content ?d) c) \<Longrightarrow> even_maps n" for n
      using 1(4) by (auto dest!: reorder_from dest: even_maps_content(2) split: if_splits)
    then show ?thesis
      using 1(1) [OF SequenceNode _ refl] 1(3,4) SequenceNode
      by (auto simp: reads_items_iff even_maps_with Let_def)
  next
    case ScalarNode
    then show ?thesis using 1(4) by (simp add: even_maps_as_scalar)
  qed (use 1(3) in auto)
next
  case (2 d sk sv r)
  define d' where "d' = (case find_key d (y_value sk) of
         Some i \<Rightarrow> d[i + 1 := merge_node (d ! (i + 1)) sv]
       | None \<Rightarrow> if skip_empty_collection (y_value sk) sv then d
                 else d @ [deep_copy sk, deep_copy sv])"
  have p: "y_value sk \<notin> set (keys_of r)" "clean_settings sk" "clean_settings sv" "clean_pairs r"
    using 2(3) by auto
  have step: "even_pairs d'"
    "case value_under d' (y_value sk) of
       Some w \<Rightarrow> reads_as w sv | None \<Rightarrow> skip_empty_collection (y_value sk) sv"
    "\<And>key. key \<noteq> y_value sk \<Longrightarrow> value_under d' key = value_under d key"
    using merge_pairs_step [OF 2(4) p(2,3) 2(1) [OF _ p(3)] d'_def] by blast+
  from 2(2) [folded d'_def, OF p(4) step(1)] step p(1)
  show ?case by (auto simp: d'_def [symmetric])
next
  case (4 x ds s ss)
  have tail: "list_all2 reads_as (merge_items ds ss) ss \<and> list_all even_maps (merge_items ds ss)"
    using 4 by simp
  show ?case
  proof (cases x)
    case None
    then show ?thesis using tail 4(3) by (simp add: reads_as_refl even_maps_clean)
  next
    case (Some w)
    have "reads_as (merge_node w s) s \<and> even_maps (merge_node w s)"
      using 4(1,3,4) Some by simp
    then show ?thesis using tail Some 4(3) by (simp add: Let_def prune_reads even_maps_prune)
  qed
qed (auto simp: even_maps_clean list_all_iff reads_as_refl list_all2_same clean_pairs_def)


lemma remove_pair_value:
  "key' \<noteq> key \<Longrightarrow> value_under (remove_pair c key) key' = value_under c key'"
  "even (length (remove_pair c key)) = even (length c)"
  "set (remove_pair c key) \<subseteq> set c"
  by (induction c key rule: remove_pair.induct) auto

lemma prune_root:
  fixes key :: string
  assumes "even_maps r" "y_kind r = MappingNode" "clean_settings g" "y_kind g = MappingNode"
  defines "p \<equiv> prune_mapping_to_generated_keys r g key"
  shows "even_maps p \<and> y_kind p = MappingNode
    \<and> (\<forall>key'. key' \<noteq> key \<longrightarrow> value_under (y_content p) key' = value_under (y_content r) key')"
proof (cases "key = []")
  case False
  show ?thesis
  proof (cases "find_map_key_index r key")
    case None
    then show ?thesis using assms False by (simp add: prune_mapping_to_generated_keys_def)
  next
    case (Some di)
    then have find: "find_key (y_content r) key = Some di"
      using assms(2) by (simp add: find_map_key_index_def)
    note bound = find_key_bound [OF find]
    show ?thesis
    proof (cases "find_map_key_index g key")
      case None
      have "even_maps (remove_map_key r key)"
        using assms(1,2) remove_pair_value(3) [of "y_content r" key] even_maps_content [of r]
        by (auto simp: remove_map_key_def even_maps_with remove_pair_value(2) list_all_iff)
      moreover have "p = remove_map_key r key"
        using assms Some None False by (simp add: prune_mapping_to_generated_keys_def)
      ultimately show ?thesis using assms(2) False by (simp add: remove_map_key_def remove_pair_value)
    next
      case (Some si)
      then have "y_content g ! Suc si \<in> set (y_content g)"
        using assms(4) find_key_bound [of "y_content g" key si] by (simp add: find_map_key_index_def)
      then have sv: "even_maps (y_content g ! Suc si)"
        using even_maps_clean [OF assms(3)] even_maps_content(2) by blast
      have dv: "even_maps (y_content r ! Suc di)"
        by (rule even_maps_content(2) [OF assms(1)]) (use bound in simp)
      define x where "x = (if y_kind (y_content g ! Suc si) \<noteq> MappingNode
          \<or> y_kind (y_content r ! Suc di) \<noteq> MappingNode then y_content g ! Suc si
        else prune_missing_map_keys (y_content r ! Suc di) (y_content g ! Suc si))"
      have p: "p = with_content r ((y_content r)[Suc di := x])"
        using assms(2,4) False \<open>find_map_key_index r key = Some di\<close> Some
        by (simp add: p_def prune_mapping_to_generated_keys_def x_def)
      have ex: "even_maps x" using sv dv by (auto simp: x_def intro: even_maps_prune)
      have "\<forall>y \<in> set ((y_content r)[Suc di := x]). even_maps y"
        using ex assms(1) set_update_subset_insert [of "y_content r" "Suc di" x]
          even_maps_content(2) by blast
      then show ?thesis using assms(1,2) even_maps_content(1) [of r]
        by (simp add: p even_maps_with update_value(1) [OF find] list_all_iff)
    qed
  qed
qed (use assms in \<open>simp add: prune_mapping_to_generated_keys_def\<close>)

lemma normalize_keeps [simp]:
  "y_kind (normalize_styles n) = y_kind n" "y_tag (normalize_styles n) = y_tag n"
  "y_value (normalize_styles n) = y_value n" "y_comments (normalize_styles n) = y_comments n"
  by (cases n; cases "y_kind n"; simp add: Let_def)+

lemma normalize_content:
  "y_kind n = MappingNode \<or> y_kind n = SequenceNode \<Longrightarrow>
     y_content (normalize_styles n) = map normalize_styles (y_content n)"
  by (cases n) (auto simp: Let_def)

lemma value_under_normalize [simp]:
  "value_under (map normalize_styles c) key = map_option normalize_styles (value_under c key)"
  by (induction c rule: pairs_of.induct) auto

lemma normalize_reads:
  "reads_as d s \<Longrightarrow> reads_as (normalize_styles d) s"
  "reads_pairs dc sc \<Longrightarrow> reads_pairs (map normalize_styles dc) sc"
  "reads_items ds ss \<Longrightarrow> reads_items (map normalize_styles ds) ss"
proof (induction d s and dc sc and ds ss rule: reads_as_reads_pairs_reads_items.induct)
  case (1 d k st t v a al c cm)
  then show ?case by (cases k) (auto simp: normalize_content)
qed (auto split: option.splits)

lemma merge_mapping_clean:
  assumes "clean_settings g" "y_kind g = MappingNode" "even_maps r" "y_kind r = MappingNode"
  shows "reads_as (merge_mapping r g) g"
    and "key \<notin> set (keys_of (y_content g)) \<Longrightarrow>
           value_under (y_content (merge_mapping r g)) key = value_under (y_content r) key"
proof -
  obtain k st t v a al c cm where g: "g = YNode k st t v a al c cm" by (cases g)
  have "clean_pairs c" using assms(1,2) g by (auto simp: clean_pairs_def)
  moreover have "even_pairs (y_content r)"
    using assms(3,4) even_maps_content [of r] by (auto simp: even_pairs_def list_all_iff)
  ultimately have m: "reads_pairs (merge_pairs (y_content r) c) c
      \<and> (\<forall>key. key \<notin> set (keys_of c) \<longrightarrow> value_under (merge_pairs (y_content r) c) key
           = value_under (y_content r) key)"
    using merge_writes(2) by blast
  then show "reads_as (merge_mapping r g) g" using assms g by (simp add: merge_mapping_def)
  show "key \<notin> set (keys_of (y_content g)) \<Longrightarrow>
      value_under (y_content (merge_mapping r g)) key = value_under (y_content r) key"
    using m assms g by (simp add: merge_mapping_def)
qed


section \<open>Order, comments and indentation\<close>

lemma merge_comments: "y_comments (merge_node d s) = y_comments d"
  by (cases s; cases "y_kind s") (auto simp: Let_def)

lemma merge_pairs_keeps:
  assumes "even (length d)" "even (length s)"
  shows "even (length (merge_pairs d s))
    \<and> prefix (map fst (pairs_of d)) (map fst (pairs_of (merge_pairs d s)))
    \<and> (\<forall>key v. value_under d key = Some v \<longrightarrow>
         (\<exists>w. value_under (merge_pairs d s) key = Some w \<and> y_comments w = y_comments v))"
  using assms
proof (induction s arbitrary: d rule: pairs_of.induct)
  case (1 sk sv r)
  define d' where "d' = (case find_key d (y_value sk) of
         Some i \<Rightarrow> d[i + 1 := merge_node (d ! (i + 1)) sv]
       | None \<Rightarrow> if skip_empty_collection (y_value sk) sv then d
                 else d @ [deep_copy sk, deep_copy sv])"
  have one: "even (length d') \<and> prefix (map fst (pairs_of d)) (map fst (pairs_of d'))
    \<and> (\<forall>key v. value_under d key = Some v \<longrightarrow>
         (\<exists>w. value_under d' key = Some w \<and> y_comments w = y_comments v))"
  proof (cases "find_key d (y_value sk)")
    case None
    then show ?thesis using 1(2)
      by (simp add: d'_def pairs_of_append value_under_append)
  next
    case (Some i)
    then have "value_under d (y_value sk) = Some (d ! Suc i)" by (simp add: value_under_def)
    then show ?thesis using 1(2) Some
      by (auto simp: d'_def update_value [OF Some] merge_comments)
  qed
  have m: "merge_pairs d (sk # sv # r) = merge_pairs d' r" by (simp add: d'_def)
  have rest: "even (length (merge_pairs d' r)) \<and> prefix (map fst (pairs_of d')) (map fst (pairs_of (merge_pairs d' r)))
    \<and> (\<forall>key v. value_under d' key = Some v \<longrightarrow>
         (\<exists>w. value_under (merge_pairs d' r) key = Some w \<and> y_comments w = y_comments v))"
    using 1(1) [of d'] 1(3) one by simp
  show ?case unfolding m
  proof (intro conjI allI impI)
    show "prefix (map fst (pairs_of d)) (map fst (pairs_of (merge_pairs d' r)))"
      using one rest prefix_order.trans by blast
    fix key v assume "value_under d key = Some v"
    with one obtain u where "value_under d' key = Some u" "y_comments u = y_comments v" by blast
    with rest show "\<exists>w. value_under (merge_pairs d' r) key = Some w \<and> y_comments w = y_comments v"
      by fastforce
  qed (use rest in blast)
qed auto

lemma split_newlines_ne [simp]: "split_newlines s \<noteq> []"
  by (cases s) auto

lemma join_split: "join_newlines (split_newlines s) = s"
proof (induction s)
  case (Cons c cs)
  obtain l ls where ls: "split_newlines cs = l # ls" by (cases "split_newlines cs") auto
  then show ?case using Cons by (cases ls) auto
qed simp

lemma split_join:
  "ls \<noteq> [] \<Longrightarrow> list_all (\<lambda>l. CHR ''\<newline>'' \<notin> set l) ls \<Longrightarrow> split_newlines (join_newlines ls) = ls"
proof (induction ls rule: join_newlines.induct)
  case (2 l)
  then show ?case by (induction l) auto
next
  case (3 l l' ls)
  have "CHR ''\<newline>'' \<notin> set l \<Longrightarrow> split_newlines (l @ CHR ''\<newline>'' # t) = l # split_newlines t" for t
    by (induction l) auto
  then show ?case using 3 by simp
qed simp

lemma split_no_newline: "list_all (\<lambda>l. CHR ''\<newline>'' \<notin> set l) (split_newlines s)"
proof (induction s)
  case (Cons c cs)
  then show ?case by (cases "split_newlines cs") auto
qed simp

lemma dedent_twice [simp]: "dedent_comment (dedent_comment l) = dedent_comment l"
proof (cases "dropWhile is_blank l = [] \<or> hd (dropWhile is_blank l) \<noteq> CHR ''#''")
  case False
  then have "dedent_comment l = dropWhile is_blank l" by (auto simp: dedent_comment_def)
  moreover have "dedent_comment (dropWhile is_blank l) = dropWhile is_blank l"
    by (simp add: dedent_comment_def)
  ultimately show ?thesis by simp
qed (simp add: dedent_comment_def)

lemma set_dedent: "set (dedent_comment l) \<subseteq> set l"
  by (auto simp: dedent_comment_def Let_def dest: set_dropWhileD)

lemma split_normalized:
  "split_newlines (normalize_comment_indentation s) = map dedent_comment (split_newlines s)"
proof -
  have "list_all (\<lambda>l. CHR ''\<newline>'' \<notin> set l) (map dedent_comment (split_newlines s))"
    using split_no_newline [of s] by (auto simp: list_all_iff dest: subsetD [OF set_dedent])
  then show ?thesis unfolding normalize_comment_indentation_def by (rule split_join [rotated]) simp
qed


primrec value_at :: "string list \<Rightarrow> ynode \<Rightarrow> ynode option" where
  "value_at [] n = Some n"
| "value_at (key # path) n =
     (if y_kind n \<noteq> MappingNode then None
      else case value_under (y_content n) key of None \<Rightarrow> None | Some v \<Rightarrow> value_at path v)"

fun even_contents :: "ynode \<Rightarrow> bool" where
  "even_contents (YNode _ _ _ _ _ _ c _) = (even (length c) \<and> list_all even_contents c)"

lemma get_or_create:
  assumes "even_contents n" and get: "get_or_create_map_value n key = (m, i)"
  shows "y_kind m = MappingNode" and "even_contents (y_content m ! i)"
    and "value_under ((y_content m)[i := x]) key = Some x"
proof -
  let ?n = "if y_kind n \<noteq> MappingNode then with_content (as_collection MappingNode ''!!map'' n) [] else n"
  have c: "even (length (y_content ?n))" "list_all even_contents (y_content ?n)"
    using assms(1) by (cases n; simp)+
  have "y_kind m = MappingNode \<and> even_contents (y_content m ! i)
    \<and> value_under ((y_content m)[i := x]) key = Some x"
  proof (cases "find_key (y_content ?n) key")
    case None
    then have "value_under (y_content ?n) key = None" by (simp add: find_key_None)
    then have "value_under (y_content ?n @ [y_scalar key, x]) key = Some x"
      using c by (subst value_under_append) (simp_all add: y_scalar_def)
    moreover have "m = with_content ?n (y_content ?n @ [y_scalar key, y_scalar []])"
      "i = Suc (length (y_content ?n))"
      using get None by (auto simp: get_or_create_map_value_def Let_def split: option.splits)
    ultimately show ?thesis by (simp add: nth_append list_update_append y_scalar_def)
  next
    case (Some j)
    have m: "m = ?n" "i = Suc j"
      using get Some by (auto simp: get_or_create_map_value_def Let_def split: option.splits)
    moreover have "y_content ?n ! Suc j \<in> set (y_content ?n)" using find_key_bound [OF Some] by simp
    ultimately show ?thesis using c Some by (auto simp: list_all_iff update_value split: if_splits)
  qed
  then show "y_kind m = MappingNode" "even_contents (y_content m ! i)"
    "value_under ((y_content m)[i := x]) key = Some x" by blast+
qed

lemma even_contents_as_collection: "even_contents v \<Longrightarrow> even_contents (as_collection k t v)"
  by (cases v) (simp add: as_collection_def)

section \<open>Properties\<close>



text \<open>
  What the settings no longer have stays in the file. Outside the excluded models, a key of the
  file's top level that is missing in the printed settings, as one whose value became empty and is
  not printed, keeps the value it had, up to the styles. So the value is back when the file is read.
\<close>
theorem removed_settings_stay:
  assumes "clean_settings g" "y_kind g = MappingNode" "even_maps r" "y_kind r = MappingNode"
    "key \<notin> set (keys_of (y_content g))" "key \<noteq> ''oauth-excluded-models''"
  shows "value_under (y_content (merge_settings r g)) key
    = map_option normalize_styles (value_under (y_content r) key)"
proof -
  let ?p = "prune_mapping_to_generated_keys r g ''oauth-excluded-models''"
  have p: "even_maps ?p" "y_kind ?p = MappingNode"
    "value_under (y_content ?p) key = value_under (y_content r) key"
    using prune_root assms by blast+
  moreover have "y_kind (merge_mapping ?p g) = MappingNode"
    using p assms(2) by (simp add: merge_mapping_def)
  ultimately show ?thesis
    unfolding merge_settings_def using merge_mapping_clean(2) [OF assms(1,2) p(1,2) assms(5)]
    by (simp add: normalize_content)
qed

theorem removed_settings_stay_witness:
  "let m = (\<lambda>c. YNode MappingNode PlainStyle ''!!map'' [] [] None c []);
       r = m [y_scalar ''routing'', y_scalar ''old''];
       g = m [y_scalar ''debug'', y_scalar ''false'']
   in value_under (y_content (merge_settings r g)) ''routing'' = Some (y_scalar ''old'')"
  unfolding Let_def
  by (subst removed_settings_stay) (simp_all add: y_scalar_def trim_space_def is_space_def)

text \<open>
  The keys of the file keep their place and their comments, new keys come after them, and the
  value under a key keeps the comments it has.
\<close>
theorem file_order_and_comments_kept:
  assumes "even_maps d" "y_kind d = MappingNode" "even_maps s" "y_kind s = MappingNode"
  shows "prefix (map fst (pairs_of (y_content d))) (map fst (pairs_of (y_content (merge_mapping d s))))
    \<and> (\<forall>key v. value_under (y_content d) key = Some v \<longrightarrow>
         (\<exists>w. value_under (y_content (merge_mapping d s)) key = Some w \<and> y_comments w = y_comments v))"
  using merge_pairs_keeps [of "y_content d" "y_content s"] assms
  by (simp add: merge_mapping_def even_maps_content)

theorem file_order_and_comments_kept_witness:
  "let m = (\<lambda>c. YNode MappingNode PlainStyle ''!!map'' [] [] None c []);
       d = m [y_scalar ''port'', y_scalar ''1''];
       s = m [y_scalar ''debug'', y_scalar ''false'']
   in prefix (map fst (pairs_of (y_content d))) (map fst (pairs_of (y_content (merge_mapping d s))))"
  unfolding Let_def
  by (rule conjunct1 [OF file_order_and_comments_kept]) (simp_all add: y_scalar_def)

text \<open>
  Taking the indentation off the comments once is enough, and changes no line whose first
  visible character is not a hash sign. It does change such a line of a block of text.
\<close>
theorem comments_dedented_once:
  "normalize_comment_indentation (normalize_comment_indentation data) = normalize_comment_indentation data
   \<and> length (split_newlines (normalize_comment_indentation data)) = length (split_newlines data)
   \<and> (\<forall>l. dedent_comment l = l \<or> (\<exists>w r. l = w @ CHR ''#'' # r \<and> dedent_comment l = CHR ''#'' # r
        \<and> list_all is_blank w))"
proof (intro conjI allI)
  show "normalize_comment_indentation (normalize_comment_indentation data)
    = normalize_comment_indentation data"
    unfolding normalize_comment_indentation_def [of "normalize_comment_indentation data"] split_normalized
    by (simp add: o_def normalize_comment_indentation_def [symmetric])
  fix l
  show "dedent_comment l = l \<or> (\<exists>w r. l = w @ CHR ''#'' # r \<and> dedent_comment l = CHR ''#'' # r
      \<and> list_all is_blank w)"
  proof (cases "dedent_comment l = l")
    case False
    then obtain r where "dropWhile is_blank l = CHR ''#'' # r" "dedent_comment l = CHR ''#'' # r"
    by (cases "dropWhile is_blank l") (auto simp: dedent_comment_def split: if_splits)
    then have "l = takeWhile is_blank l @ CHR ''#'' # r \<and> dedent_comment l = CHR ''#'' # r
        \<and> list_all is_blank (takeWhile is_blank l)"
      by (metis list_all_iff set_takeWhileD takeWhile_dropWhile_id)
    then show ?thesis by blast
  qed simp
qed (simp add: split_normalized)


text \<open>
  A value set under a path of keys is read back under that path, whatever nodes the path meets,
  if the nodes of the file have even contents.
\<close>
theorem nested_scalar_read_back:
  assumes "path \<noteq> []" "even_contents n"
  shows "\<exists>v. value_at path (set_nested_scalar path value n) = Some v
    \<and> y_kind v = ScalarNode \<and> y_value v = value"
  using assms
proof (induction path arbitrary: n)
  case (Cons key path)
  obtain m i where g: "get_or_create_map_value n key = (m, i)" by fastforce
  let ?v = "y_content m ! i"
  note get = get_or_create [OF Cons(3) g]
  show ?case
  proof (cases "path = []")
    case True
    then show ?thesis using get by (simp add: g Let_def)
  next
    case False
    let ?v' = "if y_kind ?v \<noteq> MappingNode then as_collection MappingNode ''!!map'' ?v else ?v"
    have "even_contents ?v'" using get(2) by (simp add: even_contents_as_collection)
    from Cons(1) [OF False this] False get show ?thesis by (simp add: g Let_def)
  qed
qed simp

theorem nested_scalar_read_back_witness:
  "\<exists>v. value_at [''a'', ''b''] (set_nested_scalar [''a'', ''b''] ''x'' (y_scalar [])) = Some v
    \<and> y_kind v = ScalarNode \<and> y_value v = ''x''"
  by (rule nested_scalar_read_back) (simp_all add: y_scalar_def)

text \<open>
  A list on the path whose number of elements is odd swallows the value: the node is made a
  mapping, its elements stay, and the new key becomes the value of the last element.
\<close>
theorem odd_list_swallows_value:
  "value_at [''a'', ''b''] (set_nested_scalar [''a'', ''b''] ''x''
     (YNode MappingNode PlainStyle ''!!map'' [] [] None
       [y_scalar ''a'', YNode SequenceNode PlainStyle ''!!seq'' [] [] None [y_scalar ''e''] []] [])) = None"
  by code_simp

end
