(* ===== verification/ConfigFile.thy ===== *)
theory ConfigFile
  imports Execution JsonValue YamlMerge
begin

text \<open>
  The settings (\<open>config/config.go\<close>, \<open>provider.go\<close>): their types, the defaults, the loader with
  its normalisations, the routing of model names, and the providers with their validation. The file
  system and the YAML decoder are arguments. A nil slice or map and an empty one are both the empty
  list here; the code tells them apart nowhere in this part.
\<close>

section \<open>Types\<close>

record access_provider =
  ap_name :: string
  ap_type :: string
  ap_sdk :: string
  ap_keys :: "string list"
  ap_config :: jobj

record provider_key =
  pk_key :: string
  pk_proxy_url :: string

record provider_model =
  pm_name :: string
  pm_alias :: string

record provider_entry =
  pe_type :: string
  pe_name :: string
  pe_enabled :: "bool option"
  pe_api_key :: string
  pe_api_keys :: "provider_key list"
  pe_base_url :: string
  pe_proxy_url :: string
  pe_headers :: "(string, string) gomap"
  pe_models :: "provider_model list"
  pe_excluded_models :: "string list"

record vertex_compat_key =
  vk_api_key :: string
  vk_base_url :: string
  vk_proxy_url :: string
  vk_headers :: "(string, string) gomap"
  vk_models :: "provider_model list"

record tls_config =
  tls_enable :: bool
  tls_cert :: string
  tls_key :: string

record quota_exceeded_config =
  qx_switch_project :: bool
  qx_switch_preview_model :: bool

record usage_config =
  us_dsn :: string
  us_batch_size :: int
  us_flush_interval :: string
  us_retention_days :: int

record amp_code =
  amp_upstream_url :: string
  amp_upstream_api_key :: string
  amp_restrict_management :: bool
  amp_model_mappings :: "(string \<times> string) list"

record payload_rule =
  pr_models :: "(string \<times> string) list"
  pr_params :: jobj

record routing_profile =
  rp_primary :: string
  rp_fallbacks :: "string list"

record routing_policy =
  rpo_enabled :: bool
  rpo_downgrade_model :: string
  rpo_expensive_patterns :: "string list"
  rpo_max_expensive_calls :: int
  rpo_max_cost :: rat
  rpo_pricing :: "(string, rat \<times> rat) gomap"

record routing_config =
  rc_provider_priority :: "(string, int) gomap"
  rc_aliases :: "(string, string) gomap"
  rc_fallbacks :: "(string, string list) gomap"
  rc_profiles :: "(string, routing_profile) gomap"
  rc_policy :: routing_policy
  rc_canonical_only :: bool
  rc_canonical_source :: string
  rc_canonical_include :: "string list"
  rc_hide_provider_models :: bool
  rc_has_aliases :: bool
  rc_has_fallbacks :: bool
  rc_has_profiles :: bool
  rc_has_priority :: bool
  rc_has_canonical_allow :: bool
  rc_canonical_allow :: "string list"
  rc_profile_index :: "(string, routing_profile) gomap"

record sdk_config =
  cf_proxy_url :: string
  cf_request_log :: bool
  cf_api_keys :: "string list"
  cf_access_providers :: "access_provider list"
  cf_show_provider_prefixes :: bool

record config = sdk_config +
  cf_port :: int
  cf_tls :: tls_config
  cf_allow_remote :: bool
  cf_auth_dir :: string
  cf_debug :: bool
  cf_logging_to_file :: bool
  cf_usage :: usage_config
  cf_disable_cooling :: bool
  cf_request_retry :: int
  cf_max_retry_interval :: int
  cf_stream_timeout :: int
  cf_quota_window :: int
  cf_quota_exceeded :: quota_exceeded_config
  cf_ws_auth :: bool
  cf_disable_auth :: bool
  cf_providers :: "provider_entry list"
  cf_vertex_keys :: "vertex_compat_key list"
  cf_amp_code :: amp_code
  cf_oauth_excluded :: "(string, string list) gomap"
  cf_payload_default :: "payload_rule list"
  cf_payload_override :: "payload_rule list"
  cf_routing :: routing_config
  cf_canonical_translator :: bool
  cf_max_request_size :: int
  cf_max_response_size :: int

definition no_policy :: routing_policy where
  "no_policy = \<lparr>rpo_enabled = False, rpo_downgrade_model = [], rpo_expensive_patterns = [],
     rpo_max_expensive_calls = 0, rpo_max_cost = 0, rpo_pricing = []\<rparr>"

definition no_routing :: routing_config where
  "no_routing = \<lparr>rc_provider_priority = [], rc_aliases = [], rc_fallbacks = [], rc_profiles = [],
     rc_policy = no_policy, rc_canonical_only = False, rc_canonical_source = [],
     rc_canonical_include = [], rc_hide_provider_models = False, rc_has_aliases = False,
     rc_has_fallbacks = False, rc_has_profiles = False, rc_has_priority = False,
     rc_has_canonical_allow = False, rc_canonical_allow = [], rc_profile_index = []\<rparr>"

definition new_default_config :: config where
  "new_default_config = \<lparr>cf_proxy_url = [], cf_request_log = False, cf_api_keys = [],
     cf_access_providers = [], cf_show_provider_prefixes = False,
     cf_port = 8317, cf_tls = \<lparr>tls_enable = False, tls_cert = [], tls_key = []\<rparr>,
     cf_allow_remote = False, cf_auth_dir = ''$XDG_CONFIG_HOME/llm-mux/auth'', cf_debug = False,
     cf_logging_to_file = False,
     cf_usage = \<lparr>us_dsn = [], us_batch_size = 100, us_flush_interval = ''5s'', us_retention_days = 30\<rparr>,
     cf_disable_cooling = False, cf_request_retry = 3, cf_max_retry_interval = 30,
     cf_stream_timeout = 600, cf_quota_window = 300,
     cf_quota_exceeded = \<lparr>qx_switch_project = True, qx_switch_preview_model = True\<rparr>,
     cf_ws_auth = False, cf_disable_auth = True, cf_providers = [], cf_vertex_keys = [],
     cf_amp_code = \<lparr>amp_upstream_url = [], amp_upstream_api_key = [], amp_restrict_management = True,
       amp_model_mappings = []\<rparr>,
     cf_oauth_excluded = [], cf_payload_default = [], cf_payload_override = [],
     cf_routing = no_routing, cf_canonical_translator = True,
     cf_max_request_size = 50 * 1024 * 1024, cf_max_response_size = 100 * 1024 * 1024\<rparr>"

definition zero_config :: config where
  "zero_config = new_default_config\<lparr>cf_port := 0, cf_auth_dir := [],
     cf_usage := \<lparr>us_dsn = [], us_batch_size = 0, us_flush_interval = [], us_retention_days = 0\<rparr>,
     cf_request_retry := 0, cf_max_retry_interval := 0, cf_stream_timeout := 0, cf_quota_window := 0,
     cf_quota_exceeded := \<lparr>qx_switch_project = False, qx_switch_preview_model = False\<rparr>,
     cf_disable_auth := False,
     cf_amp_code := \<lparr>amp_upstream_url = [], amp_upstream_api_key = [], amp_restrict_management = False,
       amp_model_mappings = []\<rparr>,
     cf_canonical_translator := False, cf_max_request_size := 0, cf_max_response_size := 0\<rparr>"

section \<open>Routing of model names\<close>

definition index_profile :: "string \<times> routing_profile \<Rightarrow> (string, routing_profile) gomap
    \<Rightarrow> (string, routing_profile) gomap" where
  "index_profile np index = (case np of (name, p) \<Rightarrow>
     let name' = trim_space name; primary = trim_space (rp_primary p) in
     if name' = [] \<or> primary = [] then index
     else mput name' \<lparr>rp_primary = primary,
       rp_fallbacks = filter (\<lambda>f. f \<noteq> []) (map trim_space (rp_fallbacks p))\<rparr> index)"

definition normalize_profiles :: "routing_config \<Rightarrow> routing_config" where
  "normalize_profiles r =
     (if rc_profiles r = [] then r\<lparr>rc_profile_index := [], rc_has_profiles := False\<rparr>
      else let index = fold index_profile (rc_profiles r) [] in
        r\<lparr>rc_profile_index := index, rc_has_profiles := index \<noteq> []\<rparr>)"

definition routing_init :: "routing_config \<Rightarrow> routing_config" where
  "routing_init r0 =
     (let r = normalize_profiles r0;
          allow = remdups (filter (\<lambda>i. i \<noteq> []) (map trim_space (rc_canonical_include r)))
      in r\<lparr>rc_has_aliases := rc_aliases r \<noteq> [], rc_has_fallbacks := rc_fallbacks r \<noteq> [],
           rc_has_priority := rc_provider_priority r \<noteq> [],
           rc_canonical_source := (if trim_space (rc_canonical_source r) = [] then ''aliases''
                                   else rc_canonical_source r),
           rc_canonical_allow := allow, rc_has_canonical_allow := allow \<noteq> []\<rparr>)"

text \<open>The methods are called on a pointer that may be nil.\<close>

definition resolve_model_alias :: "routing_config option \<Rightarrow> string \<Rightarrow> string" where
  "resolve_model_alias ro model = (case ro of
     None \<Rightarrow> model
   | Some r \<Rightarrow> if \<not> rc_has_aliases r then model
       else case mget (rc_aliases r) model of Some a \<Rightarrow> a | None \<Rightarrow> model)"

definition get_fallback_chain :: "routing_config option \<Rightarrow> string \<Rightarrow> string list" where
  "get_fallback_chain ro model = (case ro of
     None \<Rightarrow> []
   | Some r \<Rightarrow> if \<not> rc_has_fallbacks r then []
       else case mget (rc_fallbacks r) model of Some fs \<Rightarrow> fs | None \<Rightarrow> [])"

definition resolve_profile_primary :: "routing_config option \<Rightarrow> string \<Rightarrow> string option" where
  "resolve_profile_primary ro model = (case ro of
     None \<Rightarrow> None
   | Some r \<Rightarrow> if \<not> rc_has_profiles r then None
       else map_option rp_primary (mget (rc_profile_index r) model))"

definition get_profile_fallback_chain :: "routing_config option \<Rightarrow> string \<Rightarrow> string list" where
  "get_profile_fallback_chain ro model = (case ro of
     None \<Rightarrow> []
   | Some r \<Rightarrow> if \<not> rc_has_profiles r then []
       else case mget (rc_profile_index r) model of Some p \<Rightarrow> rp_fallbacks p | None \<Rightarrow> [])"

definition has_provider_priority :: "routing_config option \<Rightarrow> bool" where
  "has_provider_priority ro = (case ro of None \<Rightarrow> False | Some r \<Rightarrow> rc_has_priority r)"

definition should_use_canonical_listing :: "routing_config option \<Rightarrow> bool" where
  "should_use_canonical_listing ro = (case ro of None \<Rightarrow> False | Some r \<Rightarrow> rc_canonical_only r)"

definition should_hide_provider_models :: "routing_config option \<Rightarrow> bool" where
  "should_hide_provider_models ro = (case ro of None \<Rightarrow> False | Some r \<Rightarrow> rc_hide_provider_models r)"

definition is_canonical_model_allowed :: "routing_config option \<Rightarrow> string \<Rightarrow> bool" where
  "is_canonical_model_allowed ro model = (case ro of
     None \<Rightarrow> True | Some r \<Rightarrow> \<not> rc_has_canonical_allow r \<or> model \<in> set (rc_canonical_allow r))"

section \<open>Normalisation\<close>

definition add_header :: "string \<times> string \<Rightarrow> (string, string) gomap \<Rightarrow> (string, string) gomap" where
  "add_header kv clean = (case kv of (k, v) \<Rightarrow>
     let key = trim_space k; val = trim_space v in
     if key = [] \<or> val = [] then clean else mput key val clean)"

definition normalize_headers :: "(string, string) gomap \<Rightarrow> (string, string) gomap" where
  "normalize_headers headers = fold add_header headers []"

text \<open>The loop over the names is that of \<open>normalizeProviders\<close>.\<close>

definition normalize_excluded_models :: "string list \<Rightarrow> string list" where
  "normalize_excluded_models models = normalize_from [] models"

definition add_excluded :: "string \<times> string list \<Rightarrow> (string, string list) gomap
    \<Rightarrow> (string, string list) gomap" where
  "add_excluded e out = (case e of (provider, models) \<Rightarrow>
     let key = norm_key provider; ms = normalize_excluded_models models in
     if key = [] \<or> ms = [] then out else mput key ms out)"

definition normalize_oauth_excluded :: "(string, string list) gomap \<Rightarrow> (string, string list) gomap" where
  "normalize_oauth_excluded entries = fold add_excluded entries []"

section \<open>Providers\<close>

definition provider_enabled :: "provider_entry \<Rightarrow> bool" where
  "provider_enabled p = (case pe_enabled p of None \<Rightarrow> True | Some b \<Rightarrow> b)"

definition provider_api_keys :: "provider_entry \<Rightarrow> provider_key list" where
  "provider_api_keys p =
     (if pe_api_keys p \<noteq> [] then pe_api_keys p
      else if pe_api_key p \<noteq> [] then [\<lparr>pk_key = pe_api_key p, pk_proxy_url = pe_proxy_url p\<rparr>]
      else [])"

definition display_name :: "provider_entry \<Rightarrow> string" where
  "display_name p = (if pe_name p \<noteq> [] then pe_name p else pe_type p)"

text \<open>The field and the message of the error.\<close>

definition validate_provider :: "provider_entry \<Rightarrow> (string \<times> string) option" where
  "validate_provider p =
     (if pe_type p = [] then Some (''type'', ''type is required'')
      else if pe_api_key p = [] \<and> pe_api_keys p = []
      then Some (''api-key'', ''api-key or api-keys is required'')
      else if pe_type p = ''openai'' \<or> pe_type p = ''vertex-compat'' then
        (if pe_base_url p = [] then Some (''base-url'', ''base-url is required for '' @ pe_type p)
         else if pe_models p = [] then Some (''models'', ''models is required for '' @ pe_type p)
         else None)
      else None)"

definition validation_error_text :: "string \<times> string \<Rightarrow> string" where
  "validation_error_text e = ''provider config error: '' @ fst e @ '': '' @ snd e"

definition trim_right_slashes :: "string \<Rightarrow> string" where
  "trim_right_slashes s = rev (dropWhile (\<lambda>c. c = CHR ''/'') (rev s))"

definition trim_provider_key :: "provider_key \<Rightarrow> provider_key" where
  "trim_provider_key k = \<lparr>pk_key = trim_space (pk_key k), pk_proxy_url = trim_space (pk_proxy_url k)\<rparr>"

definition trim_provider_model :: "provider_model \<Rightarrow> provider_model" where
  "trim_provider_model m = \<lparr>pm_name = trim_space (pm_name m), pm_alias = trim_space (pm_alias m)\<rparr>"

definition normalize_provider :: "provider_entry \<Rightarrow> provider_entry" where
  "normalize_provider p = p\<lparr>
     pe_type := trim_space (to_lower (pe_type p)),
     pe_name := trim_space (pe_name p),
     pe_api_key := trim_space (pe_api_key p),
     pe_base_url := trim_right_slashes (trim_space (pe_base_url p)),
     pe_proxy_url := trim_space (pe_proxy_url p),
     pe_headers := normalize_headers (pe_headers p),
     pe_api_keys := filter (\<lambda>k. pk_key k \<noteq> []) (map trim_provider_key (pe_api_keys p)),
     pe_models := filter (\<lambda>m. pm_name m \<noteq> []) (map trim_provider_model (pe_models p))\<rparr>"

definition unique_key :: "provider_entry \<Rightarrow> string" where
  "unique_key p = pe_type p @ ''|'' @ pe_name p @ ''|'' @ pe_base_url p"

fun sanitize_from :: "string list \<Rightarrow> provider_entry list \<Rightarrow> provider_entry list" where
  "sanitize_from seen [] = []"
| "sanitize_from seen (p # ps) =
     (if \<not> provider_enabled p then sanitize_from seen ps
      else let q = normalize_provider p in
        if validate_provider q \<noteq> None \<or> unique_key q \<in> set seen then sanitize_from seen ps
        else q # sanitize_from (unique_key q # seen) ps)"

definition sanitize_providers :: "provider_entry list \<Rightarrow> provider_entry list" where
  "sanitize_providers ps = sanitize_from [] ps"

definition providers_by_type :: "config \<Rightarrow> string \<Rightarrow> provider_entry list" where
  "providers_by_type cfg t = filter (\<lambda>p. pe_type p = t) (cf_providers cfg)"

definition provider_by_name :: "config \<Rightarrow> string \<Rightarrow> provider_entry option" where
  "provider_by_name cfg name = List.find (\<lambda>p. display_name p = name) (cf_providers cfg)"

section \<open>Inline keys and the loader\<close>

definition config_api_key_type :: string where "config_api_key_type = ''config-api-key''"
definition default_access_name :: string where "default_access_name = ''config-inline''"

text \<open>The provider found gets a default name in place.\<close>

definition config_api_key_provider :: "access_provider list \<Rightarrow> access_provider option" where
  "config_api_key_provider ps =
     map_option (\<lambda>p. if ap_name p = [] then p\<lparr>ap_name := default_access_name\<rparr> else p)
       (List.find (\<lambda>p. ap_type p = config_api_key_type) ps)"

definition make_inline_api_key_provider :: "string list \<Rightarrow> access_provider option" where
  "make_inline_api_key_provider keys =
     (if keys = [] then None
      else Some \<lparr>ap_name = default_access_name, ap_type = config_api_key_type, ap_sdk = [],
                 ap_keys = keys, ap_config = []\<rparr>)"

definition sync_inline_access_provider :: "config \<Rightarrow> config" where
  "sync_inline_access_provider cfg =
     (let keys = (if cf_api_keys cfg = []
                  then (case config_api_key_provider (cf_access_providers cfg) of
                          Some p \<Rightarrow> if ap_keys p \<noteq> [] then ap_keys p else cf_api_keys cfg
                        | None \<Rightarrow> cf_api_keys cfg)
                  else cf_api_keys cfg)
      in cfg\<lparr>cf_api_keys := keys, cf_access_providers := []\<rparr>)"

datatype read_error = NotExist | IsDirectory | OtherReadError string

datatype load_error = ReadFailed read_error | ParseFailed string

definition load_config_optional ::
  "(string \<Rightarrow> config \<Rightarrow> string + config) \<Rightarrow> read_error + string \<Rightarrow> bool \<Rightarrow> load_error + config" where
  "load_config_optional unmarshal file optional =
     (case file of
        Inl e \<Rightarrow> if optional \<and> (e = NotExist \<or> e = IsDirectory) then Inr new_default_config
                 else Inl (ReadFailed e)
      | Inr data \<Rightarrow>
          if optional \<and> data = [] then Inr new_default_config
          else (case unmarshal data new_default_config of
                  Inl e \<Rightarrow> if optional then Inr new_default_config else Inl (ParseFailed e)
                | Inr cfg0 \<Rightarrow>
                    let cfg = sync_inline_access_provider cfg0 in
                    Inr (cfg\<lparr>cf_providers := sanitize_providers (cf_providers cfg),
                             cf_oauth_excluded := normalize_oauth_excluded (cf_oauth_excluded cfg),
                             cf_routing := routing_init (cf_routing cfg)\<rparr>)))"

definition load_config ::
  "(string \<Rightarrow> config \<Rightarrow> string + config) \<Rightarrow> read_error + string \<Rightarrow> load_error + config" where
  "load_config unmarshal file = load_config_optional unmarshal file False"

definition sanitize_config_for_persist :: "config \<Rightarrow> config" where
  "sanitize_config_for_persist cfg = cfg\<lparr>cf_access_providers := []\<rparr>"


section \<open>Cleaning a map once is enough\<close>

text \<open>The three loops that clean a map store what they keep under a cleaned key, or skip.\<close>

definition cleans :: "('k \<times> 'v \<Rightarrow> ('k, 'v) gomap \<Rightarrow> ('k, 'v) gomap) \<Rightarrow> ('k \<Rightarrow> bool) \<Rightarrow> ('v \<Rightarrow> bool) \<Rightarrow> bool" where
  "cleans f K V \<longleftrightarrow>
     (\<forall>kv m. f kv m = m \<or> (\<exists>k v. K k \<and> V v \<and> f kv m = mput k v m))
     \<and> (\<forall>k v m. K k \<longrightarrow> V v \<longrightarrow> f (k, v) m = mput k v m)"

lemma mput_new: "k \<notin> fst ` set m \<Longrightarrow> mput k v m = m @ [(k, v)]"
  by (induction m) auto

lemma mput_members: "x \<in> set (mput k v m) \<Longrightarrow> x = (k, v) \<or> x \<in> set m"
  by (induction m) (auto split: if_splits)

lemma cleaned_map:
  assumes "cleans f K V"
  shows "wf_map acc \<and> (\<forall>(k, v) \<in> set acc. K k \<and> V v) \<Longrightarrow>
    wf_map (fold f m acc) \<and> (\<forall>(k, v) \<in> set (fold f m acc). K k \<and> V v)"
proof (induction m arbitrary: acc)
  case (Cons kv m)
  have "wf_map (f kv acc) \<and> (\<forall>(k, v) \<in> set (f kv acc). K k \<and> V v)"
  proof (cases "f kv acc = acc")
    case False
    then obtain k v where "K k" "V v" "f kv acc = mput k v acc" using assms unfolding cleans_def by blast
    then show ?thesis using Cons(2) by (auto dest!: mput_members)
  qed (use Cons in simp)
  then show ?case using Cons(1) by simp
qed simp

lemma clean_map_fixed:
  assumes "cleans f K V"
  shows "wf_map (acc @ m) \<Longrightarrow> \<forall>(k, v) \<in> set m. K k \<and> V v \<Longrightarrow> fold f m acc = acc @ m"
proof (induction m arbitrary: acc)
  case (Cons kv m)
  obtain k v where kv: "kv = (k, v)" by fastforce
  have "f kv acc = mput k v acc" using assms Cons(3) kv unfolding cleans_def by auto
  also have "\<dots> = acc @ [(k, v)]" using Cons(2) kv by (intro mput_new) (auto simp: wf_map_def)
  finally show ?case using Cons kv by simp
qed simp

lemma cleaned_twice:
  assumes "cleans f K V"
  shows "fold f (fold f m []) [] = fold f m []"
proof -
  have "wf_map (fold f m []) \<and> (\<forall>(k, v) \<in> set (fold f m []). K k \<and> V v)"
    by (rule cleaned_map [OF assms]) simp
  then show ?thesis using clean_map_fixed [OF assms, of "[]" "fold f m []", unfolded append_Nil] by blast
qed

lemma cleansI:
  fixes key' :: "'k \<Rightarrow> 'k" and val' :: "'v \<Rightarrow> 'v"
  assumes "\<And>a b m. f (a, b) m = m \<or>
      K (key' a) \<and> V (val' b) \<and> f (a, b) m = mput (key' a) (val' b) m"
    and "\<And>k v m. K k \<Longrightarrow> V v \<Longrightarrow> f (k, v) m = mput k v m"
  shows "cleans f K V"
proof -
  have "f kv m = m \<or> (\<exists>k v. K k \<and> V v \<and> f kv m = mput k v m)" for kv m
    using assms(1) [of "fst kv" "snd kv" m] by (cases kv) auto
  then show ?thesis using assms(2) by (simp add: cleans_def)
qed

lemma header_cleans: "cleans add_header (\<lambda>k. k \<noteq> [] \<and> trim_space k = k) (\<lambda>v. v \<noteq> [] \<and> trim_space v = v)"
  by (rule cleansI [where key' = trim_space and val' = trim_space])
    (auto simp: add_header_def Let_def trim_twice)

lemma excluded_fixed:
  "normalize_excluded_models (normalize_excluded_models ms) = normalize_excluded_models ms"
  unfolding normalize_excluded_models_def
  using normalize_from_spec [of "[]" ms] by (intro normalize_fixed) auto

lemma excluded_cleans:
  "cleans add_excluded (\<lambda>k. k \<noteq> [] \<and> norm_key k = k) (\<lambda>v. v \<noteq> [] \<and> normalize_excluded_models v = v)"
  by (rule cleansI [where key' = norm_key and val' = normalize_excluded_models])
    (auto simp: add_excluded_def Let_def excluded_fixed)

definition clean_profile :: "routing_profile \<Rightarrow> bool" where
  "clean_profile p \<longleftrightarrow> rp_primary p \<noteq> [] \<and> trim_space (rp_primary p) = rp_primary p
     \<and> (\<forall>f \<in> set (rp_fallbacks p). f \<noteq> [] \<and> trim_space f = f)"

definition trim_profile :: "routing_profile \<Rightarrow> routing_profile" where
  "trim_profile p = \<lparr>rp_primary = trim_space (rp_primary p),
     rp_fallbacks = filter (\<lambda>f. f \<noteq> []) (map trim_space (rp_fallbacks p))\<rparr>"

lemma trim_profile_clean: "trim_space (rp_primary p) \<noteq> [] \<Longrightarrow> clean_profile (trim_profile p)"
  by (auto simp: clean_profile_def trim_profile_def trim_twice)

lemma clean_profile_fixed: "clean_profile p \<Longrightarrow> trim_profile p = p"
  by (simp add: clean_profile_def trim_profile_def filter_id_conv map_idI)

lemma index_profile_trim: "index_profile (name, p) index =
    (if trim_space name = [] \<or> trim_space (rp_primary p) = [] then index
     else mput (trim_space name) (trim_profile p) index)"
  by (simp add: index_profile_def trim_profile_def Let_def)

lemma profile_cleans: "cleans index_profile (\<lambda>k. k \<noteq> [] \<and> trim_space k = k) clean_profile"
proof (rule cleansI [where key' = trim_space and val' = trim_profile])
  show "index_profile (k, v) m = mput k v m" if "k \<noteq> [] \<and> trim_space k = k" "clean_profile v" for k v m
    using that clean_profile_fixed [OF that(2)] by (simp add: index_profile_trim clean_profile_def)
qed (simp add: index_profile_trim trim_twice trim_profile_clean)

section \<open>Sanitised providers\<close>

lemma trim_lower_twice: "trim_space (to_lower (trim_space (to_lower s))) = trim_space (to_lower s)"
  by (simp add: trim_lower trim_twice)

lemma normalize_provider_simps [simp]:
  "provider_enabled (normalize_provider p) = provider_enabled p"
  by (simp add: provider_enabled_def normalize_provider_def)

lemma normalize_provider_idem:
  assumes "trim_space (trim_right_slashes (trim_space (pe_base_url p))) = trim_right_slashes (trim_space (pe_base_url p))"
  shows "normalize_provider (normalize_provider p) = normalize_provider p"
proof -
  have "normalize_headers (normalize_headers h) = normalize_headers h" for h
    unfolding normalize_headers_def by (rule cleaned_twice [OF header_cleans])
  moreover have "filter (\<lambda>k. pk_key k \<noteq> []) (map trim_provider_key (filter (\<lambda>k. pk_key k \<noteq> []) (map trim_provider_key ks)))
      = filter (\<lambda>k. pk_key k \<noteq> []) (map trim_provider_key ks)" for ks
    by (induction ks) (auto simp: trim_provider_key_def trim_twice)
  moreover have "filter (\<lambda>m. pm_name m \<noteq> []) (map trim_provider_model (filter (\<lambda>m. pm_name m \<noteq> []) (map trim_provider_model ms)))
      = filter (\<lambda>m. pm_name m \<noteq> []) (map trim_provider_model ms)" for ms
    by (induction ms) (auto simp: trim_provider_model_def trim_twice)
  moreover have "trim_right_slashes (trim_right_slashes s) = trim_right_slashes s" for s
    by (simp add: trim_right_slashes_def)
  ultimately show ?thesis
    using assms by (simp add: normalize_provider_def trim_lower_twice trim_twice)
qed

lemma sanitize_from_spec:
  "(\<forall>q \<in> set (sanitize_from seen ps). (\<exists>p \<in> set ps. q = normalize_provider p) \<and> provider_enabled q
       \<and> validate_provider q = None)
   \<and> distinct (map unique_key (sanitize_from seen ps))
   \<and> unique_key ` set (sanitize_from seen ps) =
       {unique_key (normalize_provider p) | p. p \<in> set ps \<and> provider_enabled p
          \<and> validate_provider (normalize_provider p) = None} - set seen"
proof (induction ps arbitrary: seen)
  case (Cons p ps)
  show ?case
  proof (cases "provider_enabled p \<and> validate_provider (normalize_provider p) = None
      \<and> unique_key (normalize_provider p) \<notin> set seen")
    case True
    then show ?thesis using Cons [of "unique_key (normalize_provider p) # seen"] by (auto simp: Let_def)
  next
    case False
    then show ?thesis using Cons [of seen] by (auto simp: Let_def)
  qed
qed simp

lemma sanitize_from_fixed:
  "\<forall>q \<in> set ps. normalize_provider q = q \<and> provider_enabled q \<and> validate_provider q = None \<Longrightarrow>
   distinct (map unique_key ps) \<Longrightarrow> unique_key ` set ps \<inter> set seen = {} \<Longrightarrow> sanitize_from seen ps = ps"
  by (induction ps arbitrary: seen) (auto simp: Let_def)


section \<open>Properties\<close>

text \<open>
  What the loader keeps of the providers: every one is enabled, valid and in the normal form of
  some entry, no two have the same type, name and address, and none is lost that is enabled and
  valid, but for a duplicate.
\<close>
theorem sanitized_providers:
  "(\<forall>q \<in> set (sanitize_providers ps). provider_enabled q \<and> validate_provider q = None
      \<and> (\<exists>p \<in> set ps. q = normalize_provider p))
   \<and> distinct (map unique_key (sanitize_providers ps))
   \<and> unique_key ` set (sanitize_providers ps) =
       {unique_key (normalize_provider p) | p. p \<in> set ps \<and> provider_enabled p
          \<and> validate_provider (normalize_provider p) = None}"
  using sanitize_from_spec [of "[]" ps] unfolding sanitize_providers_def by auto

definition no_provider :: provider_entry where
  "no_provider = \<lparr>pe_type = [], pe_name = [], pe_enabled = None, pe_api_key = [], pe_api_keys = [],
     pe_base_url = [], pe_proxy_url = [], pe_headers = [], pe_models = [], pe_excluded_models = []\<rparr>"

theorem sanitized_providers_witness:
  "provider_enabled (no_provider\<lparr>pe_type := ''gemini'', pe_api_key := ''k''\<rparr>) \<and>
   (\<forall>q \<in> set (sanitize_providers [no_provider\<lparr>pe_type := ''gemini'', pe_api_key := ''k''\<rparr>]).
      provider_enabled q \<and> validate_provider q = None)"
  using sanitized_providers [of "[no_provider\<lparr>pe_type := ''gemini'', pe_api_key := ''k''\<rparr>]"]
  by (simp add: provider_enabled_def no_provider_def)

text \<open>
  Loading the providers of a loaded file changes nothing more, if no address has a blank before
  the slashes it ends in.
\<close>
theorem sanitize_once:
  assumes "\<forall>p \<in> set ps. trim_space (trim_right_slashes (trim_space (pe_base_url p)))
    = trim_right_slashes (trim_space (pe_base_url p))"
  shows "sanitize_providers (sanitize_providers ps) = sanitize_providers ps"
proof -
  note spec = sanitize_from_spec [of "[]" ps]
  have "normalize_provider q = q" if "q \<in> set (sanitize_from [] ps)" for q
    using that spec normalize_provider_idem assms by fastforce
  then show ?thesis unfolding sanitize_providers_def
    using spec by (intro sanitize_from_fixed) auto
qed

theorem sanitize_once_witness:
  "sanitize_providers (sanitize_providers [no_provider\<lparr>pe_type := ''openai'', pe_base_url := '' u/ ''\<rparr>])
    = sanitize_providers [no_provider\<lparr>pe_type := ''openai'', pe_base_url := '' u/ ''\<rparr>]"
  by (rule sanitize_once) (simp add: trim_space_def trim_right_slashes_def is_space_def)

lemma address_needs_two_rounds:
  "normalize_provider (normalize_provider (no_provider\<lparr>pe_base_url := ''u/ /''\<rparr>))
    \<noteq> normalize_provider (no_provider\<lparr>pe_base_url := ''u/ /''\<rparr>)"
  by code_simp



text \<open>Two providers, one of them disabled; the printer writes the names.\<close>

definition two_providers :: config where
  "two_providers = new_default_config\<lparr>cf_providers :=
     [no_provider\<lparr>pe_type := ''gemini'', pe_enabled := Some False, pe_api_key := ''a''\<rparr>,
      no_provider\<lparr>pe_type := ''gemini'', pe_name := ''b'', pe_api_key := ''b''\<rparr>]\<rparr>"

definition print_names :: "config \<Rightarrow> ynode" where
  "print_names cfg = YNode MappingNode PlainStyle ''!!map'' [] [] None
     [y_scalar ''providers'', YNode SequenceNode PlainStyle ''!!seq'' [] [] None
        (map (\<lambda>p. y_scalar (pe_name p)) (cf_providers cfg)) []] []"

definition loaded_two :: config where
  "loaded_two = two_providers\<lparr>cf_providers := sanitize_providers (cf_providers two_providers),
     cf_routing := routing_init no_routing\<rparr>"

lemma loaded_two_providers:
  "cf_providers loaded_two = [no_provider\<lparr>pe_type := ''gemini'', pe_name := ''b'', pe_api_key := ''b''\<rparr>]"
  by code_simp


text \<open>
  The excluded models are the same however often they are cleaned, with cleaned names of
  providers and lists without duplicates and empty names.
\<close>
theorem excluded_models_normal:
  "normalize_oauth_excluded (normalize_oauth_excluded m) = normalize_oauth_excluded m
   \<and> wf_map (normalize_oauth_excluded m)
   \<and> list_all (\<lambda>(k, v). k \<noteq> [] \<and> norm_key k = k \<and> v \<noteq> [] \<and> distinct v \<and> list_all (\<lambda>x. norm_key x = x \<and> x \<noteq> []) v)
       (normalize_oauth_excluded m)"
proof -
  have v: "distinct v \<and> list_all (\<lambda>x. norm_key x = x \<and> x \<noteq> []) v"
    if "normalize_excluded_models v = v" for v
  proof -
    have "set v = norm_key ` set v - {[]}" "distinct v"
      using that normalize_from_spec [of "[]" v] unfolding normalize_excluded_models_def by auto
    then show ?thesis unfolding list_all_iff by (metis DiffE imageE insertI1 norm_key_idem)
  qed
  have "wf_map (fold add_excluded m []) \<and> (\<forall>(k, v) \<in> set (fold add_excluded m []).
      (k \<noteq> [] \<and> norm_key k = k) \<and> (v \<noteq> [] \<and> normalize_excluded_models v = v))"
    by (rule cleaned_map [OF excluded_cleans]) simp
  then show ?thesis
    unfolding normalize_oauth_excluded_def
    using v cleaned_twice [OF excluded_cleans, of m] by (fastforce simp: list_all_iff)
qed

lemma excluded_order_matters:
  "normalize_oauth_excluded [(''claude'', [''a'']), (''Claude'', [''b''])] = [(''claude'', [''b''])]"
  "normalize_oauth_excluded [(''Claude'', [''b'']), (''claude'', [''a''])] = [(''claude'', [''a''])]"
  by code_simp+

lemma profiles_indexed_clean:
  "wf_map (rc_profile_index (routing_init r))
   \<and> (\<forall>(k, p) \<in> set (rc_profile_index (routing_init r)). k \<noteq> [] \<and> trim_space k = k \<and> clean_profile p)"
proof -
  have "wf_map (fold index_profile (rc_profiles r) []) \<and> (\<forall>(k, p) \<in> set (fold index_profile (rc_profiles r) []).
      (k \<noteq> [] \<and> trim_space k = k) \<and> clean_profile p)"
    by (rule cleaned_map [OF profile_cleans]) simp
  then show ?thesis by (auto simp: routing_init_def Let_def normalize_profiles_def)
qed

end
