(* ===== verification/Management.thy ===== *)
theory Management
  imports ConfigFile
begin

text \<open>
  The management interface (\<open>api/handlers/management\<close>): the access check with its ban of addresses
  that fail too often (\<open>handler.go\<close>), the handlers that read and change the settings
  (\<open>config_basic.go\<close>, \<open>config_lists.go\<close>, \<open>quota.go\<close>), and the locks they take.

  A handler is a function of the settings, the request as the JSON library has read it, and whether
  the settings can be written. Its result holds the lock operations in the order in which the code
  performs them, the new settings and the reply. Locks of several requests interleave by a step
  relation.
\<close>

section \<open>Access\<close>

record attempt_info =
  at_count :: int
  at_blocked_until :: gotime

definition max_failures :: int where "max_failures = 5"
definition ban_duration :: duration where "ban_duration = 30 * minute"

datatype access = Admitted | Refused int string string

definition local_client :: "string \<Rightarrow> bool" where
  "local_client ip \<longleftrightarrow> ip = ''127.0.0.1'' \<or> ip = ''::1''"

definition note_failure :: "gotime \<Rightarrow> string \<Rightarrow> (string, attempt_info) gomap
    \<Rightarrow> (string, attempt_info) gomap" where
  "note_failure now ip m =
     (let ai = (case mget m ip of Some a \<Rightarrow> a | None \<Rightarrow> \<lparr>at_count = 0, at_blocked_until = 0\<rparr>);
          n = at_count ai + 1 in
      mput ip (if n \<ge> max_failures then \<lparr>at_count = 0, at_blocked_until = now + ban_duration\<rparr>
               else ai\<lparr>at_count := n\<rparr>) m)"

text \<open>A ban that is over is taken off; one that lasts refuses the request.\<close>

definition check_ban :: "gotime \<Rightarrow> string \<Rightarrow> (string, attempt_info) gomap
    \<Rightarrow> (string, attempt_info) gomap option" where
  "check_ban now ip m = (case mget m ip of
     None \<Rightarrow> Some m
   | Some ai \<Rightarrow>
       if is_zero_time (at_blocked_until ai) then Some m
       else if now < at_blocked_until ai then None
       else Some (mput ip \<lparr>at_count = 0, at_blocked_until = 0\<rparr> m))"

definition reset_failures :: "string \<Rightarrow> (string, attempt_info) gomap \<Rightarrow> (string, attempt_info) gomap" where
  "reset_failures ip m = (case mget m ip of
     None \<Rightarrow> m | Some _ \<Rightarrow> mput ip \<lparr>at_count = 0, at_blocked_until = 0\<rparr> m)"

definition bearer_value :: "string \<Rightarrow> string" where
  "bearer_value ah = (case index_of ah '' '' of
     Some i \<Rightarrow> if to_lower (take i ah) = ''bearer'' then drop (i + 1) ah else ah
   | None \<Rightarrow> ah)"

definition provided_key :: "string \<Rightarrow> string \<Rightarrow> string" where
  "provided_key authorization x_key =
     (let p = (if authorization \<noteq> [] then bearer_value authorization else []) in
      if p = [] then x_key else p)"

definition allow_remote :: "config option \<Rightarrow> string option \<Rightarrow> bool" where
  "allow_remote cfg env =
     (env = Some ''true'' \<or> env = Some ''1'' \<or> (case cfg of None \<Rightarrow> False | Some c \<Rightarrow> cf_allow_remote c))"

record access_request =
  ar_ip :: string
  ar_authorization :: string
  ar_management_key :: string

text \<open>\<open>now\<close> is the clock at the check of the ban, \<open>later\<close> at the note of a failure.\<close>

definition management_access ::
  "gotime \<Rightarrow> gotime \<Rightarrow> config option \<Rightarrow> string option \<Rightarrow> string \<Rightarrow> string \<Rightarrow> access_request
     \<Rightarrow> (string, attempt_info) gomap \<Rightarrow> access \<times> (string, attempt_info) gomap" where
  "management_access now later cfg env management_key local_password r m =
     (let ip = ar_ip r; is_local = local_client ip in
      case (if is_local then Some m else check_ban now ip m) of
        None \<Rightarrow> (Refused 403 ''FORBIDDEN'' ''IP banned due to too many failed attempts'', m)
      | Some m1 \<Rightarrow>
          if \<not> is_local \<and> \<not> allow_remote cfg env
          then (Refused 403 ''FORBIDDEN'' ''remote management disabled'', m1)
          else if management_key = []
          then (Refused 403 ''FORBIDDEN'' ''management key not configured'', m1)
          else let provided = provided_key (ar_authorization r) (ar_management_key r);
                   failed = (if is_local then m1 else note_failure later ip m1) in
            if provided = [] then (Refused 401 ''UNAUTHORIZED'' ''missing management key'', failed)
            else if is_local \<and> local_password \<noteq> [] \<and> provided = local_password then (Admitted, m1)
            else if provided \<noteq> management_key
            then (Refused 401 ''UNAUTHORIZED'' ''invalid management key'', failed)
            else (Admitted, if is_local then m1 else reset_failures ip m1))"

section \<open>Locks\<close>

text \<open>
  The locks are \<open>cfgMu\<close>, which readers share and whose writer first announces itself, keeping new
  readers out, and then waits for the readers inside; \<open>mu\<close>, around the file; and \<open>attemptsMu\<close>.
\<close>

datatype lock_op = RLockCfg | RUnlockCfg | AnnounceCfg | LockCfg | UnlockCfg
  | LockFile | UnlockFile | LockAttempts | UnlockAttempts

datatype cfg_hold = NoHold | Reading | Announced | Writing

record locks_held =
  h_cfg :: cfg_hold
  h_file :: bool
  h_attempts :: bool

definition no_locks :: locks_held where
  "no_locks = \<lparr>h_cfg = NoHold, h_file = False, h_attempts = False\<rparr>"

primrec take_lock :: "lock_op \<Rightarrow> locks_held \<Rightarrow> locks_held" where
  "take_lock RLockCfg h = h\<lparr>h_cfg := Reading\<rparr>"
| "take_lock RUnlockCfg h = h\<lparr>h_cfg := NoHold\<rparr>"
| "take_lock AnnounceCfg h = h\<lparr>h_cfg := Announced\<rparr>"
| "take_lock LockCfg h = h\<lparr>h_cfg := Writing\<rparr>"
| "take_lock UnlockCfg h = h\<lparr>h_cfg := NoHold\<rparr>"
| "take_lock LockFile h = h\<lparr>h_file := True\<rparr>"
| "take_lock UnlockFile h = h\<lparr>h_file := False\<rparr>"
| "take_lock LockAttempts h = h\<lparr>h_attempts := True\<rparr>"
| "take_lock UnlockAttempts h = h\<lparr>h_attempts := False\<rparr>"

text \<open>Whether an operation returns at once, given what all requests hold, the own one included.\<close>

definition returns :: "lock_op \<Rightarrow> locks_held list \<Rightarrow> bool" where
  "returns l hs = (case l of
     RLockCfg \<Rightarrow> list_all (\<lambda>h. h_cfg h \<noteq> Announced \<and> h_cfg h \<noteq> Writing) hs
   | AnnounceCfg \<Rightarrow> list_all (\<lambda>h. h_cfg h \<noteq> Announced \<and> h_cfg h \<noteq> Writing) hs
   | LockCfg \<Rightarrow> list_all (\<lambda>h. h_cfg h \<noteq> Reading) hs
   | LockFile \<Rightarrow> list_all (\<lambda>h. \<not> h_file h) hs
   | LockAttempts \<Rightarrow> list_all (\<lambda>h. \<not> h_attempts h) hs
   | _ \<Rightarrow> True)"

type_synonym requests = "(locks_held \<times> lock_op list) list"

inductive lock_step :: "requests \<Rightarrow> requests \<Rightarrow> bool" where
  "i < length ts \<Longrightarrow> ts ! i = (h, l # ls) \<Longrightarrow> returns l (map fst ts) \<Longrightarrow>
     lock_step ts (ts[i := (take_lock l h, ls)])"

definition arrived :: "lock_op list list \<Rightarrow> requests" where
  "arrived ps = map (\<lambda>p. (no_locks, p)) ps"

definition get_config_ops :: "lock_op list" where "get_config_ops = [RLockCfg, RUnlockCfg]"
definition lock_cfg_ops :: "lock_op list" where "lock_cfg_ops = [AnnounceCfg, LockCfg]"
definition write_cfg_ops :: "lock_op list" where "write_cfg_ops = lock_cfg_ops @ [UnlockCfg]"
definition set_config_ops :: "lock_op list" where "set_config_ops = write_cfg_ops"

text \<open>\<open>persist\<close> and \<open>persistSilent\<close> lock the file and read the settings inside.\<close>

definition persist_ops :: "lock_op list" where
  "persist_ops = [LockFile] @ get_config_ops @ [UnlockFile]"

text \<open>The access check reads the settings; for a remote address it looks at the attempts, and once
  more when it notes a failure or a success.\<close>

definition middleware_ops :: "bool \<Rightarrow> bool \<Rightarrow> lock_op list" where
  "middleware_ops is_local noted = get_config_ops @ (if is_local then []
     else [LockAttempts, UnlockAttempts] @ (if noted then [LockAttempts, UnlockAttempts] else []))"

section \<open>Handlers\<close>

datatype reply = Done jval | Failed int string string

record handled =
  hd_ops :: "lock_op list"
  hd_config :: config
  hd_reply :: reply

definition respond_ok :: "string \<Rightarrow> jval \<Rightarrow> reply" where
  "respond_ok k v = Done (JObj [(k, v)])"

definition respond_bad_request :: "string \<Rightarrow> reply" where
  "respond_bad_request msg = Failed 400 ''INVALID_REQUEST'' msg"

definition respond_not_found :: "string \<Rightarrow> reply" where
  "respond_not_found msg = Failed 404 ''NOT_FOUND'' msg"

definition respond_internal_error :: "string \<Rightarrow> reply" where
  "respond_internal_error msg = Failed 500 ''INTERNAL_ERROR'' msg"

definition rejected :: "config \<Rightarrow> reply \<Rightarrow> handled" where
  "rejected cfg r = \<lparr>hd_ops = [], hd_config = cfg, hd_reply = r\<rparr>"

definition persist_reply :: "(config \<Rightarrow> string option) \<Rightarrow> config \<Rightarrow> reply" where
  "persist_reply save cfg = (case save (sanitize_config_for_persist cfg) of
     Some e \<Rightarrow> Failed 500 ''WRITE_FAILED'' (''failed to save config: '' @ e)
   | None \<Rightarrow> respond_ok ''status'' (JStr ''ok''))"

definition get_field :: "string \<Rightarrow> (config \<Rightarrow> jval) \<Rightarrow> config \<Rightarrow> handled" where
  "get_field name get cfg =
     \<lparr>hd_ops = get_config_ops, hd_config = cfg, hd_reply = respond_ok name (get cfg)\<rparr>"

text \<open>The handlers of a single value: change it under the lock, save, and read it back.\<close>

definition put_field :: "string \<Rightarrow> (config \<Rightarrow> jval) \<Rightarrow> (config \<Rightarrow> string option) \<Rightarrow> config \<Rightarrow> handled" where
  "put_field name get save cfg =
     (case save (sanitize_config_for_persist cfg) of
        Some _ \<Rightarrow> \<lparr>hd_ops = write_cfg_ops @ persist_ops, hd_config = cfg,
                   hd_reply = respond_internal_error ''failed to save config''\<rparr>
      | None \<Rightarrow> \<lparr>hd_ops = write_cfg_ops @ persist_ops @ get_config_ops, hd_config = cfg,
                 hd_reply = respond_ok name (get cfg)\<rparr>)"

definition bool_expected :: reply where
  "bool_expected = respond_bad_request ''invalid body: expected {\"value\": bool}''"
definition int_expected :: reply where
  "int_expected = respond_bad_request ''invalid body: expected {\"value\": int}''"
definition string_expected :: reply where
  "string_expected = respond_bad_request ''invalid body: expected {\"value\": string}''"

definition debug_value :: "config \<Rightarrow> jval" where "debug_value c = JBool (cf_debug c)"
definition usage_enabled :: "config \<Rightarrow> jval" where "usage_enabled c = JBool (us_dsn (cf_usage c) \<noteq> [])"
definition logging_value :: "config \<Rightarrow> jval" where "logging_value c = JBool (cf_logging_to_file c)"
definition request_log_value :: "config \<Rightarrow> jval" where "request_log_value c = JBool (cf_request_log c)"
definition ws_auth_value :: "config \<Rightarrow> jval" where "ws_auth_value c = JBool (cf_ws_auth c)"
definition retry_value :: "config \<Rightarrow> jval" where "retry_value c = JNum (of_int (cf_request_retry c))"
definition interval_value :: "config \<Rightarrow> jval" where "interval_value c = JNum (of_int (cf_max_retry_interval c))"
definition proxy_value :: "config \<Rightarrow> jval" where "proxy_value c = JStr (cf_proxy_url c)"

definition get_debug :: "config \<Rightarrow> handled" where "get_debug = get_field ''debug'' debug_value"
definition get_usage_enabled :: "config \<Rightarrow> handled" where
  "get_usage_enabled = get_field ''usage-statistics-enabled'' usage_enabled"
definition get_logging_to_file :: "config \<Rightarrow> handled" where
  "get_logging_to_file = get_field ''logging-to-file'' logging_value"
definition get_request_log :: "config \<Rightarrow> handled" where
  "get_request_log = get_field ''request-log'' request_log_value"
definition get_websocket_auth :: "config \<Rightarrow> handled" where
  "get_websocket_auth = get_field ''ws-auth'' ws_auth_value"
definition get_request_retry :: "config \<Rightarrow> handled" where
  "get_request_retry = get_field ''request-retry'' retry_value"
definition get_max_retry_interval :: "config \<Rightarrow> handled" where
  "get_max_retry_interval = get_field ''max-retry-interval'' interval_value"
definition get_proxy_url :: "config \<Rightarrow> handled" where
  "get_proxy_url = get_field ''proxy-url'' proxy_value"


definition get_config :: "config \<Rightarrow> lock_op list \<times> config" where
  "get_config cfg = (get_config_ops @ get_config_ops, cfg)"

definition put_debug :: "(config \<Rightarrow> string option) \<Rightarrow> config \<Rightarrow> bool option \<Rightarrow> handled" where
  "put_debug save cfg v = (case v of
     None \<Rightarrow> rejected cfg bool_expected
   | Some b \<Rightarrow> put_field ''debug'' debug_value save (cfg\<lparr>cf_debug := b\<rparr>))"

definition put_usage_enabled :: "(config \<Rightarrow> string option) \<Rightarrow> config \<Rightarrow> bool option \<Rightarrow> handled" where
  "put_usage_enabled save cfg v = (case v of
     None \<Rightarrow> rejected cfg bool_expected
   | Some b \<Rightarrow>
       put_field ''usage-statistics-enabled'' usage_enabled save
         (cfg\<lparr>cf_usage := (cf_usage cfg)\<lparr>us_dsn :=
            (if b then (if us_dsn (cf_usage cfg) = [] then ''sqlite://~/.config/llm-mux/usage.db''
                        else us_dsn (cf_usage cfg))
             else [])\<rparr>\<rparr>))"

definition put_logging_to_file :: "(config \<Rightarrow> string option) \<Rightarrow> config \<Rightarrow> bool option \<Rightarrow> handled" where
  "put_logging_to_file save cfg v = (case v of
     None \<Rightarrow> rejected cfg bool_expected
   | Some b \<Rightarrow> put_field ''logging-to-file'' logging_value save (cfg\<lparr>cf_logging_to_file := b\<rparr>))"

definition put_request_log :: "(config \<Rightarrow> string option) \<Rightarrow> config \<Rightarrow> bool option \<Rightarrow> handled" where
  "put_request_log save cfg v = (case v of
     None \<Rightarrow> rejected cfg bool_expected
   | Some b \<Rightarrow> put_field ''request-log'' request_log_value save (cfg\<lparr>cf_request_log := b\<rparr>))"

definition put_websocket_auth :: "(config \<Rightarrow> string option) \<Rightarrow> config \<Rightarrow> bool option \<Rightarrow> handled" where
  "put_websocket_auth save cfg v = (case v of
     None \<Rightarrow> rejected cfg bool_expected
   | Some b \<Rightarrow> put_field ''ws-auth'' ws_auth_value save (cfg\<lparr>cf_ws_auth := b\<rparr>))"

definition put_request_retry :: "(config \<Rightarrow> string option) \<Rightarrow> config \<Rightarrow> int option \<Rightarrow> handled" where
  "put_request_retry save cfg v = (case v of
     None \<Rightarrow> rejected cfg int_expected
   | Some n \<Rightarrow> put_field ''request-retry'' retry_value save (cfg\<lparr>cf_request_retry := n\<rparr>))"

definition put_max_retry_interval :: "(config \<Rightarrow> string option) \<Rightarrow> config \<Rightarrow> int option \<Rightarrow> handled" where
  "put_max_retry_interval save cfg v = (case v of
     None \<Rightarrow> rejected cfg int_expected
   | Some n \<Rightarrow> put_field ''max-retry-interval'' interval_value save (cfg\<lparr>cf_max_retry_interval := n\<rparr>))"

definition put_proxy_url :: "(config \<Rightarrow> string option) \<Rightarrow> config \<Rightarrow> string option \<Rightarrow> handled" where
  "put_proxy_url save cfg v = (case v of
     None \<Rightarrow> rejected cfg string_expected
   | Some u \<Rightarrow> put_field ''proxy-url'' proxy_value save (cfg\<lparr>cf_proxy_url := u\<rparr>))"

definition delete_proxy_url :: "(config \<Rightarrow> string option) \<Rightarrow> config \<Rightarrow> handled" where
  "delete_proxy_url save cfg = put_field ''proxy-url'' proxy_value save (cfg\<lparr>cf_proxy_url := []\<rparr>)"

text \<open>The two switches of \<open>quota.go\<close> are read and written without \<open>cfgMu\<close>.\<close>

definition put_unlocked :: "string \<Rightarrow> (config \<Rightarrow> jval) \<Rightarrow> (config \<Rightarrow> string option) \<Rightarrow> config \<Rightarrow> handled" where
  "put_unlocked name get save cfg =
     \<lparr>hd_ops = persist_ops, hd_config = cfg,
      hd_reply = (case save (sanitize_config_for_persist cfg) of
          Some _ \<Rightarrow> respond_internal_error ''failed to save config''
        | None \<Rightarrow> respond_ok name (get cfg))\<rparr>"

definition switch_project_value :: "config \<Rightarrow> jval" where
  "switch_project_value c = JBool (qx_switch_project (cf_quota_exceeded c))"
definition switch_preview_value :: "config \<Rightarrow> jval" where
  "switch_preview_value c = JBool (qx_switch_preview_model (cf_quota_exceeded c))"

definition get_switch_project :: "config \<Rightarrow> handled" where
  "get_switch_project cfg = rejected cfg (respond_ok ''switch-project'' (switch_project_value cfg))"

definition put_switch_project :: "(config \<Rightarrow> string option) \<Rightarrow> config \<Rightarrow> bool option \<Rightarrow> handled" where
  "put_switch_project save cfg v = (case v of
     None \<Rightarrow> rejected cfg bool_expected
   | Some b \<Rightarrow> put_unlocked ''switch-project'' switch_project_value save
       (cfg\<lparr>cf_quota_exceeded := (cf_quota_exceeded cfg)\<lparr>qx_switch_project := b\<rparr>\<rparr>))"

definition get_switch_preview_model :: "config \<Rightarrow> handled" where
  "get_switch_preview_model cfg = rejected cfg (respond_ok ''switch-preview-model'' (switch_preview_value cfg))"

definition put_switch_preview_model :: "(config \<Rightarrow> string option) \<Rightarrow> config \<Rightarrow> bool option \<Rightarrow> handled" where
  "put_switch_preview_model save cfg v = (case v of
     None \<Rightarrow> rejected cfg bool_expected
   | Some b \<Rightarrow> put_unlocked ''switch-preview-model'' switch_preview_value save
       (cfg\<lparr>cf_quota_exceeded := (cf_quota_exceeded cfg)\<lparr>qx_switch_preview_model := b\<rparr>\<rparr>))"

subsection \<open>Lists\<close>

text \<open>A body is a bare list, or an object with the list under \<open>items\<close>.\<close>

datatype 'a list_body = Unreadable | Unparsed | BareList "'a list" | Items "'a list"

definition list_of_body :: "'a list_body \<Rightarrow> reply + 'a list" where
  "list_of_body b = (case b of
     Unreadable \<Rightarrow> Inl (respond_bad_request ''failed to read body'')
   | Unparsed \<Rightarrow> Inl (respond_bad_request ''invalid body'')
   | BareList xs \<Rightarrow> Inr xs
   | Items xs \<Rightarrow> if xs = [] then Inl (respond_bad_request ''invalid body'') else Inr xs)"

definition persisted :: "lock_op list \<Rightarrow> (config \<Rightarrow> string option) \<Rightarrow> config \<Rightarrow> handled" where
  "persisted ops save cfg = \<lparr>hd_ops = ops, hd_config = cfg, hd_reply = persist_reply save cfg\<rparr>"

record list_patch =
  lp_old :: "string option"
  lp_new :: "string option"
  lp_index :: "int option"
  lp_value :: "string option"

primrec replace_first :: "string \<Rightarrow> string \<Rightarrow> string list \<Rightarrow> string list option" where
  "replace_first old new [] = None"
| "replace_first old new (x # xs) =
     (if x = old then Some (new # xs) else map_option (Cons x) (replace_first old new xs))"

definition patch_string_list :: "string list \<Rightarrow> list_patch option \<Rightarrow> reply + string list" where
  "patch_string_list target body = (case body of
     None \<Rightarrow> Inl (respond_bad_request ''invalid body'')
   | Some b \<Rightarrow>
       (let by_name = (case (lp_old b, lp_new b) of
            (Some old, Some new) \<Rightarrow>
              Inr (case replace_first old new target of Some xs \<Rightarrow> xs | None \<Rightarrow> target @ [new])
          | _ \<Rightarrow> Inl (respond_bad_request ''missing fields''))
        in case (lp_index b, lp_value b) of
            (Some i, Some v) \<Rightarrow>
              if 0 \<le> i \<and> i < int (length target) then Inr (target[nat i := v]) else by_name
          | _ \<Rightarrow> by_name))"

text \<open>\<open>idx\<close> is what \<open>Sscanf\<close> reads of the parameter \<open>index\<close>, if anything.\<close>

definition delete_from_string_list :: "string list \<Rightarrow> int option \<Rightarrow> string \<Rightarrow> reply + string list" where
  "delete_from_string_list target idx value =
     (let by_value = (if trim_space value \<noteq> []
            then Inr (filter (\<lambda>v. trim_space v \<noteq> trim_space value) target)
            else Inl (respond_bad_request ''missing index or value''))
      in case idx of
          Some i \<Rightarrow> if 0 \<le> i \<and> i < int (length target)
                    then Inr (take (nat i) target @ drop (nat i + 1) target) else by_value
        | None \<Rightarrow> by_value)"

definition get_api_keys :: "config \<Rightarrow> handled" where
  "get_api_keys = get_field ''api-keys'' (\<lambda>c. JArr (map JStr (cf_api_keys c)))"

text \<open>The keys are changed without \<open>cfgMu\<close>.\<close>

definition set_api_keys :: "(config \<Rightarrow> string option) \<Rightarrow> config \<Rightarrow> reply + string list \<Rightarrow> handled" where
  "set_api_keys save cfg r = (case r of
     Inl e \<Rightarrow> rejected cfg e
   | Inr keys \<Rightarrow> persisted persist_ops save (cfg\<lparr>cf_api_keys := keys, cf_access_providers := []\<rparr>))"

definition put_api_keys :: "(config \<Rightarrow> string option) \<Rightarrow> config \<Rightarrow> string list_body \<Rightarrow> handled" where
  "put_api_keys save cfg body = set_api_keys save cfg (list_of_body body)"

definition patch_api_keys :: "(config \<Rightarrow> string option) \<Rightarrow> config \<Rightarrow> list_patch option \<Rightarrow> handled" where
  "patch_api_keys save cfg body = set_api_keys save cfg (patch_string_list (cf_api_keys cfg) body)"

definition delete_api_keys :: "(config \<Rightarrow> string option) \<Rightarrow> config \<Rightarrow> int option \<Rightarrow> string \<Rightarrow> handled" where
  "delete_api_keys save cfg idx value =
     set_api_keys save cfg (delete_from_string_list (cf_api_keys cfg) idx value)"

subsection \<open>Excluded models and providers\<close>

definition excluded_value :: "config \<Rightarrow> jval" where
  "excluded_value c = JObj (map (\<lambda>(k, v). (k, JArr (map JStr v)))
     (normalize_oauth_excluded (cf_oauth_excluded c)))"

definition get_oauth_excluded_models :: "config \<Rightarrow> handled" where
  "get_oauth_excluded_models = get_field ''oauth-excluded-models'' excluded_value"

text \<open>\<open>Items\<close> may be empty here.\<close>

definition put_oauth_excluded_models ::
  "(config \<Rightarrow> string option) \<Rightarrow> config \<Rightarrow> (string \<times> string list) list_body \<Rightarrow> handled" where
  "put_oauth_excluded_models save cfg body =
     (let store = (\<lambda>es. persisted (write_cfg_ops @ persist_ops) save
            (cfg\<lparr>cf_oauth_excluded := normalize_oauth_excluded es\<rparr>))
      in case body of
          Unreadable \<Rightarrow> rejected cfg (respond_bad_request ''failed to read body'')
        | Unparsed \<Rightarrow> rejected cfg (respond_bad_request ''invalid body'')
        | BareList es \<Rightarrow> store es
        | Items es \<Rightarrow> store es)"

text \<open>The write lock is released when the handler returns, so it is held while the settings are
  saved.\<close>

definition held_while :: "lock_op list \<Rightarrow> lock_op list" where
  "held_while ops = lock_cfg_ops @ ops @ [UnlockCfg]"

definition drop_excluded :: "(config \<Rightarrow> string option) \<Rightarrow> config \<Rightarrow> string \<Rightarrow> handled" where
  "drop_excluded save cfg provider =
     (if mget (cf_oauth_excluded cfg) provider = None
      then \<lparr>hd_ops = held_while [], hd_config = cfg,
            hd_reply = respond_not_found ''provider not found''\<rparr>
      else persisted (held_while persist_ops) save
             (cfg\<lparr>cf_oauth_excluded := mdel provider (cf_oauth_excluded cfg)\<rparr>))"

definition patch_oauth_excluded_models ::
  "(config \<Rightarrow> string option) \<Rightarrow> config \<Rightarrow> (string option \<times> string list) option \<Rightarrow> handled" where
  "patch_oauth_excluded_models save cfg body = (case body of
     Some (Some p, models) \<Rightarrow>
       (let provider = norm_key p; normalized = normalize_excluded_models models in
        if provider = [] then rejected cfg (respond_bad_request ''invalid provider'')
        else if normalized = [] then drop_excluded save cfg provider
        else persisted (held_while persist_ops) save
               (cfg\<lparr>cf_oauth_excluded := mput provider normalized (cf_oauth_excluded cfg)\<rparr>))
   | _ \<Rightarrow> rejected cfg (respond_bad_request ''invalid body''))"

definition delete_oauth_excluded_models ::
  "(config \<Rightarrow> string option) \<Rightarrow> config \<Rightarrow> string \<Rightarrow> handled" where
  "delete_oauth_excluded_models save cfg p =
     (if norm_key p = [] then rejected cfg (respond_bad_request ''missing provider'')
      else drop_excluded save cfg (norm_key p))"

definition get_providers :: "(provider_entry \<Rightarrow> jval) \<Rightarrow> config \<Rightarrow> handled" where
  "get_providers print_provider = get_field ''providers'' (\<lambda>c. JArr (map print_provider (cf_providers c)))"

definition put_providers ::
  "(config \<Rightarrow> string option) \<Rightarrow> config \<Rightarrow> provider_entry list_body \<Rightarrow> handled" where
  "put_providers save cfg body = (case list_of_body body of
     Inl e \<Rightarrow> rejected cfg e
   | Inr ps \<Rightarrow> persisted (write_cfg_ops @ persist_ops) save
       (cfg\<lparr>cf_providers := sanitize_providers ps\<rparr>))"

definition delete_provider ::
  "(config \<Rightarrow> string option) \<Rightarrow> config \<Rightarrow> bool \<Rightarrow> int option \<Rightarrow> handled" where
  "delete_provider save cfg given idx =
     (let ps = cf_providers cfg;
          bad = respond_bad_request ''missing or invalid index''
      in if \<not> given then rejected cfg bad
         else case idx of
           Some i \<Rightarrow>
             if 0 \<le> i \<and> i < int (length ps)
             then persisted (write_cfg_ops @ persist_ops) save
                    (cfg\<lparr>cf_providers := take (nat i) ps @ drop (nat i + 1) ps\<rparr>)
             else \<lparr>hd_ops = write_cfg_ops, hd_config = cfg, hd_reply = bad\<rparr>
         | None \<Rightarrow> \<lparr>hd_ops = write_cfg_ops, hd_config = cfg, hd_reply = bad\<rparr>)"

subsection \<open>The whole file\<close>

text \<open>\<open>PUT /config.yaml\<close>: the body, up to its limit, is checked through a temporary file, written
  with its comments dedented, and loaded from there. \<open>temp\<close> is an error with the temporary file,
  \<open>spoiled\<close> what a failed write leaves in the file; the result has the content of the file.\<close>

definition max_config_size :: nat where "max_config_size = 10 * 1024 * 1024"

definition load_error_text :: "load_error \<Rightarrow> string" where
  "load_error_text e = (case e of
     ReadFailed _ \<Rightarrow> ''failed to read config file''
   | ParseFailed t \<Rightarrow> ''failed to parse config file: '' @ t)"

definition put_config_yaml ::
  "(string \<Rightarrow> config \<Rightarrow> string + config) \<Rightarrow> string option \<Rightarrow> string option
     \<Rightarrow> config \<Rightarrow> string \<Rightarrow> string option \<Rightarrow> handled \<times> string" where
  "put_config_yaml unmarshal temp spoiled cfg old body = (case body of
     None \<Rightarrow> (rejected cfg (Failed 400 ''INVALID_REQUEST'' ''cannot read request body''), old)
   | Some whole \<Rightarrow> let b = take max_config_size whole in
     (case unmarshal b zero_config of
        Inl e \<Rightarrow> (rejected cfg (Failed 400 ''INVALID_REQUEST'' e), old)
      | Inr _ \<Rightarrow>
      (case temp of
         Some e \<Rightarrow> (rejected cfg (Failed 500 ''WRITE_FAILED'' e), old)
       | None \<Rightarrow>
       (case load_config_optional unmarshal (Inr b) False of
          Inl e \<Rightarrow> (rejected cfg (Failed 422 ''INVALID_CONFIG'' (load_error_text e)), old)
        | Inr _ \<Rightarrow>
         (case spoiled of
            Some rest \<Rightarrow>
              (\<lparr>hd_ops = [LockFile, UnlockFile], hd_config = cfg,
                hd_reply = Failed 500 ''WRITE_FAILED'' ''failed to write config''\<rparr>, rest)
          | None \<Rightarrow> let data = normalize_comment_indentation b in
             (case load_config unmarshal (Inr data) of
                Inl e \<Rightarrow> (\<lparr>hd_ops = [LockFile, UnlockFile], hd_config = cfg,
                           hd_reply = Failed 500 ''RELOAD_FAILED'' (load_error_text e)\<rparr>, data)
              | Inr cfg' \<Rightarrow> (\<lparr>hd_ops = [LockFile] @ write_cfg_ops @ [UnlockFile], hd_config = cfg',
                  hd_reply = Done (JObj [(''ok'', JBool True), (''changed'', JArr [JStr ''config''])])\<rparr>,
                  data)))))))"

section \<open>Who is answered\<close>

text \<open>What the requests of the interface run, after the access check; and a reload of the settings.
  The two handlers of the excluded models that save under the write lock are left out.\<close>

inductive served :: "lock_op list \<Rightarrow> bool" where
  "served (middleware_ops l n)"
| "served set_config_ops"
| "h \<in> {get_debug cfg, get_usage_enabled cfg, get_logging_to_file cfg, get_request_log cfg,
     get_websocket_auth cfg, get_request_retry cfg, get_max_retry_interval cfg, get_proxy_url cfg,
     get_switch_project cfg, get_switch_preview_model cfg, get_api_keys cfg,
     get_oauth_excluded_models cfg, get_providers print_provider cfg,
     put_debug save cfg b, put_usage_enabled save cfg b, put_logging_to_file save cfg b,
     put_request_log save cfg b, put_websocket_auth save cfg b, put_switch_project save cfg b,
     put_switch_preview_model save cfg b, put_request_retry save cfg n, put_max_retry_interval save cfg n,
     put_proxy_url save cfg u, delete_proxy_url save cfg, put_api_keys save cfg keys,
     patch_api_keys save cfg change, delete_api_keys save cfg n value,
     put_oauth_excluded_models save cfg entries, put_providers save cfg ps,
     delete_provider save cfg given n, fst (put_config_yaml unmarshal temp spoiled cfg old u)} \<Longrightarrow>
     served (middleware_ops l noted @ hd_ops h)"
| "served (middleware_ops l noted @ fst (get_config cfg))"

text \<open>A request takes its locks in order: the file before the settings, never another lock inside the
  lock of the settings.\<close>

fun disciplined :: "locks_held \<Rightarrow> lock_op list \<Rightarrow> bool" where
  "disciplined h [] = (h = no_locks)"
| "disciplined h (l # ls) =
     ((case l of
         RLockCfg \<Rightarrow> h_cfg h = NoHold \<and> \<not> h_attempts h
       | AnnounceCfg \<Rightarrow> h_cfg h = NoHold \<and> \<not> h_attempts h
       | RUnlockCfg \<Rightarrow> h_cfg h = Reading
       | LockCfg \<Rightarrow> h_cfg h = Announced
       | UnlockCfg \<Rightarrow> h_cfg h = Writing
       | LockFile \<Rightarrow> h = no_locks
       | UnlockFile \<Rightarrow> h_cfg h = NoHold \<and> \<not> h_attempts h \<and> h_file h
       | LockAttempts \<Rightarrow> h = no_locks
       | UnlockAttempts \<Rightarrow> h_cfg h = NoHold \<and> h_attempts h)
      \<and> disciplined (take_lock l h) ls)"

lemmas ops_defs = get_config_ops_def write_cfg_ops_def lock_cfg_ops_def persist_ops_def set_config_ops_def

lemma disciplined_append:
  "disciplined h xs \<Longrightarrow> disciplined no_locks ys \<Longrightarrow> disciplined h (xs @ ys)"
  by (induction h xs rule: disciplined.induct) auto

lemma disciplined_parts [simp]:
  "disciplined no_locks get_config_ops" "disciplined no_locks write_cfg_ops"
  "disciplined no_locks persist_ops" "disciplined no_locks (middleware_ops l n)"
  "disciplined no_locks set_config_ops" "disciplined no_locks [LockFile, UnlockFile]"
  "disciplined no_locks ([LockFile] @ write_cfg_ops @ [UnlockFile])"
  by (simp_all add: ops_defs middleware_ops_def no_locks_def)

lemma disciplined_handled [simp]:
  "disciplined no_locks (hd_ops (rejected cfg r))"
  "disciplined no_locks (hd_ops (get_field name get cfg))"
  "disciplined no_locks (hd_ops (put_field name get save cfg))"
  "disciplined no_locks (hd_ops (put_unlocked name get save cfg))"
  "disciplined no_locks ops \<Longrightarrow> disciplined no_locks (hd_ops (persisted ops save cfg))"
  by (simp_all add: rejected_def no_locks_def [symmetric] get_field_def put_field_def put_unlocked_def
      persisted_def disciplined_append split: option.splits)


lemmas put_defs = put_debug_def put_usage_enabled_def put_logging_to_file_def put_request_log_def
  put_websocket_auth_def put_switch_project_def put_switch_preview_model_def put_request_retry_def
  put_max_retry_interval_def put_proxy_url_def

lemmas get_defs = get_debug_def get_usage_enabled_def get_logging_to_file_def get_request_log_def
  get_websocket_auth_def get_request_retry_def get_max_retry_interval_def get_proxy_url_def
  get_switch_project_def get_switch_preview_model_def get_api_keys_def get_oauth_excluded_models_def
  get_providers_def delete_proxy_url_def

lemma disciplined_gets [simp]:
  "disciplined no_locks (hd_ops (get_debug cfg))"
  "disciplined no_locks (hd_ops (get_usage_enabled cfg))"
  "disciplined no_locks (hd_ops (get_logging_to_file cfg))"
  "disciplined no_locks (hd_ops (get_request_log cfg))"
  "disciplined no_locks (hd_ops (get_websocket_auth cfg))"
  "disciplined no_locks (hd_ops (get_request_retry cfg))"
  "disciplined no_locks (hd_ops (get_max_retry_interval cfg))"
  "disciplined no_locks (hd_ops (get_proxy_url cfg))"
  "disciplined no_locks (hd_ops (get_switch_project cfg))"
  "disciplined no_locks (hd_ops (get_switch_preview_model cfg))"
  "disciplined no_locks (hd_ops (get_api_keys cfg))"
  "disciplined no_locks (hd_ops (get_oauth_excluded_models cfg))"
  "disciplined no_locks (hd_ops (get_providers print_provider cfg))"
  "disciplined no_locks (hd_ops (delete_proxy_url save cfg))"
  by (simp_all add: get_defs)

lemma disciplined_puts [simp]:
  "disciplined no_locks (hd_ops (put_debug save cfg b))"
  "disciplined no_locks (hd_ops (put_usage_enabled save cfg b))"
  "disciplined no_locks (hd_ops (put_logging_to_file save cfg b))"
  "disciplined no_locks (hd_ops (put_request_log save cfg b))"
  "disciplined no_locks (hd_ops (put_websocket_auth save cfg b))"
  "disciplined no_locks (hd_ops (put_switch_project save cfg b))"
  "disciplined no_locks (hd_ops (put_switch_preview_model save cfg b))"
  "disciplined no_locks (hd_ops (put_request_retry save cfg n))"
  "disciplined no_locks (hd_ops (put_max_retry_interval save cfg n))"
  "disciplined no_locks (hd_ops (put_proxy_url save cfg u))"
  by (simp_all add: put_defs split: option.splits)

lemma disciplined_lists [simp]:
  "disciplined no_locks (hd_ops (put_api_keys save cfg keys))"
  "disciplined no_locks (hd_ops (patch_api_keys save cfg change))"
  "disciplined no_locks (hd_ops (delete_api_keys save cfg n value))"
  "disciplined no_locks (hd_ops (put_oauth_excluded_models save cfg entries))"
  "disciplined no_locks (hd_ops (put_providers save cfg ps))"
  "disciplined no_locks (hd_ops (delete_provider save cfg given n))"
  by (simp_all add: put_api_keys_def patch_api_keys_def delete_api_keys_def set_api_keys_def
      put_oauth_excluded_models_def put_providers_def delete_provider_def disciplined_append Let_def
      split: sum.splits list_body.splits option.splits)

lemma disciplined_config_yaml [simp]:
  "disciplined no_locks (hd_ops (fst (put_config_yaml unmarshal temp spoiled cfg old u)))"
proof -
  have two: "disciplined no_locks [LockFile, UnlockFile]"
    "disciplined no_locks (LockFile # write_cfg_ops @ [UnlockFile])"
    using disciplined_parts(7) by (simp_all del: disciplined.simps)
  show ?thesis
    unfolding put_config_yaml_def Let_def
    by (simp del: disciplined.simps add: two split: option.split sum.split)
qed

lemma served_disciplined: "served p \<Longrightarrow> disciplined no_locks p"
proof (induction rule: served.induct)
  case (3 h)
  then have "disciplined no_locks (hd_ops h)" by (elim insertE emptyE) simp_all
  then show ?case by (simp add: disciplined_append)
qed (simp_all add: get_config_def disciplined_append)

section \<open>Every request is answered\<close>

definition all_answered :: "requests \<Rightarrow> bool" where
  "all_answered ts = list_all (\<lambda>t. snd t = []) ts"

definition all_disciplined :: "requests \<Rightarrow> bool" where
  "all_disciplined ts = list_all (\<lambda>t. disciplined (fst t) (snd t)) ts"

lemma all_disciplined_nth:
  "all_disciplined ts \<longleftrightarrow> (\<forall>i < length ts. disciplined (fst (ts ! i)) (snd (ts ! i)))"
  by (simp add: all_disciplined_def list_all_length)

lemma step_disciplined: "lock_step ts ts' \<Longrightarrow> all_disciplined ts \<Longrightarrow> all_disciplined ts'"
proof (induction rule: lock_step.induct)
  case (1 i ts h l ls)
  then have "disciplined (take_lock l h) ls" by (force simp: all_disciplined_nth)
  then show ?case using 1 by (auto simp: all_disciplined_nth nth_list_update)
qed

lemma can_step:
  assumes "i < length ts" "ts ! i = (h, l # ls)" "returns l (map fst ts)"
  shows "\<exists>ts'. lock_step ts ts'"
  using lock_step.intros [OF assms] by blast

lemma progress:
  assumes d: "all_disciplined ts" and u: "\<not> all_answered ts"
  shows "\<exists>ts'. lock_step ts ts'"
proof -
  have at: "\<exists>l ls. ts ! i = (h, l # ls) \<and> disciplined h (l # ls)"
    if "i < length ts" "fst (ts ! i) = h" "h \<noteq> no_locks" for i h
  proof -
    have "disciplined h (snd (ts ! i))" using d that by (auto simp: all_disciplined_nth)
    then show ?thesis using that by (cases "ts ! i"; cases "snd (ts ! i)") auto
  qed
  have reading: ?thesis if i: "i < length ts" and c: "h_cfg (fst (ts ! i)) = Reading" for i
  proof -
    obtain l ls where l: "ts ! i = (fst (ts ! i), l # ls)" "disciplined (fst (ts ! i)) (l # ls)"
      using at [OF i refl] c by (force simp: no_locks_def)
    then have "l = RUnlockCfg" using c by (cases l) (auto simp: no_locks_def)
    then show ?thesis using can_step [OF i l(1)] by (simp add: returns_def)
  qed
  have writing: ?thesis if i: "i < length ts"
      and c: "h_cfg (fst (ts ! i)) = Announced \<or> h_cfg (fst (ts ! i)) = Writing"
      and r: "\<forall>j < length ts. h_cfg (fst (ts ! j)) \<noteq> Reading" for i
  proof -
    obtain l ls where l: "ts ! i = (fst (ts ! i), l # ls)" "disciplined (fst (ts ! i)) (l # ls)"
      using at [OF i refl] c by (force simp: no_locks_def)
    then have "l = LockCfg \<or> l = UnlockCfg" using c by (cases l) (auto simp: no_locks_def)
    then show ?thesis using can_step [OF i l(1)] r
      by (auto simp: returns_def list_all_length)
  qed
  show ?thesis
  proof (cases "\<exists>i < length ts. h_cfg (fst (ts ! i)) \<noteq> NoHold")
    case True
    then obtain i where i: "i < length ts" "h_cfg (fst (ts ! i)) \<noteq> NoHold" by blast
    show ?thesis
    proof (cases "\<exists>j < length ts. h_cfg (fst (ts ! j)) = Reading")
      case False
      then show ?thesis using writing [OF i(1)] i by (cases "h_cfg (fst (ts ! i))") auto
    qed (use reading in blast)
  next
    case False
    then have free: "\<forall>j < length ts. h_cfg (fst (ts ! j)) = NoHold" by blast
    show ?thesis
    proof (cases "\<exists>i < length ts. fst (ts ! i) \<noteq> no_locks")
      case True
      then obtain i where i: "i < length ts" "fst (ts ! i) \<noteq> no_locks" by blast
      then obtain l ls where l: "ts ! i = (fst (ts ! i), l # ls)" "disciplined (fst (ts ! i)) (l # ls)"
        using at by blast
      then have "returns l (map fst ts)"
        using free i by (cases l) (auto simp: returns_def list_all_length)
      then show ?thesis by (rule can_step [OF i(1) l(1)])
    next
      case False
      then obtain i where i: "i < length ts" "snd (ts ! i) \<noteq> []"
        using u by (auto simp: all_answered_def list_all_length)
      then obtain l ls where "ts ! i = (fst (ts ! i), l # ls)"
        by (cases "ts ! i"; cases "snd (ts ! i)") auto
      moreover have "returns l (map fst ts)"
        using False by (cases l) (auto simp: returns_def list_all_length no_locks_def)
      ultimately show ?thesis using can_step i(1) by blast
    qed
  qed
qed

definition ops_left :: "requests \<Rightarrow> nat" where
  "ops_left ts = sum_list (map (\<lambda>t. length (snd t)) ts)"

lemma step_ops_left: "lock_step ts ts' \<Longrightarrow> ops_left ts = Suc (ops_left ts')"
proof (induction rule: lock_step.induct)
  case (1 i ts h l ls)
  then have "sum_list (map (\<lambda>t. length (snd t)) ts)
      = sum_list (map (\<lambda>t. length (snd t)) (take i ts)) + length (l # ls)
        + sum_list (map (\<lambda>t. length (snd t)) (drop (Suc i) ts))"
    by (subst id_take_nth_drop [of i ts]) simp_all
  then show ?case using 1(1) by (simp add: ops_left_def upd_conv_take_nth_drop)
qed

lemma all_finish: "all_disciplined ts \<Longrightarrow> \<exists>ts'. lock_step\<^sup>*\<^sup>* ts ts' \<and> all_answered ts'"
proof (induction "ops_left ts" arbitrary: ts rule: less_induct)
  case less
  show ?case
  proof (cases "all_answered ts")
    case False
    then obtain ts1 where s: "lock_step ts ts1" using progress less(2) by blast
    then obtain ts' where "lock_step\<^sup>*\<^sup>* ts1 ts'" "all_answered ts'"
      using less(1) [of ts1] step_ops_left step_disciplined less(2) by fastforce
    then show ?thesis using s by (meson converse_rtranclp_into_rtranclp)
  qed blast
qed

lemma run_disciplined: "lock_step\<^sup>*\<^sup>* ts ts' \<Longrightarrow> all_disciplined ts \<Longrightarrow> all_disciplined ts'"
  by (induction rule: rtranclp_induct) (auto intro: step_disciplined)

section \<open>Who is never answered\<close>

text \<open>A program that asks for the settings' lock while it holds their write lock.\<close>

fun locks_itself_out :: "locks_held \<Rightarrow> lock_op list \<Rightarrow> bool" where
  "locks_itself_out h [] = False"
| "locks_itself_out h (l # ls) =
     ((l = RLockCfg \<or> l = AnnounceCfg) \<and> (h_cfg h = Announced \<or> h_cfg h = Writing)
      \<or> locks_itself_out (take_lock l h) ls)"

lemma returns_outside:
  "returns l hs \<Longrightarrow> h \<in> set hs \<Longrightarrow> l = RLockCfg \<or> l = AnnounceCfg \<Longrightarrow>
     h_cfg h \<noteq> Announced \<and> h_cfg h \<noteq> Writing"
  by (auto simp: returns_def list_all_iff)

lemma locked_out_step:
  assumes "lock_step ts ts'" "i < length ts" "locks_itself_out (fst (ts ! i)) (snd (ts ! i))"
  shows "i < length ts' \<and> locks_itself_out (fst (ts' ! i)) (snd (ts' ! i))"
  using assms
proof (induction rule: lock_step.induct)
  case (1 j ts h l ls)
  show ?case
  proof (cases "j = i")
    case True
    have "h \<in> set (map fst ts)" using 1(1,2) by (metis fst_conv image_eqI list.set_map nth_mem)
    then have "\<not> ((l = RLockCfg \<or> l = AnnounceCfg) \<and> (h_cfg h = Announced \<or> h_cfg h = Writing))"
      using returns_outside [OF 1(3)] by blast
    then show ?thesis using 1 True by auto
  qed (use 1 in auto)
qed

lemma locked_out_run:
  "lock_step\<^sup>*\<^sup>* ts ts' \<Longrightarrow> i < length ts \<Longrightarrow> locks_itself_out (fst (ts ! i)) (snd (ts ! i)) \<Longrightarrow>
     i < length ts' \<and> locks_itself_out (fst (ts' ! i)) (snd (ts' ! i))"
  by (induction rule: rtranclp_induct) (auto dest: locked_out_step)

lemma locked_out_append:
  "disciplined h xs \<Longrightarrow> locks_itself_out no_locks ys \<Longrightarrow> locks_itself_out h (xs @ ys)"
  by (induction h xs rule: disciplined.induct) auto

lemma held_while_persist: "locks_itself_out no_locks (held_while persist_ops)"
  by (simp add: held_while_def ops_defs no_locks_def)

lemma patch_locks_itself_out:
  assumes "norm_key p \<noteq> []" "normalize_excluded_models models \<noteq> []"
  shows "locks_itself_out no_locks
    (middleware_ops l n @ hd_ops (patch_oauth_excluded_models save cfg (Some (Some p, models))))"
proof -
  have "hd_ops (patch_oauth_excluded_models save cfg (Some (Some p, models))) = held_while persist_ops"
    using assms by (simp add: patch_oauth_excluded_models_def persisted_def Let_def)
  then show ?thesis by (simp add: locked_out_append held_while_persist)
qed

text \<open>What a request that has not got the settings' lock still needs stays undone while another one
  waits for that lock inside its own write lock.\<close>

lemma waits_forever_step:
  assumes "lock_step ts ts'" "i < length ts" "ts ! i = (h, RLockCfg # ls)" "h_cfg h = Writing"
    and "j < length ts" "RLockCfg \<in> set (snd (ts ! j))"
  shows "length ts' = length ts \<and> ts' ! i = ts ! i \<and> RLockCfg \<in> set (snd (ts' ! j))"
  using assms
proof (induction rule: lock_step.induct)
  case (1 k ts h' l ls')
  have "h \<in> set (map fst ts)" using 1(4,5) by (metis fst_conv image_eqI list.set_map nth_mem)
  then have l: "l \<noteq> RLockCfg" using returns_outside [OF 1(3)] 1(6) by force
  then have "k \<noteq> i" using 1(2,5) by auto
  moreover have "RLockCfg \<in> set (snd (ts[k := (take_lock l h', ls')] ! j))"
    using 1 l by (cases "k = j") auto
  ultimately show ?case by simp
qed

lemma waits_forever:
  "lock_step\<^sup>*\<^sup>* ts ts' \<Longrightarrow> i < length ts \<Longrightarrow> ts ! i = (h, RLockCfg # ls) \<Longrightarrow> h_cfg h = Writing \<Longrightarrow>
   j < length ts \<Longrightarrow> RLockCfg \<in> set (snd (ts ! j)) \<Longrightarrow>
   length ts' = length ts \<and> ts' ! i = (h, RLockCfg # ls) \<and> RLockCfg \<in> set (snd (ts' ! j))"
proof (induction rule: rtranclp_induct)
  case (step ts1 ts2)
  then show ?case using waits_forever_step [OF step(2), of i h ls j] by metis
qed simp

section \<open>Properties\<close>



text \<open>
  C5: A PATCH of the excluded models is never answered: it saves the settings while it holds their
  write lock, and saving reads them under the same lock. This is so for every provider and list of
  models that pass the checks, whatever else runs and however the steps interleave.
\<close>
theorem patch_excluded_never_answered:
  assumes "norm_key p \<noteq> []" "normalize_excluded_models models \<noteq> []"
    and "i < length ps"
    and "ps ! i = middleware_ops l n
      @ hd_ops (patch_oauth_excluded_models save cfg (Some (Some p, models)))"
    and "lock_step\<^sup>*\<^sup>* (arrived ps) ts"
  shows "snd (ts ! i) \<noteq> []"
proof -
  have "arrived ps ! i = (no_locks, ps ! i)" "i < length (arrived ps)"
    using assms(3) by (simp_all add: arrived_def)
  then have "locks_itself_out (fst (ts ! i)) (snd (ts ! i))"
    using locked_out_run [OF assms(5)] patch_locks_itself_out [OF assms(1,2)] assms(4) by simp
  then show ?thesis by auto
qed

theorem patch_excluded_never_answered_witness:
  "snd (arrived [middleware_ops True False @ hd_ops (patch_oauth_excluded_models (\<lambda>_. None)
     new_default_config (Some (Some ''claude'', [''m''])))] ! 0) \<noteq> []"
  by (rule patch_excluded_never_answered [where p = "''claude''" and models = "[''m'']" and l = True
        and n = False and save = "\<lambda>_. None" and cfg = new_default_config, OF _ _ _ _ rtranclp.rtrancl_refl])
    (simp_all add: norm_key_def trim_space_def is_space_def normalize_excluded_models_def Let_def)

text \<open>
  After it, the interface is dead: once a request waits for the settings under its own write
  lock, every request that has still to pass the access check, and every request that has still to
  read the settings, waits forever.
\<close>
theorem interface_dead_after:
  assumes "i < length ts" "ts ! i = (h, RLockCfg # ls)" "h_cfg h = Writing"
    and "lock_step\<^sup>*\<^sup>* ts ts'" "j < length ts" "snd (ts ! j) = middleware_ops l n @ rest"
  shows "snd (ts' ! j) \<noteq> []"
  using waits_forever [OF assms(4,1,2,3,5)] assms(6)
  by (auto simp: middleware_ops_def get_config_ops_def)

theorem interface_dead_after_witness:
  "snd ([(no_locks\<lparr>h_cfg := Writing, h_file := True\<rparr>, [RLockCfg, RUnlockCfg, UnlockFile, UnlockCfg]),
     (no_locks, middleware_ops True False)] ! 1) \<noteq> []"
  by (rule interface_dead_after [where i = 0 and ls = "[RUnlockCfg, UnlockFile, UnlockCfg]"
        and h = "no_locks\<lparr>h_cfg := Writing, h_file := True\<rparr>" and l = True and n = False and rest = "[]",
        OF _ _ _ rtranclp.rtrancl_refl]) simp_all

text \<open>
  C23: Only a request with the management key, or a local one with the local password, is let
  through; a remote one only if remote management is on and no ban lasts.
\<close>
theorem admitted_with_key:
  assumes "management_access now later cfg env mkey pw r m = (Admitted, m')"
  shows "mkey \<noteq> []
    \<and> (provided_key (ar_authorization r) (ar_management_key r) = mkey
       \<or> local_client (ar_ip r) \<and> pw \<noteq> [] \<and> provided_key (ar_authorization r) (ar_management_key r) = pw)
    \<and> (local_client (ar_ip r)
       \<or> allow_remote cfg env \<and> (\<forall>ai. mget m (ar_ip r) = Some ai \<longrightarrow>
            at_blocked_until ai = 0 \<or> at_blocked_until ai \<le> now))"
  using assms
  by (auto simp: management_access_def Let_def check_ban_def split: option.splits if_splits)

theorem admitted_with_key_witness:
  "provided_key [] ''k'' = ''k''"
  using admitted_with_key [of 0 0 "Some new_default_config" None "''k''" "[]"
      "\<lparr>ar_ip = ''::1'', ar_authorization = [], ar_management_key = ''k''\<rparr>" "[]" "[]"]
  by (simp add: management_access_def local_client_def provided_key_def Let_def)

text \<open>The attempts after requests that come one after the other.\<close>

primrec attempts_after ::
  "config option \<Rightarrow> string option \<Rightarrow> string \<Rightarrow> string \<Rightarrow> (gotime \<times> gotime \<times> access_request) list
     \<Rightarrow> (string, attempt_info) gomap \<Rightarrow> (string, attempt_info) gomap" where
  "attempts_after cfg env mkey pw [] m = m"
| "attempts_after cfg env mkey pw (t # ts) m =
     attempts_after cfg env mkey pw ts
       (snd (management_access (fst t) (fst (snd t)) cfg env mkey pw (snd (snd t)) m))"

definition wrong_try :: "string \<Rightarrow> string \<Rightarrow> gotime \<times> gotime \<times> access_request \<Rightarrow> bool" where
  "wrong_try ip mkey t \<longleftrightarrow> ar_ip (snd (snd t)) = ip
     \<and> provided_key (ar_authorization (snd (snd t))) (ar_management_key (snd (snd t))) \<noteq> mkey"

lemma wrong_try_noted:
  assumes "\<not> local_client ip" "allow_remote cfg env" "mkey \<noteq> []" "wrong_try ip mkey t"
    and "mget m ip = None \<or> (\<exists>ai. mget m ip = Some ai \<and> at_blocked_until ai = 0)"
  shows "snd (management_access (fst t) (fst (snd t)) cfg env mkey pw (snd (snd t)) m)
    = note_failure (fst (snd t)) ip m"
proof -
  have "check_ban (fst t) ip m = Some m" using assms(5) by (auto simp: check_ban_def)
  then show ?thesis using assms(1-4) by (auto simp: management_access_def Let_def wrong_try_def)
qed

lemma wrong_tries_counted:
  assumes "\<not> local_client ip" "allow_remote cfg env" "mkey \<noteq> []"
  shows "list_all (wrong_try ip mkey) ts \<Longrightarrow>
    mget m ip = Some \<lparr>at_count = c, at_blocked_until = 0\<rparr> \<Longrightarrow> 0 \<le> c \<Longrightarrow> c + int (length ts) < 5 \<Longrightarrow>
    mget (attempts_after cfg env mkey pw ts m) ip
      = Some \<lparr>at_count = c + int (length ts), at_blocked_until = 0\<rparr>"
proof (induction ts arbitrary: m c)
  case (Cons t ts)
  have "snd (management_access (fst t) (fst (snd t)) cfg env mkey pw (snd (snd t)) m)
      = note_failure (fst (snd t)) ip m"
    using Cons.prems by (intro wrong_try_noted assms) auto
  moreover have "mget (note_failure (fst (snd t)) ip m) ip = Some \<lparr>at_count = c + 1, at_blocked_until = 0\<rparr>"
    using Cons.prems by (simp add: note_failure_def Let_def max_failures_def)
  ultimately show ?case using Cons.IH [of "note_failure (fst (snd t)) ip m" "c + 1"] Cons.prems
    by (simp add: algebra_simps)
qed simp

lemma attempts_after_append:
  "attempts_after cfg env mkey pw (xs @ ys) m = attempts_after cfg env mkey pw ys (attempts_after cfg env mkey pw xs m)"
  by (induction xs arbitrary: m) auto

text \<open>
  C22: Five wrong keys in a row ban an address: for half an hour after the fifth, no request from it
  is let through, whatever key it shows, and the ban is not prolonged.
\<close>
theorem five_failures_ban:
  assumes "\<not> local_client ip" "allow_remote cfg env" "mkey \<noteq> []"
    and "length ts = 5" "list_all (wrong_try ip mkey) ts" "mget m ip = None"
    and "0 < fst (snd (last ts))" "now < fst (snd (last ts)) + ban_duration" "ar_ip r = ip"
  shows "management_access now later cfg env mkey pw r (attempts_after cfg env mkey pw ts m)
    = (Refused 403 ''FORBIDDEN'' ''IP banned due to too many failed attempts'',
       attempts_after cfg env mkey pw ts m)"
proof -
  obtain t mid u where ts: "ts = t # mid @ [u]" "length mid = 3"
  proof -
    have "length (tl ts) \<noteq> 0" "length ts \<noteq> 0" using assms(4) by simp_all
    then have "tl ts \<noteq> []" "ts \<noteq> []" by blast+
    then have "ts = hd ts # butlast (tl ts) @ [last (tl ts)]" by simp
    moreover have "length (butlast (tl ts)) = 3" using assms(4) by simp
    ultimately show ?thesis using that by blast
  qed
  let ?m1 = "note_failure (fst (snd t)) ip m"
  let ?m4 = "attempts_after cfg env mkey pw mid ?m1"
  have first: "attempts_after cfg env mkey pw ts m = attempts_after cfg env mkey pw [u] ?m4"
    using wrong_try_noted [OF assms(1-3), of t m pw] assms(5,6) ts
    by (simp add: attempts_after_append)
  have "mget ?m1 ip = Some \<lparr>at_count = 1, at_blocked_until = 0\<rparr>"
    using assms(6) by (simp add: note_failure_def Let_def max_failures_def)
  then have four: "mget ?m4 ip = Some \<lparr>at_count = 4, at_blocked_until = 0\<rparr>"
    using wrong_tries_counted [OF assms(1-3), of mid ?m1 1 pw] assms(5) ts by simp
  have u: "snd (management_access (fst u) (fst (snd u)) cfg env mkey pw (snd (snd u)) ?m4)
      = note_failure (fst (snd u)) ip ?m4"
    using assms(5) ts four by (intro wrong_try_noted assms(1-3)) auto
  have "mget (attempts_after cfg env mkey pw ts m) ip
      = Some \<lparr>at_count = 0, at_blocked_until = fst (snd u) + ban_duration\<rparr>"
    unfolding first using u four by (simp add: note_failure_def Let_def max_failures_def)
  moreover have "fst (snd u) + ban_duration \<noteq> 0" "last ts = u"
    using assms(7) ts by (simp_all add: ban_duration_def minute_def)
  ultimately show ?thesis using assms(1,8,9) by (simp add: management_access_def Let_def check_ban_def)
qed

theorem five_failures_ban_witness:
  "fst (management_access 10 10 (Some (new_default_config\<lparr>cf_allow_remote := True\<rparr>)) None ''k'' []
     \<lparr>ar_ip = ''1.2.3.4'', ar_authorization = ''Bearer k'', ar_management_key = []\<rparr>
     (attempts_after (Some (new_default_config\<lparr>cf_allow_remote := True\<rparr>)) None ''k'' []
       (replicate 5 (1, 2, \<lparr>ar_ip = ''1.2.3.4'', ar_authorization = ''x'', ar_management_key = []\<rparr>)) []))
   = Refused 403 ''FORBIDDEN'' ''IP banned due to too many failed attempts''"
  by (subst five_failures_ban [where ip = "''1.2.3.4''"])
    (simp_all add: local_client_def allow_remote_def wrong_try_def provided_key_def bearer_value_def
      has_prefix_def ban_duration_def minute_def list_all_iff)

end
