(* ===== verification/ModelListing.thy ===== *)
theory ModelListing
  imports ConfigFile ModelCatalog Thinking "HOL-Library.Char_ord" "HOL-Library.List_Lexorder"
begin

text \<open>
  The list of models that a client of the OpenAI interface sees
  (\<open>api/handlers/format/openai/openai_handlers.go\<close>): the entries of the registry, the canonical
  names of the settings' aliases and fallbacks with the model behind each, and the entries that are
  hidden. A \<open>range\<close> loop over a map visits the association list; the names are sorted afterwards, so
  its order does not matter. Strings are compared byte by byte.
\<close>

section \<open>Entries\<close>

definition sanitize_entry :: "model_map \<Rightarrow> (string, field option) gomap" where
  "sanitize_entry m =
     [(''id'', mget m ''id''), (''object'', mget m ''object'')]
     @ (case mget m ''created'' of Some c \<Rightarrow> [(''created'', Some c)] | None \<Rightarrow> [])
     @ [(''owned_by'', mget m ''owned_by'')]"

text \<open>An entry of the answer may hold a nil under a key that the registry does not set.\<close>

type_synonym listed_model = "(string, field option) gomap"

definition sanitize_models :: "model_map list \<Rightarrow> listed_model list" where
  "sanitize_models ms = map sanitize_entry ms"

definition listed_id :: "listed_model \<Rightarrow> string" where
  "listed_id m = (case mget m ''id'' of Some (Some (FStr s)) \<Rightarrow> s | _ \<Rightarrow> [])"

definition clone_model_with_id :: "listed_model \<Rightarrow> string \<Rightarrow> listed_model" where
  "clone_model_with_id m i =
     (let c0 = [(''id'', Some (FStr i)), (''object'', Some (FStr ''model'')),
                (''owned_by'', Some (FStr ''llm-mux''))];
          c1 = (case mget m ''object'' of Some (Some v) \<Rightarrow> mput ''object'' (Some v) c0 | _ \<Rightarrow> c0);
          c2 = (case mget m ''created'' of Some v \<Rightarrow> mput ''created'' v c1 | None \<Rightarrow> c1)
      in case mget m ''owned_by'' of Some (Some v) \<Rightarrow> mput ''owned_by'' (Some v) c2 | _ \<Rightarrow> c2)"

section \<open>Provider variants\<close>

fun index_any :: "string \<Rightarrow> string \<Rightarrow> nat option" where
  "index_any [] cs = None"
| "index_any (c # s) cs = (if c \<in> set cs then Some 0 else map_option Suc (index_any s cs))"

definition prefix_before :: "nat option \<Rightarrow> string \<Rightarrow> string list" where
  "prefix_before i s = (case i of Some n \<Rightarrow> if 0 < n then [take n s] else [] | None \<Rightarrow> [])"

definition collect_provider_prefixes :: "(string, string) gomap \<Rightarrow> string list" where
  "collect_provider_prefixes aliases =
     concat (map (\<lambda>a. prefix_before (index_any a ''/:'') a @ prefix_before (index_of a ''-claude-'') a)
       (mkeys aliases))"

definition is_canonical_alias_candidate :: "string \<Rightarrow> string \<Rightarrow> string list \<Rightarrow> bool" where
  "is_canonical_alias_candidate a target provs =
     (a \<noteq> [] \<and> target \<noteq> [] \<and> a \<noteq> target
      \<and> \<not> contains a ''/'' \<and> \<not> contains a '':''
      \<and> \<not> has_suffix a ''-preview''
      \<and> \<not> list_ex (\<lambda>p. has_prefix a (p @ ''-'')) provs)"

definition looks_like_variant :: "string \<Rightarrow> string list \<Rightarrow> bool" where
  "looks_like_variant i provs =
     list_ex (\<lambda>p. has_prefix i (p @ ''-'') \<or> has_prefix i (p @ ''/'') \<or> has_prefix i (p @ '':'')) provs"

definition hide_provider_variants :: "routing_config option \<Rightarrow> listed_model list \<Rightarrow> listed_model list" where
  "hide_provider_variants ro models = (case ro of
     None \<Rightarrow> models
   | Some r \<Rightarrow>
       if rc_aliases r = [] then models
       else filter (\<lambda>m. listed_id m \<noteq> []
              \<and> \<not> looks_like_variant (listed_id m) (collect_provider_prefixes (rc_aliases r))) models)"

section \<open>Canonical names\<close>

definition canonical_from_aliases :: "routing_config \<Rightarrow> string list \<Rightarrow> string list" where
  "canonical_from_aliases r provs =
     sort (map fst (filter (\<lambda>(a, t). is_canonical_alias_candidate a t provs) (rc_aliases r)))"

definition canonical_from_fallbacks :: "routing_config \<Rightarrow> listed_model list \<Rightarrow> string list \<Rightarrow> string list" where
  "canonical_from_fallbacks r models provs =
     sort (remdups (filter (\<lambda>i. i \<noteq> [] \<and> \<not> looks_like_variant i provs)
       (map listed_id models @ mkeys (rc_fallbacks r))))"

definition collect_canonical_ids :: "routing_config \<Rightarrow> listed_model list \<Rightarrow> string list \<Rightarrow> string list" where
  "collect_canonical_ids r models provs =
     (if to_lower (rc_canonical_source r) = ''fallbacks'' then canonical_from_fallbacks r models provs
      else canonical_from_aliases r provs)"

definition models_by_id :: "listed_model list \<Rightarrow> (string, listed_model) gomap" where
  "models_by_id models =
     fold (\<lambda>m acc. if listed_id m = [] then acc else mput (listed_id m) m acc) models []"

definition next_names :: "routing_config option \<Rightarrow> string \<Rightarrow> string list" where
  "next_names ro current = (case ro of
     None \<Rightarrow> []
   | Some r \<Rightarrow> (case mget (rc_aliases r) current of
         Some n \<Rightarrow> if n \<noteq> current then [n] else [] | None \<Rightarrow> [])
       @ get_fallback_chain ro current)"

definition names_of :: "routing_config option \<Rightarrow> string list" where
  "names_of ro = (case ro of
     None \<Rightarrow> [] | Some r \<Rightarrow> map snd (rc_aliases r) @ concat (map snd (rc_fallbacks r)))"

lemma aliases_in_names:
  "set (case mget m x of Some n \<Rightarrow> if n \<noteq> x then [n] else [] | None \<Rightarrow> []) \<subseteq> snd ` set m"
proof (cases "mget m x")
  case (Some n)
  then have "(x, n) \<in> set m" using map_of_SomeD by fast
  then have "n \<in> snd ` set m" by (rule rev_image_eqI) simp
  then show ?thesis using Some by (cases "n = x") simp_all
qed simp

lemma fallbacks_in_names: "set (get_fallback_chain (Some r) x) \<subseteq> \<Union> (set ` snd ` set (rc_fallbacks r))"
proof (cases "rc_has_fallbacks r")
  case True
  show ?thesis
  proof (cases "mget (rc_fallbacks r) x")
    case (Some ns)
    then have "(x, ns) \<in> set (rc_fallbacks r)" using map_of_SomeD by fast
    then have "ns \<in> snd ` set (rc_fallbacks r)" by (rule rev_image_eqI) simp
    then show ?thesis using Some True by (simp add: get_fallback_chain_def) blast
  qed (simp add: get_fallback_chain_def)
qed (simp add: get_fallback_chain_def)

lemma next_names_subset: "set (next_names ro x) \<subseteq> set (names_of ro)"
proof (cases ro)
  case (Some r)
  show ?thesis
    using aliases_in_names [where m = "rc_aliases r" and x = x] fallbacks_in_names [of r x]
    unfolding Some next_names_def names_of_def option.case set_append set_map set_concat by blast
qed (simp add: next_names_def)

text \<open>The search behind a name goes through aliases and fallbacks, breadth first, and visits no name
  twice; it ends because every turn visits a new name or shortens the queue.\<close>

function backing_search ::
  "routing_config option \<Rightarrow> (string, listed_model) gomap \<Rightarrow> string list \<Rightarrow> string list \<Rightarrow> listed_model option" where
  "backing_search ro by_id [] seen = None"
| "backing_search ro by_id (current # queue) seen =
     (if current = [] \<or> current \<in> set seen then backing_search ro by_id queue seen
      else case mget by_id current of
          Some m \<Rightarrow> Some m
        | None \<Rightarrow> backing_search ro by_id (queue @ next_names ro current) (current # seen))"
  by pat_completeness auto
termination
proof (relation "measures [\<lambda>(ro, by_id, queue, seen). card (set (names_of ro) \<union> set queue - set seen),
    \<lambda>(ro, by_id, queue, seen). length queue]", goal_cases)
  case (2 ro by_id current queue seen)
  have "card (set (names_of ro) \<union> set queue - set seen)
      \<le> card (set (names_of ro) \<union> set (current # queue) - set seen)"
    by (rule card_mono) auto
  then show ?case by auto
next
  case (3 ro by_id current queue seen)
  have "card (set (names_of ro) \<union> set (queue @ next_names ro current) - set (current # seen))
      < card (set (names_of ro) \<union> set (current # queue) - set seen)"
    using 3(1) next_names_subset by (intro psubset_card_mono) auto
  then show ?case by simp
qed simp

definition resolve_backing_model ::
  "routing_config option \<Rightarrow> string \<Rightarrow> (string, listed_model) gomap \<Rightarrow> listed_model option" where
  "resolve_backing_model ro target by_id =
     (if target = [] then None else backing_search ro by_id [target] [])"

fun add_canonical ::
  "routing_config \<Rightarrow> (string, listed_model) gomap \<Rightarrow> string list \<Rightarrow> string list \<Rightarrow> listed_model list" where
  "add_canonical r by_id [] added = []"
| "add_canonical r by_id (i # is) added =
     (if i = [] \<or> \<not> is_canonical_model_allowed (Some r) i \<or> i \<in> set added
      then add_canonical r by_id is added
      else case resolve_backing_model (Some r) i by_id of
          None \<Rightarrow> add_canonical r by_id is added
        | Some m \<Rightarrow> clone_model_with_id m i # add_canonical r by_id is (i # added))"

definition canonicalize_models :: "routing_config option \<Rightarrow> listed_model list \<Rightarrow> listed_model list" where
  "canonicalize_models ro models = (case ro of
     None \<Rightarrow> models
   | Some r \<Rightarrow>
       let provs = collect_provider_prefixes (rc_aliases r) in
       sort_key listed_id (add_canonical r (models_by_id models)
         (collect_canonical_ids r models provs) []))"

definition openai_models :: "routing_config option \<Rightarrow> model_map list \<Rightarrow> listed_model list" where
  "openai_models ro models =
     (let ms = sanitize_models models in
      if should_use_canonical_listing ro then canonicalize_models ro ms
      else if should_hide_provider_models ro then hide_provider_variants ro ms
      else ms)"

section \<open>The search\<close>

text \<open>Names that aliases and fallbacks lead to, without the empty one.\<close>

definition leads_to :: "routing_config option \<Rightarrow> string \<Rightarrow> string \<Rightarrow> bool" where
  "leads_to ro x y \<longleftrightarrow> x \<noteq> [] \<and> y \<in> set (next_names ro x) \<and> y \<noteq> []"

definition backed :: "routing_config option \<Rightarrow> (string, listed_model) gomap \<Rightarrow> string \<Rightarrow> bool" where
  "backed ro by_id x \<longleftrightarrow> x \<noteq> [] \<and> (\<exists>y. (leads_to ro)\<^sup>*\<^sup>* x y \<and> mget by_id y \<noteq> None)"

lemma backed_self: "x \<noteq> [] \<Longrightarrow> mget by_id x \<noteq> None \<Longrightarrow> backed ro by_id x"
  unfolding backed_def by blast

lemma backed_step: "leads_to ro x y \<Longrightarrow> backed ro by_id y \<Longrightarrow> backed ro by_id x"
  unfolding backed_def by (metis converse_rtranclp_into_rtranclp leads_to_def)

text \<open>The names seen have no model, and lead to names seen or waiting.\<close>

definition search_closed ::
  "routing_config option \<Rightarrow> (string, listed_model) gomap \<Rightarrow> string list \<Rightarrow> string list \<Rightarrow> bool" where
  "search_closed ro by_id queue seen \<longleftrightarrow>
     (\<forall>v \<in> set seen. mget by_id v = None \<and> (\<forall>y. leads_to ro v y \<longrightarrow> y \<in> set seen \<union> set queue))"

lemma backed_leaves_seen:
  assumes "search_closed ro by_id queue seen" "(leads_to ro)\<^sup>*\<^sup>* x y" "x \<in> set seen" "mget by_id y \<noteq> None"
  shows "\<exists>z \<in> set queue - set seen. backed ro by_id z"
  using assms(2,3,4)
proof (induction rule: converse_rtranclp_induct)
  case base
  then show ?case using assms(1) by (auto simp: search_closed_def)
next
  case (step x z)
  show ?case
  proof (cases "z \<in> set seen")
    case False
    then have "z \<in> set queue" using assms(1) step(1,4) by (auto simp: search_closed_def)
    moreover have "backed ro by_id z" using step(1,2,5) by (auto simp: backed_def leads_to_def)
    ultimately show ?thesis using False by blast
  qed (use step in blast)
qed

lemma backing_search_iff:
  "search_closed ro by_id queue seen \<Longrightarrow>
   backing_search ro by_id queue seen \<noteq> None \<longleftrightarrow> (\<exists>x \<in> set queue. backed ro by_id x)"
proof (induction ro by_id queue seen rule: backing_search.induct)
  case (2 ro by_id current queue seen)
  show ?case
  proof (cases "current = [] \<or> current \<in> set seen")
    case True
    have closed: "search_closed ro by_id queue seen"
      using 2(3) True by (auto simp: search_closed_def leads_to_def)
    moreover have "backed ro by_id current \<Longrightarrow> \<exists>x \<in> set queue. backed ro by_id x"
    proof -
      assume b: "backed ro by_id current"
      then have "current \<in> set seen" using True by (auto simp: backed_def)
      moreover obtain y where "(leads_to ro)\<^sup>*\<^sup>* current y" "mget by_id y \<noteq> None"
        using b by (auto simp only: backed_def)
      ultimately show ?thesis using backed_leaves_seen [OF closed] by blast
    qed
    ultimately show ?thesis using 2(1) [OF True] True by auto
  next
    case False
    show ?thesis
    proof (cases "mget by_id current")
      case (Some m)
      then show ?thesis using False by (auto intro: backed_self)
    next
      case None
      let ?queue = "queue @ next_names ro current"
      have closed: "search_closed ro by_id ?queue (current # seen)"
        using 2(3) None by (auto simp: search_closed_def leads_to_def)
      note IH = 2(2) [OF False None closed]
      have "(\<exists>x \<in> set ?queue. backed ro by_id x) \<longleftrightarrow> (\<exists>x \<in> set (current # queue). backed ro by_id x)"
      proof
        assume "\<exists>x \<in> set ?queue. backed ro by_id x"
        then obtain x where x: "x \<in> set ?queue" "backed ro by_id x" by blast
        then have "x \<in> set (next_names ro current) \<Longrightarrow> leads_to ro current x"
          using False by (simp add: leads_to_def backed_def)
        then show "\<exists>x \<in> set (current # queue). backed ro by_id x" using x backed_step by fastforce
      next
        assume "\<exists>x \<in> set (current # queue). backed ro by_id x"
        then consider "backed ro by_id current" | x where "x \<in> set queue" "backed ro by_id x" by auto
        then show "\<exists>x \<in> set ?queue. backed ro by_id x"
        proof cases
          case 1
          then obtain y where "(leads_to ro)\<^sup>*\<^sup>* current y" "mget by_id y \<noteq> None"
            by (auto simp only: backed_def)
          then show ?thesis using backed_leaves_seen [OF closed, of current y] by auto
        qed auto
      qed
      then show ?thesis using IH False None by simp
    qed
  qed
qed simp

lemma resolve_backing_iff: "resolve_backing_model ro t by_id \<noteq> None \<longleftrightarrow> backed ro by_id t"
  using backing_search_iff [of ro by_id "[t]" "[]"]
  by (auto simp: resolve_backing_model_def search_closed_def backed_def)

section \<open>The list\<close>

lemma listed_id_clone [simp]: "listed_id (clone_model_with_id m i) = i"
  by (auto simp: listed_id_def clone_model_with_id_def Let_def split: option.splits)

lemma add_canonical_spec:
  "distinct (map listed_id (add_canonical r by_id is added))
   \<and> set (map listed_id (add_canonical r by_id is added)) =
       {i \<in> set is. i \<noteq> [] \<and> is_canonical_model_allowed (Some r) i \<and> backed (Some r) by_id i} - set added"
proof (induction r by_id "is" added rule: add_canonical.induct)
  case (2 r by_id i is' added)
  show ?case
  proof (cases "i = [] \<or> \<not> is_canonical_model_allowed (Some r) i \<or> i \<in> set added")
    case True
    then show ?thesis using 2(1) by auto
  next
    case False
    show ?thesis
    proof (cases "resolve_backing_model (Some r) i by_id")
      case None
      then show ?thesis using 2(2) False resolve_backing_iff [of "Some r" i by_id] by auto
    next
      case (Some m)
      then show ?thesis using 2(3) False resolve_backing_iff [of "Some r" i by_id] by auto
    qed
  qed
qed simp

text \<open>
  C26: The canonical list holds exactly the canonical names that are allowed and behind which the
  aliases and fallbacks lead to a model of the registry, each once, and in order. The search ends
  although aliases and fallbacks may form cycles.
\<close>
theorem canonical_list_exact:
  "set (map listed_id (canonicalize_models (Some r) models)) =
     {i \<in> set (collect_canonical_ids r models (collect_provider_prefixes (rc_aliases r))).
        i \<noteq> [] \<and> is_canonical_model_allowed (Some r) i \<and> backed (Some r) (models_by_id models) i}
   \<and> distinct (map listed_id (canonicalize_models (Some r) models))
   \<and> sorted (map listed_id (canonicalize_models (Some r) models))"
proof -
  note spec = add_canonical_spec [of r "models_by_id models"
      "collect_canonical_ids r models (collect_provider_prefixes (rc_aliases r))" "[]"]
  have "distinct (map listed_id (sort_key listed_id xs)) = distinct (map listed_id xs)" for xs
    by (metis distinct_map distinct_sort set_sort)
  then show ?thesis using spec by (simp add: canonicalize_models_def Let_def)
qed

text \<open>
  An alias with a colon or a slash hides real models. What stands before it counts as the name
  of a provider, so an alias for a variant of a model takes the other variants off the list.
\<close>
theorem alias_hides_models:
  "map listed_id (hide_provider_variants
     (Some (no_routing\<lparr>rc_aliases := [(''gpt-5:fast'', ''gpt-5-mini'')]\<rparr>))
     (sanitize_models [[(''id'', FStr ''gpt-5'')], [(''id'', FStr ''gpt-5-mini'')]])) = [''gpt-5'']"
  by code_simp

end
