(* ===== verification/RequestRouting.thy ===== *)
theory RequestRouting
  imports ConfigFile ModelCatalog Thinking
begin

text \<open>
  From the model name of a request to the credentials (\<open>api/handlers/format/base.go\<close>, with
  \<open>util/provider.go\<close>): profiles and aliases of the settings, provider prefixes and dynamic names,
  the providers that serve the model, and the chain of models that is tried when the first one
  fails. Running a request on a model is the argument \<open>run\<close>, which theory Execution provides; it may
  not return, so the result is an option.
\<close>

section \<open>Names\<close>

text \<open>What the front end reads: the settings, the compatible providers, and the two sorts of the
  registry with its clock.\<close>

record front =
  fr_routing :: "routing_config option"
  fr_compat :: "string list"
  fr_by_priority :: "(string \<times> int) list \<Rightarrow> (string \<times> int) list"
  fr_listing :: "model_map list \<Rightarrow> model_map list"
  fr_newest :: "model_map list \<Rightarrow> model_map list"
  fr_now :: gotime

definition get_provider_name :: "front \<Rightarrow> registry_state \<Rightarrow> string \<Rightarrow> string list" where
  "get_provider_name h s name =
     (if name = [] then [] else get_model_providers (fr_by_priority h) s (normalize_model_id name))"

definition resolve_auto_model :: "front \<Rightarrow> registry_state \<Rightarrow> string \<Rightarrow> string" where
  "resolve_auto_model h s name =
     (if name \<noteq> ''auto'' then name
      else case get_first_available_model (fr_listing h) (fr_newest h) s [] (fr_now h) of
          Inl _ \<Rightarrow> name | Inr i \<Rightarrow> i)"

definition parse_dynamic_model :: "front \<Rightarrow> string \<Rightarrow> (string \<times> string) option" where
  "parse_dynamic_model h name = (case index_of name ''://'' of
     Some i \<Rightarrow> if take i name \<in> set (fr_compat h) then Some (take i name, drop (i + 3) name) else None
   | None \<Rightarrow> None)"

text \<open>Metadata of a request: the chain of fallbacks, or a value of the thinking suffix.\<close>

datatype routed_meta = FallbackChain "string list" | ThinkingMeta meta_value

type_synonym route_meta = "(string, routed_meta) gomap"

definition chain_key :: string where "chain_key = ''routing_fallback_chain''"

definition merge_routing_metadata :: "route_meta \<Rightarrow> route_meta \<Rightarrow> route_meta" where
  "merge_routing_metadata base extra =
     (if base = [] then extra else if extra = [] then base
      else fold (\<lambda>(k, v) m. mput k v m) extra base)"

record request_details =
  rt_providers :: "string list"
  rt_model :: string
  rt_meta :: route_meta

fun resolve_fallback_chain_from ::
  "front \<Rightarrow> registry_state \<Rightarrow> string list \<Rightarrow> string list \<Rightarrow> request_details option" where
  "resolve_fallback_chain_from h s all [] = None"
| "resolve_fallback_chain_from h s all (f # fs) =
     (let name = resolve_model_alias (fr_routing h) (normalize_model_id f);
          ps = get_provider_name h s name
      in if ps = [] then resolve_fallback_chain_from h s all fs
         else Some \<lparr>rt_providers = ps, rt_model = name, rt_meta = [(chain_key, FallbackChain all)]\<rparr>)"

definition resolve_fallback_chain ::
  "front \<Rightarrow> registry_state \<Rightarrow> string list \<Rightarrow> request_details option" where
  "resolve_fallback_chain h s fallbacks = resolve_fallback_chain_from h s fallbacks fallbacks"

definition resolve_fallback_seed :: "front \<Rightarrow> registry_state \<Rightarrow> string \<Rightarrow> request_details option" where
  "resolve_fallback_seed h s seed = resolve_fallback_chain h s (get_fallback_chain (fr_routing h) seed)"

text \<open>The profile of a name: the model, with its alias resolved, and the chain of the profile.\<close>

definition routed_name :: "front \<Rightarrow> string \<Rightarrow> string \<times> string list" where
  "routed_name h clean = (let ro = fr_routing h in
     case resolve_profile_primary ro clean of
       Some p \<Rightarrow> (resolve_model_alias ro (normalize_model_id p), get_profile_fallback_chain ro clean)
     | None \<Rightarrow> (resolve_model_alias ro clean, []))"

definition get_request_details ::
  "front \<Rightarrow> registry_state \<Rightarrow> string \<Rightarrow> string + request_details" where
  "get_request_details h s model_name =
     (let resolved = resolve_auto_model h s model_name;
          specified = extract_provider_from_prefixed_id resolved;
          (clean, chain) = routed_name h (normalize_model_id resolved);
          meta0 = (if chain \<noteq> [] then [(chain_key, FallbackChain chain)] else []);
          (base, thinking) = normalize_gemini_thinking_model clean;
          meta = merge_routing_metadata meta0 (map (apsnd ThinkingMeta) thinking);
          (ps, model) = (case parse_dynamic_model h clean of
              Some (p, m) \<Rightarrow> ([p], m)
            | None \<Rightarrow> (if specified \<noteq> [] then [specified] else get_provider_name h s base, base));
          with_meta = (\<lambda>d. Inr (d\<lparr>rt_meta := merge_routing_metadata meta (rt_meta d)\<rparr>));
          unknown = Inl (''unknown provider for model '' @ model_name)
      in if ps \<noteq> [] then Inr \<lparr>rt_providers = ps, rt_model = model, rt_meta = meta\<rparr>
         else if specified \<noteq> [] then unknown
         else case resolve_fallback_chain h s chain of
             Some d \<Rightarrow> with_meta d
           | None \<Rightarrow> (case resolve_fallback_seed h s model of
               Some d \<Rightarrow> with_meta d | None \<Rightarrow> unknown))"

definition effective_fallback_chain :: "front \<Rightarrow> string \<Rightarrow> route_meta \<Rightarrow> string list" where
  "effective_fallback_chain h model meta = (case mget meta chain_key of
     Some (FallbackChain c) \<Rightarrow> c
   | _ \<Rightarrow> get_fallback_chain (fr_routing h) model)"

section \<open>Running a request\<close>

record api_error =
  ae_status :: int
  ae_text :: string

definition extract_error_details :: "exec_error \<Rightarrow> int" where
  "extract_error_details e = (case er_status e of Some c \<Rightarrow> if c > 0 then c else 500 | None \<Rightarrow> 500)"

definition api_error_of :: "exec_error \<Rightarrow> api_error" where
  "api_error_of e = \<lparr>ae_status = extract_error_details e, ae_text = er_text e\<rparr>"

text \<open>What the loop over the fallbacks returns: the answer, if one came, and the models tried, the
  latest first. \<open>mo\<close> is the registry as the state holds it.\<close>

fun try_fallbacks ::
  "front \<Rightarrow> ('m \<Rightarrow> registry_state)
     \<Rightarrow> (string list \<Rightarrow> string \<Rightarrow> route_meta \<Rightarrow> 'm \<Rightarrow> ((exec_error + 'r) \<times> 'm) option)
     \<Rightarrow> string list \<Rightarrow> string list \<Rightarrow> 'm \<Rightarrow> ('r option \<times> string list \<times> 'm) option" where
  "try_fallbacks h mo run [] attempted m = Some (None, attempted, m)"
| "try_fallbacks h mo run (f # fs) attempted m =
     (case get_request_details h (mo m) f of
        Inl _ \<Rightarrow> try_fallbacks h mo run fs attempted m
      | Inr d \<Rightarrow>
          if rt_providers d = [] \<or> rt_model d \<in> set attempted then try_fallbacks h mo run fs attempted m
          else (case run (rt_providers d) (rt_model d) (rt_meta d) m of
              None \<Rightarrow> None
            | Some (Inr r, m') \<Rightarrow> Some (Some r, rt_model d # attempted, m')
            | Some (Inl _, m') \<Rightarrow> try_fallbacks h mo run fs (rt_model d # attempted) m'))"

text \<open>The answer or the error, the models tried in order, and the state. Answers and streams go the
  same way.\<close>

definition execute_with_auth_manager ::
  "front \<Rightarrow> ('m \<Rightarrow> registry_state)
     \<Rightarrow> (string list \<Rightarrow> string \<Rightarrow> route_meta \<Rightarrow> 'm \<Rightarrow> ((exec_error + 'r) \<times> 'm) option)
     \<Rightarrow> string \<Rightarrow> 'm \<Rightarrow> ((api_error + 'r) \<times> string list \<times> 'm) option" where
  "execute_with_auth_manager h mo run model_name m =
     (case get_request_details h (mo m) model_name of
        Inl t \<Rightarrow> Some (Inl \<lparr>ae_status = 400, ae_text = t\<rparr>, [], m)
      | Inr d \<Rightarrow>
          (case run (rt_providers d) (rt_model d) (rt_meta d) m of
             None \<Rightarrow> None
           | Some (Inr r, m') \<Rightarrow> Some (Inr r, [rt_model d], m')
           | Some (Inl e, m') \<Rightarrow>
               (case try_fallbacks h mo run (effective_fallback_chain h (rt_model d) (rt_meta d))
                       [rt_model d] m' of
                  None \<Rightarrow> None
                | Some (Some r, tried, m'') \<Rightarrow> Some (Inr r, rev tried, m'')
                | Some (None, tried, m'') \<Rightarrow> Some (Inl (api_error_of e), rev tried, m''))))"

text \<open>Counting tokens has no fallbacks.\<close>

definition execute_count_with_auth_manager ::
  "front \<Rightarrow> ('m \<Rightarrow> registry_state)
     \<Rightarrow> (string list \<Rightarrow> string \<Rightarrow> route_meta \<Rightarrow> 'm \<Rightarrow> ((exec_error + 'r) \<times> 'm) option)
     \<Rightarrow> string \<Rightarrow> 'm \<Rightarrow> ((api_error + 'r) \<times> 'm) option" where
  "execute_count_with_auth_manager h mo run model_name m =
     (case get_request_details h (mo m) model_name of
        Inl t \<Rightarrow> Some (Inl \<lparr>ae_status = 400, ae_text = t\<rparr>, m)
      | Inr d \<Rightarrow> map_option (\<lambda>(r, m'). (case r of Inl e \<Rightarrow> Inl (api_error_of e) | Inr x \<Rightarrow> Inr x, m'))
          (run (rt_providers d) (rt_model d) (rt_meta d) m))"

section \<open>Runs that return\<close>

text \<open>A runner that always returns and keeps what it needs for that.\<close>

locale returning_runner =
  fixes run :: "string list \<Rightarrow> string \<Rightarrow> route_meta \<Rightarrow> 'm \<Rightarrow> ((exec_error + 'r) \<times> 'm) option"
    and fit :: "'m \<Rightarrow> bool"
  assumes run_returns: "fit m \<Longrightarrow> \<exists>res m'. run ps model meta m = Some (res, m') \<and> fit m'"
begin

lemma fallbacks_return:
  "fit m \<Longrightarrow> \<exists>r tried m'. try_fallbacks h mo run fs attempted m = Some (r, tried, m') \<and> fit m'"
proof (induction fs arbitrary: attempted m)
  case (Cons f fs)
  show ?case
  proof (cases "get_request_details h (mo m) f")
    case (Inr d)
    obtain res m' where "run (rt_providers d) (rt_model d) (rt_meta d) m = Some (res, m')" "fit m'"
      using run_returns Cons(2) by blast
    then show ?thesis using Cons Inr by (cases res) auto
  qed (use Cons in auto)
qed auto

lemma request_returns:
  assumes "fit m"
  shows "\<exists>res tried m'. execute_with_auth_manager h mo run name m = Some (res, tried, m') \<and> fit m'"
proof (cases "get_request_details h (mo m) name")
  case (Inl t)
  then show ?thesis using assms by (simp add: execute_with_auth_manager_def)
next
  case (Inr d)
  obtain res m1 where r: "run (rt_providers d) (rt_model d) (rt_meta d) m = Some (res, m1)" "fit m1"
    using run_returns assms by blast
  obtain r2 tried m2 where
    "try_fallbacks h mo run (effective_fallback_chain h (rt_model d) (rt_meta d)) [rt_model d] m1
       = Some (r2, tried, m2)" "fit m2"
    using fallbacks_return [OF r(2)] by blast
  then show ?thesis using Inr r
    by (cases res; cases r2) (auto simp: execute_with_auth_manager_def)
qed

end

text \<open>The manager's own execution, without the number of attempts.\<close>

definition manager_run ::
  "resolvers \<Rightarrow> (string \<Rightarrow> nat \<Rightarrow> 'r attempt_env) \<Rightarrow> gotime
     \<Rightarrow> string list \<Rightarrow> string \<Rightarrow> route_meta \<Rightarrow> manager \<Rightarrow> ((exec_error + 'r) \<times> manager) option" where
  "manager_run rs env now ps model meta m =
     map_option (\<lambda>(res, c, m'). (res, m')) (execute rs (env model) ps model m now)"

lemma execute_returns:
  assumes "reg_ok (m_registry m)" "budget_ok (m_budget m)"
  shows "\<exists>res c m'. execute rs env ps model m now = Some (res, c, m')
    \<and> m_budget m' = m_budget m \<and> reg_ok (m_registry m')"
proof -
  have "\<exists>res c m'. attempts_loop rs env (\<lambda>v p. execute_with_provider (v_env v p) (v_breaker_open v) p model)
      True qs model w n n None [] m = Some (res, c, m')
    \<and> c \<le> n \<and> m_budget m' = m_budget m \<and> reg_ok (m_registry m')
    \<and> dom (lookup_entry (m_registry m')) = dom (lookup_entry (m_registry m))" for qs w n
    by (rule attempts_loop_ends [where run = "\<lambda>v p. execute_with_provider (v_env v p) (v_breaker_open v) p model",
          OF execute_ends assms])
  then have "\<exists>res c m'. attempts_loop rs env (\<lambda>v p. execute_with_provider (v_env v p) (v_breaker_open v) p model)
      True qs model w n n None [] m = Some (res, c, m')
    \<and> m_budget m' = m_budget m \<and> reg_ok (m_registry m')" for qs w n by meson
  then show ?thesis
    by (cases "normalize_providers ps = []") (simp_all add: execute_def run_attempts_def Let_def assms)
qed

interpretation served_request: returning_runner "manager_run rs env now"
  "\<lambda>m. reg_ok (m_registry m) \<and> m_budget m = b \<and> budget_ok b" for rs env now b
  by unfold_locales (use execute_returns in \<open>fastforce simp: manager_run_def\<close>)

section \<open>Properties\<close>

text \<open>
  C7: A request of a client ends, with an answer or an error, over all its models, providers,
  credentials and attempts, and the retry budget is what it was before.
\<close>
theorem client_request_ends:
  assumes "reg_ok (m_registry m)" "budget_ok (m_budget m)"
  shows "\<exists>res tried m'. execute_with_auth_manager h m_models (manager_run rs env now) name m = Some (res, tried, m')
    \<and> m_budget m' = m_budget m \<and> reg_ok (m_registry m')"
  using served_request.request_returns [of m "m_budget m" h m_models rs env now name] assms by auto

definition plain_front :: "routing_config option \<Rightarrow> front" where
  "plain_front ro = \<lparr>fr_routing = ro, fr_compat = [''deepseek''], fr_by_priority = (\<lambda>xs. xs),
     fr_listing = (\<lambda>xs. xs), fr_newest = (\<lambda>xs. xs), fr_now = 25\<rparr>"

theorem client_request_ends_witness:
  "\<exists>res tried m'. execute_with_auth_manager (plain_front None) m_models
     (manager_run default_resolvers (\<lambda>_. sample_attempt) sample_time) ''deepseek://m'' sample_manager
     = Some (res, tried, m')"
proof -
  have "budget_ok (m_budget sample_manager)"
    by (simp add: sample_manager_def empty_manager_def register_executor_def new_manager_def)
  then show ?thesis using client_request_ends [OF sample_manager_ok] by blast
qed

definition tried_within :: "nat \<Rightarrow> string list \<Rightarrow> string list \<Rightarrow> bool" where
  "tried_within n attempted tried \<longleftrightarrow> distinct tried \<and> (\<exists>new. tried = new @ attempted \<and> length new \<le> n)"

lemma tried_within_Suc:
  "tried_within n attempted tried \<Longrightarrow> tried_within (Suc n) attempted tried"
  "tried_within n (x # attempted) tried \<Longrightarrow> tried_within (Suc n) attempted tried"
proof -
  show "tried_within n attempted tried \<Longrightarrow> tried_within (Suc n) attempted tried"
    unfolding tried_within_def using le_SucI by blast
  assume "tried_within n (x # attempted) tried"
  then obtain new where "distinct tried" "tried = (new @ [x]) @ attempted" "length (new @ [x]) \<le> Suc n"
    by (auto simp: tried_within_def)
  then show "tried_within (Suc n) attempted tried" unfolding tried_within_def by blast
qed

lemma try_fallbacks_tried:
  "try_fallbacks h mo run fs attempted m = Some (r, tried, m') \<Longrightarrow> distinct attempted \<Longrightarrow>
   tried_within (length fs) attempted tried"
proof (induction fs arbitrary: attempted m)
  case (Cons f fs)
  show ?case
  proof (cases "get_request_details h (mo m) f")
    case (Inl t)
    then have "try_fallbacks h mo run fs attempted m = Some (r, tried, m')" using Cons(2) by simp
    then show ?thesis using Cons(1) [OF _ Cons(3)] by (simp add: tried_within_Suc(1))
  next
    case (Inr d)
    show ?thesis
    proof (cases "rt_providers d = [] \<or> rt_model d \<in> set attempted")
      case True
      then have "try_fallbacks h mo run fs attempted m = Some (r, tried, m')" using Cons(2) Inr by auto
      then show ?thesis using Cons(1) [OF _ Cons(3)] by (simp add: tried_within_Suc(1))
    next
      case False
      then have d: "distinct (rt_model d # attempted)" using Cons(3) by simp
      obtain res m1 where run: "run (rt_providers d) (rt_model d) (rt_meta d) m = Some (res, m1)"
        using False Cons(2) Inr by (cases "run (rt_providers d) (rt_model d) (rt_meta d) m") auto
      show ?thesis
      proof (cases res)
        case (Inl e)
        then have "try_fallbacks h mo run fs (rt_model d # attempted) m1 = Some (r, tried, m')"
          using Cons(2) Inr False run by simp
        then show ?thesis using tried_within_Suc(2) [OF Cons(1) [OF _ d]] by simp
      next
        case (Inr x)
        then have "tried = rt_model d # attempted"
          using run Cons(2) \<open>get_request_details h (mo m) f = Inr d\<close> False by simp
        then have "tried = [rt_model d] @ attempted" by simp
        then show ?thesis unfolding tried_within_def using d by fastforce
      qed
    qed
  qed
qed (auto simp: tried_within_def)


lemma sample_details:
  "get_request_details (plain_front None) new_registry_state ''deepseek://m''
    = Inr \<lparr>rt_providers = [''deepseek''], rt_model = ''m'', rt_meta = []\<rparr>"
  by code_simp


definition gemini_registry :: registry_state where
  "gemini_registry = one_model ''gemini-2.5-pro'' 64000
     \<lparr>th_min = 128, th_max = 32768, th_zero_allowed = False, th_dynamic_allowed = True, th_default_level = [],
      th_budgets = (0, 0, 0, 0)\<rparr>"

definition suffix_front :: front where
  "suffix_front = plain_front (Some (routing_init
     (no_routing\<lparr>rc_fallbacks := [(''old'', [''gemini-2.5-pro-reasoning''])]\<rparr>)))"

text \<open>
  A fallback with a thinking suffix works when the model itself is served and fails, but not
  when no provider serves the model: then the suffix is not taken off the fallback, and the request
  is refused although the fallback alone would be served.
\<close>
theorem suffix_of_fallback_ignored:
  "get_request_details suffix_front gemini_registry ''old'' = Inl ''unknown provider for model old''
   \<and> map_sum id rt_model (get_request_details suffix_front gemini_registry ''gemini-2.5-pro-reasoning'')
       = Inr ''gemini-2.5-pro''"
  by code_simp

end
