(* ===== verification/StreamRelay.thy ===== *)
theory StreamRelay
  imports RequestRouting
begin

text \<open>
  A stream on its way to the client: the goroutine that splits the chunks of the manager into a
  channel of data and a channel for one error (\<open>wrapStreamChannel\<close> of \<open>base.go\<close>), and the loop of the
  handler that selects from both (\<open>handleStreamResult\<close> of \<open>openai_handlers.go\<close>). A select takes any
  case that is ready, so a step relation describes both sides.
\<close>

section \<open>Framing\<close>

definition done_marker :: string where
  "done_marker = ''data: [DONE]'' @ [CHR ''\<newline>'', CHR ''\<newline>'']"

definition frame_chunk :: "string \<Rightarrow> string" where
  "frame_chunk c =
     (if 6 < length c \<and> (has_prefix c ''event:'' \<or> has_prefix c ''data: '') then c
      else ''data: '' @ c @ [CHR ''\<newline>'', CHR ''\<newline>''])"

section \<open>The two sides\<close>

datatype feeder = Feeding | ClosingErrors | ClosingData | FeederGone

datatype relay_end = RelayDone | RelayError api_error | ClientLeft | WriteFailed

record relay_state =
  rl_upstream :: "(string \<times> exec_error option) list"
  rl_feeder :: feeder
  rl_data :: "string list"
  rl_data_open :: bool
  rl_error :: "api_error option"
  rl_errors_open :: bool
  rl_left :: bool
  rl_out :: "string list"
  rl_end :: "relay_end option"

definition relay_start :: "(string \<times> exec_error option) list \<Rightarrow> relay_state" where
  "relay_start up = \<lparr>rl_upstream = up, rl_feeder = Feeding, rl_data = [], rl_data_open = True,
     rl_error = None, rl_errors_open = True, rl_left = False, rl_out = [], rl_end = None\<rparr>"

definition data_capacity :: nat where "data_capacity = 128"

text \<open>The goroutine. The deferred calls close the errors before the data.\<close>

inductive feed_step :: "relay_state \<Rightarrow> relay_state \<Rightarrow> bool" where
  upstream_closed: "rl_feeder s = Feeding \<Longrightarrow> rl_upstream s = [] \<Longrightarrow>
     feed_step s (s\<lparr>rl_feeder := ClosingErrors\<rparr>)"
| upstream_error: "rl_feeder s = Feeding \<Longrightarrow> rl_upstream s = (p, Some e) # up \<Longrightarrow> rl_error s = None \<Longrightarrow>
     feed_step s (s\<lparr>rl_upstream := up, rl_error := Some (api_error_of e), rl_feeder := ClosingErrors\<rparr>)"
| upstream_payload: "rl_feeder s = Feeding \<Longrightarrow> rl_upstream s = (p, None) # up \<Longrightarrow> p \<noteq> [] \<Longrightarrow>
     length (rl_data s) < data_capacity \<Longrightarrow>
     feed_step s (s\<lparr>rl_upstream := up, rl_data := rl_data s @ [p]\<rparr>)"
| upstream_empty: "rl_feeder s = Feeding \<Longrightarrow> rl_upstream s = ([], None) # up \<Longrightarrow>
     feed_step s (s\<lparr>rl_upstream := up\<rparr>)"
| feeder_cancelled: "rl_feeder s = Feeding \<Longrightarrow> rl_left s \<Longrightarrow>
     feed_step s (s\<lparr>rl_feeder := ClosingErrors\<rparr>)"
| close_errors: "rl_feeder s = ClosingErrors \<Longrightarrow>
     feed_step s (s\<lparr>rl_errors_open := False, rl_feeder := ClosingData\<rparr>)"
| close_data: "rl_feeder s = ClosingData \<Longrightarrow>
     feed_step s (s\<lparr>rl_data_open := False, rl_feeder := FeederGone\<rparr>)"

text \<open>The handler; \<open>client_leaves\<close> is the end of the request's context.\<close>

inductive handle_step :: "relay_state \<Rightarrow> relay_state \<Rightarrow> bool" where
  client_leaves: "handle_step s (s\<lparr>rl_left := True\<rparr>)"
| context_done: "rl_end s = None \<Longrightarrow> rl_left s \<Longrightarrow> handle_step s (s\<lparr>rl_end := Some ClientLeft\<rparr>)"
| write_chunk: "rl_end s = None \<Longrightarrow> rl_data s = p # ps \<Longrightarrow>
     handle_step s (s\<lparr>rl_data := ps, rl_out := rl_out s @ [frame_chunk p]\<rparr>)"
| write_fails: "rl_end s = None \<Longrightarrow> rl_data s = p # ps \<Longrightarrow>
     handle_step s (s\<lparr>rl_data := ps, rl_end := Some WriteFailed\<rparr>)"
| data_ended: "rl_end s = None \<Longrightarrow> rl_data s = [] \<Longrightarrow> \<not> rl_data_open s \<Longrightarrow>
     handle_step s (s\<lparr>rl_out := rl_out s @ [done_marker], rl_end := Some RelayDone\<rparr>)"
| error_taken: "rl_end s = None \<Longrightarrow> rl_error s = Some e \<Longrightarrow>
     handle_step s (s\<lparr>rl_error := None, rl_end := Some (RelayError e)\<rparr>)"
| errors_ended: "rl_end s = None \<Longrightarrow> rl_error s = None \<Longrightarrow> \<not> rl_errors_open s \<Longrightarrow> handle_step s s"

definition relay_step :: "relay_state \<Rightarrow> relay_state \<Rightarrow> bool" where
  "relay_step s t \<longleftrightarrow> feed_step s t \<or> handle_step s t"

section \<open>What arrives\<close>

text \<open>The payloads before the first error, and that error.\<close>

fun payloads_of :: "(string \<times> exec_error option) list \<Rightarrow> string list" where
  "payloads_of [] = []"
| "payloads_of ((p, e) # up) =
     (if e \<noteq> None then [] else if p = [] then payloads_of up else p # payloads_of up)"

fun error_of :: "(string \<times> exec_error option) list \<Rightarrow> exec_error option" where
  "error_of [] = None"
| "error_of ((p, e) # up) = (if e \<noteq> None then e else error_of up)"

definition still_fed :: "relay_state \<Rightarrow> string list" where
  "still_fed s = (if rl_feeder s = Feeding then payloads_of (rl_upstream s) else [])"

definition relay_ok :: "(string \<times> exec_error option) list \<Rightarrow> relay_state \<Rightarrow> bool" where
  "relay_ok up s \<longleftrightarrow>
     (rl_feeder s \<noteq> FeederGone \<longrightarrow> rl_data_open s)
     \<and> (rl_feeder s = Feeding \<longrightarrow> error_of (rl_upstream s) = error_of up \<and> rl_error s = None
           \<and> (\<forall>a. rl_end s \<noteq> Some (RelayError a)))
     \<and> (\<forall>a. rl_error s = Some a \<or> rl_end s = Some (RelayError a) \<longrightarrow>
           (\<exists>e. error_of up = Some e \<and> a = api_error_of e))
     \<and> (let payloads = map frame_chunk (payloads_of up) in
         case rl_end s of
           None \<Rightarrow> prefix (rl_out s @ map frame_chunk (rl_data s @ still_fed s)) payloads
             \<and> (\<not> rl_left s \<longrightarrow> rl_out s @ map frame_chunk (rl_data s @ still_fed s) = payloads)
         | Some RelayDone \<Rightarrow> (\<exists>out. rl_out s = out @ [done_marker] \<and> prefix out payloads
             \<and> (\<not> rl_left s \<longrightarrow> out = payloads))
         | Some _ \<Rightarrow> prefix (rl_out s) payloads)"

lemma relay_ok_start: "relay_ok up (relay_start up)"
  by (simp add: relay_ok_def relay_start_def still_fed_def)

lemma feed_ok: "feed_step s t \<Longrightarrow> relay_ok up s \<Longrightarrow> relay_ok up t"
proof (induction rule: feed_step.induct)
  case (upstream_closed s)
  then show ?case by (auto simp: relay_ok_def still_fed_def Let_def split: option.splits relay_end.splits)
next
  case (upstream_error s p e ups)
  then have "error_of up = error_of (rl_upstream s)" unfolding relay_ok_def by metis
  then have "error_of up = Some e" using upstream_error(2) by simp
  moreover have "still_fed s = []" using upstream_error(2) by (simp add: still_fed_def)
  ultimately show ?case using upstream_error by (auto simp: relay_ok_def still_fed_def Let_def split: option.splits relay_end.splits)
next
  case (upstream_payload s p ups)
  then show ?case by (auto simp: relay_ok_def still_fed_def Let_def split: option.splits relay_end.splits)
next
  case (upstream_empty s ups)
  then show ?case by (auto simp: relay_ok_def still_fed_def Let_def split: option.splits relay_end.splits)
next
  case (feeder_cancelled s)
  then show ?case
    by (auto simp: relay_ok_def still_fed_def Let_def prefix_def split: option.splits relay_end.splits)
qed (auto simp: relay_ok_def still_fed_def Let_def split: option.splits relay_end.splits)

lemma handle_ok: "handle_step s t \<Longrightarrow> relay_ok up s \<Longrightarrow> relay_ok up t"
proof (induction rule: handle_step.induct)
  case (data_ended s)
  then have "rl_feeder s = FeederGone" "still_fed s = []" by (auto simp: relay_ok_def still_fed_def)
  then show ?case using data_ended by (auto simp: relay_ok_def Let_def still_fed_def split: option.splits relay_end.splits)
next
  case (write_chunk s p ps)
  then show ?case by (auto simp: relay_ok_def still_fed_def Let_def split: option.splits relay_end.splits)
next
  case (error_taken s e)
  then show ?case
    by (auto simp: relay_ok_def still_fed_def Let_def prefix_def split: option.splits relay_end.splits)
qed (auto simp: relay_ok_def still_fed_def Let_def prefix_def split: option.splits relay_end.splits)

lemma relay_reachable_ok: "relay_step\<^sup>*\<^sup>* (relay_start up) s \<Longrightarrow> relay_ok up s"
  by (induction rule: rtranclp_induct) (auto simp: relay_step_def relay_ok_start dest: feed_ok handle_ok)

lemma feed_relay: "feed_step s t \<Longrightarrow> relay_step\<^sup>*\<^sup>* t u \<Longrightarrow> relay_step\<^sup>*\<^sup>* s u"
  and handle_relay: "handle_step s t \<Longrightarrow> relay_step\<^sup>*\<^sup>* t u \<Longrightarrow> relay_step\<^sup>*\<^sup>* s u"
  by (rule converse_rtranclp_into_rtranclp, simp_all add: relay_step_def)+

text \<open>The goroutine and the handler may take turns until the error is next.\<close>

lemma relayed_up_to_error:
  "rl_upstream s = us \<Longrightarrow> error_of us = Some e \<Longrightarrow> rl_feeder s = Feeding \<Longrightarrow> rl_data s = [] \<Longrightarrow>
   rl_end s = None \<Longrightarrow>
   \<exists>p up out. relay_step\<^sup>*\<^sup>* s (s\<lparr>rl_upstream := (p, Some e) # up, rl_out := out\<rparr>)"
proof (induction us arbitrary: s)
  case (Cons u us)
  obtain p x where u: "u = (p, x)" by fastforce
  show ?case
  proof (cases x)
    case (Some y)
    then have "rl_upstream s = (p, Some e) # us" using Cons(2,3) u by simp
    then have "s\<lparr>rl_upstream := (p, Some e) # us, rl_out := rl_out s\<rparr> = s" by simp
    then show ?thesis by (metis rtranclp.rtrancl_refl)
  next
    case None
    then have up: "rl_upstream s = (p, None) # us" "error_of us = Some e" using Cons(2,3) u by simp_all
    show ?thesis
    proof (cases "p = []")
      case True
      let ?t = "s\<lparr>rl_upstream := us\<rparr>"
      have "feed_step s ?t" using up True Cons(4) by (intro upstream_empty) simp_all
      moreover obtain q up' out where "relay_step\<^sup>*\<^sup>* ?t (?t\<lparr>rl_upstream := (q, Some e) # up', rl_out := out\<rparr>)"
        using Cons(1) [of ?t] up Cons(4-6) by auto
      ultimately have "relay_step\<^sup>*\<^sup>* s (s\<lparr>rl_upstream := (q, Some e) # up', rl_out := out\<rparr>)"
        using feed_relay by simp
      then show ?thesis by blast
    next
      case False
      let ?t = "s\<lparr>rl_upstream := us, rl_data := [p]\<rparr>"
      let ?u = "s\<lparr>rl_upstream := us, rl_out := rl_out s @ [frame_chunk p]\<rparr>"
      have "feed_step s ?t"
        using upstream_payload [OF Cons(4) up(1) False] Cons(5) by (simp add: data_capacity_def)
      moreover have "handle_step ?t ?u"
      proof -
        have "?u = ?t\<lparr>rl_data := [], rl_out := rl_out ?t @ [frame_chunk p]\<rparr>" using Cons(5) by simp
        moreover have "handle_step ?t (?t\<lparr>rl_data := [], rl_out := rl_out ?t @ [frame_chunk p]\<rparr>)"
          by (rule write_chunk) (simp_all add: Cons(6))
        ultimately show ?thesis by (simp only:)
      qed
      moreover obtain q up' out where "relay_step\<^sup>*\<^sup>* ?u (?u\<lparr>rl_upstream := (q, Some e) # up', rl_out := out\<rparr>)"
        using Cons(1) [of ?u] up Cons(4-6) by auto
      ultimately have "relay_step\<^sup>*\<^sup>* s (?u\<lparr>rl_upstream := (q, Some e) # up', rl_out := out\<rparr>)"
        using feed_relay handle_relay by blast
      then have "relay_step\<^sup>*\<^sup>* s (s\<lparr>rl_upstream := (q, Some e) # up', rl_out := out\<rparr>)" by simp
      then show ?thesis by blast
    qed
  qed
qed simp

section \<open>Properties\<close>

text \<open>
  C24: What the client reads is always a part of the stream from its beginning, in order. If the
  stream ends with the marker and the client did not leave, every payload before the first error has
  been written; if it ends with an error, that is the error of the stream.
\<close>
theorem stream_relayed_in_order:
  assumes "relay_step\<^sup>*\<^sup>* (relay_start up) s"
  shows "(\<exists>out marker. rl_out s = out @ marker \<and> prefix out (map frame_chunk (payloads_of up))
      \<and> (marker = [] \<or> marker = [done_marker] \<and> rl_end s = Some RelayDone))
    \<and> (rl_end s = Some RelayDone \<longrightarrow> \<not> rl_left s \<longrightarrow>
        rl_out s = map frame_chunk (payloads_of up) @ [done_marker])
    \<and> (\<forall>a. rl_end s = Some (RelayError a) \<longrightarrow> (\<exists>e. error_of up = Some e \<and> a = api_error_of e))"
proof -
  have ok: "relay_ok up s" by (rule relay_reachable_ok [OF assms])
  have "\<exists>out marker. rl_out s = out @ marker \<and> prefix out (map frame_chunk (payloads_of up))
      \<and> (marker = [] \<or> marker = [done_marker] \<and> rl_end s = Some RelayDone)"
  proof (cases "rl_end s = Some RelayDone")
    case True
    then show ?thesis using ok by (auto simp: relay_ok_def Let_def)
  next
    case False
    then have "prefix (rl_out s) (map frame_chunk (payloads_of up))"
      using ok by (auto simp: relay_ok_def Let_def split: option.splits relay_end.splits dest: append_prefixD)
    then show ?thesis by (intro exI [of _ "rl_out s"] exI [of _ "[]"]) simp
  qed
  then show ?thesis using ok by (auto simp: relay_ok_def Let_def)
qed

theorem stream_relayed_in_order_witness:
  "prefix (rl_out (relay_start [(''x'', None)])) [frame_chunk ''x'']"
  using stream_relayed_in_order [of "[(''x'', None)]" "relay_start [(''x'', None)]"]
  by (auto simp: relay_start_def)

text \<open>
  C32: An error of the stream may be lost. Whatever a stream has sent before its error, the handler
  may take the closed channel of data for the end, and the client reads the marker of a complete
  answer.
\<close>
theorem error_may_look_complete:
  assumes "error_of up = Some e"
  shows "\<exists>s. relay_step\<^sup>*\<^sup>* (relay_start up) s \<and> rl_end s = Some RelayDone \<and> \<not> rl_left s
    \<and> last (rl_out s) = done_marker"
proof -
  obtain p up' out where run: "relay_step\<^sup>*\<^sup>* (relay_start up) ((relay_start up)\<lparr>rl_upstream := (p, Some e) # up', rl_out := out\<rparr>)"
    using relayed_up_to_error [of "relay_start up" up e] assms by (auto simp: relay_start_def)
  let ?s0 = "(relay_start up)\<lparr>rl_upstream := (p, Some e) # up', rl_out := out\<rparr>"
  let ?s1 = "?s0\<lparr>rl_upstream := up', rl_error := Some (api_error_of e), rl_feeder := ClosingErrors\<rparr>"
  let ?s2 = "?s1\<lparr>rl_errors_open := False, rl_feeder := ClosingData\<rparr>"
  let ?s3 = "?s2\<lparr>rl_data_open := False, rl_feeder := FeederGone\<rparr>"
  let ?s4 = "?s3\<lparr>rl_out := out @ [done_marker], rl_end := Some RelayDone\<rparr>"
  have "feed_step ?s0 ?s1" by (rule upstream_error) (simp_all add: relay_start_def)
  moreover have "feed_step ?s1 ?s2" by (rule close_errors) simp
  moreover have "feed_step ?s2 ?s3" by (rule close_data) simp
  moreover have "handle_step ?s3 ?s4" using data_ended [of ?s3] by (simp add: relay_start_def)
  ultimately have "relay_step\<^sup>*\<^sup>* ?s0 ?s4"
    by (blast intro: feed_relay handle_relay rtranclp.rtrancl_refl)
  with run have "relay_step\<^sup>*\<^sup>* (relay_start up) ?s4" by (rule rtranclp_trans)
  then show ?thesis by (intro exI [of _ ?s4]) (simp add: relay_start_def)
qed

definition broken_stream :: exec_error where
  "broken_stream = \<lparr>er_text = ''reset'', er_canceled = False, er_code = None, er_status = Some 502,
     er_category = None, er_own_category = None, er_retry_after = None\<rparr>"

theorem error_may_look_complete_witness:
  "\<exists>s. relay_step\<^sup>*\<^sup>* (relay_start [(''data: x'', None), ([], Some broken_stream)]) s
    \<and> rl_end s = Some RelayDone"
  using error_may_look_complete [of "[(''data: x'', None), ([], Some broken_stream)]" broken_stream] by auto

text \<open>
  Payloads may be lost. While a payload waits in its channel, the handler may take the error
  that came after it, and the client reads the error without the payload.
\<close>
theorem payload_may_be_lost:
  assumes "p \<noteq> []"
  shows "\<exists>s. relay_step\<^sup>*\<^sup>* (relay_start ((p, None) # (q, Some e) # up)) s
    \<and> rl_end s = Some (RelayError (api_error_of e)) \<and> rl_out s = []"
proof -
  let ?s0 = "relay_start ((p, None) # (q, Some e) # up)"
  let ?s1 = "?s0\<lparr>rl_upstream := (q, Some e) # up, rl_data := [p]\<rparr>"
  let ?s2 = "?s1\<lparr>rl_upstream := up, rl_error := Some (api_error_of e), rl_feeder := ClosingErrors\<rparr>"
  let ?s3 = "?s2\<lparr>rl_error := None, rl_end := Some (RelayError (api_error_of e))\<rparr>"
  have "feed_step ?s0 ?s1" using upstream_payload [of ?s0 p] assms by (simp add: relay_start_def data_capacity_def)
  moreover have "feed_step ?s1 ?s2" by (rule upstream_error) (simp_all add: relay_start_def)
  moreover have "handle_step ?s2 ?s3" by (rule error_taken) (simp_all add: relay_start_def)
  ultimately have "relay_step\<^sup>*\<^sup>* ?s0 ?s3"
    by (blast intro: feed_relay handle_relay rtranclp.rtrancl_refl)
  then show ?thesis by (intro exI [of _ ?s3]) (simp add: relay_start_def)
qed

theorem payload_may_be_lost_witness:
  "\<exists>s. relay_step\<^sup>*\<^sup>* (relay_start [(''x'', None), ([], Some broken_stream)]) s \<and> rl_out s = []
    \<and> rl_end s = Some (RelayError (api_error_of broken_stream))"
  using payload_may_be_lost [of "''x''" "[]" broken_stream "[]"] by auto

end
