(* ===== verification/Spec2Isabelle.thy ===== *)
theory Spec2Isabelle
  imports ErrorCategory Backoff RetryBudget Sharding QuotaGroup Timestamps AuthTypes AuthState
    Float64 AuthEntry StickyStore Selector ProviderStats QuotaStrategy QuotaManager RefreshHeap
    AuthRegistry ModelCatalog Execution PayloadSpec
    SchemaClean
    ToolSchema
    Vocabulary
    MalformedCall
    StreamTranslator
    ClaudeRequest
    VertexRequest
    Thinking
    GeminiRequest
    TextSanitize
    OpenaiParse
    OpenaiRequest
    GeminiParse
    ResponsesStream
    YamlMerge
    ConfigFile
    Management
    ModelListing
    RequestRouting
    StreamRelay
begin

text \<open>
  A verification development for llm-mux, a gateway that answers requests in the formats of several
  AI providers with the credentials of others. A request names a model. The gateway finds the
  providers that serve it, picks a credential of one of them, translates the request, sends it,
  translates the answer, and remembers how it went, so that the next pick avoids credentials that
  failed, are out of quota or were revoked. The development models the two halves of that: the
  management of credentials and models (\<open>internal/provider\<close>, \<open>internal/registry\<close>) and the parts of
  the translator that are functions of values (\<open>internal/translator/ir\<close>).

  \<^bold>\<open>Conventions.\<close> A struct is a record, an enumeration a datatype, a string a list of bytes. An
  \<open>int64\<close>, a \<open>time.Time\<close> and a \<open>time.Duration\<close> are integers, with \<open>wrap64\<close>, \<open>unix_nano\<close> and
  \<open>time_sub\<close> where the code can leave the range (theory Prelude). A map is an association list in
  the order a \<open>range\<close> loop happens to visit it, so what holds for every list holds for every order.
  An operation takes the state and, where the code reads the clock, the instant, and returns the new
  state; an error is a value. Code under locks is one step; the two lock-free algorithms
  (RetryBudget, AuthEntry) are step relations over interleavings. What is not in the repository
  (executors, the store, circuit breakers, random numbers, JSON) is an argument.

  \<^bold>\<open>Credentials, bottom up.\<close>
  ErrorCategory (\<open>error_category.go\<close>, \<open>errors.go\<close>): what an error means for a credential.
  Backoff (\<open>resilience/retry.go\<close>, the cooldown ladder of \<open>retry.go\<close>) and RetryBudget
  (also in \<open>resilience/retry.go\<close>): how long to wait and how many retries may run at once, the latter as
  compare-and-swap loops of any number of threads.
  Sharding, Float64, Timestamps, Durations: FNV hashing to shards, the rounding of \<open>float64\<close>, and
  the readers of times and durations in token metadata (\<open>duration.go\<close>).
  AuthTypes, QuotaGroup, AuthState (\<open>types.go\<close>, \<open>quota_group.go\<close>, \<open>state.go\<close>): a credential, the
  state of its models, groups of models that share a quota, and every transition on success and
  failure.
  AuthEntry (\<open>auth_entry.go\<close>): the copy-on-write entry that requests read without a lock.
  StickyStore, Selector (\<open>sticky_store.go\<close>, \<open>selector.go\<close>): round robin with sessions that stick.
  ProviderStats (\<open>provider_stats.go\<close>): scores that order providers.
  QuotaStrategy, QuotaManager (\<open>quota_config.go\<close>, \<open>strategy_*.go\<close>, \<open>quota_manager.go\<close>): selection by quota.
  RefreshHeap (\<open>auth_registry.go\<close>): the schedule of token refreshes, a heap with back-pointers.
  AuthRegistry (\<open>auth_registry.go\<close>): the sharded store of entries, with results, picking, refresh and
  persistence.
  RefreshPolicy, Manager (\<open>refresh.go\<close>, \<open>manager.go\<close>): when tokens are refreshed, and the manager
  that owns registry, executors, budget and statistics.
  Execution (\<open>execution.go\<close>, \<open>retry.go\<close>, \<open>provider_selection.go\<close>): a request over credentials,
  providers and attempts, for answers and streams. The loop over credentials is a partial function
  that is proved to end: every turn adds a credential of the registry to those tried.

  \<^bold>\<open>Models.\<close> ModelRegistry (\<open>registry/state.go\<close>, \<open>model_registration.go\<close>, \<open>model_suspension.go\<close>,
  \<open>model_indexing.go\<close>): which clients serve which model, with counts, suspensions and indices.
  ModelCatalog (\<open>model_query.go\<close>, \<open>model_prefix.go\<close>): what is listed, and the provider prefixes.

  \<^bold>\<open>Translation.\<close> JsonValue: values as decoded JSON. PayloadSpec (\<open>payload_spec.go\<close>,
  \<open>payload_validator.go\<close>): the whitelists of payload fields and the sanitiser.
  SchemaClean (\<open>util.go\<close>): which keywords of a tool's schema reach a provider, by a locale for
  the two recursive cleaners, and the caches in front of them. Gjson: the operations the translator
  uses of a JSON reader, as a record. ToolSchema (\<open>tool_schema.go\<close>): the repair of the names of
  arguments. Vocabulary (\<open>thinking.go\<close>, \<open>util.go\<close>): thinking budgets, finish reasons, roles and
  identifiers. MalformedCall (\<open>util.go\<close>): a call read from the text of a failure message.

  \<^bold>\<open>What the lemmas show.\<close> Each component has an invariant that its operations keep (\<open>reg_ok\<close> of the
  registry, \<open>heap_ok\<close> of the refresh queue, \<open>budget_ok\<close>, the counts of the model registry), the
  effect of each operation on what the others read, and one or more agreements: the lock-free check
  of an entry with the selector's check, the heap with a map from credentials to due times, the
  refresh time with the refresh decision. The interfaces between components are locales (a map with
  laws, a picker, a store), interpreted on the model's definitions. Some properties state what the
  code does against its comments: they say so, and the manifest lists them as findings.

  \<^bold>\<open>Bounds and fuel.\<close> No definition has fuel. Loops that recur on a structure or a bounded counter
  are total functions; the retry loop recurs on the attempts left.

  \<^bold>\<open>Not modelled.\<close> HTTP clients and the executors of the providers, login flows and OAuth, the
  configuration files, the command line, the HTTP server and its handlers, the stores, usage
  statistics, the relay over web sockets, the file watcher and logging are input and output around
  libraries. The circuit breakers are a library. The tables of model definitions are data. In the
  modelled packages: the round-tripper, token pre-warming and credential injection of the manager,
  goroutines that only sleep and call a modelled step, object pools (reuse of memory that is reset),
  and telemetry. The remainder of the translator (requests and answers of each format) is future
  work.
\<close>

end
